(* ===== verification/Prelude.thy ===== *)
theory Prelude
  imports Complex_Main "HOL-Library.Word" "HOL-Library.Sublist" "HOL-Library.Multiset"
begin

text \<open>
  Shared vocabulary of the development: the machine types of the Go sources, the pieces of the Go
  standard library that several components use (package \<^verbatim>\<open>strings\<close>, decimal printing, loops that
  stop at the first error, the conversion of a float to an integer) and the generic lemmas on them.
  The collection \<open>go_defs\<close> gathers the definitions that component proofs unfold together.
\<close>

named_theorems go_defs

type_synonym byte = "8 word"
type_synonym bytes = "byte list"
type_synonym int32 = "32 word"
type_synonym uint32 = "32 word"
type_synonym uint64 = "64 word"

abbreviation MaxUint64 :: uint64 where
  "MaxUint64 \<equiv> - 1"

section \<open>Package strings\<close>

definition HasPrefix :: "string \<Rightarrow> string \<Rightarrow> bool" where
  "HasPrefix s p = (take (length p) s = p)"

definition TrimPrefix :: "string \<Rightarrow> string \<Rightarrow> string" where
  "TrimPrefix s p = (if HasPrefix s p then drop (length p) s else s)"

fun Contains :: "string \<Rightarrow> string \<Rightarrow> bool" where
  "Contains [] sub = (sub = [])"
| "Contains (c # cs) sub = (HasPrefix (c # cs) sub \<or> Contains cs sub)"

fun Join :: "string list \<Rightarrow> string \<Rightarrow> string" where
  "Join [] sep = ''''"
| "Join [x] sep = x"
| "Join (x # y # xs) sep = x @ sep @ Join (y # xs) sep"

fun itoa_nat :: "nat \<Rightarrow> string" where
  "itoa_nat n = (if n < 10 then [char_of (48 + n)] else itoa_nat (n div 10) @ [char_of (48 + n mod 10)])"

declare itoa_nat.simps [simp del]

definition itoa :: "int \<Rightarrow> string" where
  "itoa i = (if i < 0 then ''-'' @ itoa_nat (nat (- i)) else itoa_nat (nat i))"

lemma HasPrefix_iff: "HasPrefix s p \<longleftrightarrow> prefix p s"
proof
  assume "HasPrefix s p"
  then have "p @ drop (length p) s = s"
    by (metis HasPrefix_def append_take_drop_id)
  then show "prefix p s" by (metis prefixI)
next
  assume "prefix p s"
  then show "HasPrefix s p" by (auto simp: HasPrefix_def elim: prefixE)
qed

lemma HasPrefix_append [simp]: "HasPrefix (p @ s) p"
  by (simp add: HasPrefix_def)

lemma TrimPrefix_append [simp]: "TrimPrefix (p @ s) p = s"
  by (simp add: TrimPrefix_def)

lemma Contains_iff: "Contains s sub \<longleftrightarrow> sublist sub s"
proof (induction s)
  case Nil
  then show ?case by simp
next
  case (Cons c cs)
  have "Contains (c # cs) sub \<longleftrightarrow> prefix sub (c # cs) \<or> sublist sub cs"
    by (simp only: Contains.simps HasPrefix_iff Cons.IH)
  then show ?case by (simp only: sublist_Cons_right)
qed

section \<open>Loops that stop at the first error\<close>

fun mapE :: "('a \<Rightarrow> 'e + 'b) \<Rightarrow> 'a list \<Rightarrow> 'e + 'b list" where
  "mapE f [] = Inr []"
| "mapE f (x # xs) =
     (case f x of Inl e \<Rightarrow> Inl e
      | Inr y \<Rightarrow> (case mapE f xs of Inl e \<Rightarrow> Inl e | Inr ys \<Rightarrow> Inr (y # ys)))"

lemma mapE_Inr_iff: "mapE f xs = Inr ys \<longleftrightarrow> list_all2 (\<lambda>x y. f x = Inr y) xs ys"
proof (induction xs arbitrary: ys)
  case Nil
  then show ?case by auto
next
  case (Cons x xs)
  show ?case
    by (cases ys) (auto simp: Cons.IH [symmetric] split: sum.splits)
qed

lemma mapE_Inl_ex: "mapE f xs = Inl e \<Longrightarrow> \<exists>x \<in> set xs. f x = Inl e"
  by (induction xs) (auto split: sum.splits)

lemma mapE_total: "(\<And>x. x \<in> set xs \<Longrightarrow> \<exists>y. f x = Inr y) \<Longrightarrow> \<exists>ys. mapE f xs = Inr ys"
proof (induction xs)
  case Nil
  then show ?case by simp
next
  case (Cons x xs)
  from Cons.prems obtain y where y: "f x = Inr y" by auto
  from Cons obtain ys where "mapE f xs = Inr ys" by fastforce
  with y show ?case by simp
qed

lemma mapE_map: "(\<And>x. x \<in> set xs \<Longrightarrow> f x = Inr (g x)) \<Longrightarrow> mapE f xs = Inr (map g xs)"
  by (induction xs) auto

lemma mapE_map_map: "mapE f (map g xs) = mapE (\<lambda>x. f (g x)) xs"
  by (induction xs) (auto split: sum.split)

lemma mapE_cong [fundef_cong]:
  "xs = ys \<Longrightarrow> (\<And>x. x \<in> set ys \<Longrightarrow> f x = g x) \<Longrightarrow> mapE f xs = mapE g ys"
proof (induction ys arbitrary: xs)
  case Nil
  then show ?case by simp
next
  case (Cons y ys)
  have "mapE f ys = mapE g ys"
    by (rule Cons.IH) (simp_all add: Cons.prems(2))
  with Cons.prems show ?case by (simp split: sum.split)
qed

fun foldE :: "('a \<Rightarrow> 's \<Rightarrow> 'e + 's) \<Rightarrow> 'a list \<Rightarrow> 's \<Rightarrow> 'e + 's" where
  "foldE f [] s = Inr s"
| "foldE f (x # xs) s = (case f x s of Inl e \<Rightarrow> Inl e | Inr s1 \<Rightarrow> foldE f xs s1)"

lemma foldE_append: "foldE f (xs @ ys) s = (case foldE f xs s of Inl e \<Rightarrow> Inl e | Inr s1 \<Rightarrow> foldE f ys s1)"
  by (induction xs arbitrary: s) (auto split: sum.split)

lemma foldE_invariant:
  assumes "foldE f xs s = Inr t" "P s" "\<And>x s s1. x \<in> set xs \<Longrightarrow> P s \<Longrightarrow> f x s = Inr s1 \<Longrightarrow> P s1"
  shows "P t"
  using assms
proof (induction xs arbitrary: s)
  case (Cons a xs)
  then obtain s1 where s1: "f a s = Inr s1" "foldE f xs s1 = Inr t" by (auto split: sum.splits)
  have "P s1" using Cons.prems(2) s1(1) by (rule Cons.prems(3) [rotated]) simp
  with s1(2) show ?case by (rule Cons.IH) (metis Cons.prems(3) list.set_intros(2))
qed simp

lemma foldE_keeps:
  assumes "foldE f xs s = Inr t" "\<And>x s s1. x \<in> set xs \<Longrightarrow> f x s = Inr s1 \<Longrightarrow> g s1 = g s"
  shows "g t = g s"
  using foldE_invariant [OF assms(1), of "\<lambda>t. g t = g s"] assms(2) by force

section \<open>Removing one element\<close>

text \<open>
  The registries of the event dispatcher delete entry \<open>i\<close> of a slice by moving entry 0 there and
  dropping the head. The content, as a multiset, loses exactly that entry.
\<close>

definition delete_at :: "'a list \<Rightarrow> nat \<Rightarrow> 'a list" where
  "delete_at xs i = tl (xs[i := hd xs])"

lemma mset_tl: "xs \<noteq> [] \<Longrightarrow> mset (tl xs) = mset xs - {# hd xs #}"
  by (cases xs) auto

lemma mset_delete_at:
  assumes "i < length xs"
  shows "mset (delete_at xs i) = mset xs - {# xs ! i #}"
proof (cases i)
  case 0
  with assms show ?thesis by (cases xs) (auto simp: delete_at_def)
next
  case (Suc j)
  with assms obtain y ys where xs: "xs = y # ys" and j: "j < length ys"
    by (cases xs) auto
  have "mset (ys[j := y]) = add_mset y (mset ys - {# ys ! j #})"
    using j by (rule mset_update)
  with j show ?thesis by (simp add: delete_at_def xs Suc)
qed

lemma length_delete_at: "xs \<noteq> [] \<Longrightarrow> length (delete_at xs i) = length xs - 1"
  by (simp add: delete_at_def)

section \<open>Conversion of a float64 to an integer\<close>

definition trunc_rat :: "rat \<Rightarrow> int" where
  "trunc_rat x = (if 0 \<le> x then \<lfloor>x\<rfloor> else \<lceil>x\<rceil>)"

end
