(* ===== verification/Status.thy ===== *)
theory Status
  imports Prelude
begin

text \<open>
  Errors of the SDK: the packages \<^verbatim>\<open>pkg/common/errors/multi\<close> and
  \<^verbatim>\<open>pkg/common/errors/status\<close>. A Go \<open>error\<close> value is one of: an opaque error with a text, a
  \<open>*status.Status\<close>, a wrapper made by \<^verbatim>\<open>github.com/pkg/errors\<close> (with a message, or with a stack
  only), or a \<open>multi.Errors\<close>. \<open>nil\<close> is \<open>None\<close> of \<open>error option\<close>.

  The package \<^verbatim>\<open>github.com/pkg/errors\<close> and the generated names of gRPC, orderer and transaction
  validation codes are not part of the repository: they are the record \<open>ext\<close> of parameters.
\<close>

datatype error =
    ErrNew string
  | ErrStatus status
  | ErrWithMessage string error
  | ErrWithStack error
  | ErrMulti "error list"
and status = Status (Group: int32) (Code: int32) (Message: string) (Details: "detail list")
and detail = DString string | DBytes bytes | DError error

record ext =
  Cause :: "error \<Rightarrow> error"
  withMessageText :: "string \<Rightarrow> string \<Rightarrow> string"
  grpcCodeText :: "int32 \<Rightarrow> string"
  fabricStatusText :: "int32 \<Rightarrow> string"
  txValidationText :: "int32 \<Rightarrow> string"

text \<open>An operation that can return an error or panic: the result is the value, or one of the two.\<close>

datatype failure = Panic string | Err error

type_synonym 'a outcome = "failure + 'a"

section \<open>Status groups and codes\<close>

definition UnknownStatus :: int32 where [go_defs]: "UnknownStatus = 0"
definition GRPCTransportStatus :: int32 where [go_defs]: "GRPCTransportStatus = 1"
definition HTTPTransportStatus :: int32 where [go_defs]: "HTTPTransportStatus = 2"
definition EndorserServerStatus :: int32 where [go_defs]: "EndorserServerStatus = 3"
definition EventServerStatus :: int32 where [go_defs]: "EventServerStatus = 4"
definition OrdererServerStatus :: int32 where [go_defs]: "OrdererServerStatus = 5"
definition FabricCAServerStatus :: int32 where [go_defs]: "FabricCAServerStatus = 6"
definition EndorserClientStatus :: int32 where [go_defs]: "EndorserClientStatus = 7"
definition OrdererClientStatus :: int32 where [go_defs]: "OrdererClientStatus = 8"
definition ClientStatus :: int32 where [go_defs]: "ClientStatus = 9"
definition ChaincodeStatus :: int32 where [go_defs]: "ChaincodeStatus = 10"
definition DiscoveryServerStatus :: int32 where [go_defs]: "DiscoveryServerStatus = 11"
definition TestStatus :: int32 where [go_defs]: "TestStatus = 12"

definition OK :: uint32 where [go_defs]: "OK = 0"
definition Unknown :: uint32 where [go_defs]: "Unknown = 1"
definition ConnectionFailed :: uint32 where [go_defs]: "ConnectionFailed = 2"
definition EndorsementMismatch :: uint32 where [go_defs]: "EndorsementMismatch = 3"
definition EmptyCert :: uint32 where [go_defs]: "EmptyCert = 4"
definition Timeout :: uint32 where [go_defs]: "Timeout = 5"
definition NoPeersFound :: uint32 where [go_defs]: "NoPeersFound = 6"
definition MultipleErrors :: uint32 where [go_defs]: "MultipleErrors = 7"
definition SignatureVerificationFailed :: uint32 where [go_defs]: "SignatureVerificationFailed = 8"
definition MissingEndorsement :: uint32 where [go_defs]: "MissingEndorsement = 9"
definition QueryEndorsers :: uint32 where [go_defs]: "QueryEndorsers = 11"
definition GenericTransient :: uint32 where [go_defs]: "GenericTransient = 12"
definition ChaincodeNameNotFound :: uint32 where [go_defs]: "ChaincodeNameNotFound = 23"
definition PvtDataDisseminationFailed :: uint32 where [go_defs]: "PvtDataDisseminationFailed = 24"

text \<open>A \<open>Code\<close> is a \<open>uint32\<close> and \<open>ToInt32\<close> reinterprets its bits, as the conversion of Go does.\<close>

definition ToInt32 :: "uint32 \<Rightarrow> int32" where [go_defs]: "ToInt32 c = c"
definition ToSDKStatusCode :: "int32 \<Rightarrow> uint32" where [go_defs]: "ToSDKStatusCode c = c"

definition GroupName :: "int \<rightharpoonup> string" where
  "GroupName = map_of
     [(0, ''Unknown''), (1, ''gRPC Transport Status''), (2, ''HTTP Transport Status''),
      (3, ''Endorser Server Status''), (4, ''Event Server Status''), (5, ''Orderer Server Status''),
      (6, ''Fabric CA Server Status''), (7, ''Endorser Client Status''),
      (8, ''Orderer Client Status''), (9, ''Client Status''), (10, ''Chaincode status''),
      (11, ''Discovery status''), (12, ''Test status'')]"

definition CodeName :: "int \<rightharpoonup> string" where
  "CodeName = map_of
     [(0, ''OK''), (1, ''UNKNOWN''), (2, ''CONNECTION_FAILED''), (3, ''ENDORSEMENT_MISMATCH''),
      (4, ''EMPTY_CERT''), (5, ''TIMEOUT''), (6, ''NO_PEERS_FOUND''), (7, ''MULTIPLE_ERRORS''),
      (8, ''SIGNATURE_VERIFICATION_FAILED''), (9, ''MISSING_ENDORSEMENT''),
      (11, ''QUERY_ENDORSERS''), (12, ''GENERIC_TRANSIENT''), (23, ''CHAINCODE_NAME_NOT_FOUND''),
      (24, ''PRIVATE_DATA_DISSEMINATION_FAILED'')]"

text \<open>
  \<open>Group.String\<close> falls back on \<open>UnknownStatus.String()\<close>, whose own lookup succeeds, so the
  recursion is one step deep and is written out.
\<close>

definition GroupString :: "int32 \<Rightarrow> string" where
  "GroupString g = (case GroupName (sint g) of Some s \<Rightarrow> s
     | None \<Rightarrow> (case GroupName (sint UnknownStatus) of Some s \<Rightarrow> s | None \<Rightarrow> ''''))"

definition CodeString :: "uint32 \<Rightarrow> string" where
  "CodeString c = (case CodeName (sint (ToInt32 c)) of Some s \<Rightarrow> s | None \<Rightarrow> itoa (uint c))"

definition codeString :: "ext \<Rightarrow> status \<Rightarrow> string" where
  "codeString x s =
     (if Group s = GRPCTransportStatus then grpcCodeText x (Code s)
      else if Group s = EndorserServerStatus \<or> Group s = OrdererServerStatus
        then fabricStatusText x (Code s)
      else if Group s = EventServerStatus then txValidationText x (Code s)
      else if Group s = EndorserClientStatus \<or> Group s = OrdererClientStatus
              \<or> Group s = ClientStatus then CodeString (ToSDKStatusCode (Code s))
      else CodeString Unknown)"

definition StatusError :: "ext \<Rightarrow> status \<Rightarrow> string" where
  "StatusError x s = GroupString (Group s) @ '' Code: ('' @ itoa (sint (Code s)) @ '') ''
     @ codeString x s @ ''. Description: '' @ Message s"

section \<open>Rendering an error\<close>

text \<open>\<open>Error()\<close> of every kind of error; the \<open>multi.Errors\<close> case is \<open>Errors.Error\<close>.\<close>

fun ErrorText :: "ext \<Rightarrow> error \<Rightarrow> string" where
  "ErrorText x (ErrNew s) = s"
| "ErrorText x (ErrStatus s) = StatusError x s"
| "ErrorText x (ErrWithMessage m e) = withMessageText x m (ErrorText x e)"
| "ErrorText x (ErrWithStack e) = ErrorText x e"
| "ErrorText x (ErrMulti []) = ''''"
| "ErrorText x (ErrMulti [e]) = ErrorText x e"
| "ErrorText x (ErrMulti (e # f # es)) =
     Join (''Multiple errors occurred:'' # map (ErrorText x) (e # f # es)) '' - ''"

section \<open>Package multi\<close>

definition multi_New :: "error option list \<Rightarrow> error option" where
  "multi_New errs =
     (let errors = List.map_filter (\<lambda>e. e) errs in
      case errors of [] \<Rightarrow> None | [e] \<Rightarrow> Some e | _ \<Rightarrow> Some (ErrMulti errors))"

definition multi_Append :: "error option \<Rightarrow> error option \<Rightarrow> error option" where
  "multi_Append errs err =
     (case errs of
        Some (ErrMulti m) \<Rightarrow> (case err of None \<Rightarrow> errs | Some e \<Rightarrow> Some (ErrMulti (m @ [e])))
      | _ \<Rightarrow> multi_New [errs, err])"

definition multi_ToError :: "error list \<Rightarrow> error option" where
  "multi_ToError errs = (case errs of [] \<Rightarrow> None | [e] \<Rightarrow> Some e | _ \<Rightarrow> Some (ErrMulti errs))"

section \<open>Package status\<close>

definition status_New :: "int32 \<Rightarrow> int32 \<Rightarrow> string \<Rightarrow> detail list \<Rightarrow> status" where
  "status_New grp code msg details = Status grp code msg details"

text \<open>\<open>FromError\<close>: \<open>Some s\<close> is the pair (s, true) of the code, \<open>None\<close> is (nil, false).\<close>

definition FromError :: "ext \<Rightarrow> error option \<Rightarrow> status option" where
  "FromError x err =
     (case err of
        None \<Rightarrow> Some (Status UnknownStatus (ToInt32 OK) '''' [])
      | Some (ErrStatus s) \<Rightarrow> Some s
      | Some e \<Rightarrow>
          (case Cause x e of
             ErrStatus s \<Rightarrow> Some s
           | ErrMulti m \<Rightarrow>
               Some (status_New ClientStatus (ToInt32 MultipleErrors)
                 (ErrorText x (ErrMulti m)) (map DError m))
           | _ \<Rightarrow> None))"

definition NewFromProposalResponse :: "int32 \<Rightarrow> string \<Rightarrow> bytes \<Rightarrow> string \<Rightarrow> status" where
  "NewFromProposalResponse respStatus respMessage respPayload endorser =
     status_New EndorserServerStatus respStatus respMessage [DString endorser, DBytes respPayload]"

definition NewFromExtractedChaincodeError :: "int \<Rightarrow> string \<Rightarrow> status" where
  "NewFromExtractedChaincodeError code message = Status ChaincodeStatus (word_of_int code) message []"

section \<open>What is documented of \<open>errors.Cause\<close>\<close>

text \<open>
  \<open>errors.Cause\<close> returns the innermost error of a chain of wrappers; an error that is no wrapper
  is its own cause.
\<close>

definition cause_documented :: "ext \<Rightarrow> bool" where
  "cause_documented x \<longleftrightarrow>
     (\<forall>m e. Cause x (ErrWithMessage m e) = Cause x e) \<and>
     (\<forall>e. Cause x (ErrWithStack e) = Cause x e) \<and>
     (\<forall>s. Cause x (ErrNew s) = ErrNew s) \<and>
     (\<forall>s. Cause x (ErrStatus s) = ErrStatus s) \<and>
     (\<forall>es. Cause x (ErrMulti es) = ErrMulti es)"

primrec unwrap :: "error \<Rightarrow> error" where
  "unwrap (ErrNew s) = ErrNew s"
| "unwrap (ErrStatus s) = ErrStatus s"
| "unwrap (ErrWithMessage m e) = unwrap e"
| "unwrap (ErrWithStack e) = unwrap e"
| "unwrap (ErrMulti es) = ErrMulti es"

definition pkg_errors :: ext where
  "pkg_errors = \<lparr>Cause = unwrap, withMessageText = (\<lambda>m s. m @ '': '' @ s),
     grpcCodeText = (\<lambda>c. itoa (sint c)), fabricStatusText = (\<lambda>c. itoa (sint c)),
     txValidationText = (\<lambda>c. itoa (sint c))\<rparr>"

lemma cause_documented_pkg_errors [simp]: "cause_documented pkg_errors"
  by (simp add: cause_documented_def pkg_errors_def)

lemma cause_documented_unwrap: "cause_documented x \<Longrightarrow> Cause x e = unwrap e"
  by (induction e) (auto simp: cause_documented_def)

section \<open>Properties\<close>

lemma FromError_unwrap:
  assumes "cause_documented x"
  shows "FromError x (Some e) =
    (case unwrap e of ErrStatus s \<Rightarrow> Some s
     | ErrMulti m \<Rightarrow> Some (Status ClientStatus (ToInt32 MultipleErrors)
         (ErrorText x (ErrMulti m)) (map DError m))
     | _ \<Rightarrow> None)"
  using cause_documented_unwrap [OF assms, of e]
  by (cases e) (simp_all add: FromError_def status_New_def split: error.split)

text \<open>A chain of wrappers around an error, outermost first; \<open>None\<close> is \<open>errors.WithStack\<close>.\<close>

fun wraps :: "string option list \<Rightarrow> error \<Rightarrow> error" where
  "wraps [] e = e"
| "wraps (Some m # ws) e = ErrWithMessage m (wraps ws e)"
| "wraps (None # ws) e = ErrWithStack (wraps ws e)"

lemma unwrap_wraps [simp]: "unwrap (wraps ws e) = unwrap e"
  by (induction ws e rule: wraps.induct) simp_all

lemma map_filter_id_Some [simp]: "List.map_filter (\<lambda>e. e) (map Some es) = es"
  by (induction es) (auto simp: List.map_filter_def)

lemma multi_New_Some: "multi_New (map Some es) = multi_ToError es"
  by (simp add: multi_New_def multi_ToError_def)

lemma foldl_Append_multi:
  "foldl multi_Append (Some (ErrMulti m)) (map Some es) = Some (ErrMulti (m @ es))"
  by (induction es arbitrary: m) (simp_all add: multi_Append_def)

text \<open>
  Status survives wrapping. However often an error is wrapped with a
  message or a stack, \<open>FromError\<close> finds the same status as for the error itself: the status it
  carries, the synthesised \<open>MultipleErrors\<close> client status for a \<open>multi.Errors\<close>, and nothing for an
  opaque error.
\<close>

theorem FromError_wraps:
  assumes "cause_documented x"
  shows "FromError x (Some (wraps ws e)) = FromError x (Some e)"
  by (simp add: FromError_unwrap [OF assms])

theorem FromError_wraps_witness:
  "FromError pkg_errors (Some (wraps [Some ''call failed'', None]
       (ErrStatus (Status EndorserClientStatus ConnectionFailed ''x'' [])))) =
     Some (Status EndorserClientStatus ConnectionFailed ''x'' [])"
  using FromError_wraps [OF cause_documented_pkg_errors,
      of "[Some ''call failed'', None]" "ErrStatus (Status EndorserClientStatus ConnectionFailed ''x'' [])"]
  by (simp add: FromError_def)

text \<open>
  Collecting errors one by one with \<open>multi.Append\<close> gives the error that \<open>multi.New\<close> builds from the
  whole list, provided the first error is not itself a \<open>multi.Errors\<close> (which \<open>Append\<close> extends in
  place).
\<close>

theorem multi_Append_New:
  assumes "\<forall>m. es \<noteq> [] \<longrightarrow> hd es \<noteq> ErrMulti m"
  shows "foldl multi_Append None (map Some es) = multi_New (map Some es)"
proof (cases es)
  case Nil
  then show ?thesis by (simp add: multi_New_def List.map_filter_def)
next
  case (Cons e rest)
  have one: "multi_Append None (Some e) = Some e"
    by (simp add: multi_Append_def multi_New_def List.map_filter_def)
  show ?thesis
  proof (cases rest)
    case Nil
    with Cons one show ?thesis
      by (simp add: multi_New_def List.map_filter_def)
  next
    case (Cons f rest')
    from assms \<open>es = e # rest\<close> have "\<And>m. e \<noteq> ErrMulti m" by simp
    then have "multi_Append (Some e) (Some f) = Some (ErrMulti [e, f])"
      by (cases e) (auto simp: multi_Append_def multi_New_def List.map_filter_def)
    with one have "foldl multi_Append None (map Some es) = Some (ErrMulti es)"
      by (simp add: \<open>es = e # rest\<close> Cons foldl_Append_multi)
    moreover have "multi_New (map Some es) = Some (ErrMulti es)"
      unfolding multi_New_Some by (simp add: \<open>es = e # rest\<close> Cons multi_ToError_def)
    ultimately show ?thesis by simp
  qed
qed

theorem multi_Append_New_witness:
  "foldl multi_Append None (map Some [ErrNew ''a'', ErrNew ''b'', ErrNew ''c'']) =
     Some (ErrMulti [ErrNew ''a'', ErrNew ''b'', ErrNew ''c''])"
  using multi_Append_New [of "[ErrNew ''a'', ErrNew ''b'', ErrNew ''c'']"]
  unfolding multi_New_Some by (simp add: multi_ToError_def)

end
