(* ===== verification/Retry.thy ===== *)
theory Retry
  imports Status
begin

text \<open>
  Retries: the packages \<^verbatim>\<open>pkg/common/errors/retry\<close> (\<^verbatim>\<open>retry.go\<close>, \<^verbatim>\<open>defaults.go\<close>,
  \<^verbatim>\<open>invoker.go\<close>). The status constants of the orderer, of transaction validation and of gRPC are
  generated outside the repository and are the fields of the record \<open>ext_codes\<close>; \<open>fabric_codes\<close> is
  an instance for the witnesses. Floating point: a \<open>float64\<close> is a rational and \<open>rnd\<close> is the rounding
  applied to the result of every conversion and multiplication. The interface \<open>retry.Handler\<close> is the
  locale \<open>retry_handler\<close>, in which the invoker is shown to return, and \<open>impl\<close> provides it.
\<close>

record ext_codes =
  Status_SUCCESS :: int32
  Status_BAD_REQUEST :: int32
  Status_NOT_FOUND :: int32
  Status_INTERNAL_SERVER_ERROR :: int32
  Status_SERVICE_UNAVAILABLE :: int32
  TxValidationCode_VALID :: int32
  TxValidationCode_DUPLICATE_TXID :: int32
  TxValidationCode_ENDORSEMENT_POLICY_FAILURE :: int32
  TxValidationCode_MVCC_READ_CONFLICT :: int32
  TxValidationCode_PHANTOM_READ_CONFLICT :: int32
  grpc_Unavailable :: int32

type_synonym retry_codes = "(int32 \<times> uint32 list) list"

record Opts =
  Attempts :: int
  InitialBackoff :: int
  MaxBackoff :: int
  BackoffFactor :: rat
  RetryableCodes :: retry_codes

record impl =
  opts :: Opts
  retries :: nat

section \<open>Default options\<close>

abbreviation millisecond :: int where "millisecond \<equiv> 1000000"
abbreviation second :: int where "second \<equiv> 1000 * millisecond"

definition DefaultRetryableCodes :: "ext_codes \<Rightarrow> retry_codes" where
  "DefaultRetryableCodes k =
    [(EndorserClientStatus, [EndorsementMismatch, ChaincodeNameNotFound]),
     (EndorserServerStatus, [Status_SERVICE_UNAVAILABLE k, Status_INTERNAL_SERVER_ERROR k]),
     (OrdererServerStatus, [Status_SERVICE_UNAVAILABLE k, Status_INTERNAL_SERVER_ERROR k]),
     (EventServerStatus, [TxValidationCode_DUPLICATE_TXID k,
        TxValidationCode_ENDORSEMENT_POLICY_FAILURE k, TxValidationCode_MVCC_READ_CONFLICT k,
        TxValidationCode_PHANTOM_READ_CONFLICT k]),
     (GRPCTransportStatus, [grpc_Unavailable k])]"

definition ResMgmtDefaultRetryableCodes :: "ext_codes \<Rightarrow> retry_codes" where
  "ResMgmtDefaultRetryableCodes k =
    [(EndorserClientStatus, [ConnectionFailed, EndorsementMismatch, ChaincodeNameNotFound]),
     (EndorserServerStatus, [Status_SERVICE_UNAVAILABLE k, Status_INTERNAL_SERVER_ERROR k]),
     (OrdererServerStatus, [Status_SERVICE_UNAVAILABLE k, Status_INTERNAL_SERVER_ERROR k,
        Status_BAD_REQUEST k, Status_NOT_FOUND k]),
     (EventServerStatus, [TxValidationCode_DUPLICATE_TXID k,
        TxValidationCode_ENDORSEMENT_POLICY_FAILURE k, TxValidationCode_MVCC_READ_CONFLICT k,
        TxValidationCode_PHANTOM_READ_CONFLICT k]),
     (GRPCTransportStatus, [grpc_Unavailable k])]"

definition ChannelClientRetryableCodes :: "ext_codes \<Rightarrow> retry_codes" where
  "ChannelClientRetryableCodes k =
    [(EndorserClientStatus, [ConnectionFailed, EndorsementMismatch,
        TxValidationCode_MVCC_READ_CONFLICT k, ChaincodeNameNotFound]),
     (EndorserServerStatus, [Status_SERVICE_UNAVAILABLE k, Status_INTERNAL_SERVER_ERROR k,
        PvtDataDisseminationFailed]),
     (OrdererClientStatus, [ConnectionFailed]),
     (OrdererServerStatus, [Status_SERVICE_UNAVAILABLE k, Status_INTERNAL_SERVER_ERROR k]),
     (EventServerStatus, [TxValidationCode_DUPLICATE_TXID k,
        TxValidationCode_ENDORSEMENT_POLICY_FAILURE k, TxValidationCode_MVCC_READ_CONFLICT k,
        TxValidationCode_PHANTOM_READ_CONFLICT k]),
     (GRPCTransportStatus, [grpc_Unavailable k])]"

definition ChannelConfigRetryableCodes :: retry_codes where
  "ChannelConfigRetryableCodes = [(EndorserClientStatus, [EndorsementMismatch])]"

definition DefaultOpts :: "ext_codes \<Rightarrow> Opts" where
  "DefaultOpts k = \<lparr>Attempts = 3, InitialBackoff = 500 * millisecond, MaxBackoff = 60 * second,
     BackoffFactor = 2, RetryableCodes = DefaultRetryableCodes k\<rparr>"

definition DefaultChannelOpts :: "ext_codes \<Rightarrow> Opts" where
  "DefaultChannelOpts k = \<lparr>Attempts = 3, InitialBackoff = 500 * millisecond, MaxBackoff = 60 * second,
     BackoffFactor = 2, RetryableCodes = ChannelClientRetryableCodes k\<rparr>"

definition DefaultResMgmtOpts :: "ext_codes \<Rightarrow> Opts" where
  "DefaultResMgmtOpts k = \<lparr>Attempts = 5, InitialBackoff = second, MaxBackoff = 60 * second,
     BackoffFactor = 5 / 2, RetryableCodes = ResMgmtDefaultRetryableCodes k\<rparr>"

section \<open>The retry handler\<close>

definition retry_New :: "ext_codes \<Rightarrow> Opts \<Rightarrow> impl" where
  "retry_New k o1 =
     \<lparr>opts = (if RetryableCodes o1 = [] then o1\<lparr>RetryableCodes := DefaultRetryableCodes k\<rparr> else o1),
      retries = 0\<rparr>"

definition WithDefaults :: "ext_codes \<Rightarrow> impl" where
  "WithDefaults k = \<lparr>opts = DefaultOpts k, retries = 0\<rparr>"

definition WithAttempts :: "ext_codes \<Rightarrow> int \<Rightarrow> impl" where
  "WithAttempts k attempts = \<lparr>opts = (DefaultOpts k)\<lparr>Attempts := attempts\<rparr>, retries = 0\<rparr>"

fun isRetryable :: "retry_codes \<Rightarrow> int32 \<Rightarrow> int32 \<Rightarrow> bool" where
  "isRetryable [] g c = False"
| "isRetryable ((grp, codes) # rest) g c =
     (if g \<noteq> grp then isRetryable rest g c
      else if c \<in> set codes then True else isRetryable rest g c)"

text \<open>The loop of \<open>backoffPeriod\<close>; the argument counts the iterations left before \<open>j = retries\<close>.\<close>

fun backoff_loop :: "(rat \<Rightarrow> rat) \<Rightarrow> rat \<Rightarrow> rat \<Rightarrow> nat \<Rightarrow> rat \<Rightarrow> rat" where
  "backoff_loop rnd factor mx 0 backoff = backoff"
| "backoff_loop rnd factor mx (Suc n) backoff =
     (if backoff < mx then backoff_loop rnd factor mx n (rnd (backoff * factor)) else backoff)"

definition backoffPeriod :: "(rat \<Rightarrow> rat) \<Rightarrow> impl \<Rightarrow> int" where
  "backoffPeriod rnd i =
     (let mx = rnd (of_int (MaxBackoff (opts i)));
          backoff = backoff_loop rnd (BackoffFactor (opts i)) mx (retries i)
                      (rnd (of_int (InitialBackoff (opts i))))
      in trunc_rat (if backoff > mx then mx else backoff))"

text \<open>
  \<open>Required\<close> returns its answer, the time it slept (\<open>None\<close> when it did not sleep) and the handler with
  its updated counter.
\<close>

definition Required :: "(rat \<Rightarrow> rat) \<Rightarrow> ext \<Rightarrow> impl \<Rightarrow> error option \<Rightarrow> bool \<times> int option \<times> impl" where
  "Required rnd x i err =
     (if int (retries i) = Attempts (opts i) then (False, None, i)
      else case FromError x err of
             Some s \<Rightarrow>
               if isRetryable (RetryableCodes (opts i)) (Group s) (Code s)
               then (True, Some (backoffPeriod rnd i), i\<lparr>retries := Suc (retries i)\<rparr>)
               else (False, None, i)
           | None \<Rightarrow> (False, None, i))"

section \<open>The retrying invoker\<close>

text \<open>
  The invoker is written over the interface: \<open>req\<close> is \<open>handler.Required\<close> with the handler's state
  made explicit, \<open>before\<close> the optional \<open>beforeRetry\<close> hook and \<open>invoc\<close> the invocation, both acting on
  a state \<open>'s\<close> they share.
\<close>

fun resolve_loop :: "('h \<Rightarrow> error \<Rightarrow> bool \<times> 'h) \<Rightarrow> error list \<Rightarrow> 'h \<Rightarrow> bool \<times> 'h" where
  "resolve_loop req [] h = (False, h)"
| "resolve_loop req (e # es) h =
     (case req h e of (b, h1) \<Rightarrow> if b then (True, h1) else resolve_loop req es h1)"

definition resolveRetry ::
  "('h \<Rightarrow> error \<Rightarrow> bool \<times> 'h) \<Rightarrow> (error \<Rightarrow> 's \<Rightarrow> 's) option \<Rightarrow> error \<Rightarrow> 'h \<Rightarrow> 's \<Rightarrow> bool \<times> 'h \<times> 's" where
  "resolveRetry req before err h s =
     (let errs = (case err of ErrMulti m \<Rightarrow> m | _ \<Rightarrow> [err]) in
      case resolve_loop req errs h of
        (b, h1) \<Rightarrow> (b, h1, if b then (case before of None \<Rightarrow> s | Some f \<Rightarrow> f err s) else s))"

partial_function (option) Invoke ::
  "('h \<Rightarrow> error \<Rightarrow> bool \<times> 'h) \<Rightarrow> (error \<Rightarrow> 's \<Rightarrow> 's) option \<Rightarrow> ('s \<Rightarrow> (error + 'a) \<times> 's) \<Rightarrow>
     nat \<Rightarrow> 'h \<Rightarrow> 's \<Rightarrow> ((error + 'a) \<times> nat \<times> 'h \<times> 's) option" where
  "Invoke req before invoc attemptNum h s =
     (case invoc s of
        (Inr v, s1) \<Rightarrow> Some (Inr v, Suc attemptNum, h, s1)
      | (Inl e, s1) \<Rightarrow>
          (case resolveRetry req before e h s1 of
             (b, h1, s2) \<Rightarrow>
               if b then Invoke req before invoc (Suc attemptNum) h1 s2
               else Some (Inl e, Suc attemptNum, h1, s2)))"

text \<open>What holds of the number of invocations and the shared state after each invocation and each call of
  the hook holds when the invoker returns.\<close>

lemma Invoke_invariant:
  assumes run: "Invoke req before invoc k h s = Some (r, n, h1, s1)"
    and start: "P k s"
    and invoked: "\<And>k s r s'. P k s \<Longrightarrow> invoc s = (r, s') \<Longrightarrow> P (Suc k) s'"
    and hooked: "\<And>k s f e. before = Some f \<Longrightarrow> P k s \<Longrightarrow> P k (f e s)"
  shows "P n s1"
proof -
  let ?Q = "\<lambda>req' before' invoc' k h s v. before' = before \<longrightarrow> invoc' = invoc \<longrightarrow> P k s \<longrightarrow> P (fst (snd v)) (snd (snd (snd v)))"
  have "?Q req before invoc k h s (r, n, h1, s1)"
  proof (rule Invoke.raw_induct [of ?Q, OF _ run], intro impI)
    fix inv req' before' invoc' k h s v
    assume IH: "\<And>req' before' invoc' k h s v. inv req' before' invoc' k h s = Some v \<Longrightarrow> ?Q req' before' invoc' k h s v"
      and step: "(case invoc' s of (Inl e, s1) \<Rightarrow> (case resolveRetry req' before' e h s1 of
            (b, h1, s2) \<Rightarrow> if b then inv req' before' invoc' (Suc k) h1 s2 else Some (Inl e, Suc k, h1, s2))
          | (Inr v, s1) \<Rightarrow> Some (Inr v, Suc k, h, s1)) = Some v"
      and eq: "before' = before" "invoc' = invoc" and "P k s"
    obtain r s' where i: "invoc s = (r, s')" by fastforce
    with \<open>P k s\<close> have P1: "P (Suc k) s'" by (rule invoked)
    show "P (fst (snd v)) (snd (snd (snd v)))"
    proof (cases r)
      case (Inr x)
      with step eq i P1 show ?thesis by auto
    next
      case (Inl e)
      obtain b h1 s2 where rr: "resolveRetry req' before e h s' = (b, h1, s2)" by (metis surj_pair)
      then have "s2 = s' \<or> (\<exists>f. before = Some f \<and> s2 = f e s')"
        by (auto simp: resolveRetry_def Let_def split: prod.splits if_splits option.splits)
      with P1 hooked have P2: "P (Suc k) s2" by auto
      from step eq i Inl rr have "(if b then inv req' before invoc (Suc k) h1 s2 else Some (Inl e, Suc k, h1, s2)) = Some v"
        by (auto split: if_splits)
      with IH [of req' before invoc "Suc k" h1 s2 v] P2 show ?thesis by (auto split: if_splits)
    qed
  qed
  with start show ?thesis by simp
qed

text \<open>The result and the final state are those of the last invocation.\<close>

lemma Invoke_last_from:
  assumes run: "Invoke req before invoc k h s = Some (r, n, h1, s1)"
    and start: "P s"
    and invoked: "\<And>s r s'. P s \<Longrightarrow> invoc s = (r, s') \<Longrightarrow> P s'"
    and hooked: "\<And>s f e. before = Some f \<Longrightarrow> P s \<Longrightarrow> P (f e s)"
  shows "\<exists>s0. P s0 \<and> invoc s0 = (r, s1)"
proof -
  let ?Q = "\<lambda>req' before' invoc' k h s v. before' = before \<longrightarrow> invoc' = invoc \<longrightarrow> P s \<longrightarrow> (\<exists>s0. P s0 \<and> invoc s0 = (fst v, snd (snd (snd v))))"
  have "?Q req before invoc k h s (r, n, h1, s1)"
  proof (rule Invoke.raw_induct [of ?Q, OF _ run], intro impI)
    fix inv req' before' invoc' k h s v
    assume IH: "\<And>req' before' invoc' k h s v. inv req' before' invoc' k h s = Some v \<Longrightarrow> ?Q req' before' invoc' k h s v"
      and step: "(case invoc' s of (Inl e, s1) \<Rightarrow> (case resolveRetry req' before' e h s1 of
            (b, h1, s2) \<Rightarrow> if b then inv req' before' invoc' (Suc k) h1 s2 else Some (Inl e, Suc k, h1, s2))
          | (Inr v, s1) \<Rightarrow> Some (Inr v, Suc k, h, s1)) = Some v"
      and eq: "before' = before" "invoc' = invoc" and "P s"
    obtain r s' where i: "invoc s = (r, s')" by fastforce
    with \<open>P s\<close> have P1: "P s'" by (rule invoked)
    show "\<exists>s0. P s0 \<and> invoc s0 = (fst v, snd (snd (snd v)))"
    proof (cases r)
      case (Inr x)
      with step eq i \<open>P s\<close> show ?thesis by auto
    next
      case (Inl e)
      obtain b h1 s2 where rr: "resolveRetry req' before e h s' = (b, h1, s2)" by (metis surj_pair)
      have s2: "\<not> b \<Longrightarrow> s2 = s'" "P s2" using rr P1 hooked [OF _ P1]
        by (auto simp: resolveRetry_def Let_def split: prod.splits if_splits option.splits)
      show ?thesis
      proof (cases b)
        case True
        then have "inv req' before invoc (Suc k) h1 s2 = Some v" using step eq i Inl rr by simp
        from IH [OF this] show ?thesis using s2(2) by simp
      next
        case False
        then show ?thesis using step eq i Inl rr s2(1) \<open>P s\<close> by auto
      qed
    qed
  qed
  then show ?thesis using start by simp
qed

lemma Invoke_last: "Invoke req before invoc k h s = Some (r, n, h1, s1) \<Longrightarrow> \<exists>s0. invoc s0 = (r, s1)"
  by (drule Invoke_last_from [where P = "\<lambda>_. True"]) simp_all

definition impl_required :: "(rat \<Rightarrow> rat) \<Rightarrow> ext \<Rightarrow> impl \<Rightarrow> error \<Rightarrow> bool \<times> impl" where
  "impl_required rnd x i e = (case Required rnd x i (Some e) of (b, _, i1) \<Rightarrow> (b, i1))"

section \<open>The handler interface\<close>

text \<open>
  A retry handler spends a finite budget: every positive answer spends some of it and no answer
  gives any back.
\<close>

locale retry_handler =
  fixes req :: "'h \<Rightarrow> error \<Rightarrow> bool \<times> 'h"
    and invar :: "'h \<Rightarrow> bool"
    and budget :: "'h \<Rightarrow> nat"
  assumes req_invar: "invar h \<Longrightarrow> req h e = (b, h1) \<Longrightarrow> invar h1"
    and req_spends: "invar h \<Longrightarrow> req h e = (True, h1) \<Longrightarrow> budget h1 < budget h"
    and req_keeps: "invar h \<Longrightarrow> req h e = (False, h1) \<Longrightarrow> budget h1 = budget h"
begin

lemma resolve_loop_spec:
  assumes "invar h" and "resolve_loop req es h = (b, h1)"
  shows "invar h1 \<and> (if b then budget h1 < budget h else budget h1 = budget h)"
  using assms
proof (induction es arbitrary: h)
  case Nil
  then show ?case by simp
next
  case (Cons e es)
  obtain b0 h0 where r: "req h e = (b0, h0)" by (cases "req h e")
  from req_invar [OF Cons.prems(1) r] have inv0: "invar h0" .
  show ?case
  proof (cases b0)
    case True
    with Cons.prems r inv0 req_spends [OF Cons.prems(1)] show ?thesis by simp
  next
    case False
    with r have "budget h0 = budget h" using req_keeps [OF Cons.prems(1)] by simp
    with False Cons.prems r Cons.IH [OF inv0] show ?thesis by (auto split: if_splits)
  qed
qed

lemma Invoke_returns:
  assumes "invar h"
  shows "\<exists>r n h1 s1. Invoke req before invoc k h s = Some (r, n, h1, s1)
           \<and> k < n \<and> n \<le> k + budget h + 1"
  using assms
proof (induction "budget h" arbitrary: h s k rule: less_induct)
  case less
  obtain r s1 where i: "invoc s = (r, s1)" by (cases "invoc s")
  show ?case
  proof (cases r)
    case (Inr v)
    with i show ?thesis by (subst Invoke.simps) simp
  next
    case (Inl e)
    obtain b h1 s2 where rr: "resolveRetry req before e h s1 = (b, h1, s2)"
      by (cases "resolveRetry req before e h s1")
    then have "resolve_loop req (case e of ErrMulti m \<Rightarrow> m | _ \<Rightarrow> [e]) h = (b, h1)"
      by (auto simp: resolveRetry_def Let_def split: prod.splits)
    from resolve_loop_spec [OF less.prems this]
    have h1: "invar h1" "if b then budget h1 < budget h else budget h1 = budget h" by auto
    show ?thesis
    proof (cases b)
      case True
      with h1 have lt: "budget h1 < budget h" by simp
      from less.hyps [OF lt h1(1), of "Suc k" s2] obtain r' n h2 s3 where
        "Invoke req before invoc (Suc k) h1 s2 = Some (r', n, h2, s3)"
        "Suc k < n" "n \<le> Suc k + budget h1 + 1" by blast
      with True lt i Inl rr show ?thesis by (subst Invoke.simps) simp
    next
      case False
      with i Inl rr show ?thesis by (subst Invoke.simps) simp
    qed
  qed
qed

end

section \<open>The handler of retry.go provides the interface\<close>

definition impl_ok :: "impl \<Rightarrow> bool" where
  "impl_ok i \<longleftrightarrow> int (retries i) \<le> Attempts (opts i)"

definition impl_budget :: "impl \<Rightarrow> nat" where
  "impl_budget i = nat (Attempts (opts i)) - retries i"

lemma impl_required_cases:
  assumes "impl_required rnd x i e = (b, i1)"
  obtains (retry) "b" "int (retries i) \<noteq> Attempts (opts i)" "i1 = i\<lparr>retries := Suc (retries i)\<rparr>"
    | (stop) "\<not> b" "i1 = i"
  using assms
  by (auto simp: impl_required_def Required_def split: if_splits option.splits)

interpretation impl_handler: retry_handler "impl_required rnd x" impl_ok impl_budget
proof
  fix h e b h1
  assume ok: "impl_ok h" and r: "impl_required rnd x h e = (b, h1)"
  from r show "impl_ok h1"
    by (cases rule: impl_required_cases) (use ok in \<open>auto simp: impl_ok_def\<close>)
next
  fix h e h1
  assume ok: "impl_ok h" and r: "impl_required rnd x h e = (True, h1)"
  from r show "impl_budget h1 < impl_budget h"
    by (cases rule: impl_required_cases) (use ok in \<open>auto simp: impl_ok_def impl_budget_def\<close>)
next
  fix h e h1
  assume r: "impl_required rnd x h e = (False, h1)"
  from r show "impl_budget h1 = impl_budget h"
    by (cases rule: impl_required_cases) auto
qed

section \<open>Properties\<close>

definition fabric_codes :: ext_codes where
  "fabric_codes = \<lparr>Status_SUCCESS = 200, Status_BAD_REQUEST = 400, Status_NOT_FOUND = 404,
     Status_INTERNAL_SERVER_ERROR = 500, Status_SERVICE_UNAVAILABLE = 503,
     TxValidationCode_VALID = 0, TxValidationCode_DUPLICATE_TXID = 9,
     TxValidationCode_ENDORSEMENT_POLICY_FAILURE = 10, TxValidationCode_MVCC_READ_CONFLICT = 11,
     TxValidationCode_PHANTOM_READ_CONFLICT = 12, grpc_Unavailable = 14\<rparr>"

lemma isRetryable_iff: "isRetryable m g c \<longleftrightarrow> (\<exists>codes. (g, codes) \<in> set m \<and> c \<in> set codes)"
  by (induction m g c rule: isRetryable.induct) auto

lemma backoff_loop_id:
  assumes "1 \<le> f" and "0 \<le> b"
  shows "min mx (backoff_loop (\<lambda>r. r) f mx n b) = min mx (b * f ^ n)"
  using assms
proof (induction n arbitrary: b)
  case 0
  then show ?case by simp
next
  case (Suc n)
  show ?case
  proof (cases "b < mx")
    case True
    from Suc.prems have "0 \<le> b * f" by simp
    from Suc.IH [OF Suc.prems(1) this] True show ?thesis by (simp add: mult.assoc)
  next
    case False
    from Suc.prems have "1 \<le> f ^ Suc n" by (intro one_le_power)
    with Suc.prems have "b * 1 \<le> b * f ^ Suc n" by (intro mult_left_mono)
    with False show ?thesis by simp
  qed
qed

text \<open>The invocations of a run: those that fail with the errors \<open>es\<close> are each followed by the hook and by another one,
  the last one gives the result and the final state.\<close>

definition hooked :: "(error \<Rightarrow> 's \<Rightarrow> 's) option \<Rightarrow> error \<Rightarrow> 's \<Rightarrow> 's" where
  "hooked before e s = (case before of None \<Rightarrow> s | Some f \<Rightarrow> f e s)"

fun attempted ::
  "(error \<Rightarrow> 's \<Rightarrow> 's) option \<Rightarrow> ('s \<Rightarrow> (error + 'a) \<times> 's) \<Rightarrow> 's \<Rightarrow> error list \<Rightarrow> error + 'a \<Rightarrow> 's \<Rightarrow> bool" where
  "attempted before invoc s [] r s1 \<longleftrightarrow> invoc s = (r, s1)"
| "attempted before invoc s (e # es) r s1 \<longleftrightarrow>
     (\<exists>s'. invoc s = (Inl e, s') \<and> attempted before invoc (hooked before e s') es r s1)"

text \<open>An error is retryable when its status, or that of one of its parts, is listed.\<close>

definition retryablePart :: "ext \<Rightarrow> Opts \<Rightarrow> error \<Rightarrow> bool" where
  "retryablePart x o1 e \<longleftrightarrow> (\<exists>s codes. FromError x (Some e) = Some s \<and> (Group s, codes) \<in> set (RetryableCodes o1) \<and> Code s \<in> set codes)"

definition retryableError :: "ext \<Rightarrow> Opts \<Rightarrow> error \<Rightarrow> bool" where
  "retryableError x o1 e \<longleftrightarrow> (\<exists>p \<in> set (case e of ErrMulti m \<Rightarrow> m | _ \<Rightarrow> [e]). retryablePart x o1 p)"

lemma impl_required_eq:
  "impl_required rnd x i e = (if int (retries i) \<noteq> Attempts (opts i) \<and> retryablePart x (opts i) e then (True, i\<lparr>retries := Suc (retries i)\<rparr>) else (False, i))"
  by (auto simp: impl_required_def Required_def retryablePart_def isRetryable_iff split: option.split)

lemma resolve_loop_impl:
  "resolve_loop (impl_required rnd x) es i =
     (if int (retries i) \<noteq> Attempts (opts i) \<and> (\<exists>p \<in> set es. retryablePart x (opts i) p) then (True, i\<lparr>retries := Suc (retries i)\<rparr>) else (False, i))"
  by (induction es) (auto simp: impl_required_eq)

lemma resolveRetry_impl:
  "resolveRetry (impl_required rnd x) before e i s =
     (if int (retries i) \<noteq> Attempts (opts i) \<and> retryableError x (opts i) e then (True, i\<lparr>retries := Suc (retries i)\<rparr>, hooked before e s) else (False, i, s))"
  by (auto simp: resolveRetry_def Let_def resolve_loop_impl retryableError_def hooked_def)

lemma Invoke_attempted:
  assumes "int (retries i) \<le> Attempts (opts i)"
  shows "\<exists>es r i1 s1. Invoke (impl_required rnd x) before invoc k i s = Some (r, k + Suc (length es), i1, s1) \<and>
    attempted before invoc s es r s1 \<and> int (length es) \<le> Attempts (opts i) - int (retries i) \<and>
    list_all (retryableError x (opts i)) es \<and>
    (\<forall>e. r = Inl e \<longrightarrow> int (length es) = Attempts (opts i) - int (retries i) \<or> \<not> retryableError x (opts i) e)"
  using assms
proof (induction "impl_budget i" arbitrary: i s k rule: less_induct)
  case less
  obtain r s1 where i: "invoc s = (r, s1)" by fastforce
  show ?case
  proof (cases "\<exists>e. r = Inl e \<and> int (retries i) \<noteq> Attempts (opts i) \<and> retryableError x (opts i) e")
    case True
    then obtain e where e: "r = Inl e" "int (retries i) \<noteq> Attempts (opts i)" "retryableError x (opts i) e" by blast
    let ?i = "i\<lparr>retries := Suc (retries i)\<rparr>"
    have "impl_budget ?i < impl_budget i" "int (retries ?i) \<le> Attempts (opts ?i)"
      using less.prems e(2) by (auto simp: impl_budget_def)
    from less.hyps [OF this, of "Suc k" "hooked before e s1"] obtain es r' i1 s2 where IH:
      "Invoke (impl_required rnd x) before invoc (Suc k) ?i (hooked before e s1) = Some (r', Suc k + Suc (length es), i1, s2)"
      "attempted before invoc (hooked before e s1) es r' s2" "int (length es) \<le> Attempts (opts i) - int (Suc (retries i))"
      "list_all (retryableError x (opts i)) es"
      "\<forall>e. r' = Inl e \<longrightarrow> int (length es) = Attempts (opts i) - int (Suc (retries i)) \<or> \<not> retryableError x (opts i) e" by auto
    have "Invoke (impl_required rnd x) before invoc k i s = Some (r', k + Suc (length (e # es)), i1, s2)"
      using IH(1) i e by (subst Invoke.simps) (simp add: resolveRetry_impl)
    moreover have "attempted before invoc s (e # es) r' s2" using i e IH(2) by simp
    ultimately show ?thesis using IH(3-5) e(3) by (intro exI [of _ "e # es"] exI [of _ r'] exI [of _ i1] exI [of _ s2]) auto
  next
    case False
    then have "\<exists>i1. Invoke (impl_required rnd x) before invoc k i s = Some (r, k + Suc (length []), i1, s1)"
      using i by (subst Invoke.simps) (cases r; auto simp: resolveRetry_impl)
    then show ?thesis using False i less.prems by (intro exI [of _ "[]"]) auto
  qed
qed

text \<open>
  C39. The retrying invoker always returns, with the first success or with the last error. For a handler with
  a non-negative number of attempts, \<open>Invoke\<close> returns whatever the invocation does. All invocations but the last
  failed, each with an error whose status is retryable, and each was followed by the hook; there are at most
  \<open>Attempts - retries\<close> of them. The result and the state are those of the last invocation: a success, or an error
  that is not retryable or met when the attempts are used up. (The second component is the code's \<open>attemptNum\<close>.)
\<close>

theorem Invoke_bounded:
  assumes "int (retries i) \<le> Attempts (opts i)"
  shows "\<exists>es r i1 s1. Invoke (impl_required rnd x) before invoc 0 i s = Some (r, Suc (length es), i1, s1) \<and>
    attempted before invoc s es r s1 \<and> int (length es) \<le> Attempts (opts i) - int (retries i) \<and>
    list_all (retryableError x (opts i)) es \<and>
    (\<forall>e. r = Inl e \<longrightarrow> int (length es) = Attempts (opts i) - int (retries i) \<or> \<not> retryableError x (opts i) e)"
  using Invoke_attempted [OF assms, where k = 0] by simp

text \<open>Two failed invocations and a success.\<close>

definition third_time :: "nat \<Rightarrow> (error + nat) \<times> nat" where
  "third_time n = (if n < 2 then Inl (ErrStatus (Status EndorserClientStatus EndorsementMismatch '''' [])) else Inr n, Suc n)"

theorem Invoke_bounded_witness:
  "\<exists>i1. Invoke (impl_required (\<lambda>r. r) pkg_errors) None third_time 0 (WithDefaults fabric_codes) 0 = Some (Inr 2, 3, i1, 3)"
proof -
  from Invoke_bounded [of "WithDefaults fabric_codes" "\<lambda>r. r" pkg_errors None third_time 0] obtain es r i1 s1 where
    run: "Invoke (impl_required (\<lambda>r. r) pkg_errors) None third_time 0 (WithDefaults fabric_codes) 0 = Some (r, Suc (length es), i1, s1)"
    and es: "attempted None third_time 0 es r s1" "length es \<le> 3"
    and stop: "\<forall>e. r = Inl e \<longrightarrow> length es = 3 \<or> \<not> retryableError pkg_errors (DefaultOpts fabric_codes) e"
    by (auto simp: WithDefaults_def DefaultOpts_def)
  have "retryableError pkg_errors (DefaultOpts fabric_codes) (ErrStatus (Status EndorserClientStatus EndorsementMismatch '''' []))"
    by (auto simp: retryableError_def retryablePart_def FromError_def DefaultOpts_def DefaultRetryableCodes_def)
  with es stop have "r = Inr 2 \<and> length es = 2 \<and> s1 = 3"
    by (cases es; cases "tl es"; cases "tl (tl es)"; cases "tl (tl (tl es))") (auto simp: third_time_def hooked_def)
  with run show ?thesis by (auto simp: numeral_3_eq_3)
qed

text \<open>
  The back-off is exponential and capped. With exact arithmetic, a factor of at least 1 and a
  non-negative initial back-off, the sleep before retry number \<open>retries + 1\<close> is
  \<open>min(MaxBackoff, InitialBackoff * BackoffFactor ^ retries)\<close>, truncated: the first retry waits
  \<open>InitialBackoff\<close> and the second \<open>InitialBackoff * BackoffFactor\<close>.
\<close>

theorem backoffPeriod_closed_form:
  assumes "1 \<le> BackoffFactor (opts i)" and "0 \<le> InitialBackoff (opts i)"
  shows "backoffPeriod (\<lambda>r. r) i =
    trunc_rat (min (of_int (MaxBackoff (opts i)))
      (of_int (InitialBackoff (opts i)) * BackoffFactor (opts i) ^ retries i))"
proof -
  have "0 \<le> (of_int (InitialBackoff (opts i)) :: rat)" using assms(2) by simp
  from backoff_loop_id [OF assms(1) this, of "of_int (MaxBackoff (opts i))" "retries i"]
  have "trunc_rat (min (of_int (MaxBackoff (opts i))) (backoff_loop (\<lambda>r. r) (BackoffFactor (opts i))
      (of_int (MaxBackoff (opts i))) (retries i) (of_int (InitialBackoff (opts i))))) =
    trunc_rat (min (of_int (MaxBackoff (opts i)))
      (of_int (InitialBackoff (opts i)) * BackoffFactor (opts i) ^ retries i))" by simp
  then show ?thesis
    by (auto simp: backoffPeriod_def Let_def min_def not_less split: if_splits)
qed

theorem backoffPeriod_closed_form_witness:
  "backoffPeriod (\<lambda>r. r) ((WithDefaults fabric_codes)\<lparr>retries := 2\<rparr>) = 2000 * millisecond"
  using backoffPeriod_closed_form [of "(WithDefaults fabric_codes)\<lparr>retries := 2\<rparr>"]
  by (simp add: WithDefaults_def DefaultOpts_def trunc_rat_def)

text \<open>
  \<open>Required\<close> decides exactly by budget and status. It answers yes, sleeps the back-off and
  counts the retry if and only if attempts are left and the error's status is listed as retryable;
  otherwise it changes nothing.
\<close>

theorem Required_iff:
  "Required rnd x i err =
    (if int (retries i) \<noteq> Attempts (opts i) \<and>
        (\<exists>s codes. FromError x err = Some s \<and> (Group s, codes) \<in> set (RetryableCodes (opts i))
             \<and> Code s \<in> set codes)
     then (True, Some (backoffPeriod rnd i), i\<lparr>retries := Suc (retries i)\<rparr>)
     else (False, None, i))"
  by (auto simp: Required_def isRetryable_iff split: option.splits)

end
