(* ===== verification/Balancing.thy ===== *)
theory Balancing
  imports Prelude
begin

text \<open>
  Peers and load balancing: \<^verbatim>\<open>pkg/util/concurrent/rollingcounter\<close>,
  \<^verbatim>\<open>pkg/fab/events/client/lbp\<close>, \<^verbatim>\<open>pkg/client/common/selection/balancer\<close>,
  \<^verbatim>\<open>pkg/client/common/selection/sorter\<close> and \<^verbatim>\<open>pkg/client/common/random\<close>.

  A \<open>fab.Peer\<close> is a record whose \<open>peerRef\<close> is the identity of the Go object (interface values are
  compared by it) and whose \<open>BlockHeight\<close> is \<open>None\<close> for a peer that does not implement
  \<open>fab.PeerState\<close>. The random source is an arbitrary function \<open>src\<close> of the number drawn so far and
  of the bound: \<open>rand_Intn\<close> takes its value modulo the bound, so every value of the range, and no
  other, can occur, and \<open>rand_Perm\<close> is the shuffle of \<^verbatim>\<open>math/rand\<close> over it. A Go panic is \<open>None\<close>.
\<close>

record peer =
  peerRef :: nat
  MSPID :: string
  URL :: string
  BlockHeight :: "uint64 option"

type_synonym rand_src = "nat \<Rightarrow> nat \<Rightarrow> nat"

definition rand_Intn :: "rand_src \<Rightarrow> nat \<Rightarrow> nat \<Rightarrow> nat" where
  "rand_Intn src k n = src k n mod n"

fun shuffle :: "rand_src \<Rightarrow> nat \<Rightarrow> nat \<Rightarrow> nat list" where
  "shuffle src k 0 = []"
| "shuffle src k (Suc i) =
     (let m = shuffle src k i; j = rand_Intn src (k + i) (Suc i)
      in if j = i then m @ [i] else m[j := i] @ [m ! j])"

definition rand_Perm :: "rand_src \<Rightarrow> nat \<Rightarrow> nat \<Rightarrow> nat list" where
  "rand_Perm src k n = shuffle src k n"

section \<open>Rolling counter\<close>

record Counter =
  index :: int32

definition counter_New :: Counter where
  "counter_New = \<lparr>index = - 1\<rparr>"

text \<open>
  The body of the loop of \<open>Next\<close>: the value computed from the index that was loaded. A call whose
  compare-and-swap succeeds, as every call without contention does, returns that value and stores
  it (\<open>counter_Next\<close>).
\<close>

definition next_index :: "(nat \<Rightarrow> nat) \<Rightarrow> int \<Rightarrow> int32 \<Rightarrow> int" where
  "next_index seed n current =
     (let i = sint current in
      if i = - 1 then int (seed (nat n) mod nat n) else if i + 1 \<ge> n then 0 else i + 1)"

definition counter_Next :: "(nat \<Rightarrow> nat) \<Rightarrow> int \<Rightarrow> Counter \<Rightarrow> (int \<times> Counter) option" where
  "counter_Next seed n c =
     (if n \<le> 0 then None
      else let i = next_index seed n (index c) in Some (i, c\<lparr>index := word_of_int i\<rparr>))"

text \<open>
  Contention: any number of goroutines share the counter. A goroutine loads the index, and later
  compares and swaps; when the index has changed in between it starts over. \<open>returned\<close> lists the
  completed calls, latest first, as (limit, value).
\<close>

datatype call_pc = Idle | Loaded int int32

record counter_sys =
  shared :: int32
  calls :: "nat \<Rightarrow> call_pc"
  returned :: "(int \<times> int) list"

definition counter_init :: counter_sys where
  "counter_init = \<lparr>shared = - 1, calls = (\<lambda>_. Idle), returned = []\<rparr>"

inductive counter_step :: "(nat \<Rightarrow> nat) \<Rightarrow> counter_sys \<Rightarrow> counter_sys \<Rightarrow> bool" for seed where
  load: "calls s t = Idle \<Longrightarrow> 0 < n \<Longrightarrow>
     counter_step seed s (s\<lparr>calls := (calls s)(t := Loaded n (shared s))\<rparr>)"
| cas_ok: "calls s t = Loaded n cur \<Longrightarrow> shared s = cur \<Longrightarrow> i = next_index seed n cur \<Longrightarrow>
     counter_step seed s (s\<lparr>shared := word_of_int i, calls := (calls s)(t := Idle),
       returned := (n, i) # returned s\<rparr>)"
| cas_fail: "calls s t = Loaded n cur \<Longrightarrow> shared s \<noteq> cur \<Longrightarrow>
     counter_step seed s (s\<lparr>calls := (calls s)(t := Loaded n (shared s))\<rparr>)"

inductive counter_reach :: "(nat \<Rightarrow> nat) \<Rightarrow> counter_sys \<Rightarrow> bool" for seed where
  start: "counter_reach seed counter_init"
| step: "counter_reach seed s \<Longrightarrow> counter_step seed s t \<Longrightarrow> counter_reach seed t"

inductive_cases counter_stepE: "counter_step seed s t"

text \<open>The sequential execution of the same calls, oldest first, on one counter.\<close>

fun sequential :: "(nat \<Rightarrow> nat) \<Rightarrow> Counter \<Rightarrow> int list \<Rightarrow> ((int \<times> int) list \<times> Counter) option" where
  "sequential seed c [] = Some ([], c)"
| "sequential seed c (n # ns) =
     (case counter_Next seed n c of None \<Rightarrow> None
      | Some (i, c1) \<Rightarrow> (case sequential seed c1 ns of None \<Rightarrow> None
          | Some (rs, c2) \<Rightarrow> Some ((n, i) # rs, c2)))"

section \<open>Load-balance policies of the event client\<close>

definition lbp_Random_Choose :: "rand_src \<Rightarrow> nat \<Rightarrow> peer list \<Rightarrow> (peer option \<times> nat) option" where
  "lbp_Random_Choose src k peers =
     (if peers = [] then Some (None, k)
      else Some (Some (peers ! rand_Intn src k (length peers)), Suc k))"

definition lbp_RoundRobin_Choose ::
  "(nat \<Rightarrow> nat) \<Rightarrow> Counter \<Rightarrow> peer list \<Rightarrow> (peer option \<times> Counter) option" where
  "lbp_RoundRobin_Choose seed c peers =
     (if peers = [] then Some (None, c)
      else case counter_Next seed (int (length peers)) c of
             None \<Rightarrow> None
           | Some (i, c1) \<Rightarrow>
               if 0 \<le> i \<and> i < int (length peers) then Some (Some (peers ! nat i), c1) else None)"

section \<open>Balancers of the selection services\<close>

definition balancer_Random :: "rand_src \<Rightarrow> nat \<Rightarrow> peer list \<Rightarrow> (peer list \<times> nat) option" where
  "balancer_Random src k peers =
     Some (map (\<lambda>i. peers ! i) (rand_Perm src k (length peers)), k + length peers)"

definition balancer_RoundRobin ::
  "(nat \<Rightarrow> nat) \<Rightarrow> Counter \<Rightarrow> peer list \<Rightarrow> (peer list \<times> Counter) option" where
  "balancer_RoundRobin seed c peers =
     (case counter_Next seed (int (length peers)) c of
        None \<Rightarrow> None
      | Some (idx, c1) \<Rightarrow>
          if 0 \<le> idx \<and> idx < int (length peers)
          then Some (map (\<lambda>i. peers ! i) ([nat idx..<length peers] @ [0..<nat idx]), c1)
          else None)"

section \<open>Block height sorter\<close>

text \<open>\<open>f.balancer\<close> is \<open>bal\<close>; \<open>sortDesc\<close> is \<open>sort.Sort(sort.Reverse(\<dots>))\<close> on the given peers.\<close>

fun max_height :: "uint64 \<Rightarrow> peer list \<Rightarrow> uint64" where
  "max_height m [] = m"
| "max_height m (p # ps) =
     (case BlockHeight p of None \<Rightarrow> max_height m ps
      | Some h \<Rightarrow> if h > m then max_height h ps else max_height m ps)"

definition getMaxBlockHeight :: "peer list \<Rightarrow> uint64" where
  "getMaxBlockHeight peers = max_height 0 peers"

definition at_height :: "uint64 \<Rightarrow> peer \<Rightarrow> bool" where
  "at_height cutoff p = (case BlockHeight p of None \<Rightarrow> True | Some h \<Rightarrow> h \<ge> cutoff)"

definition Less :: "peer \<Rightarrow> peer \<Rightarrow> bool" where
  "Less p q = (case BlockHeight p of None \<Rightarrow> False
     | Some h1 \<Rightarrow> (case BlockHeight q of None \<Rightarrow> False | Some h2 \<Rightarrow> h1 < h2))"

definition sorter_Sort ::
  "int \<Rightarrow> (peer list \<Rightarrow> peer list) \<Rightarrow> ('b \<Rightarrow> peer list \<Rightarrow> (peer list \<times> 'b) option) \<Rightarrow>
     'b \<Rightarrow> peer list \<Rightarrow> (peer list \<times> 'b) option" where
  "sorter_Sort lagThreshold sortDesc bal b peers =
     (if length peers \<le> 1 then Some (peers, b)
      else if lagThreshold < 0 then bal b peers
      else let maxHeight = getMaxBlockHeight peers in
        if maxHeight \<le> word_of_int lagThreshold then bal b peers
        else let cutoff = maxHeight - word_of_int lagThreshold;
                 preferred = filter (at_height cutoff) peers;
                 other = filter (\<lambda>p. \<not> at_height cutoff p) peers
             in case bal b preferred of None \<Rightarrow> None
                | Some (balanced, b1) \<Rightarrow> Some (balanced @ sortDesc other, b1))"

text \<open>What \<open>sort.Sort(sort.Reverse(s))\<close> documents: a permutation in which no entry is greater, by
  \<open>Less\<close>, than an entry before it.\<close>

definition sortDesc_documented :: "(peer list \<Rightarrow> peer list) \<Rightarrow> bool" where
  "sortDesc_documented srt \<longleftrightarrow>
     (\<forall>ps. mset (srt ps) = mset ps \<and> sorted_wrt (\<lambda>p q. \<not> Less p q) (srt ps))"

section \<open>Random choice of configured peers\<close>

fun pick_loop :: "'c list \<Rightarrow> nat list \<Rightarrow> int \<Rightarrow> 'c list \<Rightarrow> 'c list" where
  "pick_loop chPeers [] n result = result"
| "pick_loop chPeers (i # ix) n result =
     (let result1 = result @ [chPeers ! i] in
      if int (length result1) = n then result1 else pick_loop chPeers ix n result1)"

definition PickRandomNPeerConfigs :: "rand_src \<Rightarrow> nat \<Rightarrow> 'c list \<Rightarrow> int \<Rightarrow> 'c list" where
  "PickRandomNPeerConfigs src k chPeers n = pick_loop chPeers (rand_Perm src k (length chPeers)) n []"

section \<open>Rolling counter: lemmas\<close>

definition counter_ok :: "Counter \<Rightarrow> bool" where
  "counter_ok c \<longleftrightarrow> - 1 \<le> sint (index c)"

lemma counter_ok_New [simp]: "counter_ok counter_New"
  by (simp add: counter_ok_def counter_New_def)

lemma next_index_range:
  assumes "0 < n" and "- 1 \<le> sint cur"
  shows "0 \<le> next_index seed n cur \<and> next_index seed n cur < n"
proof -
  from assms(1) have "seed (nat n) mod nat n < nat n" by (intro mod_less_divisor) simp
  then have "int (seed (nat n) mod nat n) < n" using assms(1) by linarith
  with assms show ?thesis by (auto simp: next_index_def Let_def)
qed

lemma sint_int32_small: "0 \<le> i \<Longrightarrow> i < 2 ^ 31 \<Longrightarrow> sint (word_of_int i :: int32) = i"
  by (simp add: int_word_sint)

lemma counter_Next_spec:
  assumes "0 < n" and "n \<le> 2 ^ 31" and "counter_ok c"
  obtains i where "counter_Next seed n c = Some (i, c\<lparr>index := word_of_int i\<rparr>)"
    and "i = next_index seed n (index c)" and "0 \<le> i" and "i < n"
    and "sint (word_of_int i :: int32) = i" and "counter_ok (c\<lparr>index := word_of_int i\<rparr>)"
proof -
  let ?i = "next_index seed n (index c)"
  have r: "0 \<le> ?i" "?i < n"
    using next_index_range [OF assms(1), of "index c" seed] assms(3) by (auto simp: counter_ok_def)
  with assms(2) have s: "sint (word_of_int ?i :: int32) = ?i" by (intro sint_int32_small) auto
  with r assms(1) have "counter_Next seed n c = Some (?i, c\<lparr>index := word_of_int ?i\<rparr>)"
    and "counter_ok (c\<lparr>index := word_of_int ?i\<rparr>)"
    by (simp_all add: counter_Next_def Let_def counter_ok_def)
  with r s show ?thesis by (intro that) auto
qed

lemma rand_Intn_less: "0 < n \<Longrightarrow> rand_Intn src k n < n"
  by (simp add: rand_Intn_def)

lemma length_shuffle [simp]: "length (shuffle src k n) = n"
  by (induction n) (auto simp: Let_def)

lemma mset_shuffle: "mset (shuffle src k n) = mset [0..<n]"
proof (induction n)
  case 0
  then show ?case by simp
next
  case (Suc n)
  let ?m = "shuffle src k n" and ?j = "rand_Intn src (k + n) (Suc n)"
  show ?case
  proof (cases "?j = n")
    case True
    with Suc show ?thesis by (simp add: Let_def)
  next
    case False
    with rand_Intn_less [of "Suc n" src "k + n"] have j: "?j < length ?m" by simp
    then have "?m ! ?j \<in># mset ?m" by (simp add: nth_mem)
    then have "mset (?m[?j := n] @ [?m ! ?j]) = add_mset n (mset ?m)"
      using mset_update [OF j, of n] by simp
    with False Suc show ?thesis by (simp add: Let_def)
  qed
qed

lemma mset_map_nth_perm: "mset is = mset [0..<length xs] \<Longrightarrow> mset (map (\<lambda>i. xs ! i) is) = mset xs"
  by (metis map_nth mset_map)

lemma int_length_int32: "length xs \<le> 2 ^ 31 \<Longrightarrow> int (length xs) \<le> 2 ^ 31"
  by simp

section \<open>Interfaces\<close>

text \<open>
  \<open>lbp.LoadBalancePolicy\<close>: on a non-empty list a member is chosen, on the empty list nobody is
  (a nil peer and no error). \<open>balancer.Balancer\<close>: a non-empty list is permuted, never reduced.
  Lengths are bounded by \<open>2 ^ 31\<close> because the rolling counter keeps an \<open>int32\<close>.
\<close>

locale load_balance_policy =
  fixes chooser :: "'b \<Rightarrow> peer list \<Rightarrow> (peer option \<times> 'b) option"
    and lb_invar :: "'b \<Rightarrow> bool"
  assumes choose_empty: "chooser b [] = Some (None, b)"
    and choose_member: "lb_invar b \<Longrightarrow> ps \<noteq> [] \<Longrightarrow> length ps \<le> 2 ^ 31 \<Longrightarrow>
      \<exists>p b1. chooser b ps = Some (Some p, b1) \<and> p \<in> set ps \<and> lb_invar b1"

interpretation random_lbp: load_balance_policy "lbp_Random_Choose src" "\<lambda>_. True"
proof
  fix b show "lbp_Random_Choose src b [] = Some (None, b)" by (simp add: lbp_Random_Choose_def)
next
  fix b and ps :: "peer list"
  assume "ps \<noteq> []"
  then show "\<exists>p b1. lbp_Random_Choose src b ps = Some (Some p, b1) \<and> p \<in> set ps \<and> True"
    by (auto simp: lbp_Random_Choose_def intro: nth_mem rand_Intn_less)
qed

interpretation roundrobin_lbp: load_balance_policy "lbp_RoundRobin_Choose seed" counter_ok
proof
  fix b show "lbp_RoundRobin_Choose seed b [] = Some (None, b)" by (simp add: lbp_RoundRobin_Choose_def)
next
  fix b and ps :: "peer list"
  assume ok: "counter_ok b" and ne: "ps \<noteq> []" and len: "length ps \<le> 2 ^ 31"
  from ne have "0 < int (length ps)" by simp
  moreover from len have "int (length ps) \<le> 2 ^ 31" by (rule int_length_int32)
  ultimately obtain i where n: "counter_Next seed (int (length ps)) b = Some (i, b\<lparr>index := word_of_int i\<rparr>)"
    and i: "0 \<le> i" "i < int (length ps)" and ok': "counter_ok (b\<lparr>index := word_of_int i\<rparr>)"
    using ok by (rule counter_Next_spec)
  from i have "nat i < length ps" by linarith
  with n i ok' ne
  show "\<exists>p b1. lbp_RoundRobin_Choose seed b ps = Some (Some p, b1) \<and> p \<in> set ps \<and> counter_ok b1"
    by (auto simp: lbp_RoundRobin_Choose_def intro: nth_mem)
qed

locale balancer =
  fixes bal :: "'b \<Rightarrow> peer list \<Rightarrow> (peer list \<times> 'b) option"
    and bal_invar :: "'b \<Rightarrow> bool"
  assumes bal_permutes: "bal_invar b \<Longrightarrow> ps \<noteq> [] \<Longrightarrow> length ps \<le> 2 ^ 31 \<Longrightarrow>
      \<exists>qs b1. bal b ps = Some (qs, b1) \<and> mset qs = mset ps \<and> bal_invar b1"

interpretation random_balancer: balancer "balancer_Random src" "\<lambda>_. True"
proof
  fix b and ps :: "peer list"
  have "mset (map (\<lambda>i. ps ! i) (shuffle src b (length ps))) = mset ps"
    by (rule mset_map_nth_perm [OF mset_shuffle])
  then show "\<exists>qs b1. balancer_Random src b ps = Some (qs, b1) \<and> mset qs = mset ps \<and> True"
    by (simp add: balancer_Random_def rand_Perm_def)
qed

lemma mset_rotation: "k \<le> n \<Longrightarrow> mset ([k..<n] @ [0..<k]) = mset [0..<n]"
proof -
  assume "k \<le> n"
  then have "[0..<n] = [0..<k] @ [k..<n]" using upt_add_eq_append [of 0 k "n - k"] by simp
  then show ?thesis by (simp only: mset_append add.commute)
qed

lemma balancer_RoundRobin_rotates:
  assumes "counter_ok c" and "ps \<noteq> []" and "length ps \<le> 2 ^ 31"
  obtains i c1 where "balancer_RoundRobin seed c ps =
      Some (map (\<lambda>j. ps ! j) ([i..<length ps] @ [0..<i]), c1)"
    and "i < length ps" and "int i = next_index seed (int (length ps)) (index c)" and "counter_ok c1"
proof -
  from assms(2) have "0 < int (length ps)" by simp
  moreover from assms(3) have "int (length ps) \<le> 2 ^ 31" by (rule int_length_int32)
  ultimately obtain i where n: "counter_Next seed (int (length ps)) c = Some (i, c\<lparr>index := word_of_int i\<rparr>)"
    and i: "i = next_index seed (int (length ps)) (index c)" "0 \<le> i" "i < int (length ps)"
    and ok: "counter_ok (c\<lparr>index := word_of_int i\<rparr>)"
    using assms(1) by (rule counter_Next_spec)
  from n i(2,3) have "balancer_RoundRobin seed c ps =
      Some (map (\<lambda>j. ps ! j) ([nat i..<length ps] @ [0..<nat i]), c\<lparr>index := word_of_int i\<rparr>)"
    by (simp add: balancer_RoundRobin_def)
  moreover from i(2,3) have "nat i < length ps" by linarith
  moreover from i(1,2) have "int (nat i) = next_index seed (int (length ps)) (index c)" by simp
  ultimately show ?thesis using ok by (rule that)
qed

interpretation roundrobin_balancer: balancer "balancer_RoundRobin seed" counter_ok
proof
  fix b and ps :: "peer list"
  assume "counter_ok b" and "ps \<noteq> []" and "length ps \<le> 2 ^ 31"
  then obtain i c1 where "balancer_RoundRobin seed b ps =
      Some (map (\<lambda>j. ps ! j) ([i..<length ps] @ [0..<i]), c1)" "i < length ps" "counter_ok c1"
    by (rule balancer_RoundRobin_rotates)
  then show "\<exists>qs b1. balancer_RoundRobin seed b ps = Some (qs, b1) \<and> mset qs = mset ps \<and> counter_ok b1"
    using mset_map_nth_perm [OF mset_rotation [of i "length ps"]] by auto
qed

section \<open>The block height sorter over any balancer\<close>

lemma max_height_ge: "m \<le> max_height m ps"
proof (induction ps arbitrary: m)
  case Nil
  then show ?case by simp
next
  case (Cons p ps)
  show ?case
  proof (cases "BlockHeight p")
    case None
    with Cons.IH show ?thesis by simp
  next
    case (Some h)
    show ?thesis
    proof (cases "h > m")
      case True
      from True have "m \<le> h" by simp
      also have "h \<le> max_height h ps" by (rule Cons.IH)
      finally show ?thesis using True Some by simp
    next
      case False
      with Some Cons.IH [of m] show ?thesis by simp
    qed
  qed
qed

lemma max_height_attained:
  "max_height m ps = m \<or> (\<exists>p \<in> set ps. BlockHeight p = Some (max_height m ps))"
proof (induction ps arbitrary: m)
  case Nil
  then show ?case by simp
next
  case (Cons p ps)
  show ?case
  proof (cases "BlockHeight p")
    case None
    with Cons.IH [of m] show ?thesis by simp
  next
    case (Some h)
    with Cons.IH [of m] Cons.IH [of h] show ?thesis by (cases "h > m") auto
  qed
qed

lemma max_height_upper: "p \<in> set ps \<Longrightarrow> BlockHeight p = Some h \<Longrightarrow> h \<le> max_height m ps"
proof (induction ps arbitrary: m)
  case Nil
  then show ?case by simp
next
  case (Cons q ps)
  show ?case
  proof (cases "p = q")
    case True
    show ?thesis
    proof (cases "h > m")
      case h: True
      with True Cons.prems show ?thesis using max_height_ge [of h ps] by simp
    next
      case False
      with True Cons.prems show ?thesis using max_height_ge [of m ps] by simp
    qed
  next
    case False
    with Cons.prems have "p \<in> set ps" by simp
    with Cons.IH [OF this Cons.prems(2)] show ?thesis by (simp split: option.split)
  qed
qed

lemma word_minus_le: "b < a \<Longrightarrow> a - b \<le> (a :: uint64)"
  by (simp add: word_sub_le)

lemma some_at_height:
  assumes "getMaxBlockHeight ps > t"
  shows "filter (at_height (getMaxBlockHeight ps - t)) ps \<noteq> []"
proof -
  let ?m = "getMaxBlockHeight ps"
  have "?m \<noteq> 0" using assms by auto
  then obtain p where p: "p \<in> set ps" "BlockHeight p = Some ?m"
    using max_height_attained [of 0 ps] by (auto simp: getMaxBlockHeight_def)
  with word_minus_le [OF assms] have "at_height (?m - t) p" by (simp add: at_height_def)
  with p show ?thesis by (auto simp: filter_empty_conv)
qed

context balancer
begin

lemma sorter_permutes:
  assumes "sortDesc_documented srt" and "bal_invar b" and "length ps \<le> 2 ^ 31"
  shows "\<exists>qs b1. sorter_Sort t srt bal b ps = Some (qs, b1) \<and> mset qs = mset ps \<and> bal_invar b1"
proof (cases "length ps \<le> 1 \<or> t < 0 \<or> getMaxBlockHeight ps \<le> word_of_int t")
  case True
  with bal_permutes [OF assms(2) _ assms(3)] show ?thesis
    using assms(2) by (cases "ps = []") (auto simp: sorter_Sort_def Let_def)
next
  case False
  let ?c = "getMaxBlockHeight ps - word_of_int t"
  let ?pref = "filter (at_height ?c) ps" and ?other = "filter (\<lambda>p. \<not> at_height ?c p) ps"
  from False have "?pref \<noteq> []" by (intro some_at_height) (simp add: not_le)
  moreover have "length ?pref \<le> 2 ^ 31" using assms(3) length_filter_le [of "at_height ?c" ps] by linarith
  ultimately obtain qs b1 where q: "bal b ?pref = Some (qs, b1)" "mset qs = mset ?pref" "bal_invar b1"
    using bal_permutes [OF assms(2)] by blast
  have "mset (srt ?other) = mset ?other" using assms(1) by (simp add: sortDesc_documented_def)
  with q(2) have "mset (qs @ srt ?other) = mset ps" by (simp add: mset_filter)
  with False q show ?thesis by (simp add: sorter_Sort_def Let_def)
qed

lemma sorter_prefers:
  assumes "sortDesc_documented srt" and "bal_invar b" and "length ps \<le> 2 ^ 31"
    and "1 < length ps" and "0 \<le> t" and "word_of_int t < getMaxBlockHeight ps"
  shows "\<exists>pref other b1. sorter_Sort t srt bal b ps = Some (pref @ other, b1) \<and> pref \<noteq> [] \<and>
     (\<forall>p \<in> set pref. at_height (getMaxBlockHeight ps - word_of_int t) p) \<and>
     (\<forall>p \<in> set other. \<not> at_height (getMaxBlockHeight ps - word_of_int t) p) \<and>
     sorted_wrt (\<lambda>p q. \<not> Less p q) other"
proof -
  let ?c = "getMaxBlockHeight ps - word_of_int t"
  let ?pref = "filter (at_height ?c) ps" and ?other = "filter (\<lambda>p. \<not> at_height ?c p) ps"
  from assms(6) have ne: "?pref \<noteq> []" by (rule some_at_height)
  have "length ?pref \<le> 2 ^ 31" using assms(3) length_filter_le [of "at_height ?c" ps] by linarith
  with ne obtain qs b1 where q: "bal b ?pref = Some (qs, b1)" "mset qs = mset ?pref"
    using bal_permutes [OF assms(2)] by blast
  have m: "mset (srt ?other) = mset ?other" and "sorted_wrt (\<lambda>p q. \<not> Less p q) (srt ?other)"
    using assms(1) by (auto simp: sortDesc_documented_def)
  moreover from q(2) have "set qs = set ?pref" by (rule mset_eq_setD)
  moreover from m have "set (srt ?other) = set ?other" by (rule mset_eq_setD)
  moreover from ne q(2) have "qs \<noteq> []" by auto
  moreover have "sorter_Sort t srt bal b ps = Some (qs @ srt ?other, b1)"
    using assms(4-6) q(1) by (simp add: sorter_Sort_def Let_def not_le [symmetric])
  ultimately show ?thesis by (intro exI [of _ qs] exI [of _ "srt ?other"] exI [of _ b1]) auto
qed

end

section \<open>Properties\<close>

lemma sequential_snoc:
  assumes "sequential seed c ns = Some (rs, c1)" and "counter_Next seed n c1 = Some (i, c2)"
  shows "sequential seed c (ns @ [n]) = Some (rs @ [(n, i)], c2)"
  using assms
proof (induction ns arbitrary: c rs)
  case Nil
  then show ?case by simp
next
  case (Cons m ns)
  then show ?case by (fastforce split: option.splits prod.splits)
qed

definition counter_sys_inv :: "(nat \<Rightarrow> nat) \<Rightarrow> counter_sys \<Rightarrow> bool" where
  "counter_sys_inv seed s \<longleftrightarrow>
     (\<forall>t n cur. calls s t = Loaded n cur \<longrightarrow> 0 < n) \<and>
     sequential seed counter_New (map fst (rev (returned s))) =
       Some (rev (returned s), \<lparr>index = shared s\<rparr>)"

lemma counter_step_inv: "counter_step seed s t \<Longrightarrow> counter_sys_inv seed s \<Longrightarrow> counter_sys_inv seed t"
proof (induction rule: counter_step.induct)
  case (cas_ok s t n cur i)
  then have "0 < n" and seq: "sequential seed counter_New (map fst (rev (returned s))) =
       Some (rev (returned s), \<lparr>index = cur\<rparr>)"
    by (auto simp: counter_sys_inv_def)
  then have "counter_Next seed n \<lparr>index = cur\<rparr> = Some (i, \<lparr>index = word_of_int i\<rparr>)"
    using cas_ok by (simp add: counter_Next_def Let_def)
  from sequential_snoc [OF seq this] cas_ok show ?case
    by (simp add: counter_sys_inv_def)
qed (auto simp: counter_sys_inv_def)

text \<open>
  C40. The rolling counter is linearizable. In every reachable state of any number of goroutines
  that load, compare-and-swap and retry, the values returned so far are those of the sequential
  counter called with the same limits in the order in which the swaps succeeded.
\<close>

theorem counter_linearizable:
  assumes "counter_reach seed s"
  shows "sequential seed counter_New (map fst (rev (returned s))) =
           Some (rev (returned s), \<lparr>index = shared s\<rparr>)"
proof -
  from assms have "counter_sys_inv seed s"
  proof (induction rule: counter_reach.induct)
    case start
    show ?case by (simp add: counter_sys_inv_def counter_init_def counter_New_def)
  next
    case (step s t)
    then show ?case by (blast intro: counter_step_inv)
  qed
  then show ?thesis by (simp add: counter_sys_inv_def)
qed

lemma counter_reach_example:
  "counter_reach (\<lambda>_. 1) \<lparr>shared = 1, calls = (\<lambda>_. Idle), returned = [(2, 1)]\<rparr>"
proof -
  let ?s1 = "counter_init\<lparr>calls := (calls counter_init)(0 := Loaded 2 (shared counter_init))\<rparr>"
  have "counter_step (\<lambda>_. 1) counter_init ?s1"
    by (rule counter_step.load) (simp_all add: counter_init_def)
  then have r1: "counter_reach (\<lambda>_. 1) ?s1" by (rule counter_reach.step [OF counter_reach.start])
  have "counter_step (\<lambda>_. 1) ?s1 (?s1\<lparr>shared := word_of_int 1, calls := (calls ?s1)(0 := Idle),
      returned := (2, 1) # returned ?s1\<rparr>)"
    by (rule counter_step.cas_ok [where cur = "- 1"])
      (simp_all add: counter_init_def next_index_def)
  from counter_reach.step [OF r1 this] show ?thesis
    by (simp add: counter_init_def fun_upd_triv [where f = "\<lambda>_. Idle", simplified])
qed

theorem counter_linearizable_witness:
  "sequential (\<lambda>_. 1) counter_New [2] = Some ([(2, 1)], \<lparr>index = 1\<rparr>)"
  using counter_linearizable [OF counter_reach_example] by simp

lemma sequential_rolls:
  assumes "0 < n" and "n \<le> 2 ^ 31" and "0 \<le> sint (index c)" and "sint (index c) < n"
  shows "\<exists>c1. sequential seed c (replicate k n) =
     Some (map (\<lambda>j. (n, (sint (index c) + 1 + int j) mod n)) [0..<k], c1)"
  using assms(3,4)
proof (induction k arbitrary: c)
  case 0
  then show ?case by simp
next
  case (Suc k)
  have "counter_ok c" using Suc.prems by (simp add: counter_ok_def)
  with assms(1,2) obtain i where nx: "counter_Next seed n c = Some (i, c\<lparr>index := word_of_int i\<rparr>)"
    and i: "i = next_index seed n (index c)" "0 \<le> i" "i < n" "sint (word_of_int i :: int32) = i"
    by (rule counter_Next_spec)
  have im: "i = (sint (index c) + 1) mod n"
  proof (cases "sint (index c) + 1 \<ge> n")
    case True
    with Suc.prems have "sint (index c) + 1 = n" by linarith
    with Suc.prems i(1) show ?thesis by (simp add: next_index_def Let_def)
  next
    case False
    with Suc.prems i(1) show ?thesis by (simp add: next_index_def Let_def)
  qed
  have shift: "(i + 1 + int j) mod n = (sint (index c) + 1 + int (Suc j)) mod n" for j
  proof -
    have "((sint (index c) + 1) mod n + (1 + int j)) mod n = (sint (index c) + 1 + (1 + int j)) mod n"
      by (rule mod_add_left_eq)
    then show ?thesis unfolding im by (simp add: algebra_simps)
  qed
  from Suc.IH [of "c\<lparr>index := word_of_int i\<rparr>"] i obtain c1 where
    "sequential seed (c\<lparr>index := word_of_int i\<rparr>) (replicate k n) =
      Some (map (\<lambda>j. (n, (i + 1 + int j) mod n)) [0..<k], c1)" by auto
  with nx im shift show ?case
    by (simp add: upt_conv_Cons map_Suc_upt [symmetric] del: upt_Suc)
qed

lemma residues_permute:
  assumes "0 < n"
  shows "mset (map (\<lambda>j. (a + int j) mod n) [0..<nat n]) = mset (map int [0..<nat n])"
proof -
  have inj: "inj_on (\<lambda>j. (a + int j) mod n) {0..<nat n}"
  proof (rule inj_onI)
    fix x y assume "x \<in> {0..<nat n}" "y \<in> {0..<nat n}" "(a + int x) mod n = (a + int y) mod n"
    then have "(int x - int y) mod n = 0" and "\<bar>int x - int y\<bar> < n"
      by (auto simp: mod_eq_dvd_iff)
    then show "x = y" using zdvd_imp_le [of n "\<bar>int x - int y\<bar>"] by (auto simp: mod_eq_0_iff_dvd)
  qed
  have "(\<lambda>j. (a + int j) mod n) ` {0..<nat n} \<subseteq> int ` {0..<nat n}"
  proof
    fix z assume "z \<in> (\<lambda>j. (a + int j) mod n) ` {0..<nat n}"
    with assms have "0 \<le> z" "z < n" by auto
    then show "z \<in> int ` {0..<nat n}" by (intro image_eqI [of _ _ "nat z"]) auto
  qed
  moreover have "card ((\<lambda>j. (a + int j) mod n) ` {0..<nat n}) = card (int ` {0..<nat n})"
    using card_image [OF inj] by (simp add: card_image)
  ultimately have "(\<lambda>j. (a + int j) mod n) ` {0..<nat n} = int ` {0..<nat n}"
    by (intro card_subset_eq) auto
  then show ?thesis
    by (intro iffD1 [OF set_eq_iff_mset_eq_distinct]) (auto simp: distinct_map inj)
qed

text \<open>
  Round robin is fair. Whatever the counter held before, once it has been called with limit
  \<open>n\<close> (at most \<open>2 ^ 31\<close>) the next \<open>n\<close> calls with that limit return every index below \<open>n\<close> exactly
  once.
\<close>

theorem counter_fair:
  assumes "0 < n" and "n \<le> 2 ^ 31" and "counter_ok c"
  shows "\<exists>rs c1. sequential seed c (replicate (Suc (nat n)) n) = Some (rs, c1) \<and>
     mset (map snd (tl rs)) = mset (map int [0..<nat n])"
proof -
  from assms obtain i where nx: "counter_Next seed n c = Some (i, c\<lparr>index := word_of_int i\<rparr>)"
    and i: "0 \<le> i" "i < n" "sint (word_of_int i :: int32) = i"
    by (rule counter_Next_spec)
  let ?rs = "map (\<lambda>j. (n, (i + 1 + int j) mod n)) [0..<nat n]"
  from sequential_rolls [OF assms(1,2), of "c\<lparr>index := word_of_int i\<rparr>" seed "nat n"] i
  obtain c1 where "sequential seed (c\<lparr>index := word_of_int i\<rparr>) (replicate (nat n) n) = Some (?rs, c1)"
    by auto
  with nx have "sequential seed c (replicate (Suc (nat n)) n) = Some ((n, i) # ?rs, c1)" by simp
  moreover have "map snd ?rs = map (\<lambda>j. (i + 1 + int j) mod n) [0..<nat n]" by simp
  then have "mset (map snd ?rs) = mset (map int [0..<nat n])"
    using residues_permute [OF assms(1), of "i + 1"] by (simp only:)
  ultimately show ?thesis by (intro exI [of _ "(n, i) # ?rs"] exI [of _ c1]) simp
qed

theorem counter_fair_witness:
  "\<exists>rs c1. sequential (\<lambda>_. 7) counter_New [3, 3, 3, 3] = Some (rs, c1) \<and>
     mset (map snd (tl rs)) = {# 0, 1, 2 #}"
  using counter_fair [of 3 counter_New "\<lambda>_. 7"] by (simp add: eval_nat_numeral upt_rec)

text \<open>
  Block height sorting loses no peer, panics on no list and puts the up-to-date peers first.
  With the round-robin balancer the sorter returns a permutation of its input; when there is more
  than one peer, a lag threshold and a peer above it, the result is a non-empty group of peers
  within the threshold of the greatest height (or without known height) followed by the others in
  descending order of height.
\<close>

theorem sorter_Sort_correct:
  assumes "sortDesc_documented srt" and "counter_ok c" and "length ps \<le> 2 ^ 31"
  shows "(\<exists>qs c1. sorter_Sort t srt (balancer_RoundRobin seed) c ps = Some (qs, c1) \<and>
            mset qs = mset ps) \<and>
    (1 < length ps \<longrightarrow> 0 \<le> t \<longrightarrow> word_of_int t < getMaxBlockHeight ps \<longrightarrow>
       (\<exists>pref other c1. sorter_Sort t srt (balancer_RoundRobin seed) c ps = Some (pref @ other, c1) \<and>
          pref \<noteq> [] \<and>
          (\<forall>p \<in> set pref. at_height (getMaxBlockHeight ps - word_of_int t) p) \<and>
          (\<forall>p \<in> set other. \<not> at_height (getMaxBlockHeight ps - word_of_int t) p) \<and>
          sorted_wrt (\<lambda>p q. \<not> Less p q) other))"
  using roundrobin_balancer.sorter_permutes [OF assms, of t seed]
    roundrobin_balancer.sorter_prefers [OF assms, of t seed] by blast

definition sort_by_height :: "peer list \<Rightarrow> peer list" where
  "sort_by_height ps = rev (sort_key (\<lambda>p. case BlockHeight p of None \<Rightarrow> 0 | Some h \<Rightarrow> unat h) ps)"

lemma sort_by_height_documented: "sortDesc_documented sort_by_height"
proof -
  have "sorted_wrt (\<lambda>p q. \<not> Less p q) (sort_by_height ps)" for ps
  proof -
    let ?k = "\<lambda>p. case BlockHeight p of None \<Rightarrow> 0 | Some h \<Rightarrow> unat h"
    have "sorted (map ?k (sort_key ?k ps))" by simp
    then have "sorted_wrt (\<lambda>p q. ?k p \<le> ?k q) (sort_key ?k ps)" by (simp add: sorted_wrt_map)
    then have "sorted_wrt (\<lambda>p q. ?k q \<le> ?k p) (sort_by_height ps)"
      by (simp add: sort_by_height_def sorted_wrt_rev)
    then show ?thesis
      by (rule sorted_wrt_mono_rel [rotated])
        (auto simp: Less_def word_less_nat_alt split: option.splits)
  qed
  then show ?thesis by (simp add: sortDesc_documented_def sort_by_height_def)
qed

theorem sorter_Sort_correct_witness:
  "\<exists>qs c1. sorter_Sort 5 sort_by_height (balancer_RoundRobin (\<lambda>_. 0)) counter_New
      [\<lparr>peerRef = 1, MSPID = ''Org1'', URL = ''p1'', BlockHeight = Some 3\<rparr>,
       \<lparr>peerRef = 2, MSPID = ''Org2'', URL = ''p2'', BlockHeight = Some 30\<rparr>] = Some (qs, c1) \<and>
     mset qs = mset [\<lparr>peerRef = 1, MSPID = ''Org1'', URL = ''p1'', BlockHeight = Some 3\<rparr>,
       \<lparr>peerRef = 2, MSPID = ''Org2'', URL = ''p2'', BlockHeight = Some 30\<rparr>]"
  using sorter_Sort_correct [OF sort_by_height_documented counter_ok_New,
      of "[\<lparr>peerRef = 1, MSPID = ''Org1'', URL = ''p1'', BlockHeight = Some 3\<rparr>,
       \<lparr>peerRef = 2, MSPID = ''Org2'', URL = ''p2'', BlockHeight = Some 30\<rparr>]" 5 "\<lambda>_. 0"] by simp

lemma pick_loop_eq:
  assumes "int (length result) < n"
  shows "pick_loop chPeers ix n result = result @ map (\<lambda>i. chPeers ! i) (take (nat n - length result) ix)"
  using assms
proof (induction ix arbitrary: result)
  case Nil
  then show ?case by simp
next
  case (Cons i ix)
  show ?case
  proof (cases "int (length result) + 1 = n")
    case True
    then have "nat n - length result = 1" by linarith
    with True show ?thesis by simp
  next
    case False
    with Cons.prems have lt: "int (length (result @ [chPeers ! i])) < n" by simp
    from Cons.prems have "nat n - length result = Suc (nat n - Suc (length result))" by linarith
    with False Cons.IH [OF lt] show ?thesis by simp
  qed
qed

text \<open>
  \<open>PickRandomNPeerConfigs\<close> returns \<open>n\<close> different entries of the configured peers, or all of
  them when there are fewer: no entry is taken twice.
\<close>

theorem PickRandomNPeerConfigs_correct:
  assumes "0 < n"
  shows "length (PickRandomNPeerConfigs src k chPeers n) = min (nat n) (length chPeers) \<and>
    mset (PickRandomNPeerConfigs src k chPeers n) \<subseteq># mset chPeers"
proof -
  let ?perm = "rand_Perm src k (length chPeers)"
  have eq: "PickRandomNPeerConfigs src k chPeers n = map (\<lambda>i. chPeers ! i) (take (nat n) ?perm)"
    using assms pick_loop_eq [of "[]" n chPeers ?perm] by (simp add: PickRandomNPeerConfigs_def)
  have "mset (map (\<lambda>i. chPeers ! i) ?perm) = mset chPeers"
    by (simp only: rand_Perm_def mset_map_nth_perm [OF mset_shuffle])
  moreover have "mset (map (\<lambda>i. chPeers ! i) (take (nat n) ?perm)) \<subseteq># mset (map (\<lambda>i. chPeers ! i) ?perm)"
    by (metis append_take_drop_id map_append mset_append mset_subset_eq_add_left)
  ultimately show ?thesis by (simp add: eq rand_Perm_def)
qed

theorem PickRandomNPeerConfigs_correct_witness:
  "length (PickRandomNPeerConfigs (\<lambda>k n. k + n) 0 [''a'', ''b'', ''c''] 2) = 2"
  using PickRandomNPeerConfigs_correct [of 2 "\<lambda>k n. k + n" 0 "[''a'', ''b'', ''c'']"] by simp

end
