(* ===== verification/PGResolver.thy ===== *)
theory PGResolver
  imports Status Balancing
begin

text \<open>
  Peer groups: \<^verbatim>\<open>pkg/client/common/selection/dynamicselection/pgresolver\<close>. A signature policy is
  compiled to a hierarchy of groups, the hierarchy is reduced to alternative groups of MSPs and every
  alternative is multiplied out into groups of available peers, one of which a load-balance policy
  picks. The Go interfaces \<open>Item\<close>, \<open>Group\<close>, \<open>PeerGroup\<close> and \<open>GroupOfGroups\<close> are one datatype
  with a constructor per implementing type; the interface a value satisfies is a predicate. Pointers
  that the code compares are explicit: a peer has its \<open>peerRef\<close>, a \<open>peerWrapper\<close> its \<open>wrapRef\<close>.
  The generated protobuf type \<open>SignaturePolicy\<close> is a datatype with a constructor for a nil pointer and
  one for an unset oneof; unmarshalling a principal is the parameter \<open>um\<close>.
\<close>

record peerWrapper =
  wrapRef :: nat
  target :: peer

datatype item =
    Peer peer
  | Wrapper peerWrapper
  | GroupImpl "item list"
  | GroupsImpl "item list"
  | PeerGroup "peerWrapper list"
  | MspPeerGroup string "string \<Rightarrow> peer list"

fun isGroup :: "item \<Rightarrow> bool" where
  "isGroup (Peer p) = False"
| "isGroup (Wrapper w) = False"
| "isGroup _ = True"

fun isPeerGroup :: "item \<Rightarrow> bool" where
  "isPeerGroup (PeerGroup ws) = True"
| "isPeerGroup (MspPeerGroup m r) = True"
| "isPeerGroup _ = False"

section \<open>Groups\<close>

definition NewGroupOfGroups :: "item list \<Rightarrow> item" where
  "NewGroupOfGroups groups = GroupsImpl groups"

definition NewGroup :: "item list \<Rightarrow> item" where
  "NewGroup items = GroupImpl items"

text \<open>The wrappers of a new peer group are allocated at \<open>ref\<close>, \<open>ref + 1\<close> and so on.\<close>

fun asPeerWrappers :: "nat \<Rightarrow> peer list \<Rightarrow> peerWrapper list" where
  "asPeerWrappers ref [] = []"
| "asPeerWrappers ref (p # ps) = \<lparr>wrapRef = ref, target = p\<rparr> # asPeerWrappers (Suc ref) ps"

definition NewPeerGroup :: "nat \<Rightarrow> peer list \<Rightarrow> item" where
  "NewPeerGroup ref peers = PeerGroup (asPeerWrappers ref peers)"

definition NewMSPPeerGroup :: "string \<Rightarrow> (string \<Rightarrow> peer list) \<Rightarrow> item" where
  "NewMSPPeerGroup mspID peerRetriever = MspPeerGroup mspID peerRetriever"

fun Items :: "item \<Rightarrow> item list" where
  "Items (GroupImpl itms) = itms"
| "Items (GroupsImpl itms) = itms"
| "Items (PeerGroup ws) = map Wrapper ws"
| "Items (MspPeerGroup m r) = map Peer (r m)"
| "Items _ = []"

fun Peers :: "item \<Rightarrow> peer list" where
  "Peers (PeerGroup ws) = map target ws"
| "Peers (MspPeerGroup m r) = r m"
| "Peers _ = []"

text \<open>Equality of two interface values of which one is no group.\<close>

fun same_item :: "item \<Rightarrow> item \<Rightarrow> bool" where
  "same_item (Peer p) (Peer q) = (peerRef p = peerRef q)"
| "same_item (Wrapper v) (Wrapper w) = (wrapRef v = wrapRef w)"
| "same_item _ _ = False"

fun grpEquals :: "item \<Rightarrow> item \<Rightarrow> bool" where
  "grpEquals (GroupImpl itms) other =
     (length itms = length (Items other) \<and>
      list_all (\<lambda>i1. list_ex (\<lambda>i2. if isGroup i1 then isGroup i2 \<and> grpEquals i1 i2 else same_item i2 i1)
                  (Items other)) itms)"
| "grpEquals (GroupsImpl itms) other =
     (length itms = length (Items other) \<and>
      list_all (\<lambda>i1. list_ex (\<lambda>i2. if isGroup i1 then isGroup i2 \<and> grpEquals i1 i2 else same_item i2 i1)
                  (Items other)) itms)"
| "grpEquals (PeerGroup ws) other =
     (length ws = length (Items other) \<and>
      list_all (\<lambda>w. list_ex (\<lambda>i2. same_item i2 (Wrapper w)) (Items other)) ws)"
| "grpEquals (MspPeerGroup m r) other =
     (case other of MspPeerGroup m2 r2 \<Rightarrow> m2 = m | _ \<Rightarrow> False)"
| "grpEquals _ other = False"

definition containsItem :: "item list \<Rightarrow> item \<Rightarrow> bool" where
  "containsItem items itm =
     (if isGroup itm then list_ex (\<lambda>i2. isGroup i2 \<and> grpEquals itm i2) items
      else list_ex (\<lambda>i2. same_item i2 itm) items)"

definition containsGroup :: "item list \<Rightarrow> item \<Rightarrow> bool" where
  "containsGroup groups grp = list_ex (\<lambda>g. grpEquals g grp) groups"

section \<open>The and operation\<close>

type_synonym stack = "(item \<times> nat) list"

definition stack_Push :: "stack \<Rightarrow> item \<Rightarrow> nat \<Rightarrow> stack" where
  "stack_Push s grp idx = s @ [(grp, idx)]"

fun stack_items :: "stack \<Rightarrow> item list" where
  "stack_items [] = []"
| "stack_items ((grp, idx) # s) =
     (if idx < length (Items grp) then Items grp ! idx # stack_items s else stack_items s)"

text \<open>
  \<open>andOperation.and\<close>: the first argument is \<open>grps[index:]\<close>. The stack after \<open>Pop\<close> is the one before
  \<open>Push\<close>, so it is passed down only; the result grows through all calls.
\<close>

fun and_op :: "item list \<Rightarrow> stack \<Rightarrow> item list \<Rightarrow> item list" where
  "and_op [] s result =
     (let items = stack_items s in if items \<noteq> [] then result @ [NewGroup items] else result)"
| "and_op (grp # grps) s result =
     fold (\<lambda>j res. and_op grps (stack_Push s grp j) res) [0..<length (Items grp)] result"

definition and_groups :: "item list \<Rightarrow> item list" where
  "and_groups groups = and_op groups [] []"

section \<open>Combinations\<close>

text \<open>
  \<open>getCombinations(items, length, r)\<close> with \<open>length = m + 1\<close>: \<open>Nof\<close>, its only caller, rejects a
  length below 1.
\<close>

fun getCombinations :: "item list \<Rightarrow> nat \<Rightarrow> item list" where
  "getCombinations items 0 = map (\<lambda>i. NewGroup [i]) items"
| "getCombinations items (Suc m) =
     concat (map (\<lambda>i. map (\<lambda>g. NewGroup (items ! i # Items g))
                        (getCombinations (drop (Suc i) items) m))
               [0..<length items - Suc m])"

definition Nof :: "item \<Rightarrow> int32 \<Rightarrow> item outcome" where
  "Nof g threshold =
     (if sint threshold > int (length (Items g)) then Inl (Err (ErrNew ''N is greater than length of the group''))
      else if sint threshold \<le> 0 then Inl (Err (ErrNew ''N must be greater than 0''))
      else Inr (NewGroupOfGroups (getCombinations (Items g) (nat (sint threshold) - 1))))"

section \<open>Collapse and Reduce\<close>

fun collapse_items :: "item list \<Rightarrow> item list \<Rightarrow> item list" where
  "collapse_items [] collapsable = collapsable"
| "collapse_items (ci # cs) collapsable =
     (if containsItem collapsable ci then collapse_items cs collapsable
      else collapse_items cs (collapsable @ [ci]))"

text \<open>The loop of \<open>groupImpl.Collapse\<close>; each item comes with \<open>c.Collapse().Items()\<close> when it is
  \<open>Collapsable\<close>, which every group is.\<close>

fun collapse_loop :: "(item \<times> item list option) list \<Rightarrow> item list \<Rightarrow> item list \<Rightarrow> item list \<times> item list" where
  "collapse_loop [] collapsable nonCollapsable = (collapsable, nonCollapsable)"
| "collapse_loop ((itm, Some cs) # rest) collapsable nonCollapsable =
     collapse_loop rest (collapse_items cs collapsable) nonCollapsable"
| "collapse_loop ((itm, None) # rest) collapsable nonCollapsable =
     collapse_loop rest collapsable
       (if containsItem nonCollapsable itm then nonCollapsable else nonCollapsable @ [itm])"

fun Collapse :: "item \<Rightarrow> item" where
  "Collapse (GroupImpl itms) =
     (case collapse_loop (map (\<lambda>i. (i, if isGroup i then Some (Items (Collapse i)) else None)) itms) [] [] of
        (collapsable, nonCollapsable) \<Rightarrow>
          if collapsable = [] then NewGroup nonCollapsable
          else if nonCollapsable = [] then NewGroup collapsable
          else NewGroup (nonCollapsable @ [NewGroup collapsable]))"
| "Collapse (GroupsImpl itms) = GroupsImpl itms"
| "Collapse g = NewGroup [g]"

definition asGroupsOrPanic :: "item list \<Rightarrow> item list outcome" where
  "asGroupsOrPanic items =
     (if list_all isGroup items then Inr items else Inl (Panic ''item is not a group''))"

fun prune :: "item list \<Rightarrow> item list \<Rightarrow> item list" where
  "prune [] pruned = pruned"
| "prune (g # gs) pruned = (if containsGroup pruned g then prune gs pruned else prune gs (pruned @ [g]))"

fun Reduce :: "item \<Rightarrow> item list outcome" where
  "Reduce (GroupImpl itms) =
     (case asGroupsOrPanic itms of
        Inl e \<Rightarrow> Inl e
      | Inr grps \<Rightarrow>
          (case itms of
             [g] \<Rightarrow> Reduce g
           | _ \<Rightarrow>
             (case mapE (\<lambda>g. case Reduce g of Inl e \<Rightarrow> Inl e | Inr gs \<Rightarrow> Inr (NewGroupOfGroups gs)) itms of
                Inl e \<Rightarrow> Inl e
              | Inr reduced \<Rightarrow> Inr (prune (map Collapse (and_groups reduced)) []))))"
| "Reduce (GroupsImpl itms) =
     (if \<not> list_all isGroup itms then Inl (Panic ''unexpected: item is not a Group'')
      else case mapE Reduce itms of Inl e \<Rightarrow> Inl e | Inr gss \<Rightarrow> Inr (concat gss))"
| "Reduce g = Inr [g]"

section \<open>Signature policies\<close>

datatype classification = ROLE | ORGANIZATION_UNIT | IDENTITY | OtherClassification

record MSPPrincipal =
  PrincipalClassification :: classification
  Principal :: bytes

datatype SignaturePolicy =
    NilPolicy
  | UnsetType
  | SignedBy int32
  | NOutOf int32 "SignaturePolicy list"

record SignaturePolicyEnvelope =
  Rule :: SignaturePolicy
  Identities :: "MSPPrincipal list"

text \<open>\<open>proto.Unmarshal\<close> into an \<open>MSPRole\<close> and an \<open>OrganizationUnit\<close>, down to the MSP identifier.\<close>

record unmarshal =
  unmarshalRole :: "bytes \<Rightarrow> error + string"
  unmarshalUnit :: "bytes \<Rightarrow> error + string"

type_synonym retriever = "string \<Rightarrow> peer list"

definition mspPrincipalToString :: "unmarshal \<Rightarrow> MSPPrincipal \<Rightarrow> error + string" where
  "mspPrincipalToString um princ =
     (case PrincipalClassification princ of
        ROLE \<Rightarrow> (case unmarshalRole um (Principal princ) of
                   Inl e \<Rightarrow> Inl (ErrWithMessage ''unmarshal of principal failed'' e) | Inr m \<Rightarrow> Inr m)
      | ORGANIZATION_UNIT \<Rightarrow> (case unmarshalUnit um (Principal princ) of
                   Inl e \<Rightarrow> Inl (ErrWithMessage ''unmarshal of principal failed'' e) | Inr m \<Rightarrow> Inr m)
      | IDENTITY \<Rightarrow> Inl (ErrNew ''unsupported PrincipalClassification type'')
      | OtherClassification \<Rightarrow> Inl (ErrNew ''unknown PrincipalClassification type''))"

definition signaturePolicySignedBy ::
  "unmarshal \<Rightarrow> int32 \<Rightarrow> MSPPrincipal list \<Rightarrow> retriever \<Rightarrow> item outcome" where
  "signaturePolicySignedBy um signedBy identities ret =
     (if 0 \<le> sint signedBy \<and> sint signedBy < int (length identities)
      then case mspPrincipalToString um (identities ! nat (sint signedBy)) of
             Inl e \<Rightarrow> Inl (Err (ErrWithMessage ''error getting MSP ID from MSP principal'' e))
           | Inr mspID \<Rightarrow> Inr (NewGroupOfGroups [NewMSPPeerGroup mspID ret])
      else Inl (Panic ''index out of range''))"

definition signaturePolicySignedByAny :: "retriever \<Rightarrow> item outcome" where
  "signaturePolicySignedByAny ret = Inr (NewGroupOfGroups [NewMSPPeerGroup '''' ret])"

text \<open>The retriever returned by \<open>signaturePolicyNOutOf\<close> from those of its rules.\<close>

definition nOutOfRetriever ::
  "int32 \<Rightarrow> (retriever \<Rightarrow> item outcome) list \<Rightarrow> retriever \<Rightarrow> item outcome" where
  "nOutOfRetriever n pfuncs ret =
     (case mapE (\<lambda>f. f ret) pfuncs of
        Inl e \<Rightarrow> Inl e
      | Inr groups \<Rightarrow> Nof (NewGroupOfGroups groups) n)"

fun compile :: "unmarshal \<Rightarrow> MSPPrincipal list \<Rightarrow> SignaturePolicy \<Rightarrow> (retriever \<Rightarrow> item outcome) outcome" where
  "compile um identities NilPolicy = Inl (Err (ErrNew ''nil signature policy''))"
| "compile um identities UnsetType = Inl (Err (ErrNew ''unsupported signature policy type''))"
| "compile um identities (SignedBy i) = Inr (signaturePolicySignedBy um i identities)"
| "compile um identities (NOutOf n rules) =
     (if n = 0 then Inr signaturePolicySignedByAny
      else case mapE (compile um identities) rules of
             Inl e \<Rightarrow> Inl e
           | Inr pfuncs \<Rightarrow> Inr (nOutOfRetriever n pfuncs))"

definition CompileSignaturePolicy ::
  "unmarshal \<Rightarrow> SignaturePolicyEnvelope \<Rightarrow> (retriever \<Rightarrow> item outcome) outcome" where
  "CompileSignaturePolicy um env =
     (case compile um (Identities env) (Rule env) of
        Inl (Err e) \<Rightarrow> Inl (Err (ErrWithMessage ''error compiling chaincode signature policy'' e))
      | Inl (Panic s) \<Rightarrow> Inl (Panic s)
      | Inr f \<Rightarrow> Inr f)"

section \<open>Resolving peer groups\<close>

fun peersOfItems :: "item list \<Rightarrow> peer list outcome" where
  "peersOfItems [] = Inr []"
| "peersOfItems (Peer p # rest) =
     (case peersOfItems rest of Inl e \<Rightarrow> Inl e | Inr ps \<Rightarrow> Inr (p # ps))"
| "peersOfItems (_ # rest) = Inl (Panic ''expecting item to be a Peer'')"

definition mustGetPeerGroup :: "nat \<Rightarrow> item \<Rightarrow> item outcome" where
  "mustGetPeerGroup ref g =
     (if isPeerGroup g then Inr g
      else case peersOfItems (Items g) of Inl e \<Rightarrow> Inl e | Inr ps \<Rightarrow> Inr (NewPeerGroup ref ps))"

fun mustGetPeerGroup_all :: "nat \<Rightarrow> item list \<Rightarrow> item list outcome" where
  "mustGetPeerGroup_all ref [] = Inr []"
| "mustGetPeerGroup_all ref (g # gs) =
     (case mustGetPeerGroup ref g of
        Inl e \<Rightarrow> Inl e
      | Inr pg \<Rightarrow> (case mustGetPeerGroup_all (ref + length (Peers pg)) gs of
                    Inl e \<Rightarrow> Inl e | Inr pgs \<Rightarrow> Inr (pg # pgs)))"

definition mustGetPeerGroups :: "nat \<Rightarrow> item \<Rightarrow> item list outcome" where
  "mustGetPeerGroups ref g =
     (if Items g = [] then Inr []
      else let grp = (if isGroup (hd (Items g)) then g else NewGroup [g]) in
        if list_all isPeerGroup (Items grp)
        then mustGetPeerGroup_all ref (and_groups (Items grp))
        else Inl (Panic ''unexpected: expecting item to be a PeerGroup''))"

fun allPeerGroups :: "nat \<Rightarrow> item list \<Rightarrow> item list outcome" where
  "allPeerGroups ref [] = Inr []"
| "allPeerGroups ref (g # gs) =
     (case mustGetPeerGroups ref g of
        Inl e \<Rightarrow> Inl e
      | Inr pgs \<Rightarrow> (case allPeerGroups (ref + sum_list (map (\<lambda>pg. length (Peers pg)) pgs)) gs of
                     Inl e \<Rightarrow> Inl e | Inr rest \<Rightarrow> Inr (pgs @ rest)))"

definition getPeerGroups :: "nat \<Rightarrow> (retriever \<Rightarrow> item outcome) \<Rightarrow> retriever \<Rightarrow> item list outcome" where
  "getPeerGroups ref groupRetriever peerRetriever =
     (case groupRetriever peerRetriever of
        Inl e \<Rightarrow> Inl e
      | Inr hierarchy \<Rightarrow>
          (case Reduce hierarchy of
             Inl e \<Rightarrow> Inl e
           | Inr mspGroups \<Rightarrow> allPeerGroups ref mspGroups))"

text \<open>The retriever that \<open>Resolve\<close> closes over the available peers.\<close>

definition peerRetrieverOf :: "peer list \<Rightarrow> retriever" where
  "peerRetrieverOf peers mspID = filter (\<lambda>p. mspID = '''' \<or> MSPID p = mspID) peers"

definition Resolve ::
  "nat \<Rightarrow> (retriever \<Rightarrow> item outcome) \<Rightarrow> ('b \<Rightarrow> item list \<Rightarrow> item \<times> 'b) \<Rightarrow> 'b \<Rightarrow> peer list \<Rightarrow> (item \<times> 'b) outcome" where
  "Resolve ref groupRetriever chooser lbp peers =
     (case getPeerGroups ref groupRetriever (peerRetrieverOf peers) of
        Inl e \<Rightarrow> Inl e
      | Inr peerGroups \<Rightarrow> Inr (chooser lbp peerGroups))"

section \<open>Load-balance policies over peer groups\<close>

definition pg_Random_Choose :: "rand_src \<Rightarrow> nat \<Rightarrow> item list \<Rightarrow> item \<times> nat" where
  "pg_Random_Choose src k peerGroups =
     (if peerGroups = [] then (NewPeerGroup 0 [], k)
      else (peerGroups ! rand_Intn src k (length peerGroups), Suc k))"

definition pg_RoundRobin_New :: int where
  "pg_RoundRobin_New = - 1"

definition pg_RoundRobin_Choose :: "(nat \<Rightarrow> nat) \<Rightarrow> int \<Rightarrow> item list \<Rightarrow> item \<times> int" where
  "pg_RoundRobin_Choose seed idx peerGroups =
     (if peerGroups = [] then (NewPeerGroup 0 [], idx)
      else let n = length peerGroups;
               idx1 = (if idx = - 1 then int (seed n mod n) else idx + 1);
               idx2 = (if idx1 \<ge> int n then 0 else idx1)
           in (peerGroups ! nat idx2, idx2))"

section \<open>The promise: satisfying a signature policy\<close>

text \<open>
  \<open>satisfies\<close> is the meaning of a policy for a set of peers that sign: \<open>SignedBy\<close> needs a peer of the
  MSP of the principal (any peer for the empty MSP identifier), \<open>NOutOf\<close> needs \<open>n\<close> of its rules, and
  \<open>NOutOf 0\<close> is read by the SDK as one signature of any peer.
\<close>

definition signs :: "peer set \<Rightarrow> string \<Rightarrow> bool" where
  "signs S m \<longleftrightarrow> (\<exists>p \<in> S. m = '''' \<or> MSPID p = m)"

fun mspOf :: "unmarshal \<Rightarrow> MSPPrincipal list \<Rightarrow> int32 \<Rightarrow> string option" where
  "mspOf um ids i =
     (if 0 \<le> sint i \<and> sint i < int (length ids)
      then (case mspPrincipalToString um (ids ! nat (sint i)) of Inr m \<Rightarrow> Some m | Inl _ \<Rightarrow> None)
      else None)"

fun satisfies :: "unmarshal \<Rightarrow> MSPPrincipal list \<Rightarrow> SignaturePolicy \<Rightarrow> peer set \<Rightarrow> bool" where
  "satisfies um ids (SignedBy i) S = (case mspOf um ids i of Some m \<Rightarrow> signs S m | None \<Rightarrow> False)"
| "satisfies um ids (NOutOf n rules) S =
     (if n = 0 then signs S ''''
      else sint n \<le> int (length (filter (\<lambda>b. b) (map (\<lambda>r. satisfies um ids r S) rules))))"
| "satisfies um ids _ S = False"

text \<open>A policy the resolver accepts: thresholds within their rules and resolvable principals.\<close>

fun wf_policy :: "unmarshal \<Rightarrow> MSPPrincipal list \<Rightarrow> SignaturePolicy \<Rightarrow> bool" where
  "wf_policy um ids (SignedBy i) = (mspOf um ids i \<noteq> None)"
| "wf_policy um ids (NOutOf n rules) =
     (n = 0 \<or> 0 < sint n \<and> sint n \<le> int (length rules) \<and> list_all (wf_policy um ids) rules)"
| "wf_policy um ids _ = False"

section \<open>The and operation multiplies out\<close>

lemma stack_items_append [simp]: "stack_items (s @ t) = stack_items s @ stack_items t"
  by (induction s rule: stack_items.induct) auto

lemma fold_append: "fold (\<lambda>j r. r @ F j) js res = res @ concat (map F js)"
  by (induction js arbitrary: res) auto

lemma concat_map_nth: "concat (map (\<lambda>j. F (xs ! j)) [0..<length xs]) = concat (map F xs)"
proof -
  have "map (\<lambda>j. F (xs ! j)) [0..<length xs] = map F (map (\<lambda>j. xs ! j) [0..<length xs])" by simp
  then show ?thesis by (simp only: map_nth)
qed

lemma fold_cong_nth:
  assumes "\<And>j r. j < n \<Longrightarrow> f j r = g j r"
  shows "fold f [0..<n] r = fold g [0..<n] r"
  by (rule fold_cong) (auto simp: assms fun_eq_iff)

lemma and_op_eq:
  "and_op grps s res =
     res @ map NewGroup (filter (\<lambda>l. l \<noteq> []) (map (\<lambda>l. stack_items s @ l) (product_lists (map Items grps))))"
proof (induction grps arbitrary: s res)
  case Nil
  then show ?case by (simp add: Let_def)
next
  case (Cons g grps)
  let ?F = "\<lambda>x. map NewGroup (filter (\<lambda>l. l \<noteq> [])
      (map (\<lambda>l. (stack_items s @ [x]) @ l) (product_lists (map Items grps))))"
  have "and_op (g # grps) s res = fold (\<lambda>j r. r @ ?F (Items g ! j)) [0..<length (Items g)] res"
    unfolding and_op.simps by (rule fold_cong_nth) (simp add: Cons.IH stack_Push_def)
  also have "\<dots> = res @ concat (map ?F (Items g))"
    unfolding fold_append concat_map_nth [of ?F "Items g"] ..
  also have "\<dots> = res @ map NewGroup (filter (\<lambda>l. l \<noteq> [])
      (map (\<lambda>l. stack_items s @ l) (product_lists (map Items (g # grps)))))"
    by (simp add: map_concat filter_concat comp_def)
  finally show ?case .
qed

lemma product_lists_nonempty: "xss \<noteq> [] \<Longrightarrow> ys \<in> set (product_lists xss) \<Longrightarrow> ys \<noteq> []"
  by (cases xss) auto

lemma and_groups_eq:
  assumes "grps \<noteq> []"
  shows "and_groups grps = map NewGroup (product_lists (map Items grps))"
proof -
  have "filter (\<lambda>l. l \<noteq> []) (product_lists (map Items grps)) = product_lists (map Items grps)"
    using product_lists_nonempty [of "map Items grps"] assms by (auto intro: filter_True)
  then show ?thesis by (simp add: and_groups_def and_op_eq)
qed

lemma product_lists_map: "product_lists (map (map f) xss) = map (map f) (product_lists xss)"
  by (induction xss) (simp_all add: map_concat comp_def)

section \<open>Combinations are the subsequences\<close>

lemma subseq_split:
  "subseq (x # ys) items \<longleftrightarrow> (\<exists>i < length items. items ! i = x \<and> subseq ys (drop (Suc i) items))"
proof
  assume "subseq (x # ys) items"
  then obtain us vs where "items = us @ x # vs" "subseq ys vs" by (auto dest: list_emb_ConsD)
  then show "\<exists>i < length items. items ! i = x \<and> subseq ys (drop (Suc i) items)"
    by (intro exI [of _ "length us"]) simp
next
  assume "\<exists>i < length items. items ! i = x \<and> subseq ys (drop (Suc i) items)"
  then obtain i where i: "i < length items" "items ! i = x" "subseq ys (drop (Suc i) items)" by blast
  then have "subseq (x # ys) (drop i items)" by (simp add: Cons_nth_drop_Suc [symmetric])
  then have "subseq (x # ys) (take i items @ drop i items)" by (rule list_emb_append2)
  then show "subseq (x # ys) items" by simp
qed

lemma set_getCombinations:
  "set (getCombinations items m) = GroupImpl ` {xs. subseq xs items \<and> length xs = Suc m}"
proof (induction m arbitrary: items)
  case 0
  have "{xs. subseq xs items \<and> length xs = Suc 0} = (\<lambda>x. [x]) ` set items"
    by (auto simp: length_Suc_conv subseq_singleton_left)
  then show ?case by (auto simp: NewGroup_def)
next
  case (Suc m)
  have short: "subseq ys (drop (Suc i) items) \<Longrightarrow> length ys = Suc m \<Longrightarrow> i < length items - Suc m" for i ys
    by (drule list_emb_length) auto
  have inside: "i < length items - Suc m \<Longrightarrow> i < length items" for i by simp
  have "set (getCombinations items (Suc m)) =
     GroupImpl ` {items ! i # ys | i ys. i < length items - Suc m \<and> subseq ys (drop (Suc i) items) \<and> length ys = Suc m}"
    by (auto simp: Suc.IH NewGroup_def image_iff)
  also have "{items ! i # ys | i ys. i < length items - Suc m \<and> subseq ys (drop (Suc i) items) \<and> length ys = Suc m} =
     {x # ys | x ys. subseq (x # ys) items \<and> length ys = Suc m}"
    unfolding subseq_split using short inside by (intro set_eqI iffI) blast+
  also have "{x # ys | x ys. subseq (x # ys) items \<and> length ys = Suc m} =
     {xs. subseq xs items \<and> length xs = Suc (Suc m)}"
    by (auto simp: length_Suc_conv)
  finally show ?case .
qed

lemma ex_subseq_all_iff:
  "(\<exists>xs. subseq xs items \<and> length xs = n \<and> (\<forall>x \<in> set xs. P x)) \<longleftrightarrow> n \<le> length (filter P items)"
proof
  assume "\<exists>xs. subseq xs items \<and> length xs = n \<and> (\<forall>x \<in> set xs. P x)"
  then obtain xs where xs: "subseq xs items" "length xs = n" "\<forall>x \<in> set xs. P x" by blast
  from xs(1) have "subseq (filter P xs) (filter P items)" by (rule subseq_filter)
  with xs(2,3) show "n \<le> length (filter P items)" by (auto dest: list_emb_length simp: filter_id_conv)
next
  assume n: "n \<le> length (filter P items)"
  have "subseq (take n (filter P items)) (filter P items)"
    by (metis append_take_drop_id list_emb_append2 prefix_imp_subseq take_is_prefix)
  then have "subseq (take n (filter P items)) items"
    using subseq_filter_left subseq_order.order_trans by blast
  with n show "\<exists>xs. subseq xs items \<and> length xs = n \<and> (\<forall>x \<in> set xs. P x)"
    by (intro exI [of _ "take n (filter P items)"]) (auto dest: in_set_takeD)
qed

section \<open>Collapse and prune keep the alternatives\<close>

abbreviation mspGroups :: "retriever \<Rightarrow> string list \<Rightarrow> item list" where
  "mspGroups r ms \<equiv> map (\<lambda>m. MspPeerGroup m r) ms"

text \<open>The groups that \<open>Reduce\<close> yields for a compiled policy: an MSP, or a group of MSPs.\<close>

definition flat :: "retriever \<Rightarrow> item \<Rightarrow> bool" where
  "flat r g \<longleftrightarrow> (\<exists>m. g = MspPeerGroup m r) \<or> (\<exists>ms. ms \<noteq> [] \<and> g = GroupImpl (mspGroups r ms))"

fun msps :: "item \<Rightarrow> string list" where
  "msps (MspPeerGroup m r) = [m]"
| "msps (GroupImpl itms) = concat (map msps itms)"
| "msps _ = []"

lemma msps_mspGroups [simp]: "concat (map msps (mspGroups r ms)) = ms"
  by (induction ms) auto

lemma flat_isGroup: "flat r g \<Longrightarrow> isGroup g"
  by (auto simp: flat_def)

lemma containsItem_msp [simp]:
  "containsItem (mspGroups r ms) (MspPeerGroup m r) \<longleftrightarrow> m \<in> set ms"
  by (auto simp: containsItem_def list_ex_iff)

lemma collapse_items_msp:
  "\<exists>ms'. collapse_items (mspGroups r ms) (mspGroups r acc) = mspGroups r ms' \<and> set ms' = set acc \<union> set ms"
proof (induction ms arbitrary: acc)
  case (Cons m ms)
  show ?case
  proof (cases "m \<in> set acc")
    case True
    then show ?thesis using Cons.IH [of acc] by auto
  next
    case False
    then show ?thesis using Cons.IH [of "acc @ [m]"] by auto
  qed
qed auto

lemma collapse_loop_msp:
  assumes "\<forall>e \<in> set es. \<exists>ms. snd e = Some (mspGroups r ms) \<and> set ms = M (fst e)"
  shows "\<exists>ms'. collapse_loop es (mspGroups r acc) [] = (mspGroups r ms', []) \<and>
                set ms' = set acc \<union> (\<Union>e \<in> set es. M (fst e))"
  using assms
proof (induction es arbitrary: acc)
  case (Cons e es)
  obtain ms where ms: "snd e = Some (mspGroups r ms)" "set ms = M (fst e)" using Cons.prems by auto
  obtain i o' where e: "e = (i, o')" by (cases e)
  obtain ms1 where ms1: "collapse_items (mspGroups r ms) (mspGroups r acc) = mspGroups r ms1"
    "set ms1 = set acc \<union> set ms" using collapse_items_msp by blast
  have "\<forall>e \<in> set es. \<exists>ms. snd e = Some (mspGroups r ms) \<and> set ms = M (fst e)" using Cons.prems by simp
  from Cons.IH [OF this, of ms1] obtain ms2 where "collapse_loop es (mspGroups r ms1) [] = (mspGroups r ms2, [])"
    "set ms2 = set ms1 \<union> (\<Union>e \<in> set es. M (fst e))" by blast
  then show ?case using ms ms1 by (intro exI [of _ ms2]) (auto simp: e)
qed auto

lemma Collapse_items:
  assumes "\<forall>x \<in> set xs. isGroup x \<and> (\<exists>ms. Items (Collapse x) = mspGroups r ms \<and> set ms = set (msps x))"
  shows "\<exists>ms. Collapse (GroupImpl xs) = GroupImpl (mspGroups r ms) \<and> set ms = set (msps (GroupImpl xs))"
proof -
  let ?es = "map (\<lambda>i. (i, if isGroup i then Some (Items (Collapse i)) else None)) xs"
  have "\<forall>e \<in> set ?es. \<exists>ms. snd e = Some (mspGroups r ms) \<and> set ms = set (msps (fst e))"
    using assms by auto
  from collapse_loop_msp [OF this, of "[]"]
  obtain ms where "collapse_loop ?es [] [] = (mspGroups r ms, [])" "set ms = (\<Union>x \<in> set xs. set (msps x))"
    by (auto simp del: map_map)
  then show ?thesis by (intro exI [of _ ms]) (auto simp: NewGroup_def)
qed

lemma Collapse_flat:
  assumes "flat r g"
  shows "\<exists>ms. Items (Collapse g) = mspGroups r ms \<and> set ms = set (msps g)"
proof -
  consider m where "g = MspPeerGroup m r" | ms where "g = GroupImpl (mspGroups r ms)"
    using assms by (auto simp: flat_def)
  then show ?thesis
  proof cases
    case 1
    then show ?thesis by (intro exI [of _ "[m]" for m]) (auto simp: NewGroup_def)
  next
    case (2 ms)
    have "\<forall>x \<in> set (mspGroups r ms). isGroup x \<and>
        (\<exists>ms. Items (Collapse x) = mspGroups r ms \<and> set ms = set (msps x))"
      by (auto simp: NewGroup_def intro: exI [of _ "[m]" for m])
    from Collapse_items [OF this] show ?thesis unfolding 2 by auto
  qed
qed

lemma Collapse_flats:
  assumes "\<forall>x \<in> set xs. flat r x" "xs \<noteq> []"
  shows "\<exists>ms. ms \<noteq> [] \<and> Collapse (GroupImpl xs) = GroupImpl (mspGroups r ms) \<and> set ms = (\<Union>x \<in> set xs. set (msps x))"
proof -
  obtain ms where ms: "Collapse (GroupImpl xs) = GroupImpl (mspGroups r ms)" "set ms = set (msps (GroupImpl xs))"
    using Collapse_items [of xs r] assms(1) Collapse_flat flat_isGroup by blast
  moreover have "msps (hd xs) \<noteq> []" using assms by (auto simp: flat_def dest!: hd_in_set)
  with ms assms(2) have "ms \<noteq> []" using hd_in_set [OF assms(2)] by auto
  ultimately show ?thesis by auto
qed

lemma grpEquals_msps:
  assumes "flat r g" "flat r h" "grpEquals g h"
  shows "set (msps g) \<subseteq> set (msps h)"
  using assms by (auto simp: flat_def list_all_iff list_ex_iff split: item.splits)

lemma prune_flat:
  assumes "\<forall>g \<in> set gs. flat r g" "\<forall>g \<in> set acc. flat r g"
  shows "set (prune gs acc) \<subseteq> set gs \<union> set acc \<and>
         (\<forall>g \<in> set gs \<union> set acc. \<exists>h \<in> set (prune gs acc). set (msps h) \<subseteq> set (msps g))"
  using assms
proof (induction gs arbitrary: acc)
  case (Cons g gs)
  show ?case
  proof (cases "containsGroup acc g")
    case True
    then obtain h where h: "h \<in> set acc" "grpEquals h g" by (auto simp: containsGroup_def list_ex_iff)
    then have sub: "set (msps h) \<subseteq> set (msps g)" using grpEquals_msps Cons.prems by auto
    have IH: "set (prune gs acc) \<subseteq> set gs \<union> set acc"
      "\<forall>g \<in> set gs \<union> set acc. \<exists>h \<in> set (prune gs acc). set (msps h) \<subseteq> set (msps g)"
      using Cons.IH [of acc] Cons.prems by auto
    from IH(2) h(1) obtain k where "k \<in> set (prune gs acc)" "set (msps k) \<subseteq> set (msps h)" by blast
    then have "\<exists>k \<in> set (prune gs acc). set (msps k) \<subseteq> set (msps g)" using sub by blast
    with IH True show ?thesis by auto
  next
    case False
    then show ?thesis using Cons.IH [of "acc @ [g]"] Cons.prems by auto
  qed
qed auto

section \<open>Reduce computes the alternatives of a hierarchy\<close>

definition alternative :: "item list \<Rightarrow> peer set \<Rightarrow> bool" where
  "alternative gs S \<longleftrightarrow> (\<exists>g \<in> set gs. \<forall>m \<in> set (msps g). signs S m)"

definition reducible :: "retriever \<Rightarrow> item \<Rightarrow> bool" where
  "reducible r x \<longleftrightarrow> isGroup x \<and> (\<exists>gs. Reduce x = Inr gs \<and> (\<forall>g \<in> set gs. flat r g))"

definition approves :: "item \<Rightarrow> peer set \<Rightarrow> bool" where
  "approves x S \<longleftrightarrow> (\<exists>gs. Reduce x = Inr gs \<and> alternative gs S)"

definition reduction :: "item \<Rightarrow> item list" where
  "reduction x = (case Reduce x of Inr gs \<Rightarrow> gs | Inl _ \<Rightarrow> [])"

lemma reducible_isGroup: "reducible r x \<Longrightarrow> isGroup x"
  by (simp add: reducible_def)

lemma reducible_Reduce: "reducible r x \<Longrightarrow> Reduce x = Inr (reduction x)"
  by (auto simp: reducible_def reduction_def)

lemma reducible_flat: "reducible r x \<Longrightarrow> g \<in> set (reduction x) \<Longrightarrow> flat r g"
  using reducible_Reduce [of r x] by (force simp: reducible_def)

lemma reducible_approves: "reducible r x \<Longrightarrow> approves x S \<longleftrightarrow> alternative (reduction x) S"
  by (auto simp: reducible_def reduction_def approves_def)

lemma reducible_groups:
  assumes "\<forall>x \<in> set xs. reducible r x"
  shows "reducible r (GroupsImpl xs)" "approves (GroupsImpl xs) S \<longleftrightarrow> (\<exists>x \<in> set xs. approves x S)"
proof -
  have grp: "list_all isGroup xs" using assms by (auto simp: list_all_iff reducible_def)
  have "mapE Reduce xs = Inr (map reduction xs)"
    using assms by (intro mapE_map) (auto simp: reducible_Reduce)
  then have red: "Reduce (GroupsImpl xs) = Inr (concat (map reduction xs))" using grp by simp
  have fl: "\<forall>g \<in> set (concat (map reduction xs)). flat r g"
    using assms reducible_flat by auto
  then show "reducible r (GroupsImpl xs)" using red by (simp add: reducible_def del: Reduce.simps)
  have "approves (GroupsImpl xs) S \<longleftrightarrow> (\<exists>x \<in> set xs. alternative (reduction x) S)"
    using red by (auto simp: approves_def alternative_def simp del: Reduce.simps)
  then show "approves (GroupsImpl xs) S \<longleftrightarrow> (\<exists>x \<in> set xs. approves x S)"
    using assms reducible_approves by blast
qed

lemma product_lists_elem:
  "ys \<in> set (product_lists xss) \<Longrightarrow> y \<in> set ys \<Longrightarrow> \<exists>xs \<in> set xss. y \<in> set xs"
  by (induction xss arbitrary: ys) (auto, blast)

lemma ex_product_alternative:
  "(\<exists>ys \<in> set (product_lists (map reduction xs)). \<forall>y \<in> set ys. \<forall>m \<in> set (msps y). signs S m) \<longleftrightarrow>
   (\<forall>x \<in> set xs. alternative (reduction x) S)"
proof (induction xs)
  case (Cons x xs)
  have "(\<exists>ys \<in> set (product_lists (map reduction (x # xs))). \<forall>y \<in> set ys. \<forall>m \<in> set (msps y). signs S m) \<longleftrightarrow>
    alternative (reduction x) S \<and>
    (\<exists>ys \<in> set (product_lists (map reduction xs)). \<forall>y \<in> set ys. \<forall>m \<in> set (msps y). signs S m)"
    by (auto simp: alternative_def)
  then show ?case using Cons.IH by simp
qed simp

lemma reducible_group:
  assumes "\<forall>x \<in> set xs. reducible r x" "xs \<noteq> []"
  shows "reducible r (GroupImpl xs)" "approves (GroupImpl xs) S \<longleftrightarrow> (\<forall>x \<in> set xs. approves x S)"
proof -
  let ?as = "map (\<lambda>ys. Collapse (GroupImpl ys)) (product_lists (map reduction xs))"
  have grp: "list_all isGroup xs" using assms by (auto simp: list_all_iff reducible_def)
  have sx: "(\<forall>x \<in> set xs. approves x S) \<longleftrightarrow> (\<forall>x \<in> set xs. alternative (reduction x) S)"
    using assms reducible_approves by blast
  have "reducible r (GroupImpl xs) \<and> (approves (GroupImpl xs) S \<longleftrightarrow> (\<forall>x \<in> set xs. approves x S))"
  proof (cases "\<exists>x. xs = [x]")
    case True
    then obtain x where x: "xs = [x]" ..
    have "Reduce (GroupImpl xs) = Reduce x" using grp by (simp add: x asGroupsOrPanic_def)
    then show ?thesis using assms x by (simp add: reducible_def approves_def del: Reduce.simps)
  next
    case False
    have "mapE (\<lambda>g. case Reduce g of Inl e \<Rightarrow> Inl e | Inr gs \<Rightarrow> Inr (NewGroupOfGroups gs)) xs =
        Inr (map (\<lambda>x. NewGroupOfGroups (reduction x)) xs)"
      using assms by (intro mapE_map) (auto simp: reducible_Reduce)
    then have red: "Reduce (GroupImpl xs) = Inr (prune ?as [])"
      using grp False assms(2) by (auto simp: asGroupsOrPanic_def and_groups_eq NewGroupOfGroups_def
        NewGroup_def comp_def split: list.split)
    have ys: "\<forall>y \<in> set ys. flat r y" "ys \<noteq> []" if "ys \<in> set (product_lists (map reduction xs))" for ys
      using that assms reducible_flat product_lists_nonempty [of "map reduction xs" ys]
      by (auto dest!: product_lists_elem) blast
    have fl: "flat r (Collapse (GroupImpl ys)) \<and> set (msps (Collapse (GroupImpl ys))) = (\<Union>y \<in> set ys. set (msps y))"
      if "ys \<in> set (product_lists (map reduction xs))" for ys
      using Collapse_flats [OF ys [OF that]] by (auto simp: flat_def simp del: Collapse.simps)
    have pr: "set (prune ?as []) \<subseteq> set ?as"
      "\<forall>g \<in> set ?as. \<exists>h \<in> set (prune ?as []). set (msps h) \<subseteq> set (msps g)"
      using prune_flat [of ?as r "[]"] fl by (simp_all del: Collapse.simps)
    have "alternative (prune ?as []) S \<longleftrightarrow> alternative ?as S"
      unfolding alternative_def using pr by (meson subset_iff)
    also have "\<dots> \<longleftrightarrow>
       (\<exists>ys \<in> set (product_lists (map reduction xs)). \<forall>y \<in> set ys. \<forall>m \<in> set (msps y). signs S m)"
      unfolding alternative_def using fl by (auto simp del: Collapse.simps)
    finally have "approves (GroupImpl xs) S \<longleftrightarrow> (\<forall>x \<in> set xs. approves x S)"
      unfolding sx ex_product_alternative [symmetric] by (simp add: approves_def red del: Reduce.simps)
    moreover have "reducible r (GroupImpl xs)"
      using red pr(1) fl by (auto simp: reducible_def simp del: Reduce.simps Collapse.simps)
    ultimately show ?thesis by blast
  qed
  then show "reducible r (GroupImpl xs)" "approves (GroupImpl xs) S \<longleftrightarrow> (\<forall>x \<in> set xs. approves x S)"
    by auto
qed

lemma reducible_Nof:
  assumes "\<forall>x \<in> set xs. reducible r x" "0 < sint n" "sint n \<le> int (length xs)"
  shows "\<exists>h. Nof (GroupsImpl xs) n = Inr h \<and> reducible r h \<and>
    (\<forall>S. approves h S \<longleftrightarrow> sint n \<le> int (length (filter (\<lambda>x. approves x S) xs)))"
proof -
  define k where "k = nat (sint n)"
  let ?cs = "getCombinations xs (k - 1)"
  have k: "Suc (k - 1) = k" "sint n = int k" using assms(2) by (simp_all add: k_def)
  have cs: "set ?cs = GroupImpl ` {ys. subseq ys xs \<and> length ys = k}"
    using set_getCombinations [of xs "k - 1"] by (simp only: k(1))
  have mem: "reducible r (GroupImpl ys) \<and> (approves (GroupImpl ys) S \<longleftrightarrow> (\<forall>y \<in> set ys. approves y S))"
    if "subseq ys xs" "length ys = k" for ys S
  proof -
    have "set ys \<subseteq> set xs" using that(1) by (auto dest: list_emb_set)
    then have "\<forall>y \<in> set ys. reducible r y" "ys \<noteq> []" using assms(1) that(2) k(1) by auto
    then show ?thesis using reducible_group by blast
  qed
  then have red: "\<forall>c \<in> set ?cs. reducible r c" unfolding cs by blast
  have "Nof (GroupsImpl xs) n = Inr (GroupsImpl ?cs)"
    using assms(2,3) by (simp add: Nof_def NewGroupOfGroups_def k_def)
  moreover have "approves (GroupsImpl ?cs) S \<longleftrightarrow> sint n \<le> int (length (filter (\<lambda>x. approves x S) xs))" for S
  proof -
    have "approves (GroupsImpl ?cs) S \<longleftrightarrow> (\<exists>ys. subseq ys xs \<and> length ys = k \<and> (\<forall>y \<in> set ys. approves y S))"
      unfolding reducible_groups(2) [OF red] cs using mem by auto
    then show ?thesis by (simp add: ex_subseq_all_iff k(2))
  qed
  ultimately show ?thesis using reducible_groups(1) [OF red] by blast
qed

lemma reducible_msp:
  "reducible r (GroupsImpl [MspPeerGroup m r])" "approves (GroupsImpl [MspPeerGroup m r]) S \<longleftrightarrow> signs S m"
  by (auto simp: reducible_def approves_def alternative_def flat_def)

lemma compile_sound:
  assumes "wf_policy um ids pol"
  shows "\<exists>f. compile um ids pol = Inr f \<and>
    (\<forall>r. \<exists>h. f r = Inr h \<and> reducible r h \<and> (\<forall>S. approves h S \<longleftrightarrow> satisfies um ids pol S))"
  using assms
proof (induction pol)
  case (SignedBy i)
  then show ?case
    by (auto simp: signaturePolicySignedBy_def NewMSPPeerGroup_def NewGroupOfGroups_def reducible_msp
        split: if_splits sum.splits)
next
  case (NOutOf n rules)
  show ?case
  proof (cases "n = 0")
    case True
    then show ?thesis
      by (simp add: signaturePolicySignedByAny_def NewMSPPeerGroup_def NewGroupOfGroups_def reducible_msp)
  next
    case False
    with NOutOf.prems have n: "0 < sint n" "sint n \<le> int (length rules)" "\<forall>q \<in> set rules. wf_policy um ids q"
      by (auto simp: list_all_iff)
    let ?P = "\<lambda>q f. compile um ids q = Inr f \<and>
      (\<forall>r. \<exists>h. f r = Inr h \<and> reducible r h \<and> (\<forall>S. approves h S \<longleftrightarrow> satisfies um ids q S))"
    have "\<forall>q \<in> set rules. \<exists>f. ?P q f" using NOutOf.IH n(3) by blast
    then obtain F where F: "\<forall>q \<in> set rules. ?P q (F q)" using bchoice [of "set rules" ?P] by blast
    then have comp: "mapE (compile um ids) rules = Inr (map F rules)" by (intro mapE_map) blast
    have "\<exists>h. nOutOfRetriever n (map F rules) r = Inr h \<and> reducible r h \<and>
        (\<forall>S. approves h S \<longleftrightarrow> satisfies um ids (NOutOf n rules) S)" for r
    proof -
      let ?Q = "\<lambda>q h. F q r = Inr h \<and> reducible r h \<and> (\<forall>S. approves h S \<longleftrightarrow> satisfies um ids q S)"
      have "\<forall>q \<in> set rules. \<exists>h. ?Q q h" using F by blast
      then obtain H where H: "\<forall>q \<in> set rules. ?Q q (H q)" using bchoice [of "set rules" ?Q] by blast
      have "mapE (\<lambda>f. f r) (map F rules) = Inr (map H rules)"
        using H mapE_map [of rules "\<lambda>q. F q r" H] by (simp add: mapE_map_map)
      moreover obtain h where h: "Nof (GroupsImpl (map H rules)) n = Inr h" "reducible r h"
        "\<forall>S. approves h S \<longleftrightarrow> sint n \<le> int (length (filter (\<lambda>x. approves x S) (map H rules)))"
        using reducible_Nof [of "map H rules" r n] H n by auto
      moreover have "length (filter (\<lambda>x. approves x S) (map H rules)) =
          length (filter (\<lambda>b. b) (map (\<lambda>q. satisfies um ids q S) rules))" for S
        using H by (simp add: filter_map comp_def cong: filter_cong)
      ultimately show ?thesis using False by (simp add: nOutOfRetriever_def NewGroupOfGroups_def)
    qed
    then show ?thesis using comp False by simp
  qed
qed simp_all

section \<open>Multiplying out into groups of peers\<close>

lemma peersOfItems_Peer [simp]: "peersOfItems (map Peer ps) = Inr ps"
  by (induction ps) auto

lemma target_asPeerWrappers [simp]: "map target (asPeerWrappers ref ps) = ps"
  by (induction ps arbitrary: ref) auto

lemma mustGetPeerGroup_all_peers:
  "\<exists>pgs. mustGetPeerGroup_all ref (map (\<lambda>ps. GroupImpl (map Peer ps)) pss) = Inr pgs \<and> map Peers pgs = pss"
proof (induction pss arbitrary: ref)
  case (Cons ps pss)
  have "mustGetPeerGroup ref (GroupImpl (map Peer ps)) = Inr (NewPeerGroup ref ps)"
    by (simp add: mustGetPeerGroup_def)
  then show ?case using Cons.IH [of "ref + length ps"] by (auto simp: NewPeerGroup_def)
qed simp

lemma mustGetPeerGroups_flat:
  assumes "flat r g"
  shows "\<exists>pgs. mustGetPeerGroups ref g = Inr pgs \<and> map Peers pgs = product_lists (map r (msps g))"
proof -
  let ?pss = "product_lists (map r (msps g))"
  have and_msp: "and_groups (mspGroups r ms) = map (\<lambda>ps. GroupImpl (map Peer ps)) (product_lists (map r ms))"
    if "ms \<noteq> []" for ms
    using that product_lists_map [of Peer "map r ms"] by (simp add: and_groups_eq comp_def NewGroup_def)
  consider m where "g = MspPeerGroup m r" "r m = []" | m where "g = MspPeerGroup m r" "r m \<noteq> []"
    | ms where "g = GroupImpl (mspGroups r ms)" "ms \<noteq> []"
    using assms by (auto simp: flat_def)
  then show ?thesis
  proof cases
    case 1
    then show ?thesis by (simp add: mustGetPeerGroups_def)
  next
    case (2 m)
    then have "mustGetPeerGroups ref g = mustGetPeerGroup_all ref (map (\<lambda>ps. GroupImpl (map Peer ps)) ?pss)"
      using and_msp [of "[m]"] by (simp add: mustGetPeerGroups_def hd_map NewGroup_def)
    then show ?thesis using mustGetPeerGroup_all_peers by metis
  next
    case (3 ms)
    then have "mustGetPeerGroups ref g = mustGetPeerGroup_all ref (map (\<lambda>ps. GroupImpl (map Peer ps)) ?pss)"
      using and_msp [of ms] msps_mspGroups [of r ms]
      by (simp add: mustGetPeerGroups_def hd_map list_all_iff del: msps_mspGroups)
    then show ?thesis using mustGetPeerGroup_all_peers by metis
  qed
qed

lemma allPeerGroups_flat:
  assumes "\<forall>g \<in> set gs. flat r g"
  shows "\<exists>pgs. allPeerGroups ref gs = Inr pgs \<and>
    map Peers pgs = concat (map (\<lambda>g. product_lists (map r (msps g))) gs)"
  using assms
proof (induction gs arbitrary: ref)
  case (Cons g gs)
  obtain pgs where pgs: "mustGetPeerGroups ref g = Inr pgs" "map Peers pgs = product_lists (map r (msps g))"
    using mustGetPeerGroups_flat [of r g ref] Cons.prems by auto
  then show ?case
    using Cons.IH [of "ref + sum_list (map (\<lambda>pg. length (Peers pg)) pgs)"] Cons.prems by auto
qed simp

lemma signs_choice:
  assumes "ps \<in> set (product_lists (map (peerRetrieverOf peers) ms))"
  shows "set ps \<subseteq> set peers" "\<forall>m \<in> set ms. signs (set ps) m"
  using assms by (induction ms arbitrary: ps) (force simp: peerRetrieverOf_def signs_def)+

lemma choice_exists:
  "product_lists (map (peerRetrieverOf peers) ms) \<noteq> [] \<longleftrightarrow> (\<forall>m \<in> set ms. signs (set peers) m)"
proof (induction ms)
  case (Cons m ms)
  have "peerRetrieverOf peers m \<noteq> [] \<longleftrightarrow> signs (set peers) m"
    by (auto simp: peerRetrieverOf_def signs_def filter_empty_conv)
  moreover have "product_lists (map (peerRetrieverOf peers) (m # ms)) \<noteq> [] \<longleftrightarrow>
      peerRetrieverOf peers m \<noteq> [] \<and> product_lists (map (peerRetrieverOf peers) ms) \<noteq> []"
    by (cases "peerRetrieverOf peers m") auto
  ultimately show ?case using Cons.IH by simp
qed simp

text \<open>What a hierarchy resolves to for the available peers: groups that it approves, and none only when it
  does not approve the peers together.\<close>

lemma getPeerGroups_reducible:
  assumes "f (peerRetrieverOf peers) = Inr h" "reducible (peerRetrieverOf peers) h"
  shows "\<exists>pgs. getPeerGroups ref f (peerRetrieverOf peers) = Inr pgs \<and>
     (\<forall>g \<in> set pgs. set (Peers g) \<subseteq> set peers \<and> approves h (set (Peers g))) \<and>
     (pgs \<noteq> [] \<longleftrightarrow> approves h (set peers))"
proof -
  let ?r = "peerRetrieverOf peers"
  have fl: "\<forall>g \<in> set (reduction h). flat ?r g" using reducible_flat [OF assms(2)] by blast
  obtain pgs where pgs: "allPeerGroups ref (reduction h) = Inr pgs"
    "map Peers pgs = concat (map (\<lambda>g. product_lists (map ?r (msps g))) (reduction h))"
    using allPeerGroups_flat [OF fl] by blast
  have get: "getPeerGroups ref f ?r = Inr pgs"
    using assms(1) reducible_Reduce [OF assms(2)] pgs(1) by (simp add: getPeerGroups_def)
  have sat: "approves h S \<longleftrightarrow> (\<exists>g \<in> set (reduction h). \<forall>m \<in> set (msps g). signs S m)" for S
    using reducible_approves [OF assms(2)] by (simp add: alternative_def)
  have peers_of: "Peers ` set pgs = (\<Union>g \<in> set (reduction h). set (product_lists (map ?r (msps g))))"
    using arg_cong [OF pgs(2), of set] by auto
  have "set (Peers g) \<subseteq> set peers \<and> approves h (set (Peers g))" if g: "g \<in> set pgs" for g
  proof -
    obtain x where x: "x \<in> set (reduction h)" "Peers g \<in> set (product_lists (map ?r (msps x)))"
      using peers_of g by blast
    then show ?thesis using signs_choice [OF x(2)] sat by blast
  qed
  moreover have "pgs \<noteq> [] \<longleftrightarrow> (\<exists>g \<in> set (reduction h). product_lists (map ?r (msps g)) \<noteq> [])"
    using pgs(2) by (auto dest: arg_cong [of _ _ "\<lambda>xs. xs = []"])
  then have "pgs \<noteq> [] \<longleftrightarrow> approves h (set peers)" by (simp add: choice_exists sat)
  ultimately show ?thesis using get by blast
qed

lemma CompileSignaturePolicy_sound:
  assumes "wf_policy um (Identities env) (Rule env)"
  shows "\<exists>f. CompileSignaturePolicy um env = Inr f \<and>
    (\<forall>r. \<exists>h. f r = Inr h \<and> reducible r h \<and> (\<forall>S. approves h S \<longleftrightarrow> satisfies um (Identities env) (Rule env) S))"
  using compile_sound [OF assms] by (auto simp: CompileSignaturePolicy_def)

section \<open>The contract of a load-balance policy over peer groups\<close>

locale group_policy =
  fixes pick :: "'b \<Rightarrow> item list \<Rightarrow> item \<times> 'b"
    and pick_invar :: "'b \<Rightarrow> bool"
  assumes pick_none: "pick_invar b \<Longrightarrow> Peers (fst (pick b [])) = []"
    and pick_member: "pick_invar b \<Longrightarrow> gs \<noteq> [] \<Longrightarrow> fst (pick b gs) \<in> set gs"
    and pick_keeps: "pick_invar b \<Longrightarrow> pick_invar (snd (pick b gs))"
begin

lemma resolve_reducible:
  assumes "f (peerRetrieverOf peers) = Inr h" "reducible (peerRetrieverOf peers) h" "pick_invar b"
  shows "\<exists>g b'. Resolve ref f pick b peers = Inr (g, b') \<and> pick_invar b' \<and>
    (if approves h (set peers) then set (Peers g) \<subseteq> set peers \<and> approves h (set (Peers g)) else Peers g = [])"
proof -
  obtain pgs where f: "getPeerGroups ref f (peerRetrieverOf peers) = Inr pgs"
    and pgs: "\<forall>g \<in> set pgs. set (Peers g) \<subseteq> set peers \<and> approves h (set (Peers g))" "pgs \<noteq> [] \<longleftrightarrow> approves h (set peers)"
    using getPeerGroups_reducible [of f peers h ref, OF assms(1,2)] by blast
  obtain g b' where g: "pick b pgs = (g, b')" by (cases "pick b pgs")
  then have "Resolve ref f pick b peers = Inr (g, b')" using f by (simp add: Resolve_def)
  moreover have "pgs \<noteq> [] \<Longrightarrow> g \<in> set pgs" "pgs = [] \<Longrightarrow> Peers g = []" "pick_invar b'"
    using pick_member [OF assms(3), of pgs] pick_none [OF assms(3)] pick_keeps [OF assms(3), of pgs] g by auto
  ultimately show ?thesis using pgs by auto
qed

lemma resolve_policy:
  assumes "wf_policy um (Identities env) (Rule env)" "pick_invar b"
  shows "\<exists>f g b'. CompileSignaturePolicy um env = Inr f \<and> Resolve ref f pick b peers = Inr (g, b') \<and> pick_invar b' \<and>
    (if satisfies um (Identities env) (Rule env) (set peers)
     then set (Peers g) \<subseteq> set peers \<and> satisfies um (Identities env) (Rule env) (set (Peers g))
     else Peers g = [])"
proof -
  obtain f h where f: "CompileSignaturePolicy um env = Inr f" "f (peerRetrieverOf peers) = Inr h"
    "reducible (peerRetrieverOf peers) h" "\<forall>S. approves h S \<longleftrightarrow> satisfies um (Identities env) (Rule env) S"
    using CompileSignaturePolicy_sound [OF assms(1)] by blast
  show ?thesis using f(1) resolve_reducible [of f peers h b ref, OF f(2,3) assms(2)] unfolding f(4) [rule_format] by blast
qed

end

interpretation random_group: group_policy "pg_Random_Choose src" "\<lambda>_. True"
  by unfold_locales (auto simp: pg_Random_Choose_def NewPeerGroup_def rand_Intn_def)

interpretation roundrobin_group: group_policy "pg_RoundRobin_Choose seed" "\<lambda>idx. - 1 \<le> idx"
  by unfold_locales (auto simp: pg_RoundRobin_Choose_def NewPeerGroup_def Let_def)

section \<open>Properties of the resolver\<close>

lemma compile_wf:
  "compile um ids pol = Inr f \<Longrightarrow> f r = Inr h \<Longrightarrow> wf_policy um ids pol"
proof (induction pol arbitrary: f h)
  case (SignedBy i)
  then show ?case by (auto simp: signaturePolicySignedBy_def split: if_splits sum.splits)
next
  case (NOutOf n rules)
  show ?case
  proof (cases "n = 0")
    case False
    then obtain pfuncs groups where pf: "mapE (compile um ids) rules = Inr pfuncs" "mapE (\<lambda>f. f r) pfuncs = Inr groups"
      "Nof (NewGroupOfGroups groups) n = Inr h"
      using NOutOf.prems by (auto simp: nOutOfRetriever_def split: sum.splits)
    then have rel: "list_all2 (\<lambda>q f. compile um ids q = Inr f) rules pfuncs" "list_all2 (\<lambda>f g. f r = Inr g) pfuncs groups"
      by (simp_all add: mapE_Inr_iff)
    then have "length groups = length rules" using list_all2_lengthD by metis
    with pf(3) have "0 < sint n" "sint n \<le> int (length rules)"
      by (auto simp: Nof_def NewGroupOfGroups_def split: if_splits)
    moreover have "wf_policy um ids q" if "q \<in> set rules" for q
    proof -
      from that obtain i where i: "i < length rules" "q = rules ! i" by (auto simp: in_set_conv_nth)
      then have "compile um ids q = Inr (pfuncs ! i)" "(pfuncs ! i) r = Inr (groups ! i)"
        using rel by (auto simp: list_all2_conv_all_nth)
      then show ?thesis using NOutOf.IH that by blast
    qed
    ultimately show ?thesis by (simp add: list_all_iff)
  qed simp
qed auto

text \<open>
  C5. The round-robin resolver: for every policy whose thresholds and principals are in range,
  compiling it succeeds and \<open>Resolve\<close> returns (no error, no panic) a group of available peers whose
  endorsements satisfy the policy, provided the available peers together can satisfy it; it returns the
  empty group exactly when they cannot.
\<close>

theorem Resolve_RoundRobin_satisfies:
  assumes "wf_policy um (Identities env) (Rule env)" "- 1 \<le> idx"
  shows "\<exists>f g idx'. CompileSignaturePolicy um env = Inr f \<and>
    Resolve ref f (pg_RoundRobin_Choose seed) idx peers = Inr (g, idx') \<and> - 1 \<le> idx' \<and>
    (if satisfies um (Identities env) (Rule env) (set peers)
     then set (Peers g) \<subseteq> set peers \<and> satisfies um (Identities env) (Rule env) (set (Peers g))
     else Peers g = [])"
  by (rule roundrobin_group.resolve_policy [OF assms])

text \<open>A concrete envelope: one of two organisations, with principals unmarshalled to their own bytes.\<close>

definition raw_um :: unmarshal where
  "raw_um = \<lparr>unmarshalRole = (\<lambda>b. Inr (map (\<lambda>x. char_of (unat x)) b)), unmarshalUnit = (\<lambda>b. Inr (map (\<lambda>x. char_of (unat x)) b))\<rparr>"

definition two_orgs :: SignaturePolicyEnvelope where
  "two_orgs = \<lparr>Rule = NOutOf 1 [SignedBy 0, NOutOf 2 [SignedBy 1, SignedBy 0]],
     Identities = [\<lparr>PrincipalClassification = ROLE, Principal = [65]\<rparr>, \<lparr>PrincipalClassification = ROLE, Principal = [66]\<rparr>]\<rparr>"

lemma two_orgs_wf: "wf_policy raw_um (Identities two_orgs) (Rule two_orgs)"
  by (simp add: two_orgs_def raw_um_def mspPrincipalToString_def)

theorem Resolve_RoundRobin_satisfies_witness:
  "\<exists>f g idx'. CompileSignaturePolicy raw_um two_orgs = Inr f \<and>
    Resolve 0 f (pg_RoundRobin_Choose (\<lambda>_. 1)) pg_RoundRobin_New
      [\<lparr>peerRef = 0, MSPID = ''A'', URL = ''a'', BlockHeight = None\<rparr>] = Inr (g, idx') \<and> - 1 \<le> idx' \<and>
    (if satisfies raw_um (Identities two_orgs) (Rule two_orgs) (set [\<lparr>peerRef = 0, MSPID = ''A'', URL = ''a'', BlockHeight = None\<rparr>])
     then set (Peers g) \<subseteq> set [\<lparr>peerRef = 0, MSPID = ''A'', URL = ''a'', BlockHeight = None\<rparr>] \<and>
       satisfies raw_um (Identities two_orgs) (Rule two_orgs) (set (Peers g))
     else Peers g = [])"
  by (rule Resolve_RoundRobin_satisfies [OF two_orgs_wf]) (simp add: pg_RoundRobin_New_def)

text \<open>
  The random resolver keeps the same promise: whatever the random source, a resolvable policy yields
  available peers that satisfy it, or the empty group when the available peers cannot.
\<close>

theorem Resolve_Random_satisfies:
  assumes "wf_policy um (Identities env) (Rule env)"
  shows "\<exists>f g k'. CompileSignaturePolicy um env = Inr f \<and>
    Resolve ref f (pg_Random_Choose src) k peers = Inr (g, k') \<and>
    (if satisfies um (Identities env) (Rule env) (set peers)
     then set (Peers g) \<subseteq> set peers \<and> satisfies um (Identities env) (Rule env) (set (Peers g))
     else Peers g = [])"
  using random_group.resolve_policy [OF assms] by blast

theorem Resolve_Random_satisfies_witness:
  "\<exists>f g k'. CompileSignaturePolicy raw_um two_orgs = Inr f \<and>
    Resolve 0 f (pg_Random_Choose (\<lambda>k n. 5)) 0 [] = Inr (g, k') \<and>
    (if satisfies raw_um (Identities two_orgs) (Rule two_orgs) (set [])
     then set (Peers g) \<subseteq> set [] \<and> satisfies raw_um (Identities two_orgs) (Rule two_orgs) (set (Peers g))
     else Peers g = [])"
  by (rule Resolve_Random_satisfies [OF two_orgs_wf])

text \<open>
  Errors: the compiled retriever yields a group hierarchy exactly for the well-formed policies. A
  nil or untyped rule, a threshold below one or above the number of rules, an index outside the
  identities or a principal that does not name an MSP ends in an error or a panic, at any depth.
\<close>

theorem compile_resolves_iff:
  "(\<exists>f h. CompileSignaturePolicy um env = Inr f \<and> f r = Inr h) \<longleftrightarrow> wf_policy um (Identities env) (Rule env)"
proof
  assume "\<exists>f h. CompileSignaturePolicy um env = Inr f \<and> f r = Inr h"
  then obtain f h where fh: "CompileSignaturePolicy um env = Inr f" "f r = Inr h" by blast
  then have "compile um (Identities env) (Rule env) = Inr f"
    by (simp add: CompileSignaturePolicy_def split: sum.splits failure.splits)
  then show "wf_policy um (Identities env) (Rule env)" using fh(2) by (rule compile_wf)
next
  assume "wf_policy um (Identities env) (Rule env)"
  from compile_sound [OF this] show "\<exists>f h. CompileSignaturePolicy um env = Inr f \<and> f r = Inr h"
    by (force simp: CompileSignaturePolicy_def)
qed

text \<open>
  Combinations: the alternatives \<open>Nof\<close> yields are exactly the sublists of \<open>n\<close> items of the group, in
  the order of the group, and it fails exactly for the thresholds out of range.
\<close>

theorem Nof_combinations:
  "Nof g n = Inr h \<longleftrightarrow> 0 < sint n \<and> sint n \<le> int (length (Items g)) \<and>
     h = GroupsImpl (getCombinations (Items g) (nat (sint n) - 1)) \<and>
     set (Items h) = GroupImpl ` {xs. subseq xs (Items g) \<and> int (length xs) = sint n}"
proof -
  have "set (getCombinations (Items g) (nat (sint n) - 1)) =
     GroupImpl ` {xs. subseq xs (Items g) \<and> int (length xs) = sint n}" if "0 < sint n"
  proof -
    have "int (length xs) = sint n \<longleftrightarrow> length xs = Suc (nat (sint n) - 1)" for xs :: "item list"
      using that by auto
    then show ?thesis by (simp add: set_getCombinations)
  qed
  then show ?thesis by (auto simp: Nof_def NewGroupOfGroups_def)
qed

end
