(* ===== verification/FilteredBlock.thy ===== *)
theory FilteredBlock
  imports Status
begin

text \<open>
  Blocks and their filtered form: \<open>toFilteredBlock\<close> and its helpers of
  \<^verbatim>\<open>pkg/fab/events/service/dispatcher/dispatcher.go\<close>, the flags of \<^verbatim>\<open>txflags\<close>, the unmarshalers of
  \<^verbatim>\<open>protoutil\<close> they call and the header-type block filter. The protobuf library is the record
  \<open>protos\<close>: for each message type what \<open>proto.Unmarshal\<close> yields, reduced to the fields that are read,
  with a nil sub-message as \<open>None\<close>, and the generated constants.
\<close>

record block =
  HeaderNumber :: uint64
  DataData :: "bytes list"
  Metadata :: "bytes list"

record ChannelHeader =
  HdrType :: int32
  HdrTxId :: string
  HdrChannelId :: string

record ChaincodeEvent =
  ChaincodeId :: string
  TxId :: string
  EventName :: string
  Payload :: bytes

record Payload =
  PayloadHeader :: "bytes option"
  PayloadData :: bytes

record protos =
  unmarshalEnvelope :: "bytes \<Rightarrow> error + bytes"
  unmarshalPayload :: "bytes \<Rightarrow> error + Payload"
  unmarshalChannelHeader :: "bytes \<Rightarrow> error + ChannelHeader"
  unmarshalTransaction :: "bytes \<Rightarrow> error + bytes list"
  unmarshalChaincodeActionPayload :: "bytes \<Rightarrow> error + bytes option"
  unmarshalProposalResponsePayload :: "bytes \<Rightarrow> error + bytes"
  unmarshalChaincodeAction :: "bytes \<Rightarrow> error + bytes"
  unmarshalChaincodeEvent :: "bytes \<Rightarrow> error + ChaincodeEvent"
  TRANSACTIONS_FILTER :: nat
  ENDORSER_TRANSACTION :: int32
  VALID :: int32

text \<open>A \<open>FilteredTransaction\<close>: \<open>Data\<close> is the list of chaincode actions, each with its event (nil is
  \<open>None\<close>), or \<open>None\<close> when the oneof is unset.\<close>

record FilteredTransaction =
  FTType :: int32
  Txid :: string
  TxValidationCode :: int32
  Data :: "ChaincodeEvent option list option"

record FilteredBlock =
  ChannelId :: string
  Number :: uint64
  FilteredTransactions :: "FilteredTransaction list"

definition Wrap :: "string \<Rightarrow> error \<Rightarrow> error" where
  "Wrap msg e = ErrWithStack (ErrWithMessage msg e)"

text \<open>\<open>errors.Wrap\<close> of an error result; a nil error stays nil.\<close>

definition wrapE :: "string \<Rightarrow> error + 'a \<Rightarrow> 'a outcome" where
  "wrapE msg r = (case r of Inl e \<Rightarrow> Inl (Err (Wrap msg e)) | Inr a \<Rightarrow> Inr a)"

definition wrapF :: "string \<Rightarrow> 'a outcome \<Rightarrow> 'a outcome" where
  "wrapF msg r = (case r of Inl (Err e) \<Rightarrow> Inl (Err (Wrap msg e)) | Inl (Panic p) \<Rightarrow> Inl (Panic p) | Inr a \<Rightarrow> Inr a)"

definition withMsgO :: "string \<Rightarrow> 'a outcome \<Rightarrow> 'a outcome" where
  "withMsgO msg r = (case r of Inl (Err e) \<Rightarrow> Inl (Err (ErrWithMessage msg e)) | Inl (Panic p) \<Rightarrow> Inl (Panic p) | Inr a \<Rightarrow> Inr a)"

definition bindO :: "'a outcome \<Rightarrow> ('a \<Rightarrow> 'b outcome) \<Rightarrow> 'b outcome" where
  "bindO r f = (case r of Inl e \<Rightarrow> Inl e | Inr a \<Rightarrow> f a)"

lemma bindO_simps [simp]: "bindO (Inl e) f = Inl e" "bindO (Inr a) f = f a"
  by (simp_all add: bindO_def)

lemma bindO_eq_Inr: "bindO r f = Inr b \<longleftrightarrow> (\<exists>a. r = Inr a \<and> f a = Inr b)"
  by (cases r) simp_all

lemma bindO_eq_Inl: "bindO r f = Inl e \<longleftrightarrow> r = Inl e \<or> (\<exists>a. r = Inr a \<and> f a = Inl e)"
  by (cases r) simp_all

section \<open>The unmarshalers of protoutil\<close>

definition GetEnvelopeFromBlock :: "protos \<Rightarrow> bytes \<Rightarrow> bytes outcome" where
  "GetEnvelopeFromBlock pb data = wrapE ''error unmarshaling Envelope'' (unmarshalEnvelope pb data)"

definition ExtractEnvelope :: "protos \<Rightarrow> block \<Rightarrow> nat \<Rightarrow> bytes outcome" where
  "ExtractEnvelope pb blk ix =
     (if ix \<ge> length (DataData blk) then Inl (Err (ErrNew ''envelope index out of bounds''))
      else (case GetEnvelopeFromBlock pb (DataData blk ! ix) of
              Inl (Err e) \<Rightarrow> Inl (Err (ErrWithMessage (''block data does not carry an envelope at index '' @ itoa (int ix)) e))
            | r \<Rightarrow> r))"

definition UnmarshalPayload :: "protos \<Rightarrow> bytes \<Rightarrow> Payload outcome" where
  "UnmarshalPayload pb encoded = wrapE ''error unmarshaling Payload'' (unmarshalPayload pb encoded)"

definition UnmarshalChannelHeader :: "protos \<Rightarrow> bytes \<Rightarrow> ChannelHeader outcome" where
  "UnmarshalChannelHeader pb bs = wrapE ''error unmarshaling ChannelHeader'' (unmarshalChannelHeader pb bs)"

definition UnmarshalTransaction :: "protos \<Rightarrow> bytes \<Rightarrow> bytes list outcome" where
  "UnmarshalTransaction pb bs = wrapE ''error unmarshaling Transaction'' (unmarshalTransaction pb bs)"

definition UnmarshalChaincodeActionPayload :: "protos \<Rightarrow> bytes \<Rightarrow> bytes option outcome" where
  "UnmarshalChaincodeActionPayload pb bs =
     wrapE ''error unmarshaling ChaincodeActionPayload'' (unmarshalChaincodeActionPayload pb bs)"

definition UnmarshalProposalResponsePayload :: "protos \<Rightarrow> bytes \<Rightarrow> bytes outcome" where
  "UnmarshalProposalResponsePayload pb bs =
     wrapE ''error unmarshaling ProposalResponsePayload'' (unmarshalProposalResponsePayload pb bs)"

definition UnmarshalChaincodeAction :: "protos \<Rightarrow> bytes \<Rightarrow> bytes outcome" where
  "UnmarshalChaincodeAction pb bs = wrapE ''error unmarshaling ChaincodeAction'' (unmarshalChaincodeAction pb bs)"

definition UnmarshalChaincodeEvents :: "protos \<Rightarrow> bytes \<Rightarrow> ChaincodeEvent outcome" where
  "UnmarshalChaincodeEvents pb bs = wrapE ''error unmarshaling ChaicnodeEvent'' (unmarshalChaincodeEvent pb bs)"

section \<open>Validation flags\<close>

text \<open>Indexing a flag array out of range panics; a code is a byte widened to 32 bits.\<close>

definition flags_New :: "nat \<Rightarrow> int32 \<Rightarrow> bytes" where
  "flags_New n notValidated = replicate n (ucast notValidated)"

definition SetFlag :: "bytes \<Rightarrow> nat \<Rightarrow> int32 \<Rightarrow> bytes outcome" where
  "SetFlag obj txIndex flag =
     (if txIndex < length obj then Inr (obj[txIndex := ucast flag]) else Inl (Panic ''index out of range''))"

definition Flag :: "bytes \<Rightarrow> nat \<Rightarrow> int32 outcome" where
  "Flag obj txIndex =
     (if txIndex < length obj then Inr (ucast (obj ! txIndex)) else Inl (Panic ''index out of range''))"

definition IsSetTo :: "bytes \<Rightarrow> nat \<Rightarrow> int32 \<Rightarrow> bool outcome" where
  "IsSetTo obj txIndex flag = bindO (Flag obj txIndex) (\<lambda>f. Inr (f = flag))"

definition IsValid :: "protos \<Rightarrow> bytes \<Rightarrow> nat \<Rightarrow> bool outcome" where
  "IsValid pb obj txIndex = IsSetTo obj txIndex (VALID pb)"

section \<open>Filtered blocks\<close>

definition getFilteredTransactionActions :: "protos \<Rightarrow> bytes \<Rightarrow> ChaincodeEvent option list outcome" where
  "getFilteredTransactionActions pb data =
     bindO (wrapF ''error unmarshalling transaction payload'' (UnmarshalTransaction pb data)) (\<lambda>actions.
     (case actions of [] \<Rightarrow> Inl (Panic ''index out of range'')
      | act # _ \<Rightarrow>
     bindO (wrapF ''error unmarshalling chaincode action payload'' (UnmarshalChaincodeActionPayload pb act)) (\<lambda>cap.
     (case cap of None \<Rightarrow> Inl (Panic ''nil pointer dereference'')
      | Some prp \<Rightarrow>
     bindO (wrapF ''error unmarshalling response payload'' (UnmarshalProposalResponsePayload pb prp)) (\<lambda>extension.
     bindO (wrapF ''error unmarshalling chaincode action'' (UnmarshalChaincodeAction pb extension)) (\<lambda>events.
     bindO (wrapF ''error getting chaincode events'' (UnmarshalChaincodeEvents pb events)) (\<lambda>ccEvent.
     Inr [Some ccEvent])))))))"

definition getFilteredTx :: "protos \<Rightarrow> bytes \<Rightarrow> int32 \<Rightarrow> (FilteredTransaction \<times> string) outcome" where
  "getFilteredTx pb data txValidationCode =
     bindO (wrapF ''error extracting Envelope from block'' (GetEnvelopeFromBlock pb data)) (\<lambda>envPayload.
     bindO (wrapF ''error extracting Payload from envelope'' (UnmarshalPayload pb envPayload)) (\<lambda>payload.
     (case PayloadHeader payload of None \<Rightarrow> Inl (Panic ''nil pointer dereference'')
      | Some channelHeaderBytes \<Rightarrow>
     bindO (wrapE ''error extracting ChannelHeader from payload'' (unmarshalChannelHeader pb channelHeaderBytes)) (\<lambda>hdr.
     let tx = \<lparr>FTType = HdrType hdr, Txid = HdrTxId hdr, TxValidationCode = txValidationCode, Data = None\<rparr> in
     if HdrType hdr = ENDORSER_TRANSACTION pb
     then bindO (wrapF ''error getting filtered transaction actions''
                   (getFilteredTransactionActions pb (PayloadData payload))) (\<lambda>actions.
            Inr (tx\<lparr>Data := Some actions\<rparr>, HdrChannelId hdr))
     else Inr (tx, HdrChannelId hdr)))))"

text \<open>The loop of \<open>toFilteredBlock\<close> from index \<open>i\<close>.\<close>

fun filterTxs ::
  "protos \<Rightarrow> bytes \<Rightarrow> nat \<Rightarrow> bytes list \<Rightarrow> string \<Rightarrow> FilteredTransaction list \<Rightarrow> (string \<times> FilteredTransaction list) outcome" where
  "filterTxs pb txFilter i [] channelID filteredTxs = Inr (channelID, filteredTxs)"
| "filterTxs pb txFilter i (data # rest) channelID filteredTxs =
     bindO (Flag txFilter i) (\<lambda>flag.
       (case getFilteredTx pb data flag of
          Inl (Panic p) \<Rightarrow> Inl (Panic p)
        | Inl (Err e) \<Rightarrow> filterTxs pb txFilter (Suc i) rest channelID filteredTxs
        | Inr (tx, chID) \<Rightarrow> filterTxs pb txFilter (Suc i) rest chID (filteredTxs @ [tx])))"

definition toFilteredBlock :: "protos \<Rightarrow> block \<Rightarrow> FilteredBlock outcome" where
  "toFilteredBlock pb blk =
     (if TRANSACTIONS_FILTER pb < length (Metadata blk)
      then bindO (filterTxs pb (Metadata blk ! TRANSACTIONS_FILTER pb) 0 (DataData blk) '''' []) (\<lambda>(channelID, txs).
             Inr \<lparr>ChannelId = channelID, Number = HeaderNumber blk, FilteredTransactions = txs\<rparr>)
      else Inl (Panic ''index out of range''))"

section \<open>Block filters\<close>

definition AcceptAny :: "block \<Rightarrow> bool" where
  "AcceptAny blk = True"

text \<open>\<open>hasType\<close> skips an envelope it cannot read; a payload without header panics.\<close>

fun hasType_from :: "protos \<Rightarrow> block \<Rightarrow> int32 list \<Rightarrow> nat list \<Rightarrow> bool outcome" where
  "hasType_from pb blk headerTypes [] = Inr False"
| "hasType_from pb blk headerTypes (i # rest) =
     (case bindO (ExtractEnvelope pb blk i) (\<lambda>envPayload. bindO (UnmarshalPayload pb envPayload) (\<lambda>payload.
         (case PayloadHeader payload of None \<Rightarrow> Inl (Panic ''nil pointer dereference'')
          | Some hdr \<Rightarrow> UnmarshalChannelHeader pb hdr))) of
        Inl (Panic p) \<Rightarrow> Inl (Panic p)
      | Inl (Err e) \<Rightarrow> hasType_from pb blk headerTypes rest
      | Inr chdr \<Rightarrow> if HdrType chdr \<in> set headerTypes then Inr True
                    else hasType_from pb blk headerTypes rest)"

definition hasType :: "protos \<Rightarrow> block \<Rightarrow> int32 list \<Rightarrow> bool outcome" where
  "hasType pb blk headerTypes = hasType_from pb blk headerTypes [0..<length (DataData blk)]"

section \<open>What the conversion computes\<close>

definition readTx :: "protos \<Rightarrow> bytes \<Rightarrow> bytes list \<Rightarrow> nat \<Rightarrow> (FilteredTransaction \<times> string) outcome" where
  "readTx pb flags datas i = getFilteredTx pb (datas ! i) (ucast (flags ! i))"

definition panics :: "'a outcome \<Rightarrow> bool" where
  "panics r = (case r of Inl (Panic p) \<Rightarrow> True | _ \<Rightarrow> False)"

definition readable :: "'a outcome \<Rightarrow> 'a list" where
  "readable r = (case r of Inr a \<Rightarrow> [a] | Inl _ \<Rightarrow> [])"

lemma outcome_cases:
  obtains (panic) p where "r = Inl (Panic p)" | (err) e where "r = Inl (Err e)" | (val) a where "r = Inr a"
  by (metis failure.exhaust sum.exhaust)

definition lastChannel :: "string \<Rightarrow> (FilteredTransaction \<times> string) list \<Rightarrow> string" where
  "lastChannel ch rs = last (ch # map snd rs)"

lemma filterTxs_Inr_iff:
  "filterTxs pb flags i datas ch txs = Inr res \<longleftrightarrow>
     (\<forall>j < length datas. i + j < length flags \<and> \<not> panics (getFilteredTx pb (datas ! j) (ucast (flags ! (i + j))))) \<and>
     (let rs = concat (map (\<lambda>j. readable (getFilteredTx pb (datas ! j) (ucast (flags ! (i + j))))) [0..<length datas])
      in res = (lastChannel ch rs, txs @ map fst rs))"
proof (induction datas arbitrary: i ch txs)
  case Nil
  then show ?case by (auto simp: lastChannel_def)
next
  case (Cons d datas)
  have shift: "[0..<length (d # datas)] = 0 # map Suc [0..<length datas]" by (simp only: list.size(4) add_0_right add_Suc_right map_Suc_upt)
      (rule upt_conv_Cons, simp)
  have all: "(\<forall>j < length (d # datas). P j) \<longleftrightarrow> P 0 \<and> (\<forall>j < length datas. P (Suc j))" for P
    by (auto simp: less_Suc_eq_0_disj)
  show ?case
  proof (cases "i < length flags")
    case True
    show ?thesis
    proof (cases rule: outcome_cases [of "getFilteredTx pb d (ucast (flags ! i))"])
      case (panic p)
      with True show ?thesis unfolding all by (simp add: Flag_def panics_def)
    next
      case (err e)
      with True show ?thesis unfolding all shift
        by (simp add: Flag_def panics_def readable_def Cons.IH comp_def)
    next
      case (val a)
      obtain tx c where a: "a = (tx, c)" by (cases a)
      with True val show ?thesis unfolding all shift
        by (simp add: Flag_def panics_def readable_def Cons.IH comp_def lastChannel_def Let_def)
    qed
  next
    case False
    then show ?thesis unfolding all by (simp add: Flag_def)
  qed
qed

text \<open>
  The filtered form of a block: \<open>toFilteredBlock\<close> returns exactly when the block carries a flag for every
  envelope and no envelope makes it panic, and then it lists, in block order and with the flag at the same
  index as validation code, every transaction whose envelope can be read, under the number of the block
  and the channel of the last transaction read.
\<close>

theorem toFilteredBlock_Inr_iff:
  "toFilteredBlock pb blk = Inr fb \<longleftrightarrow>
     TRANSACTIONS_FILTER pb < length (Metadata blk) \<and>
     (let flags = Metadata blk ! TRANSACTIONS_FILTER pb; n = length (DataData blk);
          rs = concat (map (\<lambda>i. readable (readTx pb flags (DataData blk) i)) [0..<n])
      in n \<le> length flags \<and> (\<forall>i < n. \<not> panics (readTx pb flags (DataData blk) i)) \<and>
         fb = \<lparr>ChannelId = lastChannel '''' rs, Number = HeaderNumber blk, FilteredTransactions = map fst rs\<rparr>)"
proof -
  have len: "(\<forall>j < n. j < m) \<longleftrightarrow> n \<le> m" for n m :: nat by (metis leI less_le_trans order_refl less_irrefl)
  show ?thesis
    by (auto simp: toFilteredBlock_def bindO_eq_Inr filterTxs_Inr_iff readTx_def Let_def all_conj_distrib
        imp_conjR len)
qed

definition config_pb :: protos where
  "config_pb = \<lparr>unmarshalEnvelope = Inr, unmarshalPayload = (\<lambda>b. Inr \<lparr>PayloadHeader = Some b, PayloadData = []\<rparr>),
     unmarshalChannelHeader = (\<lambda>b. if b = [] then Inl (ErrNew ''bad'') else Inr \<lparr>HdrType = 1, HdrTxId = ''t'', HdrChannelId = ''ch''\<rparr>),
     unmarshalTransaction = (\<lambda>_. Inl (ErrNew ''bad'')), unmarshalChaincodeActionPayload = (\<lambda>_. Inl (ErrNew ''bad'')),
     unmarshalProposalResponsePayload = (\<lambda>_. Inl (ErrNew ''bad'')), unmarshalChaincodeAction = (\<lambda>_. Inl (ErrNew ''bad'')),
     unmarshalChaincodeEvent = (\<lambda>_. Inl (ErrNew ''bad'')), TRANSACTIONS_FILTER = 0, ENDORSER_TRANSACTION = 3, VALID = 0\<rparr>"

theorem toFilteredBlock_Inr_iff_witness:
  "toFilteredBlock config_pb \<lparr>HeaderNumber = 9, DataData = [[1], []], Metadata = [[0, 0]]\<rparr> =
     Inr \<lparr>ChannelId = ''ch'', Number = 9, FilteredTransactions = [\<lparr>FTType = 1, Txid = ''t'', TxValidationCode = 0, Data = None\<rparr>]\<rparr>"
proof -
  let ?tx = "\<lparr>FTType = 1, Txid = ''t'', TxValidationCode = 0, Data = None\<rparr>"
  have r0: "readTx config_pb [0, 0] [[1], []] 0 = Inr (?tx, ''ch'')"
    by (simp add: readTx_def getFilteredTx_def config_pb_def GetEnvelopeFromBlock_def UnmarshalPayload_def
        wrapE_def wrapF_def Let_def)
  obtain e where r1: "readTx config_pb [0, 0] [[1], []] 1 = Inl (Err e)"
    by (simp add: readTx_def getFilteredTx_def config_pb_def GetEnvelopeFromBlock_def UnmarshalPayload_def
        wrapE_def wrapF_def)
  have two: "[0..<2] = [0, 1 :: nat]" by (simp add: eval_nat_numeral)
  have "\<forall>i < 2. \<not> panics (readTx config_pb [0, 0] [[1], []] i)"
    using r0 r1 by (auto simp: less_2_cases_iff panics_def)
  moreover have rs: "concat (map (\<lambda>i. readable (readTx config_pb [0, 0] [[1], []] i)) [0..<2]) = [(?tx, ''ch'')]"
    unfolding two using r0 r1 by (simp add: readable_def)
  moreover have "TRANSACTIONS_FILTER config_pb = 0" by (simp add: config_pb_def)
  moreover have "length [[1 :: byte], []] = 2" by simp
  ultimately show ?thesis unfolding toFilteredBlock_Inr_iff Let_def block.simps rs
    by (simp add: rs lastChannel_def del: concat_eq_Nil_conv concat_map_singleton cong: conj_cong)
      (use r0 r1 in \<open>auto simp: readable_def intro!: bexI [of _ 0]\<close>)
qed

text \<open>
  Validation codes: a flag that is set is read back at its index while the flags of the other transactions
  keep their values, for every code that fits the byte a flag is stored in.
\<close>

theorem Flag_SetFlag:
  assumes "i < length obj" "unat f < 256"
  shows "\<exists>obj'. SetFlag obj i f = Inr obj' \<and> length obj' = length obj \<and> Flag obj' i = Inr f \<and>
    (\<forall>j. j \<noteq> i \<longrightarrow> Flag obj' j = Flag obj j)"
proof -
  have "ucast (ucast f :: byte) = f" using assms(2)
    by (simp add: unsigned_ucast_eq word_unat_eq_iff unsigned_take_bit_eq take_bit_nat_eq_self_iff)
  then show ?thesis using assms(1) by (auto simp: SetFlag_def Flag_def)
qed

theorem Flag_SetFlag_witness:
  "\<exists>obj'. SetFlag [254, 254] 1 11 = Inr obj' \<and> length obj' = length [254, 254 :: byte] \<and> Flag obj' 1 = Inr 11 \<and>
    (\<forall>j. j \<noteq> 1 \<longrightarrow> Flag obj' j = Flag [254, 254] j)"
  by (rule Flag_SetFlag) simp_all

end
