(* ===== verification/EventDispatcher.thy ===== *)
theory EventDispatcher
  imports FilteredBlock Balancing
begin

text \<open>
  The event dispatcher: \<^verbatim>\<open>pkg/fab/events/service/dispatcher\<close>. All events pass through one Go routine,
  so a handler is a function from the dispatcher and the event channels to their next values, and the
  loop of \<open>Start\<close> runs the handlers over the sequence of submitted events.

  The four pointer types behind \<open>fab.Registration\<close> are the constructors of \<open>registration\<close>, each with
  the address \<open>regRef\<close> the code compares. A Go channel is a cell of the heap: its capacity, the log of
  the values sent so far and whether it is closed. A send can proceed when fewer values were sent than the
  capacity plus the number of receive operations begun; how many have begun when a send starts and when
  its wait ends is the consumers' behaviour, two functions of the environment. The random order in which
  Go ranges over a map is drawn from \<open>mapOrder\<close>, and \<open>regexp.Compile\<close> is \<open>compileRegexp\<close>.
\<close>

datatype registration =
    BlockReg (regRef: nat) (BFilter: "block \<Rightarrow> bool") (Eventch: nat)
  | FilteredBlockReg (regRef: nat) (Eventch: nat)
  | ChaincodeReg (regRef: nat) (ChaincodeID: string) (EventFilter: string)
      (EventRegExp: "(string \<Rightarrow> bool) option") (Eventch: nat)
  | TxStatusReg (regRef: nat) (TxID: string) (Eventch: nat)

datatype clientEvent =
    BlockEvent block string
  | FilteredBlockEvent FilteredBlock string
  | CCEvent string string string bytes uint64 string
  | TxStatusEvent string int32 uint64 string

record channel =
  cap :: nat
  sent :: "clientEvent list"
  isClosed :: bool

record heap =
  chans :: "nat \<Rightarrow> channel"
  tick :: nat

record snapshot =
  lastBlockReceived :: uint64
  snapBlockRegistrations :: "registration list"
  snapFilteredBlockRegistrations :: "registration list"
  snapCCRegistrations :: "registration list"
  snapTxStatusRegistrations :: "registration list"

record params =
  eventConsumerBufferSize :: nat
  eventConsumerTimeout :: int
  initialLastBlockNum :: uint64
  initialBlockRegistrations :: "registration list"
  initialFilteredBlockRegistrations :: "registration list"
  initialCCRegistrations :: "registration list"
  initialTxStatusRegistrations :: "registration list"

datatype dispatcherState = dispatcherStateInitial | dispatcherStateStarted | dispatcherStateStopped

record Dispatcher =
  lastBlockNum :: uint64
  prm :: params
  updateLastBlockInfoOnly :: bool
  dstate :: dispatcherState
  blockRegistrations :: "registration list"
  filteredBlockRegistrations :: "registration list"
  txRegistrations :: "(string \<times> registration) list"
  ccRegistrations :: "(string \<times> registration) list"

record env =
  recvsAtSend :: "nat \<Rightarrow> nat \<Rightarrow> nat"
  recvsAtDeadline :: "nat \<Rightarrow> nat \<Rightarrow> nat"
  mapOrder :: rand_src
  compileRegexp :: "string \<Rightarrow> error + (string \<Rightarrow> bool)"
  pbs :: protos

text \<open>What running Go code can end in besides returning: a panic, or a send that never proceeds.\<close>

datatype 'a run = Ret 'a | GoPanic string | Blocked

fun bindR :: "'a run \<Rightarrow> ('a \<Rightarrow> 'b run) \<Rightarrow> 'b run" where
  "bindR (Ret a) f = f a"
| "bindR (GoPanic p) f = GoPanic p"
| "bindR Blocked f = Blocked"

fun foldR :: "('a \<Rightarrow> 's \<Rightarrow> 's run) \<Rightarrow> 'a list \<Rightarrow> 's \<Rightarrow> 's run" where
  "foldR f [] s = Ret s"
| "foldR f (x # xs) s = bindR (f x s) (foldR f xs)"

section \<open>Channels and maps\<close>

definition send :: "env \<Rightarrow> int \<Rightarrow> nat \<Rightarrow> clientEvent \<Rightarrow> heap \<Rightarrow> heap run" where
  "send en timeout c e h =
     (let ch = chans h c; k = tick h; skip = h\<lparr>tick := Suc k\<rparr>;
          put = skip\<lparr>chans := (chans h)(c := ch\<lparr>sent := sent ch @ [e]\<rparr>)\<rparr>;
          room = (\<lambda>recvs. length (sent ch) < cap ch + recvs)
      in if isClosed ch then GoPanic ''send on closed channel''
         else if timeout < 0 then Ret (if room (recvsAtSend en k c) then put else skip)
         else if timeout = 0 then (if room (recvsAtDeadline en k c) then Ret put else Blocked)
         else Ret (if room (recvsAtDeadline en k c) then put else skip))"

definition close_chan :: "nat \<Rightarrow> heap \<Rightarrow> heap run" where
  "close_chan c h =
     (if isClosed (chans h c) then GoPanic ''close of closed channel''
      else Ret (h\<lparr>chans := (chans h)(c := (chans h c)\<lparr>isClosed := True\<rparr>)\<rparr>))"

definition go_range :: "env \<Rightarrow> heap \<Rightarrow> 'a list \<Rightarrow> 'a list" where
  "go_range en h entries = map (\<lambda>i. entries ! i) (shuffle (mapOrder en) (tick h) (length entries))"

definition close_regs :: "registration list \<Rightarrow> heap \<Rightarrow> heap run" where
  "close_regs = foldR (\<lambda>reg. close_chan (Eventch reg))"

section \<open>Parameters and construction\<close>

definition defaultParams :: params where
  "defaultParams = \<lparr>eventConsumerBufferSize = 100, eventConsumerTimeout = 500000000,
     initialLastBlockNum = 0, initialBlockRegistrations = [], initialFilteredBlockRegistrations = [],
     initialCCRegistrations = [], initialTxStatusRegistrations = []\<rparr>"

definition SetEventConsumerBufferSize :: "nat \<Rightarrow> params \<Rightarrow> params" where
  "SetEventConsumerBufferSize v p = p\<lparr>eventConsumerBufferSize := v\<rparr>"

definition SetEventConsumerTimeout :: "int \<Rightarrow> params \<Rightarrow> params" where
  "SetEventConsumerTimeout v p = p\<lparr>eventConsumerTimeout := v\<rparr>"

definition asBlockRegistrations :: "registration list \<Rightarrow> error + registration list" where
  "asBlockRegistrations = mapE (\<lambda>reg. if is_BlockReg reg then Inr reg else Inl (ErrNew ''invalid block registration''))"

definition asFBlockRegistrations :: "registration list \<Rightarrow> error + registration list" where
  "asFBlockRegistrations =
     mapE (\<lambda>reg. if is_FilteredBlockReg reg then Inr reg else Inl (ErrNew ''invalid filtered block registration''))"

definition asCCRegistrations :: "registration list \<Rightarrow> error + registration list" where
  "asCCRegistrations =
     mapE (\<lambda>reg. if is_ChaincodeReg reg then Inr reg else Inl (ErrNew ''invalid chaincode registration''))"

definition asTxRegistrations :: "registration list \<Rightarrow> error + registration list" where
  "asTxRegistrations =
     mapE (\<lambda>reg. if is_TxStatusReg reg then Inr reg else Inl (ErrNew ''invalid TxStatus registration''))"

definition SetSnapshot :: "snapshot \<Rightarrow> params \<Rightarrow> error + params" where
  "SetSnapshot value p =
     (case asBlockRegistrations (snapBlockRegistrations value) of Inl e \<Rightarrow> Inl e | Inr bRegs \<Rightarrow>
     (case asFBlockRegistrations (snapFilteredBlockRegistrations value) of Inl e \<Rightarrow> Inl e | Inr fbRegs \<Rightarrow>
     (case asCCRegistrations (snapCCRegistrations value) of Inl e \<Rightarrow> Inl e | Inr ccRegs \<Rightarrow>
     (case asTxRegistrations (snapTxStatusRegistrations value) of Inl e \<Rightarrow> Inl e | Inr txRegs \<Rightarrow>
        Inr (p\<lparr>initialLastBlockNum := lastBlockReceived value, initialBlockRegistrations := bRegs,
           initialFilteredBlockRegistrations := fbRegs, initialCCRegistrations := ccRegs,
           initialTxStatusRegistrations := txRegs\<rparr>)))))"

definition dispatcher_New :: "params \<Rightarrow> Dispatcher" where
  "dispatcher_New p = \<lparr>lastBlockNum = MaxUint64, prm = p, updateLastBlockInfoOnly = False,
     dstate = dispatcherStateInitial, blockRegistrations = [], filteredBlockRegistrations = [],
     txRegistrations = [], ccRegistrations = []\<rparr>"

definition setState :: "dispatcherState \<Rightarrow> dispatcherState \<Rightarrow> Dispatcher \<Rightarrow> bool \<times> Dispatcher" where
  "setState expectedState newState ed =
     (if dstate ed = expectedState then (True, ed\<lparr>dstate := newState\<rparr>) else (False, ed))"

definition updateLastBlockNum :: "uint64 \<Rightarrow> Dispatcher \<Rightarrow> error + Dispatcher" where
  "updateLastBlockNum blockNum ed =
     (if lastBlockNum ed = MaxUint64 \<or> blockNum > lastBlockNum ed then Inr (ed\<lparr>lastBlockNum := blockNum\<rparr>)
      else Inl (ErrNew (''Expecting a block number greater than '' @ itoa (uint (lastBlockNum ed)) @
             '' but received block number '' @ itoa (uint blockNum))))"

section \<open>Registration\<close>

definition getCCKey :: "string \<Rightarrow> string \<Rightarrow> string" where
  "getCCKey ccID eventFilter = ccID @ ''/'' @ eventFilter"

definition registerBlockEvent :: "registration \<Rightarrow> Dispatcher \<Rightarrow> Dispatcher" where
  "registerBlockEvent reg ed = ed\<lparr>blockRegistrations := blockRegistrations ed @ [reg]\<rparr>"

definition registerFilteredBlockEvent :: "registration \<Rightarrow> Dispatcher \<Rightarrow> Dispatcher" where
  "registerFilteredBlockEvent reg ed = ed\<lparr>filteredBlockRegistrations := filteredBlockRegistrations ed @ [reg]\<rparr>"

definition registerCCEvent :: "registration \<Rightarrow> Dispatcher \<Rightarrow> error option \<times> Dispatcher" where
  "registerCCEvent reg ed =
     (let key = getCCKey (ChaincodeID reg) (EventFilter reg) in
      if map_of (ccRegistrations ed) key \<noteq> None
      then (Some (ErrNew (''registration already exists for chaincode ['' @ ChaincodeID reg @ ''] and event ['' @
             EventFilter reg @ '']'')), ed)
      else (None, ed\<lparr>ccRegistrations := ccRegistrations ed @ [(key, reg)]\<rparr>))"

definition registerTxStatusEvent :: "registration \<Rightarrow> Dispatcher \<Rightarrow> error option \<times> Dispatcher" where
  "registerTxStatusEvent reg ed =
     (if map_of (txRegistrations ed) (TxID reg) \<noteq> None
      then (Some (ErrNew (''registration already exists for TX ID ['' @ TxID reg @ '']'')), ed)
      else (None, ed\<lparr>txRegistrations := txRegistrations ed @ [(TxID reg, reg)]\<rparr>))"

text \<open>A loop that returns at the first error, with the state it has reached.\<close>

fun foldE :: "('a \<Rightarrow> 's \<Rightarrow> 'e option \<times> 's) \<Rightarrow> 'a list \<Rightarrow> 's \<Rightarrow> 'e option \<times> 's" where
  "foldE f [] s = (None, s)"
| "foldE f (x # xs) s = (case f x s of (Some e, s1) \<Rightarrow> (Some e, s1) | (None, s1) \<Rightarrow> foldE f xs s1)"

definition initRegistrations :: "Dispatcher \<Rightarrow> error option \<times> Dispatcher" where
  "initRegistrations ed =
     (let p = prm ed;
          ed1 = fold registerBlockEvent (initialBlockRegistrations p) ed;
          ed2 = fold registerFilteredBlockEvent (initialFilteredBlockRegistrations p) ed1
      in case foldE registerCCEvent (initialCCRegistrations p) ed2 of
           (Some e, ed3) \<Rightarrow> (Some e, ed3)
         | (None, ed3) \<Rightarrow> foldE registerTxStatusEvent (initialTxStatusRegistrations p) ed3)"

text \<open>\<open>Start\<close> up to the Go routine, with the dispatcher left behind also when it fails.\<close>

definition Start :: "Dispatcher \<Rightarrow> error option \<times> Dispatcher" where
  "Start ed =
     (case setState dispatcherStateInitial dispatcherStateStarted ed of
        (False, ed1) \<Rightarrow> (Some (ErrNew ''cannot start dispatcher since it's not in its initial state''), ed1)
      | (True, ed1) \<Rightarrow>
          (case initRegistrations ed1 of
             (Some e, ed2) \<Rightarrow> (Some (ErrWithMessage ''error initializing registrations'' e), ed2)
           | (None, ed2) \<Rightarrow>
               (None, if initialLastBlockNum (prm ed2) > 0
                      then (case updateLastBlockNum (initialLastBlockNum (prm ed2)) ed2 of Inl e \<Rightarrow> ed2 | Inr ed3 \<Rightarrow> ed3)
                      else ed2)))"

section \<open>Unregistration\<close>

text \<open>The loop of \<open>unregisterBlockEvents\<close> and \<open>unregisterFilteredBlockEvents\<close>: the first registration at the
  same address is overwritten by the 0'th, which is then cut off.\<close>

definition remove_reg :: "registration \<Rightarrow> registration list \<Rightarrow> (registration \<times> registration list) option" where
  "remove_reg registration regs =
     (case find (\<lambda>i. regRef (regs ! i) = regRef registration) [0..<length regs] of
        None \<Rightarrow> None
      | Some i \<Rightarrow> Some (regs ! i, tl (regs[i := regs ! 0])))"

definition unregisterBlockEvents ::
  "registration \<Rightarrow> Dispatcher \<times> heap \<Rightarrow> (error option \<times> Dispatcher \<times> heap) run" where
  "unregisterBlockEvents registration = (\<lambda>(ed, h).
     (case remove_reg registration (blockRegistrations ed) of
        Some (reg, regs) \<Rightarrow> bindR (close_chan (Eventch reg) h) (\<lambda>h1. Ret (None, ed\<lparr>blockRegistrations := regs\<rparr>, h1))
      | None \<Rightarrow> Ret (Some (ErrNew ''the provided registration is invalid''), ed, h)))"

definition unregisterFilteredBlockEvents ::
  "registration \<Rightarrow> Dispatcher \<times> heap \<Rightarrow> (error option \<times> Dispatcher \<times> heap) run" where
  "unregisterFilteredBlockEvents registration = (\<lambda>(ed, h).
     (case remove_reg registration (filteredBlockRegistrations ed) of
        Some (reg, regs) \<Rightarrow>
          bindR (close_chan (Eventch reg) h) (\<lambda>h1. Ret (None, ed\<lparr>filteredBlockRegistrations := regs\<rparr>, h1))
      | None \<Rightarrow> Ret (Some (ErrNew ''the provided registration is invalid''), ed, h)))"

definition del_key :: "string \<Rightarrow> (string \<times> 'v) list \<Rightarrow> (string \<times> 'v) list" where
  "del_key k entries = filter (\<lambda>(k1, _). k1 \<noteq> k) entries"

definition unregisterCCEvents ::
  "registration \<Rightarrow> Dispatcher \<times> heap \<Rightarrow> (error option \<times> Dispatcher \<times> heap) run" where
  "unregisterCCEvents registration = (\<lambda>(ed, h).
     (let key = getCCKey (ChaincodeID registration) (EventFilter registration) in
      case map_of (ccRegistrations ed) key of
        None \<Rightarrow> Ret (Some (ErrNew ''the provided registration is invalid''), ed, h)
      | Some reg \<Rightarrow> bindR (close_chan (Eventch reg) h)
          (\<lambda>h1. Ret (None, ed\<lparr>ccRegistrations := del_key key (ccRegistrations ed)\<rparr>, h1))))"

definition unregisterTXEvents ::
  "registration \<Rightarrow> Dispatcher \<times> heap \<Rightarrow> (error option \<times> Dispatcher \<times> heap) run" where
  "unregisterTXEvents registration = (\<lambda>(ed, h).
     (case map_of (txRegistrations ed) (TxID registration) of
        None \<Rightarrow> Ret (Some (ErrNew ''the provided registration is invalid''), ed, h)
      | Some reg \<Rightarrow> bindR (close_chan (Eventch reg) h)
          (\<lambda>h1. Ret (None, ed\<lparr>txRegistrations := del_key (TxID registration) (txRegistrations ed)\<rparr>, h1))))"

section \<open>Clearing and snapshots\<close>

definition clearBlockRegistrations :: "bool \<Rightarrow> Dispatcher \<times> heap \<Rightarrow> (Dispatcher \<times> heap) run" where
  "clearBlockRegistrations closeChannel = (\<lambda>(ed, h).
     bindR (if closeChannel then close_regs (blockRegistrations ed) h else Ret h)
       (\<lambda>h1. Ret (ed\<lparr>blockRegistrations := []\<rparr>, h1)))"

definition clearFilteredBlockRegistrations :: "bool \<Rightarrow> Dispatcher \<times> heap \<Rightarrow> (Dispatcher \<times> heap) run" where
  "clearFilteredBlockRegistrations closeChannel = (\<lambda>(ed, h).
     bindR (if closeChannel then close_regs (filteredBlockRegistrations ed) h else Ret h)
       (\<lambda>h1. Ret (ed\<lparr>filteredBlockRegistrations := []\<rparr>, h1)))"

definition clearTxRegistrations :: "env \<Rightarrow> bool \<Rightarrow> Dispatcher \<times> heap \<Rightarrow> (Dispatcher \<times> heap) run" where
  "clearTxRegistrations en closeChannel = (\<lambda>(ed, h).
     bindR (if closeChannel then close_regs (map snd (go_range en h (txRegistrations ed))) h else Ret h)
       (\<lambda>h1. Ret (ed\<lparr>txRegistrations := []\<rparr>, h1)))"

definition clearChaincodeRegistrations :: "env \<Rightarrow> bool \<Rightarrow> Dispatcher \<times> heap \<Rightarrow> (Dispatcher \<times> heap) run" where
  "clearChaincodeRegistrations en closeChannel = (\<lambda>(ed, h).
     bindR (if closeChannel then close_regs (map snd (go_range en h (ccRegistrations ed))) h else Ret h)
       (\<lambda>h1. Ret (ed\<lparr>ccRegistrations := []\<rparr>, h1)))"

definition clearRegistrations :: "env \<Rightarrow> bool \<Rightarrow> Dispatcher \<times> heap \<Rightarrow> (Dispatcher \<times> heap) run" where
  "clearRegistrations en closeChannel s =
     bindR (clearBlockRegistrations closeChannel s) (\<lambda>s1.
     bindR (clearFilteredBlockRegistrations closeChannel s1) (\<lambda>s2.
     bindR (clearTxRegistrations en closeChannel s2) (clearChaincodeRegistrations en closeChannel)))"

definition newSnapshot :: "env \<Rightarrow> Dispatcher \<times> heap \<Rightarrow> snapshot" where
  "newSnapshot en = (\<lambda>(ed, h). \<lparr>lastBlockReceived = lastBlockNum ed,
     snapBlockRegistrations = blockRegistrations ed,
     snapFilteredBlockRegistrations = filteredBlockRegistrations ed,
     snapCCRegistrations = map snd (go_range en h (ccRegistrations ed)),
     snapTxStatusRegistrations = map snd (go_range en h (txRegistrations ed))\<rparr>)"

definition snapshot_Close :: "snapshot \<Rightarrow> heap \<Rightarrow> heap run" where
  "snapshot_Close s h =
     bindR (close_regs (snapBlockRegistrations s) h) (\<lambda>h1.
     bindR (close_regs (snapFilteredBlockRegistrations s) h1) (\<lambda>h2.
     bindR (close_regs (snapCCRegistrations s) h2) (close_regs (snapTxStatusRegistrations s))))"

section \<open>Publishing\<close>

definition publishBlockEvents :: "env \<Rightarrow> Dispatcher \<Rightarrow> block \<Rightarrow> string \<Rightarrow> heap \<Rightarrow> heap run" where
  "publishBlockEvents en ed blk sourceURL =
     foldR (\<lambda>reg h. if \<not> BFilter reg blk then Ret h
                     else send en (eventConsumerTimeout (prm ed)) (Eventch reg) (BlockEvent blk sourceURL) h)
       (blockRegistrations ed)"

definition checkFilteredBlockRegistrations ::
  "env \<Rightarrow> Dispatcher \<Rightarrow> FilteredBlock \<Rightarrow> string \<Rightarrow> heap \<Rightarrow> heap run" where
  "checkFilteredBlockRegistrations en ed fblock sourceURL =
     foldR (\<lambda>reg. send en (eventConsumerTimeout (prm ed)) (Eventch reg) (FilteredBlockEvent fblock sourceURL))
       (filteredBlockRegistrations ed)"

definition publishTxStatusEvents ::
  "env \<Rightarrow> Dispatcher \<Rightarrow> FilteredTransaction \<Rightarrow> uint64 \<Rightarrow> string \<Rightarrow> heap \<Rightarrow> heap run" where
  "publishTxStatusEvents en ed tx blockNum sourceURL h =
     (case map_of (txRegistrations ed) (Txid tx) of
        None \<Rightarrow> Ret h
      | Some reg \<Rightarrow> send en (eventConsumerTimeout (prm ed)) (Eventch reg)
                      (TxStatusEvent (Txid tx) (TxValidationCode tx) blockNum sourceURL) h)"

definition publishCCEvent_to ::
  "env \<Rightarrow> Dispatcher \<Rightarrow> ChaincodeEvent \<Rightarrow> uint64 \<Rightarrow> string \<Rightarrow> registration \<Rightarrow> heap \<Rightarrow> heap run" where
  "publishCCEvent_to en ed ccEvent blockNum sourceURL reg h =
     (if ChaincodeID reg = ChaincodeId ccEvent
      then (case EventRegExp reg of
              None \<Rightarrow> GoPanic ''nil pointer dereference''
            | Some matchString \<Rightarrow>
                if matchString (EventName ccEvent)
                then send en (eventConsumerTimeout (prm ed)) (Eventch reg)
                       (CCEvent (ChaincodeId ccEvent) (EventName ccEvent) (TxId ccEvent)
                          (ChaincodeEvent.Payload ccEvent) blockNum sourceURL) h
                else Ret h)
      else Ret h)"

definition publishCCEvents ::
  "env \<Rightarrow> Dispatcher \<Rightarrow> ChaincodeEvent \<Rightarrow> uint64 \<Rightarrow> string \<Rightarrow> heap \<Rightarrow> heap run" where
  "publishCCEvents en ed ccEvent blockNum sourceURL h =
     foldR (publishCCEvent_to en ed ccEvent blockNum sourceURL) (map snd (go_range en h (ccRegistrations ed))) h"

text \<open>The body of the loop over the transactions of a filtered block.\<close>

definition publishTx :: "env \<Rightarrow> Dispatcher \<Rightarrow> uint64 \<Rightarrow> string \<Rightarrow> FilteredTransaction \<Rightarrow> heap \<Rightarrow> heap run" where
  "publishTx en ed blockNum sourceURL tx h =
     bindR (publishTxStatusEvents en ed tx blockNum sourceURL h) (\<lambda>h1.
       if TxValidationCode tx = VALID (pbs en)
       then (case Data tx of
               None \<Rightarrow> Ret h1
             | Some actions \<Rightarrow>
                 foldR (\<lambda>act. case act of None \<Rightarrow> Ret | Some ccEvent \<Rightarrow> publishCCEvents en ed ccEvent blockNum sourceURL)
                   actions h1)
       else Ret h1)"

definition publishFilteredBlockEvents ::
  "env \<Rightarrow> Dispatcher \<Rightarrow> FilteredBlock option \<Rightarrow> string \<Rightarrow> heap \<Rightarrow> heap run" where
  "publishFilteredBlockEvents en ed fb sourceURL h =
     (case fb of
        None \<Rightarrow> Ret h
      | Some fblock \<Rightarrow>
          bindR (checkFilteredBlockRegistrations en ed fblock sourceURL h)
            (foldR (publishTx en ed (Number fblock) sourceURL) (FilteredTransactions fblock)))"

definition HandleBlock :: "env \<Rightarrow> block \<Rightarrow> string \<Rightarrow> Dispatcher \<times> heap \<Rightarrow> (Dispatcher \<times> heap) run" where
  "HandleBlock en blk sourceURL = (\<lambda>(ed, h).
     (case updateLastBlockNum (HeaderNumber blk) ed of
        Inl e \<Rightarrow> Ret (ed, h)
      | Inr ed1 \<Rightarrow>
          if updateLastBlockInfoOnly ed1 then Ret (ed1\<lparr>updateLastBlockInfoOnly := False\<rparr>, h)
          else bindR (publishBlockEvents en ed1 blk sourceURL h) (\<lambda>h1.
                 case toFilteredBlock (pbs en) blk of
                   Inl (Panic p) \<Rightarrow> GoPanic p
                 | Inl (Err e) \<Rightarrow> Ret (ed1, h1)
                 | Inr fb \<Rightarrow> bindR (publishFilteredBlockEvents en ed1 (Some fb) sourceURL h1) (\<lambda>h2. Ret (ed1, h2)))))"

definition HandleFilteredBlock ::
  "env \<Rightarrow> FilteredBlock \<Rightarrow> string \<Rightarrow> Dispatcher \<times> heap \<Rightarrow> (Dispatcher \<times> heap) run" where
  "HandleFilteredBlock en fblock sourceURL = (\<lambda>(ed, h).
     (case updateLastBlockNum (Number fblock) ed of
        Inl e \<Rightarrow> Ret (ed, h)
      | Inr ed1 \<Rightarrow>
          if updateLastBlockInfoOnly ed1 then Ret (ed1\<lparr>updateLastBlockInfoOnly := False\<rparr>, h)
          else bindR (publishFilteredBlockEvents en ed1 (Some fblock) sourceURL h) (\<lambda>h1. Ret (ed1, h1))))"

section \<open>Handlers and the dispatch loop\<close>

datatype dispatcherEvent =
    RegisterBlockEvent registration
  | RegisterFilteredBlockEvent registration
  | RegisterChaincodeEvent registration
  | RegisterTxStatusEvent registration
  | UnregisterEvent "registration option"
  | StopEvent
  | TransferEvent
  | StopAndTransferEvent
  | RegistrationInfoEvent
  | BlockReceived block string
  | FilteredBlockReceived FilteredBlock string
  | UnknownEvent

record RegistrationInfo =
  TotalRegistrations :: nat
  NumBlockRegistrations :: nat
  NumFilteredBlockRegistrations :: nat
  NumCCRegistrations :: nat
  NumTxStatusRegistrations :: nat

text \<open>What a handler sends to the response channels of its event; their receivers wait for it.\<close>

datatype reply =
    RegReply registration
  | ErrReply "error option"
  | SnapshotReply snapshot
  | InfoReply RegistrationInfo

type_synonym dispatched = "((Dispatcher \<times> heap) \<times> reply list) run"

definition HandleStopEvent :: "env \<Rightarrow> Dispatcher \<times> heap \<Rightarrow> dispatched" where
  "HandleStopEvent en = (\<lambda>(ed, h).
     (case setState dispatcherStateStarted dispatcherStateStopped ed of
        (False, ed1) \<Rightarrow> Ret ((ed1, h), [ErrReply (Some (ErrNew ''dispatcher already stopped''))])
      | (True, ed1) \<Rightarrow> bindR (clearRegistrations en True (ed1, h)) (\<lambda>s. Ret (s, [ErrReply None]))))"

definition HandleTransferEvent :: "env \<Rightarrow> Dispatcher \<times> heap \<Rightarrow> dispatched" where
  "HandleTransferEvent en s =
     bindR (clearRegistrations en False s) (\<lambda>s1. Ret (s1, [SnapshotReply (newSnapshot en s)]))"

definition HandleStopAndTransferEvent :: "env \<Rightarrow> Dispatcher \<times> heap \<Rightarrow> dispatched" where
  "HandleStopAndTransferEvent en = (\<lambda>(ed, h).
     (case setState dispatcherStateStarted dispatcherStateStopped ed of
        (False, ed1) \<Rightarrow> Ret ((ed1, h), [ErrReply (Some (ErrNew ''dispatcher already stopped''))])
      | (True, ed1) \<Rightarrow> bindR (clearRegistrations en False (ed1, h))
          (\<lambda>s. Ret (s, [SnapshotReply (newSnapshot en (ed1, h))]))))"

definition handleRegisterBlockEvent :: "registration \<Rightarrow> Dispatcher \<times> heap \<Rightarrow> dispatched" where
  "handleRegisterBlockEvent reg = (\<lambda>(ed, h). Ret ((registerBlockEvent reg ed, h), [RegReply reg]))"

definition handleRegisterFilteredBlockEvent :: "registration \<Rightarrow> Dispatcher \<times> heap \<Rightarrow> dispatched" where
  "handleRegisterFilteredBlockEvent reg = (\<lambda>(ed, h). Ret ((registerFilteredBlockEvent reg ed, h), [RegReply reg]))"

definition handleRegisterCCEvent :: "env \<Rightarrow> registration \<Rightarrow> Dispatcher \<times> heap \<Rightarrow> dispatched" where
  "handleRegisterCCEvent en reg = (\<lambda>(ed, h).
     (case compileRegexp en (EventFilter reg) of
        Inl e \<Rightarrow> Ret ((ed, h), [ErrReply (Some (Wrap (''error compiling regular expression for event filter ['' @
                   EventFilter reg @ '']'') e))])
      | Inr regExp \<Rightarrow>
          (let reg1 = ChaincodeReg (regRef reg) (ChaincodeID reg) (EventFilter reg) (Some regExp) (Eventch reg) in
           case registerCCEvent reg1 ed of
             (Some e, ed1) \<Rightarrow> Ret ((ed1, h), [ErrReply (Some e)])
           | (None, ed1) \<Rightarrow> Ret ((ed1, h), [RegReply reg1]))))"

definition handleRegisterTxStatusEvent :: "registration \<Rightarrow> Dispatcher \<times> heap \<Rightarrow> dispatched" where
  "handleRegisterTxStatusEvent reg = (\<lambda>(ed, h).
     (case registerTxStatusEvent reg ed of
        (Some e, ed1) \<Rightarrow> Ret ((ed1, h), [ErrReply (Some e)])
      | (None, ed1) \<Rightarrow> Ret ((ed1, h), [RegReply reg])))"

text \<open>\<open>handleUnregisterEvent\<close> only logs an error; \<open>None\<close> is a registration of any other type.\<close>

definition handleUnregisterEvent :: "registration option \<Rightarrow> Dispatcher \<times> heap \<Rightarrow> dispatched" where
  "handleUnregisterEvent reg s =
     (case reg of
        None \<Rightarrow> Ret (s, [])
      | Some registration \<Rightarrow>
          bindR ((case registration of
                    BlockReg _ _ _ \<Rightarrow> unregisterBlockEvents registration
                  | FilteredBlockReg _ _ \<Rightarrow> unregisterFilteredBlockEvents registration
                  | ChaincodeReg _ _ _ _ _ \<Rightarrow> unregisterCCEvents registration
                  | TxStatusReg _ _ _ \<Rightarrow> unregisterTXEvents registration) s)
            (\<lambda>(err, s1). Ret (s1, [])))"

definition handleRegistrationInfoEvent :: "Dispatcher \<times> heap \<Rightarrow> dispatched" where
  "handleRegistrationInfoEvent = (\<lambda>(ed, h).
     (let b = length (blockRegistrations ed); f = length (filteredBlockRegistrations ed);
          c = length (ccRegistrations ed); t = length (txRegistrations ed)
      in Ret ((ed, h), [InfoReply \<lparr>TotalRegistrations = b + f + c + t, NumBlockRegistrations = b,
           NumFilteredBlockRegistrations = f, NumCCRegistrations = c, NumTxStatusRegistrations = t\<rparr>])))"

definition handleBlockEvent :: "env \<Rightarrow> block \<Rightarrow> string \<Rightarrow> Dispatcher \<times> heap \<Rightarrow> dispatched" where
  "handleBlockEvent en blk sourceURL s = bindR (HandleBlock en blk sourceURL s) (\<lambda>s1. Ret (s1, []))"

definition handleFilteredBlockEvent :: "env \<Rightarrow> FilteredBlock \<Rightarrow> string \<Rightarrow> Dispatcher \<times> heap \<Rightarrow> dispatched" where
  "handleFilteredBlockEvent en fblock sourceURL s = bindR (HandleFilteredBlock en fblock sourceURL s) (\<lambda>s1. Ret (s1, []))"

text \<open>The handler table of \<open>RegisterHandlers\<close>; an event without handler is logged and dropped.\<close>

fun dispatch :: "env \<Rightarrow> dispatcherEvent \<Rightarrow> Dispatcher \<times> heap \<Rightarrow> dispatched" where
  "dispatch en (RegisterBlockEvent reg) s = handleRegisterBlockEvent reg s"
| "dispatch en (RegisterFilteredBlockEvent reg) s = handleRegisterFilteredBlockEvent reg s"
| "dispatch en (RegisterChaincodeEvent reg) s = handleRegisterCCEvent en reg s"
| "dispatch en (RegisterTxStatusEvent reg) s = handleRegisterTxStatusEvent reg s"
| "dispatch en (UnregisterEvent reg) s = handleUnregisterEvent reg s"
| "dispatch en StopEvent s = HandleStopEvent en s"
| "dispatch en TransferEvent s = HandleTransferEvent en s"
| "dispatch en StopAndTransferEvent s = HandleStopAndTransferEvent en s"
| "dispatch en RegistrationInfoEvent s = handleRegistrationInfoEvent s"
| "dispatch en (BlockReceived blk url) s = handleBlockEvent en blk url s"
| "dispatch en (FilteredBlockReceived fb url) s = handleFilteredBlockEvent en fb url s"
| "dispatch en UnknownEvent s = Ret (s, [])"

fun process :: "env \<Rightarrow> dispatcherEvent list \<Rightarrow> Dispatcher \<times> heap \<Rightarrow> dispatched" where
  "process en [] s = Ret (s, [])"
| "process en (e # es) s =
     (if dstate (fst s) = dispatcherStateStopped then Ret (s, [])
      else bindR (dispatch en e s) (\<lambda>(s1, r). bindR (process en es s1) (\<lambda>(s2, rs). Ret (s2, r @ rs))))"

section \<open>Reasoning about runs\<close>

text \<open>\<open>okR P r\<close>: the run does not panic and ends, if it ends, with \<open>P\<close>. Only a send without deadline to a
  channel nobody reads can leave it without end; \<open>retR P r\<close> excludes that as well.\<close>

definition okR :: "('a \<Rightarrow> bool) \<Rightarrow> 'a run \<Rightarrow> bool" where
  "okR P r = (case r of Ret a \<Rightarrow> P a | GoPanic p \<Rightarrow> False | Blocked \<Rightarrow> True)"

definition retR :: "('a \<Rightarrow> bool) \<Rightarrow> 'a run \<Rightarrow> bool" where
  "retR P r = (case r of Ret a \<Rightarrow> P a | _ \<Rightarrow> False)"

lemma okR_simps [simp]: "okR P (Ret a) = P a" "okR P (GoPanic p) = False" "okR P Blocked"
  by (simp_all add: okR_def)

lemma retR_simps [simp]: "retR P (Ret a) = P a" "retR P (GoPanic p) = False" "retR P Blocked = False"
  by (simp_all add: retR_def)

lemma retR_iff: "retR P r \<longleftrightarrow> (\<exists>a. r = Ret a \<and> P a)"
  by (cases r) simp_all

lemma okR_mono: "okR P r \<Longrightarrow> (\<And>a. P a \<Longrightarrow> Q a) \<Longrightarrow> okR Q r"
  by (cases r) simp_all

lemma retR_mono: "retR P r \<Longrightarrow> (\<And>a. P a \<Longrightarrow> Q a) \<Longrightarrow> retR Q r"
  by (cases r) simp_all

lemma okR_bind: "okR Q r \<Longrightarrow> (\<And>a. Q a \<Longrightarrow> okR P (f a)) \<Longrightarrow> okR P (bindR r f)"
  by (cases r) simp_all

lemma retR_bind: "retR Q r \<Longrightarrow> (\<And>a. Q a \<Longrightarrow> retR P (f a)) \<Longrightarrow> retR P (bindR r f)"
  by (cases r) simp_all

lemma okR_foldR:
  assumes "I s" and "\<And>x s. x \<in> set xs \<Longrightarrow> I s \<Longrightarrow> okR I (f x s)"
  shows "okR I (foldR f xs s)"
  using assms
proof (induction xs arbitrary: s)
  case (Cons x xs)
  show ?case unfolding foldR.simps by (rule okR_bind [of I]) (use Cons in auto)
qed simp

text \<open>\<open>grows J h h'\<close>: the channels keep capacity and state and their logs grow by events that \<open>J\<close> allows.\<close>

definition grows :: "(nat \<Rightarrow> clientEvent \<Rightarrow> bool) \<Rightarrow> heap \<Rightarrow> heap \<Rightarrow> bool" where
  "grows J h h' \<longleftrightarrow> (\<forall>c. cap (chans h' c) = cap (chans h c) \<and> isClosed (chans h' c) = isClosed (chans h c) \<and>
     (\<exists>es. sent (chans h' c) = sent (chans h c) @ es \<and> (\<forall>e \<in> set es. J c e)))"

lemma grows_refl [simp]: "grows J h h"
  by (simp add: grows_def)

lemma grows_trans:
  assumes "grows J h h1" "grows J h1 h2"
  shows "grows J h h2"
  unfolding grows_def
proof (intro allI conjI)
  fix c
  obtain es fs where "sent (chans h1 c) = sent (chans h c) @ es" "\<forall>e \<in> set es. J c e"
    "sent (chans h2 c) = sent (chans h1 c) @ fs" "\<forall>e \<in> set fs. J c e"
    using assms unfolding grows_def by metis
  then show "\<exists>es. sent (chans h2 c) = sent (chans h c) @ es \<and> (\<forall>e \<in> set es. J c e)"
    by (intro exI [of _ "es @ fs"]) auto
qed (use assms in \<open>simp_all add: grows_def\<close>)

lemma grows_mono: "grows J h h1 \<Longrightarrow> (\<And>c e. J c e \<Longrightarrow> K c e) \<Longrightarrow> grows K h h1"
  unfolding grows_def by blast

lemma grows_isClosed: "grows J h h1 \<Longrightarrow> isClosed (chans h1 c) = isClosed (chans h c)"
  by (simp add: grows_def)

lemma send_grows: "\<not> isClosed (chans h c) \<Longrightarrow> J c e \<Longrightarrow> okR (grows J h) (send en t c e h)"
  by (auto simp: send_def Let_def grows_def)

lemma okR_grows_bind:
  assumes "okR (grows J h) r" "\<And>h1. grows J h h1 \<Longrightarrow> okR (grows J h1) (f h1)"
  shows "okR (grows J h) (bindR r f)"
proof (rule okR_bind [OF assms(1)])
  fix h1 assume g: "grows J h h1"
  show "okR (grows J h) (f h1)" by (rule okR_mono [OF assms(2) [OF g]]) (rule grows_trans [OF g])
qed

text \<open>A loop of sends, each allowed and to an open channel.\<close>

lemma foldR_grows:
  assumes "\<And>x h1. x \<in> set xs \<Longrightarrow> grows J h h1 \<Longrightarrow> okR (grows J h1) (f x h1)"
  shows "okR (grows J h) (foldR f xs h)"
proof (rule okR_foldR)
  fix x h1 assume x: "x \<in> set xs" and g: "grows J h h1"
  show "okR (grows J h) (f x h1)" by (rule okR_mono [OF assms [OF x g]]) (rule grows_trans [OF g])
qed simp

lemma set_go_range [simp]: "set (go_range en h xs) = set xs"
proof -
  have "mset (go_range en h xs) = mset xs"
    unfolding go_range_def by (rule mset_map_nth_perm [OF mset_shuffle])
  then show ?thesis by (rule mset_eq_setD)
qed

lemma mset_go_range: "mset (go_range en h xs) = mset xs"
  unfolding go_range_def by (rule mset_map_nth_perm [OF mset_shuffle])

section \<open>What is published\<close>

text \<open>
  The events that a filtered block entitles a channel to: the block itself for a filtered-block registration, the
  status of a transaction for the registration of its identifier, and a chaincode event of a valid
  transaction for a registration of that chaincode whose filter matches the name of the event.
\<close>

definition tx_entitled ::
  "env \<Rightarrow> Dispatcher \<Rightarrow> FilteredBlock \<Rightarrow> string \<Rightarrow> nat \<Rightarrow> clientEvent \<Rightarrow> bool" where
  "tx_entitled en ed fb url c e \<longleftrightarrow>
     (\<exists>tx \<in> set (FilteredTransactions fb). e = TxStatusEvent (Txid tx) (TxValidationCode tx) (Number fb) url \<and>
        (\<exists>reg. map_of (txRegistrations ed) (Txid tx) = Some reg \<and> Eventch reg = c)) \<or>
     (\<exists>tx \<in> set (FilteredTransactions fb). \<exists>actions ev. TxValidationCode tx = VALID (pbs en) \<and>
        Data tx = Some actions \<and> Some ev \<in> set actions \<and>
        e = CCEvent (ChaincodeId ev) (EventName ev) (TxId ev) (ChaincodeEvent.Payload ev) (Number fb) url \<and>
        (\<exists>reg m. reg \<in> snd ` set (ccRegistrations ed) \<and> Eventch reg = c \<and>
           ChaincodeID reg = ChaincodeId ev \<and> EventRegExp reg = Some m \<and> m (EventName ev)))"

definition entitled ::
  "env \<Rightarrow> Dispatcher \<Rightarrow> FilteredBlock \<Rightarrow> string \<Rightarrow> nat \<Rightarrow> clientEvent \<Rightarrow> bool" where
  "entitled en ed fb url c e \<longleftrightarrow>
     (e = FilteredBlockEvent fb url \<and> (\<exists>reg \<in> set (filteredBlockRegistrations ed). Eventch reg = c)) \<or>
     tx_entitled en ed fb url c e"

definition regs :: "Dispatcher \<Rightarrow> registration list" where
  "regs ed = blockRegistrations ed @ filteredBlockRegistrations ed @
     map snd (txRegistrations ed) @ map snd (ccRegistrations ed)"

definition all_open :: "registration list \<Rightarrow> heap \<Rightarrow> bool" where
  "all_open rs h \<longleftrightarrow> (\<forall>reg \<in> set rs. \<not> isClosed (chans h (Eventch reg)))"

lemma all_open_grows: "grows J h h1 \<Longrightarrow> all_open rs h1 = all_open rs h"
  by (simp add: all_open_def grows_isClosed)

lemma entitled_status:
  "tx \<in> set (FilteredTransactions fb) \<Longrightarrow> map_of (txRegistrations ed) (Txid tx) = Some reg \<Longrightarrow>
   tx_entitled en ed fb url (Eventch reg) (TxStatusEvent (Txid tx) (TxValidationCode tx) (Number fb) url)"
  unfolding tx_entitled_def by blast

lemma entitled_cc:
  "tx \<in> set (FilteredTransactions fb) \<Longrightarrow> TxValidationCode tx = VALID (pbs en) \<Longrightarrow> Data tx = Some actions \<Longrightarrow>
   Some ev \<in> set actions \<Longrightarrow> reg \<in> snd ` set (ccRegistrations ed) \<Longrightarrow> ChaincodeID reg = ChaincodeId ev \<Longrightarrow>
   EventRegExp reg = Some m \<Longrightarrow> m (EventName ev) \<Longrightarrow>
   tx_entitled en ed fb url (Eventch reg)
     (CCEvent (ChaincodeId ev) (EventName ev) (TxId ev) (ChaincodeEvent.Payload ev) (Number fb) url)"
  unfolding tx_entitled_def by blast

lemma publishTxStatusEvents_grows:
  assumes "all_open (regs ed) h" "tx \<in> set (FilteredTransactions fb)"
  shows "okR (grows (tx_entitled en ed fb url) h) (publishTxStatusEvents en ed tx (Number fb) url h)"
proof (cases "map_of (txRegistrations ed) (Txid tx)")
  case (Some reg)
  then have "reg \<in> set (regs ed)" by (force simp: regs_def dest: map_of_SomeD)
  then have "\<not> isClosed (chans h (Eventch reg))" using assms(1) by (simp add: all_open_def)
  then show ?thesis using Some assms(2)
    by (auto simp: publishTxStatusEvents_def intro!: send_grows entitled_status)
qed (simp add: publishTxStatusEvents_def)

lemma publishCCEvents_grows:
  assumes "all_open (regs ed) h" "\<forall>reg \<in> snd ` set (ccRegistrations ed). EventRegExp reg \<noteq> None"
    and tx: "tx \<in> set (FilteredTransactions fb)" "TxValidationCode tx = VALID (pbs en)" "Data tx = Some actions"
      "Some ev \<in> set actions"
  shows "okR (grows (tx_entitled en ed fb url) h) (publishCCEvents en ed ev (Number fb) url h)"
  unfolding publishCCEvents_def
proof (rule foldR_grows)
  fix reg h1 assume reg: "reg \<in> set (map snd (go_range en h (ccRegistrations ed)))" and g: "grows (tx_entitled en ed fb url) h h1"
  from reg have r: "reg \<in> snd ` set (ccRegistrations ed)" by simp
  then have "reg \<in> set (regs ed)" by (auto simp: regs_def)
  then have o1: "\<not> isClosed (chans h1 (Eventch reg))"
    using assms(1) grows_isClosed [OF g] by (simp add: all_open_def)
  obtain m where m: "EventRegExp reg = Some m" using assms(2) r by blast
  show "okR (grows (tx_entitled en ed fb url) h1) (publishCCEvent_to en ed ev (Number fb) url reg h1)"
    using send_grows [of h1 "Eventch reg" "tx_entitled en ed fb url", OF o1 entitled_cc [OF tx r _ m]] m
    by (simp add: publishCCEvent_to_def)
qed

lemma publishTx_grows:
  assumes "all_open (regs ed) h" "\<forall>reg \<in> snd ` set (ccRegistrations ed). EventRegExp reg \<noteq> None"
    and tx: "tx \<in> set (FilteredTransactions fb)"
  shows "okR (grows (tx_entitled en ed fb url) h) (publishTx en ed (Number fb) url tx h)"
  unfolding publishTx_def
proof (rule okR_grows_bind [OF publishTxStatusEvents_grows [OF assms(1) tx]])
  let ?J = "tx_entitled en ed fb url"
  fix h1 assume g1: "grows ?J h h1"
  have "okR (grows ?J h1) (foldR (\<lambda>act. case act of None \<Rightarrow> Ret | Some ccEvent \<Rightarrow> publishCCEvents en ed ccEvent (Number fb) url) actions h1)"
    if "TxValidationCode tx = VALID (pbs en)" "Data tx = Some actions" for actions
  proof (rule foldR_grows)
    fix act h2 assume act: "act \<in> set actions" and g2: "grows ?J h1 h2"
    have "all_open (regs ed) h2" using assms(1) all_open_grows g1 g2 by blast
    from publishCCEvents_grows [OF this assms(2) tx that]
    show "okR (grows ?J h2) ((case act of None \<Rightarrow> Ret | Some ccEvent \<Rightarrow> publishCCEvents en ed ccEvent (Number fb) url) h2)"
      using act by (auto split: option.split)
  qed
  then show "okR (grows ?J h1)
     (if TxValidationCode tx = VALID (pbs en)
      then case Data tx of None \<Rightarrow> Ret h1
           | Some actions \<Rightarrow> foldR (\<lambda>act. case act of None \<Rightarrow> Ret | Some ccEvent \<Rightarrow> publishCCEvents en ed ccEvent (Number fb) url) actions h1
      else Ret h1)"
    by (auto split: option.split)
qed

lemma publishTxs_grows:
  assumes "all_open (regs ed) h" "\<forall>reg \<in> snd ` set (ccRegistrations ed). EventRegExp reg \<noteq> None"
  shows "okR (grows (tx_entitled en ed fb url) h) (foldR (publishTx en ed (Number fb) url) (FilteredTransactions fb) h)"
proof (rule foldR_grows)
  fix tx h1 assume tx: "tx \<in> set (FilteredTransactions fb)" and "grows (tx_entitled en ed fb url) h h1"
  then have "all_open (regs ed) h1" using assms(1) all_open_grows by blast
  then show "okR (grows (tx_entitled en ed fb url) h1) (publishTx en ed (Number fb) url tx h1)"
    using assms(2) tx by (rule publishTx_grows)
qed

lemma publishFilteredBlockEvents_grows:
  assumes "all_open (regs ed) h" "\<forall>reg \<in> snd ` set (ccRegistrations ed). EventRegExp reg \<noteq> None"
  shows "okR (grows (entitled en ed fb url) h) (publishFilteredBlockEvents en ed (Some fb) url h)"
proof -
  let ?J = "entitled en ed fb url"
  have "okR (grows ?J h) (checkFilteredBlockRegistrations en ed fb url h)"
    unfolding checkFilteredBlockRegistrations_def
  proof (rule foldR_grows)
    fix reg h1 assume reg: "reg \<in> set (filteredBlockRegistrations ed)" and g: "grows ?J h h1"
    then have "\<not> isClosed (chans h1 (Eventch reg))"
      using assms(1) all_open_grows [OF g, of "regs ed"] by (auto simp: all_open_def regs_def)
    then show "okR (grows ?J h1) (send en (eventConsumerTimeout (prm ed)) (Eventch reg) (FilteredBlockEvent fb url) h1)"
      using reg by (intro send_grows) (auto simp: entitled_def)
  qed
  moreover have "okR (grows ?J h1) (foldR (publishTx en ed (Number fb) url) (FilteredTransactions fb) h1)"
    if g: "grows ?J h h1" for h1
    using publishTxs_grows [of ed h1 en fb url] assms all_open_grows [OF g]
    by (auto elim!: okR_mono grows_mono simp: entitled_def)
  ultimately show ?thesis
    unfolding publishFilteredBlockEvents_def by (simp add: okR_grows_bind)
qed

section \<open>One event per registration\<close>

definition has_room :: "env \<Rightarrow> int \<Rightarrow> heap \<Rightarrow> nat \<Rightarrow> bool" where
  "has_room en t h c \<longleftrightarrow> (\<forall>k. length (sent (chans h c)) < cap (chans h c) +
     (if t < 0 then recvsAtSend en k c else recvsAtDeadline en k c))"

text \<open>The sends of one event to distinct channels: each selected one gets it at most once, and exactly once
  when it has room; the others are left alone.\<close>

definition sent_once :: "env \<Rightarrow> int \<Rightarrow> clientEvent \<Rightarrow> nat set \<Rightarrow> heap \<Rightarrow> heap \<Rightarrow> bool" where
  "sent_once en t e C h h' \<longleftrightarrow> (\<forall>c. (c \<notin> C \<longrightarrow> chans h' c = chans h c) \<and>
     (c \<in> C \<longrightarrow> chans h' c = (chans h c)\<lparr>sent := sent (chans h c) @ [e]\<rparr> \<or>
        chans h' c = chans h c \<and> \<not> has_room en t h c))"

lemma sends_once:
  assumes "distinct (map Eventch rs)" "all_open rs h"
  shows "okR (sent_once en t e (Eventch ` {reg \<in> set rs. P reg}) h)
    (foldR (\<lambda>reg h. if P reg then send en t (Eventch reg) e h else Ret h) rs h)"
  using assms
proof (induction rs arbitrary: h)
  case (Cons reg rs)
  let ?f = "\<lambda>reg h. if P reg then send en t (Eventch reg) e h else Ret h"
  have rest: "distinct (map Eventch rs)" "Eventch reg \<notin> Eventch ` set rs" using Cons.prems by auto
  have "okR (sent_once en t e (Eventch ` ({reg} \<inter> {reg. P reg})) h) (?f reg h)"
    using Cons.prems(2) by (auto simp: sent_once_def all_open_def send_def Let_def has_room_def)
  then show ?case unfolding foldR.simps
  proof (rule okR_bind)
    fix h1 assume h1: "sent_once en t e (Eventch ` ({reg} \<inter> {reg. P reg})) h h1"
    then have keep: "c \<noteq> Eventch reg \<Longrightarrow> chans h1 c = chans h c" for c by (auto simp: sent_once_def)
    have "all_open rs h1" unfolding all_open_def
    proof
      fix x assume x: "x \<in> set rs"
      then have "Eventch x \<noteq> Eventch reg" using rest(2) by (metis imageI)
      then show "\<not> isClosed (chans h1 (Eventch x))" using keep x Cons.prems(2) by (auto simp: all_open_def)
    qed
    from Cons.IH [OF rest(1) this]
    show "okR (sent_once en t e (Eventch ` {x \<in> set (reg # rs). P x}) h) (foldR ?f rs h1)"
    proof (rule okR_mono)
      fix h2 assume h2: "sent_once en t e (Eventch ` {x \<in> set rs. P x}) h1 h2"
      show "sent_once en t e (Eventch ` {x \<in> set (reg # rs). P x}) h h2"
        unfolding sent_once_def
      proof
        fix c
        show "(c \<notin> Eventch ` {x \<in> set (reg # rs). P x} \<longrightarrow> chans h2 c = chans h c) \<and>
          (c \<in> Eventch ` {x \<in> set (reg # rs). P x} \<longrightarrow> chans h2 c = (chans h c)\<lparr>sent := sent (chans h c) @ [e]\<rparr> \<or>
             chans h2 c = chans h c \<and> \<not> has_room en t h c)"
        proof (cases "c = Eventch reg")
          case True
          then have "c \<notin> Eventch ` {x \<in> set rs. P x}" using rest(2) by auto
          then have "chans h2 c = chans h1 c" using h2 by (simp add: sent_once_def)
          then show ?thesis using h1 True rest(2) by (auto simp: sent_once_def)
        next
          case False
          then have "c \<in> Eventch ` {x \<in> set (reg # rs). P x} \<longleftrightarrow> c \<in> Eventch ` {x \<in> set rs. P x}" by auto
          moreover have "has_room en t h1 c = has_room en t h c" by (simp add: has_room_def keep [OF False])
          ultimately show ?thesis using h2 keep [OF False] unfolding sent_once_def by metis
        qed
      qed
    qed
  qed
qed (simp add: sent_once_def)

lemma publishBlockEvents_once:
  assumes "distinct (map Eventch (regs ed))" "all_open (regs ed) h"
  shows "okR (sent_once en (eventConsumerTimeout (prm ed)) (BlockEvent blk url)
      (Eventch ` {reg \<in> set (blockRegistrations ed). BFilter reg blk}) h)
    (publishBlockEvents en ed blk url h)"
proof -
  have "distinct (map Eventch (blockRegistrations ed))" "all_open (blockRegistrations ed) h"
    using assms by (auto simp: regs_def all_open_def)
  from sends_once [OF this, of en "eventConsumerTimeout (prm ed)" "BlockEvent blk url" "\<lambda>reg. BFilter reg blk"]
  have "okR (sent_once en (eventConsumerTimeout (prm ed)) (BlockEvent blk url)
      (Eventch ` {reg \<in> set (blockRegistrations ed). BFilter reg blk}) h)
    (foldR (\<lambda>reg h. if BFilter reg blk
       then send en (eventConsumerTimeout (prm ed)) (Eventch reg) (BlockEvent blk url) h else Ret h)
       (blockRegistrations ed) h)" .
  moreover have "(\<lambda>reg h. if \<not> BFilter reg blk then Ret h
      else send en (eventConsumerTimeout (prm ed)) (Eventch reg) (BlockEvent blk url) h) =
    (\<lambda>reg h. if BFilter reg blk
       then send en (eventConsumerTimeout (prm ed)) (Eventch reg) (BlockEvent blk url) h else Ret h)"
    by (auto simp: fun_eq_iff)
  ultimately show ?thesis unfolding publishBlockEvents_def by simp
qed

lemma checkFiltered_once:
  assumes "distinct (map Eventch (regs ed))" "all_open (regs ed) h"
  shows "okR (sent_once en (eventConsumerTimeout (prm ed)) (FilteredBlockEvent fb url)
      (Eventch ` set (filteredBlockRegistrations ed)) h) (checkFilteredBlockRegistrations en ed fb url h)"
proof -
  have "distinct (map Eventch (filteredBlockRegistrations ed))" "all_open (filteredBlockRegistrations ed) h"
    using assms by (auto simp: regs_def all_open_def)
  from sends_once [OF this, of en "eventConsumerTimeout (prm ed)" "FilteredBlockEvent fb url" "\<lambda>_. True"]
  show ?thesis by (simp add: checkFilteredBlockRegistrations_def)
qed

lemma sent_once_grows:
  "sent_once en t e C h h1 \<Longrightarrow> (\<And>c. c \<in> C \<Longrightarrow> J c e) \<Longrightarrow> grows J h h1"
  unfolding sent_once_def grows_def
proof (intro allI conjI)
  fix c assume o: "\<forall>c. (c \<notin> C \<longrightarrow> chans h1 c = chans h c) \<and>
     (c \<in> C \<longrightarrow> chans h1 c = (chans h c)\<lparr>sent := sent (chans h c) @ [e]\<rparr> \<or>
        chans h1 c = chans h c \<and> \<not> has_room en t h c)" and J: "\<And>c. c \<in> C \<Longrightarrow> J c e"
  show "cap (chans h1 c) = cap (chans h c)" "isClosed (chans h1 c) = isClosed (chans h c)"
    using o [rule_format, of c] by (cases "c \<in> C"; force)+
  show "\<exists>es. sent (chans h1 c) = sent (chans h c) @ es \<and> (\<forall>e \<in> set es. J c e)"
    using o [rule_format, of c] J [of c] by (cases "c \<in> C") (auto intro: exI [of _ "[e]"])
qed

section \<open>The invariant of the dispatcher\<close>

text \<open>
  Registrations sit in the collection of their type, the maps are keyed by what the registrations say, every
  chaincode registration has its compiled filter, and every registration owns an open channel of its own.
\<close>

definition well_keyed :: "Dispatcher \<Rightarrow> bool" where
  "well_keyed ed \<longleftrightarrow>
     list_all is_BlockReg (blockRegistrations ed) \<and> list_all is_FilteredBlockReg (filteredBlockRegistrations ed) \<and>
     list_all (\<lambda>(k, reg). is_TxStatusReg reg \<and> k = TxID reg) (txRegistrations ed) \<and>
     list_all (\<lambda>(k, reg). is_ChaincodeReg reg \<and> k = getCCKey (ChaincodeID reg) (EventFilter reg) \<and>
        EventRegExp reg \<noteq> None) (ccRegistrations ed) \<and>
     distinct (map fst (txRegistrations ed)) \<and> distinct (map fst (ccRegistrations ed))"

definition own_channels :: "nat list \<Rightarrow> Dispatcher \<times> heap \<Rightarrow> bool" where
  "own_channels cs = (\<lambda>(ed, h). distinct (cs @ map Eventch (regs ed)) \<and>
     (\<forall>c \<in> set cs \<union> Eventch ` set (regs ed). \<not> isClosed (chans h c)))"

definition disp_inv :: "nat list \<Rightarrow> Dispatcher \<times> heap \<Rightarrow> bool" where
  "disp_inv cs s \<longleftrightarrow> well_keyed (fst s) \<and> own_channels cs s"

text \<open>The channel an event brings along, and the events the service submits: a registration of the type of
  the event; a block that converts without panic.\<close>

fun event_chan :: "dispatcherEvent \<Rightarrow> nat list" where
  "event_chan (RegisterBlockEvent reg) = [Eventch reg]"
| "event_chan (RegisterFilteredBlockEvent reg) = [Eventch reg]"
| "event_chan (RegisterChaincodeEvent reg) = [Eventch reg]"
| "event_chan (RegisterTxStatusEvent reg) = [Eventch reg]"
| "event_chan _ = []"

fun legal_event :: "protos \<Rightarrow> dispatcherEvent \<Rightarrow> bool" where
  "legal_event pb (RegisterBlockEvent reg) = is_BlockReg reg"
| "legal_event pb (RegisterFilteredBlockEvent reg) = is_FilteredBlockReg reg"
| "legal_event pb (RegisterChaincodeEvent reg) = is_ChaincodeReg reg"
| "legal_event pb (RegisterTxStatusEvent reg) = is_TxStatusReg reg"
| "legal_event pb (BlockReceived blk url) = (\<not> panics (toFilteredBlock pb blk))"
| "legal_event pb _ = True"

definition event_chans :: "dispatcherEvent list \<Rightarrow> nat list" where
  "event_chans es = concat (map event_chan es)"

lemma disp_inv_regs:
  assumes "disp_inv cs (ed, h)"
  shows "all_open (regs ed) h" "distinct (map Eventch (regs ed))"
    "\<forall>reg \<in> snd ` set (ccRegistrations ed). EventRegExp reg \<noteq> None"
  using assms by (auto simp: disp_inv_def own_channels_def all_open_def well_keyed_def list_all_iff)

lemma disp_inv_grows:
  assumes "disp_inv cs (ed, h)" "grows J h h1" "regs ed1 = regs ed" "well_keyed ed1 = well_keyed ed"
  shows "disp_inv cs (ed1, h1)"
  using assms by (simp add: disp_inv_def own_channels_def grows_isClosed)

lemma disp_inv_weaken:
  assumes "disp_inv (cs' @ cs) s"
  shows "disp_inv cs s"
  using assms by (cases s) (auto simp: disp_inv_def own_channels_def)

lemma updateLastBlockNum_keeps:
  assumes "updateLastBlockNum n ed = Inr ed1"
  shows "ed1 = ed\<lparr>lastBlockNum := n\<rparr>"
  using assms by (auto simp: updateLastBlockNum_def split: if_splits)

lemma regs_update [simp]:
  "regs (ed\<lparr>lastBlockNum := n\<rparr>) = regs ed" "regs (ed\<lparr>updateLastBlockInfoOnly := b\<rparr>) = regs ed"
  "regs (ed\<lparr>dstate := d\<rparr>) = regs ed"
  by (simp_all add: regs_def)

lemma well_keyed_update [simp]:
  "well_keyed (ed\<lparr>lastBlockNum := n\<rparr>) = well_keyed ed" "well_keyed (ed\<lparr>updateLastBlockInfoOnly := b\<rparr>) = well_keyed ed"
  "well_keyed (ed\<lparr>dstate := d\<rparr>) = well_keyed ed"
  by (simp_all add: well_keyed_def)

lemma publishFiltered_inv:
  assumes "disp_inv cs (ed, h)"
  shows "okR (\<lambda>h1. disp_inv cs (ed, h1)) (publishFilteredBlockEvents en ed (Some fb) url h)"
  by (rule okR_mono [OF publishFilteredBlockEvents_grows [OF disp_inv_regs(1,3) [OF assms]]])
    (rule disp_inv_grows [OF assms], simp_all)

lemma publishBlock_inv:
  assumes "disp_inv cs (ed, h)"
  shows "okR (\<lambda>h1. disp_inv cs (ed, h1)) (publishBlockEvents en ed blk url h)"
proof (rule okR_mono [OF publishBlockEvents_once [OF disp_inv_regs(2,1) [OF assms]]])
  fix h1 assume "sent_once en (eventConsumerTimeout (prm ed)) (BlockEvent blk url)
    (Eventch ` {reg \<in> set (blockRegistrations ed). BFilter reg blk}) h h1"
  then have "grows (\<lambda>_ _. True) h h1" by (rule sent_once_grows) simp
  then show "disp_inv cs (ed, h1)" by (rule disp_inv_grows [OF assms]) simp_all
qed

lemma HandleFilteredBlock_inv:
  assumes "disp_inv cs s"
  shows "okR (disp_inv cs) (HandleFilteredBlock en fb url s)"
proof -
  obtain ed h where s: "s = (ed, h)" by (cases s)
  show ?thesis
  proof (cases "updateLastBlockNum (Number fb) ed")
    case (Inr ed1)
    have ed1: "ed1 = ed\<lparr>lastBlockNum := Number fb\<rparr>" by (rule updateLastBlockNum_keeps [OF Inr])
    have i1: "disp_inv cs (ed1, h)" using assms s ed1 by (simp add: disp_inv_grows [of cs ed h])
    have i2: "disp_inv cs (ed1\<lparr>updateLastBlockInfoOnly := False\<rparr>, h)"
      by (rule disp_inv_grows [OF i1 grows_refl]) simp_all
    show ?thesis using Inr i2 by (simp add: HandleFilteredBlock_def s okR_bind [OF publishFiltered_inv [OF i1]])
  qed (use assms s in \<open>simp add: HandleFilteredBlock_def\<close>)
qed

lemma HandleBlock_inv:
  assumes "disp_inv cs s" "\<not> panics (toFilteredBlock (pbs en) blk)"
  shows "okR (disp_inv cs) (HandleBlock en blk url s)"
proof -
  obtain ed h where s: "s = (ed, h)" by (cases s)
  show ?thesis
  proof (cases "updateLastBlockNum (HeaderNumber blk) ed")
    case (Inr ed1)
    have ed1: "ed1 = ed\<lparr>lastBlockNum := HeaderNumber blk\<rparr>" by (rule updateLastBlockNum_keeps [OF Inr])
    have i1: "disp_inv cs (ed1, h)" using assms s ed1 by (simp add: disp_inv_grows [of cs ed h])
    have i2: "disp_inv cs (ed1\<lparr>updateLastBlockInfoOnly := False\<rparr>, h)"
      by (rule disp_inv_grows [OF i1 grows_refl]) simp_all
    have "okR (disp_inv cs) (case toFilteredBlock (pbs en) blk of Inl (Panic p) \<Rightarrow> GoPanic p | Inl (Err e) \<Rightarrow> Ret (ed1, h1)
        | Inr fb \<Rightarrow> bindR (publishFilteredBlockEvents en ed1 (Some fb) url h1) (\<lambda>h2. Ret (ed1, h2)))"
      if i: "disp_inv cs (ed1, h1)" for h1
      using i assms(2) by (cases rule: outcome_cases [of "toFilteredBlock (pbs en) blk"])
        (simp_all add: panics_def okR_bind [OF publishFiltered_inv [OF i]])
    then show ?thesis using Inr i2 by (simp add: HandleBlock_def s okR_bind [OF publishBlock_inv [OF i1]])
  qed (use assms s in \<open>simp add: HandleBlock_def\<close>)
qed

section \<open>Closing channels\<close>

definition close_in :: "nat set \<Rightarrow> heap \<Rightarrow> heap" where
  "close_in C h = h\<lparr>chans := (\<lambda>c. if c \<in> C then (chans h c)\<lparr>isClosed := True\<rparr> else chans h c)\<rparr>"

lemma close_in_empty [simp]: "close_in {} h = h"
  by (simp add: close_in_def)

lemma close_in_close_in [simp]: "close_in C (close_in D h) = close_in (C \<union> D) h"
  by (auto simp: close_in_def fun_eq_iff)

lemma close_chan_open: "\<not> isClosed (chans h c) \<Longrightarrow> close_chan c h = Ret (close_in {c} h)"
  by (auto simp: close_chan_def close_in_def fun_eq_iff intro: arg_cong)

lemma isClosed_close_in: "isClosed (chans (close_in C h) c) \<longleftrightarrow> c \<in> C \<or> isClosed (chans h c)"
  by (simp add: close_in_def)

lemma close_regs_open:
  assumes "distinct (map Eventch rs)" "all_open rs h"
  shows "close_regs rs h = Ret (close_in (Eventch ` set rs) h)"
  using assms
proof (induction rs arbitrary: h)
  case (Cons reg rs)
  have "all_open rs (close_in {Eventch reg} h)"
    using Cons.prems by (auto simp: all_open_def isClosed_close_in image_iff)
  then have "close_regs rs (close_in {Eventch reg} h) = Ret (close_in (Eventch ` set rs \<union> {Eventch reg}) h)"
    using Cons.IH Cons.prems(1) by simp
  moreover have "close_chan (Eventch reg) h = Ret (close_in {Eventch reg} h)"
    using Cons.prems(2) by (intro close_chan_open) (simp add: all_open_def)
  ultimately show ?case by (simp add: close_regs_def Un_commute)
qed (simp add: close_regs_def)

definition no_regs :: "Dispatcher \<Rightarrow> Dispatcher" where
  "no_regs ed = ed\<lparr>blockRegistrations := [], filteredBlockRegistrations := [], txRegistrations := [], ccRegistrations := []\<rparr>"

lemma clearRegistrations_False: "clearRegistrations en False (ed, h) = Ret (no_regs ed, h)"
  by (simp add: clearRegistrations_def clearBlockRegistrations_def clearFilteredBlockRegistrations_def
      clearTxRegistrations_def clearChaincodeRegistrations_def no_regs_def)

lemma close_range_open:
  assumes "distinct (map Eventch (map snd es))" "all_open (map snd es) h"
  shows "close_regs (map snd (go_range en h' es)) h = Ret (close_in (Eventch ` snd ` set es) h)"
proof -
  have m: "mset (map snd (go_range en h' es)) = mset (map snd es)"
    using mset_go_range [of en h' es] by simp
  then have "mset (map Eventch (map snd (go_range en h' es))) = mset (map Eventch (map snd es))"
    by (metis mset_map)
  then have "distinct (map Eventch (map snd (go_range en h' es)))"
    using assms(1) mset_eq_imp_distinct_iff by blast
  moreover have "all_open (map snd (go_range en h' es)) h" using assms(2) by (simp add: all_open_def)
  ultimately show ?thesis by (simp add: close_regs_open)
qed

lemma clearRegistrations_True:
  assumes "distinct (map Eventch (regs ed))" "all_open (regs ed) h"
  shows "clearRegistrations en True (ed, h) = Ret (no_regs ed, close_in (Eventch ` set (regs ed)) h)"
proof -
  define B F T C where "B = Eventch ` set (blockRegistrations ed)" and "F = Eventch ` set (filteredBlockRegistrations ed)"
    and "T = Eventch ` snd ` set (txRegistrations ed)" and "C = Eventch ` snd ` set (ccRegistrations ed)"
  note sets = B_def F_def T_def C_def
  have B: "close_regs (blockRegistrations ed) h = Ret (close_in B h)"
    using assms by (simp add: close_regs_open regs_def all_open_def sets)
  have "close_regs (filteredBlockRegistrations ed) (close_in B h) = Ret (close_in F (close_in B h))"
    unfolding sets using assms by (intro close_regs_open) (auto simp: regs_def all_open_def isClosed_close_in)
  then have F: "close_regs (filteredBlockRegistrations ed) (close_in B h) = Ret (close_in (F \<union> B) h)" by simp
  have "close_regs (map snd (go_range en (close_in (F \<union> B) h) (txRegistrations ed))) (close_in (F \<union> B) h) =
      Ret (close_in T (close_in (F \<union> B) h))"
    unfolding sets using assms by (intro close_range_open) (auto simp: regs_def all_open_def isClosed_close_in)
  then have T: "close_regs (map snd (go_range en (close_in (F \<union> B) h) (txRegistrations ed))) (close_in (F \<union> B) h) =
      Ret (close_in (T \<union> (F \<union> B)) h)" by simp
  have "close_regs (map snd (go_range en (close_in (T \<union> (F \<union> B)) h) (ccRegistrations ed))) (close_in (T \<union> (F \<union> B)) h) =
      Ret (close_in C (close_in (T \<union> (F \<union> B)) h))"
    unfolding sets using assms by (intro close_range_open) (auto simp: regs_def all_open_def isClosed_close_in)
  moreover have "Eventch ` set (regs ed) = C \<union> (T \<union> (F \<union> B))" by (auto simp: sets regs_def)
  ultimately show ?thesis
    by (simp add: clearRegistrations_def clearBlockRegistrations_def clearFilteredBlockRegistrations_def
      clearTxRegistrations_def clearChaincodeRegistrations_def no_regs_def B F T)
qed

section \<open>Removing a registration\<close>

lemma find_SomeD: "find P xs = Some x \<Longrightarrow> x \<in> set xs \<and> P x"
  by (induction xs) (auto split: if_splits)

lemma mset_overwrite_tl:
  assumes "i < length xs"
  shows "mset xs = add_mset (xs ! i) (mset (tl (xs[i := xs ! 0])))"
proof (cases xs)
  case (Cons a rest)
  show ?thesis
  proof (cases i)
    case (Suc j)
    then have "rest ! j \<in># mset rest" "j < length rest" using assms Cons by simp_all
    then show ?thesis using Suc Cons by (simp add: mset_update add_mset_commute)
  qed (use Cons in simp)
qed (use assms in simp)

lemma remove_reg_Some:
  assumes "remove_reg r rs = Some (reg, rs1)"
  shows "mset rs = add_mset reg (mset rs1)" "regRef reg = regRef r"
proof -
  obtain i where i: "find (\<lambda>i. regRef (rs ! i) = regRef r) [0..<length rs] = Some i" "reg = rs ! i"
    "rs1 = tl (rs[i := rs ! 0])"
    using assms by (auto simp: remove_reg_def split: option.splits)
  then have "i < length rs" "regRef (rs ! i) = regRef r" using find_SomeD [OF i(1)] by auto
  then show "mset rs = add_mset reg (mset rs1)" "regRef reg = regRef r"
    using mset_overwrite_tl i by auto
qed

lemma remove_reg_None: "remove_reg r rs = None \<longleftrightarrow> (\<forall>reg \<in> set rs. regRef reg \<noteq> regRef r)"
proof -
  have "remove_reg r rs = None \<longleftrightarrow> find (\<lambda>i. regRef (rs ! i) = regRef r) [0..<length rs] = None"
    by (simp add: remove_reg_def split: option.split)
  then show ?thesis by (auto simp: find_None_iff all_set_conv_all_nth)
qed

lemma mset_del_key:
  assumes "distinct (map fst es)" "map_of es k = Some v"
  shows "mset es = add_mset (k, v) (mset (del_key k es))"
  using assms
proof (induction es)
  case (Cons e es)
  obtain k1 v1 where e: "e = (k1, v1)" by (cases e)
  have none: "k \<notin> fst ` set es \<Longrightarrow> del_key k es = es" by (force simp: del_key_def filter_id_conv)
  show ?case
  proof (cases "k1 = k")
    case True
    then show ?thesis using Cons.prems none by (auto simp: e del_key_def)
  next
    case False
    then show ?thesis using Cons by (simp add: e del_key_def)
  qed
qed simp

lemma disp_inv_remove:
  assumes "disp_inv cs (ed, h)" "well_keyed ed1" "mset (regs ed) = add_mset reg (mset (regs ed1))"
  shows "close_chan (Eventch reg) h = Ret (close_in {Eventch reg} h)" "disp_inv cs (ed1, close_in {Eventch reg} h)"
proof -
  have mem: "set (regs ed) = insert reg (set (regs ed1))"
    using mset_eq_setD [of "regs ed" "reg # regs ed1"] assms(3) by simp
  have dist: "distinct (cs @ map Eventch (regs ed))" using assms(1) by (simp add: disp_inv_def own_channels_def)
  have "mset (cs @ map Eventch (regs ed)) = mset (cs @ map Eventch (reg # regs ed1))" using assms(3) by simp
  then have d: "distinct (cs @ map Eventch (reg # regs ed1))" using dist mset_eq_imp_distinct_iff by blast
  have op: "\<forall>c \<in> set cs \<union> Eventch ` set (regs ed). \<not> isClosed (chans h c)"
    using assms(1) by (simp add: disp_inv_def own_channels_def)
  then show "close_chan (Eventch reg) h = Ret (close_in {Eventch reg} h)"
    using mem by (intro close_chan_open) auto
  show "disp_inv cs (ed1, close_in {Eventch reg} h)"
    using assms(2) d op mem by (auto simp: disp_inv_def own_channels_def isClosed_close_in)
qed

text \<open>
  The effect of unregistering: either nothing matches and the state is unchanged, or exactly one matching
  registration is gone and its channel is closed.
\<close>

definition removed ::
  "nat list \<Rightarrow> (registration \<Rightarrow> bool) \<Rightarrow> Dispatcher \<times> heap \<Rightarrow> error option \<times> Dispatcher \<times> heap \<Rightarrow> bool" where
  "removed cs M = (\<lambda>(ed, h) (err, ed1, h1).
     disp_inv cs (ed1, h1) \<and> lastBlockNum ed1 = lastBlockNum ed \<and> prm ed1 = prm ed \<and> dstate ed1 = dstate ed \<and>
     (if err = None
      then \<exists>reg \<in> set (regs ed). M reg \<and> mset (regs ed) = add_mset reg (mset (regs ed1)) \<and>
             h1 = close_in {Eventch reg} h
      else ed1 = ed \<and> h1 = h \<and> (\<forall>reg \<in> set (regs ed). \<not> M reg)))"

lemma removed_one:
  assumes "disp_inv cs (ed, h)" "well_keyed ed1" "mset (regs ed) = add_mset reg (mset (regs ed1))" "M reg"
    "lastBlockNum ed1 = lastBlockNum ed" "prm ed1 = prm ed" "dstate ed1 = dstate ed"
  shows "retR (removed cs M (ed, h)) (bindR (close_chan (Eventch reg) h) (\<lambda>h1. Ret (None, ed1, h1)))"
proof -
  have "reg \<in> set (regs ed)" using mset_eq_setD [of "regs ed" "reg # regs ed1"] assms(3) by simp
  then show ?thesis using disp_inv_remove [OF assms(1-3)] assms(3-) by (auto simp: removed_def)
qed

lemma removed_none:
  "disp_inv cs (ed, h) \<Longrightarrow> \<forall>reg \<in> set (regs ed). \<not> M reg \<Longrightarrow> removed cs M (ed, h) (Some e, ed, h)"
  by (simp add: removed_def)

lemma well_keyed_remove:
  assumes "well_keyed ed"
  shows "mset (blockRegistrations ed) = add_mset reg (mset rs) \<Longrightarrow> well_keyed (ed\<lparr>blockRegistrations := rs\<rparr>)"
    "mset (filteredBlockRegistrations ed) = add_mset reg (mset rs) \<Longrightarrow> well_keyed (ed\<lparr>filteredBlockRegistrations := rs\<rparr>)"
    "well_keyed (ed\<lparr>txRegistrations := del_key k (txRegistrations ed)\<rparr>)"
    "well_keyed (ed\<lparr>ccRegistrations := del_key k (ccRegistrations ed)\<rparr>)"
proof -
  have sub: "mset xs = add_mset x (mset ys) \<Longrightarrow> list_all P xs \<Longrightarrow> list_all P ys" for x xs ys and P :: "registration \<Rightarrow> bool"
    using mset_eq_setD [of xs "x # ys"] by (auto simp: list_all_iff)
  show "mset (blockRegistrations ed) = add_mset reg (mset rs) \<Longrightarrow> well_keyed (ed\<lparr>blockRegistrations := rs\<rparr>)"
    "mset (filteredBlockRegistrations ed) = add_mset reg (mset rs) \<Longrightarrow> well_keyed (ed\<lparr>filteredBlockRegistrations := rs\<rparr>)"
    using assms sub by (simp_all add: well_keyed_def)
  show "well_keyed (ed\<lparr>txRegistrations := del_key k (txRegistrations ed)\<rparr>)"
    "well_keyed (ed\<lparr>ccRegistrations := del_key k (ccRegistrations ed)\<rparr>)"
    using assms by (auto simp: well_keyed_def del_key_def distinct_map_filter list_all_iff)
qed

lemma regs_typed:
  assumes "well_keyed ed" "reg \<in> set (regs ed)"
  shows "is_BlockReg reg \<Longrightarrow> reg \<in> set (blockRegistrations ed)"
    "is_FilteredBlockReg reg \<Longrightarrow> reg \<in> set (filteredBlockRegistrations ed)"
    "is_TxStatusReg reg \<Longrightarrow> (TxID reg, reg) \<in> set (txRegistrations ed)"
    "is_ChaincodeReg reg \<Longrightarrow> (getCCKey (ChaincodeID reg) (EventFilter reg), reg) \<in> set (ccRegistrations ed)"
proof -
  have "(reg \<in> set (blockRegistrations ed) \<and> is_BlockReg reg) \<or> (reg \<in> set (filteredBlockRegistrations ed) \<and> is_FilteredBlockReg reg) \<or>
    ((TxID reg, reg) \<in> set (txRegistrations ed) \<and> is_TxStatusReg reg) \<or>
    ((getCCKey (ChaincodeID reg) (EventFilter reg), reg) \<in> set (ccRegistrations ed) \<and> is_ChaincodeReg reg)"
    using assms by (auto simp: regs_def well_keyed_def list_all_iff)
  then show "is_BlockReg reg \<Longrightarrow> reg \<in> set (blockRegistrations ed)"
    "is_FilteredBlockReg reg \<Longrightarrow> reg \<in> set (filteredBlockRegistrations ed)"
    "is_TxStatusReg reg \<Longrightarrow> (TxID reg, reg) \<in> set (txRegistrations ed)"
    "is_ChaincodeReg reg \<Longrightarrow> (getCCKey (ChaincodeID reg) (EventFilter reg), reg) \<in> set (ccRegistrations ed)"
    by (cases reg; simp)+
qed

lemma unregisterBlockEvents_removed:
  assumes "disp_inv cs s"
  shows "retR (removed cs (\<lambda>reg. is_BlockReg reg \<and> regRef reg = regRef r) s) (unregisterBlockEvents r s)"
proof -
  obtain ed h where s: "s = (ed, h)" by (cases s)
  note inv = assms [unfolded s]
  have wk: "well_keyed ed" using inv by (simp add: disp_inv_def)
  show ?thesis
  proof (cases "remove_reg r (blockRegistrations ed)")
    case None
    have "\<forall>reg \<in> set (regs ed). \<not> (is_BlockReg reg \<and> regRef reg = regRef r)"
      using None [unfolded remove_reg_None] regs_typed(1) [OF wk] by blast
    from removed_none [OF inv this] show ?thesis by (simp add: unregisterBlockEvents_def s None)
  next
    case (Some p)
    obtain reg rs1 where p: "p = (reg, rs1)" by (cases p)
    note m = remove_reg_Some [OF Some [unfolded p]]
    have "is_BlockReg reg" using wk mset_eq_setD [of "blockRegistrations ed" "reg # rs1"] m(1)
      by (simp add: well_keyed_def list_all_iff)
    moreover have "mset (regs ed) = add_mset reg (mset (regs (ed\<lparr>blockRegistrations := rs1\<rparr>)))"
      using m(1) by (simp add: regs_def)
    ultimately show ?thesis
      using removed_one [OF inv well_keyed_remove(1) [OF wk m(1)], of reg "\<lambda>reg. is_BlockReg reg \<and> regRef reg = regRef r"] m(2)
      by (simp add: unregisterBlockEvents_def s Some p)
  qed
qed

lemma unregisterFilteredBlockEvents_removed:
  assumes "disp_inv cs s"
  shows "retR (removed cs (\<lambda>reg. is_FilteredBlockReg reg \<and> regRef reg = regRef r) s) (unregisterFilteredBlockEvents r s)"
proof -
  obtain ed h where s: "s = (ed, h)" by (cases s)
  note inv = assms [unfolded s]
  have wk: "well_keyed ed" using inv by (simp add: disp_inv_def)
  show ?thesis
  proof (cases "remove_reg r (filteredBlockRegistrations ed)")
    case None
    have "\<forall>reg \<in> set (regs ed). \<not> (is_FilteredBlockReg reg \<and> regRef reg = regRef r)"
      using None [unfolded remove_reg_None] regs_typed(2) [OF wk] by blast
    from removed_none [OF inv this] show ?thesis by (simp add: unregisterFilteredBlockEvents_def s None)
  next
    case (Some p)
    obtain reg rs1 where p: "p = (reg, rs1)" by (cases p)
    note m = remove_reg_Some [OF Some [unfolded p]]
    have "is_FilteredBlockReg reg" using wk mset_eq_setD [of "filteredBlockRegistrations ed" "reg # rs1"] m(1)
      by (simp add: well_keyed_def list_all_iff)
    moreover have "mset (regs ed) = add_mset reg (mset (regs (ed\<lparr>filteredBlockRegistrations := rs1\<rparr>)))"
      using m(1) by (simp add: regs_def)
    ultimately show ?thesis
      using removed_one [OF inv well_keyed_remove(2) [OF wk m(1)], of reg "\<lambda>reg. is_FilteredBlockReg reg \<and> regRef reg = regRef r"] m(2)
      by (simp add: unregisterFilteredBlockEvents_def s Some p)
  qed
qed

lemma unregisterCCEvents_removed:
  assumes "disp_inv cs s"
  shows "retR (removed cs (\<lambda>reg. is_ChaincodeReg reg \<and>
      getCCKey (ChaincodeID reg) (EventFilter reg) = getCCKey (ChaincodeID r) (EventFilter r)) s) (unregisterCCEvents r s)"
    (is "retR (removed cs ?M s) _")
proof -
  obtain ed h where s: "s = (ed, h)" by (cases s)
  note inv = assms [unfolded s]
  have wk: "well_keyed ed" using inv by (simp add: disp_inv_def)
  let ?k = "getCCKey (ChaincodeID r) (EventFilter r)"
  show ?thesis
  proof (cases "map_of (ccRegistrations ed) ?k")
    case None
    have "\<forall>reg \<in> set (regs ed). \<not> ?M reg"
      using None [unfolded map_of_eq_None_iff] regs_typed(4) [OF wk] by force
    from removed_none [OF inv this] show ?thesis by (simp add: unregisterCCEvents_def s None)
  next
    case (Some reg)
    have "?M reg" using wk map_of_SomeD [OF Some] by (auto simp: well_keyed_def list_all_iff)
    moreover have "mset (regs ed) = add_mset reg (mset (regs (ed\<lparr>ccRegistrations := del_key ?k (ccRegistrations ed)\<rparr>)))"
      using mset_del_key [OF _ Some] wk by (simp add: regs_def well_keyed_def)
    ultimately show ?thesis using removed_one [OF inv well_keyed_remove(4) [OF wk, of ?k], of reg ?M]
      by (simp add: unregisterCCEvents_def s Some)
  qed
qed

lemma unregisterTXEvents_removed:
  assumes "disp_inv cs s"
  shows "retR (removed cs (\<lambda>reg. is_TxStatusReg reg \<and> TxID reg = TxID r) s) (unregisterTXEvents r s)"
    (is "retR (removed cs ?M s) _")
proof -
  obtain ed h where s: "s = (ed, h)" by (cases s)
  note inv = assms [unfolded s]
  have wk: "well_keyed ed" using inv by (simp add: disp_inv_def)
  show ?thesis
  proof (cases "map_of (txRegistrations ed) (TxID r)")
    case None
    have "\<forall>reg \<in> set (regs ed). \<not> ?M reg"
      using None [unfolded map_of_eq_None_iff] regs_typed(3) [OF wk] by force
    from removed_none [OF inv this] show ?thesis by (simp add: unregisterTXEvents_def s None)
  next
    case (Some reg)
    have "?M reg" using wk map_of_SomeD [OF Some] by (auto simp: well_keyed_def list_all_iff)
    moreover have "mset (regs ed) = add_mset reg (mset (regs (ed\<lparr>txRegistrations := del_key (TxID r) (txRegistrations ed)\<rparr>)))"
      using mset_del_key [OF _ Some] wk by (simp add: regs_def well_keyed_def)
    ultimately show ?thesis using removed_one [OF inv well_keyed_remove(3) [OF wk, of "TxID r"], of reg ?M]
      by (simp add: unregisterTXEvents_def s Some)
  qed
qed

text \<open>The registrations that an unregister event addresses.\<close>

fun addressed :: "registration \<Rightarrow> registration \<Rightarrow> bool" where
  "addressed (BlockReg r f c) = (\<lambda>reg. is_BlockReg reg \<and> regRef reg = r)"
| "addressed (FilteredBlockReg r c) = (\<lambda>reg. is_FilteredBlockReg reg \<and> regRef reg = r)"
| "addressed (ChaincodeReg r i f e c) = (\<lambda>reg.
     is_ChaincodeReg reg \<and> getCCKey (ChaincodeID reg) (EventFilter reg) = getCCKey i f)"
| "addressed (TxStatusReg r t c) = (\<lambda>reg. is_TxStatusReg reg \<and> TxID reg = t)"

lemma handleUnregisterEvent_removed:
  assumes "disp_inv cs s"
  shows "retR (\<lambda>(s1, rs). rs = [] \<and> (\<exists>err. removed cs (addressed r) s (err, s1))) (handleUnregisterEvent (Some r) s)"
proof -
  have "retR (removed cs (addressed r) s) ((case r of BlockReg _ _ _ \<Rightarrow> unregisterBlockEvents r
      | FilteredBlockReg _ _ \<Rightarrow> unregisterFilteredBlockEvents r | ChaincodeReg _ _ _ _ _ \<Rightarrow> unregisterCCEvents r
      | TxStatusReg _ _ _ \<Rightarrow> unregisterTXEvents r) s)"
    using unregisterBlockEvents_removed [OF assms, of r] unregisterFilteredBlockEvents_removed [OF assms, of r]
      unregisterCCEvents_removed [OF assms, of r] unregisterTXEvents_removed [OF assms, of r] by (cases r) simp_all
  then show ?thesis unfolding handleUnregisterEvent_def option.case by (rule retR_bind) auto
qed

lemma removed_inv: "removed cs M s (err, s1) \<Longrightarrow> disp_inv cs s1"
  by (cases s; cases s1) (simp add: removed_def)

lemma okR_retR: "retR P r \<Longrightarrow> okR P r"
  by (cases r) simp_all

lemma disp_inv_register:
  assumes "disp_inv (Eventch reg # cs) (ed, h)" "well_keyed ed1" "mset (regs ed1) = add_mset reg (mset (regs ed))"
  shows "disp_inv cs (ed1, h)"
proof -
  have mem: "set (regs ed1) = insert reg (set (regs ed))"
    using mset_eq_setD [of "regs ed1" "reg # regs ed"] assms(3) by simp
  have "mset (cs @ map Eventch (regs ed1)) = mset ((Eventch reg # cs) @ map Eventch (regs ed))" using assms(3) by simp
  moreover have "distinct ((Eventch reg # cs) @ map Eventch (regs ed))"
    using assms(1) by (simp add: disp_inv_def own_channels_def)
  ultimately have "distinct (cs @ map Eventch (regs ed1))" using mset_eq_imp_distinct_iff by blast
  then show ?thesis using assms(1,2) mem by (auto simp: disp_inv_def own_channels_def)
qed

lemma disp_inv_no_regs:
  assumes "disp_inv cs (ed, h)" "\<forall>c \<in> set cs. \<not> isClosed (chans h1 c)"
  shows "disp_inv cs (no_regs ed, h1)"
  using assms by (auto simp: disp_inv_def own_channels_def no_regs_def well_keyed_def regs_def)

lemma register_inv:
  assumes "disp_inv (Eventch reg # cs) (ed, h)"
  shows "is_BlockReg reg \<Longrightarrow> disp_inv cs (registerBlockEvent reg ed, h)"
    "is_FilteredBlockReg reg \<Longrightarrow> disp_inv cs (registerFilteredBlockEvent reg ed, h)"
    "is_TxStatusReg reg \<Longrightarrow> disp_inv cs (snd (registerTxStatusEvent reg ed), h)"
    "is_ChaincodeReg reg \<Longrightarrow> EventRegExp reg \<noteq> None \<Longrightarrow> disp_inv cs (snd (registerCCEvent reg ed), h)"
proof -
  have wk: "well_keyed ed" using assms by (simp add: disp_inv_def)
  have same: "disp_inv cs (ed, h)" using disp_inv_weaken [of "[Eventch reg]" cs "(ed, h)"] assms by simp
  show "is_BlockReg reg \<Longrightarrow> disp_inv cs (registerBlockEvent reg ed, h)"
    using wk by (intro disp_inv_register [OF assms]) (simp_all add: registerBlockEvent_def well_keyed_def regs_def)
  show "is_FilteredBlockReg reg \<Longrightarrow> disp_inv cs (registerFilteredBlockEvent reg ed, h)"
    using wk by (intro disp_inv_register [OF assms]) (simp_all add: registerFilteredBlockEvent_def well_keyed_def regs_def)
  show "is_TxStatusReg reg \<Longrightarrow> disp_inv cs (snd (registerTxStatusEvent reg ed), h)"
  proof (cases "map_of (txRegistrations ed) (TxID reg)")
    case None
    assume "is_TxStatusReg reg"
    then show ?thesis using wk None by (intro disp_inv_register [OF assms])
      (auto simp: registerTxStatusEvent_def well_keyed_def regs_def map_of_eq_None_iff)
  qed (use same in \<open>simp add: registerTxStatusEvent_def\<close>)
  show "is_ChaincodeReg reg \<Longrightarrow> EventRegExp reg \<noteq> None \<Longrightarrow> disp_inv cs (snd (registerCCEvent reg ed), h)"
  proof (cases "map_of (ccRegistrations ed) (getCCKey (ChaincodeID reg) (EventFilter reg))")
    case None
    assume "is_ChaincodeReg reg" "EventRegExp reg \<noteq> None"
    then show ?thesis using wk None by (intro disp_inv_register [OF assms])
      (auto simp: registerCCEvent_def well_keyed_def regs_def map_of_eq_None_iff)
  qed (use same in \<open>simp add: registerCCEvent_def\<close>)
qed

lemma handleUnregisterEvent_inv:
  assumes "disp_inv cs s"
  shows "retR (\<lambda>(s1, _). disp_inv cs s1) (handleUnregisterEvent reg s)"
proof (cases reg)
  case (Some r)
  have "retR (\<lambda>(s1, _). disp_inv cs s1) (handleUnregisterEvent (Some r) s)"
    by (rule retR_mono [OF handleUnregisterEvent_removed [OF assms]]) (auto dest: removed_inv)
  then show ?thesis by (simp add: Some)
qed (use assms in \<open>simp add: handleUnregisterEvent_def\<close>)

lemma handleRegisterCCEvent_inv:
  assumes "disp_inv (Eventch reg # cs) s"
  shows "okR (\<lambda>(s1, _). disp_inv cs s1) (handleRegisterCCEvent en reg s)"
proof -
  obtain ed h where s: "s = (ed, h)" by (cases s)
  have same: "disp_inv cs s" using disp_inv_weaken [of "[Eventch reg]" cs s] assms by simp
  show ?thesis
  proof (cases "compileRegexp en (EventFilter reg)")
    case (Inr m)
    let ?reg1 = "ChaincodeReg (regRef reg) (ChaincodeID reg) (EventFilter reg) (Some m) (Eventch reg)"
    have "disp_inv cs (snd (registerCCEvent ?reg1 ed), h)"
      using register_inv(4) [of ?reg1 cs ed h] assms s by simp
    then show ?thesis using Inr by (auto simp: handleRegisterCCEvent_def s Let_def split: prod.split option.split)
  qed (use same s in \<open>simp add: handleRegisterCCEvent_def\<close>)
qed

lemma okR_no_reply: "okR (\<lambda>(s1, _). P s1) (bindR r (\<lambda>s1. Ret (s1, []))) = okR P r"
  by (cases r) simp_all

lemma dispatch_inv:
  assumes "legal_event (pbs en) e" "disp_inv (event_chan e @ cs) s"
  shows "okR (\<lambda>(s1, _). disp_inv cs s1) (dispatch en e s)"
proof -
  obtain ed h where s: "s = (ed, h)" by (cases s)
  have same: "disp_inv cs (ed, h)" using disp_inv_weaken [OF assms(2)] s by simp
  then have op: "\<forall>c \<in> set cs. \<not> isClosed (chans h c)" "distinct (cs @ map Eventch (regs ed))"
    by (auto simp: disp_inv_def own_channels_def)
  have stopped: "disp_inv cs (ed\<lparr>dstate := dispatcherStateStopped\<rparr>, h)"
    by (rule disp_inv_grows [OF same grows_refl]) simp_all
  have closed: "\<forall>c \<in> set cs. \<not> isClosed (chans (close_in (Eventch ` set (regs ed)) h) c)"
    using op by (auto simp: isClosed_close_in)
  show ?thesis
  proof (cases e)
    case (RegisterBlockEvent reg)
    then show ?thesis using assms register_inv(1) [of reg cs ed h] by (simp add: s handleRegisterBlockEvent_def)
  next
    case (RegisterFilteredBlockEvent reg)
    then show ?thesis using assms register_inv(2) [of reg cs ed h] by (simp add: s handleRegisterFilteredBlockEvent_def)
  next
    case (RegisterChaincodeEvent reg)
    then show ?thesis using assms handleRegisterCCEvent_inv [of reg cs s] by simp
  next
    case (RegisterTxStatusEvent reg)
    then show ?thesis using assms register_inv(3) [of reg cs ed h]
      by (auto simp: s handleRegisterTxStatusEvent_def split: prod.split option.split)
  next
    case (UnregisterEvent reg)
    then show ?thesis using okR_retR [OF handleUnregisterEvent_inv [OF same]] s by simp
  next
    case StopEvent
    have "clearRegistrations en True (ed\<lparr>dstate := dispatcherStateStopped\<rparr>, h) =
        Ret (no_regs (ed\<lparr>dstate := dispatcherStateStopped\<rparr>), close_in (Eventch ` set (regs ed)) h)"
      using clearRegistrations_True [OF disp_inv_regs(2,1) [OF stopped]] by simp
    then show ?thesis using StopEvent same disp_inv_no_regs [OF stopped closed]
      by (simp add: s HandleStopEvent_def setState_def)
  next
    case (BlockReceived blk url)
    then have "okR (disp_inv cs) (HandleBlock en blk url (ed, h))" using assms(1) HandleBlock_inv [OF same] by simp
    then show ?thesis using BlockReceived by (simp add: s handleBlockEvent_def okR_no_reply)
  next
    case (FilteredBlockReceived fb url)
    then show ?thesis using HandleFilteredBlock_inv [OF same] by (simp add: s handleFilteredBlockEvent_def okR_no_reply)
  qed (use same disp_inv_no_regs [OF same op(1)] disp_inv_no_regs [OF stopped op(1)] in
      \<open>simp_all add: s HandleTransferEvent_def HandleStopAndTransferEvent_def clearRegistrations_False setState_def
        handleRegistrationInfoEvent_def Let_def\<close>)
qed

lemma process_inv:
  assumes "list_all (legal_event (pbs en)) es" "disp_inv (event_chans es @ cs) s"
  shows "okR (\<lambda>(s1, _). disp_inv cs s1) (process en es s)"
  using assms
proof (induction es arbitrary: s)
  case (Cons e es)
  have "disp_inv cs s" using disp_inv_weaken [of "event_chans (e # es)"] Cons.prems(2) by simp
  moreover have "okR (\<lambda>(s1, _). disp_inv (event_chans es @ cs) s1) (dispatch en e s)"
    using Cons.prems by (intro dispatch_inv) (simp_all add: event_chans_def)
  then have "okR (\<lambda>(s1, _). disp_inv cs s1)
      (bindR (dispatch en e s) (\<lambda>(s1, r). bindR (process en es s1) (\<lambda>(s2, rs). Ret (s2, r @ rs))))"
  proof (rule okR_bind)
    fix a :: "(Dispatcher \<times> heap) \<times> reply list"
    assume a: "case a of (s1, _) \<Rightarrow> disp_inv (event_chans es @ cs) s1"
    obtain s1 r where sr: "a = (s1, r)" by (cases a)
    have "okR (\<lambda>(s1, _). disp_inv cs s1) (process en es s1)" using Cons.IH Cons.prems(1) a sr by simp
    then have "okR (\<lambda>(s1, _). disp_inv cs s1) (bindR (process en es s1) (\<lambda>(s2, rs). Ret (s2, r @ rs)))"
      by (rule okR_bind) auto
    then show "okR (\<lambda>(s1, _). disp_inv cs s1)
        (case a of (s1, r) \<Rightarrow> bindR (process en es s1) (\<lambda>(s2, rs). Ret (s2, r @ rs)))" by (simp add: sr)
  qed
  ultimately show ?case by simp
qed (simp add: event_chans_def)

end
