(* ===== verification/EventProperties.thy ===== *)
theory EventProperties
  imports EventDispatcher
begin

text \<open>
  What the event dispatcher guarantees: it never panics, it keeps its registrations and channels consistent, it
  delivers blocks to a registration in strictly increasing order, it delivers nothing a registration did
  not ask for, and stopping, unregistering and transferring treat every registration exactly once.
\<close>

section \<open>Order of the blocks in a channel\<close>

fun blockNum :: "clientEvent \<Rightarrow> uint64 list" where
  "blockNum (BlockEvent blk url) = [HeaderNumber blk]"
| "blockNum _ = []"

fun fblockNum :: "clientEvent \<Rightarrow> uint64 list" where
  "fblockNum (FilteredBlockEvent fb url) = [Number fb]"
| "fblockNum _ = []"

definition nums :: "(clientEvent \<Rightarrow> uint64 list) \<Rightarrow> heap \<Rightarrow> nat \<Rightarrow> uint64 list" where
  "nums f h c = concat (map f (sent (chans h c)))"

text \<open>The numbers of the blocks in the log of every channel increase strictly and stop at the last block of
  the dispatcher.\<close>

definition ordered_logs :: "Dispatcher \<times> heap \<Rightarrow> bool" where
  "ordered_logs = (\<lambda>(ed, h). \<forall>c. \<forall>f \<in> {blockNum, fblockNum}.
     sorted_wrt (<) (nums f h c) \<and> (\<forall>n \<in> set (nums f h c). lastBlockNum ed \<noteq> MaxUint64 \<and> n \<le> lastBlockNum ed))"

fun event_number :: "dispatcherEvent \<Rightarrow> uint64 list" where
  "event_number (BlockReceived blk url) = [HeaderNumber blk]"
| "event_number (FilteredBlockReceived fb url) = [Number fb]"
| "event_number _ = []"

text \<open>Between \<open>h\<close> and \<open>h'\<close> each log gains the number \<open>n\<close> at most once.\<close>

definition gains :: "(clientEvent \<Rightarrow> uint64 list) \<Rightarrow> uint64 \<Rightarrow> heap \<Rightarrow> heap \<Rightarrow> bool" where
  "gains f n h h' \<longleftrightarrow> (\<forall>c. nums f h' c = nums f h c \<or> nums f h' c = nums f h c @ [n])"

lemma grows_nums:
  assumes "grows J h h1" "\<And>c e. J c e \<Longrightarrow> f e = []"
  shows "nums f h1 c = nums f h c"
proof -
  obtain es where es: "sent (chans h1 c) = sent (chans h c) @ es" "\<forall>e \<in> set es. J c e"
    using assms(1) unfolding grows_def by blast
  then have "concat (map f es) = []" using assms(2) by auto
  then show ?thesis using es(1) by (simp add: nums_def)
qed

lemma sent_once_gains: "sent_once en t e C h h1 \<Longrightarrow> f e = [n] \<Longrightarrow> gains f n h h1"
  unfolding gains_def sent_once_def nums_def
proof
  fix c
  assume "\<forall>c. (c \<notin> C \<longrightarrow> chans h1 c = chans h c) \<and>
     (c \<in> C \<longrightarrow> chans h1 c = (chans h c)\<lparr>sent := sent (chans h c) @ [e]\<rparr> \<or>
        chans h1 c = chans h c \<and> \<not> has_room en t h c)" and f: "f e = [n]"
  then have "chans h1 c = chans h c \<or> chans h1 c = (chans h c)\<lparr>sent := sent (chans h c) @ [e]\<rparr>" by metis
  then show "concat (map f (sent (chans h1 c))) = concat (map f (sent (chans h c))) \<or>
      concat (map f (sent (chans h1 c))) = concat (map f (sent (chans h c))) @ [n]"
    using f by auto
qed

lemma tx_entitled_no_block: "tx_entitled en ed fb url c e \<Longrightarrow> blockNum e = [] \<and> fblockNum e = []"
  by (auto simp: tx_entitled_def)

lemma publishFiltered_gains:
  assumes "disp_inv cs (ed, h)"
  shows "okR (\<lambda>h1. (\<forall>c. nums blockNum h1 c = nums blockNum h c) \<and> gains fblockNum (Number fb) h h1)
    (publishFilteredBlockEvents en ed (Some fb) url h)"
  unfolding publishFilteredBlockEvents_def option.case
proof (rule okR_bind [OF checkFiltered_once [OF disp_inv_regs(2,1) [OF assms]]])
  fix h1 assume once: "sent_once en (eventConsumerTimeout (prm ed)) (FilteredBlockEvent fb url)
    (Eventch ` set (filteredBlockRegistrations ed)) h h1"
  have g: "grows (\<lambda>c e. e = FilteredBlockEvent fb url) h h1" by (rule sent_once_grows [OF once]) simp
  have b: "nums blockNum h1 c = nums blockNum h c" for c using grows_nums [OF g] by simp
  have fg: "gains fblockNum (Number fb) h h1" by (rule sent_once_gains [OF once]) simp
  have i1: "disp_inv cs (ed, h1)" using disp_inv_grows [OF assms g] by simp
  show "okR (\<lambda>h2. (\<forall>c. nums blockNum h2 c = nums blockNum h c) \<and> gains fblockNum (Number fb) h h2)
     (foldR (publishTx en ed (Number fb) url) (FilteredTransactions fb) h1)"
  proof (rule okR_mono [OF publishTxs_grows [OF disp_inv_regs(1,3) [OF i1]]])
    fix h2 assume g2: "grows (tx_entitled en ed fb url) h1 h2"
    have "nums blockNum h2 c = nums blockNum h1 c" "nums fblockNum h2 c = nums fblockNum h1 c" for c
      using grows_nums [OF g2] tx_entitled_no_block by blast+
    then show "(\<forall>c. nums blockNum h2 c = nums blockNum h c) \<and> gains fblockNum (Number fb) h h2"
      using b fg by (simp add: gains_def)
  qed
qed

lemma ordered_gains:
  assumes "ordered_logs (ed, h)" "updateLastBlockNum n ed = Inr ed1" "n \<noteq> MaxUint64"
    "\<And>f. f \<in> {blockNum, fblockNum} \<Longrightarrow> gains f n h h1 \<or> (\<forall>c. nums f h1 c = nums f h c)"
  shows "ordered_logs (ed1, h1)"
proof -
  have new: "m < n" if "f \<in> {blockNum, fblockNum}" "m \<in> set (nums f h c)" for f c m
  proof -
    have "lastBlockNum ed \<noteq> MaxUint64" "m \<le> lastBlockNum ed" using assms(1) that unfolding ordered_logs_def by blast+
    moreover from this have "lastBlockNum ed < n" using assms(2) by (auto simp: updateLastBlockNum_def split: if_splits)
    ultimately show ?thesis by simp
  qed
  have ed1: "lastBlockNum ed1 = n" using updateLastBlockNum_keeps [OF assms(2)] by simp
  have "sorted_wrt (<) (nums f h1 c) \<and> (\<forall>m \<in> set (nums f h1 c). m \<le> n)" if f: "f \<in> {blockNum, fblockNum}" for f c
  proof -
    have "nums f h1 c = nums f h c \<or> nums f h1 c = nums f h c @ [n]"
      using assms(4) [OF f] by (auto simp: gains_def)
    moreover have "sorted_wrt (<) (nums f h c)" "\<forall>m \<in> set (nums f h c). m < n"
      using assms(1) new [OF f] f unfolding ordered_logs_def by blast+
    ultimately show ?thesis by (auto simp: sorted_wrt_append less_imp_le)
  qed
  then show ?thesis using ed1 assms(3) unfolding ordered_logs_def split by blast
qed

lemma ordered_keeps:
  assumes "ordered_logs (ed, h)" "lastBlockNum ed1 = lastBlockNum ed" "\<And>c. sent (chans h1 c) = sent (chans h c)"
  shows "ordered_logs (ed1, h1)"
  using assms by (simp add: ordered_logs_def nums_def)

lemma okR_conj: "okR P r \<Longrightarrow> okR Q r \<Longrightarrow> okR (\<lambda>a. P a \<and> Q a) r"
  by (cases r) simp_all

lemma HandleFilteredBlock_ordered:
  assumes "disp_inv cs s" "ordered_logs s" "Number fb \<noteq> MaxUint64"
  shows "okR ordered_logs (HandleFilteredBlock en fb url s)"
proof -
  obtain ed h where s: "s = (ed, h)" by (cases s)
  show ?thesis
  proof (cases "updateLastBlockNum (Number fb) ed")
    case (Inr ed1)
    have ed1: "ed1 = ed\<lparr>lastBlockNum := Number fb\<rparr>" by (rule updateLastBlockNum_keeps [OF Inr])
    have i1: "disp_inv cs (ed1, h)" using assms s ed1 by (simp add: disp_inv_grows [of cs ed h])
    have o: "ordered_logs (ed1, h1)"
      if "\<And>f. f \<in> {blockNum, fblockNum} \<Longrightarrow> gains f (Number fb) h h1 \<or> (\<forall>c. nums f h1 c = nums f h c)" for h1
      using ordered_gains [OF _ Inr assms(3) that] assms(2) s by simp
    have "okR (\<lambda>h1. ordered_logs (ed1, h1)) (publishFilteredBlockEvents en ed1 (Some fb) url h)"
      by (rule okR_mono [OF publishFiltered_gains [OF i1]]) (rule o, auto)
    then have "okR ordered_logs (bindR (publishFilteredBlockEvents en ed1 (Some fb) url h) (\<lambda>h1. Ret (ed1, h1)))"
      by (rule okR_bind) simp
    moreover have "ordered_logs (ed1\<lparr>updateLastBlockInfoOnly := False\<rparr>, h)"
      by (rule ordered_keeps [OF o]) simp_all
    ultimately show ?thesis using Inr by (simp add: HandleFilteredBlock_def s)
  qed (use assms s in \<open>simp add: HandleFilteredBlock_def\<close>)
qed

lemma HandleBlock_ordered:
  assumes "disp_inv cs s" "ordered_logs s" "HeaderNumber blk \<noteq> MaxUint64" "\<not> panics (toFilteredBlock (pbs en) blk)"
  shows "okR ordered_logs (HandleBlock en blk url s)"
proof -
  obtain ed h where s: "s = (ed, h)" by (cases s)
  let ?n = "HeaderNumber blk"
  show ?thesis
  proof (cases "updateLastBlockNum ?n ed")
    case (Inr ed1)
    have ed1: "ed1 = ed\<lparr>lastBlockNum := ?n\<rparr>" by (rule updateLastBlockNum_keeps [OF Inr])
    have i1: "disp_inv cs (ed1, h)" using assms s ed1 by (simp add: disp_inv_grows [of cs ed h])
    have o: "ordered_logs (ed1, h1)"
      if "\<And>f. f \<in> {blockNum, fblockNum} \<Longrightarrow> gains f ?n h h1 \<or> (\<forall>c. nums f h1 c = nums f h c)" for h1
      using ordered_gains [OF _ Inr assms(3) that] assms(2) s by simp
    let ?tail = "\<lambda>h1. case toFilteredBlock (pbs en) blk of Inl (Panic p) \<Rightarrow> GoPanic p | Inl (Err e) \<Rightarrow> Ret (ed1, h1)
        | Inr fb \<Rightarrow> bindR (publishFilteredBlockEvents en ed1 (Some fb) url h1) (\<lambda>h2. Ret (ed1, h2))"
    have "okR ordered_logs (bindR (publishBlockEvents en ed1 blk url h) ?tail)"
    proof (rule okR_bind [OF publishBlockEvents_once [OF disp_inv_regs(2,1) [OF i1]]])
      fix h1 assume once: "sent_once en (eventConsumerTimeout (prm ed1)) (BlockEvent blk url)
        (Eventch ` {reg \<in> set (blockRegistrations ed1). BFilter reg blk}) h h1"
      have g: "grows (\<lambda>c e. e = BlockEvent blk url) h h1" by (rule sent_once_grows [OF once]) simp
      have b: "gains blockNum ?n h h1" by (rule sent_once_gains [OF once]) simp
      have f: "nums fblockNum h1 c = nums fblockNum h c" for c using grows_nums [OF g] by simp
      have i2: "disp_inv cs (ed1, h1)" using disp_inv_grows [OF i1 g] by simp
      show "okR ordered_logs (?tail h1)"
      proof (cases rule: outcome_cases [of "toFilteredBlock (pbs en) blk"])
        case (val fb)
        then have num: "Number fb = ?n" by (auto simp: toFilteredBlock_def bindO_eq_Inr split: if_splits)
        have "okR (\<lambda>h2. ordered_logs (ed1, h2)) (publishFilteredBlockEvents en ed1 (Some fb) url h1)"
          by (rule okR_mono [OF publishFiltered_gains [OF i2]]) (rule o, use b f num in \<open>auto simp: gains_def\<close>)
        then show ?thesis unfolding val sum.case by (rule okR_bind) simp
      qed (use assms(4) o b f in \<open>auto simp: panics_def\<close>)
    qed
    moreover have "ordered_logs (ed1\<lparr>updateLastBlockInfoOnly := False\<rparr>, h)"
      by (rule ordered_keeps [OF o]) simp_all
    ultimately show ?thesis using Inr by (simp add: HandleBlock_def s)
  qed (use assms s in \<open>simp add: HandleBlock_def\<close>)
qed

lemma removed_ordered: "removed cs M s (err, s1) \<Longrightarrow> ordered_logs s \<Longrightarrow> ordered_logs s1"
  by (cases s; cases s1; cases err) (auto simp: removed_def close_in_def elim!: ordered_keeps)

lemma dispatch_ordered:
  assumes "legal_event (pbs en) e" "disp_inv (event_chan e @ cs) s" "ordered_logs s" "MaxUint64 \<notin> set (event_number e)"
  shows "okR (\<lambda>(s1, _). ordered_logs s1) (dispatch en e s)"
proof -
  obtain ed h where s: "s = (ed, h)" by (cases s)
  have same: "disp_inv cs (ed, h)" using disp_inv_weaken [OF assms(2)] s by simp
  note keep = ordered_keeps [OF assms(3) [unfolded s]]
  show ?thesis
  proof (cases e)
    case (UnregisterEvent reg)
    show ?thesis
    proof (cases reg)
      case (Some r)
      have "retR (\<lambda>(s1, _). ordered_logs s1) (handleUnregisterEvent (Some r) (ed, h))"
        by (rule retR_mono [OF handleUnregisterEvent_removed [OF same]]) (use removed_ordered assms(3) s in blast)
      then show ?thesis using Some UnregisterEvent s by (simp add: okR_retR)
    qed (use assms(3) UnregisterEvent in \<open>simp add: handleUnregisterEvent_def\<close>)
  next
    case StopEvent
    have "disp_inv cs (ed\<lparr>dstate := dispatcherStateStopped\<rparr>, h)"
      by (rule disp_inv_grows [OF same grows_refl]) simp_all
    from clearRegistrations_True [OF disp_inv_regs(2,1) [OF this], of en]
    have "okR (\<lambda>s1. ordered_logs s1) (clearRegistrations en True (ed\<lparr>dstate := dispatcherStateStopped\<rparr>, h))"
      using keep by (simp add: no_regs_def close_in_def)
    then show ?thesis using StopEvent assms(3) keep
      by (cases "clearRegistrations en True (ed\<lparr>dstate := dispatcherStateStopped\<rparr>, h)")
        (auto simp: s HandleStopEvent_def setState_def)
  next
    case (BlockReceived blk url)
    then show ?thesis using assms HandleBlock_ordered [OF same, of blk en url] s
      by (simp add: handleBlockEvent_def okR_no_reply)
  next
    case (FilteredBlockReceived fb url)
    then show ?thesis using assms HandleFilteredBlock_ordered [OF same, of fb en url] s
      by (simp add: handleFilteredBlockEvent_def okR_no_reply)
  qed (use keep in \<open>auto simp: s handleRegisterBlockEvent_def registerBlockEvent_def handleRegisterFilteredBlockEvent_def
      registerFilteredBlockEvent_def handleRegisterCCEvent_def registerCCEvent_def handleRegisterTxStatusEvent_def
      registerTxStatusEvent_def HandleTransferEvent_def HandleStopAndTransferEvent_def clearRegistrations_False setState_def
      no_regs_def handleRegistrationInfoEvent_def Let_def split: sum.split\<close>)
qed

lemma process_ordered:
  assumes "list_all (legal_event (pbs en)) es" "disp_inv (event_chans es @ cs) s" "ordered_logs s"
    "\<forall>e \<in> set es. MaxUint64 \<notin> set (event_number e)"
  shows "okR (\<lambda>(s1, _). ordered_logs s1) (process en es s)"
  using assms
proof (induction es arbitrary: s)
  case (Cons e es)
  have inv: "disp_inv (event_chan e @ event_chans es @ cs) s" using Cons.prems(2) by (simp add: event_chans_def)
  have leg: "legal_event (pbs en) e" using Cons.prems(1) by simp
  have "okR (\<lambda>a. disp_inv (event_chans es @ cs) (fst a) \<and> ordered_logs (fst a)) (dispatch en e s)"
    using okR_conj [OF dispatch_inv [OF leg inv] dispatch_ordered [OF leg inv Cons.prems(3)]] Cons.prems(4)
    by (simp add: case_prod_beta)
  then have "okR (\<lambda>(s1, _). ordered_logs s1)
      (bindR (dispatch en e s) (\<lambda>(s1, r). bindR (process en es s1) (\<lambda>(s2, rs). Ret (s2, r @ rs))))"
  proof (rule okR_bind)
    fix a :: "(Dispatcher \<times> heap) \<times> reply list"
    assume a: "disp_inv (event_chans es @ cs) (fst a) \<and> ordered_logs (fst a)"
    have "okR (\<lambda>(s1, _). ordered_logs s1) (process en es (fst a))" using Cons.IH Cons.prems(1,4) a by simp
    then have "okR (\<lambda>(s1, _). ordered_logs s1) (bindR (process en es (fst a)) (\<lambda>(s2, rs). Ret (s2, snd a @ rs)))"
      by (rule okR_bind) auto
    then show "okR (\<lambda>(s1, _). ordered_logs s1)
        (case a of (s1, r) \<Rightarrow> bindR (process en es s1) (\<lambda>(s2, rs). Ret (s2, r @ rs)))" by (simp add: case_prod_beta)
  qed
  then show ?case using Cons.prems(3) by simp
qed simp

section \<open>Sends with a deadline do not block\<close>

lemma bindR_Ret_iff: "bindR r f = Ret a \<longleftrightarrow> (\<exists>b. r = Ret b \<and> f b = Ret a)"
  by (cases r) simp_all

lemma bindR_not_Blocked: "r \<noteq> Blocked \<Longrightarrow> (\<And>a. f a \<noteq> Blocked) \<Longrightarrow> bindR r f \<noteq> Blocked"
  by (cases r) simp_all

lemma foldR_not_Blocked: "(\<And>x s. f x s \<noteq> Blocked) \<Longrightarrow> foldR f xs s \<noteq> Blocked"
  by (induction xs arbitrary: s) (simp_all add: bindR_not_Blocked)

lemma send_not_Blocked: "t \<noteq> 0 \<Longrightarrow> send en t c e h \<noteq> Blocked"
  by (simp add: send_def Let_def)

lemma close_not_Blocked: "close_chan c h \<noteq> Blocked" "close_regs rs h \<noteq> Blocked"
  unfolding close_regs_def by (simp_all add: close_chan_def foldR_not_Blocked)

lemma publish_not_Blocked:
  assumes "eventConsumerTimeout (prm ed) \<noteq> 0"
  shows "publishBlockEvents en ed blk url h \<noteq> Blocked" "publishFilteredBlockEvents en ed fb url h \<noteq> Blocked"
proof -
  note snd = send_not_Blocked [OF assms]
  show "publishBlockEvents en ed blk url h \<noteq> Blocked"
    unfolding publishBlockEvents_def by (rule foldR_not_Blocked) (simp add: snd)
  have cc: "publishCCEvents en ed ev n url h \<noteq> Blocked" for ev n h
    unfolding publishCCEvents_def
    by (rule foldR_not_Blocked) (simp add: publishCCEvent_to_def snd split: option.split)
  have acts: "foldR (\<lambda>act. case act of None \<Rightarrow> Ret | Some ev \<Rightarrow> publishCCEvents en ed ev n url) actions h \<noteq> Blocked"
    for actions n h
    by (rule foldR_not_Blocked) (simp add: cc split: option.split)
  have status: "publishTxStatusEvents en ed tx n url h \<noteq> Blocked" for tx n h
    by (simp add: publishTxStatusEvents_def snd split: option.split)
  have "publishTx en ed n url tx h \<noteq> Blocked" for n tx h
    unfolding publishTx_def by (rule bindR_not_Blocked [OF status]) (simp add: acts split: option.split)
  then have txs: "foldR (publishTx en ed n url) txs h \<noteq> Blocked" for n txs h by (rule foldR_not_Blocked)
  have "checkFilteredBlockRegistrations en ed fb url h \<noteq> Blocked" for fb
    unfolding checkFilteredBlockRegistrations_def by (rule foldR_not_Blocked) (rule snd)
  then show "publishFilteredBlockEvents en ed fb url h \<noteq> Blocked"
    by (simp add: publishFilteredBlockEvents_def bindR_not_Blocked txs split: option.split)
qed

lemma clear_not_Blocked: "clearRegistrations en b s \<noteq> Blocked"
  by (cases s) (simp add: clearRegistrations_def clearBlockRegistrations_def clearFilteredBlockRegistrations_def
      clearTxRegistrations_def clearChaincodeRegistrations_def bindR_not_Blocked close_not_Blocked split: prod.split)

lemma HandleBlock_not_Blocked:
  assumes "eventConsumerTimeout (prm (fst s)) \<noteq> 0"
  shows "HandleBlock en blk url s \<noteq> Blocked" "HandleFilteredBlock en fb url s \<noteq> Blocked"
proof -
  obtain ed h where s: "s = (ed, h)" by (cases s)
  have t: "eventConsumerTimeout (prm (ed\<lparr>lastBlockNum := n\<rparr>)) \<noteq> 0" for n using assms s by simp
  note pub = publish_not_Blocked [OF t]
  have "bindR (publishBlockEvents en (ed\<lparr>lastBlockNum := n\<rparr>) blk url h) (\<lambda>h1.
      case toFilteredBlock (pbs en) blk of Inl (Panic p) \<Rightarrow> GoPanic p | Inl (Err e) \<Rightarrow> Ret (ed\<lparr>lastBlockNum := n\<rparr>, h1)
      | Inr fb \<Rightarrow> bindR (publishFilteredBlockEvents en (ed\<lparr>lastBlockNum := n\<rparr>) (Some fb) url h1)
          (\<lambda>h2. Ret (ed\<lparr>lastBlockNum := n\<rparr>, h2))) \<noteq> Blocked" for n
    by (rule bindR_not_Blocked [OF pub(1)]) (simp add: bindR_not_Blocked pub split: sum.split failure.split)
  then show "HandleBlock en blk url s \<noteq> Blocked"
    by (auto simp: HandleBlock_def s dest: updateLastBlockNum_keeps split: sum.split)
  show "HandleFilteredBlock en fb url s \<noteq> Blocked"
    by (auto simp: HandleFilteredBlock_def s bindR_not_Blocked pub dest: updateLastBlockNum_keeps split: sum.split)
qed

lemma HandleBlock_prm:
  assumes "HandleBlock en blk url (ed, h) = Ret s1"
  shows "prm (fst s1) = prm ed"
proof (cases "updateLastBlockNum (HeaderNumber blk) ed")
  case (Inr ed1)
  have "prm ed1 = prm ed" using updateLastBlockNum_keeps [OF Inr] by simp
  moreover have "fst s1 = ed1 \<or> fst s1 = ed1\<lparr>updateLastBlockInfoOnly := False\<rparr>"
    using assms by (cases rule: outcome_cases [of "toFilteredBlock (pbs en) blk"])
      (auto simp: HandleBlock_def Inr bindR_Ret_iff split: if_splits)
  ultimately show ?thesis by auto
qed (use assms in \<open>auto simp: HandleBlock_def\<close>)

lemma HandleFilteredBlock_prm:
  assumes "HandleFilteredBlock en fb url (ed, h) = Ret s1"
  shows "prm (fst s1) = prm ed"
proof (cases "updateLastBlockNum (Number fb) ed")
  case (Inr ed1)
  have "prm ed1 = prm ed" using updateLastBlockNum_keeps [OF Inr] by simp
  then show ?thesis using assms by (auto simp: HandleFilteredBlock_def Inr bindR_Ret_iff split: if_splits)
qed (use assms in \<open>auto simp: HandleFilteredBlock_def\<close>)

lemma clear_prm: "clearRegistrations en b s = Ret s1 \<Longrightarrow> prm (fst s1) = prm (fst s)"
  by (cases s) (auto simp: clearRegistrations_def clearBlockRegistrations_def clearFilteredBlockRegistrations_def
      clearTxRegistrations_def clearChaincodeRegistrations_def bindR_Ret_iff)

lemma unregister_prm:
  "unregisterBlockEvents r s = Ret (err, s1) \<Longrightarrow> prm (fst s1) = prm (fst s)"
  "unregisterFilteredBlockEvents r s = Ret (err, s1) \<Longrightarrow> prm (fst s1) = prm (fst s)"
  "unregisterCCEvents r s = Ret (err, s1) \<Longrightarrow> prm (fst s1) = prm (fst s)"
  "unregisterTXEvents r s = Ret (err, s1) \<Longrightarrow> prm (fst s1) = prm (fst s)"
  by (cases s; auto simp: unregisterBlockEvents_def unregisterFilteredBlockEvents_def unregisterCCEvents_def
      unregisterTXEvents_def bindR_Ret_iff Let_def split: option.splits)+

lemma handleUnregisterEvent_prm:
  assumes "handleUnregisterEvent reg s = Ret (s1, rs)"
  shows "prm (fst s1) = prm (fst s)"
proof (cases reg)
  case (Some r)
  then show ?thesis using assms
    by (cases r) (auto simp: handleUnregisterEvent_def bindR_Ret_iff dest: unregister_prm)
qed (use assms in \<open>simp add: handleUnregisterEvent_def\<close>)

lemma dispatch_prm:
  assumes "dispatch en e s = Ret (s1, r)"
  shows "prm (fst s1) = prm (fst s)"
proof -
  obtain ed h where s: "s = (ed, h)" by (cases s)
  show ?thesis
  proof (cases e)
    case (UnregisterEvent reg)
    then show ?thesis using assms handleUnregisterEvent_prm by simp
  next
    case (RegisterChaincodeEvent reg)
    then show ?thesis using assms
      by (auto simp: s handleRegisterCCEvent_def registerCCEvent_def Let_def split: sum.splits if_splits)
  next
    case (RegisterTxStatusEvent reg)
    then show ?thesis using assms
      by (auto simp: s handleRegisterTxStatusEvent_def registerTxStatusEvent_def split: if_splits)
  next
    case (BlockReceived blk url)
    then show ?thesis using assms HandleBlock_prm by (auto simp: s handleBlockEvent_def bindR_Ret_iff)
  next
    case (FilteredBlockReceived fb url)
    then show ?thesis using assms HandleFilteredBlock_prm by (auto simp: s handleFilteredBlockEvent_def bindR_Ret_iff)
  next
    case StopEvent
    then show ?thesis using assms clear_prm
      by (fastforce simp: s HandleStopEvent_def setState_def bindR_Ret_iff split: if_splits)
  qed (use assms in \<open>auto simp: s handleRegisterBlockEvent_def registerBlockEvent_def handleRegisterFilteredBlockEvent_def
      registerFilteredBlockEvent_def HandleTransferEvent_def HandleStopAndTransferEvent_def setState_def
      handleRegistrationInfoEvent_def Let_def clearRegistrations_False no_regs_def split: if_splits\<close>)
qed

lemma dispatch_not_Blocked:
  assumes "eventConsumerTimeout (prm (fst s)) \<noteq> 0" "disp_inv cs s"
  shows "dispatch en e s \<noteq> Blocked"
proof -
  obtain ed h where s: "s = (ed, h)" by (cases s)
  show ?thesis
  proof (cases e)
    case (UnregisterEvent reg)
    then show ?thesis using handleUnregisterEvent_inv [OF assms(2), of reg] by (auto simp: retR_iff)
  next
    case (RegisterChaincodeEvent reg)
    then show ?thesis by (auto simp: s handleRegisterCCEvent_def registerCCEvent_def Let_def split: sum.split)
  next
    case (BlockReceived blk url)
    then show ?thesis using HandleBlock_not_Blocked(1) [OF assms(1)] by (simp add: handleBlockEvent_def bindR_not_Blocked)
  next
    case (FilteredBlockReceived fb url)
    then show ?thesis using HandleBlock_not_Blocked(2) [OF assms(1)] by (simp add: handleFilteredBlockEvent_def bindR_not_Blocked)
  next
    case StopEvent
    then show ?thesis by (simp add: s HandleStopEvent_def setState_def bindR_not_Blocked clear_not_Blocked)
  qed (simp_all add: s handleRegisterBlockEvent_def handleRegisterFilteredBlockEvent_def handleRegisterTxStatusEvent_def
      registerTxStatusEvent_def HandleTransferEvent_def HandleStopAndTransferEvent_def setState_def
      handleRegistrationInfoEvent_def Let_def clearRegistrations_False)
qed

lemma process_not_Blocked:
  assumes "list_all (legal_event (pbs en)) es" "disp_inv (event_chans es) s" "eventConsumerTimeout (prm (fst s)) \<noteq> 0"
  shows "process en es s \<noteq> Blocked"
  using assms
proof (induction es arbitrary: s)
  case (Cons e es)
  have inv: "disp_inv (event_chan e @ event_chans es) s" using Cons.prems(2) by (simp add: event_chans_def)
  have leg: "legal_event (pbs en) e" using Cons.prems(1) by simp
  show ?case
  proof (cases "dispatch en e s")
    case (Ret a)
    obtain s1 r where a: "a = (s1, r)" by (cases a)
    have "disp_inv (event_chans es) s1" using dispatch_inv [OF leg inv] Ret a by simp
    moreover have "eventConsumerTimeout (prm (fst s1)) \<noteq> 0" using dispatch_prm Ret a Cons.prems(3) by simp
    ultimately have "process en es s1 \<noteq> Blocked" using Cons.IH Cons.prems(1) by simp
    then show ?thesis using Ret a by (auto simp: bindR_not_Blocked split: prod.split)
  qed (use dispatch_not_Blocked [OF Cons.prems(3) inv] in simp_all)
qed simp

section \<open>Transferring the registrations\<close>

abbreviation ccKey :: "registration \<Rightarrow> string" where
  "ccKey reg \<equiv> getCCKey (ChaincodeID reg) (EventFilter reg)"

lemma foldE_registerCC:
  "distinct (map ccKey rs) \<Longrightarrow> set (map ccKey rs) \<inter> fst ` set (ccRegistrations ed) = {} \<Longrightarrow>
   foldE registerCCEvent rs ed = (None, ed\<lparr>ccRegistrations := ccRegistrations ed @ map (\<lambda>r. (ccKey r, r)) rs\<rparr>)"
proof (induction rs arbitrary: ed)
  case (Cons r rs)
  then have "map_of (ccRegistrations ed) (ccKey r) = None" by (auto simp: map_of_eq_None_iff)
  then show ?case using Cons by (simp add: registerCCEvent_def Let_def)
qed simp

lemma foldE_registerTx:
  "distinct (map TxID rs) \<Longrightarrow> set (map TxID rs) \<inter> fst ` set (txRegistrations ed) = {} \<Longrightarrow>
   foldE registerTxStatusEvent rs ed = (None, ed\<lparr>txRegistrations := txRegistrations ed @ map (\<lambda>r. (TxID r, r)) rs\<rparr>)"
proof (induction rs arbitrary: ed)
  case (Cons r rs)
  then have "map_of (txRegistrations ed) (TxID r) = None" by (auto simp: map_of_eq_None_iff)
  then show ?case using Cons by (simp add: registerTxStatusEvent_def)
qed simp

lemma fold_registerBlock:
  "fold registerBlockEvent rs ed = ed\<lparr>blockRegistrations := blockRegistrations ed @ rs\<rparr>"
  by (induction rs arbitrary: ed) (simp_all add: registerBlockEvent_def)

lemma fold_registerFiltered:
  "fold registerFilteredBlockEvent rs ed = ed\<lparr>filteredBlockRegistrations := filteredBlockRegistrations ed @ rs\<rparr>"
  by (induction rs arbitrary: ed) (simp_all add: registerFilteredBlockEvent_def)

lemma rekey:
  assumes "\<forall>(k, r) \<in> set es. k = key r" "mset rs = mset (map snd es)"
  shows "mset (map (\<lambda>r. (key r, r)) rs) = mset es"
proof -
  have "map (\<lambda>r. (key r, r)) (map snd es) = es" using assms(1) by (induction es) auto
  then show ?thesis using assms(2) by (metis mset_map)
qed

lemma range_keys:
  assumes "\<forall>(k, r) \<in> set es. k = key r" "distinct (map fst es)"
  shows "distinct (map key (map snd (go_range en h es)))"
proof -
  have "map key (map snd es) = map fst es" using assms(1) by (induction es) auto
  moreover have "mset (map key (map snd (go_range en h es))) = mset (map key (map snd es))"
    using mset_go_range [of en h es] by (metis mset_map)
  ultimately show ?thesis using assms(2) mset_eq_imp_distinct_iff by metis
qed

lemma mapE_typed: "list_all P rs \<Longrightarrow> mapE (\<lambda>r. if P r then Inr r else Inl e) rs = Inr rs"
  using mapE_map [of rs "\<lambda>r. if P r then Inr r else Inl e" "\<lambda>r. r"] by (simp add: list_all_iff)

lemma SetSnapshot_newSnapshot:
  assumes "well_keyed ed"
  shows "SetSnapshot (newSnapshot en (ed, h)) p = Inr (p\<lparr>initialLastBlockNum := lastBlockNum ed,
    initialBlockRegistrations := blockRegistrations ed, initialFilteredBlockRegistrations := filteredBlockRegistrations ed,
    initialCCRegistrations := map snd (go_range en h (ccRegistrations ed)),
    initialTxStatusRegistrations := map snd (go_range en h (txRegistrations ed))\<rparr>)"
proof -
  have "list_all is_ChaincodeReg (map snd (go_range en h (ccRegistrations ed)))"
    "list_all is_TxStatusReg (map snd (go_range en h (txRegistrations ed)))"
    "list_all is_BlockReg (blockRegistrations ed)" "list_all is_FilteredBlockReg (filteredBlockRegistrations ed)"
    using assms by (auto simp: well_keyed_def list_all_iff)
  then show ?thesis
    by (simp add: SetSnapshot_def newSnapshot_def asBlockRegistrations_def asFBlockRegistrations_def asCCRegistrations_def
        asTxRegistrations_def mapE_typed)
qed

lemma Start_transferred:
  assumes "well_keyed ed" "SetSnapshot (newSnapshot en (ed, h)) p0 = Inr p"
  shows "\<exists>ed2. Start (dispatcher_New p) = (None, ed2) \<and> dstate ed2 = dispatcherStateStarted \<and>
    blockRegistrations ed2 = blockRegistrations ed \<and> filteredBlockRegistrations ed2 = filteredBlockRegistrations ed \<and>
    mset (ccRegistrations ed2) = mset (ccRegistrations ed) \<and> mset (txRegistrations ed2) = mset (txRegistrations ed) \<and>
    lastBlockNum ed2 = (if lastBlockNum ed = 0 then MaxUint64 else lastBlockNum ed)"
proof -
  let ?cc = "map snd (go_range en h (ccRegistrations ed))" and ?tx = "map snd (go_range en h (txRegistrations ed))"
  have p: "initialLastBlockNum p = lastBlockNum ed" "initialBlockRegistrations p = blockRegistrations ed"
    "initialFilteredBlockRegistrations p = filteredBlockRegistrations ed" "initialCCRegistrations p = ?cc"
    "initialTxStatusRegistrations p = ?tx"
    using assms(2) by (auto simp: SetSnapshot_newSnapshot [OF assms(1)])
  have key: "\<forall>(k, r) \<in> set (ccRegistrations ed). k = ccKey r" "\<forall>(k, r) \<in> set (txRegistrations ed). k = TxID r"
    "distinct (map fst (ccRegistrations ed))" "distinct (map fst (txRegistrations ed))"
    using assms(1) by (auto simp: well_keyed_def list_all_iff)
  note dist = range_keys [OF key(1,3), of en h] range_keys [OF key(2,4), of en h]
  define ed2 where "ed2 = (dispatcher_New p)\<lparr>dstate := dispatcherStateStarted, blockRegistrations := blockRegistrations ed,
    filteredBlockRegistrations := filteredBlockRegistrations ed, ccRegistrations := map (\<lambda>r. (ccKey r, r)) ?cc,
    txRegistrations := map (\<lambda>r. (TxID r, r)) ?tx\<rparr>"
  have "initRegistrations (dispatcher_New p\<lparr>dstate := dispatcherStateStarted\<rparr>) = (None, ed2)"
    using dist by (simp add: initRegistrations_def dispatcher_New_def p fold_registerBlock fold_registerFiltered
        foldE_registerCC foldE_registerTx ed2_def del: map_map)
  moreover have "prm ed2 = p" "lastBlockNum ed2 = MaxUint64" by (simp_all add: ed2_def dispatcher_New_def)
  ultimately have "Start (dispatcher_New p) = (None, if lastBlockNum ed > 0 then ed2\<lparr>lastBlockNum := lastBlockNum ed\<rparr> else ed2)"
    by (simp add: Start_def setState_def dispatcher_New_def p updateLastBlockNum_def)
  moreover have "mset (map (\<lambda>r. (ccKey r, r)) ?cc) = mset (ccRegistrations ed)"
    by (rule rekey [OF key(1)]) (use mset_go_range [of en h "ccRegistrations ed"] in simp)
  moreover have "mset (map (\<lambda>r. (TxID r, r)) ?tx) = mset (txRegistrations ed)"
    by (rule rekey [OF key(2)]) (use mset_go_range [of en h "txRegistrations ed"] in simp)
  ultimately show ?thesis
    by (intro exI [of _ "if lastBlockNum ed > 0 then ed2\<lparr>lastBlockNum := lastBlockNum ed\<rparr> else ed2"])
      (auto simp: ed2_def dispatcher_New_def word_gt_0 simp del: map_map mset_map)
qed

section \<open>The guarantees\<close>

text \<open>A small system to apply them to: two open channels, a block without transactions.\<close>

definition demo_pb :: protos where
  "demo_pb = \<lparr>unmarshalEnvelope = (\<lambda>_. Inl (ErrNew ''bad'')), unmarshalPayload = (\<lambda>_. Inl (ErrNew ''bad'')),
     unmarshalChannelHeader = (\<lambda>_. Inl (ErrNew ''bad'')), unmarshalTransaction = (\<lambda>_. Inl (ErrNew ''bad'')),
     unmarshalChaincodeActionPayload = (\<lambda>_. Inl (ErrNew ''bad'')),
     unmarshalProposalResponsePayload = (\<lambda>_. Inl (ErrNew ''bad'')), unmarshalChaincodeAction = (\<lambda>_. Inl (ErrNew ''bad'')),
     unmarshalChaincodeEvent = (\<lambda>_. Inl (ErrNew ''bad'')), TRANSACTIONS_FILTER = 2, ENDORSER_TRANSACTION = 3, VALID = 0\<rparr>"

definition demo_env :: env where
  "demo_env = \<lparr>recvsAtSend = (\<lambda>_ _. 0), recvsAtDeadline = (\<lambda>_ _. 0), mapOrder = (\<lambda>_ _. 0),
     compileRegexp = (\<lambda>f. Inr (\<lambda>n. n = f)), pbs = demo_pb\<rparr>"

definition demo_block :: block where
  "demo_block = \<lparr>HeaderNumber = 5, DataData = [], Metadata = [[], [], []]\<rparr>"

definition demo_ed :: Dispatcher where
  "demo_ed = (dispatcher_New defaultParams)\<lparr>dstate := dispatcherStateStarted,
     blockRegistrations := [BlockReg 0 (\<lambda>_. True) 0], txRegistrations := [(''tx1'', TxStatusReg 1 ''tx1'' 1)]\<rparr>"

definition demo_heap :: heap where
  "demo_heap = \<lparr>chans = (\<lambda>_. \<lparr>cap = 2, sent = [], isClosed = False\<rparr>), tick = 0\<rparr>"

definition demo_events :: "dispatcherEvent list" where
  "demo_events = [RegisterFilteredBlockEvent (FilteredBlockReg 2 2), BlockReceived demo_block ''u'', StopEvent]"

lemmas demo_defs = demo_pb_def demo_env_def demo_block_def demo_ed_def demo_heap_def demo_events_def
  disp_inv_def well_keyed_def own_channels_def regs_def dispatcher_New_def defaultParams_def event_chans_def

lemma demo_inv: "disp_inv (event_chans demo_events) (demo_ed, demo_heap)" "disp_inv [] (demo_ed, demo_heap)"
  by (simp_all add: demo_defs)

lemma demo_legal: "list_all (legal_event (pbs demo_env)) demo_events"
  by (simp add: demo_defs panics_def toFilteredBlock_def)

text \<open>
  C3. The dispatcher never panics: started with registrations that own distinct open channels, and fed any
  sequence of events in which every registration brings a channel of its own and every block converts, it
  never closes a closed channel, never sends on a closed one and never dereferences a missing filter; it
  keeps the invariant, and it handles the whole sequence unless the consumer timeout is 0, the only setting
  in which a send may block for ever.
\<close>

theorem dispatcher_never_panics:
  assumes "list_all (legal_event (pbs en)) es" "disp_inv (event_chans es) s"
  shows "(\<exists>s1 rs. process en es s = Ret (s1, rs) \<and> disp_inv [] s1) \<or>
    eventConsumerTimeout (prm (fst s)) = 0 \<and> process en es s = Blocked"
  using process_inv [OF assms(1), of "[]" s] process_not_Blocked [OF assms] assms(2)
  by (cases "process en es s") auto

theorem dispatcher_never_panics_witness:
  "(\<exists>s1 rs. process demo_env demo_events (demo_ed, demo_heap) = Ret (s1, rs) \<and> disp_inv [] s1) \<or>
    eventConsumerTimeout (prm (fst (demo_ed, demo_heap))) = 0 \<and>
    process demo_env demo_events (demo_ed, demo_heap) = Blocked"
  by (rule dispatcher_never_panics [OF demo_legal demo_inv(1)])

text \<open>
  C4. Blocks arrive in order: in every event channel the numbers of the blocks, and of the filtered blocks,
  that were delivered over any sequence of events increase strictly; a block that is received twice or late
  is never delivered. (The number \<open>MaxUint64\<close>, which the code uses for no block yet, is excluded.)
\<close>

theorem blocks_delivered_in_order:
  assumes "list_all (legal_event (pbs en)) es" "disp_inv (event_chans es) (ed, h)" "\<And>c. sent (chans h c) = []"
    "\<forall>e \<in> set es. MaxUint64 \<notin> set (event_number e)" "process en es (ed, h) = Ret ((ed1, h1), rs)"
  shows "sorted_wrt (<) (nums blockNum h1 c) \<and> sorted_wrt (<) (nums fblockNum h1 c)"
proof -
  have "ordered_logs (ed, h)" using assms(3) by (simp add: ordered_logs_def nums_def)
  then have "ordered_logs (ed1, h1)"
    using process_ordered [OF assms(1), of "[]" "(ed, h)"] assms(2,4,5) by simp
  then show ?thesis by (simp add: ordered_logs_def)
qed

lemma demo_process:
  "\<exists>ed1 h1 rs. process demo_env demo_events (demo_ed, demo_heap) = Ret ((ed1, h1), rs)"
proof -
  have "process demo_env demo_events (demo_ed, demo_heap) \<noteq> Blocked"
    by (rule process_not_Blocked [OF demo_legal demo_inv(1)]) (simp add: demo_defs)
  then show ?thesis using process_inv [OF demo_legal, of "[]" "(demo_ed, demo_heap)"] demo_inv(1)
    by (cases "process demo_env demo_events (demo_ed, demo_heap)") auto
qed

theorem blocks_delivered_in_order_witness:
  "\<exists>ed1 h1 rs. process demo_env demo_events (demo_ed, demo_heap) = Ret ((ed1, h1), rs) \<and>
    sorted_wrt (<) (nums blockNum h1 0) \<and> sorted_wrt (<) (nums fblockNum h1 0)"
proof -
  obtain ed1 h1 rs where p: "process demo_env demo_events (demo_ed, demo_heap) = Ret ((ed1, h1), rs)"
    using demo_process by blast
  have "\<forall>e \<in> set demo_events. MaxUint64 \<notin> set (event_number e)" by (simp add: demo_events_def demo_block_def)
  from blocks_delivered_in_order [OF demo_legal demo_inv(1) _ this p, of 0] p show ?thesis
    by (simp add: demo_heap_def)
qed

text \<open>
  C14. Delivery of a block: with a consumer timeout that is not 0, publishing a block returns, adds the block
  event exactly once to the channel of every block registration whose filter accepts it and whose consumer
  leaves room, and touches no channel of any other registration.
\<close>

theorem publishBlockEvents_exactly_once:
  assumes "disp_inv [] (ed, h)" "eventConsumerTimeout (prm ed) \<noteq> 0"
  shows "\<exists>h1. publishBlockEvents en ed blk url h = Ret h1 \<and>
    (\<forall>c. c \<notin> Eventch ` {reg \<in> set (blockRegistrations ed). BFilter reg blk} \<longrightarrow> chans h1 c = chans h c) \<and>
    (\<forall>reg \<in> set (blockRegistrations ed). BFilter reg blk \<and> has_room en (eventConsumerTimeout (prm ed)) h (Eventch reg) \<longrightarrow>
       chans h1 (Eventch reg) = (chans h (Eventch reg))\<lparr>sent := sent (chans h (Eventch reg)) @ [BlockEvent blk url]\<rparr>)"
  using publishBlockEvents_once [OF disp_inv_regs(2,1) [OF assms(1)], of en blk url] publish_not_Blocked(1) [OF assms(2), of en blk url h]
  by (cases "publishBlockEvents en ed blk url h") (auto simp: sent_once_def)

theorem publishBlockEvents_exactly_once_witness:
  "\<exists>h1. publishBlockEvents demo_env demo_ed demo_block ''u'' demo_heap = Ret h1 \<and>
     sent (chans h1 0) = [BlockEvent demo_block ''u''] \<and> sent (chans h1 1) = []"
proof -
  have "eventConsumerTimeout (prm demo_ed) \<noteq> 0" by (simp add: demo_defs)
  from publishBlockEvents_exactly_once [OF demo_inv(2) this, of demo_env demo_block "''u''"]
  obtain h1 where h1: "publishBlockEvents demo_env demo_ed demo_block ''u'' demo_heap = Ret h1"
    "1 \<notin> Eventch ` {reg \<in> set (blockRegistrations demo_ed). BFilter reg demo_block} \<longrightarrow> chans h1 1 = chans demo_heap 1"
    "\<forall>reg \<in> set (blockRegistrations demo_ed). BFilter reg demo_block \<and>
       has_room demo_env (eventConsumerTimeout (prm demo_ed)) demo_heap (Eventch reg) \<longrightarrow>
       chans h1 (Eventch reg) = (chans demo_heap (Eventch reg))\<lparr>sent := sent (chans demo_heap (Eventch reg)) @
         [BlockEvent demo_block ''u'']\<rparr>"
    by blast
  have "1 \<notin> Eventch ` {reg \<in> set (blockRegistrations demo_ed). BFilter reg demo_block}" by (auto simp: demo_ed_def)
  then have "sent (chans h1 1) = []" using h1(2) by (simp add: demo_heap_def)
  moreover have "has_room demo_env (eventConsumerTimeout (prm demo_ed)) demo_heap 0"
    by (simp add: has_room_def demo_env_def demo_heap_def)
  then have "sent (chans h1 0) = [BlockEvent demo_block ''u'']" using h1(3) by (simp add: demo_ed_def demo_heap_def)
  ultimately show ?thesis using h1(1) by blast
qed

text \<open>
  C13. No uninvited events: handling a filtered block only adds to event channels, and every event added is the
  filtered block for a filtered-block registration, the status of a transaction of the block for the
  registration of that transaction, or an event of a valid transaction of the block for a chaincode
  registration with that chaincode and a matching filter. A block not newer than the last one adds nothing.
\<close>

theorem HandleFilteredBlock_entitled:
  assumes "disp_inv [] (ed, h)" "HandleFilteredBlock en fb url (ed, h) = Ret (ed1, h1)"
  shows "\<exists>es. sent (chans h1 c) = sent (chans h c) @ es \<and> (\<forall>e \<in> set es. entitled en ed fb url c e) \<and>
    (lastBlockNum ed \<noteq> MaxUint64 \<and> Number fb \<le> lastBlockNum ed \<longrightarrow> es = [])"
proof (cases "updateLastBlockNum (Number fb) ed")
  case (Inl e)
  then show ?thesis using assms(2) by (simp add: HandleFilteredBlock_def)
next
  case (Inr ed2)
  have ed2: "ed2 = ed\<lparr>lastBlockNum := Number fb\<rparr>" by (rule updateLastBlockNum_keeps [OF Inr])
  have new: "\<not> (lastBlockNum ed \<noteq> MaxUint64 \<and> Number fb \<le> lastBlockNum ed)"
    using Inr by (auto simp: updateLastBlockNum_def not_le split: if_splits)
  have i2: "disp_inv [] (ed2, h)" using assms(1) ed2 by (simp add: disp_inv_grows [of "[]" ed h])
  have "grows (entitled en ed2 fb url) h h1"
    using assms(2) Inr publishFilteredBlockEvents_grows [OF disp_inv_regs(1,3) [OF i2], of en fb url]
    by (auto simp: HandleFilteredBlock_def bindR_Ret_iff split: if_splits)
  moreover have "entitled en ed2 fb url = entitled en ed fb url"
    by (simp add: fun_eq_iff entitled_def tx_entitled_def ed2)
  ultimately show ?thesis using new unfolding grows_def by metis
qed

definition demo_fblock :: FilteredBlock where
  "demo_fblock = \<lparr>ChannelId = ''ch'', Number = 5, FilteredTransactions =
     [\<lparr>FTType = 3, Txid = ''tx1'', TxValidationCode = 0, Data = None\<rparr>]\<rparr>"

theorem HandleFilteredBlock_entitled_witness:
  "\<exists>ed1 h1. HandleFilteredBlock demo_env demo_fblock ''u'' (demo_ed, demo_heap) = Ret (ed1, h1) \<and>
     (\<exists>es. sent (chans h1 1) = sent (chans demo_heap 1) @ es \<and> (\<forall>e \<in> set es. entitled demo_env demo_ed demo_fblock ''u'' 1 e) \<and>
       (lastBlockNum demo_ed \<noteq> MaxUint64 \<and> Number demo_fblock \<le> lastBlockNum demo_ed \<longrightarrow> es = []))"
proof -
  have "HandleFilteredBlock demo_env demo_fblock ''u'' (demo_ed, demo_heap) \<noteq> Blocked"
    by (rule HandleBlock_not_Blocked(2)) (simp add: demo_defs)
  then obtain ed1 h1 where h: "HandleFilteredBlock demo_env demo_fblock ''u'' (demo_ed, demo_heap) = Ret (ed1, h1)"
    using HandleFilteredBlock_inv [OF demo_inv(2), of demo_env demo_fblock "''u''"]
    by (cases "HandleFilteredBlock demo_env demo_fblock ''u'' (demo_ed, demo_heap)") auto
  from HandleFilteredBlock_entitled [OF demo_inv(2) h, of 1] h show ?thesis by blast
qed

text \<open>
  Stopping: the stop event of a started dispatcher closes the channel of every registration exactly once and
  no other channel, removes all registrations, reports no error, and no later event is handled.
\<close>

theorem HandleStopEvent_closes_all:
  assumes "disp_inv [] (ed, h)" "dstate ed = dispatcherStateStarted"
  shows "\<exists>ed1 h1. process en (StopEvent # es) (ed, h) = Ret ((ed1, h1), [ErrReply None]) \<and>
    regs ed1 = [] \<and> dstate ed1 = dispatcherStateStopped \<and>
    (\<forall>c. chans h1 c = (if c \<in> Eventch ` set (regs ed) then (chans h c)\<lparr>isClosed := True\<rparr> else chans h c))"
proof -
  let ?ed1 = "no_regs (ed\<lparr>dstate := dispatcherStateStopped\<rparr>)" and ?h1 = "close_in (Eventch ` set (regs ed)) h"
  have "disp_inv [] (ed\<lparr>dstate := dispatcherStateStopped\<rparr>, h)"
    by (rule disp_inv_grows [OF assms(1) grows_refl]) simp_all
  from clearRegistrations_True [OF disp_inv_regs(2,1) [OF this], of en]
  have "dispatch en StopEvent (ed, h) = Ret ((?ed1, ?h1), [ErrReply None])"
    using assms(2) by (simp add: HandleStopEvent_def setState_def)
  moreover have "process en es (?ed1, ?h1) = Ret ((?ed1, ?h1), [])" by (cases es) (simp_all add: no_regs_def)
  ultimately have "process en (StopEvent # es) (ed, h) = Ret ((?ed1, ?h1), [ErrReply None])" using assms(2) by simp
  then show ?thesis by (intro exI [of _ ?ed1] exI [of _ ?h1]) (simp add: no_regs_def regs_def close_in_def)
qed

theorem HandleStopEvent_closes_all_witness:
  "\<exists>ed1 h1. process demo_env (StopEvent # [StopEvent]) (demo_ed, demo_heap) = Ret ((ed1, h1), [ErrReply None]) \<and>
    regs ed1 = [] \<and> dstate ed1 = dispatcherStateStopped \<and>
    (\<forall>c. chans h1 c = (if c \<in> Eventch ` set (regs demo_ed) then (chans demo_heap c)\<lparr>isClosed := True\<rparr> else chans demo_heap c))"
  by (rule HandleStopEvent_closes_all [OF demo_inv(2)]) (simp add: demo_ed_def)

text \<open>
  Unregistering: when some registration matches the given one (the same block or filtered-block registration,
  the same chaincode and filter key, the same transaction), exactly one such registration is removed and its
  channel, and no other, is closed; otherwise nothing changes. It never panics and never blocks.
\<close>

theorem unregister_removes_one:
  assumes "disp_inv [] (ed, h)"
  shows "\<exists>ed1 h1. handleUnregisterEvent (Some r) (ed, h) = Ret ((ed1, h1), []) \<and>
    (if \<exists>reg \<in> set (regs ed). addressed r reg
     then \<exists>reg \<in> set (regs ed). addressed r reg \<and> mset (regs ed) = add_mset reg (mset (regs ed1)) \<and>
       chans h1 = (chans h)(Eventch reg := (chans h (Eventch reg))\<lparr>isClosed := True\<rparr>)
     else ed1 = ed \<and> h1 = h)"
proof -
  obtain ed1 h1 err where u: "handleUnregisterEvent (Some r) (ed, h) = Ret ((ed1, h1), [])"
    "removed [] (addressed r) (ed, h) (err, ed1, h1)"
    using handleUnregisterEvent_removed [OF assms, of r] by (auto simp: retR_iff)
  have "chans (close_in {c} h) = (chans h)(c := (chans h c)\<lparr>isClosed := True\<rparr>)" for c
    by (auto simp: close_in_def)
  then show ?thesis using u by (cases err) (auto simp: removed_def)
qed

theorem unregister_removes_one_witness:
  "\<exists>ed1 h1. handleUnregisterEvent (Some (TxStatusReg 9 ''tx1'' 7)) (demo_ed, demo_heap) = Ret ((ed1, h1), []) \<and>
    (if \<exists>reg \<in> set (regs demo_ed). addressed (TxStatusReg 9 ''tx1'' 7) reg
     then \<exists>reg \<in> set (regs demo_ed). addressed (TxStatusReg 9 ''tx1'' 7) reg \<and> mset (regs demo_ed) = add_mset reg (mset (regs ed1)) \<and>
       chans h1 = (chans demo_heap)(Eventch reg := (chans demo_heap (Eventch reg))\<lparr>isClosed := True\<rparr>)
     else ed1 = demo_ed \<and> h1 = demo_heap)"
  by (rule unregister_removes_one [OF demo_inv(2)])

text \<open>
  C12. Transfer: a snapshot of a dispatcher handed to a new dispatcher restores every registration, the same
  lists and the same map entries, whatever order the maps are ranged in, and the new dispatcher starts. The
  number of the last block is restored too, except block 0, after which the new dispatcher knows of no block
  and accepts block 0 again.
\<close>

theorem snapshot_roundtrip:
  assumes "well_keyed ed"
  shows "\<exists>p ed2. SetSnapshot (newSnapshot en (ed, h)) p0 = Inr p \<and> Start (dispatcher_New p) = (None, ed2) \<and>
    blockRegistrations ed2 = blockRegistrations ed \<and> filteredBlockRegistrations ed2 = filteredBlockRegistrations ed \<and>
    mset (ccRegistrations ed2) = mset (ccRegistrations ed) \<and> mset (txRegistrations ed2) = mset (txRegistrations ed) \<and>
    lastBlockNum ed2 = (if lastBlockNum ed = 0 then MaxUint64 else lastBlockNum ed)"
  using SetSnapshot_newSnapshot [OF assms, of en h p0] Start_transferred [OF assms, of en h p0] by blast

theorem snapshot_roundtrip_witness:
  "\<exists>p ed2. SetSnapshot (newSnapshot demo_env (demo_ed, demo_heap)) defaultParams = Inr p \<and> Start (dispatcher_New p) = (None, ed2) \<and>
    blockRegistrations ed2 = blockRegistrations demo_ed \<and> filteredBlockRegistrations ed2 = filteredBlockRegistrations demo_ed \<and>
    mset (ccRegistrations ed2) = mset (ccRegistrations demo_ed) \<and> mset (txRegistrations ed2) = mset (txRegistrations demo_ed) \<and>
    lastBlockNum ed2 = (if lastBlockNum demo_ed = 0 then MaxUint64 else lastBlockNum demo_ed)"
  by (rule snapshot_roundtrip) (simp add: demo_defs)

text \<open>
  Two chaincode registrations that differ in chaincode and in filter can have the same key: with a
  registration for chaincode \<open>a/b\<close> and filter \<open>c\<close> in place, registering for chaincode \<open>a\<close> and filter
  \<open>b/c\<close> is refused, although no registration for that chaincode and that filter exists.
\<close>

theorem ccKey_collision:
  "\<exists>ed reg e. well_keyed ed \<and> is_ChaincodeReg reg \<and>
     list_all (\<lambda>r. ChaincodeID r \<noteq> ChaincodeID reg \<and> EventFilter r \<noteq> EventFilter reg) (regs ed) \<and>
     registerCCEvent reg ed = (Some e, ed)"
proof -
  let ?r1 = "ChaincodeReg 0 ''a/b'' ''c'' (Some (\<lambda>_. True)) 0" and ?r2 = "ChaincodeReg 1 ''a'' ''b/c'' (Some (\<lambda>_. True)) 1"
  let ?ed = "(dispatcher_New defaultParams)\<lparr>ccRegistrations := [(''a/b/c'', ?r1)]\<rparr>"
  have "well_keyed ?ed" "list_all (\<lambda>r. ChaincodeID r \<noteq> ChaincodeID ?r2 \<and> EventFilter r \<noteq> EventFilter ?r2) (regs ?ed)"
    by (simp_all add: demo_defs getCCKey_def)
  moreover obtain e where "registerCCEvent ?r2 ?ed = (Some e, ?ed)" by (simp add: registerCCEvent_def getCCKey_def)
  ultimately have "well_keyed ?ed \<and> is_ChaincodeReg ?r2 \<and>
     list_all (\<lambda>r. ChaincodeID r \<noteq> ChaincodeID ?r2 \<and> EventFilter r \<noteq> EventFilter ?r2) (regs ?ed) \<and>
     registerCCEvent ?r2 ?ed = (Some e, ?ed)" by simp
  then show ?thesis by blast
qed

end
