(* ===== verification/PeerResolver.thy ===== *)
theory PeerResolver
  imports Balancing
begin

text \<open>
  Choosing the peer an event client connects to: \<^verbatim>\<open>pkg/fab/events/client/peerresolver\<close> with the
  resolvers \<open>minblockheight\<close>, \<open>preferorg\<close>, \<open>preferpeer\<close> and \<open>balanced\<close>. The dispatcher is read
  through \<open>LastBlockNum\<close> only, so its answer \<open>lastBlk\<close> is an argument; the load-balance policy is the
  contract \<open>load_balance_policy\<close>. Go's 64-bit \<open>int\<close> thresholds are integers converted by
  \<open>uint64(\<cdot>)\<close> where the code converts them.
\<close>

datatype ResolverMode = ResolveLatest | ResolveByThreshold | OtherMode string

record EventServicePolicy =
  MinBlockHeightResolverMode :: ResolverMode
  BlockHeightLagThreshold :: int
  ReconnectBlockHeightLagThreshold :: int

definition defaultBlockHeightLagThreshold :: int where "defaultBlockHeightLagThreshold = 5"

definition defaultReconnectBlockHeightLagThreshold :: int where "defaultReconnectBlockHeightLagThreshold = 10"

record resolver =
  blockHeightLagThreshold :: int
  reconnectBlockHeightLagThreshold :: int
  minBlockHeight :: uint64

definition getBlockHeightLagThreshold :: "EventServicePolicy \<Rightarrow> int" where
  "getBlockHeightLagThreshold policy =
     (case MinBlockHeightResolverMode policy of
        ResolveLatest \<Rightarrow> 0
      | ResolveByThreshold \<Rightarrow> BlockHeightLagThreshold policy
      | OtherMode _ \<Rightarrow> if BlockHeightLagThreshold policy \<le> 0 then defaultBlockHeightLagThreshold
                       else BlockHeightLagThreshold policy)"

definition getReconnectBlockHeightLagThreshold :: "EventServicePolicy \<Rightarrow> int" where
  "getReconnectBlockHeightLagThreshold policy =
     (if ReconnectBlockHeightLagThreshold policy \<le> 0 then defaultReconnectBlockHeightLagThreshold
      else ReconnectBlockHeightLagThreshold policy)"

definition resolver_defaultParams :: "EventServicePolicy \<Rightarrow> resolver" where
  "resolver_defaultParams policy = \<lparr>blockHeightLagThreshold = getBlockHeightLagThreshold policy,
     reconnectBlockHeightLagThreshold = getReconnectBlockHeightLagThreshold policy, minBlockHeight = 0\<rparr>"

definition SetFromBlock :: "uint64 \<Rightarrow> resolver \<Rightarrow> resolver" where
  "SetFromBlock v r = r\<lparr>minBlockHeight := v + 1\<rparr>"

definition SetBlockHeightLagThreshold :: "int \<Rightarrow> resolver \<Rightarrow> resolver" where
  "SetBlockHeightLagThreshold v r = r\<lparr>blockHeightLagThreshold := v\<rparr>"

definition SetReconnectBlockHeightLagThreshold :: "int \<Rightarrow> resolver \<Rightarrow> resolver" where
  "SetReconnectBlockHeightLagThreshold v r = r\<lparr>reconnectBlockHeightLagThreshold := v\<rparr>"

section \<open>The min block height resolver\<close>

definition doFilterByBlockHeight :: "resolver \<Rightarrow> uint64 \<Rightarrow> peer list \<Rightarrow> peer list" where
  "doFilterByBlockHeight r minHeight peers =
     (if minHeight > 0 then filter (at_height minHeight) peers
      else if blockHeightLagThreshold r < 0 \<or> length peers = 1 then peers
      else let maxHeight = getMaxBlockHeight peers in
        if maxHeight \<le> word_of_int (blockHeightLagThreshold r) then peers
        else filter (at_height (maxHeight - word_of_int (blockHeightLagThreshold r))) peers)"

definition Filter_minHeight :: "resolver \<Rightarrow> uint64 \<Rightarrow> uint64" where
  "Filter_minHeight r lastBlk =
     (if minBlockHeight r > 0
      then (if lastBlk = MaxUint64 then minBlockHeight r
            else if minBlockHeight r > lastBlk then minBlockHeight r else lastBlk + 1)
      else 0)"

definition resolver_Filter :: "resolver \<Rightarrow> uint64 \<Rightarrow> peer list \<Rightarrow> peer list" where
  "resolver_Filter r lastBlk peers =
     (let minHeight = Filter_minHeight r lastBlk;
          retPeers = doFilterByBlockHeight r minHeight peers
      in if retPeers = [] \<and> minHeight > 0
         then (let retPeers1 = doFilterByBlockHeight r (minHeight - 1) peers
               in if retPeers1 = [] then doFilterByBlockHeight r 0 peers else retPeers1)
         else retPeers)"

definition min_Resolve ::
  "('b \<Rightarrow> peer list \<Rightarrow> (peer option \<times> 'b) option) \<Rightarrow> resolver \<Rightarrow> uint64 \<Rightarrow> 'b \<Rightarrow> peer list \<Rightarrow> (peer option \<times> 'b) option" where
  "min_Resolve choose_from r lastBlk b peers = choose_from b (resolver_Filter r lastBlk peers)"

definition min_ShouldDisconnect :: "resolver \<Rightarrow> uint64 \<Rightarrow> peer list \<Rightarrow> peer \<Rightarrow> bool" where
  "min_ShouldDisconnect r lastBlk peers connectedPeer =
     (case BlockHeight connectedPeer of
        None \<Rightarrow> False
      | Some connectedPeerBlockHeight \<Rightarrow>
          (let maxHeight = getMaxBlockHeight peers; t = word_of_int (reconnectBlockHeightLagThreshold r) in
           if maxHeight \<le> t then False
           else if lastBlk + 1 < connectedPeerBlockHeight then False
           else if lastBlk + 1 \<ge> maxHeight - t then False
           else True))"

section \<open>Preferring an organisation or a peer\<close>

definition org_Resolve ::
  "('b \<Rightarrow> peer list \<Rightarrow> (peer option \<times> 'b) option) \<Rightarrow> string \<Rightarrow> resolver \<Rightarrow> uint64 \<Rightarrow> 'b \<Rightarrow> peer list \<Rightarrow> (peer option \<times> 'b) option" where
  "org_Resolve choose_from mspID r lastBlk b peers =
     (let filteredPeers = resolver_Filter r lastBlk peers;
          orgPeers = filter (\<lambda>p. MSPID p = mspID) filteredPeers
      in if orgPeers \<noteq> [] then choose_from b orgPeers else choose_from b filteredPeers)"

definition org_ShouldDisconnect :: "string \<Rightarrow> resolver \<Rightarrow> uint64 \<Rightarrow> peer list \<Rightarrow> peer \<Rightarrow> bool" where
  "org_ShouldDisconnect mspID r lastBlk peers connectedPeer =
     (if MSPID connectedPeer \<noteq> mspID \<and> list_ex (\<lambda>p. MSPID p = mspID) (resolver_Filter r lastBlk peers) then True
      else min_ShouldDisconnect r lastBlk peers connectedPeer)"

definition isPreferred :: "string list \<Rightarrow> peer \<Rightarrow> bool" where
  "isPreferred preferredPeers p = list_ex (\<lambda>url. Contains (URL p) url) preferredPeers"

definition getPreferredPeers :: "string list \<Rightarrow> peer list \<Rightarrow> peer list" where
  "getPreferredPeers preferredPeers peers = filter (isPreferred preferredPeers) peers"

definition peer_Resolve ::
  "('b \<Rightarrow> peer list \<Rightarrow> (peer option \<times> 'b) option) \<Rightarrow> string list \<Rightarrow> string \<Rightarrow> resolver \<Rightarrow> uint64 \<Rightarrow> 'b \<Rightarrow> peer list \<Rightarrow>
     (peer option \<times> 'b) option" where
  "peer_Resolve choose_from preferred mspID r lastBlk b peers =
     (let preferredPeers = getPreferredPeers preferred (resolver_Filter r lastBlk peers)
      in if preferredPeers \<noteq> [] then choose_from b preferredPeers else org_Resolve choose_from mspID r lastBlk b peers)"

definition peer_ShouldDisconnect :: "string list \<Rightarrow> string \<Rightarrow> resolver \<Rightarrow> uint64 \<Rightarrow> peer list \<Rightarrow> peer \<Rightarrow> bool" where
  "peer_ShouldDisconnect preferred mspID r lastBlk peers connectedPeer =
     (if \<not> isPreferred preferred connectedPeer \<and> getPreferredPeers preferred (resolver_Filter r lastBlk peers) \<noteq> [] then True
      else org_ShouldDisconnect mspID r lastBlk peers connectedPeer)"

definition balanced_Resolve ::
  "('b \<Rightarrow> peer list \<Rightarrow> (peer option \<times> 'b) option) \<Rightarrow> 'b \<Rightarrow> peer list \<Rightarrow> (peer option \<times> 'b) option" where
  "balanced_Resolve choose_from b peers = choose_from b peers"

definition balanced_ShouldDisconnect :: "peer list \<Rightarrow> peer \<Rightarrow> bool" where
  "balanced_ShouldDisconnect peers connectedPeer = False"

section \<open>Filtering\<close>

lemma doFilter_subseq: "subseq (doFilterByBlockHeight r m peers) peers"
  by (simp add: doFilterByBlockHeight_def Let_def)

lemma doFilter_0_nonempty:
  assumes "peers \<noteq> []"
  shows "doFilterByBlockHeight r 0 peers \<noteq> []"
  using assms some_at_height [of "word_of_int (blockHeightLagThreshold r)" peers]
  by (auto simp: doFilterByBlockHeight_def Let_def not_le)

lemma Filter_nonempty: "peers \<noteq> [] \<Longrightarrow> resolver_Filter r lastBlk peers \<noteq> []"
  using doFilter_0_nonempty [of peers r] by (auto simp: resolver_Filter_def Let_def word_gt_0)

lemma Filter_subseq: "subseq (resolver_Filter r lastBlk peers) peers"
  by (simp add: resolver_Filter_def Let_def doFilter_subseq)

text \<open>
  The peers an event client may connect to: filtering never loses all peers, keeps their order, and whenever
  some peer has a height of at least the required one (the configured minimum, raised to one above the last
  block received) or tells no height, exactly the peers of that kind remain.
\<close>

theorem Filter_correct:
  assumes "peers \<noteq> []"
  shows "resolver_Filter r lastBlk peers \<noteq> [] \<and> subseq (resolver_Filter r lastBlk peers) peers \<and>
    (Filter_minHeight r lastBlk > 0 \<and> (\<exists>p \<in> set peers. at_height (Filter_minHeight r lastBlk) p) \<longrightarrow>
       resolver_Filter r lastBlk peers = filter (at_height (Filter_minHeight r lastBlk)) peers)"
proof (intro conjI impI)
  show "resolver_Filter r lastBlk peers \<noteq> []" by (rule Filter_nonempty [OF assms])
  show "subseq (resolver_Filter r lastBlk peers) peers" by (rule Filter_subseq)
  assume "Filter_minHeight r lastBlk > 0 \<and> (\<exists>p \<in> set peers. at_height (Filter_minHeight r lastBlk) p)"
  then show "resolver_Filter r lastBlk peers = filter (at_height (Filter_minHeight r lastBlk)) peers"
    by (auto simp: resolver_Filter_def doFilterByBlockHeight_def Let_def filter_empty_conv)
qed

theorem Filter_correct_witness:
  "let r = \<lparr>blockHeightLagThreshold = 5, reconnectBlockHeightLagThreshold = 10, minBlockHeight = 1\<rparr>;
       peers = [\<lparr>peerRef = 0, MSPID = ''A'', URL = ''a'', BlockHeight = Some 7\<rparr>, \<lparr>peerRef = 1, MSPID = ''B'', URL = ''b'', BlockHeight = Some 9\<rparr>]
   in resolver_Filter r 7 peers = [\<lparr>peerRef = 1, MSPID = ''B'', URL = ''b'', BlockHeight = Some 9\<rparr>]"
proof -
  let ?r = "\<lparr>blockHeightLagThreshold = 5, reconnectBlockHeightLagThreshold = 10, minBlockHeight = 1\<rparr>"
  let ?peers = "[\<lparr>peerRef = 0, MSPID = ''A'', URL = ''a'', BlockHeight = Some 7\<rparr>, \<lparr>peerRef = 1, MSPID = ''B'', URL = ''b'', BlockHeight = Some (9 :: uint64)\<rparr>]"
  have "Filter_minHeight ?r 7 = 8" by (simp add: Filter_minHeight_def)
  then show ?thesis using Filter_correct [of ?peers ?r 7] by (simp add: at_height_def)
qed

section \<open>Disconnecting\<close>

text \<open>The number of blocks received so far, without wrap-around.\<close>

definition received :: "uint64 \<Rightarrow> nat" where
  "received lastBlk = (if lastBlk = MaxUint64 then 0 else Suc (unat lastBlk))"

lemma unat_received: "unat (lastBlk + 1) = received lastBlk"
proof (cases "lastBlk = MaxUint64")
  case False
  then have "lastBlk + 1 \<noteq> 0" by (metis add_eq_0_iff2 minus_minus)
  then show ?thesis using False by (simp add: received_def unatSuc add.commute [of lastBlk])
qed (simp add: received_def)

text \<open>
  When the client leaves its peer: the code's comparisons on wrapping 64-bit numbers decide exactly this. The
  peer tells its height, every block of that height has been received, and the highest peer is ahead of the
  blocks received by more than the reconnect threshold (a threshold of 0 included: it does not disable
  the check).
\<close>

theorem min_ShouldDisconnect_iff:
  assumes "0 \<le> reconnectBlockHeightLagThreshold r" "reconnectBlockHeightLagThreshold r < 2 ^ 63"
  shows "min_ShouldDisconnect r lastBlk peers p \<longleftrightarrow>
    (\<exists>h. BlockHeight p = Some h \<and> unat h \<le> received lastBlk \<and>
       int (received lastBlk) + reconnectBlockHeightLagThreshold r < int (unat (getMaxBlockHeight peers)))"
proof -
  define t :: uint64 where "t = word_of_int (reconnectBlockHeightLagThreshold r)"
  define m where "m = getMaxBlockHeight peers"
  have t: "int (unat t) = reconnectBlockHeightLagThreshold r"
    using assms by (simp add: t_def unsigned_of_int take_bit_int_eq_self)
  have sub: "unat (m - t) = unat m - unat t" if "\<not> m \<le> t"
    using that by (simp add: unat_sub_if_size word_le_nat_alt)
  have "min_ShouldDisconnect r lastBlk peers p \<longleftrightarrow>
    (\<exists>h. BlockHeight p = Some h \<and> \<not> m \<le> t \<and> unat h \<le> received lastBlk \<and> received lastBlk < unat (m - t))"
    by (auto simp: min_ShouldDisconnect_def Let_def t_def [symmetric] m_def [symmetric] word_less_nat_alt word_le_nat_alt
        unat_received not_less not_le split: option.split)
  also have "\<dots> \<longleftrightarrow> (\<exists>h. BlockHeight p = Some h \<and> unat h \<le> received lastBlk \<and>
       int (received lastBlk) + int (unat t) < int (unat m))"
  proof -
    have "(\<not> m \<le> t \<and> received lastBlk < unat (m - t)) = (int (received lastBlk) + int (unat t) < int (unat m))"
    proof (cases "m \<le> t")
      case True
      then have "unat m \<le> unat t" by (simp add: word_le_nat_alt)
      then show ?thesis using True by linarith
    next
      case False
      then show ?thesis unfolding sub [OF False] by linarith
    qed
    then show ?thesis by blast
  qed
  finally show ?thesis unfolding t m_def .
qed

theorem min_ShouldDisconnect_iff_witness:
  "let r = \<lparr>blockHeightLagThreshold = 5, reconnectBlockHeightLagThreshold = 0, minBlockHeight = 0\<rparr>;
       p = \<lparr>peerRef = 0, MSPID = ''A'', URL = ''a'', BlockHeight = Some 7\<rparr>; q = p\<lparr>BlockHeight := Some 8\<rparr>
   in min_ShouldDisconnect r 6 [p, q] p"
proof -
  let ?r = "\<lparr>blockHeightLagThreshold = 5, reconnectBlockHeightLagThreshold = 0, minBlockHeight = 0\<rparr>"
  show ?thesis using min_ShouldDisconnect_iff [of ?r 6] by (simp add: received_def getMaxBlockHeight_def Let_def)
qed

section \<open>Choosing\<close>

context load_balance_policy
begin

lemma chosen_from:
  assumes "lb_invar b" "ps \<noteq> []" "subseq ps peers" "length peers \<le> 2 ^ 31"
  shows "\<exists>p b1. chooser b ps = Some (Some p, b1) \<and> p \<in> set ps \<and> p \<in> set peers \<and> lb_invar b1"
proof -
  have "length ps \<le> 2 ^ 31" using list_emb_length [OF assms(3)] assms(4) by simp
  from choose_member [OF assms(1,2) this] show ?thesis
    using assms(3) by (auto dest: list_emb_set)
qed

lemma org_Resolve_prefers:
  assumes "lb_invar b" "peers \<noteq> []" "length peers \<le> 2 ^ 31"
  shows "\<exists>p b1. org_Resolve chooser mspID r lastBlk b peers = Some (Some p, b1) \<and> lb_invar b1 \<and>
    p \<in> set (resolver_Filter r lastBlk peers) \<and>
    ((\<exists>q \<in> set (resolver_Filter r lastBlk peers). MSPID q = mspID) \<longrightarrow> MSPID p = mspID)"
proof -
  let ?F = "resolver_Filter r lastBlk peers" and ?O = "filter (\<lambda>p. MSPID p = mspID) (resolver_Filter r lastBlk peers)"
  note F = Filter_nonempty [OF assms(2), of r lastBlk] Filter_subseq [of r lastBlk peers]
  show ?thesis
  proof (cases "?O = []")
    case True
    then show ?thesis using chosen_from [OF assms(1) F assms(3)] by (auto simp: org_Resolve_def filter_empty_conv)
  next
    case False
    have "subseq ?O peers" using F(2) subseq_filter_left subseq_order.order_trans by blast
    from chosen_from [OF assms(1) False this assms(3)] show ?thesis using False by (auto simp: org_Resolve_def Let_def)
  qed
qed

lemma peer_Resolve_prefers:
  assumes "lb_invar b" "peers \<noteq> []" "length peers \<le> 2 ^ 31"
  shows "\<exists>p b1. peer_Resolve chooser preferred mspID r lastBlk b peers = Some (Some p, b1) \<and> lb_invar b1 \<and>
    p \<in> set (resolver_Filter r lastBlk peers) \<and>
    (if \<exists>q \<in> set (resolver_Filter r lastBlk peers). isPreferred preferred q then isPreferred preferred p
     else (\<exists>q \<in> set (resolver_Filter r lastBlk peers). MSPID q = mspID) \<longrightarrow> MSPID p = mspID)"
proof (cases "getPreferredPeers preferred (resolver_Filter r lastBlk peers) = []")
  case True
  then show ?thesis using org_Resolve_prefers [OF assms]
    by (auto simp: peer_Resolve_def getPreferredPeers_def filter_empty_conv)
next
  case False
  have "subseq (getPreferredPeers preferred (resolver_Filter r lastBlk peers)) peers"
    unfolding getPreferredPeers_def
    using Filter_subseq subseq_filter_left subseq_order.order_trans by blast
  from chosen_from [OF assms(1) False this assms(3)] show ?thesis using False
    by (auto simp: peer_Resolve_def Let_def getPreferredPeers_def filter_empty_conv)
qed

end

text \<open>
  Preferences: the prefer-peer resolver with the round-robin policy chooses a suitable peer (one that passes
  the height filter), a preferred one when some suitable peer is preferred, and otherwise one of the
  client's organisation when some suitable peer belongs to it. It always finds a peer when there is one.
\<close>

theorem peer_Resolve_roundrobin:
  assumes "counter_ok b" "peers \<noteq> []" "length peers \<le> 2 ^ 31"
  shows "\<exists>p b1. peer_Resolve (lbp_RoundRobin_Choose seed) preferred mspID r lastBlk b peers = Some (Some p, b1) \<and> counter_ok b1 \<and>
    p \<in> set (resolver_Filter r lastBlk peers) \<and>
    (if \<exists>q \<in> set (resolver_Filter r lastBlk peers). isPreferred preferred q then isPreferred preferred p
     else (\<exists>q \<in> set (resolver_Filter r lastBlk peers). MSPID q = mspID) \<longrightarrow> MSPID p = mspID)"
  by (rule roundrobin_lbp.peer_Resolve_prefers [OF assms])

theorem peer_Resolve_roundrobin_witness:
  "let r = \<lparr>blockHeightLagThreshold = 5, reconnectBlockHeightLagThreshold = 10, minBlockHeight = 0\<rparr>;
       peers = [\<lparr>peerRef = 0, MSPID = ''A'', URL = ''a'', BlockHeight = Some 7\<rparr>]
   in \<exists>p b1. peer_Resolve (lbp_RoundRobin_Choose (\<lambda>_. 0)) [''a''] ''B'' r 7 counter_New peers = Some (Some p, b1) \<and> counter_ok b1 \<and>
      p \<in> set (resolver_Filter r 7 peers) \<and>
      (if \<exists>q \<in> set (resolver_Filter r 7 peers). isPreferred [''a''] q then isPreferred [''a''] p
       else (\<exists>q \<in> set (resolver_Filter r 7 peers). MSPID q = ''B'') \<longrightarrow> MSPID p = ''B'')"
  unfolding Let_def by (rule peer_Resolve_roundrobin) simp_all

end
