(* ===== verification/Greylist.thy ===== *)
theory Greylist
  imports Status Balancing
begin

text \<open>
  Endpoint URLs and the filters on peers: \<^verbatim>\<open>pkg/core/config/endpoint/endpoint.go\<close>, the greylist of
  \<^verbatim>\<open>pkg/client/common/discovery/greylist\<close> and the endpoint filter of \<^verbatim>\<open>pkg/client/common/filter\<close>.
  The clock is an argument: every call is given the time (in nanoseconds) that \<open>time.Now\<close> returns in it.
\<close>

section \<open>URLs\<close>

definition lowerByte :: "char \<Rightarrow> char" where
  "lowerByte c = (let n = of_char c :: nat in if 65 \<le> n \<and> n \<le> 90 then char_of (n + 32) else c)"

definition ToLower :: "string \<Rightarrow> string" where
  "ToLower = map lowerByte"

definition IsTLSEnabled :: "string \<Rightarrow> bool" where
  "IsTLSEnabled url = (let tlsURL = ToLower url in HasPrefix tlsURL ''https://'' \<or> HasPrefix tlsURL ''grpcs://'')"

definition ToAddress :: "string \<Rightarrow> string" where
  "ToAddress url =
     (if HasPrefix url ''grpc://'' then TrimPrefix url ''grpc://''
      else if HasPrefix url ''grpcs://'' then TrimPrefix url ''grpcs://''
      else url)"

text \<open>The regular expression \<open>.*(?i)s://\<close> matches a URL that contains \<open>s://\<close> in either case.\<close>

definition AttemptSecured :: "string \<Rightarrow> bool \<Rightarrow> bool" where
  "AttemptSecured url allowInSecure =
     (if Contains url ''s://'' \<or> Contains url ''S://'' then True
      else if Contains url ''://'' then False
      else \<not> allowInSecure)"

section \<open>The greylist\<close>

record Filter =
  greylistURLs :: "string \<rightharpoonup> int"
  expiryInterval :: int

definition greylist_New :: "int \<Rightarrow> Filter" where
  "greylist_New expire = \<lparr>greylistURLs = Map.empty, expiryInterval = expire\<rparr>"

definition greylist_Accept :: "int \<Rightarrow> peer \<Rightarrow> Filter \<Rightarrow> bool \<times> Filter" where
  "greylist_Accept now p b =
     (let peerAddress = ToAddress (URL p) in
      case greylistURLs b peerAddress of
        Some timeAdded \<Rightarrow>
          if timeAdded + expiryInterval b > now then (False, b)
          else (True, b\<lparr>greylistURLs := (greylistURLs b)(peerAddress := None)\<rparr>)
      | None \<Rightarrow> (True, b))"

definition peerURLFromConnectionFailedStatus :: "detail list \<Rightarrow> string" where
  "peerURLFromConnectionFailedStatus details =
     (case details of DString url # _ \<Rightarrow> ToAddress url | _ \<Rightarrow> '''')"

definition required :: "status \<Rightarrow> bool \<times> string" where
  "required s =
     (if Group s = EndorserClientStatus \<and> Code s = ToInt32 ConnectionFailed
      then (True, peerURLFromConnectionFailedStatus (Details s)) else (False, ''''))"

definition Greylist :: "ext \<Rightarrow> int \<Rightarrow> error option \<Rightarrow> Filter \<Rightarrow> Filter" where
  "Greylist x now err b =
     (case FromError x err of None \<Rightarrow> b
      | Some s \<Rightarrow>
         (case required s of (ok, peerURL) \<Rightarrow>
            if ok \<and> peerURL \<noteq> '''' then b\<lparr>greylistURLs := (greylistURLs b)(peerURL \<mapsto> now)\<rparr> else b))"

section \<open>The endpoint filter\<close>

datatype EndpointType = ChaincodeQuery | EndorsingPeer | LedgerQuery | EventSource

record ChannelPeer =
  cpURL :: string
  cpEndorsingPeer :: bool
  cpChaincodeQuery :: bool
  cpLedgerQuery :: bool
  cpEventSource :: bool

record EndpointFilter =
  endpointType :: EndpointType
  chPeers :: "ChannelPeer list"

text \<open>\<open>search\<close> is \<open>comm.SearchPeerConfigFromURL\<close>: the URL of the configuration of a peer, or an error.\<close>

definition getChannelPeer :: "EndpointFilter \<Rightarrow> string \<Rightarrow> ChannelPeer option" where
  "getChannelPeer f cfgURL = List.find (\<lambda>chpeer. cpURL chpeer = cfgURL) (chPeers f)"

definition endpoint_Accept :: "(string \<Rightarrow> error + string) \<Rightarrow> EndpointFilter \<Rightarrow> peer \<Rightarrow> bool" where
  "endpoint_Accept search f p =
     (case search (URL p) of Inl _ \<Rightarrow> True
      | Inr cfgURL \<Rightarrow>
         (case getChannelPeer f cfgURL of None \<Rightarrow> True
          | Some chPeer \<Rightarrow>
             (case endpointType f of ChaincodeQuery \<Rightarrow> cpChaincodeQuery chPeer
              | EndorsingPeer \<Rightarrow> cpEndorsingPeer chPeer
              | LedgerQuery \<Rightarrow> cpLedgerQuery chPeer
              | EventSource \<Rightarrow> cpEventSource chPeer)))"

section \<open>Runs of the greylist\<close>

datatype grey_op = OpAccept peer | OpGreylist "error option"

definition grey_step :: "ext \<Rightarrow> int \<times> grey_op \<Rightarrow> Filter \<Rightarrow> Filter" where
  "grey_step x op b = (case op of (now, OpAccept p) \<Rightarrow> snd (greylist_Accept now p b)
     | (now, OpGreylist err) \<Rightarrow> Greylist x now err b)"

definition grey_run :: "ext \<Rightarrow> int \<Rightarrow> (int \<times> grey_op) list \<Rightarrow> Filter" where
  "grey_run x expire ops = fold (grey_step x) ops (greylist_New expire)"

text \<open>The address an error puts on the list.\<close>

definition blames :: "ext \<Rightarrow> error option \<Rightarrow> string option" where
  "blames x err =
     (case FromError x err of None \<Rightarrow> None
      | Some s \<Rightarrow> (case required s of (ok, u) \<Rightarrow> if ok \<and> u \<noteq> '''' then Some u else None))"

fun lastBlamed :: "ext \<Rightarrow> string \<Rightarrow> (int \<times> grey_op) list \<Rightarrow> int option \<Rightarrow> int option" where
  "lastBlamed x u [] t = t"
| "lastBlamed x u ((now, OpAccept p) # ops) t = lastBlamed x u ops t"
| "lastBlamed x u ((now, OpGreylist err) # ops) t =
     lastBlamed x u ops (if blames x err = Some u then Some now else t)"

lemma Greylist_blames:
  "Greylist x now err b = (case blames x err of None \<Rightarrow> b | Some u \<Rightarrow> b\<lparr>greylistURLs := (greylistURLs b)(u \<mapsto> now)\<rparr>)"
  by (auto simp: Greylist_def blames_def split: option.split prod.split)

text \<open>The list agrees with the history: an entry is the last time its address was blamed, and an address
  that has been blamed lately is listed.\<close>

definition grey_entry :: "int \<Rightarrow> int \<Rightarrow> int option \<Rightarrow> int option \<Rightarrow> bool" where
  "grey_entry expire now hist entry =
     (case hist of None \<Rightarrow> entry = None
        | Some t \<Rightarrow> entry = Some t \<or> (entry = None \<and> t + expire \<le> now))"

definition grey_inv :: "int \<Rightarrow> (string \<Rightarrow> int option) \<Rightarrow> Filter \<Rightarrow> bool" where
  "grey_inv now hist b \<longleftrightarrow> (\<forall>u. grey_entry (expiryInterval b) now (hist u) (greylistURLs b u))"

lemma grey_entry_mono: "grey_entry ex now h e \<Longrightarrow> now \<le> now' \<Longrightarrow> grey_entry ex now' h e"
  by (auto simp: grey_entry_def split: option.splits)

lemma grey_entry_drop: "grey_entry ex now h (Some t) \<Longrightarrow> t + ex \<le> now \<Longrightarrow> grey_entry ex now h None"
  by (auto simp: grey_entry_def split: option.splits)

lemma grey_entry_rejects:
  "grey_entry ex now h e \<Longrightarrow>
     (case e of None \<Rightarrow> True | Some t \<Rightarrow> \<not> t + ex > now) \<longleftrightarrow> (case h of None \<Rightarrow> True | Some t \<Rightarrow> t + ex \<le> now)"
  by (auto simp: grey_entry_def split: option.splits)

lemma grey_inv_mono: "grey_inv now hist b \<Longrightarrow> now \<le> now' \<Longrightarrow> grey_inv now' hist b"
  by (auto simp: grey_inv_def intro: grey_entry_mono)

lemma grey_inv_Accept:
  assumes "grey_inv now hist b"
  shows "grey_inv now hist (snd (greylist_Accept now p b))"
proof -
  have e: "grey_entry (expiryInterval b) now (hist u) (greylistURLs b u)" for u
    using assms by (simp add: grey_inv_def)
  show ?thesis
  proof (cases "greylistURLs b (ToAddress (URL p))")
    case None
    then show ?thesis using assms by (simp add: greylist_Accept_def)
  next
    case (Some t)
    then show ?thesis using e grey_entry_drop [OF e [of "ToAddress (URL p)", unfolded Some]]
      by (simp add: greylist_Accept_def grey_inv_def)
  qed
qed

lemma grey_inv_Greylist:
  assumes "grey_inv now hist b"
  shows "grey_inv now (\<lambda>u. if blames x err = Some u then Some now else hist u) (Greylist x now err b)"
proof -
  have e: "grey_entry (expiryInterval b) now (hist u) (greylistURLs b u)" for u
    using assms by (simp add: grey_inv_def)
  show ?thesis
  proof (cases "blames x err")
    case None
    then show ?thesis using assms by (simp add: Greylist_blames)
  next
    case (Some v)
    have "grey_entry (expiryInterval b) now (Some now) (Some now)" by (simp add: grey_entry_def)
    with Some e show ?thesis by (auto simp: Greylist_blames grey_inv_def)
  qed
qed

lemma expiry_step [simp]: "expiryInterval (grey_step x op b) = expiryInterval b"
  by (auto simp: grey_step_def greylist_Accept_def Greylist_blames Let_def split: prod.split grey_op.split option.split)

lemma grey_run_inv:
  "grey_inv t0 hist b \<Longrightarrow> sorted (t0 # map fst ops @ [now]) \<Longrightarrow>
     grey_inv now (\<lambda>u. lastBlamed x u ops (hist u)) (fold (grey_step x) ops b)"
proof (induction ops arbitrary: t0 hist b)
  case Nil
  then show ?case by (auto intro: grey_inv_mono)
next
  case (Cons op ops)
  obtain t o1 where op: "op = (t, o1)" by fastforce
  from Cons.prems op have inv: "grey_inv t hist b" and s: "sorted (t # map fst ops @ [now])"
    by (auto intro: grey_inv_mono)
  show ?case
  proof (cases o1)
    case (OpAccept p)
    from Cons.IH [OF grey_inv_Accept [OF inv] s] show ?thesis by (simp add: op OpAccept grey_step_def)
  next
    case (OpGreylist err)
    from Cons.IH [OF grey_inv_Greylist [OF inv] s] show ?thesis by (simp add: op OpGreylist grey_step_def)
  qed
qed

lemma expiry_run [simp]: "expiryInterval (fold (grey_step x) ops b) = expiryInterval b"
  by (induction ops arbitrary: b) simp_all

section \<open>Properties\<close>

text \<open>
  C31. The greylist refines its history. After any sequence of calls with a clock that does not go back,
  a peer is rejected exactly when the last connection failure reported for its address is younger than
  the expiry interval; neither the protocol in its URL nor the removal of expired entries by earlier
  calls matters.
\<close>

theorem greylist_Accept_iff:
  assumes "sorted (map fst ops @ [now])"
  shows "fst (greylist_Accept now p (grey_run x expire ops)) \<longleftrightarrow>
    (case lastBlamed x (ToAddress (URL p)) ops None of None \<Rightarrow> True | Some t \<Rightarrow> t + expire \<le> now)"
proof -
  define t0 where "t0 = hd (map fst ops @ [now])"
  have "sorted (t0 # map fst ops @ [now])" using assms by (cases ops) (auto simp: t0_def)
  moreover have "grey_inv t0 (\<lambda>u. None) (greylist_New expire)" by (simp add: grey_inv_def grey_entry_def greylist_New_def)
  ultimately have "grey_inv now (\<lambda>u. lastBlamed x u ops None) (grey_run x expire ops)"
    using grey_run_inv [of t0 "\<lambda>u. None"] by (simp add: grey_run_def)
  moreover have "expiryInterval (grey_run x expire ops) = expire" by (simp add: grey_run_def greylist_New_def)
  ultimately have "grey_entry expire now (lastBlamed x (ToAddress (URL p)) ops None)
      (greylistURLs (grey_run x expire ops) (ToAddress (URL p)))"
    and ex: "expiryInterval (grey_run x expire ops) = expire" by (simp_all add: grey_inv_def)
  from grey_entry_rejects [OF this(1)] show ?thesis
    by (auto simp: greylist_Accept_def Let_def ex split: option.splits)
qed

text \<open>The peer of the witness failed at time 10 and is tried again before and after 15, the expiry.\<close>

theorem greylist_Accept_iff_witness:
  "\<not> fst (greylist_Accept 14 \<lparr>peerRef = 0, MSPID = ''Org1MSP'', URL = ''grpcs://p1:7051'', BlockHeight = None\<rparr>
      (grey_run pkg_errors 5 [(10, OpGreylist (Some (ErrStatus (Status EndorserClientStatus ConnectionFailed ''down'' [DString ''grpc://p1:7051'']))))]))"
  using greylist_Accept_iff [of "[(10, OpGreylist (Some (ErrStatus (Status EndorserClientStatus ConnectionFailed ''down'' [DString ''grpc://p1:7051'']))))]"
      14 "\<lparr>peerRef = 0, MSPID = ''Org1MSP'', URL = ''grpcs://p1:7051'', BlockHeight = None\<rparr>" pkg_errors 5]
  by (simp add: blames_def FromError_def required_def ToInt32_def peerURLFromConnectionFailedStatus_def ToAddress_def
      HasPrefix_def TrimPrefix_def)

text \<open>An error with several causes blames nobody, even if each of them is a failed connection.\<close>

lemma multi_blames_none:
  "cause_documented x \<Longrightarrow> unwrap e = ErrMulti m \<Longrightarrow> blames x (Some e) = None"
  by (simp add: blames_def FromError_unwrap required_def status_New_def go_defs)

end
