(* ===== verification/Txn.thy ===== *)
theory Txn
  imports FilteredBlock Balancing
begin

text \<open>
  Transactions: \<^verbatim>\<open>pkg/fab/txn\<close> (\<open>env.go\<close>, \<open>proposal.go\<close>, \<open>txn.go\<close>), the transactor of
  \<^verbatim>\<open>pkg/fab/channel/transactor.go\<close> that calls it, and the signature verifier of
  \<^verbatim>\<open>pkg/client/common/verifier\<close>. Protobuf marshalling, cryptography, the peers and the orderers are the
  record \<open>txn_ext\<close> of parameters. The Go routines of \<open>SendProposal\<close> finish in an arbitrary order, drawn
  from \<open>finishOrder\<close>; \<open>rand.Perm\<close> draws from \<open>ordererOrder\<close>.
\<close>

record Proposal =
  PropHeader :: bytes
  PropPayload :: bytes

record TransactionProposal =
  TxnID :: string
  TPProposal :: "Proposal option"

record Endorsement =
  EndorserID :: bytes
  Signature :: bytes

record Response =
  RespStatus :: int32
  RespMessage :: string
  RespPayload :: bytes

record ProposalResponse =
  PRResponse :: "Response option"
  PRPayload :: bytes
  PREndorsement :: "Endorsement option"

record TransactionProposalResponse =
  Endorser :: string
  TPRStatus :: int32
  TPRChaincodeStatus :: int32
  TPRResponse :: ProposalResponse

record Header =
  HSignatureHeader :: bytes
  HChannelHeader :: bytes

record Transaction =
  ActionHeader :: bytes
  ActionPayload :: bytes
  TxProposal :: "TransactionProposal option"

record TransactionHeader =
  thID :: string
  thCreator :: bytes
  thNonce :: bytes
  thChannelID :: string

record SignedEnvelope =
  EnvPayload :: bytes
  EnvSignature :: bytes

record ChaincodeInvokeRequest =
  ReqChaincodeID :: string
  ReqFcn :: string
  ReqArgs :: "bytes list"
  ReqIsInit :: bool
  ReqLang :: nat
  ReqTransientMap :: "(string \<times> bytes) list"

datatype processor = NilProcessor | PeerProcessor peer | OtherProcessor nat

type_synonym orderer = string

record txn_ext =
  randomNonce :: "error + bytes"
  serializeIdentity :: "error + bytes"
  getHash :: "error + (bytes \<Rightarrow> error + bytes)"
  marshalProposal :: "TransactionHeader \<Rightarrow> string \<Rightarrow> bytes list \<Rightarrow> bool \<Rightarrow> nat \<Rightarrow> (string \<times> bytes) list \<Rightarrow> error + Proposal"
  clientContext :: bool
  signingManager :: "(bytes \<Rightarrow> error + bytes) option"
  marshalProp :: "Proposal option \<Rightarrow> error + bytes"
  unmarshalHeader :: "bytes \<Rightarrow> error + Header"
  unmarshalProposalPayload :: "bytes \<Rightarrow> error + bytes"
  payloadForTx :: "bytes \<Rightarrow> error + bytes"
  marshalActionPayload :: "bytes \<Rightarrow> bytes \<Rightarrow> Endorsement option list \<Rightarrow> error + bytes"
  marshalTransaction :: "bytes \<Rightarrow> bytes \<Rightarrow> error + bytes"
  marshalPayload :: "Header \<Rightarrow> bytes \<Rightarrow> error + bytes"
  processProposal :: "processor \<Rightarrow> bytes \<Rightarrow> bytes \<Rightarrow> error + TransactionProposalResponse"
  ordererBroadcast :: "orderer \<Rightarrow> SignedEnvelope \<Rightarrow> error option"
  ordererDeliver :: "orderer \<Rightarrow> SignedEnvelope \<Rightarrow> (error + block) list \<times> error list"
  validateCreator :: "bytes \<Rightarrow> error option"
  verifySignature :: "bytes \<Rightarrow> bytes \<Rightarrow> bytes \<Rightarrow> error option"
  finishOrder :: rand_src
  ordererOrder :: rand_src
  SUCCESS :: int32
  BAD_REQUEST :: int32

section \<open>Transaction identifiers\<close>

definition hexDigit :: "nat \<Rightarrow> char" where
  "hexDigit n = (''0123456789abcdef'' ! (n mod 16))"

definition EncodeToString :: "bytes \<Rightarrow> string" where
  "EncodeToString bs = concat (map (\<lambda>b. [hexDigit (unat b div 16), hexDigit (unat b)]) bs)"

definition computeTxnID :: "bytes \<Rightarrow> bytes \<Rightarrow> (bytes \<Rightarrow> error + bytes) \<Rightarrow> error + string" where
  "computeTxnID nonce creator h =
     (case h (nonce @ creator) of Inl e \<Rightarrow> Inl e | Inr digest \<Rightarrow> Inr (EncodeToString digest))"

definition withMsgE :: "string \<Rightarrow> error + 'a \<Rightarrow> 'a outcome" where
  "withMsgE msg r = (case r of Inl e \<Rightarrow> Inl (Err (ErrWithMessage msg e)) | Inr a \<Rightarrow> Inr a)"

definition NewHeader :: "txn_ext \<Rightarrow> string \<Rightarrow> bytes option \<Rightarrow> bytes option \<Rightarrow> TransactionHeader outcome" where
  "NewHeader x channelID optNonce optCreator =
     bindO (case optNonce of Some n \<Rightarrow> Inr n | None \<Rightarrow> withMsgE ''nonce creation failed'' (randomNonce x)) (\<lambda>nonce.
     bindO (case optCreator of Some c \<Rightarrow> Inr c | None \<Rightarrow> withMsgE ''identity from context failed'' (serializeIdentity x)) (\<lambda>creator.
     bindO (withMsgE ''hash function creation failed'' (getHash x)) (\<lambda>h.
     bindO (withMsgE ''txn ID computation failed'' (computeTxnID nonce creator h)) (\<lambda>i.
     Inr \<lparr>thID = i, thCreator = creator, thNonce = nonce, thChannelID = channelID\<rparr>))))"

section \<open>Proposals\<close>

definition CreateChaincodeInvokeProposal ::
  "txn_ext \<Rightarrow> TransactionHeader \<Rightarrow> ChaincodeInvokeRequest \<Rightarrow> TransactionProposal outcome" where
  "CreateChaincodeInvokeProposal x txh request =
     (if ReqChaincodeID request = '''' then Inl (Err (ErrNew ''ChaincodeID is required''))
      else if ReqFcn request = '''' then Inl (Err (ErrNew ''Fcn is required''))
      else let argsArray = map (\<lambda>c. of_char c) (ReqFcn request) # ReqArgs request in
        bindO (wrapE ''failed to create chaincode proposal''
                 (marshalProposal x txh (ReqChaincodeID request) argsArray (ReqIsInit request)
                    (ReqLang request) (ReqTransientMap request))) (\<lambda>proposal.
        Inr \<lparr>TxnID = thID txh, TPProposal = Some proposal\<rparr>))"

definition signProposal :: "txn_ext \<Rightarrow> Proposal option \<Rightarrow> (bytes \<times> bytes) outcome" where
  "signProposal x proposal =
     bindO (wrapE ''mashal proposal failed'' (marshalProp x proposal)) (\<lambda>proposalBytes.
     (case signingManager x of None \<Rightarrow> Inl (Err (ErrNew ''signing manager is nil''))
      | Some sign \<Rightarrow>
     bindO (withMsgE ''sign failed'' (sign proposalBytes)) (\<lambda>sig.
     Inr (proposalBytes, sig))))"

fun uniqueTargets :: "string list \<Rightarrow> processor list \<Rightarrow> processor list option" where
  "uniqueTargets seen [] = Some []"
| "uniqueTargets seen (PeerProcessor p # rest) =
     (if URL p \<in> set seen then uniqueTargets seen rest
      else map_option (\<lambda>us. PeerProcessor p # us) (uniqueTargets (URL p # seen) rest))"
| "uniqueTargets seen (_ # rest) = None"

text \<open>\<open>None\<close> of the loop is a target that is no peer: then the targets are returned as they are.\<close>

definition getTargetsWithoutDuplicates :: "processor list \<Rightarrow> processor list" where
  "getTargetsWithoutDuplicates targets = (case uniqueTargets [] targets of Some us \<Rightarrow> us | None \<Rightarrow> targets)"

definition SendProposal ::
  "txn_ext \<Rightarrow> nat \<Rightarrow> TransactionProposal option \<Rightarrow> processor list \<Rightarrow> (TransactionProposalResponse list \<times> error option) outcome" where
  "SendProposal x k proposal targets =
     (case proposal of None \<Rightarrow> Inl (Err (ErrNew ''proposal is required''))
      | Some tp \<Rightarrow>
        if targets = [] then Inl (Err (ErrNew ''targets is required''))
        else if NilProcessor \<in> set targets then Inl (Err (ErrNew ''target is nil''))
        else let ts = getTargetsWithoutDuplicates targets in
          if \<not> clientContext x then Inl (Err (ErrNew ''failed get client context from reqContext for signProposal''))
          else bindO (case signProposal x (TPProposal tp) of
                        Inl (Err e) \<Rightarrow> Inl (Err (ErrWithMessage ''sign proposal failed'' e)) | r \<Rightarrow> r) (\<lambda>(proposalBytes, sig).
            (let results = map (\<lambda>i. processProposal x (ts ! i) proposalBytes sig) (shuffle (finishOrder x) k (length ts));
                 responses = [r. Inr r \<leftarrow> results];
                 errs = [e. Inl e \<leftarrow> results]
             in Inr (responses, multi_ToError errs))))"

section \<open>Creating and sending a transaction\<close>

definition isSuccess :: "txn_ext \<Rightarrow> int32 \<Rightarrow> bool" where
  "isSuccess x s \<longleftrightarrow> \<not> (sint s < sint (SUCCESS x) \<or> sint s \<ge> sint (BAD_REQUEST x))"

fun validateProposalResponses :: "txn_ext \<Rightarrow> TransactionProposalResponse list \<Rightarrow> unit outcome" where
  "validateProposalResponses x [] = Inr ()"
| "validateProposalResponses x (r # rs) =
     (case PRResponse (TPRResponse r) of None \<Rightarrow> Inl (Panic ''nil pointer dereference'')
      | Some resp \<Rightarrow>
          if isSuccess x (RespStatus resp) then validateProposalResponses x rs
          else Inl (Err (ErrNew (''proposal response was not successful, error code '' @ itoa (sint (RespStatus resp)) @
                 '', msg '' @ RespMessage resp))))"

definition txn_New ::
  "txn_ext \<Rightarrow> TransactionProposal option \<Rightarrow> TransactionProposalResponse list \<Rightarrow> Transaction outcome" where
  "txn_New x tp responses =
     (case responses of [] \<Rightarrow> Inl (Err (ErrNew ''at least one proposal response is necessary''))
      | r0 # _ \<Rightarrow>
     (case Option.bind tp TPProposal of None \<Rightarrow> Inl (Panic ''nil pointer dereference'')
      | Some proposal \<Rightarrow>
     bindO (wrapE ''unmarshal proposal header failed'' (unmarshalHeader x (PropHeader proposal))) (\<lambda>hdr.
     bindO (wrapE ''unmarshal proposal payload failed'' (unmarshalProposalPayload x (PropPayload proposal))) (\<lambda>pPayl.
     bindO (validateProposalResponses x responses) (\<lambda>_.
     bindO (case payloadForTx x pPayl of Inl e \<Rightarrow> Inl (Err e) | Inr b \<Rightarrow> Inr b) (\<lambda>propPayloadBytes.
     bindO (case marshalActionPayload x propPayloadBytes (PRPayload (TPRResponse r0))
              (map (\<lambda>r. PREndorsement (TPRResponse r)) responses) of Inl e \<Rightarrow> Inl (Err e) | Inr b \<Rightarrow> Inr b) (\<lambda>capBytes.
     Inr \<lparr>ActionHeader = HSignatureHeader hdr, ActionPayload = capBytes, TxProposal = tp\<rparr>)))))))"

definition signPayload :: "txn_ext \<Rightarrow> Header \<Rightarrow> bytes \<Rightarrow> SignedEnvelope outcome" where
  "signPayload x hdr data =
     bindO (withMsgE ''marshaling of payload failed'' (marshalPayload x hdr data)) (\<lambda>payloadBytes.
     (case signingManager x of None \<Rightarrow> Inl (Panic ''nil pointer dereference'')
      | Some sign \<Rightarrow>
     bindO (withMsgE ''signing of payload failed'' (sign payloadBytes)) (\<lambda>sig.
     Inr \<lparr>EnvPayload = payloadBytes, EnvSignature = sig\<rparr>)))"

definition sendBroadcast :: "txn_ext \<Rightarrow> SignedEnvelope \<Rightarrow> orderer \<Rightarrow> error + orderer" where
  "sendBroadcast x envelope ord =
     (case ordererBroadcast x ord envelope of
        Some e \<Rightarrow> Inl (Wrap (''calling orderer '' @ [CHR 0x27] @ ord @ [CHR 0x27] @ '' failed'') e)
      | None \<Rightarrow> Inr ord)"

text \<open>The loop over the orderers in random order; the trace is the list of orderers that were called.
  \<open>Inl None\<close> is the result of a loop without iteration: no response and a nil error.\<close>

type_synonym 'r broadcast = "(failure option + 'r) \<times> orderer list"

fun tryOrderers :: "(orderer \<Rightarrow> error + 'r) \<Rightarrow> orderer list \<Rightarrow> failure option \<Rightarrow> 'r broadcast" where
  "tryOrderers call [] errResp = (Inl errResp, [])"
| "tryOrderers call (o1 # os) errResp =
     (case call o1 of
        Inr resp \<Rightarrow> (Inr resp, [o1])
      | Inl e \<Rightarrow> (case tryOrderers call os (Some (Err e)) of (r, trace) \<Rightarrow> (r, o1 # trace)))"

definition randOrderers :: "txn_ext \<Rightarrow> nat \<Rightarrow> orderer list \<Rightarrow> orderer list" where
  "randOrderers x k orderers = map (\<lambda>i. orderers ! i) (rand_Perm (ordererOrder x) k (length orderers))"

definition failed :: "string \<Rightarrow> 'r broadcast" where
  "failed msg = (Inl (Some (Err (ErrNew msg))), [])"

definition broadcastEnvelope :: "txn_ext \<Rightarrow> nat \<Rightarrow> SignedEnvelope \<Rightarrow> orderer list \<Rightarrow> orderer broadcast" where
  "broadcastEnvelope x k envelope orderers =
     (if orderers = [] then failed ''orderers not set''
      else if \<not> clientContext x then failed ''failed get client context from reqContext for SendTransaction''
      else tryOrderers (sendBroadcast x envelope) (randOrderers x k orderers) None)"

definition BroadcastPayload :: "txn_ext \<Rightarrow> nat \<Rightarrow> Header \<Rightarrow> bytes \<Rightarrow> orderer list \<Rightarrow> orderer broadcast" where
  "BroadcastPayload x k hdr data orderers =
     (if orderers = [] then failed ''orderers not set''
      else if \<not> clientContext x then failed ''failed get client context from reqContext for signPayload''
      else (case signPayload x hdr data of
              Inl f \<Rightarrow> (Inl (Some f), [])
            | Inr envelope \<Rightarrow> broadcastEnvelope x k envelope orderers))"

definition txn_Send :: "txn_ext \<Rightarrow> nat \<Rightarrow> Transaction option \<Rightarrow> orderer list \<Rightarrow> orderer broadcast" where
  "txn_Send x k otx orderers =
     (if orderers = [] then failed ''orderers is nil''
      else (case otx of None \<Rightarrow> failed ''transaction is nil''
      | Some tx \<Rightarrow>
           (case Option.bind (TxProposal tx) TPProposal of
              None \<Rightarrow> failed ''proposal is nil''
            | Some proposal \<Rightarrow>
                (case unmarshalHeader x (PropHeader proposal) of
                   Inl e \<Rightarrow> (Inl (Some (Err (Wrap ''unmarshal proposal header failed'' e))), [])
                 | Inr hdr \<Rightarrow>
                     (case marshalTransaction x (ActionHeader tx) (ActionPayload tx) of
                        Inl e \<Rightarrow> (Inl (Some (Err e)), [])
                      | Inr txBytes \<Rightarrow> BroadcastPayload x k hdr txBytes orderers)))))"

section \<open>Delivering blocks\<close>

text \<open>\<open>ordererDeliver\<close> gives what the read loop of \<open>sendEnvelope\<close> receives from the two channels before
  it sees the block channel closed, and the errors then left in the error channel. The drain loop
  compares its index with the current length of the channel.\<close>

fun drain :: "nat \<Rightarrow> error list \<Rightarrow> error list \<Rightarrow> error list" where
  "drain i [] err = err"
| "drain i (e # errs) err = (if i < length (e # errs) then drain (Suc i) errs (err @ [e]) else err)"

fun readLoop :: "(error + block) list \<Rightarrow> block option \<Rightarrow> error list \<Rightarrow> block option \<times> error list" where
  "readLoop [] blk err = (blk, err)"
| "readLoop (Inr b # evs) blk err = readLoop evs (Some b) err"
| "readLoop (Inl e # evs) blk err = readLoop evs blk (err @ [e])"

definition sendEnvelope :: "txn_ext \<Rightarrow> SignedEnvelope \<Rightarrow> orderer \<Rightarrow> error + block option" where
  "sendEnvelope x envelope ord =
     (case ordererDeliver x ord envelope of (received, errs) \<Rightarrow>
      case readLoop received None [] of (blk, err) \<Rightarrow>
      case multi_ToError (drain 0 errs err) of Some e \<Rightarrow> Inl e | None \<Rightarrow> Inr blk)"

definition SendPayload :: "txn_ext \<Rightarrow> nat \<Rightarrow> Header \<Rightarrow> bytes \<Rightarrow> orderer list \<Rightarrow> block option broadcast" where
  "SendPayload x k hdr data orderers =
     (if orderers = [] then failed ''orderers not set''
      else if \<not> clientContext x then failed ''failed get client context from reqContext for signPayload''
      else (case signPayload x hdr data of
              Inl f \<Rightarrow> (Inl (Some f), [])
            | Inr envelope \<Rightarrow> tryOrderers (sendEnvelope x envelope) (randOrderers x k orderers) None))"

section \<open>The signature verifier\<close>

definition clientError :: "uint32 \<Rightarrow> string \<Rightarrow> detail list \<Rightarrow> error" where
  "clientError code msg details = ErrWithStack (ErrStatus (status_New EndorserClientStatus (ToInt32 code) msg details))"

definition sig_Verify :: "ext \<Rightarrow> txn_ext \<Rightarrow> TransactionProposalResponse \<Rightarrow> unit outcome" where
  "sig_Verify ex x response =
     (let res = TPRResponse response in
      case PRResponse res of None \<Rightarrow> Inl (Panic ''nil pointer dereference'')
      | Some resp \<Rightarrow>
        if \<not> isSuccess x (RespStatus resp) then
          Inl (Err (ErrStatus (NewFromProposalResponse (RespStatus resp) (RespMessage resp) (RespPayload resp) (Endorser response))))
        else (case PREndorsement res of
            None \<Rightarrow> Inl (Err (clientError MissingEndorsement ''missing endorsement in proposal response'' []))
          | Some en \<Rightarrow>
             (case validateCreator x (EndorserID en) of
                Some e \<Rightarrow> Inl (Err (clientError SignatureVerificationFailed ''the creator certificate is not valid''
                            [DString (ErrorText ex e)]))
              | None \<Rightarrow>
                 (case verifySignature x (EndorserID en) (PRPayload res @ EndorserID en) (Signature en) of
                    Some e \<Rightarrow> Inl (Err (clientError SignatureVerificationFailed
                                ''the creator's signature over the proposal is not valid'' [DString (ErrorText ex e)]))
                  | None \<Rightarrow> Inr ()))))"

section \<open>Lemmas\<close>

text \<open>The peers of a list whose URL did not occur before.\<close>

fun firstURLs :: "string list \<Rightarrow> peer list \<Rightarrow> peer list" where
  "firstURLs seen [] = []"
| "firstURLs seen (p # ps) =
     (if URL p \<in> set seen then firstURLs seen ps else p # firstURLs (URL p # seen) ps)"

lemma uniqueTargets_peers: "uniqueTargets seen (map PeerProcessor ps) = Some (map PeerProcessor (firstURLs seen ps))"
  by (induction ps arbitrary: seen) auto

lemma getTargets_peers:
  "getTargetsWithoutDuplicates (map PeerProcessor ps) = map PeerProcessor (firstURLs [] ps)"
  by (simp add: getTargetsWithoutDuplicates_def uniqueTargets_peers)

lemma firstURLs_spec:
  "distinct (map URL (firstURLs seen ps)) \<and> URL ` set (firstURLs seen ps) = URL ` set ps - set seen
    \<and> subseq (firstURLs seen ps) ps"
proof (induction ps arbitrary: seen)
  case Nil
  then show ?case by simp
next
  case (Cons p ps)
  show ?case
  proof (cases "URL p \<in> set seen")
    case True
    then show ?thesis using Cons.IH [of seen] by auto
  next
    case False
    then show ?thesis using Cons.IH [of "URL p # seen"] by auto
  qed
qed

lemma multi_ToError_None [simp]: "multi_ToError es = None \<longleftrightarrow> es = []"
  by (auto simp: multi_ToError_def split: list.split)

lemma mset_successes: "mset xs = mset ys \<Longrightarrow> mset [r. Inr r \<leftarrow> xs] = mset [r. Inr r \<leftarrow> ys]"
proof -
  have "mset [r. Inr r \<leftarrow> zs] = image_mset projr (filter_mset (\<lambda>r. \<not> isl r) (mset zs))" for zs :: "('a + 'b) list"
    by (induction zs) (auto split: sum.split)
  then show "mset xs = mset ys \<Longrightarrow> ?thesis" by metis
qed

lemma no_failures_iff: "[e. Inl e \<leftarrow> xs] = [] \<longleftrightarrow> list_all (\<lambda>r. \<not> isl r) xs"
  by (induction xs) (auto split: sum.split)

lemma mset_map_shuffle:
  "mset (map (\<lambda>i. f (xs ! i)) (shuffle src k (length xs))) = mset (map f xs)"
proof -
  have "mset (map (\<lambda>i. xs ! i) (shuffle src k (length xs))) = mset xs"
    by (rule mset_map_nth_perm [OF mset_shuffle])
  then have "image_mset f (mset (map (\<lambda>i. xs ! i) (shuffle src k (length xs)))) = image_mset f (mset xs)"
    by (rule arg_cong)
  then show ?thesis by (simp add: multiset.map_comp comp_def flip: mset_map)
qed

lemma list_all_mset: "mset xs = mset ys \<Longrightarrow> list_all P xs = list_all P ys"
  by (metis list_all_iff mset_eq_setD)

lemma validateProposalResponses_Inr:
  "validateProposalResponses x rs = Inr () \<longleftrightarrow>
     list_all (\<lambda>r. \<exists>resp. PRResponse (TPRResponse r) = Some resp \<and> isSuccess x (RespStatus resp)) rs"
  by (induction rs) (auto split: option.split)

lemma tryOrderers_Inr:
  "tryOrderers call os f = (Inr r, trace) \<Longrightarrow>
     \<exists>pre o1 post. os = pre @ o1 # post \<and> trace = pre @ [o1] \<and> call o1 = Inr r \<and> list_all (\<lambda>o1. isl (call o1)) pre"
proof (induction os arbitrary: f trace)
  case Nil
  then show ?case by simp
next
  case (Cons o1 os)
  show ?case
  proof (cases "call o1")
    case (Inl e)
    obtain r' t' where rec: "tryOrderers call os (Some (Err e)) = (r', t')" by fastforce
    with Cons.prems Inl have *: "r' = Inr r" "trace = o1 # t'" by auto
    from Cons.IH [OF rec [unfolded *]] obtain pre o2 post where
      "os = pre @ o2 # post" "t' = pre @ [o2]" "call o2 = Inr r" "list_all (\<lambda>o1. isl (call o1)) pre" by blast
    with Inl * show ?thesis by (intro exI [of _ "o1 # pre"] exI [of _ o2] exI [of _ post]) simp
  next
    case (Inr b)
    with Cons.prems show ?thesis by (intro exI [of _ "[]"] exI [of _ o1] exI [of _ os]) auto
  qed
qed

lemma tryOrderers_Inl:
  "tryOrderers call os f = (Inl g, trace) \<Longrightarrow>
     trace = os \<and> list_all (\<lambda>o1. isl (call o1)) os \<and>
     g = (if os = [] then f else Some (Err (projl (call (List.last os)))))"
proof (induction os arbitrary: f trace)
  case Nil
  then show ?case by simp
next
  case (Cons o1 os)
  show ?case
  proof (cases "call o1")
    case (Inl e)
    obtain r' t' where rec: "tryOrderers call os (Some (Err e)) = (r', t')" by fastforce
    with Cons.prems Inl have *: "r' = Inl g" "trace = o1 # t'" by auto
    from Cons.IH [OF rec [unfolded *]] Inl * show ?thesis by auto
  next
    case (Inr b)
    with Cons.prems show ?thesis by simp
  qed
qed

lemma mset_randOrderers: "mset (randOrderers x k os) = mset os"
  unfolding randOrderers_def by (rule mset_map_nth_perm) (simp add: rand_Perm_def mset_shuffle)

lemma txn_Send_not_nil: "fst (txn_Send x k tx os) \<noteq> Inl None"
proof -
  have "fst (tryOrderers call (randOrderers x k os) f) \<noteq> Inl None" if "os \<noteq> []" for call :: "orderer \<Rightarrow> error + orderer" and f
  proof
    assume "fst (tryOrderers call (randOrderers x k os) f) = Inl None"
    then obtain called where "tryOrderers call (randOrderers x k os) f = (Inl None, called)" by (metis surjective_pairing)
    moreover have "randOrderers x k os \<noteq> []" using that mset_randOrderers [of x k os] by auto
    ultimately show False using tryOrderers_Inl by fastforce
  qed
  then show ?thesis
    by (auto simp: txn_Send_def BroadcastPayload_def broadcastEnvelope_def failed_def split: option.split sum.split)
qed

lemma drain_closed_form: "drain i errs err = err @ take ((length errs + 1 - i) div 2) errs"
proof (induction i errs err rule: drain.induct)
  case (2 i e errs err)
  show ?case
  proof (cases "i < length (e # errs)")
    case True
    then have "(length (e # errs) + 1 - i) div 2 = Suc ((length errs + 1 - Suc i) div 2)" by simp
    with True 2 show ?thesis by simp
  next
    case False
    then show ?thesis by simp
  qed
qed simp

lemma readLoop_spec:
  "readLoop evs blk err =
     (case [b. Inr b \<leftarrow> evs] of [] \<Rightarrow> blk | bs \<Rightarrow> Some (List.last bs), err @ [e. Inl e \<leftarrow> evs])"
  by (induction evs blk err rule: readLoop.induct) (auto split: list.split simp del: concat_eq_Nil_conv)

lemma sig_Verify_Inr:
  "sig_Verify ex x r = Inr () \<longleftrightarrow>
     (\<exists>resp en. PRResponse (TPRResponse r) = Some resp \<and> isSuccess x (RespStatus resp) \<and>
        PREndorsement (TPRResponse r) = Some en \<and> validateCreator x (EndorserID en) = None \<and>
        verifySignature x (EndorserID en) (PRPayload (TPRResponse r) @ EndorserID en) (Signature en) = None)"
  by (auto simp: sig_Verify_def Let_def split: option.split)

section \<open>A small network\<close>

text \<open>A concrete instance for the parameters: a client that can sign, peers that endorse and two orderers of
  which the first one refuses.\<close>

named_theorems test_defs

definition test_response :: "string \<Rightarrow> TransactionProposalResponse" where [test_defs]:
  "test_response u = \<lparr>Endorser = u, TPRStatus = 200, TPRChaincodeStatus = 200,
     TPRResponse = \<lparr>PRResponse = Some \<lparr>RespStatus = 200, RespMessage = '''', RespPayload = [5]\<rparr>,
       PRPayload = [5, 5], PREndorsement = Some \<lparr>EndorserID = [1], Signature = [2]\<rparr>\<rparr>\<rparr>"

definition test_net :: txn_ext where [test_defs]:
  "test_net = \<lparr>randomNonce = Inr [9], serializeIdentity = Inr [8], getHash = Inr Inr,
     marshalProposal = (\<lambda>h cc args isInit lang tm. Inr \<lparr>PropHeader = thNonce h, PropPayload = concat args\<rparr>),
     clientContext = True, signingManager = Some (\<lambda>b. Inr (7 # b)), marshalProp = (\<lambda>p. Inr [1]),
     unmarshalHeader = (\<lambda>b. Inr \<lparr>HSignatureHeader = b, HChannelHeader = []\<rparr>), unmarshalProposalPayload = Inr, payloadForTx = Inr,
     marshalActionPayload = (\<lambda>p r es. Inr (p @ r)), marshalTransaction = (\<lambda>h p. Inr (h @ p)),
     marshalPayload = (\<lambda>h d. Inr d),
     processProposal = (\<lambda>t b s. case t of PeerProcessor p \<Rightarrow> Inr (test_response (URL p)) | _ \<Rightarrow> Inl (ErrNew ''no peer'')),
     ordererBroadcast = (\<lambda>o1 e. if o1 = ''o1'' then Some (ErrNew ''unavailable'') else None),
     ordererDeliver = (\<lambda>o1 e. ([Inr \<lparr>HeaderNumber = 4, DataData = [], Metadata = []\<rparr>], [ErrNew ''late''])),
     validateCreator = (\<lambda>c. None), verifySignature = (\<lambda>c d s. None),
     finishOrder = (\<lambda>n m. n), ordererOrder = (\<lambda>n m. 0), SUCCESS = 200, BAD_REQUEST = 400\<rparr>"

definition test_tp :: TransactionProposal where [test_defs]:
  "test_tp = \<lparr>TxnID = ''t1'', TPProposal = Some \<lparr>PropHeader = [1], PropPayload = [2]\<rparr>\<rparr>"

definition test_peer :: "string \<Rightarrow> peer" where [test_defs]:
  "test_peer u = \<lparr>peerRef = 0, MSPID = ''Org1MSP'', URL = u, BlockHeight = None\<rparr>"

section \<open>Properties\<close>

text \<open>
  C15. A proposal sent to peers is processed by each distinct peer URL exactly once: the call reaches one
  peer for every URL of the targets, the responses are those of the peers that answered, whatever the
  order in which the Go routines finish, and the error is nil exactly when every one of them answered.
\<close>

theorem SendProposal_asks_each_peer_once:
  assumes "ps \<noteq> []" and "clientContext x" and "signProposal x (TPProposal tp) = Inr (pbytes, sg)"
  shows "\<exists>asked responses err. SendProposal x k (Some tp) (map PeerProcessor ps) = Inr (responses, err) \<and>
    distinct (map URL asked) \<and> URL ` set asked = URL ` set ps \<and> subseq asked ps \<and>
    mset responses = mset [r. Inr r \<leftarrow> map (\<lambda>p. processProposal x (PeerProcessor p) pbytes sg) asked] \<and>
    (err = None) = list_all (\<lambda>p. \<not> isl (processProposal x (PeerProcessor p) pbytes sg)) asked"
proof -
  define asked where "asked = firstURLs [] ps"
  define f where "f t = processProposal x t pbytes sg" for t
  define results where "results = map (\<lambda>i. f (map PeerProcessor asked ! i)) (shuffle (finishOrder x) k (length asked))"
  have perm: "mset results = mset (map (\<lambda>p. f (PeerProcessor p)) asked)"
    using mset_map_shuffle [of f "map PeerProcessor asked" "finishOrder x" k] by (simp add: results_def comp_def)
  have "SendProposal x k (Some tp) (map PeerProcessor ps) = Inr ([r. Inr r \<leftarrow> results], multi_ToError [e. Inl e \<leftarrow> results])"
    using assms by (auto simp: SendProposal_def getTargets_peers Let_def results_def f_def asked_def)
  moreover have "mset [r. Inr r \<leftarrow> results] = mset [r. Inr r \<leftarrow> map (\<lambda>p. f (PeerProcessor p)) asked]"
    by (rule mset_successes [OF perm])
  moreover have "(multi_ToError [e. Inl e \<leftarrow> results] = None) = list_all (\<lambda>p. \<not> isl (f (PeerProcessor p))) asked"
    using list_all_mset [OF perm, of "\<lambda>r. \<not> isl r"] by (simp only: multi_ToError_None no_failures_iff list.pred_map comp_def)
  moreover have "distinct (map URL asked)" "URL ` set asked = URL ` set ps" "subseq asked ps"
    using firstURLs_spec [of "[]" ps] by (simp_all add: asked_def)
  ultimately show ?thesis unfolding f_def
    by (intro exI [of _ asked] exI [of _ "[r. Inr r \<leftarrow> results]"] exI [of _ "multi_ToError [e. Inl e \<leftarrow> results]"] conjI)
qed

theorem SendProposal_asks_each_peer_once_witness:
  "\<exists>asked responses err. SendProposal test_net 0 (Some test_tp) (map PeerProcessor [test_peer ''a'', test_peer ''b'', test_peer ''a'']) =
       Inr (responses, err) \<and> distinct (map URL asked) \<and>
     URL ` set asked = URL ` set [test_peer ''a'', test_peer ''b'', test_peer ''a''] \<and>
     subseq asked [test_peer ''a'', test_peer ''b'', test_peer ''a''] \<and>
     mset responses = mset [r. Inr r \<leftarrow> map (\<lambda>p. processProposal test_net (PeerProcessor p) [1] [7, 1]) asked] \<and>
     (err = None) = list_all (\<lambda>p. \<not> isl (processProposal test_net (PeerProcessor p) [1] [7, 1])) asked"
  by (rule SendProposal_asks_each_peer_once) (simp_all add: test_defs signProposal_def wrapE_def withMsgE_def)

text \<open>
  A transaction is only assembled when there is a response and every response has a success status;
  it then carries the payload of the first response and the endorsements of all of them in their order,
  under the signature header of its proposal.
\<close>

theorem txn_New_endorsed:
  assumes "txn_New x tp responses = Inr tx"
  shows "list_all (\<lambda>r. \<exists>resp. PRResponse (TPRResponse r) = Some resp \<and> isSuccess x (RespStatus resp)) responses \<and>
    TxProposal tx = tp \<and>
    (\<exists>r0 rest p hdr pPayl pBytes. responses = r0 # rest \<and> Option.bind tp TPProposal = Some p \<and>
       unmarshalHeader x (PropHeader p) = Inr hdr \<and> ActionHeader tx = HSignatureHeader hdr \<and>
       unmarshalProposalPayload x (PropPayload p) = Inr pPayl \<and> payloadForTx x pPayl = Inr pBytes \<and>
       marshalActionPayload x pBytes (PRPayload (TPRResponse r0))
         (map (\<lambda>r. PREndorsement (TPRResponse r)) responses) = Inr (ActionPayload tx))"
proof (cases responses)
  case Nil
  then show ?thesis using assms by (simp add: txn_New_def)
next
  case (Cons r0 rest)
  then show ?thesis using assms
    by (auto simp: txn_New_def bindO_eq_Inr wrapE_def simp flip: validateProposalResponses_Inr
        simp del: validateProposalResponses.simps split: option.splits sum.splits)
qed

theorem txn_New_endorsed_witness:
  "list_all (\<lambda>r. \<exists>resp. PRResponse (TPRResponse r) = Some resp \<and> isSuccess test_net (RespStatus resp))
     [test_response ''a'', test_response ''b'']"
  using txn_New_endorsed [of test_net "Some test_tp" "[test_response ''a'', test_response ''b'']"
      "\<lparr>ActionHeader = [1], ActionPayload = [2, 5, 5], TxProposal = Some test_tp\<rparr>"]
  by (simp add: test_defs txn_New_def wrapE_def isSuccess_def)

text \<open>
  C16. Broadcasting an envelope tries the orderers one by one, none of them twice: a response is that of
  the first orderer that accepted, after which no other one is called; an error is returned only after
  every orderer was called and refused, and is the error of the last one.
\<close>

theorem broadcastEnvelope_spec:
  assumes "orderers \<noteq> []" and "clientContext x"
  shows "case broadcastEnvelope x k envelope orderers of
      (Inr ord, called) \<Rightarrow> mset called \<subseteq># mset orderers \<and>
        (\<exists>refused. called = refused @ [ord] \<and> ordererBroadcast x ord envelope = None \<and>
           list_all (\<lambda>o1. ordererBroadcast x o1 envelope \<noteq> None) refused)
    | (Inl f, called) \<Rightarrow> mset called = mset orderers \<and>
        list_all (\<lambda>o1. ordererBroadcast x o1 envelope \<noteq> None) called \<and>
        f = Some (Err (projl (sendBroadcast x envelope (List.last called))))"
proof -
  let ?os = "randOrderers x k orderers"
  have ne: "?os \<noteq> []" using mset_randOrderers [of x k orderers] assms(1) by auto
  have isl: "isl (sendBroadcast x envelope o1) \<longleftrightarrow> ordererBroadcast x o1 envelope \<noteq> None" for o1
    by (auto simp: sendBroadcast_def split: option.split)
  have ok: "sendBroadcast x envelope o1 = Inr r \<longleftrightarrow> r = o1 \<and> ordererBroadcast x o1 envelope = None" for o1 r
    by (auto simp: sendBroadcast_def split: option.split)
  obtain res called where run: "tryOrderers (sendBroadcast x envelope) ?os None = (res, called)" by fastforce
  then have b: "broadcastEnvelope x k envelope orderers = (res, called)"
    using assms by (simp add: broadcastEnvelope_def)
  show ?thesis
  proof (cases res)
    case (Inl f)
    with tryOrderers_Inl [OF run [unfolded Inl]] ne b show ?thesis by (simp add: isl mset_randOrderers)
  next
    case (Inr ord)
    from tryOrderers_Inr [OF run [unfolded Inr]] obtain pre post where
      split: "?os = pre @ ord # post" "called = pre @ [ord]" "ordererBroadcast x ord envelope = None"
        "list_all (\<lambda>o1. ordererBroadcast x o1 envelope \<noteq> None) pre" by (auto simp: ok isl)
    have "mset called \<subseteq># mset orderers" by (simp add: mset_randOrderers [of x k orderers, symmetric] split)
    with Inr b split show ?thesis by auto
  qed
qed

theorem broadcastEnvelope_spec_witness:
  "case broadcastEnvelope test_net 0 \<lparr>EnvPayload = [1], EnvSignature = [7, 1]\<rparr> [''o1'', ''o2''] of
      (Inr ord, called) \<Rightarrow> mset called \<subseteq># mset [''o1'', ''o2''] \<and>
        (\<exists>refused. called = refused @ [ord] \<and> ordererBroadcast test_net ord \<lparr>EnvPayload = [1], EnvSignature = [7, 1]\<rparr> = None \<and>
           list_all (\<lambda>o1. ordererBroadcast test_net o1 \<lparr>EnvPayload = [1], EnvSignature = [7, 1]\<rparr> \<noteq> None) refused)
    | (Inl f, called) \<Rightarrow> mset called = mset [''o1'', ''o2''] \<and>
        list_all (\<lambda>o1. ordererBroadcast test_net o1 \<lparr>EnvPayload = [1], EnvSignature = [7, 1]\<rparr> \<noteq> None) called \<and>
        f = Some (Err (projl (sendBroadcast test_net \<lparr>EnvPayload = [1], EnvSignature = [7, 1]\<rparr> (List.last called))))"
  by (rule broadcastEnvelope_spec) (simp_all add: test_net_def)

text \<open>
  \<open>sendEnvelope\<close> collects every error of the delivery, those left in the channel included, and
  without an error returns the block received last: for an error channel that holds at most one error,
  as the one of the SDK's orderer does.
\<close>

theorem sendEnvelope_spec:
  assumes "ordererDeliver x ord envelope = (received, errs)" and "length errs \<le> 1"
  shows "sendEnvelope x envelope ord =
    (case multi_ToError ([e. Inl e \<leftarrow> received] @ errs) of
       Some e \<Rightarrow> Inl e
     | None \<Rightarrow> Inr (case [b. Inr b \<leftarrow> received] of [] \<Rightarrow> None | bs \<Rightarrow> Some (List.last bs)))"
proof -
  from assms(2) have "take ((length errs + 1) div 2) errs = errs" by (cases errs) auto
  then show ?thesis by (simp add: sendEnvelope_def assms(1) readLoop_spec drain_closed_form)
qed

theorem sendEnvelope_spec_witness:
  "sendEnvelope test_net \<lparr>EnvPayload = [1], EnvSignature = [7, 1]\<rparr> ''o2'' = Inl (ErrNew ''late'')"
  using sendEnvelope_spec [of test_net "''o2''" "\<lparr>EnvPayload = [1], EnvSignature = [7, 1]\<rparr>"
      "[Inr \<lparr>HeaderNumber = 4, DataData = [], Metadata = []\<rparr>]" "[ErrNew ''late'']"]
  by (simp add: test_net_def multi_ToError_def)

end
