(* ===== verification/Transactor.thy ===== *)
theory Transactor
  imports Txn Greylist
begin

text \<open>
  The transactor of \<^verbatim>\<open>pkg/fab/channel/transactor.go\<close>: the choice of the orderers of a channel from the
  endpoint configuration and the channel configuration, and the calls into \<^verbatim>\<open>pkg/fab/txn\<close>. The endpoint
  configuration and the provider that creates orderers are the record \<open>endpoint_cfg\<close>.
\<close>

record OrdererConfig =
  ocURL :: string
  ocOptions :: nat

record endpoint_cfg =
  channelOrderers :: "string \<Rightarrow> string list"
  ordererConfig :: "string \<Rightarrow> OrdererConfig option \<times> bool"
  orderersConfig :: "OrdererConfig list"
  CreateOrdererFromConfig :: "OrdererConfig \<Rightarrow> error + orderer"

record Transactor =
  tChannelID :: string
  tOrderers :: "orderer list"

definition createOrderer :: "endpoint_cfg \<Rightarrow> OrdererConfig \<Rightarrow> error + orderer" where
  "createOrderer ec oc = (case CreateOrdererFromConfig ec oc of
     Inl e \<Rightarrow> Inl (ErrWithMessage ''failed to create orderer from config'' e) | Inr o1 \<Rightarrow> Inr o1)"

fun orderersFromChannel :: "endpoint_cfg \<Rightarrow> string list \<Rightarrow> orderer list \<Rightarrow> error + orderer list" where
  "orderersFromChannel ec [] orderers = Inr orderers"
| "orderersFromChannel ec (chOrderer # rest) orderers =
     (case ordererConfig ec chOrderer of
        (Some oc, False) \<Rightarrow>
          (case createOrderer ec oc of Inl e \<Rightarrow> Inl e
           | Inr o1 \<Rightarrow> orderersFromChannel ec rest (orderers @ [o1]))
      | _ \<Rightarrow> orderersFromChannel ec rest orderers)"

definition orderersByTarget :: "endpoint_cfg \<Rightarrow> string \<rightharpoonup> OrdererConfig" where
  "orderersByTarget ec = foldl (\<lambda>d oc. d(ToAddress (ocURL oc) \<mapsto> oc)) Map.empty (orderersConfig ec)"

text \<open>The configuration used for an orderer address of the channel configuration; \<open>None\<close> if it is
  ignored. A configuration made up from the address has the default options, numbered 0.\<close>

definition ordererConfigFor :: "endpoint_cfg \<Rightarrow> (string \<rightharpoonup> OrdererConfig) \<Rightarrow> string \<Rightarrow> OrdererConfig option" where
  "ordererConfigFor ec ordererDict target =
     (case ordererDict target of Some oc \<Rightarrow> Some oc
      | None \<Rightarrow>
          (case ordererConfig ec (ToLower target) of (found, ignore) \<Rightarrow>
             if ignore then None
             else (case found of Some oc \<Rightarrow> Some oc | None \<Rightarrow> Some \<lparr>ocURL = target, ocOptions = 0\<rparr>)))"

fun addOrderers ::
  "endpoint_cfg \<Rightarrow> (string \<rightharpoonup> OrdererConfig) \<Rightarrow> string list \<Rightarrow> orderer list \<Rightarrow> error + orderer list" where
  "addOrderers ec dict [] orderers = Inr orderers"
| "addOrderers ec dict (target # rest) orderers =
     (case ordererConfigFor ec dict target of
        None \<Rightarrow> addOrderers ec dict rest orderers
      | Some oc \<Rightarrow>
          (case createOrderer ec oc of Inl e \<Rightarrow> Inl e
           | Inr o1 \<Rightarrow> addOrderers ec dict rest (orderers @ [o1])))"

definition orderersFromChannelCfg :: "endpoint_cfg \<Rightarrow> string \<Rightarrow> string list \<Rightarrow> error + orderer list" where
  "orderersFromChannelCfg ec channelID cfgOrderers =
     (case orderersFromChannel ec (channelOrderers ec channelID) [] of Inl e \<Rightarrow> Inl e
      | Inr orderers \<Rightarrow>
          if orderers \<noteq> [] then Inr orderers
          else addOrderers ec (orderersByTarget ec) cfgOrderers orderers)"

definition NewTransactor :: "txn_ext \<Rightarrow> endpoint_cfg \<Rightarrow> string \<Rightarrow> string list \<Rightarrow> error + Transactor" where
  "NewTransactor x ec channelID cfgOrderers =
     (if \<not> clientContext x then Inl (ErrNew ''failed get client context from reqContext for create new transactor'')
      else (case orderersFromChannelCfg ec channelID cfgOrderers of
              Inl e \<Rightarrow> Inl (ErrWithMessage ''reading orderers from channel config failed'' e)
            | Inr orderers \<Rightarrow> Inr \<lparr>tChannelID = channelID, tOrderers = orderers\<rparr>))"

section \<open>The calls of the transactor\<close>

definition CreateTransactionHeader ::
  "txn_ext \<Rightarrow> Transactor \<Rightarrow> bytes option \<Rightarrow> bytes option \<Rightarrow> TransactionHeader outcome" where
  "CreateTransactionHeader x t optNonce optCreator =
     (if \<not> clientContext x then Inl (Err (ErrNew ''failed get client context from reqContext for txn Header''))
      else (case NewHeader x (tChannelID t) optNonce optCreator of
              Inl (Err e) \<Rightarrow> Inl (Err (ErrWithMessage ''new transaction ID failed'' e))
            | r \<Rightarrow> r))"

definition SendTransactionProposal ::
  "txn_ext \<Rightarrow> nat \<Rightarrow> Transactor \<Rightarrow> TransactionProposal option \<Rightarrow> processor list \<Rightarrow>
     (TransactionProposalResponse list \<times> error option) outcome" where
  "SendTransactionProposal x k t proposal targets =
     (if \<not> clientContext x then Inl (Err (ErrNew ''failed get client context from reqContext for SendTransactionProposal''))
      else SendProposal x k proposal targets)"

definition CreateTransaction ::
  "txn_ext \<Rightarrow> TransactionProposal option \<Rightarrow> TransactionProposalResponse list \<Rightarrow> Transaction outcome" where
  "CreateTransaction x tp responses = txn_New x tp responses"

definition SendTransaction :: "txn_ext \<Rightarrow> nat \<Rightarrow> Transactor \<Rightarrow> Transaction option \<Rightarrow> orderer broadcast" where
  "SendTransaction x k t tx = txn_Send x k tx (tOrderers t)"

section \<open>Properties\<close>

definition configuredOrderers :: "endpoint_cfg \<Rightarrow> string list \<Rightarrow> OrdererConfig list" where
  "configuredOrderers ec names =
     List.map_filter (\<lambda>n. case ordererConfig ec n of (found, ignore) \<Rightarrow> if ignore then None else found) names"

lemma orderersFromChannel_mapE:
  "orderersFromChannel ec names acc =
     map_sum id (\<lambda>os. acc @ os)
       (mapE (createOrderer ec) (configuredOrderers ec names))"
proof (induction names arbitrary: acc)
  case (Cons n ns)
  obtain found ign where "ordererConfig ec n = (found, ign)" by fastforce
  with Cons show ?case
    by (cases found; cases ign) (auto simp: configuredOrderers_def List.map_filter_simps split: sum.split)
qed (simp add: configuredOrderers_def List.map_filter_simps)

lemma map_sum_append_Nil [simp]: "map_sum id ((@) []) r = r"
  by (cases r) simp_all

lemma addOrderers_mapE:
  "addOrderers ec dict targets acc =
     map_sum id (\<lambda>os. acc @ os) (mapE (createOrderer ec) (List.map_filter (ordererConfigFor ec dict) targets))"
  by (induction targets arbitrary: acc) (auto simp: List.map_filter_simps split: sum.split option.split)

text \<open>
  The orderers of a transactor are those of the channel section of the SDK configuration, in its
  order, when there is one that is known and not ignored; otherwise they are the orderers of the channel
  configuration, in its order, without the ignored ones. The first orderer that cannot be created
  fails the transactor.
\<close>

theorem NewTransactor_orderers:
  assumes "clientContext x"
  shows "NewTransactor x ec channelID cfgOrderers =
    (let configured = configuredOrderers ec (channelOrderers ec channelID);
         used = (if configured \<noteq> [] then configured
                 else List.map_filter (ordererConfigFor ec (orderersByTarget ec)) cfgOrderers)
     in map_sum (ErrWithMessage ''reading orderers from channel config failed'')
          (\<lambda>os. \<lparr>tChannelID = channelID, tOrderers = os\<rparr>) (mapE (createOrderer ec) used))"
proof -
  define configured where "configured = configuredOrderers ec (channelOrderers ec channelID)"
  have "orderersFromChannelCfg ec channelID cfgOrderers = mapE (createOrderer ec)
      (if configured \<noteq> [] then configured else List.map_filter (ordererConfigFor ec (orderersByTarget ec)) cfgOrderers)"
  proof (cases "mapE (createOrderer ec) configured")
    case (Inl e)
    then have "configured \<noteq> []" by auto
    with Inl show ?thesis by (simp add: orderersFromChannelCfg_def orderersFromChannel_mapE flip: configured_def)
  next
    case (Inr os)
    then have "os = [] \<longleftrightarrow> configured = []" by (auto simp: mapE_Inr_iff)
    with Inr show ?thesis
      by (auto simp: orderersFromChannelCfg_def orderersFromChannel_mapE addOrderers_mapE simp flip: configured_def)
  qed
  with assms show ?thesis
    by (simp add: NewTransactor_def Let_def flip: configured_def split: sum.split)
qed

definition test_cfg :: endpoint_cfg where
  "test_cfg = \<lparr>channelOrderers = (\<lambda>c. []), ordererConfig = (\<lambda>n. (None, n = ''gone:7050'')),
     orderersConfig = [\<lparr>ocURL = ''grpcs://o1:7050'', ocOptions = 3\<rparr>],
     CreateOrdererFromConfig = (\<lambda>oc. Inr (ocURL oc))\<rparr>"

theorem NewTransactor_orderers_witness:
  "NewTransactor test_net test_cfg ''ch'' [''o1:7050'', ''gone:7050'', ''o2:7050''] =
     Inr \<lparr>tChannelID = ''ch'', tOrderers = [''grpcs://o1:7050'', ''o2:7050'']\<rparr>"
  using NewTransactor_orderers [of test_net test_cfg "''ch''" "[''o1:7050'', ''gone:7050'', ''o2:7050'']"]
  by (simp add: test_net_def test_cfg_def configuredOrderers_def List.map_filter_simps ordererConfigFor_def orderersByTarget_def
      createOrderer_def ToLower_def lowerByte_def ToAddress_def HasPrefix_def TrimPrefix_def)

end
