(* ===== verification/Invoke.thy ===== *)
theory Invoke
  imports Transactor Retry
begin

text \<open>
  Invoking chaincode: the handlers of \<^verbatim>\<open>pkg/client/channel/invoke\<close> (\<open>txnhandler.go\<close>,
  \<open>selectendorsehandler.go\<close>, \<open>signature.go\<close>) and the chains of them that the channel client runs for a
  query and for the execution of a transaction. A handler acts on the request context and on the outside
  world; what it does to the world is recorded in a trace of actions. The selection service, the event
  service and the unmarshalers are the record \<open>inv_ext\<close>; their answers, and those of the network, may
  depend on how many actions came before.
\<close>

record ChaincodeCall =
  ccID :: string
  Collections :: "string list"

record Request =
  rqChaincodeID :: string
  rqFcn :: string
  rqArgs :: "bytes list"
  rqTransientMap :: "(string \<times> bytes) list"
  rqInvocationChain :: "ChaincodeCall list"
  rqIsInit :: bool

record InvokeOpts =
  Targets :: "peer list"
  TargetFilter :: "(peer \<Rightarrow> bool) option"
  TargetSorter :: "(peer list \<Rightarrow> peer list) option"
  CCFilter :: "(string \<Rightarrow> bool) option"

record InvokeResponse =
  rProposal :: "TransactionProposal option"
  rResponses :: "TransactionProposalResponse list"
  rTransactionID :: string
  rTxValidationCode :: int32
  rChaincodeStatus :: int32
  rPayload :: bytes

text \<open>The selection filter of the channel client is a closure over the greylist; it is given the time and
  the greylist when it is called.\<close>

record RequestContext =
  rcRequest :: Request
  rcOpts :: InvokeOpts
  rcResponse :: InvokeResponse
  rcError :: "error option"
  rcSelectionFilter :: "(int \<Rightarrow> Filter \<Rightarrow> peer \<Rightarrow> bool) option"
  rcPeerSorter :: "(peer list \<Rightarrow> peer list) option"

definition emptyResponse :: InvokeResponse where
  "emptyResponse = \<lparr>rProposal = None, rResponses = [], rTransactionID = '''', rTxValidationCode = 0,
     rChaincodeStatus = 0, rPayload = []\<rparr>"

record ChaincodeAction =
  actPayload :: bytes
  actResults :: bytes

record NsRwSet =
  NameSpace :: string
  CollHashedRwSets :: "string list"

record sel_opts =
  PeerFilter :: "(peer \<Rightarrow> bool) option"
  PeerSorter :: "(peer list \<Rightarrow> peer list) option"
  disableRetry :: bool
  PrioritySelector :: "(peer \<Rightarrow> peer \<Rightarrow> int) option"

text \<open>What ends the wait for the status of a transaction: a status event, the notifier closed by the event
  service, or the end of the request context.\<close>

datatype wait = TxStatusReceived int32 | NotifierClosed | CtxDone

record inv_ext =
  errs :: ext
  net :: "nat \<Rightarrow> txn_ext"
  transactor :: Transactor
  GetEndorsersForChaincode :: "nat \<Rightarrow> ChaincodeCall list \<Rightarrow> sel_opts \<Rightarrow> error + peer list"
  RegisterTxStatusEvent :: "nat \<Rightarrow> string \<Rightarrow> error + nat"
  awaitTxStatus :: "nat \<Rightarrow> nat \<Rightarrow> wait"
  unmarshalResponsePayload :: "bytes \<Rightarrow> error + bytes"
  unmarshalAction :: "bytes \<Rightarrow> error + ChaincodeAction"
  txRwSetFromProtoBytes :: "bytes \<Rightarrow> error + NsRwSet list"
  clock :: "nat \<Rightarrow> int"
  validCode :: int32

datatype action =
    ASelect "ChaincodeCall list" sel_opts
  | AEndorse TransactionProposal "peer list"
  | ARegister string nat
  | AUnregister nat
  | ABroadcast Transaction

record hstate =
  rctx :: RequestContext
  greylist :: Filter
  trace :: "action list"

text \<open>A handler returns or panics; the deferred calls have then run.\<close>

datatype hresult = HRet (hst: hstate) | HPanic (hst: hstate)

abbreviation act :: "action \<Rightarrow> hstate \<Rightarrow> hstate" where
  "act a s \<equiv> s\<lparr>trace := trace s @ [a]\<rparr>"

abbreviation setError :: "error \<Rightarrow> hstate \<Rightarrow> hstate" where
  "setError e s \<equiv> s\<lparr>rctx := (rctx s)\<lparr>rcError := Some e\<rparr>\<rparr>"

abbreviation setTargets :: "peer list \<Rightarrow> hstate \<Rightarrow> hstate" where
  "setTargets ps s \<equiv> s\<lparr>rctx := (rctx s)\<lparr>rcOpts := (rcOpts (rctx s))\<lparr>Targets := ps\<rparr>\<rparr>\<rparr>"

abbreviation setResponse :: "(InvokeResponse \<Rightarrow> InvokeResponse) \<Rightarrow> hstate \<Rightarrow> hstate" where
  "setResponse f s \<equiv> s\<lparr>rctx := (rctx s)\<lparr>rcResponse := f (rcResponse (rctx s))\<rparr>\<rparr>"

section \<open>Invocation chains\<close>

definition newInvocationChain :: "Request \<Rightarrow> ChaincodeCall list" where
  "newInvocationChain r =
     foldl (\<lambda>chain ccCall.
              if ccID ccCall = ccID (hd chain) then (hd chain)\<lparr>Collections := Collections ccCall\<rparr> # tl chain
              else chain @ [ccCall])
       [\<lparr>ccID = rqChaincodeID r, Collections = []\<rparr>] (rqInvocationChain r)"

definition getCCCall :: "ChaincodeCall list \<Rightarrow> string \<Rightarrow> ChaincodeCall option" where
  "getCCCall invocChain cc = List.find (\<lambda>ccCall. ccID ccCall = cc) invocChain"

fun mergeColls :: "string list \<Rightarrow> string list \<Rightarrow> bool \<Rightarrow> string list \<times> bool" where
  "mergeColls colls [] merged = (colls, merged)"
| "mergeColls colls (coll # rest) merged =
     (if coll \<in> set colls then mergeColls colls rest merged else mergeColls (colls @ [coll]) rest True)"

definition merge :: "ChaincodeCall \<Rightarrow> ChaincodeCall \<Rightarrow> ChaincodeCall \<times> bool" where
  "merge c1 c2 = (case mergeColls (Collections c1) (Collections c2) False of
     (colls, merged) \<Rightarrow> (\<lparr>ccID = ccID c1, Collections = colls\<rparr>, merged))"

definition mergeCCCall :: "ChaincodeCall list \<Rightarrow> ChaincodeCall \<Rightarrow> ChaincodeCall \<times> bool" where
  "mergeCCCall invocChain respCCCall =
     (case getCCCall invocChain (ccID respCCCall) of
        Some ccCall \<Rightarrow> merge ccCall respCCCall
      | None \<Rightarrow> (respCCCall, True))"

fun mergeLoop ::
  "ChaincodeCall list \<Rightarrow> (string \<Rightarrow> bool) \<Rightarrow> ChaincodeCall list \<Rightarrow> ChaincodeCall list \<Rightarrow> bool \<Rightarrow> ChaincodeCall list \<times> bool" where
  "mergeLoop invocChain keep [] merged changed = (merged, changed)"
| "mergeLoop invocChain keep (resp # rest) merged changed =
     (if \<not> keep (ccID resp) then mergeLoop invocChain keep rest merged changed
      else (case mergeCCCall invocChain resp of
              (c, m) \<Rightarrow> mergeLoop invocChain keep rest (merged @ [c]) (changed \<or> m)))"

definition mergeInvocationChains ::
  "ChaincodeCall list \<Rightarrow> ChaincodeCall list \<Rightarrow> (string \<Rightarrow> bool) \<Rightarrow> ChaincodeCall list \<times> bool" where
  "mergeInvocationChains invocChain respInvocChain keep = mergeLoop invocChain keep respInvocChain [] False"

definition lsccFilter :: "string \<Rightarrow> bool" where
  "lsccFilter cc \<longleftrightarrow> cc \<noteq> ''lscc'' \<and> cc \<noteq> ''_lifecycle''"

definition NewChainedCCFilter :: "(string \<Rightarrow> bool) list \<Rightarrow> string \<Rightarrow> bool" where
  "NewChainedCCFilter filters cc = list_all (\<lambda>f. f cc) filters"

definition getCCFilter :: "InvokeOpts \<Rightarrow> string \<Rightarrow> bool" where
  "getCCFilter o1 = (case CCFilter o1 of Some f \<Rightarrow> NewChainedCCFilter [lsccFilter, f] | None \<Rightarrow> lsccFilter)"

definition containsMSP :: "peer list \<Rightarrow> string \<Rightarrow> bool" where
  "containsMSP peers mspID = list_ex (\<lambda>p. MSPID p = mspID) peers"

definition containsPeer :: "peer list \<Rightarrow> peer \<Rightarrow> bool" where
  "containsPeer peers p = list_ex (\<lambda>q. URL q = URL p) peers"

definition prioritizePeers :: "peer list \<Rightarrow> peer \<Rightarrow> peer \<Rightarrow> int" where
  "prioritizePeers peers peer1 peer2 =
     (let hasPeer1 = containsPeer peers peer1; hasPeer2 = containsPeer peers peer2 in
      if hasPeer1 \<and> hasPeer2 then 0 else if hasPeer1 then 1 else if hasPeer2 then -1 else 0)"

definition getRWSetsFromProposalResponse :: "inv_ext \<Rightarrow> ProposalResponse \<Rightarrow> error + NsRwSet list" where
  "getRWSetsFromProposalResponse e response =
     (case unmarshalResponsePayload e (PRPayload response) of Inl err \<Rightarrow> Inl err
      | Inr extension \<Rightarrow>
         (case unmarshalAction e extension of Inl err \<Rightarrow> Inl err
          | Inr a \<Rightarrow> if actResults a = [] then Inr [] else txRwSetFromProtoBytes e (actResults a)))"

definition getInvocationChainFromResponse :: "inv_ext \<Rightarrow> TransactionProposalResponse \<Rightarrow> error + ChaincodeCall list" where
  "getInvocationChainFromResponse e response =
     (case getRWSetsFromProposalResponse e (TPRResponse response) of Inl err \<Rightarrow> Inl err
      | Inr rwSets \<Rightarrow> Inr (map (\<lambda>rw. \<lparr>ccID = NameSpace rw, Collections = CollHashedRwSets rw\<rparr>) rwSets))"

section \<open>Endorsers\<close>

definition selOpts :: "inv_ext \<Rightarrow> hstate \<Rightarrow> sel_opts" where
  "selOpts e s = \<lparr>PeerFilter = map_option (\<lambda>f. f (clock e (length (trace s))) (greylist s)) (rcSelectionFilter (rctx s)),
     PeerSorter = rcPeerSorter (rctx s), disableRetry = False, PrioritySelector = None\<rparr>"

text \<open>\<open>getEndorsers\<close> with the options it is given applied to the default ones.\<close>

definition getEndorsers ::
  "inv_ext \<Rightarrow> (sel_opts \<Rightarrow> sel_opts) \<Rightarrow> hstate \<Rightarrow> (ChaincodeCall list \<times> (error + peer list)) \<times> hstate" where
  "getEndorsers e setOpts s =
     (let ccCalls = newInvocationChain (rcRequest (rctx s)); so = setOpts (selOpts e s) in
      ((ccCalls, GetEndorsersForChaincode e (length (trace s)) ccCalls so), act (ASelect ccCalls so) s))"

definition getAdditionalEndorsers ::
  "inv_ext \<Rightarrow> ChaincodeCall list \<Rightarrow> hstate \<Rightarrow> (error + peer list) \<times> hstate" where
  "getAdditionalEndorsers e invocationChain s =
     (case getInvocationChainFromResponse e (hd (rResponses (rcResponse (rctx s)))) of
        Inl err \<Rightarrow> (Inl (ErrWithMessage ''error getting invocation chain from proposal response'' err), s)
      | Inr fromResponse \<Rightarrow>
         (case mergeInvocationChains invocationChain fromResponse (getCCFilter (rcOpts (rctx s))) of
            (chain, foundAdditional) \<Rightarrow>
              if \<not> foundAdditional then (Inr [], s)
              else
                let s1 = s\<lparr>rctx := (rctx s)\<lparr>rcRequest := (rcRequest (rctx s))\<lparr>rqInvocationChain := chain\<rparr>\<rparr>\<rparr>;
                    targets = Targets (rcOpts (rctx s)) in
                (case getEndorsers e (\<lambda>so. so\<lparr>disableRetry := True, PrioritySelector := Some (prioritizePeers targets)\<rparr>) s1 of
                   ((_, Inl err), s2) \<Rightarrow> (Inl (ErrWithMessage ''error getting additional endorsers'' err), s2)
                 | ((_, Inr endorsers), s2) \<Rightarrow> (Inr (filter (\<lambda>p. \<not> containsMSP targets (MSPID p)) endorsers), s2))))"

section \<open>Proposals and transactions\<close>

definition checkEndorserServerError :: "inv_ext \<Rightarrow> error \<Rightarrow> error" where
  "checkEndorserServerError e err =
     (if Contains (ErrorText (errs e) err) ''failed to distribute private collection''
      then ErrStatus (status_New EndorserServerStatus (ToInt32 PvtDataDisseminationFailed) (ErrorText (errs e) err) [])
      else err)"

definition getResultFromProposalResponse :: "inv_ext \<Rightarrow> ProposalResponse \<Rightarrow> error + bytes" where
  "getResultFromProposalResponse e response =
     (case unmarshalResponsePayload e (PRPayload response) of
        Inl err \<Rightarrow> Inl (Wrap ''failed to deserialize proposal response payload'' err)
      | Inr extension \<Rightarrow>
         (case unmarshalAction e extension of
            Inl err \<Rightarrow> Inl (Wrap ''failed to deserialize chaincode action'' err)
          | Inr a \<Rightarrow> Inr (actPayload a)))"

definition withMessageF :: "string \<Rightarrow> failure \<Rightarrow> failure" where
  "withMessageF msg f = (case f of Err e \<Rightarrow> Err (ErrWithMessage msg e) | Panic p \<Rightarrow> Panic p)"

text \<open>The three results of \<open>createAndSendTransactionProposal\<close>, and the trace.\<close>

definition createAndSendTransactionProposal ::
  "inv_ext \<Rightarrow> Request \<Rightarrow> peer list \<Rightarrow> bytes option \<times> bytes option \<Rightarrow> hstate \<Rightarrow>
     (TransactionProposalResponse list \<times> TransactionProposal option \<times> failure option) \<times> hstate" where
  "createAndSendTransactionProposal e chrequest targets hdrOpts s =
     (let n = length (trace s); x = net e n;
          request = \<lparr>ReqChaincodeID = rqChaincodeID chrequest, ReqFcn = rqFcn chrequest, ReqArgs = rqArgs chrequest,
            ReqIsInit = rqIsInit chrequest, ReqLang = 0, ReqTransientMap = rqTransientMap chrequest\<rparr> in
      case CreateTransactionHeader x (transactor e) (fst hdrOpts) (snd hdrOpts) of
        Inl f \<Rightarrow> (([], None, Some (withMessageF ''creating transaction header failed'' f)), s)
      | Inr txh \<Rightarrow>
         (case CreateChaincodeInvokeProposal x txh request of
            Inl f \<Rightarrow> (([], None, Some (withMessageF ''creating transaction proposal failed'' f)), s)
          | Inr proposal \<Rightarrow>
             (case SendTransactionProposal x n (transactor e) (Some proposal) (map PeerProcessor targets) of
                Inl f \<Rightarrow> (([], Some proposal, Some f), act (AEndorse proposal targets) s)
              | Inr (responses, err) \<Rightarrow>
                  ((responses, Some proposal, map_option Err err), act (AEndorse proposal targets) s))))"

text \<open>\<open>createAndSendTransaction\<close>: nil or the failure; a broadcast that is attempted is an action.\<close>

definition createAndSendTransaction ::
  "inv_ext \<Rightarrow> TransactionProposal option \<Rightarrow> TransactionProposalResponse list \<Rightarrow> hstate \<Rightarrow> failure option \<times> hstate" where
  "createAndSendTransaction e proposal resps s =
     (let n = length (trace s); x = net e n in
      case CreateTransaction x proposal resps of
        Inl f \<Rightarrow> (Some (withMessageF ''CreateTransaction failed'' f), s)
      | Inr tx \<Rightarrow>
         (case SendTransaction x n (transactor e) (Some tx) of
            (Inr _, called) \<Rightarrow> (None, act (ABroadcast tx) s)
          | (Inl f, called) \<Rightarrow> (map_option (withMessageF ''SendTransaction failed'') f, act (ABroadcast tx) s)))"

section \<open>The handlers\<close>

datatype handler =
    ProposalProcessorHandler (nxt: "handler option")
  | EndorsementHandler (nxt: "handler option") (headerOptsProvider: "bytes option \<times> bytes option")
  | EndorsementValidationHandler (nxt: "handler option")
  | SignatureValidationHandler (nxt: "handler option")
  | CommitTxHandler (nxt: "handler option")
  | SelectAndEndorseHandler (nxt: "handler option")

definition getNext :: "handler list \<Rightarrow> handler option" where
  "getNext hs = (case hs of h # _ \<Rightarrow> Some h | [] \<Rightarrow> None)"

definition NewQueryHandler :: "handler list \<Rightarrow> handler" where
  "NewQueryHandler hs = ProposalProcessorHandler (Some (EndorsementHandler (Some
     (EndorsementValidationHandler (Some (SignatureValidationHandler (getNext hs))))) (None, None)))"

definition NewExecuteHandler :: "handler list \<Rightarrow> handler" where
  "NewExecuteHandler hs = SelectAndEndorseHandler (Some (EndorsementValidationHandler (Some
     (SignatureValidationHandler (Some (CommitTxHandler (getNext hs)))))))"

text \<open>\<open>validate\<close> of the endorsement validation handler: \<open>a1\<close> is the first response, nil before it.\<close>

fun validateEndorsements ::
  "txn_ext \<Rightarrow> ProposalResponse option \<Rightarrow> TransactionProposalResponse list \<Rightarrow> unit outcome" where
  "validateEndorsements x a1 [] = Inr ()"
| "validateEndorsements x a1 (r # rs) =
     (case PRResponse (TPRResponse r) of None \<Rightarrow> Inl (Panic ''nil pointer dereference'')
      | Some response \<Rightarrow>
          if \<not> isSuccess x (RespStatus response) then
            Inl (Err (ErrStatus (NewFromProposalResponse (RespStatus response) (RespMessage response)
              (RespPayload response) (Endorser r))))
          else (case a1 of
              None \<Rightarrow> validateEndorsements x (Some (TPRResponse r)) rs
            | Some a \<Rightarrow>
                if PRPayload a \<noteq> PRPayload (TPRResponse r) \<or>
                   map_option RespPayload (PRResponse a) \<noteq> Some (RespPayload response)
                then Inl (Err (ErrStatus (status_New EndorserClientStatus (ToInt32 EndorsementMismatch)
                       ''ProposalResponsePayloads do not match'' [])))
                else validateEndorsements x a1 rs))"

fun validateSignatures :: "inv_ext \<Rightarrow> txn_ext \<Rightarrow> TransactionProposalResponse list \<Rightarrow> unit outcome" where
  "validateSignatures e x [] = Inr ()"
| "validateSignatures e x (r # rs) =
     (case sig_Verify (errs e) x r of Inl f \<Rightarrow> Inl f | Inr _ \<Rightarrow> validateSignatures e x rs)"

text \<open>Each handler without the call of the next one: \<open>Next\<close> if the code reaches that call, \<open>Return\<close> if it
  returns before, \<open>Crash\<close> if it panics.\<close>

datatype step = Next (stp: hstate) | Return (stp: hstate) | Crash (stp: hstate)

definition runProposalProcessor :: "inv_ext \<Rightarrow> hstate \<Rightarrow> step" where
  "runProposalProcessor e s =
     (if Targets (rcOpts (rctx s)) = [] then
        (case getEndorsers e id s of
           ((_, Inl err), s1) \<Rightarrow> Return (setError (ErrWithMessage ''Failed to get endorsing peers'' err) s1)
         | ((_, Inr endorsers), s1) \<Rightarrow> Next (setTargets endorsers s1))
      else Next s)"

definition runEndorsement :: "inv_ext \<Rightarrow> bytes option \<times> bytes option \<Rightarrow> hstate \<Rightarrow> step" where
  "runEndorsement e hdrOpts s =
     (if Targets (rcOpts (rctx s)) = [] then
        Return (setError (ErrStatus (status_New ClientStatus (ToInt32 NoPeersFound) ''targets were not provided'' [])) s)
      else
        (case createAndSendTransactionProposal e (rcRequest (rctx s)) (Targets (rcOpts (rctx s))) hdrOpts s of
           ((responses, proposal, f), s1) \<Rightarrow>
             (case f of Some (Panic _) \<Rightarrow> Crash s1
              | _ \<Rightarrow>
             (case proposal of None \<Rightarrow> Crash (setResponse (\<lambda>r. r\<lparr>rProposal := None\<rparr>) s1)
              | Some tp \<Rightarrow>
                let s2 = setResponse (\<lambda>r. r\<lparr>rProposal := Some tp, rTransactionID := TxnID tp\<rparr>) s1 in
                (case f of Some (Err err) \<Rightarrow> Return (setError (checkEndorserServerError e err) s2)
                 | _ \<Rightarrow>
                   let s3 = setResponse (\<lambda>r. r\<lparr>rResponses := responses\<rparr>) s2 in
                   (case responses of [] \<Rightarrow> Next s3
                    | r0 # _ \<Rightarrow>
                       (case getResultFromProposalResponse e (TPRResponse r0) of
                          Inl err \<Rightarrow> Return (setError err s3)
                        | Inr payload \<Rightarrow>
                            Next (setResponse (\<lambda>r. r\<lparr>rPayload := payload, rChaincodeStatus := TPRChaincodeStatus r0\<rparr>) s3))))))))"

definition runEndorsementValidation :: "inv_ext \<Rightarrow> hstate \<Rightarrow> step" where
  "runEndorsementValidation e s =
     (case validateEndorsements (net e (length (trace s))) None (rResponses (rcResponse (rctx s))) of
        Inl (Panic _) \<Rightarrow> Crash s
      | Inl (Err err) \<Rightarrow> Return (setError (ErrWithMessage ''endorsement validation failed'' err) s)
      | Inr _ \<Rightarrow> Next s)"

definition runSignatureValidation :: "inv_ext \<Rightarrow> hstate \<Rightarrow> step" where
  "runSignatureValidation e s =
     (case validateSignatures e (net e (length (trace s))) (rResponses (rcResponse (rctx s))) of
        Inl (Panic _) \<Rightarrow> Crash s
      | Inl (Err err) \<Rightarrow> Return (setError (ErrWithMessage ''signature validation failed'' err) s)
      | Inr _ \<Rightarrow> Next s)"

text \<open>\<open>SelectAndEndorseHandler.Handle\<close>: its embedded endorsement handler has no next handler.\<close>

definition moreEndorsements :: "inv_ext \<Rightarrow> ChaincodeCall list \<Rightarrow> hstate \<Rightarrow> step" where
  "moreEndorsements e ccCalls s =
     (case getAdditionalEndorsers e ccCalls s of
        (Inl err, s1) \<Rightarrow> Next s1
      | (Inr additional, s1) \<Rightarrow>
          if additional = [] then Next s1
          else
            let s2 = setTargets additional s1; n = length (trace s2);
                proposal = rProposal (rcResponse (rctx s2));
                s3 = (case proposal of Some tp \<Rightarrow> act (AEndorse tp additional) s2 | None \<Rightarrow> s2) in
            (case SendTransactionProposal (net e n) n (transactor e) proposal (map PeerProcessor additional) of
               Inl (Panic _) \<Rightarrow> Crash s3
             | Inl (Err err) \<Rightarrow> Return (setError (ErrWithMessage ''error sending transaction proposal'' err) s3)
             | Inr (_, Some err) \<Rightarrow> Return (setError (ErrWithMessage ''error sending transaction proposal'' err) s3)
             | Inr (responses, None) \<Rightarrow> Next (setResponse (\<lambda>r. r\<lparr>rResponses := rResponses r @ responses\<rparr>) s3)))"

definition runSelectAndEndorse :: "inv_ext \<Rightarrow> hstate \<Rightarrow> step" where
  "runSelectAndEndorse e s =
     (let targets = Targets (rcOpts (rctx s));
          selected = (if targets = [] then getEndorsers e id s else (([], Inr targets), s)) in
      case selected of
        ((ccCalls, Inl err), s1) \<Rightarrow> Return (setError err (setTargets [] s1))
      | ((ccCalls, Inr ps), s1) \<Rightarrow>
          (case runEndorsement e (None, None) (setTargets ps s1) of
             Crash s2 \<Rightarrow> Crash s2
           | Return s2 \<Rightarrow> Return s2
           | Next s2 \<Rightarrow>
               if rcError (rctx s2) \<noteq> None then Return s2
               else if targets = [] \<and> rResponses (rcResponse (rctx s2)) \<noteq> [] then moreEndorsements e ccCalls s2
               else Next s2))"

text \<open>The select of the commit handler; \<open>Crash\<close> is the nil status read from a closed notifier.\<close>

definition awaitCommit :: "inv_ext \<Rightarrow> nat \<Rightarrow> hstate \<Rightarrow> step" where
  "awaitCommit e reg s =
     (case awaitTxStatus e (length (trace s)) reg of
        TxStatusReceived code \<Rightarrow>
          let s1 = setResponse (\<lambda>r. r\<lparr>rTxValidationCode := code\<rparr>) s in
          if code \<noteq> validCode e
          then Return (setError (ErrStatus (status_New EventServerStatus code ''received invalid transaction'' [])) s1)
          else Next s1
      | NotifierClosed \<Rightarrow> Crash s
      | CtxDone \<Rightarrow> Return (setError (ErrStatus (status_New ClientStatus (ToInt32 Timeout) ''Execute didn't receive block event'' [])) s))"

definition runCommit :: "inv_ext \<Rightarrow> nat \<Rightarrow> hstate \<Rightarrow> step" where
  "runCommit e reg s =
     (case createAndSendTransaction e (rProposal (rcResponse (rctx s))) (rResponses (rcResponse (rctx s))) s of
        (Some (Panic _), s1) \<Rightarrow> Crash s1
      | (Some (Err err), s1) \<Rightarrow> Return (setError (Wrap ''CreateAndSendTransaction failed'' err) s1)
      | (None, s1) \<Rightarrow> awaitCommit e reg s1)"

definition andThen :: "step \<Rightarrow> (hstate \<Rightarrow> hresult) \<Rightarrow> hresult" where
  "andThen r k = (case r of Next s \<Rightarrow> k s | Return s \<Rightarrow> HRet s | Crash s \<Rightarrow> HPanic s)"

definition deferUnregister :: "nat \<Rightarrow> hresult \<Rightarrow> hresult" where
  "deferUnregister reg r = (case r of HRet s \<Rightarrow> HRet (act (AUnregister reg) s) | HPanic s \<Rightarrow> HPanic (act (AUnregister reg) s))"

lemma andThen_cong [fundef_cong]: "r = r' \<Longrightarrow> (\<And>s. r' = Next s \<Longrightarrow> k s = k' s) \<Longrightarrow> andThen r k = andThen r' k'"
  by (simp add: andThen_def split: step.split)

fun Handle :: "inv_ext \<Rightarrow> handler \<Rightarrow> hstate \<Rightarrow> hresult" where
  "Handle e (ProposalProcessorHandler n) s =
     andThen (runProposalProcessor e s) (\<lambda>s1. case n of Some h \<Rightarrow> Handle e h s1 | None \<Rightarrow> HRet s1)"
| "Handle e (EndorsementHandler n hdrOpts) s =
     andThen (runEndorsement e hdrOpts s) (\<lambda>s1. case n of Some h \<Rightarrow> Handle e h s1 | None \<Rightarrow> HRet s1)"
| "Handle e (EndorsementValidationHandler n) s =
     andThen (runEndorsementValidation e s) (\<lambda>s1. case n of Some h \<Rightarrow> Handle e h s1 | None \<Rightarrow> HRet s1)"
| "Handle e (SignatureValidationHandler n) s =
     andThen (runSignatureValidation e s) (\<lambda>s1. case n of Some h \<Rightarrow> Handle e h s1 | None \<Rightarrow> HRet s1)"
| "Handle e (SelectAndEndorseHandler n) s =
     andThen (runSelectAndEndorse e s) (\<lambda>s1. case n of Some h \<Rightarrow> Handle e h s1 | None \<Rightarrow> HRet s1)"
| "Handle e (CommitTxHandler n) s =
     (let txnID = rTransactionID (rcResponse (rctx s)) in
      case RegisterTxStatusEvent e (length (trace s)) txnID of
        Inl err \<Rightarrow> HRet (setError (Wrap ''error registering for TxStatus event'' err) s)
      | Inr reg \<Rightarrow> deferUnregister reg
          (andThen (runCommit e reg (act (ARegister txnID reg) s))
            (\<lambda>s1. case n of Some h \<Rightarrow> Handle e h s1 | None \<Rightarrow> HRet s1)))"

section \<open>Lemmas on the parts of a handler\<close>

fun isEndorsing :: "action \<Rightarrow> bool" where
  "isEndorsing (ASelect _ _) = True"
| "isEndorsing (AEndorse _ _) = True"
| "isEndorsing _ = False"

definition endorsing :: "hstate \<Rightarrow> hstate \<Rightarrow> bool" where
  "endorsing s s1 \<longleftrightarrow> (\<exists>t. trace s1 = trace s @ t \<and> list_all isEndorsing t)"

lemma endorsing_refl [simp]: "trace s1 = trace s \<Longrightarrow> endorsing s s1"
  by (simp add: endorsing_def)

lemma endorsing_act: "trace s1 = trace s @ [a] \<Longrightarrow> isEndorsing a \<Longrightarrow> endorsing s s1"
  by (simp add: endorsing_def)

lemma endorsing_trans: "endorsing s s1 \<Longrightarrow> endorsing s1 s2 \<Longrightarrow> endorsing s s2"
  by (fastforce simp: endorsing_def)

text \<open>What the later handlers find after the endorsement: a proposal and its transaction ID, and the
  result of the first response.\<close>

definition proposed :: "inv_ext \<Rightarrow> hstate \<Rightarrow> bool" where
  "proposed e s \<longleftrightarrow> (\<exists>tp. rProposal (rcResponse (rctx s)) = Some tp \<and> rTransactionID (rcResponse (rctx s)) = TxnID tp \<and>
     (case rResponses (rcResponse (rctx s)) of [] \<Rightarrow> True
      | r0 # _ \<Rightarrow> getResultFromProposalResponse e (TPRResponse r0) = Inr (rPayload (rcResponse (rctx s)))))"

lemma proposed_cong: "rctx s = rctx s' \<Longrightarrow> proposed e s = proposed e s'"
  unfolding proposed_def by (erule ssubst) (rule refl)

lemma createAndSendTransactionProposal_endorsing:
  "createAndSendTransactionProposal e rq ps ho s = (r, s1) \<Longrightarrow> endorsing s s1"
  by (auto simp: createAndSendTransactionProposal_def Let_def intro!: endorsing_act split: sum.splits)

lemma createAndSendTransactionProposal_rctx:
  "createAndSendTransactionProposal e rq ps ho s = (r, s1) \<Longrightarrow> rctx s1 = rctx s"
  by (auto simp: createAndSendTransactionProposal_def Let_def split: sum.splits)

lemma runEndorsement_endorsing: "endorsing s (stp (runEndorsement e ho s))"
proof -
  obtain responses proposal f s1 where c:
    "createAndSendTransactionProposal e (rcRequest (rctx s)) (Targets (rcOpts (rctx s))) ho s = ((responses, proposal, f), s1)"
    by (metis surj_pair)
  have tr: "endorsing s s2" if "trace s2 = trace s1" for s2
    using createAndSendTransactionProposal_endorsing [OF c] that by (simp add: endorsing_def)
  show ?thesis
    by (auto simp: runEndorsement_def c Let_def intro: tr split: option.split failure.split list.split sum.split)
qed

lemma runEndorsement_proposed: "runEndorsement e ho s = Next s1 \<Longrightarrow> proposed e s1"
  by (auto simp: runEndorsement_def Let_def proposed_def
      split: if_splits option.splits failure.splits list.splits sum.splits prod.splits)

lemma getEndorsers_endorsing: "getEndorsers e f s = (r, s1) \<Longrightarrow> endorsing s s1 \<and> rctx s1 = rctx s"
  by (auto simp: getEndorsers_def Let_def intro!: endorsing_act)

lemma getAdditionalEndorsers_endorsing:
  assumes "getAdditionalEndorsers e ch s = (r, s1)"
  shows "endorsing s s1 \<and> rcResponse (rctx s1) = rcResponse (rctx s)"
  using assms
  by (auto simp: getAdditionalEndorsers_def Let_def getEndorsers_def intro!: endorsing_act
      split: sum.splits prod.splits if_splits)

lemma moreEndorsements_endorsing: "endorsing s (stp (moreEndorsements e ch s))"
proof -
  obtain r s1 where g: "getAdditionalEndorsers e ch s = (r, s1)" by fastforce
  note E = getAdditionalEndorsers_endorsing [OF g, THEN conjunct1]
  have tr: "endorsing s s2" if "trace s2 = trace s1 \<or> (\<exists>tp ps. trace s2 = trace s1 @ [AEndorse tp ps])" for s2
    using that E by (auto simp: endorsing_def)
  show ?thesis
    by (auto simp: moreEndorsements_def g Let_def intro!: tr split: sum.split failure.split option.split)
qed

lemma moreEndorsements_proposed:
  assumes "proposed e s" "rResponses (rcResponse (rctx s)) \<noteq> []" "moreEndorsements e ch s = Next s1"
  shows "proposed e s1"
proof -
  obtain r s0 where g: "getAdditionalEndorsers e ch s = (r, s0)" by fastforce
  from getAdditionalEndorsers_endorsing [OF g] have "rcResponse (rctx s0) = rcResponse (rctx s)" by simp
  with assms g show ?thesis
    by (auto simp: moreEndorsements_def proposed_def Let_def
        split: sum.splits failure.splits option.splits if_splits list.splits)
qed

lemma runSelectAndEndorse_endorsing: "endorsing s (stp (runSelectAndEndorse e s))"
proof -
  obtain ch r s1 where g: "(if Targets (rcOpts (rctx s)) = [] then getEndorsers e id s
      else (([], Inr (Targets (rcOpts (rctx s)))), s)) = ((ch, r), s1)" by (metis surj_pair)
  then have E: "endorsing s s1" using getEndorsers_endorsing by (auto split: if_splits)
  have tr: "endorsing s s2" if "endorsing (setTargets ps s1) s2" for s2 ps
    using endorsing_trans [OF E, of s2] that by (simp add: endorsing_def)
  show ?thesis
  proof (cases r)
    case (Inl err)
    with g E show ?thesis by (simp add: runSelectAndEndorse_def Let_def endorsing_def)
  next
    case (Inr ps)
    let ?r = "runEndorsement e (None, None) (setTargets ps s1)"
    have E2: "endorsing s (stp ?r)" by (rule tr [OF runEndorsement_endorsing])
    with endorsing_trans [OF E2 moreEndorsements_endorsing] g Inr show ?thesis
      by (auto simp: runSelectAndEndorse_def Let_def split: step.split)
  qed
qed

lemma runSelectAndEndorse_proposed: "runSelectAndEndorse e s = Next s1 \<Longrightarrow> proposed e s1"
  by (auto simp: runSelectAndEndorse_def Let_def split: prod.splits sum.splits step.splits if_splits
      intro: runEndorsement_proposed moreEndorsements_proposed)

text \<open>The responses agree with the first one.\<close>

definition agree :: "TransactionProposalResponse list \<Rightarrow> bool" where
  "agree rs \<longleftrightarrow> list_all (\<lambda>r. PRPayload (TPRResponse r) = PRPayload (TPRResponse (hd rs)) \<and>
     map_option RespPayload (PRResponse (TPRResponse r)) = map_option RespPayload (PRResponse (TPRResponse (hd rs)))) rs"

definition verified :: "inv_ext \<Rightarrow> TransactionProposalResponse list \<Rightarrow> bool" where
  "verified e rs \<longleftrightarrow> (\<exists>m. list_all (\<lambda>r. sig_Verify (errs e) (net e m) r = Inr ()) rs)"

lemma validateEndorsements_Some:
  "validateEndorsements x (Some a) rs = Inr () \<Longrightarrow>
     list_all (\<lambda>r. PRPayload (TPRResponse r) = PRPayload a \<and>
       map_option RespPayload (PRResponse (TPRResponse r)) = map_option RespPayload (PRResponse a)) rs"
  by (induction rs) (auto split: option.splits if_splits)

lemma validateEndorsements_agree: "validateEndorsements x None rs = Inr () \<Longrightarrow> agree rs"
  by (cases rs) (auto simp: agree_def dest: validateEndorsements_Some split: option.splits if_splits)

lemma validateSignatures_Inr:
  "validateSignatures e x rs = Inr () \<longleftrightarrow> list_all (\<lambda>r. sig_Verify (errs e) x r = Inr ()) rs"
  by (induction rs) (auto split: sum.split)

lemma runEndorsementValidation_spec:
  "runEndorsementValidation e s = Next s1 \<Longrightarrow> s1 = s \<and> agree (rResponses (rcResponse (rctx s)))"
  "trace (stp (runEndorsementValidation e s)) = trace s"
  by (auto simp: runEndorsementValidation_def intro: validateEndorsements_agree split: sum.splits failure.splits)

lemma runSignatureValidation_spec:
  "runSignatureValidation e s = Next s1 \<Longrightarrow> s1 = s \<and> verified e (rResponses (rcResponse (rctx s)))"
  "trace (stp (runSignatureValidation e s)) = trace s"
  by (auto simp: runSignatureValidation_def verified_def validateSignatures_Inr split: sum.splits failure.splits)

section \<open>The commit handler\<close>

text \<open>The three shapes of what the commit handler does: nothing, a registration that is taken back, or a
  registration, the broadcast of a transaction that the state justifies, and the end of the registration.\<close>

definition justified :: "inv_ext \<Rightarrow> TransactionProposal \<Rightarrow> Transaction \<Rightarrow> bool" where
  "justified e tp tx \<longleftrightarrow> (\<exists>m rs. txn_New (net e m) (Some tp) rs = Inr tx \<and> agree rs \<and> verified e rs)"

definition commits :: "inv_ext \<Rightarrow> action list \<Rightarrow> bool" where
  "commits e t \<longleftrightarrow> t = [] \<or> (\<exists>txid reg. t = [ARegister txid reg, AUnregister reg]) \<or>
     (\<exists>tp reg tx. t = [ARegister (TxnID tp) reg, ABroadcast tx, AUnregister reg] \<and> justified e tp tx)"

lemma commits_Nil [simp]: "commits e []"
  by (simp add: commits_def)

lemma createAndSendTransaction_cases:
  assumes "createAndSendTransaction e tp rs s = (f, s1)"
  obtains (none) "s1 = s" "f \<noteq> None"
    | (sent) tx r called where "s1 = act (ABroadcast tx) s" "txn_New (net e (length (trace s))) tp rs = Inr tx"
        "SendTransaction (net e (length (trace s))) (length (trace s)) (transactor e) (Some tx) = (r, called)"
        "f = None \<longleftrightarrow> \<not> isl r"
proof (cases "txn_New (net e (length (trace s))) tp rs")
  case (Inl f1)
  then show ?thesis using assms by (intro none) (auto simp: createAndSendTransaction_def CreateTransaction_def Let_def)
next
  case (Inr tx)
  obtain r called where r:
    "SendTransaction (net e (length (trace s))) (length (trace s)) (transactor e) (Some tx) = (r, called)" by fastforce
  then have "r \<noteq> Inl None" using txn_Send_not_nil by (metis SendTransaction_def fst_conv)
  with r Inr assms have "s1 = act (ABroadcast tx) s" "f = None \<longleftrightarrow> \<not> isl r"
    by (auto simp: createAndSendTransaction_def CreateTransaction_def Let_def split: sum.splits)
  with Inr r show ?thesis by (intro sent)
qed

lemma awaitCommit_trace: "trace (stp (awaitCommit e reg s)) = trace s"
  by (auto simp: awaitCommit_def Let_def split: wait.split)

lemma runCommit_trace:
  assumes "proposed e s" "agree (rResponses (rcResponse (rctx s)))" "verified e (rResponses (rcResponse (rctx s)))"
  shows "\<exists>t. trace (stp (runCommit e reg s)) = trace s @ t \<and>
    (t = [] \<or> (\<exists>tp tx. t = [ABroadcast tx] \<and> rTransactionID (rcResponse (rctx s)) = TxnID tp \<and> justified e tp tx))"
proof -
  from assms(1) obtain tp where tp: "rProposal (rcResponse (rctx s)) = Some tp"
      "rTransactionID (rcResponse (rctx s)) = TxnID tp" by (auto simp: proposed_def)
  obtain f s1 where c: "createAndSendTransaction e (Some tp) (rResponses (rcResponse (rctx s))) s = (f, s1)" by fastforce
  then have tr: "trace (stp (runCommit e reg s)) = trace s1"
    by (auto simp: runCommit_def tp awaitCommit_trace split: option.split failure.split)
  from c show ?thesis
    by (cases rule: createAndSendTransaction_cases)
      (use tr tp assms in \<open>auto simp: justified_def\<close>)
qed

lemma commit_shape:
  assumes "proposed e s" "agree (rResponses (rcResponse (rctx s)))" "verified e (rResponses (rcResponse (rctx s)))"
  shows "\<exists>t. trace (hst (Handle e (CommitTxHandler None) s)) = trace s @ t \<and> commits e t"
proof (cases "RegisterTxStatusEvent e (length (trace s)) (rTransactionID (rcResponse (rctx s)))")
  case (Inl err)
  then show ?thesis by (simp add: commits_def)
next
  case (Inr reg)
  let ?s = "act (ARegister (rTransactionID (rcResponse (rctx s))) reg) s"
  have "proposed e ?s" using assms(1) by (rule proposed_cong [THEN iffD1, rotated]) simp
  then obtain t where t: "trace (stp (runCommit e reg ?s)) = trace ?s @ t"
      "t = [] \<or> (\<exists>tp tx. t = [ABroadcast tx] \<and> rTransactionID (rcResponse (rctx s)) = TxnID tp \<and> justified e tp tx)"
    using runCommit_trace [of e ?s reg] assms by auto
  have "trace (hst (deferUnregister reg (andThen (runCommit e reg ?s) HRet))) = trace ?s @ t @ [AUnregister reg]"
    using t(1) by (auto simp: deferUnregister_def andThen_def split: step.splits)
  with Inr t(2) show ?thesis by (auto simp: commits_def Let_def)
qed

section \<open>Selections\<close>

text \<open>What the selection service is given: every selection uses the filter of the request, on the greylist of the start
  and at the time of the selection. The handlers change neither filter nor greylist.\<close>

definition selecting :: "inv_ext \<Rightarrow> hstate \<Rightarrow> hstate \<Rightarrow> bool" where
  "selecting e s s1 \<longleftrightarrow> greylist s1 = greylist s \<and> rcSelectionFilter (rctx s1) = rcSelectionFilter (rctx s) \<and>
     (\<exists>acts. trace s1 = trace s @ acts \<and> (\<forall>k < length acts. \<forall>cc so. acts ! k = ASelect cc so \<longrightarrow>
        PeerFilter so = map_option (\<lambda>f. f (clock e (length (trace s) + k)) (greylist s)) (rcSelectionFilter (rctx s))))"

lemma selecting_same:
  "greylist s1 = greylist s \<Longrightarrow> rcSelectionFilter (rctx s1) = rcSelectionFilter (rctx s) \<Longrightarrow> trace s1 = trace s \<Longrightarrow> selecting e s s1"
  by (simp add: selecting_def)

lemma selecting_act:
  "greylist s1 = greylist s \<Longrightarrow> rcSelectionFilter (rctx s1) = rcSelectionFilter (rctx s) \<Longrightarrow> trace s1 = trace s @ [a] \<Longrightarrow>
     (\<And>cc so. a \<noteq> ASelect cc so) \<Longrightarrow> selecting e s s1"
  by (simp add: selecting_def)

lemma selecting_trans:
  assumes "selecting e s s1" "selecting e s1 s2"
  shows "selecting e s s2"
proof -
  from assms obtain as bs where as: "trace s1 = trace s @ as" "\<forall>k < length as. \<forall>cc so. as ! k = ASelect cc so \<longrightarrow>
        PeerFilter so = map_option (\<lambda>f. f (clock e (length (trace s) + k)) (greylist s)) (rcSelectionFilter (rctx s))"
    and bs: "trace s2 = trace s1 @ bs" "\<forall>k < length bs. \<forall>cc so. bs ! k = ASelect cc so \<longrightarrow>
        PeerFilter so = map_option (\<lambda>f. f (clock e (length (trace s1) + k)) (greylist s1)) (rcSelectionFilter (rctx s1))"
    and same: "greylist s1 = greylist s" "rcSelectionFilter (rctx s1) = rcSelectionFilter (rctx s)"
      "greylist s2 = greylist s1" "rcSelectionFilter (rctx s2) = rcSelectionFilter (rctx s1)"
    by (auto simp: selecting_def)
  have "PeerFilter so = map_option (\<lambda>f. f (clock e (length (trace s) + k)) (greylist s)) (rcSelectionFilter (rctx s))"
    if "k < length (as @ bs)" "(as @ bs) ! k = ASelect cc so" for k cc so
  proof (cases "k < length as")
    case True
    then show ?thesis using as(2) that by (simp add: nth_append)
  next
    case False
    then have "length (trace s1) + (k - length as) = length (trace s) + k" using as(1) by simp
    with bs(2) [rule_format, of "k - length as" cc so] False that same show ?thesis by (simp add: nth_append)
  qed
  then show ?thesis unfolding selecting_def using as(1) bs(1) same by (intro conjI exI [of _ "as @ bs"]) simp_all
qed

lemma getEndorsers_selecting:
  "getEndorsers e f s = (r, s1) \<Longrightarrow> (\<And>so. PeerFilter (f so) = PeerFilter so) \<Longrightarrow> selecting e s s1"
  by (auto simp: getEndorsers_def Let_def selecting_def selOpts_def)

lemma createAndSendTransactionProposal_selecting: "createAndSendTransactionProposal e rq ps ho s = (r, s1) \<Longrightarrow> selecting e s s1"
  by (auto simp: createAndSendTransactionProposal_def Let_def selecting_def split: sum.splits)

lemma runEndorsement_selecting: "selecting e s (stp (runEndorsement e ho s))"
proof -
  obtain responses proposal f s1 where c:
    "createAndSendTransactionProposal e (rcRequest (rctx s)) (Targets (rcOpts (rctx s))) ho s = ((responses, proposal, f), s1)"
    by (metis surj_pair)
  have tr: "selecting e s s2" if "trace s2 = trace s1" "greylist s2 = greylist s1" "rcSelectionFilter (rctx s2) = rcSelectionFilter (rctx s1)" for s2
    by (rule selecting_trans [OF createAndSendTransactionProposal_selecting [OF c] selecting_same]) (simp_all add: that)
  show ?thesis
  proof (cases "Targets (rcOpts (rctx s)) = []")
    case True
    then show ?thesis by (simp add: runEndorsement_def selecting_same)
  next
    case False
    then show ?thesis
      by (auto simp: runEndorsement_def c Let_def intro!: tr split: option.split failure.split list.split sum.split)
  qed
qed

lemma getAdditionalEndorsers_selecting:
  assumes "getAdditionalEndorsers e ch s = (r, s1)"
  shows "selecting e s s1"
proof -
  have "selecting e s s2" if "getEndorsers e f (s\<lparr>rctx := (rctx s)\<lparr>rcRequest := rq\<rparr>\<rparr>) = (r', s2)" "\<And>so. PeerFilter (f so) = PeerFilter so" for f rq r' s2
    by (rule selecting_trans [OF selecting_same getEndorsers_selecting [OF that]]) simp_all
  with assms show ?thesis
    by (auto simp: getAdditionalEndorsers_def Let_def intro: selecting_same split: sum.splits prod.splits if_splits)
qed

lemma moreEndorsements_selecting: "selecting e s (stp (moreEndorsements e ch s))"
proof -
  obtain r s1 where g: "getAdditionalEndorsers e ch s = (r, s1)" by fastforce
  have tr: "selecting e s s2" if "trace s2 = trace s1 \<or> (\<exists>tp ps. trace s2 = trace s1 @ [AEndorse tp ps])"
      "greylist s2 = greylist s1" "rcSelectionFilter (rctx s2) = rcSelectionFilter (rctx s1)" for s2
  proof (rule selecting_trans [OF getAdditionalEndorsers_selecting [OF g]])
    show "selecting e s1 s2" using that by (auto intro: selecting_same selecting_act)
  qed
  show ?thesis
    by (auto simp: moreEndorsements_def g Let_def intro!: tr split: sum.split failure.split option.split)
qed

lemma runSelectAndEndorse_selecting: "selecting e s (stp (runSelectAndEndorse e s))"
proof -
  obtain ch r s1 where g: "(if Targets (rcOpts (rctx s)) = [] then getEndorsers e id s
      else (([], Inr (Targets (rcOpts (rctx s)))), s)) = ((ch, r), s1)" by (metis surj_pair)
  then have E: "selecting e s s1" using getEndorsers_selecting [of e id s] selecting_same [of s s e] by (auto split: if_splits)
  have tr: "selecting e s s2" if "selecting e (setTargets ps s1) s2" for s2 ps
    using selecting_trans [OF E, of s2] that by (simp add: selecting_def)
  show ?thesis
  proof (cases r)
    case (Inl err)
    with g E show ?thesis by (simp add: runSelectAndEndorse_def Let_def selecting_def)
  next
    case (Inr ps)
    let ?r = "runEndorsement e (None, None) (setTargets ps s1)"
    have E2: "selecting e s (stp ?r)" by (rule tr [OF runEndorsement_selecting])
    with selecting_trans [OF E2 moreEndorsements_selecting] g Inr show ?thesis
      by (auto simp: runSelectAndEndorse_def Let_def split: step.split)
  qed
qed

lemma runSelectAndEndorse_selects:
  assumes "Targets (rcOpts (rctx s)) = []"
  shows "\<exists>cc so rest. trace (stp (runSelectAndEndorse e s)) = trace s @ ASelect cc so # rest"
proof -
  obtain cc r s1 where g: "getEndorsers e id s = ((cc, r), s1)" by (metis surj_pair)
  then obtain so where s1: "trace s1 = trace s @ [ASelect cc so]" by (auto simp: getEndorsers_def Let_def)
  have more: "\<exists>rest. trace s2 = trace s1 @ rest" if "selecting e (setTargets ps s1) s2" for s2 ps
    using that by (auto simp: selecting_def)
  show ?thesis
  proof (cases r)
    case (Inl err)
    with assms g s1 show ?thesis by (simp add: runSelectAndEndorse_def Let_def)
  next
    case (Inr ps)
    let ?r = "runEndorsement e (None, None) (setTargets ps s1)"
    have E: "selecting e (setTargets ps s1) (stp ?r)" by (rule runEndorsement_selecting)
    from more [OF E] more [OF selecting_trans [OF E moreEndorsements_selecting, of cc]] s1 assms g Inr show ?thesis
      by (auto simp: runSelectAndEndorse_def Let_def split: step.split)
  qed
qed

lemma createAndSendTransaction_selecting: "createAndSendTransaction e tp rs s = (f, s1) \<Longrightarrow> selecting e s s1"
  by (erule createAndSendTransaction_cases) (auto intro: selecting_same selecting_act)

lemma runCommit_selecting: "selecting e s (stp (runCommit e reg s))"
proof -
  obtain f s1 where c: "createAndSendTransaction e (rProposal (rcResponse (rctx s))) (rResponses (rcResponse (rctx s))) s = (f, s1)" by fastforce
  have "selecting e s s2" if "trace s2 = trace s1" "greylist s2 = greylist s1" "rcSelectionFilter (rctx s2) = rcSelectionFilter (rctx s1)" for s2
    by (rule selecting_trans [OF createAndSendTransaction_selecting [OF c] selecting_same]) (simp_all add: that)
  then show ?thesis
    by (auto simp: runCommit_def c awaitCommit_def Let_def split: option.split failure.split wait.split)
qed

lemma andThen_selecting: "selecting e s (stp r) \<Longrightarrow> (\<And>s1. r = Next s1 \<Longrightarrow> selecting e s1 (hst (k s1))) \<Longrightarrow> selecting e s (hst (andThen r k))"
  by (cases r) (auto simp: andThen_def intro: selecting_trans)

lemma validation_selecting: "selecting e s (stp (runEndorsementValidation e s))" "selecting e s (stp (runSignatureValidation e s))"
  by (auto simp: runEndorsementValidation_def runSignatureValidation_def intro!: selecting_same split: sum.split failure.split)

lemma proposal_selecting: "selecting e s (stp (runProposalProcessor e s))"
proof -
  obtain cc r s1 where g: "getEndorsers e id s = ((cc, r), s1)" by (metis surj_pair)
  have "selecting e s s2" if "trace s2 = trace s1" "greylist s2 = greylist s1" "rcSelectionFilter (rctx s2) = rcSelectionFilter (rctx s1)" for s2
    by (rule selecting_trans [OF getEndorsers_selecting [OF g] selecting_same]) (simp_all add: that)
  then show ?thesis by (auto simp: runProposalProcessor_def g intro: selecting_same split: sum.split)
qed

lemma Handle_selecting: "selecting e s (hst (Handle e h s))"
proof (induction e h s rule: Handle.induct)
  case (6 e n s)
  show ?case
  proof (cases "RegisterTxStatusEvent e (length (trace s)) (rTransactionID (rcResponse (rctx s)))")
    case (Inr reg)
    let ?s = "act (ARegister (rTransactionID (rcResponse (rctx s))) reg) s"
    let ?r = "andThen (runCommit e reg ?s) (\<lambda>s1. case n of Some h \<Rightarrow> Handle e h s1 | None \<Rightarrow> HRet s1)"
    have "selecting e ?s (hst ?r)"
      by (rule andThen_selecting [OF runCommit_selecting]) (use 6 Inr in \<open>auto intro: selecting_same split: option.split\<close>)
    then have "selecting e s (hst ?r)" by (rule selecting_trans [rotated]) (auto intro: selecting_act)
    moreover have "selecting e (hst ?r) (hst (deferUnregister reg ?r))" by (cases ?r) (auto simp: deferUnregister_def intro: selecting_act)
    ultimately show ?thesis using Inr by (simp add: Let_def) (blast intro: selecting_trans)
  qed (simp add: Let_def selecting_same)
qed (auto intro!: andThen_selecting runEndorsement_selecting runSelectAndEndorse_selecting validation_selecting proposal_selecting
      intro: selecting_same split: option.split)

section \<open>Properties\<close>

lemma Handle_execute:
  "Handle e (NewExecuteHandler []) s =
     andThen (runSelectAndEndorse e s) (\<lambda>s1. andThen (runEndorsementValidation e s1)
       (\<lambda>s2. andThen (runSignatureValidation e s2) (Handle e (CommitTxHandler None))))"
  by (simp add: NewExecuteHandler_def getNext_def del: Handle.simps(6))

lemma Handle_query:
  "Handle e (NewQueryHandler []) s =
     andThen (runProposalProcessor e s) (\<lambda>s1. andThen (runEndorsement e (None, None) s1)
       (\<lambda>s2. andThen (runEndorsementValidation e s2) (\<lambda>s3. andThen (runSignatureValidation e s3) HRet)))"
  by (simp add: NewQueryHandler_def getNext_def)

lemma execute_selects:
  assumes "Targets (rcOpts (rctx s)) = []"
  shows "\<exists>cc so rest. trace (hst (Handle e (NewExecuteHandler []) s)) = trace s @ ASelect cc so # rest"
proof -
  obtain cc so rest where r: "trace (stp (runSelectAndEndorse e s)) = trace s @ ASelect cc so # rest"
    using runSelectAndEndorse_selects [OF assms] by blast
  have "selecting e (stp (runSelectAndEndorse e s)) (hst (Handle e (NewExecuteHandler []) s))"
    using Handle_selecting [of e _ "EndorsementValidationHandler (Some (SignatureValidationHandler (Some (CommitTxHandler None))))"]
    by (auto simp: NewExecuteHandler_def getNext_def andThen_def [of "runSelectAndEndorse e s"] selecting_same split: step.split
        simp del: Handle.simps(3,4,6))
  with r show ?thesis by (auto simp: selecting_def)
qed

lemma execute_trace:
  "\<exists>pre post. trace (hst (Handle e (NewExecuteHandler []) s)) = trace s @ pre @ post \<and>
     list_all isEndorsing pre \<and> commits e post"
proof (cases "runSelectAndEndorse e s")
  case (Next s1)
  from runSelectAndEndorse_endorsing [of s e] Next obtain pre where
    pre: "trace s1 = trace s @ pre" "list_all isEndorsing pre" by (auto simp: endorsing_def)
  have "\<exists>t. trace (hst (andThen (runEndorsementValidation e s1) (\<lambda>s2. andThen (runSignatureValidation e s2)
          (Handle e (CommitTxHandler None))))) = trace s1 @ t \<and> commits e t"
  proof (cases "\<exists>s2. runEndorsementValidation e s1 = Next s2 \<and> (\<exists>s3. runSignatureValidation e s2 = Next s3)")
    case True
    then obtain s2 s3 where v: "runEndorsementValidation e s1 = Next s2" "runSignatureValidation e s2 = Next s3" by blast
    from runEndorsementValidation_spec(1) [OF v(1)] runSignatureValidation_spec(1) [OF v(2)] have
      *: "s2 = s1" "s3 = s1" "agree (rResponses (rcResponse (rctx s1)))" "verified e (rResponses (rcResponse (rctx s1)))"
      by auto
    from commit_shape [OF runSelectAndEndorse_proposed [OF Next] *(3,4)] v * show ?thesis by (simp add: andThen_def)
  next
    case False
    then show ?thesis
      using runEndorsementValidation_spec [of e s1] runSignatureValidation_spec(2) [of e s1]
      by (auto simp: andThen_def commits_def split: step.split)
  qed
  then obtain t where t: "trace (hst (Handle e (NewExecuteHandler []) s)) = trace s1 @ t" "commits e t"
    by (auto simp: Handle_execute andThen_def [of "Next s1"] Next simp del: Handle.simps)
  with pre show ?thesis by (intro exI [of _ pre] exI [of _ t]) simp
next
  case (Return s1)
  then show ?thesis using runSelectAndEndorse_endorsing [of s e]
    by (auto simp: Handle_execute andThen_def endorsing_def) (metis append_Nil2 commits_Nil)
next
  case (Crash s1)
  then show ?thesis using runSelectAndEndorse_endorsing [of s e]
    by (auto simp: Handle_execute andThen_def endorsing_def) (metis append_Nil2 commits_Nil)
qed

text \<open>
  Executing a transaction follows the protocol, whatever the peers, the orderers, the selection service
  and the event service answer and wherever the run stops (an error, a timeout or a panic): the handlers
  first select and ask endorsers only, then at most one transaction is broadcast. It is broadcast after the
  registration for the status of that very transaction ID, it is assembled from responses that carry the
  same payloads and valid signatures of their endorsers, and every registration is ended.
\<close>

theorem execute_protocol:
  "\<exists>pre post. trace (hst (Handle e (NewExecuteHandler []) s)) = trace s @ pre @ post \<and>
     list_all isEndorsing pre \<and> commits e post"
  by (rule execute_trace)



lemma awaitCommit_Next:
  "awaitCommit e reg s = Next s1 \<Longrightarrow>
     s1 = setResponse (\<lambda>r. r\<lparr>rTxValidationCode := validCode e\<rparr>) s \<and>
     awaitTxStatus e (length (trace s)) reg = TxStatusReceived (validCode e)"
  by (auto simp: awaitCommit_def Let_def split: wait.splits if_splits)

lemma awaitCommit_Return: "awaitCommit e reg s = Return s1 \<Longrightarrow> rcError (rctx s1) \<noteq> None"
  by (auto simp: awaitCommit_def Let_def split: wait.splits if_splits)

lemma runCommit_ok:
  assumes "runCommit e reg s = r" and "\<not> (\<exists>s2. r = Crash s2)" and "rcError (rctx (stp r)) = None"
  obtains tx ord called s1 where "r = Next s1"
    "txn_New (net e (length (trace s))) (rProposal (rcResponse (rctx s))) (rResponses (rcResponse (rctx s))) = Inr tx"
    "SendTransaction (net e (length (trace s))) (length (trace s)) (transactor e) (Some tx) = (Inr ord, called)"
    "s1 = setResponse (\<lambda>r. r\<lparr>rTxValidationCode := validCode e\<rparr>) (act (ABroadcast tx) s)"
    "awaitTxStatus e (Suc (length (trace s))) reg = TxStatusReceived (validCode e)"
proof -
  obtain f s0 where c: "createAndSendTransaction e (rProposal (rcResponse (rctx s))) (rResponses (rcResponse (rctx s))) s = (f, s0)"
    by fastforce
  with assms have f: "f = None" and a: "awaitCommit e reg s0 = r"
    by (auto simp: runCommit_def split: option.splits failure.splits)
  from a assms(2,3) obtain s1 where n: "r = Next s1" by (cases r) (auto dest: awaitCommit_Return)
  from c f show ?thesis
  proof (cases rule: createAndSendTransaction_cases)
    case (sent tx r' called)
    with f obtain ord where "r' = Inr ord" by (cases r') auto
    with sent n awaitCommit_Next [OF a [unfolded n]] that show ?thesis by simp
  qed simp
qed

lemma commit_ok:
  assumes "Handle e (CommitTxHandler None) s = HRet s1" and "rcError (rctx s1) = None"
  shows "\<exists>tx ord called reg. txn_New (net e (Suc (length (trace s)))) (rProposal (rcResponse (rctx s))) (rResponses (rcResponse (rctx s))) = Inr tx \<and>
    SendTransaction (net e (Suc (length (trace s)))) (Suc (length (trace s))) (transactor e) (Some tx) = (Inr ord, called) \<and>
    RegisterTxStatusEvent e (length (trace s)) (rTransactionID (rcResponse (rctx s))) = Inr reg \<and>
    awaitTxStatus e (Suc (Suc (length (trace s)))) reg = TxStatusReceived (validCode e) \<and>
    rcResponse (rctx s1) = (rcResponse (rctx s))\<lparr>rTxValidationCode := validCode e\<rparr> \<and>
    trace s1 = trace s @ [ARegister (rTransactionID (rcResponse (rctx s))) reg, ABroadcast tx, AUnregister reg]"
proof (cases "RegisterTxStatusEvent e (length (trace s)) (rTransactionID (rcResponse (rctx s)))")
  case (Inl err)
  with assms show ?thesis by auto
next
  case (Inr reg)
  let ?s = "act (ARegister (rTransactionID (rcResponse (rctx s))) reg) s"
  from Inr assms(1) have d: "deferUnregister reg (andThen (runCommit e reg ?s) HRet) = HRet s1" by (simp add: Let_def)
  then have "\<not> (\<exists>s2. runCommit e reg ?s = Crash s2)" "rcError (rctx (stp (runCommit e reg ?s))) = None"
    using assms(2) by (auto simp: deferUnregister_def andThen_def split: step.splits)
  from runCommit_ok [OF refl this] obtain tx ord called s2 where
    k: "runCommit e reg ?s = Next s2"
    "txn_New (net e (length (trace ?s))) (rProposal (rcResponse (rctx ?s))) (rResponses (rcResponse (rctx ?s))) = Inr tx"
    "SendTransaction (net e (length (trace ?s))) (length (trace ?s)) (transactor e) (Some tx) = (Inr ord, called)"
    "s2 = setResponse (\<lambda>r. r\<lparr>rTxValidationCode := validCode e\<rparr>) (act (ABroadcast tx) ?s)"
    "awaitTxStatus e (Suc (length (trace ?s))) reg = TxStatusReceived (validCode e)" by metis
  from d k(1,4) have "rcResponse (rctx s1) = (rcResponse (rctx s))\<lparr>rTxValidationCode := validCode e\<rparr>"
    "trace s1 = trace s @ [ARegister (rTransactionID (rcResponse (rctx s))) reg, ABroadcast tx, AUnregister reg]"
    by (auto simp: deferUnregister_def andThen_def)
  with Inr k(2,3,5) show ?thesis by auto
qed

lemma runEndorsementValidation_Return: "runEndorsementValidation e s = Return s1 \<Longrightarrow> rcError (rctx s1) \<noteq> None"
  by (auto simp: runEndorsementValidation_def split: sum.splits failure.splits)

lemma runSignatureValidation_Return: "runSignatureValidation e s = Return s1 \<Longrightarrow> rcError (rctx s1) \<noteq> None"
  by (auto simp: runSignatureValidation_def split: sum.splits failure.splits)

lemma runEndorsement_Return: "runEndorsement e ho s = Return s1 \<Longrightarrow> rcError (rctx s1) \<noteq> None"
  by (auto simp: runEndorsement_def Let_def split: if_splits prod.splits option.splits failure.splits list.splits sum.splits)

lemma runSelectAndEndorse_Return: "runSelectAndEndorse e s = Return s1 \<Longrightarrow> rcError (rctx s1) \<noteq> None"
  by (auto simp: runSelectAndEndorse_def moreEndorsements_def Let_def dest!: runEndorsement_Return
      split: if_splits prod.splits sum.splits step.splits failure.splits option.splits)

lemma andThen_HRet:
  assumes "andThen r k = HRet s1" and "rcError (rctx s1) = None" and "\<And>s. r = Return s \<Longrightarrow> rcError (rctx s) \<noteq> None"
  obtains s where "r = Next s" "k s = HRet s1"
  using assms by (auto simp: andThen_def split: step.splits)

lemma execute_returns:
  assumes "Handle e (NewExecuteHandler []) s = HRet s1" and "rcError (rctx s1) = None"
  shows "let res = rcResponse (rctx s1) in agree (rResponses res) \<and> verified e (rResponses res) \<and>
    rTxValidationCode res = validCode e \<and>
    (\<exists>tp tx ord called reg n r0 rest. rProposal res = Some tp \<and> rTransactionID res = TxnID tp \<and>
       txn_New (net e (Suc n)) (Some tp) (rResponses res) = Inr tx \<and>
       SendTransaction (net e (Suc n)) (Suc n) (transactor e) (Some tx) = (Inr ord, called) \<and>
       RegisterTxStatusEvent e n (TxnID tp) = Inr reg \<and>
       awaitTxStatus e (Suc (Suc n)) reg = TxStatusReceived (validCode e) \<and>
       rResponses res = r0 # rest \<and> getResultFromProposalResponse e (TPRResponse r0) = Inr (rPayload res) \<and>
       (\<exists>before. length before = n \<and> trace s1 = before @ [ARegister (TxnID tp) reg, ABroadcast tx, AUnregister reg]))"
proof -
  from assms(1) [unfolded Handle_execute] obtain s2 where s2: "runSelectAndEndorse e s = Next s2" and
    k2: "andThen (runEndorsementValidation e s2) (\<lambda>s3. andThen (runSignatureValidation e s3) (Handle e (CommitTxHandler None))) = HRet s1"
    by (rule andThen_HRet) (use assms(2) runSelectAndEndorse_Return in auto)
  from k2 obtain s3 where s3: "runEndorsementValidation e s2 = Next s3" and
    k3: "andThen (runSignatureValidation e s3) (Handle e (CommitTxHandler None)) = HRet s1"
    by (rule andThen_HRet) (use assms(2) runEndorsementValidation_Return in auto)
  from k3 obtain s4 where s4: "runSignatureValidation e s3 = Next s4" and k4: "Handle e (CommitTxHandler None) s4 = HRet s1"
    by (rule andThen_HRet) (use assms(2) runSignatureValidation_Return in auto)
  have *: "s3 = s2" "s4 = s2" "agree (rResponses (rcResponse (rctx s2)))" "verified e (rResponses (rcResponse (rctx s2)))"
    using runEndorsementValidation_spec(1) [OF s3] runSignatureValidation_spec(1) [OF s4] by auto
  from runSelectAndEndorse_proposed [OF s2] obtain tp where
    tp: "rProposal (rcResponse (rctx s2)) = Some tp" "rTransactionID (rcResponse (rctx s2)) = TxnID tp"
      "case rResponses (rcResponse (rctx s2)) of [] \<Rightarrow> True
       | r0 # _ \<Rightarrow> getResultFromProposalResponse e (TPRResponse r0) = Inr (rPayload (rcResponse (rctx s2)))"
    by (auto simp: proposed_def)
  from commit_ok [OF k4 assms(2)] obtain tx ord called reg where c:
    "txn_New (net e (Suc (length (trace s2)))) (Some tp) (rResponses (rcResponse (rctx s2))) = Inr tx"
    "SendTransaction (net e (Suc (length (trace s2)))) (Suc (length (trace s2))) (transactor e) (Some tx) = (Inr ord, called)"
    "RegisterTxStatusEvent e (length (trace s2)) (TxnID tp) = Inr reg"
    "awaitTxStatus e (Suc (Suc (length (trace s2)))) reg = TxStatusReceived (validCode e)"
    "rcResponse (rctx s1) = (rcResponse (rctx s2))\<lparr>rTxValidationCode := validCode e\<rparr>"
    "trace s1 = trace s2 @ [ARegister (TxnID tp) reg, ABroadcast tx, AUnregister reg]"
    using * tp by auto
  from c(1) obtain r0 rest where r0: "rResponses (rcResponse (rctx s2)) = r0 # rest"
    by (cases "rResponses (rcResponse (rctx s2))") (auto simp: txn_New_def)
  have fields: "rResponses (rcResponse (rctx s1)) = rResponses (rcResponse (rctx s2))"
    "rProposal (rcResponse (rctx s1)) = Some tp" "rTransactionID (rcResponse (rctx s1)) = TxnID tp"
    "rPayload (rcResponse (rctx s1)) = rPayload (rcResponse (rctx s2))" "rTxValidationCode (rcResponse (rctx s1)) = validCode e"
    using c(5) tp by simp_all
  show ?thesis unfolding Let_def fields
    using * c(1-4) r0 tp(3)
    by (intro conjI refl exI [of _ tp] exI [of _ tx] exI [of _ ord] exI [of _ called] exI [of _ reg]
        exI [of _ "length (trace s2)"] exI [of _ r0] exI [of _ rest] exI [of _ "trace s2"] c(6)) simp_all
qed

lemma query_trace:
  "\<exists>t. trace (hst (Handle e (NewQueryHandler []) s)) = trace s @ t \<and> list_all isEndorsing t"
proof -
  have "endorsing s (stp (runProposalProcessor e s))"
    by (auto simp: runProposalProcessor_def getEndorsers_def Let_def intro!: endorsing_act split: sum.split)
  moreover have "endorsing s0 (hst (andThen (runEndorsement e (None, None) s0)
       (\<lambda>s2. andThen (runEndorsementValidation e s2) (\<lambda>s3. andThen (runSignatureValidation e s3) HRet))))" for s0
  proof -
    have t: "trace (hst (andThen (runEndorsementValidation e s2) (\<lambda>s3. andThen (runSignatureValidation e s3) HRet))) = trace s2" for s2
      using runEndorsementValidation_spec [of e s2] runSignatureValidation_spec(2) [of e s2]
      by (auto simp: andThen_def split: step.split)
    show ?thesis using runEndorsement_endorsing [of s0 e "(None, None)"] t
      by (auto simp: andThen_def [of "runEndorsement e (None, None) s0"] endorsing_def split: step.split)
  qed
  ultimately have "endorsing s (hst (Handle e (NewQueryHandler []) s))"
    unfolding Handle_query andThen_def [of "runProposalProcessor e s"]
    by (auto intro: endorsing_trans split: step.split)
  then show ?thesis by (simp add: endorsing_def)
qed

text \<open>
  A query changes nothing on the channel: its handlers only select and ask endorsers, whatever is
  answered and wherever the run stops; nothing is registered and nothing is broadcast.
\<close>

theorem query_protocol:
  "\<exists>t. trace (hst (Handle e (NewQueryHandler []) s)) = trace s @ t \<and> list_all isEndorsing t"
  by (rule query_trace)

text \<open>A run of \<open>Execute\<close> against one peer and two orderers that ends with a valid transaction.\<close>

definition test_env :: "(nat \<Rightarrow> nat \<Rightarrow> wait) \<Rightarrow> inv_ext" where [test_defs]:
  "test_env await = \<lparr>errs = pkg_errors, net = (\<lambda>n. test_net), transactor = \<lparr>tChannelID = ''ch'', tOrderers = [''o1'', ''o2'']\<rparr>,
     GetEndorsersForChaincode = (\<lambda>n calls so. Inr [test_peer ''a'']),
     RegisterTxStatusEvent = (\<lambda>n txid. Inr n), awaitTxStatus = await,
     unmarshalResponsePayload = Inr, unmarshalAction = (\<lambda>b. Inr \<lparr>actPayload = b, actResults = []\<rparr>),
     txRwSetFromProtoBytes = (\<lambda>b. Inr []), clock = int, validCode = 0\<rparr>"

definition test_start :: hstate where [test_defs]:
  "test_start = \<lparr>rctx = \<lparr>rcRequest = \<lparr>rqChaincodeID = ''cc'', rqFcn = ''f'', rqArgs = [], rqTransientMap = [],
       rqInvocationChain = [], rqIsInit = False\<rparr>,
     rcOpts = \<lparr>Targets = [], TargetFilter = None, TargetSorter = None, CCFilter = None\<rparr>,
     rcResponse = emptyResponse, rcError = None, rcSelectionFilter = None, rcPeerSorter = None\<rparr>,
     greylist = greylist_New 5, trace = []\<rparr>"

lemmas run_defs = Handle_execute andThen_def runSelectAndEndorse_def runEndorsement_def runEndorsementValidation_def
  runSignatureValidation_def runCommit_def awaitCommit_def deferUnregister_def moreEndorsements_def
  getEndorsers_def getAdditionalEndorsers_def createAndSendTransactionProposal_def createAndSendTransaction_def
  SendTransactionProposal_def CreateTransaction_def SendTransaction_def CreateTransactionHeader_def NewHeader_def
  CreateChaincodeInvokeProposal_def SendProposal_def signProposal_def getTargetsWithoutDuplicates_def
  txn_New_def txn_Send_def BroadcastPayload_def broadcastEnvelope_def signPayload_def sendBroadcast_def randOrderers_def
  computeTxnID_def wrapE_def withMsgE_def isSuccess_def sig_Verify_def getResultFromProposalResponse_def
  getRWSetsFromProposalResponse_def getInvocationChainFromResponse_def mergeInvocationChains_def newInvocationChain_def
  selOpts_def rand_Perm_def rand_Intn_def multi_ToError_def emptyResponse_def Let_def

lemma test_run:
  "\<exists>s1. Handle (test_env (\<lambda>n r. TxStatusReceived 0)) (NewExecuteHandler []) test_start = HRet s1 \<and> rcError (rctx s1) = None"
  by (simp add: run_defs test_defs delete_at_def)

lemma execute_example:
  "\<exists>s1. Handle (test_env (\<lambda>n r. TxStatusReceived 0)) (NewExecuteHandler []) test_start = HRet s1 \<and>
     rTxValidationCode (rcResponse (rctx s1)) = validCode (test_env (\<lambda>n r. TxStatusReceived 0)) \<and>
     verified (test_env (\<lambda>n r. TxStatusReceived 0)) (rResponses (rcResponse (rctx s1)))"
proof -
  obtain s1 where s1: "Handle (test_env (\<lambda>n r. TxStatusReceived 0)) (NewExecuteHandler []) test_start = HRet s1"
    "rcError (rctx s1) = None" using test_run by blast
  from execute_returns [OF s1] s1 show ?thesis by (auto simp: Let_def)
qed

text \<open>The commit handler reads the status without asking whether the notifier was closed: an event service
  that closes it during the wait crashes the handler.\<close>

lemma closed_notifier_panics:
  "\<exists>s1. Handle (test_env (\<lambda>n r. NotifierClosed)) (NewExecuteHandler []) test_start = HPanic s1"
  by (simp add: run_defs test_defs delete_at_def)

text \<open>The endorsement handler reads the transaction ID of the proposal before it looks at the error: when
  no proposal could be made, it crashes instead of reporting the error.\<close>

lemma no_header_panics:
  "Targets (rcOpts (rctx s)) \<noteq> [] \<Longrightarrow>
   CreateTransactionHeader (net e (length (trace s))) (transactor e) (fst ho) (snd ho) = Inl (Err err) \<Longrightarrow>
     \<exists>s1. runEndorsement e ho s = Crash s1"
  by (simp add: runEndorsement_def createAndSendTransactionProposal_def withMessageF_def Let_def)

section \<open>Merging invocation chains\<close>

definition knownCollections :: "ChaincodeCall list \<Rightarrow> string \<Rightarrow> string set option" where
  "knownCollections chain cc = map_option (\<lambda>c. set (Collections c)) (getCCCall chain cc)"

lemma mergeColls_spec:
  "set (fst (mergeColls colls new m)) = set colls \<union> set new"
  "snd (mergeColls colls new m) \<longleftrightarrow> m \<or> \<not> set new \<subseteq> set colls"
  by (induction colls new m rule: mergeColls.induct) auto

lemma mergeCCCall_spec:
  "ccID (fst (mergeCCCall chain c)) = ccID c"
  "set (Collections (fst (mergeCCCall chain c))) =
     set (Collections c) \<union> (case knownCollections chain (ccID c) of None \<Rightarrow> {} | Some cs \<Rightarrow> cs)"
  "snd (mergeCCCall chain c) \<longleftrightarrow>
     (case knownCollections chain (ccID c) of None \<Rightarrow> True | Some cs \<Rightarrow> \<not> set (Collections c) \<subseteq> cs)"
proof -
  have id: "getCCCall chain (ccID c) = Some c0 \<Longrightarrow> ccID c0 = ccID c" for c0
    by (auto simp: getCCCall_def find_Some_iff)
  show "ccID (fst (mergeCCCall chain c)) = ccID c"
    by (auto simp: mergeCCCall_def merge_def dest!: id split: option.split prod.split)
  show "set (Collections (fst (mergeCCCall chain c))) =
     set (Collections c) \<union> (case knownCollections chain (ccID c) of None \<Rightarrow> {} | Some cs \<Rightarrow> cs)"
    using mergeColls_spec(1) by (auto simp: mergeCCCall_def merge_def knownCollections_def case_prod_beta split: option.split)
  show "snd (mergeCCCall chain c) \<longleftrightarrow>
     (case knownCollections chain (ccID c) of None \<Rightarrow> True | Some cs \<Rightarrow> \<not> set (Collections c) \<subseteq> cs)"
    using mergeColls_spec(2) by (auto simp: mergeCCCall_def merge_def knownCollections_def case_prod_beta split: option.split)
qed

lemma mergeLoop_spec:
  "mergeLoop chain keep resp merged changed =
     (merged @ map (\<lambda>c. fst (mergeCCCall chain c)) (filter (\<lambda>c. keep (ccID c)) resp),
      changed \<or> list_ex (\<lambda>c. snd (mergeCCCall chain c)) (filter (\<lambda>c. keep (ccID c)) resp))"
  by (induction resp arbitrary: merged changed) (auto split: prod.split)

text \<open>
  Merging the invocation chain with the chaincodes found in the read-write set of a response keeps, in
  the order of the response, the chaincodes that pass the filter, each with the collections of the response
  and those already known for it; it reports a change exactly when one of them, or one of its collections,
  was not in the chain.
\<close>

theorem mergeInvocationChains_spec:
  "list_all2 (\<lambda>c m. ccID m = ccID c \<and> set (Collections m) =
       set (Collections c) \<union> (case knownCollections chain (ccID c) of None \<Rightarrow> {} | Some cs \<Rightarrow> cs))
     (filter (\<lambda>c. keep (ccID c)) resp) (fst (mergeInvocationChains chain resp keep)) \<and>
   snd (mergeInvocationChains chain resp keep) =
     list_ex (\<lambda>c. keep (ccID c) \<and> (case knownCollections chain (ccID c) of None \<Rightarrow> True | Some cs \<Rightarrow> \<not> set (Collections c) \<subseteq> cs)) resp"
proof
  show "list_all2 (\<lambda>c m. ccID m = ccID c \<and> set (Collections m) =
       set (Collections c) \<union> (case knownCollections chain (ccID c) of None \<Rightarrow> {} | Some cs \<Rightarrow> cs))
     (filter (\<lambda>c. keep (ccID c)) resp) (fst (mergeInvocationChains chain resp keep))"
    by (simp add: mergeInvocationChains_def mergeLoop_spec list.rel_map mergeCCCall_spec list.rel_refl_strong)
  show "snd (mergeInvocationChains chain resp keep) =
     list_ex (\<lambda>c. keep (ccID c) \<and> (case knownCollections chain (ccID c) of None \<Rightarrow> True | Some cs \<Rightarrow> \<not> set (Collections c) \<subseteq> cs)) resp"
    unfolding mergeInvocationChains_def mergeLoop_spec snd_conv mergeCCCall_spec by (induction resp) simp_all
qed

end
