(* ===== verification/ChannelClient.thy ===== *)
theory ChannelClient
  imports Invoke
begin

text \<open>
  The channel client of \<^verbatim>\<open>pkg/client/channel\<close> (\<open>api.go\<close>, \<open>chclient.go\<close>, \<open>chclientrun_std.go\<close>): its request
  options, the preparation of the contexts of a request, and \<open>InvokeHandler\<close>, which runs a chain of handlers
  under the retrying invoker and puts peers that could not be reached on the greylist before every retry.
\<close>

section \<open>Peer configurations\<close>

text \<open>Of \<^verbatim>\<open>pkg/fab/comm/network.go\<close>; the endpoint configuration gives the peer found for a key and the
  peers of the network.\<close>

record NetworkPeer =
  npURL :: string
  npMSPID :: string

record peer_cfg =
  PeerConfig :: "string \<Rightarrow> string option"
  NetworkPeers :: "NetworkPeer list"
  CreatePeerFromConfig :: "NetworkPeer \<Rightarrow> error + peer"

definition NetworkPeerConfig :: "peer_cfg \<Rightarrow> string \<Rightarrow> error + NetworkPeer" where
  "NetworkPeerConfig cfg key =
     (case PeerConfig cfg key of
        None \<Rightarrow> Inl (ErrNew (''peer ['' @ key @ ''] not found''))
      | Some url \<Rightarrow>
          Inr \<lparr>npURL = url,
               npMSPID = (case List.find (\<lambda>p. npURL p = url) (NetworkPeers cfg) of Some p \<Rightarrow> npMSPID p | None \<Rightarrow> '''')\<rparr>)"

definition SearchPeerConfigFromURL :: "peer_cfg \<Rightarrow> string \<Rightarrow> error + string" where
  "SearchPeerConfigFromURL cfg url =
     (case PeerConfig cfg url of
        Some u \<Rightarrow> Inr u
      | None \<Rightarrow>
          (case List.find (\<lambda>p. npURL p = url) (NetworkPeers cfg) of
             Some p \<Rightarrow> Inr (npURL p)
           | None \<Rightarrow> Inl (ErrNew (''unable to get peerconfig for given url : '' @ url))))"

section \<open>Request options\<close>

datatype TimeoutType = PeerConnection | EventReg | Query | Execute | OrdererConnection | OrdererResponse
  | DiscoveryGreylistExpiry | ConnectionIdle | CacheSweepInterval | EventServiceIdle | PeerResponse | ResMgmt
  | ChannelConfigRefresh | ChannelMembershipRefresh | DiscoveryConnection | DiscoveryResponse
  | DiscoveryServiceRefresh | SelectionServiceRefresh

text \<open>The timeouts are a Go map: a missing entry reads as 0. The parent context and the user's hook before a
  retry are left out.\<close>

record requestOptions =
  roOpts :: InvokeOpts
  roRetry :: Opts
  roTimeouts :: "TimeoutType \<Rightarrow> int"

type_synonym RequestOption = "requestOptions \<Rightarrow> error + requestOptions"

definition WithTargets :: "peer option list \<Rightarrow> RequestOption" where
  "WithTargets targets o1 =
     (if None \<in> set targets then Inl (ErrNew ''target is nil'')
      else Inr (o1\<lparr>roOpts := (roOpts o1)\<lparr>Targets := map the targets\<rparr>\<rparr>))"

definition peerForKey :: "peer_cfg \<Rightarrow> string \<Rightarrow> error + peer option" where
  "peerForKey cfg key =
     (case NetworkPeerConfig cfg key of Inl e \<Rightarrow> Inl e
      | Inr np \<Rightarrow> (case CreatePeerFromConfig cfg np of
           Inl e \<Rightarrow> Inl (ErrWithMessage ''creating peer from config failed'' e) | Inr p \<Rightarrow> Inr (Some p)))"

definition WithTargetEndpoints :: "peer_cfg \<Rightarrow> string list \<Rightarrow> RequestOption" where
  "WithTargetEndpoints cfg keys o1 =
     (case mapE (peerForKey cfg) keys of Inl e \<Rightarrow> Inl e | Inr targets \<Rightarrow> WithTargets targets o1)"

definition WithTargetFilter :: "(peer \<Rightarrow> bool) \<Rightarrow> RequestOption" where
  "WithTargetFilter f o1 = Inr (o1\<lparr>roOpts := (roOpts o1)\<lparr>TargetFilter := Some f\<rparr>\<rparr>)"

definition WithTargetSorter :: "(peer list \<Rightarrow> peer list) \<Rightarrow> RequestOption" where
  "WithTargetSorter f o1 = Inr (o1\<lparr>roOpts := (roOpts o1)\<lparr>TargetSorter := Some f\<rparr>\<rparr>)"

definition WithRetry :: "Opts \<Rightarrow> RequestOption" where
  "WithRetry r o1 = Inr (o1\<lparr>roRetry := r\<rparr>)"

definition WithTimeout :: "TimeoutType \<Rightarrow> int \<Rightarrow> RequestOption" where
  "WithTimeout tt t o1 = Inr (o1\<lparr>roTimeouts := (roTimeouts o1)(tt := t)\<rparr>)"

definition WithChaincodeFilter :: "(string \<Rightarrow> bool) \<Rightarrow> RequestOption" where
  "WithChaincodeFilter f o1 = Inr (o1\<lparr>roOpts := (roOpts o1)\<lparr>CCFilter := Some f\<rparr>\<rparr>)"

definition addDefaultTimeout :: "(TimeoutType \<Rightarrow> int) \<Rightarrow> TimeoutType \<Rightarrow> RequestOption" where
  "addDefaultTimeout cfgTimeout tt o1 =
     (if roTimeouts o1 tt = 0 then WithTimeout tt (cfgTimeout tt) o1 else Inr o1)"

definition addDefaultTargetFilter :: "peer_cfg \<Rightarrow> ChannelPeer list \<Rightarrow> EndpointType \<Rightarrow> RequestOption" where
  "addDefaultTargetFilter cfg chps ft o1 =
     (if Targets (roOpts o1) = [] \<and> TargetFilter (roOpts o1) = None
      then WithTargetFilter (endpoint_Accept (SearchPeerConfigFromURL cfg) \<lparr>endpointType = ft, chPeers = chps\<rparr>) o1
      else Inr o1)"

fun applyOptions :: "RequestOption list \<Rightarrow> RequestOption" where
  "applyOptions [] o1 = Inr o1"
| "applyOptions (opt # rest) o1 =
     (case opt o1 of Inl e \<Rightarrow> Inl (ErrWithMessage ''Failed to read opts'' e) | Inr o2 \<Rightarrow> applyOptions rest o2)"

definition zeroOptions :: requestOptions where
  "zeroOptions = \<lparr>roOpts = \<lparr>Targets = [], TargetFilter = None, TargetSorter = None, CCFilter = None\<rparr>,
     roRetry = \<lparr>Attempts = 0, InitialBackoff = 0, MaxBackoff = 0, BackoffFactor = 0, RetryableCodes = []\<rparr>,
     roTimeouts = (\<lambda>_. 0)\<rparr>"

definition prepareOptsFromOptions :: "RequestOption list \<Rightarrow> error + requestOptions" where
  "prepareOptsFromOptions options = applyOptions options zeroOptions"

section \<open>Requests\<close>

text \<open>The services of the channel context and what the run of a request depends on: the configured timeouts,
  the rounding of the back-off, the codes of the protobuf packages, and whether the request context is done
  before the handlers are.\<close>

record client_ext =
  invExt :: inv_ext
  transactorService :: "error + Transactor"
  selectionService :: "error option"
  discoveryService :: "error option"
  cfgTimeout :: "TimeoutType \<Rightarrow> int"
  peerCfg :: peer_cfg
  channelPeers :: "ChannelPeer list"
  retryCodes :: ext_codes
  roundFloat :: "rat \<Rightarrow> rat"
  timedOut :: bool

text \<open>\<open>New\<close>: what the channel provider and the services of the channel answer; the client keeps a greylist. The
  options of \<open>New\<close> are functions on the client that may fail.\<close>

record channel_ext =
  channelContext :: "error + client_ext"
  hasChannelService :: bool
  eventServiceError :: "error option"
  membershipError :: "error option"

record chclient =
  chContext :: client_ext
  chGreylist :: Filter

fun applyClientOptions :: "(chclient \<Rightarrow> error + chclient) list \<Rightarrow> chclient \<Rightarrow> error + chclient" where
  "applyClientOptions [] cl = Inr cl"
| "applyClientOptions (param # rest) cl =
     (case param cl of Inl e \<Rightarrow> Inl (ErrWithMessage ''option failed'' e) | Inr cl1 \<Rightarrow> applyClientOptions rest cl1)"

definition channel_New :: "channel_ext \<Rightarrow> (chclient \<Rightarrow> error + chclient) list \<Rightarrow> error + chclient" where
  "channel_New x params =
     (case channelContext x of Inl e \<Rightarrow> Inl (ErrWithMessage ''failed to create channel context'' e)
      | Inr c \<Rightarrow>
         if \<not> hasChannelService x then Inl (ErrNew ''channel service not initialized'')
         else (case eventServiceError x of Some e \<Rightarrow> Inl (ErrWithMessage ''event service creation failed'' e)
         | None \<Rightarrow>
           (case membershipError x of Some e \<Rightarrow> Inl (ErrWithMessage ''membership creation failed'' e)
            | None \<Rightarrow> applyClientOptions params \<lparr>chContext = c, chGreylist = greylist_New (cfgTimeout c DiscoveryGreylistExpiry)\<rparr>)))"

definition createReqContext :: "client_ext \<Rightarrow> requestOptions \<Rightarrow> int \<times> requestOptions" where
  "createReqContext c o1 =
     (let o2 = (if roTimeouts o1 Execute = 0 then o1\<lparr>roTimeouts := (roTimeouts o1)(Execute := cfgTimeout c Execute)\<rparr> else o1)
      in (roTimeouts o2 Execute, o2))"

text \<open>The peer filter: not on the greylist, and accepted by the filter of the request. (Accepting a peer also
  drops its expired entry from the greylist, which changes no later answer.)\<close>

definition peerFilter :: "requestOptions \<Rightarrow> int \<Rightarrow> Filter \<Rightarrow> peer \<Rightarrow> bool" where
  "peerFilter o1 now gl p =
     (if \<not> fst (greylist_Accept now p gl) then False
      else (case TargetFilter (roOpts o1) of Some f \<Rightarrow> f p | None \<Rightarrow> True))"

definition prepareHandlerContexts ::
  "client_ext \<Rightarrow> Request \<Rightarrow> requestOptions \<Rightarrow> error + RequestContext \<times> inv_ext \<times> impl" where
  "prepareHandlerContexts c request o1 =
     (if rqChaincodeID request = '''' \<or> rqFcn request = '''' then Inl (ErrNew ''ChaincodeID and Fcn are required'')
      else (case transactorService c of Inl e \<Rightarrow> Inl (ErrWithMessage ''failed to create transactor'' e)
      | Inr t \<Rightarrow>
        (case selectionService c of Some e \<Rightarrow> Inl (ErrWithMessage ''failed to create selection service'' e)
         | None \<Rightarrow>
        (case discoveryService c of Some e \<Rightarrow> Inl (ErrWithMessage ''failed to create discovery service'' e)
         | None \<Rightarrow>
           Inr (\<lparr>rcRequest = request, rcOpts = roOpts o1, rcResponse = emptyResponse, rcError = None,
                 rcSelectionFilter = Some (peerFilter o1), rcPeerSorter = TargetSorter (roOpts o1)\<rparr>,
                (invExt c)\<lparr>transactor := t\<rparr>, retry_New (retryCodes c) (roRetry o1))))))"

text \<open>The hook before a retry.\<close>

definition beforeRetry :: "inv_ext \<Rightarrow> requestOptions \<Rightarrow> error \<Rightarrow> hstate \<Rightarrow> hstate" where
  "beforeRetry e o1 err s =
     s\<lparr>greylist := Greylist (errs e) (clock e (length (trace s))) (Some err) (greylist s),
       rctx := (rctx s)\<lparr>rcOpts := (rcOpts (rctx s))\<lparr>Targets := Targets (roOpts o1)\<rparr>, rcError := None, rcResponse := emptyResponse\<rparr>\<rparr>"

text \<open>One attempt. A panic is not an error value: it ends the invoker (\<open>Inr True\<close>).\<close>

definition attempt :: "inv_ext \<Rightarrow> handler \<Rightarrow> hstate \<Rightarrow> (error + bool) \<times> hstate" where
  "attempt e h s =
     (case Handle e h s of
        HPanic s1 \<Rightarrow> (Inr True, s1)
      | HRet s1 \<Rightarrow> (case rcError (rctx s1) of Some err \<Rightarrow> (Inl err, s1) | None \<Rightarrow> (Inr False, s1)))"

datatype invocation =
    Rejected error
  | Diverges
  | Crashed hstate
  | Completed InvokeResponse "error option" hstate

text \<open>\<open>InvokeHandler\<close>: \<open>Rejected\<close> before a handler runs, \<open>Diverges\<close> when the invoker does not return,
  \<open>Crashed\<close> on a panic, otherwise the response and the error that are returned, and what the handlers did.\<close>

definition InvokeHandler ::
  "client_ext \<Rightarrow> handler \<Rightarrow> Request \<Rightarrow> RequestOption list \<Rightarrow> Filter \<Rightarrow> action list \<Rightarrow> invocation" where
  "InvokeHandler c h request options gl tr =
     (case prepareOptsFromOptions options of Inl e \<Rightarrow> Rejected e
      | Inr o1 \<Rightarrow>
         (case createReqContext c o1 of (timeout, o2) \<Rightarrow>
         (case prepareHandlerContexts c request o2 of Inl e \<Rightarrow> Rejected e
          | Inr (rc, e, retryHandler) \<Rightarrow>
             (case Invoke (impl_required (roundFloat c) (errs e)) (Some (beforeRetry e o2)) (attempt e h) 0 retryHandler
                     \<lparr>rctx = rc, greylist = gl, trace = tr\<rparr> of
                None \<Rightarrow> Diverges
              | Some (Inr True, _, _, s) \<Rightarrow> Crashed s
              | Some (_, _, _, s) \<Rightarrow>
                  if timedOut c
                  then Completed emptyResponse (Some (ErrStatus (status_New ClientStatus (ToInt32 Timeout)
                         ''request timed out or been cancelled'' []))) s
                  else Completed (rcResponse (rctx s)) (rcError (rctx s)) s))))"

definition client_Query :: "client_ext \<Rightarrow> Request \<Rightarrow> RequestOption list \<Rightarrow> Filter \<Rightarrow> action list \<Rightarrow> invocation" where
  "client_Query c request options =
     InvokeHandler c (NewQueryHandler []) request
       (options @ [addDefaultTimeout (cfgTimeout c) Query,
                   addDefaultTargetFilter (peerCfg c) (channelPeers c) ChaincodeQuery])"

definition client_Execute :: "client_ext \<Rightarrow> Request \<Rightarrow> RequestOption list \<Rightarrow> Filter \<Rightarrow> action list \<Rightarrow> invocation" where
  "client_Execute c request options =
     InvokeHandler c (NewExecuteHandler []) request
       (options @ [addDefaultTimeout (cfgTimeout c) Execute,
                   addDefaultTargetFilter (peerCfg c) (channelPeers c) EndorsingPeer])"

section \<open>Lemmas\<close>

definition attempt_shape :: "inv_ext \<Rightarrow> action list \<Rightarrow> bool" where
  "attempt_shape e t \<longleftrightarrow> (\<exists>pre post. t = pre @ post \<and> list_all isEndorsing pre \<and> commits e post)"

lemma attempt_shape_transactor [simp]: "attempt_shape (e\<lparr>transactor := t\<rparr>) tr = attempt_shape e tr"
  by (simp add: attempt_shape_def commits_def justified_def verified_def)

lemma verified_transactor [simp]: "verified (e\<lparr>transactor := t\<rparr>) rs = verified e rs"
  by (simp add: verified_def)

lemma result_transactor [simp]: "getResultFromProposalResponse (e\<lparr>transactor := t\<rparr>) r = getResultFromProposalResponse e r"
  by (simp add: getResultFromProposalResponse_def split: sum.split)

lemma attempt_state: "attempt e h s = (r, s1) \<Longrightarrow> s1 = hst (Handle e h s)"
  by (auto simp: attempt_def split: hresult.splits option.splits)

lemma execute_shape:
  "\<exists>acts. trace (hst (Handle ((invExt c)\<lparr>transactor := t\<rparr>) (NewExecuteHandler []) s)) = trace s @ acts \<and> attempt_shape (invExt c) acts"
proof -
  have "\<exists>acts. trace (hst (Handle ((invExt c)\<lparr>transactor := t\<rparr>) (NewExecuteHandler []) s)) = trace s @ acts \<and>
      attempt_shape ((invExt c)\<lparr>transactor := t\<rparr>) acts"
    using execute_trace [of "(invExt c)\<lparr>transactor := t\<rparr>" s]
    by (auto simp: attempt_shape_def simp del: Handle.simps attempt_shape_transactor)
  then show ?thesis by (simp del: Handle.simps)
qed

lemma trace_beforeRetry [simp]: "trace (beforeRetry e o1 err s) = trace s"
  by (simp add: beforeRetry_def)

text \<open>The parts of a request that reaches its handlers.\<close>

lemma InvokeHandler_cases:
  obtains (rejected) err where "InvokeHandler c h request options gl tr = Rejected err"
    | (run) o1 o2 rc t where "prepareOptsFromOptions options = Inr o1" "o2 = snd (createReqContext c o1)"
        "prepareHandlerContexts c request o2 = Inr (rc, (invExt c)\<lparr>transactor := t\<rparr>, retry_New (retryCodes c) (roRetry o2))"
        "rcError rc = None" "transactorService c = Inr t" "rcSelectionFilter rc = Some (peerFilter o2)" "Targets (rcOpts rc) = Targets (roOpts o2)"
proof (cases "prepareOptsFromOptions options")
  case (Inl err)
  then show ?thesis by (intro rejected) (simp add: InvokeHandler_def)
next
  case (Inr o1)
  define o2 where "o2 = snd (createReqContext c o1)"
  show ?thesis
  proof (cases "prepareHandlerContexts c request o2")
    case (Inl err)
    with Inr show ?thesis by (intro rejected) (simp add: InvokeHandler_def o2_def case_prod_beta)
  next
    case r: (Inr r)
    then obtain rc t where "r = (rc, (invExt c)\<lparr>transactor := t\<rparr>, retry_New (retryCodes c) (roRetry o2))" "rcError rc = None"
        "transactorService c = Inr t" "rcSelectionFilter rc = Some (peerFilter o2)" "Targets (rcOpts rc) = Targets (roOpts o2)"
      by (auto simp: prepareHandlerContexts_def split: if_splits sum.splits option.splits)
    with Inr r show ?thesis by (intro run) (auto simp: o2_def)
  qed
qed

lemma retry_createReqContext [simp]: "roRetry (snd (createReqContext c o1)) = roRetry o1"
  by (simp add: createReqContext_def Let_def)

lemma retry_defaults [simp]:
  "Attempts (opts (retry_New k r)) = Attempts r" "retries (retry_New k r) = 0"
  by (simp_all add: retry_New_def)

definition finalState :: "invocation \<Rightarrow> hstate option" where
  "finalState r = (case r of Crashed s \<Rightarrow> Some s | Completed _ _ s \<Rightarrow> Some s | _ \<Rightarrow> None)"

definition isRejected :: "invocation \<Rightarrow> bool" where
  "isRejected r = (case r of Rejected _ \<Rightarrow> True | _ \<Rightarrow> False)"

lemma InvokeHandler_run:
  assumes "prepareOptsFromOptions options = Inr o1" and "o2 = snd (createReqContext c o1)"
    and "prepareHandlerContexts c request o2 = Inr (rc, e, retryHandler)"
    and "Invoke (impl_required (roundFloat c) (errs e)) (Some (beforeRetry e o2)) (attempt e h) 0 retryHandler
           \<lparr>rctx = rc, greylist = gl, trace = tr\<rparr> = Some (r, n, i1, s)"
  shows "InvokeHandler c h request options gl tr =
    (if r = Inr True then Crashed s
     else if timedOut c then Completed emptyResponse (Some (ErrStatus (status_New ClientStatus (ToInt32 Timeout)
                         ''request timed out or been cancelled'' []))) s
     else Completed (rcResponse (rctx s)) (rcError (rctx s)) s)"
  using assms by (auto simp: InvokeHandler_def case_prod_beta split: sum.split bool.split)

text \<open>A request that is not rejected ends after at most \<open>Attempts + 1\<close> runs of its handlers, and what they do on
  the channel is what each run does.\<close>

lemma InvokeHandler_attempts:
  assumes opts: "prepareOptsFromOptions options = Inr o1" "0 \<le> Attempts (roRetry o1)"
    and run: "\<And>t s. \<exists>acts. trace (hst (Handle ((invExt c)\<lparr>transactor := t\<rparr>) h s)) = trace s @ acts \<and> Q acts"
  shows "isRejected (InvokeHandler c h request options gl tr) \<or>
    (\<exists>s ts. finalState (InvokeHandler c h request options gl tr) = Some s \<and> trace s = tr @ concat ts \<and>
       1 \<le> length ts \<and> int (length ts) \<le> Attempts (roRetry o1) + 1 \<and> list_all Q ts)"
proof (cases rule: InvokeHandler_cases [of c h request options gl tr])
  case (rejected err)
  then show ?thesis by (simp add: isRejected_def)
next
  case (run o1' o2 rc t)
  let ?e = "(invExt c)\<lparr>transactor := t\<rparr>"
  let ?i = "retry_New (retryCodes c) (roRetry o2)"
  let ?s = "\<lparr>rctx = rc, greylist = gl, trace = tr\<rparr>"
  let ?P = "\<lambda>k s. \<exists>ts. trace s = tr @ concat ts \<and> length ts = k \<and> list_all Q ts"
  from run(1,2) opts(1) have o2: "o2 = snd (createReqContext c o1)" by simp
  have "impl_ok ?i" using opts(2) by (simp add: impl_ok_def o2)
  from impl_handler.Invoke_returns [OF this, of "roundFloat c" "errs ?e" "Some (beforeRetry ?e o2)" "attempt ?e h" 0 ?s]
  obtain r n i1 s where i: "Invoke (impl_required (roundFloat c) (errs ?e)) (Some (beforeRetry ?e o2))
      (attempt ?e h) 0 ?i ?s = Some (r, n, i1, s)" and n: "0 < n" "n \<le> 0 + impl_budget ?i + 1"
    by blast
  have "?P n s"
  proof (rule Invoke_invariant [where P = ?P, OF i])
    show "?P 0 ?s" by simp
  next
    fix k s r s'
    assume P: "?P k s" and a: "attempt ?e h s = (r, s')"
    from P obtain ts where ts: "trace s = tr @ concat ts" "length ts = k" "list_all Q ts" by blast
    from assms(3) [of t s] attempt_state [OF a] obtain t' where "trace s' = trace s @ t'" "Q t'" by auto
    with ts show "?P (Suc k) s'" by (intro exI [of _ "ts @ [t']"]) simp
  qed auto
  moreover have "finalState (InvokeHandler c h request options gl tr) = Some s"
    using InvokeHandler_run [OF run(1,2,3) i] by (simp add: finalState_def)
  moreover have "1 \<le> n" "int n \<le> Attempts (roRetry o1) + 1"
    using n opts(2) by (simp_all add: impl_budget_def o2)
  ultimately show ?thesis by blast
qed

text \<open>The same for a query, whose handlers only select and ask endorsers.\<close>

lemma client_Query_attempts:
  assumes "prepareOptsFromOptions (options @ [addDefaultTimeout (cfgTimeout c) Query,
             addDefaultTargetFilter (peerCfg c) (channelPeers c) ChaincodeQuery]) = Inr o1"
    and "0 \<le> Attempts (roRetry o1)"
  shows "isRejected (client_Query c request options gl tr) \<or>
    (\<exists>s ts. finalState (client_Query c request options gl tr) = Some s \<and> trace s = tr @ concat ts \<and>
       1 \<le> length ts \<and> int (length ts) \<le> Attempts (roRetry o1) + 1 \<and> list_all (list_all isEndorsing) ts)"
  using InvokeHandler_attempts [OF assms, where h = "NewQueryHandler []" and Q = "list_all isEndorsing"]
  unfolding client_Query_def by (simp add: query_trace del: Handle.simps)

section \<open>Properties\<close>

text \<open>
  C1. \<open>Execute\<close> ends, and all its attempts follow the protocol. With a non-negative number of attempts
  the request is either rejected before a handler runs, or the retries come to an end after at most
  \<open>Attempts + 1\<close> runs of the handlers, each of which only asks endorsers and then broadcasts at most one
  transaction, registered for and justified by verified responses: nothing else is done on the channel.
\<close>

theorem Execute_attempts:
  assumes "prepareOptsFromOptions (options @ [addDefaultTimeout (cfgTimeout c) Execute,
             addDefaultTargetFilter (peerCfg c) (channelPeers c) EndorsingPeer]) = Inr o1"
    and "0 \<le> Attempts (roRetry o1)"
  shows "isRejected (client_Execute c request options gl tr) \<or>
    (\<exists>s ts. finalState (client_Execute c request options gl tr) = Some s \<and> trace s = tr @ concat ts \<and>
       1 \<le> length ts \<and> int (length ts) \<le> Attempts (roRetry o1) + 1 \<and> list_all (attempt_shape (invExt c)) ts)"
  using InvokeHandler_attempts [OF assms, where h = "NewExecuteHandler []" and Q = "attempt_shape (invExt c)"]
  unfolding client_Execute_def by (simp add: execute_shape del: Handle.simps)

definition test_client :: client_ext where
  "test_client = \<lparr>invExt = test_env (\<lambda>n r. TxStatusReceived 0), transactorService = Inr \<lparr>tChannelID = ''ch'', tOrderers = [''o1'', ''o2'']\<rparr>,
     selectionService = None, discoveryService = None, cfgTimeout = (\<lambda>tt. 180),
     peerCfg = \<lparr>PeerConfig = (\<lambda>k. None), NetworkPeers = [], CreatePeerFromConfig = (\<lambda>np. Inl (ErrNew ''no peer''))\<rparr>,
     channelPeers = [], retryCodes = fabric_codes, roundFloat = (\<lambda>r. r), timedOut = False\<rparr>"

definition test_request :: Request where
  "test_request = \<lparr>rqChaincodeID = ''cc'', rqFcn = ''f'', rqArgs = [], rqTransientMap = [], rqInvocationChain = [], rqIsInit = False\<rparr>"

definition test_options :: requestOptions where
  "test_options = zeroOptions\<lparr>roTimeouts := (\<lambda>_. 0)(Execute := 180), roOpts := (roOpts zeroOptions)
     \<lparr>TargetFilter := Some (endpoint_Accept (SearchPeerConfigFromURL (peerCfg test_client)) \<lparr>endpointType = EndorsingPeer, chPeers = []\<rparr>)\<rparr>\<rparr>"

lemma test_options:
  "prepareOptsFromOptions ([] @ [addDefaultTimeout (cfgTimeout test_client) Execute,
      addDefaultTargetFilter (peerCfg test_client) (channelPeers test_client) EndorsingPeer]) = Inr test_options"
  by (simp add: prepareOptsFromOptions_def addDefaultTimeout_def addDefaultTargetFilter_def WithTimeout_def WithTargetFilter_def
      zeroOptions_def test_client_def test_options_def)

theorem Execute_attempts_witness:
  "\<exists>s ts. finalState (client_Execute test_client test_request [] (greylist_New 5) []) = Some s \<and>
     trace s = [] @ concat ts \<and> 1 \<le> length ts \<and> int (length ts) \<le> 0 + 1 \<and> list_all (attempt_shape (invExt test_client)) ts"
proof -
  have "\<not> isRejected (client_Execute test_client test_request [] (greylist_New 5) [])"
    using test_options by (simp add: client_Execute_def InvokeHandler_def case_prod_beta prepareHandlerContexts_def isRejected_def
        test_request_def test_client_def split: option.split sum.split bool.split)
  with Execute_attempts [OF test_options, of test_request "greylist_New 5" "[]"] show ?thesis
    by (simp add: test_options_def zeroOptions_def)
qed

definition test_context :: "requestOptions \<Rightarrow> RequestContext" where
  "test_context o1 = \<lparr>rcRequest = test_request, rcOpts = roOpts o1, rcResponse = emptyResponse, rcError = None,
     rcSelectionFilter = Some (peerFilter o1), rcPeerSorter = TargetSorter (roOpts o1)\<rparr>"

lemma test_attempt:
  "\<exists>s1. attempt ((invExt test_client)\<lparr>transactor := \<lparr>tChannelID = ''ch'', tOrderers = [''o1'', ''o2'']\<rparr>\<rparr>) (NewExecuteHandler [])
      \<lparr>rctx = test_context (snd (createReqContext test_client test_options)), greylist = greylist_New 5, trace = []\<rparr> = (Inr False, s1) \<and>
     rcError (rctx s1) = None"
  by (simp add: attempt_def run_defs test_defs delete_at_def test_client_def test_context_def test_options_def
      createReqContext_def zeroOptions_def test_request_def)

text \<open>
  C2. \<open>Execute\<close> returns no error only for a committed transaction. When the error of the result is nil, the last thing the
  handlers did on the channel was to register for the transaction of the proposal, to broadcast it and to unregister.
  The transaction is assembled from the proposal and the responses of the result, which have equal payloads and
  valid signatures; one of the orderers accepted its broadcast; the event service reported it as valid on
  that registration; and the payload of the result is the one the first endorser returned.
\<close>

theorem Execute_success:
  assumes "client_Execute c request options gl tr = Completed res None s"
  shows "agree (rResponses res) \<and> verified (invExt c) (rResponses res) \<and> rTxValidationCode res = validCode (invExt c) \<and>
    (\<exists>t tp tx ord called reg before r0 rest. transactorService c = Inr t \<and>
       rProposal res = Some tp \<and> rTransactionID res = TxnID tp \<and>
       trace s = before @ [ARegister (TxnID tp) reg, ABroadcast tx, AUnregister reg] \<and>
       RegisterTxStatusEvent (invExt c) (length before) (TxnID tp) = Inr reg \<and>
       txn_New (net (invExt c) (length before + 1)) (Some tp) (rResponses res) = Inr tx \<and>
       SendTransaction (net (invExt c) (length before + 1)) (length before + 1) t (Some tx) = (Inr ord, called) \<and>
       awaitTxStatus (invExt c) (length before + 2) reg = TxStatusReceived (validCode (invExt c)) \<and>
       rResponses res = r0 # rest \<and> getResultFromProposalResponse (invExt c) (TPRResponse r0) = Inr (rPayload res))"
proof (cases rule: InvokeHandler_cases [of c "NewExecuteHandler []" request "options @ [addDefaultTimeout (cfgTimeout c) Execute,
             addDefaultTargetFilter (peerCfg c) (channelPeers c) EndorsingPeer]" gl tr])
  case (rejected err)
  then show ?thesis using assms by (simp add: client_Execute_def)
next
  case (run o1 o2 rc t)
  let ?e = "(invExt c)\<lparr>transactor := t\<rparr>"
  obtain r n i1 s1 where i: "Invoke (impl_required (roundFloat c) (errs ?e)) (Some (beforeRetry ?e o2))
      (attempt ?e (NewExecuteHandler [])) 0 (retry_New (retryCodes c) (roRetry o2)) \<lparr>rctx = rc, greylist = gl, trace = tr\<rparr> = Some (r, n, i1, s1)"
    using assms run
    by (cases "Invoke (impl_required (roundFloat c) (errs ?e)) (Some (beforeRetry ?e o2))
        (attempt ?e (NewExecuteHandler [])) 0 (retry_New (retryCodes c) (roRetry o2)) \<lparr>rctx = rc, greylist = gl, trace = tr\<rparr>")
      (auto simp: client_Execute_def InvokeHandler_def case_prod_beta)
  from assms InvokeHandler_run [OF run(1,2,3) i] have res: "res = rcResponse (rctx s1)" "rcError (rctx s1) = None" "r \<noteq> Inr True" "s = s1"
    by (auto simp: client_Execute_def split: if_splits)
  from Invoke_last [OF i] obtain s0 where "attempt ?e (NewExecuteHandler []) s0 = (r, s1)" by blast
  with res have "Handle ?e (NewExecuteHandler []) s0 = HRet s1"
    by (auto simp: attempt_def split: hresult.splits option.splits)
  from execute_returns [OF this res(2)] obtain tp tx ord called reg before r0 rest where
    "agree (rResponses res)" "verified (invExt c) (rResponses res)" "rTxValidationCode res = validCode (invExt c)"
    "rProposal res = Some tp" "rTransactionID res = TxnID tp"
    "trace s = before @ [ARegister (TxnID tp) reg, ABroadcast tx, AUnregister reg]"
    "RegisterTxStatusEvent (invExt c) (length before) (TxnID tp) = Inr reg"
    "txn_New (net (invExt c) (length before + 1)) (Some tp) (rResponses res) = Inr tx"
    "SendTransaction (net (invExt c) (length before + 1)) (length before + 1) t (Some tx) = (Inr ord, called)"
    "awaitTxStatus (invExt c) (length before + 2) reg = TxStatusReceived (validCode (invExt c))"
    "rResponses res = r0 # rest" "getResultFromProposalResponse (invExt c) (TPRResponse r0) = Inr (rPayload res)"
    by (auto simp: res Let_def)
  then show ?thesis using run(5) by auto
qed

theorem Execute_success_witness:
  "\<exists>res s. client_Execute test_client test_request [] (greylist_New 5) [] = Completed res None s \<and>
     verified (invExt test_client) (rResponses res) \<and> rTxValidationCode res = validCode (invExt test_client) \<and>
     (\<exists>tp tx reg before. rProposal res = Some tp \<and> trace s = before @ [ARegister (TxnID tp) reg, ABroadcast tx, AUnregister reg])"
proof -
  let ?o = "snd (createReqContext test_client test_options)"
  obtain s1 where a: "attempt ((invExt test_client)\<lparr>transactor := \<lparr>tChannelID = ''ch'', tOrderers = [''o1'', ''o2'']\<rparr>\<rparr>) (NewExecuteHandler [])
      \<lparr>rctx = test_context ?o, greylist = greylist_New 5, trace = []\<rparr> = (Inr False, s1)" "rcError (rctx s1) = None"
    using test_attempt by blast
  have p: "prepareHandlerContexts test_client test_request ?o =
      Inr (test_context ?o, (invExt test_client)\<lparr>transactor := \<lparr>tChannelID = ''ch'', tOrderers = [''o1'', ''o2'']\<rparr>\<rparr>,
        retry_New (retryCodes test_client) (roRetry ?o))"
    by (simp add: prepareHandlerContexts_def test_request_def test_client_def test_context_def)
  have i: "Invoke req hook (attempt ((invExt test_client)\<lparr>transactor := \<lparr>tChannelID = ''ch'', tOrderers = [''o1'', ''o2'']\<rparr>\<rparr>) (NewExecuteHandler [])) 0 i
      \<lparr>rctx = test_context ?o, greylist = greylist_New 5, trace = []\<rparr> = Some (Inr False, 1, i, s1)" for req hook i
    by (subst Retry.Invoke.simps) (simp add: a)
  have "\<exists>res s. client_Execute test_client test_request [] (greylist_New 5) [] = Completed res None s"
    using InvokeHandler_run [OF test_options refl p i] a(2) by (simp add: client_Execute_def test_client_def)
  then obtain res s where r: "client_Execute test_client test_request [] (greylist_New 5) [] = Completed res None s" by blast
  from Execute_success [OF r] r show ?thesis by auto
qed

text \<open>What the runs of the handlers of one request have to do with each other. \<open>selects_without\<close>: between the end of a
  failed run and the end of the next one, every selection made before the greylist entry expires is given a filter that rejects
  the peer the error blames. \<open>spared\<close>: the run from \<open>s\<close> fails with the first error of the list, the next one starts with the
  targets of the request, no error and an empty response, and selects without the blamed peer; and so on, up to the last run,
  which gives the result. A run without targets starts with a selection.\<close>

definition selects_without :: "inv_ext \<Rightarrow> error \<Rightarrow> hstate \<Rightarrow> hstate \<Rightarrow> bool" where
  "selects_without e err s1 s3 \<longleftrightarrow> (\<exists>acts. trace s3 = trace s1 @ acts \<and>
     (\<forall>k < length acts. \<forall>cc so p. acts ! k = ASelect cc so \<longrightarrow> blames (errs e) (Some err) = Some (ToAddress (URL p)) \<longrightarrow>
        clock e (length (trace s1) + k) < clock e (length (trace s1)) + expiryInterval (greylist s1) \<longrightarrow>
        (\<exists>f. PeerFilter so = Some f \<and> \<not> f p)))"

definition restarted :: "inv_ext \<Rightarrow> handler \<Rightarrow> requestOptions \<Rightarrow> hstate \<Rightarrow> hstate \<Rightarrow> bool" where
  "restarted e h o1 s1 s2 \<longleftrightarrow> trace s2 = trace s1 \<and> Targets (rcOpts (rctx s2)) = Targets (roOpts o1) \<and>
     rcError (rctx s2) = None \<and> rcResponse (rctx s2) = emptyResponse \<and>
     expiryInterval (greylist s2) = expiryInterval (greylist s1) \<and>
     (Targets (roOpts o1) = [] \<longrightarrow> (\<exists>cc so rest. trace (snd (attempt e h s2)) = trace s1 @ ASelect cc so # rest))"

fun spared :: "inv_ext \<Rightarrow> handler \<Rightarrow> requestOptions \<Rightarrow> hstate \<Rightarrow> error list \<Rightarrow> error + bool \<Rightarrow> hstate \<Rightarrow> bool" where
  "spared e h o1 s [] r s' \<longleftrightarrow> attempt e h s = (r, s')"
| "spared e h o1 s (err # es) r s' \<longleftrightarrow>
     (\<exists>s1 s2. attempt e h s = (Inl err, s1) \<and> restarted e h o1 s1 s2 \<and>
        selects_without e err s1 (snd (attempt e h s2)) \<and> spared e h o1 s2 es r s')"

lemma attempt_selecting: "selecting e s (snd (attempt e h s))"
  using Handle_selecting [of e s h] attempt_state [of e h s] by (metis prod.collapse)

lemma beforeRetry_selects_without:
  assumes "rcSelectionFilter (rctx s1) = Some (peerFilter o2)" "selecting e (beforeRetry e o2 err s1) s3"
  shows "selects_without e err s1 s3"
proof -
  from assms(2) obtain acts where acts: "trace s3 = trace s1 @ acts"
    "\<forall>k < length acts. \<forall>cc so. acts ! k = ASelect cc so \<longrightarrow>
       PeerFilter so = Some (peerFilter o2 (clock e (length (trace s1) + k)) (greylist (beforeRetry e o2 err s1)))"
    using assms(1) by (auto simp: selecting_def beforeRetry_def)
  have "\<not> peerFilter o2 now (greylist (beforeRetry e o2 err s1)) p"
    if "blames (errs e) (Some err) = Some (ToAddress (URL p))" "now < clock e (length (trace s1)) + expiryInterval (greylist s1)" for now p
    using that by (simp add: beforeRetry_def peerFilter_def greylist_Accept_def Greylist_blames)
  with acts show ?thesis unfolding selects_without_def by (intro exI [of _ acts]) simp
qed

lemma attempted_spared:
  assumes "attempted (Some (beforeRetry e o2)) (attempt e (NewExecuteHandler [])) s es r s'" "rcSelectionFilter (rctx s) = Some (peerFilter o2)"
  shows "spared e (NewExecuteHandler []) o2 s es r s'"
  using assms
proof (induction es arbitrary: s)
  case (Cons err es)
  let ?h = "NewExecuteHandler []"
  from Cons.prems(1) obtain s1 where a: "attempt e ?h s = (Inl err, s1)"
    and rest: "attempted (Some (beforeRetry e o2)) (attempt e ?h) (beforeRetry e o2 err s1) es r s'" by (auto simp: hooked_def)
  let ?s2 = "beforeRetry e o2 err s1"
  have f: "rcSelectionFilter (rctx s1) = Some (peerFilter o2)"
    using attempt_selecting [of e s ?h] a Cons.prems(2) by (simp add: selecting_def)
  then have "rcSelectionFilter (rctx ?s2) = Some (peerFilter o2)" by (simp add: beforeRetry_def)
  from Cons.IH [OF rest this] have "spared e ?h o2 ?s2 es r s'" .
  moreover have "selects_without e err s1 (snd (attempt e ?h ?s2))" by (rule beforeRetry_selects_without [OF f attempt_selecting])
  moreover have "restarted e ?h o2 s1 ?s2"
    using execute_selects [of ?s2 e] attempt_state [of e ?h ?s2, OF prod.collapse [symmetric]]
    by (auto simp: restarted_def beforeRetry_def Greylist_blames simp del: Handle.simps split: option.split)
  ultimately show ?case using a by auto
qed (simp add: attempted.simps)

text \<open>
  C37. A retry avoids the peer that failed. A request to execute a chaincode that reaches its handlers runs them once and
  then once more for each of the errors \<open>es\<close>, which are retryable and at most \<open>Attempts\<close> in number. After a run that
  ended with a failed connection to a peer, every selection of the next run, until the greylist
  entry of that address expires, is given a filter that rejects the peers at that address. The run starts again with the targets of the request (and,
  without targets, with a selection), no error and an empty response. The retries stop at a run that succeeds or crashes, that ends with
  an error that is not retryable, or when the attempts are used up; the final state is that of the last run.
\<close>

theorem retry_avoids_failed_peer:
  assumes "prepareOptsFromOptions (options @ [addDefaultTimeout (cfgTimeout c) Execute,
             addDefaultTargetFilter (peerCfg c) (channelPeers c) EndorsingPeer]) = Inr o1"
    and "0 \<le> Attempts (roRetry o1)"
  shows "isRejected (client_Execute c request options gl tr) \<or>
    (\<exists>t rc es r s. transactorService c = Inr t \<and> finalState (client_Execute c request options gl tr) = Some s \<and>
       prepareHandlerContexts c request (snd (createReqContext c o1)) = Inr (rc, (invExt c)\<lparr>transactor := t\<rparr>, retry_New (retryCodes c) (roRetry o1)) \<and>
       spared ((invExt c)\<lparr>transactor := t\<rparr>) (NewExecuteHandler []) o1 \<lparr>rctx = rc, greylist = gl, trace = tr\<rparr> es r s \<and>
       int (length es) \<le> Attempts (roRetry o1) \<and>
       (let retryable = retryableError (errs (invExt c)) (opts (retry_New (retryCodes c) (roRetry o1))) in
        list_all retryable es \<and> (\<forall>err. r = Inl err \<longrightarrow> int (length es) = Attempts (roRetry o1) \<or> \<not> retryable err)))"
proof (cases rule: InvokeHandler_cases [of c "NewExecuteHandler []" request "options @ [addDefaultTimeout (cfgTimeout c) Execute,
             addDefaultTargetFilter (peerCfg c) (channelPeers c) EndorsingPeer]" gl tr])
  case (rejected err)
  then show ?thesis by (simp add: client_Execute_def isRejected_def)
next
  case (run o1' o2 rc t)
  let ?e = "(invExt c)\<lparr>transactor := t\<rparr>"
  let ?i = "retry_New (retryCodes c) (roRetry o2)"
  let ?s = "\<lparr>rctx = rc, greylist = gl, trace = tr\<rparr>"
  from run(1,2) assms(1) have o2: "o2 = snd (createReqContext c o1)" by simp
  then have o1: "roRetry o2 = roRetry o1" "roOpts o2 = roOpts o1" by (simp_all add: createReqContext_def Let_def)
  have sp: "spared ?e (NewExecuteHandler []) o1 s es r s' = spared ?e (NewExecuteHandler []) o2 s es r s'" for s es r s'
    by (induction es arbitrary: s) (simp_all add: restarted_def o1(2))
  have "int (retries ?i) \<le> Attempts (opts ?i)" using assms(2) by (simp add: o1)
  from Invoke_attempted [OF this, of "roundFloat c" "errs ?e" "Some (beforeRetry ?e o2)" "attempt ?e (NewExecuteHandler [])" 0 ?s]
  obtain es r i1 s where i: "Invoke (impl_required (roundFloat c) (errs ?e)) (Some (beforeRetry ?e o2))
      (attempt ?e (NewExecuteHandler [])) 0 ?i ?s = Some (r, 0 + Suc (length es), i1, s)"
    and a: "attempted (Some (beforeRetry ?e o2)) (attempt ?e (NewExecuteHandler [])) ?s es r s"
    and es: "int (length es) \<le> Attempts (opts ?i) - int (retries ?i)" "list_all (retryableError (errs ?e) (opts ?i)) es"
      "\<forall>err. r = Inl err \<longrightarrow> int (length es) = Attempts (opts ?i) - int (retries ?i) \<or> \<not> retryableError (errs ?e) (opts ?i) err"
    by blast
  have "finalState (client_Execute c request options gl tr) = Some s"
    using InvokeHandler_run [OF run(1,2,3) i] by (simp add: finalState_def client_Execute_def)
  moreover have "spared ?e (NewExecuteHandler []) o1 ?s es r s" unfolding sp by (rule attempted_spared [OF a]) (simp add: run(6))
  moreover have "prepareHandlerContexts c request (snd (createReqContext c o1)) = Inr (rc, ?e, retry_New (retryCodes c) (roRetry o1))"
    using run(3) by (simp add: o1(1) flip: o2)
  ultimately show ?thesis using es run(5) by (auto simp: o1 Let_def)
qed

text \<open>A network in which the peer at \<open>a\<close> cannot be reached, and a selection that returns the first acceptable peer.\<close>

definition down :: error where
  "down = ErrStatus (Status EndorserClientStatus ConnectionFailed ''down'' [DString ''grpc://a''])"

definition flaky_net :: txn_ext where
  "flaky_net = test_net\<lparr>processProposal := (\<lambda>t b s. case t of
     PeerProcessor p \<Rightarrow> if URL p = ''a'' then Inl down else Inr (test_response (URL p)) | _ \<Rightarrow> Inl (ErrNew ''no peer''))\<rparr>"

definition flaky_client :: client_ext where
  "flaky_client = test_client\<lparr>invExt := (invExt test_client)\<lparr>net := (\<lambda>n. flaky_net),
     GetEndorsersForChaincode := (\<lambda>n calls so. Inr (take 1 (filter (\<lambda>p. case PeerFilter so of Some f \<Rightarrow> f p | None \<Rightarrow> True) [test_peer ''a'', test_peer ''b''])))\<rparr>\<rparr>"

definition flaky_options :: requestOptions where
  "flaky_options = zeroOptions\<lparr>roTimeouts := (\<lambda>_. 0)(Execute := 180), roRetry := DefaultChannelOpts fabric_codes,
     roOpts := (roOpts zeroOptions)\<lparr>TargetFilter := Some (\<lambda>p. True)\<rparr>\<rparr>"

lemma flaky_options:
  "prepareOptsFromOptions ([WithRetry (DefaultChannelOpts fabric_codes), WithTargetFilter (\<lambda>p. True)] @
      [addDefaultTimeout (cfgTimeout flaky_client) Execute,
       addDefaultTargetFilter (peerCfg flaky_client) (channelPeers flaky_client) EndorsingPeer]) = Inr flaky_options"
  by (simp add: prepareOptsFromOptions_def addDefaultTimeout_def addDefaultTargetFilter_def WithTimeout_def WithTargetFilter_def
      WithRetry_def zeroOptions_def test_client_def flaky_client_def flaky_options_def)

lemma down_text: "\<not> Contains (ErrorText pkg_errors down) ''failed to distribute private collection''"
  by code_simp

lemma flaky_attempt:
  "\<exists>s1. attempt ((invExt flaky_client)\<lparr>transactor := \<lparr>tChannelID = ''ch'', tOrderers = [''o1'', ''o2'']\<rparr>\<rparr>) (NewExecuteHandler [])
      \<lparr>rctx = test_context flaky_options, greylist = greylist_New 5, trace = []\<rparr> = (Inl down, s1)"
  by (simp add: attempt_def run_defs test_defs delete_at_def test_client_def test_context_def flaky_options_def flaky_net_def flaky_client_def
      peerFilter_def greylist_Accept_def greylist_New_def
      createReqContext_def zeroOptions_def test_request_def checkEndorserServerError_def down_text)

theorem retry_avoids_failed_peer_witness:
  "\<exists>rc es r s. finalState (client_Execute flaky_client test_request [WithRetry (DefaultChannelOpts fabric_codes), WithTargetFilter (\<lambda>p. True)] (greylist_New 5) []) = Some s \<and>
     spared ((invExt flaky_client)\<lparr>transactor := \<lparr>tChannelID = ''ch'', tOrderers = [''o1'', ''o2'']\<rparr>\<rparr>) (NewExecuteHandler []) flaky_options
       \<lparr>rctx = rc, greylist = greylist_New 5, trace = []\<rparr> (down # es) r s \<and>
     blames (errs (invExt flaky_client)) (Some down) = Some (ToAddress (URL (test_peer ''a'')))"
proof -
  let ?x = "client_Execute flaky_client test_request [WithRetry (DefaultChannelOpts fabric_codes), WithTargetFilter (\<lambda>p. True)] (greylist_New 5) []"
  let ?t = "\<lparr>tChannelID = ''ch'', tOrderers = [''o1'', ''o2'']\<rparr>"
  have o: "createReqContext flaky_client flaky_options = (180, flaky_options)" by (simp add: createReqContext_def flaky_options_def)
  have t: "transactorService flaky_client = Inr ?t" by (simp add: flaky_client_def test_client_def)
  have p: "prepareHandlerContexts flaky_client test_request flaky_options =
      Inr (test_context flaky_options, (invExt flaky_client)\<lparr>transactor := ?t\<rparr>, retry_New (retryCodes flaky_client) (roRetry flaky_options))"
    by (simp add: prepareHandlerContexts_def test_request_def flaky_client_def test_client_def test_context_def)
  have "\<not> isRejected ?x" unfolding client_Execute_def InvokeHandler_def flaky_options
    by (simp add: o p isRejected_def split: option.split sum.split bool.split)
  have a: "Attempts (roRetry flaky_options) = 3" "opts (retry_New (retryCodes flaky_client) (roRetry flaky_options)) = DefaultChannelOpts fabric_codes"
    "errs (invExt flaky_client) = pkg_errors"
    by (simp_all add: flaky_options_def DefaultChannelOpts_def ChannelClientRetryableCodes_def retry_New_def flaky_client_def test_client_def test_defs)
  from \<open>\<not> isRejected ?x\<close> retry_avoids_failed_peer [OF flaky_options, of test_request "greylist_New 5" "[]", unfolded t p o a Let_def snd_conv]
  obtain es r s where s: "finalState ?x = Some s"
    "spared ((invExt flaky_client)\<lparr>transactor := ?t\<rparr>) (NewExecuteHandler []) flaky_options
       \<lparr>rctx = test_context flaky_options, greylist = greylist_New 5, trace = []\<rparr> es r s"
    "r = Inl down \<longrightarrow> int (length es) = 3 \<or> \<not> retryableError pkg_errors (DefaultChannelOpts fabric_codes) down"
    by auto
  have "retryableError pkg_errors (DefaultChannelOpts fabric_codes) down"
    by (auto simp: retryableError_def retryablePart_def FromError_def DefaultChannelOpts_def ChannelClientRetryableCodes_def down_def)
  moreover obtain s1 where "attempt ((invExt flaky_client)\<lparr>transactor := ?t\<rparr>) (NewExecuteHandler [])
      \<lparr>rctx = test_context flaky_options, greylist = greylist_New 5, trace = []\<rparr> = (Inl down, s1)" using flaky_attempt by blast
  ultimately obtain es' where "es = down # es'" using s(2,3) by (cases es) auto
  moreover have "blames (errs (invExt flaky_client)) (Some down) = Some (ToAddress (URL (test_peer ''a'')))"
    by (simp add: flaky_client_def test_client_def test_defs down_def blames_def FromError_def required_def ToInt32_def
        peerURLFromConnectionFailedStatus_def ToAddress_def HasPrefix_def TrimPrefix_def)
  ultimately show ?thesis using s(1,2) by blast
qed

text \<open>The timeout of a request is that of \<open>Execute\<close>, for a query too: the query timeout of the request has no
  influence on it.\<close>

lemma query_timeout_ignored:
  "fst (createReqContext c (o1\<lparr>roTimeouts := (roTimeouts o1)(Query := t)\<rparr>)) = fst (createReqContext c o1)"
  by (simp add: createReqContext_def Let_def)

end
