(* ===== verification/EventClient.thy ===== *)
theory EventClient
  imports EventDispatcher
begin

text \<open>
  The dispatcher of an event client: \<^verbatim>\<open>pkg/fab/events/client/dispatcher\<close>. It embeds the dispatcher of the
  event service, overrides its stop event and adds the connection to an event server, the listener for
  connection events and the monitor of the connected peer.

  Connections, and the done channels of peer monitors, are numbered as they are created; the logs \<open>closed\<close>
  record every call of \<open>Close\<close> and every close of a done channel. Discovery, the peer resolver and the
  connection provider are the record \<open>conn_env\<close>; their answers depend on the number of events handled.
\<close>

datatype ConnectionEvent = ConnectionEvent (Connected: bool) (ConnErr: "(error \<times> bool) option")

record conn_chan =
  ccap :: nat
  csent :: "ConnectionEvent list"
  cclosed :: bool

record conn_env =
  base_env :: env
  GetPeers :: "nat \<Rightarrow> error + peer list"
  ResolvePeer :: "nat \<Rightarrow> peer list \<Rightarrow> error + peer"
  connectionProvider :: "nat \<Rightarrow> peer \<Rightarrow> error option"
  ShouldDisconnect :: "nat \<Rightarrow> peer list \<Rightarrow> peer \<Rightarrow> bool"
  connRecvs :: "nat \<Rightarrow> nat \<Rightarrow> nat"

record ClientDispatcher =
  esd :: "Dispatcher \<times> heap"
  connection :: "nat option"
  connectionRegistration :: "nat option"
  peerMonitorDone :: "nat option"
  connectedPeer :: "peer option"
  peerMonitorPeriod :: int
  connChans :: "nat \<Rightarrow> conn_chan"
  connsOpened :: nat
  connsClosed :: "nat list"
  monitorsStarted :: nat
  monitorsClosed :: "nat list"
  handled :: nat

datatype clientDispatcherEvent =
    ServiceEvent dispatcherEvent
  | ConnectEvent
  | DisconnectEvent
  | ConnectedEvent
  | DisconnectedEvent error bool
  | RegisterConnectionEvent nat

text \<open>The replies: those of the embedded dispatcher, an error value or nil, or the registration.\<close>

datatype clientReply = ServiceReply reply | ErrChReply "error option" | RegChReply nat

type_synonym clientDispatched = "(ClientDispatcher \<times> clientReply list) run"

definition closeConn :: "ClientDispatcher \<Rightarrow> ClientDispatcher" where
  "closeConn ed = (case connection ed of None \<Rightarrow> ed
     | Some c \<Rightarrow> ed\<lparr>connection := None, connsClosed := connsClosed ed @ [c]\<rparr>)"

definition closeMonitor :: "ClientDispatcher \<Rightarrow> ClientDispatcher run" where
  "closeMonitor ed = (case peerMonitorDone ed of None \<Rightarrow> Ret ed
     | Some m \<Rightarrow>
         if m \<in> set (monitorsClosed ed) then GoPanic ''close of closed channel''
         else Ret (ed\<lparr>peerMonitorDone := None, monitorsClosed := monitorsClosed ed @ [m]\<rparr>))"

text \<open>The non-blocking send to the listener.\<close>

definition notifyListener :: "conn_env \<Rightarrow> ConnectionEvent \<Rightarrow> ClientDispatcher \<Rightarrow> ClientDispatcher run" where
  "notifyListener ce ev ed = (case connectionRegistration ed of None \<Rightarrow> Ret ed
     | Some c \<Rightarrow>
         if cclosed (connChans ed c) then GoPanic ''send on closed channel''
         else if length (csent (connChans ed c)) < ccap (connChans ed c) + connRecvs ce (handled ed) c
         then Ret (ed\<lparr>connChans := (connChans ed)(c := (connChans ed c)\<lparr>csent := csent (connChans ed c) @ [ev]\<rparr>)\<rparr>)
         else Ret ed)"

definition clearConnectionRegistration :: "ClientDispatcher \<Rightarrow> ClientDispatcher run" where
  "clearConnectionRegistration ed = (case connectionRegistration ed of None \<Rightarrow> Ret ed
     | Some c \<Rightarrow>
         if cclosed (connChans ed c) then GoPanic ''close of closed channel''
         else Ret (ed\<lparr>connectionRegistration := None, connChans := (connChans ed)(c := (connChans ed c)\<lparr>cclosed := True\<rparr>)\<rparr>))"

definition onService :: "(Dispatcher \<times> heap \<Rightarrow> dispatched) \<Rightarrow> ClientDispatcher \<Rightarrow> clientDispatched" where
  "onService f ed = bindR (f (esd ed)) (\<lambda>(s, rs). Ret (ed\<lparr>esd := s\<rparr>, map ServiceReply rs))"

definition client_HandleStopEvent :: "conn_env \<Rightarrow> ClientDispatcher \<Rightarrow> clientDispatched" where
  "client_HandleStopEvent ce ed =
     bindR (clearConnectionRegistration ed) (\<lambda>ed1.
     bindR (closeMonitor ed1) (\<lambda>ed2.
     onService (HandleStopEvent (base_env ce)) ed2))"

text \<open>\<open>EventCh\<close> of the embedded dispatcher fails unless it is started.\<close>

definition HandleConnectEvent :: "conn_env \<Rightarrow> ClientDispatcher \<Rightarrow> clientDispatched" where
  "HandleConnectEvent ce ed =
     (if connection ed \<noteq> None then Ret (ed, [ErrChReply None])
      else if dstate (fst (esd ed)) \<noteq> dispatcherStateStarted then
        Ret (ed, [ErrChReply (Some (ErrNew ''dispatcher not started''))])
      else (case GetPeers ce (handled ed) of
         Inl e \<Rightarrow> Ret (ed, [ErrChReply (Some e)])
       | Inr peers \<Rightarrow>
          if peers = [] then Ret (ed, [ErrChReply (Some (ErrNew ''no peers to connect to''))])
          else (case ResolvePeer ce (handled ed) peers of
             Inl e \<Rightarrow> Ret (ed, [ErrChReply (Some e)])
           | Inr p \<Rightarrow>
              (case connectionProvider ce (handled ed) p of
                 Some e \<Rightarrow> Ret (ed, [ErrChReply (Some (ErrWithMessage ''could not create client conn'' e))])
               | None \<Rightarrow>
                   Ret (ed\<lparr>connection := Some (connsOpened ed), connsOpened := Suc (connsOpened ed), connectedPeer := Some p\<rparr>,
                        [ErrChReply None])))))"

definition HandleDisconnectEvent :: "ClientDispatcher \<Rightarrow> clientDispatched" where
  "HandleDisconnectEvent ed =
     (if connection ed = None then Ret (ed, [ErrChReply (Some (ErrNew ''connection already closed''))])
      else Ret ((closeConn ed)\<lparr>connectedPeer := None\<rparr>, [ErrChReply None]))"

definition HandleRegisterConnectionEvent :: "nat \<Rightarrow> ClientDispatcher \<Rightarrow> clientDispatched" where
  "HandleRegisterConnectionEvent c ed =
     (if connectionRegistration ed \<noteq> None then
        Ret (ed, [ErrChReply (Some (ErrNew ''registration already exists for connection event''))])
      else Ret (ed\<lparr>connectionRegistration := Some c\<rparr>, [RegChReply c]))"

definition HandleConnectedEvent :: "conn_env \<Rightarrow> ClientDispatcher \<Rightarrow> clientDispatched" where
  "HandleConnectedEvent ce ed =
     bindR (notifyListener ce (ConnectionEvent True None) ed) (\<lambda>ed1.
     Ret (if peerMonitorPeriod ed1 > 0
          then ed1\<lparr>peerMonitorDone := Some (monitorsStarted ed1), monitorsStarted := Suc (monitorsStarted ed1)\<rparr>
          else ed1, []))"

definition HandleDisconnectedEvent :: "conn_env \<Rightarrow> error \<Rightarrow> bool \<Rightarrow> ClientDispatcher \<Rightarrow> clientDispatched" where
  "HandleDisconnectedEvent ce err fatal ed =
     bindR (notifyListener ce (ConnectionEvent False (Some (err, fatal))) (closeConn ed)) (\<lambda>ed1.
     bindR (closeMonitor ed1) (\<lambda>ed2. Ret (ed2, [])))"

fun client_dispatch :: "conn_env \<Rightarrow> clientDispatcherEvent \<Rightarrow> ClientDispatcher \<Rightarrow> clientDispatched" where
  "client_dispatch ce (ServiceEvent StopEvent) ed = client_HandleStopEvent ce ed"
| "client_dispatch ce (ServiceEvent e) ed = onService (dispatch (base_env ce) e) ed"
| "client_dispatch ce ConnectEvent ed = HandleConnectEvent ce ed"
| "client_dispatch ce DisconnectEvent ed = HandleDisconnectEvent ed"
| "client_dispatch ce ConnectedEvent ed = HandleConnectedEvent ce ed"
| "client_dispatch ce (DisconnectedEvent err fatal) ed = HandleDisconnectedEvent ce err fatal ed"
| "client_dispatch ce (RegisterConnectionEvent c) ed = HandleRegisterConnectionEvent c ed"

fun client_process :: "conn_env \<Rightarrow> clientDispatcherEvent list \<Rightarrow> ClientDispatcher \<Rightarrow> clientDispatched" where
  "client_process ce [] ed = Ret (ed, [])"
| "client_process ce (e # es) ed =
     (if dstate (fst (esd ed)) = dispatcherStateStopped then Ret (ed, [])
      else bindR (client_dispatch ce e ed) (\<lambda>(ed1, r).
           bindR (client_process ce es (ed1\<lparr>handled := Suc (handled ed1)\<rparr>)) (\<lambda>(ed2, rs). Ret (ed2, r @ rs))))"

text \<open>\<open>disconnected\<close> of the peer monitor: the events it submits when the resolver wants to leave the peer
  (the second one only after the first was answered without an error), and whether the monitor ends.\<close>

definition monitor_check :: "conn_env \<Rightarrow> ClientDispatcher \<Rightarrow> clientDispatcherEvent option" where
  "monitor_check ce ed =
     (case connectedPeer ed of None \<Rightarrow> None
      | Some p \<Rightarrow>
         (case GetPeers ce (handled ed) of Inl _ \<Rightarrow> None
          | Inr peers \<Rightarrow>
              if \<not> ShouldDisconnect ce (handled ed) peers p then None
              else if dstate (fst (esd ed)) \<noteq> dispatcherStateStarted then None
              else Some DisconnectEvent))"

definition monitor_answer :: "clientReply list \<Rightarrow> clientDispatcherEvent option" where
  "monitor_answer rs = (case rs of [ErrChReply None] \<Rightarrow>
       Some (DisconnectedEvent (ErrNew ''event client was forced to disconnect'') False) | _ \<Rightarrow> None)"

definition client_New :: "nat \<Rightarrow> int \<Rightarrow> Dispatcher \<times> heap \<Rightarrow> (nat \<Rightarrow> conn_chan) \<Rightarrow> ClientDispatcher" where
  "client_New n period s chs = \<lparr>esd = s, connection = None, connectionRegistration = None, peerMonitorDone = None,
     connectedPeer = None, peerMonitorPeriod = period, connChans = chs, connsOpened = 0, connsClosed = [],
     monitorsStarted = 0, monitorsClosed = [], handled = n\<rparr>"

section \<open>The invariant\<close>

text \<open>Every connection that was made is open and current, or was closed exactly once; every done channel was
  closed at most once; the listener's channel is open, and so are those that registrations still to come
  will bring.\<close>

definition conns_inv :: "ClientDispatcher \<Rightarrow> bool" where
  "conns_inv ed \<longleftrightarrow> mset (connsClosed ed) + (case connection ed of None \<Rightarrow> {#} | Some c \<Rightarrow> {#c#}) = mset [0..<connsOpened ed]"

definition monitors_inv :: "ClientDispatcher \<Rightarrow> bool" where
  "monitors_inv ed \<longleftrightarrow> distinct (monitorsClosed ed) \<and> (\<forall>m \<in> set (monitorsClosed ed). m < monitorsStarted ed) \<and>
     (\<forall>m. peerMonitorDone ed = Some m \<longrightarrow> m < monitorsStarted ed \<and> m \<notin> set (monitorsClosed ed))"

definition listener_inv :: "nat list \<Rightarrow> ClientDispatcher \<Rightarrow> bool" where
  "listener_inv ls ed \<longleftrightarrow> distinct (ls @ (case connectionRegistration ed of None \<Rightarrow> [] | Some c \<Rightarrow> [c])) \<and>
     (\<forall>c \<in> set ls \<union> set_option (connectionRegistration ed). \<not> cclosed (connChans ed c))"

definition client_inv :: "nat list \<Rightarrow> nat list \<Rightarrow> ClientDispatcher \<Rightarrow> bool" where
  "client_inv cs ls ed \<longleftrightarrow> conns_inv ed \<and> monitors_inv ed \<and> listener_inv ls ed \<and> disp_inv cs (esd ed)"

fun service_events :: "clientDispatcherEvent list \<Rightarrow> dispatcherEvent list" where
  "service_events [] = []"
| "service_events (ServiceEvent e # es) = e # service_events es"
| "service_events (_ # es) = service_events es"

fun listeners :: "clientDispatcherEvent list \<Rightarrow> nat list" where
  "listeners [] = []"
| "listeners (RegisterConnectionEvent c # es) = c # listeners es"
| "listeners (_ # es) = listeners es"

lemmas client_invs = client_inv_def conns_inv_def monitors_inv_def listener_inv_def

lemma closeConn_inv: "client_inv cs ls ed \<Longrightarrow> client_inv cs ls (closeConn ed)"
  by (auto simp: closeConn_def client_invs split: option.splits)

lemma client_inv_peer [simp]: "client_inv cs ls (ed\<lparr>connectedPeer := p\<rparr>) = client_inv cs ls ed"
  "client_inv cs ls (ed\<lparr>handled := n\<rparr>) = client_inv cs ls ed"
  by (simp_all add: client_invs)

lemma closeMonitor_inv: "client_inv cs ls ed \<Longrightarrow> okR (client_inv cs ls) (closeMonitor ed)"
  by (auto simp: closeMonitor_def client_invs split: option.splits)

lemma notifyListener_inv: "client_inv cs ls ed \<Longrightarrow> okR (client_inv cs ls) (notifyListener ce ev ed)"
  by (auto simp: notifyListener_def client_invs split: option.splits)

lemma clearConnectionRegistration_inv:
  "client_inv cs ls ed \<Longrightarrow> okR (\<lambda>ed1. client_inv cs ls ed1 \<and> connectionRegistration ed1 = None) (clearConnectionRegistration ed)"
  by (auto simp: clearConnectionRegistration_def client_invs split: option.splits)

lemma onService_inv:
  assumes "client_inv cs' ls ed" and "okR (\<lambda>(s, _). disp_inv cs s) (f (esd ed))"
  shows "okR (\<lambda>(ed1, _). client_inv cs ls ed1) (onService f ed)"
  unfolding onService_def by (rule okR_bind [OF assms(2)]) (use assms(1) in \<open>auto simp: client_invs\<close>)

lemma client_inv_weaken:
  assumes "client_inv (cs' @ cs) (ls' @ ls) ed"
  shows "client_inv cs ls ed"
  using assms disp_inv_weaken [of cs' cs "esd ed"] by (auto simp: client_invs)

definition event_needs :: "clientDispatcherEvent \<Rightarrow> nat list" where
  "event_needs e = event_chans (service_events [e])"

lemma client_dispatch_inv:
  assumes inv: "client_inv (event_needs e @ cs) (listeners [e] @ ls) ed"
    and legal: "list_all (legal_event (pbs (base_env ce))) (service_events [e])"
  shows "okR (\<lambda>(ed1, _). client_inv cs ls ed1) (client_dispatch ce e ed)"
proof -
  have w: "client_inv cs ls ed" by (rule client_inv_weaken [OF inv])
  have service: "okR (\<lambda>(ed1, _). client_inv cs ls ed1) (onService (dispatch (base_env ce) e') ed1)"
    if "client_inv (event_chan e' @ cs) ls ed1" "legal_event (pbs (base_env ce)) e'" for e' ed1
    by (rule onService_inv [OF that(1)]) (use that in \<open>auto simp: client_inv_def intro!: dispatch_inv\<close>)
  have s: "HandleStopEvent (base_env ce) = dispatch (base_env ce) StopEvent" by (rule ext) simp
  have stop: "okR (\<lambda>(ed1, _). client_inv cs ls ed1) (client_HandleStopEvent ce ed)"
    unfolding client_HandleStopEvent_def
  proof (rule okR_bind [OF clearConnectionRegistration_inv [OF w]])
    fix ed1 assume "client_inv cs ls ed1 \<and> connectionRegistration ed1 = None"
    then show "okR (\<lambda>(ed1, _). client_inv cs ls ed1) (bindR (closeMonitor ed1) (onService (HandleStopEvent (base_env ce))))"
      by (intro okR_bind [OF closeMonitor_inv [of cs ls]]) (use service [of StopEvent] in \<open>auto simp: s simp del: dispatch.simps\<close>)
  qed
  show ?thesis
  proof (cases e)
    case (ServiceEvent e')
    then show ?thesis using stop service [of e' ed] inv legal
      by (cases e') (simp_all add: event_needs_def event_chans_def)
  next
    case ConnectEvent
    then show ?thesis using w
      by (auto simp: HandleConnectEvent_def client_invs simp del: mset_upt split: sum.split option.split)
  next
    case DisconnectEvent
    then show ?thesis using w closeConn_inv [OF w] by (simp add: HandleDisconnectEvent_def)
  next
    case ConnectedEvent
    have "okR (\<lambda>(ed1, _). client_inv cs ls ed1) (HandleConnectedEvent ce ed)"
      unfolding HandleConnectedEvent_def
      by (rule okR_bind [OF notifyListener_inv [OF w]]) (auto simp: client_invs less_Suc_eq)
    then show ?thesis by (simp add: ConnectedEvent)
  next
    case (DisconnectedEvent err fatal)
    have "okR (\<lambda>(ed1, _). client_inv cs ls ed1) (HandleDisconnectedEvent ce err fatal ed)"
      unfolding HandleDisconnectedEvent_def
      by (rule okR_bind [OF notifyListener_inv [OF closeConn_inv [OF w]]], rule okR_bind [OF closeMonitor_inv]) auto
    then show ?thesis by (simp add: DisconnectedEvent)
  next
    case (RegisterConnectionEvent c)
    then show ?thesis using inv w by (auto simp: HandleRegisterConnectionEvent_def client_invs event_needs_def event_chans_def split: option.splits)
  qed
qed

lemma service_events_Cons: "service_events (e # es) = service_events [e] @ service_events es"
  by (cases e) simp_all

lemma listeners_Cons: "listeners (e # es) = listeners [e] @ listeners es"
  by (cases e) simp_all

lemma client_process_inv:
  assumes "client_inv (event_chans (service_events es) @ cs) (listeners es @ ls) ed"
    and "list_all (legal_event (pbs (base_env ce))) (service_events es)"
  shows "okR (\<lambda>(ed1, _). client_inv cs ls ed1) (client_process ce es ed)"
  using assms
proof (induction es arbitrary: ed)
  case (Cons e es)
  have w: "client_inv cs ls ed" by (rule client_inv_weaken [OF Cons.prems(1)])
  have "okR (\<lambda>(ed1, _). client_inv (event_chans (service_events es) @ cs) (listeners es @ ls) ed1) (client_dispatch ce e ed)"
  proof (rule client_dispatch_inv)
    show "client_inv (event_needs e @ event_chans (service_events es) @ cs) (listeners [e] @ listeners es @ ls) ed"
      using Cons.prems(1) service_events_Cons [of e es] listeners_Cons [of e es] by (simp add: event_needs_def event_chans_def)
    show "list_all (legal_event (pbs (base_env ce))) (service_events [e])"
      using Cons.prems(2) service_events_Cons [of e es] by simp
  qed
  then have "okR (\<lambda>(ed1, _). client_inv cs ls ed1) (bindR (client_dispatch ce e ed) (\<lambda>(ed1, r).
           bindR (client_process ce es (ed1\<lparr>handled := Suc (handled ed1)\<rparr>)) (\<lambda>(ed2, rs). Ret (ed2, r @ rs))))"
  proof (rule okR_bind)
    fix a :: "ClientDispatcher \<times> clientReply list"
    assume "case a of (ed1, _) \<Rightarrow> client_inv (event_chans (service_events es) @ cs) (listeners es @ ls) ed1"
    then have i: "client_inv (event_chans (service_events es) @ cs) (listeners es @ ls) ((fst a)\<lparr>handled := Suc (handled (fst a))\<rparr>)"
      by (simp add: case_prod_beta)
    have "list_all (legal_event (pbs (base_env ce))) (service_events es)"
      using Cons.prems(2) service_events_Cons [of e es] by simp
    from Cons.IH [OF i this] show "okR (\<lambda>(ed1, _). client_inv cs ls ed1) (case a of (ed1, r) \<Rightarrow>
        bindR (client_process ce es (ed1\<lparr>handled := Suc (handled ed1)\<rparr>)) (\<lambda>(ed2, rs). Ret (ed2, r @ rs)))"
      unfolding case_prod_beta by (rule okR_bind) (simp add: case_prod_beta)
  qed
  with w show ?case by simp
qed (simp add: event_chans_def)

section \<open>Properties of the dispatcher\<close>

text \<open>
  C9. The client dispatcher neither leaks nor closes anything twice. Over any sequence of events, with the
  connection to the server made, lost and made again in any order, no handler panics: every connection that
  was ever made is the current one or was closed exactly once, a peer monitor's done channel is closed at
  most once, and no event is sent to a closed listener or registration.
\<close>

theorem client_dispatcher_safe:
  assumes "list_all (legal_event (pbs (base_env ce))) (service_events es)"
    and "disp_inv (event_chans (service_events es)) s"
    and "distinct (listeners es)" and "list_all (\<lambda>c. \<not> cclosed (chs c)) (listeners es)"
  shows "case client_process ce es (client_New n period s chs) of
      Ret (ed, rs) \<Rightarrow> mset (connsClosed ed) + (case connection ed of None \<Rightarrow> {#} | Some c \<Rightarrow> {#c#}) = mset [0..<connsOpened ed] \<and>
        distinct (monitorsClosed ed) \<and> disp_inv [] (esd ed)
    | GoPanic p \<Rightarrow> False | Blocked \<Rightarrow> True"
proof -
  have "client_inv (event_chans (service_events es) @ []) (listeners es @ []) (client_New n period s chs)"
    using assms by (simp add: client_invs client_New_def list_all_iff)
  from client_process_inv [OF this assms(1)] show ?thesis
    by (auto simp: okR_def client_invs split: run.splits)
qed

lemma StopEvent_releases:
  assumes "client_inv [] [] ed" and "dstate (fst (esd ed)) = dispatcherStateStarted"
    and "client_dispatch ce (ServiceEvent StopEvent) ed = Ret (ed1, rs)"
  shows "connectionRegistration ed1 = None" "peerMonitorDone ed1 = None"
    "\<forall>c. connectionRegistration ed = Some c \<longrightarrow> cclosed (connChans ed1 c)"
    "\<forall>m. peerMonitorDone ed = Some m \<longrightarrow> m \<in> set (monitorsClosed ed1)"
  using assms
  by (auto simp: client_HandleStopEvent_def clearConnectionRegistration_def closeMonitor_def onService_def
      split: option.splits if_splits run.splits elim!: bindR.elims)

text \<open>A stop with transfer is not overridden: it leaves the listener registered and the monitor running.\<close>

lemma StopAndTransfer_leaks:
  assumes "client_dispatch ce (ServiceEvent StopAndTransferEvent) ed = Ret (ed1, rs)"
  shows "connectionRegistration ed1 = connectionRegistration ed" "peerMonitorDone ed1 = peerMonitorDone ed"
    "monitorsClosed ed1 = monitorsClosed ed"
  using assms by (auto simp: onService_def elim!: bindR.elims)

definition idle_service :: "Dispatcher \<times> heap" where
  "idle_service = ((dispatcher_New defaultParams)\<lparr>dstate := dispatcherStateStarted\<rparr>,
     \<lparr>chans = (\<lambda>_. \<lparr>cap = 1, sent = [], isClosed = False\<rparr>), tick = 0\<rparr>)"

lemma idle_service_inv: "disp_inv [] idle_service"
  by (simp add: idle_service_def disp_inv_def well_keyed_def own_channels_def regs_def dispatcher_New_def)

definition test_conn_env :: "protos \<Rightarrow> conn_env" where
  "test_conn_env pb = \<lparr>base_env = \<lparr>recvsAtSend = (\<lambda>_ _. 0), recvsAtDeadline = (\<lambda>_ _. 0), mapOrder = (\<lambda>_ _. 0), compileRegexp = (\<lambda>_. Inr (\<lambda>_. True)), pbs = pb\<rparr>,
     GetPeers = (\<lambda>_. Inr [\<lparr>peerRef = 0, MSPID = ''Org1MSP'', URL = ''p1'', BlockHeight = None\<rparr>]), ResolvePeer = (\<lambda>_ ps. Inr (hd ps)),
     connectionProvider = (\<lambda>_ _. None), ShouldDisconnect = (\<lambda>_ _ _. False), connRecvs = (\<lambda>_ _. 0)\<rparr>"

definition test_conn_events :: "clientDispatcherEvent list" where
  "test_conn_events = [ConnectEvent, RegisterConnectionEvent 0, ConnectedEvent, DisconnectedEvent (ErrNew ''lost'') False,
     ConnectEvent, ConnectedEvent, DisconnectEvent, ServiceEvent StopEvent]"

theorem client_dispatcher_safe_witness:
  "\<forall>pb. case client_process (test_conn_env pb) test_conn_events (client_New 0 5 idle_service (\<lambda>_. \<lparr>ccap = 3, csent = [], cclosed = False\<rparr>)) of
      Ret (ed, rs) \<Rightarrow> mset (connsClosed ed) + (case connection ed of None \<Rightarrow> {#} | Some c \<Rightarrow> {#c#}) = mset [0..<connsOpened ed] \<and>
        distinct (monitorsClosed ed) \<and> disp_inv [] (esd ed)
    | GoPanic p \<Rightarrow> False | Blocked \<Rightarrow> True"
  by (intro allI client_dispatcher_safe)
    (simp_all add: test_conn_events_def idle_service_inv event_chans_def)

end
