(* ===== verification/EventConnection.thy ===== *)
theory EventConnection
  imports EventClient
begin

text \<open>
  The connection of an event client: \<^verbatim>\<open>pkg/fab/events/client/client.go\<close>. The connection state is a word that
  several Go routines change by compare-and-swap: callers of \<open>Connect\<close>, the connection monitor, \<open>reconnect\<close> and
  \<open>Close\<close>. An operation is a function of the client and of a script of what it meets: the answers of the
  dispatcher and of the hooks, and, in \<open>others\<close>, what the other routines do to the state at each point
  where the operation can be interrupted.
\<close>

datatype ConnectionState = Disconnected | Connecting | ConnectedState

record Client =
  connectionState :: ConnectionState
  stopped :: bool
  registeredOnce :: bool
  connEvent :: "nat option"
  monitors :: nat

record script =
  submitConnect :: "string option"
  connectReply :: "error option"
  registerReply :: "error + nat"
  afterConnect :: "error option option"
  others :: "nat \<Rightarrow> ConnectionState \<Rightarrow> ConnectionState"

definition setConnectionState :: "ConnectionState \<Rightarrow> ConnectionState \<Rightarrow> Client \<Rightarrow> bool \<times> Client" where
  "setConnectionState currentState newState c =
     (if connectionState c = currentState then (True, c\<lparr>connectionState := newState\<rparr>) else (False, c))"

definition mustSetConnectionState :: "ConnectionState \<Rightarrow> Client \<Rightarrow> Client" where
  "mustSetConnectionState newState c = c\<lparr>connectionState := newState\<rparr>"

definition setStopped :: "Client \<Rightarrow> bool \<times> Client" where
  "setStopped c = (if stopped c then (False, c) else (True, c\<lparr>stopped := True\<rparr>))"

definition stateString :: "ConnectionState \<Rightarrow> string" where
  "stateString s = (case s of Disconnected \<Rightarrow> ''Disconnected'' | ConnectedState \<Rightarrow> ''Connected'' | Connecting \<Rightarrow> ''Connecting'')"

abbreviation meanwhile :: "script \<Rightarrow> nat \<Rightarrow> Client \<Rightarrow> Client" where
  "meanwhile sc k c \<equiv> c\<lparr>connectionState := others sc k (connectionState c)\<rparr>"

text \<open>The registration for connection events, done once. The code tests the error of the connection (which is
  nil here) in place of the error of the registration, so a failed registration leaves a monitor that listens
  to a nil channel.\<close>

definition registerMonitor :: "script \<Rightarrow> Client \<Rightarrow> Client" where
  "registerMonitor sc c =
     (if registeredOnce c then c
      else c\<lparr>registeredOnce := True, connEvent := (case registerReply sc of Inr ch \<Rightarrow> Some ch | Inl _ \<Rightarrow> None), monitors := Suc (monitors c)\<rparr>)"

definition connect :: "script \<Rightarrow> Client \<Rightarrow> error option \<times> Client" where
  "connect sc c =
     (if stopped c then (Some (ErrNew ''event client is closed''), c)
      else
        (case setConnectionState Disconnected Connecting (meanwhile sc 0 c) of
           (False, c1) \<Rightarrow> (Some (ErrNew (''unable to connect event client since client is ['' @ stateString (connectionState c1) @
                '']. Expecting client to be in state [Disconnected]'')), c1)
         | (True, c1) \<Rightarrow>
            (case submitConnect sc of
               Some text \<Rightarrow> (Some (ErrNew (''Submit failed '' @ text)), c1)
             | None \<Rightarrow>
                let c2 = meanwhile sc 1 c1 in
                (case connectReply sc of
                   Some e \<Rightarrow> (Some e, mustSetConnectionState Disconnected c2)
                 | None \<Rightarrow>
                    let c3 = meanwhile sc 2 (registerMonitor sc c2) in
                    (case afterConnect sc of
                       Some (Some e) \<Rightarrow>
                         (Some (ErrWithMessage ''error invoking afterConnect handler'' e),
                          snd (setConnectionState Connecting Disconnected c3))
                     | _ \<Rightarrow> (None, snd (setConnectionState Connecting ConnectedState c3)))))))"

text \<open>The loop of \<open>connectWithRetry\<close>; attempt number \<open>k\<close> meets the script \<open>scs k\<close>. Besides the error it
  gives the number of attempts. It can go on for ever when \<open>maxAttempts\<close> is 0.\<close>

partial_function (option) connectLoop ::
  "(nat \<Rightarrow> script) \<Rightarrow> (nat \<Rightarrow> bool) \<Rightarrow> nat \<Rightarrow> nat \<Rightarrow> Client \<Rightarrow> (error option \<times> nat \<times> Client) option" where
  "connectLoop scs closedBefore maxAttempts attempts c0 =
     (let c = c0\<lparr>stopped := stopped c0 \<or> closedBefore attempts\<rparr> in
      if stopped c then Some (Some (ErrNew ''event client is closed''), attempts, c)
      else case connect (scs attempts) c of
        (None, c1) \<Rightarrow> Some (None, Suc attempts, c1)
      | (Some e, c1) \<Rightarrow>
          if maxAttempts > 0 \<and> Suc attempts \<ge> maxAttempts
          then Some (Some (ErrNew ''maximum connect attempts exceeded''), Suc attempts, c1)
          else connectLoop scs closedBefore maxAttempts (Suc attempts) c1)"

definition connectWithRetry ::
  "(nat \<Rightarrow> script) \<Rightarrow> (nat \<Rightarrow> bool) \<Rightarrow> nat \<Rightarrow> Client \<Rightarrow> (error option \<times> nat \<times> Client) option" where
  "connectWithRetry scs closedBefore maxAttempts c =
     (if stopped c then Some (Some (ErrNew ''event client is closed''), 0, c)
      else connectLoop scs closedBefore maxAttempts 0 c)"

definition Connect ::
  "(nat \<Rightarrow> script) \<Rightarrow> (nat \<Rightarrow> bool) \<Rightarrow> nat \<Rightarrow> Client \<Rightarrow> (error option \<times> nat \<times> Client) option" where
  "Connect scs closedBefore maxConnAttempts c =
     (if maxConnAttempts = 1 then (case connect (scs 0) c of (e, c1) \<Rightarrow> Some (e, 1, c1))
      else connectWithRetry scs closedBefore maxConnAttempts c)"

text \<open>\<open>close\<close>: whether the disconnect event could be submitted decides whether the stop handler runs (the
  flag returned) and the state is reset.\<close>

definition client_close :: "error option \<Rightarrow> Client \<Rightarrow> bool \<times> Client" where
  "client_close submitDisconnect c =
     (case setStopped c of
        (False, c1) \<Rightarrow> (False, c1)
      | (True, c1) \<Rightarrow>
          (case submitDisconnect of Some _ \<Rightarrow> (False, c1)
           | None \<Rightarrow> (True, mustSetConnectionState Disconnected c1)))"

text \<open>\<open>CloseIfIdle\<close>: the number of registrations, unless the query cannot be submitted.\<close>

definition CloseIfIdle :: "(error + nat) \<Rightarrow> error option \<Rightarrow> Client \<Rightarrow> bool \<times> Client" where
  "CloseIfIdle info submitDisconnect c =
     (case info of Inl _ \<Rightarrow> (False, c)
      | Inr n \<Rightarrow> if n > 0 then (False, c) else (True, snd (client_close submitDisconnect c)))"

text \<open>One event of the connection monitor: what it starts, and whether it goes on.\<close>

datatype monitorAction = Continue | StartReconnect | StartClose

definition monitorConnection :: "bool \<Rightarrow> ConnectionEvent \<Rightarrow> Client \<Rightarrow> monitorAction \<times> bool \<times> Client" where
  "monitorConnection reconn ev c =
     (if stopped c then (Continue, False, c)
      else if EventClient.Connected ev then (Continue, True, c)
      else if reconn then
        (case setConnectionState ConnectedState Disconnected c of
           (True, c1) \<Rightarrow>
             if (case ConnErr ev of Some (_, fatal) \<Rightarrow> fatal | None \<Rightarrow> False) then (StartClose, False, c1)
             else (StartReconnect, True, c1)
         | (False, _) \<Rightarrow> (Continue, True, snd (setConnectionState Connecting Disconnected c)))
      else (StartClose, False, c))"

text \<open>\<open>reconnect\<close>: \<open>None\<close> when the loop does not end. A failing hook ends it without connecting or closing.\<close>

definition reconnect ::
  "error option \<Rightarrow> (nat \<Rightarrow> script) \<Rightarrow> (nat \<Rightarrow> bool) \<Rightarrow> nat \<Rightarrow> error option \<Rightarrow> Client \<Rightarrow> Client option" where
  "reconnect beforeReconnect scs closedBefore maxReconnAttempts submitDisconnect c =
     (case beforeReconnect of Some _ \<Rightarrow> Some c
      | None \<Rightarrow>
         (case connectWithRetry scs closedBefore maxReconnAttempts c of
            None \<Rightarrow> None
          | Some (None, _, c1) \<Rightarrow> Some c1
          | Some (Some e, _, c1) \<Rightarrow> Some (if \<not> stopped c1 then snd (client_close submitDisconnect c1) else c1)))"

section \<open>Properties\<close>

lemma connect_result:
  assumes "\<not> stopped c" and "connectionState c = Disconnected" and "\<And>k s. others sc k s = s"
  shows "connect sc c = (e, c1) \<Longrightarrow>
    connectionState c1 = (if submitConnect sc \<noteq> None then Connecting else if e = None then ConnectedState else Disconnected)"
  using assms
  by (auto simp: connect_def setConnectionState_def mustSetConnectionState_def registerMonitor_def Let_def
      split: option.splits if_splits)

text \<open>
  Undisturbed by the other routines, \<open>connect\<close> moves a disconnected client to the connected state when it
  returns nil and back to the disconnected state when it returns an error, except when its request could
  not be submitted: then the client is left in the connecting state, in which every later \<open>connect\<close> fails.
\<close>

theorem connect_outcome:
  assumes "\<not> stopped c" and "connectionState c = Disconnected" and "\<And>k s. others sc k s = s" and "\<And>k s. others sc2 k s = s"
  shows "let (e, c1) = connect sc c in
    connectionState c1 = (if submitConnect sc \<noteq> None then Connecting else if e = None then ConnectedState else Disconnected) \<and>
    (submitConnect sc \<noteq> None) = (e \<noteq> None \<and> connectionState c1 = Connecting) \<and>
    (if submitConnect sc = None then True else fst (connect sc2 c1) \<noteq> None)"
proof -
  obtain e c1 where r: "connect sc c = (e, c1)" by fastforce
  note s = connect_result [OF assms(1-3) r]
  have "fst (connect sc2 c1) \<noteq> None" if "connectionState c1 = Connecting"
    using that assms(4) by (simp add: connect_def setConnectionState_def)
  moreover have "e \<noteq> None" if "submitConnect sc \<noteq> None"
    using that r assms(1-3) by (auto simp: connect_def setConnectionState_def split: option.splits)
  ultimately show ?thesis using r s by (auto split: if_splits)
qed

definition test_script :: "string option \<Rightarrow> script" where
  "test_script submitErr = \<lparr>submitConnect = submitErr, connectReply = None, registerReply = Inr 0, afterConnect = None,
     others = (\<lambda>k s. s)\<rparr>"

definition test_ec :: Client where
  "test_ec = \<lparr>connectionState = Disconnected, stopped = False, registeredOnce = False, connEvent = None, monitors = 0\<rparr>"

theorem connect_outcome_witness:
  "let (e, c1) = connect (test_script (Some ''stopped'')) test_ec in
    connectionState c1 = Connecting \<and> fst (connect (test_script None) c1) \<noteq> None"
  using connect_outcome [of test_ec "test_script (Some ''stopped'')" "test_script None"]
  by (auto simp: test_ec_def test_script_def)

text \<open>
  Connecting with a bounded number of attempts ends: \<open>connectWithRetry\<close> returns after at most
  \<open>maxAttempts\<close> attempts whatever happens in them, and it reports success only when its last attempt
  connected.
\<close>

theorem connectWithRetry_terminates:
  assumes "0 < maxAttempts"
  shows "\<exists>e n c1. connectWithRetry scs closedBefore maxAttempts c = Some (e, n, c1) \<and> n \<le> maxAttempts \<and>
    (e = None \<longrightarrow> (\<exists>c0. 0 < n \<and> connect (scs (n - 1)) c0 = (None, c1)))"
proof -
  have "\<exists>e n c1. connectLoop scs closedBefore maxAttempts k c = Some (e, n, c1) \<and> n \<le> maxAttempts \<and>
      (e = None \<longrightarrow> (\<exists>c0. 0 < n \<and> connect (scs (n - 1)) c0 = (None, c1)))" if "k < maxAttempts" for k c
    using that
  proof (induction "maxAttempts - k" arbitrary: k c)
    case 0
    then show ?case by simp
  next
    case (Suc d)
    let ?c = "c\<lparr>stopped := stopped c \<or> closedBefore k\<rparr>"
    obtain e c1 where r: "connect (scs k) ?c = (e, c1)" by fastforce
    show ?case
    proof (cases "e = None \<or> stopped ?c \<or> Suc k \<ge> maxAttempts")
      case True
      with r Suc.prems show ?thesis by (subst connectLoop.simps) (cases e; auto simp: Let_def)
    next
      case False
      have "d = maxAttempts - Suc k" using Suc.hyps(2) by simp
      from Suc.hyps(1) [OF this, of c1] False obtain e' n c2 where
        "connectLoop scs closedBefore maxAttempts (Suc k) c1 = Some (e', n, c2)" "n \<le> maxAttempts"
        "e' = None \<longrightarrow> (\<exists>c0. 0 < n \<and> connect (scs (n - 1)) c0 = (None, c2))" by auto
      with False r show ?thesis by (subst connectLoop.simps) (auto simp: Let_def)
    qed
  qed
  from this [of 0 c] assms show ?thesis by (auto simp: connectWithRetry_def)
qed

theorem connectWithRetry_terminates_witness:
  "\<exists>e n c1. connectWithRetry (\<lambda>_. test_script (Some ''stopped'')) (\<lambda>_. False) 3 test_ec = Some (e, n, c1) \<and> n \<le> 3 \<and>
    (e = None \<longrightarrow> (\<exists>c0. 0 < n \<and> connect (test_script (Some ''stopped'')) c0 = (None, c1)))"
  by (rule connectWithRetry_terminates) simp

text \<open>The monitor can disturb a connect that is about to finish: it finds the state connecting, assumes that
  a reconnect is under way and starts none, while \<open>connect\<close> goes on to return nil. The client is then
  disconnected, not stopped, and no routine is left that reconnects it.\<close>

lemma lost_reconnect:
  assumes "monitorConnection True (ConnectionEvent False (Some (err, fatal)))
      (test_ec\<lparr>connectionState := Connecting\<rparr>) = (a, goesOn, c')"
  shows "a = Continue" "goesOn"
    "\<exists>c1. connect ((test_script None)\<lparr>others := (\<lambda>k s. if k = 2 then connectionState c' else s)\<rparr>) test_ec = (None, c1) \<and>
       connectionState c1 = Disconnected \<and> \<not> stopped c1"
  using assms
  by (auto simp: monitorConnection_def setConnectionState_def test_ec_def test_script_def connect_def registerMonitor_def Let_def)

end
