(* ===== verification/LazyRef.thy ===== *)
theory LazyRef
  imports Status
begin

text \<open>
  Lazy references: \<^verbatim>\<open>pkg/util/concurrent/lazyref\<close>. A reference holds a value that is initialized on first
  access and, if it expires, is finalized and reset, or refreshed, by a timer routine. The steps of the
  transition system are the atomic actions and critical sections of the callers of \<open>Get\<close>, of the timer and of
  \<open>Close\<close>; values are numbered in the order in which initializers produce them.
\<close>

datatype ExpirationType = LastAccessed | LastInitialized | Refreshing

record ref_params =
  expiring :: bool
  expiryType :: ExpirationType
  hasFinalizer :: bool

text \<open>\<open>Close\<close> after each of its stages: not called, flag set, timer notified, timer ended, value finalized.\<close>

datatype closer = NotClosed | FlagSet | Notified | TimerEnded | Finalized

record Reference =
  ref :: "nat option"
  refClosed :: closer
  running :: bool
  closech :: bool
  timersToStart :: nat
  passedCheck :: nat
  produced :: nat
  finalized :: "nat list"

definition ref_New :: Reference where
  "ref_New = \<lparr>ref = None, refClosed = NotClosed, running = False, closech = False, timersToStart = 0,
     passedCheck = 0, produced = 0, finalized = []\<rparr>"

definition IsClosed :: "Reference \<Rightarrow> bool" where
  "IsClosed r \<longleftrightarrow> refClosed r \<noteq> NotClosed"

text \<open>The initializer of an expiring reference starts the timer, in a routine of its own.\<close>

definition setNew :: "ref_params \<Rightarrow> Reference \<Rightarrow> Reference" where
  "setNew p r = r\<lparr>ref := Some (produced r), produced := Suc (produced r),
     timersToStart := (if expiring p \<and> \<not> running r then Suc (timersToStart r) else timersToStart r)\<rparr>"

definition finalizeValue :: "ref_params \<Rightarrow> Reference \<Rightarrow> Reference" where
  "finalizeValue p r = (case ref r of Some v \<Rightarrow> if hasFinalizer p then r\<lparr>finalized := finalized r @ [v]\<rparr> else r | None \<Rightarrow> r)"

definition resetValue :: "ref_params \<Rightarrow> Reference \<Rightarrow> Reference" where
  "resetValue p r = (finalizeValue p r)\<lparr>ref := None\<rparr>"

text \<open>\<open>Get\<close>: the check of the closed flag, the access without the lock, which changes nothing, and the access
  under the lock, where the value is set if there is none and the initializer succeeds.\<close>

inductive ref_get_step :: "ref_params \<Rightarrow> Reference \<Rightarrow> Reference \<Rightarrow> bool" for p :: ref_params where
  check: "\<not> IsClosed r \<Longrightarrow> ref_get_step p r (r\<lparr>passedCheck := Suc (passedCheck r)\<rparr>)"
| present: "passedCheck r = Suc n \<Longrightarrow> ref r = Some v \<Longrightarrow> ref_get_step p r (r\<lparr>passedCheck := n\<rparr>)"
| init_ok: "passedCheck r = Suc n \<Longrightarrow> ref r = None \<Longrightarrow> ref_get_step p r (setNew p (r\<lparr>passedCheck := n\<rparr>))"
| init_fails: "passedCheck r = Suc n \<Longrightarrow> ref r = None \<Longrightarrow> ref_get_step p r (r\<lparr>passedCheck := n\<rparr>)"

text \<open>The timer routine: \<open>setTimerRunning\<close>, an expiration of the value, a refresh, and the end when \<open>Close\<close> has
  notified it. (Whether the value was accessed lately decides only when it expires.)\<close>

inductive ref_timer_step :: "ref_params \<Rightarrow> Reference \<Rightarrow> Reference \<Rightarrow> bool" for p :: ref_params where
  initial_timer: "expiring p \<Longrightarrow> produced r = 0 \<Longrightarrow> \<not> running r \<Longrightarrow> ref_timer_step p r (r\<lparr>timersToStart := Suc (timersToStart r)\<rparr>)"
| timer_start: "timersToStart r = Suc n \<Longrightarrow> \<not> running r \<Longrightarrow> \<not> IsClosed r \<Longrightarrow>
    ref_timer_step p r (r\<lparr>timersToStart := n, running := True\<rparr>)"
| timer_not_needed: "timersToStart r = Suc n \<Longrightarrow> running r \<or> IsClosed r \<Longrightarrow> ref_timer_step p r (r\<lparr>timersToStart := n\<rparr>)"
| expire: "running r \<Longrightarrow> ref r = Some v \<Longrightarrow> expiryType p \<noteq> Refreshing \<Longrightarrow> ref_timer_step p r (resetValue p r)"
| refresh: "running r \<Longrightarrow> expiryType p = Refreshing \<Longrightarrow> ref_timer_step p r (setNew p r)"
| timer_end: "running r \<Longrightarrow> closech r \<Longrightarrow> ref_timer_step p r (r\<lparr>running := False, closech := False\<rparr>)"

inductive ref_close_step :: "ref_params \<Rightarrow> Reference \<Rightarrow> Reference \<Rightarrow> bool" for p :: ref_params where
  set_closed: "\<not> IsClosed r \<Longrightarrow> ref_close_step p r (r\<lparr>refClosed := FlagSet\<rparr>)"
| notify: "refClosed r = FlagSet \<Longrightarrow> ref_close_step p r (r\<lparr>refClosed := Notified, closech := (if running r then True else closech r)\<rparr>)"
| wait: "refClosed r = Notified \<Longrightarrow> \<not> running r \<Longrightarrow> ref_close_step p r (r\<lparr>refClosed := TimerEnded\<rparr>)"
| finalize: "refClosed r = TimerEnded \<Longrightarrow> ref_close_step p r ((finalizeValue p r)\<lparr>refClosed := Finalized\<rparr>)"

inductive ref_reach :: "ref_params \<Rightarrow> Reference \<Rightarrow> Reference \<Rightarrow> bool" for p :: ref_params where
  ref_refl: "ref_reach p r r"
| ref_step: "ref_reach p r r1 \<Longrightarrow> ref_get_step p r1 r2 \<or> ref_timer_step p r1 r2 \<or> ref_close_step p r1 r2 \<Longrightarrow> ref_reach p r r2"

section \<open>The invariant\<close>

text \<open>No value is finalized twice: the current value is not finalized before \<open>Close\<close> is through, and then
  there is no timer to finalize it again.\<close>

definition ref_inv :: "Reference \<Rightarrow> bool" where
  "ref_inv r \<longleftrightarrow> distinct (finalized r) \<and> list_all (\<lambda>v. v < produced r) (finalized r) \<and>
     (\<forall>v. ref r = Some v \<longrightarrow> v < produced r \<and> (refClosed r \<noteq> Finalized \<longrightarrow> v \<notin> set (finalized r))) \<and>
     (refClosed r \<in> {TimerEnded, Finalized} \<longrightarrow> \<not> running r) \<and> (running r \<longrightarrow> refClosed r = Notified \<longrightarrow> closech r) \<and>
     (closech r \<longrightarrow> running r)"

lemma ref_inv_get: "ref_get_step p r r1 \<Longrightarrow> ref_inv r \<Longrightarrow> ref_inv r1"
  by (induction rule: ref_get_step.induct)
    (auto simp: ref_inv_def setNew_def list_all_iff less_Suc_eq)

lemma ref_inv_timer: "ref_timer_step p r r1 \<Longrightarrow> ref_inv r \<Longrightarrow> ref_inv r1"
  by (induction rule: ref_timer_step.induct)
    (auto simp: ref_inv_def setNew_def resetValue_def finalizeValue_def IsClosed_def list_all_iff less_Suc_eq)

lemma ref_inv_close: "ref_close_step p r r1 \<Longrightarrow> ref_inv r \<Longrightarrow> ref_inv r1"
  by (induction rule: ref_close_step.induct)
    (auto simp: ref_inv_def finalizeValue_def IsClosed_def split: option.split)

lemma ref_reach_inv: "ref_reach p ref_New r \<Longrightarrow> ref_inv r"
proof (induction "ref_New" r rule: ref_reach.induct)
  case ref_refl
  show ?case by (simp add: ref_inv_def ref_New_def)
next
  case (ref_step r1 r2)
  then show ?case using ref_inv_get ref_inv_timer ref_inv_close by blast
qed

lemma reach_close: "ref_close_step p r0 r1 \<Longrightarrow> ref_reach p r r0 \<Longrightarrow> ref_reach p r r1"
  by (blast intro: ref_step)

lemma reach_timer: "ref_timer_step p r0 r1 \<Longrightarrow> ref_reach p r r0 \<Longrightarrow> ref_reach p r r1"
  by (blast intro: ref_step)

section \<open>Properties\<close>

text \<open>
  C38. A finalizer never runs twice for a value. In every interleaving of callers, timer and \<open>Close\<close> each value
  an initializer produced is finalized at most once; only values that were produced are finalized.
\<close>

theorem lazyref_finalized_once:
  assumes "ref_reach p ref_New r"
  shows "distinct (finalized r) \<and> list_all (\<lambda>v. v < produced r) (finalized r)"
  using ref_reach_inv [OF assms] by (simp add: ref_inv_def)

text \<open>
  \<open>Close\<close> always comes to its end: whenever the closed flag is set, there are steps of the timer and of
  \<open>Close\<close> alone after which the timer has ended and \<open>Close\<close> has finalized the value.
\<close>

theorem lazyref_close_completes:
  assumes "ref_reach p ref_New r" and "IsClosed r"
  shows "\<exists>r1. ref_reach p r r1 \<and> refClosed r1 = Finalized \<and> \<not> running r1"
proof -
  have inv: "ref_inv r" by (rule ref_reach_inv [OF assms(1)])
  have fin: "\<exists>r1. ref_reach p r r1 \<and> refClosed r1 = Finalized \<and> \<not> running r1"
    if "ref_reach p r r0" "refClosed r0 = TimerEnded" "\<not> running r0" for r0
  proof (intro exI conjI)
    show "ref_reach p r ((finalizeValue p r0)\<lparr>refClosed := Finalized\<rparr>)"
      by (rule reach_close [OF finalize [OF that(2)] that(1)])
  qed (use that(3) in \<open>simp_all add: finalizeValue_def split: option.splits\<close>)
  have ended: "\<exists>r1. ref_reach p r r1 \<and> refClosed r1 = Finalized \<and> \<not> running r1"
    if "ref_reach p r r0" "refClosed r0 = Notified" "\<not> running r0" for r0
    by (rule fin [OF reach_close [OF wait [OF that(2,3)] that(1)]]) (use that in simp_all)
  have notified: "\<exists>r1. ref_reach p r r1 \<and> refClosed r1 = Finalized \<and> \<not> running r1"
    if "ref_reach p r r0" "refClosed r0 = Notified" "running r0 \<longrightarrow> closech r0" for r0
  proof (cases "running r0")
    case True
    with that(3) have "closech r0" by simp
    show ?thesis
      by (rule ended [OF reach_timer [OF timer_end [OF True \<open>closech r0\<close>] that(1)]]) (use that in simp_all)
  qed (use ended that in blast)
  show ?thesis
  proof (cases "refClosed r")
    case FlagSet
    show ?thesis by (rule notified [OF reach_close [OF notify [OF FlagSet] ref_refl]]) simp_all
  next
    case Notified
    with inv notified [OF ref_refl] show ?thesis by (simp add: ref_inv_def)
  next
    case TimerEnded
    with inv fin [OF ref_refl] show ?thesis by (simp add: ref_inv_def)
  next
    case Finalized
    with inv ref_refl show ?thesis by (force simp: ref_inv_def)
  qed (use assms(2) in \<open>simp add: IsClosed_def\<close>)
qed

text \<open>A value that is set, expires and is set again while the reference is being closed.\<close>

definition run_ref :: Reference where
  "run_ref = \<lparr>ref = Some 0, refClosed = FlagSet, running = True, closech = False, timersToStart = 0,
     passedCheck = 0, produced = 1, finalized = []\<rparr>"

definition expiring_ref :: ref_params where
  "expiring_ref = \<lparr>expiring = True, expiryType = LastAccessed, hasFinalizer = True\<rparr>"

lemma run_ref_reach: "ref_reach expiring_ref ref_New run_ref"
proof -
  let ?a = "ref_New\<lparr>passedCheck := Suc (passedCheck ref_New)\<rparr>"
  let ?b = "setNew expiring_ref (?a\<lparr>passedCheck := 0\<rparr>)"
  let ?c = "?b\<lparr>timersToStart := 0, running := True\<rparr>"
  have "ref_reach expiring_ref ref_New ?a"
    by (rule ref_step [OF ref_refl], intro disjI1 check) (simp add: ref_New_def IsClosed_def)
  then have "ref_reach expiring_ref ref_New ?b"
    by (rule ref_step, intro disjI1 init_ok) (simp_all add: ref_New_def)
  then have "ref_reach expiring_ref ref_New ?c"
    by (rule ref_step, intro disjI2 disjI1 timer_start) (simp_all add: ref_New_def setNew_def expiring_ref_def IsClosed_def)
  then have "ref_reach expiring_ref ref_New (?c\<lparr>refClosed := FlagSet\<rparr>)"
    by (rule ref_step, intro disjI2 set_closed) (simp add: ref_New_def setNew_def IsClosed_def)
  then show ?thesis by (simp add: run_ref_def ref_New_def setNew_def expiring_ref_def)
qed

theorem lazyref_finalized_once_witness:
  "distinct (finalized run_ref) \<and> list_all (\<lambda>v. v < produced run_ref) (finalized run_ref)"
  by (rule lazyref_finalized_once [OF run_ref_reach])

theorem lazyref_close_completes_witness:
  "\<exists>r1. ref_reach expiring_ref run_ref r1 \<and> refClosed r1 = Finalized \<and> \<not> running r1"
  by (rule lazyref_close_completes [OF run_ref_reach]) (simp add: run_ref_def IsClosed_def)

text \<open>The closed flag is only read before the lock is taken: a caller that passed the check can initialize the
  reference after \<open>Close\<close> is through, and that value is never finalized.\<close>

lemma value_after_close:
  assumes "refClosed r = Finalized" "passedCheck r = Suc n" "ref r = None"
  shows "\<exists>r1 v. ref_get_step p r r1 \<and> ref r1 = Some v \<and> refClosed r1 = Finalized \<and> finalized r1 = finalized r"
  by (intro exI [of _ "setNew p (r\<lparr>passedCheck := n\<rparr>)"] exI [of _ "produced r"])
    (use init_ok [OF assms(2,3), of p] assms(1) in \<open>simp add: setNew_def\<close>)

end
