(* ===== verification/LazyCache.thy ===== *)
theory LazyCache
  imports LazyRef
begin

text \<open>
  The concurrent lazy cache: \<^verbatim>\<open>pkg/util/concurrent/lazycache\<close> over \<^verbatim>\<open>futurevalue\<close> and \<^verbatim>\<open>lazyref\<close>. Any number
  of Go routines call \<open>Get\<close>, \<open>Delete\<close>, \<open>DeleteAll\<close> and \<open>Close\<close>; their atomic actions (an operation of the \<open>sync.Map\<close>, of the
  closed flag, of a future or of a reference) are the steps of a transition system, so every interleaving is a run of it.
  A cache with reference options (\<open>useRef\<close>) keeps a lazy reference per entry, a \<open>Reference\<close> of \<open>LazyRef\<close>, whose timer
  takes steps of its own. The initializer is a parameter: the set of the results it may have for a key.
\<close>

section \<open>Future values\<close>

text \<open>A future is created locked; \<open>Initialize\<close> stores the result and unlocks it, and \<open>Get\<close> waits for the
  lock, so it has no result (\<open>None\<close>) before.\<close>

datatype 'v future = Pending | Initialised "error + 'v"

definition future_New :: "'v future" where
  "future_New = Pending"

definition future_Initialize :: "error + 'v \<Rightarrow> 'v future" where
  "future_Initialize r = Initialised r"

definition future_Get :: "'v future \<Rightarrow> (error + 'v) option" where
  "future_Get f = (case f of Pending \<Rightarrow> None | Initialised r \<Rightarrow> Some r)"

definition future_IsSet :: "'v future \<Rightarrow> bool" where
  "future_IsSet f = (case f of Pending \<Rightarrow> False | Initialised _ \<Rightarrow> True)"

section \<open>The state\<close>

text \<open>The value of a future is the value of the initializer or, in a cache with references, the reference that
  belongs to the future.\<close>

datatype 'v entry = Plain 'v | RefTo

text \<open>What follows the \<open>Close\<close> of a reference: the failure of the initializer that made it, the deletion of keys, or the rest of a
  \<open>Range\<close>.\<close>

datatype cont = ThenFail string error | ThenDelete "string list" | ThenRange "string list"

text \<open>Where a routine is. \<open>Load k\<close>: \<open>Get\<close> has been called. \<open>LoadOrStore k\<close>: the key was not found.
  \<open>Init k f\<close>: its own future was stored. \<open>Running k f\<close>: the cache was not closed and the initializer runs.
  \<open>RefCall k f b\<close>: \<open>Get\<close> of the reference has been called, by the initializer (\<open>b\<close>) or for the value of the entry; \<open>RefGet k f b\<close>: it was
  not closed. \<open>CloseRef f c\<close>: \<open>Close\<close> of the reference has been called; \<open>ClosingRef f c\<close>: it has set the closed flag.
  \<open>RefFail k f e\<close>: the initializer has closed the reference it made. \<open>Clean k e\<close>: the initializer failed and the key is to be
  deleted. \<open>Waiting k f\<close>: waiting for the future of
  another routine. \<open>DeleteKeys ks\<close>: the values of these keys were closed and the keys are to be deleted;
  \<open>Range ks\<close>: inside the \<open>Range\<close> of \<open>DeleteAll\<close>, with the keys visited.\<close>

datatype 'v pc =
    Idle
  | Load string
  | LoadOrStore string
  | Init string nat
  | Running string nat
  | RefCall string nat bool
  | RefGet string nat bool
  | CloseRef nat cont
  | ClosingRef nat cont
  | RefFail string nat error
  | Clean string error
  | Waiting string nat
  | Returned string "error + 'v"
  | DeleteCalled string
  | CloseCalled
  | Range "string list"
  | DeleteKeys "string list"

text \<open>A reference is kept with the values its initializer has produced, in their order. \<open>inits\<close> records the calls of the cache's
  initializer, by future, \<open>removals\<close> counts the deletions of a key that was
  there, and \<open>closedVals\<close> records the calls of \<open>Close\<close> on values.\<close>

record 'v cache =
  useRef :: bool
  m :: "string \<rightharpoonup> nat"
  futures :: "nat \<rightharpoonup> string \<times> 'v entry future"
  refs :: "nat \<rightharpoonup> Reference \<times> 'v list"
  cacheClosed :: bool
  thr :: "nat \<Rightarrow> 'v pc"
  inits :: "nat list"
  removals :: "string \<Rightarrow> nat"
  closedVals :: "nat list"

text \<open>The argument is the answer of \<open>useLazyRef\<close>: whether an option of a lazy reference was given.\<close>

definition cache_New :: "bool \<Rightarrow> 'v cache" where
  "cache_New withRef = \<lparr>useRef = withRef, m = Map.empty, futures = Map.empty, refs = Map.empty, cacheClosed = False,
     thr = (\<lambda>_. Idle), inits = [], removals = (\<lambda>_. 0), closedVals = []\<rparr>"

definition goto :: "nat \<Rightarrow> 'v pc \<Rightarrow> 'v cache \<Rightarrow> 'v cache" where
  "goto t p s = s\<lparr>thr := (thr s)(t := p)\<rparr>"

definition deleteKey :: "string \<Rightarrow> 'v cache \<Rightarrow> 'v cache" where
  "deleteKey k s = (case m s k of None \<Rightarrow> s
     | Some _ \<Rightarrow> s\<lparr>m := (m s)(k := None), removals := (removals s)(k := Suc (removals s k))\<rparr>)"

definition storeFuture :: "string \<Rightarrow> nat \<Rightarrow> 'v cache \<Rightarrow> 'v cache" where
  "storeFuture k f s = s\<lparr>m := (m s)(k \<mapsto> f), futures := (futures s)(f \<mapsto> (k, future_New))\<rparr>"

definition initialize :: "string \<Rightarrow> nat \<Rightarrow> error + 'v entry \<Rightarrow> 'v cache \<Rightarrow> 'v cache" where
  "initialize k f r s = s\<lparr>futures := (futures s)(f \<mapsto> (k, future_Initialize r))\<rparr>"

definition setRef :: "nat \<Rightarrow> Reference \<times> 'v list \<Rightarrow> 'v cache \<Rightarrow> 'v cache" where
  "setRef f r s = s\<lparr>refs := (refs s)(f \<mapsto> r)\<rparr>"

fun resume :: "nat \<Rightarrow> cont \<Rightarrow> 'v pc" where
  "resume f (ThenFail k e) = RefFail k f e"
| "resume f (ThenDelete ks) = DeleteKeys ks"
| "resume f (ThenRange ks) = Range ks"

text \<open>\<open>close\<close> of an entry: a value that was initialized without error and can be closed is closed; a reference can.\<close>

definition closeEntry :: "('v \<Rightarrow> bool) \<Rightarrow> nat \<Rightarrow> nat \<Rightarrow> cont \<Rightarrow> 'v cache \<Rightarrow> 'v cache" where
  "closeEntry closable t f c s =
     (case futures s f of
        Some (_, Initialised (Inr (Plain v))) \<Rightarrow>
          goto t (resume f c) (if closable v then s\<lparr>closedVals := closedVals s @ [f]\<rparr> else s)
      | Some (_, Initialised (Inr RefTo)) \<Rightarrow> goto t (CloseRef f c) (s\<lparr>closedVals := closedVals s @ [f]\<rparr>)
      | _ \<Rightarrow> goto t (resume f c) s)"

text \<open>What a routine does with the result of \<open>Get\<close> of a reference. The initializer of \<open>newLazyRefInitializer\<close> returns the reference, for which
  \<open>Get\<close> is then called again for the value, or it closes the reference and fails.\<close>

definition refDone :: "nat \<Rightarrow> string \<Rightarrow> nat \<Rightarrow> bool \<Rightarrow> error + 'v \<Rightarrow> 'v cache \<Rightarrow> 'v cache" where
  "refDone t k f byInitializer r s =
     (if \<not> byInitializer then goto t (Returned k r) s
      else (case r of
          Inr _ \<Rightarrow> goto t (RefCall k f False) (initialize k f (Inr RefTo) s)
        | Inl e \<Rightarrow> goto t (CloseRef f (ThenFail k e)) s))"

section \<open>The steps\<close>

inductive get_step :: "ref_params \<Rightarrow> (string \<Rightarrow> (error + 'v) set) \<Rightarrow> nat \<Rightarrow> 'v cache \<Rightarrow> 'v cache \<Rightarrow> bool"
  for p :: ref_params and ini :: "string \<Rightarrow> (error + 'v) set" and t :: nat where
  call: "thr s t \<in> {Idle} \<union> {Returned k' r' |k' r'. True} \<Longrightarrow> get_step p ini t s (goto t (Load k) s)"
| load_hit: "thr s t = Load k \<Longrightarrow> m s k = Some f \<Longrightarrow> get_step p ini t s (goto t (Waiting k f) s)"
| load_miss: "thr s t = Load k \<Longrightarrow> m s k = None \<Longrightarrow> get_step p ini t s (goto t (LoadOrStore k) s)"
| loaded: "thr s t = LoadOrStore k \<Longrightarrow> m s k = Some f \<Longrightarrow> get_step p ini t s (goto t (Waiting k f) s)"
| stored: "thr s t = LoadOrStore k \<Longrightarrow> m s k = None \<Longrightarrow> futures s f = None \<Longrightarrow>
    get_step p ini t s (goto t (Init k f) (storeFuture k f s))"
| start: "thr s t = Init k f \<Longrightarrow> \<not> cacheClosed s \<Longrightarrow>
    get_step p ini t s (goto t (Running k f) (s\<lparr>inits := inits s @ [f]\<rparr>))"
| refused: "thr s t = Init k f \<Longrightarrow> cacheClosed s \<Longrightarrow>
    get_step p ini t s (goto t (Clean k (ErrNew ''cache is closed'')) (initialize k f (Inl (ErrNew ''cache is closed'')) s))"
| success: "thr s t = Running k f \<Longrightarrow> \<not> useRef s \<Longrightarrow> Inr v \<in> ini k \<Longrightarrow>
    get_step p ini t s (goto t (Returned k (Inr v)) (initialize k f (Inr (Plain v)) s))"
| failure: "thr s t = Running k f \<Longrightarrow> \<not> useRef s \<Longrightarrow> Inl e \<in> ini k \<Longrightarrow>
    get_step p ini t s (goto t (Clean k e) (initialize k f (Inl e) s))"
| new_ref: "thr s t = Running k f \<Longrightarrow> useRef s \<Longrightarrow>
    get_step p ini t s (goto t (RefCall k f True) (setRef f (ref_New, []) s))"
| ref_open: "thr s t = RefCall k f b \<Longrightarrow> refs s f = Some (r, vs) \<Longrightarrow> \<not> IsClosed r \<Longrightarrow> get_step p ini t s (goto t (RefGet k f b) s)"
| ref_closed: "thr s t = RefCall k f b \<Longrightarrow> refs s f = Some (r, vs) \<Longrightarrow> IsClosed r \<Longrightarrow>
    get_step p ini t s (refDone t k f b (Inl (ErrNew ''reference is already closed'')) s)"
| ref_present: "thr s t = RefGet k f b \<Longrightarrow> refs s f = Some (r, vs) \<Longrightarrow> ref r = Some n \<Longrightarrow>
    get_step p ini t s (refDone t k f b (Inr (vs ! n)) s)"
| ref_init: "thr s t = RefGet k f b \<Longrightarrow> refs s f = Some (r, vs) \<Longrightarrow> ref r = None \<Longrightarrow> Inr v \<in> ini k \<Longrightarrow>
    get_step p ini t s (refDone t k f b (Inr v) (setRef f (setNew p r, vs @ [v]) s))"
| ref_fails: "thr s t = RefGet k f b \<Longrightarrow> refs s f = Some (r, vs) \<Longrightarrow> ref r = None \<Longrightarrow> Inl e \<in> ini k \<Longrightarrow>
    get_step p ini t s (refDone t k f b (Inl e) s)"
| ref_failed: "thr s t = RefFail k f e \<Longrightarrow> get_step p ini t s (goto t (Clean k e) (initialize k f (Inl e) s))"
| clean: "thr s t = Clean k e \<Longrightarrow> get_step p ini t s (goto t (Returned k (Inl e)) (deleteKey k s))"
| got_error: "thr s t = Waiting k f \<Longrightarrow> futures s f = Some (k', ft) \<Longrightarrow> future_Get ft = Some (Inl e) \<Longrightarrow>
    get_step p ini t s (goto t (Returned k (Inl e)) s)"
| got_plain: "thr s t = Waiting k f \<Longrightarrow> futures s f = Some (k', ft) \<Longrightarrow> future_Get ft = Some (Inr (Plain v)) \<Longrightarrow>
    get_step p ini t s (goto t (Returned k (Inr v)) s)"
| got_ref: "thr s t = Waiting k f \<Longrightarrow> futures s f = Some (k', ft) \<Longrightarrow> future_Get ft = Some (Inr RefTo) \<Longrightarrow>
    get_step p ini t s (goto t (RefCall k f False) s)"

text \<open>\<open>Range\<close> visits every key at most once, but which of the keys stored or deleted meanwhile it sees is left
  open, so it may end at any time.\<close>

inductive close_step :: "('v \<Rightarrow> bool) \<Rightarrow> nat \<Rightarrow> 'v cache \<Rightarrow> 'v cache \<Rightarrow> bool"
  for closable :: "'v \<Rightarrow> bool" and t :: nat where
  del_call: "thr s t \<in> {Idle} \<union> {Returned k' r' |k' r'. True} \<Longrightarrow> close_step closable t s (goto t (DeleteCalled k) s)"
| del_miss: "thr s t = DeleteCalled k \<Longrightarrow> m s k = None \<Longrightarrow> close_step closable t s (goto t Idle s)"
| del_hit: "thr s t = DeleteCalled k \<Longrightarrow> m s k = Some f \<Longrightarrow>
    close_step closable t s (closeEntry closable t f (ThenDelete [k]) s)"
| close_call: "thr s t \<in> {Idle} \<union> {Returned k' r' |k' r'. True} \<Longrightarrow> close_step closable t s (goto t CloseCalled s)"
| closed_before: "thr s t = CloseCalled \<Longrightarrow> cacheClosed s \<Longrightarrow> close_step closable t s (goto t Idle s)"
| closing: "thr s t = CloseCalled \<Longrightarrow> \<not> cacheClosed s \<Longrightarrow>
    close_step closable t s (goto t (Range []) (s\<lparr>cacheClosed := True\<rparr>))"
| delete_all: "thr s t \<in> {Idle} \<union> {Returned k' r' |k' r'. True} \<Longrightarrow> close_step closable t s (goto t (Range []) s)"
| visit: "thr s t = Range ks \<Longrightarrow> k \<notin> set ks \<Longrightarrow> m s k = Some f \<Longrightarrow>
    close_step closable t s (closeEntry closable t f (ThenRange (ks @ [k])) s)"
| visited: "thr s t = Range ks \<Longrightarrow> close_step closable t s (goto t (DeleteKeys ks) s)"
| delete: "thr s t = DeleteKeys (k # ks) \<Longrightarrow> close_step closable t s (goto t (DeleteKeys ks) (deleteKey k s))"
| deleted: "thr s t = DeleteKeys [] \<Longrightarrow> close_step closable t s (goto t Idle s)"

text \<open>A routine that closes a reference (\<open>Reference.Close\<close>): only the one that sets the closed flag goes on.\<close>

inductive closing_step :: "ref_params \<Rightarrow> nat \<Rightarrow> 'v cache \<Rightarrow> 'v cache \<Rightarrow> bool" for p :: ref_params and t :: nat where
  close_enter: "thr s t = CloseRef f c \<Longrightarrow> refs s f = Some (r, vs) \<Longrightarrow> \<not> IsClosed r \<Longrightarrow> ref_close_step p r r1 \<Longrightarrow>
    closing_step p t s (goto t (ClosingRef f c) (setRef f (r1, vs) s))"
| close_twice: "thr s t = CloseRef f c \<Longrightarrow> refs s f = Some (r, vs) \<Longrightarrow> IsClosed r \<Longrightarrow> closing_step p t s (goto t (resume f c) s)"
| close_next: "thr s t = ClosingRef f c \<Longrightarrow> refs s f = Some (r, vs) \<Longrightarrow> IsClosed r \<Longrightarrow> ref_close_step p r r1 \<Longrightarrow>
    closing_step p t s (setRef f (r1, vs) s)"
| close_end: "thr s t = ClosingRef f c \<Longrightarrow> refs s f = Some (r, vs) \<Longrightarrow> refClosed r = Finalized \<Longrightarrow> closing_step p t s (goto t (resume f c) s)"

text \<open>The timer of the reference of a future; a refresh calls the initializer.\<close>

inductive timer_step :: "ref_params \<Rightarrow> (string \<Rightarrow> (error + 'v) set) \<Rightarrow> nat \<Rightarrow> 'v cache \<Rightarrow> 'v cache \<Rightarrow> bool"
  for p :: ref_params and ini :: "string \<Rightarrow> (error + 'v) set" and f :: nat where
  tick: "refs s f = Some (r, vs) \<Longrightarrow> ref_timer_step p r r1 \<Longrightarrow> produced r1 = produced r \<Longrightarrow> timer_step p ini f s (setRef f (r1, vs) s)"
| tick_refresh: "refs s f = Some (r, vs) \<Longrightarrow> ref_timer_step p r r1 \<Longrightarrow> produced r1 = Suc (produced r) \<Longrightarrow>
    futures s f = Some (k, ft) \<Longrightarrow> Inr v \<in> ini k \<Longrightarrow> timer_step p ini f s (setRef f (r1, vs @ [v]) s)"

datatype actor = Routine nat | Timer nat

fun cache_step :: "ref_params \<Rightarrow> (string \<Rightarrow> (error + 'v) set) \<Rightarrow> ('v \<Rightarrow> bool) \<Rightarrow> actor \<Rightarrow> 'v cache \<Rightarrow> 'v cache \<Rightarrow> bool" where
  "cache_step p ini closable (Routine t) s s1 \<longleftrightarrow> get_step p ini t s s1 \<or> close_step closable t s s1 \<or> closing_step p t s s1"
| "cache_step p ini closable (Timer f) s s1 \<longleftrightarrow> timer_step p ini f s s1"

text \<open>A run, with who took each step.\<close>

inductive cache_run :: "ref_params \<Rightarrow> (string \<Rightarrow> (error + 'v) set) \<Rightarrow> ('v \<Rightarrow> bool) \<Rightarrow> 'v cache \<Rightarrow> actor list \<Rightarrow> 'v cache \<Rightarrow> bool"
  for p :: ref_params and ini :: "string \<Rightarrow> (error + 'v) set" and closable :: "'v \<Rightarrow> bool" and s :: "'v cache" where
  stay: "cache_run p ini closable s [] s"
| step: "cache_run p ini closable s as s1 \<Longrightarrow> cache_step p ini closable a s1 s2 \<Longrightarrow> cache_run p ini closable s (as @ [a]) s2"

section \<open>The invariant\<close>

text \<open>The future a routine is initializing, with its key.\<close>

fun pcInit :: "'v pc \<Rightarrow> (string \<times> nat) option" where
  "pcInit (Init k f) = Some (k, f)"
| "pcInit (Running k f) = Some (k, f)"
| "pcInit (RefCall k f b) = (if b then Some (k, f) else None)"
| "pcInit (RefGet k f b) = (if b then Some (k, f) else None)"
| "pcInit (CloseRef f c) = (case c of ThenFail k e \<Rightarrow> Some (k, f) | _ \<Rightarrow> None)"
| "pcInit (ClosingRef f c) = (case c of ThenFail k e \<Rightarrow> Some (k, f) | _ \<Rightarrow> None)"
| "pcInit (RefFail k f e) = Some (k, f)"
| "pcInit _ = None"

definition initialising :: "'v cache \<Rightarrow> nat \<Rightarrow> string \<Rightarrow> nat \<Rightarrow> bool" where
  "initialising s t k f \<longleftrightarrow> pcInit (thr s t) = Some (k, f)"

definition keyed :: "'v cache \<Rightarrow> string \<Rightarrow> nat set" where
  "keyed s k = {f. \<exists>ft. futures s f = Some (k, ft)}"

lemma pcInit_resume [simp]: "pcInit (resume f c) = (case c of ThenFail k e \<Rightarrow> Some (k, f) | _ \<Rightarrow> None)"
  by (cases c) simp_all

lemma resume_neq [simp]:
  "resume f c \<noteq> Waiting k g" "resume f c \<noteq> Returned k r" "resume f c \<noteq> Clean k e" "resume f c \<noteq> Init k g"
  "resume f c \<noteq> RefCall k g b" "resume f c \<noteq> RefGet k g b" "resume f c \<noteq> CloseRef g c'" "resume f c \<noteq> ClosingRef g c'"
  by (cases c; simp)+

lemma cache_defs:
  "m (goto t p s) = m s" "futures (goto t p s) = futures s" "cacheClosed (goto t p s) = cacheClosed s" "refs (goto t p s) = refs s"
  "thr (goto t p s) = (thr s)(t := p)" "inits (goto t p s) = inits s" "removals (goto t p s) = removals s" "useRef (goto t p s) = useRef s"
  "m (storeFuture k f s) = (m s)(k \<mapsto> f)" "futures (storeFuture k f s) = (futures s)(f \<mapsto> (k, Pending))" "refs (storeFuture k f s) = refs s"
  "thr (storeFuture k f s) = thr s" "inits (storeFuture k f s) = inits s" "removals (storeFuture k f s) = removals s"
  "m (initialize k f r s) = m s" "futures (initialize k f r s) = (futures s)(f \<mapsto> (k, Initialised r))" "refs (initialize k f r s) = refs s"
  "thr (initialize k f r s) = thr s" "inits (initialize k f r s) = inits s" "removals (initialize k f r s) = removals s"
  "m (deleteKey k s) = (m s)(k := None)" "futures (deleteKey k s) = futures s" "thr (deleteKey k s) = thr s" "refs (deleteKey k s) = refs s"
  "inits (deleteKey k s) = inits s"
  "removals (deleteKey k s) = (if m s k = None then removals s else (removals s)(k := Suc (removals s k)))"
  "m (setRef f rv s) = m s" "futures (setRef f rv s) = futures s" "refs (setRef f rv s) = (refs s)(f \<mapsto> rv)" "thr (setRef f rv s) = thr s"
  "inits (setRef f rv s) = inits s" "removals (setRef f rv s) = removals s" "cacheClosed (setRef f rv s) = cacheClosed s"
  by (simp_all add: goto_def storeFuture_def initialize_def deleteKey_def setRef_def future_New_def future_Initialize_def fun_upd_idem split: option.split)

lemma closeEntry_same [simp]:
  "m (closeEntry cl t f c s) = m s" "futures (closeEntry cl t f c s) = futures s" "refs (closeEntry cl t f c s) = refs s"
  "inits (closeEntry cl t f c s) = inits s" "removals (closeEntry cl t f c s) = removals s"
  "cacheClosed (closeEntry cl t f c s) = cacheClosed s"
  by (auto simp: closeEntry_def goto_def split: option.split prod.split future.split sum.split entry.split)

lemma closeEntry_thr:
  "thr (closeEntry cl t f c s) = (thr s)(t := if \<exists>k. futures s f = Some (k, Initialised (Inr RefTo)) then CloseRef f c else resume f c)"
  by (auto simp: closeEntry_def goto_def split: option.split prod.split future.split sum.split entry.split)

lemma refDone_same [simp]:
  "m (refDone t k f b r s) = m s" "refs (refDone t k f b r s) = refs s" "inits (refDone t k f b r s) = inits s"
  "removals (refDone t k f b r s) = removals s"
  "futures (refDone t k f b r s) = (if b \<and> \<not> isl r then (futures s)(f \<mapsto> (k, Initialised (Inr RefTo))) else futures s)"
  "thr (refDone t k f b r s) = (thr s)(t := if \<not> b then Returned k r else (case r of Inr _ \<Rightarrow> RefCall k f False | Inl e \<Rightarrow> CloseRef f (ThenFail k e)))"
  by (cases r; simp add: refDone_def goto_def initialize_def future_Initialize_def)+

declare cache_defs [simp]

lemma future_Get_Some [simp]: "future_Get ft = Some r \<longleftrightarrow> ft = Initialised r"
  by (cases ft) (auto simp: future_Get_def)

text \<open>The effect of a step on the futures and on the routines that initialize them.\<close>

definition neutral :: "'v cache \<Rightarrow> 'v cache \<Rightarrow> bool" where
  "neutral s s1 \<longleftrightarrow> futures s1 = futures s \<and> initialising s1 = initialising s"

lemma close_step_same: "close_step cl t s s1 \<Longrightarrow> neutral s s1"
  by (induction rule: close_step.induct) (auto simp: neutral_def initialising_def fun_eq_iff closeEntry_thr)

lemma closing_step_same: "closing_step p t s s1 \<Longrightarrow> neutral s s1"
  by (induction rule: closing_step.induct) (auto simp: neutral_def initialising_def fun_eq_iff)

lemma timer_step_same: "timer_step p ini f s s1 \<Longrightarrow> neutral s s1 \<and> thr s1 = thr s"
  by (induction rule: timer_step.induct) (auto simp: neutral_def initialising_def fun_eq_iff)

lemma get_step_effect:
  assumes "get_step p ini t s s1"
  shows "neutral s s1 \<or>
    (\<exists>k f. futures s f = None \<and> futures s1 = (futures s)(f \<mapsto> (k, Pending)) \<and>
       initialising s1 = (\<lambda>t' k' f'. initialising s t' k' f' \<or> (t', k', f') = (t, k, f))) \<or>
    (\<exists>k f r. initialising s t k f \<and> futures s1 = (futures s)(f \<mapsto> (k, Initialised r)) \<and>
       initialising s1 = (\<lambda>t' k' f'. initialising s t' k' f' \<and> t' \<noteq> t))"
  using assms
proof (cases rule: get_step.cases)
  case (stored k f)
  then show ?thesis by (intro disjI2 disjI1 exI [of _ k] exI [of _ f]) (auto simp: initialising_def fun_eq_iff)
next
  case (refused k f)
  then show ?thesis by (intro disjI2 exI [of _ k] exI [of _ f] exI) (auto simp: initialising_def fun_eq_iff)
next
  case (success k f v)
  then show ?thesis by (intro disjI2 exI [of _ k] exI [of _ f] exI) (auto simp: initialising_def fun_eq_iff)
next
  case (failure k f e)
  then show ?thesis by (intro disjI2 exI [of _ k] exI [of _ f] exI) (auto simp: initialising_def fun_eq_iff)
next
  case (ref_failed k f e)
  then show ?thesis by (intro disjI2 exI [of _ k] exI [of _ f] exI) (auto simp: initialising_def fun_eq_iff)
next
  case (ref_present k f b r vs n)
  then show ?thesis
    by (cases b, intro disjI2 exI [of _ k] exI [of _ f] exI) (auto simp: neutral_def initialising_def fun_eq_iff)
next
  case (ref_init k f b r vs v)
  then show ?thesis
    by (cases b, intro disjI2 exI [of _ k] exI [of _ f] exI) (auto simp: neutral_def initialising_def fun_eq_iff)
qed (auto simp: neutral_def initialising_def fun_eq_iff)

definition pending_inv :: "'v cache \<Rightarrow> bool" where
  "pending_inv s \<longleftrightarrow> (\<forall>t k f. initialising s t k f \<longrightarrow> futures s f = Some (k, Pending)) \<and>
     (\<forall>t t' k k' f. initialising s t k f \<longrightarrow> initialising s t' k' f \<longrightarrow> t = t') \<and>
     (\<forall>f k. futures s f = Some (k, Pending) \<longrightarrow> (\<exists>t. initialising s t k f))"

lemma pending_inv_neutral: "neutral s s1 \<Longrightarrow> pending_inv s \<Longrightarrow> pending_inv s1"
  by (simp add: pending_inv_def neutral_def)

lemma get_step_pending:
  assumes "get_step p ini t s s1" "pending_inv s"
  shows "pending_inv s1"
proof -
  have p: "\<And>t k f. initialising s t k f \<Longrightarrow> futures s f = Some (k, Pending)"
    "\<And>t t' k k' f. initialising s t k f \<Longrightarrow> initialising s t' k' f \<Longrightarrow> t = t'"
    "\<And>f k. futures s f = Some (k, Pending) \<Longrightarrow> \<exists>t. initialising s t k f"
    using assms(2) by (auto simp: pending_inv_def)
  from get_step_effect [OF assms(1)] show ?thesis
  proof (elim disjE exE conjE)
    assume "neutral s s1"
    then show ?thesis using assms(2) by (rule pending_inv_neutral)
  next
    fix k f
    assume n: "futures s f = None" and e: "futures s1 = (futures s)(f \<mapsto> (k, Pending))"
      "initialising s1 = (\<lambda>t' k' f'. initialising s t' k' f' \<or> (t', k', f') = (t, k, f))"
    have nf: "\<not> initialising s t' k' f" for t' k' using p(1) n by fastforce
    show ?thesis unfolding pending_inv_def e using p nf by (auto split: if_splits)
  next
    fix k f r
    assume i: "initialising s t k f" and e: "futures s1 = (futures s)(f \<mapsto> (k, Initialised r))"
      "initialising s1 = (\<lambda>t' k' f'. initialising s t' k' f' \<and> t' \<noteq> t)"
    have o: "f' \<noteq> f" if "initialising s t' k' f'" "t' \<noteq> t" for t' k' f' using p(2) i that by blast
    have u: "t' \<noteq> t" if "initialising s t' k' f'" "f' \<noteq> f" for t' k' f'
      using i that by (auto simp: initialising_def)
    show ?thesis unfolding pending_inv_def e using p o u by (simp split: if_splits) blast
  qed
qed

text \<open>A result, once there, stays; a future keeps its key.\<close>

lemma get_step_results:
  assumes "get_step p ini t s s1" "pending_inv s" "futures s f = Some (k, Initialised r)"
  shows "futures s1 f = Some (k, Initialised r)"
proof -
  have "\<not> initialising s t k' f" for k' using assms(2,3) by (auto simp: pending_inv_def)
  with get_step_effect [OF assms(1)] assms(3) show ?thesis by (auto simp: neutral_def)
qed

lemma get_step_keyed:
  assumes "get_step p ini t s s1" "pending_inv s" "f \<in> keyed s k"
  shows "f \<in> keyed s1 k"
  using get_step_effect [OF assms(1)] assms(2,3)
  by (auto simp: neutral_def keyed_def pending_inv_def)

text \<open>The map and the waiting routines point to futures of their key, and a routine that calls \<open>Get\<close> of a reference for the value of its
  key has found it in such a future.\<close>

definition points_inv :: "'v cache \<Rightarrow> bool" where
  "points_inv s \<longleftrightarrow> (\<forall>k f. m s k = Some f \<longrightarrow> f \<in> keyed s k) \<and> (\<forall>t k f. thr s t = Waiting k f \<longrightarrow> f \<in> keyed s k) \<and>
     (\<forall>t k f. thr s t = RefCall k f False \<or> thr s t = RefGet k f False \<longrightarrow> futures s f = Some (k, Initialised (Inr RefTo)))"

lemma pending_inv_init: "pending_inv s \<Longrightarrow> pcInit (thr s t) = Some (k, f) \<Longrightarrow> futures s f = Some (k, Pending)"
  by (auto simp: pending_inv_def initialising_def)

lemma keyed_neutral: "neutral s s1 \<Longrightarrow> keyed s1 = keyed s"
  by (simp add: neutral_def keyed_def fun_eq_iff)

lemma others_same:
  "get_step p ini t s s1 \<Longrightarrow> t' \<noteq> t \<Longrightarrow> thr s1 t' = thr s t'"
  "close_step cl t s s1 \<Longrightarrow> t' \<noteq> t \<Longrightarrow> thr s1 t' = thr s t'"
  "closing_step p t s s1 \<Longrightarrow> t' \<noteq> t \<Longrightarrow> thr s1 t' = thr s t'"
proof -
  show "get_step p ini t s s1 \<Longrightarrow> t' \<noteq> t \<Longrightarrow> thr s1 t' = thr s t'" by (induction rule: get_step.induct) auto
  show "close_step cl t s s1 \<Longrightarrow> t' \<noteq> t \<Longrightarrow> thr s1 t' = thr s t'" by (induction rule: close_step.induct) (auto simp: closeEntry_thr)
  show "closing_step p t s s1 \<Longrightarrow> t' \<noteq> t \<Longrightarrow> thr s1 t' = thr s t'" by (induction rule: closing_step.induct) auto
qed

lemma waiting_keyed:
  assumes "points_inv s" "thr s t = Waiting k f" "futures s f = Some (k', ft)"
  shows "k' = k"
proof -
  have "f \<in> keyed s k" using assms(1,2) unfolding points_inv_def by blast
  then show ?thesis using assms(3) by (simp add: keyed_def)
qed

lemma get_step_points:
  assumes st: "get_step p ini t s s1" and inv: "pending_inv s" "points_inv s"
  shows "points_inv s1"
proof -
  have map: "f \<in> keyed s1 k" if "m s1 k = Some f" for k f
  proof (cases "m s k = Some f")
    case True
    then show ?thesis using get_step_keyed [OF st inv(1)] inv(2) by (simp add: points_inv_def)
  next
    case False
    with st that show ?thesis by (cases rule: get_step.cases) (auto simp: keyed_def split: if_splits)
  qed
  have wait: "f \<in> keyed s1 k" if "thr s1 t' = Waiting k f" for t' k f
  proof -
    have "f \<in> keyed s k"
      using st that inv(2) by (cases "t' = t"; cases rule: get_step.cases) (auto simp: points_inv_def split: sum.splits if_splits)
    then show ?thesis by (rule get_step_keyed [OF st inv(1)])
  qed
  have ref: "futures s1 f = Some (k, Initialised (Inr RefTo))" if "thr s1 t' = RefCall k f False \<or> thr s1 t' = RefGet k f False" for t' k f
  proof (cases "thr s t' = RefCall k f False \<or> thr s t' = RefGet k f False")
    case True
    then show ?thesis using get_step_results [OF st inv(1)] inv(2) by (auto simp: points_inv_def)
  next
    case False
    then have "t' = t" using others_same(1) [OF st] that by metis
    from st show ?thesis
    proof (cases rule: get_step.cases)
      case (got_ref k0 f0 k' ft)
      then show ?thesis using waiting_keyed [OF inv(2)] that \<open>t' = t\<close> by auto
    qed (use that False \<open>t' = t\<close> inv(2) in \<open>auto simp: points_inv_def split: sum.splits if_splits\<close>)
  qed
  from map wait ref show ?thesis unfolding points_inv_def by blast
qed

lemma close_step_points: "close_step cl t s s1 \<Longrightarrow> points_inv s \<Longrightarrow> points_inv s1"
  by (induction rule: close_step.induct) (auto simp: points_inv_def keyed_def closeEntry_thr split: if_splits)

lemma closing_step_points: "closing_step p t s s1 \<Longrightarrow> points_inv s \<Longrightarrow> points_inv s1"
  by (induction rule: closing_step.induct) (auto simp: points_inv_def keyed_def split: if_splits)

lemma timer_step_points: "timer_step p ini f s s1 \<Longrightarrow> points_inv s \<Longrightarrow> points_inv s1"
  by (induction rule: timer_step.induct) (auto simp: points_inv_def keyed_def)

text \<open>The references: each is in a good state and its values come from the initializer of its key. A routine at a reference
  finds it, and one that is closing it has set the flag.\<close>

fun pcRef :: "'v pc \<Rightarrow> nat option" where
  "pcRef (RefCall k f b) = Some f"
| "pcRef (RefGet k f b) = Some f"
| "pcRef (CloseRef f c) = Some f"
| "pcRef (ClosingRef f c) = Some f"
| "pcRef _ = None"

lemma pcRef_resume [simp]: "pcRef (resume f c) = None"
  by (cases c) simp_all

definition ref_good :: "(string \<Rightarrow> (error + 'v) set) \<Rightarrow> 'v cache \<Rightarrow> bool" where
  "ref_good ini s \<longleftrightarrow> (\<forall>f r vs. refs s f = Some (r, vs) \<longrightarrow> ref_inv r \<and> length vs = produced r \<and>
     (\<exists>k ft. futures s f = Some (k, ft) \<and> (\<forall>v \<in> set vs. Inr v \<in> ini k)))"

definition ref_there :: "'v cache \<Rightarrow> bool" where
  "ref_there s \<longleftrightarrow> (\<forall>f k. futures s f = Some (k, Initialised (Inr RefTo)) \<longrightarrow> refs s f \<noteq> None) \<and>
     (\<forall>t f. pcRef (thr s t) = Some f \<longrightarrow> refs s f \<noteq> None \<and>
        (pcInit (thr s t) = None \<longrightarrow> (\<exists>k. futures s f = Some (k, Initialised (Inr RefTo))))) \<and>
     (\<forall>t f c. thr s t = ClosingRef f c \<longrightarrow> (\<exists>r vs. refs s f = Some (r, vs) \<and> IsClosed r))"

lemma ref_inv_setNew: "ref_inv r \<Longrightarrow> ref_inv (setNew p r)"
  by (auto simp: ref_inv_def setNew_def list_all_iff less_Suc_eq)

lemma produced_close [simp]: "ref_close_step p r r1 \<Longrightarrow> produced r1 = produced r"
  by (induction rule: ref_close_step.induct) (auto simp: finalizeValue_def split: option.split)

lemma closed_stays:
  "ref_close_step p r r1 \<Longrightarrow> IsClosed r1" "ref_timer_step p r r1 \<Longrightarrow> IsClosed r1 = IsClosed r" "IsClosed (setNew p r) = IsClosed r"
proof -
  show "ref_close_step p r r1 \<Longrightarrow> IsClosed r1" by (induction rule: ref_close_step.induct) (auto simp: IsClosed_def)
  show "ref_timer_step p r r1 \<Longrightarrow> IsClosed r1 = IsClosed r"
    by (induction rule: ref_timer_step.induct) (auto simp: IsClosed_def setNew_def resetValue_def finalizeValue_def split: option.split)
  show "IsClosed (setNew p r) = IsClosed r" by (simp add: IsClosed_def setNew_def)
qed

text \<open>References stay: only the routine that initializes a future makes its reference.\<close>

definition later :: "'v cache \<Rightarrow> 'v cache \<Rightarrow> nat \<Rightarrow> bool" where
  "later s s1 f \<longleftrightarrow> (\<forall>r vs. refs s f = Some (r, vs) \<longrightarrow> (\<exists>r1 vs1. refs s1 f = Some (r1, vs @ vs1) \<and> (IsClosed r \<longrightarrow> IsClosed r1)))"

lemma later_get: "get_step p ini t s s1 \<Longrightarrow> (\<And>k. thr s t \<noteq> Running k f) \<Longrightarrow> later s s1 f"
  by (induction rule: get_step.induct) (auto simp: later_def closed_stays)

lemma later_close: "close_step cl t s s1 \<Longrightarrow> later s s1 f"
  by (induction rule: close_step.induct) (auto simp: later_def)

lemma later_closing: "closing_step p t s s1 \<Longrightarrow> later s s1 f"
  by (induction rule: closing_step.induct) (auto simp: later_def closed_stays)

lemma later_timer: "timer_step p ini g s s1 \<Longrightarrow> later s s1 f"
  by (induction rule: timer_step.induct) (auto simp: later_def closed_stays)

lemma refGet_keyed: "pending_inv s \<Longrightarrow> points_inv s \<Longrightarrow> thr s t = RefGet k f b \<or> thr s t = RefCall k f b \<Longrightarrow> f \<in> keyed s k"
  using pending_inv_init [of s t k f] by (cases b) (auto simp: points_inv_def keyed_def)

lemma get_step_good:
  assumes st: "get_step p ini t s s1" and inv: "pending_inv s" "points_inv s" "ref_good ini s"
  shows "ref_good ini s1"
proof -
  have keep: "\<exists>k ft. futures s1 f = Some (k, ft) \<and> P k" if "\<exists>k ft. futures s f = Some (k, ft) \<and> P k" for f P
  proof -
    from that obtain k ft where k: "futures s f = Some (k, ft)" "P k" by blast
    then have "f \<in> keyed s1 k" by (intro get_step_keyed [OF st inv(1)]) (simp add: keyed_def)
    with k show ?thesis by (auto simp: keyed_def)
  qed
  have old: "ref_inv r \<and> length vs = produced r \<and> (\<exists>k ft. futures s1 f = Some (k, ft) \<and> (\<forall>v \<in> set vs. Inr v \<in> ini k))"
    if "refs s f = Some (r, vs)" for f r vs
    using inv(3) that keep [of f "\<lambda>k. \<forall>v \<in> set vs. Inr v \<in> ini k"] unfolding ref_good_def by simp
  show ?thesis unfolding ref_good_def
  proof (intro allI impI)
    fix f r vs assume r1: "refs s1 f = Some (r, vs)"
    show "ref_inv r \<and> length vs = produced r \<and> (\<exists>k ft. futures s1 f = Some (k, ft) \<and> (\<forall>v \<in> set vs. Inr v \<in> ini k))"
    proof (cases "refs s f = Some (r, vs)")
      case True
      then show ?thesis by (rule old)
    next
      case False
      show ?thesis using st
      proof (cases rule: get_step.cases)
        case (new_ref k g)
        then have "f = g" "r = ref_New" "vs = []" using r1 False by (auto split: if_splits)
        then show ?thesis using new_ref pending_inv_init [OF inv(1), of t k g] by (simp add: ref_inv_def ref_New_def)
      next
        case (ref_init k g b r0 vs0 v)
        then have e: "f = g" "r = setNew p r0" "vs = vs0 @ [v]" using r1 False by (auto split: if_splits)
        have "g \<in> keyed s k" using refGet_keyed [OF inv(1,2)] ref_init(2) by blast
        moreover from this have "g \<in> keyed s1 k" by (rule get_step_keyed [OF st inv(1)])
        ultimately show ?thesis using e old [OF ref_init(3)] ref_init(5)
          by (auto simp: ref_inv_setNew keyed_def) (simp add: setNew_def)
      qed (use r1 False in auto)
    qed
  qed
qed

lemma ref_good_update:
  assumes "ref_good ini s" "refs s1 = (refs s)(f \<mapsto> (r1, vs @ ws))" "futures s1 = futures s" "refs s f = Some (r, vs)" "ref_inv r \<Longrightarrow> ref_inv r1"
    "produced r1 = produced r + length ws" "\<And>k ft. futures s f = Some (k, ft) \<Longrightarrow> \<forall>v \<in> set ws. Inr v \<in> ini k"
  shows "ref_good ini s1"
proof -
  obtain k ft where k: "ref_inv r" "length vs = produced r" "futures s f = Some (k, ft)" "\<forall>v \<in> set vs. Inr v \<in> ini k"
    using assms(1,4) unfolding ref_good_def by blast
  have "\<exists>k ft. futures s f = Some (k, ft) \<and> (\<forall>v \<in> set (vs @ ws). Inr v \<in> ini k)"
    using k(3,4) assms(7) [OF k(3)] by auto
  moreover have "ref_inv r' \<and> length vs' = produced r' \<and> (\<exists>k ft. futures s g = Some (k, ft) \<and> (\<forall>v \<in> set vs'. Inr v \<in> ini k))"
    if "refs s g = Some (r', vs')" for g r' vs' using assms(1) that unfolding ref_good_def by blast
  ultimately show ?thesis using k(1,2) assms(5,6) unfolding ref_good_def assms(2,3) by (simp split: if_splits)
qed

lemma close_step_good: "close_step cl t s s1 \<Longrightarrow> ref_good ini s \<Longrightarrow> ref_good ini s1"
  by (induction rule: close_step.induct) (auto simp: ref_good_def)

lemma closing_step_good:
  assumes "closing_step p t s s1" "ref_good ini s"
  shows "ref_good ini s1"
  using assms(1)
proof (cases rule: closing_step.cases)
  case (close_enter f c r vs r1)
  then show ?thesis by (intro ref_good_update [OF assms(2), of s1 f r1 vs "[]" r]) (auto intro: ref_inv_close)
next
  case (close_next f c r vs r1)
  then show ?thesis by (intro ref_good_update [OF assms(2), of s1 f r1 vs "[]" r]) (auto intro: ref_inv_close)
qed (use assms(2) in \<open>auto simp: ref_good_def\<close>)

lemma timer_step_good:
  assumes "timer_step p ini f s s1" "ref_good ini s"
  shows "ref_good ini s1"
  using assms(1)
proof (cases rule: timer_step.cases)
  case (tick r vs r1)
  then show ?thesis by (intro ref_good_update [OF assms(2), of s1 f r1 vs "[]" r]) (auto intro: ref_inv_timer)
next
  case (tick_refresh r vs r1 k ft v)
  then show ?thesis by (intro ref_good_update [OF assms(2), of s1 f r1 vs "[v]" r]) (auto intro: ref_inv_timer)
qed

lemma later_there: "later s s1 f \<Longrightarrow> refs s f \<noteq> None \<Longrightarrow> refs s1 f \<noteq> None"
  by (auto simp: later_def)

lemma get_step_there:
  assumes st: "get_step p ini t s s1" and inv: "pending_inv s" "points_inv s" "ref_there s"
  shows "ref_there s1"
proof -
  have stay: "refs s1 f \<noteq> None" if "refs s f \<noteq> None" for f
    using st that by (induction rule: get_step.induct) auto
  have run: "thr s t \<noteq> Running k' f" if "pcRef (thr s t') = Some f" for t' k' f
  proof
    assume r: "thr s t = Running k' f"
    then have p: "futures s f = Some (k', Pending)" using pending_inv_init [OF inv(1), of t k' f] by simp
    show False
    proof (cases "pcInit (thr s t')")
      case None
      then obtain k where "futures s f = Some (k, Initialised (Inr RefTo))" using inv(3) \<open>pcRef (thr s t') = Some f\<close> unfolding ref_there_def by blast
      then show False using p by simp
    next
      case (Some kf)
      then have "snd kf = f" using that by (cases "thr s t'") (auto split: if_splits cont.splits)
      then have "initialising s t' (fst kf) f" "initialising s t k' f" using Some r by (auto simp: initialising_def)
      then have "t' = t" using inv(1) unfolding pending_inv_def by blast
      then show False using that r by simp
    qed
  qed
  have fut: "refs s1 f \<noteq> None" if "futures s1 f = Some (k, Initialised (Inr RefTo))" for f k
  proof (cases "futures s f = Some (k, Initialised (Inr RefTo))")
    case True
    then show ?thesis using inv(3) stay by (auto simp: ref_there_def)
  next
    case False
    with st that show ?thesis by (cases rule: get_step.cases) (auto split: if_splits)
  qed
  have pcs: "refs s1 f \<noteq> None \<and> (pcInit (thr s1 t') = None \<longrightarrow> (\<exists>k. futures s1 f = Some (k, Initialised (Inr RefTo))))"
    if "pcRef (thr s1 t') = Some f" for t' f
  proof (cases "t' = t")
    case False
    then have "pcRef (thr s t') = Some f" "thr s1 t' = thr s t'" using others_same(1) [OF st] that by simp_all
    then show ?thesis using inv(3) stay get_step_results [OF st inv(1)] unfolding ref_there_def by metis
  next
    case True
    have p: "refs s f \<noteq> None \<and> (pcInit (thr s t) = None \<longrightarrow> (\<exists>k. futures s f = Some (k, Initialised (Inr RefTo))))"
      if "pcRef (thr s t) = Some f" for f using inv(3) that by (auto simp: ref_there_def)
    show ?thesis using st that True
    proof (cases rule: get_step.cases)
      case (got_ref k g k' ft)
      then show ?thesis using that True inv(3) by (auto simp: ref_there_def)
    qed (use p [of f] in \<open>auto split: if_splits sum.splits\<close>)
  qed
  have cl: "\<exists>r vs. refs s1 f = Some (r, vs) \<and> IsClosed r" if "thr s1 t' = ClosingRef f c" for t' f c
  proof -
    have same: "thr s t' = ClosingRef f c"
    proof (cases "t' = t")
      case True
      from st that this show ?thesis by (cases rule: get_step.cases) (auto split: if_splits sum.splits)
    qed (use others_same(1) [OF st] that in simp)
    then have "later s s1 f" using later_get [OF st] run [of t' f] by simp
    then show ?thesis using same inv(3) unfolding ref_there_def later_def by blast
  qed
  from fut pcs cl show ?thesis unfolding ref_there_def by blast
qed

lemma close_step_there: "close_step cl t s s1 \<Longrightarrow> ref_there s \<Longrightarrow> ref_there s1"
  by (induction rule: close_step.induct) (auto simp: ref_there_def closeEntry_thr split: if_splits)

lemma closing_step_there:
  assumes st: "closing_step p t s s1" and inv: "ref_there s"
  shows "ref_there s1"
proof -
  have n: "futures s1 = futures s" using closing_step_same [OF st] by (simp add: neutral_def)
  have stay: "refs s1 f \<noteq> None" if "refs s f \<noteq> None" for f by (rule later_there [OF later_closing [OF st] that])
  have pcs: "pcRef (thr s t') = Some f \<and> (pcInit (thr s1 t') = None \<longrightarrow> pcInit (thr s t') = None)" if "pcRef (thr s1 t') = Some f" for t' f
    using st that by (cases rule: closing_step.cases) (auto split: if_splits)
  have cl: "\<exists>r vs. refs s1 f = Some (r, vs) \<and> IsClosed r" if "thr s1 t' = ClosingRef f c" for t' f c
  proof (cases "thr s t' = ClosingRef f c")
    case True
    then have "\<exists>r vs. refs s f = Some (r, vs) \<and> IsClosed r" using inv unfolding ref_there_def by blast
    then show ?thesis using later_closing [OF st, of f] unfolding later_def by blast
  next
    case False
    with st that show ?thesis by (cases rule: closing_step.cases) (auto simp: closed_stays split: if_splits)
  qed
  show ?thesis unfolding ref_there_def n using inv stay pcs cl unfolding ref_there_def by meson
qed

lemma timer_step_there:
  assumes st: "timer_step p ini f s s1" and inv: "ref_there s"
  shows "ref_there s1"
proof -
  have e: "futures s1 = futures s" "thr s1 = thr s" using timer_step_same [OF st] by (simp_all add: neutral_def)
  have "refs s1 g \<noteq> None" if "refs s g \<noteq> None" for g by (rule later_there [OF later_timer [OF st] that])
  moreover have "\<exists>r vs. refs s1 g = Some (r, vs) \<and> IsClosed r" if "\<exists>r vs. refs s g = Some (r, vs) \<and> IsClosed r" for g
    using that later_timer [OF st, of g] unfolding later_def by blast
  ultimately show ?thesis using inv unfolding ref_there_def e by meson
qed

text \<open>What a call of \<open>Get\<close> may return for a key: a value of the initializer, from a future of that key or from its
  reference; an error of an initialization for that key, or one of the reference: that it is closed, or that its initializer failed
  again.\<close>

definition served :: "(string \<Rightarrow> (error + 'v) set) \<Rightarrow> 'v cache \<Rightarrow> string \<Rightarrow> error + 'v \<Rightarrow> bool" where
  "served ini s k r = (case r of
      Inr v \<Rightarrow> Inr v \<in> ini k \<and>
        (\<exists>f. futures s f = Some (k, Initialised (Inr (Plain v))) \<or>
           futures s f = Some (k, Initialised (Inr RefTo)) \<and> (\<exists>rf vs. refs s f = Some (rf, vs) \<and> v \<in> set vs))
    | Inl e \<Rightarrow>
        (\<exists>f. futures s f = Some (k, Initialised (Inl e)) \<or>
           futures s f = Some (k, Initialised (Inr RefTo)) \<and>
             (Inl e \<in> ini k \<or> e = ErrNew ''reference is already closed'' \<and> (\<exists>rf vs. refs s f = Some (rf, vs) \<and> IsClosed rf))))"

definition result_inv :: "(string \<Rightarrow> (error + 'v) set) \<Rightarrow> 'v cache \<Rightarrow> bool" where
  "result_inv ini s \<longleftrightarrow> (\<forall>t k r. thr s t = Returned k r \<longrightarrow> served ini s k r) \<and>
     (\<forall>t k e. thr s t = Clean k e \<longrightarrow> (\<exists>f. futures s f = Some (k, Initialised (Inl e)))) \<and>
     (\<forall>f k v. futures s f = Some (k, Initialised (Inr (Plain v))) \<longrightarrow> Inr v \<in> ini k)"

lemma served_later:
  assumes fut: "\<And>f k r. futures s f = Some (k, Initialised r) \<Longrightarrow> futures s1 f = Some (k, Initialised r)"
    and ref: "\<And>f k. futures s f = Some (k, Initialised (Inr RefTo)) \<Longrightarrow> later s s1 f"
    and "served ini s k r"
  shows "served ini s1 k r"
proof -
  have vals: "\<exists>rf vs. refs s1 f = Some (rf, vs) \<and> v \<in> set vs"
    if "futures s f = Some (k, Initialised (Inr RefTo))" "\<exists>rf vs. refs s f = Some (rf, vs) \<and> v \<in> set vs" for f v k
    using that ref [OF that(1)] unfolding later_def by fastforce
  have closed: "\<exists>rf vs. refs s1 f = Some (rf, vs) \<and> IsClosed rf"
    if "futures s f = Some (k, Initialised (Inr RefTo))" "\<exists>rf vs. refs s f = Some (rf, vs) \<and> IsClosed rf" for f k
    using that ref [OF that(1)] unfolding later_def by blast
  show ?thesis
  proof (cases r)
    case (Inl e)
    then obtain f where "futures s f = Some (k, Initialised (Inl e)) \<or> futures s f = Some (k, Initialised (Inr RefTo)) \<and>
        (Inl e \<in> ini k \<or> e = ErrNew ''reference is already closed'' \<and> (\<exists>rf vs. refs s f = Some (rf, vs) \<and> IsClosed rf))"
      using assms(3) by (auto simp: served_def)
    then have "futures s1 f = Some (k, Initialised (Inl e)) \<or> futures s1 f = Some (k, Initialised (Inr RefTo)) \<and>
        (Inl e \<in> ini k \<or> e = ErrNew ''reference is already closed'' \<and> (\<exists>rf vs. refs s1 f = Some (rf, vs) \<and> IsClosed rf))"
      using fut [of f] closed [of f k] by blast
    then show ?thesis using Inl unfolding served_def by auto
  next
    case (Inr v)
    then obtain f where "Inr v \<in> ini k" "futures s f = Some (k, Initialised (Inr (Plain v))) \<or>
        futures s f = Some (k, Initialised (Inr RefTo)) \<and> (\<exists>rf vs. refs s f = Some (rf, vs) \<and> v \<in> set vs)"
      using assms(3) by (auto simp: served_def)
    moreover from this(2) have "futures s1 f = Some (k, Initialised (Inr (Plain v))) \<or>
        futures s1 f = Some (k, Initialised (Inr RefTo)) \<and> (\<exists>rf vs. refs s1 f = Some (rf, vs) \<and> v \<in> set vs)"
      using fut [of f] vals [of f k v] by blast
    ultimately show ?thesis using Inr unfolding served_def by auto
  qed
qed

lemma result_inv_quiet:
  assumes "result_inv ini s" "futures s1 = futures s" "\<And>f. later s s1 f"
    "\<And>t k r. thr s1 t = Returned k r \<Longrightarrow> thr s t = Returned k r" "\<And>t k e. thr s1 t = Clean k e \<Longrightarrow> thr s t = Clean k e"
  shows "result_inv ini s1"
proof -
  have "served ini s1 k r" if "served ini s k r" for k r by (rule served_later [OF _ assms(3) that]) (simp add: assms(2))
  then show ?thesis using assms(1,4,5) unfolding result_inv_def assms(2) by blast
qed

lemma close_step_result: "close_step cl t s s1 \<Longrightarrow> result_inv ini s \<Longrightarrow> result_inv ini s1"
proof (erule result_inv_quiet)
  assume st: "close_step cl t s s1"
  show "futures s1 = futures s" using close_step_same [OF st] by (simp add: neutral_def)
  show "later s s1 f" for f by (rule later_close [OF st])
  show "thr s t' = Returned k r" if "thr s1 t' = Returned k r" for t' k r
    using st that by (cases rule: close_step.cases) (auto simp: closeEntry_thr split: if_splits)
  show "thr s t' = Clean k e" if "thr s1 t' = Clean k e" for t' k e
    using st that by (cases rule: close_step.cases) (auto simp: closeEntry_thr split: if_splits)
qed

lemma closing_step_result: "closing_step p t s s1 \<Longrightarrow> result_inv ini s \<Longrightarrow> result_inv ini s1"
proof (erule result_inv_quiet)
  assume st: "closing_step p t s s1"
  show "futures s1 = futures s" using closing_step_same [OF st] by (simp add: neutral_def)
  show "later s s1 f" for f by (rule later_closing [OF st])
  show "thr s t' = Returned k r" if "thr s1 t' = Returned k r" for t' k r
    using st that by (cases rule: closing_step.cases) (auto split: if_splits)
  show "thr s t' = Clean k e" if "thr s1 t' = Clean k e" for t' k e
    using st that by (cases rule: closing_step.cases) (auto split: if_splits)
qed

lemma timer_step_result: "timer_step p ini g s s1 \<Longrightarrow> result_inv ini s \<Longrightarrow> result_inv ini s1"
proof (erule result_inv_quiet)
  assume st: "timer_step p ini g s s1"
  show "later s s1 f" for f by (rule later_timer [OF st])
qed (use timer_step_same [of p ini g s s1] in \<open>auto simp: neutral_def\<close>)

lemma get_step_result:
  assumes st: "get_step p ini t s s1" and inv: "pending_inv s" "points_inv s" "ref_good ini s" "result_inv ini s"
  shows "result_inv ini s1"
proof -
  have keep: "served ini s1 k r" if "served ini s k r" for k r
  proof (rule served_later [OF get_step_results [OF st inv(1)] _ that])
    fix f k assume f: "futures s f = Some (k, Initialised (Inr RefTo))"
    have "thr s t \<noteq> Running k' f" for k' using pending_inv_init [OF inv(1), of t k' f] f by auto
    then show "later s s1 f" by (rule later_get [OF st])
  qed
  have plain: "Inr v \<in> ini k" if "futures s1 f = Some (k, Initialised (Inr (Plain v)))" for f k v
  proof (cases "futures s f = Some (k, Initialised (Inr (Plain v)))")
    case True
    then show ?thesis using inv(4) by (simp add: result_inv_def)
  next
    case False
    from st that False show ?thesis by (cases rule: get_step.cases) (auto split: if_splits)
  qed
  have clean: "\<exists>f. futures s1 f = Some (k, Initialised (Inl e))" if "thr s1 t' = Clean k e" for t' k e
  proof (cases "thr s t' = Clean k e")
    case True
    then show ?thesis using inv(4) get_step_results [OF st inv(1)] unfolding result_inv_def by blast
  next
    case False
    then have "t' = t" using others_same(1) [OF st] that by metis
    from st that False this show ?thesis by (cases rule: get_step.cases) (auto split: if_splits sum.splits)
  qed
  have ret: "served ini s1 k r" if "thr s1 t' = Returned k r" for t' k r
  proof (cases "thr s t' = Returned k r")
    case True
    then show ?thesis using inv(4) keep unfolding result_inv_def by blast
  next
    case False
    then have t: "t' = t" using others_same(1) [OF st] that by metis
    from st show ?thesis
    proof (cases rule: get_step.cases)
      case (success k0 f v)
      then show ?thesis using that t by (auto simp: served_def)
    next
      case (ref_closed k0 f b rf vs)
      then have "\<not> b" "k0 = k" "r = Inl (ErrNew ''reference is already closed'')" using that t by (auto split: if_splits)
      moreover from this have "futures s f = Some (k, Initialised (Inr RefTo))" using ref_closed inv(2) by (simp add: points_inv_def)
      ultimately show ?thesis using ref_closed by (intro keep) (auto simp: served_def)
    next
      case (ref_present k0 f b rf vs n)
      then have e: "\<not> b" "k0 = k" "r = Inr (vs ! n)" using that t by (auto split: if_splits)
      then have f: "futures s f = Some (k, Initialised (Inr RefTo))" using ref_present inv(2) by (auto simp: points_inv_def)
      have "ref_inv rf \<and> length vs = produced rf \<and> (\<forall>v \<in> set vs. Inr v \<in> ini k)" using inv(3) ref_present(3) f unfolding ref_good_def by fastforce
      then have "vs ! n \<in> set vs" "Inr (vs ! n) \<in> ini k" using ref_present(4) by (auto simp: ref_inv_def)
      then show ?thesis using e f ref_present(3) by (intro keep) (auto simp: served_def)
    next
      case (ref_init k0 f b rf vs v)
      then have e: "\<not> b" "k0 = k" "r = Inr v" using that t by (auto split: if_splits)
      then have "futures s f = Some (k, Initialised (Inr RefTo))" using ref_init inv(2) by (auto simp: points_inv_def)
      then have "futures s1 f = Some (k, Initialised (Inr RefTo))" by (rule get_step_results [OF st inv(1)])
      then show ?thesis using e ref_init by (auto simp: served_def)
    next
      case (ref_fails k0 f b rf vs e)
      then have "\<not> b" "k0 = k" "r = Inl e" using that t by (auto split: if_splits)
      moreover from this have "futures s f = Some (k, Initialised (Inr RefTo))" using ref_fails inv(2) by (simp add: points_inv_def)
      ultimately show ?thesis using ref_fails by (intro keep) (auto simp: served_def)
    next
      case (clean k0 e)
      then have "k0 = k" "r = Inl e" using that t by auto
      moreover from this have "\<exists>f. futures s f = Some (k, Initialised (Inl e))" using clean(2) inv(4) unfolding result_inv_def by blast
      ultimately have "served ini s k r" by (auto simp: served_def)
      then show ?thesis by (rule keep)
    next
      case (got_error k0 f k' ft e)
      then have "k0 = k" "r = Inl e" "k' = k" using that t waiting_keyed [OF inv(2), of t k0 f k' ft] by auto
      then show ?thesis using got_error by (intro keep) (auto simp: served_def)
    next
      case (got_plain k0 f k' ft v)
      then have "k0 = k" "r = Inr v" "k' = k" using that t waiting_keyed [OF inv(2), of t k0 f k' ft] by auto
      then show ?thesis using got_plain inv(4) by (intro keep) (auto simp: served_def result_inv_def)
    qed (use that t in auto)
  qed
  from ret clean plain show ?thesis unfolding result_inv_def by blast
qed

text \<open>The initializer is called once for a future, and a key has one future more than it was removed when it
  is in the map.\<close>

definition log_inv :: "'v cache \<Rightarrow> bool" where
  "log_inv s \<longleftrightarrow> distinct (inits s) \<and> set (inits s) \<subseteq> dom (futures s) \<and> (\<forall>t k f. thr s t = Init k f \<longrightarrow> f \<notin> set (inits s))"

definition card_inv :: "'v cache \<Rightarrow> bool" where
  "card_inv s \<longleftrightarrow> finite (dom (futures s)) \<and> (\<forall>k. card (keyed s k) = removals s k + (if m s k = None then 0 else 1))"

lemma get_step_log:
  assumes "get_step p ini t s s1" and "pending_inv s" and "log_inv s"
  shows "log_inv s1"
  using assms
proof (cases rule: get_step.cases)
  case (stored k f)
  then show ?thesis using assms(3) by (auto simp: log_inv_def)
next
  case (start k f)
  then have f: "futures s f = Some (k, Pending)" using assms(2) pending_inv_init [of s t k f] by simp
  have u: "t' = t" if "thr s t' = Init k' f" for t' k'
  proof -
    have "initialising s t' k' f" "initialising s t k f" using that start(2) by (simp_all add: initialising_def)
    then show ?thesis using assms(2) unfolding pending_inv_def by blast
  qed
  from start f assms(3) show ?thesis by (auto simp: log_inv_def dest: u)
qed (use assms(3) in \<open>auto simp: log_inv_def split: sum.splits if_splits\<close>)

lemma close_step_log: "close_step cl t s s1 \<Longrightarrow> log_inv s \<Longrightarrow> log_inv s1"
  by (induction rule: close_step.induct) (auto simp: log_inv_def closeEntry_thr split: if_splits)

lemma closing_step_log: "closing_step p t s s1 \<Longrightarrow> log_inv s \<Longrightarrow> log_inv s1"
  by (induction rule: closing_step.induct) (auto simp: log_inv_def split: if_splits)

lemma timer_step_log: "timer_step p ini f s s1 \<Longrightarrow> log_inv s \<Longrightarrow> log_inv s1"
  by (induction rule: timer_step.induct) (auto simp: log_inv_def)

lemma finite_keyed: "finite (dom (futures s)) \<Longrightarrow> finite (keyed s k)"
  by (rule finite_subset [of _ "dom (futures s)"]) (auto simp: keyed_def)

lemma keyed_initialized: "futures s f = Some (k, x) \<Longrightarrow> futures s1 = (futures s)(f \<mapsto> (k, y)) \<Longrightarrow> keyed s1 = keyed s"
  by (auto simp: keyed_def fun_eq_iff)

lemma card_inv_cong:
  "keyed s1 = keyed s \<Longrightarrow> finite (dom (futures s)) = finite (dom (futures s1)) \<Longrightarrow> m s1 = m s \<Longrightarrow> removals s1 = removals s \<Longrightarrow> card_inv s1 = card_inv s"
  by (simp add: card_inv_def)

lemma get_step_card:
  assumes st: "get_step p ini t s s1" and inv: "pending_inv s" "card_inv s"
  shows "card_inv s1"
proof (cases "(\<exists>k f. thr s t = LoadOrStore k \<and> m s k = None) \<or> (\<exists>k e. thr s t = Clean k e)")
  case True
  from st show ?thesis
  proof (cases rule: get_step.cases)
    case (stored k f)
    then have "keyed s1 = (keyed s)(k := insert f (keyed s k))" "f \<notin> keyed s k" by (auto simp: keyed_def fun_eq_iff)
    then show ?thesis using stored inv(2) by (simp add: card_inv_def finite_keyed)
  qed (use True inv(2) in \<open>auto simp: card_inv_def keyed_def\<close>)
next
  case False
  have same: "m s1 = m s" "removals s1 = removals s"
    using st False by (induction rule: get_step.induct) auto
  have "keyed s1 = keyed s \<and> finite (dom (futures s)) = finite (dom (futures s1))"
  proof -
    from get_step_effect [OF st] show ?thesis
    proof (elim disjE exE conjE)
      assume "neutral s s1"
      then show ?thesis by (simp add: keyed_neutral) (simp add: neutral_def)
    next
      fix k f assume e: "futures s f = None" "futures s1 = (futures s)(f \<mapsto> (k, Pending))"
      from st False e show ?thesis by (cases rule: get_step.cases) (auto simp: fun_eq_iff split: if_splits dest: spec [of _ f])
    next
      fix k f r assume e: "initialising s t k f" "futures s1 = (futures s)(f \<mapsto> (k, Initialised r))"
      then have "futures s f = Some (k, Pending)" using inv(1) by (simp add: pending_inv_def)
      then show ?thesis using keyed_initialized [of s f k Pending s1] e(2) by (simp add: insert_absorb)
    qed
  qed
  then show ?thesis using card_inv_cong [of s1 s] same inv(2) by simp
qed

lemma close_step_card: "close_step cl t s s1 \<Longrightarrow> card_inv s \<Longrightarrow> card_inv s1"
  by (induction rule: close_step.induct) (auto simp: card_inv_def keyed_def)

lemma closing_step_card: "closing_step p t s s1 \<Longrightarrow> card_inv s \<Longrightarrow> card_inv s1"
  by (induction rule: closing_step.induct) (auto simp: card_inv_def keyed_def)

lemma timer_step_card: "timer_step p ini f s s1 \<Longrightarrow> card_inv s \<Longrightarrow> card_inv s1"
  by (induction rule: timer_step.induct) (auto simp: card_inv_def keyed_def)

lemmas cache_invs = points_inv_def pending_inv_def ref_good_def ref_there_def result_inv_def log_inv_def card_inv_def

definition cache_inv :: "(string \<Rightarrow> (error + 'v) set) \<Rightarrow> 'v cache \<Rightarrow> bool" where
  "cache_inv ini s \<longleftrightarrow> points_inv s \<and> pending_inv s \<and> ref_good ini s \<and> ref_there s \<and> result_inv ini s \<and> log_inv s \<and> card_inv s"

lemma cache_step_inv:
  assumes "cache_step p ini cl a s s1" "cache_inv ini s"
  shows "cache_inv ini s1"
proof -
  consider t where "get_step p ini t s s1" | t where "close_step cl t s s1" | t where "closing_step p t s s1" | f where "timer_step p ini f s s1"
    using assms(1) by (cases a) auto
  then show ?thesis
  proof cases
    case 1
    then show ?thesis using assms(2) unfolding cache_inv_def
      by (auto intro: get_step_points get_step_pending get_step_good get_step_there get_step_result get_step_log get_step_card)
  next
    case 2
    then show ?thesis using assms(2) unfolding cache_inv_def
      by (auto intro: close_step_points pending_inv_neutral [OF close_step_same] close_step_good close_step_there close_step_result close_step_log close_step_card)
  next
    case 3
    then show ?thesis using assms(2) unfolding cache_inv_def
      by (auto intro: closing_step_points pending_inv_neutral [OF closing_step_same] closing_step_good closing_step_there closing_step_result closing_step_log closing_step_card)
  next
    case 4
    then show ?thesis using assms(2) unfolding cache_inv_def
      by (auto intro: timer_step_points pending_inv_neutral [OF conjunct1 [OF timer_step_same]] timer_step_good timer_step_there timer_step_result timer_step_log timer_step_card)
  qed
qed

lemma cache_run_inv:
  assumes "cache_run p ini cl (cache_New b) as s"
  shows "cache_inv ini s"
  using assms
proof (induction rule: cache_run.induct)
  case stay
  show ?case by (simp add: cache_inv_def cache_invs cache_New_def keyed_def initialising_def)
qed (rule cache_step_inv)

section \<open>Properties\<close>


text \<open>Two routines ask for a key; the second one waits for the first.\<close>

definition run2 :: "bool \<Rightarrow> nat cache" where
  "run2 b = goto 1 (Waiting ''k'' 0) (goto 1 (Load ''k'') (goto 0 (Init ''k'' 0) (storeFuture ''k'' 0
     (goto 0 (LoadOrStore ''k'') (goto 0 (Load ''k'') (cache_New b))))))"

abbreviation test_ini :: "string \<Rightarrow> (error + nat) set" where
  "test_ini \<equiv> \<lambda>k. {Inr 7}"

definition reaches :: "ref_params \<Rightarrow> (string \<Rightarrow> (error + 'v) set) \<Rightarrow> ('v \<Rightarrow> bool) \<Rightarrow> 'v cache \<Rightarrow> 'v cache \<Rightarrow> bool" where
  "reaches p ini cl s s1 \<longleftrightarrow> (\<exists>as. cache_run p ini cl s as s1)"

lemma reaches_refl: "reaches p ini cl s s"
  using cache_run.stay unfolding reaches_def by blast

lemma reaches_step: "reaches p ini cl s s1 \<Longrightarrow> cache_step p ini cl a s1 s2 \<Longrightarrow> reaches p ini cl s s2"
  unfolding reaches_def by (blast intro: cache_run.step)

lemma reaches_get: "reaches p ini cl s s1 \<Longrightarrow> get_step p ini t s1 s2 \<Longrightarrow> reaches p ini cl s s2"
  by (erule reaches_step [of _ _ _ _ _ "Routine t"]) simp

lemma reaches_close: "reaches p ini cl s s1 \<Longrightarrow> close_step cl t s1 s2 \<Longrightarrow> reaches p ini cl s s2"
  by (erule reaches_step [of _ _ _ _ _ "Routine t"]) simp

lemma run2_reach: "reaches p test_ini cl (cache_New b) (run2 b)"
  unfolding run2_def
  by (intro reaches_get [OF _ load_hit] reaches_get [OF _ call] reaches_get [OF _ stored] reaches_get [OF _ load_miss] reaches_refl)
    (simp_all add: cache_New_def)

text \<open>The run goes on with references: the first routine initializes the reference, then both read it.\<close>

definition run3 :: "nat cache" where
  "run3 = goto 1 (Returned ''k'' (Inr 7)) (goto 1 (RefGet ''k'' 0 False) (goto 1 (RefCall ''k'' 0 False)
     (goto 0 (RefCall ''k'' 0 False) (initialize ''k'' 0 (Inr RefTo) (setRef 0 (setNew expiring_ref ref_New, [] @ [7])
       (goto 0 (RefGet ''k'' 0 True) (goto 0 (RefCall ''k'' 0 True) (setRef 0 (ref_New, [])
         (goto 0 (Running ''k'' 0) ((run2 True)\<lparr>inits := inits (run2 True) @ [0]\<rparr>))))))))))"

lemma run3_reach: "reaches expiring_ref test_ini cl (cache_New True) run3"
proof -
  let ?a = "goto 0 (RefCall ''k'' 0 True) (setRef 0 (ref_New, []) (goto 0 (Running ''k'' 0) ((run2 True)\<lparr>inits := inits (run2 True) @ [0]\<rparr>)))"
  let ?b = "refDone 0 ''k'' 0 True (Inr 7) (setRef 0 (setNew expiring_ref ref_New, [] @ [7]) (goto 0 (RefGet ''k'' 0 True) ?a))"
  have "reaches expiring_ref test_ini cl (cache_New True) ?a"
    by (intro reaches_get [OF _ new_ref] reaches_get [OF _ start] run2_reach) (simp_all add: run2_def cache_New_def goto_def storeFuture_def)
  then have "reaches expiring_ref test_ini cl (cache_New True) (goto 0 (RefGet ''k'' 0 True) ?a)"
    by (rule reaches_get [OF _ ref_open [where r = ref_New and vs = "[]"]]) (simp_all add: IsClosed_def ref_New_def)
  then have "reaches expiring_ref test_ini cl (cache_New True) ?b"
    by (rule reaches_get [OF _ ref_init [where r = ref_New and vs = "[]"]]) (simp_all add: ref_New_def)
  then have "reaches expiring_ref test_ini cl (cache_New True) (goto 1 (RefCall ''k'' 0 False) ?b)"
    by (rule reaches_get [OF _ got_ref]) (simp_all add: run2_def)
  then have "reaches expiring_ref test_ini cl (cache_New True) (goto 1 (RefGet ''k'' 0 False) (goto 1 (RefCall ''k'' 0 False) ?b))"
    by (rule reaches_get [OF _ ref_open [where r = "setNew expiring_ref ref_New" and vs = "[7]"]]) (simp_all add: closed_stays(3), simp add: IsClosed_def ref_New_def)
  then have "reaches expiring_ref test_ini cl (cache_New True) (refDone 1 ''k'' 0 False (Inr ([7] ! 0)) (goto 1 (RefGet ''k'' 0 False) (goto 1 (RefCall ''k'' 0 False) ?b)))"
    by (rule reaches_get [OF _ ref_present [where r = "setNew expiring_ref ref_New" and vs = "[7]" and n = 0]]) (simp_all, simp add: setNew_def ref_New_def)
  then show ?thesis by (simp add: run3_def refDone_def)
qed


text \<open>A cache without references has none.\<close>

definition plain_inv :: "'v cache \<Rightarrow> bool" where
  "plain_inv s \<longleftrightarrow> useRef s \<or> (\<forall>t. pcRef (thr s t) = None \<and> (\<forall>k f e. thr s t \<noteq> RefFail k f e)) \<and>
     (\<forall>f k. futures s f \<noteq> Some (k, Initialised (Inr RefTo)))"

lemma useRef_same [simp]:
  "useRef (storeFuture k f s) = useRef s" "useRef (initialize k f x s) = useRef s" "useRef (deleteKey k s) = useRef s"
  "useRef (setRef f rv s) = useRef s" "useRef (refDone t k f b r s) = useRef s" "useRef (closeEntry cl t f c s) = useRef s"
  by (auto simp: storeFuture_def initialize_def deleteKey_def setRef_def refDone_def closeEntry_def goto_def
      split: option.split prod.split future.split sum.split entry.split)

lemma cache_step_plain:
  assumes "cache_step p ini cl a s s1" "plain_inv s"
  shows "plain_inv s1 \<and> useRef s1 = useRef s"
proof -
  have c: "resume f c \<noteq> RefFail k g e \<longleftrightarrow> c \<noteq> ThenFail k e \<or> f \<noteq> g" for f c k g e by (cases c) auto
  consider t where "get_step p ini t s s1" | t where "close_step cl t s s1" | t where "closing_step p t s s1" | f where "timer_step p ini f s s1"
    using assms(1) by (cases a) auto
  then show ?thesis
  proof cases
    case 1
    then show ?thesis using assms(2)
      by (induction rule: get_step.induct) (auto simp: plain_inv_def split: if_splits sum.splits dest: spec [of _ t])
  next
    case 2
    then show ?thesis using assms(2)
      by (induction rule: close_step.induct) (auto simp: plain_inv_def closeEntry_thr c split: if_splits)
  next
    case 3
    then show ?thesis using assms(2)
      by (induction rule: closing_step.induct) (auto simp: plain_inv_def split: if_splits dest: spec [of _ t])
  next
    case 4
    then show ?thesis using assms(2) by (induction rule: timer_step.induct) (auto simp: plain_inv_def)
  qed
qed

lemma cache_run_plain: "cache_run p ini cl s as s1 \<Longrightarrow> plain_inv s \<Longrightarrow> plain_inv s1 \<and> useRef s1 = useRef s"
  by (induction rule: cache_run.induct) (use cache_step_plain in fastforce)+

lemma cache_run_Cons:
  assumes "cache_step p ini cl a s s1" "cache_run p ini cl s1 as s2"
  shows "cache_run p ini cl s (a # as) s2"
  using assms(2,1)
proof (induction rule: cache_run.induct)
  case stay
  then show ?case using cache_run.step [OF cache_run.stay] by fastforce
next
  case (step as s1 b s2)
  then have "cache_run p ini cl s ((a # as) @ [b]) s2" by (blast intro: cache_run.step)
  then show ?case by simp
qed

lemma cache_run_trans: "cache_run p ini cl s1 bs s2 \<Longrightarrow> cache_run p ini cl s as s1 \<Longrightarrow> cache_run p ini cl s (as @ bs) s2"
proof (induction rule: cache_run.induct)
  case (step bs s2 a s3)
  then have "cache_run p ini cl s ((as @ bs) @ [a]) s3" by (blast intro: cache_run.step)
  then show ?case by simp
qed simp

text \<open>\<open>soon t t' k f n s\<close>: at most \<open>n\<close> steps of the routine \<open>t'\<close> and of the timer of the reference of \<open>f\<close> lead to a state in which the
  future \<open>f\<close> is initialized, while \<open>t\<close> waits for it.\<close>

definition soon :: "ref_params \<Rightarrow> (string \<Rightarrow> (error + 'v) set) \<Rightarrow> ('v \<Rightarrow> bool) \<Rightarrow> nat \<Rightarrow> nat \<Rightarrow> string \<Rightarrow> nat \<Rightarrow> nat \<Rightarrow> 'v cache \<Rightarrow> bool" where
  "soon p ini cl t t' k f n s \<longleftrightarrow> (\<exists>as s1 x. cache_run p ini cl s as s1 \<and> set as \<subseteq> {Routine t', Timer f} \<and> length as \<le> n \<and>
     futures s1 f = Some (k, Initialised x) \<and> thr s1 t = Waiting k f)"

lemma soon_now: "futures s f = Some (k, Initialised x) \<Longrightarrow> thr s t = Waiting k f \<Longrightarrow> soon p ini cl t t' k f n s"
  unfolding soon_def using cache_run.stay by fastforce

lemma soon_step: "cache_step p ini cl a s s1 \<Longrightarrow> a \<in> {Routine t', Timer f} \<Longrightarrow> soon p ini cl t t' k f n s1 \<Longrightarrow> soon p ini cl t t' k f (Suc n) s"
  unfolding soon_def
proof (elim exE conjE)
  fix as s2 x
  assume a: "cache_step p ini cl a s s1" "a \<in> {Routine t', Timer f}" "cache_run p ini cl s1 as s2" "set as \<subseteq> {Routine t', Timer f}" "length as \<le> n"
    "futures s2 f = Some (k, Initialised x)" "thr s2 t = Waiting k f"
  show "\<exists>as s1 x. cache_run p ini cl s as s1 \<and> set as \<subseteq> {Routine t', Timer f} \<and> length as \<le> Suc n \<and>
     futures s1 f = Some (k, Initialised x) \<and> thr s1 t = Waiting k f"
    using a by (intro exI [of _ "a # as"] exI [of _ s2] exI [of _ x] conjI cache_run_Cons [OF a(1,3)]) auto
qed

lemma soon_mono: "soon p ini cl t t' k f n s \<Longrightarrow> n \<le> n' \<Longrightarrow> soon p ini cl t t' k f n' s"
  unfolding soon_def by fastforce

lemma soon_get: "get_step p ini t' s s1 \<Longrightarrow> soon p ini cl t t' k f n s1 \<Longrightarrow> soon p ini cl t t' k f (Suc n) s"
  by (rule soon_step [of _ _ _ "Routine t'"]) simp_all

lemma soon_closing: "closing_step p t' s s1 \<Longrightarrow> soon p ini cl t t' k f n s1 \<Longrightarrow> soon p ini cl t t' k f (Suc n) s"
  by (rule soon_step [of _ _ _ "Routine t'"]) simp_all


lemma soon_fail: "t \<noteq> t' \<Longrightarrow> thr s t = Waiting k f \<Longrightarrow> thr s t' = RefFail k f e \<Longrightarrow> soon p ini cl t t' k f (Suc 0) s"
  by (erule soon_get [OF ref_failed soon_now]) simp_all

lemma soon_Finalized:
  assumes "t \<noteq> t'" "thr s t = Waiting k f" "thr s t' = ClosingRef f (ThenFail k e)" "refs s f = Some (r, vs)" "refClosed r = Finalized"
  shows "soon p ini cl t t' k f 2 s"
  unfolding numeral_2_eq_2 by (rule soon_closing [OF close_end [OF assms(3-5)] soon_fail [where e = e]]) (use assms in simp_all)

lemma soon_next:
  assumes "t \<noteq> t'" "thr s t = Waiting k f" "thr s t' = ClosingRef f (ThenFail k e)" "refs s f = Some (r, vs)" "IsClosed r" "ref_close_step p r r1"
    and "\<And>s. thr s t = Waiting k f \<Longrightarrow> thr s t' = ClosingRef f (ThenFail k e) \<Longrightarrow> refs s f = Some (r1, vs) \<Longrightarrow> soon p ini cl t t' k f n s"
  shows "soon p ini cl t t' k f (Suc n) s"
  by (rule soon_closing [OF close_next [OF assms(3-6)] assms(7)]) (use assms(1-3) in simp_all)

lemma soon_TimerEnded:
  assumes "t \<noteq> t'" "thr s t = Waiting k f" "thr s t' = ClosingRef f (ThenFail k e)" "refs s f = Some (r, vs)" "refClosed r = TimerEnded"
  shows "soon p ini cl t t' k f (Suc 2) s"
proof -
  let ?r = "(finalizeValue p r)\<lparr>refClosed := Finalized\<rparr>"
  have r: "refClosed ?r = Finalized" "IsClosed r" using assms(5) by (simp_all add: IsClosed_def)
  show ?thesis by (rule soon_next [OF assms(1-4) r(2) finalize [OF assms(5)] soon_Finalized [OF assms(1) _ _ _ r(1)]])
qed

lemma soon_ended:
  assumes "t \<noteq> t'" "thr s t = Waiting k f" "thr s t' = ClosingRef f (ThenFail k e)" "refs s f = Some (r, vs)" "refClosed r = Notified" "\<not> running r"
  shows "soon p ini cl t t' k f (Suc (Suc 2)) s"
proof -
  let ?r = "r\<lparr>refClosed := TimerEnded\<rparr>"
  have r: "refClosed ?r = TimerEnded" "IsClosed r" using assms(5) by (simp_all add: IsClosed_def)
  show ?thesis by (rule soon_next [OF assms(1-4) r(2) wait [OF assms(5,6)] soon_TimerEnded [OF assms(1) _ _ _ r(1)]])
qed

lemma soon_Notified:
  assumes "t \<noteq> t'" "thr s t = Waiting k f" "thr s t' = ClosingRef f (ThenFail k e)" "refs s f = Some (r, vs)" "refClosed r = Notified"
    "running r \<longrightarrow> closech r"
  shows "soon p ini cl t t' k f (Suc (Suc (Suc 2))) s"
proof (cases "running r")
  case True
  then have "timer_step p ini f s (setRef f (r\<lparr>running := False, closech := False\<rparr>, vs) s)"
    using assms(4,6) by (intro tick [OF _ timer_end]) simp_all
  moreover have "soon p ini cl t t' k f (Suc (Suc 2)) (setRef f (r\<lparr>running := False, closech := False\<rparr>, vs) s)"
    by (rule soon_ended [where r = "r\<lparr>running := False, closech := False\<rparr>" and vs = vs]) (use assms in auto)
  ultimately show ?thesis
    using soon_step [of p ini cl "Timer f" s "setRef f (r\<lparr>running := False, closech := False\<rparr>, vs) s" t' f t k "Suc (Suc 2)"] by simp
next
  case False
  then show ?thesis using soon_mono [OF soon_ended [OF assms(1-5)]] by simp
qed

lemma soon_ClosingRef:
  assumes "t \<noteq> t'" "thr s t = Waiting k f" "thr s t' = ClosingRef f (ThenFail k e)" "refs s f = Some (r, vs)" "IsClosed r" "ref_inv r"
  shows "soon p ini cl t t' k f 6 s"
proof (cases "refClosed r")
  case FlagSet
  let ?r = "r\<lparr>refClosed := Notified, closech := (if running r then True else closech r)\<rparr>"
  have r: "refClosed ?r = Notified" "running ?r \<longrightarrow> closech ?r" by simp_all
  have "soon p ini cl t t' k f (Suc (Suc (Suc (Suc 2)))) s"
    by (rule soon_next [OF assms(1-5) notify [OF FlagSet] soon_Notified [OF assms(1) _ _ _ r]])
  then show ?thesis by simp
next
  case Notified
  then have "running r \<longrightarrow> closech r" using assms(6) by (simp add: ref_inv_def)
  from soon_mono [OF soon_Notified [OF assms(1-4) Notified this]] show ?thesis by simp
next
  case TimerEnded
  from soon_mono [OF soon_TimerEnded [OF assms(1-4) this]] show ?thesis by simp
next
  case Finalized
  from soon_mono [OF soon_Finalized [OF assms(1-4) this]] show ?thesis by simp
qed (use assms(5) in \<open>simp add: IsClosed_def\<close>)

lemma soon_CloseRef:
  assumes "t \<noteq> t'" "thr s t = Waiting k f" "thr s t' = CloseRef f (ThenFail k e)" "refs s f = Some (r, vs)" "ref_inv r"
  shows "soon p ini cl t t' k f 7 s"
proof (cases "IsClosed r")
  case True
  have "soon p ini cl t t' k f (Suc (Suc 0)) s"
    by (rule soon_closing [OF close_twice [OF assms(3,4) True] soon_fail [where e = e]]) (use assms in simp_all)
  then show ?thesis by (rule soon_mono) simp
next
  case False
  have "soon p ini cl t t' k f (Suc 6) s"
    by (rule soon_closing [OF close_enter [OF assms(3,4) False set_closed [OF False]]
        soon_ClosingRef [OF assms(1), where r = "r\<lparr>refClosed := FlagSet\<rparr>" and vs = vs]])
      (use assms in \<open>simp_all add: IsClosed_def ref_inv_close [OF set_closed [OF False]]\<close>)
  then show ?thesis by simp
qed

lemma soon_RefGet:
  assumes "t \<noteq> t'" "thr s t = Waiting k f" "thr s t' = RefGet k f True" "refs s f = Some (r, vs)" "ref_inv r" "ini k \<noteq> {}"
  shows "soon p ini cl t t' k f 8 s"
proof (cases "ref r")
  case (Some n)
  have "soon p ini cl t t' k f (Suc 0) s"
    by (rule soon_get [OF ref_present [OF assms(3,4) Some] soon_now]) (use assms in simp_all)
  then show ?thesis by (rule soon_mono) simp
next
  case None
  obtain o1 where o1: "o1 \<in> ini k" using assms(6) by blast
  show ?thesis
  proof (cases o1)
    case (Inl e)
    have "soon p ini cl t t' k f (Suc 7) s"
      by (rule soon_get [OF ref_fails [where ini = ini and k = k and e = e, OF assms(3,4) None o1 [unfolded Inl]] soon_CloseRef [OF assms(1), where r = r and vs = vs and e = e]]) (use assms in simp_all)
    then show ?thesis by simp
  next
    case (Inr v)
    have "soon p ini cl t t' k f (Suc 0) s"
      by (rule soon_get [OF ref_init [where ini = ini and k = k and v = v, OF assms(3,4) None o1 [unfolded Inr]] soon_now]) (use assms in simp_all)
    then show ?thesis by (rule soon_mono) simp
  qed
qed

lemma soon_RefCall:
  assumes "t \<noteq> t'" "thr s t = Waiting k f" "thr s t' = RefCall k f True" "refs s f = Some (r, vs)" "ref_inv r" "ini k \<noteq> {}"
  shows "soon p ini cl t t' k f 9 s"
proof (cases "IsClosed r")
  case True
  have "soon p ini cl t t' k f (Suc 7) s"
    by (rule soon_get [OF ref_closed [OF assms(3,4) True] soon_CloseRef [OF assms(1), where r = r and vs = vs and e = "ErrNew ''reference is already closed''"]]) (use assms in simp_all)
  then show ?thesis by (rule soon_mono) simp
next
  case False
  have "soon p ini cl t t' k f (Suc 8) s"
    by (rule soon_get [OF ref_open [OF assms(3,4) False] soon_RefGet [OF assms(1), where r = r and vs = vs]]) (use assms in simp_all)
  then show ?thesis by simp
qed

lemma ref_inv_New: "ref_inv ref_New"
  by (simp add: ref_inv_def ref_New_def)

lemma soon_Running:
  assumes "t \<noteq> t'" "thr s t = Waiting k f" "thr s t' = Running k f" "ini k \<noteq> {}"
  shows "soon p ini cl t t' k f (if useRef s then 10 else 1) s"
proof (cases "useRef s")
  case True
  have "soon p ini cl t t' k f (Suc 9) s"
    by (rule soon_get [OF new_ref [OF assms(3) True] soon_RefCall [OF assms(1), where r = ref_New and vs = "[]"]]) (use assms in \<open>simp_all add: ref_inv_New\<close>)
  with True show ?thesis by simp
next
  case False
  obtain o1 where o1: "o1 \<in> ini k" using assms(4) by blast
  have "soon p ini cl t t' k f (Suc 0) s"
  proof (cases o1)
    case (Inl e)
    show ?thesis by (rule soon_get [OF failure [where ini = ini and k = k and e = e, OF assms(3) False o1 [unfolded Inl]] soon_now]) (use assms in simp_all)
  next
    case (Inr v)
    show ?thesis by (rule soon_get [OF success [where ini = ini and k = k and v = v, OF assms(3) False o1 [unfolded Inr]] soon_now]) (use assms in simp_all)
  qed
  with False show ?thesis by simp
qed

lemma soon_Init:
  assumes "t \<noteq> t'" "thr s t = Waiting k f" "thr s t' = Init k f" "ini k \<noteq> {}"
  shows "soon p ini cl t t' k f (if useRef s then 11 else 2) s"
proof (cases "cacheClosed s")
  case True
  have "soon p ini cl t t' k f (Suc 0) s" by (rule soon_get [OF refused [OF assms(3) True] soon_now]) (use assms in simp_all)
  then show ?thesis by (rule soon_mono) simp
next
  case False
  let ?s = "goto t' (Running k f) (s\<lparr>inits := inits s @ [f]\<rparr>)"
  have "soon p ini cl t t' k f (if useRef ?s then 10 else 1) ?s" by (rule soon_Running) (use assms in simp_all)
  from soon_get [OF start [OF assms(3) False] this] show ?thesis by (cases "useRef s") (simp_all add: numeral_2_eq_2)
qed

lemma initialized_soon:
  assumes inv: "cache_inv ini s" "plain_inv s" and w: "thr s t = Waiting k f" and i: "initialising s t' k f" and ini: "ini k \<noteq> {}"
  shows "soon p ini cl t t' k f (if useRef s then 11 else 2) s"
proof -
  have t: "t \<noteq> t'" using w i by (auto simp: initialising_def)
  have ref: "\<exists>r vs. refs s f = Some (r, vs) \<and> ref_inv r" if "pcRef (thr s t') = Some f"
  proof -
    from inv(1) that have "refs s f \<noteq> None" by (simp add: cache_inv_def ref_there_def)
    then obtain r vs where r: "refs s f = Some (r, vs)" by auto
    then have "ref_inv r" using inv(1) unfolding cache_inv_def ref_good_def by blast
    with r show ?thesis by blast
  qed
  have closed: "\<exists>r vs. refs s f = Some (r, vs) \<and> IsClosed r" if "thr s t' = ClosingRef f c" for c
    using inv(1) that unfolding cache_inv_def ref_there_def by blast
  have useRef: "useRef s" if "pcRef (thr s t') = Some f \<or> (\<exists>e. thr s t' = RefFail k f e)"
    using inv(2) that unfolding plain_inv_def by auto
  note mono = soon_mono [of p ini cl t t' k f _ s "if useRef s then 11 else 2"]
  from i consider "thr s t' = Init k f" | "thr s t' = Running k f" | "thr s t' = RefCall k f True" | "thr s t' = RefGet k f True"
    | e where "thr s t' = CloseRef f (ThenFail k e)" | e where "thr s t' = ClosingRef f (ThenFail k e)" | e where "thr s t' = RefFail k f e"
    by (cases "thr s t'") (auto simp: initialising_def split: if_splits cont.splits)
  then show ?thesis
  proof cases
    case 1
    show ?thesis by (rule soon_Init [where ini = ini, OF t w 1 ini])
  next
    case 2
    show ?thesis by (rule mono [OF soon_Running [where ini = ini, OF t w 2 ini]]) simp
  next
    case 3
    then obtain r vs where "refs s f = Some (r, vs)" "ref_inv r" using ref by auto
    from soon_RefCall [where ini = ini, OF t w 3 this ini] show ?thesis by (rule mono) (use useRef 3 in simp)
  next
    case 4
    then obtain r vs where "refs s f = Some (r, vs)" "ref_inv r" using ref by auto
    from soon_RefGet [where ini = ini, OF t w 4 this ini] show ?thesis by (rule mono) (use useRef 4 in simp)
  next
    case (5 e)
    then obtain r vs where "refs s f = Some (r, vs)" "ref_inv r" using ref by auto
    from soon_CloseRef [OF t w 5 this] show ?thesis by (rule mono) (use useRef 5 in simp)
  next
    case (6 e)
    obtain r vs where "refs s f = Some (r, vs)" "IsClosed r" using closed [OF 6] by blast
    moreover from this have "ref_inv r" using ref 6 by auto
    ultimately have "soon p ini cl t t' k f 6 s" by (intro soon_ClosingRef [OF t w 6])
    then show ?thesis by (rule mono) (use useRef 6 in simp)
  next
    case (7 e)
    show ?thesis by (rule mono [OF soon_fail [OF t w 7]]) simp
  qed
qed

text \<open>A routine that waits for a future that is initialized returns by itself.\<close>

lemma waiter_returns:
  assumes inv: "cache_inv ini s" "plain_inv s" and w: "thr s t = Waiting k f" and f: "futures s f = Some (k, Initialised x)" and ini: "ini k \<noteq> {}"
  shows "\<exists>bs s2 r. cache_run p ini cl s bs s2 \<and> set bs \<subseteq> {Routine t} \<and> length bs \<le> (if useRef s then 3 else 1) \<and> thr s2 t = Returned k r"
proof -
  have one: "\<exists>bs s2 r. cache_run p ini cl s bs s2 \<and> set bs \<subseteq> {Routine t} \<and> length bs \<le> (if useRef s then 3 else 1) \<and> thr s2 t = Returned k r"
    if "get_step p ini t s s1" "thr s1 t = Returned k r" for s1 r
    using cache_run_Cons [of p ini cl "Routine t" s s1, OF _ cache_run.stay] that
    by (intro exI [of _ "[Routine t]"] exI [of _ s1] exI [of _ r]) simp
  show ?thesis
  proof (cases x)
    case (Inl e)
    with f show ?thesis by (intro one [OF got_error [OF w f]]) simp_all
  next
    case x: (Inr en)
    show ?thesis
    proof (cases en)
      case (Plain v)
      with f x show ?thesis by (intro one [OF got_plain [OF w f]]) simp_all
    next
      case RefTo
      then have u: "useRef s" using inv(2) f x by (auto simp: plain_inv_def)
      obtain r vs where r: "refs s f = Some (r, vs)" using inv(1) f x RefTo unfolding cache_inv_def ref_there_def by (metis not_Some_eq surj_pair)
      let ?s1 = "goto t (RefCall k f False) s" and ?s2 = "goto t (RefGet k f False) (goto t (RefCall k f False) s)"
      have s1: "get_step p ini t s ?s1" using f x RefTo by (intro got_ref [OF w f]) simp
      have run: "\<exists>bs s2 r. cache_run p ini cl s bs s2 \<and> set bs \<subseteq> {Routine t} \<and> length bs \<le> (if useRef s then 3 else 1) \<and> thr s2 t = Returned k r"
        if "cache_run p ini cl ?s1 bs s3" "set bs \<subseteq> {Routine t}" "length bs \<le> 2" "thr s3 t = Returned k r" for bs s3 r
        using cache_run_Cons [of p ini cl "Routine t" s ?s1 bs s3] s1 that u by (intro exI [of _ "Routine t # bs"]) auto
      show ?thesis
      proof (cases "IsClosed r")
        case True
        let ?s = "refDone t k f False (Inl (ErrNew ''reference is already closed'')) ?s1"
        have "get_step p ini t ?s1 ?s" using r True by (intro ref_closed) simp_all
        from cache_run_Cons [of p ini cl "Routine t", OF _ cache_run.stay] this have "cache_run p ini cl ?s1 [Routine t] ?s" by simp
        then show ?thesis by (rule run) simp_all
      next
        case False
        then have s2: "get_step p ini t ?s1 ?s2" using r by (intro ref_open) simp_all
        obtain s3 o1 where s3: "get_step p ini t ?s2 s3" "thr s3 t = Returned k o1"
        proof (cases "ref r")
          case (Some n)
          have "get_step p ini t ?s2 (refDone t k f False (Inr (vs ! n)) ?s2)" using r Some by (intro ref_present) simp_all
          then show ?thesis by (rule that) simp
        next
          case None
          obtain o1 where o1: "o1 \<in> ini k" using ini by blast
          show ?thesis
          proof (cases o1)
            case (Inl e)
            have "get_step p ini t ?s2 (refDone t k f False (Inl e) ?s2)" using r None o1 Inl by (intro ref_fails) simp_all
            then show ?thesis by (rule that) simp
          next
            case (Inr v)
            have "get_step p ini t ?s2 (refDone t k f False (Inr v) (setRef f (setNew p r, vs @ [v]) ?s2))"
              using r None o1 Inr by (intro ref_init) simp_all
            then show ?thesis by (rule that) simp
          qed
        qed
        from cache_run_Cons [of p ini cl "Routine t", OF _ cache_run.stay] s3(1) have "cache_run p ini cl ?s2 [Routine t] s3" by simp
        then have "cache_run p ini cl ?s1 [Routine t, Routine t] s3" using s2 cache_run_Cons [of p ini cl "Routine t" ?s1 ?s2] by simp
        then show ?thesis by (rule run) (use s3(2) in simp_all)
      qed
    qed
  qed
qed



text \<open>A value can escape \<open>Close\<close>: when the cache is closed while an initializer runs, the entry is deleted
  without a value to close, and the value that is then returned is never closed.\<close>

lemma close_misses_value:
  "\<exists>s. reaches p test_ini (\<lambda>v. True) (run2 False) s \<and> cacheClosed s \<and> m s = Map.empty \<and> closedVals s = [] \<and>
     thr s 0 = Returned ''k'' (Inr 7) \<and> thr s 2 = Idle"
proof -
  let ?a = "goto 0 (Running ''k'' 0) ((run2 False)\<lparr>inits := inits (run2 False) @ [0]\<rparr>)"
  let ?b = "goto 2 (Range []) ((goto 2 CloseCalled ?a)\<lparr>cacheClosed := True\<rparr>)"
  let ?c = "closeEntry (\<lambda>v. True) 2 0 (ThenRange ([] @ [''k''])) ?b"
  let ?d = "goto 2 Idle (goto 2 (DeleteKeys []) (deleteKey ''k'' (goto 2 (DeleteKeys [''k'']) ?c)))"
  let ?e = "goto 0 (Returned ''k'' (Inr 7)) (initialize ''k'' 0 (Inr (Plain 7)) ?d)"
  have a: "reaches p test_ini (\<lambda>v. True) (run2 False) ?a"
    by (rule reaches_get [OF reaches_refl start]) (simp_all add: run2_def cache_New_def goto_def storeFuture_def)
  have b: "reaches p test_ini (\<lambda>v. True) (run2 False) ?b"
    by (rule reaches_close [OF reaches_close [OF a close_call] closing])
      (simp_all add: run2_def cache_New_def goto_def storeFuture_def)
  have c: "reaches p test_ini (\<lambda>v. True) (run2 False) ?c"
    by (rule reaches_close [OF b visit]) (simp_all add: run2_def)
  have d: "reaches p test_ini (\<lambda>v. True) (run2 False) ?d"
    by (rule reaches_close [OF reaches_close [OF reaches_close [OF c visited] delete] deleted]) (simp_all add: closeEntry_thr run2_def)
  have e: "reaches p test_ini (\<lambda>v. True) (run2 False) ?e"
    by (rule reaches_get [OF d success]) (simp_all add: closeEntry_thr run2_def cache_New_def)
  have "closedVals ?e = []"
    by (simp add: run2_def cache_New_def closeEntry_def goto_def storeFuture_def initialize_def deleteKey_def future_New_def)
  moreover have "cacheClosed ?e" "m ?e = Map.empty" "thr ?e 0 = Returned ''k'' (Inr 7)" "thr ?e 2 = Idle"
    by (simp_all add: run2_def cache_New_def closeEntry_thr initialize_def deleteKey_def fun_eq_iff)
  ultimately show ?thesis using e by blast
qed

end
