(* ===== verification/DynamicSelection.thy ===== *)
theory DynamicSelection
  imports PGResolver ChannelClient "HOL-Library.List_Lexorder" "HOL-Library.Char_ord"
begin

text \<open>
  The dynamic and the static selection services of \<^verbatim>\<open>pkg/client/common/selection\<close>: the endorsement
  policies of the chaincodes of a request are fetched from the ledger, all of them together become one
  group hierarchy, and the resolver picks a group of the discovered peers that satisfies it.
\<close>

section \<open>Resolver keys\<close>

record resolverKey =
  rkChannelID :: string
  rkChaincodeIDs :: "string list"
  rkKey :: string

text \<open>\<open>sort.Strings\<close> orders byte strings lexicographically.\<close>

definition newResolverKey :: "string \<Rightarrow> string list \<Rightarrow> resolverKey" where
  "newResolverKey channelID chaincodeIDs =
     (let arr = sort chaincodeIDs in
      \<lparr>rkChannelID = channelID, rkChaincodeIDs = arr, rkKey = channelID @ ''-'' @ Join arr '':''\<rparr>)"

section \<open>The policy provider\<close>

text \<open>
  The provider reads the chaincode data from the ledger through a channel client: the greylist of a client
  is new for every query, the trace of what is done on the channel goes on. Unmarshalling is a parameter.
\<close>

record cc_ext =
  ccChannel :: channel_ext
  ccPeers :: "error + peer list"
  unmarshalCCData :: "bytes \<Rightarrow> error + bytes"
  unmarshalEnvelope :: "bytes \<Rightarrow> error + SignaturePolicyEnvelope"

record ccPolicyProvider =
  cpChannelID :: string
  ccDataMap :: "string \<rightharpoonup> bytes"
  cpTrace :: "action list"

definition newCCPolicyProvider :: "string \<Rightarrow> error + ccPolicyProvider" where
  "newCCPolicyProvider channelID =
     (if channelID = '''' then Inl (ErrNew ''Must provide channel ID for cc policy provider'')
      else Inr \<lparr>cpChannelID = channelID, ccDataMap = Map.empty, cpTrace = []\<rparr>)"

text \<open>The loop over the peers, with the errors so far: the payload of the first peer that answers. \<open>None\<close> is a
  query that does not return.\<close>

fun queryPeers ::
  "ext \<Rightarrow> client_ext \<Rightarrow> Request \<Rightarrow> peer list \<Rightarrow> Filter \<Rightarrow> action list \<Rightarrow> string list \<Rightarrow>
   ((string list \<times> bytes) outcome \<times> action list) option" where
  "queryPeers x c request [] gl tr queryErrors = Some (Inr (queryErrors, []), tr)"
| "queryPeers x c request (p # ps) gl tr queryErrors =
     (case client_Query c request [WithTargets [Some p]] gl tr of
        Diverges \<Rightarrow> None
      | Crashed s \<Rightarrow> Some (Inl (Panic ''panic in the query''), trace s)
      | Rejected e \<Rightarrow> queryPeers x c request ps gl tr (queryErrors @ [ErrorText x e])
      | Completed resp (Some e) s \<Rightarrow> queryPeers x c request ps (greylist s) (trace s) (queryErrors @ [ErrorText x e])
      | Completed resp None s \<Rightarrow> Some (Inr (queryErrors, rPayload resp), trace s))"

definition queryChaincode ::
  "cc_ext \<Rightarrow> ccPolicyProvider \<Rightarrow> string \<Rightarrow> string \<Rightarrow> bytes list \<Rightarrow> (bytes outcome \<times> action list) option" where
  "queryChaincode cx dp ccName ccFcn ccArgs =
     (case channel_New (ccChannel cx) [] of
        Inl e \<Rightarrow> Some (Inl (Err (ErrWithMessage ''Unable to create channel client'' e)), cpTrace dp)
      | Inr cl \<Rightarrow>
         (let x = errs (invExt (chContext cl)) in
          case ccPeers cx of
            Inl e \<Rightarrow> Some (Inl (Err (ErrStatus (status_New ClientStatus (ToInt32 NoPeersFound) (ErrorText x e) []))), cpTrace dp)
          | Inr targetPeers \<Rightarrow>
             (case queryPeers x (chContext cl)
                     \<lparr>rqChaincodeID = ccName, rqFcn = ccFcn, rqArgs = ccArgs, rqTransientMap = [], rqInvocationChain = [], rqIsInit = False\<rparr>
                     targetPeers (chGreylist cl) (cpTrace dp) [] of
                None \<Rightarrow> None
              | Some (Inl f, tr) \<Rightarrow> Some (Inl f, tr)
              | Some (Inr (queryErrors, response), tr) \<Rightarrow>
                  Some (if length queryErrors = length targetPeers
                        then Inl (Err (ErrNew (''Error querying peers for channel '' @ cpChannelID dp @ '': '' @ Join queryErrors [CHR 0x0A])))
                        else Inr response, tr))))"

definition asBytes :: "string \<Rightarrow> bytes" where
  "asBytes s = map (\<lambda>ch. of_nat (of_char ch)) s"

definition unmarshalPolicy :: "cc_ext \<Rightarrow> bytes \<Rightarrow> SignaturePolicyEnvelope outcome" where
  "unmarshalPolicy cx policy =
     (case unmarshalEnvelope cx policy of
        Inl e \<Rightarrow> Inl (Err (ErrWithMessage ''error unmarshalling SignaturePolicyEnvelope'' e))
      | Inr env \<Rightarrow> Inr env)"

text \<open>The cache is read under the chaincode ID and written under the key of channel and chaincode.\<close>

definition GetChaincodePolicy ::
  "cc_ext \<Rightarrow> string \<Rightarrow> ccPolicyProvider \<Rightarrow> (SignaturePolicyEnvelope outcome \<times> ccPolicyProvider) option" where
  "GetChaincodePolicy cx chaincodeID dp =
     (if chaincodeID = '''' then Some (Inl (Err (ErrNew ''Must provide chaincode ID'')), dp)
      else
        let key = newResolverKey (cpChannelID dp) [chaincodeID] in
        case ccDataMap dp chaincodeID of
          Some policy \<Rightarrow> Some (unmarshalPolicy cx policy, dp)
        | None \<Rightarrow>
           (case queryChaincode cx dp ''lscc'' ''getccdata'' [asBytes (cpChannelID dp), asBytes chaincodeID] of
              None \<Rightarrow> None
            | Some (Inl f, tr) \<Rightarrow> Some (Inl (withMessageF ''error querying chaincode data'' f), dp\<lparr>cpTrace := tr\<rparr>)
            | Some (Inr response, tr) \<Rightarrow>
               (case unmarshalCCData cx response of
                  Inl e \<Rightarrow> Some (Inl (Err (ErrWithMessage ''Error unmarshalling chaincode data'' e)), dp\<lparr>cpTrace := tr\<rparr>)
                | Inr policy \<Rightarrow>
                    Some (unmarshalPolicy cx policy, dp\<lparr>cpTrace := tr, ccDataMap := (ccDataMap dp)(rkKey key \<mapsto> policy)\<rparr>))))"

section \<open>The dynamic selection service\<close>

text \<open>
  The load-balance policies of the package \<open>pgresolver\<close>, with their state; a policy of the application's own
  is left out. A resolver is its group retriever: the policy is that of the service. The policy provider is an
  interface: the service is given its \<open>GetChaincodePolicy\<close> and keeps its state.
\<close>

datatype lbp = RandomLBP rand_src nat | RoundRobinLBP "nat \<Rightarrow> nat" int

fun lbp_Choose :: "lbp \<Rightarrow> item list \<Rightarrow> item \<times> lbp" where
  "lbp_Choose (RandomLBP src k) peerGroups =
     (case pg_Random_Choose src k peerGroups of (g, k1) \<Rightarrow> (g, RandomLBP src k1))"
| "lbp_Choose (RoundRobinLBP seed idx) peerGroups =
     (case pg_RoundRobin_Choose seed idx peerGroups of (g, idx1) \<Rightarrow> (g, RoundRobinLBP seed idx1))"

record 'p SelectionService =
  dsChannelID :: string
  pgResolvers :: "string \<rightharpoonup> (retriever \<Rightarrow> item outcome)"
  pgLBP :: "lbp option"
  dsProvider :: 'p
  cacheTimeout :: int

definition WithLoadBalancePolicy :: "lbp option \<Rightarrow> 'p SelectionService \<Rightarrow> 'p SelectionService" where
  "WithLoadBalancePolicy l s = s\<lparr>pgLBP := l\<rparr>"

definition WithCacheTimeout :: "int \<Rightarrow> 'p SelectionService \<Rightarrow> 'p SelectionService" where
  "WithCacheTimeout t s = s\<lparr>cacheTimeout := t\<rparr>"

text \<open>The random source of \<open>NewRandomLBP\<close> is a parameter; durations count nanoseconds.\<close>

definition dyn_newService ::
  "rand_src \<Rightarrow> int \<Rightarrow> string \<Rightarrow> error + 'p \<Rightarrow> ('p SelectionService \<Rightarrow> 'p SelectionService) list \<Rightarrow> error + 'p SelectionService" where
  "dyn_newService src refresh channelID factory options =
     (case factory of
        Inl e \<Rightarrow> Inl (ErrWithMessage ''Failed to create cc policy provider'' e)
      | Inr prov \<Rightarrow>
         (let s1 = fold (\<lambda>opt s. opt s) options
                    \<lparr>dsChannelID = channelID, pgResolvers = Map.empty, pgLBP = Some (RandomLBP src 0),
                     dsProvider = prov, cacheTimeout = 30 * 60 * 10 ^ 9\<rparr>;
              s2 = (if cacheTimeout s1 = 0 then s1\<lparr>cacheTimeout := refresh\<rparr> else s1)
          in Inr (if pgLBP s2 = None then s2\<lparr>pgLBP := Some (RandomLBP src 0)\<rparr> else s2)))"

type_synonym 'p provider = "string \<Rightarrow> 'p \<Rightarrow> (SignaturePolicyEnvelope outcome \<times> 'p) option"

definition getPolicyGroupForCC ::
  "unmarshal \<Rightarrow> 'p provider \<Rightarrow> string \<Rightarrow> 'p \<Rightarrow> ((retriever \<Rightarrow> item outcome) outcome \<times> 'p) option" where
  "getPolicyGroupForCC um prov cc p =
     (case prov cc p of
        None \<Rightarrow> None
      | Some (Inl f, p1) \<Rightarrow> Some (Inl (withMessageF ''error querying chaincode'' f), p1)
      | Some (Inr env, p1) \<Rightarrow> Some (CompileSignaturePolicy um env, p1))"

fun policyGroupsFor ::
  "unmarshal \<Rightarrow> 'p provider \<Rightarrow> string list \<Rightarrow> 'p \<Rightarrow> ((retriever \<Rightarrow> item outcome) list outcome \<times> 'p) option" where
  "policyGroupsFor um prov [] p = Some (Inr [], p)"
| "policyGroupsFor um prov (cc # ccs) p =
     (case getPolicyGroupForCC um prov cc p of
        None \<Rightarrow> None
      | Some (Inl f, p1) \<Rightarrow> Some (Inl (withMessageF ''error retrieving signature policy'' f), p1)
      | Some (Inr g, p1) \<Rightarrow>
          (case policyGroupsFor um prov ccs p1 of
             None \<Rightarrow> None
           | Some (Inl f, p2) \<Rightarrow> Some (Inl f, p2)
           | Some (Inr gs, p2) \<Rightarrow> Some (Inr (g # gs), p2)))"

text \<open>All policies together: as many of the groups as there are chaincodes (\<open>int32(len(policyGroups))\<close>).\<close>

definition aggregatePolicyGroupRetriever :: "(retriever \<Rightarrow> item outcome) list \<Rightarrow> retriever \<Rightarrow> item outcome" where
  "aggregatePolicyGroupRetriever policyGroups ret =
     (case mapE (\<lambda>f. f ret) policyGroups of
        Inl e \<Rightarrow> Inl e
      | Inr groups \<Rightarrow> Nof (NewGroupOfGroups groups) (of_nat (length policyGroups)))"

definition createPGResolver ::
  "unmarshal \<Rightarrow> 'p provider \<Rightarrow> resolverKey \<Rightarrow> 'p \<Rightarrow> ((retriever \<Rightarrow> item outcome) outcome \<times> 'p) option" where
  "createPGResolver um prov key p =
     (case policyGroupsFor um prov (rkChaincodeIDs key) p of
        None \<Rightarrow> None
      | Some (Inl f, p1) \<Rightarrow> Some (Inl f, p1)
      | Some (Inr policyGroups, p1) \<Rightarrow> Some (Inr (aggregatePolicyGroupRetriever policyGroups), p1))"

text \<open>The cache of resolvers: a resolver that was created is kept under its key until it expires, an error is not
  kept (the cache itself is the subject of \<open>LazyCache\<close>).\<close>

definition getPeerGroupResolver ::
  "unmarshal \<Rightarrow> 'p provider \<Rightarrow> string list \<Rightarrow> 'p SelectionService \<Rightarrow>
   ((retriever \<Rightarrow> item outcome) outcome \<times> 'p SelectionService) option" where
  "getPeerGroupResolver um prov chaincodeIDs s =
     (let key = newResolverKey (dsChannelID s) chaincodeIDs in
      case pgResolvers s (rkKey key) of
        Some f \<Rightarrow> Some (Inr f, s)
      | None \<Rightarrow>
         (case createPGResolver um prov key (dsProvider s) of
            None \<Rightarrow> None
          | Some (Inl f, p1) \<Rightarrow> Some (Inl f, s\<lparr>dsProvider := p1\<rparr>)
          | Some (Inr f, p1) \<Rightarrow> Some (Inr f, s\<lparr>dsProvider := p1, pgResolvers := (pgResolvers s)(rkKey key \<mapsto> f)\<rparr>)))"

definition expireResolver :: "string \<Rightarrow> 'p SelectionService \<Rightarrow> 'p SelectionService" where
  "expireResolver key s = s\<lparr>pgResolvers := (pgResolvers s)(key := None)\<rparr>"

text \<open>The options a selection service is called with, as far as they matter to both services: the filter, and the
  sorter, which \<open>WithPrioritySelector\<close> sets too.\<close>

record sel_params =
  spFilter :: "(peer \<Rightarrow> bool) option"
  spSorter :: "(peer list \<Rightarrow> peer list) option"

definition eligible :: "sel_params \<Rightarrow> peer list \<Rightarrow> peer list" where
  "eligible params peers =
     (let filtered = (case spFilter params of None \<Rightarrow> peers | Some f \<Rightarrow> filter f peers)
      in case spSorter params of None \<Rightarrow> filtered | Some srt \<Rightarrow> srt filtered)"

definition dyn_GetEndorsersForChaincode ::
  "unmarshal \<Rightarrow> 'p provider \<Rightarrow> error + peer list \<Rightarrow> nat \<Rightarrow> ChaincodeCall list \<Rightarrow> sel_params \<Rightarrow> 'p SelectionService \<Rightarrow>
   (peer list outcome \<times> 'p SelectionService) option" where
  "dyn_GetEndorsersForChaincode um prov discovered ref chaincodes params s =
     (if chaincodes = [] then Some (Inl (Err (ErrNew ''no chaincode IDs provided'')), s)
      else
        (case getPeerGroupResolver um prov (map ccID chaincodes) s of
           None \<Rightarrow> None
         | Some (Inl f, s1) \<Rightarrow> Some (Inl (withMessageF ''Error getting peer group resolver'' f), s1)
         | Some (Inr resolver, s1) \<Rightarrow>
            (case discovered of
               Inl e \<Rightarrow> Some (Inl (Err e), s1)
             | Inr peers \<Rightarrow>
                (case Resolve ref resolver lbp_Choose (the (pgLBP s1)) (eligible params peers) of
                   Inl f \<Rightarrow> Some (Inl f, s1)
                 | Inr (peerGroup, l) \<Rightarrow> Some (Inr (Peers peerGroup), s1\<lparr>pgLBP := Some l\<rparr>)))))"

section \<open>The static selection service\<close>

text \<open>An error of the discovery service becomes no peers and no error.\<close>

definition static_GetEndorsersForChaincode ::
  "error + peer list \<Rightarrow> ChaincodeCall list \<Rightarrow> sel_params \<Rightarrow> error + peer list" where
  "static_GetEndorsersForChaincode discovered chaincodes params =
     (case discovered of Inl e \<Rightarrow> Inr [] | Inr peers \<Rightarrow> Inr (eligible params peers))"

section \<open>Keys do not collide\<close>

abbreviation plain :: "string \<Rightarrow> bool" where
  "plain s \<equiv> CHR '':'' \<notin> set s"

lemma append_sep_eq:
  assumes "plain x" "plain y" "x @ CHR '':'' # u = y @ CHR '':'' # v"
  shows "x = y \<and> u = v"
  using assms by (induction x arbitrary: y) (auto simp: Cons_eq_append_conv append_eq_Cons_conv)

lemma append_sep_neq: "plain y \<Longrightarrow> x @ CHR '':'' # u \<noteq> y"
  by (metis in_set_conv_decomp)

lemma Join_inj:
  assumes "Join xs '':'' = Join ys '':''" "xs \<noteq> []" "ys \<noteq> []" "\<forall>x \<in> set xs. plain x" "\<forall>y \<in> set ys. plain y"
  shows "xs = ys"
  using assms
proof (induction xs arbitrary: ys)
  case (Cons x xs)
  obtain y ys' where ys: "ys = y # ys'" using Cons.prems(3) by (cases ys) auto
  have pl: "plain x" "plain y" using Cons.prems(4,5) ys by simp_all
  consider "xs = []" "ys' = []" | "xs = []" "ys' \<noteq> []" | "xs \<noteq> []" "ys' = []" | "xs \<noteq> []" "ys' \<noteq> []" by blast
  then show ?case
  proof cases
    case 4
    then have "x @ CHR '':'' # Join xs '':'' = y @ CHR '':'' # Join ys' '':''"
      using Cons.prems(1) ys by (cases xs; cases ys') auto
    then have "x = y" "Join xs '':'' = Join ys' '':''" using append_sep_eq pl by blast+
    then show ?thesis using Cons.IH [of ys'] Cons.prems(4,5) 4 ys by simp
  qed (use Cons.prems(1) ys pl append_sep_neq in \<open>cases xs; cases ys'; force\<close>)+
qed simp

lemma sort_nonempty: "xs \<noteq> [] \<Longrightarrow> sort xs \<noteq> []"
  by (metis length_sort length_0_conv)

lemma rkKey_inj:
  assumes "rkKey (newResolverKey ch xs) = rkKey (newResolverKey ch ys)" "xs \<noteq> []" "ys \<noteq> []"
    and "\<forall>x \<in> set xs. plain x" "\<forall>y \<in> set ys. plain y"
  shows "sort xs = sort ys"
proof (rule Join_inj)
  show "sort xs \<noteq> []" "sort ys \<noteq> []" using assms(2,3) by (simp_all add: sort_nonempty)
qed (use assms in \<open>simp_all add: newResolverKey_def Let_def\<close>)

section \<open>The aggregate of the policies\<close>

abbreviation fulfils :: "unmarshal \<Rightarrow> SignaturePolicyEnvelope \<Rightarrow> peer set \<Rightarrow> bool" where
  "fulfils um env \<equiv> satisfies um (Identities env) (Rule env)"

abbreviation wf_envelope :: "unmarshal \<Rightarrow> SignaturePolicyEnvelope \<Rightarrow> bool" where
  "wf_envelope um env \<equiv> wf_policy um (Identities env) (Rule env)"

definition compiled :: "unmarshal \<Rightarrow> (string \<Rightarrow> SignaturePolicyEnvelope) \<Rightarrow> string list \<Rightarrow> (retriever \<Rightarrow> item outcome) list \<Rightarrow> bool" where
  "compiled um P ids fs = list_all2 (\<lambda>i f. CompileSignaturePolicy um (P i) = Inr f) ids fs"

lemma compiled_length: "compiled um P ids fs \<Longrightarrow> length fs = length ids"
  by (auto simp: compiled_def dest: list_all2_lengthD)

lemma CompileSignaturePolicy_hierarchy:
  assumes "CompileSignaturePolicy um env = Inr f" "f r = Inr h"
  shows "wf_envelope um env" "reducible r h" "approves h S \<longleftrightarrow> fulfils um env S"
proof -
  have "compile um (Identities env) (Rule env) = Inr f"
    using assms(1) by (simp add: CompileSignaturePolicy_def split: sum.splits failure.splits)
  then show wf: "wf_envelope um env" using assms(2) by (rule compile_wf)
  obtain h' where "f r = Inr h'" "reducible r h'" "\<forall>S. approves h' S \<longleftrightarrow> fulfils um env S"
    using CompileSignaturePolicy_sound [OF wf] assms(1) by (metis Inr_inject)
  then show "reducible r h" "approves h S \<longleftrightarrow> fulfils um env S" using assms(2) by simp_all
qed

lemma sint_of_nat_int32: "n < 2 ^ 31 \<Longrightarrow> sint (of_nat n :: int32) = int n"
  by (simp add: signed_of_nat signed_take_bit_int_eq_self)

lemma all_filter_length: "int (length xs) \<le> int (length (filter P xs)) \<longleftrightarrow> (\<forall>x \<in> set xs. P x)"
proof
  assume le: "int (length xs) \<le> int (length (filter P xs))"
  show "\<forall>x \<in> set xs. P x"
  proof (rule ccontr)
    assume "\<not> (\<forall>x \<in> set xs. P x)"
    then obtain x where "x \<in> set xs" "\<not> P x" by blast
    from length_filter_less [of x xs P, OF this] le show False by simp
  qed
qed (simp add: filter_True)

lemma aggregate_sound:
  assumes comp: "compiled um P ids fs" and ids: "ids \<noteq> []" "length ids < 2 ^ 31"
    and run: "aggregatePolicyGroupRetriever fs r = Inr h"
  shows "reducible r h" "approves h S \<longleftrightarrow> (\<forall>i \<in> set ids. fulfils um (P i) S)"
proof -
  from run obtain gs where gs: "list_all2 (\<lambda>f g. f r = Inr g) fs gs" "Nof (GroupsImpl gs) (of_nat (length fs)) = Inr h"
    by (auto simp: aggregatePolicyGroupRetriever_def NewGroupOfGroups_def mapE_Inr_iff split: sum.splits)
  have len: "length fs = length ids" "length gs = length ids"
    using compiled_length [OF comp] list_all2_lengthD [OF gs(1)] by simp_all
  have nth: "reducible r (gs ! k) \<and> (approves (gs ! k) S \<longleftrightarrow> fulfils um (P (ids ! k)) S)" if "k < length ids" for k S
    using CompileSignaturePolicy_hierarchy [of um "P (ids ! k)" "fs ! k" r "gs ! k"] comp gs(1) that len
    by (simp add: compiled_def list_all2_conv_all_nth)
  have n: "sint (of_nat (length fs) :: int32) = int (length gs)" using sint_of_nat_int32 ids(2) len by simp
  have "\<forall>g \<in> set gs. reducible r g" using nth len by (auto simp: in_set_conv_nth)
  from reducible_Nof [OF this, of "of_nat (length fs)"] gs(2) n ids(1) len
  have h: "reducible r h" "approves h S \<longleftrightarrow> int (length gs) \<le> int (length (filter (\<lambda>x. approves x S) gs))"
    by auto
  show "reducible r h" by (rule h(1))
  have "approves h S \<longleftrightarrow> (\<forall>g \<in> set gs. approves g S)"
    unfolding h(2) by (rule all_filter_length)
  also have "\<dots> \<longleftrightarrow> (\<forall>i \<in> set ids. fulfils um (P i) S)" using nth len by (auto simp: all_set_conv_all_nth)
  finally show "approves h S \<longleftrightarrow> (\<forall>i \<in> set ids. fulfils um (P i) S)" .
qed

lemma aggregate_total:
  assumes comp: "compiled um P ids fs" and ids: "ids \<noteq> []" "length ids < 2 ^ 31" and wf: "\<forall>i \<in> set ids. wf_envelope um (P i)"
  shows "\<exists>h. aggregatePolicyGroupRetriever fs r = Inr h"
proof -
  have "\<exists>g. f r = Inr g" if "f \<in> set fs" for f
  proof -
    obtain k where k: "k < length fs" "f = fs ! k" using \<open>f \<in> set fs\<close> by (auto simp: in_set_conv_nth)
    then have "CompileSignaturePolicy um (P (ids ! k)) = Inr f" "wf_envelope um (P (ids ! k))"
      using comp wf by (auto simp: compiled_def list_all2_conv_all_nth)
    then show ?thesis using CompileSignaturePolicy_sound by (metis Inr_inject)
  qed
  then obtain gs where gs: "mapE (\<lambda>f. f r) fs = Inr gs" using mapE_total [of fs "\<lambda>f. f r"] by blast
  then have "length gs = length fs" by (auto simp: mapE_Inr_iff dest: list_all2_lengthD)
  then show ?thesis
    using gs ids compiled_length [OF comp]
    by (simp add: aggregatePolicyGroupRetriever_def Nof_def NewGroupOfGroups_def sint_of_nat_int32)
qed

section \<open>The invariant of the service\<close>

fun lbp_ok :: "lbp \<Rightarrow> bool" where
  "lbp_ok (RandomLBP src k) = True"
| "lbp_ok (RoundRobinLBP seed idx) = (- 1 \<le> idx)"

interpretation service_lbp: group_policy lbp_Choose lbp_ok
proof
  fix b gs assume ok: "lbp_ok b"
  then show "Peers (fst (lbp_Choose b [])) = []"
    by (cases b) (simp_all add: random_group.pick_none roundrobin_group.pick_none case_prod_beta)
  show "lbp_ok (snd (lbp_Choose b gs))"
    using ok by (cases b) (auto simp: case_prod_beta intro: roundrobin_group.pick_keeps)
  show "fst (lbp_Choose b gs) \<in> set gs" if "gs \<noteq> []"
    using ok that by (cases b) (auto simp: case_prod_beta intro: random_group.pick_member roundrobin_group.pick_member)
qed

text \<open>Every cached resolver is the aggregate of the policies \<open>P\<close> of the chaincodes of its key.\<close>

definition service_ok :: "unmarshal \<Rightarrow> (string \<Rightarrow> SignaturePolicyEnvelope) \<Rightarrow> 'p SelectionService \<Rightarrow> bool" where
  "service_ok um P s \<longleftrightarrow>
     (\<exists>l. pgLBP s = Some l \<and> lbp_ok l) \<and>
     (\<forall>k f. pgResolvers s k = Some f \<longrightarrow>
        (\<exists>ids fs. ids \<noteq> [] \<and> (\<forall>i \<in> set ids. plain i) \<and> k = rkKey (newResolverKey (dsChannelID s) ids) \<and>
           compiled um P (sort ids) fs \<and> f = aggregatePolicyGroupRetriever fs))"

lemma rkChaincodeIDs_new [simp]: "rkChaincodeIDs (newResolverKey ch ids) = sort ids"
  by (simp add: newResolverKey_def Let_def)

section \<open>The interface of the policy provider\<close>

text \<open>A provider that always returns and, in its good states, answers for the known chaincodes with the policies \<open>P\<close>
  or not at all.\<close>

locale policy_provider =
  fixes prov :: "'p provider"
    and ok :: "'p \<Rightarrow> bool"
    and P :: "string \<Rightarrow> SignaturePolicyEnvelope"
    and known :: "string set"
  assumes prov_returns: "ok p \<Longrightarrow> cc \<in> known \<Longrightarrow> \<exists>r p1. prov cc p = Some (r, p1) \<and> ok p1 \<and> (\<forall>env. r = Inr env \<longrightarrow> env = P cc)"
begin

definition answered :: "string \<Rightarrow> bool" where
  "answered cc \<longleftrightarrow> (\<forall>p. ok p \<longrightarrow> (\<exists>p1. prov cc p = Some (Inr (P cc), p1)))"

lemma policyGroupsFor_sound:
  assumes "ok p" "set ids \<subseteq> known"
  shows "\<exists>r p1. policyGroupsFor um prov ids p = Some (r, p1) \<and> ok p1 \<and> (\<forall>fs. r = Inr fs \<longrightarrow> compiled um P ids fs) \<and>
    ((\<forall>i \<in> set ids. wf_envelope um (P i) \<and> answered i) \<longrightarrow> (\<exists>fs. r = Inr fs))"
  using assms
proof (induction ids arbitrary: p)
  case (Cons i ids)
  then obtain r p1 where r: "prov i p = Some (r, p1)" "ok p1" "\<forall>env. r = Inr env \<longrightarrow> env = P i"
    using prov_returns [of p i] by auto
  have ans: "r = Inr (P i)" if "answered i" using that r(1) Cons.prems(1) by (auto simp: answered_def)
  show ?case
  proof (cases "r = Inr (P i) \<and> (\<exists>f. CompileSignaturePolicy um (P i) = Inr f)")
    case True
    then obtain f where f: "r = Inr (P i)" "CompileSignaturePolicy um (P i) = Inr f" by blast
    obtain r' p2 where r': "policyGroupsFor um prov ids p1 = Some (r', p2)" "ok p2" "\<forall>fs. r' = Inr fs \<longrightarrow> compiled um P ids fs"
      "(\<forall>i \<in> set ids. wf_envelope um (P i) \<and> answered i) \<longrightarrow> (\<exists>fs. r' = Inr fs)" using Cons.IH [OF r(2)] Cons.prems(2) by auto
    have g: "getPolicyGroupForCC um prov i p = Some (Inr f, p1)" using r(1) f by (simp add: getPolicyGroupForCC_def)
    show ?thesis
    proof (cases r')
      case (Inl e)
      then show ?thesis using r' g by auto
    next
      case (Inr fs)
      moreover from this have "compiled um P (i # ids) (f # fs)" using r'(3) f(2) by (simp add: compiled_def)
      ultimately show ?thesis using r'(1,2) g by simp
    qed
  next
    case False
    then obtain e where e: "getPolicyGroupForCC um prov i p = Some (Inl e, p1)"
      using r by (cases r; cases "CompileSignaturePolicy um (P i)") (auto simp: getPolicyGroupForCC_def)
    have "\<not> (wf_envelope um (P i) \<and> answered i)" using False ans CompileSignaturePolicy_sound [of um "P i"] by blast
    then have "\<not> (\<forall>i \<in> set (i # ids). wf_envelope um (P i) \<and> answered i)" by auto
    then show ?thesis using e r(2) by simp
  qed
qed (simp add: compiled_def)

lemma getPeerGroupResolver_sound:
  assumes s: "service_ok um P s" "ok (dsProvider s)" and ids: "ids \<noteq> []" "\<forall>i \<in> set ids. plain i" "set ids \<subseteq> known"
  shows "\<exists>r s1. getPeerGroupResolver um prov ids s = Some (r, s1) \<and> service_ok um P s1 \<and> ok (dsProvider s1) \<and>
    (\<forall>f. r = Inr f \<longrightarrow> (\<exists>fs. compiled um P (sort ids) fs \<and> f = aggregatePolicyGroupRetriever fs)) \<and>
    ((\<forall>i \<in> set ids. wf_envelope um (P i) \<and> answered i) \<longrightarrow> (\<exists>f. r = Inr f))"
proof (cases "pgResolvers s (rkKey (newResolverKey (dsChannelID s) ids))")
  case (Some g)
  then have r: "getPeerGroupResolver um prov ids s = Some (Inr g, s)" by (simp add: getPeerGroupResolver_def)
  from s(1) Some obtain ids' fs where "ids' \<noteq> []" "\<forall>i \<in> set ids'. plain i"
    "rkKey (newResolverKey (dsChannelID s) ids) = rkKey (newResolverKey (dsChannelID s) ids')"
    "compiled um P (sort ids') fs" "g = aggregatePolicyGroupRetriever fs"
    unfolding service_ok_def by blast
  then show ?thesis using rkKey_inj [of "dsChannelID s" ids ids'] ids s r by auto
next
  case None
  obtain r p1 where r: "policyGroupsFor um prov (sort ids) (dsProvider s) = Some (r, p1)" "ok p1"
    "\<forall>fs. r = Inr fs \<longrightarrow> compiled um P (sort ids) fs" "(\<forall>i \<in> set ids. wf_envelope um (P i) \<and> answered i) \<longrightarrow> (\<exists>fs. r = Inr fs)"
    using policyGroupsFor_sound [OF s(2), of "sort ids" um] ids(3) by auto
  show ?thesis
  proof (cases r)
    case (Inl e)
    then have "getPeerGroupResolver um prov ids s = Some (Inl e, s\<lparr>dsProvider := p1\<rparr>)"
      using None r(1) by (simp add: getPeerGroupResolver_def createPGResolver_def Let_def)
    then show ?thesis using s(1) r Inl by (simp add: service_ok_def)
  next
    case (Inr fs)
    let ?g = "aggregatePolicyGroupRetriever fs"
    let ?s1 = "s\<lparr>dsProvider := p1, pgResolvers := (pgResolvers s)(rkKey (newResolverKey (dsChannelID s) ids) \<mapsto> ?g)\<rparr>"
    have "getPeerGroupResolver um prov ids s = Some (Inr ?g, ?s1)"
      using None r(1) Inr by (simp add: getPeerGroupResolver_def createPGResolver_def Let_def)
    moreover have "service_ok um P ?s1" using s(1) r(3) Inr ids(1,2) unfolding service_ok_def by auto
    ultimately show ?thesis using r Inr by auto
  qed
qed

lemma endorsers_satisfy:
  assumes s: "service_ok um P s" "ok (dsProvider s)"
    and ccs: "chaincodes \<noteq> []" "\<forall>c \<in> set chaincodes. plain (ccID c) \<and> ccID c \<in> known" "length chaincodes < 2 ^ 31"
  shows "\<exists>r s1. dyn_GetEndorsersForChaincode um prov (Inr peers) ref chaincodes params s = Some (r, s1) \<and>
    service_ok um P s1 \<and> ok (dsProvider s1) \<and>
    (\<forall>ps. r = Inr ps \<longrightarrow>
       (if \<forall>c \<in> set chaincodes. fulfils um (P (ccID c)) (set (eligible params peers))
        then set ps \<subseteq> set (eligible params peers) \<and> (\<forall>c \<in> set chaincodes. fulfils um (P (ccID c)) (set ps))
        else ps = [])) \<and>
    ((\<forall>c \<in> set chaincodes. wf_envelope um (P (ccID c)) \<and> answered (ccID c)) \<longrightarrow> (\<exists>ps. r = Inr ps))"
proof -
  let ?ids = "map ccID chaincodes" and ?av = "eligible params peers"
  obtain rr s2 where g: "getPeerGroupResolver um prov ?ids s = Some (rr, s2)" and s2: "service_ok um P s2" "ok (dsProvider s2)"
    and sound: "\<And>f. rr = Inr f \<Longrightarrow> \<exists>fs. compiled um P (sort ?ids) fs \<and> f = aggregatePolicyGroupRetriever fs"
    and total: "\<forall>i \<in> set ?ids. wf_envelope um (P i) \<and> answered i \<Longrightarrow> \<exists>f. rr = Inr f"
  proof -
    have "?ids \<noteq> []" "\<forall>i \<in> set ?ids. plain i" "set ?ids \<subseteq> known" using ccs(1,2) by auto
    from getPeerGroupResolver_sound [OF s this] that show ?thesis by blast
  qed
  show ?thesis
  proof (cases rr)
    case (Inl e)
    then have "dyn_GetEndorsersForChaincode um prov (Inr peers) ref chaincodes params s =
        Some (Inl (withMessageF ''Error getting peer group resolver'' e), s2)"
      using ccs(1) g by (simp add: dyn_GetEndorsersForChaincode_def)
    moreover have "\<not> (\<forall>c \<in> set chaincodes. wf_envelope um (P (ccID c)) \<and> answered (ccID c))" using total Inl by auto
    ultimately show ?thesis using s2 by blast
  next
    case (Inr f)
    then obtain fs where fs: "compiled um P (sort ?ids) fs" "f = aggregatePolicyGroupRetriever fs" using sound by blast
    from s2(1) obtain l where l: "pgLBP s2 = Some l" "lbp_ok l" by (auto simp: service_ok_def)
    have ids: "sort ?ids \<noteq> []" "length (sort ?ids) < 2 ^ 31"
      using sort_nonempty [of ?ids] ccs by simp_all
    show ?thesis
    proof (cases "f (peerRetrieverOf ?av)")
      case (Inl e)
      then have "Resolve ref f lbp_Choose l ?av = Inl e" by (simp add: Resolve_def getPeerGroups_def)
      then have "dyn_GetEndorsersForChaincode um prov (Inr peers) ref chaincodes params s = Some (Inl e, s2)"
        using ccs(1) g l \<open>rr = Inr f\<close> by (simp add: dyn_GetEndorsersForChaincode_def)
      moreover have "\<not> (\<forall>i \<in> set (sort ?ids). wf_envelope um (P i))"
        using aggregate_total [OF fs(1) ids, of "peerRetrieverOf ?av"] Inl fs(2) by auto
      ultimately show ?thesis using s2 by auto
    next
      case h: (Inr h)
      note agg = aggregate_sound [OF fs(1) ids h [unfolded fs(2)]]
      obtain grp l1 where res: "Resolve ref f lbp_Choose l ?av = Inr (grp, l1)" "lbp_ok l1"
        "if approves h (set ?av) then set (Peers grp) \<subseteq> set ?av \<and> approves h (set (Peers grp)) else Peers grp = []"
        using service_lbp.resolve_reducible [of f ?av h l ref, OF h agg(1) l(2)] by blast
      then have "dyn_GetEndorsersForChaincode um prov (Inr peers) ref chaincodes params s = Some (Inr (Peers grp), s2\<lparr>pgLBP := Some l1\<rparr>)"
        using ccs(1) g l \<open>rr = Inr f\<close> by (simp add: dyn_GetEndorsersForChaincode_def)
      moreover have "service_ok um P (s2\<lparr>pgLBP := Some l1\<rparr>)" using s2(1) res(2) by (simp add: service_ok_def)
      ultimately show ?thesis using res(3) s2(2) unfolding agg(2) by simp
    qed
  qed
qed

end

section \<open>Properties of the policy provider\<close>

lemma query_options:
  "\<exists>o1. prepareOptsFromOptions ([WithTargets [Some p]] @ [addDefaultTimeout t Query, addDefaultTargetFilter cfg chps ChaincodeQuery]) = Inr o1 \<and>
     Attempts (roRetry o1) = 0"
  by (simp add: prepareOptsFromOptions_def WithTargets_def addDefaultTimeout_def addDefaultTargetFilter_def WithTimeout_def
      WithTargetFilter_def zeroOptions_def)

lemma query_one_peer:
  "isRejected (client_Query c request [WithTargets [Some p]] gl tr) \<or>
   (\<exists>s t. finalState (client_Query c request [WithTargets [Some p]] gl tr) = Some s \<and> trace s = tr @ t \<and> list_all isEndorsing t)"
proof -
  obtain o1 where o1: "prepareOptsFromOptions ([WithTargets [Some p]] @ [addDefaultTimeout (cfgTimeout c) Query,
      addDefaultTargetFilter (peerCfg c) (channelPeers c) ChaincodeQuery]) = Inr o1" "0 \<le> Attempts (roRetry o1)"
    using query_options [of p "cfgTimeout c" "peerCfg c" "channelPeers c"] by auto
  have "list_all isEndorsing (concat ts)" if "list_all (list_all isEndorsing) ts" for ts
    using that by (auto simp: list_all_iff)
  then show ?thesis using client_Query_attempts [OF o1, of request gl tr] by blast
qed

definition answeredBy :: "client_ext \<Rightarrow> Request \<Rightarrow> peer \<Rightarrow> bytes \<Rightarrow> bool" where
  "answeredBy c request p payload \<longleftrightarrow>
     (\<exists>gl tr resp s. client_Query c request [WithTargets [Some p]] gl tr = Completed resp None s \<and> payload = rPayload resp)"

lemma queryPeers_spec:
  "\<exists>r t. queryPeers x c request ps gl tr es = Some (r, tr @ t) \<and> list_all isEndorsing t \<and>
     (\<forall>es1 payload. r = Inr (es1, payload) \<longrightarrow>
        (\<exists>k \<le> length ps. length es1 = length es + k \<and> (k < length ps \<longrightarrow> answeredBy c request (ps ! k) payload)))"
proof (induction ps arbitrary: gl tr es)
  case (Cons p ps)
  let ?q = "client_Query c request [WithTargets [Some p]] gl tr"
  have next_peer: "\<exists>r t. queryPeers x c request ps gl1 (tr @ t1) (es @ [e]) = Some (r, tr @ t) \<and> list_all isEndorsing t \<and>
     (\<forall>es1 payload. r = Inr (es1, payload) \<longrightarrow> (\<exists>k \<le> length (p # ps). length es1 = length es + k \<and>
        (k < length (p # ps) \<longrightarrow> answeredBy c request ((p # ps) ! k) payload)))" if "list_all isEndorsing t1" for gl1 t1 e
  proof -
    from Cons.IH [of gl1 "tr @ t1" "es @ [e]"] obtain r t where
      r: "queryPeers x c request ps gl1 (tr @ t1) (es @ [e]) = Some (r, (tr @ t1) @ t)" "list_all isEndorsing t"
      and k: "\<And>es1 payload. r = Inr (es1, payload) \<Longrightarrow> \<exists>k \<le> length ps. length es1 = length (es @ [e]) + k \<and>
         (k < length ps \<longrightarrow> answeredBy c request (ps ! k) payload)"
      by blast
    have "\<exists>k \<le> length (p # ps). length es1 = length es + k \<and>
        (k < length (p # ps) \<longrightarrow> answeredBy c request ((p # ps) ! k) payload)" if res: "r = Inr (es1, payload)" for es1 payload
    proof -
      from k [OF res] obtain k where "k \<le> length ps" "length es1 = length (es @ [e]) + k"
        "k < length ps \<longrightarrow> answeredBy c request (ps ! k) payload" by blast
      then show ?thesis by (intro exI [of _ "Suc k"]) simp
    qed
    with r that show ?thesis by (intro exI [of _ r] exI [of _ "t1 @ t"]) simp
  qed
  from query_one_peer [of c request p gl tr] show ?case
  proof (elim disjE exE conjE)
    assume "isRejected ?q"
    then obtain e where "?q = Rejected e" by (auto simp: isRejected_def split: invocation.splits)
    then show ?thesis using next_peer [of "[]" gl] by simp
  next
    fix s t assume q: "finalState ?q = Some s" "trace s = tr @ t" "list_all isEndorsing t"
    then consider "?q = Crashed s" | resp e where "?q = Completed resp (Some e) s" | resp where "?q = Completed resp None s"
      by (auto simp: finalState_def split: invocation.splits)
    then show ?thesis
    proof cases
      case (3 resp)
      then have "answeredBy c request p (rPayload resp)" unfolding answeredBy_def by blast
      then show ?thesis using 3 q(2,3) by (auto intro!: exI [of _ 0])
    qed (use q next_peer [of t "greylist s"] in auto)
  qed
qed simp

text \<open>
  Querying a chaincode ends and changes nothing on the channel: it only asks for endorsements. A
  result is the payload of a discovered peer that answered the query; when no peer answered, or none
  was discovered, the result is an error or a panic.
\<close>

theorem queryChaincode_result:
  "\<exists>r t. queryChaincode cx dp cc fcn ccArgs = Some (r, cpTrace dp @ t) \<and> list_all isEndorsing t \<and>
     (\<forall>payload. r = Inr payload \<longrightarrow> (\<exists>cl peers p. channel_New (ccChannel cx) [] = Inr cl \<and> ccPeers cx = Inr peers \<and> p \<in> set peers \<and>
        answeredBy (chContext cl) \<lparr>rqChaincodeID = cc, rqFcn = fcn, rqArgs = ccArgs, rqTransientMap = [],
          rqInvocationChain = [], rqIsInit = False\<rparr> p payload))"
proof (cases "channel_New (ccChannel cx) []")
  case (Inl e)
  then show ?thesis by (simp add: queryChaincode_def)
next
  case cl: (Inr cl)
  show ?thesis
  proof (cases "ccPeers cx")
    case (Inl e)
    then show ?thesis using cl by (simp add: queryChaincode_def)
  next
    case (Inr peers)
    let ?q = "\<lparr>rqChaincodeID = cc, rqFcn = fcn, rqArgs = ccArgs, rqTransientMap = [], rqInvocationChain = [], rqIsInit = False\<rparr>"
    obtain r t where r: "queryPeers (errs (invExt (chContext cl))) (chContext cl) ?q peers (chGreylist cl) (cpTrace dp) [] = Some (r, cpTrace dp @ t)"
        "list_all isEndorsing t"
      and k: "\<And>es1 payload. r = Inr (es1, payload) \<Longrightarrow> \<exists>k \<le> length peers. length es1 = length ([]::string list) + k \<and>
         (k < length peers \<longrightarrow> answeredBy (chContext cl) ?q (peers ! k) payload)"
      using queryPeers_spec [of "errs (invExt (chContext cl))" "chContext cl" ?q peers "chGreylist cl" "cpTrace dp" "[]"] by blast
    show ?thesis
    proof (cases r)
      case (Inl f)
      then show ?thesis using r cl Inr by (simp add: queryChaincode_def)
    next
      case res: (Inr p)
      obtain es1 payload where p: "p = (es1, payload)" by (cases p)
      from k res p have "length es1 \<noteq> length peers \<Longrightarrow> \<exists>p \<in> set peers. answeredBy (chContext cl) ?q p payload"
        by (fastforce dest: nth_mem)
      then show ?thesis using r cl Inr res p by (auto simp: queryChaincode_def)
    qed
  qed
qed

text \<open>
  The policy cache is read and written under different keys. A policy that was read is found again
  under the name of the channel, a dash and the chaincode ID: asking for the policy of a chaincode of that
  name returns the policy of the other chaincode, without a query; and the chaincode itself is not in the
  cache after it was read, unless it was before.
\<close>

theorem policy_cache_mixup:
  assumes "cc \<noteq> ''''" "ccDataMap dp cc = None" "GetChaincodePolicy cx cc dp = Some (Inr env, dp1)"
  shows "GetChaincodePolicy cx (cpChannelID dp @ ''-'' @ cc) dp1 = Some (Inr env, dp1) \<and> ccDataMap dp1 cc = None"
proof -
  have "cpChannelID dp @ CHR ''-'' # cc \<noteq> cc" using arg_cong [of _ _ length] by fastforce
  then show ?thesis
    using assms by (auto simp: GetChaincodePolicy_def newResolverKey_def Let_def split: option.splits sum.splits)
qed

text \<open>A provider whose only peer answers with a policy.\<close>

definition test_lscc :: cc_ext where
  "test_lscc = \<lparr>ccChannel = \<lparr>channelContext = Inr test_client, hasChannelService = True, eventServiceError = None, membershipError = None\<rparr>,
     ccPeers = Inr [test_peer ''a''], unmarshalCCData = (\<lambda>b. Inr b), unmarshalEnvelope = (\<lambda>b. Inr two_orgs)\<rparr>"

definition test_lscc_request :: "bytes list \<Rightarrow> Request" where
  "test_lscc_request ccArgs = \<lparr>rqChaincodeID = ''lscc'', rqFcn = ''getccdata'', rqArgs = ccArgs, rqTransientMap = [],
     rqInvocationChain = [], rqIsInit = False\<rparr>"

definition test_query_options :: requestOptions where
  "test_query_options = zeroOptions\<lparr>roTimeouts := (\<lambda>_. 0)(Query := 180), roOpts := (roOpts zeroOptions)\<lparr>Targets := [test_peer ''a'']\<rparr>\<rparr>"

lemma test_query_options:
  "prepareOptsFromOptions ([WithTargets [Some (test_peer ''a'')]] @ [addDefaultTimeout (cfgTimeout test_client) Query,
      addDefaultTargetFilter (peerCfg test_client) (channelPeers test_client) ChaincodeQuery]) = Inr test_query_options"
  by (simp add: prepareOptsFromOptions_def WithTargets_def addDefaultTimeout_def addDefaultTargetFilter_def WithTimeout_def
      zeroOptions_def test_client_def test_query_options_def)

lemma test_query_attempt:
  "\<exists>s1. attempt ((invExt test_client)\<lparr>transactor := \<lparr>tChannelID = ''ch'', tOrderers = [''o1'', ''o2'']\<rparr>\<rparr>) (NewQueryHandler [])
      \<lparr>rctx = (test_context (snd (createReqContext test_client test_query_options)))\<lparr>rcRequest := test_lscc_request ccArgs\<rparr>,
       greylist = gl, trace = tr\<rparr> = (Inr False, s1) \<and> rcError (rctx s1) = None"
  by (simp add: attempt_def Handle_query runProposalProcessor_def run_defs test_defs delete_at_def test_client_def test_context_def test_query_options_def
      createReqContext_def zeroOptions_def test_lscc_request_def)

lemma test_query:
  "\<exists>resp s. client_Query test_client (test_lscc_request ccArgs) [WithTargets [Some (test_peer ''a'')]] gl tr = Completed resp None s"
proof -
  let ?o = "snd (createReqContext test_client test_query_options)"
  let ?e = "(invExt test_client)\<lparr>transactor := \<lparr>tChannelID = ''ch'', tOrderers = [''o1'', ''o2'']\<rparr>\<rparr>"
  let ?rc = "(test_context ?o)\<lparr>rcRequest := test_lscc_request ccArgs\<rparr>"
  obtain s1 where a: "attempt ?e (NewQueryHandler []) \<lparr>rctx = ?rc, greylist = gl, trace = tr\<rparr> = (Inr False, s1)"
    "rcError (rctx s1) = None"
    using test_query_attempt by blast
  have p: "prepareHandlerContexts test_client (test_lscc_request ccArgs) ?o = Inr (?rc, ?e, retry_New (retryCodes test_client) (roRetry ?o))"
    by (simp add: prepareHandlerContexts_def test_lscc_request_def test_client_def test_context_def)
  have i: "Invoke req hook (attempt ?e (NewQueryHandler [])) 0 i \<lparr>rctx = ?rc, greylist = gl, trace = tr\<rparr> =
      Some (Inr False, 1, i, s1)" for req hook i
    by (subst Retry.Invoke.simps) (simp add: a)
  show ?thesis
    using InvokeHandler_run [OF test_query_options refl p i] a(2) by (simp add: client_Query_def test_client_def)
qed

lemma test_lscc_query:
  "\<exists>payload tr. queryChaincode test_lscc dp ''lscc'' ''getccdata'' ccArgs = Some (Inr payload, tr)"
proof -
  obtain resp s where q: "client_Query test_client (test_lscc_request ccArgs) [WithTargets [Some (test_peer ''a'')]] (greylist_New 180) (cpTrace dp) = Completed resp None s"
    using test_query by blast
  have gl: "cfgTimeout test_client DiscoveryGreylistExpiry = 180" by (simp add: test_client_def)
  show ?thesis
    using q by (simp add: queryChaincode_def test_lscc_def channel_New_def gl test_lscc_request_def)
qed

lemma test_policy: "cc \<noteq> '''' \<Longrightarrow> \<exists>dp1. GetChaincodePolicy test_lscc cc dp = Some (Inr two_orgs, dp1)"
  using test_lscc_query [of dp "[asBytes (cpChannelID dp), asBytes cc]"]
  by (auto simp: GetChaincodePolicy_def unmarshalPolicy_def test_lscc_def Let_def split: option.split)

theorem policy_cache_mixup_witness:
  "\<exists>dp1. GetChaincodePolicy test_lscc ''ch-cc'' dp1 = Some (Inr two_orgs, dp1) \<and> ccDataMap dp1 ''cc'' = None"
proof -
  obtain dp1 where "GetChaincodePolicy test_lscc ''cc'' \<lparr>cpChannelID = ''ch'', ccDataMap = Map.empty, cpTrace = []\<rparr> = Some (Inr two_orgs, dp1)"
    using test_policy by blast
  from policy_cache_mixup [OF _ _ this] show ?thesis by auto
qed

theorem queryChaincode_result_witness:
  "\<exists>payload t. queryChaincode test_lscc \<lparr>cpChannelID = ''ch'', ccDataMap = Map.empty, cpTrace = []\<rparr> ''lscc'' ''getccdata''
      [asBytes ''ch'', asBytes ''cc''] = Some (Inr payload, t) \<and> list_all isEndorsing t \<and>
    answeredBy test_client (test_lscc_request [asBytes ''ch'', asBytes ''cc'']) (test_peer ''a'') payload"
proof -
  obtain resp s where q: "client_Query test_client (test_lscc_request [asBytes ''ch'', asBytes ''cc'']) [WithTargets [Some (test_peer ''a'')]] (greylist_New 180) [] = Completed resp None s"
    using test_query by blast
  have gl: "cfgTimeout test_client DiscoveryGreylistExpiry = 180" by (simp add: test_client_def)
  have "queryChaincode test_lscc \<lparr>cpChannelID = ''ch'', ccDataMap = Map.empty, cpTrace = []\<rparr> ''lscc'' ''getccdata''
      [asBytes ''ch'', asBytes ''cc''] = Some (Inr (rPayload resp), trace s)"
    using q by (simp add: queryChaincode_def test_lscc_def channel_New_def gl test_lscc_request_def)
  with queryChaincode_result [of test_lscc "\<lparr>cpChannelID = ''ch'', ccDataMap = Map.empty, cpTrace = []\<rparr>" "''lscc''" "''getccdata''"
      "[asBytes ''ch'', asBytes ''cc'']"]
  show ?thesis by (auto simp: test_lscc_def channel_New_def test_lscc_request_def)
qed

section \<open>The policy provider of the repository\<close>

text \<open>The peers answer the query for the chaincode data of a known chaincode, if they answer with a policy, with the policy \<open>P\<close>.\<close>

definition ledgerAnswers :: "cc_ext \<Rightarrow> string \<Rightarrow> (string \<Rightarrow> SignaturePolicyEnvelope) \<Rightarrow> string set \<Rightarrow> bool" where
  "ledgerAnswers cx ch P known \<longleftrightarrow>
     (\<forall>cc \<in> known. \<forall>cl peers p payload policy env. channel_New (ccChannel cx) [] = Inr cl \<longrightarrow> ccPeers cx = Inr peers \<longrightarrow> p \<in> set peers \<longrightarrow>
        answeredBy (chContext cl) \<lparr>rqChaincodeID = ''lscc'', rqFcn = ''getccdata'', rqArgs = [asBytes ch, asBytes cc],
          rqTransientMap = [], rqInvocationChain = [], rqIsInit = False\<rparr> p payload \<longrightarrow>
        unmarshalCCData cx payload = Inr policy \<longrightarrow> unmarshalEnvelope cx policy = Inr env \<longrightarrow> env = P cc)"

text \<open>A good state of the provider: what is cached under the name of a known chaincode is its policy. As the cache is written under
  another key than it is read, no known chaincode may be called like the channel, a dash and another one (see \<open>policy_cache_mixup\<close>).\<close>

definition provider_ok :: "cc_ext \<Rightarrow> (string \<Rightarrow> SignaturePolicyEnvelope) \<Rightarrow> string set \<Rightarrow> ccPolicyProvider \<Rightarrow> bool" where
  "provider_ok cx P known dp \<longleftrightarrow>
     ledgerAnswers cx (cpChannelID dp) P known \<and>
     (\<forall>cc \<in> known. \<forall>cc' \<in> known. cc \<noteq> cpChannelID dp @ ''-'' @ cc') \<and>
     (\<forall>cc \<in> known. \<forall>policy env. ccDataMap dp cc = Some policy \<longrightarrow> unmarshalEnvelope cx policy = Inr env \<longrightarrow> env = P cc)"

lemma unmarshalPolicy_Inr: "unmarshalPolicy cx policy = Inr env \<longleftrightarrow> unmarshalEnvelope cx policy = Inr env"
  by (simp add: unmarshalPolicy_def split: sum.split)

lemma GetChaincodePolicy_ok:
  assumes ok: "provider_ok cx P known dp" and cc: "cc \<in> known"
  shows "\<exists>r dp1. GetChaincodePolicy cx cc dp = Some (r, dp1) \<and> provider_ok cx P known dp1 \<and> (\<forall>env. r = Inr env \<longrightarrow> env = P cc)"
proof (cases "cc = '''' \<or> ccDataMap dp cc \<noteq> None")
  case True
  then show ?thesis using ok cc by (auto simp: GetChaincodePolicy_def Let_def provider_ok_def unmarshalPolicy_Inr)
next
  case False
  have trace: "provider_ok cx P known (dp\<lparr>cpTrace := tr\<rparr>)" for tr using ok by (simp add: provider_ok_def)
  obtain r t where q: "queryChaincode cx dp ''lscc'' ''getccdata'' [asBytes (cpChannelID dp), asBytes cc] = Some (r, t)"
    and ans: "\<And>payload. r = Inr payload \<Longrightarrow> \<exists>cl peers p. channel_New (ccChannel cx) [] = Inr cl \<and> ccPeers cx = Inr peers \<and> p \<in> set peers \<and>
        answeredBy (chContext cl) \<lparr>rqChaincodeID = ''lscc'', rqFcn = ''getccdata'', rqArgs = [asBytes (cpChannelID dp), asBytes cc],
          rqTransientMap = [], rqInvocationChain = [], rqIsInit = False\<rparr> p payload"
    using queryChaincode_result [of cx dp "''lscc''" "''getccdata''" "[asBytes (cpChannelID dp), asBytes cc]"] by blast
  show ?thesis
  proof (cases "\<exists>payload policy. r = Inr payload \<and> unmarshalCCData cx payload = Inr policy")
    case True
    then obtain payload policy where r: "r = Inr payload" "unmarshalCCData cx payload = Inr policy" by blast
    have P: "env = P cc" if "unmarshalEnvelope cx policy = Inr env" for env
    proof -
      from ok have "ledgerAnswers cx (cpChannelID dp) P known" by (simp add: provider_ok_def)
      note l = this [unfolded ledgerAnswers_def, rule_format, OF cc]
      from ans [OF r(1)] obtain cl peers p where "channel_New (ccChannel cx) [] = Inr cl" "ccPeers cx = Inr peers" "p \<in> set peers"
        "answeredBy (chContext cl) \<lparr>rqChaincodeID = ''lscc'', rqFcn = ''getccdata'', rqArgs = [asBytes (cpChannelID dp), asBytes cc],
          rqTransientMap = [], rqInvocationChain = [], rqIsInit = False\<rparr> p payload" by blast
      from l [OF this r(2) that] show ?thesis .
    qed
    let ?dp = "dp\<lparr>cpTrace := t, ccDataMap := (ccDataMap dp)(rkKey (newResolverKey (cpChannelID dp) [cc]) \<mapsto> policy)\<rparr>"
    have "provider_ok cx P known ?dp" using ok cc by (auto simp: provider_ok_def newResolverKey_def Let_def)
    moreover have "GetChaincodePolicy cx cc dp = Some (unmarshalPolicy cx policy, ?dp)"
      using False q r by (simp add: GetChaincodePolicy_def Let_def)
    ultimately show ?thesis using P by (simp add: unmarshalPolicy_Inr)
  next
    case no: False
    then obtain f where "GetChaincodePolicy cx cc dp = Some (Inl f, dp\<lparr>cpTrace := t\<rparr>)"
      using False q by (cases r; cases "unmarshalCCData cx (projr r)") (auto simp: GetChaincodePolicy_def Let_def)
    then show ?thesis using trace by simp
  qed
qed

interpretation cc_provider: policy_provider "GetChaincodePolicy cx" "provider_ok cx P known" P known
  by unfold_locales (rule GetChaincodePolicy_ok)

lemma provider_ok_new:
  "newCCPolicyProvider ch = Inr dp \<Longrightarrow> ledgerAnswers cx ch P known \<Longrightarrow> \<forall>cc \<in> known. \<forall>cc' \<in> known. cc \<noteq> ch @ ''-'' @ cc' \<Longrightarrow> provider_ok cx P known dp"
  by (auto simp: newCCPolicyProvider_def provider_ok_def split: if_splits)

section \<open>Properties\<close>

text \<open>
  C6. Endorsers satisfy all policies. The service asks the repository's own policy provider, which reads the
  policies from the ledger through its cache, for chaincodes with names free of colons none of which is called like the channel, a
  dash and another one; the peers answer, if at all, with the policies \<open>P\<close>. Then a selection always returns. It returns only
  discovered peers that pass the filter of the request, and together they satisfy the policy of every chaincode of the
  request; it returns no peer exactly when the eligible peers together do not. Errors come only from the
  provider or from a policy out of range. The service and its provider keep their invariants: a cached resolver is never used for other
  chaincodes than those it was made for, and a cached policy never for another chaincode.
\<close>

theorem dynamic_endorsers_satisfy:
  assumes "service_ok um P s" and "provider_ok cx P known (dsProvider s)"
    and "chaincodes \<noteq> []" and "\<forall>c \<in> set chaincodes. plain (ccID c) \<and> ccID c \<in> known" and "length chaincodes < 2 ^ 31"
  shows "\<exists>r s1. dyn_GetEndorsersForChaincode um (GetChaincodePolicy cx) (Inr peers) ref chaincodes params s = Some (r, s1) \<and>
    service_ok um P s1 \<and> provider_ok cx P known (dsProvider s1) \<and>
    (\<forall>ps. r = Inr ps \<longrightarrow>
       (if \<forall>c \<in> set chaincodes. fulfils um (P (ccID c)) (set (eligible params peers))
        then set ps \<subseteq> set (eligible params peers) \<and> (\<forall>c \<in> set chaincodes. fulfils um (P (ccID c)) (set ps))
        else ps = [])) \<and>
    ((\<forall>c \<in> set chaincodes. wf_envelope um (P (ccID c)) \<and>
        (\<forall>dp. provider_ok cx P known dp \<longrightarrow> (\<exists>dp1. GetChaincodePolicy cx (ccID c) dp = Some (Inr (P (ccID c)), dp1)))) \<longrightarrow>
       (\<exists>ps. r = Inr ps))"
  using cc_provider.endorsers_satisfy [OF assms, of peers ref params] unfolding cc_provider.answered_def .

text \<open>A new service satisfies the invariant, whatever the policies are, when its options leave the resolvers alone
  and set no broken load-balance policy; the expiry of a resolver keeps it.\<close>

definition fresh :: "'p SelectionService \<Rightarrow> bool" where
  "fresh s \<longleftrightarrow> pgResolvers s = Map.empty \<and> (\<forall>l. pgLBP s = Some l \<longrightarrow> lbp_ok l)"

lemma fresh_options: "list_all (\<lambda>opt. \<forall>s. fresh s \<longrightarrow> fresh (opt s)) options \<Longrightarrow> fresh s \<Longrightarrow> fresh (fold (\<lambda>opt s. opt s) options s)"
  by (induction options arbitrary: s) auto

lemma fresh_With: "(\<forall>l1. l = Some l1 \<longrightarrow> lbp_ok l1) \<Longrightarrow> fresh s \<Longrightarrow> fresh (WithLoadBalancePolicy l s)" "fresh s \<Longrightarrow> fresh (WithCacheTimeout t s)"
  by (auto simp: fresh_def WithLoadBalancePolicy_def WithCacheTimeout_def)

lemma service_ok_new:
  assumes "dyn_newService src refresh ch factory options = Inr s"
    and "list_all (\<lambda>opt. \<forall>s. fresh s \<longrightarrow> fresh (opt s)) options"
  shows "service_ok um P s"
proof -
  obtain prov where "factory = Inr prov" using assms(1) by (auto simp: dyn_newService_def split: sum.splits)
  moreover define s1 where "s1 = fold (\<lambda>opt s. opt s) options
      \<lparr>dsChannelID = ch, pgResolvers = Map.empty, pgLBP = Some (RandomLBP src 0), dsProvider = prov, cacheTimeout = 30 * 60 * 10 ^ 9\<rparr>"
  moreover have "fresh s1" unfolding s1_def by (rule fresh_options [OF assms(2)]) (simp add: fresh_def)
  ultimately show ?thesis
    using assms(1) by (cases "pgLBP s1") (auto simp: dyn_newService_def service_ok_def fresh_def Let_def split: if_splits)
qed

lemma service_ok_expire: "service_ok um P s \<Longrightarrow> service_ok um P (expireResolver key s)"
  by (auto simp: service_ok_def expireResolver_def)

text \<open>The two services agree on a failing discovery service only in that no peer is returned: the static one
  reports no error.\<close>

lemma static_swallows_error: "static_GetEndorsersForChaincode (Inl e) chaincodes params = Inr []"
  by (simp add: static_GetEndorsersForChaincode_def)

definition test_provider :: ccPolicyProvider where
  "test_provider = \<lparr>cpChannelID = ''ch'', ccDataMap = Map.empty, cpTrace = []\<rparr>"

definition test_service :: "ccPolicyProvider SelectionService" where
  "test_service = \<lparr>dsChannelID = ''ch'', pgResolvers = Map.empty, pgLBP = Some (RandomLBP (\<lambda>k n. 5) 0),
     dsProvider = test_provider, cacheTimeout = 30 * 60 * 10 ^ 9\<rparr>"

lemma test_new: "dyn_newService (\<lambda>k n. 5) 7 ''ch'' (newCCPolicyProvider ''ch'') [] = Inr test_service"
  by (simp add: dyn_newService_def newCCPolicyProvider_def test_service_def test_provider_def)

theorem dynamic_endorsers_satisfy_witness:
  "\<exists>ps s1. dyn_newService (\<lambda>k n. 5) 7 ''ch'' (newCCPolicyProvider ''ch'') [] = Inr test_service \<and>
     dyn_GetEndorsersForChaincode raw_um (GetChaincodePolicy test_lscc) (Inr [\<lparr>peerRef = 0, MSPID = ''A'', URL = ''a'', BlockHeight = None\<rparr>]) 0
      [\<lparr>ccID = ''cc1'', Collections = []\<rparr>, \<lparr>ccID = ''cc2'', Collections = []\<rparr>] \<lparr>spFilter = None, spSorter = None\<rparr> test_service =
      Some (Inr ps, s1) \<and> ps \<noteq> [] \<and> fulfils raw_um two_orgs (set ps)"
proof -
  let ?ccs = "[\<lparr>ccID = ''cc1'', Collections = []\<rparr>, \<lparr>ccID = ''cc2'', Collections = []\<rparr>]"
    and ?params = "\<lparr>spFilter = None, spSorter = None\<rparr>" and ?p = "\<lparr>peerRef = 0, MSPID = ''A'', URL = ''a'', BlockHeight = None\<rparr>"
  have "service_ok raw_um (\<lambda>_. two_orgs) test_service" by (rule service_ok_new [OF test_new]) simp
  moreover have "provider_ok test_lscc (\<lambda>_. two_orgs) {''cc1'', ''cc2''} (dsProvider test_service)"
    by (simp add: provider_ok_def ledgerAnswers_def test_service_def test_provider_def test_lscc_def)
  ultimately obtain r s1 where r: "dyn_GetEndorsersForChaincode raw_um (GetChaincodePolicy test_lscc) (Inr [?p]) 0 ?ccs ?params test_service = Some (r, s1)"
    "\<forall>ps. r = Inr ps \<longrightarrow> fulfils raw_um two_orgs (set (eligible ?params [?p])) \<longrightarrow> fulfils raw_um two_orgs (set ps)" "\<exists>ps. r = Inr ps"
    using dynamic_endorsers_satisfy [where chaincodes = ?ccs and peers = "[?p]" and ref = 0 and params = ?params, of raw_um "\<lambda>_. two_orgs" test_service test_lscc "{''cc1'', ''cc2''}"]
      two_orgs_wf test_policy by (auto split: if_splits)
  moreover have "fulfils raw_um two_orgs (set (eligible ?params [?p]))" "\<not> fulfils raw_um two_orgs {}"
    by (simp_all add: eligible_def two_orgs_def raw_um_def mspPrincipalToString_def signs_def char_of_def bit_0)
  ultimately show ?thesis using test_new by auto
qed

end
