(* ===== verification/DiscoveryClient.thy ===== *)
theory DiscoveryClient
  imports Invoke
begin

text \<open>
  The client of Fabric's discovery service, \<^verbatim>\<open>internal/github.com/hyperledger/fabric/discovery/client\<close>: the
  request that numbers its queries, the response that files every result under the query it answers, the
  selection of endorsers by layouts, and the signer that remembers signatures. The generated protobuf types
  are records and datatypes; unmarshalling and the JSON form of an invocation chain are parameters. A Go map
  is an association list in the order in which the code happens to iterate over it.
\<close>

section \<open>Messages\<close>

record alive_msg =
  amMembership :: "string option"
  amTimestamp :: bool

record state_info =
  siTimestamp :: bool
  siLedgerHeight :: "uint64 option"

record gossip_msg =
  GetAliveMsg :: "alive_msg option"
  GetStateInfo :: "state_info option"

record disc_peer =
  dpMSPID :: string
  AliveMessage :: gossip_msg
  StateInfoMessage :: "gossip_msg option"
  dpIdentity :: bytes

record proto_peer =
  ppMembershipInfo :: "bytes option"
  ppStateInfo :: "bytes option"
  ppIdentity :: bytes

record proto_descriptor =
  edChaincode :: string
  EndorsersByGroups :: "(string \<times> proto_peer list) list"
  Layouts :: "(string \<times> uint32) list list"

datatype query_result =
    ErrorResult string
  | ConfigResult bytes
  | CcQueryRes "proto_descriptor list"
  | Members "(string \<times> proto_peer list) list"
  | UnsetResult

record disc_ext =
  unmarshalGossip :: "bytes \<Rightarrow> error + gossip_msg"
  unmarshalMspid :: "bytes \<Rightarrow> error + string"
  chainString :: "ChaincodeCall list \<Rightarrow> string"
  discErr :: ext

section \<open>Requests\<close>

datatype QueryType = InvalidQueryType | ConfigQueryType | PeerMembershipQueryType | ChaincodeQueryType | LocalMembershipQueryType

datatype disc_query =
    ConfigQuery string
  | CcQuery string "ChaincodeCall list list"
  | PeerQuery string "ChaincodeCall list"
  | LocalPeers

fun GetQueryType :: "disc_query \<Rightarrow> QueryType" where
  "GetQueryType (CcQuery ch ics) = ChaincodeQueryType"
| "GetQueryType (ConfigQuery ch) = ConfigQueryType"
| "GetQueryType (PeerQuery ch ic) = PeerMembershipQueryType"
| "GetQueryType LocalPeers = LocalMembershipQueryType"

record disc_request =
  lastChannel :: string
  lastIndex :: nat
  queryMapping :: "QueryType \<Rightarrow> (string \<times> nat) list"
  invocationChainMapping :: "nat \<rightharpoonup> ChaincodeCall list list"
  Queries :: "disc_query list"

definition disc_NewRequest :: disc_request where
  "disc_NewRequest = \<lparr>lastChannel = '''', lastIndex = 0, queryMapping = (\<lambda>_. []), invocationChainMapping = Map.empty, Queries = []\<rparr>"

fun mapSet :: "'k \<Rightarrow> 'v \<Rightarrow> ('k \<times> 'v) list \<Rightarrow> ('k \<times> 'v) list" where
  "mapSet k v [] = [(k, v)]"
| "mapSet k v ((k', v') # kvs) = (if k' = k then (k, v) # kvs else (k', v') # mapSet k v kvs)"

definition addQueryMapping :: "QueryType \<Rightarrow> string \<Rightarrow> disc_request \<Rightarrow> disc_request" where
  "addQueryMapping qt k req =
     req\<lparr>queryMapping := (queryMapping req)(qt := mapSet k (lastIndex req) (queryMapping req qt)), lastIndex := Suc (lastIndex req)\<rparr>"

definition addChaincodeQueryMapping :: "ChaincodeCall list list \<Rightarrow> disc_request \<Rightarrow> disc_request" where
  "addChaincodeQueryMapping ics req = req\<lparr>invocationChainMapping := (invocationChainMapping req)(lastIndex req \<mapsto> ics)\<rparr>"

definition addQuery :: "disc_query \<Rightarrow> disc_request \<Rightarrow> disc_request" where
  "addQuery q req = req\<lparr>Queries := Queries req @ [q]\<rparr>"

definition channnelAndInvocationChain :: "disc_ext \<Rightarrow> string \<Rightarrow> ChaincodeCall list \<Rightarrow> string" where
  "channnelAndInvocationChain x ch ic = ch @ '' '' @ chainString x ic"

definition OfChannel :: "string \<Rightarrow> disc_request \<Rightarrow> disc_request" where
  "OfChannel ch req = req\<lparr>lastChannel := ch\<rparr>"

definition AddConfigQuery :: "disc_request \<Rightarrow> disc_request" where
  "AddConfigQuery req =
     addQueryMapping ConfigQueryType (lastChannel req) (addQuery (ConfigQuery (lastChannel req)) req)"

definition ValidateInvocationChain :: "ChaincodeCall list \<Rightarrow> error option" where
  "ValidateInvocationChain ic =
     (if ic = [] then Some (ErrNew ''invocation chain should not be empty'')
      else if list_ex (\<lambda>cc. ccID cc = '''') ic then Some (ErrNew ''chaincode name should not be empty'')
      else None)"

text \<open>An interest is nil or an invocation chain.\<close>

fun validateEach :: "ChaincodeCall list option list \<Rightarrow> error option" where
  "validateEach [] = None"
| "validateEach (None # rest) = Some (ErrNew ''chaincode interest is nil'')"
| "validateEach (Some ic # rest) = (case ValidateInvocationChain ic of Some e \<Rightarrow> Some e | None \<Rightarrow> validateEach rest)"

definition validateInterests :: "ChaincodeCall list option list \<Rightarrow> error option" where
  "validateInterests interests =
     (if interests = [] then Some (ErrNew ''no chaincode interests given'') else validateEach interests)"

definition AddEndorsersQuery :: "ChaincodeCall list option list \<Rightarrow> disc_request \<Rightarrow> error + disc_request" where
  "AddEndorsersQuery interests req =
     (case validateInterests interests of
        Some e \<Rightarrow> Inl e
      | None \<Rightarrow>
         (let ics = map the interests; ch = lastChannel req in
          Inr (addQueryMapping ChaincodeQueryType ch (addChaincodeQueryMapping ics (addQuery (CcQuery ch ics) req)))))"

definition AddLocalPeersQuery :: "disc_ext \<Rightarrow> disc_request \<Rightarrow> disc_request" where
  "AddLocalPeersQuery x req =
     addQueryMapping LocalMembershipQueryType (channnelAndInvocationChain x '''' []) (addQuery LocalPeers req)"

definition AddPeersQuery :: "disc_ext \<Rightarrow> ChaincodeCall list \<Rightarrow> disc_request \<Rightarrow> disc_request" where
  "AddPeersQuery x ic req =
     (let ch = lastChannel req in
      addQueryMapping PeerMembershipQueryType (channnelAndInvocationChain x ch ic)
        (addChaincodeQueryMapping [ic] (addQuery (PeerQuery ch ic) req)))"

section \<open>Responses\<close>

record endorsementDescriptor =
  endorsersByGroups :: "string \<rightharpoonup> disc_peer list"
  layouts :: "(string \<times> nat) list list"

datatype resultOrError =
    VConfig bytes
  | VPeers "disc_peer list"
  | VDescriptor endorsementDescriptor
  | VError error

type_synonym resp_key = "QueryType \<times> string \<times> string"
type_synonym disc_response = "resp_key \<rightharpoonup> resultOrError"

definition EnvelopeToGossipMessage :: "disc_ext \<Rightarrow> bytes option \<Rightarrow> error + gossip_msg" where
  "EnvelopeToGossipMessage x e =
     (case e of None \<Rightarrow> Inl (ErrNew ''nil envelope'')
      | Some payload \<Rightarrow> (case unmarshalGossip x payload of
           Inl err \<Rightarrow> Inl (ErrNew (''Failed unmarshaling GossipMessage from envelope: '' @ ErrorText (discErr x) err)) | Inr msg \<Rightarrow> Inr msg))"

definition validateAliveMessage :: "gossip_msg \<Rightarrow> error option" where
  "validateAliveMessage message =
     (case GetAliveMsg message of
        None \<Rightarrow> Some (ErrNew ''message isn't an alive message'')
      | Some am \<Rightarrow> if amMembership am = None then Some (ErrNew ''membership is empty'')
                  else if \<not> amTimestamp am then Some (ErrNew ''timestamp is nil'') else None)"

definition validateStateInfoMessage :: "gossip_msg \<Rightarrow> error option" where
  "validateStateInfoMessage message =
     (case GetStateInfo message of
        None \<Rightarrow> Some (ErrNew ''message isn't a stateInfo message'')
      | Some si \<Rightarrow> if \<not> siTimestamp si then Some (ErrNew ''timestamp is nil'')
                  else if siLedgerHeight si = None then Some (ErrNew ''properties is nil'') else None)"

definition wrapMsg :: "string \<Rightarrow> error + 'a \<Rightarrow> error + 'a" where
  "wrapMsg msg r = (case r of Inl e \<Rightarrow> Inl (ErrWithMessage msg e) | Inr a \<Rightarrow> Inr a)"

definition checked :: "string \<Rightarrow> error option \<Rightarrow> error + 'a \<Rightarrow> error + 'a" where
  "checked msg r rest = (case r of Some e \<Rightarrow> Inl (ErrWithMessage msg e) | None \<Rightarrow> rest)"

definition isStateInfoExpected :: "QueryType \<Rightarrow> bool" where
  "isStateInfoExpected qt \<longleftrightarrow> qt \<noteq> LocalMembershipQueryType"

definition memberPeer :: "disc_ext \<Rightarrow> QueryType \<Rightarrow> string \<Rightarrow> proto_peer \<Rightarrow> error + disc_peer" where
  "memberPeer x qt org p =
     (case wrapMsg ''failed unmarshaling alive message'' (EnvelopeToGossipMessage x (ppMembershipInfo p)) of
        Inl e \<Rightarrow> Inl e
      | Inr aliveMsg \<Rightarrow>
         if isStateInfoExpected qt
         then (case wrapMsg ''failed unmarshaling stateInfo message'' (EnvelopeToGossipMessage x (ppStateInfo p)) of
                 Inl e \<Rightarrow> Inl e
               | Inr si \<Rightarrow>
                  checked ''failed validating stateInfo message'' (validateStateInfoMessage si)
                    (checked ''failed validating alive message'' (validateAliveMessage aliveMsg)
                      (Inr \<lparr>dpMSPID = org, AliveMessage = aliveMsg, StateInfoMessage = Some si, dpIdentity = ppIdentity p\<rparr>)))
         else checked ''failed validating alive message'' (validateAliveMessage aliveMsg)
                (Inr \<lparr>dpMSPID = org, AliveMessage = aliveMsg, StateInfoMessage = None, dpIdentity = ppIdentity p\<rparr>))"

definition peersForChannel :: "disc_ext \<Rightarrow> QueryType \<Rightarrow> (string \<times> proto_peer list) list \<Rightarrow> error + disc_peer list" where
  "peersForChannel x qt peersByOrg =
     (case mapE (\<lambda>(org, ps). mapE (memberPeer x qt org) ps) peersByOrg of Inl e \<Rightarrow> Inl e | Inr pss \<Rightarrow> Inr (concat pss))"

definition disc_endorser :: "disc_ext \<Rightarrow> proto_peer \<Rightarrow> error + disc_peer" where
  "disc_endorser x p =
     (if ppMembershipInfo p = None \<or> ppStateInfo p = None then Inl (ErrNew ''received empty envelope(s) for endorsers'')
      else
       (case wrapMsg ''failed unmarshaling gossip envelope to alive message'' (EnvelopeToGossipMessage x (ppMembershipInfo p)) of
          Inl e \<Rightarrow> Inl e
        | Inr aliveMsg \<Rightarrow>
       (case wrapMsg ''failed unmarshaling gossip envelope to state info message'' (EnvelopeToGossipMessage x (ppStateInfo p)) of
          Inl e \<Rightarrow> Inl e
        | Inr si \<Rightarrow>
           checked ''failed validating alive message'' (validateAliveMessage aliveMsg)
            (checked ''failed validating stateInfo message'' (validateStateInfoMessage si)
              (case wrapMsg ''failed unmarshaling peer's identity'' (unmarshalMspid x (ppIdentity p)) of
                 Inl e \<Rightarrow> Inl e
               | Inr m \<Rightarrow> Inr \<lparr>dpMSPID = m, AliveMessage = aliveMsg, StateInfoMessage = Some si, dpIdentity = ppIdentity p\<rparr>)))))"

definition layoutOf :: "proto_descriptor \<Rightarrow> (string \<times> uint32) list \<Rightarrow> error + (string \<times> nat) list" where
  "layoutOf desc l =
     mapE (\<lambda>(grp, cnt). if map_of (EndorsersByGroups desc) grp = None
             then Inl (ErrNew (''group '' @ grp @ '' isn't mapped to endorsers, but exists in a layout''))
             else Inr (grp, unat cnt)) l"

definition createEndorsementDescriptor :: "disc_ext \<Rightarrow> proto_descriptor \<Rightarrow> error + endorsementDescriptor" where
  "createEndorsementDescriptor x desc =
     (case mapE (layoutOf desc) (Layouts desc) of
        Inl e \<Rightarrow> Inl e
      | Inr ls \<Rightarrow>
         (case mapE (\<lambda>(grp, ps). case wrapMsg ''failed creating endorser object'' (mapE (disc_endorser x) ps) of
                       Inl e \<Rightarrow> Inl e | Inr es \<Rightarrow> Inr (grp, es)) (EndorsersByGroups desc) of
            Inl e \<Rightarrow> Inl e
          | Inr gs \<Rightarrow> Inr \<lparr>endorsersByGroups = map_of gs, layouts = ls\<rparr>))"

text \<open>The results are read at the index the request has for the query; \<open>Send\<close> has compared their number with
  the number of queries. An unexpected kind of result is an error, an error of the service is filed as such.\<close>

definition resultAt :: "query_result list \<Rightarrow> nat \<Rightarrow> query_result outcome" where
  "resultAt results i = (if i < length results then Inr (results ! i) else Inl (Panic ''index out of range''))"

definition mapConfig :: "query_result list \<Rightarrow> string \<times> nat \<Rightarrow> disc_response \<Rightarrow> disc_response outcome" where
  "mapConfig results = (\<lambda>(ch, index) resp.
     case resultAt results index of
       Inl f \<Rightarrow> Inl f
     | Inr (ErrorResult content) \<Rightarrow> Inr (resp((ConfigQueryType, ch, '''') \<mapsto> VError (ErrNew content)))
     | Inr (ConfigResult c) \<Rightarrow> Inr (resp((ConfigQueryType, ch, '''') \<mapsto> VConfig c))
     | Inr _ \<Rightarrow> Inl (Err (ErrNew ''expected QueryResult of either ConfigResult or Error'')))"

definition mapPeerMembership ::
  "disc_ext \<Rightarrow> QueryType \<Rightarrow> query_result list \<Rightarrow> string \<times> nat \<Rightarrow> disc_response \<Rightarrow> disc_response outcome" where
  "mapPeerMembership x qt results = (\<lambda>(k, index) resp.
     case resultAt results index of
       Inl f \<Rightarrow> Inl f
     | Inr (ErrorResult content) \<Rightarrow> Inr (resp((qt, k, '''') \<mapsto> VError (ErrNew content)))
     | Inr (Members peersByOrg) \<Rightarrow>
         (case peersForChannel x qt peersByOrg of
            Inl e \<Rightarrow> Inl (Err (ErrWithMessage ''failed constructing peer membership out of response'' e))
          | Inr peers \<Rightarrow> Inr (resp((qt, k, '''') \<mapsto> VPeers peers)))
     | Inr _ \<Rightarrow> Inl (Err (ErrNew ''expected QueryResult of either PeerMembershipResult or Error'')))"

text \<open>The loop over the descriptors indexes the invocation chains: it is guarded only against too few
  descriptors.\<close>

fun mapDescriptors ::
  "disc_ext \<Rightarrow> string \<Rightarrow> proto_descriptor list \<Rightarrow> ChaincodeCall list list \<Rightarrow> disc_response \<Rightarrow> disc_response outcome" where
  "mapDescriptors x channel [] ics resp = Inr resp"
| "mapDescriptors x channel (desc # descs) [] resp = Inl (Panic ''index out of range'')"
| "mapDescriptors x channel (desc # descs) ([] # ics) resp = Inl (Panic ''index out of range'')"
| "mapDescriptors x channel (desc # descs) ((cc # ccs) # ics) resp =
     (if edChaincode desc \<noteq> ccID cc
      then Inl (Err (ErrNew (''expected chaincode '' @ ccID cc @ '' but got endorsement descriptor for '' @ edChaincode desc)))
      else case createEndorsementDescriptor x desc of
             Inl e \<Rightarrow> Inl (Err e)
           | Inr d \<Rightarrow> mapDescriptors x channel descs ics
                       (resp((ChaincodeQueryType, channel, chainString x (cc # ccs)) \<mapsto> VDescriptor d)))"

definition mapEndorsersOfChannel ::
  "disc_ext \<Rightarrow> string \<Rightarrow> proto_descriptor list \<Rightarrow> ChaincodeCall list list \<Rightarrow> disc_response \<Rightarrow> disc_response outcome" where
  "mapEndorsersOfChannel x channel content ics resp =
     (if length content < length ics then Inl (Err (ErrNew ''expected more endorsement descriptors''))
      else mapDescriptors x channel content ics resp)"

definition mapEndorsers ::
  "disc_ext \<Rightarrow> (nat \<rightharpoonup> ChaincodeCall list list) \<Rightarrow> query_result list \<Rightarrow> string \<times> nat \<Rightarrow> disc_response \<Rightarrow> disc_response outcome" where
  "mapEndorsers x chaincodeQueryMapping results = (\<lambda>(ch, index) resp.
     case resultAt results index of
       Inl f \<Rightarrow> Inl f
     | Inr (ErrorResult content) \<Rightarrow> Inr (resp((ChaincodeQueryType, ch, '''') \<mapsto> VError (ErrNew content)))
     | Inr (CcQueryRes content) \<Rightarrow>
         (case mapEndorsersOfChannel x ch content (case chaincodeQueryMapping index of Some ics \<Rightarrow> ics | None \<Rightarrow> []) resp of
            Inl f \<Rightarrow> Inl (withMessageF (''failed assembling endorsers of channel '' @ ch) f)
          | Inr resp1 \<Rightarrow> Inr resp1)
     | Inr _ \<Rightarrow> Inl (Err (ErrNew ''expected QueryResult of either ChaincodeQueryResult or Error'')))"

text \<open>The query types are visited in the order of the Go map: the order decides only which of several errors
  is returned.\<close>

definition mapType :: "disc_ext \<Rightarrow> disc_request \<Rightarrow> query_result list \<Rightarrow> QueryType \<Rightarrow> disc_response \<Rightarrow> disc_response outcome" where
  "mapType x req results qt =
     (case qt of
        ConfigQueryType \<Rightarrow> foldE (mapConfig results) (queryMapping req qt)
      | ChaincodeQueryType \<Rightarrow> foldE (mapEndorsers x (invocationChainMapping req) results) (queryMapping req qt)
      | PeerMembershipQueryType \<Rightarrow> foldE (mapPeerMembership x qt results) (queryMapping req qt)
      | LocalMembershipQueryType \<Rightarrow> foldE (mapPeerMembership x qt results) (queryMapping req qt)
      | InvalidQueryType \<Rightarrow> (\<lambda>resp. Inr resp))"

definition computeResponse ::
  "disc_ext \<Rightarrow> QueryType list \<Rightarrow> disc_request \<Rightarrow> query_result list \<Rightarrow> disc_response outcome" where
  "computeResponse x order req results = foldE (mapType x req results) order Map.empty"

definition configTypes :: "QueryType list" where
  "configTypes = [ConfigQueryType, PeerMembershipQueryType, ChaincodeQueryType, LocalMembershipQueryType]"

section \<open>Reading a response\<close>

text \<open>\<open>ErrNotFound\<close> when the query was not made; a failing type assertion panics.\<close>

definition ErrNotFound :: error where
  "ErrNotFound = ErrNew ''not found''"

definition resp_Config :: "disc_response \<Rightarrow> string \<Rightarrow> bytes outcome" where
  "resp_Config resp channel =
     (case resp (ConfigQueryType, channel, '''') of
        None \<Rightarrow> Inl (Err ErrNotFound)
      | Some (VConfig c) \<Rightarrow> Inr c
      | Some (VError e) \<Rightarrow> Inl (Err e)
      | Some _ \<Rightarrow> Inl (Panic ''interface conversion''))"

definition parsePeers :: "disc_ext \<Rightarrow> QueryType \<Rightarrow> disc_response \<Rightarrow> string \<Rightarrow> ChaincodeCall list \<Rightarrow> disc_peer list outcome" where
  "parsePeers x qt resp channel ic =
     (case resp (qt, channnelAndInvocationChain x channel ic, '''') of
        None \<Rightarrow> Inl (Err ErrNotFound)
      | Some (VPeers ps) \<Rightarrow> Inr ps
      | Some (VError e) \<Rightarrow> Inl (Err e)
      | Some _ \<Rightarrow> Inl (Panic ''interface conversion''))"

definition channel_Peers :: "disc_ext \<Rightarrow> disc_response \<Rightarrow> string \<Rightarrow> ChaincodeCall list \<Rightarrow> disc_peer list outcome" where
  "channel_Peers x resp channel ic = parsePeers x PeerMembershipQueryType resp channel ic"

definition local_Peers :: "disc_ext \<Rightarrow> disc_response \<Rightarrow> disc_peer list outcome" where
  "local_Peers x resp = parsePeers x LocalMembershipQueryType resp '''' []"

text \<open>A filter may keep a state (a sorter with a round-robin balancer does) and may panic.\<close>

type_synonym 's disc_filter = "'s \<Rightarrow> disc_peer list \<Rightarrow> (disc_peer list \<times> 's) outcome"

definition groupOf :: "(string \<rightharpoonup> disc_peer list) \<Rightarrow> string \<Rightarrow> disc_peer list" where
  "groupOf groups grp = (case groups grp of Some es \<Rightarrow> es | None \<Rightarrow> [])"

fun selectPeersForLayout ::
  "(string \<rightharpoonup> disc_peer list) \<Rightarrow> 's disc_filter \<Rightarrow> 's \<Rightarrow> (string \<times> nat) list \<Rightarrow> (disc_peer list option \<times> 's) outcome" where
  "selectPeersForLayout groups f n [] = Inr (Some [], n)"
| "selectPeersForLayout groups f n ((grp, cnt) # layout) =
     (case f n (groupOf groups grp) of
        Inl e \<Rightarrow> Inl e
      | Inr (endorsersOfGrp, n1) \<Rightarrow>
         if length endorsersOfGrp < cnt then Inr (None, n1)
         else case selectPeersForLayout groups f n1 layout of
                Inl e \<Rightarrow> Inl e
              | Inr (None, n2) \<Rightarrow> Inr (None, n2)
              | Inr (Some rest, n2) \<Rightarrow> Inr (Some (take cnt endorsersOfGrp @ rest), n2))"

fun tryLayouts ::
  "(string \<rightharpoonup> disc_peer list) \<Rightarrow> 's disc_filter \<Rightarrow> 's \<Rightarrow> (string \<times> nat) list list \<Rightarrow> (disc_peer list option \<times> 's) outcome" where
  "tryLayouts groups f n [] = Inr (None, n)"
| "tryLayouts groups f n (l # ls) =
     (case selectPeersForLayout groups f n l of
        Inl e \<Rightarrow> Inl e
      | Inr (Some es, n1) \<Rightarrow> Inr (Some es, n1)
      | Inr (None, n1) \<Rightarrow> tryLayouts groups f n1 ls)"

definition resp_Endorsers ::
  "disc_ext \<Rightarrow> rand_src \<Rightarrow> nat \<Rightarrow> 's disc_filter \<Rightarrow> 's \<Rightarrow> disc_response \<Rightarrow> string \<Rightarrow> ChaincodeCall list \<Rightarrow> disc_peer list outcome \<times> 's" where
  "resp_Endorsers x src k f n resp channel ic =
     (case resp (ChaincodeQueryType, channel, '''') of
        Some (VError e) \<Rightarrow> (Inl (Err e), n)
      | Some _ \<Rightarrow> (Inl (Panic ''interface conversion''), n)
      | None \<Rightarrow>
         (case resp (ChaincodeQueryType, channel, chainString x ic) of
            None \<Rightarrow> (Inl (Err ErrNotFound), n)
          | Some (VDescriptor desc) \<Rightarrow>
             (case tryLayouts (endorsersByGroups desc) f n (map (\<lambda>i. layouts desc ! i) (rand_Perm src k (length (layouts desc)))) of
                Inl e \<Rightarrow> (Inl e, n)
              | Inr (Some es, n1) \<Rightarrow> (Inr es, n1)
              | Inr (None, n1) \<Rightarrow> (Inl (Err (ErrNew ''no endorsement combination can be satisfied'')), n1))
          | Some _ \<Rightarrow> (Inl (Panic ''interface conversion''), n)))"

definition NoFilter :: "unit disc_filter" where
  "NoFilter n es = Inr (es, n)"

section \<open>Sending a request\<close>

record send_ext =
  marshalRequest :: "disc_request \<Rightarrow> error + bytes"
  signRequest :: "bytes \<Rightarrow> error + bytes"
  createConnection :: "error option"
  Discover :: "bytes \<Rightarrow> bytes \<Rightarrow> error + query_result list"
  mapOrder :: "QueryType list"

definition disc_Send :: "disc_ext \<Rightarrow> send_ext \<Rightarrow> disc_request \<Rightarrow> disc_response outcome" where
  "disc_Send x se req =
     (case marshalRequest se req of Inl e \<Rightarrow> Inl (Err (ErrWithMessage ''failed marshaling Request to bytes'' e))
      | Inr payload \<Rightarrow>
     (case signRequest se payload of Inl e \<Rightarrow> Inl (Err (ErrWithMessage ''failed signing Request'' e))
      | Inr sig \<Rightarrow>
     (case createConnection se of Some e \<Rightarrow> Inl (Err (ErrWithMessage ''failed connecting to discovery service'' e))
      | None \<Rightarrow>
     (case Discover se payload sig of Inl e \<Rightarrow> Inl (Err (ErrWithMessage ''discovery service refused our Request'' e))
      | Inr results \<Rightarrow>
          if length results \<noteq> lastIndex req then Inl (Err (ErrNew ''number of responses differs from the number of queries''))
          else computeResponse x (mapOrder se) req results))))"

section \<open>The memoizing signer\<close>

text \<open>The memory is a list of entries, and \<open>evict\<close> chooses the one that is evicted.\<close>

record MemoizeSigner =
  maxEntries :: nat
  memory :: "(string \<times> bytes) list"

definition NewMemoizeSigner :: "nat \<Rightarrow> MemoizeSigner" where
  "NewMemoizeSigner n = \<lparr>maxEntries = n, memory = []\<rparr>"

definition evictFromMemory :: "(nat \<Rightarrow> nat) \<Rightarrow> (string \<times> bytes) list \<Rightarrow> (string \<times> bytes) list" where
  "evictFromMemory evict mem = (let i = evict (length mem) mod length mem in take i mem @ drop (Suc i) mem)"

lemma length_evict: "n < length mem \<Longrightarrow> length (evictFromMemory evict mem) = length mem - 1"
proof -
  assume "n < length mem"
  then have "evict (length mem) mod length mem < length mem" by (intro mod_less_divisor) linarith
  then show ?thesis by (simp add: evictFromMemory_def Let_def)
qed

function shrinkMemory :: "(nat \<Rightarrow> nat) \<Rightarrow> nat \<Rightarrow> (string \<times> bytes) list \<Rightarrow> (string \<times> bytes) list" where
  "shrinkMemory evict n mem = (if length mem > n then shrinkMemory evict n (evictFromMemory evict mem) else mem)"
  by pat_completeness auto
termination
  by (relation "measure (\<lambda>(evict, n, mem). length mem)") (auto simp: length_evict less_diff_conv)

declare shrinkMemory.simps [simp del]

definition memorize :: "(bytes \<Rightarrow> string) \<Rightarrow> (nat \<Rightarrow> nat) \<Rightarrow> bytes \<Rightarrow> bytes \<Rightarrow> MemoizeSigner \<Rightarrow> MemoizeSigner" where
  "memorize digest evict msg sig ms =
     (if maxEntries ms = 0 then ms
      else
        let mem = (if length (memory ms) \<ge> maxEntries ms then shrinkMemory evict (maxEntries ms) (memory ms) else memory ms)
        in ms\<lparr>memory := mapSet (digest msg) sig mem\<rparr>)"

definition memo_Sign ::
  "(bytes \<Rightarrow> string) \<Rightarrow> (nat \<Rightarrow> nat) \<Rightarrow> (bytes \<Rightarrow> error + bytes) \<Rightarrow> bytes \<Rightarrow> MemoizeSigner \<Rightarrow> (error + bytes) \<times> MemoizeSigner" where
  "memo_Sign digest evict sign msg ms =
     (case map_of (memory ms) (digest msg) of
        Some sig \<Rightarrow> (Inr sig, ms)
      | None \<Rightarrow> (case sign msg of Inl e \<Rightarrow> (Inl e, ms) | Inr sig \<Rightarrow> (Inr sig, memorize digest evict msg sig ms)))"

section \<open>Queries are numbered\<close>

fun keyOf :: "disc_ext \<Rightarrow> disc_query \<Rightarrow> string" where
  "keyOf x (ConfigQuery ch) = ch"
| "keyOf x (CcQuery ch ics) = ch"
| "keyOf x (PeerQuery ch ic) = channnelAndInvocationChain x ch ic"
| "keyOf x LocalPeers = channnelAndInvocationChain x '''' []"

text \<open>The mapping of a query type sends a key to the index of the last query with that type and key.\<close>

definition request_ok :: "disc_ext \<Rightarrow> disc_request \<Rightarrow> bool" where
  "request_ok x req \<longleftrightarrow>
     lastIndex req = length (Queries req) \<and>
     (\<forall>qt. distinct (map fst (queryMapping req qt))) \<and>
     (\<forall>qt k i. (k, i) \<in> set (queryMapping req qt) \<longrightarrow>
        i < length (Queries req) \<and> GetQueryType (Queries req ! i) = qt \<and> keyOf x (Queries req ! i) = k) \<and>
     (\<forall>i ch ics. i < length (Queries req) \<longrightarrow> Queries req ! i = CcQuery ch ics \<longrightarrow> invocationChainMapping req i = Some ics) \<and>
     (\<forall>i < length (Queries req). \<exists>j \<ge> i. (keyOf x (Queries req ! i), j) \<in> set (queryMapping req (GetQueryType (Queries req ! i))))"

lemma set_mapSet: "distinct (map fst kvs) \<Longrightarrow> set (mapSet k v kvs) = insert (k, v) {(k', v'). (k', v') \<in> set kvs \<and> k' \<noteq> k}"
proof (induction k v kvs rule: mapSet.induct)
  case (2 k v k' v' kvs)
  then show ?case by (cases "k' = k") (auto simp: rev_image_eqI)
qed simp

lemma fst_mapSet: "set (map fst (mapSet k v kvs)) = insert k (set (map fst kvs))"
  by (induction k v kvs rule: mapSet.induct) auto

lemma distinct_mapSet: "distinct (map fst kvs) \<Longrightarrow> distinct (map fst (mapSet k v kvs))"
proof (induction k v kvs rule: mapSet.induct)
  case (2 k v k' v' kvs)
  then show ?case using fst_mapSet [of k v kvs] by auto
qed simp

lemma addQueryMapping_ok:
  assumes ok: "request_ok x req" and q: "GetQueryType q = qt" "keyOf x q = k"
    and req1: "Queries req1 = Queries req @ [q]" "lastIndex req1 = lastIndex req" "queryMapping req1 = queryMapping req"
    and ics: "\<And>i. i < length (Queries req) \<Longrightarrow> invocationChainMapping req1 i = invocationChainMapping req i"
      "\<And>ch ics. q = CcQuery ch ics \<Longrightarrow> invocationChainMapping req1 (length (Queries req)) = Some ics"
  shows "request_ok x (addQueryMapping qt k req1)"
proof -
  let ?r = "addQueryMapping qt k req1" and ?n = "length (Queries req)"
  have n: "lastIndex req = ?n" and d: "\<And>qt. distinct (map fst (queryMapping req qt))"
    and old: "\<And>qt k i. (k, i) \<in> set (queryMapping req qt) \<Longrightarrow>
        i < ?n \<and> GetQueryType (Queries req ! i) = qt \<and> keyOf x (Queries req ! i) = k"
    and chains: "\<And>i ch ics. i < ?n \<Longrightarrow> Queries req ! i = CcQuery ch ics \<Longrightarrow> invocationChainMapping req i = Some ics"
    and all: "\<And>i. i < ?n \<Longrightarrow> \<exists>j \<ge> i. (keyOf x (Queries req ! i), j) \<in> set (queryMapping req (GetQueryType (Queries req ! i)))"
    using ok unfolding request_ok_def by blast+
  have qm: "set (queryMapping ?r t) = (if t = qt then insert (k, ?n) {(k', i). (k', i) \<in> set (queryMapping req qt) \<and> k' \<noteq> k}
      else set (queryMapping req t))" for t
    using set_mapSet [OF d] by (simp add: addQueryMapping_def req1 n)
  have qs: "Queries ?r = Queries req @ [q]" by (simp add: addQueryMapping_def req1)
  show ?thesis unfolding request_ok_def
  proof (intro conjI allI impI)
    show "lastIndex ?r = length (Queries ?r)" by (simp add: addQueryMapping_def req1 n)
    show "distinct (map fst (queryMapping ?r t))" for t
      using d distinct_mapSet [OF d] by (simp add: addQueryMapping_def req1)
  next
    fix t k' i assume "(k', i) \<in> set (queryMapping ?r t)"
    then consider "t = qt" "k' = k" "i = ?n" | "(k', i) \<in> set (queryMapping req t)" unfolding qm by (auto split: if_splits)
    then show "i < length (Queries ?r)" "GetQueryType (Queries ?r ! i) = t" "keyOf x (Queries ?r ! i) = k'"
      using old [of k' i t] q by (cases; simp add: qs nth_append)+
  next
    fix i ch ics assume "i < length (Queries ?r)" "Queries ?r ! i = CcQuery ch ics"
    then show "invocationChainMapping ?r i = Some ics"
      using chains [of i] assms(7) [of i] assms(8)
      unfolding qs by (cases "i = ?n") (auto simp: addQueryMapping_def nth_append less_Suc_eq)
  next
    fix i assume i: "i < length (Queries ?r)"
    show "\<exists>j \<ge> i. (keyOf x (Queries ?r ! i), j) \<in> set (queryMapping ?r (GetQueryType (Queries ?r ! i)))"
    proof (cases "i = ?n")
      case True
      then show ?thesis using q by (auto simp: qs qm)
    next
      case False
      then have lt: "i < ?n" using i by (simp add: qs)
      obtain j where j: "j \<ge> i" "(keyOf x (Queries req ! i), j) \<in> set (queryMapping req (GetQueryType (Queries req ! i)))"
        using all [OF lt] by blast
      show ?thesis
        using j lt unfolding qm qs by (cases "GetQueryType (Queries req ! i) = qt \<and> keyOf x (Queries req ! i) = k")
          (auto simp: nth_append intro: less_imp_le)
    qed
  qed
qed

datatype request_op = ChannelOp string | ConfigOp | EndorsersOp "ChaincodeCall list option list" | LocalPeersOp | PeersOp "ChaincodeCall list"

text \<open>A query for endorsers that is refused leaves the request as it is.\<close>

fun applyOp :: "disc_ext \<Rightarrow> request_op \<Rightarrow> disc_request \<Rightarrow> disc_request" where
  "applyOp x (ChannelOp ch) req = OfChannel ch req"
| "applyOp x ConfigOp req = AddConfigQuery req"
| "applyOp x (EndorsersOp interests) req = (case AddEndorsersQuery interests req of Inl e \<Rightarrow> req | Inr req1 \<Rightarrow> req1)"
| "applyOp x LocalPeersOp req = AddLocalPeersQuery x req"
| "applyOp x (PeersOp ic) req = AddPeersQuery x ic req"

lemma applyOp_ok: "request_ok x req \<Longrightarrow> request_ok x (applyOp x op req)"
proof (cases op)
  case (EndorsersOp interests)
  assume ok: "request_ok x req"
  then have "lastIndex req = length (Queries req)" by (simp add: request_ok_def)
  with ok EndorsersOp show ?thesis
    by (auto simp: AddEndorsersQuery_def Let_def addQuery_def addChaincodeQueryMapping_def
        intro!: addQueryMapping_ok [of x req "CcQuery (lastChannel req) (map the interests)"] split: option.split)
next
  case (PeersOp ic)
  assume ok: "request_ok x req"
  then have "lastIndex req = length (Queries req)" by (simp add: request_ok_def)
  with ok PeersOp show ?thesis
    by (auto simp: AddPeersQuery_def Let_def addQuery_def addChaincodeQueryMapping_def
        intro!: addQueryMapping_ok [of x req "PeerQuery (lastChannel req) ic"])
next
  case (ChannelOp ch)
  assume "request_ok x req"
  with ChannelOp show ?thesis by (simp add: OfChannel_def request_ok_def)
next
  case ConfigOp
  assume "request_ok x req"
  with ConfigOp show ?thesis
    by (auto simp: AddConfigQuery_def addQuery_def intro!: addQueryMapping_ok [of x req "ConfigQuery (lastChannel req)"])
next
  case LocalPeersOp
  assume "request_ok x req"
  with LocalPeersOp show ?thesis
    by (auto simp: AddLocalPeersQuery_def addQuery_def intro!: addQueryMapping_ok [of x req LocalPeers])
qed

lemma fold_applyOp_ok: "request_ok x (fold (applyOp x) ops disc_NewRequest)"
proof -
  have "request_ok x req \<Longrightarrow> request_ok x (fold (applyOp x) ops req)" for req
    by (induction ops arbitrary: req) (auto intro: applyOp_ok)
  moreover have "request_ok x disc_NewRequest" by (simp add: request_ok_def disc_NewRequest_def)
  ultimately show ?thesis by blast
qed

text \<open>
  Queries are numbered as they are sent. However a request is put together, every query gets the
  index of its position in the request, and the mapping of its type leads from its channel (and chaincodes) to
  the last query of that kind; the chains of a query for endorsers are kept under its index.
\<close>

theorem request_numbering: "request_ok x (fold (applyOp x) ops disc_NewRequest)"
  by (rule fold_applyOp_ok)

section \<open>Responses are filed under the query they answer\<close>

text \<open>A loop over steps that each change the state only in a region of their own: what a step leaves in its region
  is what the loop leaves there.\<close>

lemma foldE_regions:
  assumes run: "foldE f xs s = Inr t" and x: "x \<in> set xs" "distinct xs"
    and loc: "\<And>y s s1 key. y \<in> set xs \<Longrightarrow> f y s = Inr s1 \<Longrightarrow> key \<notin> R y \<Longrightarrow> s1 key = s key"
    and disj: "\<And>y z. y \<in> set xs \<Longrightarrow> z \<in> set xs \<Longrightarrow> y \<noteq> z \<Longrightarrow> R y \<inter> R z = {}"
  shows "\<exists>s0 s1. f x s0 = Inr s1 \<and> (\<forall>key \<in> R x. s0 key = s key \<and> t key = s1 key)"
proof -
  obtain as bs where xs: "xs = as @ x # bs" "x \<notin> set as" "x \<notin> set bs" using x by (auto simp: in_set_conv_decomp)
  with run obtain s0 where s0: "foldE f as s = Inr s0" "foldE f (x # bs) s0 = Inr t"
    by (auto simp: foldE_append split: sum.splits)
  then obtain s1 where s1: "f x s0 = Inr s1" "foldE f bs s1 = Inr t" by (auto split: sum.splits)
  have "s0 key = s key" "t key = s1 key" if key: "key \<in> R x" for key
  proof -
    have out: "y \<in> set xs \<Longrightarrow> y \<noteq> x \<Longrightarrow> key \<notin> R y" for y using disj [of y x] xs(1) key by auto
    have same: "s'' key = s' key" if "y \<in> set as \<union> set bs" "f y s' = Inr s''" for y s' s''
      using that loc [of y s' s'' key] out [of y] xs by auto
    show "s0 key = s key" by (rule foldE_keeps [OF s0(1), of "\<lambda>s. s key"]) (use same in blast)
    show "t key = s1 key" by (rule foldE_keeps [OF s1(2), of "\<lambda>s. s key"]) (use same in blast)
  qed
  then show ?thesis using s1(1) by blast
qed

lemma mapDescriptors_local:
  "mapDescriptors x ch ds ics s = Inr s1 \<Longrightarrow> key \<notin> {(ChaincodeQueryType, ch, c) |c. True} \<Longrightarrow> s1 key = s key"
  by (induction x ch ds ics s rule: mapDescriptors.induct) (auto split: if_splits sum.splits)

definition region :: "QueryType \<Rightarrow> string \<times> nat \<Rightarrow> resp_key set" where
  "region qt e = {(qt, fst e, c) |c. True}"

definition entryStep :: "disc_ext \<Rightarrow> disc_request \<Rightarrow> query_result list \<Rightarrow> QueryType \<Rightarrow> string \<times> nat \<Rightarrow> disc_response \<Rightarrow> disc_response outcome" where
  "entryStep x req results qt =
     (case qt of
        ConfigQueryType \<Rightarrow> mapConfig results
      | ChaincodeQueryType \<Rightarrow> mapEndorsers x (invocationChainMapping req) results
      | _ \<Rightarrow> mapPeerMembership x qt results)"

lemma mapType_entries: "qt \<noteq> InvalidQueryType \<Longrightarrow> mapType x req results qt = foldE (entryStep x req results qt) (queryMapping req qt)"
  by (cases qt) (simp_all add: mapType_def entryStep_def)

lemma mapEndorsersOfChannel_local:
  assumes "mapEndorsersOfChannel x ch ds ics s = Inr s1" "key \<notin> {(ChaincodeQueryType, ch, c) |c. True}"
  shows "s1 key = s key"
proof -
  have "mapDescriptors x ch ds ics s = Inr s1" using assms(1) by (simp add: mapEndorsersOfChannel_def split: if_splits)
  then show ?thesis using assms(2) by (rule mapDescriptors_local)
qed

lemma entryStep_local:
  assumes "entryStep x req results qt e s = Inr s1" "key \<notin> region qt e"
  shows "s1 key = s key"
proof -
  obtain k i where e: "e = (k, i)" by (cases e)
  have key: "key \<noteq> (qt, k, c)" for c using assms(2) by (auto simp: region_def e)
  consider "qt = ConfigQueryType" | "qt = ChaincodeQueryType" | "qt \<noteq> ConfigQueryType" "qt \<noteq> ChaincodeQueryType" by blast
  then show ?thesis
  proof cases
    case 1
    then show ?thesis using assms(1) key
      by (simp add: entryStep_def mapConfig_def e split: sum.splits query_result.splits) (metis fun_upd_other)+
  next
    case 2
    have nk: "key \<notin> {(ChaincodeQueryType, k, c) |c. True}" using key 2 by blast
    show ?thesis using assms(1) 2 key [of "''''"] mapEndorsersOfChannel_local [OF _ nk]
      by (auto simp: entryStep_def mapEndorsers_def e split: sum.splits query_result.splits)
  next
    case 3
    then have "mapPeerMembership x qt results (k, i) s = Inr s1" using assms(1) e by (cases qt) (simp_all add: entryStep_def)
    then show ?thesis using key [of "''''"]
      by (auto simp: mapPeerMembership_def split: sum.splits query_result.splits)
  qed
qed

lemma mapType_local:
  assumes "mapType x req results qt s = Inr s1" "key \<notin> {(qt, k, c) |k c. True}"
  shows "s1 key = s key"
proof (cases "qt = InvalidQueryType")
  case False
  have "foldE (entryStep x req results qt) (queryMapping req qt) s = Inr s1"
    using assms(1) False by (simp add: mapType_entries)
  then show ?thesis
    by (rule foldE_keeps [where g = "\<lambda>s. s key"]) (use entryStep_local assms(2) in \<open>auto simp: region_def\<close>)
qed (use assms in \<open>simp add: mapType_def\<close>)

text \<open>The result of a query is what its own step files.\<close>

lemma computeResponse_entry:
  assumes run: "computeResponse x order req results = Inr resp" and order: "distinct order" "qt \<in> set order" "qt \<noteq> InvalidQueryType"
    and ok: "request_ok x req" and e: "(k, i) \<in> set (queryMapping req qt)"
  shows "\<exists>s0 s1. entryStep x req results qt (k, i) s0 = Inr s1 \<and> (\<forall>c. s0 (qt, k, c) = None \<and> resp (qt, k, c) = s1 (qt, k, c))"
proof -
  let ?R = "\<lambda>qt. {(qt, k :: string, c :: string) |k c. True}"
  obtain s0 s1 where s: "mapType x req results qt s0 = Inr s1" "\<forall>key \<in> ?R qt. s0 key = None \<and> resp key = s1 key"
    using foldE_regions [OF run [unfolded computeResponse_def] order(2,1), of ?R] mapType_local by (fastforce simp del: mapSet.simps)
  have d: "distinct (map fst (queryMapping req qt))" using ok by (simp add: request_ok_def)
  have disj: "region qt y \<inter> region qt z = {}" if "y \<in> set (queryMapping req qt)" "z \<in> set (queryMapping req qt)" "y \<noteq> z" for y z
    using d that by (auto simp: region_def distinct_map inj_on_def)
  have "foldE (entryStep x req results qt) (queryMapping req qt) s0 = Inr s1" using s(1) order(3) by (simp add: mapType_entries)
  from this e d [unfolded distinct_map, THEN conjunct1]
  have "\<exists>s2 s3. entryStep x req results qt (k, i) s2 = Inr s3 \<and> (\<forall>key \<in> region qt (k, i). s2 key = s0 key \<and> s1 key = s3 key)"
    by (rule foldE_regions [where R = "region qt"]) (use entryStep_local disj in blast)+
  then show ?thesis using s(2) by (force simp: region_def)
qed

lemma mapDescriptors_spec:
  assumes "mapDescriptors x ch ds ics s = Inr s1"
  shows "length ds \<le> length ics \<and>
    (\<forall>j < length ds. ics ! j \<noteq> [] \<and> edChaincode (ds ! j) = ccID (hd (ics ! j)) \<and>
       (\<exists>d. createEndorsementDescriptor x (ds ! j) = Inr d \<and>
          ((\<forall>j' < length ds. j < j' \<longrightarrow> chainString x (ics ! j') \<noteq> chainString x (ics ! j)) \<longrightarrow>
             s1 (ChaincodeQueryType, ch, chainString x (ics ! j)) = Some (VDescriptor d)))) \<and>
    (\<forall>c. (\<forall>j < length ds. c \<noteq> chainString x (ics ! j)) \<longrightarrow> s1 (ChaincodeQueryType, ch, c) = s (ChaincodeQueryType, ch, c))"
  using assms
proof (induction x ch ds ics s rule: mapDescriptors.induct)
  case (4 x ch desc descs cc ccs ics s)
  obtain d where d: "edChaincode desc = ccID cc" "createEndorsementDescriptor x desc = Inr d"
    and rest: "mapDescriptors x ch descs ics (s((ChaincodeQueryType, ch, chainString x (cc # ccs)) \<mapsto> VDescriptor d)) = Inr s1"
    using "4.prems" by (auto split: if_splits sum.splits)
  note IH = "4.IH" [OF _ d(2) rest, unfolded d(1), simplified]
  have all: "(\<forall>j < length (desc # descs). P j) \<longleftrightarrow> P 0 \<and> (\<forall>j < length descs. P (Suc j))" for P
    by (simp add: All_less_Suc2)
  have "s1 (ChaincodeQueryType, ch, chainString x (cc # ccs)) = Some (VDescriptor d)"
    if "\<forall>j < length descs. chainString x (ics ! j) \<noteq> chainString x (cc # ccs)"
    using IH [THEN conjunct2, THEN conjunct2, THEN spec, of "chainString x (cc # ccs)"] that by (simp add: eq_commute)
  then show ?case unfolding all using IH d by (auto simp: All_less_Suc2)
qed auto

text \<open>
  C18. A result is filed under the query it answers. When a response is computed, the result at the index
  of a query is what the accessor for that query returns: the configuration, the peers with the messages
  unmarshalled, or the error of the service; and for endorsers one descriptor per invocation chain, each for
  the first chaincode of its chain.
\<close>

theorem response_answers_query:
  assumes "computeResponse x order req results = Inr resp" and "request_ok x req"
    and "distinct order" and "set order = set configTypes"
    and "(keyOf x q, i) \<in> set (queryMapping req (GetQueryType q))" and "q = Queries req ! i"
  shows "case q of
      ConfigQuery ch \<Rightarrow>
        (case results ! i of ErrorResult e \<Rightarrow> resp_Config resp ch = Inl (Err (ErrNew e)) | ConfigResult c \<Rightarrow> resp_Config resp ch = Inr c | _ \<Rightarrow> False)
    | PeerQuery ch ic \<Rightarrow>
        (case results ! i of ErrorResult e \<Rightarrow> channel_Peers x resp ch ic = Inl (Err (ErrNew e))
         | Members ms \<Rightarrow> (\<exists>ps. peersForChannel x PeerMembershipQueryType ms = Inr ps \<and> channel_Peers x resp ch ic = Inr ps) | _ \<Rightarrow> False)
    | LocalPeers \<Rightarrow>
        (case results ! i of ErrorResult e \<Rightarrow> local_Peers x resp = Inl (Err (ErrNew e))
         | Members ms \<Rightarrow> (\<exists>ps. peersForChannel x LocalMembershipQueryType ms = Inr ps \<and> local_Peers x resp = Inr ps) | _ \<Rightarrow> False)
    | CcQuery ch ics \<Rightarrow>
        (case results ! i of ErrorResult e \<Rightarrow> (\<forall>src k f n ic. fst (resp_Endorsers x src k f n resp ch ic) = Inl (Err (ErrNew e)))
         | CcQueryRes ds \<Rightarrow> length ds = length ics \<and>
             (\<forall>j < length ics. \<exists>d. createEndorsementDescriptor x (ds ! j) = Inr d \<and> edChaincode (ds ! j) = ccID (hd (ics ! j)) \<and>
                ((\<forall>j' < length ics. j < j' \<longrightarrow> chainString x (ics ! j') \<noteq> chainString x (ics ! j)) \<longrightarrow>
                   resp (ChaincodeQueryType, ch, chainString x (ics ! j)) = Some (VDescriptor d)))
         | _ \<Rightarrow> False)"
proof -
  let ?qt = "GetQueryType q" and ?k = "keyOf x q"
  have qt: "?qt \<in> set order" "?qt \<noteq> InvalidQueryType" unfolding assms(4) configTypes_def by (cases q; simp)+
  obtain s0 s1 where s: "entryStep x req results ?qt (?k, i) s0 = Inr s1"
      "\<forall>c. s0 (?qt, ?k, c) = None \<and> resp (?qt, ?k, c) = s1 (?qt, ?k, c)"
    using computeResponse_entry [OF assms(1,3) qt assms(2,5)] by blast
  show ?thesis
  proof (cases q)
    case (ConfigQuery ch)
    then show ?thesis using s
      by (auto simp: entryStep_def mapConfig_def resultAt_def resp_Config_def split: query_result.splits if_splits)
  next
    case (PeerQuery ch ic)
    then show ?thesis using s
      by (auto simp: entryStep_def mapPeerMembership_def resultAt_def channel_Peers_def parsePeers_def
          split: query_result.splits if_splits sum.splits)
  next
    case LocalPeers
    then show ?thesis using s
      by (auto simp: entryStep_def mapPeerMembership_def resultAt_def local_Peers_def parsePeers_def
          split: query_result.splits if_splits sum.splits)
  next
    case (CcQuery ch ics)
    have chains: "invocationChainMapping req i = Some ics"
      using assms(2,5,6) CcQuery unfolding request_ok_def by metis
    show ?thesis
    proof (cases "results ! i")
      case (CcQueryRes ds)
      have run: "mapEndorsersOfChannel x ch ds ics s0 = Inr s1"
        using s(1) CcQuery CcQueryRes chains by (auto simp: entryStep_def mapEndorsers_def resultAt_def split: if_splits sum.splits)
      then have "length ics \<le> length ds" "mapDescriptors x ch ds ics s0 = Inr s1"
        by (simp_all add: mapEndorsersOfChannel_def split: if_splits)
      with mapDescriptors_spec [OF this(2)] have "length ds = length ics" by simp
      then show ?thesis
        using mapDescriptors_spec [OF \<open>mapDescriptors x ch ds ics s0 = Inr s1\<close>] s(2) CcQuery CcQueryRes by auto
    qed (use s CcQuery in \<open>auto simp: entryStep_def mapEndorsers_def resultAt_def resp_Endorsers_def split: if_splits\<close>)
  qed
qed

text \<open>A request for the configuration and the endorsers of one chaincode, answered.\<close>

definition test_disc :: disc_ext where
  "test_disc = \<lparr>unmarshalGossip = (\<lambda>b. Inr \<lparr>GetAliveMsg = Some \<lparr>amMembership = Some (map (\<lambda>w. char_of (unat w)) b), amTimestamp = True\<rparr>,
        GetStateInfo = Some \<lparr>siTimestamp = True, siLedgerHeight = Some 5\<rparr>\<rparr>),
     unmarshalMspid = (\<lambda>b. Inr ''Org1MSP''), chainString = (\<lambda>ic. concat (map ccID ic)), discErr = pkg_errors\<rparr>"

definition test_cc :: ChaincodeCall where
  "test_cc = \<lparr>ccID = ''cc'', Collections = []\<rparr>"

definition test_endorser :: proto_peer where
  "test_endorser = \<lparr>ppMembershipInfo = Some [97], ppStateInfo = Some [98], ppIdentity = []\<rparr>"

definition test_ops :: "request_op list" where
  "test_ops = [ChannelOp ''ch'', ConfigOp, EndorsersOp [Some [test_cc]]]"

definition test_results :: "query_result list" where
  "test_results = [ConfigResult [1], CcQueryRes [\<lparr>edChaincode = ''cc'', EndorsersByGroups = [(''G'', [test_endorser])], Layouts = [[(''G'', 1)]]\<rparr>]]"

lemmas test_disc_defs = test_disc_def test_cc_def test_endorser_def test_ops_def test_results_def

lemma test_response:
  "\<exists>resp. computeResponse test_disc configTypes (fold (applyOp test_disc) test_ops disc_NewRequest) test_results = Inr resp"
  by (simp add: test_disc_defs computeResponse_def configTypes_def mapType_def mapConfig_def mapEndorsers_def mapEndorsersOfChannel_def
      resultAt_def createEndorsementDescriptor_def layoutOf_def disc_endorser_def EnvelopeToGossipMessage_def wrapMsg_def checked_def
      validateAliveMessage_def validateStateInfoMessage_def disc_NewRequest_def OfChannel_def AddConfigQuery_def AddEndorsersQuery_def
      validateInterests_def ValidateInvocationChain_def addQueryMapping_def addChaincodeQueryMapping_def addQuery_def Let_def)

lemma test_request_queries:
  "Queries (fold (applyOp test_disc) test_ops disc_NewRequest) = [ConfigQuery ''ch'', CcQuery ''ch'' [[test_cc]]]"
  "(''ch'', 0) \<in> set (queryMapping (fold (applyOp test_disc) test_ops disc_NewRequest) ConfigQueryType)"
  by (simp_all add: test_ops_def test_cc_def disc_NewRequest_def OfChannel_def AddConfigQuery_def AddEndorsersQuery_def
      validateInterests_def ValidateInvocationChain_def addQueryMapping_def addChaincodeQueryMapping_def addQuery_def Let_def)

theorem response_answers_query_witness:
  "\<exists>resp. computeResponse test_disc configTypes (fold (applyOp test_disc) test_ops disc_NewRequest) test_results = Inr resp \<and>
     resp_Config resp ''ch'' = Inr [1]"
proof -
  define req where "req = fold (applyOp test_disc) test_ops disc_NewRequest"
  obtain resp where r: "computeResponse test_disc configTypes req test_results = Inr resp"
    using test_response unfolding req_def by blast
  have ok: "request_ok test_disc req" unfolding req_def by (rule fold_applyOp_ok)
  have q: "Queries req ! 0 = ConfigQuery ''ch''" "(''ch'', 0) \<in> set (queryMapping req ConfigQueryType)"
    using test_request_queries unfolding req_def [symmetric] by simp_all
  have "resp_Config resp ''ch'' = Inr [1]"
  proof -
    note a = response_answers_query [OF r ok _ refl _ refl, of 0, unfolded q(1) disc_query.case keyOf.simps GetQueryType.simps]
    have "distinct configTypes" by (simp add: configTypes_def)
    from a [OF this q(2)] show ?thesis by (simp add: test_results_def)
  qed
  with r show ?thesis unfolding req_def by blast
qed

section \<open>Selecting endorsers\<close>

text \<open>A call of a filter, on a group of endorsers, in a state that satisfies \<open>P\<close>: if it returns, it ends in one.\<close>

definition filter_keeps :: "'s disc_filter \<Rightarrow> ('s \<Rightarrow> bool) \<Rightarrow> (string \<rightharpoonup> disc_peer list) \<Rightarrow> bool" where
  "filter_keeps f P groups \<longleftrightarrow> (\<forall>n grp fs n1. P n \<longrightarrow> f n (groupOf groups grp) = Inr (fs, n1) \<longrightarrow> P n1)"

definition filterCall :: "'s disc_filter \<Rightarrow> ('s \<Rightarrow> bool) \<Rightarrow> disc_peer list \<Rightarrow> disc_peer list \<Rightarrow> bool" where
  "filterCall f P es fs \<longleftrightarrow> (\<exists>n n1. P n \<and> f n es = Inr (fs, n1))"

definition filterFails :: "'s disc_filter \<Rightarrow> ('s \<Rightarrow> bool) \<Rightarrow> disc_peer list \<Rightarrow> failure \<Rightarrow> bool" where
  "filterFails f P es e \<longleftrightarrow> (\<exists>n. P n \<and> f n es = Inl e)"

definition fills :: "'s disc_filter \<Rightarrow> ('s \<Rightarrow> bool) \<Rightarrow> (string \<rightharpoonup> disc_peer list) \<Rightarrow> (string \<times> nat) list \<Rightarrow> disc_peer list \<Rightarrow> bool" where
  "fills f P groups l es \<longleftrightarrow> (\<exists>parts. es = concat parts \<and> list_all2 (\<lambda>(grp, cnt) part. length part = cnt \<and>
     (\<exists>fs. filterCall f P (groupOf groups grp) fs \<and> part = take cnt fs)) l parts)"

definition tooFew :: "'s disc_filter \<Rightarrow> ('s \<Rightarrow> bool) \<Rightarrow> (string \<rightharpoonup> disc_peer list) \<Rightarrow> (string \<times> nat) list \<Rightarrow> bool" where
  "tooFew f P groups l \<longleftrightarrow> (\<exists>(grp, cnt) \<in> set l. \<exists>fs. filterCall f P (groupOf groups grp) fs \<and> length fs < cnt)"

lemma selectPeersForLayout_spec:
  assumes "filter_keeps f P groups" "P n"
  shows "case selectPeersForLayout groups f n l of
     Inr (Some es, n1) \<Rightarrow> P n1 \<and> fills f P groups l es
   | Inr (None, n1) \<Rightarrow> P n1 \<and> tooFew f P groups l
   | Inl e \<Rightarrow> \<exists>(grp, cnt) \<in> set l. filterFails f P (groupOf groups grp) e"
  using assms
proof (induction groups f n l rule: selectPeersForLayout.induct)
  case (1 groups f n)
  then show ?case by (simp add: fills_def)
next
  case (2 groups f n grp cnt l)
  let ?g = "groupOf groups grp"
  show ?case
  proof (cases "f n ?g")
    case (Inl e)
    then show ?thesis using 2(3) by (auto simp: filterFails_def)
  next
    case (Inr r)
    obtain fs n1 where r: "r = (fs, n1)" by (cases r)
    have P1: "P n1" using 2(2,3) Inr r unfolding filter_keeps_def by blast
    have call: "filterCall f P ?g fs" using 2(3) Inr r unfolding filterCall_def by blast
    show ?thesis
    proof (cases "length fs < cnt")
      case True
      then show ?thesis using Inr r P1 call by (auto simp: tooFew_def)
    next
      case False
      note IH = "2.IH" [OF Inr r [symmetric] False 2(2) P1]
      consider (err) e where "selectPeersForLayout groups f n1 l = Inl e"
        | (none) n2 where "selectPeersForLayout groups f n1 l = Inr (None, n2)"
        | (some) es n2 where "selectPeersForLayout groups f n1 l = Inr (Some es, n2)"
        by (metis old.sum.exhaust option.exhaust surj_pair)
      then show ?thesis
      proof cases
        case err
        then show ?thesis using IH Inr r False by auto
      next
        case none
        then show ?thesis using IH Inr r False by (auto simp: tooFew_def)
      next
        case some
        with IH obtain parts where "P n2" "es = concat parts" "list_all2 (\<lambda>(grp, cnt) part. length part = cnt \<and>
          (\<exists>fs. filterCall f P (groupOf groups grp) fs \<and> part = take cnt fs)) l parts" by (auto simp: fills_def)
        then show ?thesis using some Inr r False call
          by (auto simp: fills_def intro!: exI [of _ "take cnt fs # parts"])
      qed
    qed
  qed
qed

lemma tryLayouts_spec:
  assumes "filter_keeps f P groups" "P n"
  shows "case tryLayouts groups f n ls of
     Inr (Some es, n1) \<Rightarrow> P n1 \<and> (\<exists>l \<in> set ls. fills f P groups l es)
   | Inr (None, n1) \<Rightarrow> P n1 \<and> (\<forall>l \<in> set ls. tooFew f P groups l)
   | Inl e \<Rightarrow> \<exists>l \<in> set ls. \<exists>(grp, cnt) \<in> set l. filterFails f P (groupOf groups grp) e"
  using assms(2)
proof (induction ls arbitrary: n)
  case (Cons l ls)
  note sel = selectPeersForLayout_spec [OF assms(1) Cons.prems, where l = l]
  consider (err) e where "selectPeersForLayout groups f n l = Inl e"
    | (none) n2 where "selectPeersForLayout groups f n l = Inr (None, n2)"
    | (some) es n2 where "selectPeersForLayout groups f n l = Inr (Some es, n2)"
    by (metis old.sum.exhaust option.exhaust surj_pair)
  then show ?case
  proof cases
    case err
    then show ?thesis using sel by simp
  next
    case none
    then have "P n2" "tooFew f P groups l" using sel by simp_all
    then show ?thesis using Cons.IH [OF \<open>P n2\<close>] none by (auto split: sum.splits option.splits)
  next
    case some
    then show ?thesis using sel by auto
  qed
qed simp

lemma resp_Endorsers_spec:
  assumes "resp (ChaincodeQueryType, ch, '''') = None" and "resp (ChaincodeQueryType, ch, chainString x ic) = Some (VDescriptor desc)"
    and "filter_keeps f P (endorsersByGroups desc)" "P n"
  shows "case resp_Endorsers x src k f n resp ch ic of
      (Inr es, n1) \<Rightarrow> P n1 \<and> (\<exists>l \<in> set (layouts desc). fills f P (endorsersByGroups desc) l es)
    | (Inl e, n1) \<Rightarrow> P n1 \<and>
        (e = Err (ErrNew ''no endorsement combination can be satisfied'') \<and> (\<forall>l \<in> set (layouts desc). tooFew f P (endorsersByGroups desc) l) \<or>
         (\<exists>l \<in> set (layouts desc). \<exists>(grp, cnt) \<in> set l. filterFails f P (groupOf (endorsersByGroups desc) grp) e))"
proof -
  let ?ls = "map (\<lambda>i. layouts desc ! i) (rand_Perm src k (length (layouts desc)))"
  have set_ls: "set ?ls = set (layouts desc)"
    using mset_map_nth_perm [OF mset_shuffle, of "layouts desc" src k] by (metis rand_Perm_def set_mset_mset)
  note spec = tryLayouts_spec [OF assms(3,4), where ls = ?ls, unfolded set_ls]
  consider (err) e where "tryLayouts (endorsersByGroups desc) f n ?ls = Inl e"
    | (none) n2 where "tryLayouts (endorsersByGroups desc) f n ?ls = Inr (None, n2)"
    | (some) es n2 where "tryLayouts (endorsersByGroups desc) f n ?ls = Inr (Some es, n2)"
    by (metis old.sum.exhaust option.exhaust surj_pair)
  then show ?thesis
  proof cases
    case err
    then show ?thesis using spec assms by (simp add: resp_Endorsers_def)
  next
    case none
    then show ?thesis using spec assms by (simp add: resp_Endorsers_def)
  next
    case some
    then show ?thesis using spec assms by (simp add: resp_Endorsers_def)
  qed
qed

text \<open>
  C19. Endorsers fill a layout. \<open>Endorsers\<close> returns, for one of the layouts of the descriptor, exactly the
  required number of filtered endorsers of every group of that layout; it fails only when each layout has a
  group for which the filter left too few, or when the filter itself fails on a group.
\<close>

theorem Endorsers_fill_layout:
  assumes "resp (ChaincodeQueryType, ch, '''') = None" and "resp (ChaincodeQueryType, ch, chainString x ic) = Some (VDescriptor desc)"
  shows "case fst (resp_Endorsers x src k f n resp ch ic) of
      Inr es \<Rightarrow> \<exists>l \<in> set (layouts desc). \<exists>parts. es = concat parts \<and>
        list_all2 (\<lambda>(grp, cnt) part. length part = cnt \<and>
          (\<exists>fs. (\<exists>m m1. f m (groupOf (endorsersByGroups desc) grp) = Inr (fs, m1)) \<and> part = take cnt fs)) l parts
    | Inl e \<Rightarrow>
        (e = Err (ErrNew ''no endorsement combination can be satisfied'') \<and>
         (\<forall>l \<in> set (layouts desc). \<exists>(grp, cnt) \<in> set l. \<exists>fs.
            (\<exists>m m1. f m (groupOf (endorsersByGroups desc) grp) = Inr (fs, m1)) \<and> length fs < cnt)) \<or>
        (\<exists>l \<in> set (layouts desc). \<exists>(grp, cnt) \<in> set l. \<exists>m. f m (groupOf (endorsersByGroups desc) grp) = Inl e)"
proof -
  obtain r n1 where r: "resp_Endorsers x src k f n resp ch ic = (r, n1)" by (cases "resp_Endorsers x src k f n resp ch ic")
  have keeps: "filter_keeps f (\<lambda>_. True) (endorsersByGroups desc)" by (simp add: filter_keeps_def)
  have call: "filterCall f (\<lambda>_. True) es fs \<longleftrightarrow> (\<exists>m m1. f m es = Inr (fs, m1))" for es fs by (simp add: filterCall_def)
  note spec = resp_Endorsers_spec [OF assms keeps, simplified, of src k n, unfolded r]
  then show ?thesis using r unfolding fills_def tooFew_def filterFails_def call by (cases r) simp_all
qed

theorem Endorsers_fill_layout_witness:
  "case fst (resp_Endorsers test_disc (\<lambda>_ _. 0) 0 NoFilter ()
        (Map.empty((ChaincodeQueryType, ''ch'', ''cc'') \<mapsto> VDescriptor \<lparr>endorsersByGroups = Map.empty, layouts = [[(''G'', 1)]]\<rparr>)) ''ch'' [test_cc]) of
      Inr es \<Rightarrow> False
    | Inl e \<Rightarrow> e = Err (ErrNew ''no endorsement combination can be satisfied'')"
proof -
  let ?d = "\<lparr>endorsersByGroups = Map.empty, layouts = [[(''G'', 1)]]\<rparr>"
  let ?resp = "(Map.empty((ChaincodeQueryType, ''ch'', ''cc'') \<mapsto> VDescriptor ?d)) :: disc_response"
  have "chainString test_disc [test_cc] = ''cc''" by (simp add: test_disc_def test_cc_def)
  then show ?thesis
    using Endorsers_fill_layout [where resp = ?resp and ch = "''ch''" and x = test_disc and ic = "[test_cc]" and desc = ?d
        and src = "\<lambda>_ _. 0" and k = 0 and f = NoFilter and n = "()"]
    by (auto simp: groupOf_def NoFilter_def list_all2_Cons1 split: sum.splits)
qed

section \<open>The signer\<close>

definition memo_ok :: "(bytes \<Rightarrow> string) \<Rightarrow> (bytes \<Rightarrow> error + bytes) \<Rightarrow> MemoizeSigner \<Rightarrow> bool" where
  "memo_ok digest sign ms \<longleftrightarrow>
     (\<forall>(d, sig) \<in> set (memory ms). \<exists>msg. digest msg = d \<and> sign msg = Inr sig) \<and>
     distinct (map fst (memory ms)) \<and> length (memory ms) \<le> Suc (maxEntries ms)"

lemma subseq_evict: "subseq (evictFromMemory evict mem) mem"
proof -
  let ?i = "evict (length mem) mod length mem"
  have "subseq (drop (Suc ?i) mem) (drop ?i mem)" by (metis drop_drop plus_1_eq_Suc suffix_drop suffix_imp_subseq)
  then have "subseq (take ?i mem @ drop (Suc ?i) mem) (take ?i mem @ drop ?i mem)" by (intro list_emb_append_mono) simp_all
  then show ?thesis by (simp add: evictFromMemory_def Let_def)
qed

lemma shrinkMemory_spec: "subseq (shrinkMemory evict n mem) mem \<and> length (shrinkMemory evict n mem) \<le> max n 0"
proof (induction evict n mem rule: shrinkMemory.induct)
  case (1 evict n mem)
  show ?case
  proof (cases "length mem > n")
    case True
    then show ?thesis using "1.IH" [OF True] subseq_evict [of evict mem] subseq_order.order_trans
      by (subst (1 2) shrinkMemory.simps) auto
  qed (subst (1 2) shrinkMemory.simps, simp)
qed

lemma length_mapSet: "length (mapSet k v kvs) \<le> Suc (length kvs)"
  by (induction k v kvs rule: mapSet.induct) auto

lemma memorize_ok:
  assumes ok: "memo_ok digest sign ms" and sig: "sign msg = Inr sig"
  shows "memo_ok digest sign (memorize digest evict msg sig ms)"
proof (cases "maxEntries ms = 0")
  case False
  define mem where "mem = (if length (memory ms) \<ge> maxEntries ms then shrinkMemory evict (maxEntries ms) (memory ms) else memory ms)"
  have sub: "subseq mem (memory ms)" and len: "length mem \<le> maxEntries ms"
    using shrinkMemory_spec [of evict "maxEntries ms" "memory ms"] by (auto simp: mem_def)
  obtain N where "mem = nths (memory ms) N" using sub by (auto simp: subseq_conv_nths)
  then have "distinct (map fst mem)" using ok by (simp add: memo_ok_def distinct_nthsI flip: nths_map)
  then have set_new: "set (mapSet (digest msg) sig mem) = insert (digest msg, sig) {(k', v'). (k', v') \<in> set mem \<and> k' \<noteq> digest msg}"
    and dist: "distinct (map fst (mapSet (digest msg) sig mem))" by (simp_all only: set_mapSet distinct_mapSet)
  have "set mem \<subseteq> set (memory ms)" using sub by (auto dest: list_emb_set)
  with ok have "\<exists>msg'. digest msg' = d \<and> sign msg' = Inr v" if "(d, v) \<in> set mem" for d v
    using that unfolding memo_ok_def by blast
  then have "\<exists>msg'. digest msg' = d \<and> sign msg' = Inr v" if "(d, v) \<in> set (mapSet (digest msg) sig mem)" for d v
    using that sig unfolding set_new by blast
  then have "memo_ok digest sign (ms\<lparr>memory := mapSet (digest msg) sig mem\<rparr>)"
    using dist len length_mapSet [of "digest msg" sig mem] by (auto simp: memo_ok_def)
  then show ?thesis using False by (simp add: memorize_def mem_def Let_def)
qed (use ok in \<open>simp add: memorize_def\<close>)

fun memo_run :: "(bytes \<Rightarrow> string) \<Rightarrow> (nat \<Rightarrow> nat) \<Rightarrow> (bytes \<Rightarrow> error + bytes) \<Rightarrow> bytes list \<Rightarrow> MemoizeSigner \<Rightarrow> (error + bytes) list \<times> MemoizeSigner" where
  "memo_run digest evict sign [] ms = ([], ms)"
| "memo_run digest evict sign (msg # msgs) ms =
     (case memo_Sign digest evict sign msg ms of (r, ms1) \<Rightarrow>
      case memo_run digest evict sign msgs ms1 of (rs, ms2) \<Rightarrow> (r # rs, ms2))"

definition signedAs :: "(bytes \<Rightarrow> string) \<Rightarrow> (bytes \<Rightarrow> error + bytes) \<Rightarrow> bytes \<Rightarrow> error + bytes \<Rightarrow> bool" where
  "signedAs digest sign msg r \<longleftrightarrow> (case r of Inl e \<Rightarrow> sign msg = Inl e | Inr sig \<Rightarrow> \<exists>msg'. digest msg' = digest msg \<and> sign msg' = Inr sig)"

lemma memo_Sign_ok:
  assumes "memo_ok digest sign ms" "memo_Sign digest evict sign msg ms = (r, ms1)"
  shows "memo_ok digest sign ms1 \<and> maxEntries ms1 = maxEntries ms \<and> signedAs digest sign msg r"
proof (cases "map_of (memory ms) (digest msg)")
  case (Some sig)
  then have "(digest msg, sig) \<in> set (memory ms)" by (rule map_of_SomeD)
  with assms(1) have "\<exists>msg'. digest msg' = digest msg \<and> sign msg' = Inr sig" unfolding memo_ok_def by blast
  then show ?thesis using assms Some by (auto simp: memo_Sign_def signedAs_def)
next
  case None
  then show ?thesis using assms memorize_ok [OF assms(1), of msg _ evict]
    by (auto simp: memo_Sign_def signedAs_def memorize_def Let_def split: sum.splits if_splits)
qed

text \<open>
  The signer signs. Over any sequence of messages every signature the memoizing signer returns is one the
  underlying signer produced for a message of the same digest, and the memory never exceeds one entry more than
  its maximum.
\<close>

theorem memo_signer_sound:
  assumes "memo_run digest evict sign msgs (NewMemoizeSigner n) = (rs, ms)"
  shows "list_all2 (signedAs digest sign) msgs rs \<and> length (memory ms) \<le> Suc n"
proof -
  have "list_all2 (signedAs digest sign) msgs rs \<and> memo_ok digest sign ms \<and> maxEntries ms = maxEntries ms0"
    if "memo_ok digest sign ms0" "memo_run digest evict sign msgs ms0 = (rs, ms)" for ms0
    using that
  proof (induction msgs arbitrary: ms0 rs)
    case (Cons msg msgs)
    obtain r ms1 where r: "memo_Sign digest evict sign msg ms0 = (r, ms1)" by (cases "memo_Sign digest evict sign msg ms0")
    then obtain rs' where "memo_run digest evict sign msgs ms1 = (rs', ms)" "rs = r # rs'"
      using Cons.prems(2) by (auto split: prod.splits)
    then show ?case using memo_Sign_ok [OF Cons.prems(1) r] Cons.IH [of ms1 rs'] by simp
  qed simp
  from this [OF _ assms] show ?thesis by (simp add: memo_ok_def NewMemoizeSigner_def)
qed

theorem memo_signer_sound_witness:
  "length (memory (snd (memo_run (\<lambda>m. map (\<lambda>w. char_of (unat w)) m) (\<lambda>_. 0) (\<lambda>m. Inr m) [[1], [2], [1]] (NewMemoizeSigner 1)))) \<le> Suc 1"
  using memo_signer_sound [where digest = "\<lambda>m. map (\<lambda>w. char_of (unat w)) m" and evict = "\<lambda>_. 0" and sign = "\<lambda>m. Inr m"
      and msgs = "[[1], [2], [1]]" and n = 1, OF surjective_pairing] by blast

end
