(* ===== verification/FabricDiscovery.thy ===== *)
theory FabricDiscovery
  imports DiscoveryClient ChannelClient
begin

text \<open>
  The discovery services of the SDK: \<^verbatim>\<open>pkg/fab/discovery\<close>, which sends one request to several peers at once,
  \<^verbatim>\<open>pkg/client/common/discovery/dynamicdiscovery\<close>, which takes the peers of a channel or of the local MSP
  from the first good response, \<^verbatim>\<open>staticdiscovery\<close>, which takes them from the configuration, and the filter
  in front of a service. The routines of \<open>Send\<close> answer in any order: \<open>arrive\<close> is the order of arrival.
\<close>

section \<open>Sending to several peers\<close>

text \<open>A \<open>response\<close>: \<open>None\<close> in \<open>daResponse\<close> is the nil interface.\<close>

record disc_answer =
  daTarget :: string
  daResponse :: "disc_response option"
  daErr :: "error option"

definition isContextCanceled :: "ext \<Rightarrow> error \<Rightarrow> bool" where
  "isContextCanceled x e = Contains (ErrorText x e) ''context canceled''"

definition send_one :: "disc_ext \<Rightarrow> (string \<Rightarrow> error + send_ext) \<Rightarrow> disc_request \<Rightarrow> string \<Rightarrow> disc_response outcome" where
  "send_one x connect req target = (case connect target of Inl e \<Rightarrow> Inl (Err e) | Inr se \<Rightarrow> disc_Send x se req)"

definition answerOf :: "disc_ext \<Rightarrow> (string \<Rightarrow> error + send_ext) \<Rightarrow> disc_request \<Rightarrow> string \<Rightarrow> disc_answer outcome" where
  "answerOf x connect req target =
     (case send_one x connect req target of
        Inr resp \<Rightarrow> Inr \<lparr>daTarget = target, daResponse = Some resp, daErr = None\<rparr>
      | Inl (Err e) \<Rightarrow>
          Inr \<lparr>daTarget = target, daResponse = None,
               daErr = (if \<not> isContextCanceled (discErr x) e then Some (ErrWithMessage (''From target: '' @ target) e) else None)\<rparr>
      | Inl (Panic p) \<Rightarrow> Inl (Panic p))"

definition discovery_Send ::
  "disc_ext \<Rightarrow> (string \<Rightarrow> error + send_ext) \<Rightarrow> (string list \<Rightarrow> string list) \<Rightarrow> disc_request \<Rightarrow> string list \<Rightarrow> disc_answer list outcome" where
  "discovery_Send x connect arrive req targets =
     (if targets = [] then Inl (Err (ErrNew ''no targets specified'')) else mapE (answerOf x connect req) (arrive targets))"

section \<open>Peers of a response\<close>

record disc_cfg =
  dcPeerConfig :: "string \<Rightarrow> string option"
  dcCreatePeer :: "string \<Rightarrow> string \<Rightarrow> error + peer"
  dcNewPeer :: "string \<Rightarrow> string \<Rightarrow> error + peer"

text \<open>The endpoint of the membership in the alive message, which must be there.\<close>

definition endpointOf :: "disc_peer \<Rightarrow> string outcome" where
  "endpointOf p =
     (case GetAliveMsg (AliveMessage p) of
        None \<Rightarrow> Inl (Panic ''nil pointer dereference'')
      | Some am \<Rightarrow> (case amMembership am of None \<Rightarrow> Inl (Panic ''nil pointer dereference'') | Some url \<Rightarrow> Inr url))"

definition heightOf :: "disc_peer \<Rightarrow> uint64 outcome" where
  "heightOf p =
     (case StateInfoMessage p of
        None \<Rightarrow> Inl (Panic ''nil pointer dereference'')
      | Some m \<Rightarrow> (case GetStateInfo m of
          None \<Rightarrow> Inl (Panic ''nil pointer dereference'')
        | Some si \<Rightarrow> (case siLedgerHeight si of None \<Rightarrow> Inl (Panic ''nil pointer dereference'') | Some h \<Rightarrow> Inr h)))"

text \<open>\<open>asPeer\<close>: \<open>None\<close> when the peer could not be created, which is logged and otherwise ignored.\<close>

definition disc_asPeer :: "disc_cfg \<Rightarrow> disc_peer \<Rightarrow> peer option outcome" where
  "disc_asPeer cfg endpoint =
     bindO (endpointOf endpoint) (\<lambda>url.
       Inr (case (case dcPeerConfig cfg url of
                    Some cfgURL \<Rightarrow> dcCreatePeer cfg cfgURL (dpMSPID endpoint)
                  | None \<Rightarrow> dcNewPeer cfg url (dpMSPID endpoint)) of
              Inl e \<Rightarrow> None | Inr p \<Rightarrow> Some p))"

definition local_asPeers :: "disc_cfg \<Rightarrow> disc_peer list \<Rightarrow> peer list outcome" where
  "local_asPeers cfg endpoints = bindO (mapE (disc_asPeer cfg) endpoints) (\<lambda>ps. Inr (List.map_filter (\<lambda>p. p) ps))"

definition channel_asPeer :: "disc_cfg \<Rightarrow> (string \<Rightarrow> bool) \<Rightarrow> disc_peer \<Rightarrow> peer option outcome" where
  "channel_asPeer cfg ContainsMSP endpoint =
     bindO (disc_asPeer cfg endpoint) (\<lambda>r.
       case r of
         None \<Rightarrow> Inr None
       | Some p \<Rightarrow> if ContainsMSP (MSPID p) then bindO (heightOf endpoint) (\<lambda>h. Inr (Some (p\<lparr>BlockHeight := Some h\<rparr>))) else Inr None)"

definition channel_asPeers :: "disc_cfg \<Rightarrow> (string \<Rightarrow> bool) \<Rightarrow> disc_peer list \<Rightarrow> peer list outcome" where
  "channel_asPeers cfg ContainsMSP endpoints =
     bindO (mapE (channel_asPeer cfg ContainsMSP) endpoints) (\<lambda>ps. Inr (List.map_filter (\<lambda>p. p) ps))"

section \<open>The channel service\<close>

text \<open>A \<open>DiscoveryError\<close> shows the target in its text and hides the cause.\<close>

definition newDiscoveryError :: "ext \<Rightarrow> error \<Rightarrow> string \<Rightarrow> error" where
  "newDiscoveryError x e target = ErrNew (ErrorText x (ErrWithMessage (''target ['' @ target @ '']'') e))"

definition evaluate ::
  "disc_ext \<Rightarrow> disc_cfg \<Rightarrow> (string \<Rightarrow> bool) \<Rightarrow> string \<Rightarrow> disc_answer \<Rightarrow> peer list outcome" where
  "evaluate x cfg ContainsMSP ch a =
     (case daErr a of
        Some e \<Rightarrow> Inl (Err (newDiscoveryError (discErr x) e (daTarget a)))
      | None \<Rightarrow>
         (case daResponse a of
            None \<Rightarrow> Inl (Panic ''nil pointer dereference'')
          | Some resp \<Rightarrow>
             (case channel_Peers x resp ch [] of
                Inl (Err e) \<Rightarrow> Inl (Err (newDiscoveryError (discErr x) e (daTarget a)))
              | Inl (Panic p) \<Rightarrow> Inl (Panic p)
              | Inr endpoints \<Rightarrow> channel_asPeers cfg ContainsMSP endpoints)))"

text \<open>The loop over the responses, with the errors so far.\<close>

fun firstGood :: "(disc_answer \<Rightarrow> peer list outcome) \<Rightarrow> disc_answer list \<Rightarrow> error list \<Rightarrow> peer list outcome" where
  "firstGood eval [] respErrors =
     (case multi_New (map Some respErrors) of
        None \<Rightarrow> Inr []
      | Some e \<Rightarrow> Inl (Err (ErrWithMessage ''no successful response received from any peer'' e)))"
| "firstGood eval (a # as) respErrors =
     (case eval a of
        Inr peers \<Rightarrow> Inr peers
      | Inl (Err e) \<Rightarrow> firstGood eval as (respErrors @ [e])
      | Inl (Panic p) \<Rightarrow> Inl (Panic p))"

record chan_ext =
  ceDisc :: disc_ext
  ceCfg :: disc_cfg
  ceContainsMSP :: "string \<Rightarrow> bool"
  ceChannelPeers :: "string list"
  ceMaxTargets :: int
  ceConnect :: "string \<Rightarrow> error + send_ext"
  ceArrive :: "string list \<Rightarrow> string list"
  ceRand :: rand_src

definition channel_getTargets :: "chan_ext \<Rightarrow> error + string list" where
  "channel_getTargets c =
     (if ceChannelPeers c = [] then Inl (ErrNew ''no channel peers configured'')
      else Inr (PickRandomNPeerConfigs (ceRand c) 0 (ceChannelPeers c) (ceMaxTargets c)))"

definition channel_doQueryPeers :: "chan_ext \<Rightarrow> string \<Rightarrow> peer list outcome" where
  "channel_doQueryPeers c ch =
     (case channel_getTargets c of
        Inl e \<Rightarrow> Inl (Err e)
      | Inr targets \<Rightarrow>
         if targets = [] then Inl (Err (ErrNew ''no peers configured''))
         else
           (case discovery_Send (ceDisc c) (ceConnect c) (ceArrive c) (AddPeersQuery (ceDisc c) [] (OfChannel ch disc_NewRequest)) targets of
              Inl (Err e) \<Rightarrow> Inl (Err (ErrWithMessage ''error calling discover service send'' e))
            | Inl (Panic p) \<Rightarrow> Inl (Panic p)
            | Inr answers \<Rightarrow> firstGood (evaluate (ceDisc c) (ceCfg c) (ceContainsMSP c) ch) answers []))"

section \<open>The local service\<close>

text \<open>The response of a target is used without a look at its error.\<close>

definition local_evaluate :: "disc_ext \<Rightarrow> disc_cfg \<Rightarrow> string \<Rightarrow> disc_answer \<Rightarrow> peer list outcome" where
  "local_evaluate x cfg localMSPID a =
     (case daResponse a of
        None \<Rightarrow> Inl (Panic ''nil pointer dereference'')
      | Some resp \<Rightarrow>
         (case local_Peers x resp of
            Inl (Err e) \<Rightarrow> Inl (Err (newDiscoveryError (discErr x) e (daTarget a)))
          | Inl (Panic p) \<Rightarrow> Inl (Panic p)
          | Inr endpoints \<Rightarrow> bindO (local_asPeers cfg endpoints) (\<lambda>ps. Inr (filter (\<lambda>p. MSPID p = localMSPID) ps))))"

definition local_getTargets :: "string \<Rightarrow> NetworkPeer list \<Rightarrow> error + string list" where
  "local_getTargets mspID peers =
     (let targets = map npURL (filter (\<lambda>p. npMSPID p = mspID) peers) in
      if targets = [] then Inl (ErrNew (''no bootstrap peers configured for MSP ['' @ mspID @ '']'')) else Inr targets)"

text \<open>The local context is \<open>None\<close> until \<open>Initialize\<close>; it carries the MSP of the client.\<close>

definition local_Initialize :: "string \<Rightarrow> string \<Rightarrow> error option \<Rightarrow> string option \<Rightarrow> error + string option" where
  "local_Initialize mspID ctxMSP clientErr ctx =
     (if ctxMSP \<noteq> mspID then Inl (ErrNew (''expecting context for MSP ['' @ mspID @ ''] but got ['' @ ctxMSP @ '']''))
      else case ctx of
        Some m \<Rightarrow> Inr (Some m)
      | None \<Rightarrow> (case clientErr of Some e \<Rightarrow> Inl (ErrWithMessage ''error creating discover client'' e) | None \<Rightarrow> Inr (Some ctxMSP)))"

definition local_doQueryPeers :: "chan_ext \<Rightarrow> NetworkPeer list \<Rightarrow> string option \<Rightarrow> peer list outcome" where
  "local_doQueryPeers c netPeers ctx =
     (case ctx of
        None \<Rightarrow> Inl (Err (ErrNew ''the service has not been initialized''))
      | Some localMSPID \<Rightarrow>
         (case local_getTargets localMSPID netPeers of
            Inl e \<Rightarrow> Inl (Err e)
          | Inr targets \<Rightarrow>
             (case discovery_Send (ceDisc c) (ceConnect c) (ceArrive c) (AddLocalPeersQuery (ceDisc c) disc_NewRequest) targets of
                Inl (Err e) \<Rightarrow> Inl (Err (ErrWithMessage ''error calling discover service send'' e))
              | Inl (Panic p) \<Rightarrow> Inl (Panic p)
              | Inr answers \<Rightarrow> firstGood (local_evaluate (ceDisc c) (ceCfg c) localMSPID) answers [])))"

section \<open>Static discovery and filters\<close>

text \<open>A creator that returns no peer and no error makes \<open>NewService\<close> return neither a service nor an error
  (\<open>errors.WithMessage\<close> of nil is nil): the inner \<open>None\<close>.\<close>

fun createPeers :: "('c \<Rightarrow> error + peer option) \<Rightarrow> 'c list \<Rightarrow> error + peer list option" where
  "createPeers create [] = Inr (Some [])"
| "createPeers create (p # ps) =
     (case create p of
        Inl e \<Rightarrow> Inl (ErrWithMessage ''NewPeer failed'' e)
      | Inr None \<Rightarrow> Inr None
      | Inr (Some q) \<Rightarrow>
         (case createPeers create ps of Inl e \<Rightarrow> Inl e | Inr None \<Rightarrow> Inr None | Inr (Some qs) \<Rightarrow> Inr (Some (q # qs))))"

definition static_NewService :: "(string \<Rightarrow> 'c list) \<Rightarrow> ('c \<Rightarrow> error + peer option) \<Rightarrow> string \<Rightarrow> error + peer list option" where
  "static_NewService chPeersOf create channelID =
     (if channelID = '''' then Inl (ErrNew ''channel ID must be provided'')
      else if chPeersOf channelID = [] then Inl (ErrNew (''no channel peers configured for channel ['' @ channelID @ '']''))
      else createPeers create (chPeersOf channelID))"

definition static_CreateLocalDiscoveryService :: "(NetworkPeer \<Rightarrow> error + peer) \<Rightarrow> NetworkPeer list \<Rightarrow> string \<Rightarrow> error + peer list" where
  "static_CreateLocalDiscoveryService create netPeers mspID =
     (case mapE (\<lambda>p. case create p of Inl e \<Rightarrow> Inl (ErrWithMessage ''NewPeerFromConfig failed'' e) | Inr q \<Rightarrow> Inr q) netPeers of
        Inl e \<Rightarrow> Inl e | Inr ps \<Rightarrow> Inr (filter (\<lambda>p. MSPID p = mspID) ps))"

definition filterTargets :: "peer list \<Rightarrow> (peer \<Rightarrow> bool) option \<Rightarrow> peer list" where
  "filterTargets peers flt = (case flt of None \<Rightarrow> peers | Some f \<Rightarrow> filter f peers)"

definition filter_GetPeers :: "error + peer list \<Rightarrow> (peer \<Rightarrow> bool) option \<Rightarrow> error + peer list" where
  "filter_GetPeers discovered flt = (case discovered of Inl e \<Rightarrow> Inl e | Inr peers \<Rightarrow> Inr (filterTargets peers flt))"

section \<open>What a response holds was validated\<close>

definition alive :: "disc_peer \<Rightarrow> bool" where
  "alive p \<longleftrightarrow> (\<exists>url. endpointOf p = Inr url)"

definition stateful :: "disc_peer \<Rightarrow> bool" where
  "stateful p \<longleftrightarrow> (\<exists>h. heightOf p = Inr h)"

lemma checked_Inr [simp]: "checked msg r rest = Inr a \<longleftrightarrow> r = None \<and> rest = Inr a"
  by (simp add: checked_def split: option.split)

lemma wrapMsg_Inr [simp]: "wrapMsg msg r = Inr a \<longleftrightarrow> r = Inr a"
  by (simp add: wrapMsg_def split: sum.split)

lemma validateAliveMessage_None: "validateAliveMessage m = None \<Longrightarrow> AliveMessage p = m \<Longrightarrow> alive p"
  by (auto simp: validateAliveMessage_def alive_def endpointOf_def split: option.splits if_splits)

lemma validateStateInfoMessage_None: "validateStateInfoMessage m = None \<Longrightarrow> StateInfoMessage p = Some m \<Longrightarrow> stateful p"
  by (auto simp: validateStateInfoMessage_def stateful_def heightOf_def split: option.splits if_splits)

lemma memberPeer_valid: "memberPeer x qt org p = Inr q \<Longrightarrow> alive q \<and> (isStateInfoExpected qt \<longrightarrow> stateful q) \<and> dpMSPID q = org"
  by (auto simp: memberPeer_def split: sum.splits if_splits intro: validateAliveMessage_None validateStateInfoMessage_None)

lemma disc_endorser_valid: "disc_endorser x p = Inr q \<Longrightarrow> alive q \<and> stateful q"
  by (auto simp: disc_endorser_def split: sum.splits if_splits intro: validateAliveMessage_None validateStateInfoMessage_None)

lemma mapE_set: "mapE f xs = Inr ys \<Longrightarrow> y \<in> set ys \<Longrightarrow> \<exists>x \<in> set xs. f x = Inr y"
  unfolding mapE_Inr_iff by (induction xs ys rule: list_all2_induct) auto

lemma mapE_mem: "mapE f xs = Inr ys \<Longrightarrow> x \<in> set xs \<Longrightarrow> \<exists>y \<in> set ys. f x = Inr y"
  unfolding mapE_Inr_iff by (induction xs ys rule: list_all2_induct) auto

lemma peersForChannel_valid:
  assumes "peersForChannel x qt ms = Inr ps" "p \<in> set ps"
  shows "alive p \<and> (isStateInfoExpected qt \<longrightarrow> stateful p)"
proof -
  obtain pss where pss: "mapE (\<lambda>(org, ps). mapE (memberPeer x qt org) ps) ms = Inr pss" "p \<in> set (concat pss)"
    using assms by (auto simp: peersForChannel_def split: sum.splits)
  then obtain qs where qs: "qs \<in> set pss" "p \<in> set qs" by auto
  from mapE_set [OF pss(1) qs(1)] obtain org ps' where "mapE (memberPeer x qt org) ps' = Inr qs" by auto
  from mapE_set [OF this qs(2)] show ?thesis using memberPeer_valid by blast
qed

lemma createEndorsementDescriptor_valid:
  assumes "createEndorsementDescriptor x desc = Inr d" "endorsersByGroups d grp = Some es" "e \<in> set es"
  shows "alive e \<and> stateful e"
proof -
  obtain gs where gs: "mapE (\<lambda>(grp, ps). case wrapMsg ''failed creating endorser object'' (mapE (disc_endorser x) ps) of
      Inl e \<Rightarrow> Inl e | Inr es \<Rightarrow> Inr (grp, es)) (EndorsersByGroups desc) = Inr gs" "endorsersByGroups d = map_of gs"
    using assms(1) by (auto simp: createEndorsementDescriptor_def split: sum.splits)
  then have "(grp, es) \<in> set gs" using assms(2) by (auto dest: map_of_SomeD)
  from mapE_set [OF gs(1) this] obtain ps where "mapE (disc_endorser x) ps = Inr es"
    by (auto split: sum.splits)
  from mapE_set [OF this assms(3)] show ?thesis using disc_endorser_valid by blast
qed

fun valid_result :: "QueryType \<Rightarrow> resultOrError \<Rightarrow> bool" where
  "valid_result qt (VPeers ps) = (\<forall>p \<in> set ps. alive p \<and> (isStateInfoExpected qt \<longrightarrow> stateful p))"
| "valid_result qt (VDescriptor d) = (\<forall>grp es. endorsersByGroups d grp = Some es \<longrightarrow> (\<forall>e \<in> set es. alive e \<and> stateful e))"
| "valid_result qt _ = True"

text \<open>The kinds of values that each type of query files.\<close>

fun typed_result :: "QueryType \<Rightarrow> resultOrError \<Rightarrow> bool" where
  "typed_result qt (VError e) = True"
| "typed_result qt (VConfig c) = (qt = ConfigQueryType)"
| "typed_result qt (VPeers ps) = (qt = PeerMembershipQueryType \<or> qt = LocalMembershipQueryType)"
| "typed_result qt (VDescriptor d) = (qt = ChaincodeQueryType)"

definition response_valid :: "disc_response \<Rightarrow> bool" where
  "response_valid resp \<longleftrightarrow> (\<forall>qt k c v. resp (qt, k, c) = Some v \<longrightarrow> valid_result qt v \<and> typed_result qt v)"

lemma response_valid_upd:
  "response_valid resp \<Longrightarrow> valid_result qt v \<Longrightarrow> typed_result qt v \<Longrightarrow> response_valid (resp((qt, k, c) \<mapsto> v))"
  by (auto simp: response_valid_def)

lemma mapDescriptors_valid:
  "mapDescriptors x ch ds ics s = Inr s1 \<Longrightarrow> response_valid s \<Longrightarrow> response_valid s1"
proof (induction x ch ds ics s rule: mapDescriptors.induct)
  case (4 x ch desc descs cc ccs ics s)
  obtain d where d: "edChaincode desc = ccID cc" "createEndorsementDescriptor x desc = Inr d"
    and rest: "mapDescriptors x ch descs ics (s((ChaincodeQueryType, ch, chainString x (cc # ccs)) \<mapsto> VDescriptor d)) = Inr s1"
    using "4.prems" by (auto split: if_splits sum.splits)
  have "response_valid (s((ChaincodeQueryType, ch, chainString x (cc # ccs)) \<mapsto> VDescriptor d))"
    using "4.prems"(2) createEndorsementDescriptor_valid [OF d(2)] by (intro response_valid_upd) auto
  then show ?case using "4.IH" [OF _ d(2) rest] d(1) by blast
qed auto

lemma entryStep_valid:
  assumes "entryStep x req results qt e s = Inr s1" "response_valid s" "qt \<noteq> InvalidQueryType"
  shows "response_valid s1"
proof -
  obtain k i where e: "e = (k, i)" by (cases e)
  consider "qt = ConfigQueryType" | "qt = ChaincodeQueryType" | "qt \<in> {PeerMembershipQueryType, LocalMembershipQueryType}"
    using assms(3) by (cases qt) auto
  then show ?thesis
  proof cases
    case 1
    then show ?thesis using assms
      by (auto simp: entryStep_def mapConfig_def e split: sum.splits query_result.splits intro!: response_valid_upd)
  next
    case 2
    then show ?thesis using assms
      by (auto simp: entryStep_def mapEndorsers_def mapEndorsersOfChannel_def e split: sum.splits query_result.splits if_splits option.splits
          intro!: response_valid_upd intro: mapDescriptors_valid)
  next
    case 3
    then have "mapPeerMembership x qt results (k, i) s = Inr s1" using assms(1) e by (auto simp: entryStep_def)
    then show ?thesis using assms(2) 3 peersForChannel_valid
      by (auto simp: mapPeerMembership_def split: sum.splits query_result.splits intro!: response_valid_upd)
  qed
qed

lemma mapType_valid:
  assumes "mapType x req results qt s = Inr s1" "response_valid s"
  shows "response_valid s1"
proof (cases "qt = InvalidQueryType")
  case False
  then have "foldE (entryStep x req results qt) (queryMapping req qt) s = Inr s1" using assms(1) by (simp add: mapType_entries)
  then show ?thesis using assms(2) by (rule foldE_invariant [where P = response_valid]) (use entryStep_valid False in blast)
qed (use assms in \<open>simp add: mapType_def\<close>)

lemma disc_Send_valid: "disc_Send x se req = Inr resp \<Longrightarrow> response_valid resp"
  by (auto simp: disc_Send_def computeResponse_def split: sum.splits option.splits if_splits
      elim!: foldE_invariant intro: mapType_valid simp: response_valid_def [of Map.empty])

section \<open>No panics\<close>

lemma foldE_no_panic:
  assumes "\<And>x s p. x \<in> set xs \<Longrightarrow> f x s \<noteq> Inl (Panic p)"
  shows "foldE f xs s \<noteq> Inl (Panic p)"
  using assms by (induction xs arbitrary: s) (auto split: sum.splits)

lemma entryStep_no_panic:
  assumes "qt \<noteq> ChaincodeQueryType" "snd e < length results"
  shows "entryStep x req results qt e s \<noteq> Inl (Panic p)"
  using assms by (cases e; cases qt)
    (auto simp: entryStep_def mapConfig_def mapPeerMembership_def resultAt_def split: query_result.splits sum.splits)

text \<open>A request without a query for endorsers never panics, whatever is answered.\<close>

lemma disc_Send_no_panic:
  assumes "request_ok x req" "queryMapping req ChaincodeQueryType = []"
  shows "disc_Send x se req \<noteq> Inl (Panic p)"
proof -
  have ok: "lastIndex req = length (Queries req)" "\<And>qt k i. (k, i) \<in> set (queryMapping req qt) \<Longrightarrow> i < length (Queries req)"
    using assms(1) unfolding request_ok_def by blast+
  have "mapType x req results qt s \<noteq> Inl (Panic p)" if len: "length results = lastIndex req" for results qt s p
  proof (cases "qt = InvalidQueryType")
    case False
    have "entryStep x req results qt e s \<noteq> Inl (Panic p)" if "e \<in> set (queryMapping req qt)" for e s p
      using that assms(2) ok len by (intro entryStep_no_panic) (auto, metis prod.collapse)
    then show ?thesis unfolding mapType_entries [OF False] by (rule foldE_no_panic)
  qed (simp add: mapType_def)
  then have "computeResponse x order req results \<noteq> Inl (Panic p)" if "length results = lastIndex req" for order results
    unfolding computeResponse_def using that by (intro foldE_no_panic) auto
  then show ?thesis by (auto simp: disc_Send_def split: sum.splits option.splits)
qed

lemma channel_asPeers_valid:
  assumes "\<forall>p \<in> set endpoints. alive p \<and> stateful p"
  shows "\<exists>ps. channel_asPeers cfg ContainsMSP endpoints = Inr ps \<and> (\<forall>p \<in> set ps. ContainsMSP (MSPID p) \<and> BlockHeight p \<noteq> None)"
proof -
  let ?ok = "\<lambda>r. \<forall>p. r = Some p \<longrightarrow> ContainsMSP (MSPID p) \<and> BlockHeight p \<noteq> None"
  have one: "\<exists>r. channel_asPeer cfg ContainsMSP e = Inr r \<and> ?ok r" if "e \<in> set endpoints" for e
    using assms that by (auto simp: alive_def stateful_def channel_asPeer_def disc_asPeer_def split: option.split sum.split)
  then obtain rs where rs: "mapE (channel_asPeer cfg ContainsMSP) endpoints = Inr rs"
    using mapE_total [of endpoints "channel_asPeer cfg ContainsMSP"] by blast
  have "?ok r" if "r \<in> set rs" for r using mapE_set [OF rs that] one by fastforce
  then show ?thesis using rs by (auto simp: channel_asPeers_def List.map_filter_def)
qed

text \<open>What \<open>evaluate\<close> makes of an answer: it panics only without a response and an error.\<close>

definition good_answer :: "chan_ext \<Rightarrow> string \<Rightarrow> disc_answer \<Rightarrow> peer list \<Rightarrow> bool" where
  "good_answer c ch a ps \<longleftrightarrow>
     (\<exists>resp endpoints. daResponse a = Some resp \<and> channel_Peers (ceDisc c) resp ch [] = Inr endpoints \<and>
        channel_asPeers (ceCfg c) (ceContainsMSP c) endpoints = Inr ps)"

lemma evaluate_cases:
  assumes "\<And>resp. daResponse a = Some resp \<Longrightarrow> response_valid resp"
  shows "case evaluate (ceDisc c) (ceCfg c) (ceContainsMSP c) ch a of
      Inr ps \<Rightarrow> good_answer c ch a ps \<and> (\<forall>p \<in> set ps. ceContainsMSP c (MSPID p) \<and> BlockHeight p \<noteq> None)
    | Inl (Panic p) \<Rightarrow> daErr a = None \<and> daResponse a = None
    | Inl (Err e) \<Rightarrow> daErr a \<noteq> None \<or> (\<nexists>ps. good_answer c ch a ps)"
proof (cases "daErr a")
  case None
  show ?thesis
  proof (cases "daResponse a")
    case (Some resp)
    note valid = assms [OF Some]
    show ?thesis
    proof (cases "channel_Peers (ceDisc c) resp ch []")
      case (Inr endpoints)
      then have "\<forall>p \<in> set endpoints. alive p \<and> stateful p"
        using valid by (force simp: channel_Peers_def parsePeers_def response_valid_def isStateInfoExpected_def
            split: option.splits resultOrError.splits)
      from channel_asPeers_valid [OF this, of "ceCfg c" "ceContainsMSP c"] show ?thesis
        using None Some Inr by (auto simp: evaluate_def good_answer_def)
    next
      case (Inl f)
      have "f \<noteq> Panic p" for p
        using Inl valid by (force simp: channel_Peers_def parsePeers_def response_valid_def split: option.splits resultOrError.splits)
      then obtain e where "f = Err e" by (cases f) auto
      then show ?thesis using None Some Inl by (auto simp: evaluate_def good_answer_def)
    qed
  qed (use None in \<open>simp add: evaluate_def\<close>)
qed (simp add: evaluate_def)

lemma firstGood_cases:
  "case firstGood eval as es of
     Inr ps \<Rightarrow> (as = [] \<and> es = [] \<and> ps = []) \<or> (\<exists>pre a post. as = pre @ a # post \<and> eval a = Inr ps \<and> (\<forall>b \<in> set pre. \<exists>e. eval b = Inl (Err e)))
   | Inl (Panic p) \<Rightarrow> \<exists>pre a post. as = pre @ a # post \<and> eval a = Inl (Panic p) \<and> (\<forall>b \<in> set pre. \<exists>e. eval b = Inl (Err e))
   | Inl (Err e) \<Rightarrow> \<forall>b \<in> set as. \<exists>e. eval b = Inl (Err e)"
proof (induction eval as es rule: firstGood.induct)
  case (1 eval es)
  then show ?case unfolding firstGood.simps multi_New_Some by (auto simp: multi_ToError_def split: list.split)
next
  case (2 eval a as es)
  show ?case
  proof (cases "eval a")
    case (Inr ps)
    then show ?thesis by (auto intro: exI [of _ "[]"])
  next
    case (Inl f)
    show ?thesis
    proof (cases f)
      case (Panic p)
      then show ?thesis using Inl by (auto intro: exI [of _ "[]"])
    next
      case (Err e)
      note IH = "2.IH" [OF Inl Err]
      have pre: "\<exists>pre a' post. a # as = pre @ a' # post \<and> eval a' = r \<and> (\<forall>b \<in> set pre. \<exists>e. eval b = Inl (Err e))"
        if "\<exists>pre a' post. as = pre @ a' # post \<and> eval a' = r \<and> (\<forall>b \<in> set pre. \<exists>e. eval b = Inl (Err e))" for r
      proof -
        from that obtain pre a' post where "as = pre @ a' # post" "eval a' = r" "\<forall>b \<in> set pre. \<exists>e. eval b = Inl (Err e)" by blast
        then show ?thesis using Inl Err by (intro exI [of _ "a # pre"] exI [of _ a'] exI [of _ post]) auto
      qed
      show ?thesis using IH pre Inl Err by (auto split: sum.splits failure.splits)
    qed
  qed
qed

lemma firstGood_Inr: "firstGood eval as es = Inr ps \<Longrightarrow> as \<noteq> [] \<Longrightarrow> \<exists>a \<in> set as. eval a = Inr ps"
  using firstGood_cases [where eval = eval and as = as and es = es] by (auto simp del: firstGood.simps)

lemma firstGood_Err: "firstGood eval as es = Inl (Err e) \<Longrightarrow> b \<in> set as \<Longrightarrow> \<exists>e. eval b = Inl (Err e)"
  using firstGood_cases [where eval = eval and as = as and es = es] by simp

lemma firstGood_Panic: "firstGood eval as es = Inl (Panic p) \<Longrightarrow> \<exists>a \<in> set as. eval a = Inl (Panic p)"
  using firstGood_cases [where eval = eval and as = as and es = es] by (auto simp del: firstGood.simps)

definition arrival :: "(string list \<Rightarrow> string list) \<Rightarrow> bool" where
  "arrival f \<longleftrightarrow> (\<forall>ts. mset (f ts) = mset ts)"

abbreviation peersRequest :: "chan_ext \<Rightarrow> string \<Rightarrow> disc_request" where
  "peersRequest c ch \<equiv> AddPeersQuery (ceDisc c) [] (OfChannel ch disc_NewRequest)"

abbreviation askTarget :: "chan_ext \<Rightarrow> disc_request \<Rightarrow> string \<Rightarrow> disc_response outcome" where
  "askTarget c req t \<equiv> send_one (ceDisc c) (ceConnect c) req t"

lemma peersRequest_ok: "request_ok (ceDisc c) (peersRequest c ch)" "queryMapping (peersRequest c ch) ChaincodeQueryType = []"
  using fold_applyOp_ok [of "ceDisc c" "[ChannelOp ch, PeersOp []]"]
  by (simp_all add: AddPeersQuery_def OfChannel_def disc_NewRequest_def addQueryMapping_def addChaincodeQueryMapping_def addQuery_def Let_def)

lemma answerOf_total:
  assumes "request_ok (ceDisc c) req" "queryMapping req ChaincodeQueryType = []"
  shows "\<exists>a. answerOf (ceDisc c) (ceConnect c) req t = Inr a \<and> daTarget a = t \<and>
    (daResponse a = None \<longleftrightarrow> (\<exists>e. askTarget c req t = Inl (Err e))) \<and>
    (\<forall>resp. daResponse a = Some resp \<longrightarrow> askTarget c req t = Inr resp \<and> response_valid resp) \<and>
    (daErr a = None \<and> daResponse a = None \<longrightarrow> (\<exists>e. askTarget c req t = Inl (Err e) \<and> isContextCanceled (discErr (ceDisc c)) e)) \<and>
    (daErr a \<noteq> None \<longrightarrow> daResponse a = None)"
proof (cases "askTarget c req t")
  case (Inr resp)
  then have "response_valid resp" by (auto simp: send_one_def dest: disc_Send_valid split: sum.splits)
  then show ?thesis using Inr by (simp add: answerOf_def)
next
  case (Inl f)
  have "f \<noteq> Panic p" for p using Inl disc_Send_no_panic [OF assms] by (auto simp: send_one_def split: sum.splits)
  then obtain e where "f = Err e" by (cases f) auto
  then show ?thesis using Inl by (simp add: answerOf_def)
qed

lemma PickRandomN_nonempty: "xs \<noteq> [] \<Longrightarrow> PickRandomNPeerConfigs src k xs n \<noteq> []"
proof -
  have grow: "res \<noteq> [] \<Longrightarrow> pick_loop xs is n res \<noteq> []" for res "is"
    by (induction xs "is" n res rule: pick_loop.induct) (auto simp: Let_def)
  assume "xs \<noteq> []"
  then have "rand_Perm src k (length xs) \<noteq> []" by (metis length_0_conv length_shuffle rand_Perm_def)
  then obtain i ix where "rand_Perm src k (length xs) = i # ix" by (cases "rand_Perm src k (length xs)") auto
  then show ?thesis using grow [of "[xs ! i]" ix] by (simp add: PickRandomNPeerConfigs_def Let_def)
qed

lemma PickRandomN_subset: "set (PickRandomNPeerConfigs src k xs n) \<subseteq> set xs"
proof -
  have loop: "\<forall>i \<in> set is. i < length xs \<Longrightarrow> set res \<subseteq> set xs \<Longrightarrow> set (pick_loop xs is n res) \<subseteq> set xs" for res "is"
    by (induction xs "is" n res rule: pick_loop.induct) (auto simp: Let_def)
  have "set (rand_Perm src k (length xs)) = {0..<length xs}"
    using mset_shuffle [of src k "length xs"] by (metis atLeast_upt rand_Perm_def set_mset_mset atLeastLessThan_upt)
  then show ?thesis using loop [of "rand_Perm src k (length xs)" "[]"] by (simp add: PickRandomNPeerConfigs_def)
qed

definition peersFrom :: "chan_ext \<Rightarrow> string \<Rightarrow> string \<Rightarrow> peer list \<Rightarrow> bool" where
  "peersFrom c ch t ps \<longleftrightarrow>
     (\<exists>resp endpoints. askTarget c (peersRequest c ch) t = Inr resp \<and> channel_Peers (ceDisc c) resp ch [] = Inr endpoints \<and>
        channel_asPeers (ceCfg c) (ceContainsMSP c) endpoints = Inr ps)"

text \<open>
  C21. Discovering the peers of a channel. The service asks the targets it picked among the configured peers
  and, in whatever order they answer, returns the peers one of them reports: only peers of known MSPs, each with
  its ledger height. It returns an error only when none of the targets could report peers, and the only way it
  can crash is a request that was cancelled before a good response came: malformed messages of a peer are
  errors of that peer.
\<close>

theorem channel_discovery:
  assumes "arrival (ceArrive c)"
  shows "case channel_doQueryPeers c ch of
      Inr ps \<Rightarrow> (\<forall>p \<in> set ps. ceContainsMSP c (MSPID p) \<and> BlockHeight p \<noteq> None) \<and> (\<exists>t \<in> set (ceChannelPeers c). peersFrom c ch t ps)
    | Inl (Err e) \<Rightarrow> ceChannelPeers c = [] \<or>
        (\<exists>targets. channel_getTargets c = Inr targets \<and> targets \<noteq> [] \<and> (\<forall>t \<in> set targets. \<nexists>ps. peersFrom c ch t ps))
    | Inl (Panic p) \<Rightarrow> \<exists>t \<in> set (ceChannelPeers c). \<exists>e. askTarget c (peersRequest c ch) t = Inl (Err e) \<and> isContextCanceled (discErr (ceDisc c)) e"
proof (cases "ceChannelPeers c = []")
  case True
  then show ?thesis by (simp add: channel_doQueryPeers_def channel_getTargets_def)
next
  case False
  let ?req = "peersRequest c ch" and ?eval = "evaluate (ceDisc c) (ceCfg c) (ceContainsMSP c) ch"
  define ts where "ts = PickRandomNPeerConfigs (ceRand c) 0 (ceChannelPeers c) (ceMaxTargets c)"
  have "set (ceArrive c ts) = set ts" using assms mset_eq_setD unfolding arrival_def by blast
  then have ts: "channel_getTargets c = Inr ts" "ts \<noteq> []" "set ts \<subseteq> set (ceChannelPeers c)" "set (ceArrive c ts) = set ts"
    unfolding ts_def using False PickRandomN_nonempty [OF False] PickRandomN_subset by (simp_all add: channel_getTargets_def)
  obtain answers where ans: "mapE (answerOf (ceDisc c) (ceConnect c) ?req) (ceArrive c ts) = Inr answers"
    using mapE_total [of "ceArrive c ts" "answerOf (ceDisc c) (ceConnect c) ?req"] answerOf_total [OF peersRequest_ok] by blast
  have run: "channel_doQueryPeers c ch = firstGood ?eval answers []"
    using ts ans by (simp add: channel_doQueryPeers_def discovery_Send_def)
  have all2: "list_all2 (\<lambda>t a. answerOf (ceDisc c) (ceConnect c) ?req t = Inr a) (ceArrive c ts) answers"
    using ans by (simp add: mapE_Inr_iff)
  have from_t: "\<exists>t \<in> set ts. answerOf (ceDisc c) (ceConnect c) ?req t = Inr a" if "a \<in> set answers" for a
    using mapE_set [OF ans that] ts(4) by blast
  have to_a: "\<exists>a \<in> set answers. answerOf (ceDisc c) (ceConnect c) ?req t = Inr a" if "t \<in> set ts" for t
    using mapE_mem [OF ans] that ts(4) by blast
  have eval: "case ?eval a of
      Inr ps \<Rightarrow> good_answer c ch a ps \<and> (\<forall>p \<in> set ps. ceContainsMSP c (MSPID p) \<and> BlockHeight p \<noteq> None)
    | Inl (Panic p) \<Rightarrow> daErr a = None \<and> daResponse a = None
    | Inl (Err e) \<Rightarrow> daErr a \<noteq> None \<or> (\<nexists>ps. good_answer c ch a ps)"
    if "answerOf (ceDisc c) (ceConnect c) ?req t = Inr a" for t a
    using answerOf_total [OF peersRequest_ok, of c ch t] that by (intro evaluate_cases) auto
  have good: "good_answer c ch a ps \<longleftrightarrow> peersFrom c ch t ps" if a: "answerOf (ceDisc c) (ceConnect c) ?req t = Inr a" for t a ps
    using answerOf_total [OF peersRequest_ok, of c ch t] a unfolding good_answer_def peersFrom_def by fastforce
  show ?thesis
  proof (cases "firstGood ?eval answers []")
    case (Inr ps)
    have "answers \<noteq> []" using ts(2,4) all2 by (cases answers) auto
    with firstGood_Inr [OF Inr] obtain a where a: "a \<in> set answers" "?eval a = Inr ps" by blast
    from from_t [OF a(1)] obtain t where t: "t \<in> set ts" "answerOf (ceDisc c) (ceConnect c) ?req t = Inr a" by blast
    then show ?thesis using eval [OF t(2)] a(2) good [OF t(2)] ts(3) run Inr by auto
  next
    case (Inl f)
    show ?thesis
    proof (cases f)
      case (Err e)
      have "\<nexists>ps. peersFrom c ch t ps" if t: "t \<in> set ts" for t
      proof -
        obtain a where a: "a \<in> set answers" "answerOf (ceDisc c) (ceConnect c) ?req t = Inr a" using to_a [OF t] by blast
        from firstGood_Err [OF Inl [unfolded Err] a(1)] obtain e' where "?eval a = Inl (Err e')" by blast
        then have "daErr a \<noteq> None \<or> (\<nexists>ps. good_answer c ch a ps)" using eval [OF a(2)] by simp
        then show ?thesis using good [OF a(2)] answerOf_total [OF peersRequest_ok, of c ch t] a(2) unfolding good_answer_def by fastforce
      qed
      then show ?thesis using run Inl Err ts(1,2) by auto
    next
      case (Panic p)
      from firstGood_Panic [OF Inl [unfolded Panic]] obtain a where a: "a \<in> set answers" "?eval a = Inl (Panic p)" by blast
      from from_t [OF a(1)] obtain t where t: "t \<in> set ts" "answerOf (ceDisc c) (ceConnect c) ?req t = Inr a" by blast
      have "\<exists>e. askTarget c ?req t = Inl (Err e) \<and> isContextCanceled (discErr (ceDisc c)) e"
        using eval [OF t(2)] a(2) answerOf_total [OF peersRequest_ok, of c ch t] t(2) by auto
      then show ?thesis using run Inl Panic t(1) ts(3) by auto
    qed
  qed
qed

text \<open>One configured peer that reports itself.\<close>

definition test_chan :: "error + query_result list \<Rightarrow> chan_ext" where
  "test_chan answer = \<lparr>ceDisc = test_disc, ceCfg = \<lparr>dcPeerConfig = (\<lambda>u. None), dcCreatePeer = (\<lambda>u m. Inl (ErrNew ''none'')),
       dcNewPeer = (\<lambda>u m. Inr \<lparr>peerRef = 0, MSPID = m, URL = u, BlockHeight = None\<rparr>)\<rparr>,
     ceContainsMSP = (\<lambda>m. m = ''Org1MSP''), ceChannelPeers = [''a''], ceMaxTargets = 1,
     ceConnect = (\<lambda>t. Inr \<lparr>marshalRequest = (\<lambda>r. Inr []), signRequest = (\<lambda>b. Inr b), createConnection = None,
        Discover = (\<lambda>p s. answer), mapOrder = configTypes\<rparr>),
     ceArrive = (\<lambda>ts. ts), ceRand = (\<lambda>_ _. 0)\<rparr>"

lemmas run_disc_defs = channel_doQueryPeers_def channel_getTargets_def PickRandomNPeerConfigs_def rand_Perm_def rand_Intn_def
  discovery_Send_def answerOf_def send_one_def disc_Send_def computeResponse_def configTypes_def mapType_def mapPeerMembership_def
  resultAt_def peersForChannel_def memberPeer_def EnvelopeToGossipMessage_def wrapMsg_def checked_def isStateInfoExpected_def
  validateAliveMessage_def validateStateInfoMessage_def evaluate_def channel_Peers_def parsePeers_def channel_asPeers_def
  channel_asPeer_def disc_asPeer_def endpointOf_def heightOf_def AddPeersQuery_def OfChannel_def disc_NewRequest_def
  addQueryMapping_def addChaincodeQueryMapping_def addQuery_def channnelAndInvocationChain_def Let_def List.map_filter_def
  AddLocalPeersQuery_def

lemma test_discovery:
  "\<exists>p. channel_doQueryPeers (test_chan (Inr [Members [(''Org1MSP'', [test_endorser])]])) ''ch'' = Inr [p]"
  by (simp add: run_disc_defs test_chan_def test_disc_def test_endorser_def)

theorem channel_discovery_witness:
  "\<exists>p. channel_doQueryPeers (test_chan (Inr [Members [(''Org1MSP'', [test_endorser])]])) ''ch'' = Inr [p] \<and>
     ceContainsMSP (test_chan (Inr [Members [(''Org1MSP'', [test_endorser])]])) (MSPID p) \<and> BlockHeight p \<noteq> None"
proof -
  let ?c = "test_chan (Inr [Members [(''Org1MSP'', [test_endorser])]])"
  obtain p where p: "channel_doQueryPeers ?c ''ch'' = Inr [p]" using test_discovery by blast
  have "arrival (ceArrive ?c)" by (simp add: test_chan_def arrival_def)
  from channel_discovery [OF this, of "''ch''"] p show ?thesis by auto
qed

text \<open>
  The local discovery service does not survive a target that fails: when the first target to answer
  could not be asked, the service dereferences the missing response and crashes, though other
  targets may have answered.
\<close>

theorem local_discovery_crashes:
  assumes "local_getTargets m netPeers = Inr targets" and "ceArrive c targets = t # rest"
    and "askTarget c (AddLocalPeersQuery (ceDisc c) disc_NewRequest) t = Inl (Err e)"
  shows "local_doQueryPeers c netPeers (Some m) = Inl (Panic ''nil pointer dereference'')"
proof -
  let ?req = "AddLocalPeersQuery (ceDisc c) disc_NewRequest"
  have ok: "request_ok (ceDisc c) ?req" "queryMapping ?req ChaincodeQueryType = []"
    using fold_applyOp_ok [of "ceDisc c" "[LocalPeersOp]"]
    by (simp_all add: AddLocalPeersQuery_def disc_NewRequest_def addQueryMapping_def addQuery_def)
  have ne: "targets \<noteq> []" using assms(1) by (auto simp: local_getTargets_def Let_def split: if_splits)
  obtain a where a: "answerOf (ceDisc c) (ceConnect c) ?req t = Inr a" "daResponse a = None"
    using answerOf_total [OF ok, of t] assms(3) by blast
  obtain as where "mapE (answerOf (ceDisc c) (ceConnect c) ?req) rest = Inr as"
    using mapE_total [of rest "answerOf (ceDisc c) (ceConnect c) ?req"] answerOf_total [OF ok] by blast
  with a have "discovery_Send (ceDisc c) (ceConnect c) (ceArrive c) ?req targets = Inr (a # as)"
    using ne assms(2) by (simp add: discovery_Send_def)
  then show ?thesis using assms(1) a(2) by (simp add: local_doQueryPeers_def local_evaluate_def)
qed

theorem local_discovery_crashes_witness:
  "local_doQueryPeers (test_chan (Inl (ErrNew ''down''))) [\<lparr>npURL = ''a'', npMSPID = ''Org1MSP''\<rparr>] (Some ''Org1MSP'') =
     Inl (Panic ''nil pointer dereference'')"
proof (rule local_discovery_crashes)
  let ?c = "test_chan (Inl (ErrNew ''down''))"
  show "local_getTargets ''Org1MSP'' [\<lparr>npURL = ''a'', npMSPID = ''Org1MSP''\<rparr>] = Inr [''a'']" by (simp add: local_getTargets_def)
  show "ceArrive ?c [''a''] = ''a'' # []" by (simp add: test_chan_def)
  show "askTarget ?c (AddLocalPeersQuery (ceDisc ?c) disc_NewRequest) ''a'' =
      Inl (Err (ErrWithMessage ''discovery service refused our Request'' (ErrNew ''down'')))"
    by (simp add: test_chan_def send_one_def disc_Send_def)
qed

text \<open>A creator that returns neither a peer nor an error leaves the caller of static discovery without both.\<close>

lemma static_no_service: "chPeersOf ch = p # ps \<Longrightarrow> ch \<noteq> '''' \<Longrightarrow> create p = Inr None \<Longrightarrow> static_NewService chPeersOf create ch = Inr None"
  by (simp add: static_NewService_def)

end
