(* ===== verification/Attempts.thy ===== *)
theory Attempts
  imports Retry FilteredBlock
begin

text \<open>
  The retrying invoker on functions that may also panic. A caller of \<open>retry.NewInvoker(retry.New(opts))\<close> passes
  an invocation whose outcome is a value, an error or a panic; a panic unwinds the invoker as a value leaves it.
  The state \<open>'t\<close> is what the invocation reads and changes. The result is \<open>None\<close> when the invoker never returns,
  which takes a negative number of attempts.
\<close>

fun asAttempt :: "'a outcome \<Rightarrow> error + (string + 'a)" where
  "asAttempt (Inl (Err e)) = Inl e"
| "asAttempt (Inl (Panic p)) = Inr (Inl p)"
| "asAttempt (Inr a) = Inr (Inr a)"

fun fromAttempt :: "error + (string + 'a) \<Rightarrow> 'a outcome" where
  "fromAttempt (Inl e) = Inl (Err e)"
| "fromAttempt (Inr (Inl p)) = Inl (Panic p)"
| "fromAttempt (Inr (Inr a)) = Inr a"

definition attempts ::
  "(rat \<Rightarrow> rat) \<Rightarrow> ext \<Rightarrow> ext_codes \<Rightarrow> Opts \<Rightarrow> ('t \<Rightarrow> 'a outcome \<times> 't) \<Rightarrow> 't \<Rightarrow> ('a outcome \<times> 't) option" where
  "attempts rnd x codes ro f t =
     (case Retry.Invoke (impl_required rnd x) None (\<lambda>t. apfst asAttempt (f t)) 0 (retry_New codes ro) t of
        None \<Rightarrow> None
      | Some (r, _, _, t1) \<Rightarrow> Some (fromAttempt r, t1))"

lemma fromAttempt_asAttempt [simp]: "fromAttempt (asAttempt r) = r"
  by (cases r rule: asAttempt.cases) simp_all

text \<open>The outcome is that of the last invocation.\<close>

lemma attempts_last:
  assumes "attempts rnd x codes ro f t = Some (r, t1)" "P t" "\<And>t r t'. P t \<Longrightarrow> f t = (r, t') \<Longrightarrow> P t'"
  shows "\<exists>t0. P t0 \<and> f t0 = (r, t1)"
proof -
  obtain r' n h where run: "Retry.Invoke (impl_required rnd x) None (\<lambda>t. apfst asAttempt (f t)) 0
      (retry_New codes ro) t = Some (r', n, h, t1)" and r: "r = fromAttempt r'"
    using assms(1) by (auto simp: attempts_def split: option.splits)
  have "\<exists>t0. P t0 \<and> apfst asAttempt (f t0) = (r', t1)"
    using run assms(2)
  proof (rule Invoke_last_from)
    show "P t'" if "P t" "apfst asAttempt (f t) = (q, t')" for t q t'
      using assms(3) [of t "fst (f t)" t'] that by (cases "f t") auto
  qed simp
  then obtain t0 where "P t0" "apfst asAttempt (f t0) = (r', t1)" by blast
  then show ?thesis using r by (intro exI [of _ t0]) (cases "f t0", auto)
qed

lemma attempts_returns: "0 \<le> Attempts ro \<Longrightarrow> \<exists>r t1. attempts rnd x codes ro f t = Some (r, t1)"
proof -
  assume "0 \<le> Attempts ro"
  then have "impl_ok (retry_New codes ro)" by (simp add: impl_ok_def retry_New_def)
  from impl_handler.Invoke_returns [OF this, of rnd x None "\<lambda>t. apfst asAttempt (f t)" 0 t]
  show ?thesis by (auto simp: attempts_def)
qed

lemma attempts_panics: "f t = (Inl (Panic p), t1) \<Longrightarrow> attempts rnd x codes ro f t = Some (Inl (Panic p), t1)"
  by (simp add: attempts_def Retry.Invoke.simps)

lemma attempts_success: "f t = (Inr a, t1) \<Longrightarrow> attempts rnd x codes ro f t = Some (Inr a, t1)"
  by (simp add: attempts_def Retry.Invoke.simps)

text \<open>Without attempts, as with options nobody set, the invocation happens once.\<close>

lemma attempts_once: "Attempts ro = 0 \<Longrightarrow> attempts rnd x codes ro f t = Some (f t)"
proof -
  assume "Attempts ro = 0"
  then have "impl_required rnd x (retry_New codes ro) e = (False, retry_New codes ro)" for e
    by (simp add: impl_required_def Required_def retry_New_def)
  then have loop: "resolve_loop (impl_required rnd x) es (retry_New codes ro) = (False, retry_New codes ro)" for es
    by (induction es) simp_all
  show ?thesis
    by (cases "f t"; cases "fst (f t)" rule: asAttempt.cases)
      (simp_all add: attempts_def Retry.Invoke.simps resolveRetry_def Let_def loop)
qed

end
