(* ===== verification/FabricSelection.thy ===== *)
theory FabricSelection
  imports FabricDiscovery Attempts "HOL-Library.Multiset" "HOL-Library.List_Lexorder" "HOL-Library.Char_ord"
begin

text \<open>
  The selection service over Fabric's discovery service, \<^verbatim>\<open>pkg/client/common/selection/fabricselection\<close>: it asks
  peers of the channel for the endorsers of the chaincodes, keeps the first good response, and picks endorsers
  from it by a filter that leaves only discovered peers that the caller accepts, in the order of a peer sorter.
  A sorter has a state (the balancer's counter or the random source) and may panic (\<open>None\<close>).
\<close>

section \<open>The sorter of a channel\<close>

type_synonym 's sorter = "'s \<Rightarrow> peer list \<Rightarrow> (peer list \<times> 's) option"

datatype SortingStrategy = Balanced | BlockHeightPriority
datatype BalancerType = RandomBalancer | RoundRobinBalancer

record balancer_state =
  bsCounter :: Counter
  bsDraws :: nat

definition resolveBalancer :: "rand_src \<Rightarrow> (nat \<Rightarrow> nat) \<Rightarrow> BalancerType \<Rightarrow> balancer_state sorter" where
  "resolveBalancer src seed b s ps =
     (case b of
        RandomBalancer \<Rightarrow> map_option (\<lambda>(qs, k). (qs, s\<lparr>bsDraws := k\<rparr>)) (balancer_Random src (bsDraws s) ps)
      | RoundRobinBalancer \<Rightarrow> map_option (\<lambda>(qs, c). (qs, s\<lparr>bsCounter := c\<rparr>)) (balancer_RoundRobin seed (bsCounter s) ps))"

definition resolveSortingStrategy :: "(peer list \<Rightarrow> peer list) \<Rightarrow> SortingStrategy \<Rightarrow> 's sorter \<Rightarrow> 's sorter" where
  "resolveSortingStrategy sortDesc strategy bal =
     (case strategy of Balanced \<Rightarrow> bal | BlockHeightPriority \<Rightarrow> sorter_Sort 5 sortDesc bal)"

definition resolvePeerSorter ::
  "rand_src \<Rightarrow> (nat \<Rightarrow> nat) \<Rightarrow> (peer list \<Rightarrow> peer list) \<Rightarrow> SortingStrategy \<Rightarrow> BalancerType \<Rightarrow> balancer_state sorter" where
  "resolvePeerSorter src seed sortDesc strategy b = resolveSortingStrategy sortDesc strategy (resolveBalancer src seed b)"

section \<open>The selection filter\<close>

text \<open>\<open>GetProperties\<close>: no properties without a state info message; the block height is then 0.\<close>

definition propertyHeight :: "disc_peer \<Rightarrow> uint64" where
  "propertyHeight p =
     (case StateInfoMessage p of
        None \<Rightarrow> 0
      | Some m \<Rightarrow> (case GetStateInfo m of None \<Rightarrow> 0 | Some si \<Rightarrow> (case siLedgerHeight si of None \<Rightarrow> 0 | Some h \<Rightarrow> h)))"

record 's selectionFilter =
  sfCfg :: disc_cfg
  sfPeers :: "peer list"
  sfFilter :: "(peer \<Rightarrow> bool) option"
  sfSorter :: "'s sorter option"
  sfSortByURL :: "peer list \<Rightarrow> peer list"

definition newFilter ::
  "disc_cfg \<Rightarrow> peer list \<Rightarrow> (peer \<Rightarrow> bool) option \<Rightarrow> 's sorter option \<Rightarrow> (peer list \<Rightarrow> peer list) \<Rightarrow> 's selectionFilter" where
  "newFilter cfg peers flt srt byURL =
     \<lparr>sfCfg = cfg, sfPeers = peers, sfFilter = Some (case flt of Some f \<Rightarrow> f | None \<Rightarrow> (\<lambda>_. True)), sfSorter = srt, sfSortByURL = byURL\<rparr>"

definition mappedURL :: "disc_cfg \<Rightarrow> string \<Rightarrow> string" where
  "mappedURL cfg url = (case dcPeerConfig cfg url of Some u \<Rightarrow> u | None \<Rightarrow> url)"

definition asPeerValue :: "disc_cfg \<Rightarrow> disc_peer \<Rightarrow> peer outcome" where
  "asPeerValue cfg e =
     bindO (endpointOf e) (\<lambda>url. Inr \<lparr>peerRef = 0, MSPID = dpMSPID e, URL = mappedURL cfg url, BlockHeight = Some (propertyHeight e)\<rparr>)"

definition containsPeer :: "peer list \<Rightarrow> peer \<Rightarrow> bool" where
  "containsPeer peers p = list_ex (\<lambda>q. URL q = URL p) peers"

definition filterDiscovered :: "'s selectionFilter \<Rightarrow> peer list \<Rightarrow> peer list" where
  "filterDiscovered s peers = filter (containsPeer (sfPeers s)) peers"

definition filterPeers :: "'s selectionFilter \<Rightarrow> peer list \<Rightarrow> peer list" where
  "filterPeers s peers = (case sfFilter s of None \<Rightarrow> peers | Some f \<Rightarrow> filter f peers)"

definition sortPeers :: "'s selectionFilter \<Rightarrow> 's \<Rightarrow> peer list \<Rightarrow> (peer list \<times> 's) outcome" where
  "sortPeers s st peers =
     (case sfSorter s of
        None \<Rightarrow> Inr (peers, st)
      | Some srt \<Rightarrow> (case srt st peers of None \<Rightarrow> Inl (Panic ''peer sorter'') | Some r \<Rightarrow> Inr r))"

fun asEndorser :: "disc_cfg \<Rightarrow> disc_peer list \<Rightarrow> peer \<Rightarrow> disc_peer option outcome" where
  "asEndorser cfg [] p = Inr None"
| "asEndorser cfg (e # es) p = bindO (asPeerValue cfg e) (\<lambda>v. if URL p = URL v then Inr (Some e) else asEndorser cfg es p)"

definition asEndorsers :: "disc_cfg \<Rightarrow> disc_peer list \<Rightarrow> peer list \<Rightarrow> disc_peer list outcome" where
  "asEndorsers cfg allEndorsers ps = bindO (mapE (asEndorser cfg allEndorsers) ps) (\<lambda>r. Inr (List.map_filter (\<lambda>e. e) r))"

definition sel_Filter :: "'s selectionFilter \<Rightarrow> 's disc_filter" where
  "sel_Filter s st endorsers =
     bindO (mapE (asPeerValue (sfCfg s)) endorsers) (\<lambda>peers.
     bindO (sortPeers s st (filterPeers s (filterDiscovered s (sfSortByURL s peers)))) (\<lambda>(sorted, st1).
     bindO (asEndorsers (sfCfg s) endorsers sorted) (\<lambda>r. Inr (r, st1))))"

section \<open>Querying the discovery service\<close>

definition fs_IsTransient :: "ext \<Rightarrow> error \<Rightarrow> bool" where
  "fs_IsTransient x e \<longleftrightarrow> Contains (ErrorText x e) ''failed constructing descriptor for chaincodes'' \<or>
     Contains (ErrorText x e) ''no endorsement combination can be satisfied''"

definition fs_IsAccessDenied :: "ext \<Rightarrow> error \<Rightarrow> bool" where
  "fs_IsAccessDenied x e = Contains (ErrorText x e) ''access denied''"

text \<open>A \<open>DiscoveryError\<close> shows the text of an error and hides its cause.\<close>

definition fs_newDiscoveryError :: "ext \<Rightarrow> error \<Rightarrow> error" where
  "fs_newDiscoveryError x e = ErrNew (ErrorText x e)"

definition asInvocationChain :: "ChaincodeCall list \<Rightarrow> ChaincodeCall list" where
  "asInvocationChain ccs = map (\<lambda>cc. \<lparr>ccID = ccID cc, Collections = Collections cc\<rparr>) ccs"

definition queryEndorsersStatus :: "string \<Rightarrow> error" where
  "queryEndorsersStatus msg = ErrStatus (status_New DiscoveryServerStatus (ToInt32 QueryEndorsers) msg [])"

text \<open>What is returned when no response was good: \<open>None\<close> is the nil error that \<open>errors.Wrap\<close> makes of a nil one.\<close>

fun fs_conclude :: "ext \<Rightarrow> error list \<Rightarrow> error list \<Rightarrow> error option" where
  "fs_conclude x respErrors [] =
     map_option (Wrap ''no successful response received from any peer'') (multi_New (map Some respErrors))"
| "fs_conclude x respErrors (e # es) =
     (if fs_IsTransient x e then Some (queryEndorsersStatus (''error received from Discovery Server: '' @ ErrorText x e))
      else fs_conclude x (respErrors @ [e]) es)"

fun fs_scan ::
  "disc_ext \<Rightarrow> (nat \<Rightarrow> rand_src) \<Rightarrow> string \<Rightarrow> ChaincodeCall list \<Rightarrow> disc_answer list \<Rightarrow> error list \<Rightarrow> error list \<Rightarrow> disc_response option outcome" where
  "fs_scan x src ch ic [] respErrors discErrs =
     (case fs_conclude (discErr x) respErrors discErrs of Some e \<Rightarrow> Inl (Err e) | None \<Rightarrow> Inr None)"
| "fs_scan x src ch ic (a # as) respErrors discErrs =
     (case daErr a of
        Some e \<Rightarrow> fs_scan x src ch ic as (respErrors @ [e]) discErrs
      | None \<Rightarrow>
         (case daResponse a of
            None \<Rightarrow> Inl (Panic ''nil pointer dereference'')
          | Some resp \<Rightarrow>
             (case fst (resp_Endorsers x (src (length as)) 0 NoFilter () resp ch ic) of
                Inl (Err e) \<Rightarrow> fs_scan x src ch ic as respErrors (discErrs @ [fs_newDiscoveryError (discErr x) e])
              | Inl (Panic p) \<Rightarrow> Inl (Panic p)
              | Inr _ \<Rightarrow> Inr (Some resp))))"

record fs_ext =
  fsDisc :: disc_ext
  fsCfg :: disc_cfg
  fsChannelPeers :: "string list"
  fsMaxTargets :: int
  fsConnect :: "nat \<Rightarrow> string \<Rightarrow> error + send_ext"
  fsArrive :: "nat \<Rightarrow> string list \<Rightarrow> string list"
  fsRand :: "nat \<Rightarrow> nat \<Rightarrow> rand_src"
  fsGetPeers :: "nat \<Rightarrow> error + peer list"
  fsSortByURL :: "peer list \<Rightarrow> peer list"
  fsCacheKey :: "ChaincodeCall list \<Rightarrow> string"
  fsRound :: "rat \<Rightarrow> rat"
  fsCodes :: ext_codes

text \<open>The service. Every query and every call of the discovery service is numbered, and may be answered
  differently; \<open>fsHandled\<close> are the errors given to the error handler.\<close>

record 's fab_service =
  fsChannelID :: string
  fsRetryOpts :: Opts
  fsPeerSorter :: "'s sorter"
  fsHasErrHandler :: bool
  fsClosed :: bool
  fsCache :: "string \<rightharpoonup> disc_response"
  fsSorterState :: 's
  fsClock :: nat
  fsHandled :: "error list"

definition fs_getTargets :: "fs_ext \<Rightarrow> nat \<Rightarrow> string \<Rightarrow> error + string list" where
  "fs_getTargets c t ch =
     (if fsChannelPeers c = [] then Inl (ErrNew (''no channel peers configured for channel ['' @ ch @ '']''))
      else Inr (PickRandomNPeerConfigs (fsRand c t 0) 0 (fsChannelPeers c) (fsMaxTargets c)))"

definition fs_query :: "fs_ext \<Rightarrow> string \<Rightarrow> disc_request \<Rightarrow> ChaincodeCall list \<Rightarrow> string list \<Rightarrow> nat \<Rightarrow> disc_response option outcome" where
  "fs_query c ch req chaincodes targets t =
     (case discovery_Send (fsDisc c) (fsConnect c t) (fsArrive c t) req targets of
        Inl (Err e) \<Rightarrow> Inl (Err (Wrap ''error calling discover service send for selection'' e))
      | Inl (Panic p) \<Rightarrow> Inl (Panic p)
      | Inr answers \<Rightarrow> fs_scan (fsDisc c) (fsRand c t) ch (asInvocationChain chaincodes) answers [] [])"

definition retried :: "fs_ext \<Rightarrow> Opts \<Rightarrow> ('t \<Rightarrow> 'a outcome \<times> 't) \<Rightarrow> 't \<Rightarrow> ('a outcome \<times> 't) option" where
  "retried c ro f t = attempts (fsRound c) (discErr (fsDisc c)) (fsCodes c) ro f t"

lemma retried_last:
  "\<lbrakk>retried c ro f t = Some (r, t1); P t; \<And>t r t'. P t \<Longrightarrow> f t = (r, t') \<Longrightarrow> P t'\<rbrakk> \<Longrightarrow> \<exists>t0. P t0 \<and> f t0 = (r, t1)"
  unfolding retried_def by (rule attempts_last)

lemma retried_returns: "0 \<le> Attempts ro \<Longrightarrow> \<exists>r t1. retried c ro f t = Some (r, t1)"
  unfolding retried_def by (rule attempts_returns)

lemma retried_panics: "f t = (Inl (Panic p), t1) \<Longrightarrow> retried c ro f t = Some (Inl (Panic p), t1)"
  unfolding retried_def by (rule attempts_panics)

lemma retried_success: "f t = (Inr a, t1) \<Longrightarrow> retried c ro f t = Some (Inr a, t1)"
  unfolding retried_def by (rule attempts_success)

definition fs_queryEndorsers :: "fs_ext \<Rightarrow> string \<Rightarrow> ChaincodeCall list \<Rightarrow> Opts \<Rightarrow> nat \<Rightarrow> (disc_response outcome \<times> nat) option" where
  "fs_queryEndorsers c ch chaincodes ro t =
     (case fs_getTargets c t ch of
        Inl e \<Rightarrow> Some (Inl (Err e), t)
      | Inr targets \<Rightarrow>
         if targets = [] then Some (Inl (Err (ErrNew (''no peers configured for channel ['' @ ch @ '']''))), t)
         else
          (case AddEndorsersQuery [Some (asInvocationChain chaincodes)] (OfChannel ch disc_NewRequest) of
             Inl e \<Rightarrow> Some (Inl (Err (Wrap ''error creating endorser query request'' e)), t)
           | Inr req \<Rightarrow>
              (case retried c ro (\<lambda>t. (fs_query c ch req chaincodes targets t, Suc t)) t of
                 None \<Rightarrow> None
               | Some (Inl (Err e), t1) \<Rightarrow> Some (Inl (Err (fs_newDiscoveryError (discErr (fsDisc c)) e)), t1)
               | Some (Inl (Panic p), t1) \<Rightarrow> Some (Inl (Panic p), t1)
               | Some (Inr None, t1) \<Rightarrow> Some (Inl (Panic ''interface conversion''), t1)
               | Some (Inr (Some resp), t1) \<Rightarrow> Some (Inr resp, t1))))"

section \<open>The service\<close>

definition fs_New ::
  "fs_ext \<Rightarrow> string \<Rightarrow> Opts option \<Rightarrow> Opts \<Rightarrow> bool \<Rightarrow> error option \<Rightarrow> 's sorter \<Rightarrow> 's \<Rightarrow> error + 's fab_service" where
  "fs_New c ch optRetry defaultRetry handler clientErr srt st =
     (case clientErr of
        Some e \<Rightarrow> Inl (Wrap ''error creating discover client'' e)
      | None \<Rightarrow> Inr \<lparr>fsChannelID = ch, fsRetryOpts = (case optRetry of Some ro \<Rightarrow> ro | None \<Rightarrow> defaultRetry), fsPeerSorter = srt,
                  fsHasErrHandler = handler, fsClosed = False, fsCache = Map.empty, fsSorterState = st, fsClock = 0, fsHandled = []\<rparr>)"

text \<open>The key of the cache is the JSON form of the chaincodes, the parameter \<open>fsCacheKey\<close>. A failed
  initialization leaves no entry; a refresh in the background replaces one.\<close>

definition fs_initialize :: "fs_ext \<Rightarrow> ChaincodeCall list \<Rightarrow> Opts \<Rightarrow> 's fab_service \<Rightarrow> (disc_response outcome \<times> 's fab_service) option" where
  "fs_initialize c chaincodes ro s =
     (case fs_queryEndorsers c (fsChannelID s) chaincodes ro (fsClock s) of
        None \<Rightarrow> None
      | Some (Inl (Err e), t) \<Rightarrow> Some (Inl (Err e), s\<lparr>fsClock := t, fsHandled := (if fsHasErrHandler s then fsHandled s @ [e] else fsHandled s)\<rparr>)
      | Some (r, t) \<Rightarrow> Some (r, s\<lparr>fsClock := t\<rparr>))"

definition fs_getChannelResponse :: "fs_ext \<Rightarrow> ChaincodeCall list \<Rightarrow> Opts \<Rightarrow> 's fab_service \<Rightarrow> (disc_response outcome \<times> 's fab_service) option" where
  "fs_getChannelResponse c chaincodes ro s =
     (let key = fsCacheKey c chaincodes in
      case fsCache s key of
        Some resp \<Rightarrow> Some (Inr resp, s)
      | None \<Rightarrow>
         (case fs_initialize c chaincodes ro s of
            Some (Inr resp, s1) \<Rightarrow> Some (Inr resp, s1\<lparr>fsCache := (fsCache s1)(key \<mapsto> resp)\<rparr>)
          | r \<Rightarrow> r))"

definition fs_refresh :: "fs_ext \<Rightarrow> ChaincodeCall list \<Rightarrow> 's fab_service \<Rightarrow> 's fab_service option" where
  "fs_refresh c chaincodes s =
     (case fs_initialize c chaincodes (fsRetryOpts s) s of
        None \<Rightarrow> None
      | Some (Inr resp, s1) \<Rightarrow> Some (s1\<lparr>fsCache := (fsCache s1)(fsCacheKey c chaincodes \<mapsto> resp)\<rparr>)
      | Some (_, s1) \<Rightarrow> Some s1)"

record 's fs_params =
  fpFilter :: "(peer \<Rightarrow> bool) option"
  fpSorter :: "'s sorter option"
  fpRetryOpts :: "Opts option"

definition fs_getEndorsers ::
  "fs_ext \<Rightarrow> string \<Rightarrow> ChaincodeCall list \<Rightarrow> disc_response \<Rightarrow> (peer \<Rightarrow> bool) option \<Rightarrow> 's sorter \<Rightarrow> 's fab_service \<Rightarrow>
     disc_peer list outcome \<times> 's fab_service" where
  "fs_getEndorsers c ch chaincodes resp flt srt s =
     (let t = fsClock s; s1 = s\<lparr>fsClock := Suc t\<rparr> in
      case fsGetPeers c t of
        Inl e \<Rightarrow> (Inl (Err (Wrap (''error getting peers from discovery service for channel ['' @ ch @ '']'') e)), s1)
      | Inr peers \<Rightarrow>
         (case resp_Endorsers (fsDisc c) (fsRand c t 0) 0 (sel_Filter (newFilter (fsCfg c) peers flt (Some srt) (fsSortByURL c)))
                 (fsSorterState s) resp (ch) (asInvocationChain chaincodes) of
            (Inl (Err e), st) \<Rightarrow>
              (Inl (Err (if fs_IsTransient (discErr (fsDisc c)) e
                         then queryEndorsersStatus (''error getting endorsers: '' @ ErrorText (discErr (fsDisc c)) e) else e)),
               s1\<lparr>fsSorterState := st\<rparr>)
          | (r, st) \<Rightarrow> (r, s1\<lparr>fsSorterState := st\<rparr>)))"

definition fs_asPeer :: "disc_cfg \<Rightarrow> disc_peer \<Rightarrow> peer option outcome" where
  "fs_asPeer cfg e = bindO (disc_asPeer cfg e) (\<lambda>r. Inr (map_option (\<lambda>p. p\<lparr>BlockHeight := Some (propertyHeight e)\<rparr>) r))"

definition fs_asPeers :: "disc_cfg \<Rightarrow> disc_peer list \<Rightarrow> peer list outcome" where
  "fs_asPeers cfg es = bindO (mapE (fs_asPeer cfg) es) (\<lambda>r. Inr (List.map_filter (\<lambda>p. p) r))"

definition fs_GetEndorsersForChaincode ::
  "fs_ext \<Rightarrow> ChaincodeCall list \<Rightarrow> 's fs_params \<Rightarrow> 's fab_service \<Rightarrow> (peer list outcome \<times> 's fab_service) option" where
  "fs_GetEndorsersForChaincode c chaincodes params s =
     (if fsClosed s then Some (Inl (Err (ErrNew ''Selection service has been closed'')), s)
      else if chaincodes = [] then Some (Inl (Err (ErrNew ''no chaincode IDs provided'')), s)
      else
       (case fs_getChannelResponse c chaincodes (case fpRetryOpts params of Some ro \<Rightarrow> ro | None \<Rightarrow> fsRetryOpts s) s of
          None \<Rightarrow> None
        | Some (Inl (Err e), s1) \<Rightarrow> Some (Inl (Err (Wrap (''error getting channel response for channel ['' @ fsChannelID s @ '']'') e)), s1)
        | Some (Inl (Panic p), s1) \<Rightarrow> Some (Inl (Panic p), s1)
        | Some (Inr resp, s1) \<Rightarrow>
           (case retried c (fsRetryOpts s1)
                   (fs_getEndorsers c (fsChannelID s1) chaincodes resp (fpFilter params) (case fpSorter params of Some srt \<Rightarrow> srt | None \<Rightarrow> fsPeerSorter s1)) s1 of
              None \<Rightarrow> None
            | Some (Inl f, s2) \<Rightarrow> Some (Inl f, s2)
            | Some (Inr endpoints, s2) \<Rightarrow> Some (fs_asPeers (fsCfg c) endpoints, s2))))"

definition fs_Close :: "'s fab_service \<Rightarrow> 's fab_service" where
  "fs_Close s = (if fsClosed s then s else s\<lparr>fsClosed := True, fsCache := Map.empty\<rparr>)"

section \<open>What a sorter promises\<close>

text \<open>A peer sorter reorders the peers; one that is total does so for every list of at most \<open>2^31\<close> peers.\<close>

locale peer_sorter =
  fixes srt :: "'s sorter"
    and srt_invar :: "'s \<Rightarrow> bool"
  assumes srt_permutes: "srt_invar st \<Longrightarrow> srt st ps = Some (qs, st1) \<Longrightarrow> mset qs = mset ps"

locale total_sorter = peer_sorter +
  assumes srt_total: "srt_invar st \<Longrightarrow> length ps \<le> 2 ^ 31 \<Longrightarrow> \<exists>qs st1. srt st ps = Some (qs, st1) \<and> srt_invar st1"

lemma balancer_Random_mset: "balancer_Random src k ps = Some (qs, k1) \<Longrightarrow> mset qs = mset ps"
  using mset_map_nth_perm [OF mset_shuffle, of ps src k] by (auto simp: balancer_Random_def rand_Perm_def)

lemma balancer_RoundRobin_mset:
  assumes "balancer_RoundRobin seed c ps = Some (qs, c1)"
  shows "mset qs = mset ps"
proof -
  obtain i where i: "0 \<le> i" "i < int (length ps)" "qs = map (\<lambda>i. ps ! i) ([nat i..<length ps] @ [0..<nat i])"
    using assms by (auto simp: balancer_RoundRobin_def split: option.splits if_splits)
  have "mset ([nat i..<length ps] @ [0..<nat i]) = mset [0..<length ps]"
    using i(1,2) by (metis mset_append add.commute le_add_diff_inverse less_imp_le nat_less_iff upt_add_eq_append zero_le)
  from mset_map_nth_perm [OF this] show ?thesis using i(3) by simp
qed

lemma resolveBalancer_mset: "resolveBalancer src seed b s ps = Some (qs, s1) \<Longrightarrow> mset qs = mset ps"
  by (cases b) (auto simp: resolveBalancer_def dest: balancer_Random_mset balancer_RoundRobin_mset)

lemma sorter_Sort_mset:
  assumes "sorter_Sort t sortDesc bal b ps = Some (qs, b1)" "sortDesc_documented sortDesc"
    and "\<And>b ps qs b1. bal b ps = Some (qs, b1) \<Longrightarrow> mset qs = mset ps"
  shows "mset qs = mset ps"
proof -
  have part: "mset (filter P ps) + mset (filter (\<lambda>p. \<not> P p) ps) = mset ps" for P
    by (simp add: mset_filter multiset_partition [symmetric])
  have d: "mset (sortDesc xs) = mset xs" for xs using assms(2) by (simp add: sortDesc_documented_def)
  show ?thesis using assms(1)
    by (auto simp: sorter_Sort_def Let_def d part dest: assms(3) split: if_splits option.splits)
qed

lemma resolvePeerSorter_mset:
  assumes "resolvePeerSorter src seed sortDesc strategy b s ps = Some (qs, s1)" "sortDesc_documented sortDesc"
  shows "mset qs = mset ps"
  using assms sorter_Sort_mset [OF _ assms(2) resolveBalancer_mset]
  by (cases strategy) (auto simp: resolvePeerSorter_def resolveSortingStrategy_def dest: resolveBalancer_mset)

section \<open>The filter\<close>

definition peerValue :: "disc_cfg \<Rightarrow> disc_peer \<Rightarrow> peer" where
  "peerValue cfg e = \<lparr>peerRef = 0, MSPID = dpMSPID e, URL = mappedURL cfg (case endpointOf e of Inr u \<Rightarrow> u | Inl _ \<Rightarrow> ''''),
     BlockHeight = Some (propertyHeight e)\<rparr>"

lemma asPeerValue_alive: "alive e \<Longrightarrow> asPeerValue cfg e = Inr (peerValue cfg e)"
  by (auto simp: alive_def asPeerValue_def peerValue_def)

lemma mapE_all: "\<forall>x \<in> set xs. f x = Inr (g x) \<Longrightarrow> mapE f xs = Inr (map g xs)"
  unfolding mapE_Inr_iff by (induction xs) auto

lemma asPeerValues_alive: "\<forall>e \<in> set es. alive e \<Longrightarrow> mapE (asPeerValue cfg) es = Inr (map (peerValue cfg) es)"
  by (intro mapE_all) (simp add: asPeerValue_alive)

abbreviation endorserFor :: "disc_cfg \<Rightarrow> disc_peer list \<Rightarrow> peer \<Rightarrow> disc_peer option" where
  "endorserFor cfg es p \<equiv> find (\<lambda>e. URL p = URL (peerValue cfg e)) es"

lemma asEndorser_alive: "\<forall>e \<in> set es. alive e \<Longrightarrow> asEndorser cfg es p = Inr (endorserFor cfg es p)"
  by (induction es) (auto simp: asPeerValue_alive)

lemma asEndorsers_alive: "\<forall>e \<in> set es. alive e \<Longrightarrow> asEndorsers cfg es ps = Inr (List.map_filter (endorserFor cfg es) ps)"
  using mapE_all [where f = "asEndorser cfg es" and g = "endorserFor cfg es" and xs = ps] asEndorser_alive
  by (simp add: asEndorsers_def List.map_filter_def comp_def filter_map)

lemma endorserFor_Some: "endorserFor cfg es p = Some e \<Longrightarrow> e \<in> set es \<and> URL (peerValue cfg e) = URL p"
  by (auto simp: find_Some_iff)

lemma endorserFor_unique:
  assumes "distinct (map (\<lambda>e. URL (peerValue cfg e)) es)" "e \<in> set es"
  shows "endorserFor cfg es (peerValue cfg e) = Some e"
  using assms by (induction es) (auto simp: image_iff)

lemma map_filter_values:
  assumes "distinct (map (\<lambda>e. URL (peerValue cfg e)) es)" "set xs \<subseteq> set es"
  shows "List.map_filter (endorserFor cfg es) (map (peerValue cfg) xs) = xs"
  using assms(2) by (induction xs) (auto simp: List.map_filter_simps endorserFor_unique [OF assms(1)])

lemma mset_map_filter_cong: "mset xs = mset ys \<Longrightarrow> mset (List.map_filter f xs) = mset (List.map_filter f ys)"
proof -
  have m: "mset (List.map_filter f zs) = image_mset (\<lambda>z. the (f z)) (filter_mset (\<lambda>z. f z \<noteq> None) (mset zs))" for zs
    by (simp add: List.map_filter_def comp_def mset_filter)
  assume "mset xs = mset ys"
  then show ?thesis by (simp add: m)
qed

text \<open>What \<open>sort.Sort\<close> documents for the order of the URLs.\<close>

definition sortByURL_documented :: "(peer list \<Rightarrow> peer list) \<Rightarrow> bool" where
  "sortByURL_documented srt \<longleftrightarrow> (\<forall>ps. mset (srt ps) = mset ps \<and> sorted_wrt (\<lambda>p q. \<not> URL q < URL p) (srt ps))"

definition selectable :: "'s selectionFilter \<Rightarrow> disc_peer \<Rightarrow> bool" where
  "selectable s e \<longleftrightarrow> containsPeer (sfPeers s) (peerValue (sfCfg s) e) \<and>
     (case sfFilter s of None \<Rightarrow> True | Some f \<Rightarrow> f (peerValue (sfCfg s) e))"

lemma filtered_values:
  "filterPeers s (filterDiscovered s ps) =
     filter (\<lambda>p. containsPeer (sfPeers s) p \<and> (case sfFilter s of None \<Rightarrow> True | Some f \<Rightarrow> f p)) ps"
  by (auto simp: filterPeers_def filterDiscovered_def conj_commute split: option.split intro: filter_cong)

lemma sel_Filter_alive:
  assumes "\<forall>e \<in> set es. alive e"
  shows "sel_Filter s st es =
    bindO (sortPeers s st (filterPeers s (filterDiscovered s (sfSortByURL s (map (peerValue (sfCfg s)) es))))) (\<lambda>(qs, st1).
      Inr (List.map_filter (endorserFor (sfCfg s) es) qs, st1))"
  by (simp add: sel_Filter_def asPeerValues_alive [OF assms] asEndorsers_alive [OF assms])

context peer_sorter
begin

lemma sortPeers_permutes: "srt_invar st \<Longrightarrow> sfSorter s \<in> {None, Some srt} \<Longrightarrow> sortPeers s st ps = Inr (qs, st1) \<Longrightarrow> mset qs = mset ps"
  by (auto simp: sortPeers_def split: option.splits dest: srt_permutes)

text \<open>The filter leaves endorsers that were discovered; when the URLs of the endorsers differ, it leaves
  exactly those that were discovered and accepted.\<close>

lemma filter_result:
  assumes run: "sel_Filter s st es = Inr (fs, st1)" and "\<forall>e \<in> set es. alive e" and "sfSorter s \<in> {None, Some srt}"
    and "sortByURL_documented (sfSortByURL s)" and "srt_invar st"
  shows "\<forall>e \<in> set fs. e \<in> set es \<and> containsPeer (sfPeers s) (peerValue (sfCfg s) e)"
    and "distinct (map (\<lambda>e. URL (peerValue (sfCfg s) e)) es) \<Longrightarrow> mset fs = mset (filter (selectable s) es)"
proof -
  let ?v = "peerValue (sfCfg s)"
  let ?ok = "\<lambda>p. containsPeer (sfPeers s) p \<and> (case sfFilter s of None \<Rightarrow> True | Some f \<Rightarrow> f p)"
  let ?ps = "filter ?ok (sfSortByURL s (map ?v es))"
  obtain qs where qs: "sortPeers s st ?ps = Inr (qs, st1)" and fs: "fs = List.map_filter (endorserFor (sfCfg s) es) qs"
    using run unfolding sel_Filter_alive [OF assms(2)] filtered_values by (auto simp: bindO_eq_Inr)
  have "mset (sfSortByURL s (map ?v es)) = mset (map ?v es)" using assms(4) by (simp add: sortByURL_documented_def)
  then have "mset ?ps = mset (filter ?ok (map ?v es))" by (simp only: mset_filter)
  then have m: "mset qs = mset (filter ?ok (map ?v es))" using sortPeers_permutes [OF assms(5,3) qs] by simp
  have sel: "filter ?ok (map ?v es) = map ?v (filter (selectable s) es)"
    unfolding filter_map comp_def selectable_def [abs_def] ..
  show "\<forall>e \<in> set fs. e \<in> set es \<and> containsPeer (sfPeers s) (?v e)"
  proof
    fix e assume "e \<in> set fs"
    then obtain q where q: "q \<in> set qs" "endorserFor (sfCfg s) es q = Some e" by (auto simp: fs List.map_filter_def)
    then have "?ok q" using mset_eq_setD [OF m] by auto
    with endorserFor_Some [OF q(2)] show "e \<in> set es \<and> containsPeer (sfPeers s) (?v e)" by (simp add: containsPeer_def)
  qed
  assume d: "distinct (map (\<lambda>e. URL (?v e)) es)"
  have "mset fs = mset (List.map_filter (endorserFor (sfCfg s) es) (map ?v (filter (selectable s) es)))"
    unfolding fs using m unfolding sel by (rule mset_map_filter_cong)
  also have "\<dots> = mset (filter (selectable s) es)" by (subst map_filter_values [OF d]) auto
  finally show "mset fs = mset (filter (selectable s) es)" .
qed

end

context total_sorter
begin

lemma filter_total:
  assumes "\<forall>e \<in> set es. alive e" "sfSorter s \<in> {None, Some srt}" "sortByURL_documented (sfSortByURL s)"
    and "srt_invar st" "length es \<le> 2 ^ 31"
  shows "\<exists>fs st1. sel_Filter s st es = Inr (fs, st1) \<and> srt_invar st1"
proof -
  let ?ps = "filterPeers s (filterDiscovered s (sfSortByURL s (map (peerValue (sfCfg s)) es)))"
  have "mset (sfSortByURL s (map (peerValue (sfCfg s)) es)) = mset (map (peerValue (sfCfg s)) es)"
    using assms(3) by (simp add: sortByURL_documented_def)
  then have "length (sfSortByURL s (map (peerValue (sfCfg s)) es)) = length es" by (metis length_map mset_eq_length)
  then have "length ?ps \<le> 2 ^ 31" unfolding filtered_values using assms(5) by (intro order_trans [OF length_filter_le]) simp
  from srt_total [OF assms(4) this] obtain qs0 st0 where "srt st ?ps = Some (qs0, st0)" "srt_invar st0" by blast
  then obtain qs st1 where "sortPeers s st ?ps = Inr (qs, st1)" "srt_invar st1"
    using assms(2,4) by (auto simp: sortPeers_def)
  then show ?thesis by (simp add: sel_Filter_alive [OF assms(1)])
qed

end

section \<open>The sorters of a channel keep the contract\<close>

interpretation channel_sorter: peer_sorter "resolvePeerSorter src seed sortDesc strategy b" "\<lambda>_. sortDesc_documented sortDesc"
  by unfold_locales (blast dest: resolvePeerSorter_mset)

lemma resolveBalancer_permutes:
  assumes "counter_ok (bsCounter s)" "ps \<noteq> []" "length ps \<le> 2 ^ 31"
  shows "\<exists>qs s1. resolveBalancer src seed b s ps = Some (qs, s1) \<and> mset qs = mset ps \<and> counter_ok (bsCounter s1)"
proof (cases b)
  case RandomBalancer
  then show ?thesis using random_balancer.bal_permutes [of ps src "bsDraws s"] assms by (auto simp: resolveBalancer_def)
next
  case RoundRobinBalancer
  then show ?thesis using roundrobin_balancer.bal_permutes [OF assms, of seed] by (auto simp: resolveBalancer_def)
qed

interpretation resolved_balancer: balancer "resolveBalancer src seed b" "\<lambda>s. counter_ok (bsCounter s)"
  by unfold_locales (rule resolveBalancer_permutes)

interpretation height_sorter: total_sorter "resolvePeerSorter src seed sortDesc BlockHeightPriority b"
    "\<lambda>s. sortDesc_documented sortDesc \<and> counter_ok (bsCounter s)"
proof unfold_locales
  show "sortDesc_documented sortDesc \<and> counter_ok (bsCounter st) \<Longrightarrow>
      resolvePeerSorter src seed sortDesc BlockHeightPriority b st ps = Some (qs, st1) \<Longrightarrow> mset qs = mset ps" for st :: balancer_state and ps qs st1
    by (blast dest: resolvePeerSorter_mset)
next
  fix st :: balancer_state and ps :: "peer list"
  assume ok: "sortDesc_documented sortDesc \<and> counter_ok (bsCounter st)" and len: "length ps \<le> 2 ^ 31"
  show "\<exists>qs st1. resolvePeerSorter src seed sortDesc BlockHeightPriority b st ps = Some (qs, st1) \<and>
      sortDesc_documented sortDesc \<and> counter_ok (bsCounter st1)"
    using resolved_balancer.sorter_permutes [of sortDesc st ps 5 src seed b] ok len
    by (auto simp: resolvePeerSorter_def resolveSortingStrategy_def)
qed

section \<open>Good responses\<close>

lemma fs_scan_Inr:
  "fs_scan x src ch ic as re de = Inr (Some resp) \<Longrightarrow> \<exists>a \<in> set as. daErr a = None \<and> daResponse a = Some resp"
proof (induction as arbitrary: re de)
  case Nil
  then show ?case by (simp split: option.splits)
next
  case (Cons a as)
  show ?case
  proof (cases "daErr a")
    case (Some e)
    then have "fs_scan x src ch ic as (re @ [e]) de = Inr (Some resp)" using Cons.prems by simp
    from Cons.IH [OF this] show ?thesis by auto
  next
    case None
    then obtain resp' where resp': "daResponse a = Some resp'" using Cons.prems by (cases "daResponse a") simp_all
    show ?thesis
    proof (cases "fst (resp_Endorsers x (src (length as)) 0 NoFilter () resp' ch ic)" rule: asAttempt.cases)
      case (1 e)
      then have "fs_scan x src ch ic as re (de @ [fs_newDiscoveryError (discErr x) e]) = Inr (Some resp)"
        using Cons.prems None resp' by simp
      from Cons.IH [OF this] show ?thesis by auto
    qed (use Cons.prems None resp' in simp_all)
  qed
qed

lemma discovery_Send_valid:
  assumes "discovery_Send x connect arrive req targets = Inr answers" "a \<in> set answers" "daResponse a = Some resp"
  shows "response_valid resp"
proof -
  have "mapE (answerOf x connect req) (arrive targets) = Inr answers"
    using assms(1) by (simp add: discovery_Send_def split: if_splits)
  from mapE_set [OF this assms(2)] obtain t where "answerOf x connect req t = Inr a" by blast
  then have "send_one x connect req t = Inr resp"
    using assms(3) by (auto simp: answerOf_def split: sum.splits failure.splits)
  then show ?thesis by (auto simp: send_one_def split: sum.splits intro: disc_Send_valid)
qed

lemma fs_query_valid:
  assumes "fs_query c ch req ccs targets t = Inr (Some resp)"
  shows "response_valid resp"
proof -
  obtain answers where "discovery_Send (fsDisc c) (fsConnect c t) (fsArrive c t) req targets = Inr answers"
    and "fs_scan (fsDisc c) (fsRand c t) ch (asInvocationChain ccs) answers [] [] = Inr (Some resp)"
    using assms by (auto simp: fs_query_def split: sum.splits failure.splits)
  then show ?thesis using fs_scan_Inr discovery_Send_valid by blast
qed

lemma fs_queryEndorsers_valid: "fs_queryEndorsers c ch ccs ro t = Some (Inr resp, t1) \<Longrightarrow> response_valid resp"
proof -
  assume run: "fs_queryEndorsers c ch ccs ro t = Some (Inr resp, t1)"
  then obtain req targets where "retried c ro (\<lambda>t. (fs_query c ch req ccs targets t, Suc t)) t = Some (Inr (Some resp), t1)"
    by (auto simp: fs_queryEndorsers_def split: sum.splits if_splits option.splits failure.splits)
  from retried_last [OF this, where P = "\<lambda>_. True"] show ?thesis by (auto intro: fs_query_valid)
qed

lemma fs_queryEndorsers_returns: "0 \<le> Attempts ro \<Longrightarrow> \<exists>r t1. fs_queryEndorsers c ch ccs ro t = Some (r, t1)"
  using retried_returns [of ro c]
  by (auto simp: fs_queryEndorsers_def split: sum.splits option.splits failure.splits; metis option.distinct(1))

definition cacheValid :: "'s fab_service \<Rightarrow> bool" where
  "cacheValid s \<longleftrightarrow> (\<forall>k resp. fsCache s k = Some resp \<longrightarrow> response_valid resp)"

text \<open>Only the cache, the clock and the handled errors change.\<close>

definition sameService :: "'s fab_service \<Rightarrow> 's fab_service \<Rightarrow> bool" where
  "sameService s s1 \<longleftrightarrow> fsChannelID s1 = fsChannelID s \<and> fsRetryOpts s1 = fsRetryOpts s \<and> fsPeerSorter s1 = fsPeerSorter s \<and>
     fsSorterState s1 = fsSorterState s \<and> fsClosed s1 = fsClosed s"

lemma fs_initialize_cases:
  assumes "fs_initialize c ccs ro s = Some (r, s1)"
  shows "sameService s s1" "fsCache s1 = fsCache s" "r = Inr resp \<Longrightarrow> response_valid resp"
  using assms fs_queryEndorsers_valid
  by (auto simp: fs_initialize_def sameService_def split: option.splits prod.splits sum.splits failure.splits)

lemma fs_getChannelResponse_cases:
  assumes "fs_getChannelResponse c ccs ro s = Some (r, s1)" "cacheValid s"
  shows "sameService s s1 \<and> cacheValid s1 \<and> (\<forall>resp. r = Inr resp \<longrightarrow> response_valid resp)"
proof (cases "fsCache s (fsCacheKey c ccs)")
  case (Some resp)
  then show ?thesis using assms by (auto simp: fs_getChannelResponse_def cacheValid_def sameService_def)
next
  case None
  then obtain s2 where i: "fs_initialize c ccs ro s = Some (r, s2)"
    and s1: "s1 = (case r of Inr resp \<Rightarrow> s2\<lparr>fsCache := (fsCache s2)(fsCacheKey c ccs \<mapsto> resp)\<rparr> | Inl f \<Rightarrow> s2)"
    using assms(1) by (auto simp: fs_getChannelResponse_def split: option.splits prod.splits sum.splits)
  note fs_initialize_cases [OF i]
  then show ?thesis using assms(2) s1 by (cases r) (auto simp: cacheValid_def sameService_def)
qed

section \<open>Choosing endorsers\<close>

definition accepts :: "(peer \<Rightarrow> bool) option \<Rightarrow> peer \<Rightarrow> bool" where
  "accepts flt p = (case flt of Some f \<Rightarrow> f p | None \<Rightarrow> True)"

definition uniqueURLs :: "disc_cfg \<Rightarrow> disc_peer list \<Rightarrow> bool" where
  "uniqueURLs cfg es = distinct (map (\<lambda>e. URL (peerValue cfg e)) es)"

text \<open>Endorsers that fill a layout: for every group as many as the layout asks for, members of the group that
  were discovered; when the URLs in the group differ, they are different endorsers that the caller accepts.\<close>

definition goodPart :: "disc_cfg \<Rightarrow> peer list \<Rightarrow> (peer \<Rightarrow> bool) option \<Rightarrow> disc_peer list \<Rightarrow> disc_peer list \<Rightarrow> bool" where
  "goodPart cfg peers flt grp part \<longleftrightarrow>
     (\<forall>e \<in> set part. e \<in> set grp \<and> containsPeer peers (peerValue cfg e)) \<and>
     (uniqueURLs cfg grp \<longrightarrow> distinct part \<and> (\<forall>e \<in> set part. accepts flt (peerValue cfg e)))"

definition chosen ::
  "disc_cfg \<Rightarrow> peer list \<Rightarrow> (peer \<Rightarrow> bool) option \<Rightarrow> (string \<rightharpoonup> disc_peer list) \<Rightarrow> (string \<times> nat) list \<Rightarrow> disc_peer list \<Rightarrow> bool" where
  "chosen cfg peers flt groups l es \<longleftrightarrow> (\<exists>parts. es = concat parts \<and>
     list_all2 (\<lambda>(grp, cnt) part. length part = cnt \<and> goodPart cfg peers flt (groupOf groups grp) part) l parts)"

lemma resp_Endorsers_found:
  "resp_Endorsers x src k f n resp ch ic = (Inr es, n1) \<Longrightarrow>
     \<exists>desc. resp (ChaincodeQueryType, ch, '''') = None \<and> resp (ChaincodeQueryType, ch, chainString x ic) = Some (VDescriptor desc)"
  by (auto simp: resp_Endorsers_def split: option.splits resultOrError.splits)

lemma group_alive:
  assumes "response_valid resp" "resp (ChaincodeQueryType, ch, k) = Some (VDescriptor desc)"
  shows "\<forall>e \<in> set (groupOf (endorsersByGroups desc) grp). alive e"
proof (cases "endorsersByGroups desc grp")
  case (Some es)
  have "valid_result ChaincodeQueryType (VDescriptor desc)" using assms unfolding response_valid_def by blast
  then show ?thesis using Some by (simp add: groupOf_def)
qed (simp add: groupOf_def)

lemma newFilter_simps [simp]:
  "sfCfg (newFilter cfg peers flt srt byURL) = cfg" "sfPeers (newFilter cfg peers flt srt byURL) = peers"
  "sfSorter (newFilter cfg peers flt srt byURL) = srt" "sfSortByURL (newFilter cfg peers flt srt byURL) = byURL"
  "sfFilter (newFilter cfg peers flt srt byURL) = Some (accepts flt)"
  by (simp_all add: newFilter_def accepts_def [abs_def] split: option.split)

context peer_sorter
begin

lemma filterCall_good:
  assumes call: "filterCall (sel_Filter (newFilter cfg peers flt (Some srt) byURL)) srt_invar grp fs"
    and ok: "\<forall>e \<in> set grp. alive e" "sortByURL_documented byURL"
  shows "goodPart cfg peers flt grp (take cnt fs)"
proof -
  let ?f = "newFilter cfg peers flt (Some srt) byURL"
  obtain st st1 where st: "srt_invar st" "sel_Filter ?f st grp = Inr (fs, st1)"
    using call by (auto simp: filterCall_def)
  have disc: "\<forall>e \<in> set fs. e \<in> set grp \<and> containsPeer peers (peerValue cfg e)"
    using filter_result(1) [OF st(2) ok(1) _ _ st(1)] ok(2) by simp
  have "distinct (take cnt fs) \<and> (\<forall>e \<in> set (take cnt fs). accepts flt (peerValue cfg e))" if u: "uniqueURLs cfg grp"
  proof -
    have m: "mset fs = mset (filter (selectable ?f) grp)"
      using filter_result(2) [OF st(2) ok(1) _ _ st(1)] ok(2) u by (simp add: uniqueURLs_def)
    have "distinct grp" using u by (simp add: uniqueURLs_def distinct_map)
    then have "distinct fs" using m by (metis distinct_filter mset_eq_imp_distinct_iff)
    moreover have "\<forall>e \<in> set fs. accepts flt (peerValue cfg e)"
      using mset_eq_setD [OF m] by (auto simp: selectable_def)
    ultimately show ?thesis using set_take_subset [of cnt fs] by auto
  qed
  then show ?thesis using disc set_take_subset [of cnt fs] unfolding goodPart_def by blast
qed

lemma fills_chosen:
  assumes "fills (sel_Filter (newFilter cfg peers flt (Some srt) byURL)) srt_invar groups l es"
    and "\<And>grp. \<forall>e \<in> set (groupOf groups grp). alive e" "sortByURL_documented byURL"
  shows "chosen cfg peers flt groups l es"
proof -
  obtain parts where es: "es = concat parts" and parts: "list_all2 (\<lambda>(grp, cnt) part. length part = cnt \<and>
      (\<exists>fs. filterCall (sel_Filter (newFilter cfg peers flt (Some srt) byURL)) srt_invar (groupOf groups grp) fs \<and> part = take cnt fs)) l parts"
    using assms(1) by (auto simp: fills_def)
  from parts have "list_all2 (\<lambda>(grp, cnt) part. length part = cnt \<and> goodPart cfg peers flt (groupOf groups grp) part) l parts"
    by (rule list_all2_mono) (clarsimp, metis filterCall_good [OF _ assms(2,3)])
  then show ?thesis using es unfolding chosen_def by blast
qed

lemma fs_getEndorsers_sound:
  assumes run: "fs_getEndorsers c ch ccs resp flt srt s = (Inr es, s1)"
    and "response_valid resp" "sortByURL_documented (fsSortByURL c)" "srt_invar (fsSorterState s)"
    and keeps: "\<And>cfg peers flt byURL groups. filter_keeps (sel_Filter (newFilter cfg peers flt (Some srt) byURL)) srt_invar groups"
  shows "\<exists>peers desc. \<exists>l \<in> set (layouts desc). fsGetPeers c (fsClock s) = Inr peers \<and>
    resp (ChaincodeQueryType, ch, chainString (fsDisc c) (asInvocationChain ccs)) = Some (VDescriptor desc) \<and>
    chosen (fsCfg c) peers flt (endorsersByGroups desc) l es"
proof -
  obtain peers st where p: "fsGetPeers c (fsClock s) = Inr peers"
    and e: "resp_Endorsers (fsDisc c) (fsRand c (fsClock s) 0) 0 (sel_Filter (newFilter (fsCfg c) peers flt (Some srt) (fsSortByURL c)))
        (fsSorterState s) resp ch (asInvocationChain ccs) = (Inr es, st)"
    using run by (auto simp: fs_getEndorsers_def Let_def split: sum.splits prod.splits failure.splits)
  obtain desc where d: "resp (ChaincodeQueryType, ch, '''') = None"
    "resp (ChaincodeQueryType, ch, chainString (fsDisc c) (asInvocationChain ccs)) = Some (VDescriptor desc)"
    using resp_Endorsers_found [OF e] by blast
  have "\<exists>l \<in> set (layouts desc).
      fills (sel_Filter (newFilter (fsCfg c) peers flt (Some srt) (fsSortByURL c))) srt_invar (endorsersByGroups desc) l es"
    using resp_Endorsers_spec [where src = "fsRand c (fsClock s) 0" and k = 0, OF d keeps assms(4), of "fsCfg c" peers flt "fsSortByURL c"]
    unfolding e by simp
  then show ?thesis using fills_chosen [OF _ group_alive [OF assms(2) d(2)] assms(3)] p d(2) by blast
qed

end

context total_sorter
begin

lemma fs_getEndorsers_total:
  assumes "response_valid resp" "sortByURL_documented (fsSortByURL c)" "srt_invar (fsSorterState s)"
    and d: "resp (ChaincodeQueryType, ch, '''') = None"
      "resp (ChaincodeQueryType, ch, chainString (fsDisc c) (asInvocationChain ccs)) = Some (VDescriptor desc)"
    and small: "\<And>grp. length (groupOf (endorsersByGroups desc) grp) \<le> 2 ^ 31"
    and run: "fs_getEndorsers c ch ccs resp flt srt s = (r, s1)"
  shows "r \<noteq> Inl (Panic p) \<and> srt_invar (fsSorterState s1)"
proof (cases "fsGetPeers c (fsClock s)")
  case (Inl e)
  then show ?thesis using run assms(3) by (auto simp: fs_getEndorsers_def Let_def)
next
  case (Inr peers)
  let ?ic = "asInvocationChain ccs"
  let ?f = "sel_Filter (newFilter (fsCfg c) peers flt (Some srt) (fsSortByURL c))"
  obtain q st where e: "resp_Endorsers (fsDisc c) (fsRand c (fsClock s) 0) 0 ?f (fsSorterState s) resp ch ?ic = (q, st)"
    by (cases "resp_Endorsers (fsDisc c) (fsRand c (fsClock s) 0) 0 ?f (fsSorterState s) resp ch ?ic")
  have tot: "\<exists>fs st1. ?f st (groupOf (endorsersByGroups desc) grp) = Inr (fs, st1) \<and> srt_invar st1" if "srt_invar st" for st grp
    using filter_total [OF group_alive [OF assms(1) d(2)] _ _ that small] assms(2) by simp
  have keeps: "filter_keeps ?f srt_invar (endorsersByGroups desc)"
    unfolding filter_keeps_def using tot by (metis Inr_inject Pair_inject)
  have nofail: "\<not> filterFails ?f srt_invar (groupOf (endorsersByGroups desc) grp) f" for grp f
    unfolding filterFails_def using tot by (metis Inl_Inr_False)
  have "q \<noteq> Inl (Panic p) \<and> srt_invar st"
    using resp_Endorsers_spec [where src = "fsRand c (fsClock s) 0" and k = 0, OF d keeps assms(3)] nofail
    unfolding e by (auto split: sum.splits)
  then show ?thesis using run Inr e by (auto simp: fs_getEndorsers_def Let_def split: sum.splits failure.splits)
qed

end


lemma fs_asPeers_alive: "\<forall>e \<in> set es. alive e \<Longrightarrow> \<exists>ps. fs_asPeers cfg es = Inr ps"
proof -
  assume "\<forall>e \<in> set es. alive e"
  then have "\<forall>e \<in> set es. fs_asPeer cfg e = Inr (case fs_asPeer cfg e of Inr p \<Rightarrow> p | Inl _ \<Rightarrow> None)"
    by (auto simp: fs_asPeer_def disc_asPeer_def alive_def)
  from mapE_all [OF this] show ?thesis by (simp add: fs_asPeers_def)
qed

lemma chosen_alive:
  assumes "chosen cfg peers flt groups l es" "\<And>grp. \<forall>e \<in> set (groupOf groups grp). alive e"
  shows "\<forall>e \<in> set es. alive e"
proof
  fix e assume "e \<in> set es"
  with assms(1) obtain parts part where "list_all2 (\<lambda>(grp, cnt) part. length part = cnt \<and> goodPart cfg peers flt (groupOf groups grp) part) l parts"
    and "part \<in> set parts" "e \<in> set part" by (auto simp: chosen_def)
  then show "alive e" using assms(2) by (induction rule: list_all2_induct) (auto simp: goodPart_def)
qed

text \<open>
  Selection with the default sorter returns. For chaincodes whose good response is in the cache, and with
  the sorter by block height over either balancer, the service returns peers or an error after finitely many
  attempts: it does not crash, and the state of the balancer stays usable.
\<close>

theorem fabric_selection_returns:
  assumes "\<not> fsClosed s" "ccs \<noteq> []" "fsCache s (fsCacheKey c ccs) = Some resp" "response_valid resp"
    and d: "resp (ChaincodeQueryType, fsChannelID s, '''') = None"
      "resp (ChaincodeQueryType, fsChannelID s, chainString (fsDisc c) (asInvocationChain ccs)) = Some (VDescriptor desc)"
      "\<And>grp. length (groupOf (endorsersByGroups desc) grp) \<le> 2 ^ 31"
    and srt: "fpSorter params = None" "fsPeerSorter s = resolvePeerSorter src seed sortDesc BlockHeightPriority b"
      "sortDesc_documented sortDesc" "sortByURL_documented (fsSortByURL c)" "counter_ok (bsCounter (fsSorterState s))"
    and "0 \<le> Attempts (fsRetryOpts s)"
  shows "\<exists>r s2. fs_GetEndorsersForChaincode c ccs params s = Some (r, s2) \<and> (\<forall>p. r \<noteq> Inl (Panic p)) \<and>
    counter_ok (bsCounter (fsSorterState s2))"
proof -
  let ?srt = "resolvePeerSorter src seed sortDesc BlockHeightPriority b"
  let ?P = "\<lambda>s0 :: balancer_state fab_service. sortDesc_documented sortDesc \<and> counter_ok (bsCounter (fsSorterState s0))"
  let ?get = "fs_getEndorsers c (fsChannelID s) ccs resp (fpFilter params) ?srt"
  have g: "fs_getChannelResponse c ccs ro s = Some (Inr resp, s)" for ro using assms(3) by (simp add: fs_getChannelResponse_def)
  obtain r s2 where run: "retried c (fsRetryOpts s) ?get s = Some (r, s2)"
    using retried_returns [OF assms(13), where c = c and f = ?get and t = s] by blast
  have step: "q \<noteq> Inl (Panic p) \<and> ?P s'" if "?P s0" "?get s0 = (q, s')" for q p s0 s'
    using height_sorter.fs_getEndorsers_total [OF assms(4) srt(4) _ d that(2), of p] that(1) by simp
  from retried_last [where P = ?P, OF run] srt(3,5) step
  obtain s0 where s0: "?P s0" "?get s0 = (r, s2)" by blast
  have "\<forall>p. r \<noteq> Inl (Panic p)" and P2: "?P s2" using step [OF s0] by blast+
  moreover have "\<exists>ps. fs_asPeers (fsCfg c) es = Inr ps" if r: "r = Inr es" for es
  proof -
    obtain peers desc' l where d': "resp (ChaincodeQueryType, fsChannelID s, chainString (fsDisc c) (asInvocationChain ccs)) = Some (VDescriptor desc')"
      and ch: "chosen (fsCfg c) peers (fpFilter params) (endorsersByGroups desc') l es"
      using channel_sorter.fs_getEndorsers_sound [OF s0(2) [unfolded r] assms(4) srt(4,3)] srt(3) by (auto simp: filter_keeps_def)
    then show ?thesis using chosen_alive [OF ch group_alive [OF assms(4) d']] fs_asPeers_alive by blast
  qed
  moreover have "fs_GetEndorsersForChaincode c ccs params s = Some (case r of Inl f \<Rightarrow> Inl f | Inr es \<Rightarrow> fs_asPeers (fsCfg c) es, s2)"
    using assms(1,2) g srt(1,2) run by (auto simp: fs_GetEndorsersForChaincode_def split: sum.splits)
  ultimately show ?thesis by (cases r) auto
qed

section \<open>The balanced sorter\<close>

lemma balancer_RoundRobin_empty: "balancer_RoundRobin seed c [] = None"
  by (auto simp: balancer_RoundRobin_def split: option.splits)

lemma sel_Filter_panics:
  assumes "\<forall>e \<in> set es. alive e" "sortByURL_documented byURL"
    and none: "\<forall>e \<in> set es. \<not> (containsPeer peers (peerValue cfg e) \<and> accepts flt (peerValue cfg e))"
  shows "sel_Filter (newFilter cfg peers flt (Some (resolvePeerSorter src seed sortDesc Balanced RoundRobinBalancer)) byURL) st es =
    Inl (Panic ''peer sorter'')"
proof -
  let ?s = "newFilter cfg peers flt (Some (resolvePeerSorter src seed sortDesc Balanced RoundRobinBalancer)) byURL"
  have "set (byURL (map (peerValue cfg) es)) = peerValue cfg ` set es"
    using assms(2) by (metis list.set_map mset_eq_setD sortByURL_documented_def)
  then have "filterPeers ?s (filterDiscovered ?s (byURL (map (peerValue cfg) es))) = []"
    unfolding filtered_values using none by (auto simp: filter_empty_conv)
  then show ?thesis using sel_Filter_alive [OF assms(1), of ?s st]
    by (simp add: sortPeers_def resolvePeerSorter_def resolveSortingStrategy_def resolveBalancer_def balancer_RoundRobin_empty)
qed

text \<open>
  The balanced sorter crashes. With the sorting strategy \<open>Balanced\<close> and the default round-robin balancer, a
  request panics as soon as the layouts begin with a group of which no endorser was discovered and accepted, for
  instance because they are all greylisted: the balancer is called with no peers and its counter insists on
  a positive bound. The sorter by block height has a guard for this case.
\<close>

theorem balanced_selection_panics:
  assumes "\<not> fsClosed s" "ccs \<noteq> []" "fsCache s (fsCacheKey c ccs) = Some resp" "response_valid resp"
    and d: "resp (ChaincodeQueryType, fsChannelID s, '''') = None"
      "resp (ChaincodeQueryType, fsChannelID s, chainString (fsDisc c) (asInvocationChain ccs)) = Some (VDescriptor desc)"
    and srt: "fpSorter params = None" "fsPeerSorter s = resolvePeerSorter src seed sortDesc Balanced RoundRobinBalancer"
      "sortByURL_documented (fsSortByURL c)"
    and peers: "fsGetPeers c (fsClock s) = Inr peers"
    and none: "layouts desc \<noteq> []" "\<forall>l \<in> set (layouts desc). \<exists>grp cnt l'. l = (grp, cnt) # l' \<and>
      (\<forall>e \<in> set (groupOf (endorsersByGroups desc) grp). \<not> (containsPeer peers (peerValue (fsCfg c) e) \<and> accepts (fpFilter params) (peerValue (fsCfg c) e)))"
  shows "\<exists>s2. fs_GetEndorsersForChaincode c ccs params s = Some (Inl (Panic ''peer sorter''), s2)"
proof -
  let ?srt = "resolvePeerSorter src seed sortDesc Balanced RoundRobinBalancer"
  let ?f = "sel_Filter (newFilter (fsCfg c) peers (fpFilter params) (Some ?srt) (fsSortByURL c))"
  let ?ls = "map (\<lambda>i. layouts desc ! i) (rand_Perm (fsRand c (fsClock s) 0) 0 (length (layouts desc)))"
  have m: "mset ?ls = mset (layouts desc)"
    using mset_map_nth_perm [OF mset_shuffle, of "layouts desc"] by (simp add: rand_Perm_def)
  obtain l ls where ls: "?ls = l # ls" using none(1) m by (cases ?ls) auto
  then have "l \<in> set (layouts desc)" using mset_eq_setD [OF m] by (metis list.set_intros(1))
  then obtain grp cnt l' where l: "l = (grp, cnt) # l'" and ng: "\<forall>e \<in> set (groupOf (endorsersByGroups desc) grp).
      \<not> (containsPeer peers (peerValue (fsCfg c) e) \<and> accepts (fpFilter params) (peerValue (fsCfg c) e))" using none(2) by blast
  have "tryLayouts (endorsersByGroups desc) ?f (fsSorterState s) ?ls = Inl (Panic ''peer sorter'')"
    using sel_Filter_panics [OF group_alive [OF assms(4) d(2)] srt(3) ng] by (simp add: ls l)
  then have "fst (fs_getEndorsers c (fsChannelID s) ccs resp (fpFilter params) ?srt s) = Inl (Panic ''peer sorter'')"
    using peers d by (simp add: fs_getEndorsers_def Let_def resp_Endorsers_def)
  then obtain s2 where "fs_getEndorsers c (fsChannelID s) ccs resp (fpFilter params) ?srt s = (Inl (Panic ''peer sorter''), s2)"
    by (metis prod.collapse)
  from retried_panics [where f = "fs_getEndorsers c (fsChannelID s) ccs resp (fpFilter params) ?srt", OF this] show ?thesis
    using assms(1-3) srt(1,2) by (simp add: fs_GetEndorsersForChaincode_def fs_getChannelResponse_def)
qed

section \<open>A service at work\<close>

lemma sort_key_URL_documented: "sortByURL_documented (sort_key URL)"
proof -
  have "sorted_wrt (\<lambda>p q. URL p \<le> URL q) (sort_key URL ps)" for ps :: "peer list"
    using sorted_sort_key [of URL ps] by (simp add: sorted_wrt_map)
  then show ?thesis by (simp add: sortByURL_documented_def not_less)
qed

text \<open>One peer, which is discovered and which answers the query for endorsers with itself.\<close>

definition test_fs :: fs_ext where
  "test_fs = \<lparr>fsDisc = test_disc, fsCfg = ceCfg (test_chan (Inr [])), fsChannelPeers = [''a''], fsMaxTargets = 1,
     fsConnect = (\<lambda>n. ceConnect (test_chan (Inr [CcQueryRes [\<lparr>edChaincode = ''cc'', EndorsersByGroups = [(''G'', [test_endorser])],
        Layouts = [[(''G'', 1)]]\<rparr>]]))), fsArrive = (\<lambda>n ts. ts), fsRand = (\<lambda>_ _ _ _. 0),
     fsGetPeers = (\<lambda>n. Inr [\<lparr>peerRef = 1, MSPID = ''Org1MSP'', URL = ''a'', BlockHeight = None\<rparr>]), fsSortByURL = sort_key URL,
     fsCacheKey = (\<lambda>ccs. ''cc''), fsRound = (\<lambda>r. r), fsCodes = fabric_codes\<rparr>"

definition test_fs_endorser :: disc_peer where
  "test_fs_endorser = \<lparr>dpMSPID = ''Org1MSP'', AliveMessage = \<lparr>GetAliveMsg = Some \<lparr>amMembership = Some ''a'', amTimestamp = True\<rparr>,
        GetStateInfo = Some \<lparr>siTimestamp = True, siLedgerHeight = Some 5\<rparr>\<rparr>,
     StateInfoMessage = Some \<lparr>GetAliveMsg = Some \<lparr>amMembership = Some ''b'', amTimestamp = True\<rparr>,
        GetStateInfo = Some \<lparr>siTimestamp = True, siLedgerHeight = Some 5\<rparr>\<rparr>, dpIdentity = []\<rparr>"

definition test_descriptor :: endorsementDescriptor where
  "test_descriptor = \<lparr>endorsersByGroups = [''G'' \<mapsto> [test_fs_endorser]], layouts = [[(''G'', 1)]]\<rparr>"

definition test_fs_response :: disc_response where
  "test_fs_response = [(ChaincodeQueryType, ''ch'', ''cc'') \<mapsto> VDescriptor test_descriptor]"

definition test_service :: "SortingStrategy \<Rightarrow> balancer_state fab_service" where
  "test_service strategy = \<lparr>fsChannelID = ''ch'', fsRetryOpts = DefaultOpts fabric_codes,
     fsPeerSorter = resolvePeerSorter (\<lambda>_ _. 0) (\<lambda>_. 0) sort_by_height strategy RoundRobinBalancer, fsHasErrHandler = False, fsClosed = False,
     fsCache = [''cc'' \<mapsto> test_fs_response], fsSorterState = \<lparr>bsCounter = counter_New, bsDraws = 0\<rparr>, fsClock = 0, fsHandled = []\<rparr>"

definition test_params :: "(peer \<Rightarrow> bool) option \<Rightarrow> balancer_state fs_params" where
  "test_params flt = \<lparr>fpFilter = flt, fpSorter = None, fpRetryOpts = None\<rparr>"

lemma char_of_ab: "char_of (97 :: nat) = CHR ''a''" "char_of (98 :: nat) = CHR ''b''"
  by (simp_all add: char_of_def bit_0)

definition test_request :: disc_request where
  "test_request = addQueryMapping ChaincodeQueryType ''ch'' (addChaincodeQueryMapping [[test_cc]] (addQuery (CcQuery ''ch'' [[test_cc]])
     (OfChannel ''ch'' disc_NewRequest)))"

lemma test_request: "AddEndorsersQuery [Some [test_cc]] (OfChannel ''ch'' disc_NewRequest) = Inr test_request"
  by (simp add: AddEndorsersQuery_def validateInterests_def ValidateInvocationChain_def test_request_def test_cc_def OfChannel_def Let_def)

lemma test_invocationChain [simp]: "asInvocationChain [test_cc] = [test_cc]"
  by (simp add: asInvocationChain_def test_cc_def)

lemma test_fs_send:
  "discovery_Send test_disc (fsConnect test_fs n) (fsArrive test_fs n) test_request [''a''] =
     Inr [\<lparr>daTarget = ''a'', daResponse = Some test_fs_response, daErr = None\<rparr>]"
  by (simp add: test_fs_def test_chan_def test_disc_def test_cc_def test_endorser_def run_disc_defs test_request_def
      mapEndorsers_def mapEndorsersOfChannel_def createEndorsementDescriptor_def
      layoutOf_def disc_endorser_def test_fs_response_def test_descriptor_def test_fs_endorser_def char_of_ab)

lemma test_chain: "chainString (fsDisc test_fs) [test_cc] = ''cc''" "chainString test_disc [test_cc] = ''cc''"
  by (simp_all add: test_fs_def test_disc_def test_cc_def)

lemma test_fs_query: "fs_query test_fs ''ch'' test_request [test_cc] [''a''] n = Inr (Some test_fs_response)"
proof -
  have "fsDisc test_fs = test_disc" by (simp add: test_fs_def)
  then show ?thesis using test_fs_send [of n]
    by (simp add: fs_query_def resp_Endorsers_def test_chain test_fs_response_def test_descriptor_def rand_Perm_def rand_Intn_def
        NoFilter_def groupOf_def)
qed

lemma test_fs_queryEndorsers: "fs_queryEndorsers test_fs ''ch'' [test_cc] ro 0 = Some (Inr test_fs_response, 1)"
proof -
  have "fs_getTargets test_fs 0 ''ch'' = Inr [''a'']"
    by (simp add: fs_getTargets_def test_fs_def PickRandomNPeerConfigs_def rand_Perm_def rand_Intn_def)
  then show ?thesis
    using retried_success [where f = "\<lambda>t. (fs_query test_fs ''ch'' test_request [test_cc] [''a''] t, Suc t)" and c = test_fs and ro = ro]
    by (simp add: fs_queryEndorsers_def test_request test_fs_query)
qed

lemma test_response_valid: "response_valid test_fs_response"
  by (auto simp: response_valid_def test_fs_response_def test_descriptor_def test_fs_endorser_def alive_def stateful_def
      endpointOf_def heightOf_def split: if_splits)

lemma test_peerValue: "peerValue (fsCfg test_fs) test_fs_endorser = \<lparr>peerRef = 0, MSPID = ''Org1MSP'', URL = ''a'', BlockHeight = Some 5\<rparr>"
  by (simp add: peerValue_def test_fs_def test_chan_def test_fs_endorser_def endpointOf_def mappedURL_def propertyHeight_def)

theorem fabric_selection_returns_witness:
  "\<exists>r s2. fs_GetEndorsersForChaincode test_fs [test_cc] (test_params None) (test_service BlockHeightPriority) = Some (r, s2) \<and>
    (\<forall>p. r \<noteq> Inl (Panic p))"
proof -
  have g: "length (groupOf (endorsersByGroups test_descriptor) grp) \<le> 2 ^ 31" for grp
    by (simp add: groupOf_def test_descriptor_def)
  show ?thesis
    using fabric_selection_returns [where s = "test_service BlockHeightPriority" and ccs = "[test_cc]" and c = test_fs and resp = test_fs_response
        and desc = test_descriptor and params = "test_params None" and sortDesc = sort_by_height and b = RoundRobinBalancer
        and src = "\<lambda>_ _. 0" and seed = "\<lambda>_. 0", OF _ _ _ test_response_valid _ _ g _ _ sort_by_height_documented]
      sort_key_URL_documented counter_ok_New
    by (auto simp: test_service_def test_params_def test_chain test_fs_response_def test_fs_def DefaultOpts_def)
qed

theorem balanced_selection_panics_witness:
  "\<exists>s2. fs_GetEndorsersForChaincode test_fs [test_cc] (test_params (Some (\<lambda>_. False))) (test_service Balanced) =
     Some (Inl (Panic ''peer sorter''), s2)"
proof -
  have "fsGetPeers test_fs (fsClock (test_service Balanced)) = Inr [\<lparr>peerRef = 1, MSPID = ''Org1MSP'', URL = ''a'', BlockHeight = None\<rparr>]"
    by (simp add: test_fs_def)
  from balanced_selection_panics [where s = "test_service Balanced" and ccs = "[test_cc]" and c = test_fs and resp = test_fs_response
      and desc = test_descriptor and params = "test_params (Some (\<lambda>_. False))" and sortDesc = sort_by_height
      and src = "\<lambda>_ _. 0" and seed = "\<lambda>_. 0", OF _ _ _ test_response_valid _ _ _ _ _ this]
  show ?thesis using sort_key_URL_documented
    by (simp add: test_service_def test_params_def test_chain test_fs_response_def test_fs_def test_descriptor_def groupOf_def accepts_def)
qed

text \<open>A new service, which first queries the endorsers.\<close>

definition test_new_service :: "balancer_state fab_service" where
  "test_new_service = (test_service BlockHeightPriority)\<lparr>fsCache := Map.empty\<rparr>"

lemma test_fs_response_new:
  "fs_getChannelResponse test_fs [test_cc] ro test_new_service =
     Some (Inr test_fs_response, test_new_service\<lparr>fsClock := 1, fsCache := [''cc'' \<mapsto> test_fs_response]\<rparr>)"
proof -
  have "fsChannelID test_new_service = ''ch''" "fsClock test_new_service = 0" "fsCache test_new_service = Map.empty"
    "fsCacheKey test_fs [test_cc] = ''cc''"
    by (simp_all add: test_new_service_def test_service_def test_fs_def)
  then show ?thesis by (simp add: fs_getChannelResponse_def fs_initialize_def test_fs_queryEndorsers)
qed

lemma test_fs_endorsers:
  "\<exists>s2. fs_getEndorsers test_fs ''ch'' [test_cc] test_fs_response None (fsPeerSorter test_new_service) s = (Inr [test_fs_endorser], s2)"
proof -
  let ?f = "newFilter (fsCfg test_fs) [\<lparr>peerRef = 1, MSPID = ''Org1MSP'', URL = ''a'', BlockHeight = None\<rparr>] None
    (Some (fsPeerSorter test_new_service)) (fsSortByURL test_fs)"
  have alive: "\<forall>e \<in> set [test_fs_endorser]. alive e" by (simp add: test_fs_endorser_def alive_def endpointOf_def)
  have v: "filterPeers ?f (filterDiscovered ?f (sfSortByURL ?f (map (peerValue (sfCfg ?f)) [test_fs_endorser]))) = [peerValue (fsCfg test_fs) test_fs_endorser]"
    by (simp add: filtered_values test_peerValue containsPeer_def accepts_def) (simp add: test_fs_def)
  have srt: "fsPeerSorter test_new_service st [p] = Some ([p], st)" for st p
    by (simp add: test_new_service_def test_service_def resolvePeerSorter_def resolveSortingStrategy_def sorter_Sort_def)
  have "sel_Filter ?f st [test_fs_endorser] = Inr ([test_fs_endorser], st)" for st
    unfolding sel_Filter_alive [OF alive] v by (simp add: sortPeers_def srt List.map_filter_simps)
  then have "resp_Endorsers (fsDisc test_fs) src 0 (sel_Filter ?f) st test_fs_response ''ch'' [test_cc] = (Inr [test_fs_endorser], st)" for src st
    by (simp add: resp_Endorsers_def test_chain test_fs_response_def test_descriptor_def rand_Perm_def rand_Intn_def groupOf_def)
  moreover have "fsGetPeers test_fs t = Inr [\<lparr>peerRef = 1, MSPID = ''Org1MSP'', URL = ''a'', BlockHeight = None\<rparr>]" for t
    by (simp add: test_fs_def)
  ultimately show ?thesis by (simp add: fs_getEndorsers_def Let_def)
qed


end
