(* ===== verification/Connector.thy ===== *)
theory Connector
  imports Status
begin

text \<open>
  The cache of gRPC connections, \<^verbatim>\<open>pkg/fab/comm/connector.go\<close>. Routines dial, use and release shared
  connections while a janitor closes idle ones and \<open>Close\<close> ends it all. A step of the transition system is a
  section under the lock, an operation on one of the two channels, or the observation of a connection state; a
  run of it is an interleaving of any number of routines. Connections are numbered; \<open>cells\<close> are the objects
  \<open>cachedConn\<close>, one for each connection. gRPC documents that a connection is shut down only by its \<open>Close\<close>;
  its other state changes are steps of the environment.
\<close>

datatype connectivity = Idle_State | Connecting_State | Ready | TransientFailure | Shutdown

record cachedConn =
  target :: string
  openCount :: nat
  lastClose :: int

text \<open>What a routine is doing. \<open>Using\<close>: \<open>DialContext\<close> returned the connection and it is not released yet.\<close>

datatype pc =
    NotDialing
  | DialWait nat
  | DialFailed nat
  | DialOpened nat
  | Using nat
  | CloseChecked
  | CloseWaiting
  | CloseFlush

datatype janitor_pc = JanitorLoop | JanitorEmpty

record connector =
  conns :: "string \<rightharpoonup> nat"
  connIndex :: "nat list"
  cells :: "nat \<Rightarrow> cachedConn"
  grpcState :: "nat \<Rightarrow> connectivity"
  nextConn :: nat
  janitorClosed :: nat
  janitorClosedClosed :: bool
  janitorDone :: nat
  connectorClosed :: bool
  janitors :: "janitor_pc list"
  routines :: "nat \<Rightarrow> pc"
  panicked :: bool
  now :: int

definition NewCachingConnector :: connector where
  "NewCachingConnector = \<lparr>conns = Map.empty, connIndex = [], cells = (\<lambda>_. \<lparr>target = '''', openCount = 0, lastClose = 0\<rparr>),
     grpcState = (\<lambda>_. Idle_State), nextConn = 0, janitorClosed = 1, janitorClosedClosed = False, janitorDone = 0, connectorClosed = False,
     janitors = [], routines = (\<lambda>_. NotDialing), panicked = False, now = 0\<rparr>"

definition goto :: "nat \<Rightarrow> pc \<Rightarrow> connector \<Rightarrow> connector" where
  "goto t p s = s\<lparr>routines := (routines s)(t := p)\<rparr>"

section \<open>Sections under the lock\<close>

text \<open>Receiving from a closed channel succeeds at once, so after \<open>Close\<close> a janitor is always started.\<close>

definition ensureJanitorStarted :: "connector \<Rightarrow> connector" where
  "ensureJanitorStarted s =
     (if janitorClosed s > 0 then s\<lparr>janitorClosed := janitorClosed s - 1, janitors := janitors s @ [JanitorLoop]\<rparr>
      else if janitorClosedClosed s then s\<lparr>janitors := janitors s @ [JanitorLoop]\<rparr> else s)"

definition setClosed :: "nat \<Rightarrow> connector \<Rightarrow> connector" where
  "setClosed c s =
     (if openCount (cells s c) > 0
      then s\<lparr>cells := (cells s)(c := (cells s c)\<lparr>openCount := openCount (cells s c) - 1, lastClose := now s\<rparr>)\<rparr> else s)"

definition grpc_Close :: "nat \<Rightarrow> connector \<Rightarrow> connector" where
  "grpc_Close c s = s\<lparr>grpcState := (grpcState s)(c := Shutdown)\<rparr>"

definition removeConn :: "nat \<Rightarrow> connector \<Rightarrow> connector" where
  "removeConn c s = grpc_Close c (s\<lparr>connIndex := removeAll c (connIndex s), conns := (conns s)(target (cells s c) := None)\<rparr>)"

definition shutdownConn :: "nat \<Rightarrow> connector \<Rightarrow> connector" where
  "shutdownConn c s =
     (if connectorClosed s then s
      else ensureJanitorStarted (s\<lparr>conns := (conns s)(target (cells s c) := None), connIndex := removeAll c (connIndex s)\<rparr>))"

definition loadConn :: "string \<Rightarrow> connector \<Rightarrow> nat option \<times> connector" where
  "loadConn tgt s =
     (case conns s tgt of
        None \<Rightarrow> (None, s)
      | Some c \<Rightarrow>
         if grpcState s c \<noteq> Shutdown
         then (Some c, s\<lparr>cells := (cells s)(c := (cells s c)\<lparr>openCount := openCount (cells s c) + 1\<rparr>)\<rparr>)
         else (None, shutdownConn c s))"

text \<open>\<open>dialed\<close> is what \<open>grpc.DialContext\<close> returns: an error or a new connection.\<close>

definition createConn :: "string \<Rightarrow> error option \<Rightarrow> connector \<Rightarrow> (error + nat) \<times> connector" where
  "createConn tgt dialErr s =
     (if connectorClosed s then (Inl (ErrNew ''caching connector is closed''), s)
      else
       (case loadConn tgt s of
          (Some c, s1) \<Rightarrow> (Inr c, s1)
        | (None, s1) \<Rightarrow>
           (case dialErr of
              Some e \<Rightarrow> (Inl (ErrWithMessage ''dialing node failed'' e), s1)
            | None \<Rightarrow>
               (let c = nextConn s1 in
                (Inr c, s1\<lparr>nextConn := Suc c, cells := (cells s1)(c := \<lparr>target = tgt, openCount = 1, lastClose = 0\<rparr>),
                   conns := (conns s1)(tgt \<mapsto> c), connIndex := connIndex s1 @ [c], grpcState := (grpcState s1)(c := Idle_State)\<rparr>)))))"

definition sweepable :: "int \<Rightarrow> connector \<Rightarrow> nat \<Rightarrow> bool" where
  "sweepable idleTime s c \<longleftrightarrow> (openCount (cells s c) = 0 \<and> now s > lastClose (cells s c) + idleTime) \<or> grpcState s c = Shutdown"

definition sweepAndRemove :: "int \<Rightarrow> connector \<Rightarrow> connector" where
  "sweepAndRemove idleTime s = fold (\<lambda>c s1. if sweepable idleTime s1 c then removeConn c s1 else s1) (connIndex s) s"

definition connector_flush :: "connector \<Rightarrow> connector" where
  "connector_flush s = fold grpc_Close (connIndex s) s"

section \<open>The routines\<close>

definition ReleaseConn :: "nat \<Rightarrow> connector \<Rightarrow> connector" where
  "ReleaseConn c s =
     (if connectorClosed s then (if grpcState s c \<noteq> Shutdown then grpc_Close c s else s)
      else if c \<notin> set (connIndex s) then s
      else ensureJanitorStarted (setClosed c s))"

text \<open>The last section of \<open>Close\<close>: closing a closed channel, or a nil one, panics.\<close>

definition closeSection :: "connector \<Rightarrow> connector" where
  "closeSection s =
     (let s1 = connector_flush s in
      if janitorClosedClosed s1 \<or> connectorClosed s1 then s1\<lparr>panicked := True\<rparr>
      else s1\<lparr>janitorClosedClosed := True, connectorClosed := True\<rparr>)"

text \<open>Rules \<open>dial\<close> to \<open>released\<close> are \<open>DialContext\<close> with \<open>openConn\<close> and \<open>waitConn\<close>, and \<open>ReleaseConn\<close>; rules \<open>close_check\<close> to
  \<open>close_flush\<close> are \<open>Close\<close>; the janitor has three rules, and the last two are the environment. A janitor sees
  the channel \<open>janitorDone\<close> closed only if it waited on it before the field was set to nil.\<close>

inductive conn_step :: "int \<Rightarrow> connector \<Rightarrow> connector \<Rightarrow> bool" for idleTime :: int where
  dial_error: "routines s t = NotDialing \<Longrightarrow> createConn tgt dialErr s = (Inl e, s1) \<Longrightarrow> conn_step idleTime s s1"
| dial: "routines s t = NotDialing \<Longrightarrow> createConn tgt dialErr s = (Inr c, s1) \<Longrightarrow> conn_step idleTime s (goto t (DialWait c) s1)"
| wait_ready: "routines s t = DialWait c \<Longrightarrow> grpcState s c = Ready \<Longrightarrow> conn_step idleTime s (goto t (DialOpened c) s)"
| wait_failed: "routines s t = DialWait c \<Longrightarrow> grpcState s c \<noteq> Ready \<Longrightarrow> conn_step idleTime s (goto t (DialFailed c) s)"
| dial_failed: "routines s t = DialFailed c \<Longrightarrow> conn_step idleTime s (goto t NotDialing (removeConn c (setClosed c s)))"
| opened: "routines s t = DialOpened c \<Longrightarrow> conn_step idleTime s (goto t (Using c) (ensureJanitorStarted s))"
| released: "routines s t = Using c \<Longrightarrow> conn_step idleTime s (goto t NotDialing (ReleaseConn c s))"
| close_check: "routines s t = NotDialing \<Longrightarrow> \<not> connectorClosed s \<Longrightarrow> conn_step idleTime s (goto t CloseChecked s)"
| close_no_janitor: "routines s t = CloseChecked \<Longrightarrow> janitorClosed s > 0 \<or> janitorClosedClosed s \<Longrightarrow>
    conn_step idleTime s (goto t CloseFlush (s\<lparr>janitorClosed := janitorClosed s - 1\<rparr>))"
| close_stop_janitor: "routines s t = CloseChecked \<Longrightarrow> janitorClosed s = 0 \<Longrightarrow> \<not> janitorClosedClosed s \<Longrightarrow> janitorDone s = 0 \<Longrightarrow>
    conn_step idleTime s (goto t CloseWaiting (s\<lparr>janitorDone := 1\<rparr>))"
| close_waited: "routines s t = CloseWaiting \<Longrightarrow> janitors s = [] \<Longrightarrow> conn_step idleTime s (goto t CloseFlush s)"
| close_flush: "routines s t = CloseFlush \<Longrightarrow> conn_step idleTime s (goto t NotDialing (closeSection s))"
| janitor_done: "janitors s = js1 @ JanitorLoop # js2 \<Longrightarrow> janitorDone s > 0 \<or> connectorClosed s \<Longrightarrow>
    conn_step idleTime s (s\<lparr>janitors := js1 @ js2, janitorDone := janitorDone s - 1\<rparr>)"
| janitor_sweep: "janitors s = js1 @ JanitorLoop # js2 \<Longrightarrow> s1 = sweepAndRemove idleTime s \<Longrightarrow>
    conn_step idleTime s (s1\<lparr>janitors := js1 @ (if connIndex s1 = [] then JanitorEmpty else JanitorLoop) # js2\<rparr>)"
| janitor_exit: "janitors s = js1 @ JanitorEmpty # js2 \<Longrightarrow> janitorClosedClosed s \<or> janitorClosed s = 0 \<Longrightarrow>
    conn_step idleTime s (if janitorClosedClosed s then s\<lparr>panicked := True\<rparr>
      else s\<lparr>janitors := js1 @ js2, janitorClosed := 1\<rparr>)"
| connection_changes: "grpcState s c \<noteq> Shutdown \<Longrightarrow> g \<noteq> Shutdown \<Longrightarrow> conn_step idleTime s (s\<lparr>grpcState := (grpcState s)(c := g)\<rparr>)"
| time_passes: "t > now s \<Longrightarrow> conn_step idleTime s (s\<lparr>now := t\<rparr>)"

inductive conn_reach :: "int \<Rightarrow> connector \<Rightarrow> bool" for idleTime :: int where
  start: "conn_reach idleTime NewCachingConnector"
| step: "conn_reach idleTime s \<Longrightarrow> conn_step idleTime s s' \<Longrightarrow> conn_reach idleTime s'"

inductive_cases conn_stepE: "conn_step idleTime s s'"

section \<open>No connection is lost\<close>

definition conn_ok :: "connector \<Rightarrow> bool" where
  "conn_ok s \<longleftrightarrow> (\<forall>c \<in> set (connIndex s). c < nextConn s) \<and>
     (\<forall>tgt c. conns s tgt = Some c \<longrightarrow> c \<in> set (connIndex s) \<and> target (cells s c) = tgt) \<and>
     (\<forall>c < nextConn s. c \<notin> set (connIndex s) \<longrightarrow> grpcState s c = Shutdown) \<and>
     (connectorClosed s \<longrightarrow> (\<forall>c < nextConn s. grpcState s c = Shutdown))"

text \<open>The lemmas on one operation each: it keeps \<open>conn_ok\<close>, and what else it changes.\<close>

lemma goto_simps [simp]:
  "conns (goto t p s) = conns s" "connIndex (goto t p s) = connIndex s" "cells (goto t p s) = cells s"
  "grpcState (goto t p s) = grpcState s" "nextConn (goto t p s) = nextConn s" "connectorClosed (goto t p s) = connectorClosed s"
  "janitors (goto t p s) = janitors s" "panicked (goto t p s) = panicked s" "janitorClosed (goto t p s) = janitorClosed s"
  "janitorClosedClosed (goto t p s) = janitorClosedClosed s" "janitorDone (goto t p s) = janitorDone s"
  "routines (goto t p s) = (routines s)(t := p)" "now (goto t p s) = now s"
  by (simp_all add: goto_def)

lemma ensureJanitorStarted_simps [simp]:
  "conns (ensureJanitorStarted s) = conns s" "connIndex (ensureJanitorStarted s) = connIndex s" "cells (ensureJanitorStarted s) = cells s"
  "grpcState (ensureJanitorStarted s) = grpcState s" "nextConn (ensureJanitorStarted s) = nextConn s"
  "connectorClosed (ensureJanitorStarted s) = connectorClosed s" "panicked (ensureJanitorStarted s) = panicked s"
  "routines (ensureJanitorStarted s) = routines s" "janitorClosedClosed (ensureJanitorStarted s) = janitorClosedClosed s"
  "janitorDone (ensureJanitorStarted s) = janitorDone s" "now (ensureJanitorStarted s) = now s"
  by (simp_all add: ensureJanitorStarted_def)

lemma setClosed_simps [simp]:
  "conns (setClosed c s) = conns s" "connIndex (setClosed c s) = connIndex s" "target (cells (setClosed c s) d) = target (cells s d)"
  "grpcState (setClosed c s) = grpcState s" "nextConn (setClosed c s) = nextConn s" "connectorClosed (setClosed c s) = connectorClosed s"
  "panicked (setClosed c s) = panicked s" "routines (setClosed c s) = routines s" "janitors (setClosed c s) = janitors s"
  "janitorClosed (setClosed c s) = janitorClosed s" "janitorClosedClosed (setClosed c s) = janitorClosedClosed s"
  "janitorDone (setClosed c s) = janitorDone s" "now (setClosed c s) = now s"
  "openCount (cells (setClosed c s) d) = openCount (cells s d) - (if d = c then 1 else 0)"
  by (simp_all add: setClosed_def)

lemma removeConn_simps [simp]:
  "conns (removeConn c s) = (conns s)(target (cells s c) := None)" "connIndex (removeConn c s) = removeAll c (connIndex s)"
  "cells (removeConn c s) = cells s" "grpcState (removeConn c s) = (grpcState s)(c := Shutdown)" "nextConn (removeConn c s) = nextConn s"
  "connectorClosed (removeConn c s) = connectorClosed s" "panicked (removeConn c s) = panicked s" "routines (removeConn c s) = routines s"
  "janitors (removeConn c s) = janitors s" "janitorClosed (removeConn c s) = janitorClosed s"
  "janitorClosedClosed (removeConn c s) = janitorClosedClosed s" "janitorDone (removeConn c s) = janitorDone s" "now (removeConn c s) = now s"
  by (simp_all add: removeConn_def grpc_Close_def)

lemma removeConn_ok: "conn_ok s \<Longrightarrow> conn_ok (removeConn c s)"
  unfolding conn_ok_def by (auto split: if_splits)

lemma setClosed_ok: "conn_ok s \<Longrightarrow> conn_ok (setClosed c s)"
  unfolding conn_ok_def by simp

lemma ensureJanitorStarted_ok: "conn_ok s \<Longrightarrow> conn_ok (ensureJanitorStarted s)"
  unfolding conn_ok_def by simp

lemma grpc_Close_ok: "conn_ok s \<Longrightarrow> conn_ok (grpc_Close c s)"
  unfolding conn_ok_def by (auto simp: grpc_Close_def)

lemma goto_ok: "conn_ok s \<Longrightarrow> conn_ok (goto t p s)"
  unfolding conn_ok_def by simp

lemma shutdownConn_ok: "conn_ok s \<Longrightarrow> grpcState s c = Shutdown \<Longrightarrow> conn_ok (shutdownConn c s)"
  unfolding conn_ok_def shutdownConn_def by (auto split: if_splits)

lemma loadConn_ok: "conn_ok s \<Longrightarrow> loadConn tgt s = (r, s1) \<Longrightarrow> conn_ok s1"
proof (cases "\<exists>c. conns s tgt = Some c \<and> grpcState s c \<noteq> Shutdown")
  case True
  assume "conn_ok s" "loadConn tgt s = (r, s1)"
  moreover from this True have "conns s1 = conns s" "connIndex s1 = connIndex s" "nextConn s1 = nextConn s" "grpcState s1 = grpcState s"
    "connectorClosed s1 = connectorClosed s" "target (cells s1 d) = target (cells s d)" for d
    by (auto simp: loadConn_def)
  ultimately show ?thesis unfolding conn_ok_def by simp
next
  case False
  assume "conn_ok s" "loadConn tgt s = (r, s1)"
  then show ?thesis using False shutdownConn_ok [of s] by (auto simp: loadConn_def split: option.splits)
qed

lemma createConn_ok: "conn_ok s \<Longrightarrow> createConn tgt dialErr s = (r, s1) \<Longrightarrow> conn_ok s1"
proof -
  assume ok: "conn_ok s" and run: "createConn tgt dialErr s = (r, s1)"
  obtain q s2 where l: "loadConn tgt s = (q, s2)" by (cases "loadConn tgt s")
  have ok2: "conn_ok s2" by (rule loadConn_ok [OF ok l])
  have closed: "connectorClosed s2 = connectorClosed s"
    using l by (auto simp: loadConn_def shutdownConn_def split: option.splits if_splits)
  show ?thesis
  proof (cases "connectorClosed s \<or> q \<noteq> None \<or> dialErr \<noteq> None")
    case True
    then show ?thesis using run ok ok2 l by (auto simp: createConn_def split: if_splits option.splits)
  next
    case False
    have old: "c < nextConn s2" if "conns s2 tgt' = Some c" for c tgt' using ok2 that unfolding conn_ok_def by blast
    then show ?thesis using False run ok2 l closed unfolding conn_ok_def
      by (auto simp: createConn_def Let_def less_Suc_eq split: if_splits; fastforce)
  qed
qed

lemma sweep_invariant:
  assumes "P s" "\<And>c s. P s \<Longrightarrow> sweepable idleTime s c \<Longrightarrow> P (removeConn c s)"
  shows "P (sweepAndRemove idleTime s)"
proof -
  have "P s1 \<Longrightarrow> P (fold (\<lambda>c s1. if sweepable idleTime s1 c then removeConn c s1 else s1) cs s1)" for cs s1
    by (induction cs arbitrary: s1) (auto intro: assms(2))
  then show ?thesis using assms(1) by (simp add: sweepAndRemove_def)
qed

lemma flush_simps [simp]:
  "conns (connector_flush s) = conns s" "connIndex (connector_flush s) = connIndex s" "cells (connector_flush s) = cells s"
  "grpcState (connector_flush s) c = (if c \<in> set (connIndex s) then Shutdown else grpcState s c)" "nextConn (connector_flush s) = nextConn s"
  "connectorClosed (connector_flush s) = connectorClosed s" "panicked (connector_flush s) = panicked s"
  "routines (connector_flush s) = routines s" "janitors (connector_flush s) = janitors s"
  "janitorClosed (connector_flush s) = janitorClosed s" "janitorClosedClosed (connector_flush s) = janitorClosedClosed s"
  "janitorDone (connector_flush s) = janitorDone s"
proof -
  have f: "fold grpc_Close cs s1 = s1\<lparr>grpcState := (\<lambda>c. if c \<in> set cs then Shutdown else grpcState s1 c)\<rparr>" for cs s1
  proof (induction cs arbitrary: s1)
    case (Cons c cs)
    show ?case unfolding fold_simps(2) Cons by (auto simp: grpc_Close_def fun_eq_iff intro!: connector.equality)
  qed simp
  show "conns (connector_flush s) = conns s" "connIndex (connector_flush s) = connIndex s" "cells (connector_flush s) = cells s"
    "grpcState (connector_flush s) c = (if c \<in> set (connIndex s) then Shutdown else grpcState s c)" "nextConn (connector_flush s) = nextConn s"
    "connectorClosed (connector_flush s) = connectorClosed s" "panicked (connector_flush s) = panicked s"
    "routines (connector_flush s) = routines s" "janitors (connector_flush s) = janitors s"
    "janitorClosed (connector_flush s) = janitorClosed s" "janitorClosedClosed (connector_flush s) = janitorClosedClosed s"
    "janitorDone (connector_flush s) = janitorDone s"
    by (simp_all add: connector_flush_def f)
qed

lemma closeSection_ok: "conn_ok s \<Longrightarrow> conn_ok (closeSection s)"
  unfolding conn_ok_def closeSection_def by (auto simp: Let_def)

lemma ReleaseConn_ok: "conn_ok s \<Longrightarrow> conn_ok (ReleaseConn c s)"
  by (auto simp: ReleaseConn_def intro: grpc_Close_ok ensureJanitorStarted_ok setClosed_ok)

lemma conn_ok_other [simp]:
  "conn_ok (s\<lparr>janitorClosed := a\<rparr>) = conn_ok s" "conn_ok (s\<lparr>janitorDone := a\<rparr>) = conn_ok s" "conn_ok (s\<lparr>janitors := js\<rparr>) = conn_ok s"
  "conn_ok (s\<lparr>panicked := b\<rparr>) = conn_ok s" "conn_ok (s\<lparr>now := u\<rparr>) = conn_ok s"
  by (simp_all add: conn_ok_def)

lemma connection_changes_ok: "conn_ok s \<Longrightarrow> grpcState s c \<noteq> Shutdown \<Longrightarrow> conn_ok (s\<lparr>grpcState := (grpcState s)(c := g)\<rparr>)"
  unfolding conn_ok_def by auto

lemmas conn_ok_intros = connection_changes_ok goto_ok ensureJanitorStarted_ok ReleaseConn_ok closeSection_ok removeConn_ok setClosed_ok

lemma conn_step_ok:
  assumes "conn_step idleTime s s'" "conn_ok s"
  shows "conn_ok s'"
  using assms
proof cases
  case (dial_error t tgt dialErr e)
  then show ?thesis using assms(2) createConn_ok by blast
next
  case (dial t tgt dialErr c s1)
  then show ?thesis using assms(2) createConn_ok goto_ok by blast
next
  case (janitor_sweep js1 js2 s1)
  then have "conn_ok s1" using sweep_invariant [where P = conn_ok] assms(2) removeConn_ok by blast
  then show ?thesis using janitor_sweep by simp
qed (use assms(2) in \<open>auto intro!: conn_ok_intros\<close>)

section \<open>Counting the users of a connection\<close>

fun holds :: "pc \<Rightarrow> nat \<Rightarrow> bool" where
  "holds (DialWait d) c = (d = c)"
| "holds (DialFailed d) c = (d = c)"
| "holds (DialOpened d) c = (d = c)"
| "holds (Using d) c = (d = c)"
| "holds _ c = False"

definition holders :: "connector \<Rightarrow> nat \<Rightarrow> nat set" where
  "holders s c = {t. holds (routines s t) c}"

definition counts_ok :: "connector \<Rightarrow> bool" where
  "counts_ok s \<longleftrightarrow> finite {t. routines s t \<noteq> NotDialing} \<and> (\<forall>c. holders s c \<noteq> {} \<longrightarrow> c < nextConn s) \<and>
     (\<not> connectorClosed s \<longrightarrow> (\<forall>c \<in> set (connIndex s). openCount (cells s c) = card (holders s c)))"

lemma holders_goto: "holders (goto t p s) c = (if holds p c then insert t (holders s c) else holders s c - {t})"
  by (auto simp: holders_def)

lemma finite_holders: "finite {t. routines s t \<noteq> NotDialing} \<Longrightarrow> finite (holders s c)"
  by (rule finite_subset [rotated]) (auto simp: holders_def)

lemma finite_goto: "finite {t. routines s t \<noteq> NotDialing} \<Longrightarrow> finite {u. ((routines s)(t := p)) u \<noteq> NotDialing}"
  by (rule finite_subset [of _ "insert t {t. routines s t \<noteq> NotDialing}"]) auto

text \<open>What a step does to the counts: the routine \<open>t\<close> moves from \<open>p\<close> to \<open>q\<close>, connections may leave the index, and
  the count of a connection changes as the routine lets go of it or takes it.\<close>

definition takes :: "pc \<Rightarrow> nat \<Rightarrow> nat" where
  "takes p c = (if holds p c then 1 else 0)"

lemma counts_step:
  assumes "counts_ok s" and s': "routines s' = (routines s)(t := q)"
    and idx: "set (connIndex s') \<subseteq> set (connIndex s)" "nextConn s' = nextConn s" "connectorClosed s' \<longleftrightarrow> connectorClosed s"
    and cnt: "\<And>c. \<not> connectorClosed s \<Longrightarrow> c \<in> set (connIndex s') \<Longrightarrow>
      openCount (cells s' c) = openCount (cells s c) + takes q c - takes (routines s t) c"
    and old: "\<And>c. holds q c \<Longrightarrow> c < nextConn s"
  shows "counts_ok s'"
proof -
  have f: "finite {t. routines s t \<noteq> NotDialing}" and b: "\<And>c. holders s c \<noteq> {} \<Longrightarrow> c < nextConn s"
    and n: "\<And>c. \<not> connectorClosed s \<Longrightarrow> c \<in> set (connIndex s) \<Longrightarrow> openCount (cells s c) = card (holders s c)"
    using assms(1) unfolding counts_ok_def by blast+
  have h: "holders s' c = (if holds q c then insert t (holders s c) else holders s c - {t})" for c
    using s' by (auto simp: holders_def)
  have card: "card (holders s' c) = card (holders s c) + takes q c - takes (routines s t) c" for c
  proof -
    have "t \<in> holders s c \<longleftrightarrow> holds (routines s t) c" by (simp add: holders_def)
    then show ?thesis unfolding h takes_def using finite_holders [OF f, of c]
      by (auto simp: card_Diff_singleton insert_absorb card_insert_if)
  qed
  show ?thesis unfolding counts_ok_def
  proof (intro conjI allI impI ballI)
    show "finite {t. routines s' t \<noteq> NotDialing}" unfolding s' by (rule finite_goto [OF f])
    show "c < nextConn s'" if "holders s' c \<noteq> {}" for c
      using that b [of c] old [of c] unfolding h idx by (auto split: if_splits)
    show "openCount (cells s' c) = card (holders s' c)" if "\<not> connectorClosed s'" "c \<in> set (connIndex s')" for c
      using that n [of c] cnt [of c] idx(1,3) card [of c] by auto
  qed
qed

lemma counts_other:
  assumes "counts_ok s" "routines s' = routines s" "set (connIndex s') \<subseteq> set (connIndex s)" "nextConn s' = nextConn s"
    "connectorClosed s' \<longleftrightarrow> connectorClosed s" "cells s' = cells s"
  shows "counts_ok s'"
  using assms unfolding counts_ok_def holders_def by auto

lemma sweepAndRemove_simps [simp]:
  "routines (sweepAndRemove idleTime s) = routines s" "nextConn (sweepAndRemove idleTime s) = nextConn s"
  "connectorClosed (sweepAndRemove idleTime s) = connectorClosed s" "cells (sweepAndRemove idleTime s) = cells s"
  "panicked (sweepAndRemove idleTime s) = panicked s" "janitorClosed (sweepAndRemove idleTime s) = janitorClosed s"
  "janitorClosedClosed (sweepAndRemove idleTime s) = janitorClosedClosed s" "janitorDone (sweepAndRemove idleTime s) = janitorDone s"
  "janitors (sweepAndRemove idleTime s) = janitors s"
  by (rule sweep_invariant; simp)+

lemma sweepAndRemove_index: "set (connIndex (sweepAndRemove idleTime s)) \<subseteq> set (connIndex s)"
  by (rule sweep_invariant) auto

lemma loadConn_counts:
  assumes "counts_ok s" "conn_ok s" "loadConn tgt s = (r, s1)"
  shows "case r of None \<Rightarrow> counts_ok s1 \<and> conn_ok s1 \<and> routines s1 = routines s \<and> connectorClosed s1 = connectorClosed s
    | Some c \<Rightarrow> (\<forall>t. routines s t = NotDialing \<longrightarrow> counts_ok (goto t (DialWait c) s1)) \<and> c < nextConn s"
proof (cases r)
  case None
  have "conn_ok s1" by (rule loadConn_ok [OF assms(2,3)])
  moreover have "routines s1 = routines s" "connectorClosed s1 = connectorClosed s" "cells s1 = cells s" "nextConn s1 = nextConn s"
    "set (connIndex s1) \<subseteq> set (connIndex s)"
    using assms(3) None by (auto simp: loadConn_def shutdownConn_def split: option.splits if_splits)
  ultimately show ?thesis using counts_other [OF assms(1)] None by simp
next
  case (Some c)
  then have c: "conns s tgt = Some c" and s1: "s1 = s\<lparr>cells := (cells s)(c := (cells s c)\<lparr>openCount := openCount (cells s c) + 1\<rparr>)\<rparr>"
    using assms(3) by (auto simp: loadConn_def split: option.splits if_splits)
  have lt: "c < nextConn s" using c assms(2) unfolding conn_ok_def by blast
  have "counts_ok (goto t (DialWait c) s1)" if "routines s t = NotDialing" for t
    by (rule counts_step [OF assms(1), where t = t and q = "DialWait c"]) (use that lt in \<open>auto simp: s1 takes_def\<close>)
  then show ?thesis using Some lt by simp
qed

lemma createConn_counts:
  assumes "counts_ok s" "conn_ok s" "createConn tgt dialErr s = (r, s1)"
  shows "case r of Inl e \<Rightarrow> counts_ok s1 | Inr c \<Rightarrow> (\<forall>t. routines s t = NotDialing \<longrightarrow> counts_ok (goto t (DialWait c) s1))"
proof -
  obtain q s2 where l: "loadConn tgt s = (q, s2)" by (cases "loadConn tgt s")
  note lc = loadConn_counts [OF assms(1,2) l]
  consider "connectorClosed s" | c where "\<not> connectorClosed s" "q = Some c" | e where "\<not> connectorClosed s" "q = None" "dialErr = Some e"
    | "\<not> connectorClosed s" "q = None" "dialErr = None" by (cases q; cases dialErr) auto
  then show ?thesis
  proof cases
    case 4
    let ?c = "nextConn s2"
    have ok: "counts_ok s2" "conn_ok s2" and same: "routines s2 = routines s" "connectorClosed s2 = connectorClosed s" using lc 4 by auto
    have r: "r = Inr ?c" and s1: "s1 = s2\<lparr>nextConn := Suc ?c, cells := (cells s2)(?c := \<lparr>target = tgt, openCount = 1, lastClose = 0\<rparr>),
        conns := (conns s2)(tgt \<mapsto> ?c), connIndex := connIndex s2 @ [?c], grpcState := (grpcState s2)(?c := Idle_State)\<rparr>"
      using assms(3) l 4 by (auto simp: createConn_def Let_def)
    have "counts_ok (goto t (DialWait ?c) s1)" if t: "routines s t = NotDialing" for t
    proof -
      have f: "finite {t. routines s2 t \<noteq> NotDialing}" and b: "\<And>c. holders s2 c \<noteq> {} \<Longrightarrow> c < ?c"
        and n: "\<And>c. \<not> connectorClosed s2 \<Longrightarrow> c \<in> set (connIndex s2) \<Longrightarrow> openCount (cells s2 c) = card (holders s2 c)"
        using ok(1) unfolding counts_ok_def by blast+
      have lt: "\<And>c. c \<in> set (connIndex s2) \<Longrightarrow> c < ?c" using ok(2) unfolding conn_ok_def by blast
      have new: "holders s2 ?c = {}" using b [of ?c] by auto
      have h: "holders (goto t (DialWait ?c) s1) d = (if d = ?c then insert t (holders s2 d) else holders s2 d)" for d
        using t same by (auto simp: holders_def s1)
      show ?thesis unfolding counts_ok_def h
      proof (intro conjI allI impI ballI)
        show "finite {u. routines (goto t (DialWait ?c) s1) u \<noteq> NotDialing}" using finite_goto [OF f] by (simp add: s1)
        show "d < nextConn (goto t (DialWait ?c) s1)" if "(if d = ?c then insert t (holders s2 d) else holders s2 d) \<noteq> {}" for d
          using that b [of d] by (auto simp: s1 split: if_splits)
        show "openCount (cells (goto t (DialWait ?c) s1) d) = card (if d = ?c then insert t (holders s2 d) else holders s2 d)"
          if "\<not> connectorClosed (goto t (DialWait ?c) s1)" "d \<in> set (connIndex (goto t (DialWait ?c) s1))" for d
          using that n [of d] lt [of d] new by (auto simp: s1)
      qed
    qed
    then show ?thesis using r by simp
  qed (use assms l lc in \<open>auto simp: createConn_def\<close>)
qed

lemma counts_closed:
  assumes "counts_ok s" "routines s' = (routines s)(t := NotDialing)" "nextConn s' = nextConn s" "connectorClosed s'"
  shows "counts_ok s'"
proof -
  have "finite {u. routines s' u \<noteq> NotDialing}" unfolding assms(2) using assms(1) by (intro finite_goto) (simp add: counts_ok_def)
  then show ?thesis using assms unfolding counts_ok_def by (auto simp: holders_def)
qed

lemma conn_step_counts:
  assumes step: "conn_step idleTime s s'" and ok: "counts_ok s" "conn_ok s"
  shows "counts_ok s'"
  using step
proof cases
  case (dial_error t tgt dialErr e)
  then show ?thesis using createConn_counts [OF ok] by fastforce
next
  case (dial t tgt dialErr c s1)
  then show ?thesis using createConn_counts [OF ok dial(3)] by simp
next
  case (wait_ready t c)
  have "c < nextConn s" using ok(1) wait_ready(2) unfolding counts_ok_def holders_def by (metis empty_Collect_eq holds.simps(1))
  then show ?thesis using wait_ready by (intro counts_step [OF ok(1), where t = t and q = "DialOpened c"]) (auto simp: takes_def)
next
  case (wait_failed t c)
  have "c < nextConn s" using ok(1) wait_failed(2) unfolding counts_ok_def holders_def by (metis empty_Collect_eq holds.simps(1))
  then show ?thesis using wait_failed by (intro counts_step [OF ok(1), where t = t and q = "DialFailed c"]) (auto simp: takes_def)
next
  case (dial_failed t c)
  then show ?thesis by (intro counts_step [OF ok(1), where t = t and q = NotDialing]) (auto simp: takes_def)
next
  case (opened t c)
  have "c < nextConn s" using ok(1) opened(2) unfolding counts_ok_def holders_def by (metis empty_Collect_eq holds.simps(3))
  then show ?thesis using opened by (intro counts_step [OF ok(1), where t = t and q = "Using c"]) (auto simp: takes_def)
next
  case (released t c)
  then show ?thesis
    by (intro counts_step [OF ok(1), where t = t and q = NotDialing]) (auto simp: takes_def ReleaseConn_def grpc_Close_def split: if_splits)
next
  case (close_check t)
  then show ?thesis by (intro counts_step [OF ok(1), where t = t and q = CloseChecked]) (auto simp: takes_def)
next
  case (close_no_janitor t)
  then show ?thesis by (intro counts_step [OF ok(1), where t = t and q = CloseFlush]) (auto simp: takes_def)
next
  case (close_stop_janitor t)
  then show ?thesis by (intro counts_step [OF ok(1), where t = t and q = CloseWaiting]) (auto simp: takes_def)
next
  case (close_waited t)
  then show ?thesis by (intro counts_step [OF ok(1), where t = t and q = CloseFlush]) (auto simp: takes_def)
next
  case (close_flush t)
  show ?thesis
  proof (cases "janitorClosedClosed s \<or> connectorClosed s")
    case True
    then show ?thesis using close_flush
      by (intro counts_step [OF ok(1), where t = t and q = NotDialing]) (auto simp: takes_def closeSection_def Let_def)
  next
    case False
    then show ?thesis using close_flush by (intro counts_closed [OF ok(1), of _ t]) (auto simp: closeSection_def Let_def)
  qed
next
  case (janitor_sweep js1 js2 s1)
  then show ?thesis using sweepAndRemove_index by (intro counts_other [OF ok(1)]) auto
qed (auto intro!: counts_other [OF ok(1)])

lemma conn_reach_ok: "conn_reach idleTime s \<Longrightarrow> conn_ok s \<and> counts_ok s"
proof (induction rule: conn_reach.induct)
  case start
  show ?case by (simp add: conn_ok_def counts_ok_def holders_def NewCachingConnector_def)
next
  case (step s s')
  then show ?case using conn_step_ok conn_step_counts by blast
qed

section \<open>Guarantees of the connector\<close>

text \<open>
  C10. No connection is lost. However routines dial, release and close, and whenever the janitor sweeps: a cached
  connection is indexed under the target it was dialed for, every connection that is no longer in the index has
  been closed, and once the connector is closed all connections are.
\<close>

theorem connector_no_leak:
  assumes "conn_reach idleTime s"
  shows "(\<forall>tgt c. conns s tgt = Some c \<longrightarrow> c \<in> set (connIndex s) \<and> target (cells s c) = tgt) \<and>
    (\<forall>c < nextConn s. c \<notin> set (connIndex s) \<or> connectorClosed s \<longrightarrow> grpcState s c = Shutdown)"
  using conn_reach_ok [OF assms] unfolding conn_ok_def by blast

text \<open>What can close a connection that is in use.\<close>

lemma sweep_closes_unused:
  assumes "grpcState (sweepAndRemove idleTime s) c = Shutdown" "grpcState s c \<noteq> Shutdown"
  shows "c \<in> set (connIndex s) \<and> openCount (cells s c) = 0 \<and> now s > lastClose (cells s c) + idleTime"
proof -
  have "grpcState (fold (\<lambda>c s1. if sweepable idleTime s1 c then removeConn c s1 else s1) cs s1) c = Shutdown \<Longrightarrow>
      grpcState s1 c \<noteq> Shutdown \<Longrightarrow> c \<in> set cs \<and> openCount (cells s1 c) = 0 \<and> now s1 > lastClose (cells s1 c) + idleTime" for cs s1
  proof (induction cs arbitrary: s1)
    case (Cons d cs)
    show ?case
    proof (cases "sweepable idleTime s1 d \<and> d = c")
      case True
      then show ?thesis using Cons.prems(2) by (auto simp: sweepable_def)
    next
      case False
      then show ?thesis using Cons.IH [of "if sweepable idleTime s1 d then removeConn d s1 else s1"] Cons.prems by (auto split: if_splits)
    qed
  qed simp
  then show ?thesis using assms by (simp add: sweepAndRemove_def)
qed

lemma createConn_state:
  assumes "createConn tgt dialErr s = (r, s1)" "c < nextConn s"
  shows "grpcState s1 c = grpcState s c"
proof -
  obtain q s2 where l: "loadConn tgt s = (q, s2)" by (cases "loadConn tgt s")
  then have "grpcState s2 = grpcState s" "nextConn s2 = nextConn s"
    by (auto simp: loadConn_def shutdownConn_def split: option.splits if_splits)
  then show ?thesis using assms l by (auto simp: createConn_def Let_def split: if_splits option.splits)
qed

text \<open>
  C11. A connection in use stays open. Between the return of \<open>DialContext\<close> and the release, a connection is not
  closed by the janitor or by the other users of it: it can only be closed by a routine whose own dialing of the same
  connection failed, or when the connector is being closed. The count of a cached connection is the number of
  routines that hold it.
\<close>

theorem connector_use_safe:
  assumes reach: "conn_reach idleTime s" and step: "conn_step idleTime s s'" and using_c: "routines s t = Using c"
    and closes: "grpcState s c \<noteq> Shutdown" "grpcState s' c = Shutdown"
  shows "((\<exists>u. routines s u = DialFailed c) \<or> (\<exists>u. routines s u = CloseFlush)) \<and>
    openCount (cells s c) = card (holders s c) \<and> 0 < openCount (cells s c)"
proof -
  have ok: "conn_ok s" "counts_ok s" using conn_reach_ok [OF reach] by auto
  have t: "t \<in> holders s c" using using_c by (simp add: holders_def)
  then have lt: "c < nextConn s" using ok(2) unfolding counts_ok_def by blast
  then have open1: "\<not> connectorClosed s" and idx: "c \<in> set (connIndex s)" using ok(1) closes(1) unfolding conn_ok_def by blast+
  have card: "openCount (cells s c) = card (holders s c)" using ok(2) open1 idx unfolding counts_ok_def by blast
  have "finite (holders s c)" using ok(2) finite_holders unfolding counts_ok_def by blast
  then have pos: "0 < openCount (cells s c)" using card t by (auto simp: card_gt_0_iff)
  have "(\<exists>u. routines s u = DialFailed c) \<or> (\<exists>u. routines s u = CloseFlush)"
    using step
  proof cases
    case (dial_error t tgt dialErr e)
    then show ?thesis using createConn_state [OF _ lt] closes by metis
  next
    case (dial t tgt dialErr c' s1)
    then show ?thesis using createConn_state [OF dial(3) lt] closes by simp
  next
    case (dial_failed u d)
    then show ?thesis using closes by (cases "d = c") auto
  next
    case (released u d)
    then show ?thesis using closes open1 by (auto simp: ReleaseConn_def split: if_splits)
  next
    case (janitor_sweep js1 js2 s1)
    then show ?thesis using closes sweep_closes_unused [of idleTime s c] pos by auto
  next
    case (connection_changes d g)
    then show ?thesis using closes by (cases "d = c") auto
  next
    case (janitor_exit js1 js2)
    then show ?thesis using closes by (auto split: if_splits)
  qed (use closes in auto)
  then show ?thesis using card pos by blast
qed

section \<open>The janitor\<close>

definition closing :: "connector \<Rightarrow> bool" where
  "closing s \<longleftrightarrow> connectorClosed s \<or> janitorClosedClosed s \<or> (\<exists>t. routines s t \<in> {CloseChecked, CloseWaiting, CloseFlush})"

definition janitor_ok :: "connector \<Rightarrow> bool" where
  "janitor_ok s \<longleftrightarrow> \<not> panicked s \<and> janitorClosed s + length (janitors s) = 1 \<and> janitorDone s = 0"

lemma closing_goto: "routines s t \<notin> {CloseChecked, CloseWaiting, CloseFlush} \<Longrightarrow> closing s \<Longrightarrow> closing (goto t p s)"
  unfolding closing_def by (auto; metis)

lemma ensureJanitorStarted_janitor: "janitor_ok s \<Longrightarrow> \<not> janitorClosedClosed s \<Longrightarrow> janitor_ok (ensureJanitorStarted s)"
  by (cases "janitors s") (auto simp: janitor_ok_def ensureJanitorStarted_def)

lemma createConn_simps:
  assumes "createConn tgt dialErr s = (r, s1)"
  shows "routines s1 = routines s" "connectorClosed s1 = connectorClosed s" "janitorClosedClosed s1 = janitorClosedClosed s"
    "janitor_ok s \<Longrightarrow> \<not> janitorClosedClosed s \<Longrightarrow> janitor_ok s1"
proof -
  obtain q s2 where l: "loadConn tgt s = (q, s2)" by (cases "loadConn tgt s")
  have j: "janitor_ok (s\<lparr>conns := a, connIndex := b\<rparr>) = janitor_ok s" for a b by (simp add: janitor_ok_def)
  have cells: "janitor_ok (s\<lparr>cells := a\<rparr>) = janitor_ok s" for a by (simp add: janitor_ok_def)
  have 2: "routines s2 = routines s \<and> connectorClosed s2 = connectorClosed s \<and> janitorClosedClosed s2 = janitorClosedClosed s \<and>
      (janitor_ok s \<longrightarrow> \<not> janitorClosedClosed s \<longrightarrow> janitor_ok s2)"
    using l ensureJanitorStarted_janitor [of "s\<lparr>conns := _, connIndex := _\<rparr>"]
    by (auto simp: loadConn_def shutdownConn_def j cells split: option.splits if_splits)
  have 3: "janitor_ok (s2\<lparr>nextConn := n, cells := a, conns := b, connIndex := d, grpcState := e\<rparr>) = janitor_ok s2" for n a b d e
    by (simp add: janitor_ok_def)
  show "routines s1 = routines s" "connectorClosed s1 = connectorClosed s" "janitorClosedClosed s1 = janitorClosedClosed s"
    "janitor_ok s \<Longrightarrow> \<not> janitorClosedClosed s \<Longrightarrow> janitor_ok s1"
    using assms l 2 by (auto simp: createConn_def Let_def 3 split: if_splits option.splits)
qed

lemma janitor_ok_other [simp]:
  "janitor_ok (goto t p s) = janitor_ok s" "janitor_ok (removeConn c s) = janitor_ok s" "janitor_ok (setClosed c s) = janitor_ok s"
  "janitor_ok (s\<lparr>grpcState := g\<rparr>) = janitor_ok s" "janitor_ok (s\<lparr>now := u\<rparr>) = janitor_ok s" "janitor_ok (sweepAndRemove i s) = janitor_ok s"
  by (simp_all add: janitor_ok_def)

lemma conn_step_janitor:
  assumes "conn_step idleTime s s'" "\<not> closing s \<longrightarrow> janitor_ok s" "\<not> closing s'"
  shows "\<not> closing s \<and> janitor_ok s'"
  using assms(1)
proof cases
  case (dial_error t tgt dialErr e)
  then show ?thesis using assms createConn_simps [OF dial_error(2)] by (simp add: closing_def)
next
  case (dial t tgt dialErr c s1)
  have "\<not> closing s"
    using assms(3) closing_goto [of s1 t "DialWait c"] dial createConn_simps(1-3) [OF dial(3)] by (auto simp: closing_def)
  then show ?thesis using assms(2) dial createConn_simps(4) [OF dial(3)] by (simp add: closing_def)
next
  case (released t c)
  have "\<not> closing s"
    using assms(3) closing_goto [of "ReleaseConn c s" t NotDialing] released
    by (auto simp: closing_def ReleaseConn_def grpc_Close_def split: if_splits)
  then show ?thesis using assms(2) released ensureJanitorStarted_janitor [of "setClosed c s"] by (auto simp: closing_def ReleaseConn_def)
next
  case (opened t c)
  have "\<not> closing s" using assms(3) closing_goto [of "ensureJanitorStarted s" t "Using c"] opened by (auto simp: closing_def)
  then show ?thesis using assms(2) opened ensureJanitorStarted_janitor [of s] by (auto simp: closing_def)
next
  case (dial_failed t c)
  have "\<not> closing s" using assms(3) closing_goto [of "removeConn c (setClosed c s)" t NotDialing] dial_failed by (auto simp: closing_def)
  then show ?thesis using assms(2) dial_failed by simp
next
  case (wait_ready t c)
  then show ?thesis using assms closing_goto [of s t "DialOpened c"] by auto
next
  case (wait_failed t c)
  then show ?thesis using assms closing_goto [of s t "DialFailed c"] by auto
next
  case (close_flush t)
  have "closing s'" unfolding close_flush(1) by (auto simp: closing_def closeSection_def Let_def)
  with assms(3) show ?thesis by blast
next
  case (janitor_done js1 js2)
  then show ?thesis using assms(2,3) by (auto simp: closing_def janitor_ok_def)
next
  case (janitor_sweep js1 js2 s1)
  then show ?thesis using assms(2,3) by (auto simp: closing_def janitor_ok_def)
next
  case (janitor_exit js1 js2)
  then show ?thesis using assms(2,3) by (auto simp: closing_def janitor_ok_def split: if_splits)
qed (use assms(2,3) in \<open>auto simp: closing_def split: if_splits\<close>)

text \<open>
  There is one janitor. As long as nobody closes the connector, whatever the routines do, nothing panics and
  the channel \<open>janitorClosed\<close> and the janitors hold one token between them: exactly one janitor is running or
  ready to be started.
\<close>

theorem connector_one_janitor:
  assumes "conn_reach idleTime s" "\<not> closing s"
  shows "\<not> panicked s \<and> janitorClosed s + length (janitors s) = 1"
proof -
  have "\<not> closing s \<longrightarrow> janitor_ok s"
    using assms(1)
  proof (induction rule: conn_reach.induct)
    case start
    show ?case by (simp add: janitor_ok_def NewCachingConnector_def)
  next
    case (step s s')
    then show ?case using conn_step_janitor by blast
  qed
  then show ?thesis using assms(2) by (simp add: janitor_ok_def)
qed

section \<open>Closing while others are at work\<close>

lemma closeSection_twice: "panicked (closeSection (goto t p (closeSection s)))"
  by (simp add: closeSection_def Let_def)

text \<open>
  Closing twice at the same time crashes. Two routines may both pass the check at the start of \<open>Close\<close>; when
  both are about to enter its last section, the second one closes a closed channel.
\<close>

theorem concurrent_close_panics:
  assumes "routines s t = CloseFlush" "routines s u = CloseFlush" "t \<noteq> u"
  shows "\<exists>s1 s2. conn_step idleTime s s1 \<and> conn_step idleTime s1 s2 \<and> panicked s2"
proof -
  let ?s1 = "goto t NotDialing (closeSection s)"
  have "routines (closeSection s) = routines s" by (simp add: closeSection_def Let_def)
  then have "routines ?s1 u = CloseFlush" using assms by simp
  then have "conn_step idleTime ?s1 (goto u NotDialing (closeSection ?s1))" by (rule conn_step.close_flush)
  moreover have "conn_step idleTime s ?s1" using assms(1) by (rule conn_step.close_flush)
  moreover have "panicked (goto u NotDialing (closeSection ?s1))" using closeSection_twice [of t NotDialing s] by simp
  ultimately show ?thesis by blast
qed

lemma sweep_shutdown:
  assumes "\<forall>c \<in> set (connIndex s). grpcState s c = Shutdown"
  shows "connIndex (sweepAndRemove idleTime s) = []"
proof -
  have "set (connIndex (fold (\<lambda>c s1. if sweepable idleTime s1 c then removeConn c s1 else s1) cs s1)) \<subseteq> set (connIndex s1) - set cs"
    if "\<forall>c \<in> set cs. grpcState s1 c = Shutdown" for cs s1
    using that
  proof (induction cs arbitrary: s1)
    case (Cons c cs)
    have "sweepable idleTime s1 c" using Cons.prems by (simp add: sweepable_def)
    moreover have "\<forall>d \<in> set cs. grpcState (removeConn c s1) d = Shutdown" using Cons.prems by simp
    from Cons.IH [OF this]
    have "set (connIndex (fold (\<lambda>c s1. if sweepable idleTime s1 c then removeConn c s1 else s1) cs (removeConn c s1)))
        \<subseteq> set (connIndex s1) - {c} - set cs" by simp
    ultimately show ?case by auto
  qed simp
  from this [OF assms] show ?thesis by (simp add: sweepAndRemove_def)
qed

text \<open>
  Closing while a routine has just opened its connection crashes. The routine then starts a janitor, because the
  channel it looks at is closed; the janitor finds only connections that were shut down, removes them, and reports
  that it ends on the closed channel.
\<close>

theorem late_janitor_panics:
  assumes reach: "conn_reach idleTime s" and pcs: "routines s t = DialOpened c" "routines s u = CloseFlush"
    and "\<not> connectorClosed s" "\<not> janitorClosedClosed s" "janitors s = []"
  shows "\<exists>s1 s2 s3 s4. conn_step idleTime s s1 \<and> conn_step idleTime s1 s2 \<and> conn_step idleTime s2 s3 \<and>
    conn_step idleTime s3 s4 \<and> panicked s4"
proof -
  let ?s1 = "goto u NotDialing (closeSection s)"
  let ?s2 = "goto t (Using c) (ensureJanitorStarted ?s1)"
  let ?s3 = "(sweepAndRemove idleTime ?s2)\<lparr>janitors := [JanitorEmpty]\<rparr>"
  have u: "t \<noteq> u" using pcs by auto
  have 1: "conn_step idleTime s ?s1" using pcs(2) by (rule conn_step.close_flush)
  have f: "closeSection s = (connector_flush s)\<lparr>janitorClosedClosed := True, connectorClosed := True\<rparr>"
    using assms(4,5) by (simp add: closeSection_def Let_def)
  have "routines ?s1 t = DialOpened c" using pcs(1) u by (simp add: f)
  then have 2: "conn_step idleTime ?s1 ?s2" by (rule conn_step.opened)
  have js: "janitors ?s2 = [] @ JanitorLoop # []" using assms(6) by (auto simp: ensureJanitorStarted_def f)
  have "connIndex (sweepAndRemove idleTime ?s2) = []" by (rule sweep_shutdown) (simp add: f)
  with conn_step.janitor_sweep [OF js refl, of idleTime] have 3: "conn_step idleTime ?s2 ?s3" by simp
  have "janitors ?s3 = [] @ JanitorEmpty # []" "janitorClosedClosed ?s3" by (simp_all add: f)
  with conn_step.janitor_exit [of ?s3 "[]" "[]" idleTime] have "conn_step idleTime ?s3 (?s3\<lparr>panicked := True\<rparr>)" by simp
  then show ?thesis using 1 2 3 by (intro exI [of _ ?s1] exI [of _ ?s2] exI [of _ ?s3] exI conjI) auto
qed

text \<open>A routine whose dialing fails closes the connection though others use it.\<close>

lemma failed_dial_closes_shared:
  "routines s t = Using c \<Longrightarrow> routines s u = DialFailed c \<Longrightarrow>
     \<exists>s1. conn_step idleTime s s1 \<and> routines s1 t = Using c \<and> grpcState s1 c = Shutdown"
  by (intro exI conjI, rule conn_step.dial_failed) auto

section \<open>Runs\<close>

text \<open>A routine that dialed a target and one that closes the connector meanwhile.\<close>

definition dialed_state :: connector where
  "dialed_state = goto 0 (DialWait 0) (snd (createConn ''peer0'' None NewCachingConnector))"

definition opened_state :: connector where
  "opened_state = goto 0 (DialOpened 0) (dialed_state\<lparr>grpcState := (grpcState dialed_state)(0 := Ready)\<rparr>)"

lemma reach_dialed: "conn_reach idleTime dialed_state"
proof (rule conn_reach.step [OF conn_reach.start])
  have "createConn ''peer0'' None NewCachingConnector = (Inr 0, snd (createConn ''peer0'' None NewCachingConnector))"
    by (simp add: createConn_def loadConn_def NewCachingConnector_def Let_def)
  then show "conn_step idleTime NewCachingConnector dialed_state"
    unfolding dialed_state_def by (rule conn_step.dial [rotated]) (simp add: NewCachingConnector_def)
qed

lemmas dialed_defs = dialed_state_def createConn_def loadConn_def NewCachingConnector_def Let_def

lemma reach_opened: "conn_reach idleTime opened_state"
proof -
  let ?s = "dialed_state\<lparr>grpcState := (grpcState dialed_state)(0 := Ready)\<rparr>"
  have "conn_step idleTime dialed_state ?s" by (rule conn_step.connection_changes) (simp_all add: dialed_defs)
  with reach_dialed have "conn_reach idleTime ?s" by (rule conn_reach.step)
  moreover have "conn_step idleTime ?s opened_state" unfolding opened_state_def
    by (rule conn_step.wait_ready) (simp_all add: dialed_defs)
  ultimately show ?thesis by (rule conn_reach.step)
qed

text \<open>Two routines that close: the first takes the token of the janitor, the second finds no janitor to wait for.\<close>

definition closing_state :: "connector \<Rightarrow> connector" where
  "closing_state s = goto 1 CloseFlush (s\<lparr>janitorClosed := 0\<rparr>)"

lemma reach_closing:
  assumes "conn_reach idleTime s" "routines s 1 = NotDialing" "\<not> connectorClosed s" "janitorClosed s = 1"
  shows "conn_reach idleTime (closing_state s)"
proof -
  have "conn_reach idleTime (goto 1 CloseChecked s)"
    using assms(2,3) by (intro conn_reach.step [OF assms(1)] conn_step.close_check)
  moreover have "conn_step idleTime (goto 1 CloseChecked s) (goto 1 CloseFlush ((goto 1 CloseChecked s)\<lparr>janitorClosed := janitorClosed (goto 1 CloseChecked s) - 1\<rparr>))"
    using assms(4) by (intro conn_step.close_no_janitor) simp_all
  moreover have "goto 1 CloseFlush ((goto 1 CloseChecked s)\<lparr>janitorClosed := janitorClosed (goto 1 CloseChecked s) - 1\<rparr>) = closing_state s"
    using assms(4) by (simp add: closing_state_def goto_def)
  ultimately show ?thesis using conn_reach.step by metis
qed

theorem late_janitor_panics_witness:
  "\<exists>s s4. conn_reach 0 s \<and> routines s 0 = DialOpened 0 \<and> routines s 1 = CloseFlush \<and> panicked s4 \<and> (conn_step 0)\<^sup>*\<^sup>* s s4"
proof -
  let ?s = "closing_state opened_state"
  have r: "conn_reach 0 ?s" by (rule reach_closing [OF reach_opened]) (simp_all add: opened_state_def dialed_defs)
  have pcs: "routines ?s 0 = DialOpened 0" "routines ?s 1 = CloseFlush" by (simp_all add: closing_state_def opened_state_def)
  have "\<exists>s1 s2 s3 s4. conn_step 0 ?s s1 \<and> conn_step 0 s1 s2 \<and> conn_step 0 s2 s3 \<and> conn_step 0 s3 s4 \<and> panicked s4"
    by (rule late_janitor_panics [OF r pcs]) (simp_all add: closing_state_def opened_state_def dialed_defs)
  then obtain s1 s2 s3 s4 where "conn_step 0 ?s s1" "conn_step 0 s1 s2" "conn_step 0 s2 s3" "conn_step 0 s3 s4" "panicked s4" by blast
  then have "(conn_step 0)\<^sup>*\<^sup>* ?s s4" by (meson rtranclp.rtrancl_refl rtranclp.rtrancl_into_rtrancl)
  with r pcs \<open>panicked s4\<close> show ?thesis by blast
qed

lemma reach_both_closing:
  "\<exists>s. conn_reach idleTime s \<and> routines s 1 = CloseFlush \<and> routines s 2 = CloseFlush"
proof -
  let ?n = NewCachingConnector
  let ?a = "goto 2 CloseChecked ?n"
  let ?b = "goto 1 CloseFlush (?a\<lparr>janitorClosed := 0\<rparr>)"
  let ?c = "goto 2 CloseWaiting (?b\<lparr>janitorDone := 1\<rparr>)"
  have "conn_reach idleTime ?a"
    by (rule conn_reach.step [OF conn_reach.start conn_step.close_check]) (simp_all add: NewCachingConnector_def)
  then have b: "conn_reach idleTime ?b"
    using reach_closing [of idleTime ?a] by (simp add: closing_state_def NewCachingConnector_def)
  have "conn_step idleTime ?b ?c" by (rule conn_step.close_stop_janitor) (simp_all add: NewCachingConnector_def)
  with b have c: "conn_reach idleTime ?c" by (rule conn_reach.step)
  have "conn_step idleTime ?c (goto 2 CloseFlush ?c)" by (rule conn_step.close_waited) (simp_all add: NewCachingConnector_def)
  with c have "conn_reach idleTime (goto 2 CloseFlush ?c)" by (rule conn_reach.step)
  then show ?thesis by (intro exI [of _ "goto 2 CloseFlush ?c"]) simp
qed

theorem concurrent_close_panics_witness: "\<exists>s s1 s2. conn_reach 0 s \<and> conn_step 0 s s1 \<and> conn_step 0 s1 s2 \<and> panicked s2"
proof -
  obtain s where s: "conn_reach 0 s" "routines s 1 = CloseFlush" "routines s 2 = CloseFlush" using reach_both_closing by blast
  then show ?thesis using concurrent_close_panics [OF s(2,3), of 0] by auto
qed

theorem connector_no_leak_witness:
  "conn_reach 0 dialed_state \<and> conns dialed_state ''peer0'' = Some 0 \<and> 0 \<in> set (connIndex dialed_state)"
proof -
  have "conns dialed_state ''peer0'' = Some 0" by (simp add: dialed_defs)
  then show ?thesis using connector_no_leak [OF reach_dialed [of 0]] reach_dialed by blast
qed

theorem connector_one_janitor_witness: "\<not> panicked dialed_state \<and> janitorClosed dialed_state + length (janitors dialed_state) = 1"
proof -
  have "\<not> closing dialed_state" by (simp add: closing_def dialed_defs)
  then show ?thesis using connector_one_janitor [OF reach_dialed [of 0]] by blast
qed

text \<open>A routine uses a connection, a second one shares it and its dialing fails.\<close>

definition used_state :: connector where
  "used_state = goto 0 (Using 0) (ensureJanitorStarted opened_state)"

definition shared_state :: connector where
  "shared_state = goto 1 (DialWait 0) (snd (createConn ''peer0'' None used_state))"

definition failing_state :: connector where
  "failing_state = goto 1 (DialFailed 0) (shared_state\<lparr>grpcState := (grpcState shared_state)(0 := TransientFailure)\<rparr>)"

lemmas shared_defs = failing_state_def shared_state_def used_state_def opened_state_def dialed_defs ensureJanitorStarted_def

lemma reach_failing: "conn_reach idleTime failing_state"
proof -
  have "conn_step idleTime opened_state used_state" unfolding used_state_def by (rule conn_step.opened) (simp add: opened_state_def)
  with reach_opened have u: "conn_reach idleTime used_state" by (rule conn_reach.step)
  have "createConn ''peer0'' None used_state = (Inr 0, snd (createConn ''peer0'' None used_state))"
    by (simp add: shared_defs)
  then have "conn_step idleTime used_state shared_state"
    unfolding shared_state_def by (rule conn_step.dial [rotated]) (simp add: shared_defs)
  with u have s: "conn_reach idleTime shared_state" by (rule conn_reach.step)
  let ?s = "shared_state\<lparr>grpcState := (grpcState shared_state)(0 := TransientFailure)\<rparr>"
  have "conn_step idleTime shared_state ?s" by (rule conn_step.connection_changes) (simp_all add: shared_defs)
  with s have "conn_reach idleTime ?s" by (rule conn_reach.step)
  moreover have "conn_step idleTime ?s failing_state" unfolding failing_state_def
    by (rule conn_step.wait_failed) (simp_all add: shared_state_def)
  ultimately show ?thesis by (rule conn_reach.step)
qed

theorem connector_use_safe_witness:
  "\<exists>s'. conn_reach 0 failing_state \<and> conn_step 0 failing_state s' \<and> routines s' 0 = Using 0 \<and> grpcState s' 0 = Shutdown \<and>
    openCount (cells failing_state 0) = card (holders failing_state 0)"
proof -
  have pcs: "routines failing_state 0 = Using 0" "routines failing_state 1 = DialFailed 0" "grpcState failing_state 0 \<noteq> Shutdown"
    by (simp_all add: shared_defs)
  obtain s' where s': "conn_step 0 failing_state s'" "routines s' 0 = Using 0" "grpcState s' 0 = Shutdown"
    using failed_dial_closes_shared [OF pcs(1,2), of 0] by blast
  then show ?thesis using connector_use_safe [OF reach_failing s'(1) pcs(1,3) s'(3)] reach_failing by blast
qed

end
