(* ===== verification/ConfigUpdate.thy ===== *)
theory ConfigUpdate
  imports Status
begin

text \<open>
  The computation of a configuration update, \<^verbatim>\<open>sdkinternal/configtxlator/update/update.go\<close>: from an original and an
  updated configuration of a channel it computes the read set and the write set that turn one into the other.
  A configuration group has values, policies and sub-groups, each with a version. A Go map is an association
  list with distinct keys, in the order in which the code ranges over it; a nil map is empty.
\<close>

section \<open>Configurations\<close>

text \<open>A \<open>ConfigValue\<close> or a \<open>ConfigPolicy\<close>. The content of a policy is a message that may be nil; \<open>proto.Equal\<close> and
  \<open>bytes.Equal\<close> are equality of the content.\<close>

record 'c configItem =
  iVersion :: uint64
  iModPolicy :: string
  iContent :: 'c

type_synonym configValue = "bytes configItem"
type_synonym configPolicy = "bytes option configItem"

datatype configGroup = ConfigGroup (gVersion: uint64) (gModPolicy: string)
  (gValues: "(string \<times> configValue) list") (gPolicies: "(string \<times> configPolicy) list") (gGroups: "(string \<times> configGroup) list")

definition NewConfigGroup :: configGroup where
  "NewConfigGroup = ConfigGroup 0 '''' [] [] []"

section \<open>Computing the update\<close>

definition sameItem :: "'c configItem \<Rightarrow> 'c configItem \<Rightarrow> bool" where
  "sameItem a b \<longleftrightarrow> iModPolicy a = iModPolicy b \<and> iContent a = iContent b"

definition hasKey :: "(string \<times> 'v) list \<Rightarrow> string \<Rightarrow> bool" where
  "hasKey m k \<longleftrightarrow> map_of m k \<noteq> None"

text \<open>The maps of values and of policies are treated in the same way: the entries that are written, those that stay
  the same, and whether the set of members changed. \<open>zero\<close> is the content of an item of which only the version is given.\<close>

definition writtenItem :: "(string \<times> 'c configItem) list \<Rightarrow> string \<times> 'c configItem \<Rightarrow> (string \<times> 'c configItem) option" where
  "writtenItem updated = (\<lambda>(k, x). case map_of updated k of
       Some y \<Rightarrow> if sameItem x y then None else Some (k, \<lparr>iVersion = iVersion x + 1, iModPolicy = iModPolicy y, iContent = iContent y\<rparr>)
     | None \<Rightarrow> None)"

definition keptItem :: "'c \<Rightarrow> (string \<times> 'c configItem) list \<Rightarrow> string \<times> 'c configItem \<Rightarrow> (string \<times> 'c configItem) option" where
  "keptItem zero updated = (\<lambda>(k, x). case map_of updated k of
       Some y \<Rightarrow> if sameItem x y then Some (k, \<lparr>iVersion = iVersion x, iModPolicy = '''', iContent = zero\<rparr>) else None
     | None \<Rightarrow> None)"

definition addedItem :: "(string \<times> 'c configItem) list \<Rightarrow> string \<times> 'c configItem \<Rightarrow> (string \<times> 'c configItem) option" where
  "addedItem original = (\<lambda>(k, y). if hasKey original k then None else Some (k, \<lparr>iVersion = 0, iModPolicy = iModPolicy y, iContent = iContent y\<rparr>))"

definition membersUpdated :: "(string \<times> 'v) list \<Rightarrow> (string \<times> 'w) list \<Rightarrow> bool" where
  "membersUpdated original updated \<longleftrightarrow>
     list_ex (\<lambda>(k, _). \<not> hasKey updated k) original \<or> list_ex (\<lambda>(k, _). \<not> hasKey original k) updated"

record 'v map_update =
  muRead :: "(string \<times> 'v) list"
  muWrite :: "(string \<times> 'v) list"
  muSame :: "(string \<times> 'v) list"
  muMembers :: bool

definition computeItemsMapUpdate :: "'c \<Rightarrow> (string \<times> 'c configItem) list \<Rightarrow> (string \<times> 'c configItem) list \<Rightarrow> 'c configItem map_update" where
  "computeItemsMapUpdate zero original updated =
     \<lparr>muRead = [], muWrite = List.map_filter (writtenItem updated) original @ List.map_filter (addedItem original) updated,
      muSame = List.map_filter (keptItem zero updated) original, muMembers = membersUpdated original updated\<rparr>"

definition computePoliciesMapUpdate :: "(string \<times> configPolicy) list \<Rightarrow> (string \<times> configPolicy) list \<Rightarrow> configPolicy map_update" where
  "computePoliciesMapUpdate = computeItemsMapUpdate None"

definition computeValuesMapUpdate :: "(string \<times> configValue) list \<Rightarrow> (string \<times> configValue) list \<Rightarrow> configValue map_update" where
  "computeValuesMapUpdate = computeItemsMapUpdate []"

text \<open>The result for a group: its read set, its write set and whether it was updated. The results for the sub-groups
  are computed first: those of the groups of the original that are still there, and those of the new ones.\<close>

type_synonym group_update = "configGroup \<times> configGroup \<times> bool"

definition asAddedGroup :: "configGroup \<Rightarrow> configGroup \<Rightarrow> configGroup" where
  "asAddedGroup updatedGroup groupWriteSet =
     ConfigGroup 0 (gModPolicy updatedGroup) (gValues groupWriteSet) (gPolicies groupWriteSet) (gGroups groupWriteSet)"

definition computeGroupsMapUpdate ::
  "(string \<times> configGroup) list \<Rightarrow> (string \<times> configGroup) list \<Rightarrow> (string \<times> group_update) list \<Rightarrow> (string \<times> configGroup) list \<Rightarrow>
     configGroup map_update" where
  "computeGroupsMapUpdate original updated common added =
     \<lparr>muRead = List.map_filter (\<lambda>(k, r, w, b). if b then Some (k, r) else None) common,
      muWrite = List.map_filter (\<lambda>(k, r, w, b). if b then Some (k, w) else None) common @ added,
      muSame = List.map_filter (\<lambda>(k, r, w, b). if b then None else Some (k, r)) common,
      muMembers = membersUpdated original updated\<rparr>"

definition groupResult :: "configGroup \<Rightarrow> configGroup \<Rightarrow> configValue map_update \<Rightarrow> configPolicy map_update \<Rightarrow> configGroup map_update \<Rightarrow> group_update" where
  "groupResult original updated vs ps gs =
     (if \<not> (muMembers ps \<or> muMembers vs \<or> muMembers gs \<or> gModPolicy original \<noteq> gModPolicy updated)
      then if muRead ps = [] \<and> muWrite ps = [] \<and> muRead vs = [] \<and> muWrite vs = [] \<and> muRead gs = [] \<and> muWrite gs = []
           then (ConfigGroup (gVersion original) '''' [] [] [], ConfigGroup (gVersion original) '''' [] [] [], False)
           else (ConfigGroup (gVersion original) '''' (muRead vs) (muRead ps) (muRead gs),
                 ConfigGroup (gVersion original) '''' (muWrite vs) (muWrite ps) (muWrite gs), True)
      else (ConfigGroup (gVersion original) '''' (muRead vs @ muSame vs) (muRead ps @ muSame ps) (muRead gs @ muSame gs),
            ConfigGroup (gVersion original + 1) (gModPolicy updated)
              (muWrite vs @ muSame vs) (muWrite ps @ muSame ps) (muWrite gs @ muSame gs), True))"

lemma size_map_of: "map_of gs k = Some g \<Longrightarrow> size g < Suc (size_list (size_prod (\<lambda>_. 0) size) gs)"
  by (drule map_of_SomeD, induction gs) auto

lemma size_member: "(k, g) \<in> set gs \<Longrightarrow> size g < Suc (size_list (size_prod (\<lambda>_. 0) size) gs)"
  by (induction gs) auto

function computeGroupUpdate :: "configGroup \<Rightarrow> configGroup \<Rightarrow> group_update" where
  "computeGroupUpdate original updated =
     groupResult original updated
       (computeValuesMapUpdate (gValues original) (gValues updated))
       (computePoliciesMapUpdate (gPolicies original) (gPolicies updated))
       (computeGroupsMapUpdate (gGroups original) (gGroups updated)
         (concat (map (\<lambda>(k, og). case map_of (gGroups updated) k of None \<Rightarrow> [] | Some ug \<Rightarrow> [(k, computeGroupUpdate og ug)]) (gGroups original)))
         (concat (map (\<lambda>(k, ug). if hasKey (gGroups original) k then []
            else [(k, asAddedGroup ug (fst (snd (computeGroupUpdate NewConfigGroup ug))))]) (gGroups updated))))"
  by pat_completeness auto
termination
proof (relation "measure (\<lambda>(original, updated). size updated)", goal_cases)
  case (2 original updated kg k og ug)
  then show ?case using size_map_of [of "gGroups updated" k ug] by (cases updated) auto
next
  case (3 original updated kg k ug)
  then show ?case using size_member [of k ug "gGroups updated"] by (cases updated) auto
qed simp

declare computeGroupUpdate.simps [simp del]

record config_update =
  cuReadSet :: configGroup
  cuWriteSet :: configGroup

definition Compute :: "configGroup option \<Rightarrow> configGroup option \<Rightarrow> error + config_update" where
  "Compute original updated =
     (case original of
        None \<Rightarrow> Inl (ErrNew ''no channel group included for original config'')
      | Some o1 \<Rightarrow>
         (case updated of
            None \<Rightarrow> Inl (ErrNew ''no channel group included for updated config'')
          | Some u \<Rightarrow>
             (case computeGroupUpdate o1 u of (readSet, writeSet, groupUpdated) \<Rightarrow>
                if \<not> groupUpdated then Inl (ErrNew ''no differences detected between original and updated config'')
                else Inr \<lparr>cuReadSet = readSet, cuWriteSet = writeSet\<rparr>)))"

section \<open>What an update means\<close>

text \<open>The content of a configuration, without versions and without the order of its maps.\<close>

datatype abs_group = AbsGroup string "string \<rightharpoonup> string \<times> bytes" "string \<rightharpoonup> string \<times> bytes option" "string \<rightharpoonup> abs_group"

definition absItems :: "(string \<times> 'c configItem) list \<Rightarrow> string \<rightharpoonup> string \<times> 'c" where
  "absItems m k = map_option (\<lambda>x. (iModPolicy x, iContent x)) (map_of m k)"

fun absGroup :: "configGroup \<Rightarrow> abs_group" where
  "absGroup (ConfigGroup v m vs ps gs) = AbsGroup m (absItems vs) (absItems ps) (map_of (map (\<lambda>(k, g). (k, absGroup g)) gs))"

text \<open>How a channel applies a write set: an item is replaced when its version differs; a group whose version
  differs gets the members of the write set, and a group with the same version keeps its members.\<close>

definition applyItem :: "'c configItem \<Rightarrow> 'c configItem \<Rightarrow> 'c configItem" where
  "applyItem x w = (if iVersion w = iVersion x then x else w)"

definition applyMap :: "bool \<Rightarrow> ('v \<Rightarrow> 'v \<Rightarrow> 'v) \<Rightarrow> (string \<times> 'v) list \<Rightarrow> (string \<times> 'v) list \<Rightarrow> (string \<times> 'v) list" where
  "applyMap modified f original written =
     (if modified then map (\<lambda>(k, w). (k, case map_of original k of Some x \<Rightarrow> f x w | None \<Rightarrow> w)) written
      else map (\<lambda>(k, x). (k, case map_of written k of Some w \<Rightarrow> f x w | None \<Rightarrow> x)) original)"

function applyGroup :: "configGroup \<Rightarrow> configGroup \<Rightarrow> configGroup" where
  "applyGroup (ConfigGroup v m vs ps gs) w =
     (let modified = gVersion w \<noteq> v in
      ConfigGroup (gVersion w) (if modified then gModPolicy w else m) (applyMap modified applyItem vs (gValues w))
        (applyMap modified applyItem ps (gPolicies w))
        (if modified then map (\<lambda>(k, w). (k, case map_of gs k of Some x \<Rightarrow> applyGroup x w | None \<Rightarrow> w)) (gGroups w)
         else map (\<lambda>(k, x). (k, case map_of (gGroups w) k of Some w \<Rightarrow> applyGroup x w | None \<Rightarrow> x)) gs))"
  by pat_completeness auto
termination
proof (relation "measure (\<lambda>(original, w). size original)", goal_cases)
  case (2 v m vs ps gs w modified kw k w' x)
  then show ?case using size_map_of [of gs k x] by auto
next
  case (3 v m vs ps gs w modified kx k x w')
  then show ?case using size_member [of k x gs] by auto
qed simp

declare applyGroup.simps [simp del]

lemma applyGroup_map: "applyGroup (ConfigGroup v m vs ps gs) w =
     (let modified = gVersion w \<noteq> v in
      ConfigGroup (gVersion w) (if modified then gModPolicy w else m) (applyMap modified applyItem vs (gValues w))
        (applyMap modified applyItem ps (gPolicies w)) (applyMap modified applyGroup gs (gGroups w)))"
  by (simp add: applyGroup.simps applyMap_def Let_def)

text \<open>The keys of Go maps are distinct.\<close>

fun wfGroup :: "configGroup \<Rightarrow> bool" where
  "wfGroup (ConfigGroup v m vs ps gs) \<longleftrightarrow> distinct (map fst vs) \<and> distinct (map fst ps) \<and> distinct (map fst gs) \<and> (\<forall>(k, g) \<in> set gs. wfGroup g)"

section \<open>Association lists as maps\<close>

lemma map_of_map_key: "map_of (map (\<lambda>(k, y). (k, f k y)) m) k = map_option (f k) (map_of m k)"
  by (induction m) auto

lemma map_of_keyed_filter:
  assumes "distinct (map fst m)"
  shows "map_of (List.map_filter (\<lambda>(k, x). map_option (Pair k) (h k x)) m) k = Option.bind (map_of m k) (h k)"
  using assms
proof (induction m)
  case (Cons kx m)
  obtain k' x where kx: "kx = (k', x)" by (cases kx)
  have fresh: "map_of m k' = None" using Cons.prems kx by (simp add: map_of_eq_None_iff)
  then show ?case using Cons kx by (cases "h k' x") (auto simp: List.map_filter_simps)
qed (simp add: List.map_filter_simps)

lemma map_of_keyed_concat:
  assumes "distinct (map fst m)"
  shows "map_of (concat (map (\<lambda>(k, x). case h k x of None \<Rightarrow> [] | Some y \<Rightarrow> [(k, y)]) m)) k = Option.bind (map_of m k) (h k)"
  using assms
proof (induction m)
  case (Cons kx m)
  obtain k' x where kx: "kx = (k', x)" by (cases kx)
  have fresh: "map_of m k' = None" using Cons.prems kx by (simp add: map_of_eq_None_iff)
  then show ?case using Cons kx by (cases "h k' x") auto
qed simp

lemma map_of_empty_iff: "m = [] \<longleftrightarrow> (\<forall>k. map_of m k = None)"
  by (cases m) auto

lemma hasKey_iff: "hasKey m k \<longleftrightarrow> k \<in> dom (map_of m)"
  by (auto simp: hasKey_def)

lemma missing_iff: "list_ex (\<lambda>(k, _). \<not> hasKey b k) a \<longleftrightarrow> \<not> dom (map_of a) \<subseteq> dom (map_of b)"
  unfolding list_ex_iff hasKey_iff dom_map_of_conv_image_fst case_prod_unfold by blast

lemma membersUpdated_iff: "membersUpdated original updated \<longleftrightarrow> dom (map_of original) \<noteq> dom (map_of updated)"
  unfolding membersUpdated_def missing_iff set_eq_subset by simp

lemma map_of_applyMap:
  "map_of (applyMap modified f original written) k =
     (if modified then map_option (\<lambda>w. case map_of original k of Some x \<Rightarrow> f x w | None \<Rightarrow> w) (map_of written k)
      else map_option (\<lambda>x. case map_of written k of Some w \<Rightarrow> f x w | None \<Rightarrow> x) (map_of original k))"
  by (simp add: applyMap_def map_of_map_key)

section \<open>Values and policies\<close>

definition itemWrite :: "'c configItem option \<Rightarrow> 'c configItem option \<Rightarrow> 'c configItem option" where
  "itemWrite x y = (case y of
      None \<Rightarrow> None
    | Some b \<Rightarrow> (case x of
         None \<Rightarrow> Some \<lparr>iVersion = 0, iModPolicy = iModPolicy b, iContent = iContent b\<rparr>
       | Some a \<Rightarrow> if sameItem a b then None else Some \<lparr>iVersion = iVersion a + 1, iModPolicy = iModPolicy b, iContent = iContent b\<rparr>))"

definition itemSame :: "'c \<Rightarrow> 'c configItem option \<Rightarrow> 'c configItem option \<Rightarrow> 'c configItem option" where
  "itemSame z x y = (case (x, y) of
      (Some a, Some b) \<Rightarrow> if sameItem a b then Some \<lparr>iVersion = iVersion a, iModPolicy = '''', iContent = z\<rparr> else None
    | _ \<Rightarrow> None)"

lemma written_map_of:
  assumes "distinct (map fst original)" "distinct (map fst updated)"
  shows "map_of (muWrite (computeItemsMapUpdate z original updated)) k = itemWrite (map_of original k) (map_of updated k)"
proof -
  have w: "writtenItem updated = (\<lambda>(k, x). map_option (Pair k) (case map_of updated k of
      Some y \<Rightarrow> if sameItem x y then None else Some \<lparr>iVersion = iVersion x + 1, iModPolicy = iModPolicy y, iContent = iContent y\<rparr> | None \<Rightarrow> None))"
    by (auto simp: writtenItem_def fun_eq_iff split: option.split)
  have a: "addedItem original = (\<lambda>(k, y). map_option (Pair k)
      (if hasKey original k then None else Some \<lparr>iVersion = 0, iModPolicy = iModPolicy y, iContent = iContent y\<rparr>))"
    by (auto simp: addedItem_def fun_eq_iff)
  show ?thesis unfolding computeItemsMapUpdate_def map_update.simps map_of_append w a
    by (simp add: map_add_def map_of_keyed_filter [OF assms(1)] map_of_keyed_filter [OF assms(2)] itemWrite_def hasKey_def
        split: option.split)
qed

lemma same_map_of:
  assumes "distinct (map fst original)"
  shows "map_of (muSame (computeItemsMapUpdate z original updated)) k = itemSame z (map_of original k) (map_of updated k)"
proof -
  have s: "keptItem z updated = (\<lambda>(k, x). map_option (Pair k) (case map_of updated k of
      Some y \<Rightarrow> if sameItem x y then Some \<lparr>iVersion = iVersion x, iModPolicy = '''', iContent = z\<rparr> else None | None \<Rightarrow> None))"
    by (auto simp: keptItem_def fun_eq_iff split: option.split)
  show ?thesis unfolding computeItemsMapUpdate_def map_update.simps s
    by (simp add: map_of_keyed_filter [OF assms] itemSame_def split: option.split)
qed

lemma sameItem_abs: "sameItem a b \<longleftrightarrow> (iModPolicy a, iContent a) = (iModPolicy b, iContent b)"
  by (simp add: sameItem_def)

lemma dom_eq_iff: "dom f = dom g \<longleftrightarrow> (\<forall>k. f k = None \<longleftrightarrow> g k = None)"
  by (simp add: dom_def set_eq_iff del: not_None_eq)

lemma absItem_eq_iff:
  "map_option (\<lambda>x. (iModPolicy x, iContent x)) x = map_option (\<lambda>x. (iModPolicy x, iContent x)) y \<longleftrightarrow>
     itemWrite x y = None \<and> (x = None \<longleftrightarrow> y = None)"
  by (cases x; cases y) (simp_all add: itemWrite_def sameItem_abs)

lemma absItems_eq_iff:
  assumes "distinct (map fst original)" "distinct (map fst updated)"
  shows "absItems original = absItems updated \<longleftrightarrow>
    \<not> muMembers (computeItemsMapUpdate z original updated) \<and> muWrite (computeItemsMapUpdate z original updated) = []"
proof -
  have "absItems original = absItems updated \<longleftrightarrow>
      (\<forall>k. itemWrite (map_of original k) (map_of updated k) = None \<and> (map_of original k = None \<longleftrightarrow> map_of updated k = None))"
    unfolding fun_eq_iff absItems_def absItem_eq_iff ..
  also have "\<dots> \<longleftrightarrow> muWrite (computeItemsMapUpdate z original updated) = [] \<and> dom (map_of original) = dom (map_of updated)"
    unfolding map_of_empty_iff written_map_of [OF assms] dom_eq_iff by blast
  finally show ?thesis by (auto simp: computeItemsMapUpdate_def membersUpdated_iff)
qed

lemma applyItem_write: "itemWrite (Some a) (Some b) = Some w \<Longrightarrow> applyItem a w = w \<and> (iModPolicy w, iContent w) = (iModPolicy b, iContent b)"
  by (auto simp: itemWrite_def applyItem_def split: if_splits)

text \<open>Applying the write set of a map, with the items that stay the same when the members change, gives the updated map.\<close>

lemma apply_items:
  assumes "distinct (map fst original)" "distinct (map fst updated)"
    and m: "m = computeItemsMapUpdate z original updated"
  shows "absItems (applyMap True applyItem original (muWrite m @ muSame m)) = absItems updated"
    and "\<not> muMembers m \<Longrightarrow> absItems (applyMap False applyItem original (muWrite m)) = absItems updated"
proof -
  let ?ab = "\<lambda>x. (iModPolicy x, iContent x)"
  show "absItems (applyMap True applyItem original (muWrite m @ muSame m)) = absItems updated"
  proof
    fix k
    have w: "map_of (muWrite m @ muSame m) k = (case itemWrite (map_of original k) (map_of updated k) of
        Some w \<Rightarrow> Some w | None \<Rightarrow> itemSame z (map_of original k) (map_of updated k))"
      unfolding m map_of_append map_add_def written_map_of [OF assms(1,2)] same_map_of [OF assms(1)]
      by (cases "map_of original k"; cases "map_of updated k") (auto simp: itemWrite_def itemSame_def)
    show "absItems (applyMap True applyItem original (muWrite m @ muSame m)) k = absItems updated k"
      unfolding absItems_def map_of_applyMap w
      by (cases "map_of original k"; cases "map_of updated k") (auto simp: itemWrite_def itemSame_def applyItem_def sameItem_def)
  qed
  assume "\<not> muMembers m"
  then have d: "map_of original k = None \<longleftrightarrow> map_of updated k = None" for k
    by (simp add: m computeItemsMapUpdate_def membersUpdated_iff dom_eq_iff)
  show "absItems (applyMap False applyItem original (muWrite m)) = absItems updated"
  proof
    fix k
    show "absItems (applyMap False applyItem original (muWrite m)) k = absItems updated k"
      unfolding absItems_def map_of_applyMap m written_map_of [OF assms(1,2)] using d [of k]
      by (cases "map_of original k"; cases "map_of updated k") (auto simp: itemWrite_def applyItem_def sameItem_def)
  qed
qed

text \<open>A map of which everything is new is its own write set.\<close>

lemma added_items:
  assumes "distinct (map fst updated)"
  shows "absItems (muWrite (computeItemsMapUpdate z [] updated)) = absItems updated"
proof
  fix k
  show "absItems (muWrite (computeItemsMapUpdate z [] updated)) k = absItems updated k"
    unfolding absItems_def by (subst written_map_of) (use assms in \<open>simp_all add: itemWrite_def split: option.split\<close>)
qed

section \<open>Groups\<close>

definition commonGroups :: "configGroup \<Rightarrow> configGroup \<Rightarrow> (string \<times> group_update) list" where
  "commonGroups original updated =
     concat (map (\<lambda>(k, og). case map_of (gGroups updated) k of None \<Rightarrow> [] | Some ug \<Rightarrow> [(k, computeGroupUpdate og ug)]) (gGroups original))"

definition addedGroups :: "configGroup \<Rightarrow> configGroup \<Rightarrow> (string \<times> configGroup) list" where
  "addedGroups original updated =
     concat (map (\<lambda>(k, ug). if hasKey (gGroups original) k then []
        else [(k, asAddedGroup ug (fst (snd (computeGroupUpdate NewConfigGroup ug))))]) (gGroups updated))"

abbreviation groupsUpdate :: "configGroup \<Rightarrow> configGroup \<Rightarrow> configGroup map_update" where
  "groupsUpdate original updated \<equiv>
     computeGroupsMapUpdate (gGroups original) (gGroups updated) (commonGroups original updated) (addedGroups original updated)"

lemma computeGroupUpdate_eq:
  "computeGroupUpdate original updated =
     groupResult original updated (computeValuesMapUpdate (gValues original) (gValues updated))
       (computePoliciesMapUpdate (gPolicies original) (gPolicies updated)) (groupsUpdate original updated)"
  by (subst computeGroupUpdate.simps) (simp only: commonGroups_def addedGroups_def)

lemma keyed_concat_distinct:
  assumes "distinct (map fst m)"
  shows "distinct (map fst (concat (map (\<lambda>(k, x). case h k x of None \<Rightarrow> [] | Some y \<Rightarrow> [(k, y)]) m)))" (is "distinct (map fst (?f m))")
proof -
  define f where "f = ?f"
  have f: "f [] = []" "f ((k, x) # m) = (case h k x of None \<Rightarrow> f m | Some y \<Rightarrow> (k, y) # f m)" for k x m
    by (simp_all add: f_def split: option.split)
  have sub: "fst ` set (f m) \<subseteq> fst ` set m" for m
  proof (induction m)
    case (Cons kx m)
    obtain k x where "kx = (k, x)" by (cases kx)
    then show ?case using Cons by (cases "h k x") (simp_all add: f subset_insertI2)
  qed (simp add: f)
  have "distinct (map fst (f m))" using assms
  proof (induction m)
    case (Cons kx m)
    obtain k x where kx: "kx = (k, x)" by (cases kx)
    then have "k \<notin> fst ` set (f m)" using Cons.prems sub [of m] by auto
    then show ?case using Cons kx by (cases "h k x") (simp_all add: f)
  qed (simp add: f)
  then show ?thesis by (simp add: f_def)
qed

lemma common_map_of:
  assumes "distinct (map fst (gGroups original))"
  shows "map_of (commonGroups original updated) k =
      (case map_of (gGroups original) k of None \<Rightarrow> None | Some og \<Rightarrow> map_option (computeGroupUpdate og) (map_of (gGroups updated) k))"
    and "distinct (map fst (commonGroups original updated))"
proof -
  have c: "commonGroups original updated =
      concat (map (\<lambda>(k, og). case map_option (computeGroupUpdate og) (map_of (gGroups updated) k) of None \<Rightarrow> [] | Some y \<Rightarrow> [(k, y)]) (gGroups original))"
    unfolding commonGroups_def by (intro arg_cong [of _ _ concat] map_cong refl) (auto split: option.split)
  show "map_of (commonGroups original updated) k =
      (case map_of (gGroups original) k of None \<Rightarrow> None | Some og \<Rightarrow> map_option (computeGroupUpdate og) (map_of (gGroups updated) k))"
    unfolding c map_of_keyed_concat [OF assms] by (simp split: option.split)
  show "distinct (map fst (commonGroups original updated))" unfolding c by (rule keyed_concat_distinct [OF assms])
qed

lemma added_map_of:
  assumes "distinct (map fst (gGroups updated))"
  shows "map_of (addedGroups original updated) k =
    (if hasKey (gGroups original) k then None
     else map_option (\<lambda>ug. asAddedGroup ug (fst (snd (computeGroupUpdate NewConfigGroup ug)))) (map_of (gGroups updated) k))"
proof -
  let ?h = "\<lambda>k ug. if hasKey (gGroups original) k then None else Some (asAddedGroup ug (fst (snd (computeGroupUpdate NewConfigGroup ug))))"
  have a: "addedGroups original updated = concat (map (\<lambda>(k, ug). case ?h k ug of None \<Rightarrow> [] | Some y \<Rightarrow> [(k, y)]) (gGroups updated))"
    unfolding addedGroups_def by (intro arg_cong [of _ _ concat] map_cong refl) auto
  show ?thesis unfolding a map_of_keyed_concat [OF assms] by (cases "map_of (gGroups updated) k") simp_all
qed

definition groupWrite :: "configGroup option \<Rightarrow> configGroup option \<Rightarrow> configGroup option" where
  "groupWrite x y = (case y of
      None \<Rightarrow> None
    | Some ug \<Rightarrow> (case x of
         None \<Rightarrow> Some (asAddedGroup ug (fst (snd (computeGroupUpdate NewConfigGroup ug))))
       | Some og \<Rightarrow> (case computeGroupUpdate og ug of (r, w, b) \<Rightarrow> if b then Some w else None)))"

definition groupSame :: "configGroup option \<Rightarrow> configGroup option \<Rightarrow> configGroup option" where
  "groupSame x y = (case (x, y) of
      (Some og, Some ug) \<Rightarrow> (case computeGroupUpdate og ug of (r, w, b) \<Rightarrow> if b then None else Some r)
    | _ \<Rightarrow> None)"

definition groupRead :: "configGroup option \<Rightarrow> configGroup option \<Rightarrow> configGroup option" where
  "groupRead x y = (case (x, y) of
      (Some og, Some ug) \<Rightarrow> (case computeGroupUpdate og ug of (r, w, b) \<Rightarrow> if b then Some r else None)
    | _ \<Rightarrow> None)"

lemma groups_map_of:
  assumes "distinct (map fst (gGroups original))" "distinct (map fst (gGroups updated))"
  shows "map_of (muWrite (groupsUpdate original updated)) k = groupWrite (map_of (gGroups original) k) (map_of (gGroups updated) k)"
    and "map_of (muSame (groupsUpdate original updated)) k = groupSame (map_of (gGroups original) k) (map_of (gGroups updated) k)"
    and "map_of (muRead (groupsUpdate original updated)) k = groupRead (map_of (gGroups original) k) (map_of (gGroups updated) k)"
proof -
  note kf = map_of_keyed_filter [OF common_map_of(2) [OF assms(1)], of _ updated]
  have f: "(\<lambda>(k, r, w, b). if b then Some (k, w) else None) = (\<lambda>(k :: string, x :: group_update). map_option (Pair k) (case x of (r, w, b) \<Rightarrow> if b then Some w else None))"
    "(\<lambda>(k, r, w, b). if b then None else Some (k, r)) = (\<lambda>(k :: string, x :: group_update). map_option (Pair k) (case x of (r, w, b) \<Rightarrow> if b then None else Some r))"
    "(\<lambda>(k, r, w, b). if b then Some (k, r) else None) = (\<lambda>(k :: string, x :: group_update). map_option (Pair k) (case x of (r, w, b) \<Rightarrow> if b then Some r else None))"
    by (auto simp: fun_eq_iff)
  show "map_of (muWrite (groupsUpdate original updated)) k = groupWrite (map_of (gGroups original) k) (map_of (gGroups updated) k)"
    unfolding computeGroupsMapUpdate_def map_update.simps map_of_append f(1) map_add_def kf added_map_of [OF assms(2)] common_map_of(1) [OF assms(1)]
    by (cases "map_of (gGroups original) k"; cases "map_of (gGroups updated) k") (auto simp: groupWrite_def hasKey_def split: prod.split)
  show "map_of (muSame (groupsUpdate original updated)) k = groupSame (map_of (gGroups original) k) (map_of (gGroups updated) k)"
    unfolding computeGroupsMapUpdate_def map_update.simps f(2) kf common_map_of(1) [OF assms(1)]
    by (cases "map_of (gGroups original) k"; cases "map_of (gGroups updated) k") (auto simp: groupSame_def)
  show "map_of (muRead (groupsUpdate original updated)) k = groupRead (map_of (gGroups original) k) (map_of (gGroups updated) k)"
    unfolding computeGroupsMapUpdate_def map_update.simps f(3) kf common_map_of(1) [OF assms(1)]
    by (cases "map_of (gGroups original) k"; cases "map_of (gGroups updated) k") (auto simp: groupRead_def)
qed

section \<open>The update is right\<close>

lemma absGroup_eq: "absGroup g = AbsGroup (gModPolicy g) (absItems (gValues g)) (absItems (gPolicies g)) (\<lambda>k. map_option absGroup (map_of (gGroups g) k))"
  by (cases g) (simp add: map_of_map fun_eq_iff)

lemma wfGroup_eq:
  "wfGroup g \<longleftrightarrow> distinct (map fst (gValues g)) \<and> distinct (map fst (gPolicies g)) \<and> distinct (map fst (gGroups g)) \<and>
     (\<forall>(k, h) \<in> set (gGroups g). wfGroup h)"
  by (cases g) simp

lemma applyGroup_eq:
  "applyGroup original w =
     (let modified = gVersion w \<noteq> gVersion original in
      ConfigGroup (gVersion w) (if modified then gModPolicy w else gModPolicy original) (applyMap modified applyItem (gValues original) (gValues w))
        (applyMap modified applyItem (gPolicies original) (gPolicies w)) (applyMap modified applyGroup (gGroups original) (gGroups w)))"
  by (cases original) (simp add: applyGroup_map Let_def)

lemma applyGroup_sel:
  "gModPolicy (applyGroup original w) = (if gVersion w \<noteq> gVersion original then gModPolicy w else gModPolicy original)"
  "gValues (applyGroup original w) = applyMap (gVersion w \<noteq> gVersion original) applyItem (gValues original) (gValues w)"
  "gPolicies (applyGroup original w) = applyMap (gVersion w \<noteq> gVersion original) applyItem (gPolicies original) (gPolicies w)"
  "gGroups (applyGroup original w) = applyMap (gVersion w \<noteq> gVersion original) applyGroup (gGroups original) (gGroups w)"
  by (simp_all add: applyGroup_eq [of original w] Let_def)

definition unchanged :: "configGroup \<Rightarrow> configGroup" where
  "unchanged g = ConfigGroup (gVersion g) '''' [] [] []"

lemma apply_unchanged: "applyGroup g (unchanged g) = g"
  by (cases g) (simp add: applyGroup_eq unchanged_def applyMap_def Let_def)

text \<open>What is to be shown of a pair of groups.\<close>

definition update_ok :: "configGroup \<Rightarrow> configGroup \<Rightarrow> bool" where
  "update_ok original updated \<longleftrightarrow> (case computeGroupUpdate original updated of (r, w, b) \<Rightarrow>
     (\<not> b \<longleftrightarrow> absGroup original = absGroup updated) \<and> (\<not> b \<longrightarrow> r = unchanged original) \<and>
     (b \<longrightarrow> absGroup (applyGroup original w) = absGroup updated))"

lemma update_okD:
  assumes "update_ok original updated" "computeGroupUpdate original updated = (r, w, b)"
  shows "\<not> b \<longleftrightarrow> absGroup original = absGroup updated" "\<not> b \<Longrightarrow> r = unchanged original"
    "b \<Longrightarrow> absGroup (applyGroup original w) = absGroup updated"
  using assms by (auto simp: update_ok_def)

lemma absGroups_eq_iff:
  assumes d: "distinct (map fst (gGroups original))" "distinct (map fst (gGroups updated))"
    and sub: "\<And>k og ug. map_of (gGroups original) k = Some og \<Longrightarrow> map_of (gGroups updated) k = Some ug \<Longrightarrow> update_ok og ug"
  shows "(\<lambda>k. map_option absGroup (map_of (gGroups original) k)) = (\<lambda>k. map_option absGroup (map_of (gGroups updated) k)) \<longleftrightarrow>
    \<not> muMembers (groupsUpdate original updated) \<and> muWrite (groupsUpdate original updated) = []"
proof -
  have "map_option absGroup (map_of (gGroups original) k) = map_option absGroup (map_of (gGroups updated) k) \<longleftrightarrow>
      groupWrite (map_of (gGroups original) k) (map_of (gGroups updated) k) = None \<and>
      (map_of (gGroups original) k = None \<longleftrightarrow> map_of (gGroups updated) k = None)" for k
    by (cases "map_of (gGroups original) k"; cases "map_of (gGroups updated) k")
      (auto simp: groupWrite_def split: prod.splits dest: update_okD(1) [OF sub])
  then have "(\<lambda>k. map_option absGroup (map_of (gGroups original) k)) = (\<lambda>k. map_option absGroup (map_of (gGroups updated) k)) \<longleftrightarrow>
      muWrite (groupsUpdate original updated) = [] \<and> dom (map_of (gGroups original)) = dom (map_of (gGroups updated))"
    unfolding fun_eq_iff map_of_empty_iff groups_map_of(1) [OF d] dom_eq_iff by blast
  then show ?thesis by (auto simp: computeGroupsMapUpdate_def membersUpdated_iff)
qed

lemma apply_groups:
  assumes d: "distinct (map fst (gGroups original))" "distinct (map fst (gGroups updated))"
    and sub: "\<And>k og ug. map_of (gGroups original) k = Some og \<Longrightarrow> map_of (gGroups updated) k = Some ug \<Longrightarrow> update_ok og ug"
    and new: "\<And>k ug. map_of (gGroups original) k = None \<Longrightarrow> map_of (gGroups updated) k = Some ug \<Longrightarrow>
      absGroup (asAddedGroup ug (fst (snd (computeGroupUpdate NewConfigGroup ug)))) = absGroup ug"
    and m: "m = groupsUpdate original updated"
  shows "map_option absGroup (map_of (applyMap True applyGroup (gGroups original) (muWrite m @ muSame m)) k) = map_option absGroup (map_of (gGroups updated) k)"
    and "\<not> muMembers m \<Longrightarrow> map_option absGroup (map_of (applyMap False applyGroup (gGroups original) (muWrite m)) k) = map_option absGroup (map_of (gGroups updated) k)"
proof -
  have w: "map_of (muWrite m @ muSame m) k = (case groupWrite (map_of (gGroups original) k) (map_of (gGroups updated) k) of
      Some w \<Rightarrow> Some w | None \<Rightarrow> groupSame (map_of (gGroups original) k) (map_of (gGroups updated) k))"
    unfolding m map_of_append map_add_def groups_map_of [OF d]
    by (cases "map_of (gGroups original) k"; cases "map_of (gGroups updated) k") (auto simp: groupWrite_def groupSame_def split: prod.split)
  show "map_option absGroup (map_of (applyMap True applyGroup (gGroups original) (muWrite m @ muSame m)) k) = map_option absGroup (map_of (gGroups updated) k)"
  proof (cases "map_of (gGroups original) k")
    case None
    then show ?thesis unfolding map_of_applyMap w using new [of k]
      by (cases "map_of (gGroups updated) k") (simp_all add: groupWrite_def groupSame_def)
  next
    case (Some og)
    show ?thesis
    proof (cases "map_of (gGroups updated) k")
      case None
      then show ?thesis unfolding map_of_applyMap w using Some by (simp add: groupWrite_def groupSame_def)
    next
      case u: (Some ug)
      obtain r v b where c: "computeGroupUpdate og ug = (r, v, b)" by (metis surj_pair)
      note s = update_okD [OF sub [OF Some u] c]
      show ?thesis unfolding map_of_applyMap w using Some u c s by (cases b) (simp_all add: groupWrite_def groupSame_def apply_unchanged)
    qed
  qed
  assume "\<not> muMembers m"
  then have d': "map_of (gGroups original) k = None \<longleftrightarrow> map_of (gGroups updated) k = None" for k
    by (simp add: m computeGroupsMapUpdate_def membersUpdated_iff dom_eq_iff)
  show "map_option absGroup (map_of (applyMap False applyGroup (gGroups original) (muWrite m)) k) = map_option absGroup (map_of (gGroups updated) k)"
    unfolding map_of_applyMap m groups_map_of [OF d] using d' [of k]
    by (cases "map_of (gGroups original) k"; cases "map_of (gGroups updated) k")
      (auto simp: groupWrite_def split: prod.splits dest: update_okD [OF sub])
qed

lemma read_write: "groupWrite x y = None \<Longrightarrow> groupRead x y = None"
  by (auto simp: groupWrite_def groupRead_def split: option.splits prod.splits if_splits)

lemma groupResult_ok:
  assumes wf: "wfGroup original" "wfGroup updated"
    and sub: "\<And>k og ug. map_of (gGroups original) k = Some og \<Longrightarrow> map_of (gGroups updated) k = Some ug \<Longrightarrow> update_ok og ug"
    and new: "\<And>k ug. map_of (gGroups original) k = None \<Longrightarrow> map_of (gGroups updated) k = Some ug \<Longrightarrow>
      absGroup (asAddedGroup ug (fst (snd (computeGroupUpdate NewConfigGroup ug)))) = absGroup ug"
  shows "update_ok original updated"
proof -
  let ?v = "computeValuesMapUpdate (gValues original) (gValues updated)"
  let ?p = "computePoliciesMapUpdate (gPolicies original) (gPolicies updated)"
  let ?g = "groupsUpdate original updated"
  have d: "distinct (map fst (gValues original))" "distinct (map fst (gValues updated))"
    "distinct (map fst (gPolicies original))" "distinct (map fst (gPolicies updated))"
    "distinct (map fst (gGroups original))" "distinct (map fst (gGroups updated))"
    using wf wfGroup_eq [of original] wfGroup_eq [of updated] by blast+
  have reads: "muRead ?v = []" "muRead ?p = []"
    by (simp_all add: computeValuesMapUpdate_def computePoliciesMapUpdate_def computeItemsMapUpdate_def)
  have rg: "muWrite ?g = [] \<Longrightarrow> muRead ?g = []"
    unfolding map_of_empty_iff groups_map_of [OF d(5,6)] using read_write by blast
  note v = apply_items [OF d(1,2), where z = "[]", OF refl, folded computeValuesMapUpdate_def]
  note p = apply_items [OF d(3,4), where z = None, OF refl, folded computePoliciesMapUpdate_def]
  note g = apply_groups [OF d(5,6) sub new refl]
  have e1: "absItems (gValues original) = absItems (gValues updated) \<longleftrightarrow> \<not> muMembers ?v \<and> muWrite ?v = []"
    unfolding computeValuesMapUpdate_def by (rule absItems_eq_iff [OF d(1,2)])
  have e2: "absItems (gPolicies original) = absItems (gPolicies updated) \<longleftrightarrow> \<not> muMembers ?p \<and> muWrite ?p = []"
    unfolding computePoliciesMapUpdate_def by (rule absItems_eq_iff [OF d(3,4)])
  have e3: "(\<lambda>k. map_option absGroup (map_of (gGroups original) k)) = (\<lambda>k. map_option absGroup (map_of (gGroups updated) k)) \<longleftrightarrow>
      \<not> muMembers ?g \<and> muWrite ?g = []"
    using absGroups_eq_iff [OF d(5,6)] sub by blast
  have eq: "absGroup original = absGroup updated \<longleftrightarrow> gModPolicy original = gModPolicy updated \<and>
      (\<not> muMembers ?v \<and> muWrite ?v = []) \<and> (\<not> muMembers ?p \<and> muWrite ?p = []) \<and> (\<not> muMembers ?g \<and> muWrite ?g = [])"
    using absGroup_eq [of original] absGroup_eq [of updated] e1 e2 e3 by simp
  show ?thesis
  proof (cases "\<not> (muMembers ?p \<or> muMembers ?v \<or> muMembers ?g \<or> gModPolicy original \<noteq> gModPolicy updated)")
    case keep: True
    show ?thesis
    proof (cases "muWrite ?p = [] \<and> muWrite ?v = [] \<and> muWrite ?g = []")
      case True
      then have "computeGroupUpdate original updated = (unchanged original, unchanged original, False)"
        using keep reads rg unfolding computeGroupUpdate_eq groupResult_def unchanged_def by simp
      then show ?thesis using eq True keep by (simp add: update_ok_def)
    next
      case False
      let ?w = "ConfigGroup (gVersion original) '''' (muWrite ?v) (muWrite ?p) (muWrite ?g)"
      have c: "computeGroupUpdate original updated = (ConfigGroup (gVersion original) '''' (muRead ?v) (muRead ?p) (muRead ?g), ?w, True)"
        using keep False unfolding computeGroupUpdate_eq groupResult_def by auto
      have "absGroup (applyGroup original ?w) = absGroup updated"
        unfolding absGroup_eq [of "applyGroup original ?w"] absGroup_eq [of updated] applyGroup_sel
        using v(2) p(2) g(2) keep by simp
      then show ?thesis using c eq False by (auto simp: update_ok_def)
    qed
  next
    case False
    let ?w = "ConfigGroup (gVersion original + 1) (gModPolicy updated) (muWrite ?v @ muSame ?v) (muWrite ?p @ muSame ?p) (muWrite ?g @ muSame ?g)"
    have c: "\<exists>r. computeGroupUpdate original updated = (r, ?w, True)"
      using False unfolding computeGroupUpdate_eq groupResult_def by auto
    have "absGroup (applyGroup original ?w) = absGroup updated"
      unfolding absGroup_eq [of "applyGroup original ?w"] absGroup_eq [of updated] applyGroup_sel
      using v(1) p(1) g(1) by simp
    then show ?thesis using c eq False by (auto simp: update_ok_def)
  qed
qed

lemma asAddedGroup_sel:
  "gModPolicy (asAddedGroup u w) = gModPolicy u" "gValues (asAddedGroup u w) = gValues w"
  "gPolicies (asAddedGroup u w) = gPolicies w" "gGroups (asAddedGroup u w) = gGroups w"
  by (simp_all add: asAddedGroup_def)

text \<open>The write set of a new group is the group itself.\<close>

lemma added_group:
  assumes "wfGroup updated"
    and new: "\<And>k ug. map_of (gGroups updated) k = Some ug \<Longrightarrow>
      absGroup (asAddedGroup ug (fst (snd (computeGroupUpdate NewConfigGroup ug)))) = absGroup ug"
  shows "absGroup (asAddedGroup updated (fst (snd (computeGroupUpdate NewConfigGroup updated)))) = absGroup updated"
proof -
  let ?n = NewConfigGroup
  let ?v = "computeValuesMapUpdate [] (gValues updated)" and ?p = "computePoliciesMapUpdate [] (gPolicies updated)"
  let ?g = "groupsUpdate ?n updated"
  have n: "gVersion ?n = 0" "gModPolicy ?n = ''''" "gValues ?n = []" "gPolicies ?n = []" "gGroups ?n = []" by (simp_all add: NewConfigGroup_def)
  have d: "distinct (map fst (gValues updated))" "distinct (map fst (gPolicies updated))" "distinct (map fst (gGroups updated))"
    using assms(1) wfGroup_eq [of updated] by blast+
  have same: "muSame ?v = []" "muSame ?p = []" "muSame ?g = []"
    by (simp_all add: computeValuesMapUpdate_def computePoliciesMapUpdate_def computeItemsMapUpdate_def computeGroupsMapUpdate_def
        commonGroups_def n List.map_filter_simps)
  have "fst (snd (computeGroupUpdate ?n updated)) =
      ConfigGroup (gVersion (fst (snd (computeGroupUpdate ?n updated)))) (gModPolicy (fst (snd (computeGroupUpdate ?n updated))))
        (muWrite ?v) (muWrite ?p) (muWrite ?g)"
    unfolding computeGroupUpdate_eq [of ?n updated] groupResult_def by (auto simp: n same same(3) [unfolded n])
  then have w: "gValues (fst (snd (computeGroupUpdate ?n updated))) = muWrite ?v" "gPolicies (fst (snd (computeGroupUpdate ?n updated))) = muWrite ?p"
    "gGroups (fst (snd (computeGroupUpdate ?n updated))) = muWrite ?g"
    by (metis configGroup.sel)+
  have "map_option absGroup (map_of (muWrite ?g) k) = map_option absGroup (map_of (gGroups updated) k)" for k
    using groups_map_of(1) [of ?n updated k] d(3) new [of k] by (cases "map_of (gGroups updated) k") (simp_all add: n groupWrite_def)
  then show ?thesis
    using added_items [OF d(1), of "[]"] added_items [OF d(2), of None]
    unfolding absGroup_eq [of updated] absGroup_eq [of "asAddedGroup updated (fst (snd (computeGroupUpdate ?n updated)))"] asAddedGroup_sel w
      computeValuesMapUpdate_def computePoliciesMapUpdate_def by simp
qed

lemma wf_New: "wfGroup NewConfigGroup"
  by (simp add: NewConfigGroup_def)

lemma computeGroupUpdate_ok:
  "wfGroup original \<Longrightarrow> wfGroup updated \<Longrightarrow> update_ok original updated \<and>
     absGroup (asAddedGroup updated (fst (snd (computeGroupUpdate NewConfigGroup updated)))) = absGroup updated"
proof (induction "size updated" arbitrary: original updated rule: less_induct)
  case less
  have sub_wf: "wfGroup ug" "size ug < size updated" if "map_of (gGroups updated) k = Some ug" for k ug
    using that less.prems(2) wfGroup_eq [of updated] size_map_of [OF that] by (auto dest: map_of_SomeD) (cases updated; simp)
  have og_wf: "wfGroup og" if "map_of (gGroups original) k = Some og" for k og
    using that less.prems(1) wfGroup_eq [of original] by (auto dest: map_of_SomeD)
  have new: "absGroup (asAddedGroup ug (fst (snd (computeGroupUpdate NewConfigGroup ug)))) = absGroup ug"
    if "map_of (gGroups updated) k = Some ug" for k ug
    using less.hyps [OF sub_wf(2) [OF that] wf_New sub_wf(1) [OF that]] by blast
  have sub: "update_ok og ug" if "map_of (gGroups original) k = Some og" "map_of (gGroups updated) k = Some ug" for k og ug
    using less.hyps [OF sub_wf(2) [OF that(2)] og_wf [OF that(1)] sub_wf(1) [OF that(2)]] by blast
  have "update_ok original updated" using less.prems by (rule groupResult_ok) (use sub new in blast)+
  moreover have "absGroup (asAddedGroup updated (fst (snd (computeGroupUpdate NewConfigGroup updated)))) = absGroup updated"
    using less.prems(2) by (rule added_group) (use new in blast)
  ultimately show ?case by blast
qed

text \<open>
  C17. A configuration update does what it says. For two well-formed configurations, \<open>Compute\<close> fails exactly when
  they have the same content, and otherwise returns a write set that, applied to the original, gives the content of
  the updated configuration: values, policies, modification policies and sub-groups that were changed, added or
  removed at any depth.
\<close>

theorem Compute_correct:
  assumes "wfGroup original" "wfGroup updated"
  shows "case Compute (Some original) (Some updated) of
      Inr u \<Rightarrow> absGroup original \<noteq> absGroup updated \<and> absGroup (applyGroup original (cuWriteSet u)) = absGroup updated
    | Inl e \<Rightarrow> absGroup original = absGroup updated \<and> e = ErrNew ''no differences detected between original and updated config''"
proof -
  obtain r w b where c: "computeGroupUpdate original updated = (r, w, b)" by (metis surj_pair)
  have "update_ok original updated" using computeGroupUpdate_ok [OF assms] by blast
  from update_okD [OF this c] c show ?thesis by (cases b) (simp_all add: Compute_def)
qed

text \<open>A read set reads from a configuration: it names elements of it at their current version.\<close>

definition itemsRead :: "(string \<times> 'c configItem) list \<Rightarrow> (string \<times> 'c configItem) list \<Rightarrow> bool" where
  "itemsRead original r \<longleftrightarrow> (\<forall>k x. map_of r k = Some x \<longrightarrow> (\<exists>y. map_of original k = Some y \<and> iVersion x = iVersion y))"

inductive readsFrom :: "configGroup \<Rightarrow> configGroup \<Rightarrow> bool" where
  "gVersion r = gVersion original \<Longrightarrow> itemsRead (gValues original) (gValues r) \<Longrightarrow> itemsRead (gPolicies original) (gPolicies r) \<Longrightarrow>
   (\<And>k g. map_of (gGroups r) k = Some g \<Longrightarrow> \<exists>h. map_of (gGroups original) k = Some h \<and> readsFrom h g) \<Longrightarrow> readsFrom original r"

lemma reads_unchanged: "readsFrom g (unchanged g)"
  by (rule readsFrom.intros) (auto simp: unchanged_def itemsRead_def)

lemma itemsRead_same:
  assumes "distinct (map fst original)"
  shows "itemsRead original (muRead (computeItemsMapUpdate z original updated) @ muSame (computeItemsMapUpdate z original updated))"
    "itemsRead original (muRead (computeItemsMapUpdate z original updated))"
proof -
  have "muRead (computeItemsMapUpdate z original updated) = []" by (simp add: computeItemsMapUpdate_def)
  then show "itemsRead original (muRead (computeItemsMapUpdate z original updated) @ muSame (computeItemsMapUpdate z original updated))"
    "itemsRead original (muRead (computeItemsMapUpdate z original updated))"
    by (auto simp: itemsRead_def same_map_of [OF assms] itemSame_def split: option.splits if_splits)
qed

lemma groups_read:
  assumes d: "distinct (map fst (gGroups original))" "distinct (map fst (gGroups updated))"
    and sub: "\<And>k og ug. map_of (gGroups original) k = Some og \<Longrightarrow> map_of (gGroups updated) k = Some ug \<Longrightarrow>
      readsFrom og (fst (computeGroupUpdate og ug))"
    and g: "map_of (muRead (groupsUpdate original updated) @ muSame (groupsUpdate original updated)) k = Some g \<or>
      map_of (muRead (groupsUpdate original updated)) k = Some g"
  shows "\<exists>h. map_of (gGroups original) k = Some h \<and> readsFrom h g"
proof -
  have "groupRead (map_of (gGroups original) k) (map_of (gGroups updated) k) = Some g \<or>
      groupSame (map_of (gGroups original) k) (map_of (gGroups updated) k) = Some g"
    using g unfolding map_of_append map_add_def groups_map_of [OF d] by (auto split: option.splits)
  then obtain og ug where k: "map_of (gGroups original) k = Some og" "map_of (gGroups updated) k = Some ug"
    and "g = fst (computeGroupUpdate og ug)"
    by (cases "map_of (gGroups original) k"; cases "map_of (gGroups updated) k")
      (auto simp: groupRead_def groupSame_def split: prod.splits if_splits)
  then show ?thesis using sub by blast
qed

lemma computeGroupUpdate_reads: "wfGroup original \<Longrightarrow> wfGroup updated \<Longrightarrow> readsFrom original (fst (computeGroupUpdate original updated))"
proof (induction "size updated" arbitrary: original updated rule: less_induct)
  case less
  let ?v = "computeValuesMapUpdate (gValues original) (gValues updated)"
  let ?p = "computePoliciesMapUpdate (gPolicies original) (gPolicies updated)"
  let ?g = "groupsUpdate original updated"
  have d: "distinct (map fst (gValues original))" "distinct (map fst (gPolicies original))"
    "distinct (map fst (gGroups original))" "distinct (map fst (gGroups updated))"
    using less.prems wfGroup_eq [of original] wfGroup_eq [of updated] by blast+
  have sub: "readsFrom og (fst (computeGroupUpdate og ug))" if k: "map_of (gGroups original) k = Some og" "map_of (gGroups updated) k = Some ug" for k og ug
  proof (rule less.hyps)
    show "size ug < size updated" using size_map_of [OF k(2)] by (cases updated) simp
    show "wfGroup og" "wfGroup ug" using less.prems wfGroup_eq [of original] wfGroup_eq [of updated] k by (auto dest!: map_of_SomeD)
  qed
  note v = itemsRead_same [OF d(1), of "[]" "gValues updated", folded computeValuesMapUpdate_def]
  note p = itemsRead_same [OF d(2), of None "gPolicies updated", folded computePoliciesMapUpdate_def]
  note g = groups_read [OF d(3,4) sub]
  have "fst (computeGroupUpdate original updated) \<in> {unchanged original,
      ConfigGroup (gVersion original) '''' (muRead ?v) (muRead ?p) (muRead ?g),
      ConfigGroup (gVersion original) '''' (muRead ?v @ muSame ?v) (muRead ?p @ muSame ?p) (muRead ?g @ muSame ?g)}"
    unfolding computeGroupUpdate_eq [of original updated] groupResult_def unchanged_def by simp
  moreover have "readsFrom original (ConfigGroup (gVersion original) '''' (muRead ?v) (muRead ?p) (muRead ?g))"
    by (rule readsFrom.intros) (use v(2) p(2) g in simp_all)
  moreover have "readsFrom original (ConfigGroup (gVersion original) '''' (muRead ?v @ muSame ?v) (muRead ?p @ muSame ?p) (muRead ?g @ muSame ?g))"
    by (rule readsFrom.intros) (use v(1) p(1) g in simp_all)
  ultimately show ?case using reads_unchanged by auto
qed

text \<open>The read set of an update names elements of the original configuration at their versions.\<close>

theorem Compute_reads:
  assumes "wfGroup original" "wfGroup updated" "Compute (Some original) (Some updated) = Inr u"
  shows "readsFrom original (cuReadSet u)"
  using computeGroupUpdate_reads [OF assms(1,2)] assms(3) by (auto simp: Compute_def split: prod.splits if_splits)

text \<open>A channel in which one organisation is replaced by another and a value of a third is changed.\<close>

definition test_org :: "byte \<Rightarrow> configGroup" where
  "test_org b = ConfigGroup 3 ''Admins'' [(''MSP'', \<lparr>iVersion = 1, iModPolicy = ''Admins'', iContent = [b]\<rparr>)] [] []"

definition test_config :: "(string \<times> configGroup) list \<Rightarrow> configGroup" where
  "test_config orgs = ConfigGroup 0 '''' [] [] [(''Application'', ConfigGroup 1 ''Admins'' [] [] orgs)]"

theorem Compute_correct_witness:
  "case Compute (Some (test_config [(''Org1'', test_org 1), (''Org2'', test_org 2)])) (Some (test_config [(''Org1'', test_org 5), (''Org3'', test_org 3)])) of
      Inr u \<Rightarrow> absGroup (applyGroup (test_config [(''Org1'', test_org 1), (''Org2'', test_org 2)]) (cuWriteSet u)) =
        absGroup (test_config [(''Org1'', test_org 5), (''Org3'', test_org 3)])
    | Inl e \<Rightarrow> False"
proof -
  let ?o = "test_config [(''Org1'', test_org 1), (''Org2'', test_org 2)]" and ?u = "test_config [(''Org1'', test_org 5), (''Org3'', test_org 3)]"
  have wf: "wfGroup ?o" "wfGroup ?u" by (simp_all add: test_config_def test_org_def)
  have "map_option absGroup (map_of (gGroups ?o) ''Application'') \<noteq> map_option absGroup (map_of (gGroups ?u) ''Application'')"
    by (auto simp: test_config_def test_org_def absItems_def fun_eq_iff)
  then have "absGroup ?o \<noteq> absGroup ?u" using absGroup_eq [of ?o] absGroup_eq [of ?u] by (metis abs_group.inject)
  then show ?thesis using Compute_correct [OF wf] by (auto split: sum.splits)
qed

end
