(* ===== verification/CertPool.thy ===== *)
theory CertPool
  imports Status
begin

text \<open>
  The pool of TLS certificates, \<^verbatim>\<open>pkg/core/config/comm/tls/certpool.go\<close>. \<open>Add\<close> queues certificates and marks the pool
  dirty; \<open>Get\<close> takes the mark away and rebuilds the pool. A certificate is a pointer (where it was parsed), a subject
  and its encoding; \<open>x509.CertPool\<close> is the list of its certificates, to which \<open>AddCert\<close> adds a certificate whose
  encoding is not there yet. The system pool is read from the machine and is an argument. The operations are given
  sequentially and as a step relation of any number of Go routines, whose steps are the atomic actions and the
  critical sections of the code.
\<close>

record cert =
  certPtr :: "string list"
  RawSubject :: string
  Raw :: string

definition Equal :: "cert \<Rightarrow> cert \<Rightarrow> bool" where
  "Equal c d \<longleftrightarrow> Raw c = Raw d"

definition AddCert :: "cert \<Rightarrow> cert list \<Rightarrow> cert list" where
  "AddCert c pool = (if list_ex (Equal c) pool then pool else pool @ [c])"

record certPool =
  pool :: "cert list"
  certs :: "cert list"
  certsByName :: "string \<Rightarrow> nat list"
  dirty :: bool
  systemCertPool :: bool

definition loadSystemCertPool :: "error + cert list \<Rightarrow> bool \<Rightarrow> error + cert list" where
  "loadSystemCertPool sys useSystemCertPool = (if \<not> useSystemCertPool then Inr [] else sys)"

definition NewCertPool :: "error + cert list \<Rightarrow> bool \<Rightarrow> error + certPool" where
  "NewCertPool sys useSystemCertPool =
     (case loadSystemCertPool sys useSystemCertPool of Inl e \<Rightarrow> Inl e
      | Inr c \<Rightarrow> Inr \<lparr>pool = c, certs = [], certsByName = (\<lambda>_. []), dirty = False, systemCertPool = useSystemCertPool\<rparr>)"

fun removeDuplicates :: "string list set \<Rightarrow> cert list \<Rightarrow> cert list" where
  "removeDuplicates encountered [] = []"
| "removeDuplicates encountered (c # cs) =
     (if certPtr c \<in> encountered then removeDuplicates encountered cs
      else c # removeDuplicates (insert (certPtr c) encountered) cs)"

text \<open>A certificate is known if one of those with its subject is equal to it.\<close>

definition isKnown :: "certPool \<Rightarrow> cert \<Rightarrow> bool" where
  "isKnown c cert \<longleftrightarrow> list_ex (\<lambda>p. Equal (certs c ! p) cert) (certsByName c (RawSubject cert))"

definition filterCerts :: "certPool \<Rightarrow> cert option list \<Rightarrow> cert list" where
  "filterCerts c cs = removeDuplicates {} (filter (\<lambda>cert. \<not> isKnown c cert) (List.map_filter id cs))"

definition storeCert :: "cert \<Rightarrow> certPool \<Rightarrow> certPool" where
  "storeCert newCert c =
     (let name = RawSubject newCert in
      c\<lparr>certsByName := (certsByName c)(name := certsByName c name @ [length (certs c)]), certs := certs c @ [newCert]\<rparr>)"

text \<open>The critical section of \<open>Add\<close>.\<close>

definition storeCerts :: "cert list \<Rightarrow> certPool \<Rightarrow> certPool" where
  "storeCerts new c = (fold storeCert new c)\<lparr>dirty := True\<rparr>"

definition pool_Add :: "cert option list \<Rightarrow> certPool \<Rightarrow> certPool" where
  "pool_Add cs c =
     (if cs = [] then c
      else (let certsToBeAdded = filterCerts c cs in
            if certsToBeAdded \<noteq> [] then storeCerts certsToBeAdded c else c))"

text \<open>The critical section of \<open>swapCertPool\<close>, entered with a new pool.\<close>

definition installPool :: "cert list \<Rightarrow> certPool \<Rightarrow> certPool" where
  "installPool newCertPool c = c\<lparr>pool := fold AddCert (certs c) newCertPool\<rparr>"

definition swapCertPool :: "error + cert list \<Rightarrow> certPool \<Rightarrow> error + certPool" where
  "swapCertPool sys c =
     (case loadSystemCertPool sys (systemCertPool c) of Inl e \<Rightarrow> Inl e | Inr new \<Rightarrow> Inr (installPool new c))"

definition pool_Get :: "error + cert list \<Rightarrow> certPool \<Rightarrow> certPool \<times> (error + cert list)" where
  "pool_Get sys c =
     (if dirty c then
        (let c1 = c\<lparr>dirty := False\<rparr> in
         case swapCertPool sys c1 of Inl e \<Rightarrow> (c1, Inl e) | Inr c2 \<Rightarrow> (c2, Inr (pool c2)))
      else (c, Inr (pool c)))"

section \<open>The index by name\<close>

definition index_ok :: "certPool \<Rightarrow> bool" where
  "index_ok c \<longleftrightarrow> (\<forall>n. certsByName c n = filter (\<lambda>i. RawSubject (certs c ! i) = n) [0..<length (certs c)])"

lemma index_ok_New: "NewCertPool sys u = Inr c \<Longrightarrow> index_ok c"
  by (auto simp: NewCertPool_def index_ok_def split: sum.splits)

lemma index_ok_storeCert: "index_ok c \<Longrightarrow> index_ok (storeCert d c)"
proof -
  assume ok: "index_ok c"
  have "filter (\<lambda>i. RawSubject ((certs c @ [d]) ! i) = n) [0..<Suc (length (certs c))] =
      filter (\<lambda>i. RawSubject (certs c ! i) = n) [0..<length (certs c)] @ (if RawSubject d = n then [length (certs c)] else [])" for n
    by (auto simp: nth_append intro: filter_cong)
  then show ?thesis using ok by (simp add: index_ok_def storeCert_def Let_def)
qed

lemma index_ok_fold: "index_ok c \<Longrightarrow> index_ok (fold storeCert ds c)"
  by (induction ds arbitrary: c) (simp_all add: index_ok_storeCert)

lemma index_ok_upd [simp]: "index_ok (c\<lparr>dirty := b\<rparr>) = index_ok c" "index_ok (c\<lparr>pool := p\<rparr>) = index_ok c"
  by (simp_all add: index_ok_def)

lemma index_ok_steps:
  "index_ok c \<Longrightarrow> index_ok (storeCerts ds c)" "index_ok c \<Longrightarrow> index_ok (installPool p c)"
  by (simp_all add: storeCerts_def installPool_def index_ok_fold)

lemma isKnown_iff:
  "index_ok c \<Longrightarrow> isKnown c d \<longleftrightarrow> (\<exists>e \<in> set (certs c). RawSubject e = RawSubject d \<and> Raw e = Raw d)"
  by (auto simp: index_ok_def isKnown_def list_ex_iff Equal_def in_set_conv_nth) (metis nth_mem)

section \<open>Contents\<close>

definition contents :: "cert list \<Rightarrow> string set" where
  "contents cs = Raw ` set cs"

lemma contents_simps [simp]:
  "contents [] = {}" "contents (cs @ ds) = contents cs \<union> contents ds" "contents (c # cs) = insert (Raw c) (contents cs)"
  by (auto simp: contents_def)

lemma contents_AddCert [simp]: "contents (AddCert c p) = insert (Raw c) (contents p)"
  by (auto simp: AddCert_def list_ex_iff Equal_def contents_def)

lemma contents_fold_AddCert [simp]: "contents (fold AddCert cs p) = contents p \<union> contents cs"
  by (induction cs arbitrary: p) auto

lemma storeCert_fields [simp]:
  "certs (fold storeCert ds c) = certs c @ ds" "pool (fold storeCert ds c) = pool c"
  "systemCertPool (fold storeCert ds c) = systemCertPool c"
  by (induction ds arbitrary: c) (simp_all add: storeCert_def Let_def)

lemma storeCerts_fields [simp]:
  "certs (storeCerts ds c) = certs c @ ds" "pool (storeCerts ds c) = pool c" "dirty (storeCerts ds c)"
  "systemCertPool (storeCerts ds c) = systemCertPool c"
  by (simp_all add: storeCerts_def)

lemma installPool_fields [simp]:
  "certs (installPool p c) = certs c" "dirty (installPool p c) = dirty c"
  "systemCertPool (installPool p c) = systemCertPool c" "contents (pool (installPool p c)) = contents p \<union> contents (certs c)"
  by (simp_all add: installPool_def)

lemma removeDuplicates_subset: "set (removeDuplicates seen cs) \<subseteq> set cs"
  by (induction seen cs rule: removeDuplicates.induct) auto

text \<open>Certificates that are the same pointer are the same certificate.\<close>

definition ptrs_ok :: "cert list \<Rightarrow> bool" where
  "ptrs_ok cs \<longleftrightarrow> (\<forall>c \<in> set cs. \<forall>d \<in> set cs. certPtr c = certPtr d \<longrightarrow> c = d)"

lemma removeDuplicates_covers:
  "ptrs_ok cs \<Longrightarrow> c \<in> set cs \<Longrightarrow> certPtr c \<notin> seen \<Longrightarrow> c \<in> set (removeDuplicates seen cs)"
proof (induction seen cs rule: removeDuplicates.induct)
  case (2 seen d cs)
  have ok: "ptrs_ok cs" using 2(3) by (auto simp: ptrs_ok_def)
  show ?case
  proof (cases "c = d")
    case False
    then have c: "c \<in> set cs" and "certPtr c \<noteq> certPtr d" using 2(3,4) by (auto simp: ptrs_ok_def)
    then show ?thesis using 2(1) [OF _ ok c] 2(2) [OF _ ok c] 2(5) by auto
  qed (use 2(5) in auto)
qed simp

lemma filterCerts_content:
  assumes "index_ok c" "ptrs_ok (List.map_filter id cs)"
  shows "contents (certs c @ filterCerts c cs) = contents (certs c) \<union> contents (List.map_filter id cs)"
proof -
  have "set (filterCerts c cs) \<subseteq> set (List.map_filter id cs)"
    unfolding filterCerts_def using removeDuplicates_subset [of "{}"] by fastforce
  moreover have "Raw d \<in> contents (certs c @ filterCerts c cs)" if "d \<in> set (List.map_filter id cs)" for d
  proof (cases "isKnown c d")
    case True
    then obtain e where "e \<in> set (certs c)" "Raw e = Raw d" using isKnown_iff [OF assms(1)] by blast
    then show ?thesis by (metis UnCI contents_def contents_simps(2) imageI)
  next
    case False
    have "ptrs_ok (filter (\<lambda>cert. \<not> isKnown c cert) (List.map_filter id cs))"
      using assms(2) by (auto simp: ptrs_ok_def)
    then have "d \<in> set (filterCerts c cs)"
      unfolding filterCerts_def by (rule removeDuplicates_covers) (use that False in simp_all)
    then show ?thesis by (auto simp: contents_def)
  qed
  ultimately show ?thesis by (auto simp: contents_def)
qed


section \<open>Interleaving\<close>

datatype pool_pc = Free | Swapping | Loaded "cert list" | Reading | Filtered "cert list" | Got "error + cert list"

record pool_sys =
  cp :: certPool
  pcs :: "nat \<Rightarrow> pool_pc"
  loadFailed :: bool

fun canCall :: "pool_pc \<Rightarrow> bool" where
  "canCall Free = True" | "canCall (Got r) = True" | "canCall _ = False"

fun swaps :: "pool_pc \<Rightarrow> bool" where
  "swaps Swapping = True" | "swaps (Loaded p) = True" | "swaps _ = False"

text \<open>\<open>S\<close> bounds what the system pool holds.\<close>

inductive pool_step :: "string set \<Rightarrow> pool_sys \<Rightarrow> pool_sys \<Rightarrow> bool" for S :: "string set" where
  get_dirty: "canCall (pcs s t) \<Longrightarrow> dirty (cp s) \<Longrightarrow>
    pool_step S s (s\<lparr>cp := (cp s)\<lparr>dirty := False\<rparr>, pcs := (pcs s)(t := Swapping)\<rparr>)"
| get_clean: "canCall (pcs s t) \<Longrightarrow> \<not> dirty (cp s) \<Longrightarrow> pool_step S s (s\<lparr>pcs := (pcs s)(t := Reading)\<rparr>)"
| load_fails: "pcs s t = Swapping \<Longrightarrow> loadSystemCertPool (Inl e) (systemCertPool (cp s)) = Inl e \<Longrightarrow>
    pool_step S s (s\<lparr>pcs := (pcs s)(t := Got (Inl e)), loadFailed := True\<rparr>)"
| load: "pcs s t = Swapping \<Longrightarrow> loadSystemCertPool sys (systemCertPool (cp s)) = Inr p \<Longrightarrow> contents p \<subseteq> S \<Longrightarrow>
    pool_step S s (s\<lparr>pcs := (pcs s)(t := Loaded p)\<rparr>)"
| install: "pcs s t = Loaded p \<Longrightarrow> pool_step S s (s\<lparr>cp := installPool p (cp s), pcs := (pcs s)(t := Reading)\<rparr>)"
| read: "pcs s t = Reading \<Longrightarrow> pool_step S s (s\<lparr>pcs := (pcs s)(t := Got (Inr (pool (cp s))))\<rparr>)"
| filter: "canCall (pcs s t) \<Longrightarrow> cs \<noteq> [] \<Longrightarrow> filterCerts (cp s) cs = new \<Longrightarrow> new \<noteq> [] \<Longrightarrow>
    pool_step S s (s\<lparr>pcs := (pcs s)(t := Filtered new)\<rparr>)"
| filter_none: "canCall (pcs s t) \<Longrightarrow> filterCerts (cp s) cs = [] \<Longrightarrow> pool_step S s (s\<lparr>pcs := (pcs s)(t := Free)\<rparr>)"
| store: "pcs s t = Filtered new \<Longrightarrow> pool_step S s (s\<lparr>cp := storeCerts new (cp s), pcs := (pcs s)(t := Free)\<rparr>)"

inductive pool_reach :: "string set \<Rightarrow> pool_sys \<Rightarrow> pool_sys \<Rightarrow> bool" for S :: "string set" where
  pool_refl: "pool_reach S s s"
| pool_trans: "pool_reach S s s1 \<Longrightarrow> pool_step S s1 s2 \<Longrightarrow> pool_reach S s s2"

definition pool_start :: "certPool \<Rightarrow> pool_sys" where
  "pool_start c = \<lparr>cp = c, pcs = (\<lambda>_. Free), loadFailed = False\<rparr>"

definition pool_inv :: "string set \<Rightarrow> pool_sys \<Rightarrow> bool" where
  "pool_inv S s \<longleftrightarrow> index_ok (cp s) \<and> contents (pool (cp s)) \<subseteq> S \<union> contents (certs (cp s)) \<and>
     (\<forall>t p. pcs s t = Loaded p \<longrightarrow> contents p \<subseteq> S) \<and>
     (loadFailed s \<or> dirty (cp s) \<or> (\<exists>t. swaps (pcs s t)) \<or> contents (certs (cp s)) \<subseteq> contents (pool (cp s)))"

lemma pool_inv_step: "pool_step S s s1 \<Longrightarrow> pool_inv S s \<Longrightarrow> pool_inv S s1"
proof (induction rule: pool_step.induct)
  case (get_dirty s t)
  then have "swaps (pcs (s\<lparr>cp := (cp s)\<lparr>dirty := False\<rparr>, pcs := (pcs s)(t := Swapping)\<rparr>) t)" by simp
  then show ?case using get_dirty.prems unfolding pool_inv_def by auto
next
  case (load s t sys p)
  then have "swaps (pcs (s\<lparr>pcs := (pcs s)(t := Loaded p)\<rparr>) t)" by simp
  then show ?case using load unfolding pool_inv_def by auto
qed (auto simp: pool_inv_def index_ok_steps, (metis canCall.simps swaps.elims(2) swaps.simps)+)

lemma pool_inv_start:
  "NewCertPool sys u = Inr c \<Longrightarrow> contents (pool c) \<subseteq> S \<Longrightarrow> pool_inv S (pool_start c)"
  using index_ok_New [of sys u c] by (auto simp: pool_inv_def pool_start_def NewCertPool_def split: sum.splits)

lemma pool_inv_reach: "pool_reach S s s1 \<Longrightarrow> pool_inv S s \<Longrightarrow> pool_inv S s1"
  by (induction rule: pool_reach.induct) (auto intro: pool_inv_step)


section \<open>Properties\<close>

text \<open>
  A pool that is used by one routine at a time hands out every certificate that was added: \<open>Get\<close> after \<open>Add\<close>
  returns exactly the certificates of the pool before, of the earlier calls and of this one, and those of the system.
\<close>

theorem get_after_add:
  assumes "index_ok c" and "ptrs_ok (List.map_filter id cs)"
    and "dirty c \<or> contents (certs c) \<subseteq> contents (pool c)"
    and "loadSystemCertPool sys (systemCertPool c) = Inr p"
  shows "\<exists>q. snd (pool_Get sys (pool_Add cs c)) = Inr q \<and>
    contents (certs c) \<union> contents (List.map_filter id cs) \<subseteq> contents q \<and>
    contents q \<subseteq> contents p \<union> contents (pool c) \<union> contents (certs c) \<union> contents (List.map_filter id cs)"
proof (cases "cs = [] \<or> filterCerts c cs = []")
  case True
  then have add: "pool_Add cs c = c" by (auto simp: pool_Add_def)
  have "contents (List.map_filter id cs) \<subseteq> contents (certs c)"
    using True filterCerts_content [OF assms(1,2)] by (auto simp: List.map_filter_simps)
  then show ?thesis
    using assms(3,4) by (cases "dirty c") (auto simp: add pool_Get_def swapCertPool_def Let_def installPool_def)
next
  case False
  then have add: "pool_Add cs c = storeCerts (filterCerts c cs) c" by (simp add: pool_Add_def)
  have "snd (pool_Get sys (pool_Add cs c)) = Inr (fold AddCert (certs c @ filterCerts c cs) p)"
    by (simp add: add pool_Get_def swapCertPool_def Let_def installPool_def assms(4))
  moreover have "contents (fold AddCert (certs c @ filterCerts c cs) p) =
      contents p \<union> contents (certs c) \<union> contents (List.map_filter id cs)"
    by (simp only: contents_fold_AddCert filterCerts_content [OF assms(1,2)] Un_assoc)
  ultimately show ?thesis by blast
qed

definition some_cert :: cert where
  "some_cert = \<lparr>certPtr = [''peers'', ''p''], RawSubject = ''CN=p'', Raw = ''p''\<rparr>"

definition new_pool :: certPool where
  "new_pool = \<lparr>pool = [], certs = [], certsByName = (\<lambda>_. []), dirty = False, systemCertPool = True\<rparr>"

theorem get_after_add_witness:
  "\<exists>q. snd (pool_Get (Inr []) (pool_Add [Some some_cert, None] new_pool)) = Inr q \<and> contents q = {''p''}"
  using get_after_add [of new_pool "[Some some_cert, None]" "Inr []" "[]"]
  by (fastforce simp: index_ok_def ptrs_ok_def new_pool_def some_cert_def loadSystemCertPool_def List.map_filter_simps)

lemma cert_pool_complete_facts:
  assumes "NewCertPool sys u = Inr c" and "contents (pool c) \<subseteq> S" and "pool_reach S (pool_start c) s"
  shows "contents (pool (cp s)) \<subseteq> S \<union> contents (certs (cp s))"
    and "\<lbrakk>\<not> loadFailed s; \<not> dirty (cp s); \<forall>t. \<not> swaps (pcs s t)\<rbrakk> \<Longrightarrow> contents (certs (cp s)) \<subseteq> contents (pool (cp s))"
  using pool_inv_reach [OF assms(3) pool_inv_start [OF assms(1,2)]] by (auto simp: pool_inv_def)


lemma new_pool_New: "NewCertPool (Inr []) True = Inr new_pool"
  by (simp add: NewCertPool_def loadSystemCertPool_def new_pool_def)

lemma filter_some: "filterCerts new_pool [Some some_cert] = [some_cert]"
  by (simp add: filterCerts_def isKnown_def new_pool_def List.map_filter_simps)


text \<open>
  What \<open>Get\<close> returns can be too old. A routine that adds a certificate and then calls \<open>Get\<close> gets a pool without it,
  when another routine has taken the dirty mark away and not yet installed the new pool.
\<close>

theorem get_misses_added_cert:
  "\<exists>s1 s2. pool_reach {} (pool_start new_pool) s1 \<and> pcs s1 1 = Free \<and> some_cert \<in> set (certs (cp s1)) \<and>
     pool_reach {} s1 s2 \<and> pcs s2 1 = Got (Inr [])"
proof -
  define c1 where "c1 = storeCerts [some_cert] new_pool"
  define st where "st c pc0 pc1 = \<lparr>cp = c, pcs = (\<lambda>_. Free)(0 := pc0, 1 := pc1), loadFailed = False\<rparr>" for c pc0 pc1
  note intros = pool_step.intros [of "st c pc0 pc1" "1 :: nat" for c pc0 pc1]
  have start: "pool_start new_pool = st new_pool Free Free" by (simp add: pool_start_def st_def fun_eq_iff)
  have 1: "pool_step {} (st new_pool Free Free) (st new_pool Free (Filtered [some_cert]))"
    using intros(7) [of new_pool Free Free "[Some some_cert]" "[some_cert]" "{}"] by (simp add: st_def filter_some)
  have 2: "pool_step {} (st new_pool Free (Filtered [some_cert])) (st c1 Free Free)"
    using intros(9) [of new_pool Free "Filtered [some_cert]" "[some_cert]" "{}"] by (simp add: st_def c1_def)
  have 3: "pool_step {} (st c1 Free Free) (st (c1\<lparr>dirty := False\<rparr>) Swapping Free)"
    using pool_step.get_dirty [of "st c1 Free Free" 0 "{}"] by (simp add: st_def c1_def fun_upd_twist)
  have 4: "pool_step {} (st (c1\<lparr>dirty := False\<rparr>) Swapping Free) (st (c1\<lparr>dirty := False\<rparr>) Swapping Reading)"
    using intros(2) [of "c1\<lparr>dirty := False\<rparr>" Swapping Free "{}"] by (simp add: st_def)
  have 5: "pool_step {} (st (c1\<lparr>dirty := False\<rparr>) Swapping Reading) (st (c1\<lparr>dirty := False\<rparr>) Swapping (Got (Inr [])))"
    using intros(6) [of "c1\<lparr>dirty := False\<rparr>" Swapping Reading "{}"] by (simp add: st_def c1_def new_pool_def)
  have "pool_reach {} (pool_start new_pool) (st c1 Free Free)"
    unfolding start using 1 2 by (meson pool_refl pool_trans)
  moreover have "pool_reach {} (st c1 Free Free) (st (c1\<lparr>dirty := False\<rparr>) Swapping (Got (Inr [])))"
    using 3 4 5 by (meson pool_refl pool_trans)
  moreover have "pcs (st c1 Free Free) 1 = Free \<and> some_cert \<in> set (certs (cp (st c1 Free Free)))"
    by (simp add: st_def c1_def)
  moreover have "pcs (st (c1\<lparr>dirty := False\<rparr>) Swapping (Got (Inr []))) 1 = Got (Inr [])" by (simp add: st_def)
  ultimately show ?thesis by blast
qed

text \<open>
  A failure to read the system pool is reported once and then forgotten: the mark is gone, and every later \<open>Get\<close>
  returns the old pool without an error until the next certificate is added.
\<close>

theorem failed_get_forgets:
  assumes "dirty c" "systemCertPool c"
  shows "snd (pool_Get (Inl e) c) = Inl e"
    and "snd (pool_Get sys (fst (pool_Get (Inl e) c))) = Inr (pool c)"
  using assms by (simp_all add: pool_Get_def swapCertPool_def loadSystemCertPool_def Let_def)

theorem failed_get_forgets_witness:
  "snd (pool_Get (Inr []) (fst (pool_Get (Inl (ErrNew ''io'')) (pool_Add [Some some_cert] new_pool)))) = Inr []"
  using failed_get_forgets(2) [of "pool_Add [Some some_cert] new_pool" "Inr []" "ErrNew ''io''"]
  by (simp add: pool_Add_def filter_some) (simp add: new_pool_def)

end
