(* ===== verification/ConfigLookup.thy ===== *)
theory ConfigLookup
  imports Greylist Retry CertPool FilteredBlock
begin

text \<open>
  Access to configuration values: the lookup over a list of backends (\<^verbatim>\<open>pkg/core/config/lookup\<close>), the
  substitution of variables in paths (\<^verbatim>\<open>pkg/util/pathvar\<close>), the loading of TLS material
  (\<^verbatim>\<open>pkg/core/config/endpoint\<close>) and the timeouts of \<^verbatim>\<open>pkg/fab/endpointconfig.go\<close>. A backend is a function
  from keys to values, or \<open>None\<close> for a nil backend. The conversions of \<^verbatim>\<open>github.com/spf13/cast\<close> are the record
  \<open>cast\<close>; files, environment variables and the parser of certificates are the record \<open>cfg_env\<close>.
\<close>

section \<open>Lookup\<close>

type_synonym 'v backend = "string \<Rightarrow> 'v option"

record 'v cast =
  ToBool :: "'v \<Rightarrow> bool"
  ToString :: "'v \<Rightarrow> string"
  ToInt :: "'v \<Rightarrow> int"
  ToDuration :: "'v \<Rightarrow> int"

record 'v ConfigLookup =
  backends :: "'v backend option list"

fun lookupIn :: "'v backend option list \<Rightarrow> string \<Rightarrow> 'v option" where
  "lookupIn [] key = None"
| "lookupIn (None # bs) key = lookupIn bs key"
| "lookupIn (Some b # bs) key = (case b key of Some v \<Rightarrow> Some v | None \<Rightarrow> lookupIn bs key)"

definition Lookup :: "'v ConfigLookup \<Rightarrow> string \<Rightarrow> 'v option" where
  "Lookup c key = lookupIn (backends c) key"

definition GetBool :: "'v cast \<Rightarrow> 'v ConfigLookup \<Rightarrow> string \<Rightarrow> bool" where
  "GetBool k c key = (case Lookup c key of None \<Rightarrow> False | Some v \<Rightarrow> ToBool k v)"

definition GetString :: "'v cast \<Rightarrow> 'v ConfigLookup \<Rightarrow> string \<Rightarrow> string" where
  "GetString k c key = (case Lookup c key of None \<Rightarrow> '''' | Some v \<Rightarrow> ToString k v)"

definition GetLowerString :: "'v cast \<Rightarrow> 'v ConfigLookup \<Rightarrow> string \<Rightarrow> string" where
  "GetLowerString k c key = (case Lookup c key of None \<Rightarrow> '''' | Some v \<Rightarrow> ToLower (ToString k v))"

definition GetInt :: "'v cast \<Rightarrow> 'v ConfigLookup \<Rightarrow> string \<Rightarrow> int" where
  "GetInt k c key = (case Lookup c key of None \<Rightarrow> 0 | Some v \<Rightarrow> ToInt k v)"

definition GetDuration :: "'v cast \<Rightarrow> 'v ConfigLookup \<Rightarrow> string \<Rightarrow> int" where
  "GetDuration k c key = (case Lookup c key of None \<Rightarrow> 0 | Some v \<Rightarrow> ToDuration k v)"

text \<open>The decoder of \<^verbatim>\<open>mapstructure\<close>, with its hooks, is the argument \<open>decode\<close>; a key that is not found leaves
  the target as it was.\<close>

definition UnmarshalKey :: "('v \<Rightarrow> error + 't) \<Rightarrow> 'v ConfigLookup \<Rightarrow> string \<Rightarrow> 't \<Rightarrow> error + 't" where
  "UnmarshalKey decode c key rawVal = (case Lookup c key of None \<Rightarrow> Inr rawVal | Some v \<Rightarrow> decode v)"

text \<open>The value is that of the first backend that has one.\<close>

lemma lookupIn_first:
  "lookupIn bs key = (case List.map_filter (\<lambda>b. Option.bind b (\<lambda>f. f key)) bs of [] \<Rightarrow> None | v # vs \<Rightarrow> Some v)"
  by (induction bs key rule: lookupIn.induct) (auto simp: List.map_filter_simps split: option.split)

lemma lookupIn_append: "lookupIn (bs @ cs) key = (case lookupIn bs key of Some v \<Rightarrow> Some v | None \<Rightarrow> lookupIn cs key)"
  by (induction bs key rule: lookupIn.induct) (auto split: option.split)

section \<open>Variables in paths\<close>

record cfg_env =
  ReadFile :: "string \<Rightarrow> error + string"
  pemDecode :: "string \<Rightarrow> string option"
  ParseCertificate :: "string \<Rightarrow> error + (string \<times> string)"
  LookupEnv :: "string \<Rightarrow> string option"
  defaultGOPATH :: string
  projectPath :: string

text \<open>\<open>strings.Split\<close> for a separator that is not empty; the number counts the bytes of a separator that are
  still to be skipped.\<close>

fun splitFrom :: "string \<Rightarrow> nat \<Rightarrow> string \<Rightarrow> string \<Rightarrow> string list" where
  "splitFrom sep n acc [] = [rev acc]"
| "splitFrom sep (Suc n) acc (c # cs) = splitFrom sep n acc cs"
| "splitFrom sep 0 acc (c # cs) =
     (if HasPrefix (c # cs) sep then rev acc # splitFrom sep (length sep - 1) [] cs
      else splitFrom sep 0 (c # acc) cs)"

definition Split :: "string \<Rightarrow> string \<Rightarrow> string list" where
  "Split s sep = splitFrom sep 0 [] s"

fun Index :: "string \<Rightarrow> string \<Rightarrow> nat option" where
  "Index [] sub = (if sub = [] then Some 0 else None)"
| "Index (c # cs) sub = (if HasPrefix (c # cs) sub then Some 0 else map_option Suc (Index cs sub))"

definition goPath :: "cfg_env \<Rightarrow> string outcome" where
  "goPath x = (if defaultGOPATH x = '''' then Inl (Panic ''index out of range'')
               else Inr (hd (Split (defaultGOPATH x) '':'')))"

definition CryptoConfigPath :: string where
  "CryptoConfigPath = ''test/fixtures/fabric/v1/crypto-config''"

definition lookupVar :: "cfg_env \<Rightarrow> string \<Rightarrow> string option outcome" where
  "lookupVar x v =
     (if v = ''FABRIC_SDK_GO_PROJECT_PATH'' then Inr (Some (projectPath x))
      else if v = ''GOPATH'' then map_sum id Some (goPath x)
      else if v = ''CRYPTOCONFIG_FIXTURES_PATH'' then Inr (Some CryptoConfigPath)
      else Inr (LookupEnv x v))"

definition substVar :: "cfg_env \<Rightarrow> string \<Rightarrow> string \<Rightarrow> string \<Rightarrow> (string \<times> string) outcome" where
  "substVar x s noMatch sep =
     (case Index s sep of None \<Rightarrow> Inr (noMatch, s)
      | Some endPos \<Rightarrow>
          (case lookupVar x (take endPos s) of Inl e \<Rightarrow> Inl e
           | Inr None \<Rightarrow> Inr (noMatch, s)
           | Inr (Some v) \<Rightarrow> Inr (v, drop (endPos + 1) s)))"

definition Subst :: "cfg_env \<Rightarrow> string \<Rightarrow> string outcome" where
  "Subst x path =
     (let splits = Split path ''${'' in
      map_sum id (\<lambda>parts. hd splits @ concat (map (\<lambda>(v, rest). v @ rest) parts))
        (mapE (\<lambda>s. substVar x s ''${'' ''}'') (tl splits)))"

lemma splitFrom_nonempty [simp]: "splitFrom sep n acc s \<noteq> []"
  by (induction sep n acc s rule: splitFrom.induct) auto

lemma splitFrom_acc: "splitFrom sep n acc s = (rev acc @ hd (splitFrom sep n [] s)) # tl (splitFrom sep n [] s)"
proof (induction s arbitrary: n acc)
  case (Cons c cs)
  show ?case
  proof (cases n)
    case 0
    then show ?thesis using Cons [of 0 "c # acc"] Cons [of 0 "[c]"] by simp
  next
    case (Suc m)
    then show ?thesis using Cons [of m acc] by simp
  qed
qed simp

lemma splitFrom_skip: "length p = n \<Longrightarrow> splitFrom sep n acc (p @ s) = splitFrom sep 0 acc s"
proof (induction p arbitrary: n)
  case (Cons c p)
  then show ?case by (cases n) simp_all
qed simp

lemma Split_sep: "sep \<noteq> [] \<Longrightarrow> splitFrom sep 0 acc (sep @ s) = rev acc # Split s sep"
proof (cases sep)
  case (Cons c cs)
  have "HasPrefix (sep @ s) sep" by simp
  then show ?thesis by (simp add: Cons Split_def splitFrom_skip)
qed simp

text \<open>Up to the first separator nothing is split.\<close>

lemma splitFrom_prefix:
  assumes "\<And>i. i < length pre \<Longrightarrow> \<not> HasPrefix (drop i (pre @ s)) sep"
  shows "splitFrom sep 0 acc (pre @ s) = splitFrom sep 0 (rev pre @ acc) s"
  using assms
proof (induction pre arbitrary: acc)
  case (Cons c pre)
  have "splitFrom sep 0 acc ((c # pre) @ s) = splitFrom sep 0 (c # acc) (pre @ s)"
    using Cons.prems [of 0] by simp
  also have "\<dots> = splitFrom sep 0 (rev pre @ c # acc) s"
    by (rule Cons.IH) (use Cons.prems [of "Suc i" for i] in simp)
  finally show ?case by simp
qed simp

lemma HasPrefix_two: "HasPrefix s [a, b] \<longleftrightarrow> (\<exists>t. s = a # b # t)"
  by (metis HasPrefix_iff prefix_def append_Cons append_Nil)

lemma HasPrefix_one: "HasPrefix s [a] \<longleftrightarrow> (\<exists>t. s = a # t)"
  by (metis HasPrefix_iff prefix_def append_Cons append_Nil)

lemma two_in_append:
  assumes "\<not> Contains pre [a, b]" "s = [] \<or> hd s \<noteq> b \<or> last pre \<noteq> a" "i < length pre"
  shows "\<not> HasPrefix (drop i (pre @ s)) [a, b]"
proof
  assume "HasPrefix (drop i (pre @ s)) [a, b]"
  then obtain t where t: "drop i pre @ s = a # b # t" using assms(3) by (auto simp: HasPrefix_two)
  show False
  proof (cases "drop i pre")
    case Nil
    then show False using assms(3) by simp
  next
    case (Cons c cs)
    show False
    proof (cases cs)
      case Nil
      then have "last pre = c" using Cons by (metis last_drop last_ConsL assms(3))
      then show False using t Cons Nil assms(2) by auto
    next
      case (Cons d ds)
      then have "drop i pre = a # b # ds" using t \<open>drop i pre = c # cs\<close> by simp
      then have "pre = take i pre @ [a, b] @ ds" by (metis append_Cons append_Nil append_take_drop_id)
      then show False using assms(1) by (metis Contains_iff sublist_appendI)
    qed
  qed
qed


lemma Split_at:
  assumes "\<not> Contains pre [a, b]" "a \<noteq> b"
  shows "Split (pre @ [a, b] @ s) [a, b] = pre # Split s [a, b]"
proof -
  have "splitFrom [a, b] 0 [] (pre @ [a, b] @ s) = splitFrom [a, b] 0 (rev pre @ []) ([a, b] @ s)"
    using assms by (intro splitFrom_prefix two_in_append) auto
  also have "\<dots> = pre # Split s [a, b]" by (subst Split_sep) simp_all
  finally show ?thesis by (simp add: Split_def)
qed

lemma Split_none: "\<not> Contains s [a, b] \<Longrightarrow> Split s [a, b] = [s]"
  using splitFrom_prefix [of s "[]" "[a, b]" "[]"] two_in_append [of s a b "[]"] by (simp add: Split_def)

lemma Split_after:
  assumes "\<not> Contains pre [a, b]" "pre \<noteq> []" "last pre \<noteq> a"
  shows "Split (pre @ s) [a, b] = (pre @ hd (Split s [a, b])) # tl (Split s [a, b])"
proof -
  have "splitFrom [a, b] 0 [] (pre @ s) = splitFrom [a, b] 0 (rev pre @ []) s"
    using assms by (intro splitFrom_prefix two_in_append) auto
  then show ?thesis using splitFrom_acc [of "[a, b]" 0 "rev pre" s] by (simp add: Split_def)
qed

lemma Index_at: "c \<notin> set v \<Longrightarrow> Index (v @ c # s) [c] = Some (length v)"
  by (induction v) (auto simp: HasPrefix_one)

lemma Index_none: "c \<notin> set v \<Longrightarrow> Index v [c] = None"
  by (induction v) (auto simp: HasPrefix_one)

lemma Contains_snoc: "Contains (v @ [c]) [a, b] \<longleftrightarrow> Contains v [a, b] \<or> (v \<noteq> [] \<and> last v = a \<and> c = b)"
proof (induction v)
  case (Cons d v)
  then show ?case by (cases v) (auto simp: HasPrefix_two)
qed (simp add: HasPrefix_two)



lemma Subst_variables_facts:
  shows "\<not> Contains path ''${'' \<Longrightarrow> Subst x path = Inr path"
    and "\<lbrakk>\<not> Contains pre ''${''; \<not> Contains s ''${''; CHR ''}'' \<notin> set s\<rbrakk> \<Longrightarrow>
      Subst x (pre @ ''${'' @ s) = Inr (pre @ ''${'' @ s)"
    and "\<lbrakk>\<not> Contains pre ''${''; \<not> Contains v ''${''; CHR ''}'' \<notin> set v\<rbrakk> \<Longrightarrow>
      Subst x (pre @ ''${'' @ v @ ''}'' @ post) =
        (case lookupVar x v of Inl e \<Rightarrow> Inl e
         | Inr None \<Rightarrow> map_sum id (\<lambda>r. pre @ ''${'' @ v @ ''}'' @ r) (Subst x post)
         | Inr (Some val) \<Rightarrow> map_sum id (\<lambda>r. pre @ val @ r) (Subst x post))"
    and "lookupVar x v = Inl e \<Longrightarrow> v = ''GOPATH'' \<and> defaultGOPATH x = '''' \<and> e = Panic ''index out of range''"
proof -
  show "Subst x path = Inr path" if "\<not> Contains path ''${''"
    using Split_none [OF that] by (simp add: Subst_def)
  show "Subst x (pre @ ''${'' @ s) = Inr (pre @ ''${'' @ s)"
    if "\<not> Contains pre ''${''" "\<not> Contains s ''${''" "CHR ''}'' \<notin> set s"
    using Split_at [OF that(1)] Split_none [OF that(2)] Index_none [OF that(3)]
    by (simp add: Subst_def substVar_def)
  show "lookupVar x v = Inl e \<Longrightarrow> v = ''GOPATH'' \<and> defaultGOPATH x = '''' \<and> e = Panic ''index out of range''"
    by (auto simp: lookupVar_def goPath_def split: if_splits)
  assume v: "\<not> Contains pre ''${''" "\<not> Contains v ''${''" "CHR ''}'' \<notin> set v"
  have "\<not> Contains (v @ ''}'') ''${''" using v(2) by (simp add: Contains_snoc)
  from Split_after [OF this, of post]
  have split: "Split (v @ ''}'' @ post) ''${'' = (v @ ''}'' @ hd (Split post ''${'')) # tl (Split post ''${'')" by simp
  show "Subst x (pre @ ''${'' @ v @ ''}'' @ post) =
        (case lookupVar x v of Inl e \<Rightarrow> Inl e
         | Inr None \<Rightarrow> map_sum id (\<lambda>r. pre @ ''${'' @ v @ ''}'' @ r) (Subst x post)
         | Inr (Some val) \<Rightarrow> map_sum id (\<lambda>r. pre @ val @ r) (Subst x post))"
  proof -
    let ?h = "hd (Split post ''${'')" and ?more = "mapE (\<lambda>s. substVar x s ''${'' ''}'') (tl (Split post ''${''))"
    have sv: "substVar x (v @ ''}'' @ ?h) ''${'' ''}'' = (case lookupVar x v of Inl e \<Rightarrow> Inl e
        | Inr None \<Rightarrow> Inr (''${'', v @ ''}'' @ ?h) | Inr (Some val) \<Rightarrow> Inr (val, ?h))"
      using Index_at [OF v(3), of ?h] by (auto simp: substVar_def split: sum.split option.split)
    have "Subst x (pre @ ''${'' @ v @ ''}'' @ post) = map_sum id (\<lambda>parts. pre @ concat (map (\<lambda>(v, rest). v @ rest) parts))
        (mapE (\<lambda>s. substVar x s ''${'' ''}'') ((v @ ''}'' @ ?h) # tl (Split post ''${'')))"
      using Split_at [OF v(1), of "v @ ''}'' @ post"] split by (simp add: Subst_def Let_def)
    moreover have "Subst x post = map_sum id (\<lambda>parts. ?h @ concat (map (\<lambda>(v, rest). v @ rest) parts)) ?more"
      by (simp add: Subst_def Let_def)
    ultimately show ?thesis
      by (cases "lookupVar x v"; cases ?more) (simp_all add: sv del: append_Cons append.simps split: option.split)
  qed
qed

text \<open>
  Substitution of variables in paths. A path without \<open>${\<close> is unchanged, and so is an opening bracket that is
  never closed. The first variable of a path is replaced by its value if it is one of the SDK or is set in the
  environment, and stays as written if it is not; the rest of the path is substituted in the same way, and the value
  is not substituted again. The only failure is that of a GOPATH that is empty.
\<close>

theorem Subst_variables:
  "(\<not> Contains path ''${'' \<longrightarrow> Subst x path = Inr path) \<and>
    (\<not> Contains pre ''${'' \<and> \<not> Contains s ''${'' \<and> CHR ''}'' \<notin> set s \<longrightarrow>
      Subst x (pre @ ''${'' @ s) = Inr (pre @ ''${'' @ s)) \<and>
    (\<not> Contains pre ''${'' \<and> \<not> Contains v ''${'' \<and> CHR ''}'' \<notin> set v \<longrightarrow>
      Subst x (pre @ ''${'' @ v @ ''}'' @ post) =
        (case lookupVar x v of Inl e \<Rightarrow> Inl e
         | Inr None \<Rightarrow> map_sum id (\<lambda>r. pre @ ''${'' @ v @ ''}'' @ r) (Subst x post)
         | Inr (Some val) \<Rightarrow> map_sum id (\<lambda>r. pre @ val @ r) (Subst x post))) \<and>
    (lookupVar x v = Inl e \<longrightarrow> v = ''GOPATH'' \<and> defaultGOPATH x = '''' \<and> e = Panic ''index out of range'')"
  using Subst_variables_facts by blast

definition empty_env :: "cfg_env" where
  "empty_env = \<lparr>ReadFile = (\<lambda>_. Inl (ErrNew ''no such file'')), pemDecode = (\<lambda>s. if s = '''' then None else Some s),
     ParseCertificate = (\<lambda>s. Inr (s, s)), LookupEnv = (\<lambda>_. None), defaultGOPATH = ''/go:/usr/go'', projectPath = ''/sdk''\<rparr>"

theorem Subst_variables_witness:
  "Subst empty_env (''a/'' @ ''${'' @ ''GOPATH'' @ ''}'' @ ''/b'') = Inr ''a//go/b''"
  using conjunct1 [OF conjunct2 [OF conjunct2 [OF Subst_variables
      [where pre = "''a/''" and v = "''GOPATH''" and x = empty_env and post = "''/b''"]]]]
    conjunct1 [OF Subst_variables [where path = "''/b''" and x = empty_env]]
  by (simp add: lookupVar_def goPath_def empty_env_def HasPrefix_def Split_def)

section \<open>TLS material\<close>

record TLSConfig =
  Path :: string
  Pem :: string
  tlsBytes :: string

definition LoadBytes :: "cfg_env \<Rightarrow> TLSConfig \<Rightarrow> error + TLSConfig" where
  "LoadBytes x cfg =
     (if Pem cfg \<noteq> '''' then Inr (cfg\<lparr>tlsBytes := Pem cfg\<rparr>)
      else if Path cfg \<noteq> '''' then
        (case ReadFile x (Path cfg) of
           Inl e \<Rightarrow> Inl (Wrap (''failed to load pem bytes from path '' @ Path cfg) e)
         | Inr b \<Rightarrow> Inr (cfg\<lparr>tlsBytes := b\<rparr>))
      else Inr cfg)"

text \<open>Parsing makes a certificate anew; \<open>ptr\<close> is the pointer to it. It yields the subject and the encoding.\<close>

definition TLSCert :: "cfg_env \<Rightarrow> string list \<Rightarrow> TLSConfig \<Rightarrow> error + (cert option \<times> bool)" where
  "TLSCert x ptr cfg =
     (case pemDecode x (tlsBytes cfg) of
        None \<Rightarrow> Inr (None, False)
      | Some block \<Rightarrow>
          (case ParseCertificate x block of
             Inl e \<Rightarrow> Inl (Wrap ''certificate parsing failed'' e)
           | Inr (subject, raw) \<Rightarrow> Inr (Some \<lparr>certPtr = ptr, RawSubject = subject, Raw = raw\<rparr>, True)))"

section \<open>Timeouts\<close>

datatype TimeoutType =
    PeerConnection | EventReg | QueryT | ExecuteT | OrdererConnection | OrdererResponse | DiscoveryGreylistExpiry
  | ConnectionIdle | CacheSweepInterval | EventServiceIdle | PeerResponse | ResMgmt | ChannelConfigRefresh
  | ChannelMembershipRefresh | DiscoveryConnection | DiscoveryResponse | DiscoveryServiceRefresh
  | SelectionServiceRefresh | OtherTimeout int

abbreviation minute :: int where "minute \<equiv> 60 * second"

text \<open>The key and the default of each kind of timeout, in the order of the cases of \<open>getTimeout\<close>.\<close>

fun timeoutCase :: "TimeoutType \<Rightarrow> (string \<times> int) option" where
  "timeoutCase PeerConnection = Some (''client.peer.timeout.connection'', 10 * second)"
| "timeoutCase PeerResponse = Some (''client.peer.timeout.response'', 3 * minute)"
| "timeoutCase DiscoveryGreylistExpiry = Some (''client.peer.timeout.discovery.greylistExpiry'', 10 * second)"
| "timeoutCase EventReg = Some (''client.eventService.timeout.registrationResponse'', 15 * second)"
| "timeoutCase OrdererConnection = Some (''client.orderer.timeout.connection'', 15 * second)"
| "timeoutCase OrdererResponse = Some (''client.orderer.timeout.response'', 2 * minute)"
| "timeoutCase DiscoveryConnection = Some (''client.discovery.timeout.connection'', 15 * second)"
| "timeoutCase DiscoveryResponse = Some (''client.discovery.timeout.response'', 15 * second)"
| "timeoutCase QueryT = Some (''client.global.timeout.query'', 3 * minute)"
| "timeoutCase ExecuteT = Some (''client.global.timeout.execute'', 3 * minute)"
| "timeoutCase ResMgmt = Some (''client.global.timeout.resmgmt'', 3 * minute)"
| "timeoutCase ConnectionIdle = Some (''client.global.cache.connectionIdle'', 30 * second)"
| "timeoutCase EventServiceIdle = Some (''client.global.cache.eventServiceIdle'', 2 * minute)"
| "timeoutCase ChannelConfigRefresh = Some (''client.global.cache.channelConfig'', 90 * second)"
| "timeoutCase ChannelMembershipRefresh = Some (''client.global.cache.channelMembership'', 60 * second)"
| "timeoutCase DiscoveryServiceRefresh = Some (''client.global.cache.discovery'', 5 * second)"
| "timeoutCase SelectionServiceRefresh = Some (''client.global.cache.selection'', 5 * second)"
| "timeoutCase CacheSweepInterval = Some (''client.cache.interval.sweep'', 15 * second)"
| "timeoutCase (OtherTimeout _) = None"

definition getTimeout :: "'v cast \<Rightarrow> 'v ConfigLookup \<Rightarrow> TimeoutType \<Rightarrow> int" where
  "getTimeout k c tType =
     (case timeoutCase tType of None \<Rightarrow> 0
      | Some (key, dflt) \<Rightarrow> (let timeout = GetDuration k c key in if timeout = 0 then dflt else timeout))"

lemma timeoutCase_positive: "timeoutCase t = Some (key, dflt) \<Longrightarrow> 0 < dflt"
  by (cases t) auto

text \<open>A timeout is never zero, and a configured duration is used as it is.\<close>

lemma getTimeout_spec:
  assumes "timeoutCase t = Some (key, dflt)"
  shows "getTimeout k c t \<noteq> 0" "GetDuration k c key \<noteq> 0 \<Longrightarrow> getTimeout k c t = GetDuration k c key"
    "Lookup c key = None \<Longrightarrow> getTimeout k c t = dflt"
  using assms timeoutCase_positive [OF assms] by (auto simp: getTimeout_def GetDuration_def Let_def)

end
