(* ===== verification/EndpointConfig.thy ===== *)
theory EndpointConfig
  imports ConfigLookup "HOL-Library.AList"
begin

text \<open>
  The endpoint configuration, \<^verbatim>\<open>pkg/fab/endpointconfig.go\<close>: loading the network configuration from the decoded
  sections of the configuration, filling in defaults, entity matchers, and the lookups of peers, orderers and
  channels. The sections decoded by \<^verbatim>\<open>mapstructure\<close> (\<^verbatim>\<open>pkg/fab/api.go\<close>), the compiler of regular expressions and the
  cryptography are the record \<open>ecfg_ext\<close>.

  A Go map is an association list, \<open>None\<close> where a nil map matters. The order in which Go ranges over a map is
  arbitrary and may differ each time: \<open>rangeOrd\<close> gives it for every loop and iteration, named by the first argument.
  Options of a connection are never changed in place after they are shared, except that an endpoint's own options are
  completed, so maps are values.
\<close>

section \<open>Data\<close>

datatype goval = VInt int | VDuration int | VBool bool | VString string

type_synonym 'v gomap = "(string \<times> 'v) list"

record TLSKeyPair =
  kpKey :: TLSConfig
  kpCert :: TLSConfig

record ClientConfig =
  clOrganization :: string
  clTLSClient :: TLSKeyPair

text \<open>\<open>PeerConfig\<close> and \<open>OrdererConfig\<close> of \<^verbatim>\<open>pkg/fab/api.go\<close> are the same struct, as are those of the provider
  interface.\<close>

record endpointEntity =
  eURL :: string
  eGRPCOptions :: "goval gomap option"
  eTLSCACerts :: TLSConfig

record endpointCfg =
  URL :: string
  GRPCOptions :: "goval gomap option"
  TLSCACert :: "cert option"

record QueryChannelConfigPolicy =
  qMinResponses :: int
  qMaxTargets :: int
  qRetryOpts :: Opts

record DiscoveryPolicy =
  dMinResponses :: int
  dMaxTargets :: int
  dRetryOpts :: Opts

record SelectionPolicy =
  SortingStrategy :: string
  selBalancer :: string
  selBlockHeightLagThreshold :: int

record EventServicePolicy =
  ResolverStrategy :: string
  MinBlockHeightResolverMode :: string
  esBalancer :: string
  esBlockHeightLagThreshold :: int
  PeerMonitor :: string
  ReconnectBlockHeightLagThreshold :: int
  PeerMonitorPeriod :: int

record ChannelPolicies =
  QueryChannelConfig :: QueryChannelConfigPolicy
  Discovery :: DiscoveryPolicy
  Selection :: SelectionPolicy
  EventService :: EventServicePolicy

record PeerChannelConfig =
  EndorsingPeer :: bool
  ChaincodeQuery :: bool
  LedgerQuery :: bool
  EventSource :: bool

record ChannelEndpointConfig =
  chOrderers :: "string list"
  chPeers :: "PeerChannelConfig gomap"
  chPolicies :: ChannelPolicies

record organizationEntity =
  oeMSPID :: string
  oeCryptoPath :: string
  oeUsers :: "TLSKeyPair gomap"
  oePeers :: "string list"
  oeCertificateAuthorities :: "string list"

record CertKeyPair =
  ckCert :: string
  ckKey :: string

record OrganizationConfig =
  orgMSPID :: string
  orgCryptoPath :: string
  orgUsers :: "CertKeyPair gomap"
  orgPeers :: "string list"
  orgCertificateAuthorities :: "string list"

record NetworkConfig =
  Channels :: "ChannelEndpointConfig gomap"
  Organizations :: "OrganizationConfig gomap"
  Orderers :: "endpointCfg gomap"
  Peers :: "endpointCfg gomap"

record endpointConfigEntity =
  entClient :: ClientConfig
  entChannels :: "ChannelEndpointConfig gomap"
  entOrganizations :: "organizationEntity gomap"
  entOrderers :: "endpointEntity gomap"
  entPeers :: "endpointEntity gomap"

record NetworkPeer =
  npConfig :: endpointCfg
  npMSPID :: string

record ChannelPeer =
  cpChannelConfig :: PeerChannelConfig
  cpNetworkPeer :: NetworkPeer

record regex =
  MatchString :: "string \<Rightarrow> bool"
  ReplaceAllString :: "string \<Rightarrow> string \<Rightarrow> string"

record MatchConfig =
  Pattern :: string
  URLSubstitutionExp :: string
  SSLTargetOverrideURLSubstitutionExp :: string
  MappedHost :: string
  MappedName :: string
  IgnoreEndpoint :: bool

record matcherEntry =
  mregex :: regex
  matchConfig :: MatchConfig

record 'v EndpointConfig =
  backend :: "'v ConfigLookup"
  networkConfig :: NetworkConfig
  tlsCertPool :: certPool
  peerConfigsByOrg :: "endpointCfg list gomap"
  networkPeers :: "NetworkPeer list"
  ordererConfigs :: "endpointCfg list"
  channelPeersByChannel :: "ChannelPeer list gomap"
  channelOrderersByChannel :: "endpointCfg list gomap"
  tlsClientCerts :: "string list"
  peerMatchers :: "matcherEntry list"
  ordererMatchers :: "matcherEntry list"
  channelMatchers :: "matcherEntry list"
  defaultPeerConfig :: endpointCfg
  defaultOrdererConfig :: endpointCfg
  defaultChannelPolicies :: ChannelPolicies
  defaultChannel :: "ChannelEndpointConfig option"

record 'v ecfg_ext =
  ecCast :: "'v cast"
  ecEnv :: cfg_env
  Compile :: "string \<Rightarrow> error + regex"
  rangeOrd :: "string list \<Rightarrow> string list \<Rightarrow> string list"
  decodeClient :: "'v \<Rightarrow> error + ClientConfig"
  decodeChannels :: "'v \<Rightarrow> error + ChannelEndpointConfig gomap"
  decodeOrganizations :: "'v \<Rightarrow> error + organizationEntity gomap"
  decodeOrderers :: "'v \<Rightarrow> error + endpointEntity gomap"
  decodePeers :: "'v \<Rightarrow> error + endpointEntity gomap"
  decodeMatchers :: "'v \<Rightarrow> error + MatchConfig list gomap"
  systemCerts :: "error + cert list"
  grpcUnavailable :: uint32
  goErrorText :: "error \<Rightarrow> string"
  GetPrivateKeyFromCert :: "string \<Rightarrow> error + string option"
  tlsX509KeyPair :: "string \<Rightarrow> string \<Rightarrow> error + string"
  cryptoX509KeyPair :: "string \<Rightarrow> string \<Rightarrow> error + string"

section \<open>Go idioms\<close>

definition EqualFold :: "string \<Rightarrow> string \<Rightarrow> bool" where
  "EqualFold s t \<longleftrightarrow> ToLower s = ToLower t"

definition ranges :: "'v ecfg_ext \<Rightarrow> string list \<Rightarrow> 'a gomap \<Rightarrow> 'a gomap" where
  "ranges x site m = map (\<lambda>k. (k, the (map_of m k))) (rangeOrd x site (map fst m))"

text \<open>A range visits every key once.\<close>

definition fair :: "'v ecfg_ext \<Rightarrow> bool" where
  "fair x \<longleftrightarrow> (\<forall>site ks. mset (rangeOrd x site ks) = mset ks)"

definition liftE :: "error + 'a \<Rightarrow> 'a outcome" where
  "liftE r = map_sum Err id r"

text \<open>A loop over a map that replaces each value in it, or stops with an error.\<close>

definition rangeUpdate ::
  "'v ecfg_ext \<Rightarrow> string list \<Rightarrow> (string \<Rightarrow> 'a \<Rightarrow> 'a outcome) \<Rightarrow> 'a gomap \<Rightarrow> 'a gomap outcome" where
  "rangeUpdate x site f m =
     foldE (\<lambda>(k, a) m1. bindO (f k a) (\<lambda>b. Inr (AList.update k b m1))) (ranges x site m) m"

text \<open>A loop over a map that makes a new map of the entries for which the body returns a value.\<close>

definition rangeCollect ::
  "'v ecfg_ext \<Rightarrow> string list \<Rightarrow> (string \<Rightarrow> 'a \<Rightarrow> 'b option outcome) \<Rightarrow> 'a gomap \<Rightarrow> 'b gomap outcome" where
  "rangeCollect x site f m =
     foldE (\<lambda>(k, a) m1. bindO (f k a) (\<lambda>r. Inr (case r of None \<Rightarrow> m1 | Some b \<Rightarrow> AList.update k b m1))) (ranges x site m) []"

section \<open>Constants\<close>

definition defaultEntity :: string where "defaultEntity = ''_default''"

definition zeroOpts :: Opts where
  "zeroOpts = \<lparr>Attempts = 0, InitialBackoff = 0, MaxBackoff = 0, BackoffFactor = 0, RetryableCodes = []\<rparr>"

definition defaultDiscoveryRetryableCodes :: "'v ecfg_ext \<Rightarrow> retry_codes" where
  "defaultDiscoveryRetryableCodes x =
     [(GRPCTransportStatus, [grpcUnavailable x]), (DiscoveryServerStatus, [QueryEndorsers])]"

definition defaultDiscoveryRetryOpts :: "'v ecfg_ext \<Rightarrow> Opts" where
  "defaultDiscoveryRetryOpts x =
     \<lparr>Attempts = 6, InitialBackoff = 500 * millisecond, MaxBackoff = 5 * second, BackoffFactor = 7 / 4,
      RetryableCodes = defaultDiscoveryRetryableCodes x\<rparr>"

definition hardDefaultPolicies :: "'v ecfg_ext \<Rightarrow> ChannelPolicies" where
  "hardDefaultPolicies x = \<lparr>
     QueryChannelConfig = \<lparr>qMinResponses = 1, qMaxTargets = 2, qRetryOpts = zeroOpts\<rparr>,
     Discovery = \<lparr>dMinResponses = 1, dMaxTargets = 2, dRetryOpts = defaultDiscoveryRetryOpts x\<rparr>,
     Selection = \<lparr>SortingStrategy = ''BlockHeightPriority'', selBalancer = ''Random'', selBlockHeightLagThreshold = 5\<rparr>,
     EventService = \<lparr>ResolverStrategy = ''PreferOrg'', MinBlockHeightResolverMode = ''ResolveByThreshold'',
       esBalancer = ''Random'', esBlockHeightLagThreshold = 5, PeerMonitor = '''',
       ReconnectBlockHeightLagThreshold = 10, PeerMonitorPeriod = 5 * second\<rparr>\<rparr>"

definition zeroPolicies :: ChannelPolicies where
  "zeroPolicies = \<lparr>
     QueryChannelConfig = \<lparr>qMinResponses = 0, qMaxTargets = 0, qRetryOpts = zeroOpts\<rparr>,
     Discovery = \<lparr>dMinResponses = 0, dMaxTargets = 0, dRetryOpts = zeroOpts\<rparr>,
     Selection = \<lparr>SortingStrategy = '''', selBalancer = '''', selBlockHeightLagThreshold = 0\<rparr>,
     EventService = \<lparr>ResolverStrategy = '''', MinBlockHeightResolverMode = '''',
       esBalancer = '''', esBlockHeightLagThreshold = 0, PeerMonitor = '''',
       ReconnectBlockHeightLagThreshold = 0, PeerMonitorPeriod = 0\<rparr>\<rparr>"

definition zeroChannel :: ChannelEndpointConfig where
  "zeroChannel = \<lparr>chOrderers = [], chPeers = [], chPolicies = zeroPolicies\<rparr>"

definition zeroTLS :: TLSConfig where
  "zeroTLS = \<lparr>Path = '''', Pem = '''', tlsBytes = ''''\<rparr>"


section \<open>Policies of a channel\<close>

definition getChannelPolicies :: "ChannelPolicies \<Rightarrow> ChannelPolicies" where
  "getChannelPolicies p =
     \<lparr>QueryChannelConfig = \<lparr>qMinResponses = qMinResponses (QueryChannelConfig p),
        qMaxTargets = qMaxTargets (QueryChannelConfig p), qRetryOpts = qRetryOpts (QueryChannelConfig p)\<rparr>,
      Discovery = \<lparr>dMinResponses = dMinResponses (Discovery p), dMaxTargets = dMaxTargets (Discovery p),
        dRetryOpts = dRetryOpts (Discovery p)\<rparr>,
      Selection = \<lparr>SortingStrategy = SortingStrategy (Selection p), selBalancer = selBalancer (Selection p),
        selBlockHeightLagThreshold = selBlockHeightLagThreshold (Selection p)\<rparr>,
      EventService = \<lparr>ResolverStrategy = ResolverStrategy (EventService p),
        MinBlockHeightResolverMode = MinBlockHeightResolverMode (EventService p), esBalancer = esBalancer (EventService p),
        esBlockHeightLagThreshold = esBlockHeightLagThreshold (EventService p), PeerMonitor = PeerMonitor (EventService p),
        ReconnectBlockHeightLagThreshold = ReconnectBlockHeightLagThreshold (EventService p),
        PeerMonitorPeriod = PeerMonitorPeriod (EventService p)\<rparr>\<rparr>"

definition addMissingRetryOpts :: "Opts \<Rightarrow> Opts \<Rightarrow> Opts" where
  "addMissingRetryOpts ropts defaultOpts =
     ropts\<lparr>InitialBackoff := (if InitialBackoff ropts = 0 then InitialBackoff defaultOpts else InitialBackoff ropts),
       BackoffFactor := (if BackoffFactor ropts = 0 then BackoffFactor defaultOpts else BackoffFactor ropts),
       MaxBackoff := (if MaxBackoff ropts = 0 then MaxBackoff defaultOpts else MaxBackoff ropts),
       RetryableCodes := (if length (RetryableCodes ropts) = 0 then RetryableCodes defaultOpts else RetryableCodes ropts)\<rparr>"

definition isEmptyOpts :: "Opts \<Rightarrow> bool" where
  "isEmptyOpts ropts \<longleftrightarrow> Attempts ropts = 0 \<and> InitialBackoff ropts = 0 \<and> BackoffFactor ropts = 0 \<and> MaxBackoff ropts = 0 \<and>
     length (RetryableCodes ropts) = 0"

definition addMissingDiscoveryPolicyInfo :: "'v EndpointConfig \<Rightarrow> DiscoveryPolicy \<Rightarrow> DiscoveryPolicy" where
  "addMissingDiscoveryPolicyInfo c policy =
     (let d = Discovery (defaultChannelPolicies c) in
      policy\<lparr>dMaxTargets := (if dMaxTargets policy = 0 then dMaxTargets d else dMaxTargets policy),
        dMinResponses := (if dMinResponses policy = 0 then dMinResponses d else dMinResponses policy),
        dRetryOpts := (if isEmptyOpts (dRetryOpts policy) then dRetryOpts d
                       else addMissingRetryOpts (dRetryOpts policy) (dRetryOpts d))\<rparr>)"

definition addMissingSelectionPolicyInfo :: "'v EndpointConfig \<Rightarrow> SelectionPolicy \<Rightarrow> SelectionPolicy" where
  "addMissingSelectionPolicyInfo c policy =
     (let d = Selection (defaultChannelPolicies c) in
      policy\<lparr>SortingStrategy := (if SortingStrategy policy = '''' then SortingStrategy d else SortingStrategy policy),
        selBalancer := (if selBalancer policy = '''' then selBalancer d else selBalancer policy),
        selBlockHeightLagThreshold :=
          (if selBlockHeightLagThreshold policy = 0 then 5 else selBlockHeightLagThreshold policy)\<rparr>)"

definition addMissingQueryChannelConfigPolicyInfo ::
  "'v EndpointConfig \<Rightarrow> QueryChannelConfigPolicy \<Rightarrow> QueryChannelConfigPolicy" where
  "addMissingQueryChannelConfigPolicyInfo c policy =
     (let d = QueryChannelConfig (defaultChannelPolicies c) in
      policy\<lparr>qMaxTargets := (if qMaxTargets policy = 0 then qMaxTargets d else qMaxTargets policy),
        qMinResponses := (if qMinResponses policy = 0 then qMinResponses d else qMinResponses policy),
        qRetryOpts := (if isEmptyOpts (qRetryOpts policy) then qRetryOpts d
                       else addMissingRetryOpts (qRetryOpts policy) (qRetryOpts d))\<rparr>)"

definition addMissingEventServicePolicyInfo :: "'v EndpointConfig \<Rightarrow> EventServicePolicy \<Rightarrow> EventServicePolicy" where
  "addMissingEventServicePolicyInfo c policy =
     (let d = EventService (defaultChannelPolicies c) in
      policy\<lparr>esBalancer := (if esBalancer policy = '''' then esBalancer d else esBalancer policy),
        esBlockHeightLagThreshold :=
          (if esBlockHeightLagThreshold policy = 0 then esBlockHeightLagThreshold d else esBlockHeightLagThreshold policy),
        ResolverStrategy := (if ResolverStrategy policy = '''' then ResolverStrategy d else ResolverStrategy policy),
        MinBlockHeightResolverMode :=
          (if MinBlockHeightResolverMode policy = '''' then MinBlockHeightResolverMode d
           else MinBlockHeightResolverMode policy),
        PeerMonitor := (if PeerMonitor policy = '''' then PeerMonitor d else PeerMonitor policy),
        ReconnectBlockHeightLagThreshold :=
          (if ReconnectBlockHeightLagThreshold policy = 0 then ReconnectBlockHeightLagThreshold d
           else ReconnectBlockHeightLagThreshold policy),
        PeerMonitorPeriod := (if PeerMonitorPeriod policy = 0 then PeerMonitorPeriod d else PeerMonitorPeriod policy)\<rparr>)"

definition addMissingChannelPoliciesItems :: "'v EndpointConfig \<Rightarrow> ChannelEndpointConfig \<Rightarrow> ChannelPolicies" where
  "addMissingChannelPoliciesItems c chNwCfg =
     (let policies = getChannelPolicies (chPolicies chNwCfg) in
      \<lparr>QueryChannelConfig = addMissingQueryChannelConfigPolicyInfo c (QueryChannelConfig policies),
       Discovery = addMissingDiscoveryPolicyInfo c (Discovery policies),
       Selection = addMissingSelectionPolicyInfo c (Selection policies),
       EventService = addMissingEventServicePolicyInfo c (EventService policies)\<rparr>)"

definition loadDefaultDiscoveryPolicy :: "'v ecfg_ext \<Rightarrow> DiscoveryPolicy \<Rightarrow> DiscoveryPolicy" where
  "loadDefaultDiscoveryPolicy x policy =
     policy\<lparr>dMaxTargets := (if dMaxTargets policy = 0 then 2 else dMaxTargets policy),
       dMinResponses := (if dMinResponses policy = 0 then 1 else dMinResponses policy),
       dRetryOpts := (if length (RetryableCodes (dRetryOpts policy)) = 0
         then (dRetryOpts policy)\<lparr>RetryableCodes := defaultDiscoveryRetryableCodes x\<rparr> else dRetryOpts policy)\<rparr>"

definition loadDefaultSelectionPolicy :: "SelectionPolicy \<Rightarrow> SelectionPolicy" where
  "loadDefaultSelectionPolicy policy =
     policy\<lparr>SortingStrategy := (if SortingStrategy policy = '''' then ''BlockHeightPriority'' else SortingStrategy policy),
       selBalancer := (if selBalancer policy = '''' then ''RoundRobin'' else selBalancer policy),
       selBlockHeightLagThreshold :=
         (if selBlockHeightLagThreshold policy = 0 then 5 else selBlockHeightLagThreshold policy)\<rparr>"

definition loadDefaultQueryChannelPolicy :: "QueryChannelConfigPolicy \<Rightarrow> QueryChannelConfigPolicy" where
  "loadDefaultQueryChannelPolicy policy =
     policy\<lparr>qMaxTargets := (if qMaxTargets policy = 0 then 2 else qMaxTargets policy),
       qMinResponses := (if qMinResponses policy = 0 then 1 else qMinResponses policy)\<rparr>"

definition loadDefaultEventServicePolicy :: "EventServicePolicy \<Rightarrow> EventServicePolicy" where
  "loadDefaultEventServicePolicy policy =
     policy\<lparr>ResolverStrategy := (if ResolverStrategy policy = '''' then ''PreferOrg'' else ResolverStrategy policy),
       MinBlockHeightResolverMode :=
         (if MinBlockHeightResolverMode policy = '''' then ''ResolveByThreshold'' else MinBlockHeightResolverMode policy),
       esBalancer := (if esBalancer policy = '''' then ''Random'' else esBalancer policy),
       esBlockHeightLagThreshold := (if esBlockHeightLagThreshold policy = 0 then 5 else esBlockHeightLagThreshold policy),
       ReconnectBlockHeightLagThreshold :=
         (if ReconnectBlockHeightLagThreshold policy = 0 then 10 else ReconnectBlockHeightLagThreshold policy),
       PeerMonitorPeriod := (if PeerMonitorPeriod policy = 0 then 5 * second else PeerMonitorPeriod policy)\<rparr>"

definition loadDefaultChannelPolicies :: "'v ecfg_ext \<Rightarrow> endpointConfigEntity \<Rightarrow> 'v EndpointConfig \<Rightarrow> 'v EndpointConfig" where
  "loadDefaultChannelPolicies x ent c =
     (let p = (case map_of (entChannels ent) defaultEntity of
                 None \<Rightarrow> getChannelPolicies (hardDefaultPolicies x)
               | Some ch \<Rightarrow> getChannelPolicies (chPolicies ch)) in
      c\<lparr>defaultChannelPolicies :=
        \<lparr>QueryChannelConfig = loadDefaultQueryChannelPolicy (QueryChannelConfig p),
         Discovery = loadDefaultDiscoveryPolicy x (Discovery p),
         Selection = loadDefaultSelectionPolicy (Selection p),
         EventService = loadDefaultEventServicePolicy (EventService p)\<rparr>\<rparr>)"

section \<open>Entity matchers\<close>

fun firstMatcher :: "matcherEntry list \<Rightarrow> string \<Rightarrow> matcherEntry option" where
  "firstMatcher [] name = None"
| "firstMatcher (m # ms) name = (if MatchString (mregex m) name then Some m else firstMatcher ms name)"

definition isPeerToBeIgnored :: "'v EndpointConfig \<Rightarrow> string \<Rightarrow> bool" where
  "isPeerToBeIgnored c peerName =
     (case firstMatcher (peerMatchers c) peerName of Some m \<Rightarrow> IgnoreEndpoint (matchConfig m) | None \<Rightarrow> False)"

definition isOrdererToBeIgnored :: "'v EndpointConfig \<Rightarrow> string \<Rightarrow> bool" where
  "isOrdererToBeIgnored c ordererName =
     (case firstMatcher (ordererMatchers c) ordererName of Some m \<Rightarrow> IgnoreEndpoint (matchConfig m) | None \<Rightarrow> False)"

definition findMatchingPeer :: "'v EndpointConfig \<Rightarrow> string \<Rightarrow> string option" where
  "findMatchingPeer c peerName =
     (case firstMatcher (peerMatchers c) peerName of Some m \<Rightarrow> Some (MappedHost (matchConfig m)) | None \<Rightarrow> None)"

definition regexMatchAndReplace :: "regex \<Rightarrow> string \<Rightarrow> string \<Rightarrow> string" where
  "regexMatchAndReplace r src repl = (if Contains repl ''$'' then ReplaceAllString r src repl else repl)"

definition groupAllMatchers :: "'v ecfg_ext \<Rightarrow> MatchConfig list \<Rightarrow> error + matcherEntry list" where
  "groupAllMatchers x matchers =
     mapE (\<lambda>v. case Compile x (Pattern v) of Inl e \<Rightarrow> Inl e | Inr r \<Rightarrow> Inr \<lparr>mregex = r, matchConfig = v\<rparr>) matchers"

definition matchersOf :: "MatchConfig list gomap \<Rightarrow> string \<Rightarrow> MatchConfig list" where
  "matchersOf ms kind = (case map_of ms kind of Some l \<Rightarrow> l | None \<Rightarrow> [])"

definition compileKind ::
  "'v ecfg_ext \<Rightarrow> MatchConfig list gomap \<Rightarrow> string \<Rightarrow> matcherEntry list \<Rightarrow> matcherEntry list outcome" where
  "compileKind x ms kind old =
     (if length (matchersOf ms kind) > 0 then liftE (groupAllMatchers x (matchersOf ms kind)) else Inr old)"

definition compileAllMatchers :: "'v ecfg_ext \<Rightarrow> MatchConfig list gomap \<Rightarrow> 'v EndpointConfig \<Rightarrow> 'v EndpointConfig outcome" where
  "compileAllMatchers x ms c =
     bindO (compileKind x ms ''channel'' (channelMatchers c)) (\<lambda>chm.
     bindO (compileKind x ms ''orderer'' (ordererMatchers c)) (\<lambda>om.
     bindO (compileKind x ms ''peer'' (peerMatchers c)) (\<lambda>pm.
     Inr (c\<lparr>channelMatchers := chm, ordererMatchers := om, peerMatchers := pm\<rparr>))))"

definition compileMatchers :: "'v ecfg_ext \<Rightarrow> 'v EndpointConfig \<Rightarrow> 'v EndpointConfig outcome" where
  "compileMatchers x c =
     bindO (withMsgO ''failed to parse 'entMatchers' config item''
       (liftE (UnmarshalKey (decodeMatchers x) (backend c) ''entityMatchers'' []))) (\<lambda>ms.
     if length ms = 0 then Inr c else compileAllMatchers x ms c)"


section \<open>Peers and orderers\<close>

definition getOpt :: "goval gomap option \<Rightarrow> string \<Rightarrow> goval option" where
  "getOpt os k = (case os of None \<Rightarrow> None | Some m \<Rightarrow> map_of m k)"

text \<open>An assignment to a nil map panics.\<close>

definition setOpt :: "string \<Rightarrow> goval \<Rightarrow> goval gomap option \<Rightarrow> goval gomap option outcome" where
  "setOpt k v os = (case os of None \<Rightarrow> Inl (Panic ''assignment to entry in nil map'') | Some m \<Rightarrow> Inr (Some (AList.update k v m)))"

definition grpcDefaults :: "goval gomap" where
  "grpcDefaults = [(''keep-alive-time'', VInt 0), (''keep-alive-timeout'', VDuration (20 * second)),
     (''keep-alive-permit'', VBool False), (''fail-fast'', VBool False), (''allow-insecure'', VBool False)]"

definition setMissing :: "string \<times> goval \<Rightarrow> goval gomap option \<Rightarrow> goval gomap option outcome" where
  "setMissing kv os = (if getOpt os (fst kv) = None then setOpt (fst kv) (snd kv) os else Inr os)"

text \<open>\<open>loadDefaultPeer\<close> and \<open>loadDefaultOrderer\<close> have the same body, on the peers and on the orderers.\<close>

definition loadDefaultEndpoint :: "'v ecfg_ext \<Rightarrow> string \<Rightarrow> endpointEntity gomap \<Rightarrow> endpointCfg outcome" where
  "loadDefaultEndpoint x kind entities =
     (let dflt = (case map_of entities defaultEntity of Some e \<Rightarrow> e
                  | None \<Rightarrow> \<lparr>eURL = '''', eGRPCOptions = Some [], eTLSCACerts = zeroTLS\<rparr>) in
      bindO (foldE setMissing grpcDefaults (eGRPCOptions dflt)) (\<lambda>os.
      bindO (withMsgO (''failed to load default '' @ kind @ '' network config'')
        (liftE (TLSCert (ecEnv x) [kind, defaultEntity] (eTLSCACerts dflt)))) (\<lambda>(cert, _).
      Inr \<lparr>URL = '''', GRPCOptions = os, TLSCACert = cert\<rparr>)))"

definition loadDefaultPeer :: "'v ecfg_ext \<Rightarrow> endpointConfigEntity \<Rightarrow> 'v EndpointConfig \<Rightarrow> 'v EndpointConfig outcome" where
  "loadDefaultPeer x ent c = bindO (loadDefaultEndpoint x ''peer'' (entPeers ent)) (\<lambda>d. Inr (c\<lparr>defaultPeerConfig := d\<rparr>))"

definition loadDefaultOrderer :: "'v ecfg_ext \<Rightarrow> endpointConfigEntity \<Rightarrow> 'v EndpointConfig \<Rightarrow> 'v EndpointConfig outcome" where
  "loadDefaultOrderer x ent c =
     bindO (loadDefaultEndpoint x ''orderer'' (entOrderers ent)) (\<lambda>d. Inr (c\<lparr>defaultOrdererConfig := d\<rparr>))"

definition loadDefaultConfigItems ::
  "'v ecfg_ext \<Rightarrow> endpointConfigEntity \<Rightarrow> 'v EndpointConfig \<Rightarrow> 'v EndpointConfig outcome" where
  "loadDefaultConfigItems x ent c =
     bindO (withMsgO ''failed to load default orderer'' (loadDefaultOrderer x ent c)) (\<lambda>c1.
     bindO (withMsgO ''failed to load default peer'' (loadDefaultPeer x ent c1)) (\<lambda>c2.
     Inr (loadDefaultChannelPolicies x ent c2)))"

text \<open>The loop that completes the options keeps the values that are there.\<close>

definition addMissingOptions :: "goval gomap \<Rightarrow> goval gomap \<Rightarrow> goval gomap" where
  "addMissingOptions defaults os =
     fold (\<lambda>(k, v) m. if map_of m k = None then AList.update k v m else m) defaults os"

definition addMissingItems :: "endpointCfg \<Rightarrow> int \<Rightarrow> string \<Rightarrow> endpointCfg \<Rightarrow> endpointCfg" where
  "addMissingItems dflt port name config =
     (let config1 = config\<lparr>
            URL := (if URL config = '''' then (if URL dflt = '''' then name @ '':'' @ itoa port else URL dflt) else URL config),
            TLSCACert := (if TLSCACert config = None then TLSCACert dflt else TLSCACert config)\<rparr> in
      case GRPCOptions config of
        None \<Rightarrow> config1\<lparr>GRPCOptions := GRPCOptions dflt\<rparr>
      | Some os \<Rightarrow>
          if length os = 0 then config1\<lparr>GRPCOptions := GRPCOptions dflt\<rparr>
          else config1\<lparr>GRPCOptions := Some (addMissingOptions (case GRPCOptions dflt of None \<Rightarrow> [] | Some d \<Rightarrow> d) os)\<rparr>)"

definition addMissingPeerConfigItems :: "'v EndpointConfig \<Rightarrow> string \<Rightarrow> endpointCfg \<Rightarrow> endpointCfg" where
  "addMissingPeerConfigItems c name config = addMissingItems (defaultPeerConfig c) 7051 name config"

definition addMissingOrdererConfigItems :: "'v EndpointConfig \<Rightarrow> string \<Rightarrow> endpointCfg \<Rightarrow> endpointCfg" where
  "addMissingOrdererConfigItems c name config = addMissingItems (defaultOrdererConfig c) 7050 name config"

definition endpointFrom :: "'v ecfg_ext \<Rightarrow> string \<Rightarrow> string \<Rightarrow> endpointEntity \<Rightarrow> endpointCfg outcome" where
  "endpointFrom x kind name e =
     bindO (withMsgO (''failed to load '' @ kind @ '' network config'') (liftE (TLSCert (ecEnv x) [kind, name] (eTLSCACerts e)))) (\<lambda>(cert, _).
     Inr \<lparr>URL = eURL e, GRPCOptions = eGRPCOptions e, TLSCACert = cert\<rparr>)"

definition loadAllPeerConfigs ::
  "'v ecfg_ext \<Rightarrow> 'v EndpointConfig \<Rightarrow> endpointEntity gomap \<Rightarrow> endpointCfg gomap outcome" where
  "loadAllPeerConfigs x c entityPeers =
     rangeCollect x [''peers''] (\<lambda>name e.
       if name = defaultEntity \<or> isPeerToBeIgnored c name then Inr None
       else bindO (endpointFrom x ''peer'' name e) (\<lambda>p. Inr (Some (addMissingPeerConfigItems c name p)))) entityPeers"

definition loadAllOrdererConfigs ::
  "'v ecfg_ext \<Rightarrow> 'v EndpointConfig \<Rightarrow> endpointEntity gomap \<Rightarrow> endpointCfg gomap outcome" where
  "loadAllOrdererConfigs x c entityOrderers =
     rangeCollect x [''orderers''] (\<lambda>name e.
       if name = defaultEntity \<or> isOrdererToBeIgnored c name then Inr None
       else bindO (endpointFrom x ''orderer'' name e) (\<lambda>p. Inr (Some (addMissingOrdererConfigItems c name p)))) entityOrderers"

definition getDefaultMatchingURL :: "string \<Rightarrow> string" where
  "getDefaultMatchingURL searchKey = (if Contains searchKey '':'' then searchKey else '''')"

text \<open>The configuration of a mapped host, with a copy of its options.\<close>

definition getMapped :: "endpointCfg gomap \<Rightarrow> endpointCfg \<Rightarrow> string \<Rightarrow> endpointCfg" where
  "getMapped entries dflt host =
     (let cfg = (case map_of entries (ToLower host) of Some p \<Rightarrow> p | None \<Rightarrow> dflt) in
      \<lparr>URL = URL cfg, GRPCOptions = Some (case GRPCOptions cfg of None \<Rightarrow> [] | Some m \<Rightarrow> m), TLSCACert = TLSCACert cfg\<rparr>)"

definition getMappedPeer :: "'v EndpointConfig \<Rightarrow> string \<Rightarrow> endpointCfg" where
  "getMappedPeer c host = getMapped (Peers (networkConfig c)) (defaultPeerConfig c) host"

definition getMappedOrderer :: "'v EndpointConfig \<Rightarrow> string \<Rightarrow> endpointCfg" where
  "getMappedOrderer c host = getMapped (Orderers (networkConfig c)) (defaultOrdererConfig c) host"

text \<open>The substitutions of a matcher, which are the same for peers and orderers.\<close>

definition substituteEndpoint :: "matcherEntry \<Rightarrow> string \<Rightarrow> endpointCfg \<Rightarrow> endpointCfg" where
  "substituteEndpoint matcher key matched =
     (let mc = matchConfig matcher;
          m1 = (if URLSubstitutionExp mc \<noteq> ''''
                then matched\<lparr>URL := regexMatchAndReplace (mregex matcher) key (URLSubstitutionExp mc)\<rparr> else matched);
          m2 = (if SSLTargetOverrideURLSubstitutionExp mc \<noteq> ''''
                then m1\<lparr>GRPCOptions := map_option (AList.update ''ssl-target-name-override''
                  (VString (regexMatchAndReplace (mregex matcher) key (SSLTargetOverrideURLSubstitutionExp mc)))) (GRPCOptions m1)\<rparr>
                else m1)
      in if URL m2 = '''' then m2\<lparr>URL := getDefaultMatchingURL key\<rparr> else m2)"

definition matchPeer :: "'v EndpointConfig \<Rightarrow> string \<Rightarrow> matcherEntry \<Rightarrow> endpointCfg option" where
  "matchPeer c key matcher =
     (if IgnoreEndpoint (matchConfig matcher) then None
      else Some (substituteEndpoint matcher key
        (getMappedPeer c (regexMatchAndReplace (mregex matcher) key (MappedHost (matchConfig matcher))))))"

fun findByURL :: "endpointCfg list \<Rightarrow> string \<Rightarrow> endpointCfg option" where
  "findByURL [] key = None"
| "findByURL (p # ps) key =
     (if EqualFold (URL p) key then Some \<lparr>URL = URL p, GRPCOptions = GRPCOptions p, TLSCACert = TLSCACert p\<rparr>
      else findByURL ps key)"

definition tryMatchingPeerConfig :: "'v ecfg_ext \<Rightarrow> 'v EndpointConfig \<Rightarrow> string \<Rightarrow> bool \<Rightarrow> endpointCfg option" where
  "tryMatchingPeerConfig x c key searchByURL =
     (case firstMatcher (peerMatchers c) key of
        Some matcher \<Rightarrow> matchPeer c key matcher
      | None \<Rightarrow>
          (case map_of (Peers (networkConfig c)) (ToLower key) of
             Some p \<Rightarrow> Some p
           | None \<Rightarrow>
               (case (if searchByURL then findByURL (map snd (ranges x [''url'', key] (Peers (networkConfig c)))) key else None) of
                  Some p \<Rightarrow> Some p
                | None \<Rightarrow>
                    if searchByURL \<and> Contains key '':'' then
                      Some \<lparr>URL = key, GRPCOptions = GRPCOptions (defaultPeerConfig c), TLSCACert = TLSCACert (defaultPeerConfig c)\<rparr>
                    else None)))"

text \<open>For an orderer the second component says that it is to be ignored.\<close>

definition matchOrderer :: "'v EndpointConfig \<Rightarrow> string \<Rightarrow> matcherEntry \<Rightarrow> endpointCfg option \<times> bool" where
  "matchOrderer c key matcher =
     (if IgnoreEndpoint (matchConfig matcher) then (None, True)
      else (Some (substituteEndpoint matcher key
        (getMappedOrderer c (regexMatchAndReplace (mregex matcher) key (MappedHost (matchConfig matcher))))), False))"

definition tryMatchingOrdererConfig :: "'v EndpointConfig \<Rightarrow> string \<Rightarrow> bool \<Rightarrow> endpointCfg option \<times> bool" where
  "tryMatchingOrdererConfig c key searchByURL =
     (case firstMatcher (ordererMatchers c) key of
        Some matcher \<Rightarrow> matchOrderer c key matcher
      | None \<Rightarrow>
          (case map_of (Orderers (networkConfig c)) (ToLower key) of
             Some p \<Rightarrow> (Some p, False)
           | None \<Rightarrow>
               (case (if searchByURL then findByURL (ordererConfigs c) key else None) of
                  Some p \<Rightarrow> (Some p, False)
                | None \<Rightarrow>
                    if searchByURL \<and> Contains key '':'' then
                      (Some \<lparr>URL = key, GRPCOptions = GRPCOptions (defaultOrdererConfig c),
                         TLSCACert = TLSCACert (defaultOrdererConfig c)\<rparr>, False)
                    else (None, False))))"

section \<open>TLS configuration\<close>

definition loadTLS :: "'v ecfg_ext \<Rightarrow> string \<Rightarrow> TLSConfig \<Rightarrow> TLSConfig outcome" where
  "loadTLS x msg t = withMsgO msg (liftE (LoadBytes (ecEnv x) t))"

definition substPath :: "'v ecfg_ext \<Rightarrow> TLSConfig \<Rightarrow> TLSConfig outcome" where
  "substPath x t = bindO (Subst (ecEnv x) (Path t)) (\<lambda>p. Inr (t\<lparr>Path := p\<rparr>))"

definition loadKeyPair :: "'v ecfg_ext \<Rightarrow> string \<Rightarrow> TLSKeyPair \<Rightarrow> TLSKeyPair outcome" where
  "loadKeyPair x who kp =
     bindO (substPath x (kpKey kp)) (\<lambda>key0. bindO (substPath x (kpCert kp)) (\<lambda>cert0.
     bindO (loadTLS x (''failed to load '' @ who @ '' key'') key0) (\<lambda>key.
     bindO (loadTLS x (''failed to load '' @ who @ '' cert'') cert0) (\<lambda>crt.
     Inr \<lparr>kpKey = key, kpCert = crt\<rparr>))))"

definition loadClientTLSConfig :: "'v ecfg_ext \<Rightarrow> endpointConfigEntity \<Rightarrow> endpointConfigEntity outcome" where
  "loadClientTLSConfig x ent =
     bindO (loadKeyPair x ''client'' (clTLSClient (entClient ent))) (\<lambda>kp.
     Inr (ent\<lparr>entClient := \<lparr>clOrganization = ToLower (clOrganization (entClient ent)), clTLSClient = kp\<rparr>\<rparr>))"

definition loadOrgTLSConfig :: "'v ecfg_ext \<Rightarrow> endpointConfigEntity \<Rightarrow> endpointConfigEntity outcome" where
  "loadOrgTLSConfig x ent =
     bindO (rangeUpdate x [''orgs''] (\<lambda>org oc.
       bindO (rangeUpdate x [''users'', org] (\<lambda>user kp. loadKeyPair x ''org'' kp) (oeUsers oc)) (\<lambda>us.
       Inr (oc\<lparr>oeUsers := us\<rparr>))) (entOrganizations ent)) (\<lambda>orgs.
     Inr (ent\<lparr>entOrganizations := orgs\<rparr>))"

definition loadEndpointTLS :: "'v ecfg_ext \<Rightarrow> string \<Rightarrow> endpointEntity \<Rightarrow> endpointEntity outcome" where
  "loadEndpointTLS x kind e =
     bindO (substPath x (eTLSCACerts e)) (\<lambda>t0. bindO (loadTLS x (''failed to load '' @ kind @ '' cert'') t0) (\<lambda>t.
     Inr (e\<lparr>eTLSCACerts := t\<rparr>)))"

definition loadOrdererPeerTLSConfig :: "'v ecfg_ext \<Rightarrow> endpointConfigEntity \<Rightarrow> endpointConfigEntity outcome" where
  "loadOrdererPeerTLSConfig x ent =
     bindO (rangeUpdate x [''tls-orderers''] (\<lambda>_. loadEndpointTLS x ''orderer'') (entOrderers ent)) (\<lambda>os.
     bindO (rangeUpdate x [''tls-peers''] (\<lambda>_. loadEndpointTLS x ''peer'') (entPeers ent)) (\<lambda>ps.
     Inr (ent\<lparr>entOrderers := os, entPeers := ps\<rparr>)))"

definition loadPrivateKeyFromConfig :: "'v ecfg_ext \<Rightarrow> ClientConfig \<Rightarrow> string \<Rightarrow> string list outcome" where
  "loadPrivateKeyFromConfig x cc cb =
     (case tlsX509KeyPair x cb (tlsBytes (kpKey (clTLSClient cc))) of
        Inl e \<Rightarrow> Inl (Err (ErrNew (''Error loading cert/key pair as TLS client credentials: '' @ goErrorText x e)))
      | Inr pair \<Rightarrow> Inr [pair])"

definition loadTLSClientCerts :: "'v ecfg_ext \<Rightarrow> endpointConfigEntity \<Rightarrow> 'v EndpointConfig \<Rightarrow> 'v EndpointConfig outcome" where
  "loadTLSClientCerts x ent c =
     (let cb = tlsBytes (kpCert (clTLSClient (entClient ent))) in
      if length cb = 0 then Inr (c\<lparr>tlsClientCerts := ['''']\<rparr>)
      else (case GetPrivateKeyFromCert x cb of
              Inr (Some pk) \<Rightarrow>
                bindO (withMsgO ''failed to load TLS client certs, failed to get X509KeyPair'' (liftE (cryptoX509KeyPair x cb pk)))
                  (\<lambda>cert. Inr (c\<lparr>tlsClientCerts := [cert]\<rparr>))
            | _ \<Rightarrow>
                bindO (withMsgO ''failed to load TLS client certs'' (loadPrivateKeyFromConfig x (entClient ent) cb))
                  (\<lambda>loaded. Inr (c\<lparr>tlsClientCerts := loaded\<rparr>))))"

definition loadAllTLSConfig ::
  "'v ecfg_ext \<Rightarrow> endpointConfigEntity \<Rightarrow> 'v EndpointConfig \<Rightarrow> (endpointConfigEntity \<times> 'v EndpointConfig) outcome" where
  "loadAllTLSConfig x ent c =
     bindO (withMsgO ''failed to load client TLSConfig '' (loadClientTLSConfig x ent)) (\<lambda>e1.
     bindO (withMsgO ''failed to load org TLSConfig '' (loadOrgTLSConfig x e1)) (\<lambda>e2.
     bindO (withMsgO ''failed to load orderer/peer TLSConfig '' (loadOrdererPeerTLSConfig x e2)) (\<lambda>e3.
     bindO (withMsgO ''failed to load TLS client certs '' (loadTLSClientCerts x e3 c)) (\<lambda>c1.
     Inr (e3, c1)))))"


section \<open>The network configuration\<close>

definition copyPeerChannelConfig :: "PeerChannelConfig \<Rightarrow> PeerChannelConfig" where
  "copyPeerChannelConfig p = \<lparr>EndorsingPeer = EndorsingPeer p, ChaincodeQuery = ChaincodeQuery p,
     LedgerQuery = LedgerQuery p, EventSource = EventSource p\<rparr>"

definition loadChannelEndpointConfig ::
  "'v EndpointConfig \<Rightarrow> ChannelEndpointConfig \<Rightarrow> ChannelEndpointConfig \<Rightarrow> ChannelEndpointConfig" where
  "loadChannelEndpointConfig c chNwCfg defChNwCfg =
     (let chNwCfgPeers = (if length (chPeers chNwCfg) = 0 then chPeers defChNwCfg else chPeers chNwCfg);
          chNwCfgOrderers = (if length (chOrderers chNwCfg) = 0 then chOrderers defChNwCfg else chOrderers chNwCfg)
      in \<lparr>chOrderers = filter (\<lambda>name. \<not> isOrdererToBeIgnored c name) chNwCfgOrderers,
          chPeers = map (\<lambda>(n, p). (n, copyPeerChannelConfig p)) (filter (\<lambda>(n, p). \<not> isPeerToBeIgnored c n) chNwCfgPeers),
          chPolicies = addMissingChannelPoliciesItems c chNwCfg\<rparr>)"

definition loadChannels :: "'v ecfg_ext \<Rightarrow> 'v EndpointConfig \<Rightarrow> ChannelEndpointConfig gomap \<Rightarrow> ChannelEndpointConfig gomap" where
  "loadChannels x c entities =
     (let (first, defChNwCfg) =
        (case map_of entities defaultEntity of
           Some d \<Rightarrow> (loadChannelEndpointConfig c d zeroChannel, d)
         | None \<Rightarrow> (\<lparr>chOrderers = [], chPeers = [], chPolicies = getChannelPolicies (hardDefaultPolicies x)\<rparr>, zeroChannel))
      in fold (\<lambda>(chID, chNwCfg) m.
           if chID = defaultEntity then m
           else AList.update chID (loadChannelEndpointConfig c chNwCfg defChNwCfg) m)
         (ranges x [''channels''] entities) [(defaultEntity, first)])"

definition loadOrganization :: "organizationEntity \<Rightarrow> OrganizationConfig" where
  "loadOrganization oc =
     \<lparr>orgMSPID = oeMSPID oc, orgCryptoPath = oeCryptoPath oc,
      orgUsers = map (\<lambda>(u, kp). (u, \<lparr>ckCert = tlsBytes (kpCert kp), ckKey = tlsBytes (kpKey kp)\<rparr>)) (oeUsers oc),
      orgPeers = oePeers oc, orgCertificateAuthorities = oeCertificateAuthorities oc\<rparr>"

definition loadNetworkConfig :: "'v ecfg_ext \<Rightarrow> endpointConfigEntity \<Rightarrow> 'v EndpointConfig \<Rightarrow> 'v EndpointConfig outcome" where
  "loadNetworkConfig x ent c =
     bindO (loadAllOrdererConfigs x c (entOrderers ent)) (\<lambda>os.
     bindO (loadAllPeerConfigs x c (entPeers ent)) (\<lambda>ps.
     Inr (c\<lparr>networkConfig := \<lparr>Channels = loadChannels x c (entChannels ent),
       Organizations = map (\<lambda>(n, oc). (n, loadOrganization oc)) (entOrganizations ent),
       Orderers = os, Peers = ps\<rparr>\<rparr>)))"

definition usesSystemPool :: "'v ecfg_ext \<Rightarrow> 'v EndpointConfig \<Rightarrow> bool" where
  "usesSystemPool x c = GetBool (ecCast x) (backend c) ''client.tlsCerts.systemCertPool''"

definition verifyPeerConfig :: "'v ecfg_ext \<Rightarrow> 'v EndpointConfig \<Rightarrow> endpointCfg \<Rightarrow> string \<Rightarrow> bool \<Rightarrow> error option" where
  "verifyPeerConfig x c p peerName tlsEnabled =
     (if URL p = '''' then Some (ErrNew (''URL does not exist or empty for peer '' @ peerName))
      else if tlsEnabled \<and> TLSCACert p = None \<and> \<not> usesSystemPool x c
      then Some (ErrNew (''tls.certificate does not exist or empty for peer '' @ peerName))
      else None)"

definition peersOfOrg :: "'v ecfg_ext \<Rightarrow> 'v EndpointConfig \<Rightarrow> string list \<Rightarrow> endpointCfg list" where
  "peersOfOrg x c names =
     List.map_filter (\<lambda>peerName.
       case tryMatchingPeerConfig x c peerName False of None \<Rightarrow> None
       | Some p \<Rightarrow> if verifyPeerConfig x c p peerName (IsTLSEnabled (URL p)) \<noteq> None then None else Some p) names"

definition loadPeerConfigsByOrg :: "'v ecfg_ext \<Rightarrow> 'v EndpointConfig \<Rightarrow> 'v EndpointConfig" where
  "loadPeerConfigsByOrg x c =
     c\<lparr>peerConfigsByOrg := fold (\<lambda>(orgName, oc) m. AList.update (ToLower orgName) (peersOfOrg x c (orgPeers oc)) m)
        (ranges x [''byorg''] (Organizations (networkConfig c))) []\<rparr>"

definition loadNetworkPeers :: "'v ecfg_ext \<Rightarrow> 'v EndpointConfig \<Rightarrow> 'v EndpointConfig" where
  "loadNetworkPeers x c =
     c\<lparr>networkPeers := concat (map (\<lambda>(org, ps).
          case map_of (Organizations (networkConfig c)) org of None \<Rightarrow> []
          | Some oc \<Rightarrow> map (\<lambda>p. \<lparr>npConfig = p, npMSPID = orgMSPID oc\<rparr>) ps)
        (ranges x [''network''] (peerConfigsByOrg c)))\<rparr>"

definition ordererLacksCert :: "'v ecfg_ext \<Rightarrow> 'v EndpointConfig \<Rightarrow> endpointCfg \<Rightarrow> bool" where
  "ordererLacksCert x c o1 \<longleftrightarrow> TLSCACert o1 = None \<and> \<not> usesSystemPool x c \<and>
     AttemptSecured (URL o1) (getOpt (GRPCOptions o1) ''allow-insecure'' = Some (VBool True))"

definition loadOrdererConfigs :: "'v ecfg_ext \<Rightarrow> 'v EndpointConfig \<Rightarrow> 'v EndpointConfig outcome" where
  "loadOrdererConfigs x c =
     bindO (foldE (\<lambda>(name, _) acc.
         case tryMatchingOrdererConfig c name False of
           (Some o1, False) \<Rightarrow>
             if ordererLacksCert x c o1
             then Inl (Err (ErrNew (''Orderer has no certs configured. Make sure TLSCACerts.Pem or TLSCACerts.Path is set for '' @ URL o1)))
             else Inr (acc @ [o1])
         | _ \<Rightarrow> Inr acc) (ranges x [''orderer-configs''] (Orderers (networkConfig c))) []) (\<lambda>os.
     Inr (c\<lparr>ordererConfigs := os\<rparr>))"

definition orgHasPeer :: "'v EndpointConfig \<Rightarrow> OrganizationConfig \<Rightarrow> string \<Rightarrow> bool" where
  "orgHasPeer c org name \<longleftrightarrow>
     list_ex (\<lambda>p. EqualFold p name \<or> (case findMatchingPeer c p of Some peer \<Rightarrow> EqualFold peer name | None \<Rightarrow> False)) (orgPeers org)"

definition peerMSPID :: "'v ecfg_ext \<Rightarrow> 'v EndpointConfig \<Rightarrow> string list \<Rightarrow> string \<Rightarrow> string option" where
  "peerMSPID x c site name =
     (let mspID = fold (\<lambda>(_, org) msp. if orgHasPeer c org name then orgMSPID org else msp)
        (ranges x site (Organizations (networkConfig c))) ''''
      in if mspID \<noteq> '''' then Some mspID else None)"

definition channelPeer ::
  "'v ecfg_ext \<Rightarrow> 'v EndpointConfig \<Rightarrow> string \<Rightarrow> string \<times> PeerChannelConfig \<Rightarrow> ChannelPeer list \<Rightarrow> ChannelPeer list outcome" where
  "channelPeer x c channelID np acc =
     (case np of (peerName, chPeerConfig) \<Rightarrow>
       (case tryMatchingPeerConfig x c (ToLower peerName) False of
          None \<Rightarrow> Inr acc
        | Some p \<Rightarrow>
            (case verifyPeerConfig x c p peerName (IsTLSEnabled (URL p)) of
               Some e \<Rightarrow> Inl (Err e)
             | None \<Rightarrow>
                 (case peerMSPID x c [''msp'', channelID, peerName] peerName of
                    None \<Rightarrow> Inl (Err (ErrNew (''unable to find MSP ID for peer : '' @ peerName)))
                  | Some mspID \<Rightarrow>
                      Inr (acc @ [\<lparr>cpChannelConfig = chPeerConfig, cpNetworkPeer = \<lparr>npConfig = p, npMSPID = mspID\<rparr>\<rparr>])))))"

definition loadChannelPeers :: "'v ecfg_ext \<Rightarrow> 'v EndpointConfig \<Rightarrow> 'v EndpointConfig outcome" where
  "loadChannelPeers x c =
     bindO (foldE (\<lambda>(channelID, cc) m.
         bindO (foldE (channelPeer x c channelID) (ranges x [''chpeers'', channelID] (chPeers cc)) []) (\<lambda>ps.
         Inr (AList.update (ToLower channelID) ps m)))
       (ranges x [''channels-peers''] (Channels (networkConfig c))) []) (\<lambda>m.
     Inr (c\<lparr>channelPeersByChannel := m\<rparr>))"

definition channelOrderer :: "'v EndpointConfig \<Rightarrow> string \<Rightarrow> endpointCfg list \<Rightarrow> endpointCfg list outcome" where
  "channelOrderer c ordererName acc =
     (case tryMatchingOrdererConfig c (ToLower ordererName) False of (found, ignoreOrderer) \<Rightarrow>
        if ignoreOrderer then Inr acc
        else (case found of
                None \<Rightarrow> Inl (Err (ErrNew (''Could not find Orderer Config for channel orderer ['' @ ordererName @ '']'')))
              | Some o1 \<Rightarrow> Inr (acc @ [o1])))"

definition loadChannelOrderers :: "'v ecfg_ext \<Rightarrow> 'v EndpointConfig \<Rightarrow> 'v EndpointConfig outcome" where
  "loadChannelOrderers x c =
     bindO (foldE (\<lambda>(channelID, cc) m.
         bindO (foldE (channelOrderer c) (chOrderers cc) []) (\<lambda>os. Inr (AList.update (ToLower channelID) os m)))
       (ranges x [''channels-orderers''] (Channels (networkConfig c))) []) (\<lambda>m.
     Inr (c\<lparr>channelOrderersByChannel := m\<rparr>))"

definition loadTLSCerts :: "'v EndpointConfig \<Rightarrow> cert list" where
  "loadTLSCerts c =
     List.map_filter (\<lambda>p. TLSCACert (npConfig p)) (networkPeers c) @ List.map_filter TLSCACert (ordererConfigs c)"

definition loadTLSCertPool :: "'v ecfg_ext \<Rightarrow> 'v EndpointConfig \<Rightarrow> 'v EndpointConfig outcome" where
  "loadTLSCertPool x c =
     bindO (withMsgO ''failed to create cert pool'' (liftE (NewCertPool (systemCerts x) (usesSystemPool x c)))) (\<lambda>cp0.
     (case pool_Get (systemCerts x) (pool_Add (map Some (loadTLSCerts c)) cp0) of
        (_, Inl e) \<Rightarrow> Inl (Err (ErrWithMessage ''cert pool load failed'' e))
      | (cp1, Inr _) \<Rightarrow> Inr (c\<lparr>tlsCertPool := cp1\<rparr>)))"

definition loadDefaultChannel :: "'v ecfg_ext \<Rightarrow> 'v EndpointConfig \<Rightarrow> 'v EndpointConfig" where
  "loadDefaultChannel x c =
     (case map_of (Channels (networkConfig c)) defaultEntity of
        Some d \<Rightarrow> c\<lparr>defaultChannel := Some \<lparr>chOrderers = chOrderers d, chPeers = chPeers d, chPolicies = chPolicies d\<rparr>,
          networkConfig := (networkConfig c)\<lparr>Channels := AList.delete defaultEntity (Channels (networkConfig c))\<rparr>\<rparr>
      | None \<Rightarrow> c\<lparr>defaultChannel := Some \<lparr>chOrderers = [], chPeers = [], chPolicies = getChannelPolicies (hardDefaultPolicies x)\<rparr>\<rparr>)"

definition loadEndpointConfigEntities ::
  "'v ecfg_ext \<Rightarrow> endpointConfigEntity \<Rightarrow> 'v EndpointConfig \<Rightarrow> 'v EndpointConfig outcome" where
  "loadEndpointConfigEntities x ent c =
     bindO (compileMatchers x c) (\<lambda>c1.
     bindO (withMsgO ''failed to load network TLSConfig'' (loadAllTLSConfig x ent c1)) (\<lambda>(ent1, c2).
     bindO (withMsgO ''failed to network config'' (loadDefaultConfigItems x ent1 c2)) (\<lambda>c3.
     bindO (withMsgO ''failed to network config'' (loadNetworkConfig x ent1 c3)) (\<lambda>c4.
     bindO (withMsgO ''failed to load orderer configs'' (loadOrdererConfigs x (loadNetworkPeers x (loadPeerConfigsByOrg x c4)))) (\<lambda>c5.
     bindO (withMsgO ''failed to load channel peers'' (loadChannelPeers x c5)) (\<lambda>c6.
     bindO (withMsgO ''failed to load channel orderers'' (loadChannelOrderers x c6)) (\<lambda>c7.
     bindO (withMsgO ''failed to load TLS cert pool'' (loadTLSCertPool x c7)) (\<lambda>c8.
     Inr (loadDefaultChannel x c8)))))))))"

definition zeroClient :: ClientConfig where
  "zeroClient = \<lparr>clOrganization = '''', clTLSClient = \<lparr>kpKey = zeroTLS, kpCert = zeroTLS\<rparr>\<rparr>"

definition unmarshalSection ::
  "'v EndpointConfig \<Rightarrow> string \<Rightarrow> string \<Rightarrow> ('v \<Rightarrow> error + 't) \<Rightarrow> 't \<Rightarrow> 't outcome" where
  "unmarshalSection c key field decode zero =
     withMsgO (''failed to parse '' @ [CHR 0x27] @ key @ [CHR 0x27] @ '' config item to endpointConfigurationEntity.'' @ field @ '' type'')
       (liftE (UnmarshalKey decode (backend c) key zero))"

definition loadEndpointConfiguration :: "'v ecfg_ext \<Rightarrow> 'v EndpointConfig \<Rightarrow> 'v EndpointConfig outcome" where
  "loadEndpointConfiguration x c =
     bindO (unmarshalSection c ''client'' ''Client'' (decodeClient x) zeroClient) (\<lambda>cl.
     bindO (unmarshalSection c ''channels'' ''Channels'' (decodeChannels x) []) (\<lambda>chs.
     bindO (unmarshalSection c ''organizations'' ''Organizations'' (decodeOrganizations x) []) (\<lambda>orgs.
     bindO (unmarshalSection c ''orderers'' ''Orderers'' (decodeOrderers x) []) (\<lambda>os.
     bindO (unmarshalSection c ''peers'' ''Peers'' (decodePeers x) []) (\<lambda>ps.
     withMsgO ''failed to load channel configs'' (loadEndpointConfigEntities x
       \<lparr>entClient = cl, entChannels = chs, entOrganizations = orgs, entOrderers = os, entPeers = ps\<rparr> c))))))"

definition zeroConfig :: "'v ConfigLookup \<Rightarrow> 'v EndpointConfig" where
  "zeroConfig b = \<lparr>backend = b, networkConfig = \<lparr>Channels = [], Organizations = [], Orderers = [], Peers = []\<rparr>,
     tlsCertPool = \<lparr>pool = [], certs = [], certsByName = (\<lambda>_. []), dirty = False, systemCertPool = False\<rparr>,
     peerConfigsByOrg = [], networkPeers = [], ordererConfigs = [], channelPeersByChannel = [], channelOrderersByChannel = [],
     tlsClientCerts = [], peerMatchers = [], ordererMatchers = [], channelMatchers = [],
     defaultPeerConfig = \<lparr>URL = '''', GRPCOptions = None, TLSCACert = None\<rparr>,
     defaultOrdererConfig = \<lparr>URL = '''', GRPCOptions = None, TLSCACert = None\<rparr>,
     defaultChannelPolicies = zeroPolicies, defaultChannel = None\<rparr>"

definition ConfigFromBackend :: "'v ecfg_ext \<Rightarrow> 'v backend option list \<Rightarrow> 'v EndpointConfig outcome" where
  "ConfigFromBackend x coreBackend =
     withMsgO ''network configuration load failed'' (loadEndpointConfiguration x (zeroConfig \<lparr>backends = coreBackend\<rparr>))"

section \<open>Lookups\<close>

definition cfg_PeersConfig :: "'v EndpointConfig \<Rightarrow> string \<Rightarrow> endpointCfg list option" where
  "cfg_PeersConfig c org = map_of (peerConfigsByOrg c) (ToLower org)"

definition cfg_PeerConfig :: "'v ecfg_ext \<Rightarrow> 'v EndpointConfig \<Rightarrow> string \<Rightarrow> endpointCfg option" where
  "cfg_PeerConfig x c nameOrURL = tryMatchingPeerConfig x c nameOrURL True"

definition cfg_OrdererConfig :: "'v EndpointConfig \<Rightarrow> string \<Rightarrow> endpointCfg option \<times> bool" where
  "cfg_OrdererConfig c nameOrURL = tryMatchingOrdererConfig c nameOrURL True"

definition mappedChannelName :: "'v EndpointConfig \<Rightarrow> string \<Rightarrow> string" where
  "mappedChannelName c channelName =
     (if map_of (Channels (networkConfig c)) (ToLower channelName) \<noteq> None then channelName
      else (case firstMatcher (channelMatchers c) channelName of
              Some m \<Rightarrow> MappedName (matchConfig m) | None \<Rightarrow> defaultEntity))"

definition cfg_ChannelConfig :: "'v EndpointConfig \<Rightarrow> string \<Rightarrow> ChannelEndpointConfig option" where
  "cfg_ChannelConfig c name =
     (let mapped = mappedChannelName c name in
      if mapped = defaultEntity then defaultChannel c
      else (case map_of (Channels (networkConfig c)) (ToLower mapped) of None \<Rightarrow> defaultChannel c | Some ch \<Rightarrow> Some ch))"

definition cfg_ChannelPeers :: "'v EndpointConfig \<Rightarrow> string \<Rightarrow> ChannelPeer list" where
  "cfg_ChannelPeers c name =
     (case map_of (channelPeersByChannel c) (ToLower (mappedChannelName c name)) of Some ps \<Rightarrow> ps | None \<Rightarrow> [])"

definition cfg_ChannelOrderers :: "'v EndpointConfig \<Rightarrow> string \<Rightarrow> endpointCfg list" where
  "cfg_ChannelOrderers c name =
     (case map_of (channelOrderersByChannel c) (ToLower (mappedChannelName c name)) of Some os \<Rightarrow> os | None \<Rightarrow> [])"

end
