(* ===== verification/EndpointProperties.thy ===== *)
theory EndpointProperties
  imports EndpointConfig
begin

text \<open>
  Properties of the endpoint configuration: every loaded endpoint and every channel policy is complete, with own values
  before those of the default entity before the constants; ignored endpoints are never returned; the peers of a channel
  are usable; loading panics only for a default entity without options or an empty GOPATH.
\<close>

section \<open>Loops over maps\<close>

lemma ranges_in:
  assumes "fair x"
  shows "(k, a) \<in> set (ranges x site m) \<longleftrightarrow> map_of m k = Some a"
proof -
  have "set (rangeOrd x site (map fst m)) = fst ` set m"
    using assms by (metis fair_def set_mset_mset set_map)
  moreover have "k \<in> fst ` set m \<longleftrightarrow> map_of m k \<noteq> None" by (metis map_of_eq_None_iff)
  ultimately show ?thesis by (auto simp: ranges_def)
qed

lemma ranges_keys:
  assumes "fair x"
  shows "k \<in> fst ` set (ranges x site m) \<longleftrightarrow> map_of m k \<noteq> None"
proof -
  have "k \<in> fst ` S \<longleftrightarrow> (\<exists>a. (k, a) \<in> S)" for S :: "(string \<times> 'b) set" by force
  then show ?thesis using ranges_in [OF assms, of k _ site m] by auto
qed

lemma ranges_value: "(k, a) \<in> set (ranges x site m) \<Longrightarrow> a = the (map_of m k)"
  by (auto simp: ranges_def)

lemma foldE_collect:
  assumes "foldE (\<lambda>(k, a) m1. bindO (f k a) (\<lambda>r. Inr (case r of None \<Rightarrow> m1 | Some b \<Rightarrow> AList.update k b m1))) kvs m0 = Inr r"
    and "\<And>k a. (k, a) \<in> set kvs \<Longrightarrow> a = g k"
  shows "map_of r k =
      (if k \<in> fst ` set kvs then (case f k (g k) of Inr (Some b) \<Rightarrow> Some b | _ \<Rightarrow> map_of m0 k) else map_of m0 k) \<and>
    (\<forall>k a. (k, a) \<in> set kvs \<longrightarrow> (\<exists>v. f k a = Inr v))"
  using assms
proof (induction kvs arbitrary: m0)
  case (Cons kv kvs)
  obtain k1 a1 where kv: "kv = (k1, a1)" by fastforce
  from Cons.prems(1) kv obtain v where v: "f k1 a1 = Inr v" by (auto simp: bindO_def split: sum.splits)
  let ?m1 = "case v of None \<Rightarrow> m0 | Some b \<Rightarrow> AList.update k1 b m0"
  have rest: "foldE (\<lambda>(k, a) m1. bindO (f k a) (\<lambda>r. Inr (case r of None \<Rightarrow> m1 | Some b \<Rightarrow> AList.update k b m1))) kvs ?m1 = Inr r"
    using Cons.prems(1) kv v by simp
  have g: "\<And>k a. (k, a) \<in> set kvs \<Longrightarrow> a = g k" "a1 = g k1" using Cons.prems(2) kv by auto
  note IH = Cons.IH [OF rest g(1)]
  have m1: "map_of ?m1 k = (if k = k1 then (case v of None \<Rightarrow> map_of m0 k | Some b \<Rightarrow> Some b) else map_of m0 k)"
    by (cases v) (simp_all add: update_conv')
  note r = IH [THEN conjunct1, unfolded m1] and all = IH [THEN conjunct2]
  have "\<forall>k a. (k, a) \<in> set (kv # kvs) \<longrightarrow> (\<exists>v. f k a = Inr v)" using all v kv by auto
  moreover have "map_of r k = (if k \<in> fst ` set (kv # kvs)
      then (case f k (g k) of Inr (Some b) \<Rightarrow> Some b | _ \<Rightarrow> map_of m0 k) else map_of m0 k)"
  proof (cases "k = k1")
    case True
    then have "f k (g k) = Inr v" using v g(2) by simp
    then show ?thesis using r True kv by (simp split: option.split)
  next
    case False
    then have "k \<in> fst ` set (kv # kvs) \<longleftrightarrow> k \<in> fst ` set kvs" by (simp add: kv)
    then show ?thesis using r False by (simp split: sum.split option.split)
  qed
  ultimately show ?case by blast
qed simp

lemma rangeCollect_map:
  assumes "fair x" "rangeCollect x site f m = Inr r"
  shows "map_of r k = (case map_of m k of None \<Rightarrow> None | Some a \<Rightarrow> (case f k a of Inr v \<Rightarrow> v | Inl _ \<Rightarrow> None))"
    and "map_of m k = Some a \<Longrightarrow> \<exists>v. f k a = Inr v"
proof -
  have all: "map_of r k =
      (if k \<in> fst ` set (ranges x site m) then (case f k (the (map_of m k)) of Inr (Some b) \<Rightarrow> Some b | _ \<Rightarrow> None) else None) \<and>
    (\<forall>k a. (k, a) \<in> set (ranges x site m) \<longrightarrow> (\<exists>v. f k a = Inr v))"
    using foldE_collect [OF assms(2) [unfolded rangeCollect_def], of "\<lambda>k. the (map_of m k)" k, OF ranges_value]
    by (simp only: map_of.simps)
  then show "map_of r k = (case map_of m k of None \<Rightarrow> None | Some a \<Rightarrow> (case f k a of Inr v \<Rightarrow> v | Inl _ \<Rightarrow> None))"
    using ranges_keys [OF assms(1), of k site m] by (cases "map_of m k") (auto split: sum.split option.split)
  show "map_of m k = Some a \<Longrightarrow> \<exists>v. f k a = Inr v"
    using all ranges_in [OF assms(1), of k a site m] by blast
qed

text \<open>Replacing every value of a map is collecting a value for every key.\<close>

lemma rangeUpdate_map:
  assumes "fair x" "rangeUpdate x site f m = Inr r"
  shows "map_of r k = (case map_of m k of None \<Rightarrow> None | Some a \<Rightarrow> (case f k a of Inr b \<Rightarrow> Some b | Inl _ \<Rightarrow> None))"
    and "map_of m k = Some a \<Longrightarrow> \<exists>v. f k a = Inr v"
proof -
  let ?f = "\<lambda>k a. bindO (f k a) (\<lambda>b. Inr (Some b))"
  have step: "(\<lambda>(k, a) m1. bindO (f k a) (\<lambda>b. Inr (AList.update k b m1))) =
      (\<lambda>(k, a) m1. bindO (?f k a) (\<lambda>r. Inr (case r of None \<Rightarrow> m1 | Some b \<Rightarrow> AList.update k b m1)))"
    by (auto simp: fun_eq_iff bindO_def split: sum.split)
  have all: "map_of r k =
      (if k \<in> fst ` set (ranges x site m) then (case ?f k (the (map_of m k)) of Inr (Some b) \<Rightarrow> Some b | _ \<Rightarrow> map_of m k) else map_of m k) \<and>
    (\<forall>k a. (k, a) \<in> set (ranges x site m) \<longrightarrow> (\<exists>v. ?f k a = Inr v))"
    by (rule foldE_collect [OF assms(2) [unfolded rangeUpdate_def step], of "\<lambda>k. the (map_of m k)" k]) (rule ranges_value)
  then have vals: "map_of m k = Some a \<Longrightarrow> \<exists>v. f k a = Inr v" for k a
    using ranges_in [OF assms(1), of k a site m] by (auto simp: bindO_eq_Inr)
  then show "map_of m k = Some a \<Longrightarrow> \<exists>v. f k a = Inr v" .
  show "map_of r k = (case map_of m k of None \<Rightarrow> None | Some a \<Rightarrow> (case f k a of Inr b \<Rightarrow> Some b | Inl _ \<Rightarrow> None))"
    using all vals [of k] ranges_keys [OF assms(1), of k site m] by (cases "map_of m k") auto
qed

section \<open>Options and endpoints\<close>

lemma map_of_addMissingOptions:
  "map_of (addMissingOptions d m) k = (case map_of m k of Some v \<Rightarrow> Some v | None \<Rightarrow> map_of d k)"
proof (induction d arbitrary: m)
  case (Cons kv d)
  obtain k1 v1 where kv: "kv = (k1, v1)" by fastforce
  let ?m1 = "if map_of m k1 = None then AList.update k1 v1 m else m"
  have "addMissingOptions (kv # d) m = addMissingOptions d ?m1" by (simp add: addMissingOptions_def kv)
  then show ?case using Cons.IH [of ?m1] kv by (auto simp: update_conv' split: option.splits)
qed (simp add: addMissingOptions_def split: option.split)

lemma foldE_setMissing: "foldE setMissing d (Some m) = Inr (Some (addMissingOptions d m))"
proof (induction d arbitrary: m)
  case (Cons kv d)
  obtain k1 v1 where kv: "kv = (k1, v1)" by fastforce
  show ?case
    using Cons.IH [of "AList.update k1 v1 m"] Cons.IH [of m]
    by (auto simp: kv setMissing_def [of "(k1, v1)"] getOpt_def setOpt_def addMissingOptions_def split: option.split)
qed (simp add: addMissingOptions_def)

lemma getOpt_addMissingItems:
  "getOpt (GRPCOptions (addMissingItems dflt port name cfg)) k =
     (case getOpt (GRPCOptions cfg) k of Some v \<Rightarrow> Some v | None \<Rightarrow> getOpt (GRPCOptions dflt) k)"
  by (auto simp: addMissingItems_def Let_def getOpt_def map_of_addMissingOptions split: option.splits)

lemma addMissingItems_fields:
  "URL (addMissingItems dflt port name cfg) =
     (if URL cfg \<noteq> '''' then URL cfg else if URL dflt \<noteq> '''' then URL dflt else name @ '':'' @ itoa port)"
  "TLSCACert (addMissingItems dflt port name cfg) = (case TLSCACert cfg of Some t \<Rightarrow> Some t | None \<Rightarrow> TLSCACert dflt)"
  by (auto simp: addMissingItems_def Let_def split: option.split)

lemma withMsgO_Inr [simp]: "withMsgO msg r = Inr a \<longleftrightarrow> r = Inr a"
  by (cases r) (auto simp: withMsgO_def split: failure.splits)

lemma withMsgO_Panic [simp]: "withMsgO msg r = Inl (Panic p) \<longleftrightarrow> r = Inl (Panic p)"
  by (cases r) (auto simp: withMsgO_def split: failure.splits)

lemma liftE_Inr [simp]: "liftE r = Inr a \<longleftrightarrow> r = Inr a"
  by (cases r) (auto simp: liftE_def)

lemma liftE_Panic [simp]: "liftE r \<noteq> Inl (Panic p)"
  by (cases r) (auto simp: liftE_def)

lemma loadDefaultEndpoint_spec:
  assumes "loadDefaultEndpoint x kind entities = Inr d"
  shows "URL d = ''''" and "map_of grpcDefaults k \<noteq> None \<Longrightarrow> getOpt (GRPCOptions d) k \<noteq> None"
    and "map_of entities defaultEntity = Some e \<Longrightarrow> getOpt (eGRPCOptions e) k = Some v \<Longrightarrow> getOpt (GRPCOptions d) k = Some v"
proof -
  define dflt where "dflt = (case map_of entities defaultEntity of Some e \<Rightarrow> e
                  | None \<Rightarrow> \<lparr>eURL = '''', eGRPCOptions = Some [], eTLSCACerts = zeroTLS\<rparr>)"
  from assms obtain os ct where os: "foldE setMissing grpcDefaults (eGRPCOptions dflt) = Inr os"
    and d: "d = \<lparr>URL = '''', GRPCOptions = os, TLSCACert = ct\<rparr>"
    by (auto simp: loadDefaultEndpoint_def Let_def dflt_def bindO_eq_Inr split: prod.splits)
  show "URL d = ''''" by (simp add: d)
  obtain m where m: "eGRPCOptions dflt = Some m"
  proof (cases "eGRPCOptions dflt")
    case None
    then show ?thesis using os by (simp add: grpcDefaults_def setMissing_def getOpt_def setOpt_def)
  qed (rule that)
  have "os = Some (addMissingOptions grpcDefaults m)" using os by (simp add: m foldE_setMissing)
  then have get: "getOpt (GRPCOptions d) k = (case map_of m k of Some v \<Rightarrow> Some v | None \<Rightarrow> map_of grpcDefaults k)" for k
    by (simp add: d getOpt_def map_of_addMissingOptions)
  show "map_of grpcDefaults k \<noteq> None \<Longrightarrow> getOpt (GRPCOptions d) k \<noteq> None" by (simp add: get split: option.split)
  assume "map_of entities defaultEntity = Some e" "getOpt (eGRPCOptions e) k = Some v"
  then have "map_of m k = Some v" using m by (simp add: dflt_def getOpt_def)
  then show "getOpt (GRPCOptions d) k = Some v" by (simp add: get)
qed


section \<open>The stages of loading\<close>

text \<open>What is fixed before the network configuration is built, and what is fixed with it.\<close>

definition same_base :: "'v EndpointConfig \<Rightarrow> 'v EndpointConfig \<Rightarrow> bool" where
  "same_base c d \<longleftrightarrow> backend c = backend d \<and> peerMatchers c = peerMatchers d \<and> ordererMatchers c = ordererMatchers d \<and>
     channelMatchers c = channelMatchers d \<and> defaultPeerConfig c = defaultPeerConfig d \<and>
     defaultOrdererConfig c = defaultOrdererConfig d \<and> defaultChannelPolicies c = defaultChannelPolicies d"

definition same_net :: "'v EndpointConfig \<Rightarrow> 'v EndpointConfig \<Rightarrow> bool" where
  "same_net c d \<longleftrightarrow> same_base c d \<and> Peers (networkConfig c) = Peers (networkConfig d) \<and>
     Orderers (networkConfig c) = Orderers (networkConfig d) \<and> Organizations (networkConfig c) = Organizations (networkConfig d)"

lemma same_base_ignored:
  "same_base c d \<Longrightarrow> isPeerToBeIgnored c = isPeerToBeIgnored d" "same_base c d \<Longrightarrow> isOrdererToBeIgnored c = isOrdererToBeIgnored d"
  by (simp_all add: same_base_def isPeerToBeIgnored_def isOrdererToBeIgnored_def fun_eq_iff)

lemma same_base_policies: "same_base c d \<Longrightarrow> addMissingChannelPoliciesItems c = addMissingChannelPoliciesItems d"
  by (simp add: same_base_def fun_eq_iff addMissingChannelPoliciesItems_def addMissingQueryChannelConfigPolicyInfo_def
      addMissingDiscoveryPolicyInfo_def addMissingSelectionPolicyInfo_def addMissingEventServicePolicyInfo_def)

lemma same_base_loadChannels:
  assumes "same_base c d"
  shows "loadChannels x c = loadChannels x d"
proof -
  have "loadChannelEndpointConfig c = loadChannelEndpointConfig d"
    using same_base_ignored [OF assms] same_base_policies [OF assms] by (simp add: fun_eq_iff loadChannelEndpointConfig_def)
  then show ?thesis by (intro ext) (simp only: loadChannels_def)
qed

lemma same_base_loadAll:
  assumes "same_base c d"
  shows "loadAllPeerConfigs x c = loadAllPeerConfigs x d" "loadAllOrdererConfigs x c = loadAllOrdererConfigs x d"
proof -
  have eqs: "addMissingPeerConfigItems c = addMissingPeerConfigItems d" "addMissingOrdererConfigItems c = addMissingOrdererConfigItems d"
    using assms by (simp_all add: fun_eq_iff addMissingPeerConfigItems_def addMissingOrdererConfigItems_def same_base_def)
  show "loadAllPeerConfigs x c = loadAllPeerConfigs x d" "loadAllOrdererConfigs x c = loadAllOrdererConfigs x d"
    by (intro ext, simp only: loadAllPeerConfigs_def loadAllOrdererConfigs_def eqs same_base_ignored [OF assms])+
qed

lemma same_net_tryMatchingPeer: "same_net c d \<Longrightarrow> tryMatchingPeerConfig x c key b = tryMatchingPeerConfig x d key b"
  by (auto simp: same_net_def same_base_def tryMatchingPeerConfig_def matchPeer_def getMappedPeer_def split: option.split)

lemma same_net_tryMatchingOrderer:
  "same_net c d \<Longrightarrow> tryMatchingOrdererConfig c key False = tryMatchingOrdererConfig d key False"
  by (auto simp: same_net_def same_base_def tryMatchingOrdererConfig_def matchOrderer_def getMappedOrderer_def split: option.split)

lemma same_net_verify:
  "same_net c d \<Longrightarrow> verifyPeerConfig x c p n b = verifyPeerConfig x d p n b" "same_net c d \<Longrightarrow> usesSystemPool x c = usesSystemPool x d"
  by (simp_all add: same_net_def same_base_def verifyPeerConfig_def usesSystemPool_def)

lemma same_net_peerMSPID: "same_net c d \<Longrightarrow> peerMSPID x c site n = peerMSPID x d site n"
  by (simp add: same_net_def same_base_def peerMSPID_def orgHasPeer_def findMatchingPeer_def)

lemma same_net_channelPeer: "same_net c d \<Longrightarrow> channelPeer x c ch = channelPeer x d ch"
  by (intro ext) (simp only: channelPeer_def same_net_tryMatchingPeer same_net_verify same_net_peerMSPID)

lemma same_net_channelOrderer: "same_net c d \<Longrightarrow> channelOrderer c = channelOrderer d"
  by (intro ext) (simp only: channelOrderer_def same_net_tryMatchingOrderer)

lemma compileMatchers_fields:
  assumes "compileMatchers x c = Inr c1"
  shows "backend c1 = backend c"
  using assms by (auto simp: compileMatchers_def compileAllMatchers_def bindO_eq_Inr split: if_splits)

lemma loadTLSClientCerts_upd:
  assumes "loadTLSClientCerts x ent c = Inr c1"
  shows "\<exists>t. c1 = c\<lparr>tlsClientCerts := t\<rparr>"
  using assms by (auto simp: loadTLSClientCerts_def Let_def bindO_eq_Inr split: if_splits sum.splits option.splits)

lemma loadAllTLSConfig_spec:
  assumes "loadAllTLSConfig x ent c = Inr (ent1, c1)"
  shows "entChannels ent1 = entChannels ent" "\<exists>t. c1 = c\<lparr>tlsClientCerts := t\<rparr>"
    "rangeUpdate x [''tls-peers''] (\<lambda>_. loadEndpointTLS x ''peer'') (entPeers ent) = Inr (entPeers ent1)"
    "rangeUpdate x [''tls-orderers''] (\<lambda>_. loadEndpointTLS x ''orderer'') (entOrderers ent) = Inr (entOrderers ent1)"
proof -
  from assms obtain e1 e2 where e1: "loadClientTLSConfig x ent = Inr e1" and e2: "loadOrgTLSConfig x e1 = Inr e2"
    and e3: "loadOrdererPeerTLSConfig x e2 = Inr ent1" and c1: "loadTLSClientCerts x ent1 c = Inr c1"
    by (auto simp: loadAllTLSConfig_def bindO_eq_Inr)
  from e1 have 1: "entChannels e1 = entChannels ent" "entPeers e1 = entPeers ent" "entOrderers e1 = entOrderers ent"
    by (auto simp: loadClientTLSConfig_def bindO_eq_Inr)
  from e2 have 2: "entChannels e2 = entChannels e1" "entPeers e2 = entPeers e1" "entOrderers e2 = entOrderers e1"
    by (auto simp: loadOrgTLSConfig_def bindO_eq_Inr)
  from e3 obtain os ps where 3: "rangeUpdate x [''tls-orderers''] (\<lambda>_. loadEndpointTLS x ''orderer'') (entOrderers e2) = Inr os"
      "rangeUpdate x [''tls-peers''] (\<lambda>_. loadEndpointTLS x ''peer'') (entPeers e2) = Inr ps"
      "ent1 = e2\<lparr>entOrderers := os, entPeers := ps\<rparr>"
    by (auto simp: loadOrdererPeerTLSConfig_def bindO_eq_Inr)
  show "entChannels ent1 = entChannels ent" using 1 2 3 by simp
  show "rangeUpdate x [''tls-peers''] (\<lambda>_. loadEndpointTLS x ''peer'') (entPeers ent) = Inr (entPeers ent1)"
    "rangeUpdate x [''tls-orderers''] (\<lambda>_. loadEndpointTLS x ''orderer'') (entOrderers ent) = Inr (entOrderers ent1)"
    using 1 2 3 by simp_all
  show "\<exists>t. c1 = c\<lparr>tlsClientCerts := t\<rparr>" using c1 by (rule loadTLSClientCerts_upd)
qed

lemma loadDefaultConfigItems_spec:
  assumes "loadDefaultConfigItems x ent c = Inr c1"
  shows "loadDefaultEndpoint x ''peer'' (entPeers ent) = Inr (defaultPeerConfig c1)"
    "loadDefaultEndpoint x ''orderer'' (entOrderers ent) = Inr (defaultOrdererConfig c1)"
    "defaultChannelPolicies c1 = defaultChannelPolicies (loadDefaultChannelPolicies x ent c0)"
    "backend c1 = backend c" "peerMatchers c1 = peerMatchers c" "ordererMatchers c1 = ordererMatchers c"
    "channelMatchers c1 = channelMatchers c"
  using assms
  by (auto simp: loadDefaultConfigItems_def loadDefaultOrderer_def loadDefaultPeer_def loadDefaultChannelPolicies_def
      bindO_eq_Inr Let_def)

lemma loadNetworkConfig_spec:
  assumes "loadNetworkConfig x ent c = Inr c1"
  shows "same_base c c1" "loadAllPeerConfigs x c (entPeers ent) = Inr (Peers (networkConfig c1))"
    "loadAllOrdererConfigs x c (entOrderers ent) = Inr (Orderers (networkConfig c1))"
    "Channels (networkConfig c1) = loadChannels x c (entChannels ent)"
  using assms by (auto simp: loadNetworkConfig_def bindO_eq_Inr same_base_def)

lemma loadTLSCertPool_upd:
  assumes "loadTLSCertPool x c = Inr c1"
  shows "\<exists>v. c1 = c\<lparr>tlsCertPool := v\<rparr>"
proof -
  from assms obtain cp0 where
    r: "(case pool_Get (systemCerts x) (pool_Add (map Some (loadTLSCerts c)) cp0) of
        (_, Inl e) \<Rightarrow> Inl (Err (ErrWithMessage ''cert pool load failed'' e))
      | (cp1, Inr _) \<Rightarrow> Inr (c\<lparr>tlsCertPool := cp1\<rparr>)) = (Inr c1 :: 'a EndpointConfig outcome)"
    unfolding loadTLSCertPool_def bindO_eq_Inr by blast
  obtain cp1 res where "pool_Get (systemCerts x) (pool_Add (map Some (loadTLSCerts c)) cp0) = (cp1, res)" by fastforce
  with r show ?thesis by (cases res) auto
qed

lemma later_stages:
  "same_net c (loadNetworkPeers x (loadPeerConfigsByOrg x c))"
  "loadOrdererConfigs x c = Inr c1 \<Longrightarrow> \<exists>v. c1 = c\<lparr>ordererConfigs := v\<rparr>"
  "loadChannelPeers x c = Inr c1 \<Longrightarrow> \<exists>v. c1 = c\<lparr>channelPeersByChannel := v\<rparr>"
  "loadChannelOrderers x c = Inr c1 \<Longrightarrow> \<exists>v. c1 = c\<lparr>channelOrderersByChannel := v\<rparr>"
  "loadTLSCertPool x c = Inr c1 \<Longrightarrow> \<exists>v. c1 = c\<lparr>tlsCertPool := v\<rparr>"
  subgoal by (simp add: same_net_def same_base_def loadNetworkPeers_def loadPeerConfigsByOrg_def)
  subgoal by (auto simp: loadOrdererConfigs_def bindO_eq_Inr)
  subgoal by (auto simp: loadChannelPeers_def bindO_eq_Inr)
  subgoal by (auto simp: loadChannelOrderers_def bindO_eq_Inr)
  subgoal by (rule loadTLSCertPool_upd)
  done


lemma loadDefaultChannel_spec:
  assumes "map_of (Channels (networkConfig c)) defaultEntity = Some d"
  shows "same_net c (loadDefaultChannel x c)" "defaultChannel (loadDefaultChannel x c) = Some d"
    "Channels (networkConfig (loadDefaultChannel x c)) = AList.delete defaultEntity (Channels (networkConfig c))"
    "channelPeersByChannel (loadDefaultChannel x c) = channelPeersByChannel c"
    "channelOrderersByChannel (loadDefaultChannel x c) = channelOrderersByChannel c"
  using assms by (simp_all add: loadDefaultChannel_def same_net_def same_base_def)

lemma fold_load:
  assumes "\<And>k a. (k, a) \<in> set kvs \<Longrightarrow> a = g k"
  shows "map_of (fold (\<lambda>(k, a) m. if k = d then m else AList.update k (f a) m) kvs m0) k =
    (if k \<noteq> d \<and> k \<in> fst ` set kvs then Some (f (g k)) else map_of m0 k)"
  using assms
proof (induction kvs arbitrary: m0)
  case (Cons kv kvs)
  obtain k1 a1 where kv: "kv = (k1, a1)" by fastforce
  have "a1 = g k1" using Cons.prems kv by simp
  moreover have g: "\<And>k a. (k, a) \<in> set kvs \<Longrightarrow> a = g k" using Cons.prems by simp
  ultimately show ?case using Cons.IH [OF g] kv by (auto simp: update_conv')
qed simp

definition channelDefaults :: "ChannelEndpointConfig gomap \<Rightarrow> ChannelEndpointConfig" where
  "channelDefaults es = (case map_of es defaultEntity of Some d \<Rightarrow> d | None \<Rightarrow> zeroChannel)"

lemma map_of_loadChannels:
  assumes "fair x"
  shows "map_of (loadChannels x c es) k =
    (if k = defaultEntity then
       Some (case map_of es defaultEntity of Some d \<Rightarrow> loadChannelEndpointConfig c d zeroChannel
         | None \<Rightarrow> \<lparr>chOrderers = [], chPeers = [], chPolicies = getChannelPolicies (hardDefaultPolicies x)\<rparr>)
     else map_option (\<lambda>ch. loadChannelEndpointConfig c ch (channelDefaults es)) (map_of es k))"
proof -
  define first where "first = (case map_of es defaultEntity of Some d \<Rightarrow> loadChannelEndpointConfig c d zeroChannel
         | None \<Rightarrow> \<lparr>chOrderers = [], chPeers = [], chPolicies = getChannelPolicies (hardDefaultPolicies x)\<rparr>)"
  have "loadChannels x c es = fold (\<lambda>(chID, ch) m. if chID = defaultEntity then m
      else AList.update chID (loadChannelEndpointConfig c ch (channelDefaults es)) m) (ranges x [''channels''] es) [(defaultEntity, first)]"
  proof -
    show ?thesis
    proof (cases "map_of es defaultEntity")
      case None
      show ?thesis unfolding loadChannels_def first_def channelDefaults_def None option.case Let_def prod.case ..
    next
      case (Some d)
      show ?thesis unfolding loadChannels_def first_def channelDefaults_def Some option.case Let_def prod.case ..
    qed
  qed
  then show ?thesis
    using fold_load [of "ranges x [''channels''] es" "\<lambda>k. the (map_of es k)", OF ranges_value, where f = "\<lambda>ch. loadChannelEndpointConfig c ch (channelDefaults es)"
        and d = defaultEntity and k = k and ?m0.0 = "[(defaultEntity, first)]"]
      ranges_keys [OF assms, of k "[''channels'']" es]
    by (auto simp: first_def [symmetric])
qed

lemma loaded:
  assumes "loadEndpointConfigEntities (x :: 'v ecfg_ext) ent c0 = Inr c" "fair x"
  obtains ent1 :: endpointConfigEntity and c5 c6 c7 :: "'v EndpointConfig" where "entChannels ent1 = entChannels ent"
    "rangeUpdate x [''tls-peers''] (\<lambda>_. loadEndpointTLS x ''peer'') (entPeers ent) = Inr (entPeers ent1)"
    "rangeUpdate x [''tls-orderers''] (\<lambda>_. loadEndpointTLS x ''orderer'') (entOrderers ent) = Inr (entOrderers ent1)"
    "loadDefaultEndpoint x ''peer'' (entPeers ent1) = Inr (defaultPeerConfig c)"
    "loadDefaultEndpoint x ''orderer'' (entOrderers ent1) = Inr (defaultOrdererConfig c)"
    "defaultChannelPolicies c = defaultChannelPolicies (loadDefaultChannelPolicies x ent c0)"
    "loadAllPeerConfigs x c (entPeers ent1) = Inr (Peers (networkConfig c))"
    "loadAllOrdererConfigs x c (entOrderers ent1) = Inr (Orderers (networkConfig c))"
    "same_net c5 c" "Channels (networkConfig c5) = loadChannels x c (entChannels ent)"
    "loadChannelPeers x c5 = Inr c6" "channelPeersByChannel c = channelPeersByChannel c6"
    "loadChannelOrderers x c6 = Inr c7" "channelOrderersByChannel c = channelOrderersByChannel c7"
    "defaultChannel c = map_of (loadChannels x c (entChannels ent)) defaultEntity"
    "Channels (networkConfig c) = AList.delete defaultEntity (loadChannels x c (entChannels ent))"
proof -
  from assms obtain c1 ent1 c2 c3 c4 c5 c6 c7 c8 where c1: "compileMatchers x c0 = Inr c1"
    and c2: "loadAllTLSConfig x ent c1 = Inr (ent1, c2)" and c3: "loadDefaultConfigItems x ent1 c2 = Inr c3"
    and c4: "loadNetworkConfig x ent1 c3 = Inr c4"
    and c5: "loadOrdererConfigs x (loadNetworkPeers x (loadPeerConfigsByOrg x c4)) = Inr c5"
    and c6: "loadChannelPeers x c5 = Inr c6" and c7: "loadChannelOrderers x c6 = Inr c7"
    and c8: "loadTLSCertPool x c7 = Inr c8" and c: "c = loadDefaultChannel x c8"
    by (auto simp: loadEndpointConfigEntities_def bindO_eq_Inr split: prod.splits)
  note tls = loadAllTLSConfig_spec [OF c2] and dflt = loadDefaultConfigItems_spec [OF c3] and net = loadNetworkConfig_spec [OF c4]
  obtain v5 v6 v7 v8 where v: "c5 = (loadNetworkPeers x (loadPeerConfigsByOrg x c4))\<lparr>ordererConfigs := v5\<rparr>"
      "c6 = c5\<lparr>channelPeersByChannel := v6\<rparr>" "c7 = c6\<lparr>channelOrderersByChannel := v7\<rparr>" "c8 = c7\<lparr>tlsCertPool := v8\<rparr>"
    using later_stages(2) [OF c5] later_stages(3) [OF c6] later_stages(4) [OF c7] later_stages(5) [OF c8] by blast
  have n45: "networkConfig c5 = networkConfig c4" by (simp add: v loadNetworkPeers_def loadPeerConfigsByOrg_def)
  then have n48: "networkConfig c8 = networkConfig c4" by (simp add: v)
  have s4: "same_net c4 c5" using later_stages(1) [of c4 x] by (auto simp: same_net_def same_base_def v(1))
  have s5: "same_net c5 c8" by (simp add: v same_net_def same_base_def)
  have chs3: "Channels (networkConfig c4) = loadChannels x c3 (entChannels ent)" using net(4) tls(1) by simp
  then obtain d where d: "map_of (Channels (networkConfig c8)) defaultEntity = Some d"
    using map_of_loadChannels [OF assms(2), of c3 "entChannels ent" defaultEntity] n48 by simp
  note dc = loadDefaultChannel_spec [OF d, of x, folded c]
  have s: "same_net c5 c" and s3: "same_base c3 c" and sn: "same_net c4 c"
    using s4 s5 dc(1) net(1) by (simp_all add: same_net_def same_base_def)
  have chs: "Channels (networkConfig c8) = loadChannels x c (entChannels ent)"
    using chs3 n48 same_base_loadChannels [OF s3] by simp
  show thesis
  proof (rule that [of ent1 c5 c6 c7])
    show "defaultChannelPolicies c = defaultChannelPolicies (loadDefaultChannelPolicies x ent c0)"
      using dflt(3) [of c0] s3 tls(1) by (simp add: same_base_def loadDefaultChannelPolicies_def Let_def)
    show "loadAllPeerConfigs x c (entPeers ent1) = Inr (Peers (networkConfig c))"
      "loadAllOrdererConfigs x c (entOrderers ent1) = Inr (Orderers (networkConfig c))"
      using net(2,3) same_base_loadAll [OF s3] sn by (simp_all add: same_net_def)
    show "loadDefaultEndpoint x ''peer'' (entPeers ent1) = Inr (defaultPeerConfig c)"
      "loadDefaultEndpoint x ''orderer'' (entOrderers ent1) = Inr (defaultOrdererConfig c)"
      using dflt(1,2) s3 by (simp_all add: same_base_def)
    show "Channels (networkConfig c5) = loadChannels x c (entChannels ent)" using chs n45 n48 by simp
    show "channelPeersByChannel c = channelPeersByChannel c6" using dc(4) by (simp add: v)
    show "channelOrderersByChannel c = channelOrderersByChannel c7" using dc(5) by (simp add: v)
    show "defaultChannel c = map_of (loadChannels x c (entChannels ent)) defaultEntity" using dc(2) d chs by simp
    show "Channels (networkConfig c) = AList.delete defaultEntity (loadChannels x c (entChannels ent))" using dc(3) chs by simp
  qed (use tls s c6 c7 in simp_all)
qed


section \<open>Channel policies\<close>

fun firstSet :: "'a \<Rightarrow> 'a list \<Rightarrow> 'a" where
  "firstSet zero [] = zero"
| "firstSet zero (v # vs) = (if v = zero then firstSet zero vs else v)"

definition queryComplete :: "QueryChannelConfigPolicy \<Rightarrow> bool" where
  "queryComplete q \<longleftrightarrow> qMaxTargets q \<noteq> 0 \<and> qMinResponses q \<noteq> 0"

definition discoveryComplete :: "DiscoveryPolicy \<Rightarrow> bool" where
  "discoveryComplete d \<longleftrightarrow> dMaxTargets d \<noteq> 0 \<and> dMinResponses d \<noteq> 0 \<and> RetryableCodes (dRetryOpts d) \<noteq> []"

definition selectionComplete :: "SelectionPolicy \<Rightarrow> bool" where
  "selectionComplete s \<longleftrightarrow> SortingStrategy s \<noteq> '''' \<and> selBalancer s \<noteq> '''' \<and> selBlockHeightLagThreshold s \<noteq> 0"

definition eventComplete :: "EventServicePolicy \<Rightarrow> bool" where
  "eventComplete e \<longleftrightarrow> ResolverStrategy e \<noteq> '''' \<and> MinBlockHeightResolverMode e \<noteq> '''' \<and> esBalancer e \<noteq> '''' \<and>
     esBlockHeightLagThreshold e \<noteq> 0 \<and> ReconnectBlockHeightLagThreshold e \<noteq> 0 \<and> PeerMonitorPeriod e \<noteq> 0"

definition policiesComplete :: "ChannelPolicies \<Rightarrow> bool" where
  "policiesComplete p \<longleftrightarrow> queryComplete (QueryChannelConfig p) \<and> discoveryComplete (Discovery p) \<and>
     selectionComplete (Selection p) \<and> eventComplete (EventService p)"

text \<open>\<open>policiesLayered own d p\<close>: every value of \<open>p\<close> is that of \<open>own\<close> if it is set, else that of \<open>d\<close> if it is set, else
  the constant; the lag threshold of the selection does not look at \<open>d\<close>.\<close>

definition policiesLayered :: "ChannelPolicies \<Rightarrow> ChannelPolicies \<Rightarrow> ChannelPolicies \<Rightarrow> bool" where
  "policiesLayered own d p \<longleftrightarrow>
     dMaxTargets (Discovery p) = firstSet 0 [dMaxTargets (Discovery own), dMaxTargets (Discovery d), 2] \<and>
     dMinResponses (Discovery p) = firstSet 0 [dMinResponses (Discovery own), dMinResponses (Discovery d), 1] \<and>
     qMaxTargets (QueryChannelConfig p) =
       firstSet 0 [qMaxTargets (QueryChannelConfig own), qMaxTargets (QueryChannelConfig d), 2] \<and>
     qMinResponses (QueryChannelConfig p) =
       firstSet 0 [qMinResponses (QueryChannelConfig own), qMinResponses (QueryChannelConfig d), 1] \<and>
     SortingStrategy (Selection p) =
       firstSet '''' [SortingStrategy (Selection own), SortingStrategy (Selection d), ''BlockHeightPriority''] \<and>
     selBalancer (Selection p) = firstSet '''' [selBalancer (Selection own), selBalancer (Selection d), ''RoundRobin''] \<and>
     selBlockHeightLagThreshold (Selection p) = firstSet 0 [selBlockHeightLagThreshold (Selection own), 5] \<and>
     ResolverStrategy (EventService p) =
       firstSet '''' [ResolverStrategy (EventService own), ResolverStrategy (EventService d), ''PreferOrg''] \<and>
     MinBlockHeightResolverMode (EventService p) =
       firstSet '''' [MinBlockHeightResolverMode (EventService own), MinBlockHeightResolverMode (EventService d), ''ResolveByThreshold''] \<and>
     esBalancer (EventService p) = firstSet '''' [esBalancer (EventService own), esBalancer (EventService d), ''Random''] \<and>
     esBlockHeightLagThreshold (EventService p) =
       firstSet 0 [esBlockHeightLagThreshold (EventService own), esBlockHeightLagThreshold (EventService d), 5] \<and>
     PeerMonitor (EventService p) = firstSet '''' [PeerMonitor (EventService own), PeerMonitor (EventService d)] \<and>
     ReconnectBlockHeightLagThreshold (EventService p) =
       firstSet 0 [ReconnectBlockHeightLagThreshold (EventService own), ReconnectBlockHeightLagThreshold (EventService d), 10] \<and>
     PeerMonitorPeriod (EventService p) =
       firstSet 0 [PeerMonitorPeriod (EventService own), PeerMonitorPeriod (EventService d), 5 * second]"

text \<open>The types of the configuration and of the provider interface hold the same policies.\<close>

lemma getChannelPolicies_id: "getChannelPolicies p = p"
proof (cases p)
  case (fields q d s e)
  show ?thesis by (cases q; cases d; cases s; cases e) (simp add: getChannelPolicies_def fields)
qed

text \<open>The policies of the default channel, or the constants if there is none.\<close>

definition defaultPoliciesOf :: "'v ecfg_ext \<Rightarrow> endpointConfigEntity \<Rightarrow> ChannelPolicies" where
  "defaultPoliciesOf x ent = (case map_of (entChannels ent) defaultEntity of None \<Rightarrow> hardDefaultPolicies x | Some d \<Rightarrow> chPolicies d)"

lemma defaultChannelPolicies_of:
  "defaultChannelPolicies (loadDefaultChannelPolicies x ent c0) =
     (let p = defaultPoliciesOf x ent in
      \<lparr>QueryChannelConfig = loadDefaultQueryChannelPolicy (QueryChannelConfig p), Discovery = loadDefaultDiscoveryPolicy x (Discovery p),
       Selection = loadDefaultSelectionPolicy (Selection p), EventService = loadDefaultEventServicePolicy (EventService p)\<rparr>)"
  by (cases "map_of (entChannels ent) defaultEntity")
    (simp_all add: loadDefaultChannelPolicies_def defaultPoliciesOf_def getChannelPolicies_id Let_def)

lemma complete_parts:
  "queryComplete (loadDefaultQueryChannelPolicy q)" "discoveryComplete (loadDefaultDiscoveryPolicy x d)"
  "selectionComplete (loadDefaultSelectionPolicy s)" "eventComplete (loadDefaultEventServicePolicy e)"
  by (simp_all add: queryComplete_def discoveryComplete_def selectionComplete_def eventComplete_def
      loadDefaultQueryChannelPolicy_def loadDefaultDiscoveryPolicy_def defaultDiscoveryRetryableCodes_def
      loadDefaultSelectionPolicy_def loadDefaultEventServicePolicy_def)

lemma complete_hardDefault: "policiesComplete (hardDefaultPolicies x)"
  by (simp add: policiesComplete_def queryComplete_def discoveryComplete_def selectionComplete_def eventComplete_def
      hardDefaultPolicies_def defaultDiscoveryRetryOpts_def defaultDiscoveryRetryableCodes_def)

lemma complete_defaults: "policiesComplete (defaultChannelPolicies (loadDefaultChannelPolicies x ent c0))"
  by (simp add: defaultChannelPolicies_of policiesComplete_def complete_parts Let_def)

lemma complete_addMissing_parts:
  "queryComplete (QueryChannelConfig (defaultChannelPolicies c)) \<Longrightarrow> queryComplete (addMissingQueryChannelConfigPolicyInfo c q)"
  "discoveryComplete (Discovery (defaultChannelPolicies c)) \<Longrightarrow> discoveryComplete (addMissingDiscoveryPolicyInfo c dp)"
  "selectionComplete (Selection (defaultChannelPolicies c)) \<Longrightarrow> selectionComplete (addMissingSelectionPolicyInfo c s)"
  "eventComplete (EventService (defaultChannelPolicies c)) \<Longrightarrow> eventComplete (addMissingEventServicePolicyInfo c e)"
  by (simp_all add: queryComplete_def discoveryComplete_def selectionComplete_def eventComplete_def
      addMissingQueryChannelConfigPolicyInfo_def addMissingDiscoveryPolicyInfo_def addMissingSelectionPolicyInfo_def
      addMissingEventServicePolicyInfo_def addMissingRetryOpts_def Let_def)

lemma complete_addMissing:
  "policiesComplete (defaultChannelPolicies c) \<Longrightarrow> policiesComplete (addMissingChannelPoliciesItems c ch)"
  by (simp add: policiesComplete_def addMissingChannelPoliciesItems_def complete_addMissing_parts Let_def)

lemma layered_addMissing:
  assumes "defaultChannelPolicies c = defaultChannelPolicies (loadDefaultChannelPolicies x ent c0)"
  shows "policiesLayered (chPolicies own) (defaultPoliciesOf x ent) (addMissingChannelPoliciesItems c own)"
  unfolding policiesLayered_def addMissingChannelPoliciesItems_def getChannelPolicies_id Let_def
    addMissingQueryChannelConfigPolicyInfo_def addMissingDiscoveryPolicyInfo_def addMissingSelectionPolicyInfo_def
    addMissingEventServicePolicyInfo_def assms defaultChannelPolicies_of loadDefaultQueryChannelPolicy_def
    loadDefaultDiscoveryPolicy_def loadDefaultSelectionPolicy_def loadDefaultEventServicePolicy_def
  by (intro conjI) simp_all

lemma channel_policies_layered_facts:
  assumes "loadEndpointConfigEntities x ent c0 = Inr c" and "fair x"
  shows "\<exists>cfg. cfg_ChannelConfig c name = Some cfg \<and> policiesComplete (chPolicies cfg)"
    and "\<lbrakk>map_of (entChannels ent) ch = Some own; ch \<noteq> defaultEntity; ToLower ch = ch\<rbrakk> \<Longrightarrow>
      \<exists>cfg. cfg_ChannelConfig c ch = Some cfg \<and> policiesLayered (chPolicies own) (defaultPoliciesOf x ent) (chPolicies cfg)"
proof -
  from loaded [OF assms] have dflt: "defaultChannelPolicies c = defaultChannelPolicies (loadDefaultChannelPolicies x ent c0)"
    and dc: "defaultChannel c = map_of (loadChannels x c (entChannels ent)) defaultEntity"
    and chs: "Channels (networkConfig c) = AList.delete defaultEntity (loadChannels x c (entChannels ent))"
    by (blast, blast, blast)
  have complete: "policiesComplete (addMissingChannelPoliciesItems c cc)" for cc
    using complete_addMissing complete_defaults dflt by metis
  have load: "chPolicies (loadChannelEndpointConfig c cc dd) = addMissingChannelPoliciesItems c cc" for cc dd
    by (simp add: loadChannelEndpointConfig_def Let_def)
  note m = map_of_loadChannels [OF assms(2), of c "entChannels ent"]
  have ok: "policiesComplete (chPolicies cfg)" if "map_of (loadChannels x c (entChannels ent)) k = Some cfg" for k cfg
    using that complete complete_hardDefault [of x] by (auto simp: m load getChannelPolicies_id split: if_splits option.splits)
  have def_ok: "\<exists>cfg. defaultChannel c = Some cfg \<and> policiesComplete (chPolicies cfg)"
    using dc m [of defaultEntity] ok by auto
  have "map_of (Channels (networkConfig c)) k = Some cfg \<Longrightarrow> policiesComplete (chPolicies cfg)" for k cfg
    using ok [of k cfg] by (auto simp: chs delete_conv split: if_splits)
  then show "\<exists>cfg. cfg_ChannelConfig c name = Some cfg \<and> policiesComplete (chPolicies cfg)"
    using def_ok by (auto simp: cfg_ChannelConfig_def Let_def split: option.split)
  assume a: "map_of (entChannels ent) ch = Some own" "ch \<noteq> defaultEntity" "ToLower ch = ch"
  have "map_of (Channels (networkConfig c)) ch = Some (loadChannelEndpointConfig c own (channelDefaults (entChannels ent)))"
    using a(1,2) m [of ch] by (simp add: chs delete_conv)
  then have "cfg_ChannelConfig c ch = Some (loadChannelEndpointConfig c own (channelDefaults (entChannels ent)))"
    using a(2,3) by (simp add: cfg_ChannelConfig_def mappedChannelName_def)
  then show "\<exists>cfg. cfg_ChannelConfig c ch = Some cfg \<and> policiesLayered (chPolicies own) (defaultPoliciesOf x ent) (chPolicies cfg)"
    using layered_addMissing [OF dflt] load by auto
qed



section \<open>A sample configuration\<close>

definition sample_ext :: "string ecfg_ext" where
  "sample_ext = \<lparr>ecCast = \<lparr>ToBool = (\<lambda>v. v = ''true''), ToString = id, ToInt = (\<lambda>_. 0), ToDuration = (\<lambda>_. 0)\<rparr>,
     ecEnv = empty_env, Compile = (\<lambda>p. Inr \<lparr>MatchString = (\<lambda>s. s = p), ReplaceAllString = (\<lambda>s r. r)\<rparr>), rangeOrd = (\<lambda>_ ks. ks),
     decodeClient = (\<lambda>_. Inr zeroClient), decodeChannels = (\<lambda>_. Inr []), decodeOrganizations = (\<lambda>_. Inr []),
     decodeOrderers = (\<lambda>_. Inr []), decodePeers = (\<lambda>_. Inr []),
     decodeMatchers = (\<lambda>_. Inr [(''peer'', [\<lparr>Pattern = ''old'', URLSubstitutionExp = '''', SSLTargetOverrideURLSubstitutionExp = '''',
        MappedHost = '''', MappedName = '''', IgnoreEndpoint = True\<rparr>])]),
     systemCerts = Inr [], grpcUnavailable = 14, goErrorText = (\<lambda>_. ''''), GetPrivateKeyFromCert = (\<lambda>_. Inr None),
     tlsX509KeyPair = (\<lambda>_ _. Inr ''''), cryptoX509KeyPair = (\<lambda>_ _. Inr '''')\<rparr>"

definition sample_policies :: ChannelPolicies where
  "sample_policies = zeroPolicies\<lparr>Discovery := \<lparr>dMinResponses = 0, dMaxTargets = 7, dRetryOpts = zeroOpts\<rparr>\<rparr>"

definition sample_ent :: endpointConfigEntity where
  "sample_ent = \<lparr>entClient = zeroClient,
     entChannels = [(''ch'', \<lparr>chOrderers = [], chPeers = [(''p'', \<lparr>EndorsingPeer = True, ChaincodeQuery = True, LedgerQuery = True, EventSource = False\<rparr>)],
       chPolicies = sample_policies\<rparr>)],
     entOrganizations = [(''org'', \<lparr>oeMSPID = ''OrgMSP'', oeCryptoPath = '''', oeUsers = [], oePeers = [''p'', ''old''], oeCertificateAuthorities = []\<rparr>)],
     entOrderers = [],
     entPeers = [(''p'', \<lparr>eURL = '''', eGRPCOptions = Some [(''fail-fast'', VBool True)], eTLSCACerts = zeroTLS\<rparr>),
       (''old'', \<lparr>eURL = '''', eGRPCOptions = None, eTLSCACerts = zeroTLS\<rparr>)]\<rparr>"

definition sample_start :: "string EndpointConfig" where
  "sample_start = zeroConfig \<lparr>backends = [Some (\<lambda>k. if k = ''entityMatchers'' then Some '''' else None)]\<rparr>"

lemma sample_fair: "fair sample_ext"
  by (simp add: fair_def sample_ext_def)

lemmas load_defs = loadEndpointConfigEntities_def compileMatchers_def compileAllMatchers_def compileKind_def groupAllMatchers_def
  matchersOf_def UnmarshalKey_def Lookup_def loadAllTLSConfig_def loadClientTLSConfig_def loadOrgTLSConfig_def
  loadOrdererPeerTLSConfig_def loadTLSClientCerts_def loadKeyPair_def loadEndpointTLS_def substPath_def loadTLS_def LoadBytes_def
  rangeUpdate_def rangeCollect_def ranges_def liftE_def withMsgO_def loadDefaultConfigItems_def loadDefaultOrderer_def
  loadDefaultPeer_def loadDefaultEndpoint_def TLSCert_def loadNetworkConfig_def loadAllPeerConfigs_def loadAllOrdererConfigs_def
  endpointFrom_def isPeerToBeIgnored_def isOrdererToBeIgnored_def

lemma Subst_nil: "Subst x '''' = Inr ''''"
  by (simp add: Subst_def Split_def)

lemma sample_tls: "loadAllTLSConfig sample_ext sample_ent c = Inr (sample_ent, c\<lparr>tlsClientCerts := ['''']\<rparr>)"
  by (simp add: load_defs sample_ext_def sample_ent_def zeroClient_def zeroTLS_def Subst_nil empty_env_def ToLower_def)


definition sample_matched :: "string EndpointConfig" where
  "sample_matched = sample_start\<lparr>peerMatchers := [\<lparr>mregex = \<lparr>MatchString = (\<lambda>s. s = ''old''), ReplaceAllString = (\<lambda>s r. r)\<rparr>,
     matchConfig = \<lparr>Pattern = ''old'', URLSubstitutionExp = '''', SSLTargetOverrideURLSubstitutionExp = '''',
        MappedHost = '''', MappedName = '''', IgnoreEndpoint = True\<rparr>\<rparr>]\<rparr>"

lemma sample_match: "compileMatchers sample_ext sample_start = Inr sample_matched"
  by (simp add: load_defs sample_ext_def sample_start_def sample_matched_def zeroConfig_def)

definition sample_defaulted :: "string EndpointConfig" where
  "sample_defaulted = loadDefaultChannelPolicies sample_ext sample_ent (sample_matched\<lparr>tlsClientCerts := [''''],
     defaultOrdererConfig := \<lparr>URL = '''', GRPCOptions = Some grpcDefaults, TLSCACert = None\<rparr>,
     defaultPeerConfig := \<lparr>URL = '''', GRPCOptions = Some grpcDefaults, TLSCACert = None\<rparr>\<rparr>)"

lemma sample_options: "foldE setMissing grpcDefaults (Some []) = Inr (Some grpcDefaults)"
  by (simp add: grpcDefaults_def setMissing_def getOpt_def setOpt_def)

lemma sample_default:
  "loadDefaultConfigItems sample_ext sample_ent (sample_matched\<lparr>tlsClientCerts := ['''']\<rparr>) = Inr sample_defaulted"
  by (simp add: load_defs sample_ext_def sample_ent_def zeroTLS_def empty_env_def defaultEntity_def sample_options sample_defaulted_def)

definition sample_peer :: endpointCfg where
  "sample_peer = addMissingItems \<lparr>URL = '''', GRPCOptions = Some grpcDefaults, TLSCACert = None\<rparr> 7051 ''p''
     \<lparr>URL = '''', GRPCOptions = Some [(''fail-fast'', VBool True)], TLSCACert = None\<rparr>"

definition sample_net :: "string EndpointConfig" where
  "sample_net = sample_defaulted\<lparr>networkConfig := \<lparr>Channels = loadChannels sample_ext sample_defaulted (entChannels sample_ent),
     Organizations = map (\<lambda>(n, oc). (n, loadOrganization oc)) (entOrganizations sample_ent), Orderers = [],
     Peers = [(''p'', sample_peer)]\<rparr>\<rparr>"

lemma sample_defaulted_fields:
  "peerMatchers sample_defaulted = peerMatchers sample_matched" "ordererMatchers sample_defaulted = []"
  "channelMatchers sample_defaulted = []" "defaultPeerConfig sample_defaulted = \<lparr>URL = '''', GRPCOptions = Some grpcDefaults, TLSCACert = None\<rparr>"
  by (simp_all add: sample_defaulted_def loadDefaultChannelPolicies_def Let_def sample_matched_def sample_start_def zeroConfig_def)

lemma sample_ranges: "ranges sample_ext site m = map (\<lambda>k. (k, the (map_of m k))) (map fst m)"
  by (simp add: ranges_def sample_ext_def)

lemma sample_ignored: "isPeerToBeIgnored sample_defaulted n \<longleftrightarrow> n = ''old''"
  by (simp add: isPeerToBeIgnored_def sample_defaulted_fields sample_matched_def)

lemma sample_noCert: "TLSCert (ecEnv sample_ext) ptr zeroTLS = Inr (None, False)"
  by (simp add: TLSCert_def sample_ext_def empty_env_def zeroTLS_def)

lemma sample_allPeers: "loadAllPeerConfigs sample_ext sample_defaulted (entPeers sample_ent) = Inr [(''p'', sample_peer)]"
  unfolding loadAllPeerConfigs_def rangeCollect_def sample_ranges
  by (simp add: sample_ent_def sample_ignored defaultEntity_def endpointFrom_def sample_noCert liftE_def withMsgO_def
      addMissingPeerConfigItems_def sample_defaulted_fields sample_peer_def)

lemma sample_allOrderers: "loadAllOrdererConfigs sample_ext sample_defaulted (entOrderers sample_ent) = Inr []"
  by (simp add: loadAllOrdererConfigs_def rangeCollect_def sample_ranges sample_ent_def)

lemma sample_network: "loadNetworkConfig sample_ext sample_ent sample_defaulted = Inr sample_net"
  by (simp add: loadNetworkConfig_def sample_allPeers sample_allOrderers sample_net_def)

lemma sample_channels:
  "Channels (networkConfig sample_net) = [(defaultEntity, \<lparr>chOrderers = [], chPeers = [], chPolicies = getChannelPolicies (hardDefaultPolicies sample_ext)\<rparr>),
     (''ch'', \<lparr>chOrderers = [], chPeers = [(''p'', \<lparr>EndorsingPeer = True, ChaincodeQuery = True, LedgerQuery = True, EventSource = False\<rparr>)],
       chPolicies = addMissingChannelPoliciesItems sample_defaulted (snd (hd (entChannels sample_ent)))\<rparr>)]"
  by (simp add: sample_net_def loadChannels_def sample_ranges)
    (simp add: sample_ent_def defaultEntity_def loadChannelEndpointConfig_def sample_ignored copyPeerChannelConfig_def zeroChannel_def)


lemma sample_net_fields:
  "peerMatchers sample_net = peerMatchers sample_matched" "ordererMatchers sample_net = []" "Orderers (networkConfig sample_net) = []"
  "Peers (networkConfig sample_net) = [(''p'', sample_peer)]" "backend sample_net = backend sample_start"
  "Organizations (networkConfig sample_net) =
     [(''org'', \<lparr>orgMSPID = ''OrgMSP'', orgCryptoPath = '''', orgUsers = [], orgPeers = [''p'', ''old''], orgCertificateAuthorities = []\<rparr>)]"
  by (simp_all add: sample_net_def sample_defaulted_fields sample_ent_def loadOrganization_def)
    (simp add: sample_defaulted_def loadDefaultChannelPolicies_def sample_matched_def Let_def)

lemma itoa_7051: "itoa 7051 = ''7051''"
proof -
  have "itoa 7051 = itoa_nat 7051" by (simp add: itoa_def)
  also have "\<dots> = [char_of (48 + 7 :: nat), char_of (48 + 0 :: nat), char_of (48 + 5 :: nat), char_of (48 + 1 :: nat)]"
    by (subst itoa_nat.simps, simp)+
  also have "\<dots> = ''7051''" by (simp add: char_of_eq_iff)
  finally show ?thesis .
qed

lemma bindO_ex: "\<exists>m. r = Inr m \<Longrightarrow> \<exists>m. bindO r (\<lambda>m. Inr (g m)) = Inr (g m)"
  by auto

lemma sample_peer_fields: "URL sample_peer = ''p:7051''" "TLSCACert sample_peer = None" "IsTLSEnabled ''p:7051'' = False"
  by (simp_all add: sample_peer_def addMissingItems_fields itoa_7051 IsTLSEnabled_def Let_def ToLower_def lowerByte_def
      HasPrefix_def)

definition sample_final :: "string EndpointConfig" where
  "sample_final = (case loadEndpointConfigEntities sample_ext sample_ent sample_start of Inr c \<Rightarrow> c | Inl _ \<Rightarrow> sample_start)"

lemma Get_no_error: "\<exists>cp1 q. pool_Get (Inr l) cp0 = (cp1, Inr q)"
  by (cases "dirty cp0") (simp_all add: pool_Get_def swapCertPool_def loadSystemCertPool_def Let_def)

lemma sample_pool: "\<exists>cp1. loadTLSCertPool sample_ext c = Inr (c\<lparr>tlsCertPool := cp1\<rparr>)"
proof -
  obtain cp0 where "NewCertPool (systemCerts sample_ext) (usesSystemPool sample_ext c) = Inr cp0"
    by (simp add: NewCertPool_def loadSystemCertPool_def sample_ext_def)
  moreover obtain cp1 q where "pool_Get (systemCerts sample_ext) (pool_Add (map Some (loadTLSCerts c)) cp0) = (cp1, Inr q)"
    using Get_no_error [of "[]"] by (fastforce simp: sample_ext_def)
  ultimately have "loadTLSCertPool sample_ext c = Inr (c\<lparr>tlsCertPool := cp1\<rparr>)" by (simp add: loadTLSCertPool_def liftE_def withMsgO_def)
  then show ?thesis ..
qed

definition sample_chPeers :: "ChannelPeer list" where
  "sample_chPeers = [\<lparr>cpChannelConfig = \<lparr>EndorsingPeer = True, ChaincodeQuery = True, LedgerQuery = True, EventSource = False\<rparr>,
     cpNetworkPeer = \<lparr>npConfig = sample_peer, npMSPID = ''OrgMSP''\<rparr>\<rparr>]"

lemma sample_channelPeers:
  assumes "same_net c sample_net" "Channels (networkConfig c) = Channels (networkConfig sample_net)"
  shows "loadChannelPeers sample_ext c =
    Inr (c\<lparr>channelPeersByChannel := [(''_default'', []), (''ch'', sample_chPeers)]\<rparr>)"
proof -
  have tm: "tryMatchingPeerConfig sample_ext c ''p'' False = Some sample_peer"
    unfolding same_net_tryMatchingPeer [OF assms(1)]
    by (simp add: tryMatchingPeerConfig_def sample_net_fields sample_matched_def ToLower_def lowerByte_def)
  have msp: "peerMSPID sample_ext c site ''p'' = Some ''OrgMSP''" for site
    unfolding same_net_peerMSPID [OF assms(1)]
    by (simp add: peerMSPID_def sample_ranges sample_net_fields orgHasPeer_def EqualFold_def)
  have "channelPeer sample_ext c ch (''p'', cfg) [] = Inr [\<lparr>cpChannelConfig = cfg, cpNetworkPeer = \<lparr>npConfig = sample_peer, npMSPID = ''OrgMSP''\<rparr>\<rparr>]" for ch cfg
    using tm msp by (simp add: channelPeer_def ToLower_def lowerByte_def verifyPeerConfig_def sample_peer_fields)
  then show ?thesis
    by (simp add: loadChannelPeers_def assms(2) sample_channels sample_ranges defaultEntity_def ToLower_def lowerByte_def sample_chPeers_def)
qed

lemma sample_channelOrderers:
  assumes "Channels (networkConfig c) = Channels (networkConfig sample_net)"
  shows "\<exists>m. loadChannelOrderers sample_ext c = Inr (c\<lparr>channelOrderersByChannel := m\<rparr>)"
  unfolding loadChannelOrderers_def by (rule bindO_ex) (simp add: assms sample_channels sample_ranges)

lemma sample_load: "\<exists>c. loadEndpointConfigEntities sample_ext sample_ent sample_start = Inr c \<and> same_net sample_net c \<and>
  channelPeersByChannel c = [(''_default'', []), (''ch'', sample_chPeers)]"
proof -
  let ?c4 = "loadNetworkPeers sample_ext (loadPeerConfigsByOrg sample_ext sample_net)"
  have net: "networkConfig ?c4 = networkConfig sample_net" by (simp add: loadNetworkPeers_def loadPeerConfigsByOrg_def)
  have c5: "loadOrdererConfigs sample_ext ?c4 = Inr (?c4\<lparr>ordererConfigs := []\<rparr>)"
    by (simp add: loadOrdererConfigs_def net sample_net_fields sample_ranges)
  have "same_net sample_net ?c4" by (rule later_stages(1))
  then have s5: "same_net (?c4\<lparr>ordererConfigs := []\<rparr>) sample_net" by (simp add: same_net_def same_base_def)
  let ?m = "[(''_default'', []), (''ch'', sample_chPeers)]"
  have c6: "loadChannelPeers sample_ext (?c4\<lparr>ordererConfigs := []\<rparr>) = Inr (?c4\<lparr>ordererConfigs := [], channelPeersByChannel := ?m\<rparr>)"
    using sample_channelPeers [OF s5] net by simp
  obtain m1 where c7: "loadChannelOrderers sample_ext (?c4\<lparr>ordererConfigs := [], channelPeersByChannel := ?m\<rparr>) =
      Inr (?c4\<lparr>ordererConfigs := [], channelPeersByChannel := ?m, channelOrderersByChannel := m1\<rparr>)"
    using sample_channelOrderers [of "?c4\<lparr>ordererConfigs := [], channelPeersByChannel := ?m\<rparr>"] net by auto
  obtain cp1 where c8: "loadTLSCertPool sample_ext (?c4\<lparr>ordererConfigs := [], channelPeersByChannel := ?m, channelOrderersByChannel := m1\<rparr>) =
      Inr (?c4\<lparr>ordererConfigs := [], channelPeersByChannel := ?m, channelOrderersByChannel := m1, tlsCertPool := cp1\<rparr>)"
    using sample_pool by blast
  let ?c8 = "?c4\<lparr>ordererConfigs := [], channelPeersByChannel := ?m, channelOrderersByChannel := m1, tlsCertPool := cp1\<rparr>"
  have "loadEndpointConfigEntities sample_ext sample_ent sample_start = Inr (loadDefaultChannel sample_ext ?c8)"
    by (simp add: loadEndpointConfigEntities_def sample_match sample_tls sample_default sample_network c5 c6 c7 c8 withMsgO_def)
  moreover have "map_of (Channels (networkConfig ?c8)) defaultEntity = Some (snd (hd (Channels (networkConfig sample_net))))"
    by (simp add: net sample_channels)
  note d = loadDefaultChannel_spec(1,4) [OF this, of sample_ext]
  from d(1) have "same_net sample_net (loadDefaultChannel sample_ext ?c8)" using s5 by (simp add: same_net_def same_base_def)
  moreover have "channelPeersByChannel (loadDefaultChannel sample_ext ?c8) = ?m" using d(2) by simp
  ultimately show ?thesis by blast
qed

lemma sample_loads: "loadEndpointConfigEntities sample_ext sample_ent sample_start = Inr sample_final"
  and sample_final_net: "same_net sample_net sample_final"
  and sample_final_peers: "channelPeersByChannel sample_final = [(''_default'', []), (''ch'', sample_chPeers)]"
  using sample_load by (auto simp: sample_final_def)

lemma sample_final_ignored: "isPeerToBeIgnored sample_final n \<longleftrightarrow> n = ''old''"
  using sample_final_net by (simp add: isPeerToBeIgnored_def same_net_def same_base_def sample_net_fields sample_matched_def flip: eq_commute)


section \<open>Loaded peers and orderers\<close>

text \<open>The certificate that the configuration of an endpoint names itself.\<close>

definition certOf :: "'v ecfg_ext \<Rightarrow> string \<Rightarrow> string \<Rightarrow> endpointEntity \<Rightarrow> cert option" where
  "certOf x kind name e =
     (case loadEndpointTLS x kind e of Inl _ \<Rightarrow> None
      | Inr e1 \<Rightarrow> (case TLSCert (ecEnv x) [kind, name] (eTLSCACerts e1) of Inl _ \<Rightarrow> None | Inr (ct, _) \<Rightarrow> ct))"

text \<open>\<open>loadedAs\<close>: an endpoint as it must be after loading, for the defaults \<open>d\<close> and the default port.\<close>

definition loadedAs :: "'v ecfg_ext \<Rightarrow> string \<Rightarrow> endpointCfg \<Rightarrow> string \<Rightarrow> string \<Rightarrow> endpointEntity \<Rightarrow> endpointCfg \<Rightarrow> bool" where
  "loadedAs x kind d port name e p \<longleftrightarrow>
     URL p = (if eURL e \<noteq> '''' then eURL e else name @ '':'' @ port) \<and>
     TLSCACert p = (case certOf x kind name e of Some t \<Rightarrow> Some t | None \<Rightarrow> TLSCACert d) \<and>
     (\<forall>k. getOpt (GRPCOptions p) k = (case getOpt (eGRPCOptions e) k of Some v \<Rightarrow> Some v | None \<Rightarrow> getOpt (GRPCOptions d) k)) \<and>
     (\<forall>k. map_of grpcDefaults k \<noteq> None \<longrightarrow> getOpt (GRPCOptions p) k \<noteq> None)"

lemma loadEndpointTLS_keeps: "loadEndpointTLS x kind e = Inr e1 \<Longrightarrow> eURL e1 = eURL e \<and> eGRPCOptions e1 = eGRPCOptions e"
  by (auto simp: loadEndpointTLS_def bindO_eq_Inr)

lemma loaded_endpoint:
  assumes "loadEndpointTLS x kind e = Inr e1" "endpointFrom x kind name e1 = Inr p"
    and "\<And>k. map_of grpcDefaults k \<noteq> None \<Longrightarrow> getOpt (GRPCOptions d) k \<noteq> None" "URL d = ''''"
  shows "loadedAs x kind d (itoa port) name e (addMissingItems d port name p)"
proof -
  from assms(2) obtain ct b where ct: "TLSCert (ecEnv x) [kind, name] (eTLSCACerts e1) = Inr (ct, b)"
    and p: "p = \<lparr>URL = eURL e1, GRPCOptions = eGRPCOptions e1, TLSCACert = ct\<rparr>"
    by (auto simp: endpointFrom_def bindO_eq_Inr)
  have "certOf x kind name e = ct" using assms(1) ct by (simp add: certOf_def)
  then show ?thesis
    using assms(3,4) loadEndpointTLS_keeps [OF assms(1)]
    by (auto simp: loadedAs_def addMissingItems_fields getOpt_addMissingItems p split: option.split)
qed

lemma collected_endpoint:
  assumes "fair x" "rangeUpdate x site1 (\<lambda>_. loadEndpointTLS x kind) entities = Inr entities1"
    and "rangeCollect x site2 (\<lambda>name e. if name = defaultEntity \<or> ign name then Inr None
       else bindO (endpointFrom x kind name e) (\<lambda>p. Inr (Some (addMissingItems d port name p)))) entities1 = Inr m"
    and "\<And>k. map_of grpcDefaults k \<noteq> None \<Longrightarrow> getOpt (GRPCOptions d) k \<noteq> None" "URL d = ''''"
  shows "case map_of entities name of
      None \<Rightarrow> map_of m name = None
    | Some e \<Rightarrow> if name = defaultEntity \<or> ign name then map_of m name = None
        else \<exists>p. map_of m name = Some p \<and> loadedAs x kind d (itoa port) name e p"
proof (cases "map_of entities name")
  case None
  then have "map_of entities1 name = None" using rangeUpdate_map(1) [OF assms(1,2)] by simp
  then show ?thesis using rangeCollect_map(1) [OF assms(1,3)] None by simp
next
  case (Some e)
  then obtain e1 where e1: "loadEndpointTLS x kind e = Inr e1" using rangeUpdate_map(2) [OF assms(1,2)] by blast
  then have m1: "map_of entities1 name = Some e1" using rangeUpdate_map(1) [OF assms(1,2)] Some by simp
  show ?thesis
  proof (cases "name = defaultEntity \<or> ign name")
    case True
    then show ?thesis using rangeCollect_map(1) [OF assms(1,3), of name] m1 Some by simp
  next
    case False
    then obtain p where p: "endpointFrom x kind name e1 = Inr p"
      using rangeCollect_map(2) [OF assms(1,3) m1] by (auto simp: bindO_eq_Inr)
    then have "map_of m name = Some (addMissingItems d port name p)"
      using rangeCollect_map(1) [OF assms(1,3), of name] m1 False by simp
    then show ?thesis using loaded_endpoint [OF e1 p assms(4,5)] False Some by simp
  qed
qed

lemma itoa_7050: "itoa 7050 = ''7050''"
proof -
  have "itoa 7050 = itoa_nat 7050" by (simp add: itoa_def)
  also have "\<dots> = [char_of (48 + 7 :: nat), char_of (48 + 0 :: nat), char_of (48 + 5 :: nat), char_of (48 + 0 :: nat)]"
    by (subst itoa_nat.simps, simp)+
  also have "\<dots> = ''7050''" by (simp add: char_of_eq_iff)
  finally show ?thesis .
qed

lemma network_endpoints_facts:
  assumes "loadEndpointConfigEntities x ent c0 = Inr c" and "fair x"
  shows "case map_of (entPeers ent) name of
      None \<Rightarrow> map_of (Peers (networkConfig c)) name = None
    | Some e \<Rightarrow> if name = defaultEntity \<or> isPeerToBeIgnored c name then map_of (Peers (networkConfig c)) name = None
        else \<exists>p. map_of (Peers (networkConfig c)) name = Some p \<and> loadedAs x ''peer'' (defaultPeerConfig c) ''7051'' name e p"
    and "case map_of (entOrderers ent) name of
      None \<Rightarrow> map_of (Orderers (networkConfig c)) name = None
    | Some e \<Rightarrow> if name = defaultEntity \<or> isOrdererToBeIgnored c name then map_of (Orderers (networkConfig c)) name = None
        else \<exists>p. map_of (Orderers (networkConfig c)) name = Some p \<and> loadedAs x ''orderer'' (defaultOrdererConfig c) ''7050'' name e p"
proof -
  obtain ent1 :: endpointConfigEntity where
    tls: "rangeUpdate x [''tls-peers''] (\<lambda>_. loadEndpointTLS x ''peer'') (entPeers ent) = Inr (entPeers ent1)"
      "rangeUpdate x [''tls-orderers''] (\<lambda>_. loadEndpointTLS x ''orderer'') (entOrderers ent) = Inr (entOrderers ent1)"
    and dflt: "loadDefaultEndpoint x ''peer'' (entPeers ent1) = Inr (defaultPeerConfig c)"
      "loadDefaultEndpoint x ''orderer'' (entOrderers ent1) = Inr (defaultOrdererConfig c)"
    and all: "loadAllPeerConfigs x c (entPeers ent1) = Inr (Peers (networkConfig c))"
      "loadAllOrdererConfigs x c (entOrderers ent1) = Inr (Orderers (networkConfig c))"
    by (rule loaded [OF assms]) blast
  note ps = all(1) [unfolded loadAllPeerConfigs_def addMissingPeerConfigItems_def]
    and os = all(2) [unfolded loadAllOrdererConfigs_def addMissingOrdererConfigItems_def]
  note dp = loadDefaultEndpoint_spec(1,2) [OF dflt(1)] and dor = loadDefaultEndpoint_spec(1,2) [OF dflt(2)]
  show "case map_of (entPeers ent) name of
      None \<Rightarrow> map_of (Peers (networkConfig c)) name = None
    | Some e \<Rightarrow> if name = defaultEntity \<or> isPeerToBeIgnored c name then map_of (Peers (networkConfig c)) name = None
        else \<exists>p. map_of (Peers (networkConfig c)) name = Some p \<and> loadedAs x ''peer'' (defaultPeerConfig c) ''7051'' name e p"
    using collected_endpoint [OF assms(2) tls(1) ps dp(2,1), of name, unfolded itoa_7051] .
  show "case map_of (entOrderers ent) name of
      None \<Rightarrow> map_of (Orderers (networkConfig c)) name = None
    | Some e \<Rightarrow> if name = defaultEntity \<or> isOrdererToBeIgnored c name then map_of (Orderers (networkConfig c)) name = None
        else \<exists>p. map_of (Orderers (networkConfig c)) name = Some p \<and> loadedAs x ''orderer'' (defaultOrdererConfig c) ''7050'' name e p"
    using collected_endpoint [OF assms(2) tls(2) os dor(2,1), of name, unfolded itoa_7050] .
qed

text \<open>
  C33. Peers and orderers after loading. The network configuration has an entry for exactly the configured endpoints
  that are neither the default entity nor to be ignored. Each has its own URL, or else its name with the default port;
  its own certificate, or else that of the default entity; and for each connection option its own value, or else that
  of the default entity; the five options that the SDK relies on are always set.
\<close>

theorem network_endpoints:
  assumes "loadEndpointConfigEntities x ent c0 = Inr c" and "fair x"
  shows "(case map_of (entPeers ent) name of
      None \<Rightarrow> map_of (Peers (networkConfig c)) name = None
    | Some e \<Rightarrow> if name = defaultEntity \<or> isPeerToBeIgnored c name then map_of (Peers (networkConfig c)) name = None
        else \<exists>p. map_of (Peers (networkConfig c)) name = Some p \<and> loadedAs x ''peer'' (defaultPeerConfig c) ''7051'' name e p) \<and>
    (case map_of (entOrderers ent) name of
      None \<Rightarrow> map_of (Orderers (networkConfig c)) name = None
    | Some e \<Rightarrow> if name = defaultEntity \<or> isOrdererToBeIgnored c name then map_of (Orderers (networkConfig c)) name = None
        else \<exists>p. map_of (Orderers (networkConfig c)) name = Some p \<and> loadedAs x ''orderer'' (defaultOrdererConfig c) ''7050'' name e p)"
  by (rule conjI [OF network_endpoints_facts [OF assms]])

theorem network_endpoints_witness:
  "(\<exists>p. map_of (Peers (networkConfig sample_final)) ''p'' = Some p \<and> URL p = ''p:7051'') \<and>
   map_of (Peers (networkConfig sample_final)) ''old'' = None"
  using conjunct1 [OF network_endpoints [OF sample_loads sample_fair, of "''p''"]]
    conjunct1 [OF network_endpoints [OF sample_loads sample_fair, of "''old''"]]
  by (auto simp: sample_ent_def sample_final_ignored defaultEntity_def loadedAs_def)


section \<open>Ignored endpoints and channel peers\<close>

lemma channel_cfg_cases:
  assumes "loadEndpointConfigEntities x ent c0 = Inr c" "fair x" "cfg_ChannelConfig c name = Some cfg"
  obtains k where "map_of (loadChannels x c (entChannels ent)) k = Some cfg"
proof -
  have dc: "defaultChannel c = map_of (loadChannels x c (entChannels ent)) defaultEntity"
    and chs: "Channels (networkConfig c) = AList.delete defaultEntity (loadChannels x c (entChannels ent))"
    by (rule loaded [OF assms(1,2)], assumption)+
  show thesis
    using assms(3) that dc by (auto simp: cfg_ChannelConfig_def Let_def chs delete_conv split: if_splits option.splits)
qed

lemma loaded_channel_not_ignored:
  assumes "fair x" "map_of (loadChannels x c es) k = Some cfg"
  shows "(n, pc) \<in> set (chPeers cfg) \<Longrightarrow> \<not> isPeerToBeIgnored c n" "o1 \<in> set (chOrderers cfg) \<Longrightarrow> \<not> isOrdererToBeIgnored c o1"
  using assms(2) by (auto simp: map_of_loadChannels [OF assms(1)] loadChannelEndpointConfig_def Let_def split: if_splits option.splits)

lemma ignored_endpoints_facts:
  assumes "loadEndpointConfigEntities x ent c0 = Inr c" and "fair x"
  shows "isPeerToBeIgnored c n \<Longrightarrow> cfg_PeerConfig x c n = None \<and> map_of (Peers (networkConfig c)) n = None \<and>
      (\<forall>name cfg pc. cfg_ChannelConfig c name = Some cfg \<longrightarrow> (n, pc) \<notin> set (chPeers cfg))"
    and "isOrdererToBeIgnored c n \<Longrightarrow> cfg_OrdererConfig c n = (None, True) \<and> map_of (Orderers (networkConfig c)) n = None \<and>
      (\<forall>name cfg. cfg_ChannelConfig c name = Some cfg \<longrightarrow> n \<notin> set (chOrderers cfg))"
proof -
  obtain ent1 :: endpointConfigEntity where all: "loadAllPeerConfigs x c (entPeers ent1) = Inr (Peers (networkConfig c))"
      "loadAllOrdererConfigs x c (entOrderers ent1) = Inr (Orderers (networkConfig c))"
    by (rule loaded [OF assms]) blast
  note ps = rangeCollect_map(1) [OF assms(2) all(1) [unfolded loadAllPeerConfigs_def], of n]
    and os = rangeCollect_map(1) [OF assms(2) all(2) [unfolded loadAllOrdererConfigs_def], of n]
  show "cfg_PeerConfig x c n = None \<and> map_of (Peers (networkConfig c)) n = None \<and>
      (\<forall>name cfg pc. cfg_ChannelConfig c name = Some cfg \<longrightarrow> (n, pc) \<notin> set (chPeers cfg))" if ign: "isPeerToBeIgnored c n"
  proof (intro conjI allI impI notI)
    show "cfg_PeerConfig x c n = None"
      using ign by (auto simp: cfg_PeerConfig_def tryMatchingPeerConfig_def isPeerToBeIgnored_def matchPeer_def split: option.splits)
    show "map_of (Peers (networkConfig c)) n = None" using ps ign by (simp split: option.splits)
    show False if "cfg_ChannelConfig c name = Some cfg" "(n, pc) \<in> set (chPeers cfg)" for name cfg pc
      using channel_cfg_cases [OF assms that(1)] loaded_channel_not_ignored(1) [OF assms(2) _ that(2)] ign by metis
  qed
  show "cfg_OrdererConfig c n = (None, True) \<and> map_of (Orderers (networkConfig c)) n = None \<and>
      (\<forall>name cfg. cfg_ChannelConfig c name = Some cfg \<longrightarrow> n \<notin> set (chOrderers cfg))" if ign: "isOrdererToBeIgnored c n"
  proof (intro conjI allI impI notI)
    show "cfg_OrdererConfig c n = (None, True)"
      using ign by (auto simp: cfg_OrdererConfig_def tryMatchingOrdererConfig_def isOrdererToBeIgnored_def matchOrderer_def split: option.splits)
    show "map_of (Orderers (networkConfig c)) n = None" using os ign by (simp split: option.splits)
    show False if "cfg_ChannelConfig c name = Some cfg" "n \<in> set (chOrderers cfg)" for name cfg
      using channel_cfg_cases [OF assms that(1)] loaded_channel_not_ignored(2) [OF assms(2) _ that(2)] ign by metis
  qed
qed

text \<open>
  Endpoints that an entity matcher tells to ignore are never handed out. The first matcher whose pattern matches a
  name decides; if it says to ignore it, the name is not found by a lookup, not even as a URL, is not an entry of the
  network configuration, and is not among the peers or orderers of any channel, configured or default.
\<close>

theorem ignored_endpoints:
  assumes "loadEndpointConfigEntities x ent c0 = Inr c" and "fair x"
  shows "(isPeerToBeIgnored c n \<longrightarrow> cfg_PeerConfig x c n = None \<and> map_of (Peers (networkConfig c)) n = None \<and>
      (\<forall>name cfg pc. cfg_ChannelConfig c name = Some cfg \<longrightarrow> (n, pc) \<notin> set (chPeers cfg))) \<and>
    (isOrdererToBeIgnored c n \<longrightarrow> cfg_OrdererConfig c n = (None, True) \<and> map_of (Orderers (networkConfig c)) n = None \<and>
      (\<forall>name cfg. cfg_ChannelConfig c name = Some cfg \<longrightarrow> n \<notin> set (chOrderers cfg)))"
  using ignored_endpoints_facts [OF assms] by blast

theorem ignored_endpoints_witness:
  "cfg_PeerConfig sample_ext sample_final ''old'' = None"
  using ignored_endpoints [OF sample_loads sample_fair, of "''old''"] by (simp add: sample_final_ignored)

lemma peerMSPID_org:
  assumes "fair x" "peerMSPID x c site n = Some msp"
  shows "msp \<noteq> '''' \<and> (\<exists>nm org. map_of (Organizations (networkConfig c)) nm = Some org \<and> orgHasPeer c org n \<and> orgMSPID org = msp)"
proof -
  have inv: "fold (\<lambda>(_, org) msp. if orgHasPeer c org n then orgMSPID org else msp) kvs m0 = m0 \<or>
      (\<exists>nm org. (nm, org) \<in> set kvs \<and> orgHasPeer c org n \<and>
         orgMSPID org = fold (\<lambda>(_, org) msp. if orgHasPeer c org n then orgMSPID org else msp) kvs m0)" for kvs m0
  proof (induction kvs arbitrary: m0)
    case (Cons kv kvs)
    obtain nm org where kv: "kv = (nm, org)" by fastforce
    show ?case
    proof (cases "orgHasPeer c org n")
      case True
      then show ?thesis using Cons.IH [of "orgMSPID org"] unfolding kv by fastforce
    qed (use Cons.IH [of m0] kv in auto)
  qed simp
  from assms(2) show ?thesis
    using inv [of "ranges x site (Organizations (networkConfig c))" "''''", unfolded ranges_in [OF assms(1)]]
    by (auto simp: peerMSPID_def Let_def split: if_splits)
qed

text \<open>What is known of a peer of a channel that is configured under the name \<open>n\<close>.\<close>

definition channelPeerOk :: "'v ecfg_ext \<Rightarrow> 'v EndpointConfig \<Rightarrow> string \<Rightarrow> ChannelPeer \<Rightarrow> bool" where
  "channelPeerOk x c n p \<longleftrightarrow>
     (let cfg = npConfig (cpNetworkPeer p); msp = npMSPID (cpNetworkPeer p) in
      tryMatchingPeerConfig x c (ToLower n) False = Some cfg \<and> URL cfg \<noteq> '''' \<and>
      (IsTLSEnabled (URL cfg) \<longrightarrow> TLSCACert cfg \<noteq> None \<or> usesSystemPool x c) \<and> msp \<noteq> '''' \<and>
      (\<exists>nm org. map_of (Organizations (networkConfig c)) nm = Some org \<and> orgHasPeer c org n \<and> orgMSPID org = msp))"

lemma channelPeer_step:
  assumes "fair x" "channelPeer x c ch (n, pc) acc = Inr acc1"
  shows "acc1 = acc \<or> (\<exists>p. acc1 = acc @ [p] \<and> cpChannelConfig p = pc \<and> channelPeerOk x c n p)"
  using assms(2) peerMSPID_org [OF assms(1)]
  by (auto simp: channelPeer_def channelPeerOk_def verifyPeerConfig_def Let_def split: option.splits if_splits)

lemma channelPeers_fold:
  assumes "fair x" "foldE (channelPeer x c ch) nps [] = Inr ps" "p \<in> set ps"
  shows "\<exists>n. (n, cpChannelConfig p) \<in> set nps \<and> channelPeerOk x c n p"
proof -
  have "\<forall>p \<in> set ps. \<exists>n. (n, cpChannelConfig p) \<in> set nps \<and> channelPeerOk x c n p"
  proof (rule foldE_invariant [OF assms(2)])
    fix np acc acc1
    assume "np \<in> set nps" "\<forall>p \<in> set acc. \<exists>n. (n, cpChannelConfig p) \<in> set nps \<and> channelPeerOk x c n p"
      "channelPeer x c ch np acc = Inr acc1"
    moreover obtain n pc where "np = (n, pc)" by fastforce
    ultimately show "\<forall>p \<in> set acc1. \<exists>n. (n, cpChannelConfig p) \<in> set nps \<and> channelPeerOk x c n p"
      using channelPeer_step [OF assms(1), of c ch n pc acc acc1] by auto
  qed simp
  then show ?thesis using assms(3) by blast
qed


text \<open>
  C34. The peers of a channel can be used. Every peer that \<open>ChannelPeers\<close> returns, for any channel name, is configured
  for that channel or for the default channel, with the roles given there, under a name that is not ignored; it has a
  URL, and a certificate or the system pool when its URL asks for TLS; and its MSP ID is that of an organization to
  which it belongs.
\<close>

theorem channel_peers_usable:
  assumes "loadEndpointConfigEntities x ent c0 = Inr c" and "fair x" and "p \<in> set (cfg_ChannelPeers c name)"
  shows "\<exists>chID ch n. map_of (loadChannels x c (entChannels ent)) chID = Some ch \<and> ToLower chID = ToLower (mappedChannelName c name) \<and>
    map_of (chPeers ch) n = Some (cpChannelConfig p) \<and> \<not> isPeerToBeIgnored c n \<and> channelPeerOk x c n p"
proof -
  obtain c5 c6 where s: "same_net c5 c" and chs: "Channels (networkConfig c5) = loadChannels x c (entChannels ent)"
    and c6: "loadChannelPeers x c5 = Inr c6" "channelPeersByChannel c = channelPeersByChannel c6"
    by (rule loaded [OF assms(1,2)]) blast
  let ?good = "\<lambda>key p. \<exists>chID ch n. map_of (loadChannels x c (entChannels ent)) chID = Some ch \<and> ToLower chID = key \<and>
    map_of (chPeers ch) n = Some (cpChannelConfig p) \<and> \<not> isPeerToBeIgnored c n \<and> channelPeerOk x c n p"
  from c6 have fold: "foldE (\<lambda>(channelID, cc) m.
         bindO (foldE (channelPeer x c channelID) (ranges x [''chpeers'', channelID] (chPeers cc)) []) (\<lambda>ps.
         Inr (AList.update (ToLower channelID) ps m)))
       (ranges x [''channels-peers''] (Channels (networkConfig c5))) [] = Inr (channelPeersByChannel c)"
    by (auto simp: loadChannelPeers_def bindO_eq_Inr same_net_channelPeer [OF s])
  have "\<forall>key ps. map_of (channelPeersByChannel c) key = Some ps \<longrightarrow> (\<forall>p \<in> set ps. ?good key p)"
  proof (rule foldE_invariant [OF fold])
    fix kc m m1
    assume kc: "kc \<in> set (ranges x [''channels-peers''] (Channels (networkConfig c5)))"
      and m: "\<forall>key ps. map_of m key = Some ps \<longrightarrow> (\<forall>p \<in> set ps. ?good key p)"
      and step: "(case kc of (channelID, cc) \<Rightarrow> \<lambda>m. bindO (foldE (channelPeer x c channelID) (ranges x [''chpeers'', channelID] (chPeers cc)) [])
         (\<lambda>ps. Inr (AList.update (ToLower channelID) ps m))) m = Inr m1"
    obtain k cc where k: "kc = (k, cc)" by fastforce
    with kc have ch: "map_of (loadChannels x c (entChannels ent)) k = Some cc" by (simp add: ranges_in [OF assms(2)] chs)
    from step k obtain ps where ps: "foldE (channelPeer x c k) (ranges x [''chpeers'', k] (chPeers cc)) [] = Inr ps"
      and m1: "m1 = AList.update (ToLower k) ps m" by (auto simp: bindO_eq_Inr)
    have "?good (ToLower k) p" if pin: "p \<in> set ps" for p
    proof -
      obtain n where n: "map_of (chPeers cc) n = Some (cpChannelConfig p)" "channelPeerOk x c n p"
        using channelPeers_fold [OF assms(2) ps pin] by (auto simp: ranges_in [OF assms(2)])
      moreover have "\<not> isPeerToBeIgnored c n" using loaded_channel_not_ignored(1) [OF assms(2) ch] map_of_SomeD [OF n(1)] by blast
      ultimately show ?thesis using ch by blast
    qed
    then show "\<forall>key ps. map_of m1 key = Some ps \<longrightarrow> (\<forall>p \<in> set ps. ?good key p)"
      using m by (simp add: m1 update_conv')
  qed simp
  moreover obtain ps where "map_of (channelPeersByChannel c) (ToLower (mappedChannelName c name)) = Some ps" "p \<in> set ps"
    using assms(3) by (cases "map_of (channelPeersByChannel c) (ToLower (mappedChannelName c name))") (simp_all add: cfg_ChannelPeers_def)
  ultimately show ?thesis by blast
qed

theorem channel_peers_usable_witness:
  "\<exists>n. channelPeerOk sample_ext sample_final n (hd sample_chPeers)"
proof -
  have "Channels (networkConfig sample_final) = AList.delete defaultEntity (loadChannels sample_ext sample_final (entChannels sample_ent))"
    by (rule loaded [OF sample_loads sample_fair], assumption)
  then have "map_of (Channels (networkConfig sample_final)) ''ch'' \<noteq> None"
    by (simp add: delete_conv map_of_loadChannels [OF sample_fair] sample_ent_def defaultEntity_def)
  then have "hd sample_chPeers \<in> set (cfg_ChannelPeers sample_final ''ch'')"
    by (simp add: cfg_ChannelPeers_def mappedChannelName_def sample_final_peers sample_chPeers_def ToLower_def lowerByte_def)
  then show ?thesis using channel_peers_usable [OF sample_loads sample_fair] by blast
qed


section \<open>Panics\<close>

lemma Subst_panic: "Subst x path = Inl e \<Longrightarrow> defaultGOPATH x = ''''"
proof -
  have var: "lookupVar x v = Inl e1 \<Longrightarrow> defaultGOPATH x = ''''" for v e1
    by (auto simp: lookupVar_def goPath_def split: if_splits)
  have "substVar x s ''${'' ''}'' = Inl e1 \<Longrightarrow> defaultGOPATH x = ''''" for s e1
    using var by (auto simp: substVar_def split: option.splits sum.splits)
  moreover assume "Subst x path = Inl e"
  then have "\<exists>s e1. substVar x s ''${'' ''}'' = Inl e1"
    by (cases "mapE (\<lambda>s. substVar x s ''${'' ''}'') (tl (Split path ''${''))")
      (auto simp: Subst_def Let_def dest!: mapE_Inl_ex)
  ultimately show ?thesis by blast
qed

lemma foldE_Inl_ex: "foldE f xs s = Inl e \<Longrightarrow> \<exists>y s1. y \<in> set xs \<and> f y s1 = Inl e"
proof (induction xs arbitrary: s)
  case (Cons a xs)
  show ?case
  proof (cases "f a s")
    case (Inr b)
    then obtain y s1 where "y \<in> set xs" "f y s1 = Inl e" using Cons by fastforce
    then show ?thesis by (metis list.set_intros(2))
  qed (use Cons.prems in auto)
qed simp

lemma rangeUpdate_panic: "rangeUpdate x site f m = Inl e \<Longrightarrow> \<exists>k a. f k a = Inl e"
  unfolding rangeUpdate_def by (drule foldE_Inl_ex) (force simp: bindO_eq_Inl)

lemma rangeCollect_panic: "rangeCollect x site f m = Inl e \<Longrightarrow> \<exists>k a. f k a = Inl e"
  unfolding rangeCollect_def by (drule foldE_Inl_ex) (force simp: bindO_eq_Inl)

lemma tls_panics:
  assumes "defaultGOPATH (ecEnv x) \<noteq> ''''"
  shows "substPath x t \<noteq> Inl e" "loadTLS x msg t \<noteq> Inl (Panic p)" "loadKeyPair x who kp \<noteq> Inl (Panic p)"
    "loadEndpointTLS x kind en \<noteq> Inl (Panic p)"
proof -
  show sp: "substPath x t \<noteq> Inl e" for t e using assms Subst_panic by (auto simp: substPath_def bindO_eq_Inl)
  show lt: "loadTLS x msg t \<noteq> Inl (Panic p)" for msg t p by (simp add: loadTLS_def)
  show "loadKeyPair x who kp \<noteq> Inl (Panic p)" "loadEndpointTLS x kind en \<noteq> Inl (Panic p)"
    using sp lt by (auto simp: loadKeyPair_def loadEndpointTLS_def bindO_eq_Inl)
qed

lemma loadAllTLSConfig_panics:
  assumes "defaultGOPATH (ecEnv x) \<noteq> ''''"
  shows "loadAllTLSConfig x ent c \<noteq> Inl (Panic p)"
proof -
  have "loadClientTLSConfig x ent1 \<noteq> Inl (Panic p)" for ent1
    using tls_panics [OF assms] by (auto simp: loadClientTLSConfig_def bindO_eq_Inl)
  moreover have "loadOrgTLSConfig x ent1 \<noteq> Inl (Panic p)" for ent1
    using tls_panics [OF assms] by (auto simp: loadOrgTLSConfig_def bindO_eq_Inl dest!: rangeUpdate_panic)
  moreover have "loadOrdererPeerTLSConfig x ent1 \<noteq> Inl (Panic p)" for ent1
    using tls_panics [OF assms] by (auto simp: loadOrdererPeerTLSConfig_def bindO_eq_Inl dest!: rangeUpdate_panic)
  moreover have "loadTLSClientCerts x ent1 c1 \<noteq> Inl (Panic p)" for ent1 c1
    by (auto simp: loadTLSClientCerts_def loadPrivateKeyFromConfig_def Let_def bindO_eq_Inl split: sum.splits option.splits)
  ultimately show ?thesis by (auto simp: loadAllTLSConfig_def bindO_eq_Inl)
qed

text \<open>\<open>nilOptions\<close>: the default entity is configured without options.\<close>

definition nilOptions :: "endpointEntity gomap \<Rightarrow> bool" where
  "nilOptions es \<longleftrightarrow> (case map_of es defaultEntity of Some e \<Rightarrow> eGRPCOptions e = None | None \<Rightarrow> False)"

lemma loadDefaultEndpoint_panics: "loadDefaultEndpoint x kind es = Inl (Panic p) \<longleftrightarrow> nilOptions es \<and> p = ''assignment to entry in nil map''"
proof -
  have nil: "foldE setMissing grpcDefaults None = Inl (Panic ''assignment to entry in nil map'')"
    by (simp add: grpcDefaults_def setMissing_def getOpt_def setOpt_def)
  show ?thesis
  proof (cases "map_of es defaultEntity")
    case None
    then show ?thesis
      by (auto simp: loadDefaultEndpoint_def nilOptions_def foldE_setMissing split: sum.splits simp del: split_paired_Ex) (auto simp: bindO_eq_Inl)
  next
    case (Some e)
    then show ?thesis
      by (cases "eGRPCOptions e") (auto simp: loadDefaultEndpoint_def nilOptions_def foldE_setMissing nil bindO_eq_Inl)
  qed
qed


lemma nilOptions_tls:
  assumes "fair x" "rangeUpdate x site (\<lambda>_. loadEndpointTLS x kind) es = Inr es1"
  shows "nilOptions es1 \<longleftrightarrow> nilOptions es"
proof (cases "map_of es defaultEntity")
  case None
  then show ?thesis using rangeUpdate_map(1) [OF assms, of defaultEntity] by (simp add: nilOptions_def)
next
  case (Some e)
  then obtain e1 where e1: "loadEndpointTLS x kind e = Inr e1" using rangeUpdate_map(2) [OF assms] by blast
  then show ?thesis
    using rangeUpdate_map(1) [OF assms, of defaultEntity] Some loadEndpointTLS_keeps [OF e1] by (simp add: nilOptions_def)
qed

lemma defaults_panic:
  assumes "loadDefaultConfigItems x ent c = Inl (Panic p)"
  shows "(nilOptions (entOrderers ent) \<or> nilOptions (entPeers ent)) \<and> p = ''assignment to entry in nil map''"
  using assms
  by (auto simp: loadDefaultConfigItems_def loadDefaultOrderer_def loadDefaultPeer_def bindO_eq_Inl loadDefaultEndpoint_panics)

lemma no_panic_stages:
  "compileMatchers x c \<noteq> Inl (Panic p)" "loadNetworkConfig x ent c \<noteq> Inl (Panic p)" "loadOrdererConfigs x c \<noteq> Inl (Panic p)"
  "loadChannelPeers x c \<noteq> Inl (Panic p)" "loadChannelOrderers x c \<noteq> Inl (Panic p)" "loadTLSCertPool x c \<noteq> Inl (Panic p)"
proof -
  show "compileMatchers x c \<noteq> Inl (Panic p)"
    by (auto simp: compileMatchers_def compileAllMatchers_def compileKind_def bindO_eq_Inl split: if_splits)
  have ep: "endpointFrom x kind name e \<noteq> Inl (Panic p)" for kind name e by (auto simp: endpointFrom_def bindO_eq_Inl)
  then show "loadNetworkConfig x ent c \<noteq> Inl (Panic p)"
    by (auto simp: loadNetworkConfig_def loadAllOrdererConfigs_def loadAllPeerConfigs_def bindO_eq_Inl split: if_splits dest!: rangeCollect_panic)
  show "loadOrdererConfigs x c \<noteq> Inl (Panic p)"
    by (auto simp: loadOrdererConfigs_def bindO_eq_Inl split: prod.splits option.splits bool.splits if_splits dest!: foldE_Inl_ex)
  have "channelPeer x c ch np acc \<noteq> Inl (Panic p)" for ch np acc
    by (auto simp: channelPeer_def split: prod.splits option.splits)
  then show "loadChannelPeers x c \<noteq> Inl (Panic p)"
    by (auto simp: loadChannelPeers_def bindO_eq_Inl dest!: foldE_Inl_ex)
  have "channelOrderer c n acc \<noteq> Inl (Panic p)" for n acc
    by (auto simp: channelOrderer_def split: prod.splits option.splits if_splits)
  then show "loadChannelOrderers x c \<noteq> Inl (Panic p)"
    by (auto simp: loadChannelOrderers_def bindO_eq_Inl dest!: foldE_Inl_ex)
  have "(case r of (_, Inl e) \<Rightarrow> Inl (Err (ErrWithMessage ''cert pool load failed'' e)) | (cp1, Inr _) \<Rightarrow> Inr (c\<lparr>tlsCertPool := cp1\<rparr>)) \<noteq> Inl (Panic p)"
    for r :: "certPool \<times> (error + cert list)" by (cases r; cases "snd r") auto
  then show "loadTLSCertPool x c \<noteq> Inl (Panic p)"
    unfolding loadTLSCertPool_def bindO_eq_Inl by simp
qed

text \<open>
  C35. Loading a configuration returns a configuration or an error, and does not crash, with one exception: when the
  \<open>_default\<close> peer or orderer is configured without connection options, the defaults are assigned to a nil map. (A GOPATH
  that is empty makes the substitution of that variable crash as well.)
\<close>

theorem loading_panics_only:
  assumes "loadEndpointConfigEntities x ent c0 = Inl (Panic p)" and "fair x" and "defaultGOPATH (ecEnv x) \<noteq> ''''"
  shows "(nilOptions (entOrderers ent) \<or> nilOptions (entPeers ent)) \<and> p = ''assignment to entry in nil map''"
proof -
  from assms(1) obtain c1 ent1 c2 where c2: "loadAllTLSConfig x ent c1 = Inr (ent1, c2)"
    and p: "loadDefaultConfigItems x ent1 c2 = Inl (Panic p)"
    by (auto simp: loadEndpointConfigEntities_def bindO_eq_Inl loadAllTLSConfig_panics [OF assms(3)] no_panic_stages)
  note tls = loadAllTLSConfig_spec [OF c2]
  show ?thesis
    using defaults_panic [OF p] nilOptions_tls [OF assms(2) tls(3)] nilOptions_tls [OF assms(2) tls(4)] by simp
qed


definition panic_ent :: endpointConfigEntity where
  "panic_ent = \<lparr>entClient = zeroClient, entChannels = [], entOrganizations = [], entOrderers = [],
     entPeers = [(''_default'', \<lparr>eURL = '''', eGRPCOptions = None, eTLSCACerts = zeroTLS\<rparr>)]\<rparr>"

lemma panic_load: "loadEndpointConfigEntities sample_ext panic_ent sample_start = Inl (Panic ''assignment to entry in nil map'')"
proof -
  have "loadAllTLSConfig sample_ext panic_ent sample_matched = Inr (panic_ent, sample_matched\<lparr>tlsClientCerts := ['''']\<rparr>)"
    by (simp add: load_defs sample_ext_def panic_ent_def zeroClient_def zeroTLS_def Subst_nil empty_env_def ToLower_def)
  moreover have "loadDefaultEndpoint sample_ext ''orderer'' (entOrderers panic_ent) =
      Inr \<lparr>URL = '''', GRPCOptions = Some grpcDefaults, TLSCACert = None\<rparr>"
    by (simp add: loadDefaultEndpoint_def panic_ent_def sample_options sample_noCert liftE_def withMsgO_def)
  moreover have "loadDefaultEndpoint sample_ext ''peer'' (entPeers panic_ent) = Inl (Panic ''assignment to entry in nil map'')"
    by (simp add: loadDefaultEndpoint_panics nilOptions_def panic_ent_def defaultEntity_def)
  ultimately show ?thesis
    by (simp add: loadEndpointConfigEntities_def sample_match loadDefaultConfigItems_def loadDefaultOrderer_def loadDefaultPeer_def withMsgO_def)
qed

theorem loading_panics_only_witness: "nilOptions (entOrderers panic_ent) \<or> nilOptions (entPeers panic_ent)"
  using loading_panics_only [OF panic_load sample_fair] by (simp add: sample_ext_def empty_env_def)

section \<open>Lookup by name or URL\<close>

lemma findByURL_Some: "findByURL ps key = Some p \<Longrightarrow> p \<in> set ps \<and> EqualFold (URL p) key"
  by (induction ps) (auto split: if_splits)

text \<open>
  A search for a peer that no matcher knows finds the peer of that name, else a peer with that URL up to case, else,
  if the name looks like a URL, a peer with that URL and the default options; otherwise nothing. The search of an
  orderer is the same over the loaded orderers.
\<close>

theorem PeerConfig_lookup:
  assumes "fair x" and "firstMatcher (peerMatchers c) key = None"
  shows "cfg_PeerConfig x c key = Some p \<Longrightarrow>
      map_of (Peers (networkConfig c)) (ToLower key) = Some p \<or>
      (\<exists>n. map_of (Peers (networkConfig c)) n = Some p) \<and> EqualFold (URL p) key \<or>
      Contains key '':'' \<and> p = \<lparr>URL = key, GRPCOptions = GRPCOptions (defaultPeerConfig c), TLSCACert = TLSCACert (defaultPeerConfig c)\<rparr>"
    and "cfg_PeerConfig x c key = None \<Longrightarrow> map_of (Peers (networkConfig c)) (ToLower key) = None \<and> \<not> Contains key '':''"
proof -
  assume p: "cfg_PeerConfig x c key = Some p"
  show "map_of (Peers (networkConfig c)) (ToLower key) = Some p \<or>
      (\<exists>n. map_of (Peers (networkConfig c)) n = Some p) \<and> EqualFold (URL p) key \<or>
      Contains key '':'' \<and> p = \<lparr>URL = key, GRPCOptions = GRPCOptions (defaultPeerConfig c), TLSCACert = TLSCACert (defaultPeerConfig c)\<rparr>"
  proof (cases "findByURL (map snd (ranges x [''url'', key] (Peers (networkConfig c)))) key")
    case (Some q)
    from findByURL_Some [OF Some] obtain n where "(n, q) \<in> set (ranges x [''url'', key] (Peers (networkConfig c)))" "EqualFold (URL q) key" by auto
    then have "map_of (Peers (networkConfig c)) n = Some q" "EqualFold (URL q) key" by (simp_all add: ranges_in [OF assms(1)])
    then show ?thesis using p Some assms(2) by (auto simp: cfg_PeerConfig_def tryMatchingPeerConfig_def split: option.splits)
  qed (use p assms(2) in \<open>auto simp: cfg_PeerConfig_def tryMatchingPeerConfig_def split: option.splits if_splits\<close>)
next
  assume "cfg_PeerConfig x c key = None"
  then show "map_of (Peers (networkConfig c)) (ToLower key) = None \<and> \<not> Contains key '':''"
    using assms(2) by (auto simp: cfg_PeerConfig_def tryMatchingPeerConfig_def split: option.splits if_splits)
qed

theorem PeerConfig_lookup_witness: "cfg_PeerConfig sample_ext sample_start ''peer'' \<noteq> Some \<lparr>URL = ''x'', GRPCOptions = None, TLSCACert = None\<rparr>"
  using PeerConfig_lookup(1) [OF sample_fair, of sample_start "''peer''" "\<lparr>URL = ''x'', GRPCOptions = None, TLSCACert = None\<rparr>"]
  by (auto simp: sample_start_def zeroConfig_def HasPrefix_def)

end
