(* ===== verification/Resource.thy ===== *)
theory Resource
  imports Transactor Attempts
begin

text \<open>
  Network resources: the package \<^verbatim>\<open>pkg/fab/resource\<close> (\<open>resource.go\<close>, \<open>block.go\<close>, \<open>config.go\<close>, \<open>cscc.go\<close>,
  \<open>lscc.go\<close>), the functions by which the resource management client talks to the system chaincodes of the
  peers and to the orderers, and the header functions of \<^verbatim>\<open>pkg/fab/txn/env.go\<close> they use.

  The network of an operation is \<open>resNet c k n\<close>: what the client, the peers and the orderers do in attempt \<open>n\<close>
  of the \<open>k\<close>-th call of the operation, so that every call and every retry may be answered differently. The Go
  routines of \<open>JoinChannel\<close> make one call each and finish in the order drawn from \<open>joinOrder\<close>. A result of type
  \<open>rm\<close> is \<open>None\<close> when a retry loop never ends. Protobuf messages are the record \<open>res_protos\<close> of parameters. A
  block without metadata entries stands for one whose metadata is nil.
\<close>

type_synonym 'a rm = "'a outcome option"

definition bindM :: "'a rm \<Rightarrow> ('a \<Rightarrow> 'b rm) \<Rightarrow> 'b rm" where
  "bindM r f = (case r of None \<Rightarrow> None | Some (Inl e) \<Rightarrow> Some (Inl e) | Some (Inr a) \<Rightarrow> f a)"

definition errM :: "string \<Rightarrow> 'a rm" where
  "errM msg = Some (Inl (Err (ErrNew msg)))"

definition msgM :: "string \<Rightarrow> 'a rm \<Rightarrow> 'a rm" where
  "msgM msg r = map_option (withMsgO msg) r"

lemma bindM_simps [simp]:
  "bindM None f = None" "bindM (Some (Inl e)) f = Some (Inl e)" "bindM (Some (Inr a)) f = f a"
  by (simp_all add: bindM_def)

lemma bindM_Inr: "bindM r f = Some (Inr b) \<longleftrightarrow> (\<exists>a. r = Some (Inr a) \<and> f a = Some (Inr b))"
  by (auto simp: bindM_def split: option.split sum.split)

lemma withMsgO_eq_Inr [simp]: "withMsgO msg r = Inr b \<longleftrightarrow> r = Inr b"
  by (cases r rule: asAttempt.cases) (simp_all add: withMsgO_def)

lemma msgM_Inr: "msgM msg r = Some (Inr b) \<longleftrightarrow> r = Some (Inr b)"
  by (auto simp: msgM_def)

lemma bindM_ends: "r \<noteq> None \<Longrightarrow> (\<And>a. f a \<noteq> None) \<Longrightarrow> bindM r f \<noteq> None"
  by (auto simp: bindM_def split: option.split sum.split)

lemma msgM_ends: "r \<noteq> None \<Longrightarrow> msgM msg r \<noteq> None"
  by (simp add: msgM_def)

lemma errM_ends: "errM msg \<noteq> None"
  by (simp add: errM_def)

lemma if_ends: "(b \<Longrightarrow> r \<noteq> None) \<Longrightarrow> (\<not> b \<Longrightarrow> s \<noteq> None) \<Longrightarrow> (if b then r else s) \<noteq> None"
  by simp

lemma case_ends: "r \<noteq> None \<Longrightarrow> (\<And>a. f a \<noteq> None) \<Longrightarrow> (case v of None \<Rightarrow> r | Some a \<Rightarrow> f a) \<noteq> None"
  by (auto split: option.split)

lemmas ends = bindM_ends msgM_ends errM_ends if_ends case_ends option.distinct(2)

section \<open>Messages\<close>

record channelHeaderMsg =
  chmType :: int32
  chmChannelId :: string
  chmTxId :: string
  chmEpoch :: uint64
  chmTlsCertHash :: bytes
  chmTimestamp :: bytes
  chmExtension :: bytes

record ConfigSignature =
  csHeader :: bytes
  csSignature :: bytes

record ChaincodeInfo =
  ciName :: string
  ciVersion :: string
  ciPath :: string

record CCPackage =
  pkgType :: nat
  pkgCode :: bytes

record ChaincodeInstallRequest =
  instName :: string
  instPath :: string
  instVersion :: string
  instPackage :: "CCPackage option"

datatype SeekPosition = SeekNewest | SeekSpecified uint64

record res_protos =
  timestampNow :: "error + bytes"
  marshalHeaderExtension :: "string \<Rightarrow> error + bytes"
  marshalChannelHeader :: "channelHeaderMsg \<Rightarrow> error + bytes"
  marshalSignatureHeader :: "bytes \<Rightarrow> bytes \<Rightarrow> error + bytes"
  marshalSeekInfo :: "SeekPosition \<Rightarrow> SeekPosition \<Rightarrow> error + bytes"
  marshalConfigUpdateEnvelope :: "bytes \<Rightarrow> ConfigSignature list \<Rightarrow> error + bytes"
  marshalBlock :: "block \<Rightarrow> error + bytes"
  marshalDeploymentSpec :: "nat \<Rightarrow> string \<Rightarrow> string \<Rightarrow> string \<Rightarrow> bytes \<Rightarrow> error + bytes"
  unmarshalSignedEnvelope :: "bytes \<Rightarrow> error + SignedEnvelope"
  unmarshalConfigUpdateEnvelope :: "bytes \<Rightarrow> error + bytes"
  unmarshalConfigEnvelope :: "bytes \<Rightarrow> error + bytes"
  unmarshalMetadata :: "bytes \<Rightarrow> error + bytes"
  unmarshalLastConfig :: "bytes \<Rightarrow> error + uint64"
  unmarshalChannelQueryResponse :: "bytes \<Rightarrow> error + string list"
  unmarshalChaincodeQueryResponse :: "bytes \<Rightarrow> error + ChaincodeInfo list"
  fabricProtos :: protos
  LAST_CONFIG :: nat
  HeaderType_CONFIG :: int32
  HeaderType_CONFIG_UPDATE :: int32
  HeaderType_DELIVER_SEEK_INFO :: int32

record res_ext =
  resNet :: "nat \<Rightarrow> nat \<Rightarrow> txn_ext"
  resErr :: ext
  resCodes :: ext_codes
  resRound :: "rat \<Rightarrow> rat"
  resProtos :: res_protos
  tlsCertHash :: "error + bytes"
  joinOrder :: rand_src

section \<open>Headers\<close>

definition CreateChannelHeader ::
  "res_protos \<Rightarrow> int32 \<Rightarrow> TransactionHeader \<Rightarrow> uint64 \<Rightarrow> string \<Rightarrow> bytes \<Rightarrow> channelHeaderMsg outcome" where
  "CreateChannelHeader pb headerType txh epoch chaincodeID hash =
     bindO (wrapE ''failed to create timestamp in channel header'' (timestampNow pb)) (\<lambda>ts.
     bindO (if chaincodeID \<noteq> '''' then wrapE ''marshal header extension failed'' (marshalHeaderExtension pb chaincodeID)
            else Inr []) (\<lambda>extension.
     Inr \<lparr>chmType = headerType, chmChannelId = thChannelID txh, chmTxId = thID txh, chmEpoch = epoch,
          chmTlsCertHash = hash, chmTimestamp = ts, chmExtension = extension\<rparr>))"

definition createHeader :: "res_protos \<Rightarrow> TransactionHeader \<Rightarrow> channelHeaderMsg \<Rightarrow> Header outcome" where
  "createHeader pb th channelHeader =
     bindO (wrapE ''marshal signatureHeader failed'' (marshalSignatureHeader pb (thCreator th) (thNonce th))) (\<lambda>sh.
     bindO (wrapE ''marshal channelHeader failed'' (marshalChannelHeader pb channelHeader)) (\<lambda>ch.
     Inr \<lparr>HSignatureHeader = sh, HChannelHeader = ch\<rparr>))"

definition CreatePayload :: "res_protos \<Rightarrow> TransactionHeader \<Rightarrow> channelHeaderMsg \<Rightarrow> bytes \<Rightarrow> (Header \<times> bytes) outcome" where
  "CreatePayload pb txh channelHeader data =
     bindO (wrapF ''header creation failed'' (createHeader pb txh channelHeader)) (\<lambda>header. Inr (header, data))"

section \<open>Retrying\<close>

text \<open>The retry options when no option was given; they allow no second attempt.\<close>

definition no_retry :: Opts where
  "no_retry = \<lparr>Attempts = 0, InitialBackoff = 0, MaxBackoff = 0, BackoffFactor = 0, RetryableCodes = []\<rparr>"

text \<open>The invocation of attempt \<open>n\<close> is \<open>f n\<close>.\<close>

definition resRetry :: "res_ext \<Rightarrow> Opts \<Rightarrow> (nat \<Rightarrow> 'a outcome) \<Rightarrow> 'a rm" where
  "resRetry c ro f = map_option fst (attempts (resRound c) (resErr c) (resCodes c) ro (\<lambda>n. (f n, Suc n)) 0)"

lemma resRetry_last: "resRetry c ro f = Some r \<Longrightarrow> \<exists>n. f n = r"
proof -
  assume "resRetry c ro f = Some r"
  then obtain t1 where "attempts (resRound c) (resErr c) (resCodes c) ro (\<lambda>n. (f n, Suc n)) 0 = Some (r, t1)"
    by (auto simp: resRetry_def)
  from attempts_last [OF this, where P = "\<lambda>_. True"] show ?thesis by auto
qed

lemma resRetry_returns: "0 \<le> Attempts ro \<Longrightarrow> resRetry c ro f \<noteq> None"
  using attempts_returns [of ro "resRound c" "resErr c" "resCodes c" "\<lambda>n. (f n, Suc n)" 0] by (auto simp: resRetry_def)

lemma resRetry_success: "f 0 = Inr a \<Longrightarrow> resRetry c ro f = Some (Inr a)"
  by (simp add: resRetry_def attempts_success)

lemma resRetry_once: "Attempts ro = 0 \<Longrightarrow> resRetry c ro f = Some (f 0)"
  by (simp add: resRetry_def attempts_once)

section \<open>Blocks of the orderer\<close>

definition sendPayloadOnce :: "txn_ext \<Rightarrow> Header \<Rightarrow> bytes \<Rightarrow> orderer list \<Rightarrow> block option outcome" where
  "sendPayloadOnce x hdr data orderers =
     (case fst (SendPayload x 0 hdr data orderers) of
        Inl (Some f) \<Rightarrow> Inl f | Inl None \<Rightarrow> Inr None | Inr blk \<Rightarrow> Inr blk)"

definition retrieveBlock :: "res_ext \<Rightarrow> nat \<Rightarrow> orderer list \<Rightarrow> string \<Rightarrow> SeekPosition \<Rightarrow> Opts \<Rightarrow> block option rm" where
  "retrieveBlock c k orderers channel pos ro =
     (let x = resNet c k 0; pb = resProtos c in
      if \<not> clientContext x then errM ''failed get client context from reqContext for signPayload''
      else bindM (Some (wrapF ''generating TX ID failed'' (NewHeader x channel None None))) (\<lambda>th.
           bindM (Some (wrapE ''failed to get tls cert hash'' (tlsCertHash c))) (\<lambda>hash.
           bindM (Some (wrapF ''CreateChannelHeader failed'' (CreateChannelHeader pb (HeaderType_DELIVER_SEEK_INFO pb) th 0 '''' hash))) (\<lambda>seekInfoHeader.
           bindM (Some (wrapE ''marshal seek info failed'' (marshalChannelHeader pb seekInfoHeader))) (\<lambda>seekInfoHeaderBytes.
           bindM (Some (wrapE ''marshal signature header failed'' (marshalSignatureHeader pb (thCreator th) (thNonce th)))) (\<lambda>signatureHeaderBytes.
           bindM (Some (wrapE ''marshal seek info failed'' (marshalSeekInfo pb pos pos))) (\<lambda>seekInfoBytes.
           resRetry c ro (\<lambda>n. sendPayloadOnce (resNet c k n)
             \<lparr>HSignatureHeader = signatureHeaderBytes, HChannelHeader = seekInfoHeaderBytes\<rparr> seekInfoBytes orderers))))))))"

definition GenesisBlockFromOrderer :: "res_ext \<Rightarrow> nat \<Rightarrow> string \<Rightarrow> orderer \<Rightarrow> Opts \<Rightarrow> block option rm" where
  "GenesisBlockFromOrderer c k channelName ord ro = retrieveBlock c k [ord] channelName (SeekSpecified 0) ro"

definition GetLastConfigFromBlock :: "res_protos \<Rightarrow> block \<Rightarrow> uint64 outcome" where
  "GetLastConfigFromBlock pb blk =
     (if Metadata blk = [] then Inl (Err (ErrNew ''block metadata is nil''))
      else if LAST_CONFIG pb \<ge> length (Metadata blk) then Inl (Panic ''index out of range'')
      else bindO (wrapE ''unmarshal block metadata failed'' (unmarshalMetadata pb (Metadata blk ! LAST_CONFIG pb))) (\<lambda>value.
           wrapE ''unmarshal last config from metadata failed'' (unmarshalLastConfig pb value)))"

definition LastConfigFromOrderer :: "res_ext \<Rightarrow> nat \<Rightarrow> string \<Rightarrow> orderer \<Rightarrow> Opts \<Rightarrow> block rm" where
  "LastConfigFromOrderer c k channelName ord ro =
     bindM (retrieveBlock c k [ord] channelName SeekNewest ro) (\<lambda>newest.
     case newest of None \<Rightarrow> Some (Inl (Panic ''nil pointer dereference''))
     | Some blk \<Rightarrow>
        bindM (Some (wrapF ''GetLastConfigFromBlock failed'' (GetLastConfigFromBlock (resProtos c) blk))) (\<lambda>index.
        bindM (msgM ''retrieve block failed'' (retrieveBlock c (Suc k) [ord] channelName (SeekSpecified index) ro)) (\<lambda>config.
        case config of None \<Rightarrow> Some (Inl (Panic ''nil pointer dereference''))
        | Some cfg \<Rightarrow>
            if length (DataData cfg) \<noteq> 1 then errM ''apiconfig block must contain one transaction''
            else Some (Inr cfg))))"

section \<open>Queries of a system chaincode\<close>

definition SystemChannel :: string where "SystemChannel = ''''"

definition sendProposalOnce :: "txn_ext \<Rightarrow> TransactionProposal \<Rightarrow> processor list \<Rightarrow> TransactionProposalResponse list outcome" where
  "sendProposalOnce x tp targets =
     (case SendProposal x 0 (Some tp) targets of
        Inl f \<Rightarrow> Inl f | Inr (responses, Some e) \<Rightarrow> Inl (Err e) | Inr (responses, None) \<Rightarrow> Inr responses)"

definition validateResponse :: "TransactionProposalResponse \<Rightarrow> unit outcome" where
  "validateResponse response =
     (if TPRStatus response \<noteq> 200
      then Inl (Err (ErrNew (''bad status from '' @ Endorser response @ '' ('' @ itoa (sint (TPRStatus response)) @ '')'')))
      else Inr ())"

definition firstPayload :: "TransactionProposalResponse list \<Rightarrow> bytes outcome" where
  "firstPayload tpr =
     (case tpr of [] \<Rightarrow> Inl (Panic ''index out of range'')
      | r # _ \<Rightarrow>
          bindO (withMsgO ''transaction proposal failed'' (validateResponse r)) (\<lambda>_.
          case PRResponse (TPRResponse r) of
            None \<Rightarrow> Inl (Panic ''nil pointer dereference'')
          | Some resp \<Rightarrow> Inr (RespPayload resp)))"

definition queryChaincodeWithTarget ::
  "res_ext \<Rightarrow> nat \<Rightarrow> ChaincodeInvokeRequest \<Rightarrow> processor \<Rightarrow> Opts \<Rightarrow> bytes rm" where
  "queryChaincodeWithTarget c k request target ro =
     (let x = resNet c k 0 in
      if \<not> clientContext x then errM ''failed get client context from reqContext for txn header''
      else bindM (Some (withMsgO ''create transaction ID failed'' (NewHeader x SystemChannel None None))) (\<lambda>txh.
           bindM (Some (withMsgO ''NewProposal failed'' (CreateChaincodeInvokeProposal x txh request))) (\<lambda>tp.
           bindM (msgM ''SendProposal failed'' (resRetry c ro (\<lambda>n. sendProposalOnce (resNet c k n) tp [target]))) (\<lambda>tpr.
           Some (firstPayload tpr)))))"

definition csccRequest :: "string \<Rightarrow> string \<Rightarrow> bytes list \<Rightarrow> ChaincodeInvokeRequest" where
  "csccRequest cc fcn args = \<lparr>ReqChaincodeID = cc, ReqFcn = fcn, ReqArgs = args, ReqIsInit = False, ReqLang = 0, ReqTransientMap = []\<rparr>"

definition createJoinChannelInvokeRequest :: "res_protos \<Rightarrow> block \<Rightarrow> ChaincodeInvokeRequest outcome" where
  "createJoinChannelInvokeRequest pb genesisBlock =
     bindO (wrapE ''marshal genesis block failed'' (marshalBlock pb genesisBlock)) (\<lambda>bs.
     Inr (csccRequest ''cscc'' ''JoinChain'' [bs]))"

definition createChannelsInvokeRequest :: ChaincodeInvokeRequest where
  "createChannelsInvokeRequest = csccRequest ''cscc'' ''GetChannels'' []"

definition createInstalledChaincodesInvokeRequest :: ChaincodeInvokeRequest where
  "createInstalledChaincodesInvokeRequest = csccRequest ''lscc'' ''getinstalledchaincodes'' []"

definition QueryChannels :: "res_ext \<Rightarrow> nat \<Rightarrow> processor \<Rightarrow> Opts \<Rightarrow> string list rm" where
  "QueryChannels c k peer ro =
     (if peer = NilProcessor then errM ''peer required''
      else bindM (msgM ''cscc.GetChannels failed'' (queryChaincodeWithTarget c k createChannelsInvokeRequest peer ro)) (\<lambda>payload.
           Some (wrapE ''unmarshal ChannelQueryResponse failed'' (unmarshalChannelQueryResponse (resProtos c) payload))))"

definition QueryInstalledChaincodes :: "res_ext \<Rightarrow> nat \<Rightarrow> processor \<Rightarrow> Opts \<Rightarrow> ChaincodeInfo list rm" where
  "QueryInstalledChaincodes c k peer ro =
     (if peer = NilProcessor then errM ''peer required''
      else bindM (msgM ''lscc.getinstalledchaincodes failed''
                    (queryChaincodeWithTarget c k createInstalledChaincodesInvokeRequest peer ro)) (\<lambda>payload.
           Some (wrapE ''unmarshal ChaincodeQueryResponse failed'' (unmarshalChaincodeQueryResponse (resProtos c) payload))))"

section \<open>Joining a channel\<close>

text \<open>The Go routine for target \<open>i\<close> makes call \<open>k + i\<close>. A panic in one of them ends the program.\<close>

definition joinResults :: "res_ext \<Rightarrow> nat \<Rightarrow> ChaincodeInvokeRequest \<Rightarrow> processor list \<Rightarrow> Opts \<Rightarrow> bytes rm list" where
  "joinResults c k cir targets ro = map (\<lambda>i. queryChaincodeWithTarget c (k + i) cir (targets ! i) ro) [0..<length targets]"

definition collectErrors :: "rand_src \<Rightarrow> 'a rm list \<Rightarrow> unit rm" where
  "collectErrors ord results =
     (case [p. Some (Inl (Panic p)) \<leftarrow> results] of
        p # _ \<Rightarrow> Some (Inl (Panic p))
      | [] \<Rightarrow>
          if None \<in> set results then None
          else (case multi_ToError [e. Some (Inl (Err e)) \<leftarrow> map (\<lambda>i. results ! i) (shuffle ord 0 (length results))] of
                  Some e \<Rightarrow> Some (Inl (Err e)) | None \<Rightarrow> Some (Inr ())))"

definition JoinChannel :: "res_ext \<Rightarrow> nat \<Rightarrow> block option \<Rightarrow> processor list \<Rightarrow> Opts \<Rightarrow> unit rm" where
  "JoinChannel c k genesisBlock targets ro =
     (case genesisBlock of
        None \<Rightarrow> errM ''missing block input parameter with the required genesis block''
      | Some blk \<Rightarrow>
          bindM (Some (withMsgO ''creation of join channel invoke request failed''
                         (createJoinChannelInvokeRequest (resProtos c) blk))) (\<lambda>cir.
          collectErrors (joinOrder c) (joinResults c k cir targets ro)))"

section \<open>Installing chaincode\<close>

definition createInstallInvokeRequest :: "res_protos \<Rightarrow> string \<Rightarrow> string \<Rightarrow> string \<Rightarrow> CCPackage \<Rightarrow> ChaincodeInvokeRequest outcome" where
  "createInstallInvokeRequest pb name path version pkg =
     bindO (withMsgE ''marshal of chaincode deployment spec failed''
              (marshalDeploymentSpec pb (pkgType pkg) name path version (pkgCode pkg))) (\<lambda>ccdsBytes.
     Inr (csccRequest ''lscc'' ''install'' [ccdsBytes]))"

definition CreateChaincodeInstallProposal ::
  "res_ext \<Rightarrow> txn_ext \<Rightarrow> TransactionHeader \<Rightarrow> string \<Rightarrow> string \<Rightarrow> string \<Rightarrow> CCPackage \<Rightarrow> TransactionProposal outcome" where
  "CreateChaincodeInstallProposal c x txh name path version pkg =
     bindO (withMsgO ''creating lscc install invocation request failed''
              (createInstallInvokeRequest (resProtos c) name path version pkg)) (\<lambda>cir.
     CreateChaincodeInvokeProposal x txh cir)"

definition InstallChaincode ::
  "res_ext \<Rightarrow> nat \<Rightarrow> ChaincodeInstallRequest \<Rightarrow> processor list \<Rightarrow> Opts \<Rightarrow> (TransactionProposalResponse list \<times> string) rm" where
  "InstallChaincode c k req targets ro =
     (if instName req = '''' then errM ''chaincode name required''
      else if instPath req = '''' then errM ''chaincode path required''
      else if instVersion req = '''' then errM ''chaincode version required''
      else (case instPackage req of None \<Rightarrow> errM ''chaincode package is required''
      | Some pkg \<Rightarrow>
         let x = resNet c k 0 in
         if \<not> clientContext x then errM ''failed get client context from reqContext for txn header''
         else bindM (Some (withMsgO ''create transaction ID failed'' (NewHeader x SystemChannel None None))) (\<lambda>txh.
              bindM (Some (withMsgO ''creation of install chaincode proposal failed''
                       (CreateChaincodeInstallProposal c x txh (instName req) (instPath req) (instVersion req) pkg))) (\<lambda>prop.
              bindM (resRetry c ro (\<lambda>n. sendProposalOnce (resNet c k n) prop targets)) (\<lambda>resp.
              Some (Inr (resp, TxnID prop)))))))"

section \<open>Creating and updating channels\<close>

text \<open>\<open>CreateChannel\<close> returns a transaction id beside its error.\<close>

record CreateChannelRequest =
  ccrName :: string
  ccrOrderer :: "orderer option"
  ccrEnvelope :: "bytes option"
  ccrConfig :: "bytes option"
  ccrSignatures :: "ConfigSignature list option"

definition extractSignedEnvelope :: "res_protos \<Rightarrow> bytes \<Rightarrow> SignedEnvelope outcome" where
  "extractSignedEnvelope pb reqEnvelope = wrapE ''unmarshal request envelope failed'' (unmarshalSignedEnvelope pb reqEnvelope)"

definition createChannelFromEnvelope :: "res_ext \<Rightarrow> nat \<Rightarrow> orderer \<Rightarrow> bytes \<Rightarrow> unit outcome" where
  "createChannelFromEnvelope c k ord envelope =
     bindO (withMsgO ''signed envelope not valid'' (extractSignedEnvelope (resProtos c) envelope)) (\<lambda>env.
     case ordererBroadcast (resNet c k 0) ord env of
       Some e \<Rightarrow> Inl (Err (ErrWithMessage ''failed broadcast to orderer'' e)) | None \<Rightarrow> Inr ())"

definition createOrUpdateChannel ::
  "res_ext \<Rightarrow> txn_ext \<Rightarrow> TransactionHeader \<Rightarrow> orderer \<Rightarrow> bytes \<Rightarrow> ConfigSignature list \<Rightarrow> unit outcome" where
  "createOrUpdateChannel c x txh ord config signatures =
     (let pb = resProtos c in
      bindO (wrapE ''marshal configUpdateEnvelope failed'' (marshalConfigUpdateEnvelope pb config signatures)) (\<lambda>envelopeBytes.
      if \<not> clientContext x then Inl (Err (ErrNew ''failed get client context from reqContext for Creating ChannelHeader''))
      else bindO (withMsgE ''failed to get tls cert hash'' (tlsCertHash c)) (\<lambda>hash.
           bindO (withMsgO ''CreateChannelHeader failed'' (CreateChannelHeader pb (HeaderType_CONFIG_UPDATE pb) txh 0 '''' hash)) (\<lambda>channelHeader.
           bindO (withMsgO ''CreatePayload failed'' (CreatePayload pb txh channelHeader envelopeBytes)) (\<lambda>(header, data).
           case fst (BroadcastPayload x 0 header data [ord]) of
             Inl (Some f) \<Rightarrow> withMsgO ''SendEnvelope failed'' (Inl f)
           | _ \<Rightarrow> Inr ())))))"

definition CreateChannel :: "res_ext \<Rightarrow> nat \<Rightarrow> CreateChannelRequest \<Rightarrow> Opts \<Rightarrow> string \<times> unit rm" where
  "CreateChannel c k request ro =
     (case ccrOrderer request of None \<Rightarrow> ('''', errM ''missing orderer request parameter for the initialize channel'')
      | Some ord \<Rightarrow>
        if ccrName request = '''' then ('''', errM ''missing name request parameter for the new channel'')
        else (case ccrEnvelope request of Some envelope \<Rightarrow> ('''', Some (createChannelFromEnvelope c k ord envelope))
        | None \<Rightarrow>
          (case ccrConfig request of
             None \<Rightarrow> ('''', errM ''missing envelope request parameter containing the configuration of the new channel'')
           | Some config \<Rightarrow>
             (case ccrSignatures request of
                None \<Rightarrow> ('''', errM ''missing signatures request parameter for the new channel'')
              | Some signatures \<Rightarrow>
                let x = resNet c k 0 in
                if \<not> clientContext x
                then ('''', errM ''creation of transaction header failed, failed to extract client context from reqContext'')
                else (case NewHeader x (ccrName request) None None of
                        Inl f \<Rightarrow> ('''', Some (withMsgO ''creation of transaction header failed'' (Inl f)))
                      | Inr txh \<Rightarrow>
                          (thID txh, resRetry c ro (\<lambda>n. createOrUpdateChannel c (resNet c k n) txh ord config signatures)))))))"

section \<open>Configuration signatures\<close>

text \<open>A signing identity: how it serializes, and what the signing manager makes with its private key.\<close>

record signing_identity =
  sgSerialize :: "error + bytes"
  sgSign :: "bytes \<Rightarrow> error + bytes"

record ConfigSignatureData =
  csdCreator :: bytes
  csdNonce :: bytes
  csdHeaderBytes :: bytes
  csdSigningBytes :: bytes

definition GetConfigSignatureData :: "res_protos \<Rightarrow> error + bytes \<Rightarrow> signing_identity \<Rightarrow> bytes \<Rightarrow> ConfigSignatureData outcome" where
  "GetConfigSignatureData pb nonceSource creator config =
     bindO (withMsgE ''failed to get user context's identity'' (sgSerialize creator)) (\<lambda>creatorBytes.
     bindO (withMsgE ''nonce creation failed'' nonceSource) (\<lambda>nonce.
     bindO (wrapE ''marshal signatureHeader failed'' (marshalSignatureHeader pb creatorBytes nonce)) (\<lambda>headerBytes.
     Inr \<lparr>csdCreator = creatorBytes, csdNonce = nonce, csdHeaderBytes = headerBytes, csdSigningBytes = headerBytes @ config\<rparr>)))"

definition CreateConfigSignature :: "res_protos \<Rightarrow> error + bytes \<Rightarrow> signing_identity \<Rightarrow> bytes \<Rightarrow> ConfigSignature outcome" where
  "CreateConfigSignature pb nonceSource ctx config =
     bindO (GetConfigSignatureData pb nonceSource ctx config) (\<lambda>cfd.
     bindO (withMsgE ''signing of channel config failed'' (sgSign ctx (csdSigningBytes cfd))) (\<lambda>sig.
     Inr \<lparr>csHeader = csdHeaderBytes cfd, csSignature = sig\<rparr>))"

definition SignChannelConfig ::
  "res_protos \<Rightarrow> error + bytes \<Rightarrow> signing_identity option \<Rightarrow> bytes option \<Rightarrow> signing_identity option \<Rightarrow> ConfigSignature outcome" where
  "SignChannelConfig pb nonceSource ctx config signer =
     (case config of None \<Rightarrow> Inl (Err (ErrNew ''channel configuration required''))
      | Some cfg \<Rightarrow>
         (case (case signer of Some s \<Rightarrow> Some s | None \<Rightarrow> ctx) of
            None \<Rightarrow> Inl (Err (ErrNew ''user context required''))
          | Some signingUser \<Rightarrow> CreateConfigSignature pb nonceSource signingUser cfg))"

section \<open>Configuration envelopes\<close>

definition liftErr :: "error + 'a \<Rightarrow> 'a outcome" where
  "liftErr r = map_sum Err id r"

definition ExtractChannelConfig :: "res_protos \<Rightarrow> bytes \<Rightarrow> bytes outcome" where
  "ExtractChannelConfig pb configEnvelope =
     bindO (wrapE ''unmarshal config envelope failed'' (unmarshalEnvelope (fabricProtos pb) configEnvelope)) (\<lambda>envelopePayload.
     bindO (wrapE ''unmarshal envelope payload failed'' (unmarshalPayload (fabricProtos pb) envelopePayload)) (\<lambda>payload.
     wrapE ''unmarshal config update envelope'' (unmarshalConfigUpdateEnvelope pb (PayloadData payload))))"

definition configMessage :: "(bytes \<Rightarrow> error + 'm) \<Rightarrow> res_protos \<Rightarrow> bytes \<Rightarrow> 'm outcome" where
  "configMessage unmarshal pb data =
     bindO (wrapE ''unmarshal envelope from config block failed'' (unmarshalEnvelope (fabricProtos pb) data)) (\<lambda>envelopePayload.
     bindO (wrapE ''unmarshal payload from envelope failed'' (unmarshalPayload (fabricProtos pb) envelopePayload)) (\<lambda>payload.
     case PayloadHeader payload of None \<Rightarrow> Inl (Panic ''nil pointer dereference'')
     | Some hdr \<Rightarrow>
        bindO (wrapE ''unmarshal payload from envelope failed'' (unmarshalChannelHeader (fabricProtos pb) hdr)) (\<lambda>channelHeader.
        if HdrType channelHeader \<noteq> HeaderType_CONFIG pb then Inl (Err (ErrNew (''block must be of type '' @ [CHR 0x27] @ ''CONFIG'' @ [CHR 0x27])))
        else wrapE ''unmarshal config envelope failed'' (unmarshal (PayloadData payload)))))"

definition CreateConfigEnvelope :: "res_protos \<Rightarrow> bytes \<Rightarrow> bytes outcome" where
  "CreateConfigEnvelope pb data = configMessage (unmarshalConfigEnvelope pb) pb data"

definition CreateConfigUpdateEnvelope :: "res_protos \<Rightarrow> bytes \<Rightarrow> bytes outcome" where
  "CreateConfigUpdateEnvelope pb data = configMessage (unmarshalConfigUpdateEnvelope pb) pb data"

definition ExtractConfigFromBlock :: "res_protos \<Rightarrow> block option \<Rightarrow> bytes outcome" where
  "ExtractConfigFromBlock pb blk =
     (case Option.bind blk (\<lambda>b. case DataData b of [] \<Rightarrow> None | d # _ \<Rightarrow> Some d) of
        None \<Rightarrow> Inl (Err (ErrNew ''invalid block''))
      | Some blockPayload \<Rightarrow>
          bindO (liftErr (unmarshalEnvelope (fabricProtos pb) blockPayload)) (\<lambda>envelopePayload.
          bindO (liftErr (unmarshalPayload (fabricProtos pb) envelopePayload)) (\<lambda>payload.
          liftErr (unmarshalConfigEnvelope pb (PayloadData payload)))))"

section \<open>What a query tells\<close>

lemma shuffle_one: "shuffle src k (Suc 0) = [0]"
  using mset_shuffle [of src k 1] by simp

lemma sendProposalOnce_one:
  assumes "sendProposalOnce x tp [t] = Inr rs"
  shows "\<exists>r pbytes sg. rs = [r] \<and> signProposal x (TPProposal tp) = Inr (pbytes, sg) \<and> processProposal x t pbytes sg = Inr r"
proof -
  have ts: "getTargetsWithoutDuplicates [t] = [t]"
    by (cases t) (simp_all add: getTargetsWithoutDuplicates_def)
  obtain rs' where run: "SendProposal x 0 (Some tp) [t] = Inr (rs', None)" "rs = rs'"
    using assms by (auto simp: sendProposalOnce_def split: sum.splits option.splits prod.splits)
  then obtain pbytes sg where sign: "signProposal x (TPProposal tp) = Inr (pbytes, sg)"
    by (auto simp: SendProposal_def ts shuffle_one bindO_eq_Inr Let_def split: if_splits sum.splits failure.splits)
  with run show ?thesis
    by (cases "processProposal x t pbytes sg")
      (auto simp: SendProposal_def ts shuffle_one Let_def simp del: shuffle.simps split: if_splits)
qed

lemma firstPayload_Inr:
  "firstPayload tpr = Inr payload \<longleftrightarrow>
     (\<exists>r rest resp. tpr = r # rest \<and> TPRStatus r = 200 \<and> PRResponse (TPRResponse r) = Some resp \<and> payload = RespPayload resp)"
  by (auto simp: firstPayload_def validateResponse_def bindO_eq_Inr split: list.split option.split)

lemma query_Inr:
  assumes "queryChaincodeWithTarget c k request t ro = Some (Inr payload)"
  shows "\<exists>n r resp pbytes sg. processProposal (resNet c k n) t pbytes sg = Inr r \<and> TPRStatus r = 200 \<and>
    PRResponse (TPRResponse r) = Some resp \<and> payload = RespPayload resp"
proof -
  obtain tp tpr where send: "resRetry c ro (\<lambda>n. sendProposalOnce (resNet c k n) tp [t]) = Some (Inr tpr)"
    and r: "firstPayload tpr = Inr payload"
    using assms by (auto simp: queryChaincodeWithTarget_def Let_def bindM_Inr msgM_Inr errM_def split: if_splits)
  from resRetry_last [OF send] obtain n where "sendProposalOnce (resNet c k n) tp [t] = Inr tpr" by blast
  from sendProposalOnce_one [OF this] r show ?thesis by (auto simp: firstPayload_Inr)
qed

lemma query_returns: "0 \<le> Attempts ro \<Longrightarrow> queryChaincodeWithTarget c k request t ro \<noteq> None"
  unfolding queryChaincodeWithTarget_def Let_def by (intro ends resRetry_returns)

section \<open>Freedom from panics\<close>

definition noPanic :: "'a outcome \<Rightarrow> bool" where
  "noPanic r \<longleftrightarrow> (\<forall>p. r \<noteq> Inl (Panic p))"

definition noPanicM :: "'a rm \<Rightarrow> bool" where
  "noPanicM r \<longleftrightarrow> (\<forall>o1. r = Some o1 \<longrightarrow> noPanic o1)"

named_theorems no_panic

lemma noPanic_simps [simp]: "noPanic (Inr a)" "noPanic (Inl (Err e))" "\<not> noPanic (Inl (Panic p))"
  by (simp_all add: noPanic_def)

lemma noPanic_combine [no_panic]:
  "noPanic r \<Longrightarrow> (\<And>a. r = Inr a \<Longrightarrow> noPanic (f a)) \<Longrightarrow> noPanic (bindO r f)"
  "noPanic (wrapE msg q)" "noPanic (withMsgE msg q)" "noPanic r \<Longrightarrow> noPanic (withMsgO msg r)" "noPanic r \<Longrightarrow> noPanic (wrapF msg r)"
  by (auto simp: noPanic_def bindO_eq_Inl wrapE_def withMsgE_def withMsgO_def wrapF_def split: sum.splits failure.splits)

lemma noPanicM_combine [no_panic]:
  "noPanicM r \<Longrightarrow> (\<And>a. r = Some (Inr a) \<Longrightarrow> noPanicM (f a)) \<Longrightarrow> noPanicM (bindM r f)"
  "noPanicM r \<Longrightarrow> noPanicM (msgM msg r)" "noPanicM (errM msg)" "noPanic q \<Longrightarrow> noPanicM (Some q)"
  by (auto simp: noPanicM_def bindM_def msgM_def errM_def no_panic noPanic_def [of "Inl _"] split: option.splits sum.splits)

lemma noPanicM_retry [no_panic]: "(\<And>n. noPanic (f n)) \<Longrightarrow> noPanicM (resRetry c ro f)"
  unfolding noPanicM_def using resRetry_last by metis

lemma noPanic_NewHeader [no_panic]: "noPanic (NewHeader x ch n cr)"
  unfolding NewHeader_def by (intro no_panic noPanic_simps(1)) (auto simp: no_panic split: option.split)

lemma noPanic_proposal [no_panic]: "noPanic (CreateChaincodeInvokeProposal x txh request)"
  by (simp add: CreateChaincodeInvokeProposal_def Let_def no_panic)

lemma noPanic_sign [no_panic]: "noPanic (signProposal x p)"
  unfolding signProposal_def by (intro no_panic) (auto split: option.split intro!: no_panic)

lemma noPanic_sendProposal [no_panic]: "noPanic (sendProposalOnce x tp targets)"
proof -
  have "noPanic (SendProposal x 0 (Some tp) targets)"
    using noPanic_sign [of x "TPProposal tp"]
    by (auto simp: SendProposal_def Let_def noPanic_def bindO_eq_Inl split: sum.splits failure.splits)
  then show ?thesis by (auto simp: sendProposalOnce_def noPanic_def split: sum.splits option.splits)
qed

text \<open>A response of a peer carries the status that it was given: \<open>newPeerEndorser\<close> reads the status from it.\<close>

definition peersRespond :: "res_ext \<Rightarrow> bool" where
  "peersRespond c \<longleftrightarrow> (\<forall>k n t b s r. processProposal (resNet c k n) t b s = Inr r \<longrightarrow> PRResponse (TPRResponse r) \<noteq> None)"

lemma noPanic_query:
  assumes "peersRespond c"
  shows "noPanicM (queryChaincodeWithTarget c k request t ro)"
proof -
  have "noPanic (firstPayload tpr)" if "resRetry c ro (\<lambda>n. sendProposalOnce (resNet c k n) tp [t]) = Some (Inr tpr)" for tp tpr
  proof -
    from resRetry_last [OF that] obtain n where "sendProposalOnce (resNet c k n) tp [t] = Inr tpr" by blast
    from sendProposalOnce_one [OF this] assms show ?thesis
      by (fastforce simp: firstPayload_def peersRespond_def validateResponse_def intro!: no_panic split: option.split)
  qed
  then show ?thesis
    by (auto simp: queryChaincodeWithTarget_def Let_def msgM_Inr intro!: no_panic)
qed

section \<open>Properties\<close>

lemma mset_errors: "mset xs = mset ys \<Longrightarrow> mset [e. Some (Inl (Err e)) \<leftarrow> xs] = mset [e. Some (Inl (Err e)) \<leftarrow> (ys :: 'a rm list)]"
proof -
  have "mset [e. Some (Inl (Err e)) \<leftarrow> zs] =
      (\<Sum>z \<in># mset zs. case z of Some (Inl (Err e)) \<Rightarrow> {#e#} | _ \<Rightarrow> {#})" for zs :: "'a rm list"
    by (induction zs) (auto split: option.split sum.split failure.split)
  then show "mset xs = mset ys \<Longrightarrow> ?thesis" by simp
qed

lemma no_errors_iff:
  assumes "list_all (\<lambda>r. r \<noteq> None \<and> noPanicM r) rs"
  shows "[e. Some (Inl (Err e)) \<leftarrow> rs] = [] \<longleftrightarrow> list_all (\<lambda>r. \<exists>a. r = Some (Inr a)) rs" "[p. Some (Inl (Panic p)) \<leftarrow> rs] = []" "None \<notin> set rs"
  using assms by (induction rs) (auto simp: noPanicM_def noPanic_def split: option.split sum.split failure.split)

lemma collectErrors_spec:
  assumes "list_all (\<lambda>r. r \<noteq> None \<and> noPanicM r) results"
  shows "\<exists>res errs. collectErrors ord results = Some res \<and> mset errs = mset [e. Some (Inl (Err e)) \<leftarrow> results] \<and>
    (case res of Inr _ \<Rightarrow> errs = [] | Inl f \<Rightarrow> \<exists>e. multi_ToError errs = Some e \<and> f = Err e)"
proof -
  define errs where "errs = [e. Some (Inl (Err e)) \<leftarrow> map (\<lambda>i. results ! i) (shuffle ord 0 (length results))]"
  have "mset errs = mset [e. Some (Inl (Err e)) \<leftarrow> results]"
    unfolding errs_def by (rule mset_errors) (use mset_map_shuffle [of id results ord 0] in simp)
  moreover have "collectErrors ord results = (case multi_ToError errs of Some e \<Rightarrow> Some (Inl (Err e)) | None \<Rightarrow> Some (Inr ()))"
    unfolding collectErrors_def errs_def no_errors_iff(2) [OF assms] using no_errors_iff(3) [OF assms] by (simp only: list.case if_False)
  ultimately show ?thesis
    by (intro exI [of _ "case multi_ToError errs of Some e \<Rightarrow> Inl (Err e) | None \<Rightarrow> Inr ()"] exI [of _ errs] conjI)
      (simp_all add: multi_ToError_def split: option.split list.split)
qed

text \<open>
  C24. Joining a channel reports every failure and only failures. With a non-negative number of attempts the call
  returns; it succeeds exactly when the query of every target succeeded, in which case every target has answered
  a join proposal with status 200; otherwise the error combines exactly the errors of the targets that failed,
  one for each of them, in the order in which they finished.
\<close>

theorem JoinChannel_joins_all:
  assumes "marshalBlock (resProtos c) blk = Inr bs" and "0 \<le> Attempts ro" and "peersRespond c"
  shows "\<exists>res errs. JoinChannel c k (Some blk) targets ro = Some res \<and>
    mset errs = mset [e. Some (Inl (Err e)) \<leftarrow> joinResults c k (csccRequest ''cscc'' ''JoinChain'' [bs]) targets ro] \<and>
    (case res of Inr _ \<Rightarrow> errs = [] | Inl f \<Rightarrow> \<exists>e. multi_ToError errs = Some e \<and> f = Err e) \<and>
    (res = Inr () \<longleftrightarrow> (\<forall>i < length targets. \<exists>payload.
       queryChaincodeWithTarget c (k + i) (csccRequest ''cscc'' ''JoinChain'' [bs]) (targets ! i) ro = Some (Inr payload))) \<and>
    (res = Inr () \<longrightarrow> (\<forall>i < length targets. \<exists>n b s r. processProposal (resNet c (k + i) n) (targets ! i) b s = Inr r \<and> TPRStatus r = 200))"
proof -
  let ?cir = "csccRequest ''cscc'' ''JoinChain'' [bs]"
  let ?rs = "joinResults c k ?cir targets ro"
  have join: "JoinChannel c k (Some blk) targets ro = collectErrors (joinOrder c) ?rs"
    using assms(1) by (simp add: JoinChannel_def createJoinChannelInvokeRequest_def wrapE_def withMsgO_def)
  have fine: "list_all (\<lambda>r. r \<noteq> None \<and> noPanicM r) ?rs"
    using query_returns [OF assms(2)] noPanic_query [OF assms(3)] unfolding joinResults_def by (simp add: list_all_iff)
  have each: "list_all (\<lambda>r. \<exists>a. r = Some (Inr a)) ?rs \<longleftrightarrow>
      (\<forall>i < length targets. \<exists>p. queryChaincodeWithTarget c (k + i) ?cir (targets ! i) ro = Some (Inr p))"
    by (auto simp: joinResults_def list_all_iff)
  from collectErrors_spec [OF fine, of "joinOrder c"] obtain res errs where
    r: "collectErrors (joinOrder c) ?rs = Some res" "mset errs = mset [e. Some (Inl (Err e)) \<leftarrow> ?rs]"
      "case res of Inr _ \<Rightarrow> errs = [] | Inl f \<Rightarrow> \<exists>e. multi_ToError errs = Some e \<and> f = Err e" by blast
  have "errs = [] \<longleftrightarrow> [e. Some (Inl (Err e)) \<leftarrow> ?rs] = []" using r(2) by (metis mset_zero_iff)
  moreover have "res = Inr () \<longleftrightarrow> errs = []" using r(3) by (cases res) (auto simp: multi_ToError_def)
  ultimately have all: "res = Inr () \<longleftrightarrow> (\<forall>i < length targets. \<exists>p. queryChaincodeWithTarget c (k + i) ?cir (targets ! i) ro = Some (Inr p))"
    using no_errors_iff(1) [OF fine] each by blast
  then have "res = Inr () \<longrightarrow> (\<forall>i < length targets. \<exists>n b s r. processProposal (resNet c (k + i) n) (targets ! i) b s = Inr r \<and> TPRStatus r = 200)"
    using query_Inr by meson
  with r all join show ?thesis by (intro exI [of _ res] exI [of _ errs]) (simp only:)
qed

text \<open>A concrete instance: the network of \<open>test_net\<close> and messages whose encoding is trivial.\<close>

definition test_protos :: res_protos where
  "test_protos = \<lparr>timestampNow = Inr [3], marshalHeaderExtension = (\<lambda>_. Inr []), marshalChannelHeader = (\<lambda>h. Inr (chmTimestamp h)),
     marshalSignatureHeader = (\<lambda>c n. Inr (c @ n)), marshalSeekInfo = (\<lambda>p q. Inr [4]),
     marshalConfigUpdateEnvelope = (\<lambda>c s. Inr c), marshalBlock = (\<lambda>b. Inr [6]), marshalDeploymentSpec = (\<lambda>t n p v code. Inr code),
     unmarshalSignedEnvelope = (\<lambda>b. Inr \<lparr>EnvPayload = b, EnvSignature = []\<rparr>), unmarshalConfigUpdateEnvelope = Inr,
     unmarshalConfigEnvelope = Inr, unmarshalMetadata = Inr, unmarshalLastConfig = (\<lambda>_. Inr 2),
     unmarshalChannelQueryResponse = (\<lambda>_. Inr [''ch'']),
     unmarshalChaincodeQueryResponse = (\<lambda>_. Inr [\<lparr>ciName = ''cc'', ciVersion = ''1'', ciPath = ''p''\<rparr>]),
     fabricProtos = config_pb, LAST_CONFIG = 1, HeaderType_CONFIG = 1, HeaderType_CONFIG_UPDATE = 2, HeaderType_DELIVER_SEEK_INFO = 5\<rparr>"

definition test_res :: res_ext where
  "test_res = \<lparr>resNet = (\<lambda>k n. test_net), resErr = pkg_errors, resCodes = fabric_codes, resRound = id, resProtos = test_protos,
     tlsCertHash = Inr [], joinOrder = (\<lambda>n m. 0)\<rparr>"

definition test_blk :: block where
  "test_blk = \<lparr>HeaderNumber = 0, DataData = [[1]], Metadata = []\<rparr>"

lemma test_SendProposal: "SendProposal test_net 0 (Some tp) [PeerProcessor (test_peer u)] = Inr ([test_response u], None)"
  by (simp add: SendProposal_def getTargetsWithoutDuplicates_def test_defs signProposal_def wrapE_def withMsgE_def
      Let_def shuffle_one multi_ToError_def del: shuffle.simps)

lemma test_send: "sendProposalOnce test_net tp [PeerProcessor (test_peer u)] = Inr [test_response u]"
  by (simp add: sendProposalOnce_def test_SendProposal)

lemma test_header: "\<exists>h. NewHeader test_net ch None None = Inr h"
  by (simp add: NewHeader_def test_defs withMsgE_def computeTxnID_def)

lemma test_proposal: "ReqChaincodeID r \<noteq> '''' \<Longrightarrow> ReqFcn r \<noteq> '''' \<Longrightarrow> \<exists>tp. CreateChaincodeInvokeProposal test_net h r = Inr tp"
  by (simp add: CreateChaincodeInvokeProposal_def test_defs wrapE_def Let_def)

lemma test_net_parts [simp]: "resNet test_res k n = test_net" "clientContext test_net"
  by (simp_all add: test_res_def test_net_def)

lemma test_respond: "peersRespond test_res"
  by (auto simp: peersRespond_def test_res_def test_defs split: processor.splits)

theorem JoinChannel_joins_all_witness:
  "\<exists>res. JoinChannel test_res 0 (Some test_blk) [PeerProcessor (test_peer ''a''), PeerProcessor (test_peer ''b'')] no_retry = Some res \<and>
     (res = Inr () \<longrightarrow> (\<forall>i < 2. \<exists>n b s r. processProposal (resNet test_res (0 + i) n)
        ([PeerProcessor (test_peer ''a''), PeerProcessor (test_peer ''b'')] ! i) b s = Inr r \<and> TPRStatus r = 200))"
  using JoinChannel_joins_all [OF _ _ test_respond, of test_blk "[6]" no_retry 0 "[PeerProcessor (test_peer ''a''), PeerProcessor (test_peer ''b'')]"]
  by (auto simp: test_res_def test_protos_def no_retry_def)

text \<open>An orderer that ends the delivery before it sent a block makes \<open>LastConfigFromOrderer\<close> panic: the nil block
  is dereferenced for a log message.\<close>

lemma silent_delivery:
  assumes "ordererDeliver x ord env = ([], [])"
  shows "sendEnvelope x env ord = Inr None"
  using assms by (simp add: sendEnvelope_def multi_ToError_def)

definition silent_res :: res_ext where
  "silent_res = test_res\<lparr>resNet := (\<lambda>k n. test_net\<lparr>ordererDeliver := (\<lambda>o1 e. ([], []))\<rparr>)\<rparr>"

lemma lastConfig_panics: "LastConfigFromOrderer silent_res k ''ch'' ''o2'' ro = Some (Inl (Panic ''nil pointer dereference''))"
proof -
  have "sendPayloadOnce (resNet silent_res k n) h d [''o2''] = Inr None" for n h d
    by (simp add: sendPayloadOnce_def SendPayload_def silent_res_def test_res_def test_defs signPayload_def withMsgE_def randOrderers_def
        rand_Perm_def shuffle_one silent_delivery del: shuffle.simps)
  then have "retrieveBlock silent_res k [''o2''] ''ch'' SeekNewest ro = Some (Inr None)"
    by (simp add: retrieveBlock_def silent_res_def test_res_def test_protos_def test_defs NewHeader_def withMsgE_def wrapF_def wrapE_def
        computeTxnID_def CreateChannelHeader_def resRetry_success)
  then show ?thesis by (simp add: LastConfigFromOrderer_def)
qed

end
