(* ===== verification/ResMgmt.thy ===== *)
theory ResMgmt
  imports Resource ChannelClient ConfigUpdate
begin

text \<open>
  The resource management client: \<^verbatim>\<open>pkg/client/resmgmt\<close> (\<open>resmgmt.go\<close>, \<open>opts.go\<close>, \<open>lscc.go\<close>): the options of a
  request, the choice of the target peers and of the orderer, joining channels, installing, instantiating and
  upgrading chaincode, saving channel configurations and their signatures.

  The contexts, the discovery services, the event service and the files are the record \<open>rm_ext\<close>. A request is a
  sequence of network calls; call \<open>k\<close> of a request runs on \<open>resNet (rmRes c) k\<close>. The local discovery service is
  asked more than once by some requests, and may answer differently: \<open>localPeers c n\<close> is its \<open>n\<close>-th answer, or the
  error of creating the local context. The request contexts and their timeouts are left out, except for the table
  of timeouts; a timeout is an error of the network.
\<close>

section \<open>Request options\<close>

record rm_options =
  oTargets :: "peer list"
  oTargetFilter :: "(peer \<Rightarrow> bool) option"
  oOrderer :: "orderer option"
  oTimeouts :: "(TimeoutType \<rightharpoonup> int) option"
  oRetry :: Opts
  oSignatures :: "ConfigSignature list option"

text \<open>What a reader returns from one call of \<open>Read\<close>: the bytes read and an error.\<close>

datatype read_error = EOF | ReadError error

type_synonym reader = "(bytes \<times> read_error option) list"

datatype rm_wait = StatusEvent string int32 | StatusClosed | ContextDone

record rm_ext =
  rmRes :: res_ext
  rmPeers :: peer_cfg
  rmMSPID :: string
  rmFilter :: "(peer \<Rightarrow> bool) option"
  localPeers :: "nat \<Rightarrow> error + (error + peer list)"
  ordererByKey :: "string \<Rightarrow> OrdererConfig option \<times> bool"
  ChannelOrderers :: "string \<Rightarrow> OrdererConfig list"
  OrderersConfig :: "OrdererConfig list"
  ordererFromConfig :: "OrdererConfig \<Rightarrow> error + orderer"
  rmRand :: rand_src
  newChannelCtx :: "string \<Rightarrow> error option"
  channelDiscovery :: "string \<Rightarrow> error + (error + peer list)"
  channelService :: "string \<Rightarrow> error option"
  channelTransactor :: "string \<Rightarrow> error + Transactor"
  channelMembership :: "string \<Rightarrow> error option"
  channelEvents :: "string \<Rightarrow> error option"
  registerTxStatus :: "string \<Rightarrow> error + nat"
  awaitStatus :: "nat \<Rightarrow> rm_wait"
  openFile :: "string \<Rightarrow> error + reader"
  unmarshalConfigSignature :: "bytes \<Rightarrow> error + ConfigSignature"
  marshalDeploySpec :: "nat \<Rightarrow> string \<Rightarrow> string \<Rightarrow> string \<Rightarrow> bytes list \<Rightarrow> error + bytes"
  marshalPolicy :: "bytes \<Rightarrow> error + bytes"
  marshalCollections :: "bytes list \<Rightarrow> error + bytes"
  specTypeNames :: "nat \<Rightarrow> string"
  spec_GOLANG :: nat
  clientIdentity :: signing_identity
  signNonce :: "nat \<Rightarrow> error + bytes"
  cfgTimeouts :: "TimeoutType \<Rightarrow> int"
  txVALID :: int32

type_synonym rm_option = "rm_options \<Rightarrow> error + rm_options"

definition rm_WithTargets :: "peer option list \<Rightarrow> rm_option" where
  "rm_WithTargets targets o1 =
     (if None \<in> set targets then Inl (ErrNew ''target is nil'') else Inr (o1\<lparr>oTargets := map the targets\<rparr>))"

definition rm_WithTargetEndpoints :: "rm_ext \<Rightarrow> string list \<Rightarrow> rm_option" where
  "rm_WithTargetEndpoints c keys o1 =
     (case mapE (peerForKey (rmPeers c)) keys of Inl e \<Rightarrow> Inl e | Inr targets \<Rightarrow> rm_WithTargets targets o1)"

definition rm_WithTargetFilter :: "(peer \<Rightarrow> bool) option \<Rightarrow> rm_option" where
  "rm_WithTargetFilter f o1 = Inr (o1\<lparr>oTargetFilter := f\<rparr>)"

definition rm_WithTimeout :: "TimeoutType \<Rightarrow> int \<Rightarrow> rm_option" where
  "rm_WithTimeout tt timeout o1 =
     Inr (o1\<lparr>oTimeouts := Some ((case oTimeouts o1 of None \<Rightarrow> Map.empty | Some m \<Rightarrow> m)(tt \<mapsto> timeout))\<rparr>)"

definition rm_WithOrderer :: "orderer option \<Rightarrow> rm_option" where
  "rm_WithOrderer ord o1 = Inr (o1\<lparr>oOrderer := ord\<rparr>)"

definition rm_WithOrdererEndpoint :: "rm_ext \<Rightarrow> string \<Rightarrow> rm_option" where
  "rm_WithOrdererEndpoint c key o1 =
     (case ordererByKey c key of (found, ignoreOrderer) \<Rightarrow>
        if ignoreOrderer then Inl (ErrNew (''orderer url : '' @ key @ '' is explicitly ignored by EntityMatchers config - can't add orderer''))
        else (case found of None \<Rightarrow> Inl (ErrNew (''orderer not found for url : '' @ key))
        | Some ordererCfg \<Rightarrow>
           (case ordererFromConfig c ordererCfg of
              Inl e \<Rightarrow> Inl (ErrWithMessage ''creating orderer from config failed'' e)
            | Inr ord \<Rightarrow> rm_WithOrderer (Some ord) o1)))"

definition rm_WithConfigSignatures :: "ConfigSignature list option \<Rightarrow> rm_option" where
  "rm_WithConfigSignatures signatures o1 = Inr (o1\<lparr>oSignatures := signatures\<rparr>)"

definition rm_WithRetry :: "Opts \<Rightarrow> rm_option" where
  "rm_WithRetry retryOpt o1 = Inr (o1\<lparr>oRetry := retryOpt\<rparr>)"

text \<open>Reading a signature: the buffer holds \<open>bufferSize\<close> bytes, so no call reads more. A reader past its last call
  returns nothing and \<open>EOF\<close>.\<close>

definition bufferSize :: nat where "bufferSize = 1024"

fun readConfigSignatureArray :: "reader \<Rightarrow> bytes \<Rightarrow> error + bytes" where
  "readConfigSignatureArray [] arr = Inr arr"
| "readConfigSignatureArray ((buff, err) # rest) arr =
     (case err of
        Some (ReadError e) \<Rightarrow> Inl (ErrWithMessage ''Failed to read config signature data from reader'' e)
      | _ \<Rightarrow> if buff = [] then Inr arr else readConfigSignatureArray rest (arr @ buff))"

definition createConfigSignatureOption :: "rm_ext \<Rightarrow> reader \<Rightarrow> rm_option" where
  "createConfigSignatureOption c r o1 =
     (case readConfigSignatureArray r [] of Inl e \<Rightarrow> Inl e
      | Inr arr \<Rightarrow>
         (case unmarshalConfigSignature c arr of Inl e \<Rightarrow> Inl e
          | Inr sig \<Rightarrow> Inr (o1\<lparr>oSignatures := Some ((case oSignatures o1 of None \<Rightarrow> [] | Some s \<Rightarrow> s) @ [sig])\<rparr>)))"

definition UnmarshalConfigSignature :: "rm_ext \<Rightarrow> reader \<Rightarrow> ConfigSignature outcome" where
  "UnmarshalConfigSignature c r =
     bindO (wrapE ''reading ConfigSiganture array failed'' (readConfigSignatureArray r [])) (\<lambda>arr.
     withMsgE ''Failed to unmarshal config signature'' (unmarshalConfigSignature c arr))"

definition emptyOptions :: rm_options where
  "emptyOptions = \<lparr>oTargets = [], oTargetFilter = None, oOrderer = None, oTimeouts = None, oRetry = no_retry, oSignatures = None\<rparr>"

definition rm_prepareRequestOpts :: "rm_option list \<Rightarrow> error + rm_options" where
  "rm_prepareRequestOpts options =
     (case foldE (\<lambda>option o1. option o1) options emptyOptions of
        Inl e \<Rightarrow> Inl (ErrWithMessage ''failed to read opts in resmgmt'' e)
      | Inr o1 \<Rightarrow>
          if oTargets o1 \<noteq> [] \<and> \<not> Option.is_none (oTargetFilter o1)
          then Inl (ErrNew ''If targets are provided, filter cannot be provided'') else Inr o1)"

definition rm_resolveTimeouts :: "rm_ext \<Rightarrow> rm_options \<Rightarrow> rm_options" where
  "rm_resolveTimeouts c o1 =
     (let resolve = (\<lambda>tt m. if m tt = None \<or> m tt = Some 0 then m(tt \<mapsto> cfgTimeouts c tt) else m) in
      o1\<lparr>oTimeouts := Some (resolve PeerResponse (resolve OrdererResponse (resolve ResMgmt
        (case oTimeouts o1 of None \<Rightarrow> Map.empty | Some m \<Rightarrow> m))))\<rparr>)"

section \<open>Targets\<close>

definition filterTargets :: "peer list \<Rightarrow> (peer \<Rightarrow> bool) option \<Rightarrow> peer list" where
  "filterTargets peers f = (case f of None \<Rightarrow> peers | Some accept \<Rightarrow> filter accept peers)"

definition getDefaultTargets :: "rm_ext \<Rightarrow> error + peer list \<Rightarrow> error + peer list" where
  "getDefaultTargets c discovered =
     (case discovered of Inl e \<Rightarrow> Inl (ErrWithMessage ''failed to discover peers'' e)
      | Inr peers \<Rightarrow> Inr (filterTargets peers (rmFilter c)))"

text \<open>\<open>errors.WithMessage\<close> of a nil error is nil: when no target is left, the result is no target and no error.\<close>

definition resolveDefaultTargets :: "rm_ext \<Rightarrow> nat \<Rightarrow> rm_options \<Rightarrow> error + peer list" where
  "resolveDefaultTargets c n o1 =
     (if oTargets o1 \<noteq> [] then Inr (oTargets o1)
      else (case localPeers c n of
              Inl e \<Rightarrow> Inl (ErrWithMessage ''failed to create local context'' e)
            | Inr discovered \<Rightarrow>
                (case getDefaultTargets c discovered of Inl e \<Rightarrow> Inl e
                 | Inr targets \<Rightarrow> if targets = [] then Inr [] else Inr targets)))"

definition rm_calculateTargets :: "rm_ext \<Rightarrow> nat \<Rightarrow> peer list \<Rightarrow> (peer \<Rightarrow> bool) option \<Rightarrow> error + peer list" where
  "rm_calculateTargets c n targets f =
     (if targets = [] then
        (case localPeers c n of
           Inl e \<Rightarrow> Inl (ErrWithMessage ''failed to create local context'' e)
         | Inr (Inl e) \<Rightarrow> Inl e
         | Inr (Inr discovered) \<Rightarrow> Inr (filterTargets discovered (case f of None \<Rightarrow> rmFilter c | Some _ \<Rightarrow> f)))
      else Inr (filterTargets targets f))"

definition noTargets :: error where
  "noTargets = ErrWithStack (ErrStatus (status_New ClientStatus (ToInt32 NoPeersFound) ''no targets available'' []))"

definition getCCProposalTargets :: "rm_ext \<Rightarrow> nat \<Rightarrow> string \<Rightarrow> rm_options \<Rightarrow> error + peer list" where
  "getCCProposalTargets c n channelID o1 =
     (case newChannelCtx c channelID of Some e \<Rightarrow> Inl (ErrWithMessage ''failed to create channel context'' e)
      | None \<Rightarrow>
     (case channelDiscovery c channelID of Inl e \<Rightarrow> Inl (ErrWithMessage ''failed to get discovery service'' e)
      | Inr discovered \<Rightarrow>
     (case (if oTargets o1 = [] then getDefaultTargets c discovered else Inr (oTargets o1)) of
        Inl e \<Rightarrow> Inl (ErrWithMessage ''failed to get default targets for cc proposal'' e)
      | Inr ts \<Rightarrow>
     (case rm_calculateTargets c n ts (oTargetFilter o1) of
        Inl e \<Rightarrow> Inl (ErrWithMessage ''failed to determine target peers for cc proposal'' e)
      | Inr targets \<Rightarrow> if targets = [] then Inl noTargets else Inr targets))))"

definition selectRandomChannelPeer :: "rm_ext \<Rightarrow> string \<Rightarrow> error + peer" where
  "selectRandomChannelPeer c channelID =
     (case channelDiscovery c channelID of Inl e \<Rightarrow> Inl (ErrWithMessage ''failed to get discovery service'' e)
      | Inr discovered \<Rightarrow>
     (case getDefaultTargets c discovered of
        Inl e \<Rightarrow> Inl (ErrWithMessage ''failed to get default target for query instantiated chaincodes'' e)
      | Inr ts \<Rightarrow>
         let targets = filterTargets ts (Some (\<lambda>p. MSPID p = rmMSPID c)) in
         if targets = [] then Inl (ErrNew (''no targets in MSP ['' @ rmMSPID c @ '']''))
         else Inr (targets ! rand_Intn (rmRand c) 0 (length targets))))"

definition rm_ordererConfig :: "rm_ext \<Rightarrow> string \<Rightarrow> error + OrdererConfig" where
  "rm_ordererConfig c channelID =
     (let orderers = ChannelOrderers c channelID; others = OrderersConfig c in
      if orderers \<noteq> [] then Inr (orderers ! rand_Intn (rmRand c) 0 (length orderers))
      else if others = [] then Inl (ErrNew ''no orderers found'')
      else Inr (others ! rand_Intn (rmRand c) 0 (length others)))"

definition requestOrderer :: "rm_ext \<Rightarrow> rm_options \<Rightarrow> string \<Rightarrow> error + orderer" where
  "requestOrderer c o1 channelID =
     (case oOrderer o1 of Some ord \<Rightarrow> Inr ord
      | None \<Rightarrow>
     (case rm_ordererConfig c channelID of Inl e \<Rightarrow> Inl (ErrWithMessage ''orderer not found'' e)
      | Inr cfg \<Rightarrow>
     (case ordererFromConfig c cfg of Inl e \<Rightarrow> Inl (ErrWithMessage ''failed to create orderer from config'' e)
      | Inr ord \<Rightarrow> Inr ord)))"

section \<open>Joining a channel\<close>

definition rm_JoinChannel :: "rm_ext \<Rightarrow> string \<Rightarrow> rm_option list \<Rightarrow> unit rm" where
  "rm_JoinChannel c channelID options =
     (if channelID = '''' then errM ''must provide channel ID''
      else bindM (Some (withMsgE ''failed to get opts for JoinChannel'' (rm_prepareRequestOpts options))) (\<lambda>o1.
           bindM (Some (withMsgE ''failed to determine target peers for JoinChannel''
                    (rm_calculateTargets c 0 (oTargets o1) (oTargetFilter o1)))) (\<lambda>targets.
           if targets = [] then Some (Inl (Err noTargets))
           else bindM (Some (withMsgE ''failed to find orderer for request'' (requestOrderer c o1 channelID))) (\<lambda>ord.
                bindM (msgM ''genesis block retrieval failed'' (GenesisBlockFromOrderer (rmRes c) 0 channelID ord (oRetry o1))) (\<lambda>genesisBlock.
                msgM ''join channel failed'' (JoinChannel (rmRes c) 1 genesisBlock (map PeerProcessor targets) (oRetry o1)))))))"

section \<open>Installing chaincode\<close>

record InstallCCResponse =
  icTarget :: string
  icStatus :: int32
  icInfo :: string

definition isChaincodeInstalled :: "rm_ext \<Rightarrow> nat \<Rightarrow> ChaincodeInstallRequest \<Rightarrow> peer \<Rightarrow> Opts \<Rightarrow> bool rm" where
  "isChaincodeInstalled c k req p ro =
     bindM (QueryInstalledChaincodes (rmRes c) k (PeerProcessor p) ro) (\<lambda>chaincodes.
     Some (Inr (list_ex (\<lambda>chaincode. ciName chaincode = instName req \<and> ciVersion chaincode = instVersion req \<and>
                                     ciPath chaincode = instPath req) chaincodes)))"

text \<open>The loop over the targets. An error of the query becomes an entry of the error list and the loop goes on; a panic
  ends it.\<close>

fun adjustTargets ::
  "rm_ext \<Rightarrow> nat \<Rightarrow> ChaincodeInstallRequest \<Rightarrow> Opts \<Rightarrow> peer list \<Rightarrow> (InstallCCResponse list \<times> peer list \<times> error list) rm" where
  "adjustTargets c k req ro [] = Some (Inr ([], [], []))"
| "adjustTargets c k req ro (target # rest) =
     (case isChaincodeInstalled c k req target ro of
        None \<Rightarrow> None
      | Some (Inl (Panic p)) \<Rightarrow> Some (Inl (Panic p))
      | Some (Inl (Err e)) \<Rightarrow>
          bindM (adjustTargets c (Suc k) req ro rest) (\<lambda>(responses, newTargets, errors).
          Some (Inr (responses, newTargets,
            ErrNew (''unable to verify if cc is installed on '' @ URL target @ ''. Got error: '' @ ErrorText (resErr (rmRes c)) e) # errors)))
      | Some (Inr installed) \<Rightarrow>
          bindM (adjustTargets c (Suc k) req ro rest) (\<lambda>(responses, newTargets, errors).
          Some (Inr (if installed then (\<lparr>icTarget = URL target, icStatus = 0, icInfo = ''already installed''\<rparr> # responses, newTargets, errors)
                     else (responses, target # newTargets, errors)))))"

definition sendInstallCCRequest ::
  "rm_ext \<Rightarrow> nat \<Rightarrow> ChaincodeInstallRequest \<Rightarrow> peer list \<Rightarrow> InstallCCResponse list \<Rightarrow> InstallCCResponse list rm" where
  "sendInstallCCRequest c k req newTargets responses =
     bindM (msgM ''installing chaincode failed'' (InstallChaincode (rmRes c) k req (map PeerProcessor newTargets) no_retry)) (\<lambda>(tprs, txid).
     Some (Inr (responses @ map (\<lambda>v. \<lparr>icTarget = Endorser v, icStatus = TPRStatus v, icInfo = ''''\<rparr>) tprs)))"

definition checkRequiredInstallCCParams :: "ChaincodeInstallRequest \<Rightarrow> unit outcome" where
  "checkRequiredInstallCCParams req =
     (if instName req = '''' \<or> instVersion req = '''' \<or> instPath req = '''' \<or> instPackage req = None
      then Inl (Err (ErrNew ''Chaincode name, version, path and chaincode package are required'')) else Inr ())"

text \<open>The responses are returned together with an error; before they are collected, an error comes with no responses.\<close>

definition InstallCC :: "rm_ext \<Rightarrow> ChaincodeInstallRequest \<Rightarrow> rm_option list \<Rightarrow> (InstallCCResponse list \<times> error option) rm" where
  "InstallCC c req options =
     bindM (Some (checkRequiredInstallCCParams req)) (\<lambda>_.
     bindM (Some (withMsgE ''failed to get opts for InstallCC'' (rm_prepareRequestOpts options))) (\<lambda>o1.
     bindM (Some (withMsgE ''failed to get default targets for InstallCC'' (resolveDefaultTargets c 0 o1))) (\<lambda>defaultTargets.
     bindM (Some (withMsgE ''failed to determine target peers for install cc''
              (rm_calculateTargets c 1 defaultTargets (oTargetFilter o1)))) (\<lambda>targets.
     if targets = [] then Some (Inl (Err noTargets))
     else bindM (adjustTargets c 0 req (oRetry o1) targets) (\<lambda>(responses, newTargets, errors).
          if newTargets = [] then Some (Inr (responses, multi_ToError errors))
          else (case sendInstallCCRequest c (length targets) req newTargets responses of
                  None \<Rightarrow> None
                | Some (Inl (Panic p)) \<Rightarrow> Some (Inl (Panic p))
                | Some (Inl (Err e)) \<Rightarrow> Some (Inr ([], multi_ToError (errors @ [e])))
                | Some (Inr all) \<Rightarrow> Some (Inr (all, multi_ToError errors))))))))"

definition rm_QueryInstalledChaincodes :: "rm_ext \<Rightarrow> rm_option list \<Rightarrow> ChaincodeInfo list rm" where
  "rm_QueryInstalledChaincodes c options =
     bindM (Some (liftErr (rm_prepareRequestOpts options))) (\<lambda>o1.
     case oTargets o1 of [t] \<Rightarrow> QueryInstalledChaincodes (rmRes c) 0 (PeerProcessor t) (oRetry o1)
     | _ \<Rightarrow> errM ''only one target is supported'')"

definition rm_QueryChannels :: "rm_ext \<Rightarrow> rm_option list \<Rightarrow> string list rm" where
  "rm_QueryChannels c options =
     bindM (Some (liftErr (rm_prepareRequestOpts options))) (\<lambda>o1.
     case oTargets o1 of [t] \<Rightarrow> QueryChannels (rmRes c) 0 (PeerProcessor t) (oRetry o1)
     | _ \<Rightarrow> errM ''only one target is supported'')"

section \<open>Instantiating and upgrading chaincode\<close>

datatype chaincodeProposalType = InstantiateChaincode | UpgradeChaincode

record InstantiateCCRequest =
  iccName :: string
  iccPath :: string
  iccVersion :: string
  iccLang :: nat
  iccArgs :: "bytes list"
  iccPolicy :: "bytes option"
  iccCollConfig :: "bytes list option"

text \<open>A deploy transaction does these things to the outside world; what is sent is a transaction and the orderers
  that were called.\<close>

datatype rm_action = RmRegister string nat | RmUnregister nat | RmSend Transaction "orderer list"

definition checkRequiredCCProposalParams :: "rm_ext \<Rightarrow> string \<Rightarrow> InstantiateCCRequest \<Rightarrow> InstantiateCCRequest outcome" where
  "checkRequiredCCProposalParams c channelID req =
     (if channelID = '''' then Inl (Err (ErrNew ''must provide channel ID''))
      else if iccName req = '''' \<or> iccVersion req = '''' \<or> iccPath req = '''' \<or> iccPolicy req = None
      then Inl (Err (ErrNew ''Chaincode name, version, path and policy are required''))
      else if iccLang req = 0 \<or> specTypeNames c (iccLang req) = '''' then Inr (req\<lparr>iccLang := spec_GOLANG c\<rparr>)
      else Inr req)"

definition stringBytes :: "string \<Rightarrow> bytes" where
  "stringBytes s = map of_char s"

definition createChaincodeDeployProposal ::
  "rm_ext \<Rightarrow> txn_ext \<Rightarrow> TransactionHeader \<Rightarrow> chaincodeProposalType \<Rightarrow> string \<Rightarrow> InstantiateCCRequest \<Rightarrow> TransactionProposal outcome" where
  "createChaincodeDeployProposal c x txh deploy channelID chaincode =
     bindO (withMsgE ''marshal of chaincode deployment spec failed''
              (marshalDeploySpec c (iccLang chaincode) (iccName chaincode) (iccPath chaincode) (iccVersion chaincode) (iccArgs chaincode))) (\<lambda>ccdsBytes.
     bindO (withMsgE ''marshal of chaincode policy failed''
              (marshalPolicy c (case iccPolicy chaincode of None \<Rightarrow> [] | Some p \<Rightarrow> p))) (\<lambda>policyBytes.
     bindO (case iccCollConfig chaincode of None \<Rightarrow> Inr []
            | Some colls \<Rightarrow> bindO (withMsgE ''marshal of collection policy failed'' (marshalCollections c colls)) (\<lambda>b. Inr [b])) (\<lambda>collBytes.
     CreateChaincodeInvokeProposal x txh
       \<lparr>ReqChaincodeID = ''lscc'', ReqFcn = (case deploy of InstantiateChaincode \<Rightarrow> ''deploy'' | UpgradeChaincode \<Rightarrow> ''upgrade''),
        ReqArgs = [stringBytes channelID, ccdsBytes, policyBytes, stringBytes ''escc'', stringBytes ''vscc''] @ collBytes,
        ReqIsInit = False, ReqLang = iccLang chaincode, ReqTransientMap = []\<rparr>)))"

text \<open>The transaction id is returned beside the error.\<close>

definition createTP ::
  "rm_ext \<Rightarrow> txn_ext \<Rightarrow> InstantiateCCRequest \<Rightarrow> string \<Rightarrow> chaincodeProposalType \<Rightarrow> string \<times> TransactionProposal outcome" where
  "createTP c x req channelID deploy =
     (case NewHeader x channelID None None of
        Inl f \<Rightarrow> ('''', withMsgO ''create transaction ID failed'' (Inl f))
      | Inr txh \<Rightarrow> (thID txh, withMsgO ''creating chaincode deploy transaction proposal failed''
                     (createChaincodeDeployProposal c x txh deploy channelID req)))"

fun verifyAll :: "ext \<Rightarrow> txn_ext \<Rightarrow> TransactionProposalResponse list \<Rightarrow> unit outcome" where
  "verifyAll ex x [] = Inr ()"
| "verifyAll ex x (r # rs) = bindO (withMsgO ''Failed to verify signature'' (sig_Verify ex x r)) (\<lambda>_. verifyAll ex x rs)"

definition verifyTPSignature :: "rm_ext \<Rightarrow> txn_ext \<Rightarrow> string \<Rightarrow> TransactionProposalResponse list \<Rightarrow> unit outcome" where
  "verifyTPSignature c x channelID responses =
     (case channelMembership c channelID of
        Some e \<Rightarrow> Inl (Err (ErrWithMessage ''membership creation failed'' e))
      | None \<Rightarrow> verifyAll (resErr (rmRes c)) x responses)"

definition rm_createAndSendTransaction ::
  "txn_ext \<Rightarrow> Transactor \<Rightarrow> TransactionProposal \<Rightarrow> TransactionProposalResponse list \<Rightarrow> rm_action list \<times> unit outcome" where
  "rm_createAndSendTransaction x t tp responses =
     (case CreateTransaction x (Some tp) responses of
        Inl f \<Rightarrow> ([], withMsgO ''CreateTransaction failed'' (Inl f))
      | Inr tx \<Rightarrow>
          (case SendTransaction x 0 t (Some tx) of
             (Inl (Some f), called) \<Rightarrow> ([RmSend tx called], withMsgO ''SendTransaction failed'' (Inl f))
           | (_, called) \<Rightarrow> ([RmSend tx called], Inr ())))"

definition checkStatus :: "rm_ext \<Rightarrow> string \<Rightarrow> nat \<Rightarrow> string \<times> unit outcome" where
  "checkStatus c txnID reg =
     (case awaitStatus c reg of
        StatusEvent txid code \<Rightarrow>
          (txid, if code = txVALID c then Inr ()
                 else Inl (Err (ErrStatus (status_New EventServerStatus code ''instantiateOrUpgradeCC failed'' []))))
      | StatusClosed \<Rightarrow> ('''', Inl (Panic ''nil pointer dereference''))
      | ContextDone \<Rightarrow> (txnID, Inl (Err (ErrNew ''instantiateOrUpgradeCC timed out or cancelled''))))"

definition sendTransactionAndCheckEvent ::
  "rm_ext \<Rightarrow> txn_ext \<Rightarrow> TransactionProposal \<Rightarrow> TransactionProposalResponse list \<Rightarrow> Transactor \<Rightarrow> rm_action list \<times> string \<times> unit outcome" where
  "sendTransactionAndCheckEvent c x tp responses t =
     (case registerTxStatus c (TxnID tp) of
        Inl e \<Rightarrow> ([], TxnID tp, Inl (Err (ErrWithMessage ''error registering for TxStatus event'' e)))
      | Inr reg \<Rightarrow>
          (case rm_createAndSendTransaction x t tp responses of (sent, res) \<Rightarrow>
             (RmRegister (TxnID tp) reg # sent @ [RmUnregister reg],
              (case res of Inl f \<Rightarrow> (TxnID tp, withMsgO ''CreateAndSendTransaction failed'' (Inl f))
               | Inr _ \<Rightarrow> checkStatus c (TxnID tp) reg))))"

definition sendCCProposal ::
  "rm_ext \<Rightarrow> chaincodeProposalType \<Rightarrow> string \<Rightarrow> InstantiateCCRequest \<Rightarrow> rm_options \<Rightarrow> rm_action list \<times> string \<times> unit outcome" where
  "sendCCProposal c deploy channelID req0 o1 =
     (let stop = (\<lambda>txid r. ([], txid, r)) in
      case checkRequiredCCProposalParams c channelID req0 of Inl f \<Rightarrow> stop '''' (Inl f)
      | Inr req \<Rightarrow>
     (case getCCProposalTargets c 0 channelID o1 of Inl e \<Rightarrow> stop '''' (Inl (Err e))
      | Inr targets \<Rightarrow>
     (case channelService c channelID of Some e \<Rightarrow> stop '''' (Inl (Err (ErrWithMessage ''Unable to get channel service'' e)))
      | None \<Rightarrow>
     (case channelTransactor c channelID of Inl e \<Rightarrow> stop '''' (Inl (Err (ErrWithMessage ''get channel transactor failed'' e)))
      | Inr t \<Rightarrow>
     (case createTP c (resNet (rmRes c) 0 0) req channelID deploy of (txnID, rtp) \<Rightarrow>
     (case rtp of Inl f \<Rightarrow> stop txnID (Inl f)
      | Inr tp \<Rightarrow>
     (case SendTransactionProposal (resNet (rmRes c) 1 0) 0 t (Some tp) (map PeerProcessor targets) of
        Inl f \<Rightarrow> stop (TxnID tp) (withMsgO ''sending deploy transaction proposal failed'' (Inl f))
      | Inr (responses, Some e) \<Rightarrow> stop (TxnID tp) (Inl (Err (ErrWithMessage ''sending deploy transaction proposal failed'' e)))
      | Inr (responses, None) \<Rightarrow>
     (case verifyTPSignature c (resNet (rmRes c) 1 0) channelID responses of
        Inl f \<Rightarrow> stop (TxnID tp) (withMsgO ''sending deploy transaction proposal failed to verify signature'' (Inl f))
      | Inr _ \<Rightarrow>
     (case channelEvents c channelID of Some e \<Rightarrow> stop (TxnID tp) (Inl (Err (ErrWithMessage ''unable to get event service'' e)))
      | None \<Rightarrow> sendTransactionAndCheckEvent c (resNet (rmRes c) 2 0) tp responses t)))))))))"

definition InstantiateCC :: "rm_ext \<Rightarrow> string \<Rightarrow> InstantiateCCRequest \<Rightarrow> rm_option list \<Rightarrow> rm_action list \<times> string \<times> unit outcome" where
  "InstantiateCC c channelID req options =
     (case rm_prepareRequestOpts options of
        Inl e \<Rightarrow> ([], '''', Inl (Err (ErrWithMessage ''failed to get opts for InstantiateCC'' e)))
      | Inr o1 \<Rightarrow> sendCCProposal c InstantiateChaincode channelID req o1)"

definition UpgradeCC :: "rm_ext \<Rightarrow> string \<Rightarrow> InstantiateCCRequest \<Rightarrow> rm_option list \<Rightarrow> rm_action list \<times> string \<times> unit outcome" where
  "UpgradeCC c channelID req options =
     (case rm_prepareRequestOpts options of
        Inl e \<Rightarrow> ([], '''', Inl (Err (ErrWithMessage ''failed to get opts for UpgradeCC'' e)))
      | Inr o1 \<Rightarrow> sendCCProposal c UpgradeChaincode channelID req o1)"

section \<open>Saving a channel\<close>

record SaveChannelRequest =
  scChannelID :: string
  scChannelConfig :: "reader option"
  scChannelConfigPath :: string
  scSigningIdentities :: "signing_identity option list"

text \<open>\<open>ioutil.ReadAll\<close> reads until an error; \<open>EOF\<close> is none.\<close>

fun ReadAll :: "reader \<Rightarrow> error + bytes" where
  "ReadAll [] = Inr []"
| "ReadAll ((buff, None) # rest) = map_sum id (\<lambda>more. buff @ more) (ReadAll rest)"
| "ReadAll ((buff, Some EOF) # rest) = Inr buff"
| "ReadAll ((buff, Some (ReadError e)) # rest) = Inl e"

definition extractChConfigTx :: "rm_ext \<Rightarrow> reader option \<Rightarrow> bytes outcome" where
  "extractChConfigTx c channelConfigReader =
     (case channelConfigReader of None \<Rightarrow> Inl (Err (ErrNew ''must provide a non empty channel config file''))
      | Some r \<Rightarrow>
          bindO (withMsgE ''reading channel config file failed'' (ReadAll r)) (\<lambda>configTx.
          withMsgO ''extracting channel config from ConfigTx failed'' (ExtractChannelConfig (resProtos (rmRes c)) configTx)))"

fun createCfgSigFromIDs :: "rm_ext \<Rightarrow> nat \<Rightarrow> bytes \<Rightarrow> signing_identity list \<Rightarrow> ConfigSignature list outcome" where
  "createCfgSigFromIDs c i chConfig [] = Inr []"
| "createCfgSigFromIDs c i chConfig (signer # signers) =
     bindO (withMsgO ''signing configuration failed''
              (CreateConfigSignature (resProtos (rmRes c)) (signNonce c i) signer chConfig)) (\<lambda>configSignature.
     bindO (createCfgSigFromIDs c (Suc i) chConfig signers) (\<lambda>sigs. Inr (configSignature # sigs)))"

definition getConfigSignatures :: "rm_ext \<Rightarrow> signing_identity option list \<Rightarrow> bytes \<Rightarrow> ConfigSignature list outcome" where
  "getConfigSignatures c signingIdentities chConfig =
     createCfgSigFromIDs c 0 chConfig
       (if signingIdentities \<noteq> [] then List.map_filter id signingIdentities else [clientIdentity c])"

text \<open>Signatures that were made here are a nil slice when there are none.\<close>

definition signAndSubmitChannelConfigTx ::
  "rm_ext \<Rightarrow> string \<Rightarrow> signing_identity option list \<Rightarrow> rm_options \<Rightarrow> bytes \<Rightarrow> orderer \<Rightarrow> string rm" where
  "signAndSubmitChannelConfigTx c channelID signingIdentities o1 chConfigTx ord =
     bindM (Some (case oSignatures o1 of
              Some sigs \<Rightarrow> Inr (Some sigs)
            | None \<Rightarrow> bindO (getConfigSignatures c signingIdentities chConfigTx) (\<lambda>sigs. Inr (if sigs = [] then None else Some sigs)))) (\<lambda>configSignatures.
     case CreateChannel (rmRes c) 0 \<lparr>ccrName = channelID, ccrOrderer = Some ord, ccrEnvelope = None, ccrConfig = Some chConfigTx,
            ccrSignatures = configSignatures\<rparr> (oRetry o1) of (txID, res) \<Rightarrow>
     bindM (msgM ''create channel failed'' res) (\<lambda>_. Some (Inr txID)))"

definition SaveChannel :: "rm_ext \<Rightarrow> SaveChannelRequest \<Rightarrow> rm_option list \<Rightarrow> string rm" where
  "SaveChannel c req options =
     bindM (Some (liftErr (rm_prepareRequestOpts options))) (\<lambda>o1.
     bindM (Some (if scChannelConfigPath req \<noteq> '''' then
              bindO (wrapE ''opening channel config file failed'' (openFile c (scChannelConfigPath req))) (\<lambda>r. Inr (Some r))
            else Inr (scChannelConfig req))) (\<lambda>config.
     if scChannelID req = '''' \<or> config = None then errM ''must provide channel ID and channel config''
     else bindM (Some (withMsgO ''extracting channel config from ConfigTx failed'' (extractChConfigTx c config))) (\<lambda>chConfig.
          bindM (Some (withMsgE ''failed to find orderer for request'' (requestOrderer c o1 (scChannelID req)))) (\<lambda>ord.
          msgM ''create channel failed''
            (signAndSubmitChannelConfigTx c (scChannelID req) (scSigningIdentities req) o1 chConfig ord)))))"

definition CreateConfigSignatureFromReader :: "rm_ext \<Rightarrow> signing_identity \<Rightarrow> reader option \<Rightarrow> ConfigSignature outcome" where
  "CreateConfigSignatureFromReader c signer channelConfig =
     bindO (withMsgO ''extracting channel config failed'' (extractChConfigTx c channelConfig)) (\<lambda>chConfig.
     bindO (createCfgSigFromIDs c 0 chConfig [signer]) (\<lambda>sigs.
     case sigs of [sig] \<Rightarrow> Inr sig
     | _ \<Rightarrow> Inl (Err (ErrNew ''creating a config signature for 1 identity did not return 1 signature''))))"

definition rm_CreateConfigSignature :: "rm_ext \<Rightarrow> signing_identity \<Rightarrow> string \<Rightarrow> ConfigSignature outcome" where
  "rm_CreateConfigSignature c signer channelConfigPath =
     (if channelConfigPath = '''' then Inl (Err (ErrNew ''must provide a channel config path''))
      else bindO (wrapE ''opening channel config file failed'' (openFile c channelConfigPath)) (\<lambda>r.
           CreateConfigSignatureFromReader c signer (Some r)))"

definition CreateConfigSignatureDataFromReader :: "rm_ext \<Rightarrow> signing_identity \<Rightarrow> reader option \<Rightarrow> ConfigSignatureData outcome" where
  "CreateConfigSignatureDataFromReader c signer channelConfig =
     bindO (withMsgO ''extracting channel config failed'' (extractChConfigTx c channelConfig)) (\<lambda>chConfig.
     GetConfigSignatureData (resProtos (rmRes c)) (signNonce c 0) signer chConfig)"

definition CreateConfigSignatureData :: "rm_ext \<Rightarrow> signing_identity \<Rightarrow> string \<Rightarrow> ConfigSignatureData outcome" where
  "CreateConfigSignatureData c signer channelConfigPath =
     (if channelConfigPath = '''' then Inl (Err (ErrNew ''must provide a channel config path''))
      else bindO (wrapE ''opening channel config file failed'' (openFile c channelConfigPath)) (\<lambda>r.
           CreateConfigSignatureDataFromReader c signer (Some r)))"

section \<open>Configuration updates\<close>

record channel_config =
  ccSequence :: uint64
  ccChannelGroup :: "configGroup option"

definition CalculateConfigUpdate ::
  "string \<Rightarrow> channel_config option \<Rightarrow> channel_config option \<Rightarrow> (string \<times> config_update) outcome" where
  "CalculateConfigUpdate channelID currentConfig newConfig =
     (case (currentConfig, newConfig) of
        (Some cur, Some new) \<Rightarrow>
          if channelID = '''' then Inl (Err (ErrNew ''must provide channel ID and current and new channel config''))
          else if ccSequence cur \<noteq> ccSequence new then Inl (Err (ErrNew ''channel config sequence mismatch''))
          else bindO (withMsgE ''config update computation failed'' (Compute (ccChannelGroup cur) (ccChannelGroup new))) (\<lambda>configUpdate.
               Inr (channelID, configUpdate))
      | _ \<Rightarrow> Inl (Err (ErrNew ''must provide channel ID and current and new channel config'')))"

section \<open>Targets of a request\<close>

text \<open>
  The targets of an installation, when the request names no target and both a default filter of the client and a
  filter of the request are set: the peers of the local discovery service that pass both filters, unless the default
  filter rejects all of them. Then the error that was meant to end the request is lost, since a nil error is wrapped,
  the local discovery service is asked again, and the targets are the peers that the filter of the request accepts,
  all of which the default filter rejects.
\<close>

theorem install_targets:
  assumes "oTargets o1 = []" and "rmFilter c = Some g" and "oTargetFilter o1 = Some f"
    and "localPeers c 0 = Inr (Inr ps)" and "localPeers c 1 = Inr (Inr ps)"
  shows "\<exists>defaults. resolveDefaultTargets c 0 o1 = Inr defaults \<and>
    rm_calculateTargets c 1 defaults (oTargetFilter o1) =
      Inr (if list_ex g ps then filter (\<lambda>p. f p \<and> g p) ps else filter (\<lambda>p. f p \<and> \<not> g p) ps)"
proof -
  have "filter g ps = [] \<longleftrightarrow> \<not> list_ex g ps" by (auto simp: filter_empty_conv list_ex_iff)
  moreover have "filter (\<lambda>p. f p \<and> \<not> g p) ps = filter f ps" if "\<not> list_ex g ps"
    by (rule filter_cong) (use that in \<open>auto simp: list_ex_iff\<close>)
  ultimately show ?thesis
    using assms by (simp add: resolveDefaultTargets_def getDefaultTargets_def filterTargets_def rm_calculateTargets_def conj_commute)
qed

text \<open>
  The targets of a deployment, when the request names none: the peers of the channel that the default filter
  accepts, restricted by the filter of the request; but when the default filter accepts no peer of the channel, or
  none was discovered, the targets are taken from the peers of the local organization, whether or not they have
  joined the channel.
\<close>

theorem deploy_targets:
  assumes "oTargets o1 = []" and "newChannelCtx c ch = None" and "channelDiscovery c ch = Inr (Inr ps)"
    and "localPeers c n = Inr (Inr ls)"
  shows "getCCProposalTargets c n ch o1 =
    (let members = filterTargets ps (rmFilter c);
         targets = (if members = [] then filterTargets ls (case oTargetFilter o1 of None \<Rightarrow> rmFilter c | Some f \<Rightarrow> Some f)
                    else filterTargets members (oTargetFilter o1))
     in if targets = [] then Inl noTargets else Inr targets)"
  using assms by (auto simp: getCCProposalTargets_def getDefaultTargets_def rm_calculateTargets_def Let_def split: option.split)

section \<open>Installing on every target\<close>

abbreviation alreadyInstalled :: "peer \<Rightarrow> InstallCCResponse" where
  "alreadyInstalled p \<equiv> \<lparr>icTarget = URL p, icStatus = 0, icInfo = ''already installed''\<rparr>"

lemma adjustTargets_spec:
  assumes "adjustTargets c k req ro ts = Some (Inr (rs, new, []))"
  shows "set new \<subseteq> set ts \<and> (\<forall>i < length ts.
    (isChaincodeInstalled c (k + i) req (ts ! i) ro = Some (Inr True) \<and> alreadyInstalled (ts ! i) \<in> set rs) \<or>
    (isChaincodeInstalled c (k + i) req (ts ! i) ro = Some (Inr False) \<and> ts ! i \<in> set new))"
  using assms
proof (induction ts arbitrary: k rs new)
  case (Cons t ts)
  from Cons.prems obtain inst rs' new' where inst: "isChaincodeInstalled c k req t ro = Some (Inr inst)"
    and rest: "adjustTargets c (Suc k) req ro ts = Some (Inr (rs', new', []))"
    and eq: "rs = (if inst then alreadyInstalled t # rs' else rs')" "new = (if inst then new' else t # new')"
    by (auto simp: bindM_Inr split: option.splits sum.splits failure.splits if_splits)
  show ?case
  proof (intro conjI allI impI)
    show "set new \<subseteq> set (t # ts)" using Cons.IH [OF rest] eq by auto
    show "(isChaincodeInstalled c (k + i) req ((t # ts) ! i) ro = Some (Inr True) \<and> alreadyInstalled ((t # ts) ! i) \<in> set rs) \<or>
      (isChaincodeInstalled c (k + i) req ((t # ts) ! i) ro = Some (Inr False) \<and> (t # ts) ! i \<in> set new)" if "i < length (t # ts)" for i
    proof (cases i)
      case 0
      then show ?thesis using inst eq by (cases inst) simp_all
    next
      case (Suc j)
      then show ?thesis using conjunct2 [OF Cons.IH [OF rest], rule_format, of j] that eq by auto
    qed
  qed
qed simp

text \<open>Every distinct URL among the targets of a proposal that met no error has a response.\<close>

lemma sendProposalOnce_all:
  assumes "sendProposalOnce x tp (map PeerProcessor ps) = Inr rs" and "p \<in> set ps"
  shows "\<exists>q b s r. q \<in> set ps \<and> URL q = URL p \<and> processProposal x (PeerProcessor q) b s = Inr r \<and> r \<in> set rs"
proof -
  define asked where "asked = firstURLs [] ps"
  have run: "SendProposal x 0 (Some tp) (map PeerProcessor ps) = Inr (rs, None)"
    using assms(1) by (auto simp: sendProposalOnce_def split: sum.splits option.splits prod.splits)
  have ne: "ps \<noteq> []" using assms(2) by auto
  obtain b s where "signProposal x (TPProposal tp) = Inr (b, s)"
    using run ne by (auto simp: SendProposal_def Let_def bindO_eq_Inr split: if_splits sum.splits failure.splits)
  moreover define results where
    "results = map (\<lambda>i. processProposal x (map PeerProcessor asked ! i) b s) (shuffle (finishOrder x) 0 (length asked))"
  ultimately have res: "rs = [r. Inr r \<leftarrow> results]" "[e. Inl e \<leftarrow> results] = []"
    using run ne by (auto simp: SendProposal_def getTargets_peers Let_def asked_def simp del: concat_eq_Nil_conv split: if_splits)
  have perm: "mset results = mset (map (\<lambda>p. processProposal x (PeerProcessor p) b s) asked)"
    using mset_map_shuffle [of "\<lambda>t. processProposal x t b s" "map PeerProcessor asked" "finishOrder x" 0]
    by (simp add: results_def comp_def)
  from firstURLs_spec [of "[]" ps] have "URL ` set asked = URL ` set ps" "subseq asked ps" by (simp_all add: asked_def)
  then have "URL p \<in> URL ` set asked" "set asked \<subseteq> set ps" using assms(2) by (auto dest: list_emb_set)
  then obtain q where q: "q \<in> set asked" "URL q = URL p" "q \<in> set ps" by auto
  then have "processProposal x (PeerProcessor q) b s \<in> set results"
    using mset_eq_setD [OF perm] by auto
  moreover have "list_all (\<lambda>r. \<not> isl r) results" using res(2) by (simp only: no_failures_iff)
  ultimately have "\<not> isl (processProposal x (PeerProcessor q) b s)" by (simp add: list_all_iff)
  then obtain r where "processProposal x (PeerProcessor q) b s = Inr r" by (cases "processProposal x (PeerProcessor q) b s") simp_all
  moreover from this have "r \<in> set rs"
    using res(1) \<open>processProposal x (PeerProcessor q) b s \<in> set results\<close> by force
  ultimately show ?thesis using q by blast
qed

lemma InstallChaincode_once:
  assumes "InstallChaincode c k req targets no_retry = Some (Inr (tprs, txid))"
  shows "\<exists>tp. sendProposalOnce (resNet c k 0) tp targets = Inr tprs"
proof -
  have "resRetry c no_retry f = Some (f 0)" for f :: "nat \<Rightarrow> TransactionProposalResponse list outcome"
    by (rule resRetry_once) (simp add: no_retry_def)
  with assms show ?thesis
    by (auto simp: InstallChaincode_def Let_def bindM_Inr errM_def split: if_splits option.splits)
qed


text \<open>
  A failed installation hides what was achieved: when the install proposal fails on one peer, the responses of
  the peers that have installed the chaincode are not returned, nor those of the peers on which it was installed before.
\<close>

lemma failed_install_drops_responses:
  assumes "checkRequiredInstallCCParams req = Inr ()" "rm_prepareRequestOpts options = Inr o1" "resolveDefaultTargets c 0 o1 = Inr defaults"
    "rm_calculateTargets c 1 defaults (oTargetFilter o1) = Inr targets"
    "adjustTargets c 0 req (oRetry o1) targets = Some (Inr (rs, new, errors))" "new \<noteq> []"
    "InstallChaincode (rmRes c) (length targets) req (map PeerProcessor new) no_retry = Some (Inl (Err e))"
  shows "InstallCC c req options = Some (Inr ([], multi_ToError (errors @ [ErrWithMessage ''installing chaincode failed'' e])))"
proof -
  have "targets \<noteq> []" using assms(5,6) by auto
  then show ?thesis using assms by (simp add: InstallCC_def sendInstallCCRequest_def withMsgE_def msgM_def withMsgO_def)
qed

section \<open>Deploying chaincode\<close>

lemma verifyAll_Inr: "verifyAll ex x rs = Inr () \<longleftrightarrow> list_all (\<lambda>r. sig_Verify ex x r = Inr ()) rs"
  by (induction rs) (auto simp: bindO_eq_Inr)

lemma createAndSend_ok:
  assumes "rm_createAndSendTransaction x t tp rs = (sent, Inr ())"
  shows "\<exists>tx ord called. CreateTransaction x (Some tp) rs = Inr tx \<and> SendTransaction x 0 t (Some tx) = (Inr ord, called) \<and> sent = [RmSend tx called]"
proof -
  have "SendTransaction x 0 t (Some tx) \<noteq> (Inl None, called)" for tx called
    using txn_Send_not_nil [of x 0 "Some tx" "tOrderers t"] by (auto simp: SendTransaction_def)
  then show ?thesis using assms
    by (auto simp: rm_createAndSendTransaction_def withMsgO_def split: sum.splits prod.splits option.splits failure.splits)
qed

text \<open>
  C23. A deployment (instantiation or upgrade) reports success only for a committed transaction: every response of the
  peers carries a valid endorsement, there is at least one, the transaction made of them was accepted by an orderer of
  the channel, and the status event that was awaited says that it is valid. The registration for the event is made
  before the transaction is sent and is removed again.
\<close>

theorem deploy_commits:
  assumes "sendCCProposal c deploy ch req o1 = (acts, txid, Inr ())"
  shows "\<exists>t tp rs tx reg ord called. channelTransactor c ch = Inr t \<and> rs \<noteq> [] \<and>
    list_all (\<lambda>r. sig_Verify (resErr (rmRes c)) (resNet (rmRes c) 1 0) r = Inr ()) rs \<and>
    CreateTransaction (resNet (rmRes c) 2 0) (Some tp) rs = Inr tx \<and>
    SendTransaction (resNet (rmRes c) 2 0) 0 t (Some tx) = (Inr ord, called) \<and> registerTxStatus c (TxnID tp) = Inr reg \<and>
    awaitStatus c reg = StatusEvent txid (txVALID c) \<and> acts = [RmRegister (TxnID tp) reg, RmSend tx called, RmUnregister reg]"
proof -
  obtain t tp rs where t: "channelTransactor c ch = Inr t" and v: "verifyTPSignature c (resNet (rmRes c) 1 0) ch rs = Inr ()"
    and send: "sendTransactionAndCheckEvent c (resNet (rmRes c) 2 0) tp rs t = (acts, txid, Inr ())"
    using assms by (auto simp: sendCCProposal_def Let_def withMsgO_def split: sum.splits option.splits prod.splits failure.splits)
  from send obtain reg sent where reg: "registerTxStatus c (TxnID tp) = Inr reg"
    and cs: "rm_createAndSendTransaction (resNet (rmRes c) 2 0) t tp rs = (sent, Inr ())"
    and acts: "acts = RmRegister (TxnID tp) reg # sent @ [RmUnregister reg]" and st: "checkStatus c (TxnID tp) reg = (txid, Inr ())"
    by (auto simp: sendTransactionAndCheckEvent_def withMsgO_def split: sum.splits prod.splits failure.splits)
  from createAndSend_ok [OF cs] obtain tx ord called where tx: "CreateTransaction (resNet (rmRes c) 2 0) (Some tp) rs = Inr tx"
    "SendTransaction (resNet (rmRes c) 2 0) 0 t (Some tx) = (Inr ord, called)" "sent = [RmSend tx called]" by blast
  have "rs \<noteq> []" using tx(1) by (auto simp: CreateTransaction_def txn_New_def)
  moreover have "awaitStatus c reg = StatusEvent txid (txVALID c)"
    using st by (auto simp: checkStatus_def split: rm_wait.splits if_splits)
  moreover have "list_all (\<lambda>r. sig_Verify (resErr (rmRes c)) (resNet (rmRes c) 1 0) r = Inr ()) rs"
    using v by (auto simp: verifyTPSignature_def verifyAll_Inr split: option.splits)
  ultimately show ?thesis using t tx reg acts
    by (intro exI [of _ t] exI [of _ tp] exI [of _ rs] exI [of _ tx] exI [of _ reg] exI [of _ ord] exI [of _ called]) simp
qed

text \<open>Whatever the outcome, a registration is followed by its removal, and a transaction is sent at most once, between
  the two.\<close>

definition deployTrace :: "rm_action list \<Rightarrow> bool" where
  "deployTrace acts \<longleftrightarrow> acts = [] \<or> (\<exists>txid reg. acts = [RmRegister txid reg, RmUnregister reg]) \<or>
     (\<exists>txid reg tx called. acts = [RmRegister txid reg, RmSend tx called, RmUnregister reg])"

lemma deploy_protocol: "deployTrace (fst (sendCCProposal c deploy ch req o1))"
proof -
  have "fst (rm_createAndSendTransaction x t tp rs) = [] \<or> (\<exists>tx called. fst (rm_createAndSendTransaction x t tp rs) = [RmSend tx called])"
    for x t tp rs
    by (auto simp: rm_createAndSendTransaction_def split: sum.split prod.split option.split)
  note sends = this
  have "deployTrace (fst (sendTransactionAndCheckEvent c x tp rs t))" for x tp rs t
    using sends [of x t tp rs]
    by (cases "rm_createAndSendTransaction x t tp rs") (auto simp: sendTransactionAndCheckEvent_def deployTrace_def split: sum.split)
  moreover have "deployTrace []" by (simp add: deployTrace_def)
  ultimately show ?thesis
    by (simp add: sendCCProposal_def Let_def split: sum.split option.split prod.split)
qed

section \<open>Configuration signatures\<close>

text \<open>
  The signatures made for a channel configuration are one per signing identity, in their order; each is what the
  identity signs over its signature header, which names the identity and a nonce, followed by the configuration.
\<close>

theorem config_signatures:
  assumes "createCfgSigFromIDs c i chConfig signers = Inr sigs"
  shows "list_all2 (\<lambda>(j, signer) sig. \<exists>creator nonce. sgSerialize signer = Inr creator \<and> signNonce c j = Inr nonce \<and>
      marshalSignatureHeader (resProtos (rmRes c)) creator nonce = Inr (csHeader sig) \<and>
      sgSign signer (csHeader sig @ chConfig) = Inr (csSignature sig))
    (zip [i..<i + length signers] signers) sigs"
  using assms
proof (induction signers arbitrary: i sigs)
  case (Cons s ss)
  then obtain sig rest where sig: "CreateConfigSignature (resProtos (rmRes c)) (signNonce c i) s chConfig = Inr sig"
    and rest: "createCfgSigFromIDs c (Suc i) chConfig ss = Inr rest" and sigs: "sigs = sig # rest"
    by (auto simp: bindO_eq_Inr)
  have "[i..<i + length (s # ss)] = i # [Suc i..<Suc i + length ss]" by (subst upt_conv_Cons) simp_all
  moreover have "\<exists>creator nonce. sgSerialize s = Inr creator \<and> signNonce c i = Inr nonce \<and>
      marshalSignatureHeader (resProtos (rmRes c)) creator nonce = Inr (csHeader sig) \<and> sgSign s (csHeader sig @ chConfig) = Inr (csSignature sig)"
    using sig by (auto simp: CreateConfigSignature_def GetConfigSignatureData_def bindO_eq_Inr withMsgE_def wrapE_def split: sum.splits)
  ultimately show ?case using Cons.IH [OF rest] by (simp add: sigs)
qed simp

section \<open>A small client\<close>

text \<open>A client of an organization with the peers \<open>a\<close> and \<open>b\<close>, whose default filter rejects both, on the network of
  \<open>test_net\<close>.\<close>

definition test_rm :: rm_ext where
  "test_rm = \<lparr>rmRes = test_res, rmPeers = \<lparr>PeerConfig = (\<lambda>k. None), NetworkPeers = [], CreatePeerFromConfig = (\<lambda>np. Inl (ErrNew ''no peer''))\<rparr>,
     rmMSPID = ''Org1MSP'', rmFilter = Some (\<lambda>p. False), localPeers = (\<lambda>n. Inr (Inr [test_peer ''a'', test_peer ''b''])),
     ordererByKey = (\<lambda>k. (None, False)), ChannelOrderers = (\<lambda>ch. []), OrderersConfig = [\<lparr>ocURL = ''o2'', ocOptions = 0\<rparr>],
     ordererFromConfig = (\<lambda>oc. Inr (ocURL oc)), rmRand = (\<lambda>n m. 0), newChannelCtx = (\<lambda>ch. None),
     channelDiscovery = (\<lambda>ch. Inr (Inr [test_peer ''x''])), channelService = (\<lambda>ch. None),
     channelTransactor = (\<lambda>ch. Inr \<lparr>tChannelID = ch, tOrderers = [''o2'']\<rparr>), channelMembership = (\<lambda>ch. None), channelEvents = (\<lambda>ch. None),
     registerTxStatus = (\<lambda>t. Inr 7), awaitStatus = (\<lambda>r. StatusEvent ''t'' 0), openFile = (\<lambda>p. Inr []),
     unmarshalConfigSignature = (\<lambda>b. Inr \<lparr>csHeader = b, csSignature = b\<rparr>), marshalDeploySpec = (\<lambda>l n p v a. Inr []),
     marshalPolicy = Inr, marshalCollections = (\<lambda>c. Inr []), specTypeNames = (\<lambda>l. ''GOLANG''), spec_GOLANG = 1,
     clientIdentity = \<lparr>sgSerialize = Inr [8], sgSign = (\<lambda>b. Inr (7 # b))\<rparr>, signNonce = (\<lambda>i. Inr [9]),
     cfgTimeouts = (\<lambda>t. 180), txVALID = 0\<rparr>"

theorem install_targets_witness:
  "\<exists>defaults. resolveDefaultTargets test_rm 0 (emptyOptions\<lparr>oTargetFilter := Some (\<lambda>p. URL p = ''b'')\<rparr>) = Inr defaults \<and>
     rm_calculateTargets test_rm 1 defaults (Some (\<lambda>p. URL p = ''b'')) = Inr [test_peer ''b'']"
  using install_targets [of "emptyOptions\<lparr>oTargetFilter := Some (\<lambda>p. URL p = ''b'')\<rparr>" test_rm "\<lambda>p. False" "\<lambda>p. URL p = ''b''"
      "[test_peer ''a'', test_peer ''b'']"]
  by (simp add: test_rm_def emptyOptions_def test_peer_def)

theorem deploy_targets_witness:
  "getCCProposalTargets test_rm 0 ''ch'' (emptyOptions\<lparr>oTargetFilter := Some (\<lambda>p. True)\<rparr>) = Inr [test_peer ''a'', test_peer ''b'']"
  using deploy_targets [of "emptyOptions\<lparr>oTargetFilter := Some (\<lambda>p. True)\<rparr>" test_rm "''ch''" "[test_peer ''x'']" 0 "[test_peer ''a'', test_peer ''b'']"]
  by (simp add: test_rm_def emptyOptions_def filterTargets_def)

theorem config_signatures_witness:
  "list_all2 (\<lambda>(j, signer) sig. \<exists>creator nonce. sgSerialize signer = Inr creator \<and> signNonce test_rm j = Inr nonce \<and>
      marshalSignatureHeader (resProtos (rmRes test_rm)) creator nonce = Inr (csHeader sig) \<and>
      sgSign signer (csHeader sig @ [1]) = Inr (csSignature sig))
    (zip [0..<0 + length [clientIdentity test_rm]] [clientIdentity test_rm]) [\<lparr>csHeader = [8, 9], csSignature = [7, 8, 9, 1]\<rparr>]"
  by (rule config_signatures) (simp add: test_rm_def test_res_def test_protos_def CreateConfigSignature_def GetConfigSignatureData_def
      withMsgE_def wrapE_def withMsgO_def)

definition test_install :: ChaincodeInstallRequest where
  "test_install = \<lparr>instName = ''cc'', instPath = ''p'', instVersion = ''2'', instPackage = Some \<lparr>pkgType = 1, pkgCode = [3]\<rparr>\<rparr>"

lemma test_installed_query: "queryChaincodeWithTarget test_res k createInstalledChaincodesInvokeRequest (PeerProcessor (test_peer u)) ro = Some (Inr [5])"
proof -
  obtain h where h: "NewHeader test_net SystemChannel None None = Inr h" using test_header by blast
  obtain tp where tp: "CreateChaincodeInvokeProposal test_net h createInstalledChaincodesInvokeRequest = Inr tp"
    using test_proposal [of createInstalledChaincodesInvokeRequest h]
    by (auto simp: createInstalledChaincodesInvokeRequest_def csccRequest_def)
  show ?thesis
    by (simp add: queryChaincodeWithTarget_def h tp withMsgO_def resRetry_success test_send msgM_def firstPayload_def validateResponse_def)
      (simp add: test_defs)
qed

lemma test_notInstalled: "isChaincodeInstalled test_rm k test_install (test_peer u) ro = Some (Inr False)"
proof -
  have "rmRes test_rm = test_res" by (simp add: test_rm_def)
  then show ?thesis
    by (simp add: isChaincodeInstalled_def QueryInstalledChaincodes_def test_installed_query msgM_def withMsgO_def)
      (simp add: test_res_def test_protos_def wrapE_def test_install_def)
qed

lemma test_installs:
  "\<exists>txid. InstallChaincode test_res k test_install [PeerProcessor (test_peer u)] no_retry = Some (Inr ([test_response u], txid))"
proof -
  obtain h where h: "NewHeader test_net SystemChannel None None = Inr h" using test_header by blast
  obtain tp where tp: "CreateChaincodeInvokeProposal test_net h (csccRequest ''lscc'' ''install'' [[3]]) = Inr tp"
    using test_proposal [of "csccRequest ''lscc'' ''install'' [[3]]" h] by (auto simp: csccRequest_def)
  have "createInstallInvokeRequest (resProtos test_res) ''cc'' ''p'' ''2'' \<lparr>pkgType = 1, pkgCode = [3]\<rparr> = Inr (csccRequest ''lscc'' ''install'' [[3]])"
    by (simp add: createInstallInvokeRequest_def test_res_def test_protos_def withMsgE_def)
  then show ?thesis
    by (simp add: InstallChaincode_def test_install_def h tp CreateChaincodeInstallProposal_def withMsgO_def resRetry_success test_send)
qed

lemma test_InstallCC:
  "InstallCC test_rm test_install [rm_WithTargets [Some (test_peer ''a'')]] =
     Some (Inr ([\<lparr>icTarget = ''a'', icStatus = 200, icInfo = ''''\<rparr>], None))"
proof -
  have "rmRes test_rm = test_res" by (simp add: test_rm_def)
  moreover obtain txid where "InstallChaincode test_res (Suc 0) test_install [PeerProcessor (test_peer ''a'')] no_retry = Some (Inr ([test_response ''a''], txid))"
    using test_installs by blast
  moreover have "rm_prepareRequestOpts [rm_WithTargets [Some (test_peer ''a'')]] = Inr (emptyOptions\<lparr>oTargets := [test_peer ''a'']\<rparr>)"
    by (simp add: rm_prepareRequestOpts_def rm_WithTargets_def emptyOptions_def)
  ultimately show ?thesis
    by (simp add: InstallCC_def checkRequiredInstallCCParams_def resolveDefaultTargets_def rm_calculateTargets_def filterTargets_def
        withMsgE_def emptyOptions_def test_notInstalled sendInstallCCRequest_def msgM_def withMsgO_def multi_ToError_def)
      (simp add: test_install_def test_response_def)
qed


definition test_deploy :: InstantiateCCRequest where
  "test_deploy = \<lparr>iccName = ''cc'', iccPath = ''p'', iccVersion = ''2'', iccLang = 1, iccArgs = [], iccPolicy = Some [1], iccCollConfig = None\<rparr>"

lemma test_rm_fields:
  "rmRes test_rm = test_res" "channelService test_rm ch = None" "channelTransactor test_rm ch = Inr \<lparr>tChannelID = ch, tOrderers = [''o2'']\<rparr>"
  "channelEvents test_rm ch = None" "registerTxStatus test_rm t = Inr 7" "awaitStatus test_rm r = StatusEvent ''t'' 0" "txVALID test_rm = 0"
  by (simp_all add: test_rm_def)

lemma test_sendCCProposal:
  "\<exists>acts. sendCCProposal test_rm InstantiateChaincode ''ch'' test_deploy (emptyOptions\<lparr>oTargets := [test_peer ''a'']\<rparr>) = (acts, ''t'', Inr ())"
proof -
  have req: "checkRequiredCCProposalParams test_rm ''ch'' test_deploy = Inr test_deploy"
    by (simp add: checkRequiredCCProposalParams_def test_deploy_def test_rm_def)
  have ts: "getCCProposalTargets test_rm 0 ''ch'' (emptyOptions\<lparr>oTargets := [test_peer ''a'']\<rparr>) = Inr [test_peer ''a'']"
    by (simp add: getCCProposalTargets_def test_rm_def rm_calculateTargets_def filterTargets_def emptyOptions_def)
  obtain txid tp where tp: "createTP test_rm test_net test_deploy ''ch'' InstantiateChaincode = (txid, Inr tp)" "TPProposal tp \<noteq> None"
    using test_header [of "''ch''"]
    by (auto simp: createTP_def createChaincodeDeployProposal_def test_rm_def test_deploy_def withMsgE_def withMsgO_def
        CreateChaincodeInvokeProposal_def test_net_def wrapE_def Let_def)
  have send: "SendTransactionProposal test_net 0 \<lparr>tChannelID = ''ch'', tOrderers = [''o2'']\<rparr> (Some tp) [PeerProcessor (test_peer ''a'')] =
      Inr ([test_response ''a''], None)"
    by (simp add: SendTransactionProposal_def test_SendProposal)
  have ver: "verifyTPSignature test_rm test_net ''ch'' [test_response ''a''] = Inr ()"
    by (simp add: verifyTPSignature_def test_rm_def sig_Verify_def test_defs isSuccess_def withMsgO_def)
  have "\<exists>sent. rm_createAndSendTransaction test_net \<lparr>tChannelID = ''ch'', tOrderers = [''o2'']\<rparr> tp [test_response ''a''] = (sent, Inr ())"
    using tp(2) by (auto simp: rm_createAndSendTransaction_def CreateTransaction_def txn_New_def test_defs wrapE_def isSuccess_def
        SendTransaction_def txn_Send_def BroadcastPayload_def signPayload_def withMsgE_def broadcastEnvelope_def randOrderers_def rand_Perm_def
        shuffle_one sendBroadcast_def simp del: shuffle.simps)
  then obtain sent where "rm_createAndSendTransaction test_net \<lparr>tChannelID = ''ch'', tOrderers = [''o2'']\<rparr> tp [test_response ''a''] = (sent, Inr ())" by blast
  then show ?thesis using req ts tp(1) send ver
    by (simp add: sendCCProposal_def Let_def sendTransactionAndCheckEvent_def checkStatus_def test_rm_fields)
qed

theorem deploy_commits_witness:
  "\<exists>reg. awaitStatus test_rm reg = StatusEvent ''t'' (txVALID test_rm)"
proof -
  obtain acts where "sendCCProposal test_rm InstantiateChaincode ''ch'' test_deploy (emptyOptions\<lparr>oTargets := [test_peer ''a'']\<rparr>) = (acts, ''t'', Inr ())"
    using test_sendCCProposal by blast
  from deploy_commits [OF this] show ?thesis by blast
qed

end
