(* ===== verification/Ledger.thy ===== *)
theory Ledger
  imports Resource ChannelClient
begin

text \<open>
  Ledger queries: the ledger of \<^verbatim>\<open>pkg/fab/channel\<close> (\<open>ledger.go\<close>, \<open>qscc.go\<close>, \<open>cscc.go\<close>, \<open>responsevalidator.go\<close>), which asks
  a system chaincode on several peers and keeps the responses that pass a verifier, and the ledger client of
  \<^verbatim>\<open>pkg/client/ledger\<close>, which chooses the peers and lets their answers decide. The interface \<open>ResponseVerifier\<close> is
  a record of two functions; the locale \<open>matching_verifier\<close> states what its \<open>Match\<close> promises to \<open>QueryConfigBlock\<close>. A function
  that returns responses together with an error yields a pair; only a panic ends it without one.
\<close>

section \<open>Verifiers\<close>

record ResponseVerifier =
  Verify :: "TransactionProposalResponse \<Rightarrow> unit outcome"
  Match :: "TransactionProposalResponse list \<Rightarrow> unit outcome"

record ledger_protos =
  unmarshalBlock :: "bytes \<Rightarrow> error + block"
  unmarshalBlockchainInfo :: "bytes \<Rightarrow> error + uint64"
  unmarshalProcessedTransaction :: "bytes \<Rightarrow> error + bytes"
  unmarshalChaincodes :: "bytes \<Rightarrow> error + ChaincodeInfo list"
  unmarshalCollections :: "bytes \<Rightarrow> error + bytes list"

text \<open>All functions \<open>create\<dots>\<close> that unmarshal the payload of a response.\<close>

definition createResponse :: "(bytes \<Rightarrow> error + 'a) \<Rightarrow> TransactionProposalResponse \<Rightarrow> 'a outcome" where
  "createResponse unmarshal tpr =
     (case PRResponse (TPRResponse tpr) of None \<Rightarrow> Inl (Panic ''nil pointer dereference'')
      | Some resp \<Rightarrow> wrapE ''unmarshal of transaction proposal response failed'' (unmarshal (RespPayload resp)))"

definition createCommonBlock :: "ledger_protos \<Rightarrow> TransactionProposalResponse \<Rightarrow> block outcome" where
  "createCommonBlock pb tpr = createResponse (unmarshalBlock pb) tpr"

definition mismatch :: error where
  "mismatch = ErrWithStack (ErrStatus (status_New EndorserClientStatus (ToInt32 EndorsementMismatch) ''payloads for config block do not match'' []))"

fun compareBlocks :: "ledger_protos \<Rightarrow> block \<Rightarrow> TransactionProposalResponse list \<Rightarrow> unit outcome" where
  "compareBlocks pb blk [] = Inr ()"
| "compareBlocks pb blk (tpr # tprs) =
     bindO (createCommonBlock pb tpr) (\<lambda>b.
     if DataData blk \<noteq> DataData b then Inl (Err mismatch) else compareBlocks pb blk tprs)"

text \<open>A block with no transaction has nil data.\<close>

definition tprv_Match :: "ledger_protos \<Rightarrow> int \<Rightarrow> TransactionProposalResponse list \<Rightarrow> unit outcome" where
  "tprv_Match pb minResponses tprs =
     (if minResponses \<le> 0 then Inl (Err (ErrNew ''minimum Responses has to be greater than zero''))
      else if int (length tprs) < minResponses
      then Inl (Err (ErrNew (''required minimum '' @ itoa minResponses @ '' endorsments got '' @ itoa (int (length tprs)))))
      else (case tprs of [] \<Rightarrow> Inl (Panic ''index out of range'')
      | tpr # rest \<Rightarrow>
         bindO (createCommonBlock pb tpr) (\<lambda>blk.
         if DataData blk = [] then Inl (Err (ErrNew ''config block data is nil''))
         else if length (DataData blk) \<noteq> 1 then Inl (Err (ErrNew ''config block must contain one transaction''))
         else compareBlocks pb blk rest)))"

definition TransactionProposalResponseVerifier :: "ledger_protos \<Rightarrow> int \<Rightarrow> ResponseVerifier" where
  "TransactionProposalResponseVerifier pb minResponses = \<lparr>Verify = (\<lambda>_. Inr ()), Match = tprv_Match pb minResponses\<rparr>"

definition SignatureVerifier :: "ext \<Rightarrow> txn_ext \<Rightarrow> ResponseVerifier" where
  "SignatureVerifier ex x = \<lparr>Verify = sig_Verify ex x, Match = (\<lambda>_. Inr ())\<rparr>"

section \<open>Querying a chaincode\<close>

fun filterResponses ::
  "ext \<Rightarrow> ResponseVerifier option \<Rightarrow> TransactionProposalResponse list \<Rightarrow> error option \<Rightarrow> (TransactionProposalResponse list \<times> error option) outcome" where
  "filterResponses ex v [] es = Inr ([], es)"
| "filterResponses ex v (response # rest) es =
     (if TPRStatus response = 200 then
        (case (case v of None \<Rightarrow> Inr () | Some w \<Rightarrow> Verify w response) of
           Inl (Panic p) \<Rightarrow> Inl (Panic p)
         | Inl (Err e) \<Rightarrow>
             filterResponses ex v rest (multi_Append es
               (Some (ErrNew (''failed to verify response from '' @ Endorser response @ '': '' @ ErrorText ex e))))
         | Inr _ \<Rightarrow> bindO (filterResponses ex v rest es) (\<lambda>(kept, es1). Inr (response # kept, es1)))
      else filterResponses ex v rest (multi_Append es
             (Some (ErrNew (''bad status from '' @ Endorser response @ '' ('' @ itoa (sint (TPRStatus response)) @ '')'')))))"

definition returnErr :: "failure \<Rightarrow> ('a list \<times> error option) outcome" where
  "returnErr f = (case f of Err e \<Rightarrow> Inr ([], Some e) | Panic p \<Rightarrow> Inl (Panic p))"

definition queryChaincode ::
  "ext \<Rightarrow> txn_ext \<Rightarrow> string \<Rightarrow> ChaincodeInvokeRequest \<Rightarrow> processor list \<Rightarrow> ResponseVerifier option \<Rightarrow>
     (TransactionProposalResponse list \<times> error option) outcome" where
  "queryChaincode ex x channelID request targets v =
     (if \<not> clientContext x then returnErr (Err (ErrNew ''failed get client context from reqContext for signProposal''))
      else (case withMsgO ''creation of transaction ID failed'' (NewHeader x channelID None None) of Inl f \<Rightarrow> returnErr f
      | Inr txh \<Rightarrow>
     (case withMsgO ''NewProposal failed'' (CreateChaincodeInvokeProposal x txh request) of Inl f \<Rightarrow> returnErr f
      | Inr tp \<Rightarrow>
     (case SendProposal x 0 (Some tp) targets of
        Inl (Panic p) \<Rightarrow> Inl (Panic p)
      | Inl (Err e) \<Rightarrow> filterResponses ex v [] (Some e)
      | Inr (tprs, es) \<Rightarrow> filterResponses ex v tprs es))))"

text \<open>The loop that turns the responses into results and adds an error for each that cannot be read.\<close>

fun decodeAll ::
  "(TransactionProposalResponse \<Rightarrow> 'a outcome) \<Rightarrow> TransactionProposalResponse list \<Rightarrow> error option \<Rightarrow> ('a list \<times> error option) outcome" where
  "decodeAll create [] es = Inr ([], es)"
| "decodeAll create (tpr # tprs) es =
     (case create tpr of
        Inl (Panic p) \<Rightarrow> Inl (Panic p)
      | Inl (Err e) \<Rightarrow> decodeAll create tprs (multi_Append es (Some (ErrWithMessage (''From target: '' @ Endorser tpr) e)))
      | Inr r \<Rightarrow> bindO (decodeAll create tprs es) (\<lambda>(rs, es1). Inr (r # rs, es1)))"

definition ccRequest :: "string \<Rightarrow> string \<Rightarrow> bytes list \<Rightarrow> ChaincodeInvokeRequest" where
  "ccRequest cc fcn args = csccRequest cc fcn args"

definition toBytes :: "string \<Rightarrow> bytes" where
  "toBytes s = map of_char s"

definition createTransactionByIDInvokeRequest :: "string \<Rightarrow> string \<Rightarrow> ChaincodeInvokeRequest" where
  "createTransactionByIDInvokeRequest ch txID = ccRequest ''qscc'' ''GetTransactionByID'' [toBytes ch, toBytes txID]"

definition createChannelInfoInvokeRequest :: "string \<Rightarrow> ChaincodeInvokeRequest" where
  "createChannelInfoInvokeRequest ch = ccRequest ''qscc'' ''GetChainInfo'' [toBytes ch]"

definition createBlockByHashInvokeRequest :: "string \<Rightarrow> bytes \<Rightarrow> ChaincodeInvokeRequest" where
  "createBlockByHashInvokeRequest ch blockHash = ccRequest ''qscc'' ''GetBlockByHash'' [toBytes ch, blockHash]"

definition createBlockByNumberInvokeRequest :: "string \<Rightarrow> uint64 \<Rightarrow> ChaincodeInvokeRequest" where
  "createBlockByNumberInvokeRequest ch blockNumber = ccRequest ''qscc'' ''GetBlockByNumber'' [toBytes ch, toBytes (itoa (uint blockNumber))]"

definition createBlockByTxIDInvokeRequest :: "string \<Rightarrow> string \<Rightarrow> ChaincodeInvokeRequest" where
  "createBlockByTxIDInvokeRequest ch txID = ccRequest ''qscc'' ''GetBlockByTxID'' [toBytes ch, toBytes txID]"

definition createConfigBlockInvokeRequest :: "string \<Rightarrow> ChaincodeInvokeRequest" where
  "createConfigBlockInvokeRequest ch = ccRequest ''cscc'' ''GetConfigBlock'' [toBytes ch]"

definition createChaincodeInvokeRequest :: ChaincodeInvokeRequest where
  "createChaincodeInvokeRequest = ccRequest ''lscc'' ''getchaincodes'' []"

definition createCollectionsConfigInvokeRequest :: "string \<Rightarrow> ChaincodeInvokeRequest" where
  "createCollectionsConfigInvokeRequest name = ccRequest ''lscc'' ''getcollectionsconfig'' [toBytes name]"

record BlockchainInfoResponse =
  biEndorser :: string
  biStatus :: int32
  biHeight :: uint64

type_synonym 'a answers = "('a list \<times> error option) outcome"

definition ledger_QueryInfo :: "ext \<Rightarrow> ledger_protos \<Rightarrow> txn_ext \<Rightarrow> string \<Rightarrow> processor list \<Rightarrow> ResponseVerifier option \<Rightarrow> BlockchainInfoResponse answers" where
  "ledger_QueryInfo ex pb x ch targets v =
     bindO (queryChaincode ex x ch (createChannelInfoInvokeRequest ch) targets v) (\<lambda>(tprs, es).
     decodeAll (\<lambda>tpr. bindO (createResponse (unmarshalBlockchainInfo pb) tpr) (\<lambda>h.
       Inr \<lparr>biEndorser = Endorser tpr, biStatus = TPRStatus tpr, biHeight = h\<rparr>)) tprs es)"

text \<open>The three queries for a block collect the errors of reading apart and append them at the end.\<close>

definition getConfigBlocks :: "ledger_protos \<Rightarrow> TransactionProposalResponse list \<Rightarrow> block answers" where
  "getConfigBlocks pb tprs = decodeAll (createCommonBlock pb) tprs None"

definition queryBlocks :: "ext \<Rightarrow> ledger_protos \<Rightarrow> txn_ext \<Rightarrow> string \<Rightarrow> ChaincodeInvokeRequest \<Rightarrow> processor list \<Rightarrow> ResponseVerifier option \<Rightarrow> block answers" where
  "queryBlocks ex pb x ch request targets v =
     bindO (queryChaincode ex x ch request targets v) (\<lambda>(tprs, es).
     bindO (getConfigBlocks pb tprs) (\<lambda>(responses, errors). Inr (responses, multi_Append es errors)))"

definition ledger_QueryBlockByHash where
  "ledger_QueryBlockByHash ex pb x ch blockHash targets v =
     (if blockHash = [] then returnErr (Err (ErrNew ''blockHash is required''))
      else queryBlocks ex pb x ch (createBlockByHashInvokeRequest ch blockHash) targets v)"

definition ledger_QueryBlockByTxID where
  "ledger_QueryBlockByTxID ex pb x ch txID targets v =
     (if txID = '''' then returnErr (Err (ErrNew ''txID is required''))
      else queryBlocks ex pb x ch (createBlockByTxIDInvokeRequest ch txID) targets v)"

definition ledger_QueryBlock where
  "ledger_QueryBlock ex pb x ch blockNumber targets v =
     queryBlocks ex pb x ch (createBlockByNumberInvokeRequest ch blockNumber) targets v"

definition ledger_QueryTransaction where
  "ledger_QueryTransaction ex pb x ch txID targets v =
     bindO (queryChaincode ex x ch (createTransactionByIDInvokeRequest ch txID) targets v) (\<lambda>(tprs, es).
     decodeAll (createResponse (unmarshalProcessedTransaction pb)) tprs es)"

definition ledger_QueryInstantiatedChaincodes where
  "ledger_QueryInstantiatedChaincodes ex pb x ch targets v =
     bindO (queryChaincode ex x ch createChaincodeInvokeRequest targets v) (\<lambda>(tprs, es).
     decodeAll (createResponse (unmarshalChaincodes pb)) tprs es)"

definition ledger_QueryCollectionsConfig where
  "ledger_QueryCollectionsConfig ex pb x ch name targets v =
     bindO (queryChaincode ex x ch (createCollectionsConfigInvokeRequest name) targets v) (\<lambda>(tprs, es).
     decodeAll (createResponse (unmarshalCollections pb)) tprs es)"

definition ledger_QueryConfigBlock ::
  "ext \<Rightarrow> ledger_protos \<Rightarrow> txn_ext \<Rightarrow> string \<Rightarrow> processor list \<Rightarrow> ResponseVerifier \<Rightarrow> block outcome" where
  "ledger_QueryConfigBlock ex pb x ch targets v =
     (if targets = [] then Inl (Err (ErrNew ''target(s) required''))
      else bindO (queryChaincode ex x ch (createConfigBlockInvokeRequest ch) targets (Some v)) (\<lambda>(tprs, err).
           case (err, tprs) of
             (Some e, []) \<Rightarrow> Inl (Err (ErrWithMessage ''queryChaincode failed'' e))
           | _ \<Rightarrow> bindO (Match v tprs) (\<lambda>_.
                  case tprs of [] \<Rightarrow> Inl (Panic ''index out of range'') | tpr # _ \<Rightarrow> createCommonBlock pb tpr)))"

section \<open>The ledger client\<close>

record lc_options =
  lcTargets :: "peer list option"
  lcTargetFilter :: "(peer \<Rightarrow> bool) option"
  lcMaxTargets :: int
  lcMinTargets :: int

type_synonym lc_option = "lc_options \<Rightarrow> error + lc_options"

text \<open>The client: its channel, filter, verifier and discovery service, the network of the query, and what prints the
  error of \<open>QueryInfo\<close>.\<close>

record ledger_client =
  lcChannel :: string
  lcErr :: ext
  lcProtos :: ledger_protos
  lcNet :: txn_ext
  lcFilter :: "(peer \<Rightarrow> bool) option"
  lcVerifier :: ResponseVerifier
  lcDiscovery :: "error + peer list"
  lcPeers :: peer_cfg
  lcRand :: rand_src
  lcFormat :: "peer list \<Rightarrow> error option \<Rightarrow> string"

text \<open>Naming no target leaves a nil slice.\<close>

definition lc_WithTargets :: "peer option list \<Rightarrow> lc_option" where
  "lc_WithTargets targets o1 =
     (if None \<in> set targets then Inl (ErrNew ''target is nil'')
      else Inr (o1\<lparr>lcTargets := if targets = [] then None else Some (map the targets)\<rparr>))"

definition lc_WithTargetEndpoints :: "ledger_client \<Rightarrow> string list \<Rightarrow> lc_option" where
  "lc_WithTargetEndpoints c keys o1 =
     (case mapE (peerForKey (lcPeers c)) keys of Inl e \<Rightarrow> Inl e | Inr targets \<Rightarrow> lc_WithTargets targets o1)"

definition lc_WithTargetFilter :: "(peer \<Rightarrow> bool) option \<Rightarrow> lc_option" where
  "lc_WithTargetFilter f o1 = Inr (o1\<lparr>lcTargetFilter := f\<rparr>)"

definition lc_WithMaxTargets :: "int \<Rightarrow> lc_option" where
  "lc_WithMaxTargets n o1 = Inr (o1\<lparr>lcMaxTargets := n\<rparr>)"

definition lc_WithMinTargets :: "int \<Rightarrow> lc_option" where
  "lc_WithMinTargets n o1 = Inr (o1\<lparr>lcMinTargets := n\<rparr>)"

definition lc_WithDefaultTargetFilter :: "(peer \<Rightarrow> bool) option \<Rightarrow> ledger_client \<Rightarrow> error + ledger_client" where
  "lc_WithDefaultTargetFilter f c = Inr (c\<lparr>lcFilter := f\<rparr>)"

definition mspFilter :: "string \<Rightarrow> peer \<Rightarrow> bool" where
  "mspFilter mspID p \<longleftrightarrow> MSPID p = mspID"

text \<open>The part of \<open>New\<close> that applies the options to the client made from its context: the default filter of a client
  without one accepts the peers of the user's MSP.\<close>

definition ledger_New :: "string \<Rightarrow> (ledger_client \<Rightarrow> error + ledger_client) list \<Rightarrow> ledger_client \<Rightarrow> error + ledger_client" where
  "ledger_New mspID options c0 =
     (case foldE (\<lambda>opt c. opt c) options c0 of Inl e \<Rightarrow> Inl e
      | Inr c \<Rightarrow>
     (case lcFilter c of
        Some f \<Rightarrow> Inr c
      | None \<Rightarrow> if mspID = '''' then Inl (ErrNew ''mspID not available in user context'')
                else Inr (c\<lparr>lcFilter := Some (mspFilter mspID)\<rparr>)))"

definition lc_prepareRequestOpts :: "lc_option list \<Rightarrow> error + lc_options" where
  "lc_prepareRequestOpts options =
     (case foldE (\<lambda>option o1. option o1) options \<lparr>lcTargets = None, lcTargetFilter = None, lcMaxTargets = 0, lcMinTargets = 0\<rparr> of
        Inl e \<Rightarrow> Inl (ErrWithMessage ''Failed to read request opts'' e)
      | Inr o1 \<Rightarrow>
          let mx = (if lcMaxTargets o1 = 0 then 1 else lcMaxTargets o1);
              mn = (if lcMinTargets o1 = 0 then 1 else lcMinTargets o1)
          in Inr (o1\<lparr>lcMaxTargets := (if mn > mx then mn else mx), lcMinTargets := mn\<rparr>))"

definition lc_filterTargets :: "peer list \<Rightarrow> (peer \<Rightarrow> bool) option \<Rightarrow> peer list" where
  "lc_filterTargets peers f = (case f of None \<Rightarrow> peers | Some accept \<Rightarrow> filter accept peers)"

definition swap :: "nat \<Rightarrow> nat \<Rightarrow> 'a list \<Rightarrow> 'a list" where
  "swap i j a = a[i := a ! j, j := a ! i]"

definition lc_shuffle :: "rand_src \<Rightarrow> 'a list \<Rightarrow> 'a list" where
  "lc_shuffle src a = foldl (\<lambda>a i. swap i (rand_Intn src i (i + 1)) a) a [0..<length a]"

definition lc_calculateTargets :: "ledger_client \<Rightarrow> lc_options \<Rightarrow> peer list outcome" where
  "lc_calculateTargets c o1 =
     (if lcTargets o1 \<noteq> None \<and> \<not> Option.is_none (lcTargetFilter o1)
      then Inl (Err (ErrNew ''If targets are provided, filter cannot be provided''))
      else bindO (case lcTargets o1 of
                    Some ts \<Rightarrow> Inr (lc_filterTargets ts (lcTargetFilter o1))
                  | None \<Rightarrow> bindO (liftErr (lcDiscovery c)) (\<lambda>ps.
                      Inr (lc_filterTargets ps (case lcTargetFilter o1 of None \<Rightarrow> lcFilter c | Some f \<Rightarrow> Some f)))) (\<lambda>targets.
           if targets = [] then
             Inl (Err (ErrWithStack (ErrStatus (status_New ClientStatus (ToInt32 NoPeersFound) ''no targets available'' []))))
           else if int (length targets) < lcMinTargets o1 then
             Inl (Err (ErrNew (''Error getting minimum number of targets. '' @ itoa (int (length targets)) @ '' available, '' @ itoa (lcMinTargets o1) @ '' required'')))
           else let numOfTargets = (if int (length targets) < lcMaxTargets o1 then int (length targets) else lcMaxTargets o1) in
             if numOfTargets < 0 then Inl (Panic ''slice bounds out of range'')
             else Inr (take (nat numOfTargets) (lc_shuffle (lcRand c) targets))))"

definition lc_prepareRequestParams :: "ledger_client \<Rightarrow> lc_option list \<Rightarrow> (peer list \<times> lc_options) outcome" where
  "lc_prepareRequestParams c options =
     bindO (withMsgE ''failed to get opts'' (lc_prepareRequestOpts options)) (\<lambda>o1.
     bindO (withMsgO ''failed to determine target peers'' (lc_calculateTargets c o1)) (\<lambda>targets.
     Inr (targets, o1)))"

text \<open>The answers of a query, unless there are none and an error.\<close>

definition someAnswers :: "string \<Rightarrow> 'a answers \<Rightarrow> ('a list \<times> error option) outcome" where
  "someAnswers name r =
     bindO r (\<lambda>(responses, err).
     case (err, responses) of (Some e, []) \<Rightarrow> Inl (Err (ErrWithMessage (name @ '' failed'') e)) | _ \<Rightarrow> Inr (responses, err))"

fun highest :: "BlockchainInfoResponse \<Rightarrow> BlockchainInfoResponse list \<Rightarrow> BlockchainInfoResponse" where
  "highest response [] = response"
| "highest response (r # rs) = highest (if biHeight r > biHeight response then r else response) rs"

definition lc_QueryInfo :: "ledger_client \<Rightarrow> lc_option list \<Rightarrow> BlockchainInfoResponse outcome" where
  "lc_QueryInfo c options =
     bindO (withMsgO ''QueryInfo failed to prepare request parameters'' (lc_prepareRequestParams c options)) (\<lambda>(targets, o1).
     bindO (someAnswers ''QueryInfo'' (ledger_QueryInfo (lcErr c) (lcProtos c) (lcNet c) (lcChannel c)
              (map PeerProcessor targets) (Some (lcVerifier c)))) (\<lambda>(responses, err).
     if int (length responses) < lcMinTargets o1 then
       Inl (Err (ErrNew (''Number of responses '' @ itoa (int (length responses)) @ '' is less than MinTargets '' @
         itoa (lcMinTargets o1) @ lcFormat c targets err)))
     else (case responses of [] \<Rightarrow> Inl (Panic ''index out of range'') | r # rs \<Rightarrow> Inr (highest r rs))))"

definition matchBlockData :: "block list \<Rightarrow> int \<Rightarrow> block outcome" where
  "matchBlockData responses minTargets =
     (if int (length responses) < minTargets then
        Inl (Err (ErrNew (''Number of responses '' @ itoa (int (length responses)) @ '' is less than MinTargets '' @ itoa minTargets)))
      else (case responses of [] \<Rightarrow> Inl (Panic ''index out of range'')
      | response # rs \<Rightarrow> if list_ex (\<lambda>r. DataData response \<noteq> DataData r) rs then Inl (Err (ErrNew ''Block data does not match''))
                        else Inr response))"

definition lc_queryBlock :: "string \<Rightarrow> (processor list \<Rightarrow> block answers) \<Rightarrow> ledger_client \<Rightarrow> lc_option list \<Rightarrow> block outcome" where
  "lc_queryBlock name query c options =
     bindO (withMsgO (name @ '' failed to prepare request parameters'') (lc_prepareRequestParams c options)) (\<lambda>(targets, o1).
     bindO (someAnswers name (query (map PeerProcessor targets))) (\<lambda>(responses, err).
     matchBlockData responses (lcMinTargets o1)))"

definition lc_QueryBlockByHash :: "ledger_client \<Rightarrow> bytes \<Rightarrow> lc_option list \<Rightarrow> block outcome" where
  "lc_QueryBlockByHash c blockHash options =
     lc_queryBlock ''QueryBlockByHash''
       (\<lambda>ts. ledger_QueryBlockByHash (lcErr c) (lcProtos c) (lcNet c) (lcChannel c) blockHash ts (Some (lcVerifier c))) c options"

definition lc_QueryBlockByTxID :: "ledger_client \<Rightarrow> string \<Rightarrow> lc_option list \<Rightarrow> block outcome" where
  "lc_QueryBlockByTxID c txID options =
     lc_queryBlock ''QueryBlockByTxID''
       (\<lambda>ts. ledger_QueryBlockByTxID (lcErr c) (lcProtos c) (lcNet c) (lcChannel c) txID ts (Some (lcVerifier c))) c options"

definition lc_QueryBlock :: "ledger_client \<Rightarrow> uint64 \<Rightarrow> lc_option list \<Rightarrow> block outcome" where
  "lc_QueryBlock c blockNumber options =
     lc_queryBlock ''QueryBlock''
       (\<lambda>ts. ledger_QueryBlock (lcErr c) (lcProtos c) (lcNet c) (lcChannel c) blockNumber ts (Some (lcVerifier c))) c options"

definition lc_QueryTransaction :: "ledger_client \<Rightarrow> string \<Rightarrow> lc_option list \<Rightarrow> bytes outcome" where
  "lc_QueryTransaction c transactionID options =
     bindO (withMsgO ''QueryTransaction failed to prepare request parameters'' (lc_prepareRequestParams c options)) (\<lambda>(targets, o1).
     bindO (someAnswers ''QueryTransaction'' (ledger_QueryTransaction (lcErr c) (lcProtos c) (lcNet c) (lcChannel c)
              transactionID (map PeerProcessor targets) (Some (lcVerifier c)))) (\<lambda>(responses, err).
     if int (length responses) < lcMinTargets o1 then
       Inl (Err (ErrNew (''QueryTransaction: Number of responses '' @ itoa (int (length responses)) @ '' is less than MinTargets '' @ itoa (lcMinTargets o1))))
     else (case responses of [] \<Rightarrow> Inl (Panic ''index out of range'')
       | response # rs \<Rightarrow> if list_ex (\<lambda>r. response \<noteq> r) rs then Inl (Err (ErrNew ''Payloads for QueryTransaction do not match''))
                         else Inr response)))"

definition lc_QueryConfigBlock :: "ledger_client \<Rightarrow> lc_option list \<Rightarrow> block outcome" where
  "lc_QueryConfigBlock c options =
     bindO (withMsgO ''QueryConfigBlock failed to prepare request parameters'' (lc_prepareRequestParams c options)) (\<lambda>(targets, o1).
     ledger_QueryConfigBlock (lcErr c) (lcProtos c) (lcNet c) (lcChannel c) (map PeerProcessor targets) (lcVerifier c))"

section \<open>What the responses stand for\<close>

text \<open>Answers stand for peers with different URLs: the \<open>i\<close>-th answer is what the \<open>i\<close>-th of them said.\<close>

definition answeredBy :: "txn_ext \<Rightarrow> peer list \<Rightarrow> (TransactionProposalResponse \<Rightarrow> 'a \<Rightarrow> bool) \<Rightarrow> peer list \<Rightarrow> 'a list \<Rightarrow> bool" where
  "answeredBy x targets R qs as \<longleftrightarrow> distinct (map URL qs) \<and> set qs \<subseteq> set targets \<and>
     list_all2 (\<lambda>q a. \<exists>b s r. processProposal x (PeerProcessor q) b s = Inr r \<and> R r a) qs as"

lemma list_all2_subseq:
  assumes "subseq ys' ys" "list_all2 R xs ys"
  shows "\<exists>xs'. subseq xs' xs \<and> list_all2 R xs' ys'"
  using assms
proof (induction ys' ys arbitrary: xs rule: list_emb.induct)
  case (list_emb_Cons ys' ys y)
  from list_emb_Cons.prems obtain x xs1 where xs: "xs = x # xs1" "list_all2 R xs1 ys" by (auto simp: list_all2_Cons2)
  with list_emb_Cons.IH [OF xs(2)] show ?case by (metis list_emb.list_emb_Cons)
next
  case (list_emb_Cons2 y1 y2 ys' ys)
  from list_emb_Cons2.prems obtain x xs1 where xs: "xs = x # xs1" "R x y2" "list_all2 R xs1 ys" by (auto simp: list_all2_Cons2)
  from list_emb_Cons2.IH [OF xs(3)] obtain xs' where "subseq xs' xs1" "list_all2 R xs' ys'" by blast
  with xs list_emb_Cons2.hyps show ?case by (intro exI [of _ "x # xs'"]) auto
qed auto

lemma subseq_distinct_map: "subseq xs ys \<Longrightarrow> distinct (map f ys) \<Longrightarrow> distinct (map f xs)"
  by (induction xs ys rule: list_emb.induct) (auto dest: list_emb_set)

lemma answeredBy_subseq:
  assumes "answeredBy x ts R qs as" "subseq as' as"
  shows "\<exists>qs'. answeredBy x ts R qs' as'"
proof -
  from assms obtain qs' where "subseq qs' qs" "list_all2 (\<lambda>q a. \<exists>b s r. processProposal x (PeerProcessor q) b s = Inr r \<and> R r a) qs' as'"
    using list_all2_subseq unfolding answeredBy_def by blast
  then show ?thesis using assms(1) subseq_distinct_map [of qs' qs URL] by (auto simp: answeredBy_def dest: list_emb_set)
qed

lemma answeredBy_mono:
  assumes "answeredBy x ts (=) qs rs" "list_all2 (\<lambda>r a. Q r a) rs as"
  shows "answeredBy x ts Q qs as"
proof -
  have a: "list_all2 (\<lambda>q r. \<exists>b s. processProposal x (PeerProcessor q) b s = Inr r) qs rs"
    using assms(1) by (simp add: answeredBy_def)
  have "list_all2 (\<lambda>q a. \<exists>b s r. processProposal x (PeerProcessor q) b s = Inr r \<and> Q r a) qs as"
    by (rule list_all2_trans [OF _ a assms(2)]) blast
  then show ?thesis using assms(1) by (simp add: answeredBy_def)
qed

lemma successes_answered:
  "\<exists>qs'. subseq qs' qs \<and> list_all2 (\<lambda>q r. f q = Inr r) qs' [r. Inr r \<leftarrow> map f qs]"
proof (induction qs)
  case (Cons q qs)
  then obtain qs' where "subseq qs' qs" "list_all2 (\<lambda>q r. f q = Inr r) qs' [r. Inr r \<leftarrow> map f qs]" by blast
  then show ?case by (cases "f q") (auto intro: exI [of _ qs'] exI [of _ "q # qs'"])
qed simp

lemma SendProposal_answered:
  assumes "SendProposal x k (Some tp) (map PeerProcessor ps) = Inr (rs, es)"
  shows "\<exists>qs. answeredBy x ps (=) qs rs"
proof -
  have ne: "ps \<noteq> []" using assms by (auto simp: SendProposal_def)
  define asked where "asked = firstURLs [] ps"
  obtain b s where sign: "signProposal x (TPProposal tp) = Inr (b, s)"
    using assms ne by (auto simp: SendProposal_def Let_def bindO_eq_Inr split: if_splits sum.splits failure.splits)
  define order where "order = map (\<lambda>i. asked ! i) (shuffle (finishOrder x) k (length asked))"
  have perm: "mset order = mset asked" unfolding order_def by (rule mset_map_nth_perm [OF mset_shuffle])
  have idx: "i < length asked" if "i \<in> set (shuffle (finishOrder x) k (length asked))" for i
    using mset_eq_setD [OF mset_shuffle [of "finishOrder x" k "length asked"]] that by auto
  define results where
    "results = map (\<lambda>i. processProposal x (map PeerProcessor asked ! i) b s) (shuffle (finishOrder x) k (length asked))"
  have "results = map (\<lambda>q. processProposal x (PeerProcessor q) b s) order"
    unfolding order_def results_def by (auto dest: idx)
  moreover have "rs = [r. Inr r \<leftarrow> results]"
    using assms ne sign by (auto simp: SendProposal_def getTargets_peers Let_def asked_def results_def split: if_splits)
  ultimately have rs: "rs = [r. Inr r \<leftarrow> map (\<lambda>q. processProposal x (PeerProcessor q) b s) order]" by simp
  from successes_answered [of order "\<lambda>q. processProposal x (PeerProcessor q) b s"] obtain qs where
    qs: "subseq qs order" "list_all2 (\<lambda>q r. processProposal x (PeerProcessor q) b s = Inr r) qs rs" unfolding rs by blast
  have asked: "distinct (map URL asked)" "subseq asked ps" using firstURLs_spec [of "[]" ps] by (simp_all add: asked_def)
  have "mset (map URL order) = mset (map URL asked)" using perm by simp
  then have "distinct (map URL order)" using asked(1) mset_eq_imp_distinct_iff by blast
  moreover have "set order \<subseteq> set ps" using asked(2) mset_eq_setD [OF perm] by (auto dest: list_emb_set)
  ultimately have "distinct (map URL order)" "set order \<subseteq> set ps" .
  moreover have "list_all2 (\<lambda>q r. \<exists>b s. processProposal x (PeerProcessor q) b s = Inr r) qs rs"
    by (rule list_all2_mono [OF qs(2)]) blast
  ultimately show ?thesis using qs(1) subseq_distinct_map [of qs order URL]
    by (intro exI [of _ qs]) (auto simp: answeredBy_def dest: list_emb_set)
qed

lemma filterResponses_spec:
  assumes "filterResponses ex v rs es = Inr (kept, es1)"
  shows "subseq kept rs \<and> list_all (\<lambda>r. TPRStatus r = 200 \<and> (\<forall>w. v = Some w \<longrightarrow> Verify w r = Inr ())) kept"
  using assms
proof (induction ex v rs es arbitrary: kept rule: filterResponses.induct)
  case (2 ex v r rest es)
  show ?case
  proof (cases "TPRStatus r = 200 \<and> (case v of None \<Rightarrow> Inr () | Some w \<Rightarrow> Verify w r) = Inr ()")
    case True
    with "2.prems" obtain kept' where "filterResponses ex v rest es = Inr (kept', es1)" "kept = r # kept'"
      by (auto simp: bindO_eq_Inr)
    with True "2.IH"(2) [of "()" kept'] show ?thesis by (auto split: option.splits)
  next
    case False
    with "2.prems" obtain es' where "filterResponses ex v rest es' = Inr (kept, es1)"
      by (auto split: if_splits sum.splits failure.splits)
    moreover have "subseq kept rest \<and> list_all (\<lambda>r. TPRStatus r = 200 \<and> (\<forall>w. v = Some w \<longrightarrow> Verify w r = Inr ())) kept"
      using False "2.prems" "2.IH" by (auto split: if_splits sum.splits failure.splits)
    ultimately show ?thesis by auto
  qed
qed simp

lemma decodeAll_spec:
  "decodeAll create rs es = Inr (as, es1) \<Longrightarrow> \<exists>kept. subseq kept rs \<and> list_all2 (\<lambda>r a. create r = Inr a) kept as"
proof (induction rs arbitrary: es as)
  case (Cons r rs)
  show ?case
  proof (cases "create r" rule: asAttempt.cases)
    case (1 e)
    with Cons.prems obtain es' where "decodeAll create rs es' = Inr (as, es1)" by auto
    from Cons.IH [OF this] show ?thesis by (blast intro: list_emb_Cons)
  next
    case (2 p)
    with Cons.prems show ?thesis by simp
  next
    case (3 a)
    with Cons.prems obtain as' where "decodeAll create rs es = Inr (as', es1)" "as = a # as'" by (auto simp: bindO_eq_Inr)
    moreover from this obtain kept where "subseq kept rs" "list_all2 (\<lambda>r a. create r = Inr a) kept as'" using Cons.IH by blast
    ultimately show ?thesis using 3 by (intro exI [of _ "r # kept"]) auto
  qed
qed simp

definition accepted :: "ResponseVerifier option \<Rightarrow> TransactionProposalResponse \<Rightarrow> bool" where
  "accepted v r \<longleftrightarrow> TPRStatus r = 200 \<and> (\<forall>w. v = Some w \<longrightarrow> Verify w r = Inr ())"

text \<open>The responses of a query come from targets with different URLs, have status 200 and pass the verifier.\<close>

lemma queryChaincode_answered:
  assumes "queryChaincode ex x ch request (map PeerProcessor ps) v = Inr (rs, es)"
  shows "\<exists>qs. answeredBy x ps (\<lambda>r a. r = a \<and> accepted v r) qs rs"
proof (cases "rs = []")
  case True
  then show ?thesis by (intro exI [of _ "[]"]) (simp add: answeredBy_def)
next
  case False
  with assms obtain tp rs0 es0 where "SendProposal x 0 (Some tp) (map PeerProcessor ps) = Inr (rs0, es0)"
    and f: "filterResponses ex v rs0 es0 = Inr (rs, es)"
    by (auto simp: queryChaincode_def returnErr_def split: if_splits sum.splits failure.splits)
  from SendProposal_answered [OF this(1)] filterResponses_spec [OF f] obtain qs where
    "answeredBy x ps (=) qs rs" "list_all (accepted v) rs"
    using answeredBy_subseq unfolding accepted_def by blast
  from answeredBy_mono [OF this(1), of "\<lambda>r a. r = a \<and> accepted v r" rs] this(2) show ?thesis
    by (auto simp: list_all2_same list_all_iff)
qed

text \<open>So do the results that are read from them.\<close>

lemma decoded_answered:
  assumes "queryChaincode ex x ch request (map PeerProcessor ps) v = Inr (rs, es)" "decodeAll create rs es' = Inr (as, es1)"
  shows "\<exists>qs. answeredBy x ps (\<lambda>r a. accepted v r \<and> create r = Inr a) qs as"
proof -
  from decodeAll_spec [OF assms(2)] obtain kept where kept: "subseq kept rs" "list_all2 (\<lambda>r a. create r = Inr a) kept as" by blast
  from queryChaincode_answered [OF assms(1)] kept(1) obtain qs where qs: "answeredBy x ps (\<lambda>r a. r = a \<and> accepted v r) qs kept"
    using answeredBy_subseq by blast
  then have a: "list_all2 (\<lambda>q r. \<exists>b s. processProposal x (PeerProcessor q) b s = Inr r \<and> accepted v r) qs kept"
    by (auto simp: answeredBy_def elim!: list_all2_mono)
  have "list_all2 (\<lambda>q a. \<exists>b s r. processProposal x (PeerProcessor q) b s = Inr r \<and> accepted v r \<and> create r = Inr a) qs as"
    by (rule list_all2_trans [OF _ a kept(2)]) blast
  then show ?thesis using qs by (intro exI [of _ qs]) (simp add: answeredBy_def)
qed

section \<open>Properties\<close>

lemma someAnswers_Inr: "someAnswers name r = Inr (rs, e) \<Longrightarrow> r = Inr (rs, e)"
  by (cases r; cases "snd (projr r)"; cases "fst (projr r)") (auto simp: someAnswers_def)

lemma matchBlockData_Inr:
  "matchBlockData rs n = Inr blk \<Longrightarrow> n \<le> int (length rs) \<and> list_all (\<lambda>b. DataData b = DataData blk) rs \<and> blk \<in> set rs"
  by (auto simp: matchBlockData_def list_ex_iff list_all_iff split: if_splits list.splits)

text \<open>What is known of a block that a block query of the client returned: at least \<open>MinTargets\<close> peers with different URLs
  among the targets have answered with it.\<close>

definition agreedBlock :: "ledger_client \<Rightarrow> lc_option list \<Rightarrow> block \<Rightarrow> bool" where
  "agreedBlock c options blk \<longleftrightarrow> (\<exists>targets o1 qs blocks. lc_prepareRequestParams c options = Inr (targets, o1) \<and>
     answeredBy (lcNet c) targets (\<lambda>r b. accepted (Some (lcVerifier c)) r \<and> createCommonBlock (lcProtos c) r = Inr b) qs blocks \<and>
     lcMinTargets o1 \<le> int (length blocks) \<and> blk \<in> set blocks \<and> (\<forall>b \<in> set blocks. DataData b = DataData blk))"

lemma lc_queryBlock_agreed:
  assumes "lc_queryBlock name (\<lambda>ts. queryBlocks (lcErr c) (lcProtos c) (lcNet c) (lcChannel c) request ts (Some (lcVerifier c))) c options = Inr blk"
  shows "agreedBlock c options blk"
proof -
  from assms obtain targets o1 blocks e where p: "lc_prepareRequestParams c options = Inr (targets, o1)"
    and q: "queryBlocks (lcErr c) (lcProtos c) (lcNet c) (lcChannel c) request (map PeerProcessor targets) (Some (lcVerifier c)) = Inr (blocks, e)"
    and m: "matchBlockData blocks (lcMinTargets o1) = Inr blk"
    by (auto simp: lc_queryBlock_def bindO_eq_Inr dest!: someAnswers_Inr)
  from q obtain rs es es' where "queryChaincode (lcErr c) (lcNet c) (lcChannel c) request (map PeerProcessor targets) (Some (lcVerifier c)) = Inr (rs, es)"
    "decodeAll (createCommonBlock (lcProtos c)) rs None = Inr (blocks, es')"
    by (auto simp: queryBlocks_def getConfigBlocks_def bindO_eq_Inr)
  from decoded_answered [OF this] matchBlockData_Inr [OF m] p show ?thesis
    unfolding agreedBlock_def list_all_iff by blast
qed

text \<open>
  C25. A block that the ledger client returns, asked for by its number, is agreed on: at least \<open>MinTargets\<close> of the chosen
  targets, with different URLs, answered with status 200 and a response that passes the verifier, and all their
  blocks have the data of the one that is returned.
\<close>

theorem QueryBlock_agreed:
  assumes "lc_QueryBlock c blockNumber options = Inr blk"
  shows "\<exists>targets o1 qs blocks. lc_prepareRequestParams c options = Inr (targets, o1) \<and>
    answeredBy (lcNet c) targets (\<lambda>r b. accepted (Some (lcVerifier c)) r \<and> createCommonBlock (lcProtos c) r = Inr b) qs blocks \<and>
    lcMinTargets o1 \<le> int (length blocks) \<and> blk \<in> set blocks \<and> (\<forall>b \<in> set blocks. DataData b = DataData blk)"
  using lc_queryBlock_agreed [OF assms [unfolded lc_QueryBlock_def ledger_QueryBlock_def]] unfolding agreedBlock_def .

text \<open>The queries by hash and by transaction give the same guarantee.\<close>

lemma QueryBlockByHash_agreed: "lc_QueryBlockByHash c h options = Inr blk \<Longrightarrow> agreedBlock c options blk"
proof (cases "h = []")
  case True
  assume "lc_QueryBlockByHash c h options = Inr blk"
  with True show ?thesis
    by (auto simp: lc_QueryBlockByHash_def lc_queryBlock_def ledger_QueryBlockByHash_def returnErr_def someAnswers_def bindO_eq_Inr)
next
  case False
  assume "lc_QueryBlockByHash c h options = Inr blk"
  with False show ?thesis unfolding lc_QueryBlockByHash_def ledger_QueryBlockByHash_def
    by (auto intro: lc_queryBlock_agreed)
qed

lemma QueryBlockByTxID_agreed: "lc_QueryBlockByTxID c t options = Inr blk \<Longrightarrow> agreedBlock c options blk"
proof (cases "t = ''''")
  case True
  assume "lc_QueryBlockByTxID c t options = Inr blk"
  with True show ?thesis
    by (auto simp: lc_QueryBlockByTxID_def lc_queryBlock_def ledger_QueryBlockByTxID_def returnErr_def someAnswers_def bindO_eq_Inr)
next
  case False
  assume "lc_QueryBlockByTxID c t options = Inr blk"
  with False show ?thesis unfolding lc_QueryBlockByTxID_def ledger_QueryBlockByTxID_def
    by (auto intro: lc_queryBlock_agreed)
qed

lemma highest_spec: "highest r rs \<in> set (r # rs) \<and> (\<forall>q \<in> set (r # rs). biHeight q \<le> biHeight (highest r rs))"
proof (induction rs arbitrary: r)
  case (Cons a rs)
  from Cons.IH [of "if biHeight a > biHeight r then a else r"] show ?case by (auto split: if_splits)
qed simp

text \<open>
  The information about the chain that the ledger client returns has the greatest height among the answers of the
  targets, of which there are at least \<open>MinTargets\<close>, from peers with different URLs that passed the verifier.
\<close>

theorem QueryInfo_highest:
  assumes "lc_QueryInfo c options = Inr info"
  shows "\<exists>targets o1 qs infos. lc_prepareRequestParams c options = Inr (targets, o1) \<and>
    answeredBy (lcNet c) targets (\<lambda>r i. accepted (Some (lcVerifier c)) r \<and> biEndorser i = Endorser r \<and>
      createResponse (unmarshalBlockchainInfo (lcProtos c)) r = Inr (biHeight i)) qs infos \<and>
    lcMinTargets o1 \<le> int (length infos) \<and> info \<in> set infos \<and> (\<forall>i \<in> set infos. biHeight i \<le> biHeight info)"
proof -
  let ?create = "\<lambda>tpr. bindO (createResponse (unmarshalBlockchainInfo (lcProtos c)) tpr) (\<lambda>h.
       Inr \<lparr>biEndorser = Endorser tpr, biStatus = TPRStatus tpr, biHeight = h\<rparr>)"
  from assms obtain targets o1 infos e r rest where p: "lc_prepareRequestParams c options = Inr (targets, o1)"
    and q: "ledger_QueryInfo (lcErr c) (lcProtos c) (lcNet c) (lcChannel c) (map PeerProcessor targets) (Some (lcVerifier c)) = Inr (infos, e)"
    and h: "infos = r # rest" "info = highest r rest" "lcMinTargets o1 \<le> int (length infos)"
    by (auto simp: lc_QueryInfo_def bindO_eq_Inr dest!: someAnswers_Inr split: if_splits list.splits)
  from q obtain rs es where "queryChaincode (lcErr c) (lcNet c) (lcChannel c) (createChannelInfoInvokeRequest (lcChannel c))
      (map PeerProcessor targets) (Some (lcVerifier c)) = Inr (rs, es)" "decodeAll ?create rs es = Inr (infos, e)"
    by (auto simp: ledger_QueryInfo_def bindO_eq_Inr)
  from decoded_answered [OF this] obtain qs where qs: "answeredBy (lcNet c) targets (\<lambda>r a. accepted (Some (lcVerifier c)) r \<and> ?create r = Inr a) qs infos"
    by blast
  have "answeredBy (lcNet c) targets (\<lambda>r i. accepted (Some (lcVerifier c)) r \<and> biEndorser i = Endorser r \<and>
      createResponse (unmarshalBlockchainInfo (lcProtos c)) r = Inr (biHeight i)) qs infos"
    using qs unfolding answeredBy_def bindO_eq_Inr by (fastforce elim!: list_all2_mono)
  then show ?thesis using p h highest_spec [of r rest] by blast
qed

lemma swap_mset: "i < length a \<Longrightarrow> j < length a \<Longrightarrow> mset (swap i j a) = mset a"
  by (simp add: swap_def mset_swap)

lemma lc_shuffle_mset: "mset (lc_shuffle src a) = mset a"
proof -
  have "mset (foldl (\<lambda>a i. swap i (rand_Intn src i (i + 1)) a) a is) = mset a" if "\<forall>i \<in> set is. i < length a" for "is" and a :: "'a list"
    using that
  proof (induction "is" arbitrary: a)
    case (Cons i "is")
    have j: "rand_Intn src i (i + 1) \<le> i" using rand_Intn_less [of "i + 1" src i] by simp
    have len: "length (swap i (rand_Intn src i (i + 1)) a) = length a" by (simp add: swap_def)
    have "mset (swap i (rand_Intn src i (i + 1)) a) = mset a" using Cons.prems j by (intro swap_mset) auto
    with Cons.IH [of "swap i (rand_Intn src i (i + 1)) a"] Cons.prems len show ?case by simp
  qed simp
  then show ?thesis unfolding lc_shuffle_def by simp
qed

definition candidates :: "ledger_client \<Rightarrow> lc_options \<Rightarrow> peer list" where
  "candidates c o1 = (case lcTargets o1 of Some ts \<Rightarrow> ts
     | None \<Rightarrow> (case lcDiscovery c of Inl _ \<Rightarrow> []
         | Inr ps \<Rightarrow> lc_filterTargets ps (case lcTargetFilter o1 of None \<Rightarrow> lcFilter c | Some f \<Rightarrow> Some f)))"

lemma prepared_bounds: "lc_prepareRequestOpts options = Inr o1 \<Longrightarrow> lcMinTargets o1 \<noteq> 0 \<and> lcMinTargets o1 \<le> lcMaxTargets o1 \<and> (0 < lcMinTargets o1 \<or> lcMaxTargets o1 \<noteq> 0)"
  by (auto simp: lc_prepareRequestOpts_def Let_def split: sum.splits if_splits)

lemma liftErr_no_panic: "liftErr r \<noteq> Inl (Panic p)"
  by (cases r) (simp_all add: liftErr_def)

lemma calculateTargets_bounds:
  assumes b: "lcMinTargets o1 \<noteq> 0 \<and> lcMinTargets o1 \<le> lcMaxTargets o1 \<and> (0 < lcMinTargets o1 \<or> lcMaxTargets o1 \<noteq> 0)"
  shows "case lc_calculateTargets c o1 of
      Inr targets \<Rightarrow> mset targets \<subseteq># mset (candidates c o1) \<and> targets \<noteq> [] \<and>
         lcMinTargets o1 \<le> int (length targets) \<and> int (length targets) = min (int (length (candidates c o1))) (lcMaxTargets o1)
    | Inl (Panic p) \<Rightarrow> lcMinTargets o1 < 0 \<and> lcMaxTargets o1 < 0
    | Inl (Err e) \<Rightarrow> True"
proof (cases "lc_calculateTargets c o1")
  case (Inl f)
  with b show ?thesis
    by (auto simp: lc_calculateTargets_def Let_def bindO_eq_Inl liftErr_no_panic split: if_splits option.splits failure.splits sum.splits)
next
  case t: (Inr targets)
  let ?cs = "candidates c o1" and ?n = "if int (length (candidates c o1)) < lcMaxTargets o1 then int (length (candidates c o1)) else lcMaxTargets o1"
  from t have cs: "?cs \<noteq> []" "lcMinTargets o1 \<le> int (length ?cs)" "0 \<le> ?n" "targets = take (nat ?n) (lc_shuffle (lcRand c) ?cs)"
    by (auto simp: lc_calculateTargets_def candidates_def Let_def bindO_eq_Inr liftErr_def lc_filterTargets_def Option.is_none_def
        split: if_splits option.splits sum.splits)
  have len: "length (lc_shuffle (lcRand c) ?cs) = length ?cs" by (metis lc_shuffle_mset size_mset)
  have "mset targets \<subseteq># mset (lc_shuffle (lcRand c) ?cs)"
    unfolding cs(4) by (metis append_take_drop_id mset_append mset_subset_eq_add_left)
  moreover have l: "int (length targets) = min (int (length ?cs)) (lcMaxTargets o1)" using cs(3) len by (auto simp: cs(4) min_def split: if_splits)
  moreover have "targets \<noteq> []" using l cs(1,3) b by (cases targets) (auto simp: min_def split: if_splits)
  ultimately show ?thesis using t b cs(2) lc_shuffle_mset [of "lcRand c" ?cs] by (auto simp: min_def)
qed

lemma ledger_targets_facts:
  "case lc_prepareRequestParams c options of
     Inr (targets, o1) \<Rightarrow> lc_prepareRequestOpts options = Inr o1 \<and> mset targets \<subseteq># mset (candidates c o1) \<and> targets \<noteq> [] \<and>
       lcMinTargets o1 \<le> int (length targets) \<and> int (length targets) = min (int (length (candidates c o1))) (lcMaxTargets o1)
   | Inl (Panic p) \<Rightarrow> (\<exists>o1. lc_prepareRequestOpts options = Inr o1 \<and> lcMinTargets o1 < 0 \<and> lcMaxTargets o1 < 0)
   | Inl (Err e) \<Rightarrow> True"
proof (cases "lc_prepareRequestOpts options")
  case (Inl e)
  then show ?thesis by (simp add: lc_prepareRequestParams_def withMsgE_def)
next
  case (Inr o1)
  note calc = calculateTargets_bounds [OF prepared_bounds [OF Inr], of c]
  show ?thesis
  proof (cases "lc_calculateTargets c o1" rule: asAttempt.cases)
    case (1 e)
    then show ?thesis by (simp add: lc_prepareRequestParams_def Inr withMsgE_def withMsgO_def)
  next
    case (2 p)
    then show ?thesis using calc by (simp add: lc_prepareRequestParams_def Inr withMsgE_def withMsgO_def)
  next
    case (3 ts)
    then show ?thesis using calc by (auto simp: lc_prepareRequestParams_def Inr withMsgE_def withMsgO_def)
  qed
qed

text \<open>
  C26. The targets of a ledger query are chosen within the bounds of the request: they are some of the named peers, or of
  the discovered peers that pass the filter, none more often than it occurs there, at least one, at least
  \<open>MinTargets\<close> and at most \<open>MaxTargets\<close> of them, and all of them when they are fewer. Choosing them panics only
  when both bounds are negative.
\<close>

theorem ledger_targets_bounds:
  "case lc_prepareRequestParams c options of
     Inr (targets, o1) \<Rightarrow> lc_prepareRequestOpts options = Inr o1 \<and> mset targets \<subseteq># mset (candidates c o1) \<and> targets \<noteq> [] \<and>
       lcMinTargets o1 \<le> int (length targets) \<and> int (length targets) = min (int (length (candidates c o1))) (lcMaxTargets o1)
   | Inl (Panic p) \<Rightarrow> (\<exists>o1. lc_prepareRequestOpts options = Inr o1 \<and> lcMinTargets o1 < 0 \<and> lcMaxTargets o1 < 0)
   | Inl (Err e) \<Rightarrow> True"
  by (rule ledger_targets_facts)

section \<open>The configuration block\<close>

text \<open>A verifier whose \<open>Match\<close> lets a list of responses pass only if they agree in its own sense.\<close>

locale matching_verifier =
  fixes v :: ResponseVerifier and agree :: "TransactionProposalResponse list \<Rightarrow> bool"
  assumes Match_agree: "Match v rs = Inr () \<Longrightarrow> agree rs"
begin

lemma config_block:
  assumes "ledger_QueryConfigBlock ex pb x ch (map PeerProcessor ps) v = Inr blk"
  shows "\<exists>qs rs. answeredBy x ps (\<lambda>r a. r = a \<and> accepted (Some v) r) qs rs \<and> rs \<noteq> [] \<and> agree rs \<and> createCommonBlock pb (hd rs) = Inr blk"
proof -
  from assms obtain rs es where q: "queryChaincode ex x ch (createConfigBlockInvokeRequest ch) (map PeerProcessor ps) (Some v) = Inr (rs, es)"
    and "Match v rs = Inr ()" "rs \<noteq> []" "createCommonBlock pb (hd rs) = Inr blk"
    by (auto simp: ledger_QueryConfigBlock_def bindO_eq_Inr split: if_splits option.splits list.splits)
  then show ?thesis using queryChaincode_answered [OF q] Match_agree by blast
qed

end

lemma compareBlocks_Inr:
  "compareBlocks pb blk rs = Inr () \<Longrightarrow> \<forall>r \<in> set rs. \<exists>b. createCommonBlock pb r = Inr b \<and> DataData b = DataData blk"
  by (induction rs) (auto simp: bindO_eq_Inr split: if_splits)

definition blocksAgree :: "ledger_protos \<Rightarrow> int \<Rightarrow> TransactionProposalResponse list \<Rightarrow> bool" where
  "blocksAgree pb n rs \<longleftrightarrow> 0 < n \<and> n \<le> int (length rs) \<and>
     (\<exists>tx. \<forall>r \<in> set rs. \<exists>b. createCommonBlock pb r = Inr b \<and> DataData b = [tx])"

lemma tprv_Match_agree: "tprv_Match pb n rs = Inr () \<Longrightarrow> blocksAgree pb n rs"
proof (cases rs)
  case (Cons r rest)
  assume "tprv_Match pb n rs = Inr ()"
  then obtain blk where n: "0 < n" "n \<le> int (length rs)" and blk: "createCommonBlock pb r = Inr blk" "length (DataData blk) = 1"
    and rest: "compareBlocks pb blk rest = Inr ()"
    unfolding Cons by (auto simp: tprv_Match_def bindO_eq_Inr split: if_splits)
  from blk(2) obtain tx where tx: "DataData blk = [tx]" by (auto simp: length_Suc_conv)
  with blk(1) compareBlocks_Inr [OF rest] have "\<forall>q \<in> set rs. \<exists>b. createCommonBlock pb q = Inr b \<and> DataData b = [tx]"
    by (auto simp: Cons)
  with n show ?thesis unfolding blocksAgree_def by blast
qed (auto simp: tprv_Match_def split: if_splits)

interpretation tprv: matching_verifier "TransactionProposalResponseVerifier pb n" "blocksAgree pb n" for pb n
  by unfold_locales (simp add: TransactionProposalResponseVerifier_def tprv_Match_agree)

interpretation sigv: matching_verifier "SignatureVerifier ex x" "\<lambda>_. True" for ex x
  by unfold_locales simp

lemma config_block_agreed:
  assumes "ledger_QueryConfigBlock ex pb x ch (map PeerProcessor ps) (TransactionProposalResponseVerifier pb n) = Inr blk"
  shows "\<exists>qs blocks tx. answeredBy x ps (\<lambda>r b. TPRStatus r = 200 \<and> createCommonBlock pb r = Inr b) qs blocks \<and>
    0 < n \<and> n \<le> int (length blocks) \<and> blk = hd blocks \<and> (\<forall>b \<in> set blocks. DataData b = [tx])"
proof -
  from tprv.config_block [OF assms] obtain qs rs where
    a: "answeredBy x ps (\<lambda>r a. r = a \<and> accepted (Some (TransactionProposalResponseVerifier pb n)) r) qs rs"
    and ne: "rs \<noteq> []" and agree: "blocksAgree pb n rs" and blk: "createCommonBlock pb (hd rs) = Inr blk" by blast
  from agree obtain tx where tx: "\<forall>r \<in> set rs. \<exists>b. createCommonBlock pb r = Inr b \<and> DataData b = [tx]"
    unfolding blocksAgree_def by blast
  let ?bs = "map (\<lambda>r. projr (createCommonBlock pb r)) rs"
  have "list_all2 (\<lambda>q b. \<exists>bs s r. processProposal x (PeerProcessor q) bs s = Inr r \<and> TPRStatus r = 200 \<and> createCommonBlock pb r = Inr b) qs ?bs"
    unfolding list_all2_map2
  proof (rule list.rel_mono_strong)
    show "list_all2 (\<lambda>q r. \<exists>bs s. processProposal x (PeerProcessor q) bs s = Inr r \<and> TPRStatus r = 200) qs rs"
      using a by (auto simp: answeredBy_def accepted_def elim!: list_all2_mono)
  qed (use tx in fastforce)
  with a have "answeredBy x ps (\<lambda>r b. TPRStatus r = 200 \<and> createCommonBlock pb r = Inr b) qs ?bs" by (simp add: answeredBy_def)
  moreover have "blk = hd ?bs" using ne blk by (simp add: hd_map)
  moreover have "\<forall>b \<in> set ?bs. DataData b = [tx]" using tx by fastforce
  ultimately show ?thesis using agree unfolding blocksAgree_def by (intro exI [of _ qs] exI [of _ ?bs] exI [of _ tx]) simp
qed

text \<open>
  A configuration block that the ledger returns under the verifier of \<open>MinResponses\<close> responses is agreed on: at least
  that many targets with different URLs answered with status 200, each with a block that holds this one transaction,
  which is the one of the returned block.
\<close>

theorem QueryConfigBlock_agreed:
  assumes "ledger_QueryConfigBlock ex pb x ch (map PeerProcessor ps) (TransactionProposalResponseVerifier pb n) = Inr blk"
  shows "\<exists>qs blocks tx. answeredBy x ps (\<lambda>r b. TPRStatus r = 200 \<and> createCommonBlock pb r = Inr b) qs blocks \<and>
    0 < n \<and> n \<le> int (length blocks) \<and> blk = hd blocks \<and> (\<forall>b \<in> set blocks. DataData b = [tx])"
  by (rule config_block_agreed [OF assms])

text \<open>The client queries with its signature verifier, whose \<open>Match\<close> accepts every list: no bound of the options reaches
  the query, and a single answer decides.\<close>

lemma signature_config_block:
  assumes "lcVerifier c = SignatureVerifier ex x" "lc_prepareRequestParams c options = Inr (targets, o1)"
    "queryChaincode (lcErr c) (lcNet c) (lcChannel c) (createConfigBlockInvokeRequest (lcChannel c)) (map PeerProcessor targets) (Some (lcVerifier c)) = Inr (r # rs, es)"
  shows "lc_QueryConfigBlock c options = createCommonBlock (lcProtos c) r"
proof -
  have "targets \<noteq> []" using ledger_targets_facts [where c = c and options = options] assms(2) by simp
  then show ?thesis using assms
    by (auto simp: lc_QueryConfigBlock_def withMsgO_def ledger_QueryConfigBlock_def SignatureVerifier_def split: option.split)
qed

section \<open>A small ledger\<close>

text \<open>A client whose discovery names the peers \<open>a\<close> and \<open>b\<close> of the user's MSP.\<close>

definition test_lc :: ledger_client where
  "test_lc = \<lparr>lcChannel = ''ch'', lcErr = pkg_errors,
     lcProtos = \<lparr>unmarshalBlock = (\<lambda>b. Inr test_blk), unmarshalBlockchainInfo = (\<lambda>b. Inr 5), unmarshalProcessedTransaction = Inr,
       unmarshalChaincodes = (\<lambda>b. Inr []), unmarshalCollections = (\<lambda>b. Inr [])\<rparr>,
     lcNet = test_net, lcFilter = Some (\<lambda>p. MSPID p = ''Org1MSP''), lcVerifier = SignatureVerifier pkg_errors test_net,
     lcDiscovery = Inr [test_peer ''a'', test_peer ''b''],
     lcPeers = \<lparr>PeerConfig = (\<lambda>k. None), NetworkPeers = [], CreatePeerFromConfig = (\<lambda>np. Inl (ErrNew ''no peer''))\<rparr>,
     lcRand = (\<lambda>n m. 0), lcFormat = (\<lambda>ts e. '''')\<rparr>"

lemma test_queryChaincode:
  assumes "ReqChaincodeID r \<noteq> ''''" "ReqFcn r \<noteq> ''''" "\<And>w. v = Some w \<Longrightarrow> Verify w (test_response u) = Inr ()"
  shows "queryChaincode pkg_errors test_net ch r [PeerProcessor (test_peer u)] v = Inr ([test_response u], None)"
proof -
  obtain h where h: "NewHeader test_net ch None None = Inr h" using test_header by blast
  obtain tp where tp: "CreateChaincodeInvokeProposal test_net h r = Inr tp" using test_proposal [OF assms(1,2)] by blast
  have "TPRStatus (test_response u) = 200" by (simp add: test_response_def)
  with assms(3) show ?thesis
    by (cases v) (simp_all add: queryChaincode_def h tp withMsgO_def test_SendProposal)
qed

lemma test_verified: "Verify (SignatureVerifier pkg_errors test_net) (test_response u) = Inr ()"
  by (simp add: SignatureVerifier_def sig_Verify_def test_defs isSuccess_def)

lemma test_lc_params: "\<exists>o1. lc_prepareRequestParams test_lc [lc_WithTargets [Some (test_peer ''a'')]] = Inr ([test_peer ''a''], o1) \<and> lcMinTargets o1 = 1"
  by (simp add: lc_prepareRequestParams_def lc_prepareRequestOpts_def lc_WithTargets_def lc_calculateTargets_def lc_filterTargets_def
      lc_shuffle_def swap_def rand_Intn_def withMsgE_def withMsgO_def Let_def)

lemma test_lc_fields:
  "lcErr test_lc = pkg_errors" "lcNet test_lc = test_net" "lcVerifier test_lc = SignatureVerifier pkg_errors test_net"
  "lcChannel test_lc = ''ch''" "unmarshalBlock (lcProtos test_lc) b = Inr test_blk" "unmarshalBlockchainInfo (lcProtos test_lc) b = Inr 5"
  by (simp_all add: test_lc_def)

lemma test_payload: "\<exists>resp. PRResponse (TPRResponse (test_response u)) = Some resp"
  by (simp add: test_response_def)

lemma test_block: "createCommonBlock (lcProtos test_lc) (test_response u) = Inr test_blk"
  using test_payload [of u] by (auto simp: createCommonBlock_def createResponse_def wrapE_def test_lc_fields)

theorem QueryBlock_agreed_witness:
  "lc_QueryBlock test_lc 3 [lc_WithTargets [Some (test_peer ''a'')]] = Inr test_blk \<and>
   (\<exists>qs (blocks :: block list). answeredBy test_net [test_peer ''a''] (\<lambda>r b. TPRStatus r = 200) qs blocks \<and> 1 \<le> length blocks)"
proof -
  obtain o1 where o1: "lc_prepareRequestParams test_lc [lc_WithTargets [Some (test_peer ''a'')]] = Inr ([test_peer ''a''], o1)" "lcMinTargets o1 = 1"
    using test_lc_params by blast
  have "queryChaincode pkg_errors test_net ''ch'' (createBlockByNumberInvokeRequest ''ch'' 3) [PeerProcessor (test_peer ''a'')]
      (Some (SignatureVerifier pkg_errors test_net)) = Inr ([test_response ''a''], None)"
    by (rule test_queryChaincode) (auto simp: createBlockByNumberInvokeRequest_def ccRequest_def csccRequest_def test_verified)
  then have q: "lc_QueryBlock test_lc 3 [lc_WithTargets [Some (test_peer ''a'')]] = Inr test_blk"
    by (simp add: lc_QueryBlock_def lc_queryBlock_def ledger_QueryBlock_def queryBlocks_def o1 withMsgO_def test_lc_fields
        getConfigBlocks_def test_block someAnswers_def matchBlockData_def multi_Append_def multi_New_def)
  from QueryBlock_agreed [OF this] o1 obtain qs blocks where
    "answeredBy test_net [test_peer ''a''] (\<lambda>r b. accepted (Some (SignatureVerifier pkg_errors test_net)) r \<and> createCommonBlock (lcProtos test_lc) r = Inr b) qs blocks"
    "1 \<le> int (length blocks)" by (auto simp: test_lc_fields)
  then have "answeredBy test_net [test_peer ''a''] (\<lambda>r b. TPRStatus r = 200) qs blocks" "1 \<le> length blocks"
    by (auto simp: answeredBy_def accepted_def elim!: list_all2_mono)
  with q show ?thesis by blast
qed

theorem QueryInfo_highest_witness:
  "\<exists>info. lc_QueryInfo test_lc [lc_WithTargets [Some (test_peer ''a'')]] = Inr info \<and>
   (\<exists>qs infos. answeredBy test_net [test_peer ''a''] (\<lambda>r i. biEndorser i = Endorser r) qs infos \<and> info \<in> set infos)"
proof -
  obtain o1 where o1: "lc_prepareRequestParams test_lc [lc_WithTargets [Some (test_peer ''a'')]] = Inr ([test_peer ''a''], o1)" "lcMinTargets o1 = 1"
    using test_lc_params by blast
  have "queryChaincode pkg_errors test_net ''ch'' (createChannelInfoInvokeRequest ''ch'') [PeerProcessor (test_peer ''a'')]
      (Some (SignatureVerifier pkg_errors test_net)) = Inr ([test_response ''a''], None)"
    by (rule test_queryChaincode) (auto simp: createChannelInfoInvokeRequest_def ccRequest_def csccRequest_def test_verified)
  then have q: "lc_QueryInfo test_lc [lc_WithTargets [Some (test_peer ''a'')]] =
      Inr \<lparr>biEndorser = Endorser (test_response ''a''), biStatus = TPRStatus (test_response ''a''), biHeight = 5\<rparr>"
    using test_payload [of "''a''"]
    by (auto simp: lc_QueryInfo_def ledger_QueryInfo_def o1 withMsgO_def test_lc_fields createResponse_def wrapE_def someAnswers_def)
  from QueryInfo_highest [OF q] o1 obtain qs infos where
    "answeredBy test_net [test_peer ''a''] (\<lambda>r i. accepted (Some (SignatureVerifier pkg_errors test_net)) r \<and> biEndorser i = Endorser r \<and>
       createResponse (unmarshalBlockchainInfo (lcProtos test_lc)) r = Inr (biHeight i)) qs infos"
    "\<lparr>biEndorser = Endorser (test_response ''a''), biStatus = TPRStatus (test_response ''a''), biHeight = 5\<rparr> \<in> set infos"
    by (auto simp: test_lc_fields)
  then have "answeredBy test_net [test_peer ''a''] (\<lambda>r i. biEndorser i = Endorser r) qs infos"
    by (auto simp: answeredBy_def elim!: list_all2_mono)
  with q \<open>_ \<in> set infos\<close> show ?thesis by blast
qed

theorem QueryConfigBlock_agreed_witness:
  "\<exists>qs blocks. answeredBy test_net [test_peer ''a''] (\<lambda>r b. TPRStatus r = 200 \<and> createCommonBlock (lcProtos test_lc) r = Inr b) qs blocks \<and>
     test_blk = hd blocks"
proof -
  have "queryChaincode pkg_errors test_net ''ch'' (createConfigBlockInvokeRequest ''ch'') [PeerProcessor (test_peer ''a'')]
      (Some (TransactionProposalResponseVerifier (lcProtos test_lc) 1)) = Inr ([test_response ''a''], None)"
    by (rule test_queryChaincode) (auto simp: createConfigBlockInvokeRequest_def ccRequest_def csccRequest_def TransactionProposalResponseVerifier_def)
  then have "ledger_QueryConfigBlock pkg_errors (lcProtos test_lc) test_net ''ch'' (map PeerProcessor [test_peer ''a''])
      (TransactionProposalResponseVerifier (lcProtos test_lc) 1) = Inr test_blk"
    by (simp add: ledger_QueryConfigBlock_def TransactionProposalResponseVerifier_def tprv_Match_def test_block test_blk_def)
  from QueryConfigBlock_agreed [OF this] show ?thesis by blast
qed

end
