(* ===== verification/ChConfig.thy ===== *)
theory ChConfig
  imports Ledger ConfigUpdate EndpointConfig "HOL-Library.List_Lexorder" "HOL-Library.Char_ord"
begin

text \<open>
  The configuration of a channel, \<^verbatim>\<open>pkg/fab/chconfig/chconfig.go\<close>: the query of the configuration block from peers or
  from an orderer, and the extraction of the MSPs, anchor peers, orderers, capabilities and versions from the
  configuration tree of that block. The tree is a \<open>configGroup\<close> of the theory \<open>ConfigUpdate\<close>, with maps in the order
  in which the code ranges over them. Unmarshalling is a record of parameters; a configuration envelope is what
  \<open>envelopeConfig\<close> says it holds: no configuration, a configuration without a channel group, or a channel group.
\<close>

section \<open>Data\<close>

record OrgAnchorPeer =
  oapOrg :: string
  oapHost :: string
  oapPort :: int32

record MSPConfig =
  mcType :: int32
  mcConfig :: bytes

record ChannelCfg =
  cfgID :: string
  cfgBlockNumber :: uint64
  cfgMSPs :: "MSPConfig list"
  cfgAnchorPeers :: "OrgAnchorPeer list"
  cfgOrderers :: "string list"
  cfgVersions :: configGroup
  cfgCapabilities :: "string \<Rightarrow> string list option"

record cfg_protos =
  envelopeConfig :: "bytes \<Rightarrow> configGroup option option"
  unmarshalAnchorPeers :: "bytes \<Rightarrow> error + (string \<times> int32) list"
  unmarshalMSPConfig :: "bytes \<Rightarrow> error + MSPConfig"
  unmarshalOrdererAddresses :: "bytes \<Rightarrow> error + string list"
  unmarshalCapabilities :: "bytes \<Rightarrow> error + string list"

definition FABRIC :: int32 where "FABRIC = 0"

section \<open>Loading the configuration tree\<close>

definition loadAnchorPeers :: "cfg_protos \<Rightarrow> bytes \<Rightarrow> string \<Rightarrow> ChannelCfg \<Rightarrow> error + ChannelCfg" where
  "loadAnchorPeers pb val org cfg =
     (case unmarshalAnchorPeers pb val of
        Inl e \<Rightarrow> Inl (Wrap ''unmarshal anchor peers from config failed'' e)
      | Inr anchorPeers \<Rightarrow>
          Inr (cfg\<lparr>cfgAnchorPeers := cfgAnchorPeers cfg @ map (\<lambda>(host, port). \<lparr>oapOrg = org, oapHost = host, oapPort = port\<rparr>) anchorPeers\<rparr>))"

definition loadMSPKey :: "cfg_protos \<Rightarrow> bytes \<Rightarrow> ChannelCfg \<Rightarrow> error + ChannelCfg" where
  "loadMSPKey pb val cfg =
     (case unmarshalMSPConfig pb val of
        Inl e \<Rightarrow> Inl (Wrap ''unmarshal MSPConfig from config failed'' e)
      | Inr mspConfig \<Rightarrow>
          if mcType mspConfig \<noteq> FABRIC then Inl (ErrNew (''unsupported MSP type ('' @ itoa (sint (mcType mspConfig)) @ '')''))
          else Inr (cfg\<lparr>cfgMSPs := cfgMSPs cfg @ [mspConfig]\<rparr>))"

definition loadOrdererAddressesKey :: "cfg_protos \<Rightarrow> bytes \<Rightarrow> ChannelCfg \<Rightarrow> error + ChannelCfg" where
  "loadOrdererAddressesKey pb val cfg =
     (case unmarshalOrdererAddresses pb val of
        Inl e \<Rightarrow> Inl (Wrap ''unmarshal orderer addresses from config failed'' e)
      | Inr addresses \<Rightarrow> Inr (cfg\<lparr>cfgOrderers := cfgOrderers cfg @ addresses\<rparr>))"

definition loadCapabilities :: "cfg_protos \<Rightarrow> bytes \<Rightarrow> string \<Rightarrow> ChannelCfg \<Rightarrow> error + ChannelCfg" where
  "loadCapabilities pb val groupName cfg =
     (case unmarshalCapabilities pb val of
        Inl e \<Rightarrow> Inl (Wrap ''unmarshal capabilities from config failed'' e)
      | Inr capabilities \<Rightarrow> Inr (cfg\<lparr>cfgCapabilities := (cfgCapabilities cfg)(groupName \<mapsto> capabilities)\<rparr>))"

text \<open>What a value adds to the configuration, and its copy among the versions.\<close>

definition loadConfigItem :: "cfg_protos \<Rightarrow> string \<Rightarrow> bytes \<Rightarrow> string \<Rightarrow> string \<Rightarrow> ChannelCfg \<Rightarrow> error + ChannelCfg" where
  "loadConfigItem pb key val groupName org cfg =
     (if key = ''AnchorPeers'' then loadAnchorPeers pb val org cfg
      else if key = ''MSP'' then loadMSPKey pb val cfg
      else if key = ''Capabilities'' then loadCapabilities pb val groupName cfg
      else if key = ''OrdererAddresses'' then loadOrdererAddressesKey pb val cfg
      else Inr cfg)"

definition loadConfigValue ::
  "cfg_protos \<Rightarrow> string \<Rightarrow> configValue \<Rightarrow> string \<Rightarrow> string \<Rightarrow> ChannelCfg \<Rightarrow> error + configValue \<times> ChannelCfg" where
  "loadConfigValue pb key configValue groupName org cfg =
     (case loadConfigItem pb key (iContent configValue) groupName org cfg of
        Inl e \<Rightarrow> Inl e
      | Inr cfg1 \<Rightarrow> Inr (\<lparr>iVersion = iVersion configValue, iModPolicy = '''', iContent = iContent configValue\<rparr>, cfg1))"

fun loadValues ::
  "cfg_protos \<Rightarrow> string \<Rightarrow> string \<Rightarrow> (string \<times> configValue) list \<Rightarrow> ChannelCfg \<Rightarrow> error + (string \<times> configValue) list \<times> ChannelCfg" where
  "loadValues pb name org [] cfg = Inr ([], cfg)"
| "loadValues pb name org ((key, v) # vs) cfg =
     (case loadConfigValue pb key v name org cfg of Inl e \<Rightarrow> Inl e
      | Inr (v1, cfg1) \<Rightarrow>
     (case loadValues pb name org vs cfg1 of Inl e \<Rightarrow> Inl e
      | Inr (vs1, cfg2) \<Rightarrow> Inr ((key, v1) # vs1, cfg2)))"

definition loadConfigGroupPolicies :: "(string \<times> configPolicy) list \<Rightarrow> (string \<times> configPolicy) list" where
  "loadConfigGroupPolicies policies =
     map (\<lambda>(key, p). (key, \<lparr>iVersion = iVersion p, iModPolicy = iModPolicy p, iContent = iContent p\<rparr>)) policies"

text \<open>The sub-groups of a group are loaded before its values; the name of a group is also the organization of its
  values.\<close>

function loadConfig :: "cfg_protos \<Rightarrow> configGroup \<Rightarrow> string \<Rightarrow> string \<Rightarrow> ChannelCfg \<Rightarrow> error + configGroup \<times> ChannelCfg"
  and loadConfigGroups :: "cfg_protos \<Rightarrow> (string \<times> configGroup) list \<Rightarrow> ChannelCfg \<Rightarrow> error + (string \<times> configGroup) list \<times> ChannelCfg" where
  "loadConfig pb (ConfigGroup version modPolicy values policies groups) name org cfg =
     (case loadConfigGroups pb groups cfg of Inl e \<Rightarrow> Inl e
      | Inr (groups1, cfg1) \<Rightarrow>
     (case loadValues pb name org values cfg1 of Inl e \<Rightarrow> Inl e
      | Inr (values1, cfg2) \<Rightarrow> Inr (ConfigGroup version modPolicy values1 (loadConfigGroupPolicies policies) groups1, cfg2)))"
| "loadConfigGroups pb [] cfg = Inr ([], cfg)"
| "loadConfigGroups pb ((key, g) # gs) cfg =
     (case loadConfig pb g key key cfg of Inl e \<Rightarrow> Inl e
      | Inr (g1, cfg1) \<Rightarrow>
     (case loadConfigGroups pb gs cfg1 of Inl e \<Rightarrow> Inl e
      | Inr (gs1, cfg2) \<Rightarrow> Inr ((key, g1) # gs1, cfg2)))"
  by pat_completeness auto
termination
  by (relation "measure (case_sum (\<lambda>(pb, g, name, org, cfg). size g) (\<lambda>(pb, gs, cfg). size_list (size_prod (\<lambda>_. 0) size) gs))") auto

definition extractConfig :: "cfg_protos \<Rightarrow> res_protos \<Rightarrow> string \<Rightarrow> block \<Rightarrow> ChannelCfg outcome" where
  "extractConfig pb rp channelID blk =
     (case DataData blk of [] \<Rightarrow> Inl (Panic ''index out of range'')
      | tx # _ \<Rightarrow>
         bindO (CreateConfigEnvelope rp tx) (\<lambda>configEnvelope.
         case envelopeConfig pb configEnvelope of None \<Rightarrow> Inl (Panic ''nil pointer dereference'')
         | Some grp \<Rightarrow>
            let config = \<lparr>cfgID = channelID, cfgBlockNumber = HeaderNumber blk, cfgMSPs = [], cfgAnchorPeers = [], cfgOrderers = [],
                          cfgVersions = NewConfigGroup, cfgCapabilities = Map.empty\<rparr> in
            (case grp of None \<Rightarrow> Inr config
             | Some g \<Rightarrow>
                 (case loadConfig pb g '''' '''' config of
                    Inl e \<Rightarrow> Inl (Err (ErrWithMessage ''load config items from config group failed'' e))
                  | Inr (versions, cfg) \<Rightarrow> Inr (cfg\<lparr>cfgVersions := versions\<rparr>)))))"

section \<open>Capabilities\<close>

definition isDigit :: "char \<Rightarrow> bool" where
  "isDigit c \<longleftrightarrow> 48 \<le> (of_char c :: nat) \<and> of_char c \<le> (57 :: nat)"

text \<open>The pattern \<^verbatim>\<open>^V(\d+(_\d+?)*)$\<close>: the letter V and numbers separated by underscores.\<close>

fun numbers :: "bool \<Rightarrow> string \<Rightarrow> bool" where
  "numbers seen [] = seen"
| "numbers seen (c # cs) = (if isDigit c then numbers True cs else c = CHR ''_'' \<and> seen \<and> numbers False cs)"

definition isVersionCapability :: "string \<Rightarrow> bool" where
  "isVersionCapability capability \<longleftrightarrow> (case capability of [] \<Rightarrow> False | c # cs \<Rightarrow> c = CHR ''V'' \<and> numbers False cs)"

definition HasCapability :: "ChannelCfg \<Rightarrow> string \<Rightarrow> string \<Rightarrow> bool" where
  "HasCapability cfg grp capability =
     (case cfgCapabilities cfg grp of None \<Rightarrow> False
      | Some capabilities \<Rightarrow>
          capability \<in> set capabilities \<or>
          isVersionCapability capability \<and> list_ex (\<lambda>c. isVersionCapability c \<and> capability < c) capabilities)"

section \<open>Querying the configuration block\<close>

record chc_opts =
  ccOrderer :: "orderer option"
  ccTargets :: "peer list option"
  ccMinResponses :: int
  ccMaxTargets :: int
  ccRetryOpts :: Opts

type_synonym chc_option = "chc_opts \<Rightarrow> error + chc_opts"

text \<open>The environment of a query: the network with the retry parameters, the messages, the policy of the channel in the
  endpoint configuration, the peers configured for the channel with the constructor of a peer, and the MSP of the
  client. The constructor may return neither a peer nor an error.\<close>

record 'p chc_ext =
  ccRes :: res_ext
  ccLedger :: ledger_protos
  ccProtos :: cfg_protos
  ccPolicy :: "string \<Rightarrow> QueryChannelConfigPolicy"
  ccChannelPeers :: "string \<Rightarrow> 'p list"
  ccNewPeer :: "'p \<Rightarrow> error + peer option"
  ccMSPID :: string
  ccRand :: rand_src

definition cc_WithPeers :: "peer list option \<Rightarrow> chc_option" where
  "cc_WithPeers peers o1 = Inr (o1\<lparr>ccTargets := peers\<rparr>)"

definition cc_WithMinResponses :: "int \<Rightarrow> chc_option" where
  "cc_WithMinResponses n o1 = Inr (o1\<lparr>ccMinResponses := n\<rparr>)"

definition cc_WithOrderer :: "orderer option \<Rightarrow> chc_option" where
  "cc_WithOrderer ord o1 = Inr (o1\<lparr>ccOrderer := ord\<rparr>)"

definition cc_WithMaxTargets :: "int \<Rightarrow> chc_option" where
  "cc_WithMaxTargets n o1 = Inr (o1\<lparr>ccMaxTargets := n\<rparr>)"

definition cc_WithRetryOpts :: "Opts \<Rightarrow> chc_option" where
  "cc_WithRetryOpts ro o1 = Inr (o1\<lparr>ccRetryOpts := ro\<rparr>)"

definition cc_prepareOpts :: "chc_option list \<Rightarrow> error + chc_opts" where
  "cc_prepareOpts options =
     (case foldE (\<lambda>option o1. option o1) options
        \<lparr>ccOrderer = None, ccTargets = None, ccMinResponses = 0, ccMaxTargets = 0, ccRetryOpts = no_retry\<rparr> of
        Inl e \<Rightarrow> Inl (ErrWithMessage ''Failed to read query config opts'' e)
      | Inr o1 \<Rightarrow> Inr o1)"

definition resolveRetryOptsFromConfig :: "QueryChannelConfigPolicy \<Rightarrow> Opts \<Rightarrow> Opts" where
  "resolveRetryOptsFromConfig policy ro =
     (if RetryableCodes ro = [] then (qRetryOpts policy)\<lparr>RetryableCodes := ChannelConfigRetryableCodes\<rparr> else ro)"

definition cc_applyDefaultOpts :: "Opts \<Rightarrow> Opts" where
  "cc_applyDefaultOpts ro =
     \<lparr>Attempts = (if Attempts ro = 0 then 3 else Attempts ro),
      InitialBackoff = (if InitialBackoff ro = 0 then 500 * millisecond else InitialBackoff ro),
      MaxBackoff = (if MaxBackoff ro = 0 then 60 * second else MaxBackoff ro),
      BackoffFactor = (if BackoffFactor ro = 0 then 2 else BackoffFactor ro),
      RetryableCodes = (if RetryableCodes ro = [] then ChannelConfigRetryableCodes else RetryableCodes ro)\<rparr>"

definition resolveOptsFromConfig :: "QueryChannelConfigPolicy \<Rightarrow> chc_opts \<Rightarrow> chc_opts" where
  "resolveOptsFromConfig policy o1 =
     (if ccMaxTargets o1 \<noteq> 0 \<and> ccMinResponses o1 \<noteq> 0 \<and> RetryableCodes (ccRetryOpts o1) \<noteq> [] then o1
      else o1\<lparr>ccMaxTargets := (if ccMaxTargets o1 = 0 then qMaxTargets policy else ccMaxTargets o1),
              ccMinResponses := (if ccMinResponses o1 = 0 then qMinResponses policy else ccMinResponses o1),
              ccRetryOpts := cc_applyDefaultOpts (resolveRetryOptsFromConfig policy (ccRetryOpts o1))\<rparr>)"

text \<open>The loop over the configured peers. \<open>errors.WithMessage\<close> of a nil error is nil: when the constructor returns
  neither a peer nor an error the caller gets no targets and no error.\<close>

fun sameMSPPeers :: "('p \<Rightarrow> error + peer option) \<Rightarrow> string \<Rightarrow> 'p list \<Rightarrow> error + peer list option" where
  "sameMSPPeers new mspID [] = Inr (Some [])"
| "sameMSPPeers new mspID (p # ps) =
     (case new p of Inl e \<Rightarrow> Inl (ErrWithMessage ''NewPeer failed'' e)
      | Inr None \<Rightarrow> Inr None
      | Inr (Some newPeer) \<Rightarrow>
         (case sameMSPPeers new mspID ps of Inl e \<Rightarrow> Inl e
          | Inr r \<Rightarrow> Inr (map_option (\<lambda>ts. if MSPID newPeer = mspID then newPeer # ts else ts) r)))"

definition randomMaxTargets :: "rand_src \<Rightarrow> 'a list \<Rightarrow> int \<Rightarrow> 'a list outcome" where
  "randomMaxTargets src targets mx =
     (if int (length targets) \<le> mx then Inr targets
      else if mx < 0 then Inl (Panic ''slice bounds out of range'')
      else Inr (take (nat mx) (lc_shuffle src targets)))"

definition calculateTargetsFromConfig :: "'p chc_ext \<Rightarrow> string \<Rightarrow> int \<Rightarrow> peer list outcome" where
  "calculateTargetsFromConfig c channelID mx =
     (if ccChannelPeers c channelID = [] then Inl (Err (ErrNew (''no channel peers configured for channel ['' @ channelID @ '']'')))
      else bindO (liftErr (sameMSPPeers (ccNewPeer c) (ccMSPID c) (ccChannelPeers c channelID))) (\<lambda>r.
           case r of None \<Rightarrow> Inr [] | Some targets \<Rightarrow> randomMaxTargets (ccRand c) targets mx))"

text \<open>The query resolves the options once and for all: the new ones are returned with the result.\<close>

definition queryBlockFromPeers :: "'p chc_ext \<Rightarrow> nat \<Rightarrow> string \<Rightarrow> chc_opts \<Rightarrow> chc_opts \<times> block rm" where
  "queryBlockFromPeers c k channelID o1 =
     (if \<not> clientContext (resNet (ccRes c) k 0) then (o1, errM ''failed get client context from reqContext for signPayload'')
      else let o2 = resolveOptsFromConfig (ccPolicy c channelID) o1 in
       (o2, bindM (Some (case ccTargets o2 of None \<Rightarrow> calculateTargetsFromConfig c channelID (ccMaxTargets o2) | Some ts \<Rightarrow> Inr ts)) (\<lambda>targets.
            msgM ''QueryBlockConfig failed'' (resRetry (ccRes c) (ccRetryOpts o2) (\<lambda>n.
              ledger_QueryConfigBlock (resErr (ccRes c)) (ccLedger c) (resNet (ccRes c) k n) channelID (map PeerProcessor targets)
                (TransactionProposalResponseVerifier (ccLedger c) (ccMinResponses o2)))))))"

definition queryBlockFromOrderer :: "'p chc_ext \<Rightarrow> nat \<Rightarrow> string \<Rightarrow> orderer \<Rightarrow> chc_opts \<Rightarrow> block rm" where
  "queryBlockFromOrderer c k channelID ord o1 = LastConfigFromOrderer (ccRes c) k channelID ord (ccRetryOpts o1)"

definition cc_QueryBlock :: "'p chc_ext \<Rightarrow> nat \<Rightarrow> string \<Rightarrow> chc_opts \<Rightarrow> chc_opts \<times> block rm" where
  "cc_QueryBlock c k channelID o1 =
     (case ccOrderer o1 of
        Some ord \<Rightarrow> (o1, queryBlockFromOrderer c k channelID ord o1)
      | None \<Rightarrow> queryBlockFromPeers c k channelID o1)"

definition queryPeers :: "'p chc_ext \<Rightarrow> nat \<Rightarrow> string \<Rightarrow> chc_opts \<Rightarrow> chc_opts \<times> ChannelCfg rm" where
  "queryPeers c k channelID o1 =
     (let (o2, r) = queryBlockFromPeers c k channelID o1 in
      (o2, bindM (msgM ''QueryBlockConfig failed'' r) (\<lambda>blk. Some (extractConfig (ccProtos c) (resProtos (ccRes c)) channelID blk))))"

definition queryOrderer :: "'p chc_ext \<Rightarrow> nat \<Rightarrow> string \<Rightarrow> orderer \<Rightarrow> chc_opts \<Rightarrow> ChannelCfg rm" where
  "queryOrderer c k channelID ord o1 =
     bindM (msgM ''LastConfigFromOrderer failed'' (queryBlockFromOrderer c k channelID ord o1)) (\<lambda>blk.
     Some (extractConfig (ccProtos c) (resProtos (ccRes c)) channelID blk))"

definition cc_Query :: "'p chc_ext \<Rightarrow> nat \<Rightarrow> string \<Rightarrow> chc_opts \<Rightarrow> chc_opts \<times> ChannelCfg rm" where
  "cc_Query c k channelID o1 =
     (case ccOrderer o1 of
        Some ord \<Rightarrow> (o1, queryOrderer c k channelID ord o1)
      | None \<Rightarrow> queryPeers c k channelID o1)"

text \<open>The initializer of the lazy reference to a channel configuration (\<open>reference.go\<close>): the result, and the errors
  handed to the error handler. \<open>provider\<close> is what the provider makes of the channel.\<close>

definition cfgRef_getConfig :: "'p chc_ext \<Rightarrow> nat \<Rightarrow> string \<Rightarrow> error + chc_opts \<Rightarrow> ChannelCfg rm" where
  "cfgRef_getConfig c k channelID provider =
     bindM (Some (withMsgE ''error creating channel config provider'' provider)) (\<lambda>o1. snd (cc_Query c k channelID o1))"

definition cfgRef_initializer :: "'p chc_ext \<Rightarrow> nat \<Rightarrow> string \<Rightarrow> error + chc_opts \<Rightarrow> bool \<Rightarrow> ChannelCfg rm \<times> error list" where
  "cfgRef_initializer c k channelID provider hasHandler =
     (let r = cfgRef_getConfig c k channelID provider in
      (r, case r of Some (Inl (Err e)) \<Rightarrow> if hasHandler then [e] else [] | _ \<Rightarrow> []))"

text \<open>\<open>QueryConfig\<close> of the ledger client.\<close>

definition lc_QueryConfig :: "'p chc_ext \<Rightarrow> ledger_client \<Rightarrow> nat \<Rightarrow> lc_option list \<Rightarrow> ChannelCfg rm" where
  "lc_QueryConfig x c k options =
     bindM (Some (withMsgO ''QueryConfig failed to prepare request parameters'' (lc_prepareRequestParams c options))) (\<lambda>(targets, o1).
     bindM (Some (withMsgE ''QueryConfig failed'' (cc_prepareOpts [cc_WithPeers (Some targets), cc_WithMinResponses (lcMinTargets o1)]))) (\<lambda>o2.
     snd (cc_Query x k (lcChannel c) o2)))"

section \<open>The values of a configuration tree\<close>

text \<open>The values of a tree in the order in which they are loaded, each with the name of its group.\<close>

fun treeValues :: "string \<Rightarrow> configGroup \<Rightarrow> (string \<times> string \<times> bytes) list" where
  "treeValues name (ConfigGroup version modPolicy values policies groups) =
     concat (map (\<lambda>(key, g). treeValues key g) groups) @ map (\<lambda>(key, v). (name, key, iContent v)) values"

text \<open>The versions of a tree: the tree without the modification policies of its values.\<close>

fun versionsOf :: "configGroup \<Rightarrow> configGroup" where
  "versionsOf (ConfigGroup version modPolicy values policies groups) =
     ConfigGroup version modPolicy (map (\<lambda>(key, v). (key, v\<lparr>iModPolicy := ''''\<rparr>)) values) policies
       (map (\<lambda>(key, g). (key, versionsOf g)) groups)"

definition loadItem :: "cfg_protos \<Rightarrow> string \<times> string \<times> bytes \<Rightarrow> ChannelCfg \<Rightarrow> error + ChannelCfg" where
  "loadItem pb = (\<lambda>(name, key, val). loadConfigItem pb key val name name)"

lemma loadConfigGroupPolicies_id: "loadConfigGroupPolicies ps = ps"
  by (induction ps) (auto simp: loadConfigGroupPolicies_def)

lemma loadValues_fold:
  "loadValues pb name name vs cfg =
     (case foldE (loadItem pb) (map (\<lambda>(key, v). (name, key, iContent v)) vs) cfg of Inl e \<Rightarrow> Inl e
      | Inr cfg1 \<Rightarrow> Inr (map (\<lambda>(key, v). (key, v\<lparr>iModPolicy := ''''\<rparr>)) vs, cfg1))"
proof (induction vs arbitrary: cfg)
  case (Cons kv vs)
  obtain key v where kv: "kv = (key, v)" by (cases kv)
  show ?case
  proof (cases "loadConfigItem pb key (iContent v) name name cfg")
    case (Inr cfg1)
    then show ?thesis using Cons.IH [of cfg1] by (simp add: kv loadConfigValue_def loadItem_def split: sum.splits)
  qed (simp add: kv loadConfigValue_def loadItem_def)
qed simp

lemma loadConfig_fold:
  "loadConfig pb g name name cfg =
     (case foldE (loadItem pb) (treeValues name g) cfg of Inl e \<Rightarrow> Inl e | Inr cfg1 \<Rightarrow> Inr (versionsOf g, cfg1))"
  "loadConfigGroups pb gs cfg =
     (case foldE (loadItem pb) (concat (map (\<lambda>(key, g). treeValues key g) gs)) cfg of Inl e \<Rightarrow> Inl e
      | Inr cfg1 \<Rightarrow> Inr (map (\<lambda>(key, g). (key, versionsOf g)) gs, cfg1))"
proof (induction pb g name org\<equiv>name cfg and pb gs cfg rule: loadConfig_loadConfigGroups.induct)
  case (1 pb version modPolicy vals policies groups name cfg)
  then show ?case
    by (auto simp: foldE_append loadValues_fold loadConfigGroupPolicies_id split: sum.splits)
next
  case (3 pb key g gs cfg)
  then show ?case by (auto simp: foldE_append split: sum.splits)
qed simp_all

text \<open>What a single value contributes.\<close>

definition valuesFor :: "string \<Rightarrow> (bytes \<Rightarrow> error + 'a) \<Rightarrow> (string \<times> string \<times> bytes) list \<Rightarrow> (string \<times> 'a) list" where
  "valuesFor key unmarshal items = List.map_filter (\<lambda>(name, k, val). if k = key then map_option (Pair name) (case unmarshal val of Inl _ \<Rightarrow> None | Inr a \<Rightarrow> Some a) else None) items"

definition loadable :: "cfg_protos \<Rightarrow> string \<times> string \<times> bytes \<Rightarrow> bool" where
  "loadable pb = (\<lambda>(name, key, val).
     (key = ''AnchorPeers'' \<longrightarrow> \<not> isl (unmarshalAnchorPeers pb val)) \<and>
     (key = ''MSP'' \<longrightarrow> (\<exists>m. unmarshalMSPConfig pb val = Inr m \<and> mcType m = FABRIC)) \<and>
     (key = ''Capabilities'' \<longrightarrow> \<not> isl (unmarshalCapabilities pb val)) \<and>
     (key = ''OrdererAddresses'' \<longrightarrow> \<not> isl (unmarshalOrdererAddresses pb val)))"

definition mspsOf :: "cfg_protos \<Rightarrow> (string \<times> string \<times> bytes) list \<Rightarrow> MSPConfig list" where
  "mspsOf pb items = map snd (valuesFor ''MSP'' (unmarshalMSPConfig pb) items)"

definition anchorsOf :: "cfg_protos \<Rightarrow> (string \<times> string \<times> bytes) list \<Rightarrow> OrgAnchorPeer list" where
  "anchorsOf pb items = concat (map (\<lambda>(org, aps). map (\<lambda>(host, port). \<lparr>oapOrg = org, oapHost = host, oapPort = port\<rparr>) aps)
     (valuesFor ''AnchorPeers'' (unmarshalAnchorPeers pb) items))"

definition orderersOf :: "cfg_protos \<Rightarrow> (string \<times> string \<times> bytes) list \<Rightarrow> string list" where
  "orderersOf pb items = concat (map snd (valuesFor ''OrdererAddresses'' (unmarshalOrdererAddresses pb) items))"

definition capsOf :: "cfg_protos \<Rightarrow> (string \<times> string \<times> bytes) list \<Rightarrow> string \<rightharpoonup> string list" where
  "capsOf pb items = map_of (rev (valuesFor ''Capabilities'' (unmarshalCapabilities pb) items))"

definition withItems :: "cfg_protos \<Rightarrow> (string \<times> string \<times> bytes) list \<Rightarrow> ChannelCfg \<Rightarrow> ChannelCfg" where
  "withItems pb items cfg = cfg\<lparr>cfgMSPs := cfgMSPs cfg @ mspsOf pb items, cfgAnchorPeers := cfgAnchorPeers cfg @ anchorsOf pb items,
     cfgOrderers := cfgOrderers cfg @ orderersOf pb items, cfgCapabilities := cfgCapabilities cfg ++ capsOf pb items\<rparr>"

lemmas contributions = valuesFor_def mspsOf_def anchorsOf_def orderersOf_def capsOf_def

lemma withItems_Nil: "withItems pb [] cfg = cfg"
  by (simp add: withItems_def contributions map_filter_simps)

lemma withItems_append: "withItems pb (xs @ ys) cfg = withItems pb ys (withItems pb xs cfg)"
  by (simp add: withItems_def contributions List.map_filter_def)

lemma loadItem_eq: "loadItem pb item cfg = (if loadable pb item then Inr (withItems pb [item] cfg) else Inl (projl (loadItem pb item cfg)))"
  by (cases item) (auto simp: loadItem_def loadable_def loadConfigItem_def loadAnchorPeers_def loadMSPKey_def loadCapabilities_def
      loadOrdererAddressesKey_def withItems_def contributions map_filter_simps split: sum.splits)

lemma foldE_loadItem:
  "if list_all (loadable pb) items then foldE (loadItem pb) items cfg = Inr (withItems pb items cfg)
   else (\<exists>e. foldE (loadItem pb) items cfg = Inl e)"
proof (induction items arbitrary: cfg)
  case (Cons item items)
  show ?case
  proof (cases "loadable pb item")
    case True
    then have "loadItem pb item cfg = Inr (withItems pb [item] cfg)" using loadItem_eq [of pb item cfg] by simp
    with Cons.IH [of "withItems pb [item] cfg"] True show ?thesis
      using withItems_append [of pb "[item]" items cfg] by (auto split: if_splits)
  next
    case False
    then have "\<exists>e. loadItem pb item cfg = Inl e" using loadItem_eq [of pb item cfg] by auto
    with False show ?thesis by auto
  qed
qed (simp add: withItems_Nil)

lemma extractConfig_facts:
  assumes "DataData blk = tx # rest" "CreateConfigEnvelope rp tx = Inr env" "envelopeConfig pb env = Some (Some g)"
  shows "if list_all (loadable pb) (treeValues '''' g)
    then extractConfig pb rp channelID blk = Inr \<lparr>cfgID = channelID, cfgBlockNumber = HeaderNumber blk,
      cfgMSPs = mspsOf pb (treeValues '''' g), cfgAnchorPeers = anchorsOf pb (treeValues '''' g),
      cfgOrderers = orderersOf pb (treeValues '''' g), cfgVersions = versionsOf g, cfgCapabilities = capsOf pb (treeValues '''' g)\<rparr>
    else (\<exists>e. extractConfig pb rp channelID blk = Inl (Err (ErrWithMessage ''load config items from config group failed'' e)))"
  using assms foldE_loadItem [of pb "treeValues '''' g" "\<lparr>cfgID = channelID, cfgBlockNumber = HeaderNumber blk, cfgMSPs = [],
      cfgAnchorPeers = [], cfgOrderers = [], cfgVersions = NewConfigGroup, cfgCapabilities = Map.empty\<rparr>"]
  by (auto simp: extractConfig_def loadConfig_fold Let_def withItems_def split: if_splits)


section \<open>Capabilities of one-digit versions\<close>

definition digit :: "nat \<Rightarrow> char" where
  "digit n = char_of (48 + n)"

definition versionCap :: "nat \<times> nat \<Rightarrow> string" where
  "versionCap = (\<lambda>(major, minor). [CHR ''V'', digit major, CHR ''_'', digit minor])"

lemma digit_less: "a < 10 \<Longrightarrow> b < 10 \<Longrightarrow> (digit a < digit b) = (a < b)"
  by (simp add: digit_def less_char_def)

lemma isDigit_digit: "n < 10 \<Longrightarrow> isDigit (digit n)"
  by (simp add: isDigit_def digit_def)

lemma versionCap_less:
  "a < 10 \<Longrightarrow> b < 10 \<Longrightarrow> a' < 10 \<Longrightarrow> b' < 10 \<Longrightarrow> (versionCap (a, b) < versionCap (a', b')) = (a < a' \<or> a = a' \<and> b < b')"
  using digit_less [of a a'] digit_less [of a' a] digit_less [of b b'] by (auto simp: versionCap_def)

lemma versionCap_is: "a < 10 \<Longrightarrow> b < 10 \<Longrightarrow> isVersionCapability (versionCap (a, b))"
  by (simp add: isVersionCapability_def versionCap_def isDigit_digit)

text \<open>
  For versions with one-digit numbers a capability is supported exactly when the group has a capability with that
  version or a later one.
\<close>

theorem HasCapability_versions:
  assumes "cfgCapabilities cfg grp = Some (map versionCap versions)" "\<forall>(a, b) \<in> set versions. a < 10 \<and> b < 10" "major < 10" "minor < 10"
  shows "HasCapability cfg grp (versionCap (major, minor)) \<longleftrightarrow>
    (\<exists>(a, b) \<in> set versions. major < a \<or> major = a \<and> minor \<le> b)"
proof -
  have less: "versionCap (major, minor) < versionCap (a, b) \<longleftrightarrow> major < a \<or> major = a \<and> minor < b" if "(a, b) \<in> set versions" for a b
    using versionCap_less [of major minor a b] assms(2-4) that by auto
  have same: "versionCap (major, minor) = versionCap (a, b) \<longleftrightarrow> major = a \<and> minor = b" if "(a, b) \<in> set versions" for a b
  proof -
    have "a < 10" "b < 10" using assms(2) that by auto
    with versionCap_less [of major minor a b] versionCap_less [of a b major minor] assms(3,4) show ?thesis by (auto simp: less_irrefl)
  qed
  have is_version: "isVersionCapability (versionCap v)" if "v \<in> set versions" for v
    using assms(2) that versionCap_is by (cases v) auto
  have "HasCapability cfg grp (versionCap (major, minor)) \<longleftrightarrow>
      (\<exists>v \<in> set versions. versionCap (major, minor) = versionCap v \<or> versionCap (major, minor) < versionCap v)"
    using versionCap_is [OF assms(3,4)] is_version by (auto simp: HasCapability_def assms(1) list_ex_iff)
  also have "\<dots> \<longleftrightarrow> (\<exists>(a, b) \<in> set versions. major < a \<or> major = a \<and> minor \<le> b)"
    using less same by (fastforce simp: order_le_less)
  finally show ?thesis .
qed

text \<open>With more digits it is not: the names are compared as strings.\<close>

lemma capability_compared_as_string:
  "cfgCapabilities cfg grp = Some [''V1_10''] \<Longrightarrow> \<not> HasCapability cfg grp ''V1_2''"
  by (simp add: HasCapability_def less_char_def)

section \<open>The query\<close>

lemma sameMSPPeers_in:
  "sameMSPPeers new mspID ps = Inr (Some ts) \<Longrightarrow> t \<in> set ts \<Longrightarrow> MSPID t = mspID \<and> (\<exists>p \<in> set ps. new p = Inr (Some t))"
proof (induction ps arbitrary: ts)
  case (Cons p ps)
  then show ?case by (auto split: sum.splits option.splits if_splits)
qed simp

lemma randomMaxTargets_in:
  assumes "randomMaxTargets src ts mx = Inr ts'"
  shows "set ts' \<subseteq> set ts \<and> int (length ts') = min (int (length ts)) mx"
proof -
  have "set (lc_shuffle src ts) = set ts" "length (lc_shuffle src ts) = length ts"
    using lc_shuffle_mset [of src ts] by (metis set_mset_mset, metis size_mset)
  with assms show ?thesis
    by (auto simp: randomMaxTargets_def min_def split: if_splits dest: in_set_takeD)
qed

lemma liftErr_Inr: "liftErr r = Inr a \<longleftrightarrow> r = Inr a"
  by (cases r) (simp_all add: liftErr_def)

lemma targetsFromConfig_in:
  assumes "calculateTargetsFromConfig c ch mx = Inr ts"
  shows "\<forall>t \<in> set ts. MSPID t = ccMSPID c \<and> (\<exists>p \<in> set (ccChannelPeers c ch). ccNewPeer c p = Inr (Some t))"
proof -
  from assms consider "ts = []" | ts0 where "sameMSPPeers (ccNewPeer c) (ccMSPID c) (ccChannelPeers c ch) = Inr (Some ts0)" "randomMaxTargets (ccRand c) ts0 mx = Inr ts"
    by (auto simp: calculateTargetsFromConfig_def bindO_eq_Inr liftErr_Inr split: if_splits option.splits)
  then show ?thesis by cases (auto dest: sameMSPPeers_in dest!: randomMaxTargets_in)
qed

text \<open>The peers that a query may ask: the named ones, or the configured peers of the channel in the MSP of the client.\<close>

definition askedPeers :: "'p chc_ext \<Rightarrow> string \<Rightarrow> chc_opts \<Rightarrow> peer set" where
  "askedPeers c ch o1 = (case ccTargets o1 of Some ts \<Rightarrow> set ts
     | None \<Rightarrow> {t. MSPID t = ccMSPID c \<and> (\<exists>p \<in> set (ccChannelPeers c ch). ccNewPeer c p = Inr (Some t))})"

lemma queryBlockFromPeers_agreed:
  assumes "queryBlockFromPeers c k ch o1 = (o2, Some (Inr blk))"
  shows "o2 = resolveOptsFromConfig (ccPolicy c ch) o1 \<and> (\<exists>targets n qs blocks tx. set targets \<subseteq> askedPeers c ch o1 \<and>
    answeredBy (resNet (ccRes c) k n) targets (\<lambda>r b. TPRStatus r = 200 \<and> createCommonBlock (ccLedger c) r = Inr b) qs blocks \<and>
    0 < ccMinResponses o2 \<and> ccMinResponses o2 \<le> int (length blocks) \<and> blk = hd blocks \<and> (\<forall>b \<in> set blocks. DataData b = [tx]))"
proof -
  from assms have o2: "o2 = resolveOptsFromConfig (ccPolicy c ch) o1"
    by (auto simp: queryBlockFromPeers_def Let_def errM_def split: if_splits)
  have same: "ccTargets o2 = ccTargets o1" by (simp add: o2 resolveOptsFromConfig_def)
  from assms obtain targets where
    t: "(case ccTargets o2 of None \<Rightarrow> calculateTargetsFromConfig c ch (ccMaxTargets o2) | Some ts \<Rightarrow> Inr ts) = Inr targets"
    and q: "resRetry (ccRes c) (ccRetryOpts o2) (\<lambda>n. ledger_QueryConfigBlock (resErr (ccRes c)) (ccLedger c) (resNet (ccRes c) k n) ch
       (map PeerProcessor targets) (TransactionProposalResponseVerifier (ccLedger c) (ccMinResponses o2))) = Some (Inr blk)"
    unfolding o2 by (auto simp: queryBlockFromPeers_def Let_def errM_def bindM_Inr msgM_Inr split: if_splits)
  from t have "set targets \<subseteq> askedPeers c ch o1"
    using targetsFromConfig_in [of c ch "ccMaxTargets o2" targets] same by (auto simp: askedPeers_def split: option.splits)
  moreover from resRetry_last [OF q] obtain n where "ledger_QueryConfigBlock (resErr (ccRes c)) (ccLedger c) (resNet (ccRes c) k n) ch
       (map PeerProcessor targets) (TransactionProposalResponseVerifier (ccLedger c) (ccMinResponses o2)) = Inr blk" by blast
  from config_block_agreed [OF this] obtain qs blocks tx where
    "answeredBy (resNet (ccRes c) k n) targets (\<lambda>r b. TPRStatus r = 200 \<and> createCommonBlock (ccLedger c) r = Inr b) qs blocks"
    "0 < ccMinResponses o2" "ccMinResponses o2 \<le> int (length blocks)" "blk = hd blocks" "\<forall>b \<in> set blocks. DataData b = [tx]" by blast
  ultimately show ?thesis using o2 by blast
qed

text \<open>
  C28. The configuration of a channel that a query of its peers returns is extracted from a block that is agreed on: in the
  last attempt at least the resolved \<open>MinResponses\<close> of the named peers, or of the configured peers of the client's MSP,
  with different URLs, answered with status 200 and a block that holds this one configuration transaction.
\<close>

theorem channel_config_agreed:
  assumes "ccOrderer o1 = None" "cc_Query c k ch o1 = (o2, Some (Inr cfg))"
  shows "\<exists>targets n qs blocks tx. set targets \<subseteq> askedPeers c ch o1 \<and>
    answeredBy (resNet (ccRes c) k n) targets (\<lambda>r b. TPRStatus r = 200 \<and> createCommonBlock (ccLedger c) r = Inr b) qs blocks \<and>
    0 < ccMinResponses o2 \<and> ccMinResponses o2 \<le> int (length blocks) \<and> (\<forall>b \<in> set blocks. DataData b = [tx]) \<and>
    extractConfig (ccProtos c) (resProtos (ccRes c)) ch (hd blocks) = Inr cfg"
proof -
  from assms obtain blk where "queryBlockFromPeers c k ch o1 = (o2, Some (Inr blk))"
    and "extractConfig (ccProtos c) (resProtos (ccRes c)) ch blk = Inr cfg"
    by (auto simp: cc_Query_def queryPeers_def bindM_Inr msgM_Inr split: prod.splits)
  with queryBlockFromPeers_agreed [OF this(1)] show ?thesis by blast
qed

text \<open>Unlike \<open>QueryConfigBlock\<close>, the query of the ledger client for the configuration keeps to \<open>MinTargets\<close>.\<close>

lemma lc_QueryConfig_agreed:
  assumes "lc_QueryConfig x c k options = Some (Inr cfg)"
  shows "\<exists>targets o1 n qs blocks tx. lc_prepareRequestParams c options = Inr (targets, o1) \<and>
    answeredBy (resNet (ccRes x) k n) targets (\<lambda>r b. TPRStatus r = 200 \<and> createCommonBlock (ccLedger x) r = Inr b) qs blocks \<and>
    lcMinTargets o1 \<le> int (length blocks) \<and> (\<forall>b \<in> set blocks. DataData b = [tx]) \<and>
    extractConfig (ccProtos x) (resProtos (ccRes x)) (lcChannel c) (hd blocks) = Inr cfg"
proof -
  from assms obtain targets o1 where p: "lc_prepareRequestParams c options = Inr (targets, o1)"
    and q: "snd (cc_Query x k (lcChannel c) \<lparr>ccOrderer = None, ccTargets = Some targets, ccMinResponses = lcMinTargets o1,
        ccMaxTargets = 0, ccRetryOpts = no_retry\<rparr>) = Some (Inr cfg)"
    by (auto simp: lc_QueryConfig_def bindM_Inr cc_prepareOpts_def cc_WithPeers_def cc_WithMinResponses_def withMsgE_def)
  have min: "lcMinTargets o1 \<noteq> 0" using p by (auto simp: lc_prepareRequestParams_def bindO_eq_Inr withMsgE_def dest: prepared_bounds split: sum.splits)
  let ?o = "\<lparr>ccOrderer = None, ccTargets = Some targets, ccMinResponses = lcMinTargets o1, ccMaxTargets = 0, ccRetryOpts = no_retry\<rparr>"
  from q obtain o2 blk where "queryBlockFromPeers x k (lcChannel c) ?o = (o2, Some (Inr blk))"
    and e: "extractConfig (ccProtos x) (resProtos (ccRes x)) (lcChannel c) blk = Inr cfg"
    by (auto simp: cc_Query_def queryPeers_def bindM_Inr msgM_Inr split: prod.splits)
  have asked: "askedPeers x (lcChannel c) ?o = set targets" by (simp add: askedPeers_def)
  from queryBlockFromPeers_agreed [OF \<open>queryBlockFromPeers x k (lcChannel c) ?o = _\<close>] obtain ts n qs blocks tx where o2: "o2 = resolveOptsFromConfig (ccPolicy x (lcChannel c)) ?o"
    and ts: "set ts \<subseteq> set targets"
    and a: "answeredBy (resNet (ccRes x) k n) ts (\<lambda>r b. TPRStatus r = 200 \<and> createCommonBlock (ccLedger x) r = Inr b) qs blocks"
    and m: "ccMinResponses o2 \<le> int (length blocks)" and b: "blk = hd blocks" "\<forall>b \<in> set blocks. DataData b = [tx]"
    unfolding asked by blast
  have "ccMinResponses o2 = lcMinTargets o1" using min by (simp add: o2 resolveOptsFromConfig_def)
  moreover have "answeredBy (resNet (ccRes x) k n) targets (\<lambda>r b. TPRStatus r = 200 \<and> createCommonBlock (ccLedger x) r = Inr b) qs blocks"
    using a ts by (auto simp: answeredBy_def)
  ultimately show ?thesis using p m b e by (metis (no_types, lifting))
qed

text \<open>A query returns when the number of attempts is not negative.\<close>

lemma resolve_attempts:
  "0 \<le> Attempts (ccRetryOpts o1) \<Longrightarrow> 0 \<le> Attempts (qRetryOpts policy) \<Longrightarrow> 0 \<le> Attempts (ccRetryOpts (resolveOptsFromConfig policy o1))"
  by (simp add: resolveOptsFromConfig_def cc_applyDefaultOpts_def resolveRetryOptsFromConfig_def)

lemma queryPeers_returns:
  assumes "0 \<le> Attempts (ccRetryOpts o1)" "0 \<le> Attempts (qRetryOpts (ccPolicy c ch))"
  shows "snd (queryPeers c k ch o1) \<noteq> None"
proof -
  note ro = resolve_attempts [OF assms]
  have "snd (queryBlockFromPeers c k ch o1) \<noteq> None"
    unfolding queryBlockFromPeers_def Let_def if_distrib [of snd] snd_conv
    by (intro ends resRetry_returns ro)
  then show ?thesis unfolding queryPeers_def split_beta Let_def snd_conv by (intro ends)
qed

section \<open>A small channel\<close>

text \<open>A channel with one organization, whose peer \<open>a\<close> answers with its configuration block.\<close>

definition test_cp :: cfg_protos where
  "test_cp = \<lparr>envelopeConfig = (\<lambda>_. Some (Some (test_config [(''Org1'', test_org 1)]))), unmarshalAnchorPeers = (\<lambda>_. Inr [(''h'', 7051)]),
     unmarshalMSPConfig = (\<lambda>b. Inr \<lparr>mcType = 0, mcConfig = b\<rparr>), unmarshalOrdererAddresses = (\<lambda>_. Inr [''o1:7050'']),
     unmarshalCapabilities = (\<lambda>_. Inr [''V1_4''])\<rparr>"

definition test_chc :: "string chc_ext" where
  "test_chc = \<lparr>ccRes = test_res, ccLedger = lcProtos test_lc, ccProtos = test_cp,
     ccPolicy = (\<lambda>_. \<lparr>qMinResponses = 1, qMaxTargets = 2, qRetryOpts = no_retry\<rparr>), ccChannelPeers = (\<lambda>_. [''a'']),
     ccNewPeer = (\<lambda>u. Inr (Some (test_peer u))), ccMSPID = ''Org1MSP'', ccRand = (\<lambda>n m. 0)\<rparr>"

definition test_cco :: chc_opts where
  "test_cco = \<lparr>ccOrderer = None, ccTargets = None, ccMinResponses = 0, ccMaxTargets = 0, ccRetryOpts = no_retry\<rparr>"

lemma test_envelope: "CreateConfigEnvelope test_protos [1] = Inr []"
  by (simp add: CreateConfigEnvelope_def configMessage_def test_protos_def config_pb_def wrapE_def)

lemma test_values: "treeValues '''' (test_config [(''Org1'', test_org 1)]) = [(''Org1'', ''MSP'', [1])]"
  by (simp add: test_config_def test_org_def)

lemma test_loadable: "list_all (loadable test_cp) (treeValues '''' (test_config [(''Org1'', test_org 1)]))"
  by (simp add: test_values loadable_def test_cp_def FABRIC_def)

lemma test_cp_config: "envelopeConfig test_cp b = Some (Some (test_config [(''Org1'', test_org 1)]))"
  by (simp add: test_cp_def)

lemma test_extract: "\<exists>cfg. extractConfig test_cp test_protos ''ch'' test_blk = Inr cfg"
  using extractConfig_facts [OF _ test_envelope test_cp_config, of test_blk "[]" "''ch''"] test_loadable by (simp add: test_blk_def)


theorem HasCapability_versions_witness:
  "\<not> HasCapability \<lparr>cfgID = ''ch'', cfgBlockNumber = 1, cfgMSPs = [], cfgAnchorPeers = [], cfgOrderers = [], cfgVersions = NewConfigGroup,
      cfgCapabilities = [''Application'' \<mapsto> map versionCap [(1, 4), (1, 1)]]\<rparr> ''Application'' (versionCap (2, 0))"
  using HasCapability_versions [of "\<lparr>cfgID = ''ch'', cfgBlockNumber = 1, cfgMSPs = [], cfgAnchorPeers = [], cfgOrderers = [], cfgVersions = NewConfigGroup,
      cfgCapabilities = [''Application'' \<mapsto> map versionCap [(1, 4), (1, 1)]]\<rparr>" "''Application''" "[(1, 4), (1, 1)]" 2 0]
  by simp

lemma test_config_query:
  "ledger_QueryConfigBlock pkg_errors (lcProtos test_lc) test_net ''ch'' (map PeerProcessor [test_peer ''a''])
      (TransactionProposalResponseVerifier (lcProtos test_lc) 1) = Inr test_blk"
proof -
  have "queryChaincode pkg_errors test_net ''ch'' (createConfigBlockInvokeRequest ''ch'') [PeerProcessor (test_peer ''a'')]
      (Some (TransactionProposalResponseVerifier (lcProtos test_lc) 1)) = Inr ([test_response ''a''], None)"
    by (rule test_queryChaincode) (auto simp: createConfigBlockInvokeRequest_def ccRequest_def csccRequest_def TransactionProposalResponseVerifier_def)
  then show ?thesis
    by (simp add: ledger_QueryConfigBlock_def TransactionProposalResponseVerifier_def tprv_Match_def test_block test_blk_def)
qed

theorem channel_config_agreed_witness:
  "\<exists>o2 cfg. cc_Query test_chc 0 ''ch'' test_cco = (o2, Some (Inr cfg)) \<and>
     (\<exists>targets n qs (blocks :: block list). set targets \<subseteq> askedPeers test_chc ''ch'' test_cco \<and>
        answeredBy (resNet test_res 0 n) targets (\<lambda>r b. TPRStatus r = 200) qs blocks \<and> 1 \<le> length blocks)"
proof -
  let ?o2 = "resolveOptsFromConfig \<lparr>qMinResponses = 1, qMaxTargets = 2, qRetryOpts = no_retry\<rparr> test_cco"
  have o2: "ccTargets ?o2 = None" "ccMinResponses ?o2 = 1" "ccMaxTargets ?o2 = 2"
    by (simp_all add: resolveOptsFromConfig_def test_cco_def)
  have t: "calculateTargetsFromConfig test_chc ''ch'' 2 = Inr [test_peer ''a'']"
    by (simp add: calculateTargetsFromConfig_def test_chc_def liftErr_def randomMaxTargets_def) (simp add: test_peer_def)
  have f: "ccRes test_chc = test_res" "ccLedger test_chc = lcProtos test_lc" "ccProtos test_chc = test_cp"
    "ccPolicy test_chc ''ch'' = \<lparr>qMinResponses = 1, qMaxTargets = 2, qRetryOpts = no_retry\<rparr>" "resErr test_res = pkg_errors"
    "resProtos test_res = test_protos" "ccOrderer test_cco = None"
    by (simp_all add: test_chc_def test_res_def test_cco_def)
  have "queryBlockFromPeers test_chc 0 ''ch'' test_cco = (?o2, Some (Inr test_blk))"
    using test_config_query by (simp add: queryBlockFromPeers_def f o2 t msgM_def resRetry_success)
  then obtain cfg where q: "cc_Query test_chc 0 ''ch'' test_cco = (?o2, Some (Inr cfg))"
    using test_extract by (auto simp: cc_Query_def queryPeers_def f msgM_def withMsgO_def)
  from channel_config_agreed [OF f(7) q] obtain targets n qs blocks where "set targets \<subseteq> askedPeers test_chc ''ch'' test_cco"
    "answeredBy (resNet test_res 0 n) targets (\<lambda>r b. TPRStatus r = 200 \<and> createCommonBlock (lcProtos test_lc) r = Inr b) qs blocks" "1 \<le> int (length blocks)"
    unfolding f o2 by blast
  moreover from this(2) have "answeredBy (resNet test_res 0 n) targets (\<lambda>r b. TPRStatus r = 200) qs blocks"
    by (auto simp: answeredBy_def elim!: list_all2_mono)
  ultimately show ?thesis using q by fastforce
qed

end
