(* ===== verification/Membership.thy ===== *)
theory Membership
  imports ChConfig CertPool
begin

text \<open>
  Channel membership, \<^verbatim>\<open>pkg/fab/channel/membership\<close> (\<open>membership.go\<close>, \<open>reference.go\<close>) with \<open>ValidateCertificateDates\<close> of
  \<^verbatim>\<open>pkg/client/common/verifier\<close>: from the MSPs of a channel configuration a manager of identities is made, and the
  TLS certificates of the MSPs are added to the certificate pool of the endpoint configuration. The reference makes a
  new membership when a newer configuration block arrives. The MSP implementation, its manager, the encodings PEM and
  X.509 and the clock are the record \<open>mem_ext\<close> of parameters; the pool is passed through.
\<close>

record pemBlock =
  pbCertificate :: bool
  pbHeaders :: nat
  pbBytes :: bytes

text \<open>A parsed certificate: what the pool looks at, and its dates.\<close>

record parsedCert =
  pcSubject :: string
  pcRaw :: string
  NotBefore :: int
  NotAfter :: int

record msp =
  GetIdentifier :: "error + string"
  GetTLSRootCerts :: "bytes list"
  GetTLSIntermediateCerts :: "bytes list"

record identity =
  idValidate :: "unit outcome"
  idVerify :: "bytes \<Rightarrow> bytes \<Rightarrow> unit outcome"

record FabricMSPConfig =
  fmName :: string
  fmRootCerts :: "bytes list"

text \<open>\<open>clock\<close> gives the two readings of the clock when the certificate is checked; \<open>mspOrder\<close> is the order in which
  the code ranges over the names of the MSPs.\<close>

record mem_ext =
  pem_Decode :: "bytes \<Rightarrow> (pemBlock \<times> bytes) option"
  x509_Parse :: "bytes \<Rightarrow> error + parsedCert"
  clock :: "parsedCert \<Rightarrow> int \<times> int"
  unmarshalSerializedIdentity :: "bytes \<Rightarrow> error + bytes"
  unmarshalFabricMSPConfig :: "bytes \<Rightarrow> error + FabricMSPConfig"
  newMSP :: "error + unit"
  setupMSP :: "MSPConfig \<Rightarrow> error + msp"
  setupManager :: "msp list \<Rightarrow> error + (bytes \<Rightarrow> error + identity)"
  NewMSPManager :: "bytes \<Rightarrow> error + identity"
  mspOrder :: "string list \<Rightarrow> string list"
  systemPool :: "error + cert list"

record membership =
  mspManager :: "bytes \<Rightarrow> error + identity"
  msps :: "string list"

section \<open>Certificates\<close>

definition ValidateCertificateDates :: "mem_ext \<Rightarrow> parsedCert option \<Rightarrow> error option" where
  "ValidateCertificateDates x c =
     (case c of None \<Rightarrow> None
      | Some cert \<Rightarrow>
          if fst (clock x cert) < NotBefore cert then Some (ErrNew ''Certificate provided is not valid until later date'')
          else if snd (clock x cert) > NotAfter cert then Some (ErrNew ''Certificate provided has expired'')
          else None)"

definition areCertDatesValid :: "mem_ext \<Rightarrow> bytes \<Rightarrow> unit outcome" where
  "areCertDatesValid x serializedID =
     bindO (wrapE ''could not deserialize a SerializedIdentity'' (unmarshalSerializedIdentity x serializedID)) (\<lambda>idBytes.
     case pem_Decode x idBytes of None \<Rightarrow> Inl (Err (ErrNew ''could not decode the PEM structure''))
     | Some (bl, _) \<Rightarrow>
        bindO (liftErr (x509_Parse x (pbBytes bl))) (\<lambda>cert.
        case ValidateCertificateDates x (Some cert) of Some e \<Rightarrow> Inl (Err e) | None \<Rightarrow> Inr ()))"

text \<open>The loop over the blocks of one PEM text. \<open>pem.Decode\<close> returns a rest that is shorter than its input, so that the
  length of the text bounds the number of rounds.\<close>

fun pemLoop :: "mem_ext \<Rightarrow> nat \<Rightarrow> bytes \<Rightarrow> parsedCert list" where
  "pemLoop x 0 pemCerts = []"
| "pemLoop x (Suc n) pemCerts =
     (if pemCerts = [] then []
      else (case pem_Decode x pemCerts of None \<Rightarrow> []
      | Some (block, rest) \<Rightarrow>
          if \<not> pbCertificate block \<or> pbHeaders block \<noteq> 0 then pemLoop x n rest
          else (case x509_Parse x (pbBytes block) of Inl _ \<Rightarrow> pemLoop x n rest
          | Inr cert \<Rightarrow> if ValidateCertificateDates x (Some cert) \<noteq> None then pemLoop x n rest
                       else cert # pemLoop x n rest)))"

definition decodeCerts :: "mem_ext \<Rightarrow> bytes list \<Rightarrow> parsedCert list" where
  "decodeCerts x pemCertsList = concat (map (\<lambda>pem. pemLoop x (length pem) pem) pemCertsList)"

text \<open>Parsing makes a new certificate each time: the pointer is its position in the list.\<close>

definition asCerts :: "string \<Rightarrow> parsedCert list \<Rightarrow> cert list" where
  "asCerts name cs = map (\<lambda>(i, c). \<lparr>certPtr = [name, replicate i CHR ''i''], RawSubject = pcSubject c, Raw = pcRaw c\<rparr>) (enumerate 0 cs)"

definition addCertsToConfig :: "mem_ext \<Rightarrow> string \<Rightarrow> bytes list \<Rightarrow> certPool \<Rightarrow> certPool" where
  "addCertsToConfig x name pemCertsList p =
     (if pemCertsList = [] then p else pool_Add (map Some (asCerts name (decodeCerts x pemCertsList))) p)"

section \<open>Making a membership\<close>

definition getFabricConfig :: "mem_ext \<Rightarrow> MSPConfig \<Rightarrow> error + FabricMSPConfig" where
  "getFabricConfig x config =
     (case unmarshalFabricMSPConfig x (mcConfig config) of
        Inl e \<Rightarrow> Inl (Wrap ''unmarshal FabricMSPConfig from config failed'' e)
      | Inr fabricConfig \<Rightarrow>
          if fmName fabricConfig = '''' then Inl (ErrNew ''MSP Configuration missing name'')
          else if fmRootCerts fabricConfig = [] then
            Inl (ErrNew ''MSP Configuration missing root certificates required for validating signing certificates'')
          else Inr fabricConfig)"

definition loadMSP :: "mem_ext \<Rightarrow> MSPConfig \<Rightarrow> error + msp" where
  "loadMSP x config =
     (if mcType config \<noteq> FABRIC then Inl (ErrNew (''MSP type not supported: '' @ itoa (sint (mcType config))))
      else if mcConfig config = [] then
        Inl (ErrNew (''MSP configuration missing the payload in the '' @ [CHR 0x27] @ ''Config'' @ [CHR 0x27] @ '' property''))
      else (case getFabricConfig x config of Inl e \<Rightarrow> Inl e
      | Inr _ \<Rightarrow>
         (case newMSP x of Inl e \<Rightarrow> Inl (Wrap ''instantiate MSP failed'' e)
          | Inr _ \<Rightarrow>
         (case setupMSP x config of Inl e \<Rightarrow> Inl (Wrap ''configure MSP failed'' e)
          | Inr m \<Rightarrow>
         (case GetIdentifier m of Inl e \<Rightarrow> Inl (Wrap ''failed to get identifier'' e)
          | Inr _ \<Rightarrow> Inr m)))))"

definition loadMSPs :: "mem_ext \<Rightarrow> MSPConfig list \<Rightarrow> error + msp list" where
  "loadMSPs x mspConfigs = mapE (loadMSP x) mspConfigs"

definition tlsCerts :: "msp \<Rightarrow> bytes list" where
  "tlsCerts m = GetTLSRootCerts m @ GetTLSIntermediateCerts m"

definition certsByMsp :: "msp list \<Rightarrow> error + (string \<times> bytes list) list" where
  "certsByMsp ms =
     foldE (\<lambda>m tab. case GetIdentifier m of
         Inl e \<Rightarrow> Inl (ErrWithMessage ''MSPManager certpool setup failed'' e)
       | Inr mspName \<Rightarrow> Inr (AList.update mspName (tlsCerts m) tab)) ms []"

text \<open>The pool is rebuilt at the end, whether or not the channel has MSPs.\<close>

definition finishManager :: "mem_ext \<Rightarrow> (bytes \<Rightarrow> error + identity) \<Rightarrow> string list \<Rightarrow> certPool \<Rightarrow> certPool \<times> (error + membership)" where
  "finishManager x manager mspNames p =
     (case pool_Get (systemPool x) p of
        (p1, Inl e) \<Rightarrow> (p1, Inl e)
      | (p1, Inr _) \<Rightarrow> (p1, Inr \<lparr>mspManager = manager, msps = mspNames\<rparr>))"

definition createMSPManager :: "mem_ext \<Rightarrow> ChannelCfg \<Rightarrow> certPool \<Rightarrow> certPool \<times> (error + membership)" where
  "createMSPManager x cfg p =
     (if cfgMSPs cfg = [] then finishManager x (NewMSPManager x) [] p
      else (case loadMSPs x (cfgMSPs cfg) of Inl e \<Rightarrow> (p, Inl (ErrWithMessage ''load MSPs from config failed'' e))
      | Inr ms \<Rightarrow>
         (case setupManager x ms of Inl e \<Rightarrow> (p, Inl (ErrWithMessage ''MSPManager Setup failed'' e))
          | Inr manager \<Rightarrow>
         (case certsByMsp ms of Inl e \<Rightarrow> (p, Inl e)
          | Inr tab \<Rightarrow>
              let names = mspOrder x (map fst tab) in
              finishManager x manager (map ToLower names)
                (fold (\<lambda>name. addCertsToConfig x name (the (map_of tab name))) names p)))))"

definition membership_New :: "mem_ext \<Rightarrow> ChannelCfg \<Rightarrow> certPool \<Rightarrow> certPool \<times> (error + membership)" where
  "membership_New x cfg p = createMSPManager x cfg p"

section \<open>Using a membership\<close>

definition mem_Validate :: "mem_ext \<Rightarrow> membership \<Rightarrow> bytes \<Rightarrow> unit outcome" where
  "mem_Validate x i serializedID =
     bindO (areCertDatesValid x serializedID) (\<lambda>_.
     bindO (liftErr (mspManager i serializedID)) (\<lambda>id. idValidate id))"

definition mem_Verify :: "membership \<Rightarrow> bytes \<Rightarrow> bytes \<Rightarrow> bytes \<Rightarrow> unit outcome" where
  "mem_Verify i serializedID msg sig = bindO (liftErr (mspManager i serializedID)) (\<lambda>id. idVerify id msg sig)"

definition ContainsMSP :: "membership \<Rightarrow> string \<Rightarrow> bool" where
  "ContainsMSP i m \<longleftrightarrow> list_ex (\<lambda>v. v = ToLower m) (msps i)"

section \<open>The reference\<close>

record mem_ref =
  configBlockNumber :: uint64
  refMem :: "membership option"

text \<open>The initializer, given what the reference to the channel configuration returns. When making the membership fails
  the field \<open>mem\<close> is nil afterwards.\<close>

definition memRef_initializer ::
  "mem_ext \<Rightarrow> error + ChannelCfg \<Rightarrow> mem_ref \<times> certPool \<Rightarrow> (mem_ref \<times> certPool) \<times> (error + membership)" where
  "memRef_initializer x chConfig = (\<lambda>(ref, p).
     case chConfig of Inl e \<Rightarrow> ((ref, p), Inl (ErrWithMessage ''could not get channel config from reference'' e))
     | Inr cfg \<Rightarrow>
        if refMem ref = None \<or> cfgBlockNumber cfg > configBlockNumber ref then
          (case membership_New x cfg p of
             (p1, Inl e) \<Rightarrow> ((ref\<lparr>refMem := None\<rparr>, p1), Inl e)
           | (p1, Inr m) \<Rightarrow> ((\<lparr>configBlockNumber = cfgBlockNumber cfg, refMem = Some m\<rparr>, p1), Inr m))
        else ((ref, p), Inr (the (refMem ref))))"

section \<open>Decoding certificates\<close>

text \<open>The documented behaviour of \<open>pem.Decode\<close>: it consumes the block that it returns.\<close>

definition pem_consumes :: "mem_ext \<Rightarrow> bool" where
  "pem_consumes x \<longleftrightarrow> (\<forall>pem block rest. pem_Decode x pem = Some (block, rest) \<longrightarrow> length rest < length pem)"

text \<open>Then the loop ends before its bound: more rounds give the same certificates.\<close>

lemma pemLoop_enough:
  assumes "pem_consumes x" "length pem \<le> n" "length pem \<le> m"
  shows "pemLoop x n pem = pemLoop x m pem"
  using assms(2,3)
proof (induction n arbitrary: m pem)
  case 0
  then show ?case by (cases m) simp_all
next
  case (Suc n)
  show ?case
  proof (cases "pem = [] \<or> pem_Decode x pem = None")
    case True
    then show ?thesis by (cases m) auto
  next
    case False
    then obtain block rest m' where b: "pem_Decode x pem = Some (block, rest)" "pem \<noteq> []" "m = Suc m'"
      using Suc.prems(2) by (cases m) auto
    then have "length rest < length pem" using assms(1) by (simp add: pem_consumes_def)
    then have "pemLoop x n rest = pemLoop x m' rest" using Suc.prems b(3) by (intro Suc.IH) auto
    with b show ?thesis by (simp split: sum.split)
  qed
qed

lemma pemLoop_valid: "c \<in> set (pemLoop x n pem) \<Longrightarrow> ValidateCertificateDates x (Some c) = None"
proof (induction n arbitrary: pem)
  case (Suc n)
  then show ?case
    by (cases "pem_Decode x pem") (auto simp del: not_None_eq split: if_splits sum.splits)
qed simp

lemma decodeCerts_valid: "c \<in> set (decodeCerts x ps) \<Longrightarrow> ValidateCertificateDates x (Some c) = None"
  by (auto simp: decodeCerts_def dest: pemLoop_valid)

section \<open>The pool\<close>

lemma map_filter_Some: "List.map_filter id (map Some cs) = cs"
  by (induction cs) (simp_all add: map_filter_simps)

lemma asCerts_ok: "ptrs_ok (asCerts name cs)" "contents (asCerts name cs) = pcRaw ` set cs"
proof -
  show "ptrs_ok (asCerts name cs)"
    by (auto simp: ptrs_ok_def asCerts_def in_set_enumerate_eq)
  have "contents (asCerts name cs) = pcRaw ` snd ` set (enumerate 0 cs)"
    by (force simp: contents_def asCerts_def)
  then show "contents (asCerts name cs) = pcRaw ` set cs" by (simp flip: set_map)
qed

text \<open>A pool whose certificates are in the pool it hands out, or will be when it is asked.\<close>

definition pool_ready :: "certPool \<Rightarrow> bool" where
  "pool_ready p \<longleftrightarrow> index_ok p \<and> (dirty p \<or> contents (certs p) \<subseteq> contents (pool p))"

lemma pool_Add_ready:
  assumes "pool_ready p" "ptrs_ok cs"
  shows "pool_ready (pool_Add (map Some cs) p) \<and> contents (certs (pool_Add (map Some cs) p)) = contents (certs p) \<union> contents cs"
proof (cases "filterCerts p (map Some cs) = []")
  case True
  then have "pool_Add (map Some cs) p = p" by (simp add: pool_Add_def)
  with True assms filterCerts_content [of p "map Some cs"] show ?thesis by (simp add: pool_ready_def map_filter_Some)
next
  case False
  then have "cs \<noteq> []" by (auto simp: filterCerts_def map_filter_simps)
  with False have "pool_Add (map Some cs) p = storeCerts (filterCerts p (map Some cs)) p" by (simp add: pool_Add_def)
  then show ?thesis using assms filterCerts_content [of p "map Some cs"] index_ok_steps(1) [of p]
    by (simp add: pool_ready_def map_filter_Some)
qed

lemma addCertsToConfig_ready:
  assumes "pool_ready p"
  shows "pool_ready (addCertsToConfig x name ps p) \<and>
    contents (certs (addCertsToConfig x name ps p)) = contents (certs p) \<union> pcRaw ` set (decodeCerts x ps)"
  using pool_Add_ready [OF assms asCerts_ok(1), of name "decodeCerts x ps"] assms
  by (auto simp: addCertsToConfig_def asCerts_ok(2) decodeCerts_def)

lemma addCerts_fold:
  assumes "pool_ready p"
  shows "pool_ready (fold (\<lambda>n. addCertsToConfig x n (f n)) names p) \<and>
    contents (certs (fold (\<lambda>n. addCertsToConfig x n (f n)) names p)) = contents (certs p) \<union> (\<Union>n \<in> set names. pcRaw ` set (decodeCerts x (f n)))"
  using assms
proof (induction names arbitrary: p)
  case (Cons n names)
  from Cons.IH [of "addCertsToConfig x n (f n) p"] addCertsToConfig_ready [OF Cons.prems, of x n "f n"] show ?case
    by (simp add: Un_assoc)
qed simp

lemma pool_Get_ready:
  assumes "pool_Get sys p = (p1, Inr q)" "pool_ready p"
  shows "pool_ready p1 \<and> certs p1 = certs p \<and> contents (certs p) \<subseteq> contents (pool p1)"
  using assms by (auto simp: pool_Get_def pool_ready_def swapCertPool_def installPool_def Let_def split: if_splits sum.splits)

section \<open>The MSPs of a channel\<close>

definition mspTable :: "msp list \<Rightarrow> (string \<times> bytes list) list" where
  "mspTable ms = map (\<lambda>m. (projr (GetIdentifier m), tlsCerts m)) ms"

lemma certsByMsp_table:
  assumes "certsByMsp ms = Inr tab"
  shows "list_all (\<lambda>m. \<not> isl (GetIdentifier m)) ms \<and> distinct (map fst tab) \<and> map_of tab = map_of (rev (mspTable ms))"
proof -
  have "list_all (\<lambda>m. \<not> isl (GetIdentifier m)) ms \<and> (distinct (map fst tab0) \<longrightarrow> distinct (map fst tab)) \<and> map_of tab = map_of tab0 ++ map_of (rev (mspTable ms))"
    if "foldE (\<lambda>m tab. case GetIdentifier m of Inl e \<Rightarrow> Inl (ErrWithMessage ''MSPManager certpool setup failed'' e)
         | Inr mspName \<Rightarrow> Inr (AList.update mspName (tlsCerts m) tab)) ms tab0 = Inr tab" for tab0
    using that
  proof (induction ms arbitrary: tab0)
    case (Cons m ms)
    then obtain n where n: "GetIdentifier m = Inr n" by (auto split: sum.splits)
    with Cons show ?case
      by (auto simp: mspTable_def distinct_update map_add_def update_conv' fun_eq_iff split: option.splits)
  qed (simp add: mspTable_def)
  from this [of "[]"] assms [unfolded certsByMsp_def] show ?thesis by simp
qed

text \<open>The certificates of an MSP that no later one of the same name replaces.\<close>

lemma mspTable_member:
  assumes "distinct (map GetIdentifier ms)" "list_all (\<lambda>m. \<not> isl (GetIdentifier m)) ms" "m \<in> set ms"
  shows "map_of (rev (mspTable ms)) (projr (GetIdentifier m)) = Some (tlsCerts m)"
proof (rule map_of_is_SomeI)
  have "inj_on projr (set (map GetIdentifier ms))"
    using assms(2) by (auto simp: inj_on_def list_all_iff isl_def) (metis obj_sumE sum.collapse(2) sum.disc(2))
  then have "distinct (map projr (map GetIdentifier ms))" using assms(1) distinct_map by blast
  then show "distinct (map fst (rev (mspTable ms)))" by (simp add: mspTable_def rev_map [symmetric] comp_def)
  show "(projr (GetIdentifier m), tlsCerts m) \<in> set (rev (mspTable ms))" using assms(3) by (simp add: mspTable_def)
qed

text \<open>What making a membership has done: the MSPs of the configuration are loaded, known under their names in any case,
  and their certificates are in the pool.\<close>

definition trusted :: "mem_ext \<Rightarrow> ChannelCfg \<Rightarrow> certPool \<Rightarrow> certPool \<Rightarrow> membership \<Rightarrow> msp list \<Rightarrow> bool" where
  "trusted x cfg p p1 i ms \<longleftrightarrow> mapE (loadMSP x) (cfgMSPs cfg) = Inr ms \<and>
     (\<forall>name. ContainsMSP i name \<longleftrightarrow> (\<exists>m \<in> set ms. ToLower (projr (GetIdentifier m)) = ToLower name)) \<and>
     contents (certs p) \<subseteq> contents (pool p1) \<and>
     (distinct (map GetIdentifier ms) \<longrightarrow> (\<forall>m \<in> set ms. pcRaw ` set (decodeCerts x (tlsCerts m)) \<subseteq> contents (pool p1))) \<and>
     (\<forall>r \<in> contents (certs p1). r \<in> contents (certs p) \<or> (\<exists>c. pcRaw c = r \<and> ValidateCertificateDates x (Some c) = None)) \<and>
     pool_ready p1"

lemma finishManager_Inr:
  "finishManager x manager names p = (p1, Inr i) \<Longrightarrow> (\<exists>q. pool_Get (systemPool x) p = (p1, Inr q)) \<and> i = \<lparr>mspManager = manager, msps = names\<rparr>"
  by (auto simp: finishManager_def split: prod.splits sum.splits)

lemma membership_trusted:
  assumes ready: "pool_ready p" and fair: "\<And>ns. set (mspOrder x ns) = set ns" and new: "membership_New x cfg p = (p1, Inr i)"
  shows "\<exists>ms. trusted x cfg p p1 i ms"
proof (cases "cfgMSPs cfg = []")
  case True
  with new obtain q where "pool_Get (systemPool x) p = (p1, Inr q)" "msps i = []"
    by (auto simp: membership_New_def createMSPManager_def dest!: finishManager_Inr)
  then show ?thesis using pool_Get_ready [OF _ ready] True
    by (intro exI [of _ "[]"]) (auto simp: trusted_def ContainsMSP_def)
next
  case False
  with new obtain ms manager tab where ms: "loadMSPs x (cfgMSPs cfg) = Inr ms" and tab: "certsByMsp ms = Inr tab"
    and fin: "finishManager x manager (map ToLower (mspOrder x (map fst tab)))
      (fold (\<lambda>name. addCertsToConfig x name (the (map_of tab name))) (mspOrder x (map fst tab)) p) = (p1, Inr i)"
    by (auto simp: membership_New_def createMSPManager_def Let_def split: sum.splits)
  let ?names = "mspOrder x (map fst tab)" and ?f = "\<lambda>name. the (map_of tab name)"
  let ?p = "fold (\<lambda>name. addCertsToConfig x name (?f name)) ?names p"
  from certsByMsp_table [OF tab] have ids: "list_all (\<lambda>m. \<not> isl (GetIdentifier m)) ms" and map_tab: "map_of tab = map_of (rev (mspTable ms))" by auto
  have "set (map fst tab) = dom (map_of tab)" by (simp add: dom_map_of_conv_image_fst)
  also have "\<dots> = (\<lambda>m. projr (GetIdentifier m)) ` set ms"
    by (simp add: map_tab dom_map_of_conv_image_fst mspTable_def image_image)
  finally have names: "set ?names = (\<lambda>m. projr (GetIdentifier m)) ` set ms" using fair by simp
  note added = addCerts_fold [OF ready, of x ?f ?names]
  from finishManager_Inr [OF fin] obtain q where get: "pool_Get (systemPool x) ?p = (p1, Inr q)" and i: "msps i = map ToLower ?names" by auto
  note got = pool_Get_ready [OF get conjunct1 [OF added]]
  have certs1: "contents (certs p1) = contents (certs p) \<union> (\<Union>n \<in> set ?names. pcRaw ` set (decodeCerts x (?f n)))"
    using added got by simp
  with got have all: "contents (certs p) \<union> (\<Union>n \<in> set ?names. pcRaw ` set (decodeCerts x (?f n))) \<subseteq> contents (pool p1)"
    by (metis (no_types, lifting) added)
  have "ContainsMSP i name \<longleftrightarrow> (\<exists>m \<in> set ms. ToLower (projr (GetIdentifier m)) = ToLower name)" for name
    unfolding ContainsMSP_def i list_ex_iff set_map names by blast
  moreover have "pcRaw ` set (decodeCerts x (tlsCerts m)) \<subseteq> contents (pool p1)" if "distinct (map GetIdentifier ms)" "m \<in> set ms" for m
  proof -
    have f: "?f (projr (GetIdentifier m)) = tlsCerts m" using mspTable_member [OF that(1) ids that(2)] by (simp add: map_tab)
    have "projr (GetIdentifier m) \<in> set ?names" using names that(2) by simp
    from UN_upper [OF this, of "\<lambda>n. pcRaw ` set (decodeCerts x (?f n))"] show ?thesis unfolding f using all by blast
  qed
  moreover have "r \<in> contents (certs p) \<or> (\<exists>c. pcRaw c = r \<and> ValidateCertificateDates x (Some c) = None)" if "r \<in> contents (certs p1)" for r
    using that unfolding certs1 by (auto dest: decodeCerts_valid)
  moreover have "contents (certs p) \<subseteq> contents (pool p1)" using all by blast
  ultimately show ?thesis using ms conjunct1 [OF got] unfolding trusted_def loadMSPs_def by (intro exI [of _ ms]) blast
qed


section \<open>Refreshing\<close>

definition refreshes :: "mem_ext \<Rightarrow> (error + ChannelCfg) list \<Rightarrow> mem_ref \<times> certPool \<Rightarrow> mem_ref \<times> certPool" where
  "refreshes x history s = fold (\<lambda>r s. fst (memRef_initializer x r s)) history s"

definition newRef :: mem_ref where
  "newRef = \<lparr>configBlockNumber = 0, refMem = None\<rparr>"

definition madeFrom :: "mem_ext \<Rightarrow> (error + ChannelCfg) list \<Rightarrow> mem_ref \<Rightarrow> bool" where
  "madeFrom x history ref \<longleftrightarrow> (\<forall>m. refMem ref = Some m \<longrightarrow> (\<exists>before cfg after q q1. history = before @ Inr cfg # after \<and>
     membership_New x cfg q = (q1, Inr m) \<and> configBlockNumber ref = cfgBlockNumber cfg \<and>
     (\<forall>cfg'. Inr cfg' \<in> set after \<longrightarrow> cfgBlockNumber cfg' \<le> cfgBlockNumber cfg)))"

lemma madeFrom_kept:
  assumes "madeFrom x history ref" "\<And>cfg. r = Inr cfg \<Longrightarrow> cfgBlockNumber cfg \<le> configBlockNumber ref"
  shows "madeFrom x (history @ [r]) ref"
  unfolding madeFrom_def
proof (intro allI impI)
  fix m
  assume "refMem ref = Some m"
  then obtain before cfg after q q1 where "history = before @ Inr cfg # after" "membership_New x cfg q = (q1, Inr m)"
    "configBlockNumber ref = cfgBlockNumber cfg" "\<forall>cfg'. Inr cfg' \<in> set after \<longrightarrow> cfgBlockNumber cfg' \<le> cfgBlockNumber cfg"
    using assms(1) unfolding madeFrom_def by blast
  then show "\<exists>before cfg after q q1. history @ [r] = before @ Inr cfg # after \<and> membership_New x cfg q = (q1, Inr m) \<and>
      configBlockNumber ref = cfgBlockNumber cfg \<and> (\<forall>cfg'. Inr cfg' \<in> set after \<longrightarrow> cfgBlockNumber cfg' \<le> cfgBlockNumber cfg)"
    using assms(2) by (intro exI [of _ before] exI [of _ cfg] exI [of _ "after @ [r]"] exI [of _ q] exI [of _ q1]) auto
qed

lemma madeFrom_step:
  assumes "madeFrom x history ref"
  shows "madeFrom x (history @ [r]) (fst (fst (memRef_initializer x r (ref, p))))"
proof (cases r)
  case (Inl e)
  then show ?thesis using madeFrom_kept [OF assms, of r] by (simp add: memRef_initializer_def)
next
  case (Inr cfg)
  show ?thesis
  proof (cases "refMem ref = None \<or> cfgBlockNumber cfg > configBlockNumber ref")
    case renew: True
    show ?thesis
    proof (cases "membership_New x cfg p")
      case (Pair p1 res)
      with renew Inr show ?thesis
        by (cases res) (force simp: memRef_initializer_def madeFrom_def)+
    qed
  next
    case False
    then show ?thesis using madeFrom_kept [OF assms, of r] by (auto simp: memRef_initializer_def Inr not_less)
  qed
qed

text \<open>
  C30. After any sequence of refreshes, in which reading the configuration or making a membership may fail, a membership
  that the reference holds was made from a configuration that was read, under the block number it remembers, and no
  configuration that was read since has a greater block number.
\<close>

theorem membership_newest:
  assumes "refreshes x history (newRef, p) = (ref, p1)" "refMem ref = Some m"
  shows "\<exists>before cfg after q q1. history = before @ Inr cfg # after \<and> membership_New x cfg q = (q1, Inr m) \<and>
    configBlockNumber ref = cfgBlockNumber cfg \<and> (\<forall>cfg'. Inr cfg' \<in> set after \<longrightarrow> cfgBlockNumber cfg' \<le> cfgBlockNumber cfg)"
proof -
  have "madeFrom x history (fst (refreshes x history (newRef, p)))" for history
  proof (induction history rule: rev_induct)
    case Nil
    then show ?case by (simp add: refreshes_def madeFrom_def newRef_def)
  next
    case (snoc r history)
    from madeFrom_step [OF snoc.IH, of r "snd (refreshes x history (newRef, p))"] show ?case
      by (simp add: refreshes_def)
  qed
  from this [of history] assms show ?thesis by (simp add: madeFrom_def)
qed

text \<open>But the block number may go back: when a newer configuration cannot be used the membership is forgotten, and the
  next configuration is taken even if it is older than the one before.\<close>

lemma membership_goes_back:
  assumes "refMem ref = Some m" "cfgBlockNumber newer > configBlockNumber ref" "membership_New x newer p = (p1, Inl e)"
    "membership_New x older p1 = (p2, Inr m')"
  shows "refreshes x [Inr newer, Inr older] (ref, p) = (\<lparr>configBlockNumber = cfgBlockNumber older, refMem = Some m'\<rparr>, p2)"
  using assms by (simp add: refreshes_def memRef_initializer_def)

section \<open>A small channel\<close>

definition test_mx :: mem_ext where
  "test_mx = \<lparr>pem_Decode = (\<lambda>b. case b of [] \<Rightarrow> None | c # r \<Rightarrow> Some (\<lparr>pbCertificate = True, pbHeaders = 0, pbBytes = [c]\<rparr>, r)),
     x509_Parse = (\<lambda>b. Inr \<lparr>pcSubject = ''CN=ca'', pcRaw = ''ca'', NotBefore = 0, NotAfter = 10\<rparr>), clock = (\<lambda>c. (5, 5)),
     unmarshalSerializedIdentity = Inr, unmarshalFabricMSPConfig = (\<lambda>b. Inr \<lparr>fmName = ''Org1MSP'', fmRootCerts = [b]\<rparr>), newMSP = Inr (),
     setupMSP = (\<lambda>c. Inr \<lparr>GetIdentifier = Inr ''Org1MSP'', GetTLSRootCerts = [mcConfig c], GetTLSIntermediateCerts = []\<rparr>),
     setupManager = (\<lambda>ms. Inr (\<lambda>b. Inl (ErrNew ''unknown''))), NewMSPManager = (\<lambda>b. Inl (ErrNew ''not set up'')),
     mspOrder = id, systemPool = Inr []\<rparr>"

definition test_mcfg :: "uint64 \<Rightarrow> ChannelCfg" where
  "test_mcfg n = \<lparr>cfgID = ''ch'', cfgBlockNumber = n, cfgMSPs = [\<lparr>mcType = 0, mcConfig = [1]\<rparr>], cfgAnchorPeers = [], cfgOrderers = [],
     cfgVersions = NewConfigGroup, cfgCapabilities = Map.empty\<rparr>"

lemma test_mx_consumes: "pem_consumes test_mx"
  by (auto simp: pem_consumes_def test_mx_def split: list.splits)

lemma test_msps: "mapE (loadMSP test_mx) (cfgMSPs (test_mcfg n)) =
    Inr [\<lparr>GetIdentifier = Inr ''Org1MSP'', GetTLSRootCerts = [[1]], GetTLSIntermediateCerts = []\<rparr>]"
  by (simp add: loadMSP_def test_mcfg_def test_mx_def FABRIC_def getFabricConfig_def)

lemma test_finish: "\<exists>p1 i. finishManager test_mx manager names p = (p1, Inr i)"
proof -
  have "systemPool test_mx = Inr []" by (simp add: test_mx_def)
  then show ?thesis
    by (simp add: finishManager_def pool_Get_def swapCertPool_def loadSystemCertPool_def Let_def)
qed

lemma test_mem: "\<exists>p1 i. membership_New test_mx (test_mcfg n) p = (p1, Inr i)"
proof -
  have "setupManager test_mx ms = Inr (\<lambda>b. Inl (ErrNew ''unknown''))" for ms by (simp add: test_mx_def)
  moreover have "cfgMSPs (test_mcfg n) \<noteq> []" by (simp add: test_mcfg_def)
  moreover have "certsByMsp [\<lparr>GetIdentifier = Inr ''Org1MSP'', GetTLSRootCerts = [[1]], GetTLSIntermediateCerts = []\<rparr>] = Inr [(''Org1MSP'', [[1]])]"
    by (simp add: certsByMsp_def tlsCerts_def)
  ultimately show ?thesis using test_msps [of n] by (simp add: membership_New_def createMSPManager_def loadMSPs_def Let_def test_finish)
qed

lemma new_pool_ready: "pool_ready new_pool"
  by (simp add: pool_ready_def new_pool_def index_ok_def)

lemma test_certs: "decodeCerts test_mx [[1]] = [\<lparr>pcSubject = ''CN=ca'', pcRaw = ''ca'', NotBefore = 0, NotAfter = 10\<rparr>]"
  by (simp add: decodeCerts_def test_mx_def ValidateCertificateDates_def)


theorem membership_newest_witness:
  "\<exists>ref m p1 before after. refreshes test_mx [Inr (test_mcfg 4), Inl (ErrNew ''no peer''), Inr (test_mcfg 3)] (newRef, new_pool) = (ref, p1) \<and>
     refMem ref = Some m \<and> configBlockNumber ref = 4 \<and>
     [Inr (test_mcfg 4), Inl (ErrNew ''no peer''), Inr (test_mcfg 3)] = before @ Inr (test_mcfg 4) # after"
proof -
  let ?h = "[Inr (test_mcfg 4), Inl (ErrNew ''no peer''), Inr (test_mcfg 3)]"
  obtain p1 m where new: "membership_New test_mx (test_mcfg 4) new_pool = (p1, Inr m)" using test_mem by blast
  have nums: "cfgBlockNumber (test_mcfg n) = n" for n by (simp add: test_mcfg_def)
  have run: "refreshes test_mx ?h (newRef, new_pool) = (\<lparr>configBlockNumber = 4, refMem = Some m\<rparr>, p1)"
    using new by (simp add: refreshes_def memRef_initializer_def newRef_def nums)
  from membership_newest [OF this] have "\<exists>before cfg after. ?h = before @ Inr cfg # after \<and> cfgBlockNumber cfg = 4" by fastforce
  then obtain before cfg after where h: "?h = before @ Inr cfg # after" "cfgBlockNumber cfg = 4" by blast
  then have "Inr cfg \<in> set ?h" by simp
  with h(2) have "cfg = test_mcfg 4" by (auto simp: nums)
  with h run show ?thesis by (intro exI [of _ "\<lparr>configBlockNumber = 4, refMem = Some m\<rparr>"] exI) auto
qed

end
