(* ===== verification/Spec2Isabelle.thy ===== *)
theory Spec2Isabelle
  imports Prelude Status Retry Balancing PGResolver FilteredBlock EventDispatcher EventProperties PeerResolver
    Greylist Txn Transactor Invoke ChannelClient EventClient EventConnection LazyCache LazyRef
    DynamicSelection DiscoveryClient FabricDiscovery FabricSelection Attempts
    Connector ConfigUpdate CertPool ConfigLookup EndpointConfig EndpointProperties
    Resource ResMgmt Ledger ChConfig Membership
begin

text \<open>
  Verification of the Hyperledger Fabric SDK for Go.

  \<^bold>\<open>The program.\<close> An application asks the channel client (\<^verbatim>\<open>pkg/client/channel\<close>) to query a chaincode or to
  execute a transaction. The client builds a chain of handlers (\<^verbatim>\<open>pkg/client/channel/invoke\<close>) and runs it under
  the retrying invoker (\<^verbatim>\<open>pkg/common/errors/retry\<close>). The handlers select endorsing peers
  (\<^verbatim>\<open>pkg/client/common/selection\<close>, over the discovery services of \<^verbatim>\<open>pkg/client/common/discovery\<close> and
  \<^verbatim>\<open>pkg/fab/discovery\<close>), send the proposal to each of them (\<^verbatim>\<open>pkg/fab/txn\<close>, \<^verbatim>\<open>pkg/fab/channel\<close>), compare and verify
  the endorsements, register for the status of the transaction with the event service (\<^verbatim>\<open>pkg/fab/events\<close>),
  broadcast the transaction to an orderer and wait for its commit. Peers that could not be reached are
  greylisted before the next attempt. Services are created on demand and cached
  (\<^verbatim>\<open>pkg/util/concurrent\<close>).

  \<^bold>\<open>Theories and sources.\<close>
  \<^item> \<open>Prelude\<close>: machine words, the pieces of Go's standard library used throughout (package \<^verbatim>\<open>strings\<close>, decimal
    printing, loops that stop at the first error, conversion of floats), and the outcome of a call: a value, an
    error or a panic.
  \<^item> \<open>Status\<close>: \<^verbatim>\<open>pkg/common/errors/status\<close> and \<^verbatim>\<open>multi\<close>, the values of Go's \<open>error\<close> interface.
  \<^item> \<open>Retry\<close>: \<^verbatim>\<open>pkg/common/errors/retry\<close>. The interface \<open>retry.Handler\<close> is the locale \<open>retry_handler\<close>, in which
    the invoker is shown to return after a bounded number of attempts.
  \<^item> \<open>Balancing\<close>: peers, the rolling counter as an interleaving of loads and compare-and-swaps, the balancers, the
    block height sorter. The locale \<open>load_balance_policy\<close> is the contract of a policy.
  \<^item> \<open>PGResolver\<close>: the peer group resolver; policies are compiled to groups, and the resolved group of peers is
    shown to satisfy the policy.
  \<^item> \<open>DynamicSelection\<close>: the dynamic and static selection services, the policy provider and its cache.
  \<^item> \<open>DiscoveryClient\<close>: Fabric's discovery client, its requests, responses, layouts and memoizing signer.
  \<^item> \<open>FabricDiscovery\<close>: the discovery services of the SDK over that client.
  \<^item> \<open>FabricSelection\<close>: the selection service over the discovery service, its filter and its peer sorters. The
    locales \<open>peer_sorter\<close> and \<open>total_sorter\<close> are the contract of a sorter, interpreted on the sorters of the code.
  \<^item> \<open>Greylist\<close>: endpoint addresses, the greylist filter and the endpoint filter.
  \<^item> \<open>Txn\<close>, \<open>Transactor\<close>: proposals, transactions, broadcast and delivery through orderers.
  \<^item> \<open>Invoke\<close>, \<open>ChannelClient\<close>: the handlers with a trace of their actions, and the client that retries them.
  \<^item> \<open>FilteredBlock\<close>, \<open>EventDispatcher\<close>, \<open>EventProperties\<close>: the event service; its handlers act on a dispatcher and on
    a heap of Go channels.
  \<^item> \<open>EventClient\<close>, \<open>EventConnection\<close>, \<open>PeerResolver\<close>: the client side of the event service: connecting, monitoring the
    connected peer, reconnecting, and the choice of the peer.
  \<^item> \<open>Connector\<close>: the cache of gRPC connections (\<^verbatim>\<open>pkg/fab/comm/connector.go\<close>) with its janitor, as a step relation.
  \<^item> \<open>ConfigUpdate\<close>: the computation of a channel configuration update from the original and the updated configuration
    (\<^verbatim>\<open>sdkinternal/configtxlator/update\<close>).
  \<^item> \<open>CertPool\<close>: the pool of TLS certificates (\<^verbatim>\<open>pkg/core/config/comm/tls\<close>), sequentially and under concurrent use.
  \<^item> \<open>ConfigLookup\<close>: lookup of configuration values over several backends, variables in paths, TLS material, timeouts.
  \<^item> \<open>EndpointConfig\<close>, \<open>EndpointProperties\<close>: the endpoint configuration (\<^verbatim>\<open>pkg/fab/endpointconfig.go\<close>), from the decoded
    sections to the lookups of peers, orderers and channels; its properties are proved over the stages of loading.
  \<^item> \<open>Attempts\<close>: the retrying invoker on calls that may panic.
  \<^item> \<open>Resource\<close>: channels, chaincode and blocks managed through the system chaincodes and the orderers (\<^verbatim>\<open>pkg/fab/resource\<close>).
  \<^item> \<open>ResMgmt\<close>: the resource management client (\<^verbatim>\<open>pkg/client/resmgmt\<close>): targets, join, install, deploy, save channel.
  \<^item> \<open>Ledger\<close>: the queries of the ledger (\<^verbatim>\<open>pkg/fab/channel\<close>) and of the ledger client (\<^verbatim>\<open>pkg/client/ledger\<close>). The locale
    \<open>matching_verifier\<close> is what the query for the configuration block relies on, interpreted on both verifiers.
  \<^item> \<open>ChConfig\<close>: the query of a channel's configuration and its extraction from the tree of the configuration block
    (\<^verbatim>\<open>pkg/fab/chconfig\<close>); the recursive loading is shown to be a fold over the values of the tree.
  \<^item> \<open>Membership\<close>: the membership of a channel, made from its configuration, and its refreshing (\<^verbatim>\<open>pkg/fab/channel/membership\<close>).
    The loop over a PEM text runs for at most as many rounds as the text has bytes, which is enough since \<open>pem.Decode\<close> consumes.
  \<^item> \<open>LazyCache\<close>, \<open>LazyRef\<close>: the concurrent lazy cache and lazy reference as step relations over the atomic
    actions of any number of Go routines.

  \<^bold>\<open>How the model corresponds to the code.\<close> A struct is a record, an interface with several implementations a
  datatype with one constructor for each, an error a value of the type \<open>error\<close>. A function that can fail returns a
  sum; where it can also panic (a nil dereference, an index out of range, a send on a closed channel) the left
  component says which. State is passed explicitly; a pointer that the code compares has an explicit address. Integers
  are words of their width where the code depends on it, and integers otherwise. Go ranges over a map in an
  unspecified order: the order is an argument, and theorems hold for every order. Go routines that share memory are
  step relations, and theorems hold for every reachable state.

  \<^bold>\<open>Parameters.\<close> What is not part of the repository is an argument: protobuf marshalling, gRPC, cryptography,
  regular expressions, the clock, the random source, the consumers of an event channel. Where a theorem relies on
  documented behaviour of such code this is a hypothesis with a name, and the witness of the theorem instantiates the
  parameter with a concrete function.

  \<^bold>\<open>What is shown.\<close>
  \<^item> Executing: every attempt registers for the transaction before it is sent and unregisters afterwards; an
    execution that succeeds was endorsed by matching, verified endorsements and committed as valid; a query sends no
    transaction; a retry does not ask a peer again that could not be reached.
  \<^item> Selection: the chosen endorsers satisfy the endorsement policies of all chaincodes of a request, or the layout
    of the discovery service.
  \<^item> Discovery: every result is filed under the query it answers, and the peers returned are those that the first
    good response names.
  \<^item> Events: the dispatcher never panics, delivers blocks in order and at most once, gives a registration only what
    it asked for, and closes every channel once.
  \<^item> Concurrency: the counter is linearizable, a key of the cache has at most one initialization under way,
    waiters get its result, and a lazy reference finalizes each value at most once.
  \<^item> Error behaviour: greylisting, the retry decision, the failure of orderers and peers, and the cases in which the
    code crashes or loses an error.
  \<^item> Endpoints: after loading every channel policy and every peer and orderer is complete, ignored endpoints are
    never handed out, the peers of a channel are usable, and loading crashes in one case only.
  \<^item> Configuration updates: the computed update, laid over the original configuration, gives the updated one.
  \<^item> Connections: a connection in use is open, none is lost by the cache, and the interleavings in which closing
    panics are exhibited.
  \<^item> Resource management: joining reports exactly the failed peers, an installation without an error has covered every
    target, a deployment succeeds only for a committed transaction, and the cases in which the targets are not those
    that the filters ask for.
  \<^item> Ledger queries: the returned block is the answer of at least the required number of different peers, and the targets
    are chosen within the bounds of the request.
  \<^item> Channel configuration: it comes from a block that enough peers agree on, and holds exactly the items of its tree.
  \<^item> Membership: it contains the MSPs of the configuration, whose valid certificates are in the TLS pool, and it is that of
    the newest configuration read since it was made.

  \<^bold>\<open>Bounds and fuel.\<close> All definitions are total. Loops of the code that are bounded by a counter recurse on it
  (the invoker on the attempts that are left, the connection on its attempts); loops over data recurse on the data.
  No fuel is used; waiting is a step that is enabled only when the awaited condition holds.

  \<^bold>\<open>Not modelled.\<close> Logging and metrics have no effect on results and are left out everywhere. Cryptography,
  X.509 certificates, MSP validation, HTTP requests to a Fabric CA and gRPC itself are bindings to libraries outside
  of the repository or pinned copies of Fabric code. The reading of configuration
  files, the new chaincode life cycle, the application's event client and the gateway, and the assembly of the SDK are not modelled.
\<close>

end
